(* ===== verification/Prelude.thy ===== *)
theory Prelude
  imports Main "HOL-Library.Word"
begin

text \<open>
  Shared vocabulary of the development: the machine types of the Rust sources, slices and
  their bounds-checked reads, saturating \<^verbatim>\<open>usize\<close> arithmetic, results, decimal rendering of
  counters, and the generic list and map lemmas the component theories use.  Rust's
  \<^verbatim>\<open>String\<close> is a HOL \<open>string\<close> whose characters are the bytes of its UTF-8 encoding, so
  \<open>length\<close> is \<^verbatim>\<open>String::len\<close>.
\<close>

named_theorems gateway_simps \<open>unfolding rules the component proofs share\<close>

subsection \<open>Machine integers\<close>

type_synonym u8 = "8 word"

definition usize_max :: nat where
  "usize_max = 2 ^ 64 - 1"

text \<open>\<^verbatim>\<open>usize::saturating_add\<close> and \<^verbatim>\<open>usize::saturating_sub\<close> on a 64-bit target.\<close>

definition sat_add :: "nat \<Rightarrow> nat \<Rightarrow> nat" where
  "sat_add a b = min usize_max (a + b)"

definition sat_sub :: "nat \<Rightarrow> nat \<Rightarrow> nat" where
  "sat_sub a b = a - b"

lemma sat_add_exceeds: "cap < usize_max \<Longrightarrow> cap < sat_add a b \<longleftrightarrow> cap < a + b"
  by (auto simp: sat_add_def)

lemma sat_add_exact: "sat_add a b \<le> cap \<Longrightarrow> cap < usize_max \<Longrightarrow> sat_add a b = a + b"
  by (auto simp: sat_add_def min_def split: if_splits)

lemma sat_add_le: "sat_add a b \<le> a + b"
  by (simp add: sat_add_def)

lemma sat_add_0: "a \<le> usize_max \<Longrightarrow> sat_add a 0 = a"
  by (simp add: sat_add_def)

text \<open>
  Unchecked \<^verbatim>\<open>i64\<close> arithmetic wraps, as in a release build.  A sum wrapped at every addition is the
  sum wrapped once.
\<close>

definition wrap_i64 :: "int \<Rightarrow> int" where
  "wrap_i64 n = sint (word_of_int n :: 64 word)"

lemma wrap_i64_0 [simp]: "wrap_i64 0 = 0"
  by (simp add: wrap_i64_def)

lemma wrap_i64_add [simp]: "wrap_i64 (wrap_i64 a + b) = wrap_i64 (a + b)"
  by (simp add: wrap_i64_def)

lemma wrap_i64_small: "- (2 ^ 63) \<le> n \<Longrightarrow> n < 2 ^ 63 \<Longrightarrow> wrap_i64 n = n"
  by (simp add: wrap_i64_def sint_sbintrunc' signed_take_bit_int_eq_self)

subsection \<open>Slices\<close>

text \<open>\<^verbatim>\<open>slice.get(i).copied()\<close>.\<close>

definition slice_get :: "'a list \<Rightarrow> nat \<Rightarrow> 'a option" where
  "slice_get xs i = (if i < length xs then Some (xs ! i) else None)"

lemma slice_get_Some: "i < length xs \<Longrightarrow> slice_get xs i = Some (xs ! i)"
  by (simp add: slice_get_def)

lemma slice_get_None: "length xs \<le> i \<Longrightarrow> slice_get xs i = None"
  by (simp add: slice_get_def)

lemma slice_get_drop: "slice_get (drop n xs) i = slice_get xs (n + i)"
  by (auto simp: slice_get_def)

lemma slice_get_append:
  "slice_get (xs @ ys) i =
     (if i < length xs then Some (xs ! i) else slice_get ys (i - length xs))"
  by (auto simp: slice_get_def nth_append)

lemma drop_slice_get:
  "drop i xs = (case slice_get xs i of None \<Rightarrow> [] | Some x \<Rightarrow> x # drop (Suc i) xs)"
  by (simp add: slice_get_def Cons_nth_drop_Suc)

subsection \<open>Results\<close>

text \<open>\<^verbatim>\<open>Result<T, E>\<close> is \<open>'e + 'a\<close> with the error on the left.\<close>

definition is_ok :: "'e + 'a \<Rightarrow> bool" where
  "is_ok r = (case r of Inl _ \<Rightarrow> False | Inr _ \<Rightarrow> True)"

lemma is_ok_simps [simp]: "is_ok (Inr x)" "\<not> is_ok (Inl e)"
  by (simp_all add: is_ok_def)

definition bind_res :: "'e + 'a \<Rightarrow> ('a \<Rightarrow> 'e + 'b) \<Rightarrow> 'e + 'b" where
  "bind_res r f = (case r of Inl e \<Rightarrow> Inl e | Inr x \<Rightarrow> f x)"

lemma bind_res_simps [simp]:
  "bind_res (Inl e) f = Inl e" "bind_res (Inr x) f = f x"
  by (simp_all add: bind_res_def)

lemma bind_res_Inr: "bind_res r f = Inr y \<longleftrightarrow> (\<exists>x. r = Inr x \<and> f x = Inr y)"
  by (cases r) auto

text \<open>\<^verbatim>\<open>iter.map(f).collect::<Result<Vec<_>, _>>()\<close>: the first error wins.\<close>

fun map_res :: "('a \<Rightarrow> 'e + 'b) \<Rightarrow> 'a list \<Rightarrow> 'e + 'b list" where
  "map_res f [] = Inr []"
| "map_res f (x # xs) =
     bind_res (f x) (\<lambda>y. bind_res (map_res f xs) (\<lambda>ys. Inr (y # ys)))"

lemma map_res_length: "map_res f xs = Inr ys \<Longrightarrow> length ys = length xs"
  by (induction xs arbitrary: ys) (auto simp: bind_res_Inr)

subsection \<open>Decimal rendering\<close>

text \<open>\<^verbatim>\<open>format!("{n}")\<close> of an unsigned integer.\<close>

fun show_nat :: "nat \<Rightarrow> string" where
  "show_nat n = (if n < 10 then [char_of (48 + n)]
                 else show_nat (n div 10) @ [char_of (48 + n mod 10)])"

declare show_nat.simps [simp del]

lemma show_nat_nonempty: "show_nat n \<noteq> []"
  by (subst show_nat.simps) simp

subsection \<open>Fresh identifiers\<close>

text \<open>
  \<^verbatim>\<open>Uuid::new_v4().simple()\<close>: the random UUIDs of a run, in the order they are drawn; code that
  draws them threads the position.
\<close>

type_synonym uuid_supply = "nat \<Rightarrow> string"

subsection \<open>Maps\<close>

text \<open>\<^verbatim>\<open>HashMap::remove\<close>: the removed value and the map without the key.\<close>

definition map_remove :: "'k \<Rightarrow> ('k \<rightharpoonup> 'v) \<Rightarrow> 'v option \<times> ('k \<rightharpoonup> 'v)" where
  "map_remove k m = (m k, m(k := None))"

lemma dom_map_remove [simp]: "dom (snd (map_remove k m)) = dom m - {k}"
  by (auto simp: map_remove_def)

subsection \<open>Steps that emit\<close>

text \<open>
  Code that updates a state and pushes events to an output vector: a step returns the new state
  and the events it pushed.
\<close>

definition no_step :: "'s \<Rightarrow> 's \<times> 'e list" where
  "no_step s = (s, [])"

definition then_emit :: "('s \<Rightarrow> 's \<times> 'e list) \<Rightarrow> ('s \<Rightarrow> 's \<times> 'e list) \<Rightarrow> 's \<Rightarrow> 's \<times> 'e list" where
  "then_emit f g s = (let (s1, e1) = f s; (s2, e2) = g s1 in (s2, e1 @ e2))"

fun emit_all :: "('a \<Rightarrow> 's \<Rightarrow> 's \<times> 'e list) \<Rightarrow> 'a list \<Rightarrow> 's \<Rightarrow> 's \<times> 'e list" where
  "emit_all f [] = no_step"
| "emit_all f (x # xs) = then_emit (f x) (emit_all f xs)"

lemma fst_then_emit: "fst (then_emit f g s) = fst (g (fst (f s)))"
  by (simp add: then_emit_def case_prod_beta Let_def)

lemma snd_then_emit: "snd (then_emit f g s) = snd (f s) @ snd (g (fst (f s)))"
  by (simp add: then_emit_def case_prod_beta Let_def)

lemma emit_all_append: "emit_all f (xs @ ys) s = then_emit (emit_all f xs) (emit_all f ys) s"
  by (induction xs arbitrary: s) (simp_all add: then_emit_def no_step_def case_prod_beta Let_def)

text \<open>
  An event-driven converter against what its client makes of the output: every step moves the
  client's view as the specification of the event says.
\<close>

locale stream_refinement =
  fixes step :: "'e \<Rightarrow> 's \<Rightarrow> 's \<times> 'o list"
    and spec :: "'e \<Rightarrow> 'a \<Rightarrow> 'a"
    and client :: "'c \<Rightarrow> 'o list \<Rightarrow> 'c option"
    and rel :: "'s \<Rightarrow> 'a \<Rightarrow> 'c \<Rightarrow> bool"
  assumes client_Nil: "client c [] = Some c"
    and client_append: "client c (xs @ ys) = Option.bind (client c xs) (\<lambda>c. client c ys)"
    and step_sim: "rel s a c \<Longrightarrow>
      \<exists>c'. client c (snd (step e s)) = Some c' \<and> rel (fst (step e s)) (spec e a) c'"
begin

lemma run_sim:
  "rel s a c \<Longrightarrow> \<exists>c'. client c (snd (emit_all step es s)) = Some c'
     \<and> rel (fst (emit_all step es s)) (fold spec es a) c'"
proof (induction es arbitrary: s a c)
  case Nil
  then show ?case by (simp add: no_step_def client_Nil)
next
  case (Cons e es)
  from step_sim [OF Cons.prems, of e] obtain c1 where
    c1: "client c (snd (step e s)) = Some c1" "rel (fst (step e s)) (spec e a) c1" by blast
  from Cons.IH [OF c1(2)] c1(1) show ?case
    by (auto simp: fst_then_emit snd_then_emit client_append)
qed

end

end
