(* ===== verification/App_Error.thy ===== *)
theory App_Error
  imports Prelude
begin

text \<open>
  The error values of \<^verbatim>\<open>src/src/error.rs\<close>: \<^verbatim>\<open>AppError\<close> with its HTTP status, operator
  message, client message, structured code and failover disposition, and its constructors.
\<close>

datatype failover_disposition = Failover | FailoverNoCooldown | Terminal

record app_error =
  err_status :: nat
  err_message :: string
  err_client_message :: string
  err_code :: "string option"
  err_failover :: failover_disposition

definition default_disposition :: failover_disposition where
  "default_disposition = Failover"

definition bad_request :: "string \<Rightarrow> app_error" where
  "bad_request msg = \<lparr>err_status = 400, err_message = msg, err_client_message = msg,
     err_code = None, err_failover = default_disposition\<rparr>"

definition not_found :: "string \<Rightarrow> app_error" where
  "not_found msg = \<lparr>err_status = 404, err_message = msg, err_client_message = msg,
     err_code = None, err_failover = default_disposition\<rparr>"

definition conflict :: "string \<Rightarrow> app_error" where
  "conflict msg = \<lparr>err_status = 409, err_message = msg, err_client_message = msg,
     err_code = None, err_failover = default_disposition\<rparr>"

definition upstream_error :: "string \<Rightarrow> app_error" where
  "upstream_error msg = \<lparr>err_status = 502, err_message = msg, err_client_message = msg,
     err_code = None, err_failover = default_disposition\<rparr>"

definition with_code :: "app_error \<Rightarrow> string \<Rightarrow> app_error" where
  "with_code e c = e\<lparr>err_code := Some c\<rparr>"

definition unknown_tool_repair_exhausted :: app_error where
  "unknown_tool_repair_exhausted = with_code (upstream_error
     (''the model requested a tool that is not available and could not recover; '' @
      ''the request was ended without completing the tool call'')) ''invalid_tool_call''"

definition upstream_with_disposition :: "string \<Rightarrow> failover_disposition \<Rightarrow> app_error" where
  "upstream_with_disposition msg d = (upstream_error msg)\<lparr>err_failover := d\<rparr>"

definition internal_error :: "string \<Rightarrow> app_error" where
  "internal_error msg = \<lparr>err_status = 500, err_message = msg,
     err_client_message = ''internal server error'',
     err_code = None, err_failover = default_disposition\<rparr>"

definition cancelled :: app_error where
  "cancelled = \<lparr>err_status = 499, err_message = ''client disconnected'',
     err_client_message = ''client disconnected'',
     err_code = None, err_failover = default_disposition\<rparr>"

definition is_cancelled :: "app_error \<Rightarrow> bool" where
  "is_cancelled e = (err_status e = 499)"

text \<open>What the client sees: the status line and the \<^verbatim>\<open>error.message\<close> of the JSON body.\<close>

definition error_response :: "app_error \<Rightarrow> nat \<times> string" where
  "error_response e = (err_status e, err_client_message e)"

lemmas app_error_defs = bad_request_def not_found_def conflict_def upstream_error_def
  with_code_def unknown_tool_repair_exhausted_def upstream_with_disposition_def
  internal_error_def cancelled_def is_cancelled_def error_response_def
  default_disposition_def

end
