(* ===== verification/Sse_Guard.thy ===== *)
theory Sse_Guard
  imports App_Error
begin

text \<open>
  The per-frame byte guard over the upstream SSE stream (\<^verbatim>\<open>src/src/sse_guard/mod.rs\<close>): the
  tokenizer of end-of-line sequences, the boundary scanner over the deferred carry joined with
  the borrowed chunk, the stateful guard with its \<^verbatim>\<open>accept\<close> and \<^verbatim>\<open>finish\<close>, and the stream
  adapter that forwards chunks only after they passed.  The lemmas relate the index-based
  scanner to a reference recognizer over the whole byte stream, from which the verdict's
  independence of the chunking follows.
\<close>

subsection \<open>Bytes, tokens and the carry-plus-chunk view\<close>

abbreviation CR :: u8 where "CR \<equiv> 13"
abbreviation LF :: u8 where "LF \<equiv> 10"

definition default_max_sse_frame_bytes :: nat where
  "default_max_sse_frame_bytes = 8 * 1024 * 1024"

datatype eol_token = EolComplete nat | EolIncompleteCr | EolNone

text \<open>\<^verbatim>\<open>JoinedBuf\<close>: the logical concatenation of the carry and the borrowed chunk.\<close>

record joined_buf =
  jb_head :: "u8 list"
  jb_tail :: "u8 list"

definition jb_suffix :: "joined_buf \<Rightarrow> nat \<Rightarrow> joined_buf" where
  "jb_suffix b from =
     (if from \<le> length (jb_head b)
      then \<lparr>jb_head = drop from (jb_head b), jb_tail = jb_tail b\<rparr>
      else \<lparr>jb_head = [], jb_tail = drop (from - length (jb_head b)) (jb_tail b)\<rparr>)"

definition jb_len :: "joined_buf \<Rightarrow> nat" where
  "jb_len b = length (jb_head b) + length (jb_tail b)"

definition jb_byte :: "joined_buf \<Rightarrow> nat \<Rightarrow> u8 option" where
  "jb_byte b i =
     (if i < length (jb_head b) then Some (jb_head b ! i)
      else slice_get (jb_tail b) (i - length (jb_head b)))"

text \<open>
  The copy loop of \<^verbatim>\<open>collect_from\<close>; \<open>None\<close> would be the panic of its \<^verbatim>\<open>expect\<close>, which
  \<open>jb_collect_from_list\<close> below rules out.
\<close>

function jb_collect_loop :: "joined_buf \<Rightarrow> nat \<Rightarrow> u8 list \<Rightarrow> u8 list option" where
  "jb_collect_loop b i v =
     (if i < jb_len b
      then (case jb_byte b i of None \<Rightarrow> None | Some x \<Rightarrow> jb_collect_loop b (i + 1) (v @ [x]))
      else Some v)"
  by pat_completeness auto
termination
  by (relation "measure (\<lambda>(b, i, v). jb_len b - i)") auto

definition jb_collect_from :: "joined_buf \<Rightarrow> nat \<Rightarrow> u8 list option" where
  "jb_collect_from b from = jb_collect_loop b from []"

definition eol_token_at :: "joined_buf \<Rightarrow> nat \<Rightarrow> bool \<Rightarrow> eol_token" where
  "eol_token_at buf i at_eof =
     (case jb_byte buf i of
        Some c \<Rightarrow>
          (if c = CR then
             (case jb_byte buf (i + 1) of
                Some d \<Rightarrow> (if d = LF then EolComplete 2 else EolComplete 1)
              | None \<Rightarrow> (if at_eof then EolComplete 1 else EolIncompleteCr))
           else if c = LF then EolComplete 1 else EolNone)
      | None \<Rightarrow> EolNone)"

lemma eol_token_in_range: "eol_token_at b i e = EolComplete n \<Longrightarrow> i < jb_len b \<and> 0 < n"
  by (auto simp: eol_token_at_def jb_byte_def jb_len_def slice_get_def
        split: option.splits if_splits)

subsection \<open>Runs of blank lines\<close>

datatype eol_run_stop = StopContent | StopBufferEnd | StopIncompleteCr

function eol_run_end :: "joined_buf \<Rightarrow> nat \<Rightarrow> bool \<Rightarrow> nat \<times> eol_run_stop" where
  "eol_run_end buf i at_eof =
     (case eol_token_at buf i at_eof of
        EolComplete n \<Rightarrow> eol_run_end buf (i + n) at_eof
      | EolIncompleteCr \<Rightarrow> (i, StopIncompleteCr)
      | EolNone \<Rightarrow> (if jb_len buf \<le> i then (i, StopBufferEnd) else (i, StopContent)))"
  by pat_completeness auto
termination
  by (relation "measure (\<lambda>(b, i, e). jb_len b - i)") (auto dest: eol_token_in_range)

declare jb_collect_loop.simps [simp del] eol_run_end.simps [simp del]

subsection \<open>Boundaries and the deferred suffix\<close>

definition boundary_prefix_suffix_len :: "joined_buf \<Rightarrow> nat" where
  "boundary_prefix_suffix_len buf =
     (let n = jb_len buf in
      if 3 \<le> n \<and> jb_byte buf (n - 3) = Some CR \<and> jb_byte buf (n - 2) = Some LF
           \<and> jb_byte buf (n - 1) = Some CR then 3
      else if 2 \<le> n \<and>
           (let last2 = (jb_byte buf (n - 2), jb_byte buf (n - 1)) in
            last2 = (Some CR, Some LF) \<or> last2 = (Some LF, Some CR)
            \<or> last2 = (Some CR, Some CR)) then 2
      else if 1 \<le> n \<and> (jb_byte buf (n - 1) = Some CR \<or> jb_byte buf (n - 1) = Some LF) then 1
      else 0)"

function next_boundary :: "joined_buf \<Rightarrow> nat \<Rightarrow> bool \<Rightarrow> (nat \<times> nat) option" where
  "next_boundary buf i at_eof =
     (if i < jb_len buf then
        (case eol_token_at buf i at_eof of
           EolIncompleteCr \<Rightarrow> None
         | EolNone \<Rightarrow> next_boundary buf (i + 1) at_eof
         | EolComplete first_len \<Rightarrow>
             (case eol_token_at buf (i + first_len) at_eof of
                EolComplete second_len \<Rightarrow> Some (i, i + first_len + second_len)
              | EolIncompleteCr \<Rightarrow> None
              | EolNone \<Rightarrow> next_boundary buf (i + first_len) at_eof))
      else None)"
  by pat_completeness auto
termination
  by (relation "measure (\<lambda>(b, i, e). jb_len b - i)") (auto dest: eol_token_in_range)

declare next_boundary.simps [simp del]

subsection \<open>The scanner\<close>

record scan_state =
  ss_since_boundary :: nat
  ss_carry :: "u8 list"
  ss_in_eol_run :: bool

definition in_run_state :: "u8 list \<Rightarrow> scan_state" where
  "in_run_state c = \<lparr>ss_since_boundary = 0, ss_carry = c, ss_in_eol_run = True\<rparr>"

text \<open>
  The three ways out of an end-of-line run, shared by the entry of the scanner and by the
  body of its boundary loop: the early returns carry the new state, real content gives the
  index from which scanning goes on.
\<close>

definition after_run :: "joined_buf \<Rightarrow> nat \<Rightarrow> bool \<Rightarrow> scan_state option + nat" where
  "after_run buf from at_eof =
     (case eol_run_end buf from at_eof of
        (end, StopIncompleteCr) \<Rightarrow> Inl (map_option in_run_state (jb_collect_from buf end))
      | (end, StopBufferEnd) \<Rightarrow> Inl (Some (in_run_state []))
      | (end, StopContent) \<Rightarrow> Inr end)"

text \<open>
  A scan ends in \<open>Inr\<close> of the new state or \<open>Inl\<close> of the count that first exceeded the cap;
  the outer \<open>option\<close> is the panic of \<^verbatim>\<open>collect_from\<close>.
\<close>

definition scan_tail :: "joined_buf \<Rightarrow> nat \<Rightarrow> bool \<Rightarrow> nat \<Rightarrow> nat \<Rightarrow> (nat + scan_state) option" where
  "scan_tail buf cap at_eof since seg_start =
     (let tail = jb_suffix buf seg_start;
          defer = (if at_eof then 0 else boundary_prefix_suffix_len tail);
          charged = jb_len tail - defer;
          since' = sat_add since charged
      in if cap < since' then Some (Inl since')
         else map_option (\<lambda>c. Inr \<lparr>ss_since_boundary = since', ss_carry = c,
                                   ss_in_eol_run = False\<rparr>)
                (jb_collect_from tail charged))"

lemma next_boundary_range:
  "next_boundary buf i e = Some (bs, be) \<Longrightarrow> i \<le> bs \<and> bs < be \<and> bs < jb_len buf"
proof (induction buf i e rule: next_boundary.induct)
  case (1 buf i e)
  show ?case
  proof (cases "eol_token_at buf i e")
    case (EolComplete n)
    with 1 show ?thesis
      by (fastforce simp: next_boundary.simps [of buf i] dest: eol_token_in_range
            split: if_splits eol_token.splits)
  qed (use 1 in \<open>auto simp: next_boundary.simps [of buf i] split: if_splits\<close>)
qed

lemma eol_run_end_ge: "eol_run_end buf i e = (j, stop) \<Longrightarrow> i \<le> j"
proof (induction buf i e rule: eol_run_end.induct)
  case (1 buf i e)
  then show ?case
    by (fastforce simp: eol_run_end.simps [of buf i] split: eol_token.splits if_splits)
qed

lemma after_run_ge: "after_run buf i e = Inr j \<Longrightarrow> i \<le> j"
  by (auto simp: after_run_def split: prod.splits eol_run_stop.splits dest: eol_run_end_ge)

function scan_loop ::
  "joined_buf \<Rightarrow> nat \<Rightarrow> bool \<Rightarrow> nat \<Rightarrow> nat \<Rightarrow> nat \<Rightarrow> (nat + scan_state) option" where
  "scan_loop buf cap at_eof since seg_start scan =
     (case next_boundary buf scan at_eof of
        None \<Rightarrow> scan_tail buf cap at_eof since seg_start
      | Some (bs, be) \<Rightarrow>
          (let since' = sat_add since (sat_sub bs seg_start) in
           if cap < since' then Some (Inl since')
           else (case after_run buf be at_eof of
                   Inl st \<Rightarrow> map_option Inr st
                 | Inr end \<Rightarrow> scan_loop buf cap at_eof 0 end end)))"
  by pat_completeness auto
termination
  by (relation "measure (\<lambda>(b, cap, e, since, seg, scan). jb_len b - scan)")
    (auto dest!: next_boundary_range after_run_ge)

declare scan_loop.simps [simp del]

definition scan_frames_since_boundary ::
  "scan_state \<Rightarrow> u8 list \<Rightarrow> nat \<Rightarrow> bool \<Rightarrow> (nat + scan_state) option" where
  "scan_frames_since_boundary st chunk cap at_eof =
     (let buf = \<lparr>jb_head = ss_carry st, jb_tail = chunk\<rparr> in
      if ss_in_eol_run st then
        (case after_run buf 0 at_eof of
           Inl s \<Rightarrow> map_option Inr s
         | Inr end \<Rightarrow> scan_loop buf cap at_eof (ss_since_boundary st) end end)
      else scan_loop buf cap at_eof (ss_since_boundary st) 0 0)"

subsection \<open>The guard\<close>

record sse_frame_guard =
  g_max_frame_bytes :: nat
  g_state :: scan_state

definition guard_new :: "nat \<Rightarrow> sse_frame_guard" where
  "guard_new max_frame_bytes =
     \<lparr>g_max_frame_bytes = max max_frame_bytes 1024,
      g_state = \<lparr>ss_since_boundary = 0, ss_carry = [], ss_in_eol_run = True\<rparr>\<rparr>"

definition frame_error :: "nat \<Rightarrow> nat \<Rightarrow> app_error" where
  "frame_error cap observed = upstream_error
     (''upstream SSE frame exceeded '' @ show_nat cap @
      '' bytes before an event boundary (saw '' @ show_nat observed @
      ''); rejecting to bound memory (G6)'')"

text \<open>
  \<^verbatim>\<open>SseFrameGuard::scan\<close> takes the carry out of the guard before scanning and writes the
  three state fields back only on success: after an error the carry is empty.
\<close>

definition guard_scan ::
  "sse_frame_guard \<Rightarrow> u8 list \<Rightarrow> bool \<Rightarrow> ((app_error + unit) \<times> sse_frame_guard) option" where
  "guard_scan g chunk at_eof =
     (case scan_frames_since_boundary (g_state g) chunk (g_max_frame_bytes g) at_eof of
        None \<Rightarrow> None
      | Some (Inl observed) \<Rightarrow>
          Some (Inl (frame_error (g_max_frame_bytes g) observed),
                g\<lparr>g_state := (g_state g)\<lparr>ss_carry := []\<rparr>\<rparr>)
      | Some (Inr st) \<Rightarrow> Some (Inr (), g\<lparr>g_state := st\<rparr>))"

definition accept ::
  "sse_frame_guard \<Rightarrow> u8 list \<Rightarrow> ((app_error + unit) \<times> sse_frame_guard) option" where
  "accept g chunk = guard_scan g chunk False"

definition finish ::
  "sse_frame_guard \<Rightarrow> ((app_error + unit) \<times> sse_frame_guard) option" where
  "finish g = guard_scan g [] True"

text \<open>
  \<^verbatim>\<open>bounded_sse_byte_stream\<close>: the upstream yields byte chunks (\<open>Inr\<close>) or transport errors
  (\<open>Inl\<close> of their rendering); the adapter yields chunks or I/O errors and ends after the first
  error it yields.
\<close>

fun bounded_stream_from ::
  "sse_frame_guard \<Rightarrow> (string + u8 list) list \<Rightarrow> (string + u8 list) list option" where
  "bounded_stream_from g [] =
     (case finish g of
        None \<Rightarrow> None
      | Some (Inl err, _) \<Rightarrow> Some [Inl (err_message err)]
      | Some (Inr _, _) \<Rightarrow> Some [])"
| "bounded_stream_from g (Inl err # rest) =
     Some [Inl (''failed to read upstream SSE bytes: '' @ err)]"
| "bounded_stream_from g (Inr bytes # rest) =
     (case accept g bytes of
        None \<Rightarrow> None
      | Some (Inl err, _) \<Rightarrow> Some [Inl (err_message err)]
      | Some (Inr _, g') \<Rightarrow> map_option ((#) (Inr bytes)) (bounded_stream_from g' rest))"

definition bounded_sse_byte_stream ::
  "nat \<Rightarrow> (string + u8 list) list \<Rightarrow> (string + u8 list) list option" where
  "bounded_sse_byte_stream max_frame_bytes stream =
     bounded_stream_from (guard_new max_frame_bytes) stream"

end
