(* ===== verification/Sse_Guard_Correct.thy ===== *)
theory Sse_Guard_Correct
  imports Sse_Guard
begin

text \<open>
  Correctness of the SSE frame guard: a reference recognizer on the whole byte stream, the
  refinement of the index-based scanner to it, and the properties of the guard and of the
  stream adapter that follow.
\<close>

subsection \<open>Byte sources\<close>

text \<open>The contract of the trait \<^verbatim>\<open>ByteSource\<close>: an indexable view of a byte list.\<close>

locale byte_source =
  fixes len :: "'s \<Rightarrow> nat"
    and byte :: "'s \<Rightarrow> nat \<Rightarrow> u8 option"
    and bytes :: "'s \<Rightarrow> u8 list"
  assumes len_bytes: "len s = length (bytes s)"
    and byte_bytes: "byte s i = slice_get (bytes s) i"
begin

lemma byte_present: "byte s i \<noteq> None \<longleftrightarrow> i < len s"
  by (simp add: len_bytes byte_bytes slice_get_def)

lemma byte_Some: "byte s i = Some x \<longleftrightarrow> i < length (bytes s) \<and> bytes s ! i = x"
  by (auto simp: byte_bytes slice_get_def)

lemma drop_byte:
  "drop i (bytes s) = (case byte s i of None \<Rightarrow> [] | Some x \<Rightarrow> x # drop (Suc i) (bytes s))"
  unfolding byte_bytes by (rule drop_slice_get)

end

definition jb_bytes :: "joined_buf \<Rightarrow> u8 list" where
  "jb_bytes b = jb_head b @ jb_tail b"

interpretation jb: byte_source jb_len jb_byte jb_bytes
  by unfold_locales (auto simp: jb_len_def jb_byte_def jb_bytes_def slice_get_append)

interpretation slice: byte_source length slice_get "\<lambda>xs. xs"
  by unfold_locales auto

lemma jb_bytes_suffix: "jb_bytes (jb_suffix b k) = drop k (jb_bytes b)"
  by (simp add: jb_bytes_def jb_suffix_def)

lemma jb_collect_loop_list: "jb_collect_loop b i v = Some (v @ drop i (jb_bytes b))"
proof (induction b i v rule: jb_collect_loop.induct)
  case (1 b i v)
  show ?case
  proof (cases "i < jb_len b")
    case True
    then obtain x where x: "jb_byte b i = Some x"
      using jb.byte_present by blast
    with True 1 show ?thesis
      by (simp add: jb_collect_loop.simps [of b i] jb.drop_byte [of i])
  next
    case False
    then show ?thesis by (simp add: jb_collect_loop.simps [of b i] jb.len_bytes)
  qed
qed

lemma jb_collect_from_list: "jb_collect_from b i = Some (drop i (jb_bytes b))"
  by (simp add: jb_collect_from_def jb_collect_loop_list)

subsection \<open>The reference recognizer\<close>

text \<open>The end-of-line token a complete stream starts with: its length and what follows.\<close>

fun strip_eol :: "u8 list \<Rightarrow> (nat \<times> u8 list) option" where
  "strip_eol [] = None"
| "strip_eol (c # xs) =
     (if c = CR then
        (case xs of [] \<Rightarrow> Some (1, []) | d # ys \<Rightarrow> if d = LF then Some (2, ys) else Some (1, xs))
      else if c = LF then Some (1, xs) else None)"

lemma strip_eol_shorter:
  "strip_eol xs = Some (n, ys) \<Longrightarrow> length xs = length ys + n \<and> 0 < n"
  by (cases xs) (auto split: if_splits list.splits)

lemma strip_eol_cases:
  "strip_eol xs = None \<longleftrightarrow> xs = [] \<or> (hd xs \<noteq> CR \<and> hd xs \<noteq> LF)"
  by (cases xs) (auto split: list.splits)

declare strip_eol.simps(2) [simp del]

function skip_eols :: "u8 list \<Rightarrow> u8 list" where
  "skip_eols xs = (case strip_eol xs of None \<Rightarrow> xs | Some (n, ys) \<Rightarrow> skip_eols ys)"
  by pat_completeness auto
termination
  by (relation "measure length") (auto dest!: strip_eol_shorter)

declare skip_eols.simps [simp del]

lemma skip_eols_shorter: "length (skip_eols xs) \<le> length xs"
proof (induction xs rule: skip_eols.induct)
  case (1 xs)
  then show ?case
    by (fastforce simp: skip_eols.simps [of xs] split: option.splits dest: strip_eol_shorter)
qed

text \<open>
  The frames of a stream: blank lines separate them, further end-of-lines after a blank line
  belong to no frame, and what follows the last blank line is an unterminated frame.
\<close>

function frames_from :: "u8 list \<Rightarrow> u8 list \<Rightarrow> u8 list list" where
  "frames_from acc xs =
     (case xs of [] \<Rightarrow> [acc]
      | x # xs' \<Rightarrow>
          (case strip_eol xs of
             None \<Rightarrow> frames_from (acc @ [x]) xs'
           | Some (n, ys) \<Rightarrow>
               (case strip_eol ys of
                  None \<Rightarrow> frames_from (acc @ take n xs) ys
                | Some (m, zs) \<Rightarrow>
                    acc # (case skip_eols zs of [] \<Rightarrow> [] | w # ws \<Rightarrow> frames_from [] (w # ws)))))"
  by pat_completeness auto
termination
proof (relation "measure (\<lambda>(acc, xs). length xs)", goal_cases)
  case (4 acc xs x xs' a n ys b m zs w ws)
  then have "length (skip_eols zs) \<le> length zs"
    using skip_eols_shorter by blast
  with 4 show ?case by (auto dest!: strip_eol_shorter)
qed (auto dest!: strip_eol_shorter)

declare frames_from.simps [simp del]

definition frames :: "u8 list \<Rightarrow> u8 list list" where
  "frames xs = (case skip_eols xs of [] \<Rightarrow> [] | w # ws \<Rightarrow> frames_from [] (w # ws))"

definition stream_ok :: "nat \<Rightarrow> u8 list \<Rightarrow> bool" where
  "stream_ok cap xs = (\<forall>f \<in> set (frames xs). length f \<le> cap)"

text \<open>The same verdict with the open frame reduced to its length.\<close>

definition ok_from :: "nat \<Rightarrow> nat \<Rightarrow> u8 list \<Rightarrow> bool" where
  "ok_from cap n xs = (\<forall>f \<in> set (frames_from (replicate n 0) xs). length f \<le> cap)"

definition ok_run :: "nat \<Rightarrow> u8 list \<Rightarrow> bool" where
  "ok_run cap xs = (case skip_eols xs of [] \<Rightarrow> True | w # ws \<Rightarrow> ok_from cap 0 (w # ws))"

lemma frames_from_Nil: "frames_from acc [] = [acc]"
  by (simp add: frames_from.simps)

lemma frames_from_content:
  "strip_eol (x # xs) = None \<Longrightarrow> frames_from acc (x # xs) = frames_from (acc @ [x]) xs"
  by (simp add: frames_from.simps [of acc "x # xs"])

lemma frames_from_eol:
  "strip_eol xs = Some (k, ys) \<Longrightarrow> strip_eol ys = None \<Longrightarrow>
     frames_from acc xs = frames_from (acc @ take k xs) ys"
  by (cases xs) (simp_all add: frames_from.simps [of acc "_ # _"])

lemma frames_from_boundary:
  "strip_eol xs = Some (k, ys) \<Longrightarrow> strip_eol ys = Some (m, zs) \<Longrightarrow>
     frames_from acc xs = acc # frames zs"
  by (cases xs) (simp_all add: frames_from.simps [of acc "_ # _"] frames_def)

lemma frames_from_lengths:
  "length acc = length acc' \<Longrightarrow> map length (frames_from acc xs) = map length (frames_from acc' xs)"
proof (induction "length xs" arbitrary: xs acc acc' rule: less_induct)
  case less
  consider "xs = []" | x xs' where "xs = x # xs'" "strip_eol xs = None"
    | k ys where "strip_eol xs = Some (k, ys)" "strip_eol ys = None"
    | k ys m zs where "strip_eol xs = Some (k, ys)" "strip_eol ys = Some (m, zs)"
    by (cases xs; cases "strip_eol xs"; cases "strip_eol (snd (the (strip_eol xs)))") auto
  then show ?case
  proof cases
    case 2
    then show ?thesis
      using less(1) [of xs' "acc @ [x]" "acc' @ [x]"] less(2) by (simp add: frames_from_content)
  next
    case (3 k ys)
    then show ?thesis
      using less(1) [of ys "acc @ take k xs" "acc' @ take k xs"] less(2)
      by (auto simp: frames_from_eol dest: strip_eol_shorter)
  qed (simp_all add: frames_from_Nil frames_from_boundary less(2))
qed

lemma ball_lengths_cong:
  "map length xs = map length ys \<Longrightarrow>
     (\<forall>f \<in> set xs. length f \<le> cap) = (\<forall>f \<in> set ys. length f \<le> cap)"
proof -
  assume "map length xs = map length ys"
  then have "length ` set xs = length ` set ys"
    by (metis image_set)
  then show ?thesis by (metis (mono_tags, lifting) image_iff)
qed

lemma frames_from_ok:
  "(\<forall>f \<in> set (frames_from acc xs). length f \<le> cap) = ok_from cap (length acc) xs"
  unfolding ok_from_def by (intro ball_lengths_cong frames_from_lengths) simp

lemma ok_run_frames: "(\<forall>f \<in> set (frames xs). length f \<le> cap) = ok_run cap xs"
  using frames_from_ok [of "[]" _ cap]
  by (auto simp: frames_def ok_run_def split: list.split)

lemma stream_ok_run: "stream_ok cap xs = ok_run cap xs"
  by (simp add: stream_ok_def ok_run_frames)

lemma ok_from_Nil: "ok_from cap n [] = (n \<le> cap)"
  by (simp add: ok_from_def frames_from_Nil)

lemma ok_from_content: "strip_eol (x # xs) = None \<Longrightarrow> ok_from cap n (x # xs) = ok_from cap (Suc n) xs"
  using frames_from_ok [of "replicate n 0 @ [x]" xs cap]
  by (simp add: ok_from_def [of cap n] frames_from_content)

lemma ok_from_eol:
  assumes "strip_eol xs = Some (k, ys)" and "strip_eol ys = None"
  shows "ok_from cap n xs = ok_from cap (n + k) ys"
proof -
  from assms(1) have "length (replicate n 0 @ take k xs) = n + k"
    by (auto dest: strip_eol_shorter)
  then show ?thesis
    using frames_from_ok [of "replicate n 0 @ take k xs" ys cap] assms
    by (simp add: ok_from_def [of cap n] frames_from_eol)
qed

lemma ok_from_boundary:
  assumes "strip_eol xs = Some (k, ys)" and "strip_eol ys = Some (m, zs)"
  shows "ok_from cap n xs = (n \<le> cap \<and> ok_run cap zs)"
  using assms by (simp add: ok_from_def frames_from_boundary ok_run_frames)

lemma ok_run_eol: "strip_eol xs = Some (k, ys) \<Longrightarrow> ok_run cap xs = ok_run cap ys"
  by (simp add: ok_run_def skip_eols.simps [of xs])

lemma ok_run_content: "strip_eol (x # xs) = None \<Longrightarrow> ok_run cap (x # xs) = ok_from cap 0 (x # xs)"
  by (simp add: ok_run_def skip_eols.simps [of "x # xs"])

lemma ok_run_Nil: "ok_run cap []"
  by (simp add: ok_run_def skip_eols.simps [of "[]"])

subsection \<open>The scanner's tokens on lists\<close>

fun list_token :: "bool \<Rightarrow> u8 list \<Rightarrow> eol_token" where
  "list_token e [] = EolNone"
| "list_token e [c] =
     (if c = CR then (if e then EolComplete 1 else EolIncompleteCr)
      else if c = LF then EolComplete 1 else EolNone)"
| "list_token e (c # d # xs) =
     (if c = CR then (if d = LF then EolComplete 2 else EolComplete 1)
      else if c = LF then EolComplete 1 else EolNone)"

lemma eol_token_list: "eol_token_at b i e = list_token e (drop i (jb_bytes b))"
  using jb.drop_byte [of i b] jb.drop_byte [of "Suc i" b]
  by (auto simp: eol_token_at_def split: option.splits)

lemma list_token_Complete:
  assumes "list_token e xs = EolComplete n" and "e \<longrightarrow> rest = []"
  shows "strip_eol (xs @ rest) = Some (n, drop n xs @ rest) \<and> 0 < n \<and> n \<le> length xs"
  using assms
  by (cases "(e, xs)" rule: list_token.cases)
    (auto simp: strip_eol.simps(2) split: if_splits list.splits)

lemma list_token_None:
  "list_token e xs = EolNone \<Longrightarrow> xs \<noteq> [] \<Longrightarrow> strip_eol (xs @ rest) = None"
  by (cases "(e, xs)" rule: list_token.cases)
    (auto simp: strip_eol.simps(2) split: if_splits)

lemma list_token_IncompleteCr: "list_token e xs = EolIncompleteCr \<Longrightarrow> \<not> e \<and> xs = [CR]"
  by (cases "(e, xs)" rule: list_token.cases) (auto split: if_splits)

lemma list_token_pre:
  assumes "list_token e (pre @ post) = EolComplete (length pre)"
  shows "pre = [LF] \<or> pre = [CR, LF] \<or> (pre = [CR] \<and> (if post = [] then e else hd post \<noteq> LF))"
  using assms
  by (cases "(e, pre @ post)" rule: list_token.cases; cases pre rule: remdups_adj.cases)
    (auto split: if_splits simp: Cons_eq_append_conv)

lemma eol_run_end_correct:
  assumes "eol_run_end b i e = (j, stop)" and "i \<le> jb_len b" and "e \<longrightarrow> rest = []"
  shows "j \<le> jb_len b
    \<and> ok_run cap (drop i (jb_bytes b) @ rest) = ok_run cap (drop j (jb_bytes b) @ rest)
    \<and> (case stop of
         StopContent \<Rightarrow> j < jb_len b \<and> strip_eol (drop j (jb_bytes b) @ rest) = None
       | StopBufferEnd \<Rightarrow> j = jb_len b
       | StopIncompleteCr \<Rightarrow> \<not> e \<and> drop j (jb_bytes b) = [CR])"
  using assms
proof (induction b i e rule: eol_run_end.induct)
  case (1 b i e)
  show ?case
  proof (cases "eol_token_at b i e")
    case (EolComplete n)
    then have tok: "list_token e (drop i (jb_bytes b)) = EolComplete n"
      by (simp add: eol_token_list)
    have n: "strip_eol (drop i (jb_bytes b) @ rest) = Some (n, drop (i + n) (jb_bytes b) @ rest)"
      "i + n \<le> jb_len b"
      using list_token_Complete [OF tok "1.prems"(3)] "1.prems"(2)
      by (auto simp: jb.len_bytes add.commute)
    with "1.IH" [OF EolComplete] "1.prems" EolComplete show ?thesis
      by (simp add: eol_run_end.simps [of b i] ok_run_eol)
  next
    case EolIncompleteCr
    with 1 list_token_IncompleteCr show ?thesis
      by (auto simp: eol_run_end.simps [of b i] eol_token_list)
  next
    case EolNone
    then have "strip_eol (drop i (jb_bytes b) @ rest) = None" if "i < jb_len b"
      using that list_token_None [of e "drop i (jb_bytes b)" rest]
      by (simp add: eol_token_list jb.len_bytes)
    with EolNone 1 show ?thesis
      by (auto simp: eol_run_end.simps [of b i] split: if_splits)
  qed
qed

lemma next_boundary_correct:
  assumes "next_boundary b i e = Some (bs, be)" and "i \<le> jb_len b" and "e \<longrightarrow> rest = []"
  shows "i \<le> bs \<and> be \<le> jb_len b
    \<and> ok_from cap n (drop i (jb_bytes b) @ rest)
        = (n + (bs - i) \<le> cap \<and> ok_run cap (drop be (jb_bytes b) @ rest))"
  using assms
proof (induction b i e arbitrary: n rule: next_boundary.induct)
  case (1 b i e)
  from "1.prems"(1) have i: "i < jb_len b"
    by (simp add: next_boundary.simps [of b i] split: if_splits)
  show ?case
  proof (cases "eol_token_at b i e")
    case (EolComplete k)
    then have "list_token e (drop i (jb_bytes b)) = EolComplete k"
      by (simp add: eol_token_list)
    from list_token_Complete [OF this "1.prems"(3)] i
    have k: "strip_eol (drop i (jb_bytes b) @ rest) = Some (k, drop (i + k) (jb_bytes b) @ rest)"
      "i + k \<le> jb_len b"
      by (auto simp: jb.len_bytes add.commute)
    show ?thesis
    proof (cases "eol_token_at b (i + k) e")
      case (EolComplete m)
      then have "list_token e (drop (i + k) (jb_bytes b)) = EolComplete m"
        by (simp add: eol_token_list)
      from list_token_Complete [OF this "1.prems"(3)] k(2)
      have m: "strip_eol (drop (i + k) (jb_bytes b) @ rest)
          = Some (m, drop (i + k + m) (jb_bytes b) @ rest)" "i + k + m \<le> jb_len b"
        by (auto simp: jb.len_bytes add.commute add.left_commute)
      have "bs = i" "be = i + k + m"
        using "1.prems"(1) i \<open>eol_token_at b i e = EolComplete k\<close> EolComplete
        by (simp_all add: next_boundary.simps [of b i])
      with m ok_from_boundary [OF k(1) m(1)] show ?thesis by simp
    next
      case EolNone
      have nb: "next_boundary b (i + k) e = Some (bs, be)"
        using "1.prems"(1) i \<open>eol_token_at b i e = EolComplete k\<close> EolNone
        by (simp add: next_boundary.simps [of b i])
      then have "i + k < jb_len b"
        by (simp add: next_boundary.simps [of b "i + k"] split: if_splits)
      then have "strip_eol (drop (i + k) (jb_bytes b) @ rest) = None"
        using EolNone list_token_None [of e "drop (i + k) (jb_bytes b)" rest]
        by (simp add: eol_token_list jb.len_bytes)
      then have "ok_from cap n (drop i (jb_bytes b) @ rest)
          = ok_from cap (n + k) (drop (i + k) (jb_bytes b) @ rest)"
        using k(1) by (rule ok_from_eol [rotated])
      with "1.IH"(1) [OF i \<open>eol_token_at b i e = EolComplete k\<close> EolNone nb k(2) "1.prems"(3),
          where n = "n + k"] show ?thesis by auto
    next
      case EolIncompleteCr
      with "1.prems"(1) i \<open>eol_token_at b i e = EolComplete k\<close> show ?thesis
        by (simp add: next_boundary.simps [of b i])
    qed
  next
    case EolNone
    then have nb: "next_boundary b (i + 1) e = Some (bs, be)"
      using "1.prems"(1) i by (simp add: next_boundary.simps [of b i])
    obtain x where x: "drop i (jb_bytes b) = x # drop (Suc i) (jb_bytes b)"
      using i by (metis Cons_nth_drop_Suc jb.len_bytes)
    have "strip_eol (drop i (jb_bytes b) @ rest) = None"
      using EolNone x list_token_None [of e "drop i (jb_bytes b)" rest]
      by (simp add: eol_token_list)
    then have "ok_from cap n (drop i (jb_bytes b) @ rest)
        = ok_from cap (Suc n) (drop (Suc i) (jb_bytes b) @ rest)"
      using x ok_from_content by simp
    with "1.IH"(2) [OF i EolNone nb _ "1.prems"(3), where n = "Suc n"] i show ?thesis by auto
  next
    case EolIncompleteCr
    with "1.prems"(1) i show ?thesis by (simp add: next_boundary.simps [of b i])
  qed
qed

subsection \<open>The deferred suffix\<close>

fun defer_rev :: "u8 list \<Rightarrow> nat" where
  "defer_rev [] = 0"
| "defer_rev [a] = (if a = CR \<or> a = LF then 1 else 0)"
| "defer_rev [a, b] =
     (if (b = CR \<and> a = LF) \<or> (b = LF \<and> a = CR) \<or> (b = CR \<and> a = CR) then 2
      else if a = CR \<or> a = LF then 1 else 0)"
| "defer_rev (a # b # c # xs) =
     (if c = CR \<and> b = LF \<and> a = CR then 3
      else if (b = CR \<and> a = LF) \<or> (b = LF \<and> a = CR) \<or> (b = CR \<and> a = CR) then 2
      else if a = CR \<or> a = LF then 1 else 0)"

lemma defer_rev_bound: "defer_rev xs \<le> length xs \<and> defer_rev xs \<le> 3"
  by (cases xs rule: defer_rev.cases) auto

lemma defer_rev_append: "x \<noteq> CR \<Longrightarrow> x \<noteq> LF \<Longrightarrow> defer_rev (ys @ x # zs) = defer_rev ys"
  by (cases ys rule: defer_rev.cases; cases zs rule: defer_rev.cases) auto

lemma defer_rev_idem: "defer_rev (take (defer_rev xs) xs) = defer_rev xs"
  by (cases xs rule: defer_rev.cases) auto

lemma slice_get_rev: "i < length ys \<Longrightarrow> slice_get (rev ys) (length ys - Suc i) = Some (ys ! i)"
  by (simp add: slice_get_def rev_nth)

lemma boundary_prefix_suffix_len_list:
  "boundary_prefix_suffix_len b = defer_rev (rev (jb_bytes b))"
proof -
  define ys where "ys = rev (jb_bytes b)"
  have len: "jb_len b = length ys" and bytes: "jb_bytes b = rev ys"
    by (simp_all add: ys_def jb.len_bytes)
  have byte: "jb_byte b (length ys - Suc i) = Some (ys ! i)" if "i < length ys" for i
    using that by (simp add: jb.byte_bytes bytes slice_get_rev)
  show ?thesis
    using byte [of 0] byte [of 1] byte [of 2]
    unfolding boundary_prefix_suffix_len_def len ys_def [symmetric]
    by (cases ys rule: defer_rev.cases) (simp_all add: Let_def)
qed

lemma next_boundary_none:
  assumes "next_boundary b i e = None" and "i \<le> jb_len b"
  defines "tail \<equiv> drop i (jb_bytes b)"
  shows "(e \<longrightarrow> ok_from cap n tail = (n + length tail \<le> cap)) \<and>
    (\<not> e \<longrightarrow> ok_from cap n (tail @ rest)
      = ok_from cap (n + (length tail - defer_rev (rev tail)))
          (drop (length tail - defer_rev (rev tail)) tail @ rest))"
  using assms(1,2) unfolding tail_def
proof (induction b i e arbitrary: n rule: next_boundary.induct)
  case (1 b i e)
  show ?case
  proof (cases "i < jb_len b")
    case False
    then show ?thesis by (simp add: jb.len_bytes ok_from_Nil)
  next
    case i: True
    then obtain x where x: "drop i (jb_bytes b) = x # drop (Suc i) (jb_bytes b)"
      by (metis Cons_nth_drop_Suc jb.len_bytes)
    show ?thesis
    proof (cases "eol_token_at b i e")
      case EolIncompleteCr
      then have "drop i (jb_bytes b) = [CR]" "\<not> e"
        using list_token_IncompleteCr by (auto simp: eol_token_list)
      then show ?thesis by simp
    next
      case EolNone
      then have tok: "list_token e (x # drop (Suc i) (jb_bytes b)) = EolNone"
        by (simp add: eol_token_list x)
      then have x_content: "x \<noteq> CR" "x \<noteq> LF"
        using list_token_None [OF tok, of "[]"] strip_eol_cases [of "x # _"] by auto
      have step: "ok_from cap n (x # ys) = ok_from cap (Suc n) ys" for n ys
        using x_content strip_eol_cases [of "x # ys"] by (simp add: ok_from_content)
      have nb: "next_boundary b (i + 1) e = None"
        using "1.prems"(1) i EolNone by (simp add: next_boundary.simps [of b i])
      have d: "defer_rev (rev (drop (Suc i) (jb_bytes b)) @ [x])
          = defer_rev (rev (drop (Suc i) (jb_bytes b)))"
        using x_content defer_rev_append [of x _ "[]"] by simp
      have "defer_rev (rev (drop (Suc i) (jb_bytes b))) \<le> length (drop (Suc i) (jb_bytes b))"
        using defer_rev_bound by (metis length_rev)
      then have "length (x # drop (Suc i) (jb_bytes b)) - defer_rev (rev (drop (Suc i) (jb_bytes b)))
          = Suc (length (drop (Suc i) (jb_bytes b)) - defer_rev (rev (drop (Suc i) (jb_bytes b))))"
        by simp
      with "1.IH"(2) [OF i EolNone nb, where n = "Suc n"] i show ?thesis
        by (simp add: x step d)
    next
      case (EolComplete k)
      then have tok: "list_token e (drop i (jb_bytes b)) = EolComplete k"
        by (simp add: eol_token_list)
      define pre where "pre = take k (drop i (jb_bytes b))"
      define post where "post = drop (i + k) (jb_bytes b)"
      have tail: "drop i (jb_bytes b) = pre @ post"
        unfolding pre_def post_def by (metis add.commute append_take_drop_id drop_drop)
      from list_token_Complete [OF tok, of "[]"] i
      have pre: "length pre = k" "i + k \<le> jb_len b"
        by (auto simp: pre_def jb.len_bytes)
      have shape: "pre = [LF] \<or> pre = [CR, LF]
          \<or> (pre = [CR] \<and> (if post = [] then e else hd post \<noteq> LF))"
        using tok pre(1) by (intro list_token_pre [of e]) (simp add: tail)
      show ?thesis
      proof (cases "eol_token_at b (i + k) e")
        case (EolComplete m)
        with "1.prems"(1) i \<open>eol_token_at b i e = EolComplete k\<close> show ?thesis
          by (simp add: next_boundary.simps [of b i])
      next
        case EolIncompleteCr
        then have "post = [CR]" "\<not> e"
          using list_token_IncompleteCr by (auto simp: eol_token_list post_def)
        with shape show ?thesis by (auto simp: tail)
      next
        case EolNone
        show ?thesis
        proof (cases post)
          case Nil
          with shape show ?thesis
            by (auto simp: tail ok_from_eol [of _ _ "[]"] ok_from_Nil strip_eol.simps(2))
        next
          case (Cons y zs)
          have tok': "list_token e (y # zs) = EolNone"
            using EolNone Cons by (simp add: eol_token_list post_def)
          have y: "y \<noteq> CR" "y \<noteq> LF"
            using list_token_None [OF tok', of "[]"] strip_eol_cases [of "y # _"] by auto
          have step: "ok_from cap n (pre @ y # zs @ r) = ok_from cap (n + k) (y # zs @ r)"
            if "e \<longrightarrow> r = []" for r
            using list_token_Complete [OF tok that] y strip_eol_cases [of "y # zs @ r"] pre(1)
            by (intro ok_from_eol) (auto simp: tail Cons)
          have d: "defer_rev (rev zs @ y # rev pre) = defer_rev (rev zs)"
            "defer_rev (rev zs @ [y]) = defer_rev (rev zs)"
            using defer_rev_append y by simp_all
          have nb: "next_boundary b (i + k) e = None"
            using "1.prems"(1) i \<open>eol_token_at b i e = EolComplete k\<close> EolNone
            by (simp add: next_boundary.simps [of b i])
          have "defer_rev (rev zs) \<le> length zs"
            using defer_rev_bound by (metis length_rev)
          with "1.IH"(1) [OF i \<open>eol_token_at b i e = EolComplete k\<close> EolNone nb pre(2),
              where n = "n + k"] step [of "[]"] step [of rest]
          show ?thesis
            by (cases e) (simp_all add: tail Cons d pre(1) post_def [symmetric] Suc_diff_le ac_simps)
        qed
      qed
    qed
  qed
qed

subsection \<open>One scan\<close>

lemma ok_from_exceeded: "cap < n \<Longrightarrow> \<not> ok_from cap n xs"
proof (induction "length xs" arbitrary: n xs rule: less_induct)
  case less
  consider "xs = []" | x xs' where "xs = x # xs'" "strip_eol xs = None"
    | k ys where "strip_eol xs = Some (k, ys)" "strip_eol ys = None"
    | k ys m zs where "strip_eol xs = Some (k, ys)" "strip_eol ys = Some (m, zs)"
    by (cases xs; cases "strip_eol xs"; cases "strip_eol (snd (the (strip_eol xs)))") auto
  then show ?case
    by cases (use less strip_eol_shorter in
      \<open>fastforce simp: ok_from_Nil ok_from_content ok_from_eol ok_from_boundary\<close>)+
qed

lemma ok_from_short: "n + length xs \<le> cap \<Longrightarrow> length xs \<le> 3 \<Longrightarrow> defer_rev (rev xs) = length xs
    \<Longrightarrow> ok_from cap n xs"
proof -
  assume n: "n + length xs \<le> cap" and "length xs \<le> 3" "defer_rev (rev xs) = length xs"
  then have "xs \<in> {[], [CR], [LF], [CR, LF], [LF, CR], [CR, CR], [CR, LF, CR]}"
    by (cases "rev xs" rule: defer_rev.cases; cases xs rule: defer_rev.cases) (auto split: if_splits)
  with n show ?thesis
    by (auto simp: ok_from_eol [of _ _ "[]"] ok_from_boundary [of _ _ _ _ "[]"]
          ok_from_Nil ok_run_Nil strip_eol.simps(2))
qed

text \<open>What the stream \<open>rest\<close> still to come must satisfy from a scan state on.\<close>

definition pending_ok :: "nat \<Rightarrow> scan_state \<Rightarrow> u8 list \<Rightarrow> bool" where
  "pending_ok cap st rest =
     (if ss_in_eol_run st then ok_run cap (ss_carry st @ rest)
      else ok_from cap (ss_since_boundary st) (ss_carry st @ rest))"

text \<open>
  The invariant of the guard's state: the count is within the cap, the carry is a pure
  boundary prefix of at most three bytes, and inside an end-of-line run nothing is counted and
  at most one carriage return is carried.
\<close>

definition scan_inv :: "nat \<Rightarrow> scan_state \<Rightarrow> bool" where
  "scan_inv cap st \<longleftrightarrow> ss_since_boundary st \<le> cap \<and> length (ss_carry st) \<le> 3
     \<and> defer_rev (rev (ss_carry st)) = length (ss_carry st)
     \<and> (ss_in_eol_run st \<longrightarrow> ss_since_boundary st = 0 \<and> (ss_carry st = [] \<or> ss_carry st = [CR]))"

text \<open>
  What a scan guarantees against the verdicts \<open>ok c\<close> of the bytes it was given followed by
  \<open>rest\<close>: a rejection is justified at the cap, and a new state stands for the same verdict at
  every cap from there on.
\<close>

definition scan_post ::
  "nat \<Rightarrow> nat \<Rightarrow> bool \<Rightarrow> u8 list \<Rightarrow> (nat \<Rightarrow> bool) \<Rightarrow> nat + scan_state \<Rightarrow> bool" where
  "scan_post cap cap' e rest ok r =
     (case r of Inl _ \<Rightarrow> \<not> ok cap
      | Inr s \<Rightarrow> scan_inv cap s \<and> (e \<longrightarrow> pending_ok cap s [] \<and> ss_carry s = []) \<and> pending_ok cap' s rest = ok cap')"

lemma scan_post_simps [simp]:
  "scan_post cap cap' e rest ok (Inl x) = (\<not> ok cap)"
  "scan_post cap cap' e rest ok (Inr s) =
     (scan_inv cap s \<and> (e \<longrightarrow> pending_ok cap s [] \<and> ss_carry s = []) \<and> pending_ok cap' s rest = ok cap')"
  by (simp_all add: scan_post_def)

lemma scan_post_cong:
  "ok cap = ok2 cap \<Longrightarrow> ok cap' = ok2 cap' \<Longrightarrow>
     scan_post cap cap' e rest ok r = scan_post cap cap' e rest ok2 r"
  by (cases r) auto

lemma after_run_correct:
  assumes "i \<le> jb_len b" and "e \<longrightarrow> rest = []"
  shows "case after_run b i e of
      Inl st \<Rightarrow> (\<exists>s. st = Some s \<and> scan_inv cap s \<and> (e \<longrightarrow> pending_ok cap s [] \<and> ss_carry s = [])
          \<and> pending_ok cap' s rest = ok_run cap' (drop i (jb_bytes b) @ rest))
    | Inr j \<Rightarrow> i \<le> j \<and> j < jb_len b
          \<and> ok_run cap' (drop i (jb_bytes b) @ rest) = ok_from cap' 0 (drop j (jb_bytes b) @ rest)"
proof -
  obtain j stop where js: "eol_run_end b i e = (j, stop)"
    by (cases "eol_run_end b i e") auto
  note run = eol_run_end_correct [OF js assms, of cap'] and ge = eol_run_end_ge [OF js]
  show ?thesis
  proof (cases stop)
    case StopContent
    with run obtain x xs where "drop j (jb_bytes b) = x # xs"
      by (metis Cons_nth_drop_Suc eol_run_stop.simps(7) jb.len_bytes)
    with run ge js StopContent show ?thesis
      by (auto simp: after_run_def ok_run_content)
  next
    case StopBufferEnd
    with run js show ?thesis
      by (auto simp: after_run_def in_run_state_def scan_inv_def pending_ok_def jb.len_bytes
            ok_run_Nil)
  next
    case StopIncompleteCr
    with run js show ?thesis
      by (auto simp: after_run_def in_run_state_def scan_inv_def pending_ok_def
            jb_collect_from_list)
  qed
qed

lemma scan_tail_correct:
  assumes "next_boundary b i e = None" and "i \<le> jb_len b" and "e \<longrightarrow> rest = []"
    and cap: "cap < usize_max" "cap \<le> cap'"
  shows "\<exists>r. scan_tail b cap e n i = Some r \<and> scan_post cap cap' e rest
    (\<lambda>c. ok_from c n (drop i (jb_bytes b) @ rest)) r"
proof -
  define tail where "tail = drop i (jb_bytes b)"
  define d where "d = (if e then 0 else defer_rev (rev tail))"
  have d: "d \<le> length tail" "d \<le> 3"
    using defer_rev_bound [of "rev tail"] by (auto simp: d_def)
  have ok: "ok_from c n (tail @ rest) = ok_from c (n + (length tail - d)) (drop (length tail - d) tail @ rest)"
    for c
    using next_boundary_none [OF assms(1,2), of c n rest] assms(3)
    by (cases e) (auto simp: tail_def d_def ok_from_Nil)
  have carry: "defer_rev (rev (drop (length tail - d) tail)) = length (drop (length tail - d) tail)"
    using defer_rev_idem [of "rev tail"] d by (auto simp: d_def rev_drop)
  have "scan_tail b cap e n i = Some
     (let since' = sat_add n (length tail - d)
      in if cap < since' then Inl since'
         else Inr \<lparr>ss_since_boundary = since', ss_carry = drop (length tail - d) tail,
                   ss_in_eol_run = False\<rparr>)"
    by (simp add: scan_tail_def Let_def boundary_prefix_suffix_len_list jb.len_bytes
          jb_bytes_suffix jb_collect_from_list tail_def d_def)
  moreover have "cap < sat_add n (length tail - d) \<Longrightarrow> \<not> ok_from cap n (tail @ rest)"
    using ok ok_from_exceeded sat_add_exceeds [OF cap(1)] by blast
  moreover have "e \<Longrightarrow> ok_from cap m (drop (length tail - d) tail) \<and> drop (length tail - d) tail = []"
    if "m \<le> cap" for m
    using that by (simp add: d_def ok_from_Nil)
  ultimately show ?thesis
    using sat_add_exact [of n "length tail - d" cap] cap d carry ok [of cap']
    by (auto simp: Let_def tail_def [symmetric] scan_inv_def pending_ok_def not_less)
qed

lemma scan_loop_correct:
  assumes "i \<le> jb_len b" and "e \<longrightarrow> rest = []"
    and cap: "cap < usize_max" "cap \<le> cap'"
  shows "\<exists>r. scan_loop b cap e n i i = Some r \<and> scan_post cap cap' e rest
    (\<lambda>c. ok_from c n (drop i (jb_bytes b) @ rest)) r"
  using assms(1)
proof (induction "jb_len b - i" arbitrary: i n rule: less_induct)
  case less
  show ?case
  proof (cases "next_boundary b i e")
    case None
    with scan_tail_correct [OF None less(2) assms(2) cap, of n] show ?thesis
      by (simp add: scan_loop.simps [of b cap e n i i])
  next
    case (Some p)
    obtain bs be where p: "p = (bs, be)" by (cases p)
    with Some have nb: "next_boundary b i e = Some (bs, be)" by simp
    note range = next_boundary_range [OF nb]
    have ok: "i \<le> bs" "be \<le> jb_len b"
      "ok_from c n (drop i (jb_bytes b) @ rest) =
         (n + (bs - i) \<le> c \<and> ok_run c (drop be (jb_bytes b) @ rest))" for c
      using next_boundary_correct [OF nb less(2) assms(2)] by auto
    show ?thesis
    proof (cases "cap < sat_add n (bs - i)")
      case True
      with nb ok(3) [of cap] show ?thesis
        by (simp add: scan_loop.simps [of b cap e n i i] sat_sub_def Let_def
              sat_add_exceeds [OF cap(1)])
    next
      case False
      then have le: "n + (bs - i) \<le> cap"
        by (simp add: sat_add_exceeds [OF cap(1)])
      show ?thesis
      proof (cases "after_run b be e")
        case (Inl st)
        with after_run_correct [OF ok(2) assms(2), of cap cap'] nb False le ok(3) [of cap'] cap(2)
        show ?thesis
          by (auto simp: scan_loop.simps [of b cap e n i i] sat_sub_def Let_def)
      next
        case (Inr j)
        from after_run_correct [OF ok(2) assms(2), of cap cap'] Inr
          after_run_correct [OF ok(2) assms(2), of cap cap]
        have j: "be \<le> j" "j < jb_len b"
          "ok_run cap' (drop be (jb_bytes b) @ rest) = ok_from cap' 0 (drop j (jb_bytes b) @ rest)"
          "ok_run cap (drop be (jb_bytes b) @ rest) = ok_from cap 0 (drop j (jb_bytes b) @ rest)"
          by auto
        have "jb_len b - j < jb_len b - i" using range j by linarith
        from less(1) [OF this, of 0] j(2) obtain r where r: "scan_loop b cap e 0 j j = Some r"
          "scan_post cap cap' e rest (\<lambda>c. ok_from c 0 (drop j (jb_bytes b) @ rest)) r"
          by auto
        from nb False Inr r(1) have "scan_loop b cap e n i i = Some r"
          by (simp add: scan_loop.simps [of b cap e n i i] sat_sub_def Let_def)
        moreover have "ok_from c n (drop i (jb_bytes b) @ rest) = ok_from c 0 (drop j (jb_bytes b) @ rest)"
          if "c = cap \<or> c = cap'" for c
          using that j(3,4) le cap(2) ok(3) [of c] by auto
        ultimately show ?thesis
          using r(2) by (auto cong: scan_post_cong)
      qed
    qed
  qed
qed

lemma scan_frames_correct:
  assumes "e \<longrightarrow> rest = []" and "cap < usize_max" "cap \<le> cap'" and inv: "scan_inv cap st"
  shows "\<exists>r. scan_frames_since_boundary st chunk cap e = Some r \<and> scan_post cap cap' e rest
    (\<lambda>c. pending_ok c st (chunk @ rest)) r"
proof -
  define b where "b = \<lparr>jb_head = ss_carry st, jb_tail = chunk\<rparr>"
  have bytes: "jb_bytes b = ss_carry st @ chunk"
    by (simp add: b_def jb_bytes_def)
  note e = assms(1) and cap = assms(2,3)
  show ?thesis
  proof (cases "ss_in_eol_run st")
    case False
    then show ?thesis
      using scan_loop_correct [OF _ e cap, where i = 0 and b = b and n = "ss_since_boundary st"]
      by (simp add: scan_frames_since_boundary_def Let_def pending_ok_def bytes flip: b_def)
  next
    case True
    with inv have z: "ss_since_boundary st = 0" by (simp add: scan_inv_def)
    note run = after_run_correct [OF le0 e, where b = b]
    show ?thesis
    proof (cases "after_run b 0 e")
      case (Inl s)
      with run [where cap = cap and cap' = cap'] True show ?thesis
        by (auto simp: scan_frames_since_boundary_def Let_def pending_ok_def bytes simp flip: b_def)
    next
      case (Inr j)
      have "ok_run c (jb_bytes b @ rest) = ok_from c 0 (drop j (jb_bytes b) @ rest)" for c
        using run [where cap = cap and cap' = c] Inr by simp
      moreover have "j \<le> jb_len b" using run [where cap = cap and cap' = cap] Inr by simp
      ultimately show ?thesis
        using scan_loop_correct [OF _ e cap, where i = j and b = b and n = 0] True z Inr
        by (simp add: scan_frames_since_boundary_def Let_def pending_ok_def bytes flip: b_def)
    qed
  qed
qed

subsection \<open>The guard and the stream adapter\<close>

definition guard_inv :: "sse_frame_guard \<Rightarrow> bool" where
  "guard_inv g \<longleftrightarrow> g_max_frame_bytes g < usize_max \<and> 1024 \<le> g_max_frame_bytes g
     \<and> scan_inv (g_max_frame_bytes g) (g_state g)"

definition guard_ok :: "sse_frame_guard \<Rightarrow> u8 list \<Rightarrow> bool" where
  "guard_ok g rest = pending_ok (g_max_frame_bytes g) (g_state g) rest"

lemma usize_max_large: "1024 < usize_max"
  by (simp add: usize_max_def)

lemma guard_new_inv: "m < usize_max \<Longrightarrow> guard_inv (guard_new m)"
  using usize_max_large by (simp add: guard_inv_def guard_new_def scan_inv_def)

lemma guard_new_ok: "guard_ok (guard_new m) xs = stream_ok (max m 1024) xs"
  by (simp add: guard_ok_def guard_new_def pending_ok_def stream_ok_run)

text \<open>One call of the guard: it returns, and its verdict is the reference's.\<close>

lemma guard_scan_cases:
  assumes "guard_inv g" and "e \<longrightarrow> rest = []"
  obtains (rejected) err g' where "guard_scan g chunk e = Some (Inl err, g')"
      "\<not> guard_ok g (chunk @ rest)"
  | (passed) g' where "guard_scan g chunk e = Some (Inr (), g')" "guard_inv g'"
      "g_max_frame_bytes g' = g_max_frame_bytes g" "guard_ok g' rest = guard_ok g (chunk @ rest)"
      "\<And>cap'. g_max_frame_bytes g \<le> cap' \<Longrightarrow>
         pending_ok cap' (g_state g') rest = pending_ok cap' (g_state g) (chunk @ rest)"
      "e \<Longrightarrow> guard_ok g' []"
proof -
  let ?cap = "g_max_frame_bytes g"
  from assms(1) have cap: "?cap < usize_max" and inv: "scan_inv ?cap (g_state g)"
    by (simp_all add: guard_inv_def)
  obtain r where r: "scan_frames_since_boundary (g_state g) chunk ?cap e = Some r"
    "scan_post ?cap ?cap e rest (\<lambda>c. pending_ok c (g_state g) (chunk @ rest)) r"
    using scan_frames_correct [OF assms(2) cap order_refl inv] by blast
  have all: "scan_post ?cap cap' e rest (\<lambda>c. pending_ok c (g_state g) (chunk @ rest)) r"
    if "?cap \<le> cap'" for cap'
    using scan_frames_correct [OF assms(2) cap that inv, of chunk] r(1) by auto
  show thesis
  proof (cases r)
    case (Inl observed)
    with r show thesis by (intro rejected) (auto simp: guard_scan_def guard_ok_def)
  next
    case (Inr st)
    show thesis
      by (rule passed [of "g\<lparr>g_state := st\<rparr>"])
        (use r all assms(1) Inr in \<open>auto simp: guard_scan_def guard_ok_def guard_inv_def\<close>)
  qed
qed

lemma bounded_stream_ok:
  assumes "guard_inv g"
  shows "\<exists>out. bounded_stream_from g (map Inr cs) = Some out \<and>
    (if guard_ok g (concat cs) then out = map Inr cs
     else \<exists>k err. k \<le> length cs \<and> out = map Inr (take k cs) @ [Inl err])"
  using assms
proof (induction cs arbitrary: g)
  case Nil
  then show ?case
    by (rule guard_scan_cases [of g True "[]" "[]"]) (auto simp: finish_def)
next
  case (Cons c cs)
  show ?case
  proof (rule guard_scan_cases [of g False "concat cs" c])
    show "guard_inv g" by (rule Cons.prems)
    show "False \<longrightarrow> concat cs = []" by simp
  next
    fix err g'
    assume "guard_scan g c False = Some (Inl err, g')" "\<not> guard_ok g (c @ concat cs)"
    then show ?case by (auto simp: accept_def intro!: exI [of _ "0::nat"])
  next
    fix g'
    assume g': "guard_scan g c False = Some (Inr (), g')" "guard_inv g'"
      "guard_ok g' (concat cs) = guard_ok g (c @ concat cs)"
    from Cons.IH [OF g'(2)] obtain out where out: "bounded_stream_from g' (map Inr cs) = Some out"
      "if guard_ok g' (concat cs) then out = map Inr cs
       else \<exists>k err. k \<le> length cs \<and> out = map Inr (take k cs) @ [Inl err]"
      by blast
    have "\<exists>k' err'. k' \<le> length (c # cs) \<and> Inr c # out = map Inr (take k' (c # cs)) @ [Inl err']"
      if "out = map Inr (take k cs) @ [Inl err]" "k \<le> length cs" for k err
      using that by (intro exI [of _ "Suc k"] exI [of _ err]) simp
    with g' out show ?case by (auto simp: accept_def split: if_splits)
  qed
qed

text \<open>The bytes an adapter run handed downstream, its error items left out.\<close>

fun forwarded :: "(string + u8 list) list \<Rightarrow> u8 list" where
  "forwarded [] = []"
| "forwarded (Inl _ # xs) = forwarded xs"
| "forwarded (Inr bytes # xs) = bytes @ forwarded xs"

lemma guard_inv_slack:
  assumes "guard_inv g"
  shows "pending_ok (g_max_frame_bytes g + 3) (g_state g) []"
  using assms by (auto simp: guard_inv_def scan_inv_def pending_ok_def ok_run_Nil
      ok_run_eol [of "[CR]" _ "[]"] strip_eol.simps(2) intro!: ok_from_short)

lemma bounded_stream_forwarded:
  "guard_inv g \<Longrightarrow> bounded_stream_from g stream = Some out \<Longrightarrow>
     pending_ok (g_max_frame_bytes g + 3) (g_state g) (forwarded out)"
proof (induction g stream arbitrary: out rule: bounded_stream_from.induct)
  case (1 g)
  then show ?case
    by (auto split: option.splits sum.splits prod.splits dest: guard_inv_slack)
next
  case (2 g err rest)
  then show ?case by (auto dest: guard_inv_slack)
next
  case (3 g bytes rest)
  show ?case
  proof (rule guard_scan_cases [of g False "forwarded (tl out)" bytes])
    show "guard_inv g" by (rule "3.prems")
    show "False \<longrightarrow> forwarded (tl out) = []" by simp
  next
    fix err g'
    assume "guard_scan g bytes False = Some (Inl err, g')"
    with "3.prems" show ?case by (auto simp: accept_def dest: guard_inv_slack)
  next
    fix g'
    assume g': "guard_scan g bytes False = Some (Inr (), g')" "guard_inv g'"
      "g_max_frame_bytes g' = g_max_frame_bytes g"
      and pend: "\<And>cap'. g_max_frame_bytes g \<le> cap' \<Longrightarrow>
         pending_ok cap' (g_state g') (forwarded (tl out))
           = pending_ok cap' (g_state g) (bytes @ forwarded (tl out))"
    from g' "3.prems"(2) obtain out' where out': "out = Inr bytes # out'"
      "bounded_stream_from g' rest = Some out'"
      by (auto simp: accept_def)
    have "accept g bytes = Some (Inr (), g')" using g' by (simp add: accept_def)
    from "3.IH" [OF this refl refl g'(2) out'(2)]
    have "pending_ok (g_max_frame_bytes g' + 3) (g_state g') (forwarded out')" .
    with pend [of "g_max_frame_bytes g + 3"] out' g'(3) show ?case by simp
  qed
qed

lemma bounded_stream_total: "guard_inv g \<Longrightarrow> \<exists>out. bounded_stream_from g stream = Some out"
proof (induction stream arbitrary: g)
  case Nil
  then show ?case
    by (rule guard_scan_cases [of g True "[]" "[]"]) (auto simp: finish_def)
next
  case (Cons x xs)
  show ?case
  proof (cases x)
    case (Inr bytes)
    from Cons.prems show ?thesis
      by (rule guard_scan_cases [of g False "[]" bytes]) (use Cons.IH Inr in \<open>auto simp: accept_def\<close>)
  qed simp
qed

lemma finish_twice:
  assumes "guard_inv g" and "finish g = Some (Inr (), g')"
  shows "finish g' = Some (Inr (), g')"
proof -
  let ?cap = "g_max_frame_bytes g"
  obtain st where st: "scan_frames_since_boundary (g_state g) [] ?cap True = Some (Inr st)"
    "g' = g\<lparr>g_state := st\<rparr>"
    using assms(2) by (auto simp: finish_def guard_scan_def split: option.splits sum.splits)
  obtain r where "scan_frames_since_boundary (g_state g) [] ?cap True = Some r"
    "scan_post ?cap ?cap True [] (\<lambda>c. pending_ok c (g_state g) ([] @ [])) r"
    using scan_frames_correct [of True "[]" ?cap ?cap "g_state g" "[]"] assms(1)
    by (auto simp: guard_inv_def)
  with st have inv: "scan_inv ?cap st" by simp
  have carry: "ss_carry st = []"
    using \<open>scan_post _ _ _ _ _ r\<close> \<open>_ = Some r\<close> st(1) by auto
  define b where "b = \<lparr>jb_head = [], jb_tail = ([] :: u8 list)\<rparr>"
  have b: "jb_len b = 0" "eol_token_at b 0 True = EolNone" "jb_suffix b 0 = b"
    "jb_collect_from b 0 = Some []" "next_boundary b 0 True = None"
    by (simp_all add: b_def jb_len_def eol_token_list jb_bytes_def jb_suffix_def
          jb_collect_from_list next_boundary.simps)
  have "scan_frames_since_boundary st [] ?cap True = Some (Inr st)"
  proof (cases "ss_in_eol_run st")
    case True
    with inv carry have "st = in_run_state []"
      by (cases st) (simp add: scan_inv_def in_run_state_def)
    then show ?thesis
      by (simp add: scan_frames_since_boundary_def in_run_state_def after_run_def b
            eol_run_end.simps [of b 0] flip: b_def)
  next
    case False
    with inv carry assms(1) show ?thesis
      by (cases st) (simp add: scan_frames_since_boundary_def scan_loop.simps [of b] b
            scan_tail_def scan_inv_def guard_inv_def sat_add_0 flip: b_def)
  qed
  with st(2) show ?thesis by (simp add: finish_def guard_scan_def)
qed

subsection \<open>Properties\<close>

text \<open>
  C9: the verdict of the SSE frame guard does not depend on how the upstream bytes are split into
  chunks.  For any chunking, the adapter forwards every chunk unchanged exactly when each frame
  of the concatenated stream fits the (floored) cap; otherwise it forwards a prefix of the
  chunks and ends with one error, so nothing is truncated silently and no panic occurs.
\<close>

theorem sse_verdict_chunking_independent:
  assumes "m < usize_max"
  shows "\<exists>out. bounded_sse_byte_stream m (map Inr cs) = Some out \<and>
    (if stream_ok (max m 1024) (concat cs) then out = map Inr cs
     else \<exists>k err. k \<le> length cs \<and> out = map Inr (take k cs) @ [Inl err])"
  using bounded_stream_ok [OF guard_new_inv [OF assms], of cs]
  by (simp add: bounded_sse_byte_stream_def guard_new_ok)

theorem sse_verdict_chunking_independent_witness:
  "bounded_sse_byte_stream 2048 [Inr [100, 13], Inr [10, 13], Inr [10, 100]]
     = Some [Inr [100, 13], Inr [10, 13], Inr [10, 100]]"
proof -
  have "(2048 :: nat) < usize_max" by (simp add: usize_max_def)
  moreover have "stream_ok (max 2048 1024) [100, 13, 10, 13, 10, 100]"
    by (simp add: stream_ok_def frames_def skip_eols.simps frames_from.simps strip_eol.simps(2))
  ultimately show ?thesis
    using sse_verdict_chunking_independent [of 2048 "[[100, 13], [10, 13], [10, 100]]"] by simp
qed

text \<open>
  Whatever the upstream sends, transport errors included, the adapter's run ends without a
  panic, and no frame of the bytes it handed to the event-stream parser is longer than the cap
  plus the three bytes of a deferred boundary prefix, which bounds the parser's buffer.
\<close>

theorem sse_forwarded_frames_bounded:
  assumes "m < usize_max"
  shows "\<exists>out. bounded_sse_byte_stream m stream = Some out
    \<and> stream_ok (max m 1024 + 3) (forwarded out)"
proof -
  have inv: "guard_inv (guard_new m)" by (rule guard_new_inv [OF assms])
  obtain out where out: "bounded_stream_from (guard_new m) stream = Some out"
    using bounded_stream_total [OF inv] by blast
  from bounded_stream_forwarded [OF inv out] have "stream_ok (max m 1024 + 3) (forwarded out)"
    by (simp add: guard_new_def pending_ok_def stream_ok_run)
  with out show ?thesis by (simp add: bounded_sse_byte_stream_def)
qed

theorem sse_forwarded_frames_bounded_witness:
  "\<exists>out. bounded_sse_byte_stream 8388608 [Inr [100, 10], Inl ''reset''] = Some out
    \<and> stream_ok (max 8388608 1024 + 3) (forwarded out)"
proof -
  have "(8388608 :: nat) < usize_max" by (simp add: usize_max_def)
  from sse_forwarded_frames_bounded [OF this] show ?thesis by blast
qed

text \<open>
  An accepted chunk keeps the guard's invariant: the count stays within the cap, the carry
  stays a pure boundary prefix of at most three bytes whatever the chunk's size, and inside an
  end-of-line run nothing is charged; the call never panics.
\<close>

theorem accept_keeps_invariant:
  assumes "guard_inv g"
  shows "\<exists>r g'. accept g chunk = Some (r, g') \<and> (is_ok r \<longrightarrow> guard_inv g')
    \<and> length (ss_carry (g_state g')) \<le> 3
    \<and> g_max_frame_bytes g' = g_max_frame_bytes g"
  using assms
proof (rule guard_scan_cases [of g False "[]" chunk])
  show "False \<longrightarrow> [] = ([] :: u8 list)" by simp
next
  fix err g'
  assume "guard_scan g chunk False = Some (Inl err, g')"
  then show ?thesis
    by (auto simp: accept_def guard_scan_def split: option.splits sum.splits)
qed (auto simp: accept_def guard_inv_def scan_inv_def)

theorem accept_keeps_invariant_witness:
  "\<exists>r g'. accept (guard_new 1024) [100, 13, 10, 13] = Some (r, g')
    \<and> length (ss_carry (g_state g')) \<le> 3
    \<and> g_max_frame_bytes g' = g_max_frame_bytes (guard_new 1024)"
  using accept_keeps_invariant [OF guard_new_inv [OF usize_max_large], of "[100, 13, 10, 13]"]
  by blast

text \<open>
  Finalising an ended stream is idempotent: after a \<^verbatim>\<open>finish\<close> that passed, a second one
  passes and changes nothing.
\<close>

theorem finish_idempotent:
  assumes "guard_inv g" and "finish g = Some (Inr (), g')"
  shows "finish g' = Some (Inr (), g')"
  by (rule finish_twice [OF assms])

theorem finish_idempotent_witness:
  "finish (guard_new 1024) = Some (Inr (), guard_new 1024)"
proof -
  have "finish (guard_new 1024) = Some (Inr (), guard_new 1024)"
    by (simp add: finish_def guard_scan_def guard_new_def scan_frames_since_boundary_def
          after_run_def eol_run_end.simps eol_token_at_def jb_byte_def jb_len_def slice_get_def
          in_run_state_def)
  from finish_idempotent [OF guard_new_inv [OF usize_max_large] this] show ?thesis .
qed

end
