(* ===== verification/Tool_Delta_Gate.thy ===== *)
theory Tool_Delta_Gate
  imports Prelude
begin

text \<open>
  The gate over streamed tool-call argument deltas (\<^verbatim>\<open>src/src/tool_delta_gate.rs\<close>) and the
  engine's driver that turns its decisions into emissions
  (\<^verbatim>\<open>drive_delta_decision\<close> in \<^verbatim>\<open>src/src/engine.rs\<close>): leading fragments of a call
  whose name is not yet known are buffered under two byte caps, then dropped when the call
  resolves to a hidden tool or flushed in order when it resolves to a visible one.
\<close>

subsection \<open>State and operations\<close>

definition max_pending_per_call :: nat where
  "max_pending_per_call = 256 * 1024"

definition max_pending_total :: nat where
  "max_pending_total = 1024 * 1024"

type_synonym fragment = "string option \<times> string"

record pending_deltas =
  pd_buffered :: "fragment list"
  pd_bytes :: nat

definition pending_default :: pending_deltas where
  "pending_default = \<lparr>pd_buffered = [], pd_bytes = 0\<rparr>"

record delta_emission =
  de_call_id :: string
  de_name :: "string option"
  de_delta :: string

datatype delta_decision =
    DecNone
  | DecOne delta_emission
  | DecFlush string "fragment list" "fragment option"

datatype pending_overflow = PendingBufferOverflow

record tool_delta_gate =
  tg_buffer :: "string \<rightharpoonup> pending_deltas"
  tg_pending_bytes :: nat

definition gate_new :: tool_delta_gate where
  "gate_new = \<lparr>tg_buffer = Map.empty, tg_pending_bytes = 0\<rparr>"

definition buffer_delta ::
  "tool_delta_gate \<Rightarrow> string \<Rightarrow> string option \<Rightarrow> string
     \<Rightarrow> (pending_overflow + delta_decision) \<times> tool_delta_gate" where
  "buffer_delta g call_id name delta =
     (let delta_bytes = length delta;
          current = (case tg_buffer g call_id of None \<Rightarrow> 0 | Some p \<Rightarrow> pd_bytes p)
      in if max_pending_per_call < current + delta_bytes
            \<or> max_pending_total < tg_pending_bytes g + delta_bytes
         then (Inl PendingBufferOverflow, g)
         else (let p = (case tg_buffer g call_id of None \<Rightarrow> pending_default | Some p \<Rightarrow> p);
                   p' = \<lparr>pd_buffered = pd_buffered p @ [(name, delta)],
                         pd_bytes = pd_bytes p + delta_bytes\<rparr>
               in (Inr DecNone,
                   \<lparr>tg_buffer = (tg_buffer g)(call_id \<mapsto> p'),
                    tg_pending_bytes = tg_pending_bytes g + delta_bytes\<rparr>)))"

definition on_delta ::
  "tool_delta_gate \<Rightarrow> string \<Rightarrow> string option \<Rightarrow> string \<Rightarrow> bool option
     \<Rightarrow> (pending_overflow + delta_decision) \<times> tool_delta_gate" where
  "on_delta g call_id name delta hidden =
     (case hidden of
        None \<Rightarrow> buffer_delta g call_id name delta
      | Some True \<Rightarrow>
          (case map_remove call_id (tg_buffer g) of
             (Some p, rest) \<Rightarrow>
               (Inr DecNone, \<lparr>tg_buffer = rest,
                              tg_pending_bytes = sat_sub (tg_pending_bytes g) (pd_bytes p)\<rparr>)
           | (None, _) \<Rightarrow> (Inr DecNone, g))
      | Some False \<Rightarrow>
          (case map_remove call_id (tg_buffer g) of
             (Some p, rest) \<Rightarrow>
               (Inr (DecFlush call_id (pd_buffered p) (Some (name, delta))),
                \<lparr>tg_buffer = rest,
                 tg_pending_bytes = sat_sub (tg_pending_bytes g) (pd_bytes p)\<rparr>)
           | (None, _) \<Rightarrow>
               (Inr (DecOne \<lparr>de_call_id = call_id, de_name = name, de_delta = delta\<rparr>), g)))"

text \<open>
  The buffer entry is removed even when its fragment list is empty; only a non-empty one
  returns its bytes to the pool.
\<close>

definition flush_pending_client_tool ::
  "tool_delta_gate \<Rightarrow> string \<Rightarrow> delta_decision \<times> tool_delta_gate" where
  "flush_pending_client_tool g call_id =
     (case map_remove call_id (tg_buffer g) of
        (Some p, rest) \<Rightarrow>
          (if pd_buffered p \<noteq> []
           then (DecFlush call_id (pd_buffered p) None,
                 \<lparr>tg_buffer = rest,
                  tg_pending_bytes = sat_sub (tg_pending_bytes g) (pd_bytes p)\<rparr>)
           else (DecNone, g\<lparr>tg_buffer := rest\<rparr>))
      | (None, rest) \<Rightarrow> (DecNone, g\<lparr>tg_buffer := rest\<rparr>))"

text \<open>The emissions the engine sends for a decision, in the order of its sends.\<close>

fun drive_delta_decision :: "delta_decision \<Rightarrow> delta_emission list" where
  "drive_delta_decision DecNone = []"
| "drive_delta_decision (DecOne e) = [e]"
| "drive_delta_decision (DecFlush call_id buffered trailing) =
     map (\<lambda>(name, delta). \<lparr>de_call_id = call_id, de_name = name, de_delta = delta\<rparr>)
       (buffered @ (case trailing of None \<Rightarrow> [] | Some t \<Rightarrow> [t]))"

subsection \<open>The invariant\<close>

definition fragment_bytes :: "fragment list \<Rightarrow> nat" where
  "fragment_bytes fs = sum_list (map (length \<circ> snd) fs)"

lemma fragment_bytes_simps [simp]:
  "fragment_bytes [] = 0" "fragment_bytes (fs @ [(n, d)]) = fragment_bytes fs + length d"
  by (simp_all add: fragment_bytes_def)

definition gate_inv :: "tool_delta_gate \<Rightarrow> bool" where
  "gate_inv g \<longleftrightarrow> finite (dom (tg_buffer g))
     \<and> (\<forall>c p. tg_buffer g c = Some p \<longrightarrow>
          pd_buffered p \<noteq> [] \<and> pd_bytes p = fragment_bytes (pd_buffered p)
          \<and> fragment_bytes (pd_buffered p) \<le> max_pending_per_call)
     \<and> tg_pending_bytes g = (\<Sum>c \<in> dom (tg_buffer g). pd_bytes (the (tg_buffer g c)))
     \<and> tg_pending_bytes g \<le> max_pending_total"

lemma gate_new_inv: "gate_inv gate_new"
  by (simp add: gate_inv_def gate_new_def)

lemma gate_inv_entry:
  assumes "gate_inv g" and "tg_buffer g c = Some p"
  shows "pd_buffered p \<noteq> []" "pd_bytes p = fragment_bytes (pd_buffered p)"
    "pd_bytes p \<le> max_pending_per_call"
  using assms unfolding gate_inv_def by auto

lemma gate_inv_other_bytes:
  assumes "gate_inv g"
  shows "tg_pending_bytes g =
    (case tg_buffer g c of None \<Rightarrow> 0 | Some p \<Rightarrow> pd_bytes p)
      + (\<Sum>x \<in> dom (tg_buffer g) - {c}. pd_bytes (the (tg_buffer g x)))"
proof (cases "c \<in> dom (tg_buffer g)")
  case True
  with assms show ?thesis
    by (auto simp: gate_inv_def sum.remove [of "dom (tg_buffer g)" c])
next
  case False
  with assms show ?thesis by (auto simp: gate_inv_def domIff)
qed

lemma gate_inv_remove:
  assumes inv: "gate_inv g" and c: "tg_buffer g c = Some p"
  shows "gate_inv \<lparr>tg_buffer = (tg_buffer g)(c := None),
                   tg_pending_bytes = sat_sub (tg_pending_bytes g) (pd_bytes p)\<rparr>"
proof -
  have "sat_sub (tg_pending_bytes g) (pd_bytes p)
      = (\<Sum>x \<in> dom (tg_buffer g) - {c}. pd_bytes (the (tg_buffer g x)))"
    using gate_inv_other_bytes [OF inv, of c] c by (simp add: sat_sub_def)
  also have "\<dots> = (\<Sum>x \<in> dom (tg_buffer g) - {c}. pd_bytes (the (((tg_buffer g)(c := None)) x)))"
    by (rule sum.cong) auto
  finally show ?thesis
    using inv unfolding gate_inv_def by (auto simp: sat_sub_def)
qed

lemma gate_inv_push:
  assumes inv: "gate_inv g"
    and p: "p = (case tg_buffer g c of None \<Rightarrow> pending_default | Some p \<Rightarrow> p)"
    and caps: "pd_bytes p + length d \<le> max_pending_per_call"
      "tg_pending_bytes g + length d \<le> max_pending_total"
  shows "gate_inv \<lparr>tg_buffer = (tg_buffer g)(c \<mapsto>
            \<lparr>pd_buffered = pd_buffered p @ [(n, d)], pd_bytes = pd_bytes p + length d\<rparr>),
          tg_pending_bytes = tg_pending_bytes g + length d\<rparr>" (is "gate_inv ?g")
proof -
  let ?p = "\<lparr>pd_buffered = pd_buffered p @ [(n, d)], pd_bytes = pd_bytes p + length d\<rparr>"
  have bytes: "pd_bytes p = fragment_bytes (pd_buffered p)"
    using p gate_inv_entry [OF inv] by (auto simp: pending_default_def split: option.splits)
  have fin: "finite (dom (tg_buffer g))" using inv by (simp add: gate_inv_def)
  define m where "m = (tg_buffer g)(c \<mapsto> ?p)"
  have m: "m c = Some ?p" "dom m = insert c (dom (tg_buffer g))"
    "\<And>x. x \<noteq> c \<Longrightarrow> m x = tg_buffer g x" by (simp_all add: m_def)
  have "(\<Sum>x \<in> dom m. pd_bytes (the (m x)))
      = pd_bytes ?p + (\<Sum>x \<in> dom (tg_buffer g) - {c}. pd_bytes (the (m x)))"
    using fin m(1) by (simp add: m(2) sum.insert_remove)
  also have "(\<Sum>x \<in> dom (tg_buffer g) - {c}. pd_bytes (the (m x)))
      = (\<Sum>x \<in> dom (tg_buffer g) - {c}. pd_bytes (the (tg_buffer g x)))"
    by (rule sum.cong) (auto simp: m(3))
  finally have sum: "(\<Sum>x \<in> dom m. pd_bytes (the (m x))) = tg_pending_bytes g + length d"
    using gate_inv_other_bytes [OF inv, of c] p
    by (auto simp: pending_default_def split: option.splits)
  have "pd_buffered q \<noteq> [] \<and> pd_bytes q = fragment_bytes (pd_buffered q)
      \<and> fragment_bytes (pd_buffered q) \<le> max_pending_per_call" if "m x = Some q" for x q
    using that bytes caps gate_inv_entry [OF inv, of x q] m(1,3) by (cases "x = c") auto
  with fin caps sum m(2) have "gate_inv \<lparr>tg_buffer = m, tg_pending_bytes = tg_pending_bytes g + length d\<rparr>"
    unfolding gate_inv_def by simp
  then show ?thesis by (simp add: m_def)
qed

lemma on_delta_inv:
  assumes "gate_inv g" and "on_delta g c n d h = (r, g')"
  shows "gate_inv g'"
proof (cases h)
  case None
  with assms gate_inv_push [OF assms(1) refl, of c d n] show ?thesis
    by (auto simp: on_delta_def buffer_delta_def Let_def pending_default_def
          split: if_splits option.splits)
next
  case (Some b)
  with assms gate_inv_remove [OF assms(1)] show ?thesis
    by (cases b) (auto simp: on_delta_def map_remove_def split: option.splits)
qed

lemma flush_inv: "gate_inv g \<Longrightarrow> flush_pending_client_tool g c = (r, g') \<Longrightarrow> gate_inv g'"
  using gate_inv_remove [of g c]
  by (auto simp: flush_pending_client_tool_def map_remove_def fun_upd_idem dest: gate_inv_entry
      split: option.splits if_splits)

subsection \<open>Runs\<close>

type_synonym gate_event = "string \<times> string option \<times> string \<times> bool option"

text \<open>The engine's loop over the deltas of a turn; an overflow ends the turn.\<close>

fun gate_run :: "tool_delta_gate \<Rightarrow> gate_event list
    \<Rightarrow> (pending_overflow + delta_emission list) \<times> tool_delta_gate" where
  "gate_run g [] = (Inr [], g)"
| "gate_run g ((c, n, d, h) # es) =
     (case on_delta g c n d h of
        (Inl e, g') \<Rightarrow> (Inl e, g')
      | (Inr dec, g') \<Rightarrow>
          (case gate_run g' es of
             (Inl e, g'') \<Rightarrow> (Inl e, g'')
           | (Inr out, g'') \<Rightarrow> (Inr (drive_delta_decision dec @ out), g'')))"

text \<open>The fragments of one call among emissions, among events and in the buffer.\<close>

definition emitted :: "string \<Rightarrow> delta_emission list \<Rightarrow> fragment list" where
  "emitted c out = map (\<lambda>e. (de_name e, de_delta e)) (filter (\<lambda>e. de_call_id e = c) out)"

definition sent :: "string \<Rightarrow> gate_event list \<Rightarrow> fragment list" where
  "sent c es = map (\<lambda>(_, n, d, _). (n, d)) (filter (\<lambda>(c', _). c' = c) es)"

definition pending :: "string \<Rightarrow> tool_delta_gate \<Rightarrow> fragment list" where
  "pending c g = (case tg_buffer g c of None \<Rightarrow> [] | Some p \<Rightarrow> pd_buffered p)"

lemma emitted_append [simp]: "emitted c (xs @ ys) = emitted c xs @ emitted c ys"
  by (simp add: emitted_def)

lemma emitted_Nil [simp]: "emitted c [] = []"
  by (simp add: emitted_def)

lemma sent_simps [simp]:
  "sent c [] = []"
  "sent c ((c', n, d, h) # es) = (if c' = c then [(n, d)] else []) @ sent c es"
  by (simp_all add: sent_def)

lemma emitted_flush [simp]:
  "emitted c (drive_delta_decision (DecFlush c' fs t)) =
     (if c' = c then fs @ (case t of None \<Rightarrow> [] | Some x \<Rightarrow> [x]) else [])"
  by (auto simp: emitted_def filter_map comp_def split_def split: option.splits)

lemma emitted_one [simp]:
  "emitted c [\<lparr>de_call_id = c', de_name = n, de_delta = d\<rparr>] = (if c' = c then [(n, d)] else [])"
  by (simp add: emitted_def)

text \<open>A step keeps every other call's fragments and moves this call's along, in order.\<close>

lemma on_delta_other:
  assumes "on_delta g c n d h = (Inr dec, g')" and "c' \<noteq> c"
  shows "emitted c' (drive_delta_decision dec) = []" "pending c' g' = pending c' g"
  using assms
  by (auto simp: on_delta_def buffer_delta_def map_remove_def Let_def pending_def
      simp del: drive_delta_decision.simps(3)
      split: option.splits bool.splits if_splits)

lemma on_delta_same:
  assumes "on_delta g c n d h = (Inr dec, g')" and "h \<noteq> Some True"
  shows "emitted c (drive_delta_decision dec) @ pending c g' = pending c g @ [(n, d)]"
  using assms
  by (auto simp: on_delta_def buffer_delta_def map_remove_def Let_def pending_def
      pending_default_def simp del: drive_delta_decision.simps(3)
      split: option.splits bool.splits if_splits)

lemma on_delta_hidden:
  assumes "on_delta g c n d h = (Inr dec, g')" and "h \<noteq> Some False"
  shows "emitted c (drive_delta_decision dec) = []"
  using assms
  by (auto simp: on_delta_def buffer_delta_def map_remove_def Let_def
      split: option.splits bool.splits if_splits)

lemma gate_run_visible:
  assumes "gate_run g es = (Inr out, g')"
    and "\<And>n d. (c, n, d, Some True) \<notin> set es"
  shows "emitted c out @ pending c g' = pending c g @ sent c es"
  using assms
proof (induction g es arbitrary: out rule: gate_run.induct)
  case (2 g c' n d h es)
  then obtain dec g1 out' where step: "on_delta g c' n d h = (Inr dec, g1)"
    "gate_run g1 es = (Inr out', g')" "out = drive_delta_decision dec @ out'"
    by (auto split: prod.splits sum.splits)
  have "emitted c out' @ pending c g' = pending c g1 @ sent c es"
    using "2.IH" step "2.prems"(2) by auto
  moreover have "emitted c (drive_delta_decision dec) @ pending c g1
      = pending c g @ (if c' = c then [(n, d)] else [])"
    using on_delta_same [OF step(1)] on_delta_other [OF step(1), of c] "2.prems"(2) by auto
  ultimately show ?case by (metis append_assoc emitted_append sent_simps(2) step(3))
qed simp

lemma gate_run_hidden:
  assumes "gate_run g es = (Inr out, g')"
    and "\<And>n d. (c, n, d, Some False) \<notin> set es"
  shows "emitted c out = []"
  using assms
proof (induction g es arbitrary: out rule: gate_run.induct)
  case (2 g c' n d h es)
  then obtain dec g1 out' where step: "on_delta g c' n d h = (Inr dec, g1)"
    "gate_run g1 es = (Inr out', g')" "out = drive_delta_decision dec @ out'"
    by (auto split: prod.splits sum.splits)
  have "emitted c out' = []" using "2.IH" step "2.prems"(2) by auto
  moreover have "emitted c (drive_delta_decision dec) = []"
    using on_delta_hidden [OF step(1)] on_delta_other [OF step(1), of c] "2.prems"(2)
    by (cases "c' = c") auto
  ultimately show ?case by (simp add: step(3))
qed simp

lemma gate_run_inv: "gate_inv g \<Longrightarrow> gate_run g es = (r, g') \<Longrightarrow> gate_inv g'"
proof (induction g es arbitrary: r rule: gate_run.induct)
  case (2 g c n d h es)
  then show ?case
    by (auto split: prod.splits sum.splits dest: on_delta_inv)
qed simp

subsection \<open>Properties\<close>

text \<open>
  C21: for a call that never resolves to a hidden tool, the fragments streamed to the client
  during a turn followed by those released by the turn-end flush are exactly the fragments the
  upstream sent for that call, in order, whatever other calls are interleaved with it.
\<close>

theorem visible_call_streamed_in_order:
  assumes "gate_run gate_new es = (Inr out, g)"
    and "\<And>n d. (c, n, d, Some True) \<notin> set es"
  shows "emitted c (out @ drive_delta_decision (fst (flush_pending_client_tool g c))) = sent c es"
proof -
  have inv: "gate_inv g" using gate_run_inv [OF gate_new_inv assms(1)] .
  have "emitted c (drive_delta_decision (fst (flush_pending_client_tool g c))) = pending c g"
    using gate_inv_entry(1) [OF inv, of c]
    by (auto simp: flush_pending_client_tool_def map_remove_def pending_def
        simp del: drive_delta_decision.simps(3) split: option.splits)
  moreover have "pending c gate_new = []" by (simp add: pending_def gate_new_def)
  ultimately show ?thesis using gate_run_visible [OF assms] by simp
qed

theorem visible_call_streamed_in_order_witness:
  "emitted ''c1'' ([\<lparr>de_call_id = ''c1'', de_name = None, de_delta = ''a''\<rparr>,
      \<lparr>de_call_id = ''c1'', de_name = Some ''f'', de_delta = ''b''\<rparr>] @
      drive_delta_decision (fst (flush_pending_client_tool gate_new ''c1'')))
    = [(None, ''a''), (Some ''f'', ''b'')]"
proof -
  define es where "es = [(''c1'', None, ''a'', None), (''c1'', Some ''f'', ''b'', Some False)]"
  have run: "gate_run gate_new es = (Inr [\<lparr>de_call_id = ''c1'', de_name = None, de_delta = ''a''\<rparr>,
      \<lparr>de_call_id = ''c1'', de_name = Some ''f'', de_delta = ''b''\<rparr>], gate_new)"
    by (simp add: es_def gate_new_def on_delta_def buffer_delta_def map_remove_def Let_def
        max_pending_per_call_def max_pending_total_def pending_default_def sat_sub_def)
  show ?thesis
    using visible_call_streamed_in_order [OF run, of "''c1''"] by (simp add: es_def)
qed

text \<open>
  C22: a call that never resolves to a visible tool (an internal or hallucinated one, or one
  whose name never arrives) has none of its fragments streamed to the client during the turn.
\<close>

theorem hidden_call_never_streamed:
  assumes "gate_run gate_new es = (Inr out, g)"
    and "\<And>n d. (c, n, d, Some False) \<notin> set es"
  shows "c \<notin> de_call_id ` set out"
proof -
  from gate_run_hidden [OF assms] have "filter (\<lambda>e. de_call_id e = c) out = []"
    by (simp add: emitted_def)
  then show ?thesis by (auto simp: filter_empty_conv)
qed

theorem hidden_call_never_streamed_witness:
  "''c1'' \<notin> de_call_id ` set [\<lparr>de_call_id = ''c2'', de_name = Some ''f'', de_delta = ''b''\<rparr>]"
proof -
  define es where "es = [(''c1'', None, ''a'', None), (''c2'', Some ''f'', ''b'', Some False),
     (''c1'', Some ''Grep'', ''c'', Some True)]"
  have run: "gate_run gate_new es
      = (Inr [\<lparr>de_call_id = ''c2'', de_name = Some ''f'', de_delta = ''b''\<rparr>], gate_new)"
    by (simp add: es_def gate_new_def on_delta_def buffer_delta_def map_remove_def Let_def
        max_pending_per_call_def max_pending_total_def pending_default_def sat_sub_def)
  show ?thesis
    by (rule hidden_call_never_streamed [OF run]) (simp add: es_def)
qed

text \<open>
  In every state a turn reaches, each call's byte counter is the size of its buffered
  fragments and at most 256 KiB, and the pool counter is the sum of all of them and at most
  1 MiB, also after an overflow and after drops and flushes returned bytes to the pool.
\<close>

theorem gate_memory_bounded:
  assumes "gate_run gate_new es = (r, g)"
  shows "tg_pending_bytes g = (\<Sum>c \<in> dom (tg_buffer g). fragment_bytes (pending c g))
    \<and> tg_pending_bytes g \<le> 1024 * 1024 \<and> fragment_bytes (pending c g) \<le> 256 * 1024"
proof (intro conjI)
  have inv: "gate_inv g" using gate_run_inv [OF gate_new_inv assms] .
  have bytes: "pd_bytes (the (tg_buffer g x)) = fragment_bytes (pending x g)"
    if "x \<in> dom (tg_buffer g)" for x
    using that gate_inv_entry(2) [OF inv] by (auto simp: pending_def)
  show "tg_pending_bytes g = (\<Sum>c \<in> dom (tg_buffer g). fragment_bytes (pending c g))"
    using inv bytes by (simp add: gate_inv_def)
  show "tg_pending_bytes g \<le> 1024 * 1024"
    using inv by (simp add: gate_inv_def max_pending_total_def)
  show "fragment_bytes (pending c g) \<le> 256 * 1024"
    using gate_inv_entry(2,3) [OF inv, of c]
    by (auto simp: pending_def max_pending_per_call_def split: option.splits)
qed

theorem gate_memory_bounded_witness:
  "1 = fragment_bytes [(None, ''a'')] \<and> fragment_bytes [(None, ''a'')] \<le> 256 * 1024"
proof -
  define g where "g = \<lparr>tg_buffer = [''c1'' \<mapsto> \<lparr>pd_buffered = [(None, ''a'')], pd_bytes = 1\<rparr>],
    tg_pending_bytes = 1\<rparr>"
  have run: "gate_run gate_new [(''c1'', None, ''a'', None)] = (Inr [], g)"
    by (simp add: g_def gate_new_def on_delta_def buffer_delta_def Let_def
        max_pending_per_call_def max_pending_total_def pending_default_def)
  show ?thesis
    using gate_memory_bounded [OF run, of "''c1''"] by (simp add: g_def pending_def)
qed

end
