(* ===== verification/Text.thy ===== *)
theory Text
  imports Prelude "HOL-Library.Char_ord" "HOL-Library.List_Lexorder"
begin

text \<open>
  The string operations of the Rust standard library the sources use, on UTF-8 byte strings:
  ASCII case folding, trimming of Unicode white space, joining and the byte order of
  \<^verbatim>\<open>String\<close> (the lexicographic order of \<open>HOL-Library.List_Lexorder\<close> over bytes).
\<close>

subsection \<open>ASCII case\<close>

text \<open>\<^verbatim>\<open>to_ascii_lowercase\<close> changes the bytes \<open>A\<close> to \<open>Z\<close> and no other byte.\<close>

definition byte_lower :: "char \<Rightarrow> char" where
  "byte_lower c = (let n = of_char c :: nat in if 65 \<le> n \<and> n \<le> 90 then char_of (n + 32) else c)"

definition ascii_lower :: "string \<Rightarrow> string" where
  "ascii_lower s = map byte_lower s"

definition eq_ignore_ascii_case :: "string \<Rightarrow> string \<Rightarrow> bool" where
  "eq_ignore_ascii_case s t = (ascii_lower s = ascii_lower t)"

lemma byte_lower_idem [simp]: "byte_lower (byte_lower c) = byte_lower c"
  by (simp add: byte_lower_def Let_def of_char_of)

lemma ascii_lower_idem [simp]: "ascii_lower (ascii_lower s) = ascii_lower s"
  by (simp add: ascii_lower_def comp_def)

lemma length_ascii_lower [simp]: "length (ascii_lower s) = length s"
  by (simp add: ascii_lower_def)

lemma ascii_lower_Nil [simp]: "ascii_lower s = [] \<longleftrightarrow> s = []"
  by (simp add: ascii_lower_def)

definition is_ascii_alphanumeric :: "char \<Rightarrow> bool" where
  "is_ascii_alphanumeric c = (let n = of_char c :: nat in
     (48 \<le> n \<and> n \<le> 57) \<or> (65 \<le> n \<and> n \<le> 90) \<or> (97 \<le> n \<and> n \<le> 122))"

subsection \<open>White space\<close>

text \<open>
  The number of bytes of the white-space character (Unicode property
  \<^verbatim>\<open>White_Space\<close>) a list of byte values starts with; 0 when there is none.
\<close>

fun ws_len :: "nat list \<Rightarrow> nat" where
  "ws_len (a # b # c # _) =
     (if (9 \<le> a \<and> a \<le> 13) \<or> a = 32 then 1
      else if a = 194 \<and> (b = 133 \<or> b = 160) then 2
      else if (a = 225 \<and> b = 154 \<and> c = 128)
        \<or> (a = 226 \<and> b = 128 \<and> ((128 \<le> c \<and> c \<le> 138) \<or> c = 168 \<or> c = 169 \<or> c = 175))
        \<or> (a = 226 \<and> b = 129 \<and> c = 159) \<or> (a = 227 \<and> b = 128 \<and> c = 128) then 3
      else 0)"
| "ws_len [a, b] =
     (if (9 \<le> a \<and> a \<le> 13) \<or> a = 32 then 1
      else if a = 194 \<and> (b = 133 \<or> b = 160) then 2 else 0)"
| "ws_len [a] = (if (9 \<le> a \<and> a \<le> 13) \<or> a = 32 then 1 else 0)"
| "ws_len [] = 0"

text \<open>The same for the reversed byte list, looking at the character the string ends with.\<close>

fun ws_len_rev :: "nat list \<Rightarrow> nat" where
  "ws_len_rev (c # b # a # _) =
     (if (9 \<le> c \<and> c \<le> 13) \<or> c = 32 then 1
      else if ws_len [b, c] = 2 then 2
      else if ws_len [a, b, c] = 3 then 3 else 0)"
| "ws_len_rev [c, b] =
     (if (9 \<le> c \<and> c \<le> 13) \<or> c = 32 then 1 else if ws_len [b, c] = 2 then 2 else 0)"
| "ws_len_rev [c] = (if (9 \<le> c \<and> c \<le> 13) \<or> c = 32 then 1 else 0)"
| "ws_len_rev [] = 0"

lemma ws_len_le: "ws_len xs \<le> length xs"
  by (cases xs rule: ws_len.cases) auto

lemma ws_len_rev_le: "ws_len_rev xs \<le> length xs"
  by (cases xs rule: ws_len_rev.cases) auto

function strip_ws :: "(nat list \<Rightarrow> nat) \<Rightarrow> nat list \<Rightarrow> nat list" where
  "strip_ws f xs = (if f xs = 0 \<or> xs = [] then xs else strip_ws f (drop (f xs) xs))"
  by pat_completeness auto
termination
  by (relation "measure (\<lambda>(f, xs). length xs)") (auto simp: length_greater_0_conv)

declare strip_ws.simps [simp del]

definition trim :: "string \<Rightarrow> string" where
  "trim s = map char_of (rev (strip_ws ws_len_rev (rev (strip_ws ws_len (map of_char s)))))"

lemma strip_ws_fix: "f (strip_ws f xs) = 0 \<or> strip_ws f xs = []"
proof (induction f xs rule: strip_ws.induct)
  case (1 f xs)
  then show ?case by (cases "f xs = 0 \<or> xs = []") (auto simp: strip_ws.simps [of f xs])
qed

lemma strip_ws_suffix: "\<exists>ys. xs = ys @ strip_ws f xs"
proof (induction f xs rule: strip_ws.induct)
  case (1 f xs)
  show ?case
  proof (cases "f xs = 0 \<or> xs = []")
    case True
    then show ?thesis by (auto simp: strip_ws.simps [of f xs])
  next
    case False
    then obtain ys where "drop (f xs) xs = ys @ strip_ws f (drop (f xs) xs)"
      using 1 by blast
    then have "xs = (take (f xs) xs @ ys) @ strip_ws f (drop (f xs) xs)"
      by (metis append_assoc append_take_drop_id)
    with False show ?thesis by (metis strip_ws.simps [of f xs])
  qed
qed

lemma trim_no_ws: "ws_len (map of_char s) = 0 \<Longrightarrow> ws_len_rev (rev (map of_char s)) = 0 \<Longrightarrow> trim s = s"
  by (simp add: trim_def strip_ws.simps [of _ "map of_char s"]
      strip_ws.simps [of _ "rev (map of_char s)"] comp_def)

lemma trim_Nil [simp]: "trim [] = []"
  by (simp add: trim_def strip_ws.simps)

subsection \<open>Joining\<close>

text \<open>\<^verbatim>\<open>parts.join(sep)\<close>.\<close>

fun join :: "string \<Rightarrow> string list \<Rightarrow> string" where
  "join sep [] = []"
| "join sep [s] = s"
| "join sep (s # t # ts) = s @ sep @ join sep (t # ts)"

lemma join_nonempty: "ss \<noteq> [] \<Longrightarrow> [] \<notin> set ss \<Longrightarrow> join sep ss \<noteq> []"
  by (induction sep ss rule: join.induct) auto

lemma join_append:
  "xs \<noteq> [] \<Longrightarrow> ys \<noteq> [] \<Longrightarrow> join sep (xs @ ys) = join sep xs @ sep @ join sep ys"
proof (induction sep xs rule: join.induct)
  case (2 sep s)
  then show ?case by (cases ys) auto
qed auto

text \<open>\<^verbatim>\<open>starts_with\<close>, \<^verbatim>\<open>strip_prefix\<close> and \<^verbatim>\<open>contains\<close>.\<close>

fun strip_prefix :: "string \<Rightarrow> string \<Rightarrow> string option" where
  "strip_prefix [] s = Some s"
| "strip_prefix (p # ps) [] = None"
| "strip_prefix (p # ps) (c # cs) = (if p = c then strip_prefix ps cs else None)"

lemma strip_prefix_Some: "strip_prefix p s = Some r \<longleftrightarrow> s = p @ r"
  by (induction p s rule: strip_prefix.induct) auto

end
