(* ===== verification/Json.thy ===== *)
theory Json
  imports Text
begin

text \<open>
  JSON values as \<^verbatim>\<open>serde_json::Value\<close> holds them: numbers are unsigned, negative or 64-bit
  floats (given by their bits), objects are \<^verbatim>\<open>BTreeMap\<close>s, that is association lists sorted
  by key without duplicates.  Printing and parsing of JSON text belong to the crate, not to the
  program, and are parameters of the definitions that use them.
\<close>

type_synonym f64 = "64 word"

datatype json_number = PosInt nat | NegInt int | Float f64

datatype json =
    JNull
  | JBool bool
  | JNum json_number
  | JStr string
  | JArr "json list"
  | JObj "(string \<times> json) list"

type_synonym json_map = "(string \<times> json) list"

subsection \<open>Objects\<close>

fun obj_insert :: "'k::linorder \<Rightarrow> 'v \<Rightarrow> ('k \<times> 'v) list \<Rightarrow> ('k \<times> 'v) list" where
  "obj_insert k v [] = [(k, v)]"
| "obj_insert k v ((k', v') # m) =
     (if k = k' then (k, v) # m
      else if k < k' then (k, v) # (k', v') # m else (k', v') # obj_insert k v m)"

fun obj_get :: "('k \<times> 'v) list \<Rightarrow> 'k \<Rightarrow> 'v option" where
  "obj_get [] k = None"
| "obj_get ((k', v) # m) k = (if k = k' then Some v else obj_get m k)"

definition obj_remove :: "'k \<Rightarrow> ('k \<times> 'v) list \<Rightarrow> ('k \<times> 'v) list" where
  "obj_remove k m = filter (\<lambda>(k', _). k' \<noteq> k) m"

definition obj_of :: "('k::linorder \<times> 'v) list \<Rightarrow> ('k \<times> 'v) list" where
  "obj_of kvs = fold (\<lambda>(k, v). obj_insert k v) kvs []"

text \<open>The object literal \<^verbatim>\<open>json!({k: v, ...})\<close>.\<close>

definition jobj :: "(string \<times> json) list \<Rightarrow> json" where
  "jobj kvs = JObj (obj_of kvs)"

definition obj_sorted :: "('k::linorder \<times> 'v) list \<Rightarrow> bool" where
  "obj_sorted m = sorted_wrt (<) (map fst m)"

text \<open>The interface of \<^verbatim>\<open>BTreeMap\<close> the program relies on.\<close>

locale btree_map =
  fixes get :: "'m \<Rightarrow> 'k::linorder \<Rightarrow> 'v option"
    and insert :: "'k \<Rightarrow> 'v \<Rightarrow> 'm \<Rightarrow> 'm"
    and remove :: "'k \<Rightarrow> 'm \<Rightarrow> 'm"
    and empty :: 'm
    and inv :: "'m \<Rightarrow> bool"
  assumes get_empty: "get empty k = None"
    and get_insert: "get (insert k v m) = (get m)(k \<mapsto> v)"
    and get_remove: "inv m \<Longrightarrow> get (remove k m) = (get m)(k := None)"
    and inv_empty: "inv empty"
    and inv_insert: "inv m \<Longrightarrow> inv (insert k v m)"
    and inv_remove: "inv m \<Longrightarrow> inv (remove k m)"
begin

lemma get_insert_same: "get (insert k v m) k = Some v"
  by (simp add: get_insert)

lemma get_fold_insert:
  "distinct (map fst kvs) \<Longrightarrow> get (fold (\<lambda>(k, v). insert k v) kvs m) k
     = (case map_of kvs k of None \<Rightarrow> get m k | Some v \<Rightarrow> Some v)"
proof (induction kvs arbitrary: m)
  case (Cons kv kvs)
  obtain k' v' where kv: "kv = (k', v')" by (cases kv)
  from Cons have "map_of kvs k' = None" by (simp add: kv map_of_eq_None_iff)
  with Cons show ?case by (auto simp: kv get_insert split: option.splits)
qed simp

lemma inv_fold_insert: "inv m \<Longrightarrow> inv (fold (\<lambda>(k, v). insert k v) kvs m)"
  by (induction kvs arbitrary: m) (auto simp: inv_insert)

end

lemma obj_get_insert: "obj_get (obj_insert k v m) = (obj_get m)(k \<mapsto> v)"
  by (induction k v m rule: obj_insert.induct) (auto simp: fun_eq_iff)

lemma obj_get_remove: "obj_get (obj_remove k m) = (obj_get m)(k := None)"
  by (induction m) (auto simp: fun_eq_iff obj_remove_def)

lemma keys_obj_insert: "fst ` set (obj_insert k v m) = insert k (fst ` set m)"
  by (induction k v m rule: obj_insert.induct) auto

lemma obj_sorted_Cons:
  "obj_sorted ((k, v) # m) \<longleftrightarrow> (\<forall>x \<in> fst ` set m. k < x) \<and> obj_sorted m"
  by (simp add: obj_sorted_def)

lemma obj_sorted_Nil: "obj_sorted []"
  by (simp add: obj_sorted_def)

lemma obj_sorted_insert: "obj_sorted m \<Longrightarrow> obj_sorted (obj_insert k v m)"
proof (induction m)
  case Nil
  then show ?case by (simp add: obj_sorted_def)
next
  case (Cons kv m)
  obtain k' v' where kv: "kv = (k', v')" by (cases kv)
  consider "k = k'" | "k < k'" | "k' < k" by fastforce
  then show ?case
  proof cases
    case 2
    with Cons.prems have "\<forall>x \<in> fst ` set m. k < x"
      unfolding kv obj_sorted_Cons by (meson dual_order.strict_trans)
    with 2 Cons.prems show ?thesis by (simp add: kv obj_sorted_Cons)
  next
    case 3
    then have "k \<noteq> k'" "\<not> k < k'" by auto
    with 3 Cons show ?thesis by (simp add: kv obj_sorted_Cons keys_obj_insert)
  qed (use Cons.prems in \<open>simp add: kv obj_sorted_Cons\<close>)
qed

lemma obj_sorted_remove: "obj_sorted m \<Longrightarrow> obj_sorted (obj_remove k m)"
  by (induction m) (auto simp: obj_sorted_Cons obj_sorted_Nil obj_remove_def)

interpretation obj: btree_map obj_get obj_insert obj_remove "[]" obj_sorted
  by unfold_locales (auto simp: obj_get_insert obj_get_remove obj_sorted_insert obj_sorted_remove
      obj_sorted_Nil)

lemma obj_get_of: "distinct (map fst kvs) \<Longrightarrow> obj_get (obj_of kvs) k = map_of kvs k"
  by (simp add: obj_of_def obj.get_fold_insert split: option.split)

lemma obj_sorted_of: "obj_sorted (obj_of kvs)"
  by (simp add: obj_of_def obj.inv_fold_insert obj.inv_empty)

subsection \<open>Accessors of values\<close>

fun as_str :: "json \<Rightarrow> string option" where
  "as_str (JStr s) = Some s"
| "as_str _ = None"

fun as_object :: "json \<Rightarrow> json_map option" where
  "as_object (JObj m) = Some m"
| "as_object _ = None"

fun as_array :: "json \<Rightarrow> json list option" where
  "as_array (JArr xs) = Some xs"
| "as_array _ = None"

fun as_bool :: "json \<Rightarrow> bool option" where
  "as_bool (JBool b) = Some b"
| "as_bool _ = None"

text \<open>\<^verbatim>\<open>Value::as_u64\<close>: the unsigned integers only.\<close>

fun as_u64 :: "json \<Rightarrow> nat option" where
  "as_u64 (JNum (PosInt n)) = Some n"
| "as_u64 _ = None"

definition is_null :: "json \<Rightarrow> bool" where
  "is_null v = (v = JNull)"

text \<open>\<^verbatim>\<open>value.get(key)\<close> with a string key: a field of an object, nothing otherwise.\<close>

fun json_get :: "json \<Rightarrow> string \<Rightarrow> json option" where
  "json_get (JObj m) k = obj_get m k"
| "json_get _ k = None"

text \<open>\<^verbatim>\<open>value.get(key).and_then(Value::as_str)\<close>.\<close>

definition json_get_str :: "json \<Rightarrow> string \<Rightarrow> string option" where
  "json_get_str v k = Option.bind (json_get v k) as_str"

definition map_get_str :: "json_map \<Rightarrow> string \<Rightarrow> string option" where
  "map_get_str m k = Option.bind (obj_get m k) as_str"

text \<open>The JSON text functions of \<^verbatim>\<open>serde_json\<close>.\<close>

record json_codec =
  to_json_string :: "json \<Rightarrow> string"
  from_json_str :: "string \<Rightarrow> string + json"

end
