(* ===== verification/Models_Chat.thy ===== *)
theory Models_Chat
  imports Json App_Error
begin

text \<open>
  The Chat Completions data model (\<^verbatim>\<open>src/src/models/chat.rs\<close>): requests, messages, tools,
  streamed chunks and responses, with the hand-written deserializers, the stop-sequence
  normalisation and the accessors of a streamed delta.  Field access generated by the serde
  derive macros is not repeated here; \<^verbatim>\<open>None\<close> is a deserialization error.
\<close>

subsection \<open>Requests\<close>

record stream_options =
  so_include_usage :: bool

record chat_thinking =
  ct_content :: string
  ct_signature :: "string option"

record chat_function_call =
  fc_name :: "string option"
  fc_arguments :: "json option"

record chat_tool_call =
  tc_id :: "string option"
  tc_index :: "nat option"
  tc_kind :: string
  tc_function :: chat_function_call

record chat_message =
  cm_role :: string
  cm_content :: "json option"
  cm_tool_call_id :: "string option"
  cm_name :: "string option"
  cm_reasoning_content :: "string option"
  cm_thinking :: "chat_thinking option"
  cm_tool_calls :: "chat_tool_call list option"

record chat_tool_definition =
  td_name :: string
  td_description :: string
  td_parameters :: "json option"
  td_strict :: bool

record chat_tool =
  ctool_kind :: string
  ctool_function :: chat_tool_definition

record chat_completion_request =
  ccr_model :: string
  ccr_messages :: "chat_message list"
  ccr_stream :: bool
  ccr_tools :: "chat_tool list option"
  ccr_tool_choice :: "json option"
  ccr_parallel_tool_calls :: "bool option"
  ccr_reasoning_effort :: "string option"
  ccr_response_format :: "json option"
  ccr_stream_options :: "stream_options option"
  ccr_temperature :: "f64 option"
  ccr_top_p :: "f64 option"
  ccr_max_output_tokens :: "int option"
  ccr_frequency_penalty :: "f64 option"
  ccr_presence_penalty :: "f64 option"
  ccr_stop :: "string list option"
  ccr_extra_body :: json_map

text \<open>\<^verbatim>\<open>Option::<String>::deserialize\<close>.\<close>

fun de_opt_string :: "json \<Rightarrow> string option option" where
  "de_opt_string JNull = Some None"
| "de_opt_string (JStr s) = Some (Some s)"
| "de_opt_string _ = None"

definition deserialize_model :: "json \<Rightarrow> string option" where
  "deserialize_model v = map_option
     (\<lambda>opt. case map_option trim opt of Some m \<Rightarrow> m | None \<Rightarrow> []) (de_opt_string v)"

datatype string_or_vec = One string | Many "string list"

fun de_strings :: "json list \<Rightarrow> string list option" where
  "de_strings [] = Some []"
| "de_strings (JStr s # vs) = map_option ((#) s) (de_strings vs)"
| "de_strings (_ # vs) = None"

fun de_string_or_vec :: "json \<Rightarrow> string_or_vec option" where
  "de_string_or_vec (JStr s) = Some (One s)"
| "de_string_or_vec (JArr vs) = map_option Many (de_strings vs)"
| "de_string_or_vec _ = None"

fun stop_list :: "string_or_vec \<Rightarrow> string list" where
  "stop_list (One single) = [single]"
| "stop_list (Many many) = many"

definition deserialize_opt_stop :: "json \<Rightarrow> string list option option" where
  "deserialize_opt_stop v =
     (if v = JNull then Some None else map_option (Some \<circ> stop_list) (de_string_or_vec v))"

definition openai_max_stop_sequences :: nat where
  "openai_max_stop_sequences = 4"

definition normalize_stop :: "string list option \<Rightarrow> app_error + string list option" where
  "normalize_stop stop =
     (case stop of
        None \<Rightarrow> Inr None
      | Some values \<Rightarrow>
          (let sequences = filter (\<lambda>s. s \<noteq> []) values in
           if sequences = [] then Inr None
           else if openai_max_stop_sequences < length sequences
           then Inl (bad_request (''stop supports at most '' @ show_nat openai_max_stop_sequences @
                  '' sequences, got '' @ show_nat (length sequences)))
           else Inr (Some sequences)))"

definition default_chat_tool_call_kind :: string where
  "default_chat_tool_call_kind = ''function''"

definition deserialize_chat_tool_call_kind :: "json \<Rightarrow> string option" where
  "deserialize_chat_tool_call_kind v = map_option
     (\<lambda>opt. case opt of Some k \<Rightarrow> k | None \<Rightarrow> default_chat_tool_call_kind) (de_opt_string v)"

definition default_function_call :: chat_function_call where
  "default_function_call = \<lparr>fc_name = None, fc_arguments = None\<rparr>"

subsection \<open>Streamed chunks\<close>

record prompt_tokens_details =
  ptd_cached_tokens :: int

record completion_tokens_details =
  ctd_reasoning_tokens :: int

record chunk_usage =
  cu_prompt_tokens :: int
  cu_completion_tokens :: int
  cu_total_tokens :: int
  cu_reasoning_tokens :: "int option"
  cu_prompt_tokens_details :: "prompt_tokens_details option"
  cu_completion_tokens_details :: "completion_tokens_details option"

record chat_delta =
  cd_content :: "string option"
  cd_reasoning_content :: "string option"
  cd_tool_calls :: "chat_tool_call list option"
  cd_function_call :: "chat_function_call option"
  cd_refusal :: "string option"
  cd_extra :: json_map

record chat_chunk_choice =
  cc_index :: nat
  cc_delta :: chat_delta
  cc_finish_reason :: "string option"
  cc_stop_reason :: "json option"

record chat_completion_chunk =
  chunk_id :: string
  chunk_choices :: "chat_chunk_choice list"
  chunk_usage_of :: "chunk_usage option"

definition nonempty_str :: "string option \<Rightarrow> string option" where
  "nonempty_str opt = (case opt of Some s \<Rightarrow> if s = [] then None else Some s | None \<Rightarrow> None)"

text \<open>The first key of a list that yields a value.\<close>

fun first_some :: "('a \<Rightarrow> 'b option) \<Rightarrow> 'a list \<Rightarrow> 'b option" where
  "first_some f [] = None"
| "first_some f (x # xs) = (case f x of Some y \<Rightarrow> Some y | None \<Rightarrow> first_some f xs)"

definition reasoning_from_value :: "json \<Rightarrow> string option" where
  "reasoning_from_value value =
     (case nonempty_str (as_str value) of
        Some text \<Rightarrow> Some text
      | None \<Rightarrow>
          (case as_object value of
             None \<Rightarrow> None
           | Some object \<Rightarrow> first_some (\<lambda>nested. nonempty_str (map_get_str object nested))
               [''text'', ''delta'', ''content'', ''summary'', ''thinking'']))"

definition reasoning_delta :: "chat_delta \<Rightarrow> string option" where
  "reasoning_delta d =
     (case nonempty_str (cd_reasoning_content d) of
        Some text \<Rightarrow> Some text
      | None \<Rightarrow> first_some (\<lambda>key. Option.bind (obj_get (cd_extra d) key) reasoning_from_value)
          [''reasoning'', ''reasoning_text'', ''reasoning_delta'', ''reasoning_summary'',
           ''thinking'', ''thinking_content''])"

definition thinking_object_field :: "chat_delta \<Rightarrow> string \<Rightarrow> string option" where
  "thinking_object_field d field =
     Option.bind (obj_get (cd_extra d) ''thinking'') (\<lambda>value. json_get_str value field)"

definition reasoning_signature_delta :: "chat_delta \<Rightarrow> string option" where
  "reasoning_signature_delta d =
     (case thinking_object_field d ''signature'' of
        Some s \<Rightarrow> Some s
      | None \<Rightarrow> Option.bind (obj_get (cd_extra d) ''signature'') as_str)"

definition non_null_delta_keys :: "chat_delta \<Rightarrow> string list" where
  "non_null_delta_keys d =
     (if cd_content d \<noteq> None then [''content''] else []) @
     (if cd_reasoning_content d \<noteq> None then [''reasoning_content''] else []) @
     (if cd_tool_calls d \<noteq> None then [''tool_calls''] else []) @
     (if cd_function_call d \<noteq> None then [''function_call''] else []) @
     (if cd_refusal d \<noteq> None then [''refusal''] else []) @
     map fst (filter (\<lambda>(_, value). \<not> is_null value) (cd_extra d))"

subsection \<open>Non-streamed responses\<close>

record chat_response_message =
  crm_role :: string
  crm_content :: "string option"
  crm_reasoning_content :: "string option"
  crm_tool_calls :: "chat_tool_call list option"

record chat_response_choice =
  crc_index :: nat
  crc_message :: chat_response_message
  crc_finish_reason :: "string option"

record chat_completion_response =
  ccresp_choices :: "chat_response_choice list"

subsection \<open>Facts\<close>

lemma normalize_stop_ok:
  assumes "normalize_stop stop = Inr (Some seqs)"
  shows "[] \<notin> set seqs \<and> 0 < length seqs \<and> length seqs \<le> 4
    \<and> (\<exists>vs. stop = Some vs \<and> seqs = filter (\<lambda>s. s \<noteq> []) vs)"
  using assms
  by (auto simp: normalize_stop_def Let_def openai_max_stop_sequences_def
      split: option.splits if_splits)

lemma first_some_Some: "first_some f xs = Some y \<Longrightarrow> \<exists>x \<in> set xs. f x = Some y"
  by (induction f xs rule: first_some.induct) (auto split: option.splits)

lemma nonempty_str_Some: "nonempty_str opt = Some s \<longleftrightarrow> opt = Some s \<and> s \<noteq> []"
  by (auto simp: nonempty_str_def split: option.splits)

lemma reasoning_from_value_nonempty: "reasoning_from_value v = Some s \<Longrightarrow> s \<noteq> []"
  by (auto simp: reasoning_from_value_def nonempty_str_Some simp del: first_some.simps
      split: option.splits dest!: first_some_Some)

lemma reasoning_delta_nonempty: "reasoning_delta d = Some s \<Longrightarrow> s \<noteq> []"
  by (auto simp: reasoning_delta_def nonempty_str_Some bind_eq_Some_conv simp del: first_some.simps
      split: option.splits dest!: first_some_Some reasoning_from_value_nonempty)

end
