(* ===== verification/Models_Responses.thy ===== *)
theory Models_Responses
  imports Models_Chat
begin

text \<open>
  The Responses data model (\<^verbatim>\<open>src/src/models/responses.rs\<close>): requests, tools, items and
  content parts, terminal reasons and the payloads of the canonical stream events, with the
  hand-written serializer and deserializer of content parts and of the \<^verbatim>\<open>input\<close> field.
  A \<^verbatim>\<open>HashMap\<close> whose order the program never observes is a key-sorted list.
\<close>

subsection \<open>Tools\<close>

datatype namespace_tool_spec =
  NsFunction (ns_name: string) (ns_description: string) (ns_strict: bool) (ns_parameters: json)

record custom_tool_format =
  ctf_kind :: string
  ctf_syntax :: string
  ctf_definition :: string

datatype tool_spec =
    TsFunction string string bool json
  | TsNamespace string string "namespace_tool_spec list"
  | TsToolSearch string string json
  | TsLocalShell
  | TsWebSearch "bool option" "json option" "json option" "string option" "string list option"
  | TsCustom string string custom_tool_format
  | TsImageGeneration "string option"

record reasoning_request =
  rr_effort :: "string option"
  rr_summary :: "string option"

record text_format =
  tf_kind :: string
  tf_strict :: bool
  tf_schema :: json
  tf_name :: string

record text_controls =
  txt_verbosity :: "string option"
  txt_format :: "text_format option"

subsection \<open>Content parts\<close>

datatype content_item =
    InputText string
  | InputImage "string option" "string option" "string option"
  | InputFile "string option" "string option" "string option" "string option"
  | OutputText string
  | OtherContent json

text \<open>An entry serialized only when present.\<close>

definition opt_entry :: "string \<Rightarrow> string option \<Rightarrow> (string \<times> json) list" where
  "opt_entry k opt = (case opt of None \<Rightarrow> [] | Some s \<Rightarrow> [(k, JStr s)])"

fun serialize_content_item :: "content_item \<Rightarrow> json" where
  "serialize_content_item (InputText text) =
     jobj [(''type'', JStr ''input_text''), (''text'', JStr text)]"
| "serialize_content_item (InputImage image_url file_id detail) =
     jobj ([(''type'', JStr ''input_image'')] @ opt_entry ''image_url'' image_url @
           opt_entry ''file_id'' file_id @ opt_entry ''detail'' detail)"
| "serialize_content_item (InputFile file_id file_url filename file_data) =
     jobj ([(''type'', JStr ''input_file'')] @ opt_entry ''file_id'' file_id @
           opt_entry ''file_url'' file_url @ opt_entry ''filename'' filename @
           opt_entry ''file_data'' file_data)"
| "serialize_content_item (OutputText text) =
     jobj [(''type'', JStr ''output_text''), (''text'', JStr text)]"
| "serialize_content_item (OtherContent value) = value"

definition optional_string :: "json_map \<Rightarrow> string \<Rightarrow> string option" where
  "optional_string object key = Option.bind (obj_get object key) as_str"

definition optional_image_url :: "json_map \<Rightarrow> string option" where
  "optional_image_url object = Option.bind (obj_get object ''image_url'')
     (\<lambda>value. case value of
        JStr url \<Rightarrow> Some url
      | JObj m \<Rightarrow> Option.bind (obj_get m ''url'') as_str
      | _ \<Rightarrow> None)"

definition or_default :: "string option \<Rightarrow> string" where
  "or_default opt = (case opt of Some s \<Rightarrow> s | None \<Rightarrow> [])"

definition deserialize_content_item :: "json \<Rightarrow> content_item" where
  "deserialize_content_item value =
     (case as_object value of
        None \<Rightarrow> OtherContent value
      | Some object \<Rightarrow>
          (case Option.bind (obj_get object ''type'') as_str of
             None \<Rightarrow> OtherContent value
           | Some t \<Rightarrow>
               if t = ''input_text'' then InputText (or_default (optional_string object ''text''))
               else if t = ''input_image''
               then InputImage (optional_image_url object) (optional_string object ''file_id'')
                      (optional_string object ''detail'')
               else if t = ''input_file''
               then InputFile (optional_string object ''file_id'')
                      (optional_string object ''file_url'') (optional_string object ''filename'')
                      (optional_string object ''file_data'')
               else if t = ''output_text''
               then OutputText (or_default (optional_string object ''text''))
               else OtherContent value))"

subsection \<open>Items\<close>

datatype reasoning_summary_item = SummaryText string

datatype reasoning_content_item = ReasoningText string | PlainText string

record local_shell_exec_action =
  lse_command :: "string list"
  lse_timeout_ms :: "nat option"
  lse_working_directory :: "string option"
  lse_env :: "(string \<times> string) list option"
  lse_user :: "string option"

datatype local_shell_action = Exec local_shell_exec_action

datatype web_search_action =
    WsSearch "string option" "string list option"
  | WsOpenPage "string option"
  | WsFindInPage "string option" "string option"
  | WsOther

datatype response_item =
    Message "string option" string "content_item list" "string option"
  | Reasoning string "reasoning_summary_item list" "reasoning_content_item list option"
      "string option"
  | FunctionCall "string option" string "string option" string string
  | FunctionCallOutput string json
  | CustomToolCall "string option" string string string
  | CustomToolCallOutput string "string option" json
  | ToolSearchCall "string option" "string option" string json
  | ToolSearchOutput "string option" string string "json list"
  | LocalShellCall "string option" "string option" string local_shell_action
  | WebSearchCall "string option" "string option" "web_search_action option"
  | ImageGenerationCall string string "string option" string

definition default_reasoning_id :: string where
  "default_reasoning_id = ''rsn_pending''"

definition message_text :: "string \<Rightarrow> string \<Rightarrow> response_item" where
  "message_text role text = Message None role [OutputText text] None"

subsection \<open>Requests\<close>

datatype input_helper = Bare string | Items "response_item list"

text \<open>\<^verbatim>\<open>deserialize_input\<close> after the untagged choice of its helper.\<close>

fun deserialize_input :: "input_helper \<Rightarrow> response_item list" where
  "deserialize_input (Bare text) = [Message None ''user'' [InputText text] None]"
| "deserialize_input (Items items) = items"

record responses_request =
  req_model :: string
  req_instructions :: string
  req_input :: "response_item list"
  req_tools :: "tool_spec list"
  req_tool_choice :: json
  req_parallel_tool_calls :: "bool option"
  req_reasoning :: "reasoning_request option"
  req_thinking :: "bool option"
  req_store :: bool
  req_stream :: bool
  req_include :: "string list"
  req_service_tier :: "string option"
  req_prompt_cache_key :: "string option"
  req_text :: "text_controls option"
  req_client_metadata :: "(string \<times> string) list option"
  req_previous_response_id :: "string option"
  req_temperature :: "f64 option"
  req_top_p :: "f64 option"
  req_max_output_tokens :: "int option"
  req_frequency_penalty :: "f64 option"
  req_presence_penalty :: "f64 option"
  req_truncation :: "json option"
  req_metadata :: "json_map option"
  req_stop :: "string list option"
  req_extra_body :: json_map

definition default_tool_choice :: json where
  "default_tool_choice = JStr ''auto''"

definition default_store_true :: bool where
  "default_store_true = True"

subsection \<open>Responses\<close>

datatype terminal_reason =
  StopReason | LengthReason | ToolCallReason | ContentFilterReason | OtherReason

definition is_clean_stop :: "terminal_reason \<Rightarrow> bool" where
  "is_clean_stop r = (r = StopReason)"

definition from_finish_reason :: "string option \<Rightarrow> terminal_reason" where
  "from_finish_reason fr =
     (if fr = Some ''stop'' then StopReason
      else if fr = Some ''length'' then LengthReason
      else if fr = Some ''tool_calls'' then ToolCallReason
      else if fr = Some ''content_filter'' then ContentFilterReason
      else OtherReason)"

record response_usage =
  ru_input_tokens :: int
  ru_output_tokens :: int
  ru_total_tokens :: int
  ru_cached_tokens :: "int option"
  ru_reasoning_tokens :: "int option"

record response_resource =
  rs_id :: string
  rs_object :: string
  rs_created_at :: int
  rs_status :: string
  rs_output :: "response_item list"
  rs_model :: string
  rs_usage :: "response_usage option"
  rs_metadata :: "json_map option"
  rs_incomplete_reason :: "string option"
  rs_stop_sequence :: "string option"
  rs_terminal_reason :: "terminal_reason option"

datatype terminal_status = Completed | Incomplete string

text \<open>A canonical stream event of the engine: its name and its payload.\<close>

record sse_event =
  se_event :: string
  se_data :: json

subsection \<open>Content parts round-trip\<close>

lemma obj_get_jobj:
  "distinct (map fst kvs) \<Longrightarrow> json_get (jobj kvs) k = map_of kvs k"
  by (simp add: jobj_def obj_get_of)

lemma as_object_jobj: "as_object (jobj kvs) = Some (obj_of kvs)"
  by (simp add: jobj_def)

lemma opt_entry_simps [simp]:
  "opt_entry k None = []" "opt_entry k (Some s) = [(k, JStr s)]"
  by (simp_all add: opt_entry_def)

text \<open>
  Deserializing what the serializer wrote gives the content part back, for every part of a
  known kind; a part of an unknown kind is its own JSON value.
\<close>

theorem content_item_roundtrip:
  "deserialize_content_item (serialize_content_item c) =
     (case c of OtherContent v \<Rightarrow> deserialize_content_item v | _ \<Rightarrow> c)"
proof (cases c)
  case (InputImage image_url file_id detail)
  then show ?thesis
    by (cases image_url; cases file_id; cases detail)
      (simp_all add: deserialize_content_item_def as_object_jobj obj_get_of
        optional_string_def optional_image_url_def or_default_def)
next
  case (InputFile file_id file_url filename file_data)
  then show ?thesis
    by (cases file_id; cases file_url; cases filename; cases file_data)
      (simp_all add: deserialize_content_item_def as_object_jobj obj_get_of
        optional_string_def optional_image_url_def or_default_def)
qed (simp_all add: deserialize_content_item_def as_object_jobj obj_get_of
      optional_string_def or_default_def)

end
