(* ===== verification/Roles.thy ===== *)
theory Roles
  imports Models_Responses
begin

text \<open>
  The role policy of a model profile: its data and validation (\<^verbatim>\<open>src/src/config.rs\<close>) and its
  application to chat messages, that is role assignment with tag wrapping, adjacency merging
  and the shaping of one appended message (\<^verbatim>\<open>src/src/adapters/responses_to_chat.rs\<close>).
\<close>

subsection \<open>Configuration\<close>

datatype role_action = ActAccept | ActReject | ActDrop | ActRewrite

datatype role_when = Leading | Inline | Always

record role_rule =
  rl_when :: "role_when option"
  rl_action :: role_action
  rl_target_role :: "string option"
  rl_tag :: "string option"
  rl_tag_attributes :: "(string \<times> string) list"

record roles_config =
  rc_merge_adjacent :: "string list"
  rc_rules :: "(string \<times> role_rule list) list"

definition rules_for :: "roles_config \<Rightarrow> string \<Rightarrow> role_rule list option" where
  "rules_for rc role =
     (case obj_get (rc_rules rc) role of Some rs \<Rightarrow> Some rs | None \<Rightarrow> obj_get (rc_rules rc) ''*'')"

definition valid_tag_name :: "string \<Rightarrow> bool" where
  "valid_tag_name name = (let name = trim name in name \<noteq> [] \<and>
     list_all (\<lambda>ch. is_ascii_alphanumeric ch \<or> ch \<in> {CHR ''_'', CHR ''-'', CHR '':'', CHR ''.''}) name)"

definition validate_rule :: "string \<Rightarrow> role_rule \<Rightarrow> string + unit" where
  "validate_rule role rule =
     (let has_target = (case rl_target_role rule of None \<Rightarrow> False | Some t \<Rightarrow> trim t \<noteq> []) in
      if rl_action rule = ActRewrite \<and> \<not> has_target
      then Inl (''roles['' @ role @ '']: action `rewrite` requires a non-empty `target_role`'')
      else if rl_action rule \<noteq> ActRewrite \<and> rl_target_role rule \<noteq> None
      then Inl (''roles['' @ role @ '']: `target_role` is only valid with action `rewrite`'')
      else if (case rl_tag rule of None \<Rightarrow> False | Some tag \<Rightarrow> \<not> valid_tag_name tag)
      then Inl (''roles['' @ role @ '']: invalid tag name'')
      else if rl_tag_attributes rule \<noteq> [] \<and> rl_tag rule = None
      then Inl (''roles['' @ role @ '']: `tag_attributes` requires a non-empty `tag`'')
      else if list_ex (\<lambda>(key, _). \<not> valid_tag_name key) (rl_tag_attributes rule)
      then Inl (''roles['' @ role @ '']: invalid tag attribute name'')
      else Inr ())"

text \<open>A loop that stops at the first error, as the \<^verbatim>\<open>return Err\<close> of the source does.\<close>

fun check_all :: "('a \<Rightarrow> 'e + unit) \<Rightarrow> 'a list \<Rightarrow> 'e + unit" where
  "check_all f [] = Inr ()"
| "check_all f (x # xs) = bind_res (f x) (\<lambda>_. check_all f xs)"

definition quoted :: "string \<Rightarrow> string" where
  "quoted s = [CHR 0x22] @ s @ [CHR 0x22]"

definition merge_safe_roles :: "string list" where
  "merge_safe_roles = [''system'', ''developer'', ''user'']"

definition validate_roles :: "roles_config \<Rightarrow> string + unit" where
  "validate_roles rc =
     bind_res (check_all (\<lambda>(role, rules). check_all (validate_rule role) rules) (rc_rules rc))
       (\<lambda>_. check_all (\<lambda>role. if role \<in> set merge_safe_roles then Inr ()
          else Inl (''merge_adjacent['' @ role @ '']: only content-only roles '' @
            ''['' @ join '', '' (map quoted merge_safe_roles) @ '']'' @
            '' may be merged (merging `tool`/`assistant` discards tool_call_id/tool_calls)''))
          (rc_merge_adjacent rc))"

subsection \<open>Assignment\<close>

text \<open>The text of a message content: a string as it is, any other value as JSON text.\<close>

definition content_text :: "json_codec \<Rightarrow> json \<Rightarrow> string" where
  "content_text J content = (case content of JStr text \<Rightarrow> text | other \<Rightarrow> to_json_string J other)"

definition escape_attribute :: "string \<Rightarrow> string" where
  "escape_attribute value = concat (map (\<lambda>ch.
     if ch = CHR ''&'' then ''&amp;'' else if ch = CHR 0x22 then ''&quot;''
     else if ch = CHR ''<'' then ''&lt;'' else [ch]) value)"

definition open_tag :: "string \<Rightarrow> (string \<times> string) list \<Rightarrow> string" where
  "open_tag tag attributes = ''<'' @ tag @
     concat (map (\<lambda>(key, value). '' '' @ key @ [CHR ''='', CHR 0x22] @ escape_attribute value @
       [CHR 0x22]) attributes) @ ''>''"

definition wrap_role_tag ::
  "json_codec \<Rightarrow> chat_message \<Rightarrow> string option \<Rightarrow> (string \<times> string) list \<Rightarrow> chat_message" where
  "wrap_role_tag J message tag attributes =
     (case tag of None \<Rightarrow> message
      | Some tag \<Rightarrow>
          (case cm_content message of None \<Rightarrow> message
           | Some content \<Rightarrow> message\<lparr>cm_content := Some (JStr
               (open_tag tag attributes @ content_text J content @ ''</'' @ tag @ ''>''))\<rparr>))"

definition rule_applies :: "nat \<Rightarrow> role_rule \<Rightarrow> bool" where
  "rule_applies index rule =
     (case rl_when rule of None \<Rightarrow> True | Some Always \<Rightarrow> True
      | Some Leading \<Rightarrow> index = 0 | Some Inline \<Rightarrow> 0 < index)"

definition quoted_role :: "string \<Rightarrow> string" where
  "quoted_role role = ''role '' @ quoted role"

definition apply_role_action ::
  "json_codec \<Rightarrow> role_rule \<Rightarrow> chat_message \<Rightarrow> app_error + chat_message option" where
  "apply_role_action J rule message =
     (case rl_action rule of
        ActReject \<Rightarrow> Inl (bad_request (quoted_role (cm_role message) @
          '' is rejected by the model profile roles config''))
      | ActDrop \<Rightarrow> Inr None
      | ActAccept \<Rightarrow> Inr (Some (wrap_role_tag J message (rl_tag rule) (rl_tag_attributes rule)))
      | ActRewrite \<Rightarrow>
          (let message = (case rl_target_role rule of
                            Some target \<Rightarrow> message\<lparr>cm_role := target\<rparr> | None \<Rightarrow> message)
           in Inr (Some (wrap_role_tag J message (rl_tag rule) (rl_tag_attributes rule)))))"

definition assign_role ::
  "json_codec \<Rightarrow> roles_config \<Rightarrow> nat \<Rightarrow> chat_message \<Rightarrow> app_error + chat_message option" where
  "assign_role J rc index message =
     (case rules_for rc (cm_role message) of
        None \<Rightarrow> Inl (bad_request (quoted_role (cm_role message) @
          '' is not permitted by the model profile roles config''))
      | Some rules \<Rightarrow>
          (case find (rule_applies index) rules of
             None \<Rightarrow> Inl (bad_request (quoted_role (cm_role message) @ '' at index '' @
               show_nat index @ '' matches no rule in the model profile roles config''))
           | Some rule \<Rightarrow> apply_role_action J rule message))"

fun assign_roles_from ::
  "json_codec \<Rightarrow> roles_config \<Rightarrow> nat \<Rightarrow> chat_message list \<Rightarrow> app_error + chat_message list" where
  "assign_roles_from J rc index [] = Inr []"
| "assign_roles_from J rc index (m # ms) =
     bind_res (assign_role J rc index m) (\<lambda>r.
       bind_res (assign_roles_from J rc (Suc index) ms) (\<lambda>out.
         Inr (case r of None \<Rightarrow> out | Some m' \<Rightarrow> m' # out)))"

definition assign_roles ::
  "json_codec \<Rightarrow> chat_message list \<Rightarrow> roles_config option \<Rightarrow> app_error + chat_message list" where
  "assign_roles J messages roles =
     (case roles of None \<Rightarrow> Inr messages | Some rc \<Rightarrow> assign_roles_from J rc 0 messages)"

subsection \<open>Adjacency merging\<close>

definition content_only_message :: "string \<Rightarrow> string \<Rightarrow> chat_message" where
  "content_only_message role text = \<lparr>cm_role = role, cm_content = Some (JStr text),
     cm_tool_call_id = None, cm_name = None, cm_reasoning_content = None, cm_thinking = None,
     cm_tool_calls = None\<rparr>"

definition blank_line :: string where
  "blank_line = [CHR 0x0A, CHR 0x0A]"

text \<open>The non-empty texts of a run of messages.\<close>

definition message_parts :: "json_codec \<Rightarrow> chat_message list \<Rightarrow> string list" where
  "message_parts J ms = filter (\<lambda>t. t \<noteq> [])
     (map (content_text J) (List.map_filter cm_content ms))"

text \<open>
  The index loop as recursion on the remaining messages: a run of the head's role is consumed
  at once when that role is configured for merging.
\<close>

function merge_adjacent_role_runs ::
  "json_codec \<Rightarrow> chat_message list \<Rightarrow> string list \<Rightarrow> chat_message list" where
  "merge_adjacent_role_runs J messages roles =
     (case messages of
        [] \<Rightarrow> []
      | m # ms \<Rightarrow>
          (if cm_role m \<notin> set roles then m # merge_adjacent_role_runs J ms roles
           else
             (let run = takeWhile (\<lambda>x. cm_role x = cm_role m) messages;
                  rest = dropWhile (\<lambda>x. cm_role x = cm_role m) messages;
                  parts = message_parts J run
              in (if parts \<noteq> [] then [content_only_message (cm_role m) (join blank_line parts)]
                  else []) @ merge_adjacent_role_runs J rest roles)))"
  by pat_completeness auto
termination
  by (relation "measure (\<lambda>(J, ms, roles). length ms)") (auto simp: length_dropWhile_le le_imp_less_Suc)

declare merge_adjacent_role_runs.simps [simp del]

definition merge_adjacent_if_configured ::
  "json_codec \<Rightarrow> chat_message list \<Rightarrow> roles_config option \<Rightarrow> chat_message list" where
  "merge_adjacent_if_configured J messages roles =
     (case roles of None \<Rightarrow> messages
      | Some rc \<Rightarrow> (if rc_merge_adjacent rc \<noteq> []
                   then merge_adjacent_role_runs J messages (rc_merge_adjacent rc) else messages))"

definition apply_role_rules ::
  "json_codec \<Rightarrow> chat_message list \<Rightarrow> roles_config option \<Rightarrow> app_error + chat_message list" where
  "apply_role_rules J messages roles =
     bind_res (assign_roles J messages roles)
       (\<lambda>ms. Inr (merge_adjacent_if_configured J ms roles))"

subsection \<open>One appended message\<close>

definition shape_tail_message ::
  "json_codec \<Rightarrow> chat_message \<Rightarrow> roles_config option \<Rightarrow> app_error + chat_message option" where
  "shape_tail_message J message roles =
     (case roles of None \<Rightarrow> Inr (Some message)
      | Some rc \<Rightarrow>
          (case rules_for rc (cm_role message) of
             None \<Rightarrow> Inl (bad_request (quoted_role (cm_role message) @
               '' is not permitted by the model profile roles config''))
           | Some rules \<Rightarrow>
               (case find (\<lambda>rule. rl_when rule \<in> {None, Some Always, Some Inline}) rules of
                  None \<Rightarrow> Inl (bad_request (quoted_role (cm_role message) @
                    '' (inline) matches no rule in the model profile roles config''))
                | Some rule \<Rightarrow> apply_role_action J rule message)))"

subsection \<open>Facts\<close>

lemma rule_applies_inline:
  "0 < index \<Longrightarrow> rule_applies index = (\<lambda>rule. rl_when rule \<in> {None, Some Always, Some Inline})"
  by (auto simp: rule_applies_def fun_eq_iff split: option.splits role_when.splits)

lemma apply_role_action_error: "apply_role_action J rule m = Inl e \<Longrightarrow> err_status e = 400"
  by (auto simp: apply_role_action_def bad_request_def Let_def split: role_action.splits)

lemma assign_role_error: "assign_role J rc i m = Inl e \<Longrightarrow> err_status e = 400"
  by (auto simp: assign_role_def bad_request_def split: option.splits dest: apply_role_action_error)

lemma assign_roles_from_error: "assign_roles_from J rc i ms = Inl e \<Longrightarrow> err_status e = 400"
proof (induction ms arbitrary: i)
  case (Cons m ms)
  then show ?case
    by (cases "assign_role J rc i m"; cases "assign_roles_from J rc (Suc i) ms")
      (auto dest: assign_role_error)
qed simp

lemma cm_tool_calls_wrap [simp]: "cm_tool_calls (wrap_role_tag J m t a) = cm_tool_calls m"
  by (simp add: wrap_role_tag_def split: option.split)

lemma cm_role_wrap [simp]: "cm_role (wrap_role_tag J m t a) = cm_role m"
  by (simp add: wrap_role_tag_def split: option.split)

subsubsection \<open>Merging\<close>

lemma merge_Nil [simp]: "merge_adjacent_role_runs J [] roles = []"
  by (simp add: merge_adjacent_role_runs.simps)

lemma merge_keep:
  "cm_role m \<notin> set roles \<Longrightarrow>
     merge_adjacent_role_runs J (m # ms) roles = m # merge_adjacent_role_runs J ms roles"
  by (simp add: merge_adjacent_role_runs.simps [of J "m # ms"])

lemma merge_run:
  "cm_role m \<in> set roles \<Longrightarrow>
     merge_adjacent_role_runs J (m # ms) roles =
       (let parts = message_parts J (m # takeWhile (\<lambda>x. cm_role x = cm_role m) ms) in
        if parts = [] then [] else [content_only_message (cm_role m) (join blank_line parts)])
       @ merge_adjacent_role_runs J (dropWhile (\<lambda>x. cm_role x = cm_role m) ms) roles"
  by (simp add: merge_adjacent_role_runs.simps [of J "m # ms"] Let_def)

text \<open>A message merging leaves alone: another role's, or a lone content-only one with text.\<close>

definition text_bearing :: "json_codec \<Rightarrow> chat_message \<Rightarrow> bool" where
  "text_bearing J m = (message_parts J [m] \<noteq> [])"

lemma message_parts_append: "message_parts J (xs @ ys) = message_parts J xs @ message_parts J ys"
  by (simp add: message_parts_def List.map_filter_def)

lemma message_parts_content_only:
  "t \<noteq> [] \<Longrightarrow> message_parts J [content_only_message r t] = [t]"
  by (simp add: message_parts_def content_only_message_def content_text_def List.map_filter_def)

lemma message_parts_nonempty: "p \<in> set (message_parts J ms) \<Longrightarrow> p \<noteq> []"
  by (auto simp: message_parts_def)

lemma joined_parts_nonempty: "message_parts J ms \<noteq> [] \<Longrightarrow> join blank_line (message_parts J ms) \<noteq> []"
  by (rule join_nonempty) (auto dest: message_parts_nonempty)

lemma role_content_only [simp]: "cm_role (content_only_message r t) = r"
  by (simp add: content_only_message_def)

text \<open>
  No two neighbours of the result share a merged role when every message of a merged role
  carries text.
\<close>

fun separated :: "string list \<Rightarrow> chat_message list \<Rightarrow> bool" where
  "separated roles (a # b # ms) =
     (\<not> (cm_role a = cm_role b \<and> cm_role a \<in> set roles) \<and> separated roles (b # ms))"
| "separated roles _ = True"

definition merged_form :: "json_codec \<Rightarrow> string list \<Rightarrow> chat_message list \<Rightarrow> bool" where
  "merged_form J roles ms \<longleftrightarrow> separated roles ms \<and>
     (\<forall>m \<in> set ms. cm_role m \<in> set roles \<longrightarrow>
        (\<exists>t. t \<noteq> [] \<and> m = content_only_message (cm_role m) t))"

lemma separated_Cons:
  "separated roles (m # ms) \<longleftrightarrow> separated roles ms \<and>
     (ms \<noteq> [] \<longrightarrow> \<not> (cm_role m = cm_role (hd ms) \<and> cm_role m \<in> set roles))"
  by (cases ms) auto

lemma merge_of_merged_form: "merged_form J roles ms \<Longrightarrow> merge_adjacent_role_runs J ms roles = ms"
proof (induction ms)
  case (Cons m ms)
  then have tail: "merged_form J roles ms" by (auto simp: merged_form_def separated_Cons)
  show ?case
  proof (cases "cm_role m \<in> set roles")
    case False
    with Cons tail show ?thesis by (simp add: merge_keep)
  next
    case True
    with Cons.prems obtain t where t: "t \<noteq> []" "m = content_only_message (cm_role m) t"
      by (auto simp: merged_form_def)
    from Cons.prems True have "takeWhile (\<lambda>x. cm_role x = cm_role m) ms = []"
      "dropWhile (\<lambda>x. cm_role x = cm_role m) ms = ms"
      by (cases ms; auto simp: merged_form_def)+
    moreover have "message_parts J [m] = [t]" using t message_parts_content_only by metis
    ultimately show ?thesis using True Cons.IH [OF tail] t by (simp add: merge_run)
  qed
qed simp

lemma hd_merge_role:
  assumes "\<forall>m \<in> set ms. cm_role m \<in> set roles \<longrightarrow> text_bearing J m" and "ms \<noteq> []"
  shows "merge_adjacent_role_runs J ms roles \<noteq> []
    \<and> cm_role (hd (merge_adjacent_role_runs J ms roles)) = cm_role (hd ms)"
proof -
  obtain m ms' where ms: "ms = m # ms'" using assms(2) by (cases ms) auto
  have "message_parts J (m # xs) \<noteq> []" if "cm_role m \<in> set roles" for xs
    using assms(1) that ms message_parts_append [of J "[m]" xs] by (simp add: text_bearing_def)
  then show ?thesis
    by (cases "cm_role m \<in> set roles") (simp_all add: ms merge_keep merge_run Let_def)
qed

lemma merge_merged_form:
  assumes "\<forall>m \<in> set ms. cm_role m \<in> set roles \<longrightarrow> text_bearing J m"
  shows "merged_form J roles (merge_adjacent_role_runs J ms roles)"
  using assms
proof (induction "length ms" arbitrary: ms rule: less_induct)
  case less
  show ?case
  proof (cases ms)
    case Nil
    then show ?thesis by (simp add: merged_form_def)
  next
    case (Cons m ms')
    show ?thesis
    proof (cases "cm_role m \<in> set roles")
      case False
      then show ?thesis
        using less(1) [of ms'] less(2) Cons
        by (auto simp: merge_keep merged_form_def separated_Cons)
    next
      case True
      let ?rest = "dropWhile (\<lambda>x. cm_role x = cm_role m) ms'"
      let ?parts = "message_parts J (m # takeWhile (\<lambda>x. cm_role x = cm_role m) ms')"
      have rest: "\<forall>x \<in> set ?rest. cm_role x \<in> set roles \<longrightarrow> text_bearing J x"
        using less(2) Cons by (auto dest: set_dropWhileD)
      have "length ?rest < length ms" using Cons by (simp add: length_dropWhile_le le_imp_less_Suc)
      from less(1) [OF this rest] have IH: "merged_form J roles (merge_adjacent_role_runs J ?rest roles)" .
      have "text_bearing J m" using less(2) Cons True by simp
      then have parts: "?parts \<noteq> []"
        using message_parts_append [of J "[m]" "takeWhile (\<lambda>x. cm_role x = cm_role m) ms'"]
        by (simp add: text_bearing_def)
      have hd: "cm_role (hd ?rest) \<noteq> cm_role m" if "?rest \<noteq> []"
        using hd_dropWhile [OF that] by simp
      have "merge_adjacent_role_runs J ?rest roles \<noteq> [] \<Longrightarrow>
          cm_role (hd (merge_adjacent_role_runs J ?rest roles)) \<noteq> cm_role m"
        using hd_merge_role [OF rest] hd by (cases "?rest = []") auto
      with IH parts joined_parts_nonempty [OF parts] Cons True show ?thesis
        by (auto simp: merge_run Let_def merged_form_def separated_Cons)
    qed
  qed
qed

end
