(* ===== verification/Lowering.thy ===== *)
theory Lowering
  imports Roles
begin

text \<open>
  Lowering a Responses request to Chat Completions messages and tools
  (\<^verbatim>\<open>src/src/adapters/responses_to_chat.rs\<close>): validation of the request, the chat tools and
  the registry that classifies tool names, the item loop with its pending reasoning, and the
  final system-message or role-policy pass.
\<close>

subsection \<open>Tool kinds and the registry\<close>

datatype tool_kind =
    KFunction string "string option"
  | KCustom string
  | KLocalShell
  | KToolSearch
  | KWebSearch
  | KImageAnalysis

type_synonym tool_registry = "string \<rightharpoonup> tool_kind"

definition registry_get :: "tool_registry \<Rightarrow> string \<Rightarrow> tool_kind option" where
  "registry_get r name = r name"

definition analyze_image_tool_name :: string where
  "analyze_image_tool_name = ''analyzeImage''"

fun lowered_kinds :: "bool \<Rightarrow> tool_spec \<Rightarrow> (string \<times> tool_kind) list" where
  "lowered_kinds active (TsFunction name _ _ _) =
     (if active \<and> eq_ignore_ascii_case name analyze_image_tool_name
      then [(name, KImageAnalysis)] else [(name, KFunction name None)])"
| "lowered_kinds active (TsNamespace namespace _ tools) =
     map (\<lambda>tool. (ns_name tool, KFunction (ns_name tool) (Some namespace))) tools"
| "lowered_kinds active (TsToolSearch _ _ _) = [(''tool_search'', KToolSearch)]"
| "lowered_kinds active TsLocalShell = [(''local_shell'', KLocalShell)]"
| "lowered_kinds active (TsWebSearch _ _ _ _ _) = [(''web_search'', KWebSearch)]"
| "lowered_kinds active (TsCustom name _ _) = [(name, KCustom name)]"
| "lowered_kinds active (TsImageGeneration _) = []"

fun register_kinds ::
  "(string \<times> tool_kind) list \<Rightarrow> tool_registry \<Rightarrow> app_error + tool_registry" where
  "register_kinds [] by_name = Inr by_name"
| "register_kinds ((name, kind) # kinds) by_name =
     (let name_lc = ascii_lower name in
      if by_name name_lc \<noteq> None
      then Inl (bad_request (''duplicate tool name is not supported: '' @ name_lc))
      else register_kinds kinds (by_name(name_lc \<mapsto> kind)))"

fun build_registry_from ::
  "bool \<Rightarrow> tool_spec list \<Rightarrow> tool_registry \<Rightarrow> app_error + tool_registry" where
  "build_registry_from active [] by_name = Inr by_name"
| "build_registry_from active (spec # specs) by_name =
     bind_res (register_kinds (lowered_kinds active spec) by_name)
       (build_registry_from active specs)"

definition build_tool_registry :: "tool_spec list \<Rightarrow> bool \<Rightarrow> app_error + tool_registry" where
  "build_tool_registry specs active = build_registry_from active specs Map.empty"

text \<open>The engine's classification of a streamed tool name.\<close>

definition is_hidden_tool_name :: "string \<Rightarrow> tool_registry \<Rightarrow> bool" where
  "is_hidden_tool_name name r =
     (case registry_get r (ascii_lower name) of
        None \<Rightarrow> True | Some KImageAnalysis \<Rightarrow> True | Some _ \<Rightarrow> False)"

subsection \<open>Chat tools\<close>

definition function_tool :: "string \<Rightarrow> string \<Rightarrow> json \<Rightarrow> bool \<Rightarrow> chat_tool" where
  "function_tool name description parameters strict =
     \<lparr>ctool_kind = ''function'',
      ctool_function = \<lparr>td_name = name, td_description = description,
        td_parameters = Some parameters, td_strict = strict\<rparr>\<rparr>"

definition jtype :: "string \<Rightarrow> json" where
  "jtype t = jobj [(''type'', JStr t)]"

definition local_shell_parameters :: json where
  "local_shell_parameters = jobj [
     (''type'', JStr ''object''),
     (''properties'', jobj [
        (''command'', jobj [(''type'', JStr ''array''), (''items'', jtype ''string'')]),
        (''timeout_ms'', jtype ''integer''),
        (''working_directory'', jtype ''string''),
        (''env'', jobj [(''type'', JStr ''object''), (''additionalProperties'', jtype ''string'')]),
        (''user'', jtype ''string'')]),
     (''required'', JArr [JStr ''command''])]"

definition string_parameter :: "string \<Rightarrow> json" where
  "string_parameter name = jobj [(''type'', JStr ''object''),
     (''properties'', jobj [(name, jtype ''string'')]), (''required'', JArr [JStr name])]"

fun lower_tool :: "tool_spec \<Rightarrow> chat_tool list" where
  "lower_tool (TsFunction name description strict parameters) =
     [function_tool name description parameters strict]"
| "lower_tool (TsNamespace _ _ tools) =
     map (\<lambda>tool. function_tool (ns_name tool) (ns_description tool) (ns_parameters tool)
                   (ns_strict tool)) tools"
| "lower_tool (TsToolSearch _ description parameters) =
     [function_tool ''tool_search'' description parameters False]"
| "lower_tool TsLocalShell =
     [function_tool ''local_shell'' ''Execute a shell command locally.'' local_shell_parameters False]"
| "lower_tool (TsWebSearch _ _ _ _ _) =
     [function_tool ''web_search'' ''Search the web and return relevant result snippets.''
        (string_parameter ''query'') False]"
| "lower_tool (TsCustom name description format) =
     [function_tool name
        (description @ blank_line @
         ''Return the raw tool input as a string matching the '' @ ctf_kind format @ '' '' @
         ctf_syntax format @ '' format.'')
        (string_parameter ''input'') False]"
| "lower_tool (TsImageGeneration _) = []"

definition tool_name :: "chat_tool \<Rightarrow> string" where
  "tool_name t = td_name (ctool_function t)"

definition lower_tools :: "tool_spec list \<Rightarrow> app_error + chat_tool list" where
  "lower_tools specs = Inr (sort_key tool_name (concat (map lower_tool specs)))"

subsection \<open>Validation\<close>

definition validate_request :: "responses_request \<Rightarrow> app_error + unit" where
  "validate_request request =
     (if req_previous_response_id request \<noteq> None
      then Inl (bad_request ''previous_response_id is not supported in v1'')
      else case req_tool_choice request of
        JStr s \<Rightarrow>
          (if s = ''auto'' \<or> s = ''none'' then Inr ()
           else if s = ''required''
           then (if req_tools request = []
                 then Inl (bad_request (''tool_choice is '' @ quoted ''required'' @
                        '' but no tools are provided''))
                 else Inr ())
           else Inl (bad_request (''invalid tool_choice string: '' @ quoted s @
                  ''; expected '' @ quoted ''auto'' @ '', '' @ quoted ''none'' @ '', or '' @
                  quoted ''required'')))
      | JObj m \<Rightarrow>
          (let valid = (Option.bind (obj_get m ''type'') as_str = Some ''function''
             \<and> map_option (\<lambda>n. n \<noteq> []) (Option.bind (Option.bind (Option.bind
                  (obj_get m ''function'') as_object) (\<lambda>f. obj_get f ''name'')) as_str)
               = Some True)
           in if \<not> valid
              then Inl (bad_request (''invalid tool_choice object: expected {'' @ quoted ''type'' @
                     '':'' @ quoted ''function'' @ '','' @ quoted ''function'' @ '':{'' @
                     quoted ''name'' @ '':'' @ quoted ''<non-empty>'' @ ''}}''))
              else if req_tools request = []
              then Inl (bad_request ''tool_choice specifies a function but no tools are provided'')
              else Inr ())
      | _ \<Rightarrow> Inl (bad_request (''invalid tool_choice: expected a string ('' @ quoted ''auto'' @
               '', '' @ quoted ''none'' @ '', '' @ quoted ''required'' @
               '') or a function object'')))"

subsection \<open>Pending reasoning\<close>

record pending_reasoning =
  pr_text :: string
  pr_signature :: "string option"

definition pr_append ::
  "pending_reasoning \<Rightarrow> string \<Rightarrow> string option \<Rightarrow> pending_reasoning" where
  "pr_append p text signature =
     \<lparr>pr_text = (if pr_text p \<noteq> [] \<and> text \<noteq> [] then pr_text p @ blank_line @ text
                 else if pr_text p = [] then text else pr_text p),
      pr_signature = (if pr_signature p = None then signature else pr_signature p)\<rparr>"

definition into_chat_parts ::
  "pending_reasoning \<Rightarrow> string option \<times> chat_thinking option" where
  "into_chat_parts p =
     (Some (pr_text p),
      map_option (\<lambda>s. \<lparr>ct_content = pr_text p, ct_signature = Some s\<rparr>) (pr_signature p))"

definition flush_pending_reasoning ::
  "chat_message list \<Rightarrow> pending_reasoning option \<Rightarrow> chat_message list \<times> pending_reasoning option"
where
  "flush_pending_reasoning messages pending =
     (case pending of
        None \<Rightarrow> (messages, None)
      | Some p \<Rightarrow>
          (let (reasoning_content, thinking) = into_chat_parts p in
           (messages @ [\<lparr>cm_role = ''assistant'', cm_content = None, cm_tool_call_id = None,
              cm_name = None, cm_reasoning_content = reasoning_content, cm_thinking = thinking,
              cm_tool_calls = None\<rparr>], None)))"

definition reasoning_item_text ::
  "reasoning_summary_item list \<Rightarrow> reasoning_content_item list option \<Rightarrow> string" where
  "reasoning_item_text summary content =
     join [CHR 0x0A]
       (filter (\<lambda>t. t \<noteq> [])
         (map (\<lambda>entry. case entry of SummaryText text \<Rightarrow> text) summary @
          (case content of None \<Rightarrow> []
           | Some entries \<Rightarrow>
               map (\<lambda>entry. case entry of ReasoningText text \<Rightarrow> text | PlainText text \<Rightarrow> text)
                 entries)))"

subsection \<open>Message content\<close>

fun content_item_to_chat_part :: "content_item \<Rightarrow> json" where
  "content_item_to_chat_part (InputText text) =
     jobj [(''type'', JStr ''text''), (''text'', JStr text)]"
| "content_item_to_chat_part (OutputText text) =
     jobj [(''type'', JStr ''text''), (''text'', JStr text)]"
| "content_item_to_chat_part (InputImage (Some image_url) _ detail) =
     jobj [(''type'', JStr ''image_url''),
           (''image_url'', jobj ([(''url'', JStr image_url)] @ opt_entry ''detail'' detail))]"
| "content_item_to_chat_part (InputImage None file_id detail) =
     jobj ([(''type'', JStr ''input_image'')] @ opt_entry ''file_id'' file_id @
           opt_entry ''detail'' detail)"
| "content_item_to_chat_part (InputFile file_id file_url filename file_data) =
     jobj ([(''type'', JStr ''input_file'')] @ opt_entry ''file_id'' file_id @
           opt_entry ''file_url'' file_url @ opt_entry ''filename'' filename @
           opt_entry ''file_data'' file_data)"
| "content_item_to_chat_part (OtherContent value) = value"

fun content_item_to_chat_value :: "content_item \<Rightarrow> json" where
  "content_item_to_chat_value (InputText text) = JStr text"
| "content_item_to_chat_value (OutputText text) = JStr text"
| "content_item_to_chat_value item = JArr [content_item_to_chat_part item]"

definition message_content_to_chat_value :: "content_item list \<Rightarrow> app_error + json" where
  "message_content_to_chat_value content =
     (case content of
        [] \<Rightarrow> Inr (JStr [])
      | [item] \<Rightarrow> Inr (content_item_to_chat_value item)
      | items \<Rightarrow> Inr (JArr (map content_item_to_chat_part items)))"

definition stringify_tool_output :: "json_codec \<Rightarrow> json \<Rightarrow> string" where
  "stringify_tool_output J value =
     (case value of JStr text \<Rightarrow> text | _ \<Rightarrow> to_json_string J value)"

definition tool_call_arguments_object :: "json option \<Rightarrow> json" where
  "tool_call_arguments_object arguments =
     (case arguments of
        Some (JObj m) \<Rightarrow> JObj m | Some other \<Rightarrow> other | None \<Rightarrow> JObj [])"

definition parse_json_string :: "json_codec \<Rightarrow> string \<Rightarrow> app_error + json" where
  "parse_json_string J raw =
     (case from_json_str J raw of
        Inl err \<Rightarrow> Inl (bad_request (''invalid JSON tool arguments: '' @ err))
      | Inr v \<Rightarrow> Inr v)"

subsection \<open>Tool calls\<close>

definition chat_call :: "string \<Rightarrow> nat \<Rightarrow> string \<Rightarrow> json \<Rightarrow> chat_tool_call" where
  "chat_call call_id index name arguments =
     \<lparr>tc_id = Some call_id, tc_index = Some index, tc_kind = ''function'',
      tc_function = \<lparr>fc_name = Some name, fc_arguments = Some arguments\<rparr>\<rparr>"

definition append_tool_call ::
  "chat_message list \<Rightarrow> string \<Rightarrow> string \<Rightarrow> json \<Rightarrow> pending_reasoning option \<Rightarrow> chat_message list"
where
  "append_tool_call messages call_id name arguments pending =
     (if messages \<noteq> [] \<and> cm_role (last messages) = ''assistant'' \<and> pending = None
      then (let l = last messages;
                existing = (case cm_tool_calls l of None \<Rightarrow> [] | Some v \<Rightarrow> v)
            in butlast messages @
                 [l\<lparr>cm_tool_calls := Some (existing @
                      [chat_call call_id (length existing) name arguments])\<rparr>])
      else messages @ [\<lparr>cm_role = ''assistant'', cm_content = None, cm_tool_call_id = None,
             cm_name = None, cm_reasoning_content = map_option pr_text pending,
             cm_thinking = Option.bind pending (\<lambda>p. map_option
               (\<lambda>s. \<lparr>ct_content = pr_text p, ct_signature = Some s\<rparr>) (pr_signature p)),
             cm_tool_calls = Some [chat_call call_id 0 name arguments]\<rparr>])"

definition tool_message :: "string \<Rightarrow> string option \<Rightarrow> chat_message" where
  "tool_message content call_id =
     \<lparr>cm_role = ''tool'', cm_content = Some (JStr content), cm_tool_call_id = call_id,
      cm_name = None, cm_reasoning_content = None, cm_thinking = None, cm_tool_calls = None\<rparr>"

definition json_opt_str :: "string option \<Rightarrow> json" where
  "json_opt_str opt = (case opt of None \<Rightarrow> JNull | Some s \<Rightarrow> JStr s)"

definition search_query :: "string option \<Rightarrow> string list option \<Rightarrow> string option" where
  "search_query query queries =
     (case query of Some q \<Rightarrow> Some q
      | None \<Rightarrow> (case queries of Some (q # _) \<Rightarrow> Some q | _ \<Rightarrow> None))"

definition web_search_arguments :: "web_search_action option \<Rightarrow> json" where
  "web_search_arguments action =
     (case action of
        Some (WsSearch query queries) \<Rightarrow>
          (case search_query query queries of
             Some q \<Rightarrow> jobj [(''query'', JStr q)] | None \<Rightarrow> jobj [])
      | Some (WsOpenPage url) \<Rightarrow> jobj [(''url'', json_opt_str url)]
      | Some (WsFindInPage url pattern) \<Rightarrow>
          jobj [(''url'', json_opt_str url), (''pattern'', json_opt_str pattern)]
      | Some WsOther \<Rightarrow> jobj []
      | None \<Rightarrow> jobj [])"

definition web_search_fragments :: "web_search_action option \<Rightarrow> string \<times> string list" where
  "web_search_fragments action =
     (case action of
        Some (WsSearch query queries) \<Rightarrow>
          ([], (case search_query query queries of None \<Rightarrow> [] | Some q \<Rightarrow> [''Query: '' @ q]))
      | Some (WsOpenPage url) \<Rightarrow>
          ('' open_page'', (case url of None \<Rightarrow> [] | Some u \<Rightarrow> [''URL: '' @ u]))
      | Some (WsFindInPage url pattern) \<Rightarrow>
          ('' find_in_page'', (case url of None \<Rightarrow> [] | Some u \<Rightarrow> [''URL: '' @ u]) @
             (case pattern of None \<Rightarrow> [] | Some p \<Rightarrow> [''Pattern: '' @ p]))
      | Some WsOther \<Rightarrow> ([], [])
      | None \<Rightarrow> ([], []))"

definition web_search_placeholder_result :: "web_search_action option \<Rightarrow> string" where
  "web_search_placeholder_result action =
     (let (label, fragments) = web_search_fragments action;
          base = ''Previous web_search'' @ label @
            '' completed in an earlier turn, but the original tool result is unavailable '' @
            ''because replay state was missing.''
      in if fragments \<noteq> [] then base @ '' '' @ join ''. '' fragments else base)"

text \<open>\<^verbatim>\<open>serde_json::to_value\<close> of the exec action: absent optional fields are skipped.\<close>

definition exec_to_value :: "local_shell_exec_action \<Rightarrow> json" where
  "exec_to_value a = jobj (
     [(''command'', JArr (map JStr (lse_command a)))] @
     (case lse_timeout_ms a of None \<Rightarrow> [] | Some n \<Rightarrow> [(''timeout_ms'', JNum (PosInt n))]) @
     opt_entry ''working_directory'' (lse_working_directory a) @
     (case lse_env a of None \<Rightarrow> [] | Some e \<Rightarrow> [(''env'', jobj (map (\<lambda>(k, v). (k, JStr v)) e))]) @
     opt_entry ''user'' (lse_user a))"

subsection \<open>The item loop\<close>

definition normalize_chat_role :: "string \<Rightarrow> string" where
  "normalize_chat_role role = (if role = ''developer'' then ''system'' else role)"

fun ends_assistant_turn :: "response_item \<Rightarrow> bool" where
  "ends_assistant_turn (Message _ role _ _) = (role \<noteq> ''assistant'')"
| "ends_assistant_turn (FunctionCallOutput _ _) = True"
| "ends_assistant_turn (CustomToolCallOutput _ _ _) = True"
| "ends_assistant_turn (ToolSearchOutput _ _ _ _) = True"
| "ends_assistant_turn _ = False"

type_synonym lower_state = "chat_message list \<times> pending_reasoning option"

definition lower_message ::
  "bool \<Rightarrow> string \<Rightarrow> content_item list \<Rightarrow> lower_state \<Rightarrow> app_error + lower_state" where
  "lower_message has_roles role content st =
     (let (messages, pending) = st in
      bind_res
        (if role = ''assistant'' \<and> content = [] then Inr None
         else bind_res (message_content_to_chat_value content) (\<lambda>v. Inr (Some v)))
        (\<lambda>text.
          let normalized_role = (if has_roles then role else normalize_chat_role role);
              ((reasoning_content, thinking), pending') =
                (if normalized_role = ''assistant''
                 then (case pending of None \<Rightarrow> (None, None) | Some p \<Rightarrow> into_chat_parts p, None)
                 else ((None, None), pending))
          in Inr (messages @ [\<lparr>cm_role = normalized_role, cm_content = text,
               cm_tool_call_id = None, cm_name = None,
               cm_reasoning_content = reasoning_content, cm_thinking = thinking,
               cm_tool_calls = None\<rparr>], pending')))"

fun lower_item_body ::
  "json_codec \<Rightarrow> bool \<Rightarrow> response_item \<Rightarrow> lower_state \<Rightarrow> app_error + lower_state" where
  "lower_item_body J has_roles (Message _ role content _) st =
     lower_message has_roles role content st"
| "lower_item_body J has_roles (Reasoning _ summary content encrypted) (messages, pending) =
     (let text = reasoning_item_text summary content;
          signature = nonempty_str encrypted
      in Inr (messages, Some (case pending of
           Some existing \<Rightarrow> pr_append existing text signature
         | None \<Rightarrow> \<lparr>pr_text = text, pr_signature = signature\<rparr>)))"
| "lower_item_body J has_roles (FunctionCall _ name _ arguments call_id) (messages, pending) =
     bind_res (parse_json_string J arguments)
       (\<lambda>args. Inr (append_tool_call messages call_id name args pending, None))"
| "lower_item_body J has_roles (CustomToolCall _ call_id name input) (messages, pending) =
     Inr (append_tool_call messages call_id name (jobj [(''input'', JStr input)]) pending, None)"
| "lower_item_body J has_roles (ToolSearchCall call_id _ execution arguments) (messages, pending) =
     (if execution \<noteq> ''client''
      then Inl (bad_request ''only tool_search calls with execution=client are supported'')
      else Inr (append_tool_call messages
             (case call_id of Some c \<Rightarrow> c | None \<Rightarrow> ''tool_search_missing_call_id'')
             ''tool_search'' arguments pending, None))"
| "lower_item_body J has_roles (LocalShellCall id_opt call_id _ action) (messages, pending) =
     (case (case call_id of Some c \<Rightarrow> Some c | None \<Rightarrow> id_opt) of
        None \<Rightarrow> Inl (bad_request ''local_shell_call missing call_id'')
      | Some c \<Rightarrow> Inr (append_tool_call messages c ''local_shell''
          (case action of Exec e \<Rightarrow> exec_to_value e) pending, None))"
| "lower_item_body J has_roles (FunctionCallOutput call_id output) (messages, pending) =
     Inr (messages @ [tool_message (stringify_tool_output J output) (Some call_id)], pending)"
| "lower_item_body J has_roles (CustomToolCallOutput call_id _ output) (messages, pending) =
     Inr (messages @ [tool_message (stringify_tool_output J output) (Some call_id)], pending)"
| "lower_item_body J has_roles (ToolSearchOutput call_id status execution tools) (messages, pending) =
     Inr (messages @ [tool_message (to_json_string J (jobj [(''status'', JStr status),
            (''execution'', JStr execution), (''tools'', JArr tools)])) call_id], pending)"
| "lower_item_body J has_roles (WebSearchCall id_opt _ action) (messages, pending) =
     (let call_id = (case id_opt of Some c \<Rightarrow> c
            | None \<Rightarrow> ''web_search_missing_replay_'' @ show_nat (length messages));
          messages' = append_tool_call messages call_id ''web_search''
            (web_search_arguments action) pending
      in Inr (messages' @ [tool_message (web_search_placeholder_result action) (Some call_id)],
              None))"
| "lower_item_body J has_roles (ImageGenerationCall _ _ _ _) st = Inr st"

definition lower_item ::
  "json_codec \<Rightarrow> bool \<Rightarrow> response_item \<Rightarrow> lower_state \<Rightarrow> app_error + lower_state" where
  "lower_item J has_roles item st =
     lower_item_body J has_roles item
       (if ends_assistant_turn item then flush_pending_reasoning (fst st) (snd st) else st)"

fun lower_items ::
  "json_codec \<Rightarrow> bool \<Rightarrow> response_item list \<Rightarrow> lower_state \<Rightarrow> app_error + lower_state" where
  "lower_items J has_roles [] st = Inr st"
| "lower_items J has_roles (item # items) st =
     bind_res (lower_item J has_roles item st) (lower_items J has_roles items)"

subsection \<open>System messages\<close>

definition hoist_system_messages :: "json_codec \<Rightarrow> chat_message list \<Rightarrow> chat_message list" where
  "hoist_system_messages J messages =
     (let prefix = takeWhile (\<lambda>m. cm_role m = ''system'') messages;
          rest = dropWhile (\<lambda>m. cm_role m = ''system'') messages;
          system_texts = message_parts J prefix
      in if prefix = [] then messages
         else (if system_texts \<noteq> []
               then [content_only_message ''system'' (join blank_line system_texts)] else []) @ rest)"

subsection \<open>The whole turn\<close>

record lowered_turn =
  lt_messages :: "chat_message list"
  lt_tools :: "chat_tool list"
  lt_tool_registry :: tool_registry
  lt_response_format :: "json option"
  lt_reasoning_effort :: "string option"
  lt_frequency_penalty :: "f64 option"
  lt_presence_penalty :: "f64 option"

definition normalize_reasoning_effort :: "string option \<Rightarrow> string option" where
  "normalize_reasoning_effort effort =
     (case map_option trim effort of
        None \<Rightarrow> None | Some v \<Rightarrow> if v = [] then None else Some (ascii_lower v))"

definition response_format_of :: "text_format \<Rightarrow> json" where
  "response_format_of format = jobj [(''type'', JStr (tf_kind format)),
     (''json_schema'', jobj [(''name'', JStr (tf_name format)), (''schema'', tf_schema format),
        (''strict'', JBool (tf_strict format))])]"

definition seed_messages ::
  "responses_request \<Rightarrow> chat_message list \<Rightarrow> chat_message list" where
  "seed_messages request baseline =
     (if baseline = [] \<and> req_instructions request \<noteq> []
      then baseline @ [content_only_message ''system'' (req_instructions request)]
      else baseline)"

definition finish_messages ::
  "json_codec \<Rightarrow> roles_config option \<Rightarrow> nat \<Rightarrow> chat_message list \<Rightarrow> app_error + chat_message list"
where
  "finish_messages J roles baseline_len messages =
     (if roles \<noteq> None
      then bind_res (apply_role_rules J (drop baseline_len messages) roles)
             (\<lambda>new. Inr (take baseline_len messages @ new))
      else Inr (hoist_system_messages J messages))"

definition lower_request_with_image_agent_and_roles ::
  "json_codec \<Rightarrow> responses_request \<Rightarrow> chat_message list \<Rightarrow> bool \<Rightarrow> roles_config option
     \<Rightarrow> app_error + lowered_turn" where
  "lower_request_with_image_agent_and_roles J request baseline active roles =
     bind_res (validate_request request) (\<lambda>_.
     bind_res (lower_tools (req_tools request)) (\<lambda>tools.
     bind_res (build_tool_registry (req_tools request) active) (\<lambda>registry.
     bind_res (lower_items J (roles \<noteq> None) (req_input request)
                 (seed_messages request baseline, None)) (\<lambda>(messages, pending).
     bind_res (finish_messages J roles (length baseline)
                 (fst (flush_pending_reasoning messages pending))) (\<lambda>messages.
     Inr \<lparr>lt_messages = messages, lt_tools = tools, lt_tool_registry = registry,
          lt_response_format = map_option response_format_of
            (Option.bind (req_text request) txt_format),
          lt_reasoning_effort = normalize_reasoning_effort
            (Option.bind (req_reasoning request) rr_effort),
          lt_frequency_penalty = req_frequency_penalty request,
          lt_presence_penalty = req_presence_penalty request\<rparr>)))))"

definition lower_request_with_image_agent ::
  "json_codec \<Rightarrow> responses_request \<Rightarrow> chat_message list \<Rightarrow> bool \<Rightarrow> app_error + lowered_turn" where
  "lower_request_with_image_agent J request baseline active =
     lower_request_with_image_agent_and_roles J request baseline active None"

definition lower_request ::
  "json_codec \<Rightarrow> responses_request \<Rightarrow> chat_message list \<Rightarrow> app_error + lowered_turn" where
  "lower_request J request baseline =
     lower_request_with_image_agent_and_roles J request baseline False None"

end
