(* ===== verification/Lowering_Correct.thy ===== *)
theory Lowering_Correct
  imports Lowering "HOL-Library.Sublist"
begin

text \<open>
  Correctness of request lowering: the tool calls and the reasoning of the input survive in
  order, the offered tools and the registry describe the same names, the classification of
  streamed names follows the offer, and the role passes are stable.
\<close>

subsection \<open>Tool calls are conserved\<close>

definition calls_of :: "chat_message \<Rightarrow> chat_tool_call list" where
  "calls_of m = (case cm_tool_calls m of None \<Rightarrow> [] | Some cs \<Rightarrow> cs)"

definition all_calls :: "chat_message list \<Rightarrow> chat_tool_call list" where
  "all_calls ms = concat (map calls_of ms)"

lemma all_calls_simps [simp]:
  "all_calls [] = []" "all_calls (m # ms) = calls_of m @ all_calls ms"
  "all_calls (xs @ ys) = all_calls xs @ all_calls ys"
  by (simp_all add: all_calls_def)

fun is_call :: "response_item \<Rightarrow> bool" where
  "is_call (FunctionCall _ _ _ _ _) = True"
| "is_call (CustomToolCall _ _ _ _) = True"
| "is_call (ToolSearchCall _ _ _ _) = True"
| "is_call (LocalShellCall _ _ _ _) = True"
| "is_call (WebSearchCall _ _ _) = True"
| "is_call _ = False"

text \<open>What the chat call lowered from an item must carry.\<close>

definition carries :: "string option \<Rightarrow> string \<Rightarrow> json \<Rightarrow> chat_tool_call \<Rightarrow> bool" where
  "carries cid name arguments c \<longleftrightarrow>
     fc_name (tc_function c) = Some name \<and> fc_arguments (tc_function c) = Some arguments
     \<and> tc_kind c = ''function'' \<and> tc_id c \<noteq> None \<and> (cid \<noteq> None \<longrightarrow> tc_id c = cid)"

fun call_matches :: "json_codec \<Rightarrow> response_item \<Rightarrow> chat_tool_call \<Rightarrow> bool" where
  "call_matches J (FunctionCall _ name _ arguments call_id) c =
     (\<exists>v. from_json_str J arguments = Inr v \<and> carries (Some call_id) name v c)"
| "call_matches J (CustomToolCall _ call_id name input) c =
     carries (Some call_id) name (jobj [(''input'', JStr input)]) c"
| "call_matches J (ToolSearchCall call_id _ _ arguments) c =
     carries call_id ''tool_search'' arguments c"
| "call_matches J (LocalShellCall id_opt call_id _ action) c =
     carries (if call_id = None then id_opt else call_id) ''local_shell''
       (case action of Exec e \<Rightarrow> exec_to_value e) c"
| "call_matches J (WebSearchCall id_opt _ action) c =
     carries id_opt ''web_search'' (web_search_arguments action) c"
| "call_matches J _ c = False"

lemma carries_chat_call [simp]:
  "carries cid name arguments (chat_call call_id k name' arguments')
     \<longleftrightarrow> name' = name \<and> arguments' = arguments \<and> (cid \<noteq> None \<longrightarrow> cid = Some call_id)"
  by (auto simp: carries_def chat_call_def)

definition call_index :: "chat_message list \<Rightarrow> pending_reasoning option \<Rightarrow> nat" where
  "call_index ms pending =
     (if ms \<noteq> [] \<and> cm_role (last ms) = ''assistant'' \<and> pending = None
      then length (calls_of (last ms)) else 0)"

lemma all_calls_last: "ms \<noteq> [] \<Longrightarrow> all_calls ms = all_calls (butlast ms) @ calls_of (last ms)"
  using all_calls_simps(3) [of "butlast ms" "[last ms]"] by simp

lemma calls_append_tool_call [simp]:
  "all_calls (append_tool_call ms call_id name arguments pending)
     = all_calls ms @ [chat_call call_id (call_index ms pending) name arguments]"
proof (cases "ms \<noteq> [] \<and> cm_role (last ms) = ''assistant'' \<and> pending = None")
  case True
  then show ?thesis
    by (cases "cm_tool_calls (last ms)")
      (simp_all add: append_tool_call_def Let_def calls_of_def call_index_def all_calls_last)
next
  case False
  have "append_tool_call ms call_id name arguments pending = ms @ [\<lparr>cm_role = ''assistant'',
      cm_content = None, cm_tool_call_id = None, cm_name = None,
      cm_reasoning_content = map_option pr_text pending,
      cm_thinking = Option.bind pending (\<lambda>p. map_option
        (\<lambda>s. \<lparr>ct_content = pr_text p, ct_signature = Some s\<rparr>) (pr_signature p)),
      cm_tool_calls = Some [chat_call call_id 0 name arguments]\<rparr>]"
    unfolding append_tool_call_def using False by (simp only: if_False)
  with False show ?thesis by (auto simp: calls_of_def call_index_def)
qed

lemma calls_flush [simp]: "all_calls (fst (flush_pending_reasoning ms p)) = all_calls ms"
  by (simp add: flush_pending_reasoning_def calls_of_def split: option.splits prod.splits)

lemma calls_tool_message [simp]: "calls_of (tool_message t i) = []"
  by (simp add: tool_message_def calls_of_def)

lemma calls_content_only [simp]: "calls_of (content_only_message r t) = []"
  by (simp add: content_only_message_def calls_of_def)

lemma lower_message_appends:
  assumes "lower_message r role content (ms, p) = Inr st'"
  shows "\<exists>m p'. st' = (ms @ [m], p') \<and> cm_tool_calls m = None \<and> cm_tool_call_id m = None
    \<and> cm_role m = (if r then role else normalize_chat_role role)"
proof -
  define tx where "tx = (if role = ''assistant'' \<and> content = [] then Inr None
      else bind_res (message_content_to_chat_value content) (\<lambda>v. Inr (Some v)))"
  obtain v where v: "tx = Inr v"
    using assms by (cases tx) (simp_all add: lower_message_def tx_def)
  show ?thesis
    using assms
    by (cases p; cases "(if r then role else normalize_chat_role role) = ''assistant''")
      (simp_all add: lower_message_def Let_def v [unfolded tx_def] into_chat_parts_def, auto)
qed

lemma calls_lower_message:
  "lower_message r role content st = Inr st' \<Longrightarrow> all_calls (fst st') = all_calls (fst st)"
  by (cases st) (auto dest!: lower_message_appends simp: calls_of_def)

lemma lower_item_body_calls:
  assumes "lower_item_body J r item st = Inr st'"
  shows "\<exists>cs. all_calls (fst st') = all_calls (fst st) @ cs
    \<and> list_all2 (call_matches J) (filter is_call [item]) cs"
proof -
  obtain ms p where st: "st = (ms, p)" by (cases st)
  show ?thesis
  proof (cases item)
    case (Message i role content ph)
    with assms show ?thesis by (auto dest: calls_lower_message)
  qed (use assms in \<open>auto simp: st Let_def bind_res_Inr parse_json_string_def
      split: sum.splits if_splits option.splits local_shell_action.splits\<close>)
qed

lemma lower_item_calls:
  assumes "lower_item J r item st = Inr st'"
  shows "\<exists>cs. all_calls (fst st') = all_calls (fst st) @ cs
    \<and> list_all2 (call_matches J) (filter is_call [item]) cs"
  using lower_item_body_calls [OF assms [unfolded lower_item_def]]
  by (simp split: if_splits)

lemma lower_items_calls:
  assumes "lower_items J r items st = Inr st'"
  shows "\<exists>cs. all_calls (fst st') = all_calls (fst st) @ cs
    \<and> list_all2 (call_matches J) (filter is_call items) cs"
  using assms
proof (induction items arbitrary: st)
  case (Cons item items)
  then obtain s where s: "lower_item J r item st = Inr s" "lower_items J r items s = Inr st'"
    by (auto simp: bind_res_Inr)
  from lower_item_calls [OF s(1)] obtain cs1 where cs1:
    "all_calls (fst s) = all_calls (fst st) @ cs1"
    "list_all2 (call_matches J) (filter is_call [item]) cs1" by blast
  from Cons.IH [OF s(2)] obtain cs2 where cs2:
    "all_calls (fst st') = all_calls (fst s) @ cs2"
    "list_all2 (call_matches J) (filter is_call items) cs2" by blast
  have "filter is_call (item # items) = filter is_call [item] @ filter is_call items" by simp
  with cs1 cs2 show ?case
    by (intro exI [of _ "cs1 @ cs2"]) (simp only: list_all2_appendI append_assoc simp_thms)
qed simp

subsection \<open>Only assistant messages carry calls and reasoning\<close>

definition assistant_only :: "chat_message list \<Rightarrow> bool" where
  "assistant_only ms \<longleftrightarrow> (\<forall>m \<in> set ms. cm_role m \<noteq> ''assistant''
     \<longrightarrow> calls_of m = [] \<and> cm_reasoning_content m = None)"

lemma assistant_only_simps [simp]:
  "assistant_only []"
  "assistant_only (m # ms) \<longleftrightarrow>
     (cm_role m = ''assistant'' \<or> calls_of m = [] \<and> cm_reasoning_content m = None) \<and> assistant_only ms"
  "assistant_only (xs @ ys) \<longleftrightarrow> assistant_only xs \<and> assistant_only ys"
  by (auto simp: assistant_only_def)

text \<open>The reasoning texts a lowering state holds: those of its messages and the pending one.\<close>

definition carriers :: "chat_message list \<Rightarrow> string list" where
  "carriers ms = List.map_filter cm_reasoning_content ms"

definition pending_carrier :: "pending_reasoning option \<Rightarrow> string list" where
  "pending_carrier p = (case p of None \<Rightarrow> [] | Some q \<Rightarrow> [pr_text q])"

definition state_carriers :: "lower_state \<Rightarrow> string list" where
  "state_carriers st = carriers (fst st) @ pending_carrier (snd st)"

lemma carriers_simps [simp]:
  "carriers [] = []"
  "carriers (m # ms) =
     (case cm_reasoning_content m of None \<Rightarrow> [] | Some t \<Rightarrow> [t]) @ carriers ms"
  "carriers (xs @ ys) = carriers xs @ carriers ys"
  by (simp_all add: carriers_def List.map_filter_def split: option.split)

lemma pending_carrier_simps [simp]:
  "pending_carrier None = []" "pending_carrier (Some q) = [pr_text q]"
  by (simp_all add: pending_carrier_def)

definition kept :: "string list \<Rightarrow> string list \<Rightarrow> bool" where
  "kept A B \<longleftrightarrow> (\<forall>a \<in> set A. \<exists>b \<in> set B. sublist a b)"

lemma kept_subset: "set A \<subseteq> set B \<Longrightarrow> kept A B"
  by (auto simp: kept_def)

lemma kept_trans: "kept A B \<Longrightarrow> kept B C \<Longrightarrow> kept A C"
  unfolding kept_def by (meson sublist_order.order_trans)

lemma kept_append: "kept A C \<Longrightarrow> kept B C \<Longrightarrow> kept (A @ B) C"
  by (auto simp: kept_def)

lemma append_tool_call_shape:
  "assistant_only ms \<Longrightarrow> assistant_only (append_tool_call ms call_id name arguments pending)
    \<and> carriers (append_tool_call ms call_id name arguments pending) =
        carriers ms @ pending_carrier pending"
proof (cases "ms \<noteq> [] \<and> cm_role (last ms) = ''assistant'' \<and> pending = None")
  case True
  then obtain ms' l where ms: "ms = ms' @ [l]" by (metis append_butlast_last_id)
  show "assistant_only ms \<Longrightarrow> ?thesis"
    using True by (simp add: append_tool_call_def Let_def ms)
next
  case False
  have "append_tool_call ms call_id name arguments pending = ms @ [\<lparr>cm_role = ''assistant'',
      cm_content = None, cm_tool_call_id = None, cm_name = None,
      cm_reasoning_content = map_option pr_text pending,
      cm_thinking = Option.bind pending (\<lambda>p. map_option
        (\<lambda>s. \<lparr>ct_content = pr_text p, ct_signature = Some s\<rparr>) (pr_signature p)),
      cm_tool_calls = Some [chat_call call_id 0 name arguments]\<rparr>]"
    unfolding append_tool_call_def using False by (simp only: if_False)
  then show "assistant_only ms \<Longrightarrow> ?thesis" by (cases pending) simp_all
qed

lemma flush_shape:
  "assistant_only ms \<Longrightarrow> assistant_only (fst (flush_pending_reasoning ms p))
    \<and> carriers (fst (flush_pending_reasoning ms p)) = carriers ms @ pending_carrier p
    \<and> snd (flush_pending_reasoning ms p) = None"
  by (cases p) (simp_all add: flush_pending_reasoning_def into_chat_parts_def)

lemma tool_message_shape [simp]:
  "cm_role (tool_message t i) = ''tool''" "cm_reasoning_content (tool_message t i) = None"
  by (simp_all add: tool_message_def)

lemma lower_message_shape:
  assumes "lower_message r role content (ms, p) = Inr (ms', p')" and "assistant_only ms"
  shows "assistant_only ms' \<and> state_carriers (ms', p') = state_carriers (ms, p)"
proof -
  define tx where "tx = (if role = ''assistant'' \<and> content = [] then Inr None
      else bind_res (message_content_to_chat_value content) (\<lambda>v. Inr (Some v)))"
  obtain v where v: "tx = Inr v"
    using assms by (cases tx) (simp_all add: lower_message_def tx_def)
  show ?thesis
    using assms
    by (cases p; cases "(if r then role else normalize_chat_role role) = ''assistant''")
      (auto simp add: lower_message_def Let_def v [unfolded tx_def] into_chat_parts_def
        state_carriers_def calls_of_def)
qed

lemma sublist_pr_append:
  "sublist (pr_text q) (pr_text (pr_append q t sig))"
  "sublist t (pr_text (pr_append q t sig))"
proof -
  have "sublist (pr_text q) (pr_text q @ blank_line @ t)" by simp
  moreover have "sublist t ((pr_text q @ blank_line) @ t)" by (simp only: sublist_append_leftI sublist_order.order.refl)
  ultimately show "sublist (pr_text q) (pr_text (pr_append q t sig))"
    "sublist t (pr_text (pr_append q t sig))"
    by (auto simp: pr_append_def)
qed

definition item_reasoning :: "response_item \<Rightarrow> string list" where
  "item_reasoning item = (case item of
     Reasoning _ summary content _ \<Rightarrow> [reasoning_item_text summary content] | _ \<Rightarrow> [])"

lemma lower_item_body_shape:
  assumes "lower_item_body J r item st = Inr st'" and "assistant_only (fst st)"
  shows "assistant_only (fst st') \<and> kept (state_carriers st) (state_carriers st')
    \<and> kept (item_reasoning item) (state_carriers st')"
proof -
  obtain ms p where st: "st = (ms, p)" by (cases st)
  obtain ms' p' where st': "st' = (ms', p')" by (cases st')
  show ?thesis
  proof (cases item)
    case (Message i role content ph)
    with assms have "lower_message r role content (ms, p) = Inr (ms', p')" "assistant_only ms"
      by (simp_all add: st st')
    from lower_message_shape [OF this] show ?thesis
      by (simp add: st st' Message item_reasoning_def kept_subset)
  next
    case (Reasoning i summary content enc)
    then show ?thesis
      using assms sublist_pr_append
      by (cases p) (auto simp: st Let_def item_reasoning_def kept_def state_carriers_def)
  qed (use assms append_tool_call_shape in \<open>auto simp: st Let_def bind_res_Inr item_reasoning_def
      state_carriers_def kept_def split: if_splits option.splits\<close>)
qed

lemma lower_item_shape:
  assumes "lower_item J r item st = Inr st'" and "assistant_only (fst st)"
  shows "assistant_only (fst st') \<and> kept (state_carriers st) (state_carriers st')
    \<and> kept (item_reasoning item) (state_carriers st')"
proof -
  define s where "s = (if ends_assistant_turn item
    then flush_pending_reasoning (fst st) (snd st) else st)"
  have "assistant_only (fst s)" "state_carriers s = state_carriers st"
    using flush_shape [OF assms(2), of "snd st"] assms(2)
    by (simp_all add: s_def state_carriers_def)
  with lower_item_body_shape [OF assms(1) [unfolded lower_item_def s_def [symmetric]]]
  show ?thesis by simp
qed

lemma lower_items_shape:
  assumes "lower_items J r items st = Inr st'" and "assistant_only (fst st)"
  shows "assistant_only (fst st') \<and> kept (state_carriers st) (state_carriers st')
    \<and> kept (concat (map item_reasoning items)) (state_carriers st')"
  using assms
proof (induction items arbitrary: st)
  case Nil
  then show ?case by (simp add: kept_subset)
next
  case (Cons item items)
  then obtain s where s: "lower_item J r item st = Inr s" "lower_items J r items s = Inr st'"
    by (auto simp: bind_res_Inr)
  note one = lower_item_shape [OF s(1) Cons.prems(2)]
  note rest = Cons.IH [OF s(2)]
  from one rest show ?case by (auto intro: kept_trans kept_append)
qed

lemma hoist_shape:
  assumes "assistant_only ms"
  shows "all_calls (hoist_system_messages J ms) = all_calls ms
    \<and> carriers (hoist_system_messages J ms) = carriers ms"
proof -
  have *: "all_calls (takeWhile (\<lambda>m. cm_role m = ''system'') ms) = []
    \<and> carriers (takeWhile (\<lambda>m. cm_role m = ''system'') ms) = []"
    using assms by (induction ms) auto
  have ms: "ms = takeWhile (\<lambda>m. cm_role m = ''system'') ms
      @ dropWhile (\<lambda>m. cm_role m = ''system'') ms" by simp
  have "all_calls ms = all_calls (dropWhile (\<lambda>m. cm_role m = ''system'') ms)
    \<and> carriers ms = carriers (dropWhile (\<lambda>m. cm_role m = ''system'') ms)"
    by (subst ms, subst (4) ms) (simp only: all_calls_simps carriers_simps * append_Nil simp_thms)
  then show ?thesis
    by (simp add: hoist_system_messages_def Let_def content_only_message_def calls_of_def)
qed

lemma seed_shape:
  "assistant_only baseline \<Longrightarrow> assistant_only (seed_messages request baseline)
    \<and> all_calls (seed_messages request baseline) = all_calls baseline
    \<and> carriers (seed_messages request baseline) = carriers baseline"
  by (simp add: seed_messages_def content_only_message_def calls_of_def)

lemma lower_request_messages:
  assumes "lower_request_with_image_agent J request baseline active = Inr t"
  obtains st where "lower_items J False (req_input request) (seed_messages request baseline, None)
      = Inr st"
    and "lt_messages t =
      hoist_system_messages J (fst (flush_pending_reasoning (fst st) (snd st)))"
  using assms
  by (auto simp: lower_request_with_image_agent_def lower_request_with_image_agent_and_roles_def
      bind_res_Inr finish_messages_def)

subsubsection \<open>Role policies\<close>

text \<open>
  A role policy that keeps the messages of assistants: the rules that can apply to one, at the start
  of the new messages or after it, accept or reject it, and assistants are not merged (which the
  validation of a profile forbids).
\<close>

definition assistants_kept :: "roles_config option \<Rightarrow> bool" where
  "assistants_kept roles = (case roles of None \<Rightarrow> True | Some rc \<Rightarrow>
     ''assistant'' \<notin> set (rc_merge_adjacent rc)
     \<and> list_all (\<lambda>i. case Option.bind (rules_for rc ''assistant'') (find (rule_applies i)) of
          None \<Rightarrow> True | Some rule \<Rightarrow> rl_action rule = ActAccept \<or> rl_action rule = ActReject) [0, 1])"

definition calls_at_assistants :: "chat_message list \<Rightarrow> bool" where
  "calls_at_assistants = list_all (\<lambda>m. cm_role m = ''assistant'' \<or> calls_of m = [])"

lemma calls_of_role [simp]: "calls_of (m\<lparr>cm_role := x\<rparr>) = calls_of m"
  by (simp add: calls_of_def)

lemma calls_of_wrap [simp]: "calls_of (wrap_role_tag J m t a) = calls_of m"
  by (simp add: calls_of_def)

lemma assigned_assistant:
  assumes "assistants_kept (Some rc)" and "assign_role J rc i m = Inr r" and "cm_role m = ''assistant''"
  shows "\<exists>m'. r = Some m' \<and> cm_role m' = ''assistant'' \<and> calls_of m' = calls_of m"
proof -
  from assms(2,3) obtain rules rule where f: "rules_for rc ''assistant'' = Some rules"
    "find (rule_applies i) rules = Some rule" "apply_role_action J rule m = Inr r"
    by (auto simp: assign_role_def split: option.splits)
  have "rule_applies i = rule_applies (if i = 0 then 0 else 1)" by (simp add: rule_applies_inline)
  with f(1,2) assms(1) have "rl_action rule = ActAccept \<or> rl_action rule = ActReject"
    by (auto simp: assistants_kept_def split: if_splits)
  with f(3) assms(3) show ?thesis by (auto simp: apply_role_action_def)
qed

lemma assigned_other:
  assumes "assign_role J rc i m = Inr (Some m')" and "calls_of m = []"
  shows "calls_of m' = []"
  using assms by (auto simp: assign_role_def apply_role_action_def Let_def
      split: option.splits role_action.splits)

lemma assign_roles_calls:
  assumes "assistants_kept (Some rc)"
  shows "assign_roles_from J rc i ms = Inr out \<Longrightarrow> calls_at_assistants ms
    \<Longrightarrow> all_calls out = all_calls ms \<and> calls_at_assistants out"
proof (induction ms arbitrary: i out)
  case (Cons m ms)
  from Cons.prems(1) obtain r out' where a: "assign_role J rc i m = Inr r"
    and rest: "assign_roles_from J rc (Suc i) ms = Inr out'"
    and out: "out = (case r of None \<Rightarrow> out' | Some m' \<Rightarrow> m' # out')"
    by (auto simp: bind_res_Inr)
  from Cons.prems(2) have m: "cm_role m = ''assistant'' \<or> calls_of m = []" and ms: "calls_at_assistants ms"
    by (simp_all add: calls_at_assistants_def)
  from m have "case r of None \<Rightarrow> calls_of m = []
    | Some m' \<Rightarrow> calls_of m' = calls_of m \<and> (cm_role m' = ''assistant'' \<or> calls_of m' = [])"
    using assigned_assistant [OF assms a] assigned_other [of J rc i m] a by (auto split: option.split)
  with Cons.IH [OF rest ms] show ?case
    by (auto simp: out calls_at_assistants_def split: option.splits)
qed (simp add: calls_at_assistants_def)

lemma merged_calls:
  assumes "''assistant'' \<notin> set roles"
  shows "calls_at_assistants ms \<Longrightarrow> all_calls (merge_adjacent_role_runs J ms roles) = all_calls ms"
proof (induction "length ms" arbitrary: ms rule: less_induct)
  case less
  show ?case
  proof (cases ms)
    case (Cons m ms')
    show ?thesis
    proof (cases "cm_role m \<in> set roles")
      case False
      with less Cons show ?thesis by (simp add: merge_keep calls_at_assistants_def)
    next
      case True
      let ?run = "m # takeWhile (\<lambda>x. cm_role x = cm_role m) ms'"
        and ?rest = "dropWhile (\<lambda>x. cm_role x = cm_role m) ms'"
      have ms: "ms = ?run @ ?rest" by (simp add: Cons)
      have c: "calls_at_assistants ?run" "calls_at_assistants ?rest"
        using less.prems by (simp_all only: ms calls_at_assistants_def list_all_append)
      have "cm_role x \<noteq> ''assistant''" if "x \<in> set ?run" for x
        using that True assms by (auto dest: set_takeWhileD)
      then have "all_calls ?run = []" using c(1) by (auto simp: calls_at_assistants_def all_calls_def list_all_iff)
      moreover have "length ?rest < length ms" using Cons by (simp add: length_dropWhile_le le_imp_less_Suc)
      ultimately have "all_calls (merge_adjacent_role_runs J ms roles) = all_calls ?run @ all_calls ?rest"
        using less(1) [OF _ c(2)] True by (simp add: Cons merge_run Let_def)
      then show ?thesis using ms by (metis all_calls_simps(3))
    qed
  qed simp
qed

lemma assistant_only_calls: "assistant_only ms \<Longrightarrow> calls_at_assistants ms"
  by (auto simp: assistant_only_def calls_at_assistants_def list_all_iff)

lemma finished_calls:
  assumes "finish_messages J roles n ms = Inr out" and "assistant_only ms" and "assistants_kept roles"
  shows "all_calls out = all_calls ms"
proof (cases roles)
  case None
  with assms(1) hoist_shape [OF assms(2), of J] show ?thesis by (auto simp: finish_messages_def)
next
  case (Some rc)
  with assms(1) obtain assigned where a: "assign_roles_from J rc 0 (drop n ms) = Inr assigned"
    and out: "out = take n ms @ merge_adjacent_if_configured J assigned (Some rc)"
    by (auto simp: finish_messages_def apply_role_rules_def assign_roles_def bind_res_Inr)
  have "assistant_only (take n ms @ drop n ms)" using assms(2) by simp
  then have "calls_at_assistants (drop n ms)"
    unfolding assistant_only_simps(3) by (simp add: assistant_only_calls)
  from assign_roles_calls [OF _ a this] assms(3) Some
  have "all_calls assigned = all_calls (drop n ms)" "calls_at_assistants assigned" by simp_all
  moreover from assms(3) Some have "''assistant'' \<notin> set (rc_merge_adjacent rc)" by (simp add: assistants_kept_def)
  ultimately have "all_calls (merge_adjacent_if_configured J assigned (Some rc)) = all_calls (drop n ms)"
    by (simp add: merge_adjacent_if_configured_def merged_calls)
  then show ?thesis by (metis out all_calls_simps(3) append_take_drop_id)
qed

text \<open>
  C24: when a request is lowered after a baseline, the tool calls of the resulting chat messages are
  those of the baseline followed by exactly one call for every call item of the input, in input order,
  with that item's name, arguments and call id. This holds without a role policy and under every
  policy whose rules accept or reject an assistant's message and that does not merge such messages (no
  valid profile does); a policy that drops or rewrites assistant messages may lose calls. Only the
  assistant messages of the baseline may hold calls or reasoning.
\<close>

theorem tool_calls_conserved:
  assumes "lower_request_with_image_agent_and_roles J request baseline active roles = Inr t"
    and "assistant_only baseline" and "assistants_kept roles"
  shows "\<exists>cs. all_calls (lt_messages t) = all_calls baseline @ cs
    \<and> list_all2 (call_matches J) (filter is_call (req_input request)) cs"
proof -
  from assms(1) obtain ms p where st: "lower_items J (roles \<noteq> None) (req_input request)
      (seed_messages request baseline, None) = Inr (ms, p)"
    and f: "finish_messages J roles (length baseline) (fst (flush_pending_reasoning ms p)) = Inr (lt_messages t)"
    by (auto simp: lower_request_with_image_agent_and_roles_def bind_res_Inr)
  note seed = seed_shape [OF assms(2), of request]
  from lower_items_shape [OF st] seed have "assistant_only ms" by simp
  from finished_calls [OF f conjunct1 [OF flush_shape [OF this]] assms(3)] lower_items_calls [OF st] seed
  show ?thesis by simp
qed

text \<open>
  When a request is lowered without a role policy, no reasoning is lost: the text of every
  reasoning item of the input is contained, whole, in the reasoning content of some message of
  the lowered turn.
\<close>

theorem reasoning_survives_lowering:
  assumes "lower_request_with_image_agent J request baseline active = Inr t"
    and "assistant_only baseline"
    and "Reasoning i summary content enc \<in> set (req_input request)"
  shows "\<exists>m \<in> set (lt_messages t). \<exists>r. cm_reasoning_content m = Some r
    \<and> sublist (reasoning_item_text summary content) r"
proof -
  obtain st where st: "lower_items J False (req_input request) (seed_messages request baseline, None)
      = Inr st"
    "lt_messages t = hoist_system_messages J (fst (flush_pending_reasoning (fst st) (snd st)))"
    using assms(1) by (rule lower_request_messages)
  from lower_items_shape [OF st(1)] seed_shape [OF assms(2), of request]
  have ao: "assistant_only (fst st)"
    and kept: "kept (concat (map item_reasoning (req_input request))) (state_carriers st)"
    by simp_all
  note fl = flush_shape [OF ao, of "snd st"]
  have "carriers (lt_messages t) = state_carriers st"
    using hoist_shape [OF conjunct1 [OF fl]] fl st(2) by (simp add: state_carriers_def)
  moreover have "reasoning_item_text summary content
      \<in> set (concat (map item_reasoning (req_input request)))"
    using assms(3) by (force simp: item_reasoning_def)
  ultimately obtain r where "r \<in> set (carriers (lt_messages t))"
    "sublist (reasoning_item_text summary content) r"
    using kept by (auto simp: kept_def)
  then show ?thesis
    by (fastforce simp: carriers_def List.map_filter_def)
qed

subsection \<open>A concrete request\<close>

definition sample_codec :: json_codec where
  "sample_codec = \<lparr>to_json_string = (\<lambda>_. ''{}''), from_json_str = (\<lambda>_. Inr (JObj []))\<rparr>"

definition sample_request :: responses_request where
  "sample_request = \<lparr>req_model = ''m'', req_instructions = ''Be brief.'',
     req_input = [Message None ''user'' [InputText ''hi''] None,
       Reasoning ''r'' [SummaryText ''think''] None None,
       FunctionCall None ''lookup'' None ''{}'' ''c1'',
       FunctionCallOutput ''c1'' (JStr ''42'')],
     req_tools = [TsFunction ''lookup'' ''d'' False (JObj []), TsLocalShell],
     req_tool_choice = JStr ''auto'', req_parallel_tool_calls = None, req_reasoning = None,
     req_thinking = None, req_store = True, req_stream = True, req_include = [],
     req_service_tier = None, req_prompt_cache_key = None, req_text = None,
     req_client_metadata = None, req_previous_response_id = None, req_temperature = None,
     req_top_p = None, req_max_output_tokens = None, req_frequency_penalty = None,
     req_presence_penalty = None, req_truncation = None, req_metadata = None, req_stop = None,
     req_extra_body = []\<rparr>"

definition sample_turn :: lowered_turn where
  "sample_turn = (case lower_request_with_image_agent sample_codec sample_request [] False of
     Inr t \<Rightarrow> t | Inl _ \<Rightarrow> undefined)"

lemma sample_turn: "lower_request_with_image_agent sample_codec sample_request [] False
    = Inr sample_turn"
proof -
  have "is_ok (lower_request_with_image_agent sample_codec sample_request [] False)"
    by code_simp
  then show ?thesis
    by (simp add: sample_turn_def is_ok_def split: sum.splits)
qed

theorem tool_calls_conserved_witness:
  "\<exists>cs. all_calls (lt_messages sample_turn) = all_calls [] @ cs
    \<and> list_all2 (call_matches sample_codec) (filter is_call (req_input sample_request)) cs"
  by (rule tool_calls_conserved [OF sample_turn [unfolded lower_request_with_image_agent_def]])
    (simp_all add: assistants_kept_def)

theorem reasoning_survives_lowering_witness:
  "\<exists>m \<in> set (lt_messages sample_turn). \<exists>r. cm_reasoning_content m = Some r
    \<and> sublist (reasoning_item_text [SummaryText ''think''] None) r"
  by (rule reasoning_survives_lowering [OF sample_turn]) (simp_all add: sample_request_def)

end
