(* ===== verification/Lowering_Tools.thy ===== *)
theory Lowering_Tools
  imports Lowering_Correct "HOL-Library.Multiset"
begin

text \<open>
  The tools of a lowered turn and its registry describe the same names, the classification of
  streamed names follows them, errors of lowering are client errors, and the message passes
  (system hoisting, role merging, role policy of an appended message) are stable.
\<close>

subsection \<open>Registry and offered tools\<close>

lemma kinds_names: "map fst (lowered_kinds active spec) = map tool_name (lower_tool spec)"
  by (cases spec) (simp_all add: tool_name_def function_tool_def comp_def)

definition lc_kinds :: "(string \<times> tool_kind) list \<Rightarrow> (string \<times> tool_kind) list" where
  "lc_kinds kinds = map (\<lambda>(name, kind). (ascii_lower name, kind)) kinds"

lemma lc_kinds_simps [simp]:
  "lc_kinds [] = []" "lc_kinds ((n, k) # kinds) = (ascii_lower n, k) # lc_kinds kinds"
  by (simp_all add: lc_kinds_def)

lemma fst_lc_kinds: "map fst (lc_kinds kinds) = map ascii_lower (map fst kinds)"
  by (simp add: lc_kinds_def comp_def case_prod_beta)

lemma register_kinds_ok:
  "register_kinds kinds r = Inr r' \<Longrightarrow> r' = r ++ map_of (lc_kinds kinds)
     \<and> distinct (map fst (lc_kinds kinds)) \<and> dom r \<inter> fst ` set (lc_kinds kinds) = {}"
proof (induction kinds r rule: register_kinds.induct)
  case (2 name kind kinds r)
  then have new: "r (ascii_lower name) = None"
    and IH: "register_kinds kinds (r(ascii_lower name \<mapsto> kind)) = Inr r'"
    by (auto simp: Let_def split: if_splits)
  have *: "r' = r(ascii_lower name \<mapsto> kind) ++ map_of (lc_kinds kinds)"
    "distinct (map fst (lc_kinds kinds))"
    "dom (r(ascii_lower name \<mapsto> kind)) \<inter> fst ` set (lc_kinds kinds) = {}"
    using 2(1) [OF refl _ IH] new by (simp_all del: fun_upd_apply)
  then have "ascii_lower name \<notin> fst ` set (lc_kinds kinds)" by simp
  moreover from this have "ascii_lower name \<notin> dom (map_of (lc_kinds kinds))"
    by (simp add: dom_map_of_conv_image_fst)
  ultimately show ?case
    using * new by (auto simp del: fun_upd_apply simp add: map_add_upd_left domIff)
qed simp

lemma register_kinds_append:
  "register_kinds (xs @ ys) r = bind_res (register_kinds xs r) (register_kinds ys)"
  by (induction xs r rule: register_kinds.induct) (simp_all add: Let_def del: fun_upd_apply)

lemma build_registry_flat:
  "build_registry_from active specs r =
     register_kinds (concat (map (lowered_kinds active) specs)) r"
  by (induction specs arbitrary: r) (simp_all add: register_kinds_append bind_res_def split: sum.split)

lemma lowered_turn_parts:
  assumes "lower_request_with_image_agent_and_roles J request baseline active roles = Inr t"
  defines "kinds \<equiv> concat (map (lowered_kinds active) (req_tools request))"
  shows "lt_tool_registry t = map_of (lc_kinds kinds)"
    and "distinct (map ascii_lower (map fst kinds))"
    and "lt_tools t = sort_key tool_name (concat (map lower_tool (req_tools request)))"
    and "map fst kinds = map tool_name (concat (map lower_tool (req_tools request)))"
proof -
  have "build_registry_from active (req_tools request) Map.empty = Inr (lt_tool_registry t)"
    using assms(1)
    by (auto simp: lower_request_with_image_agent_and_roles_def bind_res_Inr build_tool_registry_def)
  from register_kinds_ok [OF this [unfolded build_registry_flat, folded kinds_def]]
  show "lt_tool_registry t = map_of (lc_kinds kinds)" "distinct (map ascii_lower (map fst kinds))"
    unfolding fst_lc_kinds [symmetric] by simp_all
  show "lt_tools t = sort_key tool_name (concat (map lower_tool (req_tools request)))"
    using assms(1)
    by (auto simp: lower_request_with_image_agent_and_roles_def bind_res_Inr lower_tools_def)
  show "map fst kinds = map tool_name (concat (map lower_tool (req_tools request)))"
    by (simp add: kinds_def map_concat comp_def kinds_names)
qed

text \<open>
  The tools offered upstream and the registry that classifies streamed names agree: the
  offered tools are sorted by name, their names differ even up to ASCII case, and the keys of
  the registry are exactly their lower-cased names.
\<close>

theorem registry_matches_offered_tools:
  assumes "lower_request_with_image_agent_and_roles J request baseline active roles = Inr t"
  shows "sorted (map tool_name (lt_tools t))
    \<and> distinct (map (ascii_lower \<circ> tool_name) (lt_tools t))
    \<and> dom (lt_tool_registry t) = ascii_lower ` tool_name ` set (lt_tools t)"
proof -
  note parts = lowered_turn_parts [OF assms]
  let ?names = "map tool_name (concat (map lower_tool (req_tools request)))"
  have m: "mset (map tool_name (lt_tools t)) = mset ?names"
    by (simp only: parts(3) mset_map mset_sort)
  then have "mset (map ascii_lower (map tool_name (lt_tools t))) = mset (map ascii_lower ?names)"
    by (simp only: mset_map)
  then have "distinct (map ascii_lower (map tool_name (lt_tools t)))"
    using parts(2) unfolding parts(4) by (metis mset_eq_imp_distinct_iff)
  moreover have "set (map tool_name (lt_tools t)) = set ?names" using m by (rule mset_eq_setD)
  then have "dom (lt_tool_registry t) = ascii_lower ` tool_name ` set (lt_tools t)"
    using arg_cong [OF parts(4), of set] arg_cong [OF fst_lc_kinds, of set]
    by (simp only: parts(1) dom_map_of_conv_image_fst list.set_map)
  ultimately show ?thesis by (simp add: parts(3))
qed

theorem registry_matches_offered_tools_witness:
  "sorted (map tool_name (lt_tools sample_turn))
    \<and> distinct (map (ascii_lower \<circ> tool_name) (lt_tools sample_turn))
    \<and> dom (lt_tool_registry sample_turn) = ascii_lower ` tool_name ` set (lt_tools sample_turn)"
  by (rule registry_matches_offered_tools
      [OF sample_turn [unfolded lower_request_with_image_agent_def]])

text \<open>The names the image agent intercepts: those of declared function tools.\<close>

definition intercepted :: "bool \<Rightarrow> tool_spec list \<Rightarrow> string \<Rightarrow> bool" where
  "intercepted active specs name \<longleftrightarrow> active \<and> eq_ignore_ascii_case name analyze_image_tool_name
     \<and> list_ex (\<lambda>spec. case spec of TsFunction n _ _ _ \<Rightarrow> eq_ignore_ascii_case n name | _ \<Rightarrow> False)
         specs"

lemma image_kind_spec:
  "(n, KImageAnalysis) \<in> set (lowered_kinds active spec) \<longleftrightarrow>
     (\<exists>d s p. spec = TsFunction n d s p) \<and> active \<and> eq_ignore_ascii_case n analyze_image_tool_name"
  by (cases spec) auto

text \<open>
  A streamed tool name is classified as hidden exactly when no offered tool bears it up to
  ASCII case, or when it is the image-analysis function the active image agent intercepts.
\<close>

theorem hidden_iff_not_offered:
  assumes "lower_request_with_image_agent_and_roles J request baseline active roles = Inr t"
  shows "is_hidden_tool_name name (lt_tool_registry t) \<longleftrightarrow>
    \<not> list_ex (\<lambda>tool. eq_ignore_ascii_case (tool_name tool) name) (lt_tools t)
    \<or> intercepted active (req_tools request) name"
proof -
  let ?kinds = "concat (map (lowered_kinds active) (req_tools request))"
  note parts = lowered_turn_parts [OF assms]
  have fs: "fst ` set ?kinds = tool_name ` set (lt_tools t)"
    using arg_cong [OF parts(4), of set] by (simp add: parts(3))
  have dom: "dom (lt_tool_registry t) = ascii_lower ` fst ` set ?kinds"
    using arg_cong [OF fst_lc_kinds, of set]
    by (simp only: parts(1) dom_map_of_conv_image_fst list.set_map)
  have val: "lt_tool_registry t (ascii_lower n) = Some k" if "(n, k) \<in> set ?kinds" for n k
  proof -
    have "distinct (map fst (lc_kinds ?kinds))" using parts(2) by (simp only: fst_lc_kinds)
    moreover have "(ascii_lower n, k) \<in> set (lc_kinds ?kinds)" using that by (force simp: lc_kinds_def)
    ultimately show ?thesis by (simp only: parts(1) map_of_is_SomeI)
  qed
  have offered: "list_ex (\<lambda>tool. eq_ignore_ascii_case (tool_name tool) name) (lt_tools t)
      \<longleftrightarrow> ascii_lower name \<in> dom (lt_tool_registry t)"
    unfolding dom fs list_ex_iff eq_ignore_ascii_case_def by (simp add: image_iff eq_commute)
  have image: "lt_tool_registry t (ascii_lower name) = Some KImageAnalysis
      \<longleftrightarrow> intercepted active (req_tools request) name"
  proof
    assume L: "lt_tool_registry t (ascii_lower name) = Some KImageAnalysis"
    then have "ascii_lower name \<in> ascii_lower ` fst ` set ?kinds" using dom by blast
    then obtain nk where "nk \<in> set ?kinds" "ascii_lower name = ascii_lower (fst nk)" by blast
    then obtain n k where nk: "(n, k) \<in> set ?kinds" "ascii_lower name = ascii_lower n"
      by (metis prod.collapse)
    with val [OF nk(1)] L have "(n, KImageAnalysis) \<in> set ?kinds" by simp
    then obtain spec where "spec \<in> set (req_tools request)"
      "(n, KImageAnalysis) \<in> set (lowered_kinds active spec)" by auto
    then obtain d s p where "TsFunction n d s p \<in> set (req_tools request)" and "active"
      and "eq_ignore_ascii_case n analyze_image_tool_name"
      by (auto simp: image_kind_spec)
    with nk(2) show "intercepted active (req_tools request) name"
      unfolding intercepted_def list_ex_iff eq_ignore_ascii_case_def
      by (intro conjI bexI [of _ "TsFunction n d s p"]) simp_all
  next
    assume R: "intercepted active (req_tools request) name"
    then obtain x where x: "x \<in> set (req_tools request)" "case x of TsFunction n _ _ _ \<Rightarrow>
        eq_ignore_ascii_case n name | _ \<Rightarrow> False"
      unfolding intercepted_def list_ex_iff by blast
    then obtain n d s p where spec: "TsFunction n d s p \<in> set (req_tools request)"
      and n: "ascii_lower n = ascii_lower name"
      by (cases rule: tool_spec.exhaust [of x]) (auto simp: eq_ignore_ascii_case_def)
    with R have "(n, KImageAnalysis) \<in> set (lowered_kinds active (TsFunction n d s p))"
      by (simp add: intercepted_def eq_ignore_ascii_case_def)
    with spec have "(n, KImageAnalysis) \<in> set ?kinds"
      unfolding set_concat set_map by blast
    from val [OF this] n show "lt_tool_registry t (ascii_lower name) = Some KImageAnalysis" by simp
  qed
  show ?thesis
    unfolding offered image [symmetric]
    by (auto simp: is_hidden_tool_name_def registry_get_def split: option.splits tool_kind.splits)
qed

theorem hidden_iff_not_offered_witness:
  "is_hidden_tool_name ''LookUp'' (lt_tool_registry sample_turn) \<longleftrightarrow>
    \<not> list_ex (\<lambda>tool. eq_ignore_ascii_case (tool_name tool) ''LookUp'') (lt_tools sample_turn)
    \<or> intercepted False (req_tools sample_request) ''LookUp''"
  by (rule hidden_iff_not_offered [OF sample_turn [unfolded lower_request_with_image_agent_def]])

subsection \<open>Errors\<close>

lemma register_kinds_error: "register_kinds kinds r = Inl e \<Longrightarrow> err_status e = 400"
  by (induction kinds r rule: register_kinds.induct)
    (auto simp: Let_def bad_request_def split: if_splits)

lemma validate_request_error: "validate_request request = Inl e \<Longrightarrow> err_status e = 400"
  by (auto simp: validate_request_def bad_request_def Let_def split: if_splits json.splits)

lemma message_content_ok: "is_ok (message_content_to_chat_value content)"
  by (simp add: message_content_to_chat_value_def split: list.split)

lemma lower_message_ok: "is_ok (lower_message r role content st)"
  using message_content_ok [of content]
  by (cases "message_content_to_chat_value content"; cases st)
    (simp_all add: lower_message_def Let_def split: prod.split)

lemma lower_item_body_error: "lower_item_body J r item st = Inl e \<Longrightarrow> err_status e = 400"
proof -
  assume L: "lower_item_body J r item st = Inl e"
  obtain ms p where st: "st = (ms, p)" by (cases st)
  show ?thesis
  proof (cases item)
    case (Message i role content ph)
    with L lower_message_ok [of r role content st] show ?thesis by simp
  next
    case (FunctionCall i name ns arguments call_id)
    with L show ?thesis
      by (cases "from_json_str J arguments") (auto simp: st parse_json_string_def bad_request_def)
  qed (use L in \<open>auto simp: st bad_request_def Let_def split: if_splits option.splits\<close>)
qed

lemma lower_items_error: "lower_items J r items st = Inl e \<Longrightarrow> err_status e = 400"
proof (induction items arbitrary: st)
  case (Cons item items)
  then show ?case
    by (cases "lower_item J r item st") (auto simp: lower_item_def dest: lower_item_body_error)
qed simp

lemma bind_res_Inl: "bind_res r f = Inl e \<longleftrightarrow> r = Inl e \<or> (\<exists>x. r = Inr x \<and> f x = Inl e)"
  by (cases r) auto

lemma finish_messages_error: "finish_messages J roles n ms = Inl e \<Longrightarrow> err_status e = 400"
  by (cases roles)
    (auto simp: finish_messages_def bind_res_Inl apply_role_rules_def assign_roles_def
      dest: assign_roles_from_error)

lemma build_registry_error: "build_tool_registry specs active = Inl e \<Longrightarrow> err_status e = 400"
  by (simp add: build_tool_registry_def build_registry_flat register_kinds_error)

lemma lowering_error:
  assumes "lower_request_with_image_agent_and_roles J request baseline active roles = Inl e"
  shows "err_status e = 400"
proof (cases "validate_request request")
  case (Inl e')
  with assms show ?thesis
    by (simp add: lower_request_with_image_agent_and_roles_def validate_request_error)
next
  case v: (Inr u)
  show ?thesis
  proof (cases "build_tool_registry (req_tools request) active")
    case (Inl e')
    with assms v show ?thesis
      by (simp add: lower_request_with_image_agent_and_roles_def lower_tools_def build_registry_error)
  next
    case r: (Inr reg)
    show ?thesis
    proof (cases "lower_items J (roles \<noteq> None) (req_input request)
        (seed_messages request baseline, None)")
      case (Inl e')
      with assms v r show ?thesis
        by (simp add: lower_request_with_image_agent_and_roles_def lower_tools_def lower_items_error)
    next
      case (Inr st)
      obtain ms p where st: "st = (ms, p)" by (cases st)
      have "finish_messages J roles (length baseline) (fst (flush_pending_reasoning ms p)) = Inl e"
        using assms v r Inr
        by (cases "finish_messages J roles (length baseline) (fst (flush_pending_reasoning ms p))")
          (simp_all add: lower_request_with_image_agent_and_roles_def lower_tools_def st)
      then show ?thesis by (rule finish_messages_error)
    qed
  qed
qed

text \<open>
  Every error of lowering is a client error: whatever the request, the baseline, the role
  policy and the JSON codec, a failing lowering answers with status 400.
\<close>

theorem lowering_errors_are_bad_requests:
  "case lower_request_with_image_agent_and_roles J request baseline active roles of
     Inl e \<Rightarrow> err_status e = 400 | Inr _ \<Rightarrow> True"
  using lowering_error [of J request baseline active roles] by (simp split: sum.split)

subsection \<open>Message passes\<close>

text \<open>
  Hoisting the leading system messages is idempotent: the result starts with at most one
  system message, and hoisting it again changes nothing.
\<close>

theorem hoist_idempotent:
  "hoist_system_messages J (hoist_system_messages J ms) = hoist_system_messages J ms
   \<and> length (takeWhile (\<lambda>m. cm_role m = ''system'') (hoist_system_messages J ms)) \<le> 1"
proof -
  let ?sys = "\<lambda>m. cm_role m = ''system''"
  let ?texts = "message_parts J (takeWhile ?sys ms)"
  have rest: "takeWhile ?sys (dropWhile ?sys ms) = []" "dropWhile ?sys (dropWhile ?sys ms)
    = dropWhile ?sys ms"
    by (induction ms) auto
  show ?thesis
  proof (cases "takeWhile ?sys ms = []")
    case True
    then show ?thesis by (simp add: hoist_system_messages_def)
  next
    case False
    show ?thesis
    proof (cases "?texts = []")
      case True
      with False rest show ?thesis by (simp add: hoist_system_messages_def Let_def)
    next
      case t: False
      from joined_parts_nonempty [OF t] False t rest show ?thesis
        by (simp add: hoist_system_messages_def Let_def message_parts_content_only)
    qed
  qed
qed

text \<open>
  The adjacency merge of the role policy is idempotent when every message of a merged role
  carries text.
\<close>

theorem merge_idempotent:
  assumes "\<forall>m \<in> set ms. cm_role m \<in> set roles \<longrightarrow> text_bearing J m"
  shows "merge_adjacent_role_runs J (merge_adjacent_role_runs J ms roles) roles
    = merge_adjacent_role_runs J ms roles"
  by (rule merge_of_merged_form) (rule merge_merged_form [OF assms])

theorem merge_idempotent_witness:
  "merge_adjacent_role_runs sample_codec (merge_adjacent_role_runs sample_codec
      [content_only_message ''user'' ''a'', content_only_message ''user'' ''b''] [''user'']) [''user'']
    = merge_adjacent_role_runs sample_codec
      [content_only_message ''user'' ''a'', content_only_message ''user'' ''b''] [''user'']"
  by (rule merge_idempotent) (simp add: text_bearing_def message_parts_content_only)

text \<open>
  Without that condition the merge is not idempotent, against its comment: an empty system
  message between two user messages is removed by the first pass, and a second pass then merges
  the user messages it separated.
\<close>

theorem merge_not_idempotent:
  "let ms = [content_only_message ''user'' ''a'', content_only_message ''system'' [],
             content_only_message ''user'' ''b''];
       once = merge_adjacent_role_runs J ms [''system'', ''user''] in
   length once = 2 \<and> length (merge_adjacent_role_runs J once [''system'', ''user'']) = 1"
  by (simp add: Let_def merge_run message_parts_def content_only_message_def content_text_def
      List.map_filter_def)

text \<open>
  Shaping one appended message by the role policy agrees with assigning it a role at any
  position but the first: both give the same message, both drop it, or both refuse it as a
  client error.
\<close>

theorem shape_tail_agrees_with_assign:
  assumes "0 < index"
  shows "case shape_tail_message J m (Some rc) of
     Inr out \<Rightarrow> assign_role J rc index m = Inr out
   | Inl e \<Rightarrow> err_status e = 400 \<and> \<not> is_ok (assign_role J rc index m)"
proof (cases "rules_for rc (cm_role m)")
  case None
  then show ?thesis by (simp add: shape_tail_message_def assign_role_def bad_request_def)
next
  case (Some rules)
  show ?thesis
    by (cases "find (rule_applies index) rules")
      (auto simp: shape_tail_message_def assign_role_def bad_request_def Some
        rule_applies_inline [OF assms] split: sum.splits dest: apply_role_action_error)
qed

definition sample_roles :: roles_config where
  "sample_roles = \<lparr>rc_merge_adjacent = [],
     rc_rules = [(''*'', [\<lparr>rl_when = Some Inline, rl_action = ActAccept, rl_target_role = None,
       rl_tag = None, rl_tag_attributes = []\<rparr>])]\<rparr>"

theorem shape_tail_agrees_with_assign_witness:
  "case shape_tail_message sample_codec (content_only_message ''user'' ''a'') (Some sample_roles) of
     Inr out \<Rightarrow> assign_role sample_codec sample_roles 3 (content_only_message ''user'' ''a'') = Inr out
   | Inl e \<Rightarrow> err_status e = 400
       \<and> \<not> is_ok (assign_role sample_codec sample_roles 3 (content_only_message ''user'' ''a''))"
  by (rule shape_tail_agrees_with_assign) simp

end
