(* ===== verification/Stream_State.thy ===== *)
theory Stream_State
  imports Lowering
begin

text \<open>
  Lifting streamed Chat Completions chunks to Responses items
  (\<^verbatim>\<open>src/src/adapters/chat_to_responses.rs\<close>): the accumulator of a turn, the emissions of each
  chunk, and the finalization that resolves or rejects the accumulated tool calls.  The random
  parts of generated ids are a supply \<open>U\<close> of UUID strings read in order; the position in the
  supply is threaded through the operations.
\<close>

subsection \<open>Emissions and state\<close>

definition rejected_tool_args_cap_bytes :: nat where
  "rejected_tool_args_cap_bytes = 2048"

datatype stream_emission =
    OutputItemAdded response_item
  | OutputTextDelta string
  | ContentPartAdded
  | ContentPartDone string
  | ReasoningItemAdded response_item
  | ReasoningTextDelta string
  | ReasoningSignatureDelta string
  | ReasoningSummaryPartAdded
  | ReasoningSummaryPartDone string
  | FunctionCallArgumentsDelta string "string option" string
  | RefusalDelta string

record resolved_tool_call =
  rtc_kind :: tool_kind
  rtc_arguments :: json
  rtc_public_item :: response_item
  rtc_internal_call :: chat_tool_call

datatype tool_rejection_reason = UnknownTool

record rejected_tool_call =
  rj_call_id :: string
  rj_name :: string
  rj_raw_arguments :: string
  rj_reason :: tool_rejection_reason

record finalized_assistant_turn =
  fin_message_item :: "response_item option"
  fin_reasoning_item :: "response_item option"
  fin_tool_calls :: "resolved_tool_call list"
  fin_rejected_tool_calls :: "rejected_tool_call list"
  fin_internal_assistant_message :: "chat_message option"
  fin_content_part_emitted :: bool
  fin_reasoning_part_emitted :: bool
  fin_refusal_text :: string
  fin_finish_reason :: "string option"
  fin_stop_sequence :: "string option"

record tool_call_accumulator =
  acc_id :: "string option"
  acc_name :: "string option"
  acc_arguments_text :: string

record stream_state =
  ss_message_id :: "string option"
  ss_reasoning_id :: "string option"
  ss_output_text :: string
  ss_reasoning_text :: string
  ss_reasoning_signature :: "string option"
  ss_tool_calls :: "(nat \<times> tool_call_accumulator) list"
  ss_content_part_emitted :: bool
  ss_reasoning_part_emitted :: bool
  ss_refusal_text :: string
  ss_finish_reason :: "string option"
  ss_stop_sequence :: "string option"

definition stream_state_default :: stream_state where
  "stream_state_default = \<lparr>ss_message_id = None, ss_reasoning_id = None, ss_output_text = [],
     ss_reasoning_text = [], ss_reasoning_signature = None, ss_tool_calls = [],
     ss_content_part_emitted = False, ss_reasoning_part_emitted = False, ss_refusal_text = [],
     ss_finish_reason = None, ss_stop_sequence = None\<rparr>"

definition accumulator_default :: tool_call_accumulator where
  "accumulator_default = \<lparr>acc_id = None, acc_name = None, acc_arguments_text = []\<rparr>"

subsection \<open>Ids\<close>

definition new_item_id :: "string \<Rightarrow> string \<Rightarrow> string" where
  "new_item_id prefix uuid = prefix @ ''_'' @ uuid"

fun item_message_id :: "response_item \<Rightarrow> string option" where
  "item_message_id (Message i _ _ _) = i"
| "item_message_id _ = None"

fun item_reasoning_id :: "response_item \<Rightarrow> string option" where
  "item_reasoning_id (Reasoning i _ _ _) = Some i"
| "item_reasoning_id _ = None"

definition ensure_call_id ::
  "uuid_supply \<Rightarrow> nat \<Rightarrow> tool_call_accumulator \<Rightarrow> string option
     \<Rightarrow> string \<times> tool_call_accumulator \<times> nat" where
  "ensure_call_id U n acc upstream_id =
     (case acc_id acc of
        Some c \<Rightarrow> (c, acc, n)
      | None \<Rightarrow>
          (case upstream_id of
             Some u \<Rightarrow> (u, acc\<lparr>acc_id := Some u\<rparr>, n)
           | None \<Rightarrow> (let c = new_item_id ''call'' (U n) in (c, acc\<lparr>acc_id := Some c\<rparr>, Suc n))))"

subsection \<open>Steps\<close>

text \<open>A step reads the supply position and the state and appends to the emissions.\<close>

type_synonym sstate = "nat \<times> stream_state"
type_synonym sstep = "sstate \<Rightarrow> sstate \<times> stream_emission list"

definition apply_reasoning :: "uuid_supply \<Rightarrow> chat_delta \<Rightarrow> sstep" where
  "apply_reasoning U d = (\<lambda>(n, st).
     (case nonempty_str (reasoning_delta d) of
        None \<Rightarrow> ((n, st), [])
      | Some delta \<Rightarrow>
          (let item = Reasoning (new_item_id ''rsn'' (U n)) [] (Some []) None;
               (n1, st1, e1) =
                 (if ss_reasoning_id st = None
                  then (Suc n, st\<lparr>ss_reasoning_id := item_reasoning_id item,
                          ss_reasoning_part_emitted := False\<rparr>, [ReasoningItemAdded item])
                  else (n, st, []));
               (st2, e2) =
                 (if \<not> ss_reasoning_part_emitted st1
                  then (st1\<lparr>ss_reasoning_part_emitted := True\<rparr>, [ReasoningSummaryPartAdded])
                  else (st1, []))
           in ((n1, st2\<lparr>ss_reasoning_text := ss_reasoning_text st2 @ delta\<rparr>),
               e1 @ e2 @ [ReasoningTextDelta delta]))))"

definition apply_signature :: "chat_delta \<Rightarrow> sstep" where
  "apply_signature d = (\<lambda>(n, st).
     (case nonempty_str (reasoning_signature_delta d) of
        Some signature \<Rightarrow>
          (if ss_reasoning_id st \<noteq> None
           then ((n, st\<lparr>ss_reasoning_signature := Some signature\<rparr>), [ReasoningSignatureDelta signature])
           else ((n, st), []))
      | None \<Rightarrow> ((n, st), [])))"

definition apply_content :: "uuid_supply \<Rightarrow> chat_delta \<Rightarrow> sstep" where
  "apply_content U d = (\<lambda>(n, st).
     (case nonempty_str (cd_content d) of
        None \<Rightarrow> ((n, st), [])
      | Some delta \<Rightarrow>
          (let item = Message (Some (new_item_id ''msg'' (U n))) ''assistant'' [OutputText []] None;
               (n1, st1, e1) =
                 (if ss_message_id st = None
                  then (Suc n, st\<lparr>ss_message_id := item_message_id item,
                          ss_content_part_emitted := False\<rparr>, [OutputItemAdded item])
                  else (n, st, []));
               (st2, e2) =
                 (if \<not> ss_content_part_emitted st1
                  then (st1\<lparr>ss_content_part_emitted := True\<rparr>, [ContentPartAdded])
                  else (st1, []))
           in ((n1, st2\<lparr>ss_output_text := ss_output_text st2 @ delta\<rparr>),
               e1 @ e2 @ [OutputTextDelta delta]))))"

definition apply_refusal :: "chat_delta \<Rightarrow> sstep" where
  "apply_refusal d = (\<lambda>(n, st).
     (case nonempty_str (cd_refusal d) of
        Some refusal \<Rightarrow>
          ((n, st\<lparr>ss_refusal_text := ss_refusal_text st @ refusal\<rparr>), [RefusalDelta refusal])
      | None \<Rightarrow> ((n, st), [])))"

definition apply_reasons :: "chat_chunk_choice \<Rightarrow> sstep" where
  "apply_reasons choice = (\<lambda>(n, st).
     (let st1 = (case cc_finish_reason choice of
                   Some reason \<Rightarrow> st\<lparr>ss_finish_reason := Some reason\<rparr> | None \<Rightarrow> st);
          st2 = (case cc_stop_reason choice of
                   Some (JStr stop) \<Rightarrow>
                     (if stop \<noteq> [] then st1\<lparr>ss_stop_sequence := Some stop\<rparr> else st1)
                 | _ \<Rightarrow> st1)
      in ((n, st2), [])))"

definition append_argument_fragment :: "json_codec \<Rightarrow> string \<Rightarrow> json \<Rightarrow> string" where
  "append_argument_fragment J buffer value =
     (case value of JStr fragment \<Rightarrow> buffer @ fragment | other \<Rightarrow> buffer @ to_json_string J other)"

definition apply_tool_call_delta ::
  "json_codec \<Rightarrow> uuid_supply \<Rightarrow> nat \<Rightarrow> string option \<Rightarrow> string option \<Rightarrow> json option \<Rightarrow> sstep" where
  "apply_tool_call_delta J U index upstream_id name arguments = (\<lambda>(n, st).
     (let entry = (case obj_get (ss_tool_calls st) index of
                     Some e \<Rightarrow> e | None \<Rightarrow> accumulator_default);
          entry1 = (case name of Some nm \<Rightarrow> entry\<lparr>acc_name := Some nm\<rparr> | None \<Rightarrow> entry);
          (entry2, n2) =
            (if upstream_id \<noteq> None \<and> acc_id entry1 = None
             then snd (ensure_call_id U n entry1 upstream_id) else (entry1, n))
      in (case arguments of
            None \<Rightarrow>
              ((n2, st\<lparr>ss_tool_calls := obj_insert index entry2 (ss_tool_calls st)\<rparr>), [])
          | Some args \<Rightarrow>
              (let (call_id, entry3, n3) = ensure_call_id U n2 entry2 upstream_id;
                   before_len = length (acc_arguments_text entry3);
                   text = append_argument_fragment J (acc_arguments_text entry3) args;
                   entry4 = entry3\<lparr>acc_arguments_text := text\<rparr>;
                   delta = drop before_len text
               in ((n3, st\<lparr>ss_tool_calls := obj_insert index entry4 (ss_tool_calls st)\<rparr>),
                   if delta \<noteq> []
                   then [FunctionCallArgumentsDelta call_id (acc_name entry4) delta] else [])))))"

definition apply_tool_calls :: "json_codec \<Rightarrow> uuid_supply \<Rightarrow> chat_delta \<Rightarrow> sstep" where
  "apply_tool_calls J U d =
     emit_all (\<lambda>tool_call. apply_tool_call_delta J U
         (case tc_index tool_call of Some i \<Rightarrow> i | None \<Rightarrow> 0) (tc_id tool_call)
         (fc_name (tc_function tool_call)) (fc_arguments (tc_function tool_call)))
       (case cd_tool_calls d of None \<Rightarrow> [] | Some calls \<Rightarrow> calls)"

definition apply_function_call :: "json_codec \<Rightarrow> uuid_supply \<Rightarrow> chat_delta \<Rightarrow> sstep" where
  "apply_function_call J U d =
     (case cd_function_call d of
        Some function_call \<Rightarrow> apply_tool_call_delta J U 0 None (fc_name function_call)
          (fc_arguments function_call)
      | None \<Rightarrow> no_step)"

definition apply_choice :: "json_codec \<Rightarrow> uuid_supply \<Rightarrow> chat_chunk_choice \<Rightarrow> sstep" where
  "apply_choice J U choice =
     then_emit (apply_reasoning U (cc_delta choice))
     (then_emit (apply_signature (cc_delta choice))
     (then_emit (apply_content U (cc_delta choice))
     (then_emit (apply_refusal (cc_delta choice))
     (then_emit (apply_reasons choice)
     (then_emit (apply_tool_calls J U (cc_delta choice))
                (apply_function_call J U (cc_delta choice)))))))"

definition apply_chunk :: "json_codec \<Rightarrow> uuid_supply \<Rightarrow> chat_completion_chunk \<Rightarrow> sstep" where
  "apply_chunk J U chunk = emit_all (apply_choice J U) (chunk_choices chunk)"

definition apply_chunks :: "json_codec \<Rightarrow> uuid_supply \<Rightarrow> chat_completion_chunk list \<Rightarrow> sstep" where
  "apply_chunks J U chunks = emit_all (apply_chunk J U) chunks"

subsection \<open>Argument text\<close>

text \<open>\<^verbatim>\<open>str::is_char_boundary\<close>: not inside a UTF-8 sequence.\<close>

definition is_char_boundary :: "string \<Rightarrow> nat \<Rightarrow> bool" where
  "is_char_boundary s i =
     (i = 0 \<or> i = length s \<or>
      (i < length s \<and> \<not> (128 \<le> (of_char (s ! i) :: nat) \<and> (of_char (s ! i) :: nat) < 192)))"

fun boundary_below :: "string \<Rightarrow> nat \<Rightarrow> nat" where
  "boundary_below s 0 = 0"
| "boundary_below s (Suc e) =
     (if is_char_boundary s (Suc e) then Suc e else boundary_below s e)"

text \<open>The elision character is the UTF-8 encoding of U+2026.\<close>

definition ellipsis_char :: string where
  "ellipsis_char = [CHR 0xE2, CHR 0x80, CHR 0xA6]"

definition cap_str :: "string \<Rightarrow> nat \<Rightarrow> string" where
  "cap_str s cap =
     (if length s \<le> cap then s
      else (let e = boundary_below s cap in
            take e s @ ellipsis_char @ ''[truncated '' @ show_nat (length s - e) @ '' bytes]''))"

record arg_scan =
  as_depth :: nat
  as_in_str :: bool
  as_escaped :: bool

text \<open>The scan of the slice that starts at the first bracket: the length of the payload.\<close>

fun scan_json :: "char \<Rightarrow> char \<Rightarrow> arg_scan \<Rightarrow> nat \<Rightarrow> string \<Rightarrow> nat option" where
  "scan_json open_ch close_ch s idx [] = None"
| "scan_json open_ch close_ch s idx (ch # rest) =
     (if as_in_str s
      then scan_json open_ch close_ch
        (if as_escaped s then s\<lparr>as_escaped := False\<rparr>
         else if ch = CHR 0x5C then s\<lparr>as_escaped := True\<rparr>
         else if ch = CHR 0x22 then s\<lparr>as_in_str := False\<rparr> else s) (Suc idx) rest
      else if ch = CHR 0x22 then scan_json open_ch close_ch (s\<lparr>as_in_str := True\<rparr>) (Suc idx) rest
      else if ch = open_ch
      then scan_json open_ch close_ch (s\<lparr>as_depth := as_depth s + 1\<rparr>) (Suc idx) rest
      else if ch = close_ch
      then (let depth = as_depth s - 1 in
            if depth = 0 then Some (Suc idx)
            else scan_json open_ch close_ch (s\<lparr>as_depth := depth\<rparr>) (Suc idx) rest)
      else scan_json open_ch close_ch s (Suc idx) rest)"

definition is_open_bracket :: "char \<Rightarrow> bool" where
  "is_open_bracket c = (c = CHR ''{'' \<or> c = CHR ''['')"

definition extract_json_arguments :: "string \<Rightarrow> string" where
  "extract_json_arguments raw =
     (case dropWhile (\<lambda>c. \<not> is_open_bracket c) raw of
        [] \<Rightarrow> trim raw
      | open_ch # rest \<Rightarrow>
          (let close_ch = (if open_ch = CHR ''{'' then CHR ''}'' else CHR '']'') in
           case scan_json open_ch close_ch
             \<lparr>as_depth = 0, as_in_str = False, as_escaped = False\<rparr> 0 (open_ch # rest) of
             Some len \<Rightarrow> take len (open_ch # rest)
           | None \<Rightarrow> trim raw))"

subsection \<open>Finalization\<close>

definition output_text :: "content_item list \<Rightarrow> string" where
  "output_text content = concat (List.map_filter
     (\<lambda>item. case item of OutputText t \<Rightarrow> Some t | InputText t \<Rightarrow> Some t
        | InputImage _ _ _ \<Rightarrow> None | InputFile _ _ _ _ \<Rightarrow> None | OtherContent _ \<Rightarrow> None) content)"

fun reasoning_content_text :: "reasoning_content_item \<Rightarrow> string" where
  "reasoning_content_text (ReasoningText t) = t"
| "reasoning_content_text (PlainText t) = t"

text \<open>\<^verbatim>\<open>content.as_ref().and_then(first).map(reasoning_content_text).unwrap_or_default()\<close>.\<close>

definition first_reasoning_text :: "reasoning_content_item list option \<Rightarrow> string" where
  "first_reasoning_text content =
     (case content of Some (item # _) \<Rightarrow> reasoning_content_text item | _ \<Rightarrow> [])"

text \<open>
  The decoding of shell arguments is the derived \<^verbatim>\<open>serde\<close> one; it is the parameter \<open>X\<close>, whose
  left results are the error texts.
\<close>

type_synonym exec_decoder = "json \<Rightarrow> string + local_shell_exec_action"

fun public_item_of ::
  "json_codec \<Rightarrow> exec_decoder \<Rightarrow> tool_kind \<Rightarrow> string \<Rightarrow> json \<Rightarrow> app_error + response_item" where
  "public_item_of J X (KFunction public_name namespace) call_id arguments =
     Inr (FunctionCall None public_name namespace (to_json_string J arguments) call_id)"
| "public_item_of J X (KCustom public_name) call_id arguments =
     Inr (CustomToolCall None call_id public_name
       (case json_get_str arguments ''input'' of Some s \<Rightarrow> s | None \<Rightarrow> to_json_string J arguments))"
| "public_item_of J X KLocalShell call_id arguments =
     (case X arguments of
        Inl err \<Rightarrow> Inl (upstream_error (''invalid upstream local_shell arguments: '' @ err))
      | Inr action \<Rightarrow> Inr (LocalShellCall None (Some call_id) ''completed'' (Exec action)))"
| "public_item_of J X KToolSearch call_id arguments =
     Inr (ToolSearchCall (Some call_id) None ''client'' arguments)"
| "public_item_of J X KWebSearch call_id arguments =
     Inr (WebSearchCall (Some call_id) (Some ''completed'')
       (Some (WsSearch (json_get_str arguments ''query'') None)))"
| "public_item_of J X KImageAnalysis call_id arguments =
     Inr (FunctionCall None analyze_image_tool_name None (to_json_string J arguments) call_id)"

definition parse_call_arguments :: "json_codec \<Rightarrow> string \<Rightarrow> string \<Rightarrow> app_error + json" where
  "parse_call_arguments J name arguments_text =
     (if trim arguments_text = [] then Inr (JObj [])
      else case from_json_str J (extract_json_arguments arguments_text) of
        Inl err \<Rightarrow> Inl (upstream_error (''failed to parse upstream tool arguments for '' @ name @
          '': '' @ err))
      | Inr v \<Rightarrow> Inr v)"

definition internal_call_of :: "string \<Rightarrow> string \<Rightarrow> json \<Rightarrow> chat_tool_call" where
  "internal_call_of call_id name arguments =
     \<lparr>tc_id = Some call_id, tc_index = Some 0, tc_kind = ''function'',
      tc_function = \<lparr>fc_name = Some name, fc_arguments = Some arguments\<rparr>\<rparr>"

text \<open>One accumulated call: a rejected call, or a resolved one, with its internal call.\<close>

definition finalize_call ::
  "json_codec \<Rightarrow> exec_decoder \<Rightarrow> uuid_supply \<Rightarrow> tool_registry \<Rightarrow> nat \<Rightarrow> tool_call_accumulator
     \<Rightarrow> app_error + (rejected_tool_call + resolved_tool_call) \<times> chat_tool_call \<times> nat" where
  "finalize_call J X U registry n acc =
     (case acc_name acc of
        None \<Rightarrow> Inl (upstream_error ''upstream tool call chunk missing function name'')
      | Some name \<Rightarrow>
          (let name_lc = ascii_lower name;
               (call_id, n1) = (case acc_id acc of
                  Some c \<Rightarrow> (c, n) | None \<Rightarrow> (''call_'' @ U n, Suc n))
           in case registry_get registry name_lc of
                None \<Rightarrow>
                  (let raw = cap_str (acc_arguments_text acc) rejected_tool_args_cap_bytes in
                   Inr (Inl \<lparr>rj_call_id = call_id, rj_name = name, rj_raw_arguments = raw,
                          rj_reason = UnknownTool\<rparr>,
                        internal_call_of call_id name (JStr raw), n1))
              | Some kind \<Rightarrow>
                  bind_res (parse_call_arguments J name (acc_arguments_text acc)) (\<lambda>arguments.
                  bind_res (public_item_of J X kind call_id arguments) (\<lambda>item.
                  let internal = internal_call_of call_id name
                        (tool_call_arguments_object (Some arguments)) in
                  Inr (Inr \<lparr>rtc_kind = kind, rtc_arguments = arguments, rtc_public_item = item,
                         rtc_internal_call = internal\<rparr>, internal, n1)))))"

fun finalize_calls ::
  "json_codec \<Rightarrow> exec_decoder \<Rightarrow> uuid_supply \<Rightarrow> tool_registry \<Rightarrow> nat \<Rightarrow> tool_call_accumulator list
     \<Rightarrow> app_error + resolved_tool_call list \<times> rejected_tool_call list \<times> chat_tool_call list" where
  "finalize_calls J X U registry n [] = Inr ([], [], [])"
| "finalize_calls J X U registry n (acc # accs) =
     bind_res (finalize_call J X U registry n acc) (\<lambda>(outcome, internal, n1).
     bind_res (finalize_calls J X U registry n1 accs) (\<lambda>(resolved, rejected, internals).
     Inr (case outcome of
            Inl r \<Rightarrow> (resolved, r # rejected, internal # internals)
          | Inr c \<Rightarrow> (c # resolved, rejected, internal # internals))))"

definition final_message_item :: "stream_state \<Rightarrow> response_item option" where
  "final_message_item st =
     (if ss_message_id st \<noteq> None
      then Some (Message (ss_message_id st) ''assistant'' [OutputText (ss_output_text st)] None)
      else None)"

definition final_reasoning_item :: "stream_state \<Rightarrow> response_item option" where
  "final_reasoning_item st =
     map_option (\<lambda>i. Reasoning i [] (Some [ReasoningText (ss_reasoning_text st)])
                       (ss_reasoning_signature st)) (ss_reasoning_id st)"

definition internal_message_of ::
  "response_item option \<Rightarrow> response_item option \<Rightarrow> chat_tool_call list \<Rightarrow> chat_message option" where
  "internal_message_of message_item reasoning_item internal_tool_calls =
     (if message_item \<noteq> None \<or> reasoning_item \<noteq> None \<or> internal_tool_calls \<noteq> []
      then Some \<lparr>cm_role = ''assistant'',
        cm_content = map_option (\<lambda>item. case item of
            Message _ _ content _ \<Rightarrow> JStr (output_text content) | _ \<Rightarrow> JNull) message_item,
        cm_tool_call_id = None, cm_name = None,
        cm_reasoning_content = map_option (\<lambda>item. case item of
            Reasoning _ _ content _ \<Rightarrow> first_reasoning_text content | _ \<Rightarrow> []) reasoning_item,
        cm_thinking = Option.bind reasoning_item (\<lambda>item. case item of
            Reasoning _ _ content encrypted \<Rightarrow>
              map_option (\<lambda>s. \<lparr>ct_content = first_reasoning_text content, ct_signature = Some s\<rparr>)
                encrypted
          | _ \<Rightarrow> None),
        cm_tool_calls = (if internal_tool_calls \<noteq> [] then Some internal_tool_calls else None)\<rparr>
      else None)"

definition finalize ::
  "json_codec \<Rightarrow> exec_decoder \<Rightarrow> uuid_supply \<Rightarrow> sstate \<Rightarrow> tool_registry
     \<Rightarrow> app_error + finalized_assistant_turn" where
  "finalize J X U s registry =
     (let (n, st) = s;
          message_item = final_message_item st;
          reasoning_item = final_reasoning_item st
      in bind_res (finalize_calls J X U registry n (map snd (ss_tool_calls st)))
           (\<lambda>(resolved, rejected, internals).
              Inr \<lparr>fin_message_item = message_item, fin_reasoning_item = reasoning_item,
                fin_tool_calls = resolved, fin_rejected_tool_calls = rejected,
                fin_internal_assistant_message =
                  internal_message_of message_item reasoning_item internals,
                fin_content_part_emitted = ss_content_part_emitted st,
                fin_reasoning_part_emitted = ss_reasoning_part_emitted st,
                fin_refusal_text = ss_refusal_text st,
                fin_finish_reason = ss_finish_reason st,
                fin_stop_sequence = ss_stop_sequence st\<rparr>))"

end
