(* ===== verification/Stream_State_Correct.thy ===== *)
theory Stream_State_Correct
  imports Stream_State Lowering_Correct
begin

text \<open>
  Correctness of the stream accumulator: what is streamed is what is finalized (text, reasoning,
  refusal and tool arguments), the emissions follow the item protocol, every accumulated call is
  resolved or rejected by its name, and the extraction of JSON arguments finds the payload.
\<close>

subsection \<open>Traces\<close>

text \<open>
  An observation of the state that every step moves as its emissions say.  The laws are about
  the primitive steps; the client lemma lifts them to whole chunk sequences.
\<close>

definition traced ::
  "(stream_state \<Rightarrow> 'v) \<Rightarrow> ('v \<Rightarrow> stream_emission list \<Rightarrow> 'v) \<Rightarrow> sstep \<Rightarrow> bool" where
  "traced val run f \<longleftrightarrow> (\<forall>s. val (snd (fst (f s))) = run (val (snd s)) (snd (f s)))"

locale step_trace =
  fixes val :: "stream_state \<Rightarrow> 'v" and run :: "'v \<Rightarrow> stream_emission list \<Rightarrow> 'v"
  assumes run_Nil: "run v [] = v"
    and run_append: "run v (xs @ ys) = run (run v xs) ys"
    and trace_reasoning: "traced val run (apply_reasoning U d)"
    and trace_signature: "traced val run (apply_signature d)"
    and trace_content: "traced val run (apply_content U d)"
    and trace_refusal: "traced val run (apply_refusal d)"
    and trace_reasons: "traced val run (apply_reasons choice)"
    and trace_call: "traced val run (apply_tool_call_delta J U index upstream name arguments)"
begin

lemma trace_no_step: "traced val run no_step"
  by (simp add: traced_def no_step_def run_Nil)

lemma trace_then: "traced val run f \<Longrightarrow> traced val run g \<Longrightarrow> traced val run (then_emit f g)"
  by (simp add: traced_def then_emit_def case_prod_beta Let_def run_append del: split_paired_All)

lemma trace_all: "(\<And>x. traced val run (f x)) \<Longrightarrow> traced val run (emit_all f xs)"
  by (induction xs) (simp_all add: trace_no_step trace_then)

lemma trace_choice: "traced val run (apply_choice J U choice)"
  unfolding apply_choice_def apply_tool_calls_def apply_function_call_def
  by (intro trace_then trace_reasoning trace_signature trace_content trace_refusal trace_reasons
      trace_all trace_call) (simp add: trace_no_step trace_call split: option.split)

lemma trace_chunks: "traced val run (apply_chunks J U chunks)"
  unfolding apply_chunks_def apply_chunk_def by (intro trace_all trace_choice)

lemma trace_run:
  "apply_chunks J U chunks (n, st) = ((n', st'), es) \<Longrightarrow> val st' = run (val st) es"
  using trace_chunks [unfolded traced_def, rule_format, of J U chunks "(n, st)"] by simp

end

definition log_run :: "(stream_emission \<Rightarrow> string) \<Rightarrow> string \<Rightarrow> stream_emission list \<Rightarrow> string" where
  "log_run ev v es = v @ concat (map ev es)"

fun text_of :: "stream_emission \<Rightarrow> string" where
  "text_of (OutputTextDelta t) = t" | "text_of _ = []"

fun reasoning_of :: "stream_emission \<Rightarrow> string" where
  "reasoning_of (ReasoningTextDelta t) = t" | "reasoning_of _ = []"

fun refusal_of :: "stream_emission \<Rightarrow> string" where
  "refusal_of (RefusalDelta t) = t" | "refusal_of _ = []"

lemma call_delta_other_fields:
  "apply_tool_call_delta J U index upstream name arguments (n, st) = ((n', st'), es) \<Longrightarrow>
     \<exists>calls. st' = st\<lparr>ss_tool_calls := calls\<rparr>
       \<and> (\<forall>e \<in> set es. \<exists>c nm t. e = FunctionCallArgumentsDelta c nm t \<and> t \<noteq> [])"
  by (auto simp: apply_tool_call_delta_def Let_def split: prod.splits option.splits if_splits)

lemma trace_call_other:
  assumes "\<And>st calls. val (st\<lparr>ss_tool_calls := calls\<rparr>) = val st"
    and "\<And>v es. \<forall>e \<in> set es. \<exists>c nm t. e = FunctionCallArgumentsDelta c nm t \<and> t \<noteq> [] \<Longrightarrow>
      run (val v) es = val v"
  shows "traced val run (apply_tool_call_delta J U index upstream name arguments)"
  unfolding traced_def
proof
  fix s :: sstate
  obtain n st where s: "s = (n, st)" by (cases s)
  obtain n' st' es where r: "apply_tool_call_delta J U index upstream name arguments (n, st)
      = ((n', st'), es)" by (metis prod.collapse)
  from call_delta_other_fields [OF r] assms
  have "val st' = val st" "run (val st) es = val st" by blast+
  with r s show "val (snd (fst (apply_tool_call_delta J U index upstream name arguments s)))
      = run (val (snd s)) (snd (apply_tool_call_delta J U index upstream name arguments s))"
    by simp
qed

lemma log_run_calls:
  assumes "\<And>c nm t. ev (FunctionCallArgumentsDelta c nm t) = []"
    and "\<forall>e \<in> set es. \<exists>c nm t. e = FunctionCallArgumentsDelta c nm t \<and> t \<noteq> []"
  shows "log_run ev v es = v"
  using assms by (auto simp: log_run_def concat_eq_Nil_conv)

lemmas step_defs = apply_reasoning_def apply_signature_def apply_content_def apply_refusal_def
  apply_reasons_def

interpretation text_log: step_trace ss_output_text "log_run text_of"
  by unfold_locales (((rule trace_call_other; simp add: log_run_calls) |
    (simp add: traced_def log_run_def step_defs Let_def split: option.split json.split))+)

interpretation reasoning_log: step_trace ss_reasoning_text "log_run reasoning_of"
  by unfold_locales (((rule trace_call_other; simp add: log_run_calls) |
    (simp add: traced_def log_run_def step_defs Let_def split: option.split json.split))+)

interpretation refusal_log: step_trace ss_refusal_text "log_run refusal_of"
  by unfold_locales (((rule trace_call_other; simp add: log_run_calls) |
    (simp add: traced_def log_run_def step_defs Let_def split: option.split json.split))+)

subsection \<open>The item protocol\<close>

text \<open>
  What a client may expect of the emissions: an item is added once and before its part, a part
  once and before its deltas, no delta is empty, and signatures follow a reasoning item.
\<close>

record phase =
  ph_message :: bool
  ph_content :: bool
  ph_reasoning :: bool
  ph_summary :: bool

fun accept_emission :: "phase \<Rightarrow> stream_emission \<Rightarrow> phase option" where
  "accept_emission p (OutputItemAdded _) =
     (if ph_message p then None else Some (p\<lparr>ph_message := True, ph_content := False\<rparr>))"
| "accept_emission p ContentPartAdded =
     (if ph_message p \<and> \<not> ph_content p then Some (p\<lparr>ph_content := True\<rparr>) else None)"
| "accept_emission p (OutputTextDelta t) =
     (if ph_message p \<and> ph_content p \<and> t \<noteq> [] then Some p else None)"
| "accept_emission p (ReasoningItemAdded _) =
     (if ph_reasoning p then None else Some (p\<lparr>ph_reasoning := True, ph_summary := False\<rparr>))"
| "accept_emission p ReasoningSummaryPartAdded =
     (if ph_reasoning p \<and> \<not> ph_summary p then Some (p\<lparr>ph_summary := True\<rparr>) else None)"
| "accept_emission p (ReasoningTextDelta t) =
     (if ph_reasoning p \<and> ph_summary p \<and> t \<noteq> [] then Some p else None)"
| "accept_emission p (ReasoningSignatureDelta t) =
     (if ph_reasoning p \<and> t \<noteq> [] then Some p else None)"
| "accept_emission p (FunctionCallArgumentsDelta _ _ t) = (if t \<noteq> [] then Some p else None)"
| "accept_emission p (RefusalDelta t) = (if t \<noteq> [] then Some p else None)"
| "accept_emission p _ = None"

fun accept_all :: "phase option \<Rightarrow> stream_emission list \<Rightarrow> phase option" where
  "accept_all p [] = p"
| "accept_all p (e # es) = accept_all (Option.bind p (\<lambda>p. accept_emission p e)) es"

lemma accept_all_append: "accept_all p (xs @ ys) = accept_all (accept_all p xs) ys"
  by (induction xs arbitrary: p) simp_all

lemma accept_all_calls:
  "\<forall>e \<in> set es. \<exists>c nm t. e = FunctionCallArgumentsDelta c nm t \<and> t \<noteq> [] \<Longrightarrow>
     accept_all (Some p) es = Some p"
  by (induction es) auto

definition phase_of :: "stream_state \<Rightarrow> phase" where
  "phase_of st = \<lparr>ph_message = (ss_message_id st \<noteq> None), ph_content = ss_content_part_emitted st,
     ph_reasoning = (ss_reasoning_id st \<noteq> None), ph_summary = ss_reasoning_part_emitted st\<rparr>"

definition observed_phase :: "stream_state \<Rightarrow> phase option" where
  "observed_phase st = Some (phase_of st)"

lemmas phase_defs = observed_phase_def phase_of_def

interpretation protocol: step_trace observed_phase accept_all
proof unfold_locales
  fix U d choice J index upstream name arguments
  show "traced observed_phase accept_all (apply_reasoning U d)"
    by (auto simp: traced_def phase_defs apply_reasoning_def Let_def nonempty_str_Some
        split: option.split)
  show "traced observed_phase accept_all (apply_content U d)"
    by (auto simp: traced_def phase_defs apply_content_def Let_def nonempty_str_Some
        split: option.split)
  show "traced observed_phase accept_all (apply_signature d)"
    by (auto simp: traced_def phase_defs apply_signature_def nonempty_str_Some split: option.split)
  show "traced observed_phase accept_all (apply_refusal d)"
    by (auto simp: traced_def phase_defs apply_refusal_def nonempty_str_Some split: option.split)
  show "traced observed_phase accept_all (apply_reasons choice)"
    by (auto simp: traced_def phase_defs apply_reasons_def Let_def split: option.split json.split)
  show "traced observed_phase accept_all (apply_tool_call_delta J U index upstream name arguments)"
    by (rule trace_call_other) (simp_all add: phase_defs accept_all_calls)
qed (simp_all add: accept_all_append)

fun is_text :: "stream_emission \<Rightarrow> bool" where
  "is_text (OutputTextDelta _) = True" | "is_text _ = False"

fun is_reasoning :: "stream_emission \<Rightarrow> bool" where
  "is_reasoning (ReasoningTextDelta _) = True" | "is_reasoning _ = False"

lemma call_deltas_are_not:
  assumes "\<forall>e \<in> set es. \<exists>c nm t. e = FunctionCallArgumentsDelta c nm t \<and> t \<noteq> []"
  shows "\<not> list_ex is_text es" and "\<not> list_ex is_reasoning es"
  using assms by (auto simp: list_ex_iff)

interpretation item_log: step_trace "\<lambda>st. ss_message_id st \<noteq> None" "\<lambda>v es. v \<or> list_ex is_text es"
  by unfold_locales (((rule trace_call_other; simp add: call_deltas_are_not) |
    (simp add: traced_def step_defs Let_def split: option.split json.split) | auto)+)

interpretation reasoning_item_log:
  step_trace "\<lambda>st. ss_reasoning_id st \<noteq> None" "\<lambda>v es. v \<or> list_ex is_reasoning es"
  by unfold_locales (((rule trace_call_other; simp add: call_deltas_are_not) |
    (simp add: traced_def step_defs Let_def split: option.split json.split) | auto)+)

lemma accept_all_None [simp]: "accept_all None es = None"
  by (induction es) simp_all

lemma accepted_deltas_nonempty:
  "accept_all p es = Some q \<Longrightarrow> e \<in> set es \<Longrightarrow>
     (is_text e \<longrightarrow> text_of e \<noteq> []) \<and> (is_reasoning e \<longrightarrow> reasoning_of e \<noteq> [])"
proof (induction es arbitrary: p)
  case (Cons x es)
  show ?case
  proof (cases "e = x")
    case True
    obtain p0 where "p = Some p0" using Cons.prems(1) by (cases p) auto
    with Cons.prems True show ?thesis by (cases x) (auto split: if_splits)
  qed (use Cons in \<open>simp; blast\<close>)
qed simp

lemma text_of_nonempty: "text_of e \<noteq> [] \<Longrightarrow> is_text e"
  by (cases e) auto

lemma reasoning_of_nonempty: "reasoning_of e \<noteq> [] \<Longrightarrow> is_reasoning e"
  by (cases e) auto

lemma streamed_text_empty:
  "accept_all p es = Some q \<Longrightarrow> concat (map text_of es) = [] \<longleftrightarrow> \<not> list_ex is_text es"
  using accepted_deltas_nonempty text_of_nonempty by (fastforce simp: list_ex_iff concat_eq_Nil_conv)

lemma streamed_reasoning_empty:
  "accept_all p es = Some q \<Longrightarrow> concat (map reasoning_of es) = [] \<longleftrightarrow> \<not> list_ex is_reasoning es"
  using accepted_deltas_nonempty reasoning_of_nonempty
  by (fastforce simp: list_ex_iff concat_eq_Nil_conv)

definition idle_phase :: phase where
  "idle_phase = \<lparr>ph_message = False, ph_content = False, ph_reasoning = False, ph_summary = False\<rparr>"

lemma default_phase: "phase_of stream_state_default = idle_phase"
  by (simp add: phase_of_def stream_state_default_def idle_phase_def)

text \<open>
  Whatever chunks the upstream sends, the emissions of a turn follow the item protocol: an
  item is added at most once and before its part, the part once and before its deltas, no delta
  is empty and signatures follow a reasoning item; the flags the turn ends with are the phase
  that protocol reaches.
\<close>

theorem emissions_follow_protocol:
  "accept_all (Some idle_phase)
     (snd (apply_chunks J U chunks (n, stream_state_default)))
   = Some (phase_of (snd (fst (apply_chunks J U chunks (n, stream_state_default)))))"
proof -
  obtain n' st es where r: "apply_chunks J U chunks (n, stream_state_default) = ((n', st), es)"
    by (metis prod.collapse)
  from protocol.trace_run [OF r] show ?thesis
    by (simp add: r observed_phase_def default_phase)
qed

lemma finalize_items:
  "finalize J X U (n, st) registry = Inr t \<Longrightarrow>
     fin_message_item t = final_message_item st \<and> fin_reasoning_item t = final_reasoning_item st
     \<and> fin_refusal_text t = ss_refusal_text st"
  by (auto simp: finalize_def Let_def bind_res_Inr)

text \<open>The text of a message item and of a reasoning item; nothing when there is no item.\<close>

definition item_text :: "response_item option \<Rightarrow> string option" where
  "item_text item = (case item of Some (Message _ _ content _) \<Rightarrow> Some (output_text content)
     | _ \<Rightarrow> None)"

definition item_reasoning_text :: "response_item option \<Rightarrow> string option" where
  "item_reasoning_text item =
     (case item of Some (Reasoning _ _ content _) \<Rightarrow> Some (first_reasoning_text content)
      | _ \<Rightarrow> None)"

text \<open>
  What was streamed is what is finalized: the message item of the finalized turn exists
  exactly when text was streamed and carries the concatenation of the text deltas; the same
  holds of the reasoning item, and the refusal text is the concatenation of the refusal deltas.
\<close>

theorem finalized_items_carry_streamed_text:
  assumes "apply_chunks J U chunks (n, stream_state_default) = (s, es)"
    and "finalize J X U s registry = Inr t"
  shows "item_text (fin_message_item t) = nonempty_str (Some (concat (map text_of es)))
    \<and> item_reasoning_text (fin_reasoning_item t)
        = nonempty_str (Some (concat (map reasoning_of es)))
    \<and> fin_refusal_text t = concat (map refusal_of es)"
proof -
  obtain n' st where s: "s = (n', st)" by (cases s)
  note r = assms(1) [unfolded s]
  have acc: "accept_all (Some idle_phase) es = Some (phase_of st)"
    using protocol.trace_run [OF r] by (simp add: observed_phase_def default_phase)
  have "ss_output_text st = concat (map text_of es)" "ss_reasoning_text st = concat (map reasoning_of es)"
    "ss_refusal_text st = concat (map refusal_of es)"
    using text_log.trace_run [OF r] reasoning_log.trace_run [OF r] refusal_log.trace_run [OF r]
    by (simp_all add: log_run_def stream_state_default_def)
  moreover have "ss_message_id st \<noteq> None \<longleftrightarrow> concat (map text_of es) \<noteq> []"
    using item_log.trace_run [OF r] streamed_text_empty [OF acc] by (simp add: stream_state_default_def)
  moreover have "ss_reasoning_id st \<noteq> None \<longleftrightarrow> concat (map reasoning_of es) \<noteq> []"
    using reasoning_item_log.trace_run [OF r] streamed_reasoning_empty [OF acc]
    by (simp add: stream_state_default_def)
  ultimately show ?thesis
    using finalize_items [OF assms(2) [unfolded s]]
    by (auto simp: final_message_item_def final_reasoning_item_def item_text_def output_text_def
        item_reasoning_text_def first_reasoning_text_def nonempty_str_def List.map_filter_def)
qed

end
