(* ===== verification/Stream_Calls_Correct.thy ===== *)
theory Stream_Calls_Correct
  imports Stream_State_Correct
begin

text \<open>
  Correctness of the tool calls of a streamed turn: the argument fragments streamed for a call
  are the text its arguments are parsed from, and finalization resolves or rejects every
  accumulated call by its name.
\<close>

subsection \<open>Argument fragments\<close>

fun args_of :: "string \<Rightarrow> stream_emission \<Rightarrow> string" where
  "args_of c (FunctionCallArgumentsDelta d _ t) = (if d = c then t else [])"
| "args_of c _ = []"

definition acc_at :: "stream_state \<Rightarrow> nat \<Rightarrow> tool_call_accumulator" where
  "acc_at st i = (case obj_get (ss_tool_calls st) i of Some a \<Rightarrow> a | None \<Rightarrow> accumulator_default)"

lemma ensure_call_id_effect:
  "ensure_call_id U n acc up = (c, acc', n') \<Longrightarrow>
     acc_id acc' = Some c \<and> acc_arguments_text acc' = acc_arguments_text acc
     \<and> acc_name acc' = acc_name acc \<and> (acc_id acc \<noteq> None \<longrightarrow> acc_id acc = Some c)"
  by (auto simp: ensure_call_id_def Let_def split: option.splits)

lemma argument_fragment_extends:
  "\<exists>frag. append_argument_fragment J buffer v = buffer @ frag"
  by (cases v) (simp_all add: append_argument_fragment_def)

text \<open>The effect of one call delta on the accumulators and on what is emitted.\<close>

lemma call_delta_effect:
  assumes "apply_tool_call_delta J U j up name arguments (n, st) = ((n', st'), es)"
  shows "\<exists>frag. (\<forall>k. k \<noteq> j \<longrightarrow> acc_at st' k = acc_at st k)
    \<and> (acc_id (acc_at st j) \<noteq> None \<longrightarrow> acc_id (acc_at st' j) = acc_id (acc_at st j))
    \<and> acc_arguments_text (acc_at st' j) = acc_arguments_text (acc_at st j) @ frag
    \<and> (es = [] \<and> frag = []
       \<or> (\<exists>d nm. acc_id (acc_at st' j) = Some d \<and> es = [FunctionCallArgumentsDelta d nm frag]))"
proof -
  define e where "e = acc_at st j"
  define e1 where "e1 = (case name of Some nm \<Rightarrow> e\<lparr>acc_name := Some nm\<rparr> | None \<Rightarrow> e)"
  obtain e2 n2 where e2: "(if up \<noteq> None \<and> acc_id e1 = None
      then snd (ensure_call_id U n e1 up) else (e1, n)) = (e2, n2)" by (metis prod.collapse)
  have e1: "acc_id e1 = acc_id e" "acc_arguments_text e1 = acc_arguments_text e"
    by (simp_all add: e1_def split: option.split)
  have k2: "acc_id e \<noteq> None \<longrightarrow> acc_id e2 = acc_id e" "acc_arguments_text e2 = acc_arguments_text e"
    using e2 e1 ensure_call_id_effect [of U n e1 up "fst (ensure_call_id U n e1 up)" e2 n2]
    by (cases "up \<noteq> None \<and> acc_id e1 = None"; cases "ensure_call_id U n e1 up"; auto)+
  note unf = assms [unfolded apply_tool_call_delta_def Let_def prod.case
      e2 [unfolded e1_def e_def acc_at_def]]
  show ?thesis
  proof (cases arguments)
    case None
    with unf have "st' = st\<lparr>ss_tool_calls := obj_insert j e2 (ss_tool_calls st)\<rparr>" "es = []"
      by (simp_all add: e2)
    then show ?thesis using k2 by (simp add: acc_at_def obj_get_insert e_def)
  next
    case (Some args)
    obtain c e3 n3 where e3: "ensure_call_id U n2 e2 up = (c, e3, n3)" by (metis prod.collapse)
    obtain frag where frag: "append_argument_fragment J (acc_arguments_text e3) args
        = acc_arguments_text e3 @ frag" using argument_fragment_extends by blast
    from unf have st': "st' = st\<lparr>ss_tool_calls := obj_insert j
        (e3\<lparr>acc_arguments_text := acc_arguments_text e3 @ frag\<rparr>) (ss_tool_calls st)\<rparr>"
      and es: "es = (if frag \<noteq> [] then [FunctionCallArgumentsDelta c (acc_name e3) frag] else [])"
      by (simp_all add: Some e2 e3 frag split: if_splits)
    from ensure_call_id_effect [OF e3] k2 show ?thesis
      by (intro exI [of _ frag]) (auto simp: st' es acc_at_def obj_get_insert e_def)
  qed
qed

text \<open>Call id \<open>c\<close> can only be the id of the call at index \<open>i\<close>.\<close>

definition owns :: "string \<Rightarrow> nat \<Rightarrow> stream_state \<Rightarrow> bool" where
  "owns c i st \<longleftrightarrow> acc_id (acc_at st i) \<in> {None, Some c}
     \<and> (\<forall>j. j \<noteq> i \<longrightarrow> acc_id (acc_at st j) \<noteq> Some c)"

definition args_traced :: "string \<Rightarrow> nat \<Rightarrow> sstep \<Rightarrow> bool" where
  "args_traced c i f \<longleftrightarrow> (\<forall>s. owns c i (snd (fst (f s))) \<longrightarrow> owns c i (snd s)
     \<and> acc_arguments_text (acc_at (snd (fst (f s))) i)
         = acc_arguments_text (acc_at (snd s) i) @ concat (map (args_of c) (snd (f s))))"

lemma args_no_step: "args_traced c i no_step"
  by (simp add: args_traced_def no_step_def)

lemma args_then: "args_traced c i f \<Longrightarrow> args_traced c i g \<Longrightarrow> args_traced c i (then_emit f g)"
proof -
  assume f: "args_traced c i f" and g: "args_traced c i g"
  have "owns c i (snd (fst (then_emit f g s))) \<longrightarrow> owns c i (snd s)
     \<and> acc_arguments_text (acc_at (snd (fst (then_emit f g s))) i)
         = acc_arguments_text (acc_at (snd s) i) @ concat (map (args_of c) (snd (then_emit f g s)))"
    for s
    using f [unfolded args_traced_def, THEN spec, of s]
      g [unfolded args_traced_def, THEN spec, of "fst (f s)"]
    by (simp add: then_emit_def case_prod_beta Let_def)
  then show ?thesis unfolding args_traced_def by blast
qed

lemma args_all: "(\<And>x. args_traced c i (f x)) \<Longrightarrow> args_traced c i (emit_all f xs)"
  by (induction xs) (simp_all add: args_no_step args_then)

lemma args_call: "args_traced c i (apply_tool_call_delta J U j up name arguments)"
  unfolding args_traced_def
proof
  fix s :: sstate
  obtain n st where s: "s = (n, st)" by (cases s)
  obtain n' st' es where r: "apply_tool_call_delta J U j up name arguments (n, st) = ((n', st'), es)"
    by (metis prod.collapse)
  note eff = call_delta_effect [OF r]
  have "owns c i st' \<longrightarrow> owns c i st \<and> acc_arguments_text (acc_at st' i)
      = acc_arguments_text (acc_at st i) @ concat (map (args_of c) es)"
  proof
    assume o: "owns c i st'"
    show "owns c i st \<and> acc_arguments_text (acc_at st' i)
      = acc_arguments_text (acc_at st i) @ concat (map (args_of c) es)"
    proof (cases "j = i")
      case True
      with eff o show ?thesis by (auto simp: owns_def)
    next
      case False
      then have "acc_id (acc_at st' j) \<noteq> Some c" using o by (simp add: owns_def)
      moreover have "owns c i st"
        unfolding owns_def
      proof (intro conjI allI impI)
        show "acc_id (acc_at st i) \<in> {None, Some c}"
          using eff o False by (auto simp: owns_def)
        fix k assume "k \<noteq> i"
        then show "acc_id (acc_at st k) \<noteq> Some c"
          using eff o by (cases "k = j") (auto simp: owns_def)
      qed
      ultimately show ?thesis using eff False by auto
    qed
  qed
  then show "owns c i (snd (fst (apply_tool_call_delta J U j up name arguments s))) \<longrightarrow>
      owns c i (snd s) \<and> acc_arguments_text (acc_at (snd (fst (apply_tool_call_delta J U j up name
        arguments s))) i) = acc_arguments_text (acc_at (snd s) i) @
        concat (map (args_of c) (snd (apply_tool_call_delta J U j up name arguments s)))"
    by (simp add: s r)
qed

lemma args_chunks: "args_traced c i (apply_chunks J U chunks)"
proof -
  have base: "args_traced c i (apply_reasoning U d)" "args_traced c i (apply_signature d)"
    "args_traced c i (apply_content U d)" "args_traced c i (apply_refusal d)"
    "args_traced c i (apply_reasons choice)" for d choice
    by (simp_all add: args_traced_def step_defs Let_def acc_at_def owns_def
        split: option.split json.split)
  have "args_traced c i (apply_choice J U choice)" for choice
    unfolding apply_choice_def apply_tool_calls_def apply_function_call_def
    by (intro args_then base args_all args_call) (simp add: args_no_step args_call split: option.split)
  then show ?thesis
    unfolding apply_chunks_def apply_chunk_def by (intro args_all)
qed

subsection \<open>Finalization\<close>

definition known_call :: "tool_registry \<Rightarrow> chat_tool_call \<Rightarrow> bool" where
  "known_call registry call =
     (case fc_name (tc_function call) of None \<Rightarrow> False
      | Some name \<Rightarrow> registry_get registry (ascii_lower name) \<noteq> None)"

definition same_call :: "tool_call_accumulator \<Rightarrow> chat_tool_call \<Rightarrow> bool" where
  "same_call acc call \<longleftrightarrow> fc_name (tc_function call) = acc_name acc \<and> tc_id call \<noteq> None
     \<and> (acc_id acc \<noteq> None \<longrightarrow> tc_id call = acc_id acc)"

text \<open>What one accumulated call finalizes to.\<close>

lemma finalize_call_cases:
  assumes "finalize_call J X U registry n acc = Inr (outcome, internal, n')"
  shows "same_call acc internal \<and>
    (case outcome of
       Inl r \<Rightarrow> \<not> known_call registry internal \<and> tc_id internal = Some (rj_call_id r)
         \<and> acc_name acc = Some (rj_name r)
     | Inr r \<Rightarrow> known_call registry internal \<and> rtc_internal_call r = internal
         \<and> (\<exists>name. acc_name acc = Some name \<and> registry_get registry (ascii_lower name) = Some (rtc_kind r)
            \<and> parse_call_arguments J name (acc_arguments_text acc) = Inr (rtc_arguments r)))"
proof (cases "acc_name acc")
  case None
  with assms show ?thesis by (simp add: finalize_call_def)
next
  case name: (Some name)
  obtain call_id n1 where id: "(case acc_id acc of Some c \<Rightarrow> (c, n) | None \<Rightarrow> (''call_'' @ U n, Suc n))
      = (call_id, n1)" by (metis prod.collapse)
  then have cid: "acc_id acc \<noteq> None \<longrightarrow> acc_id acc = Some call_id" by (auto split: option.splits)
  show ?thesis
  proof (cases "registry_get registry (ascii_lower name)")
    case None
    with assms name id cid show ?thesis
      by (auto simp: finalize_call_def Let_def same_call_def known_call_def internal_call_of_def)
  next
    case (Some kind)
    with assms name id cid show ?thesis
      by (auto simp: finalize_call_def Let_def same_call_def known_call_def internal_call_of_def
          bind_res_Inr)
  qed
qed

lemma finalize_calls_partition:
  assumes "finalize_calls J X U registry n accs = Inr (resolved, rejected, internals)"
  shows "list_all2 same_call accs internals
    \<and> map rtc_internal_call resolved = filter (known_call registry) internals
    \<and> map (\<lambda>r. (Some (rj_call_id r), Some (rj_name r))) rejected
        = map (\<lambda>c. (tc_id c, fc_name (tc_function c)))
            (filter (\<lambda>c. \<not> known_call registry c) internals)"
  using assms
proof (induction accs arbitrary: n resolved rejected internals)
  case (Cons acc accs)
  obtain outcome internal n1 res rej ints where
    one: "finalize_call J X U registry n acc = Inr (outcome, internal, n1)"
    and rest: "finalize_calls J X U registry n1 accs = Inr (res, rej, ints)"
    and out: "(resolved, rejected, internals) = (case outcome of
        Inl r \<Rightarrow> (res, r # rej, internal # ints) | Inr c \<Rightarrow> (c # res, rej, internal # ints))"
    using Cons.prems by (auto simp: bind_res_Inr)
  from finalize_call_cases [OF one] Cons.IH [OF rest] out show ?case
    by (cases outcome) (auto simp: same_call_def)
qed simp

lemma finalize_calls_resolves:
  assumes "finalize_calls J X U registry n accs = Inr (resolved, rejected, internals)"
    and "acc \<in> set accs" and "acc_id acc = Some c" and "acc_name acc = Some name"
    and "registry_get registry (ascii_lower name) = Some kind"
  shows "\<exists>r \<in> set resolved. rtc_kind r = kind \<and> tc_id (rtc_internal_call r) = Some c
    \<and> parse_call_arguments J name (acc_arguments_text acc) = Inr (rtc_arguments r)"
  using assms(1, 2)
proof (induction accs arbitrary: n resolved rejected internals)
  case (Cons a accs)
  obtain outcome internal n1 res rej ints where
    one: "finalize_call J X U registry n a = Inr (outcome, internal, n1)"
    and rest: "finalize_calls J X U registry n1 accs = Inr (res, rej, ints)"
    and out: "(resolved, rejected, internals) = (case outcome of
        Inl r \<Rightarrow> (res, r # rej, internal # ints) | Inr c \<Rightarrow> (c # res, rej, internal # ints))"
    using Cons.prems by (auto simp: bind_res_Inr)
  show ?case
  proof (cases "a = acc")
    case True
    with finalize_call_cases [OF one] assms(3-5) out show ?thesis
      by (cases outcome) (auto simp: same_call_def known_call_def)
  next
    case False
    with Cons.prems(2) Cons.IH [OF rest] out show ?thesis by (cases outcome) auto
  qed
qed simp

lemma obj_get_in_set: "obj_get m k = Some v \<Longrightarrow> (k, v) \<in> set m"
  by (induction m k rule: obj_get.induct) (auto split: if_splits)

text \<open>
  C12: the arguments a tool call is executed with are those the client saw streamed: for an
  offered call whose id no other call bears, the concatenation of the argument fragments streamed
  under that id is the text the arguments of the resolved call are parsed from.
\<close>

theorem resolved_arguments_are_streamed:
  assumes "apply_chunks J U chunks (n, stream_state_default) = ((n', st), es)"
    and "obj_get (ss_tool_calls st) i = Some acc" and "acc_id acc = Some c" and "owns c i st"
    and "acc_name acc = Some name" and "registry_get registry (ascii_lower name) = Some kind"
    and "finalize J X U (n', st) registry = Inr t"
  shows "\<exists>r \<in> set (fin_tool_calls t). rtc_kind r = kind \<and> tc_id (rtc_internal_call r) = Some c
    \<and> parse_call_arguments J name (concat (map (args_of c) es)) = Inr (rtc_arguments r)"
proof -
  have "acc_arguments_text (acc_at st i) = concat (map (args_of c) es)"
    using args_chunks [unfolded args_traced_def, THEN spec, of c i J U chunks "(n, stream_state_default)"]
      assms(1, 4) by (simp add: acc_at_def stream_state_default_def accumulator_default_def)
  then have args: "acc_arguments_text acc = concat (map (args_of c) es)"
    by (simp add: acc_at_def assms(2))
  obtain rejected internals where
    "finalize_calls J X U registry n' (map snd (ss_tool_calls st))
      = Inr (fin_tool_calls t, rejected, internals)"
    using assms(7) by (auto simp: finalize_def Let_def bind_res_Inr)
  moreover have "acc \<in> set (map snd (ss_tool_calls st))"
    using obj_get_in_set [OF assms(2)] by force
  ultimately show ?thesis
    using finalize_calls_resolves assms(3, 5, 6) args by metis
qed

text \<open>
  Finalization loses no call: the internal assistant message lists one call per accumulated
  call, in index order, with its name and its id; the resolved calls are exactly those whose
  lower-cased name is registered and the rejected ones are the others, each in the same order.
\<close>

theorem finalize_partitions_calls:
  assumes "finalize J X U (n, st) registry = Inr t"
  shows "\<exists>internals. list_all2 same_call (map snd (ss_tool_calls st)) internals
    \<and> map rtc_internal_call (fin_tool_calls t) = filter (known_call registry) internals
    \<and> map (\<lambda>r. (Some (rj_call_id r), Some (rj_name r))) (fin_rejected_tool_calls t)
        = map (\<lambda>c. (tc_id c, fc_name (tc_function c)))
            (filter (\<lambda>c. \<not> known_call registry c) internals)
    \<and> Option.bind (fin_internal_assistant_message t) cm_tool_calls
        = (if internals = [] then None else Some internals)"
proof -
  obtain internals where
    f: "finalize_calls J X U registry n (map snd (ss_tool_calls st))
      = Inr (fin_tool_calls t, fin_rejected_tool_calls t, internals)"
    and m: "fin_internal_assistant_message t
      = internal_message_of (final_message_item st) (final_reasoning_item st) internals"
    using assms by (auto simp: finalize_def Let_def bind_res_Inr)
  have "Option.bind (fin_internal_assistant_message t) cm_tool_calls
      = (if internals = [] then None else Some internals)"
    by (simp add: m internal_message_of_def)
  with finalize_calls_partition [OF f] show ?thesis by blast
qed

text \<open>When a call can be finalized.\<close>

definition call_finalizable ::
  "json_codec \<Rightarrow> exec_decoder \<Rightarrow> tool_registry \<Rightarrow> tool_call_accumulator \<Rightarrow> bool" where
  "call_finalizable J X registry acc =
     (case acc_name acc of None \<Rightarrow> False
      | Some name \<Rightarrow> (case registry_get registry (ascii_lower name) of
          None \<Rightarrow> True
        | Some kind \<Rightarrow> (case parse_call_arguments J name (acc_arguments_text acc) of
            Inl _ \<Rightarrow> False
          | Inr arguments \<Rightarrow> kind = KLocalShell \<longrightarrow> is_ok (X arguments))))"

lemma public_item_ok: "is_ok (public_item_of J X kind c v) \<longleftrightarrow> (kind = KLocalShell \<longrightarrow> is_ok (X v))"
  by (cases kind) (auto simp: is_ok_def split: sum.splits)

lemma public_item_error: "public_item_of J X kind c v = Inl e \<Longrightarrow> err_status e = 502"
  by (cases kind) (auto simp: upstream_error_def split: sum.splits)

lemma finalize_call_result:
  "case finalize_call J X U registry n acc of
     Inl e \<Rightarrow> err_status e = 502 \<and> \<not> call_finalizable J X registry acc
   | Inr _ \<Rightarrow> call_finalizable J X registry acc"
proof (cases "acc_name acc")
  case None
  then show ?thesis by (simp add: finalize_call_def call_finalizable_def upstream_error_def)
next
  case name: (Some name)
  obtain call_id n1 where id: "(case acc_id acc of Some c \<Rightarrow> (c, n) | None \<Rightarrow> (''call_'' @ U n, Suc n))
      = (call_id, n1)" by (metis prod.collapse)
  show ?thesis
  proof (cases "registry_get registry (ascii_lower name)")
    case None
    with name id show ?thesis by (simp add: finalize_call_def call_finalizable_def Let_def)
  next
    case kind: (Some kind)
    show ?thesis
    proof (cases "parse_call_arguments J name (acc_arguments_text acc)")
      case (Inl e)
      moreover from this have "err_status e = 502"
        by (auto simp: parse_call_arguments_def upstream_error_def split: if_splits sum.splits)
      ultimately show ?thesis
        using name id kind by (simp add: finalize_call_def call_finalizable_def Let_def)
    next
      case v: (Inr v)
      show ?thesis
        using public_item_ok [of J X kind call_id v] public_item_error [of J X kind call_id v]
        by (cases "public_item_of J X kind call_id v")
          (simp_all add: name id kind v finalize_call_def call_finalizable_def Let_def
            del: public_item_of.simps)
    qed
  qed
qed

text \<open>
  Finalization fails exactly when some accumulated call has no name, or is an offered call
  whose arguments do not parse or, for the local shell, do not decode; an unknown tool name
  never makes it fail, and every failure is a 502.
\<close>

theorem finalize_errors_exactly:
  "case finalize J X U (n, st) registry of
     Inl e \<Rightarrow> err_status e = 502
       \<and> \<not> list_all (call_finalizable J X registry) (map snd (ss_tool_calls st))
   | Inr _ \<Rightarrow> list_all (call_finalizable J X registry) (map snd (ss_tool_calls st))"
proof -
  have calls: "case finalize_calls J X U registry n accs of
      Inl e \<Rightarrow> err_status e = 502 \<and> \<not> list_all (call_finalizable J X registry) accs
    | Inr _ \<Rightarrow> list_all (call_finalizable J X registry) accs" for n accs
  proof (induction accs arbitrary: n)
    case (Cons acc accs)
    show ?case
    proof (cases "finalize_call J X U registry n acc")
      case (Inl e)
      with finalize_call_result [where J = J and X = X and registry = registry and acc = acc and U = U and n = n] show ?thesis by simp
    next
      case (Inr out)
      obtain outcome internal n1 where out: "out = (outcome, internal, n1)" by (cases out)
      from finalize_call_result [where J = J and X = X and registry = registry and acc = acc and U = U and n = n] Inr Cons.IH [where n = n1] show ?thesis
        by (cases "finalize_calls J X U registry n1 accs") (simp_all add: out case_prod_beta)
    qed
  qed simp
  show ?thesis
    using calls [where n = n and accs = "map snd (ss_tool_calls st)"]
    by (cases "finalize_calls J X U registry n (map snd (ss_tool_calls st))")
      (simp_all add: finalize_def Let_def case_prod_beta)
qed

subsection \<open>Extraction of the JSON payload\<close>

text \<open>
  A reference grammar of what the scanner must recognise: texts in which the brackets of one
  kind are balanced outside string literals.
\<close>

inductive string_body :: "string \<Rightarrow> bool" where
  sb_end: "string_body []"
| sb_char: "string_body b \<Longrightarrow> ch \<noteq> CHR 0x22 \<Longrightarrow> ch \<noteq> CHR 0x5C \<Longrightarrow> string_body (ch # b)"
| sb_escape: "string_body b \<Longrightarrow> string_body (CHR 0x5C # ch # b)"

inductive balanced :: "char \<Rightarrow> char \<Rightarrow> string \<Rightarrow> bool" for op cl where
  bal_end: "balanced op cl []"
| bal_char: "balanced op cl s \<Longrightarrow> ch \<notin> {op, cl, CHR 0x22} \<Longrightarrow> balanced op cl (ch # s)"
| bal_string: "string_body b \<Longrightarrow> balanced op cl s \<Longrightarrow>
     balanced op cl (CHR 0x22 # b @ CHR 0x22 # s)"
| bal_nest: "balanced op cl s \<Longrightarrow> balanced op cl t \<Longrightarrow> balanced op cl (op # s @ cl # t)"

lemma scan_string:
  "string_body b \<Longrightarrow>
     scan_json op cl \<lparr>as_depth = d, as_in_str = True, as_escaped = False\<rparr> idx (b @ CHR 0x22 # rest)
     = scan_json op cl \<lparr>as_depth = d, as_in_str = False, as_escaped = False\<rparr>
         (idx + length b + 1) rest"
  by (induction b arbitrary: idx rule: string_body.induct) simp_all

lemma scan_balanced:
  assumes "balanced op cl s" and "op \<noteq> cl" "op \<noteq> CHR 0x22" "cl \<noteq> CHR 0x22"
  shows "scan_json op cl \<lparr>as_depth = Suc d, as_in_str = False, as_escaped = False\<rparr> idx (s @ rest)
    = scan_json op cl \<lparr>as_depth = Suc d, as_in_str = False, as_escaped = False\<rparr>
        (idx + length s) rest"
  using assms(1)
proof (induction s arbitrary: d idx rest rule: balanced.induct)
  case (bal_string b s)
  then show ?case by (simp add: scan_string ac_simps)
next
  case (bal_nest s t)
  then show ?case using assms(2-4) by (simp add: Let_def ac_simps)
qed simp_all

text \<open>
  The extraction of tool-call arguments finds the payload: whatever text without a bracket
  precedes a balanced JSON object or array and whatever follows it, brackets inside its string
  literals included, exactly that object or array is returned.
\<close>

theorem extract_json_finds_payload:
  assumes "list_all (\<lambda>ch. \<not> is_open_bracket ch) pre"
    and "(op, cl) \<in> {(CHR ''{'', CHR ''}''), (CHR ''['', CHR '']'')}"
    and "balanced op cl body"
  shows "extract_json_arguments (pre @ op # body @ cl # post) = op # body @ [cl]"
proof -
  have opb: "is_open_bracket op" using assms(2) by (auto simp: is_open_bracket_def)
  with assms(1) have dw: "dropWhile (\<lambda>c. \<not> is_open_bracket c) (pre @ op # body @ cl # post)
      = op # body @ cl # post"
    by (induction pre) simp_all
  have ne: "op \<noteq> cl" "op \<noteq> CHR 0x22" "cl \<noteq> CHR 0x22" using assms(2) by auto
  have close: "(if op = CHR ''{'' then CHR ''}'' else CHR '']'') = cl" using assms(2) by auto
  have "scan_json op cl \<lparr>as_depth = 0, as_in_str = False, as_escaped = False\<rparr> 0
      (op # body @ cl # post) = Some (Suc (Suc (length body)))"
    using scan_balanced [OF assms(3) ne, of 0 1 "cl # post"] ne by (simp add: Let_def)
  then show ?thesis
    by (simp add: extract_json_arguments_def dw close)
qed

theorem extract_json_finds_payload_witness:
  "extract_json_arguments (''<|call|>'' @ CHR ''{'' # ([CHR 0x22] @ ''}'' @ [CHR 0x22]) @ CHR ''}'' # ''<|end|>'')
    = CHR ''{'' # ([CHR 0x22] @ ''}'' @ [CHR 0x22]) @ [CHR ''}'']"
proof (rule extract_json_finds_payload)
  have "balanced (CHR ''{'') (CHR ''}'') (CHR 0x22 # ''}'' @ CHR 0x22 # [])"
    by (rule bal_string) (simp_all add: sb_end sb_char bal_end)
  then show "balanced (CHR ''{'') (CHR ''}'') ([CHR 0x22] @ ''}'' @ [CHR 0x22])" by simp
qed (simp_all add: is_open_bracket_def)

subsection \<open>Capping\<close>

lemma boundary_below: "boundary_below s e \<le> e \<and> is_char_boundary s (boundary_below s e)
    \<and> (\<forall>k. k \<le> e \<longrightarrow> is_char_boundary s k \<longrightarrow> k \<le> boundary_below s e)"
proof (induction e)
  case (Suc e)
  then show ?case by (auto simp: le_Suc_eq)
qed (simp add: is_char_boundary_def)

text \<open>
  Capping the arguments of a rejected call keeps a text that fits as it is and otherwise cuts
  it at the largest character boundary within the cap, so that never a UTF-8 sequence is split,
  and reports how many bytes were dropped.
\<close>

theorem cap_str_cuts_at_boundary:
  "if length s \<le> cap then cap_str s cap = s
   else \<exists>e. e = Max {k. k \<le> cap \<and> is_char_boundary s k} \<and> is_char_boundary s e
     \<and> cap_str s cap = take e s @ ellipsis_char @ ''[truncated '' @ show_nat (length s - e) @ '' bytes]''"
proof -
  have "boundary_below s cap = Max {k. k \<le> cap \<and> is_char_boundary s k}"
    using boundary_below [of s cap] by (intro Max_eqI [symmetric]) auto
  with boundary_below [of s cap] show ?thesis
    by (auto simp: cap_str_def Let_def)
qed

subsection \<open>A concrete turn\<close>

definition sample_delta :: "string option \<Rightarrow> chat_tool_call list option \<Rightarrow> chat_delta" where
  "sample_delta content calls = \<lparr>cd_content = content, cd_reasoning_content = None,
     cd_tool_calls = calls, cd_function_call = None, cd_refusal = None, cd_extra = []\<rparr>"

definition sample_chunk :: "string option \<Rightarrow> chat_tool_call list option \<Rightarrow> chat_completion_chunk" where
  "sample_chunk content calls = \<lparr>chunk_id = ''x'', chunk_choices =
     [\<lparr>cc_index = 0, cc_delta = sample_delta content calls, cc_finish_reason = None,
       cc_stop_reason = None\<rparr>], chunk_usage_of = None\<rparr>"

definition sample_fragment :: "string option \<Rightarrow> string option \<Rightarrow> string \<Rightarrow> chat_tool_call" where
  "sample_fragment i name t = \<lparr>tc_id = i, tc_index = Some 0, tc_kind = ''function'',
     tc_function = \<lparr>fc_name = name, fc_arguments = Some (JStr t)\<rparr>\<rparr>"

definition sample_chunks :: "chat_completion_chunk list" where
  "sample_chunks = [sample_chunk (Some ''hi'') None,
     sample_chunk None (Some [sample_fragment (Some ''c1'') (Some ''lookup'') ''{'']),
     sample_chunk None (Some [sample_fragment None None ''}''])]"

definition sample_uuids :: uuid_supply where
  "sample_uuids n = show_nat n"

definition sample_exec :: exec_decoder where
  "sample_exec v = Inl ''no''"

definition sample_registry :: tool_registry where
  "sample_registry = [''lookup'' \<mapsto> KFunction ''lookup'' None]"

definition sample_emissions :: "stream_emission list" where
  "sample_emissions = [OutputItemAdded (Message (Some ''msg_0'') ''assistant'' [OutputText []] None),
     ContentPartAdded, OutputTextDelta ''hi'',
     FunctionCallArgumentsDelta ''c1'' (Some ''lookup'') ''{'',
     FunctionCallArgumentsDelta ''c1'' (Some ''lookup'') ''}'']"

definition sample_state :: stream_state where
  "sample_state = stream_state_default\<lparr>ss_message_id := Some ''msg_0'', ss_output_text := ''hi'',
     ss_content_part_emitted := True, ss_tool_calls :=
       [(0, \<lparr>acc_id = Some ''c1'', acc_name = Some ''lookup'', acc_arguments_text = ''{}''\<rparr>)]\<rparr>"

lemma sample_run: "apply_chunks sample_codec sample_uuids sample_chunks (0, stream_state_default)
    = ((1, sample_state), sample_emissions)"
  by code_simp

lemma sample_finalize: "is_ok (finalize sample_codec sample_exec sample_uuids (1, sample_state)
    sample_registry)"
  using finalize_errors_exactly [where J = sample_codec and X = sample_exec and U = sample_uuids
      and n = 1 and st = sample_state and registry = sample_registry]
  by (auto simp: is_ok_def sample_state_def call_finalizable_def sample_registry_def
      registry_get_def parse_call_arguments_def sample_codec_def ascii_lower_def byte_lower_def
      split: sum.splits)

definition sample_final :: finalized_assistant_turn where
  "sample_final = (case finalize sample_codec sample_exec sample_uuids (1, sample_state)
     sample_registry of Inr t \<Rightarrow> t | Inl _ \<Rightarrow> undefined)"

lemma sample_final: "finalize sample_codec sample_exec sample_uuids (1, sample_state)
    sample_registry = Inr sample_final"
  using sample_finalize by (simp add: sample_final_def is_ok_def split: sum.splits)

theorem finalized_items_carry_streamed_text_witness:
  "item_text (fin_message_item sample_final)
      = nonempty_str (Some (concat (map text_of sample_emissions)))
    \<and> item_reasoning_text (fin_reasoning_item sample_final)
        = nonempty_str (Some (concat (map reasoning_of sample_emissions)))
    \<and> fin_refusal_text sample_final = concat (map refusal_of sample_emissions)"
  by (rule finalized_items_carry_streamed_text [OF sample_run sample_final])

theorem resolved_arguments_are_streamed_witness:
  "\<exists>r \<in> set (fin_tool_calls sample_final). rtc_kind r = KFunction ''lookup'' None
    \<and> tc_id (rtc_internal_call r) = Some ''c1''
    \<and> parse_call_arguments sample_codec ''lookup'' (concat (map (args_of ''c1'') sample_emissions))
        = Inr (rtc_arguments r)"
  by (rule resolved_arguments_are_streamed [OF sample_run _ _ _ _ _ sample_final,
      where i = 0 and acc = "\<lparr>acc_id = Some ''c1'', acc_name = Some ''lookup'',
        acc_arguments_text = ''{}''\<rparr>"])
    (simp_all add: sample_state_def owns_def acc_at_def accumulator_default_def sample_registry_def
      registry_get_def ascii_lower_def byte_lower_def)

theorem finalize_partitions_calls_witness:
  "\<exists>internals. list_all2 same_call (map snd (ss_tool_calls sample_state)) internals
    \<and> map rtc_internal_call (fin_tool_calls sample_final)
        = filter (known_call sample_registry) internals
    \<and> map (\<lambda>r. (Some (rj_call_id r), Some (rj_name r))) (fin_rejected_tool_calls sample_final)
        = map (\<lambda>c. (tc_id c, fc_name (tc_function c)))
            (filter (\<lambda>c. \<not> known_call sample_registry c) internals)
    \<and> Option.bind (fin_internal_assistant_message sample_final) cm_tool_calls
        = (if internals = [] then None else Some internals)"
  by (rule finalize_partitions_calls [OF sample_final])

end
