(* ===== verification/Models_Anthropic.thy ===== *)
theory Models_Anthropic
  imports Models_Responses
begin

text \<open>
  The Anthropic Messages data model (\<^verbatim>\<open>src/src/models/anthropic.rs\<close>): requests with their
  hand-written deserializers, streamed events and the non-streamed response.
\<close>

subsection \<open>Shared constants\<close>

definition default_input_schema :: json where
  "default_input_schema = jobj [(''type'', JStr ''object'')]"

definition default_object :: json where
  "default_object = JObj []"

definition synthetic_signature_prefix :: string where
  "synthetic_signature_prefix = ''llmconduit-synthetic-v1:''"

subsection \<open>Requests\<close>

record anthropic_image_source =
  ais_kind :: string
  ais_media_type :: "string option"
  ais_data :: "string option"
  ais_url :: "string option"
  ais_file_id :: "string option"

text \<open>A tool result nests content, so the blocks are parametrized by their content.\<close>

datatype 'content anthropic_content_block =
    AbText string
  | AbImage anthropic_image_source
  | AbToolUse string string json
  | AbThinking string "string option"
  | AbRedactedThinking string
  | AbToolResult string "'content option" "bool option"
  | AbServerToolUse string string json
  | AbWebSearchToolResult string json
  | AbOther json

datatype anthropic_content =
    AcText string
  | AcBlocks "anthropic_content anthropic_content_block list"

datatype anthropic_text_block = AtbText string

datatype anthropic_system_content = AsText string | AsBlocks "anthropic_text_block list"

record anthropic_message =
  am_role :: string
  am_content :: anthropic_content

record anthropic_tool =
  at_name :: string
  at_description :: "string option"
  at_input_schema :: json

datatype anthropic_tool_choice = AtcAuto | AtcAny | AtcNone | AtcTool string

datatype anthropic_thinking = AthEnabled "nat option" | AthAdaptive "nat option" | AthDisabled

record anthropic_request =
  ar_model :: string
  ar_max_tokens :: "nat option"
  ar_system :: "anthropic_system_content option"
  ar_messages :: "anthropic_message list"
  ar_tools :: "anthropic_tool list option"
  ar_tool_choice :: "anthropic_tool_choice option"
  ar_stream :: bool
  ar_temperature :: "f64 option"
  ar_top_p :: "f64 option"
  ar_top_k :: "nat option"
  ar_stop_sequences :: "string list option"
  ar_metadata :: "json option"
  ar_thinking :: "anthropic_thinking option"
  ar_output_config :: "json option"

subsection \<open>Streamed events\<close>

record anthropic_output_tokens_details =
  aod_thinking_tokens :: nat

record anthropic_server_tool_use =
  asu_web_search_requests :: nat

record anthropic_usage =
  au_input_tokens :: "nat option"
  au_output_tokens :: "nat option"
  au_output_tokens_details :: "anthropic_output_tokens_details option"
  au_server_tool_use :: "anthropic_server_tool_use option"

record anthropic_message_start =
  ams_id :: string
  ams_kind :: string
  ams_role :: string
  ams_content :: "json list"
  ams_model :: string
  ams_stop_reason :: "json option"
  ams_stop_sequence :: "json option"
  ams_usage :: anthropic_usage

datatype anthropic_content_block_start =
    CbText string
  | CbToolUse string string json
  | CbThinking string
  | CbServerToolUse string string
  | CbWebSearchToolResult string json

datatype anthropic_delta =
    TextDelta string
  | InputJsonDelta string
  | ThinkingDelta string
  | SignatureDelta string

record anthropic_message_delta_body =
  amd_stop_reason :: "string option"
  amd_stop_sequence :: "json option"

record anthropic_error_body =
  aeb_kind :: string
  aeb_message :: string

datatype anthropic_stream_event =
    MessageStart anthropic_message_start
  | ContentBlockStart nat anthropic_content_block_start
  | ContentBlockDelta nat anthropic_delta
  | ContentBlockStop nat
  | MessageDelta anthropic_message_delta_body anthropic_usage
  | MessageStop
  | Ping
  | ErrorEvent anthropic_error_body

fun sse_event_type :: "anthropic_stream_event \<Rightarrow> string" where
  "sse_event_type (MessageStart _) = ''message_start''"
| "sse_event_type (ContentBlockStart _ _) = ''content_block_start''"
| "sse_event_type (ContentBlockDelta _ _) = ''content_block_delta''"
| "sse_event_type (ContentBlockStop _) = ''content_block_stop''"
| "sse_event_type (MessageDelta _ _) = ''message_delta''"
| "sse_event_type MessageStop = ''message_stop''"
| "sse_event_type Ping = ''ping''"
| "sse_event_type (ErrorEvent _) = ''error''"

subsection \<open>Non-streamed responses\<close>

record anthropic_message_usage =
  amu_input_tokens :: nat
  amu_output_tokens :: nat
  amu_output_tokens_details :: "anthropic_output_tokens_details option"

datatype anthropic_response_content_block =
    RbText string
  | RbThinking string "string option"
  | RbToolUse string string json
  | RbServerToolUse string string json
  | RbWebSearchToolResult string json

record anthropic_message_response =
  amr_id :: string
  amr_kind :: string
  amr_role :: string
  amr_content :: "anthropic_response_content_block list"
  amr_model :: string
  amr_stop_reason :: string
  amr_stop_sequence :: "json option"
  amr_usage :: anthropic_message_usage

end
