(* ===== verification/Anthropic_Stream.thy ===== *)
theory Anthropic_Stream
  imports Models_Anthropic
begin

text \<open>
  The converter from canonical Responses events to Anthropic stream events
  (\<^verbatim>\<open>src/src/adapters/responses_to_anthropic/mod.rs\<close> and \<^verbatim>\<open>reasoning.rs\<close>).  Every method that
  pushes to the output vector is a step of the converter state that returns what it pushed.
  The hex SHA-256 digest and JSON printing are the parameters \<open>sha\<close> and \<open>J\<close>; the message id,
  a random UUID, is an argument of the constructor.
\<close>

subsection \<open>Deferred reasoning\<close>

record reasoning_egress_state =
  rg_reasoning_buffer :: "string list"
  rg_reasoning_signature :: "string option"
  rg_content_started :: bool
  rg_has_tool_calls :: bool

definition reasoning_egress_default :: reasoning_egress_state where
  "reasoning_egress_default = \<lparr>rg_reasoning_buffer = [], rg_reasoning_signature = None,
     rg_content_started = False, rg_has_tool_calls = False\<rparr>"

definition has_buffered :: "reasoning_egress_state \<Rightarrow> bool" where
  "has_buffered r = (rg_reasoning_buffer r \<noteq> [] \<or> rg_reasoning_signature r \<noteq> None)"

definition is_late_reasoning :: "reasoning_egress_state \<Rightarrow> bool" where
  "is_late_reasoning r = rg_content_started r"

definition note_content_started :: "reasoning_egress_state \<Rightarrow> reasoning_egress_state" where
  "note_content_started r = r\<lparr>rg_content_started := True\<rparr>"

definition note_tool_calls :: "reasoning_egress_state \<Rightarrow> reasoning_egress_state" where
  "note_tool_calls r = r\<lparr>rg_has_tool_calls := True\<rparr>"

definition push_reasoning :: "string \<Rightarrow> reasoning_egress_state \<Rightarrow> reasoning_egress_state" where
  "push_reasoning delta r = r\<lparr>rg_reasoning_buffer := rg_reasoning_buffer r @ [delta]\<rparr>"

definition push_signature :: "string \<Rightarrow> reasoning_egress_state \<Rightarrow> reasoning_egress_state" where
  "push_signature signature r = r\<lparr>rg_reasoning_signature := Some
     ((case rg_reasoning_signature r of Some s \<Rightarrow> s | None \<Rightarrow> []) @ signature)\<rparr>"

definition should_promote :: "bool \<Rightarrow> reasoning_egress_state \<Rightarrow> bool" where
  "should_promote clean_stop r =
     (clean_stop \<and> \<not> rg_content_started r \<and> \<not> rg_has_tool_calls r
      \<and> rg_reasoning_signature r = None)"

definition take_buffer :: "reasoning_egress_state \<Rightarrow> string \<times> reasoning_egress_state" where
  "take_buffer r = (concat (rg_reasoning_buffer r), r\<lparr>rg_reasoning_buffer := []\<rparr>)"

definition take_signature :: "reasoning_egress_state \<Rightarrow> string option \<times> reasoning_egress_state" where
  "take_signature r = (rg_reasoning_signature r, r\<lparr>rg_reasoning_signature := None\<rparr>)"

subsection \<open>State\<close>

definition estimated_output_token_bytes :: nat where
  "estimated_output_token_bytes = 4"

definition web_search_tool_name :: string where
  "web_search_tool_name = ''web_search''"

definition is_hidden_server_tool :: "string \<Rightarrow> bool" where
  "is_hidden_server_tool name = (name = web_search_tool_name)"

datatype content_block_state = BText nat | BToolUse nat string

record converter =
  ac_model :: string
  ac_message_id :: string
  ac_next_block_index :: nat
  ac_open_block :: "content_block_state option"
  ac_started :: bool
  ac_completed :: bool
  ac_pending_input_tokens :: "nat option"
  ac_estimated_output_bytes :: nat
  ac_last_output_tokens :: nat
  ac_web_search_count :: nat
  ac_emitted_tool_call_ids :: "string set"
  ac_closed_tool_call_ids :: "string set"
  ac_reasoning :: reasoning_egress_state
  ac_suppress_reasoning :: bool

definition with_reasoning_suppression :: "string \<Rightarrow> string \<Rightarrow> bool \<Rightarrow> converter" where
  "with_reasoning_suppression uuid model suppress =
     \<lparr>ac_model = model, ac_message_id = ''msg_'' @ uuid, ac_next_block_index = 0,
      ac_open_block = None, ac_started = False, ac_completed = False,
      ac_pending_input_tokens = None, ac_estimated_output_bytes = 0, ac_last_output_tokens = 0,
      ac_web_search_count = 0, ac_emitted_tool_call_ids = {}, ac_closed_tool_call_ids = {},
      ac_reasoning = reasoning_egress_default, ac_suppress_reasoning = suppress\<rparr>"

definition converter_new :: "string \<Rightarrow> string \<Rightarrow> converter" where
  "converter_new uuid model = with_reasoning_suppression uuid model False"

type_synonym cstep = "converter \<Rightarrow> converter \<times> anthropic_stream_event list"

text \<open>A step that only updates the state.\<close>

definition upd :: "(converter \<Rightarrow> converter) \<Rightarrow> cstep" where
  "upd f c = (f c, [])"

definition upd_reasoning ::
  "(reasoning_egress_state \<Rightarrow> reasoning_egress_state) \<Rightarrow> converter \<Rightarrow> converter" where
  "upd_reasoning f c = c\<lparr>ac_reasoning := f (ac_reasoning c)\<rparr>"

definition server_tool_use_usage :: "converter \<Rightarrow> anthropic_server_tool_use option" where
  "server_tool_use_usage c =
     (if 0 < ac_web_search_count c
      then Some \<lparr>asu_web_search_requests = ac_web_search_count c\<rparr> else None)"

subsection \<open>Blocks\<close>

definition ensure_started :: cstep where
  "ensure_started c =
     (if ac_started c then (c, [])
      else (c\<lparr>ac_started := True\<rparr>,
        [MessageStart \<lparr>ams_id = ac_message_id c, ams_kind = ''message'', ams_role = ''assistant'',
           ams_content = [], ams_model = ac_model c, ams_stop_reason = None,
           ams_stop_sequence = None,
           ams_usage = \<lparr>au_input_tokens = Some (case ac_pending_input_tokens c of
                 Some n \<Rightarrow> n | None \<Rightarrow> 0),
               au_output_tokens = Some 0, au_output_tokens_details = None,
               au_server_tool_use = None\<rparr>\<rparr>]))"

definition close_open_block :: cstep where
  "close_open_block c =
     (case ac_open_block c of
        None \<Rightarrow> (c, [])
      | Some (BText index) \<Rightarrow> (c\<lparr>ac_open_block := None\<rparr>, [ContentBlockStop index])
      | Some (BToolUse index call_id) \<Rightarrow>
          (c\<lparr>ac_open_block := None,
             ac_closed_tool_call_ids := insert call_id (ac_closed_tool_call_ids c)\<rparr>,
           [ContentBlockStop index]))"

definition record_output_delta :: "string \<Rightarrow> converter \<Rightarrow> converter" where
  "record_output_delta delta c =
     (if delta = [] then c
      else (let bytes = sat_add (ac_estimated_output_bytes c) (length delta);
                tokens = (bytes + estimated_output_token_bytes - 1) div estimated_output_token_bytes
            in c\<lparr>ac_estimated_output_bytes := bytes,
                 ac_last_output_tokens := max (ac_last_output_tokens c) tokens\<rparr>))"

definition start_text_block :: cstep where
  "start_text_block c =
     (c\<lparr>ac_next_block_index := Suc (ac_next_block_index c),
        ac_open_block := Some (BText (ac_next_block_index c))\<rparr>,
      [ContentBlockStart (ac_next_block_index c) (CbText [])])"

definition synthetic_signature :: "(string \<Rightarrow> string) \<Rightarrow> string \<Rightarrow> string" where
  "synthetic_signature sha thinking_text = synthetic_signature_prefix @ sha thinking_text"

definition emit_thinking_block :: "(string \<Rightarrow> string) \<Rightarrow> cstep" where
  "emit_thinking_block sha c =
     (let index = ac_next_block_index c;
          buffer = rg_reasoning_buffer (ac_reasoning c);
          (taken, reasoning) = take_signature ((ac_reasoning c)\<lparr>rg_reasoning_buffer := []\<rparr>);
          signature = (case taken of Some s \<Rightarrow> s | None \<Rightarrow> synthetic_signature sha (concat buffer))
      in (c\<lparr>ac_next_block_index := Suc index, ac_reasoning := reasoning\<rparr>,
          [ContentBlockStart index (CbThinking [])] @
          map (\<lambda>chunk. ContentBlockDelta index (ThinkingDelta chunk)) buffer @
          [ContentBlockDelta index (SignatureDelta signature), ContentBlockStop index]))"

definition flush_reasoning_as_thinking :: "(string \<Rightarrow> string) \<Rightarrow> cstep" where
  "flush_reasoning_as_thinking sha c =
     (if \<not> has_buffered (ac_reasoning c) then (c, [])
      else then_emit close_open_block (emit_thinking_block sha) c)"

definition emit_promoted_block :: "string \<Rightarrow> cstep" where
  "emit_promoted_block promoted c =
     (let index = ac_next_block_index c in
      (c\<lparr>ac_next_block_index := Suc index\<rparr>,
       [ContentBlockStart index (CbText []), ContentBlockDelta index (TextDelta promoted),
        ContentBlockStop index]))"

definition flush_reasoning_terminal :: "(string \<Rightarrow> string) \<Rightarrow> bool \<Rightarrow> cstep" where
  "flush_reasoning_terminal sha clean_stop c =
     (if \<not> has_buffered (ac_reasoning c) then (c, [])
      else if \<not> should_promote clean_stop (ac_reasoning c) then flush_reasoning_as_thinking sha c
      else (let (promoted, reasoning) = take_buffer (ac_reasoning c) in
            then_emit (upd (upd_reasoning (\<lambda>_. note_content_started
                (reasoning\<lparr>rg_reasoning_signature := None\<rparr>))))
              (then_emit close_open_block (emit_promoted_block promoted)) c))"

definition open_tool_block :: "string \<Rightarrow> string \<Rightarrow> cstep" where
  "open_tool_block call_id name c =
     (let index = ac_next_block_index c in
      (c\<lparr>ac_next_block_index := Suc index, ac_open_block := Some (BToolUse index call_id)\<rparr>,
       [ContentBlockStart index (CbToolUse call_id name (JObj []))]))"

definition tool_block_open :: "string \<Rightarrow> converter \<Rightarrow> bool" where
  "tool_block_open call_id c =
     (case ac_open_block c of Some (BToolUse _ open_call_id) \<Rightarrow> open_call_id = call_id | _ \<Rightarrow> False)"

definition ensure_tool_block :: "(string \<Rightarrow> string) \<Rightarrow> string \<Rightarrow> string \<Rightarrow> cstep" where
  "ensure_tool_block sha call_id name c =
     (if tool_block_open call_id c then (c, [])
      else then_emit (flush_reasoning_as_thinking sha)
             (then_emit (upd (upd_reasoning note_content_started))
             (then_emit close_open_block (open_tool_block call_id name))) c)"

text \<open>\<^verbatim>\<open>if let Some(ToolUse { index, .. }) = self.open_block { push delta; record }\<close>.\<close>

definition emit_in_tool :: "string \<Rightarrow> cstep" where
  "emit_in_tool delta c =
     (case ac_open_block c of
        Some (BToolUse index _) \<Rightarrow>
          (record_output_delta delta c, [ContentBlockDelta index (InputJsonDelta delta)])
      | _ \<Rightarrow> (c, []))"

definition emit_in_text :: "string \<Rightarrow> cstep" where
  "emit_in_text delta c =
     (case ac_open_block c of
        Some (BText index) \<Rightarrow>
          (record_output_delta delta c, [ContentBlockDelta index (TextDelta delta)])
      | _ \<Rightarrow> (c, []))"

definition mark_emitted :: "string \<Rightarrow> converter \<Rightarrow> converter" where
  "mark_emitted call_id c =
     c\<lparr>ac_emitted_tool_call_ids := insert call_id (ac_emitted_tool_call_ids c)\<rparr>"

subsection \<open>Fields of the canonical events\<close>

definition response_field :: "json \<Rightarrow> string \<Rightarrow> json option" where
  "response_field data k = Option.bind (json_get data ''response'') (\<lambda>r. json_get r k)"

definition response_estimated_input_tokens :: "json \<Rightarrow> nat option" where
  "response_estimated_input_tokens data =
     Option.bind (response_field data ''estimated_input_tokens'') as_u64"

definition response_usage_of :: "json \<Rightarrow> anthropic_message_usage option" where
  "response_usage_of data =
     Option.bind (response_field data ''usage'') (\<lambda>usage.
     Option.bind (Option.bind (json_get usage ''input_tokens'') as_u64) (\<lambda>input_tokens.
     Option.bind (Option.bind (json_get usage ''output_tokens'') as_u64) (\<lambda>output_tokens.
       let details = json_get usage ''output_tokens_details'';
           tokens = (case Option.bind details (\<lambda>d. json_get d ''reasoning_tokens'') of
                       Some v \<Rightarrow> Some v
                     | None \<Rightarrow> Option.bind details (\<lambda>d. json_get d ''thinking_tokens''))
       in Some \<lparr>amu_input_tokens = input_tokens, amu_output_tokens = output_tokens,
            amu_output_tokens_details = map_option (\<lambda>n. \<lparr>aod_thinking_tokens = n\<rparr>)
              (Option.bind tokens as_u64)\<rparr>)))"

definition response_stop_sequence :: "json \<Rightarrow> string option" where
  "response_stop_sequence data =
     nonempty_str (Option.bind (response_field data ''stop_sequence'') as_str)"

definition response_stop_reason :: "json \<Rightarrow> string option" where
  "response_stop_reason data =
     map_option (\<lambda>reason. if reason = ''max_output_tokens'' then ''max_tokens'' else reason)
       (Option.bind (response_field data ''incomplete_details'') (\<lambda>d. json_get_str d ''reason''))"

definition response_terminal_reason :: "json \<Rightarrow> terminal_reason option" where
  "response_terminal_reason data = map_option (\<lambda>reason. from_finish_reason (Some reason))
     (Option.bind (response_field data ''terminal_reason'') as_str)"

subsection \<open>Handlers\<close>

definition handle_created :: "json \<Rightarrow> cstep" where
  "handle_created data =
     then_emit (upd (\<lambda>c. if ac_pending_input_tokens c = None
                         then c\<lparr>ac_pending_input_tokens := response_estimated_input_tokens data\<rparr>
                         else c))
       ensure_started"

definition begin_text :: "(string \<Rightarrow> string) \<Rightarrow> cstep" where
  "begin_text sha =
     then_emit (flush_reasoning_as_thinking sha)
     (then_emit close_open_block
     (then_emit (upd (upd_reasoning note_content_started)) start_text_block))"

definition item_type :: "json \<Rightarrow> string" where
  "item_type item = (case json_get_str item ''type'' of Some t \<Rightarrow> t | None \<Rightarrow> [])"

definition handle_item_added :: "(string \<Rightarrow> string) \<Rightarrow> json \<Rightarrow> cstep" where
  "handle_item_added sha data =
     then_emit ensure_started
       (case json_get data ''item'' of
          None \<Rightarrow> no_step
        | Some item \<Rightarrow> (if item_type item = ''message'' then begin_text sha else no_step))"

definition handle_text_delta :: "(string \<Rightarrow> string) \<Rightarrow> json \<Rightarrow> cstep" where
  "handle_text_delta sha data =
     then_emit ensure_started
       (case json_get_str data ''delta'' of
          None \<Rightarrow> no_step
        | Some delta \<Rightarrow> (\<lambda>c.
            (case ac_open_block c of
               Some (BText _) \<Rightarrow> emit_in_text delta c
             | _ \<Rightarrow> then_emit (begin_text sha) (emit_in_text delta) c)))"

definition handle_reasoning_delta :: "json \<Rightarrow> cstep" where
  "handle_reasoning_delta data =
     then_emit ensure_started
       (case json_get_str data ''delta'' of
          None \<Rightarrow> no_step
        | Some delta \<Rightarrow> upd (\<lambda>c.
            if delta = [] then c
            else if is_late_reasoning (ac_reasoning c) then c
            else upd_reasoning (push_reasoning delta) (record_output_delta delta c)))"

definition handle_reasoning_signature_delta :: "json \<Rightarrow> cstep" where
  "handle_reasoning_signature_delta data =
     then_emit ensure_started
       (case json_get_str data ''signature'' of
          None \<Rightarrow> no_step
        | Some signature \<Rightarrow> upd (\<lambda>c.
            if signature = [] \<or> is_late_reasoning (ac_reasoning c) then c
            else upd_reasoning (push_signature signature) c))"

definition name_of :: "json \<Rightarrow> string" where
  "name_of v = (case json_get_str v ''name'' of Some n \<Rightarrow> n | None \<Rightarrow> [])"

definition stream_tool_delta :: "(string \<Rightarrow> string) \<Rightarrow> string \<Rightarrow> string \<Rightarrow> string \<Rightarrow> cstep" where
  "stream_tool_delta sha call_id name delta =
     then_emit (upd (upd_reasoning note_tool_calls))
     (then_emit (ensure_tool_block sha call_id name) (emit_in_tool delta))"

definition handle_function_call_arguments_delta :: "(string \<Rightarrow> string) \<Rightarrow> json \<Rightarrow> cstep" where
  "handle_function_call_arguments_delta sha data =
     then_emit ensure_started
       (case json_get_str data ''call_id'' of
          None \<Rightarrow> no_step
        | Some call_id \<Rightarrow> (\<lambda>c.
            if call_id \<in> ac_emitted_tool_call_ids c \<or> call_id \<in> ac_closed_tool_call_ids c
            then (c, [])
            else if is_hidden_server_tool (name_of data) then (c, [])
            else (case json_get_str data ''delta'' of
                    None \<Rightarrow> (c, [])
                  | Some delta \<Rightarrow>
                      if delta = [] then (c, [])
                      else stream_tool_delta sha call_id (name_of data) delta c)))"

definition arguments_of :: "json \<Rightarrow> string" where
  "arguments_of v = (case json_get_str v ''arguments'' of Some a \<Rightarrow> a | None \<Rightarrow> ''{}'')"

definition finish_tool_call :: "(string \<Rightarrow> string) \<Rightarrow> string \<Rightarrow> string \<Rightarrow> string \<Rightarrow> bool \<Rightarrow> cstep" where
  "finish_tool_call sha call_id name arguments skip_empty =
     then_emit (ensure_tool_block sha call_id name)
     (then_emit (if skip_empty \<and> arguments = [] then no_step else emit_in_tool arguments)
     (then_emit close_open_block (upd (mark_emitted call_id))))"

definition handle_function_call_arguments_done :: "(string \<Rightarrow> string) \<Rightarrow> json \<Rightarrow> cstep" where
  "handle_function_call_arguments_done sha data =
     then_emit ensure_started
       (case json_get_str data ''call_id'' of
          None \<Rightarrow> no_step
        | Some call_id \<Rightarrow>
            (if is_hidden_server_tool (name_of data) then no_step
             else then_emit (upd (upd_reasoning note_tool_calls)) (\<lambda>c.
               if call_id \<in> ac_emitted_tool_call_ids c then (c, [])
               else if call_id \<in> ac_closed_tool_call_ids c then (mark_emitted call_id c, [])
               else if tool_block_open call_id c
               then then_emit close_open_block (upd (mark_emitted call_id)) c
               else finish_tool_call sha call_id (name_of data) (arguments_of data) True c)))"

definition emit_tool_use_block :: "(string \<Rightarrow> string) \<Rightarrow> json \<Rightarrow> cstep" where
  "emit_tool_use_block sha item =
     (let call_id = (case json_get_str item ''call_id'' of Some i \<Rightarrow> i | None \<Rightarrow> []) in
      then_emit (upd (upd_reasoning note_tool_calls)) (\<lambda>c.
        if call_id \<in> ac_emitted_tool_call_ids c then (c, [])
        else if call_id \<in> ac_closed_tool_call_ids c then (mark_emitted call_id c, [])
        else finish_tool_call sha call_id (name_of item) (arguments_of item) False c))"

definition handle_item_done :: "(string \<Rightarrow> string) \<Rightarrow> json \<Rightarrow> cstep" where
  "handle_item_done sha data =
     (case json_get data ''item'' of
        None \<Rightarrow> no_step
      | Some item \<Rightarrow>
          (if item_type item = ''message''
           then (\<lambda>c. case ac_open_block c of Some (BText _) \<Rightarrow> close_open_block c | _ \<Rightarrow> (c, []))
           else if item_type item = ''function_call'' \<or> item_type item = ''custom_tool_call''
           then (if is_hidden_server_tool (name_of item) then no_step
                 else then_emit close_open_block (emit_tool_use_block sha item))
           else no_step))"

definition default_stop_reason :: "converter \<Rightarrow> string" where
  "default_stop_reason c = (if rg_has_tool_calls (ac_reasoning c) then ''tool_use'' else ''end_turn'')"

definition finalize_stream :: "(string \<Rightarrow> string) \<Rightarrow> cstep" where
  "finalize_stream sha c =
     (if ac_completed c then (c, [])
      else then_emit ensure_started
        (then_emit (flush_reasoning_as_thinking sha)
        (then_emit close_open_block (\<lambda>c.
          (c\<lparr>ac_completed := True\<rparr>,
           [MessageDelta
              \<lparr>amd_stop_reason = Some (default_stop_reason c), amd_stop_sequence = None\<rparr>
              \<lparr>au_input_tokens = ac_pending_input_tokens c,
               au_output_tokens = Some (ac_last_output_tokens c),
               au_output_tokens_details = None, au_server_tool_use = server_tool_use_usage c\<rparr>,
            MessageStop])))) c)"

definition stop_fields :: "json \<Rightarrow> converter \<Rightarrow> string \<times> json option" where
  "stop_fields data c =
     (case response_stop_reason data of
        Some reason \<Rightarrow> (reason, None)
      | None \<Rightarrow>
          (if rg_has_tool_calls (ac_reasoning c) then (''tool_use'', None)
           else (case response_stop_sequence data of
                   Some stop \<Rightarrow> (''stop_sequence'', Some (JStr stop))
                 | None \<Rightarrow> (''end_turn'', None))))"

definition emit_terminal :: "json \<Rightarrow> cstep" where
  "emit_terminal data c =
     (let usage = response_usage_of data;
          c1 = (case usage of
                  Some u \<Rightarrow> c\<lparr>ac_pending_input_tokens := Some (amu_input_tokens u)\<rparr> | None \<Rightarrow> c);
          output_tokens = max (case usage of Some u \<Rightarrow> amu_output_tokens u
                                 | None \<Rightarrow> ac_last_output_tokens c1) (ac_last_output_tokens c1);
          c2 = c1\<lparr>ac_last_output_tokens := output_tokens\<rparr>;
          (stop_reason, stop_sequence) = stop_fields data c2
      in (c2,
          [MessageDelta
             \<lparr>amd_stop_reason = Some stop_reason, amd_stop_sequence = stop_sequence\<rparr>
             \<lparr>au_input_tokens = map_option amu_input_tokens usage,
              au_output_tokens = Some output_tokens,
              au_output_tokens_details = Option.bind usage amu_output_tokens_details,
              au_server_tool_use = server_tool_use_usage c2\<rparr>,
           MessageStop]))"

definition clean_stop_of :: "string \<Rightarrow> json \<Rightarrow> bool" where
  "clean_stop_of event_type data =
     (case response_terminal_reason data of
        Some reason \<Rightarrow> is_clean_stop reason
      | None \<Rightarrow> event_type = ''response.completed'')"

definition handle_completed :: "(string \<Rightarrow> string) \<Rightarrow> string \<Rightarrow> json \<Rightarrow> cstep" where
  "handle_completed sha event_type data =
     then_emit (upd (\<lambda>c. c\<lparr>ac_completed := True\<rparr>))
     (then_emit (flush_reasoning_terminal sha (clean_stop_of event_type data))
     (then_emit close_open_block (emit_terminal data)))"

definition handle_failed :: "json \<Rightarrow> cstep" where
  "handle_failed data c =
     (let message = (case Option.bind (response_field data ''error'')
                            (\<lambda>e. json_get_str e ''message'') of
                       Some m \<Rightarrow> m | None \<Rightarrow> ''gateway error'')
      in (c\<lparr>ac_completed := True\<rparr>,
          [ErrorEvent \<lparr>aeb_kind = ''api_error'', aeb_message = message\<rparr>]))"

definition emit_search_blocks :: "json_codec \<Rightarrow> json \<Rightarrow> cstep" where
  "emit_search_blocks J data c =
     (let tool_use_id = (case json_get_str data ''tool_use_id'' of Some i \<Rightarrow> i | None \<Rightarrow> []);
          query = (case json_get_str data ''query'' of Some q \<Rightarrow> q | None \<Rightarrow> []);
          results = (case json_get data ''results'' of Some v \<Rightarrow> v | None \<Rightarrow> JArr []);
          i = ac_next_block_index c
      in (c\<lparr>ac_next_block_index := Suc (Suc i)\<rparr>,
          [ContentBlockStart i (CbServerToolUse tool_use_id ''web_search''),
           ContentBlockDelta i (InputJsonDelta (to_json_string J (jobj [(''query'', JStr query)]))),
           ContentBlockStop i,
           ContentBlockStart (Suc i) (CbWebSearchToolResult tool_use_id results),
           ContentBlockStop (Suc i)]))"

definition handle_web_search_results :: "json_codec \<Rightarrow> (string \<Rightarrow> string) \<Rightarrow> json \<Rightarrow> cstep" where
  "handle_web_search_results J sha data =
     then_emit ensure_started
     (then_emit (flush_reasoning_as_thinking sha)
     (then_emit close_open_block
     (then_emit (upd (\<lambda>c. c\<lparr>ac_web_search_count := ac_web_search_count c + 1\<rparr>))
       (emit_search_blocks J data))))"

definition suppressed_reasoning :: "json \<Rightarrow> cstep" where
  "suppressed_reasoning data =
     then_emit ensure_started
       (case json_get_str data ''delta'' of
          None \<Rightarrow> no_step | Some delta \<Rightarrow> upd (record_output_delta delta))"

definition convert :: "json_codec \<Rightarrow> (string \<Rightarrow> string) \<Rightarrow> sse_event \<Rightarrow> cstep" where
  "convert J sha ev =
     (let e = se_event ev; data = se_data ev in
      if e = ''response.created'' then handle_created data
      else if e = ''response.output_item.added'' then handle_item_added sha data
      else if e = ''response.output_text.delta'' then handle_text_delta sha data
      else if e = ''response.reasoning_text.delta'' \<or> e = ''response.reasoning_summary_text.delta''
      then (\<lambda>c. if ac_suppress_reasoning c then suppressed_reasoning data c
                else handle_reasoning_delta data c)
      else if e = ''response.reasoning_summary_text.signature_delta''
      then (\<lambda>c. if ac_suppress_reasoning c then (c, [])
                else handle_reasoning_signature_delta data c)
      else if e = ''response.function_call_arguments.delta''
      then handle_function_call_arguments_delta sha data
      else if e = ''response.function_call_arguments.done''
      then handle_function_call_arguments_done sha data
      else if e = ''response.output_item.done'' then handle_item_done sha data
      else if e = ''response.completed'' \<or> e = ''response.incomplete''
      then handle_completed sha e data
      else if e = ''response.failed'' then handle_failed data
      else if e = ''response.web_search_results'' then handle_web_search_results J sha data
      else no_step)"

text \<open>A whole connection: every event converted in order, then \<^verbatim>\<open>finalize\<close>.\<close>

definition convert_stream :: "json_codec \<Rightarrow> (string \<Rightarrow> string) \<Rightarrow> sse_event list \<Rightarrow> cstep" where
  "convert_stream J sha evs = then_emit (emit_all (convert J sha) evs) (finalize_stream sha)"

end
