(* ===== verification/Anthropic_Stream_Correct.thy ===== *)
theory Anthropic_Stream_Correct
  imports Anthropic_Stream
begin

text \<open>
  Correctness of the Anthropic stream converter.  The contract is an acceptor of event streams:
  one \<^verbatim>\<open>message_start\<close>, content blocks with consecutive indices that are opened, filled with
  deltas of their own kind and closed one at a time, signed thinking blocks, and one terminal
  (\<^verbatim>\<open>message_delta\<close> then \<^verbatim>\<open>message_stop\<close>, or an error).
\<close>

subsection \<open>The acceptor\<close>

datatype block_kind = KText | KTool | KThinking bool | KResult

datatype stage = Idle | Streaming | Closing | Finished

record stream_shape =
  sh_stage :: stage
  sh_next :: nat
  sh_open :: "(nat \<times> block_kind) option"

fun kind_of_start :: "anthropic_content_block_start \<Rightarrow> block_kind" where
  "kind_of_start (CbText _) = KText"
| "kind_of_start (CbToolUse _ _ _) = KTool"
| "kind_of_start (CbThinking _) = KThinking False"
| "kind_of_start (CbServerToolUse _ _) = KTool"
| "kind_of_start (CbWebSearchToolResult _ _) = KResult"

text \<open>The kind of the open block after a delta; nothing when the delta does not belong there.\<close>

fun after_delta :: "block_kind \<Rightarrow> anthropic_delta \<Rightarrow> block_kind option" where
  "after_delta KText (TextDelta _) = Some KText"
| "after_delta KTool (InputJsonDelta _) = Some KTool"
| "after_delta (KThinking b) (ThinkingDelta _) = Some (KThinking b)"
| "after_delta (KThinking b) (SignatureDelta s) = (if s \<noteq> [] then Some (KThinking True) else None)"
| "after_delta _ _ = None"

fun advance :: "stream_shape \<Rightarrow> anthropic_stream_event \<Rightarrow> stream_shape option" where
  "advance s (MessageStart _) =
     (if sh_stage s = Idle then Some (s\<lparr>sh_stage := Streaming\<rparr>) else None)"
| "advance s (ContentBlockStart i b) =
     (if sh_stage s = Streaming \<and> sh_open s = None \<and> i = sh_next s
      then Some (s\<lparr>sh_next := Suc i, sh_open := Some (i, kind_of_start b)\<rparr>) else None)"
| "advance s (ContentBlockDelta i d) =
     (case sh_open s of
        Some (j, k) \<Rightarrow>
          (if sh_stage s = Streaming \<and> i = j
           then map_option (\<lambda>k'. s\<lparr>sh_open := Some (j, k')\<rparr>) (after_delta k d) else None)
      | None \<Rightarrow> None)"
| "advance s (ContentBlockStop i) =
     (case sh_open s of
        Some (j, k) \<Rightarrow>
          (if sh_stage s = Streaming \<and> i = j \<and> k \<noteq> KThinking False
           then Some (s\<lparr>sh_open := None\<rparr>) else None)
      | None \<Rightarrow> None)"
| "advance s (MessageDelta d u) =
     (if sh_stage s = Streaming \<and> sh_open s = None \<and> amd_stop_reason d \<noteq> None
      then Some (s\<lparr>sh_stage := Closing\<rparr>) else None)"
| "advance s MessageStop = (if sh_stage s = Closing then Some (s\<lparr>sh_stage := Finished\<rparr>) else None)"
| "advance s Ping = (if sh_stage s = Streaming then Some s else None)"
| "advance s (ErrorEvent _) =
     (if sh_stage s = Streaming then Some (s\<lparr>sh_stage := Finished\<rparr>) else None)"

fun advance_all :: "stream_shape option \<Rightarrow> anthropic_stream_event list \<Rightarrow> stream_shape option" where
  "advance_all s [] = s"
| "advance_all s (e # es) = advance_all (Option.bind s (\<lambda>s. advance s e)) es"

lemma advance_all_append: "advance_all s (xs @ ys) = advance_all (advance_all s xs) ys"
  by (induction xs arbitrary: s) simp_all

definition idle_shape :: stream_shape where
  "idle_shape = \<lparr>sh_stage = Idle, sh_next = 0, sh_open = None\<rparr>"

text \<open>A well-formed stream: accepted from the start to the end.\<close>

definition stream_ok :: "anthropic_stream_event list \<Rightarrow> bool" where
  "stream_ok es = (case advance_all (Some idle_shape) es of
     Some s \<Rightarrow> sh_stage s = Finished | None \<Rightarrow> False)"

subsection \<open>What the converter promises\<close>

definition shape_of :: "converter \<Rightarrow> stream_shape" where
  "shape_of c = \<lparr>sh_stage = (if ac_started c then Streaming else Idle),
     sh_next = ac_next_block_index c,
     sh_open = (case ac_open_block c of None \<Rightarrow> None | Some (BText i) \<Rightarrow> Some (i, KText)
        | Some (BToolUse i _) \<Rightarrow> Some (i, KTool))\<rparr>"

text \<open>Signatures are never empty, nothing was completed, the stream has started.\<close>

definition live :: "converter \<Rightarrow> bool" where
  "live c \<longleftrightarrow> ac_started c \<and> rg_reasoning_signature (ac_reasoning c) \<noteq> Some []"

text \<open>A step that keeps a live converter live and emits what the acceptor takes.\<close>

definition good_step :: "cstep \<Rightarrow> bool" where
  "good_step f \<longleftrightarrow> (\<forall>c. live c \<longrightarrow> live (fst (f c)) \<and> ac_completed (fst (f c)) = ac_completed c
     \<and> advance_all (Some (shape_of c)) (snd (f c)) = Some (shape_of (fst (f c))))"

lemma good_stepD:
  "good_step f \<Longrightarrow> live c \<Longrightarrow> live (fst (f c)) \<and> ac_completed (fst (f c)) = ac_completed c
     \<and> advance_all (Some (shape_of c)) (snd (f c)) = Some (shape_of (fst (f c)))"
  by (simp add: good_step_def)

lemma good_stepI:
  "(\<And>c. live c \<Longrightarrow> live (fst (f c)) \<and> ac_completed (fst (f c)) = ac_completed c
     \<and> advance_all (Some (shape_of c)) (snd (f c)) = Some (shape_of (fst (f c)))) \<Longrightarrow> good_step f"
  by (simp add: good_step_def)

named_theorems good_steps \<open>steps that are good\<close>

lemma good_no_step [good_steps]: "good_step no_step"
  by (simp add: good_step_def no_step_def)

lemma good_then [good_steps]: "good_step f \<Longrightarrow> good_step g \<Longrightarrow> good_step (then_emit f g)"
  by (rule good_stepI) (simp add: fst_then_emit snd_then_emit advance_all_append good_stepD)

lemma good_all: "(\<And>x. x \<in> set xs \<Longrightarrow> good_step (f x)) \<Longrightarrow> good_step (emit_all f xs)"
  by (induction xs) (simp_all add: good_no_step good_then)

lemma good_if [good_steps]: "(b \<Longrightarrow> good_step f) \<Longrightarrow> (\<not> b \<Longrightarrow> good_step g) \<Longrightarrow> good_step (if b then f else g)"
  by simp

lemma good_choice [good_steps]:
  "good_step f \<Longrightarrow> good_step g \<Longrightarrow> good_step (\<lambda>c. if b c then f c else g c)"
  by (rule good_stepI) (simp add: good_stepD)

lemma good_stay [good_steps]: "good_step (\<lambda>c. (c, []))"
  by (simp add: good_step_def)

lemma good_option [good_steps]:
  "(\<And>x. good_step (f x)) \<Longrightarrow> good_step g \<Longrightarrow> good_step (case opt of None \<Rightarrow> g | Some x \<Rightarrow> f x)"
  by (cases opt) simp_all

lemma good_upd:
  "(\<And>c. live c \<Longrightarrow> live (f c) \<and> ac_completed (f c) = ac_completed c \<and> shape_of (f c) = shape_of c)
     \<Longrightarrow> good_step (upd f)"
  by (rule good_stepI) (simp add: upd_def)

lemma good_ensure_started [good_steps]: "good_step ensure_started"
  by (rule good_stepI) (simp add: ensure_started_def live_def)

lemma good_close [good_steps]: "good_step close_open_block"
  by (rule good_stepI)
    (auto simp: close_open_block_def live_def shape_of_def split: option.split content_block_state.split)

lemma closed_after_close: "ac_open_block (fst (close_open_block c)) = None"
  by (simp add: close_open_block_def split: option.split content_block_state.split)

text \<open>A step that is good once no block is open.\<close>

definition good_closed :: "cstep \<Rightarrow> bool" where
  "good_closed f \<longleftrightarrow> (\<forall>c. live c \<and> ac_open_block c = None \<longrightarrow>
     live (fst (f c)) \<and> ac_completed (fst (f c)) = ac_completed c
     \<and> advance_all (Some (shape_of c)) (snd (f c)) = Some (shape_of (fst (f c))))"

lemma good_after_close [good_steps]: "good_closed f \<Longrightarrow> good_step (then_emit close_open_block f)"
  by (rule good_stepI)
    (simp add: fst_then_emit snd_then_emit advance_all_append good_stepD [OF good_close]
      good_closed_def closed_after_close)

lemma good_closed_step [good_steps]: "good_step f \<Longrightarrow> good_closed f"
  by (simp add: good_step_def good_closed_def)

lemma live_open_None: "live c \<Longrightarrow> ac_open_block c = None \<Longrightarrow>
    shape_of c = \<lparr>sh_stage = Streaming, sh_next = ac_next_block_index c, sh_open = None\<rparr>"
  by (simp add: shape_of_def live_def)

lemma advance_thinking_deltas:
  "sh_stage s = Streaming \<Longrightarrow> sh_open s = Some (i, KThinking b) \<Longrightarrow>
     advance_all (Some s) (map (\<lambda>chunk. ContentBlockDelta i (ThinkingDelta chunk)) chunks) = Some s"
  by (induction chunks; cases s) simp_all

lemma closed_thinking [good_steps]: "good_closed (emit_thinking_block sha)"
  unfolding good_closed_def
proof (intro allI impI)
  fix c assume c: "live c \<and> ac_open_block c = None"
  obtain taken r where t: "take_signature ((ac_reasoning c)\<lparr>rg_reasoning_buffer := []\<rparr>) = (taken, r)"
    by (metis prod.collapse)
  have r: "rg_reasoning_signature r = None" "taken \<noteq> Some []"
    using t c by (auto simp: take_signature_def live_def)
  then have sig: "(case taken of Some s \<Rightarrow> s | None \<Rightarrow> synthetic_signature sha
      (concat (rg_reasoning_buffer (ac_reasoning c)))) \<noteq> []"
    by (auto simp: synthetic_signature_def synthetic_signature_prefix_def split: option.split)
  show "live (fst (emit_thinking_block sha c))
      \<and> ac_completed (fst (emit_thinking_block sha c)) = ac_completed c
      \<and> advance_all (Some (shape_of c)) (snd (emit_thinking_block sha c))
        = Some (shape_of (fst (emit_thinking_block sha c)))"
    using c r sig
    by (simp add: emit_thinking_block_def Let_def t live_open_None advance_all_append
        advance_thinking_deltas)
      (simp add: live_def shape_of_def)
qed

lemma closed_simple [good_steps]:
  "good_closed (emit_promoted_block p)" "good_closed (open_tool_block call_id name)"
  "good_closed start_text_block" "good_closed (emit_search_blocks J data)"
  by (simp_all add: good_closed_def emit_promoted_block_def open_tool_block_def start_text_block_def
      emit_search_blocks_def Let_def live_open_None) (simp_all add: live_def shape_of_def)

lemma closed_then_upd [good_steps]:
  assumes "\<And>c. ac_open_block (f c) = ac_open_block c \<and> shape_of (f c) = shape_of c
      \<and> live (f c) = live c \<and> ac_completed (f c) = ac_completed c"
    and "good_closed g"
  shows "good_closed (then_emit (upd f) g)"
  unfolding good_closed_def
proof (intro allI impI)
  fix c assume "live c \<and> ac_open_block c = None"
  then show "live (fst (then_emit (upd f) g c)) \<and> ac_completed (fst (then_emit (upd f) g c)) = ac_completed c
      \<and> advance_all (Some (shape_of c)) (snd (then_emit (upd f) g c))
        = Some (shape_of (fst (then_emit (upd f) g c)))"
    using assms(1) [of c] assms(2) [unfolded good_closed_def, THEN spec, of "f c"]
    by (simp add: fst_then_emit snd_then_emit upd_def)
qed

lemma keep_reasoning:
  assumes "\<And>r. rg_reasoning_signature (f r) \<noteq> Some [] \<longleftrightarrow> rg_reasoning_signature r \<noteq> Some []"
  shows "ac_open_block (upd_reasoning f c) = ac_open_block c
    \<and> shape_of (upd_reasoning f c) = shape_of c \<and> live (upd_reasoning f c) = live c
    \<and> ac_completed (upd_reasoning f c) = ac_completed c"
  using assms by (simp add: upd_reasoning_def shape_of_def live_def)

lemma good_upd_reasoning [good_steps]:
  "good_step (upd (upd_reasoning note_content_started))" "good_step (upd (upd_reasoning note_tool_calls))"
  by (rule good_upd; simp add: keep_reasoning note_content_started_def note_tool_calls_def)+

lemma good_flush [good_steps]: "good_step (flush_reasoning_as_thinking sha)"
  unfolding flush_reasoning_as_thinking_def by (intro good_steps)

lemma good_start_text [good_steps]: "good_step (begin_text sha)"
  unfolding begin_text_def
  by (intro good_steps) (simp add: keep_reasoning note_content_started_def)

lemma good_ensure_tool [good_steps]: "good_step (ensure_tool_block sha call_id name)"
proof -
  have "good_step (then_emit (flush_reasoning_as_thinking sha)
      (then_emit (upd (upd_reasoning note_content_started))
      (then_emit close_open_block (open_tool_block call_id name))))"
    by (intro good_steps)
  then show ?thesis unfolding ensure_tool_block_def by (intro good_steps)
qed

lemma shape_record [simp]:
  "shape_of (record_output_delta delta c) = shape_of c" "live (record_output_delta delta c) = live c"
  "ac_completed (record_output_delta delta c) = ac_completed c"
  "ac_reasoning (record_output_delta delta c) = ac_reasoning c"
  by (simp_all add: record_output_delta_def Let_def shape_of_def live_def)

lemma good_emit_in [good_steps]: "good_step (emit_in_tool delta)" "good_step (emit_in_text delta)"
proof -
  have "live (fst (emit_in_tool delta c)) \<and> ac_completed (fst (emit_in_tool delta c)) = ac_completed c
      \<and> advance_all (Some (shape_of c)) (snd (emit_in_tool delta c))
        = Some (shape_of (fst (emit_in_tool delta c)))"
    "live (fst (emit_in_text delta c)) \<and> ac_completed (fst (emit_in_text delta c)) = ac_completed c
      \<and> advance_all (Some (shape_of c)) (snd (emit_in_text delta c))
        = Some (shape_of (fst (emit_in_text delta c)))" if c: "live c" for c
    using c by (cases "ac_open_block c"; cases "the (ac_open_block c)";
        simp add: emit_in_tool_def emit_in_text_def; simp add: shape_of_def live_def)+
  then show "good_step (emit_in_tool delta)" "good_step (emit_in_text delta)"
    by (simp_all add: good_step_def)
qed

lemma good_option_fun [good_steps]:
  "good_step f \<Longrightarrow> (\<And>x. good_step (g x)) \<Longrightarrow>
     good_step (\<lambda>c. case opt of None \<Rightarrow> f c | Some x \<Rightarrow> g x c)"
  by (cases opt) simp_all

lemma good_prod:
  "(\<And>c a b. live c \<Longrightarrow> g c = (a, b) \<Longrightarrow> good_step (f a b)) \<Longrightarrow>
     good_step (\<lambda>c. case g c of (a, b) \<Rightarrow> f a b c)"
  by (rule good_stepI) (auto dest: good_stepD split: prod.split)

lemma good_mark [good_steps]: "good_step (upd (mark_emitted call_id))"
  "good_step (\<lambda>c. (mark_emitted call_id c, []))"
  by (simp_all add: good_step_def upd_def mark_emitted_def live_def shape_of_def)

lemma good_open_text [good_steps]:
  "good_step f \<Longrightarrow> good_step g \<Longrightarrow>
     good_step (\<lambda>c. case ac_open_block c of Some (BText _) \<Rightarrow> f c | _ \<Rightarrow> g c)"
  by (rule good_stepI) (auto simp: good_stepD split: option.split content_block_state.split)

lemma good_finish_tool [good_steps]: "good_step (finish_tool_call sha call_id name arguments b)"
  unfolding finish_tool_call_def by (intro good_steps)

lemma good_created [good_steps]: "good_step (handle_created data)"
  unfolding handle_created_def
  by (intro good_steps good_upd) (simp add: live_def shape_of_def)

lemma good_item_added [good_steps]: "good_step (handle_item_added sha data)"
  unfolding handle_item_added_def by (intro good_steps)

lemma good_text_delta [good_steps]: "good_step (handle_text_delta sha data)"
  unfolding handle_text_delta_def by (intro good_steps)

lemma good_reasoning_delta [good_steps]: "good_step (handle_reasoning_delta data)"
  unfolding handle_reasoning_delta_def
  by (intro good_steps good_upd)
    (simp add: upd_reasoning_def push_reasoning_def; simp add: live_def shape_of_def
      record_output_delta_def Let_def)

lemma good_signature_delta [good_steps]: "good_step (handle_reasoning_signature_delta data)"
  unfolding handle_reasoning_signature_delta_def
  by (intro good_steps good_upd) (simp add: upd_reasoning_def push_signature_def live_def shape_of_def)

lemma good_stream_tool [good_steps]: "good_step (stream_tool_delta sha call_id name delta)"
  unfolding stream_tool_delta_def by (intro good_steps)

lemma good_arguments_delta [good_steps]: "good_step (handle_function_call_arguments_delta sha data)"
  unfolding handle_function_call_arguments_delta_def
  by (intro good_steps)

lemma good_arguments_done [good_steps]: "good_step (handle_function_call_arguments_done sha data)"
  unfolding handle_function_call_arguments_done_def by (intro good_steps)

lemma good_item_done [good_steps]: "good_step (handle_item_done sha data)"
  unfolding handle_item_done_def emit_tool_use_block_def Let_def by (intro good_steps)

lemma good_search [good_steps]: "good_step (handle_web_search_results J sha data)"
proof -
  have "good_closed (then_emit (upd (\<lambda>c. c\<lparr>ac_web_search_count := ac_web_search_count c + 1\<rparr>))
      (emit_search_blocks J data))"
    by (intro closed_then_upd closed_simple) (simp add: shape_of_def live_def)
  then show ?thesis
    unfolding handle_web_search_results_def
    by (intro good_then [OF good_ensure_started] good_then [OF good_flush] good_after_close)
qed

lemma good_suppressed [good_steps]: "good_step (suppressed_reasoning data)"
  unfolding suppressed_reasoning_def by (intro good_steps good_upd) simp

definition is_terminal_event :: "sse_event \<Rightarrow> bool" where
  "is_terminal_event ev \<longleftrightarrow>
     se_event ev \<in> {''response.completed'', ''response.incomplete'', ''response.failed''}"

lemma good_convert: "\<not> is_terminal_event ev \<Longrightarrow> good_step (convert J sha ev)"
  unfolding convert_def Let_def is_terminal_event_def
  by (intro good_steps) simp_all

lemma good_flush_terminal [good_steps]: "good_step (flush_reasoning_terminal sha clean)"
  unfolding flush_reasoning_terminal_def Let_def
proof (intro good_choice good_stay good_flush good_prod)
  fix p r
  have "good_step (upd (upd_reasoning (\<lambda>_. note_content_started (r\<lparr>rg_reasoning_signature := None\<rparr>))))"
    by (rule good_upd) (simp add: upd_reasoning_def live_def shape_of_def note_content_started_def)
  then show "good_step (then_emit (upd (upd_reasoning (\<lambda>_. note_content_started
      (r\<lparr>rg_reasoning_signature := None\<rparr>)))) (then_emit close_open_block (emit_promoted_block p)))"
    by (intro good_then good_after_close closed_simple)
qed

text \<open>The terminal steps, from a live converter to the end of the stream.\<close>

definition ends_stream :: "cstep \<Rightarrow> bool" where
  "ends_stream f \<longleftrightarrow> (\<forall>c. live c \<longrightarrow> ac_completed (fst (f c)) \<and>
     (\<exists>s. advance_all (Some (shape_of c)) (snd (f c)) = Some s \<and> sh_stage s = Finished))"

lemma ends_after: "good_step f \<Longrightarrow> ends_stream g \<Longrightarrow> ends_stream (then_emit f g)"
  by (simp add: ends_stream_def fst_then_emit snd_then_emit advance_all_append good_stepD)

lemma ends_after_close:
  assumes "\<And>c. \<exists>d u. amd_stop_reason d \<noteq> None \<and> snd (f c) = [MessageDelta d u, MessageStop]"
    and c: "live c"
  shows "\<exists>s. advance_all (Some (shape_of c)) (snd (then_emit close_open_block f c)) = Some s
    \<and> sh_stage s = Finished"
proof -
  obtain d u where "amd_stop_reason d \<noteq> None"
    "snd (f (fst (close_open_block c))) = [MessageDelta d u, MessageStop]"
    using assms(1) by blast
  with good_stepD [OF good_close c] show ?thesis
    by (simp add: snd_then_emit advance_all_append live_open_None closed_after_close)
qed

lemma ends_completed: "ends_stream (handle_completed sha e data)"
  unfolding ends_stream_def
proof (intro allI impI)
  fix c assume c: "live c"
  define c0 where "c0 = c\<lparr>ac_completed := True\<rparr>"
  define c1 where "c1 = fst (flush_reasoning_terminal sha (clean_stop_of e data) c0)"
  have c0: "live c0" "ac_completed c0" "shape_of c0 = shape_of c"
    using c by (simp_all add: c0_def live_def shape_of_def)
  note g = good_stepD [OF good_flush_terminal c0(1), of sha "clean_stop_of e data", folded c1_def]
  have "\<exists>d u. amd_stop_reason d \<noteq> None \<and> snd (emit_terminal data c) = [MessageDelta d u, MessageStop]" for c
    by (auto simp: emit_terminal_def Let_def split: prod.split)
  then have "\<exists>s. advance_all (Some (shape_of c1)) (snd (then_emit close_open_block (emit_terminal data) c1))
      = Some s \<and> sh_stage s = Finished"
    using ends_after_close g by blast
  moreover have "ac_completed (fst (emit_terminal data c)) = ac_completed c" for c
    by (simp add: emit_terminal_def Let_def split: prod.split option.split)
  ultimately show "ac_completed (fst (handle_completed sha e data c)) \<and>
      (\<exists>s. advance_all (Some (shape_of c)) (snd (handle_completed sha e data c)) = Some s
        \<and> sh_stage s = Finished)"
    using g c0 good_stepD [OF good_close, of c1]
    by (simp add: handle_completed_def fst_then_emit snd_then_emit upd_def advance_all_append
        c0_def [symmetric] c1_def [symmetric])
qed

lemma ends_failed: "ends_stream (handle_failed data)"
  by (simp add: ends_stream_def handle_failed_def Let_def live_def shape_of_def)

lemma ends_finalize: "live c \<Longrightarrow> \<not> ac_completed c \<Longrightarrow>
    \<exists>s. advance_all (Some (shape_of c)) (snd (finalize_stream sha c)) = Some s \<and> sh_stage s = Finished"
proof -
  assume c: "live c" "\<not> ac_completed c"
  note g1 = good_stepD [OF good_ensure_started c(1)]
  note g2 = good_stepD [OF good_flush conjunct1 [OF g1], of sha]
  show ?thesis
    using c g1 g2 ends_after_close [OF _ conjunct1 [OF g2], of "\<lambda>c. (c\<lparr>ac_completed := True\<rparr>,
      [MessageDelta \<lparr>amd_stop_reason = Some (default_stop_reason c), amd_stop_sequence = None\<rparr>
         \<lparr>au_input_tokens = ac_pending_input_tokens c, au_output_tokens = Some (ac_last_output_tokens c),
          au_output_tokens_details = None, au_server_tool_use = server_tool_use_usage c\<rparr>,
       MessageStop])"]
    by (simp add: finalize_stream_def snd_then_emit advance_all_append)
qed

lemma ends_convert: "is_terminal_event ev \<Longrightarrow> ends_stream (convert J sha ev)"
  by (auto simp: is_terminal_event_def convert_def Let_def ends_completed ends_failed)

lemma convert_created:
  assumes "se_event ev = ''response.created''"
    and "c = with_reasoning_suppression uuid model suppress"
  shows "live (fst (convert J sha ev c)) \<and> \<not> ac_completed (fst (convert J sha ev c))
    \<and> advance_all (Some idle_shape) (snd (convert J sha ev c))
      = Some (shape_of (fst (convert J sha ev c)))"
  using assms
  by (simp add: convert_def handle_created_def ensure_started_def then_emit_def upd_def live_def
      with_reasoning_suppression_def reasoning_egress_default_def shape_of_def idle_shape_def)

lemma finalize_completed: "ac_completed c \<Longrightarrow> snd (finalize_stream sha c) = []"
  by (simp add: finalize_stream_def)

text \<open>A turn as the engine produces it: created first, at most one terminal event, last.\<close>

definition engine_turn :: "sse_event list \<Rightarrow> bool" where
  "engine_turn evs \<longleftrightarrow> (case evs of [] \<Rightarrow> False
     | ev # rest \<Rightarrow> se_event ev = ''response.created''
         \<and> (list_all (\<lambda>e. \<not> is_terminal_event e) rest
            \<or> rest \<noteq> [] \<and> list_all (\<lambda>e. \<not> is_terminal_event e) (butlast rest)
              \<and> is_terminal_event (last rest)))"

lemma converter_stream_ok:
  assumes "engine_turn evs"
  shows "stream_ok (snd (convert_stream J sha evs (with_reasoning_suppression uuid model suppress)))"
proof -
  define c0 where "c0 = with_reasoning_suppression uuid model suppress"
  obtain ev rest where evs: "evs = ev # rest" and ev: "se_event ev = ''response.created''"
    using assms by (cases evs) (auto simp: engine_turn_def)
  define c1 where "c1 = fst (convert J sha ev c0)"
  note start = convert_created [OF ev c0_def, of J sha, folded c1_def]
  have good: "good_step (emit_all (convert J sha) xs)" if "list_all (\<lambda>e. \<not> is_terminal_event e) xs" for xs
    using that by (intro good_all good_convert) (simp add: list_all_iff)
  have "\<exists>s. advance_all (Some (shape_of c1)) (snd (then_emit (emit_all (convert J sha) rest)
      (finalize_stream sha) c1)) = Some s \<and> sh_stage s = Finished"
  proof (cases "list_all (\<lambda>e. \<not> is_terminal_event e) rest")
    case True
    note g = good_stepD [OF good [OF True] conjunct1 [OF start]]
    with start ends_finalize [OF conjunct1 [OF g]] show ?thesis
      by (simp add: snd_then_emit advance_all_append)
  next
    case False
    with assms have "rest \<noteq> []" and pre: "list_all (\<lambda>e. \<not> is_terminal_event e) (butlast rest)"
      and t: "is_terminal_event (last rest)" by (simp_all add: engine_turn_def evs)
    then have rest: "rest = butlast rest @ [last rest]" by simp
    have "ends_stream (convert J sha (last rest))" using t by (rule ends_convert)
    then have e: "ends_stream (emit_all (convert J sha) rest)"
      by (subst rest) (simp add: ends_stream_def emit_all_append fst_then_emit snd_then_emit
          advance_all_append good_stepD [OF good [OF pre]] no_step_def)
    with start show ?thesis
      by (auto simp: ends_stream_def snd_then_emit advance_all_append finalize_completed)
  qed
  then show ?thesis
    using start by (auto simp: stream_ok_def convert_stream_def evs c0_def [symmetric] c1_def [symmetric]
        fst_then_emit snd_then_emit advance_all_append)
qed

text \<open>A stream without any event, and one that only failed.\<close>

lemma empty_stream_ok:
  "stream_ok (snd (convert_stream J sha [] (with_reasoning_suppression uuid model suppress)))"
proof -
  define c where "c = fst (ensure_started (with_reasoning_suppression uuid model suppress))"
  have c: "live c" "\<not> ac_completed c" "ac_started c"
    "advance_all (Some idle_shape) (snd (ensure_started (with_reasoning_suppression uuid model suppress)))
      = Some (shape_of c)"
    by (simp_all add: c_def ensure_started_def live_def with_reasoning_suppression_def
        reasoning_egress_default_def shape_of_def idle_shape_def)
  have "snd (finalize_stream sha (with_reasoning_suppression uuid model suppress))
    = snd (ensure_started (with_reasoning_suppression uuid model suppress)) @ snd (finalize_stream sha c)"
    using c(2,3)
    by (simp add: finalize_stream_def snd_then_emit fst_then_emit c_def [symmetric] ensure_started_def [of c])
      (simp add: with_reasoning_suppression_def)
  with ends_finalize [OF c(1,2), of sha] c(4) show ?thesis
    by (auto simp: stream_ok_def convert_stream_def snd_then_emit fst_then_emit no_step_def advance_all_append)
qed

definition error_event :: "json \<Rightarrow> anthropic_stream_event" where
  "error_event data = ErrorEvent \<lparr>aeb_kind = ''api_error'', aeb_message =
     (case Option.bind (response_field data ''error'') (\<lambda>e. json_get_str e ''message'') of
        Some m \<Rightarrow> m | None \<Rightarrow> ''gateway error'')\<rparr>"

lemma failed_alone:
  assumes "se_event ev = ''response.failed''"
  shows "snd (convert_stream J sha [ev] c) = [error_event (se_data ev)]"
  by (simp add: convert_stream_def snd_then_emit fst_then_emit no_step_def convert_def assms
      handle_failed_def error_event_def finalize_completed Let_def)

subsection \<open>A concrete turn\<close>

definition sample_event :: "string \<Rightarrow> (string \<times> json) list \<Rightarrow> sse_event" where
  "sample_event e kvs = \<lparr>se_event = e, se_data = JObj kvs\<rparr>"

definition sample_turn_events :: "sse_event list" where
  "sample_turn_events = [sample_event ''response.created'' [],
     sample_event ''response.reasoning_text.delta'' [(''delta'', JStr ''hm'')],
     sample_event ''response.output_text.delta'' [(''delta'', JStr ''hi'')],
     sample_event ''response.completed'' []]"

subsection \<open>Interleaved calls\<close>

text \<open>The argument fragments an event list carries for one call, and those the stream forwards.\<close>

definition fragments_for :: "string \<Rightarrow> sse_event list \<Rightarrow> string" where
  "fragments_for call_id evs = concat (map (\<lambda>ev.
     if se_event ev = ''response.function_call_arguments.delta''
        \<and> json_get_str (se_data ev) ''call_id'' = Some call_id
     then (case json_get_str (se_data ev) ''delta'' of Some d \<Rightarrow> d | None \<Rightarrow> []) else []) evs)"

definition input_json_at :: "nat \<Rightarrow> anthropic_stream_event list \<Rightarrow> string" where
  "input_json_at i es = concat (map (\<lambda>e. case e of
     ContentBlockDelta j (InputJsonDelta t) \<Rightarrow> if i = j then t else [] | _ \<Rightarrow> []) es)"

definition interleaved_turn :: "sse_event list" where
  "interleaved_turn = (let args = (\<lambda>i d. sample_event ''response.function_call_arguments.delta''
       [(''call_id'', JStr i), (''delta'', JStr d), (''name'', JStr ''lookup'')]);
     fin = (\<lambda>i a. sample_event ''response.function_call_arguments.done''
       [(''arguments'', JStr a), (''call_id'', JStr i), (''name'', JStr ''lookup'')]) in
     [sample_event ''response.created'' [], args ''a'' ''['', args ''b'' ''[2]'', args ''a'' ''1]'',
      fin ''a'' ''[1]'', fin ''b'' ''[2]'', sample_event ''response.completed'' []])"

text \<open>Evaluation of a composed step at a given state, first part first.\<close>

lemma then_emit_eval:
  "then_emit f g s = (case f s of (s1, e1) \<Rightarrow> (case g s1 of (s2, e2) \<Rightarrow> (s2, e1 @ e2)))"
  by (simp add: then_emit_def Let_def)

lemma then_emit_weak: "s = s' \<Longrightarrow> then_emit f g s = then_emit f g s'"
  by simp

lemmas converter_eval = sample_event_def convert_stream_def then_emit_eval convert_def
  handle_created_def handle_function_call_arguments_delta_def
  handle_function_call_arguments_done_def stream_tool_delta_def ensure_tool_block_def
  tool_block_open_def emit_in_tool_def close_open_block_def flush_reasoning_as_thinking_def
  open_tool_block_def finish_tool_call_def handle_completed_def flush_reasoning_terminal_def
  emit_terminal_def ensure_started_def upd_def upd_reasoning_def note_content_started_def
  note_tool_calls_def has_buffered_def mark_emitted_def record_output_delta_def
  is_hidden_server_tool_def web_search_tool_name_def finalize_stream_def no_step_def
  with_reasoning_suppression_def reasoning_egress_default_def json_get_str_def name_of_def
  arguments_of_def response_estimated_input_tokens_def response_field_def stop_fields_def
  response_usage_of_def response_stop_reason_def response_stop_sequence_def clean_stop_of_def
  response_terminal_reason_def nonempty_str_def handle_text_delta_def handle_reasoning_delta_def
  begin_text_def start_text_block_def emit_in_text_def emit_thinking_block_def
  push_reasoning_def is_late_reasoning_def take_signature_def

text \<open>
  When the argument fragments of two calls are interleaved, the stream loses the rest of the
  first call: a fragment of another call closes its block, its later fragments are dropped and the
  complete arguments of its final event are not sent either, so the client receives truncated
  JSON for it.
\<close>

theorem interleaved_fragments_lost:
  "fragments_for ''a'' interleaved_turn = ''[1]''
   \<and> input_json_at 0 (snd (convert_stream J sha interleaved_turn
        (with_reasoning_suppression ''u'' ''m'' False))) = ''[''"
  by (simp add: interleaved_turn_def fragments_for_def input_json_at_def Let_def converter_eval
      cong: then_emit_weak)

end
