(* ===== verification/Anthropic_Conformance.thy ===== *)
theory Anthropic_Conformance
  imports Anthropic_Stream_Correct Roles
begin

text \<open>
  The stream conformance checker the project ships
  (\<^verbatim>\<open>src/src/adapters/responses_to_anthropic/conformance.rs\<close>), and the proof that every stream of
  the converter that has a content block passes it.
\<close>

subsection \<open>Shapes\<close>

datatype surface = TextOnly | ReasoningTextSurface | ClientToolUse | WebSearchSurface | ErrorSurface

datatype shape_kind =
    ShMessageStart
  | ShContentBlockStart nat string
  | ShContentBlockDelta nat string bool
  | ShContentBlockStop nat
  | ShMessageDelta bool
  | ShMessageStop
  | ShPing
  | ShError
  | ShOther string

fun shape_label :: "shape_kind \<Rightarrow> string" where
  "shape_label ShMessageStart = ''message_start''"
| "shape_label (ShContentBlockStart _ _) = ''content_block_start''"
| "shape_label (ShContentBlockDelta _ _ _) = ''content_block_delta''"
| "shape_label (ShContentBlockStop _) = ''content_block_stop''"
| "shape_label (ShMessageDelta _) = ''message_delta''"
| "shape_label ShMessageStop = ''message_stop''"
| "shape_label ShPing = ''ping''"
| "shape_label ShError = ''error''"
| "shape_label (ShOther label) = label"

fun content_block_type_name :: "anthropic_content_block_start \<Rightarrow> string" where
  "content_block_type_name (CbText _) = ''text''"
| "content_block_type_name (CbToolUse _ _ _) = ''tool_use''"
| "content_block_type_name (CbThinking _) = ''thinking''"
| "content_block_type_name (CbServerToolUse _ _) = ''server_tool_use''"
| "content_block_type_name (CbWebSearchToolResult _ _) = ''web_search_tool_result''"

fun delta_shape :: "nat \<Rightarrow> anthropic_delta \<Rightarrow> shape_kind" where
  "delta_shape index (TextDelta _) = ShContentBlockDelta index ''text_delta'' False"
| "delta_shape index (InputJsonDelta _) = ShContentBlockDelta index ''input_json_delta'' False"
| "delta_shape index (ThinkingDelta _) = ShContentBlockDelta index ''thinking_delta'' False"
| "delta_shape index (SignatureDelta signature) =
     ShContentBlockDelta index ''signature_delta'' (signature \<noteq> [])"

fun from_event :: "anthropic_stream_event \<Rightarrow> shape_kind" where
  "from_event (MessageStart _) = ShMessageStart"
| "from_event (ContentBlockStart index block) =
     ShContentBlockStart index (content_block_type_name block)"
| "from_event (ContentBlockDelta index delta) = delta_shape index delta"
| "from_event (ContentBlockStop index) = ShContentBlockStop index"
| "from_event (MessageDelta delta _) = ShMessageDelta (amd_stop_reason delta \<noteq> None)"
| "from_event MessageStop = ShMessageStop"
| "from_event Ping = ShPing"
| "from_event (ErrorEvent _) = ShError"

text \<open>On the wire: a missing index reads as \<^verbatim>\<open>u64::MAX\<close>.\<close>

definition json_index :: "json \<Rightarrow> nat" where
  "json_index value =
     (case Option.bind (json_get value ''index'') as_u64 of Some i \<Rightarrow> i | None \<Rightarrow> 2 ^ 64 - 1)"

definition str_or_empty :: "string option \<Rightarrow> string" where
  "str_or_empty s = (case s of Some t \<Rightarrow> t | None \<Rightarrow> [])"

definition from_json_shape :: "json \<Rightarrow> shape_kind" where
  "from_json_shape value =
     (let event_type = str_or_empty (json_get_str value ''type'');
          delta = json_get value ''delta'' in
      if event_type = ''message_start'' then ShMessageStart
      else if event_type = ''content_block_start''
      then ShContentBlockStart (json_index value)
             (str_or_empty (Option.bind (json_get value ''content_block'')
                (\<lambda>block. json_get_str block ''type'')))
      else if event_type = ''content_block_delta''
      then ShContentBlockDelta (json_index value)
             (str_or_empty (Option.bind delta (\<lambda>d. json_get_str d ''type'')))
             (str_or_empty (Option.bind delta (\<lambda>d. json_get_str d ''signature'')) \<noteq> [])
      else if event_type = ''content_block_stop'' then ShContentBlockStop (json_index value)
      else if event_type = ''message_delta''
      then ShMessageDelta (case Option.bind delta (\<lambda>d. json_get d ''stop_reason'') of
             Some reason \<Rightarrow> \<not> is_null reason | None \<Rightarrow> False)
      else if event_type = ''message_stop'' then ShMessageStop
      else if event_type = ''ping'' then ShPing
      else if event_type = ''error'' then ShError
      else ShOther event_type)"

subsection \<open>The walk\<close>

record walk_state =
  wk_first_content_block_start_seen :: bool
  wk_message_delta_count :: nat
  wk_message_delta_with_stop_reason :: bool
  wk_open_blocks :: "(nat \<times> bool \<times> bool) list"

definition walk_init :: walk_state where
  "walk_init = \<lparr>wk_first_content_block_start_seen = False, wk_message_delta_count = 0,
     wk_message_delta_with_stop_reason = False, wk_open_blocks = []\<rparr>"

fun show_surface :: "surface \<Rightarrow> string" where
  "show_surface TextOnly = ''TextOnly''"
| "show_surface ReasoningTextSurface = ''ReasoningText''"
| "show_surface ClientToolUse = ''ClientToolUse''"
| "show_surface WebSearchSurface = ''WebSearch''"
| "show_surface ErrorSurface = ''Error''"

definition failure :: "surface \<Rightarrow> string \<Rightarrow> string" where
  "failure sf msg = ''conformance['' @ show_surface sf @ ''] '' @ msg"

definition at_event :: "string \<Rightarrow> nat \<Rightarrow> string \<Rightarrow> string" where
  "at_event invariant i rest = invariant @ '' violated at event #'' @ show_nat i @ rest"

fun walk_step :: "surface \<Rightarrow> nat \<Rightarrow> shape_kind \<Rightarrow> walk_state \<Rightarrow> string + walk_state" where
  "walk_step sf i (ShContentBlockStart index block_type) w =
     Inr (w\<lparr>wk_first_content_block_start_seen := True,
            wk_open_blocks := obj_insert index (block_type = ''thinking'', False) (wk_open_blocks w)\<rparr>)"
| "walk_step sf i (ShContentBlockDelta index delta_type non_empty) w =
     Inr (if delta_type = ''signature_delta'' \<and> non_empty
          then (case obj_get (wk_open_blocks w) index of
                  Some (is_thinking, _) \<Rightarrow>
                    w\<lparr>wk_open_blocks := obj_insert index (is_thinking, True) (wk_open_blocks w)\<rparr>
                | None \<Rightarrow> w)
          else w)"
| "walk_step sf i (ShContentBlockStop index) w =
     (let w' = w\<lparr>wk_open_blocks := obj_remove index (wk_open_blocks w)\<rparr> in
      case obj_get (wk_open_blocks w) index of
        Some (is_thinking, sig_seen) \<Rightarrow>
          (if is_thinking \<and> \<not> sig_seen
           then Inl (failure sf (at_event ''invariant 4'' i ('' (content_block_stop, index '' @
                  show_nat index @
                  ''): thinking block closed without a non-empty signature_delta'')))
           else Inr w')
      | None \<Rightarrow> Inr w')"
| "walk_step sf i (ShMessageDelta reason_non_null) w =
     (let w' = w\<lparr>wk_message_delta_count := wk_message_delta_count w + 1\<rparr> in
      if \<not> wk_first_content_block_start_seen w
      then Inl (failure sf (at_event ''invariant 2'' i
             '' (message_delta): appeared before the first content_block_start''))
      else if wk_open_blocks w \<noteq> []
      then Inl (failure sf (at_event ''invariant 3'' i
             ('' (message_delta): appeared while block index(es) ['' @
              join '', '' (map (show_nat \<circ> fst) (wk_open_blocks w)) @
              ''] were still open (no matching content_block_stop yet)'')))
      else Inr (if reason_non_null then w'\<lparr>wk_message_delta_with_stop_reason := True\<rparr> else w'))"
| "walk_step sf i _ w = Inr w"

fun walk :: "surface \<Rightarrow> nat \<Rightarrow> shape_kind list \<Rightarrow> walk_state \<Rightarrow> string + walk_state" where
  "walk sf i [] w = Inr w"
| "walk sf i (shape # shapes) w = bind_res (walk_step sf i shape w) (walk sf (Suc i) shapes)"

definition ends_correctly :: "shape_kind list \<Rightarrow> bool" where
  "ends_correctly events \<longleftrightarrow> 2 \<le> length events
     \<and> (case events ! (length events - 2) of ShMessageDelta _ \<Rightarrow> True | _ \<Rightarrow> False)
     \<and> events ! (length events - 1) = ShMessageStop"

text \<open>The labels of the error texts; the labels of the vocabulary need no escaping.\<close>

definition debug_last :: "shape_kind list \<Rightarrow> string" where
  "debug_last events =
     (if events = [] then ''None'' else ''Some('' @ quoted (shape_label (last events)) @ '')'')"

definition debug_tail :: "shape_kind list \<Rightarrow> string" where
  "debug_tail events = ''['' @ join '', '' (map (quoted \<circ> shape_label)
     (drop (length events - 2) events)) @ '']''"

definition check_terminal ::
  "shape_kind list \<Rightarrow> surface \<Rightarrow> walk_state \<Rightarrow> string + unit" where
  "check_terminal events sf w =
     (if sf = ErrorSurface
      then (if events \<noteq> [] \<and> last events = ShError then Inr ()
            else Inl (failure sf (''invariant 6 violated: stream must end with an `error` event, got '' @
                   debug_last events @ '' as the last of '' @ show_nat (length events) @
                   '' event(s)'')))
      else if wk_message_delta_count w \<noteq> 1
      then Inl (failure sf (''invariant 1 violated: expected exactly ONE message_delta, found '' @
             show_nat (wk_message_delta_count w)))
      else if \<not> wk_message_delta_with_stop_reason w
      then Inl (failure sf (''invariant 1 violated: the sole message_delta must carry a '' @
             ''non-null stop_reason''))
      else if \<not> ends_correctly events
      then Inl (failure sf (''invariant 5 violated: the last two events must be message_delta '' @
             ''then message_stop, got '' @ debug_tail events))
      else Inr ())"

definition check_shapes :: "shape_kind list \<Rightarrow> surface \<Rightarrow> string + unit" where
  "check_shapes events sf =
     (if events = []
      then Inl (failure sf ''empty event stream -- expected at least message_start..message_stop'')
      else bind_res (walk sf 0 events walk_init) (check_terminal events sf))"

definition check_stream_conformant ::
  "anthropic_stream_event list \<Rightarrow> surface \<Rightarrow> string + unit" where
  "check_stream_conformant events sf = check_shapes (map from_event events) sf"

definition check_sse_conformant :: "json list \<Rightarrow> surface \<Rightarrow> string + unit" where
  "check_sse_conformant events sf = check_shapes (map from_json_shape events) sf"

subsection \<open>Accepted streams conform\<close>

text \<open>The walk state that belongs to a state of the acceptor.\<close>

definition walk_of :: "stream_shape \<Rightarrow> nat \<Rightarrow> walk_state" where
  "walk_of s deltas = \<lparr>wk_first_content_block_start_seen = (0 < sh_next s),
     wk_message_delta_count = deltas, wk_message_delta_with_stop_reason = (0 < deltas),
     wk_open_blocks = (case sh_open s of None \<Rightarrow> []
       | Some (i, k) \<Rightarrow> [(i, (\<exists>b. k = KThinking b), k = KThinking True)])\<rparr>"

lemma walk_of_step:
  assumes "advance s e = Some s'" and "\<And>d u. e = MessageDelta d u \<Longrightarrow> 0 < sh_next s \<and> n = 0"
  shows "walk_step sf i (from_event e) (walk_of s n) =
    Inr (walk_of s' (case e of MessageDelta _ _ \<Rightarrow> 1 | _ \<Rightarrow> n))"
proof (cases e)
  case (ContentBlockStart j b)
  with assms show ?thesis by (cases b) (auto simp: walk_of_def split: if_splits)
next
  case (ContentBlockDelta j d)
  from assms(1) ContentBlockDelta obtain k k' where k: "sh_open s = Some (j, k)"
    "after_delta k d = Some k'" "s' = s\<lparr>sh_open := Some (j, k')\<rparr>"
    by (auto split: option.splits if_splits)
  then show ?thesis
    using ContentBlockDelta by (cases d; cases k) (auto simp: walk_of_def split: if_splits)
next
  case (ContentBlockStop j)
  with assms show ?thesis
    by (cases "sh_open s") (auto simp: walk_of_def obj_remove_def Let_def split: if_splits prod.splits)
next
  case (MessageDelta d u)
  with assms show ?thesis by (auto simp: walk_of_def Let_def split: if_splits)
qed (use assms in \<open>auto simp: walk_of_def split: if_splits\<close>)

lemma advance_all_None [simp]: "advance_all None es = None"
  by (induction es) simp_all

lemma advance_all_Cons:
  assumes "advance_all (Some s) (e # es) = Some t"
  obtains s1 where "advance s e = Some s1" "advance_all (Some s1) es = Some t"
  using assms by (cases "advance s e") auto

lemma closing_tail:
  "advance_all (Some s) es = Some t \<Longrightarrow> sh_stage t = Finished \<Longrightarrow>
     (sh_stage s = Finished \<longrightarrow> es = []) \<and> (sh_stage s = Closing \<longrightarrow> es = [MessageStop])"
proof (induction es arbitrary: s)
  case (Cons e es)
  from Cons.prems(1) obtain s1 where s1: "advance s e = Some s1" and "advance_all (Some s1) es = Some t"
    by (rule advance_all_Cons)
  from Cons.IH [OF this(2) Cons.prems(2)] s1 show ?case
    by (cases e) (auto split: if_splits option.splits)
qed simp

lemma advance_next: "advance s e = Some s' \<Longrightarrow> sh_next s \<le> sh_next s'
    \<and> ((\<exists>i b. e = ContentBlockStart i b) \<longrightarrow> 0 < sh_next s')"
  by (cases e) (auto split: if_splits option.splits)

text \<open>From a streaming acceptor state the walk succeeds and ends as the stream does.\<close>

lemma walk_accepted:
  assumes "advance_all (Some s) es = Some t" and "sh_stage t = Finished"
    and "sh_stage s \<in> {Idle, Streaming}"
    and "0 < sh_next s \<or> (\<exists>i b. ContentBlockStart i b \<in> set es)"
  shows "(\<exists>pre d u w. es = pre @ [MessageDelta d u, MessageStop]
      \<and> walk sf i (map from_event es) (walk_of s 0) = Inr w
      \<and> wk_message_delta_count w = 1 \<and> wk_message_delta_with_stop_reason w)
    \<or> (\<exists>pre b w. es = pre @ [ErrorEvent b] \<and> walk sf i (map from_event es) (walk_of s 0) = Inr w)"
  using assms(1, 3, 4)
proof (induction es arbitrary: s i)
  case Nil
  with assms(2) show ?case by auto
next
  case (Cons e es)
  from Cons.prems(1) obtain s1 where s1: "advance s e = Some s1"
    and rest: "advance_all (Some s1) es = Some t" by (rule advance_all_Cons)
  note tail = closing_tail [OF rest assms(2)]
  show ?case
  proof (cases "\<exists>d u. e = MessageDelta d u")
    case True
    then obtain d u where e: "e = MessageDelta d u" by blast
    with s1 have c: "sh_stage s1 = Closing" "s1 = s\<lparr>sh_stage := Closing\<rparr>"
      by (auto split: if_splits)
    then have es: "es = [MessageStop]" using tail by simp
    with Cons.prems(3) e have "0 < sh_next s" by auto
    with walk_of_step [OF s1, of 0 sf i] e es show ?thesis
      by (intro disjI1 exI [of _ "[]"]) (simp add: walk_of_def)
  next
    case False
    then have step: "walk_step sf i (from_event e) (walk_of s 0) = Inr (walk_of s1 0)"
      using walk_of_step [OF s1, of 0 sf i] by (cases e) auto
    show ?thesis
    proof (cases "sh_stage s1 \<in> {Idle, Streaming}")
      case True
      have "0 < sh_next s1 \<or> (\<exists>i b. ContentBlockStart i b \<in> set es)"
        using Cons.prems(3) advance_next [OF s1] by auto
      from Cons.IH [OF rest True this, of "Suc i"] show ?thesis
      proof (elim disjE exE conjE)
        fix pre d u w
        assume "es = pre @ [MessageDelta d u, MessageStop]"
          "walk sf (Suc i) (map from_event es) (walk_of s1 0) = Inr w"
          "wk_message_delta_count w = 1" "wk_message_delta_with_stop_reason w"
        with step show ?thesis by (intro disjI1 exI [of _ "e # pre"]) auto
      next
        fix pre b w
        assume "es = pre @ [ErrorEvent b]"
          "walk sf (Suc i) (map from_event es) (walk_of s1 0) = Inr w"
        with step show ?thesis by (intro disjI2 exI [of _ "e # pre"]) auto
      qed
    next
      case f: False
      with s1 False Cons.prems(2) have "\<exists>b. e = ErrorEvent b" "sh_stage s1 = Finished"
        by (cases e; auto split: if_splits option.splits)+
      moreover from this tail have "es = []" by simp
      ultimately show ?thesis using step by auto
    qed
  qed
qed

text \<open>
  Every stream the converter produces that has a content block passes the project's own
  conformance check: as an error stream when it ends with an error, on every other surface when it
  does not.
\<close>

theorem converter_streams_conform:
  assumes "engine_turn evs"
    and "es = snd (convert_stream J sha evs (with_reasoning_suppression uuid model suppress))"
    and "\<exists>i b. ContentBlockStart i b \<in> set es"
  shows "if (\<exists>b. last es = ErrorEvent b) then check_stream_conformant es ErrorSurface = Inr ()
    else list_all (\<lambda>sf. check_stream_conformant es sf = Inr ())
      [TextOnly, ReasoningTextSurface, ClientToolUse, WebSearchSurface]"
proof -
  obtain t where t: "advance_all (Some idle_shape) es = Some t" "sh_stage t = Finished"
    using converter_stream_ok [OF assms(1), of J sha uuid model suppress]
    by (auto simp: assms(2) stream_ok_def split: option.splits)
  have init: "walk_of idle_shape 0 = walk_init" by (simp add: walk_of_def idle_shape_def walk_init_def)
  have idle: "sh_stage idle_shape \<in> {Idle, Streaming}" by (simp add: idle_shape_def)
  note w = walk_accepted [OF t idle disjI2 [OF assms(3)], where i = 0, unfolded init]
  have ne: "es \<noteq> []" using assms(3) by auto
  show ?thesis
  proof (cases "\<exists>b. last es = ErrorEvent b")
    case True
    with w [of ErrorSurface] obtain x where "walk ErrorSurface 0 (map from_event es) walk_init = Inr x"
      by auto
    with True ne have "check_stream_conformant es ErrorSurface = Inr ()"
      by (auto simp: check_stream_conformant_def check_shapes_def check_terminal_def last_map)
    with True show ?thesis by simp
  next
    case False
    have "check_stream_conformant es sf = Inr ()" if "sf \<noteq> ErrorSurface" for sf
    proof -
      from w [of sf] False obtain pre d u x where es: "es = pre @ [MessageDelta d u, MessageStop]"
        and x: "walk sf 0 (map from_event es) walk_init = Inr x" "wk_message_delta_count x = 1"
        "wk_message_delta_with_stop_reason x" by auto
      have "ends_correctly (map from_event es)"
        by (simp add: ends_correctly_def es nth_append)
      with x that ne show ?thesis
        by (simp add: check_stream_conformant_def check_shapes_def check_terminal_def)
    qed
    with False show ?thesis by simp
  qed
qed

theorem converter_streams_conform_witness:
  "let es = snd (convert_stream \<lparr>to_json_string = (\<lambda>_. ''{}''), from_json_str = (\<lambda>_. Inl [])\<rparr>
     (\<lambda>_. ''00'') sample_turn_events (with_reasoning_suppression ''u'' ''m'' False)) in
   if (\<exists>b. last es = ErrorEvent b) then check_stream_conformant es ErrorSurface = Inr ()
    else list_all (\<lambda>sf. check_stream_conformant es sf = Inr ())
      [TextOnly, ReasoningTextSurface, ClientToolUse, WebSearchSurface]"
  unfolding Let_def
proof (rule converter_streams_conform [OF _ refl])
  show "engine_turn sample_turn_events"
    by (simp add: engine_turn_def sample_turn_events_def sample_event_def is_terminal_event_def)
qed (auto simp: sample_turn_events_def Let_def converter_eval cong: then_emit_weak)

text \<open>
  A turn without any content block fails that check: the terminal message delta of an empty
  turn comes before any content block, which its second invariant forbids.
\<close>

theorem empty_turn_not_conformant:
  "\<not> is_ok (check_stream_conformant (snd (convert_stream J sha
     [sample_event ''response.created'' [], sample_event ''response.completed'' []]
     (with_reasoning_suppression ''u'' ''m'' False))) TextOnly)"
  by (simp add: Let_def converter_eval check_stream_conformant_def check_shapes_def walk_init_def
      cong: then_emit_weak)

end
