(* ===== verification/Anthropic_Collector.thy ===== *)
theory Anthropic_Collector
  imports Anthropic_Conformance
begin

text \<open>
  The non-streaming collector (\<^verbatim>\<open>src/src/adapters/responses_to_anthropic/collector.rs\<close>), which
  folds the converter's events into one response, and the agreement of the two surfaces: what is
  streamed is what is collected, and the text of both is the text of the canonical turn.
\<close>

subsection \<open>The collector\<close>

datatype accumulated_block =
    AccThinking string "string option"
  | AccText string
  | AccToolUse string string string
  | AccServerToolUse string string string
  | AccWebSearchToolResult string json

record collector =
  co_inner :: converter
  co_message_id :: "string option"
  co_model :: "string option"
  co_stop_reason :: "string option"
  co_stop_sequence :: "json option"
  co_blocks :: "accumulated_block list"
  co_current_block :: "accumulated_block option"
  co_input_tokens :: nat
  co_output_tokens :: nat
  co_output_tokens_details :: "anthropic_output_tokens_details option"
  co_error :: "anthropic_error_body option"

definition collector_new :: "string \<Rightarrow> string \<Rightarrow> bool \<Rightarrow> collector" where
  "collector_new uuid model suppress =
     \<lparr>co_inner = with_reasoning_suppression uuid model suppress, co_message_id = None,
      co_model = Some model, co_stop_reason = None, co_stop_sequence = None, co_blocks = [],
      co_current_block = None, co_input_tokens = 0, co_output_tokens = 0,
      co_output_tokens_details = None, co_error = None\<rparr>"

fun block_of_start :: "anthropic_content_block_start \<Rightarrow> accumulated_block" where
  "block_of_start (CbText _) = AccText []"
| "block_of_start (CbThinking _) = AccThinking [] None"
| "block_of_start (CbToolUse i name _) = AccToolUse i name []"
| "block_of_start (CbServerToolUse i name) = AccServerToolUse i name []"
| "block_of_start (CbWebSearchToolResult i content) = AccWebSearchToolResult i content"

fun add_delta :: "accumulated_block \<Rightarrow> anthropic_delta \<Rightarrow> accumulated_block" where
  "add_delta (AccText t) (TextDelta d) = AccText (t @ d)"
| "add_delta (AccThinking t s) (ThinkingDelta d) = AccThinking (t @ d) s"
| "add_delta (AccThinking t s) (SignatureDelta d) = AccThinking t (Some d)"
| "add_delta (AccToolUse i name input) (InputJsonDelta d) = AccToolUse i name (input @ d)"
| "add_delta (AccServerToolUse i name input) (InputJsonDelta d) = AccServerToolUse i name (input @ d)"
| "add_delta b _ = b"

definition or_keep :: "'a option \<Rightarrow> 'a option \<Rightarrow> 'a option" where
  "or_keep new old = (case new of Some _ \<Rightarrow> new | None \<Rightarrow> old)"

fun collect_event :: "anthropic_stream_event \<Rightarrow> collector \<Rightarrow> collector" where
  "collect_event (MessageStart message) k =
     k\<lparr>co_message_id := Some (ams_id message),
       co_input_tokens := (case au_input_tokens (ams_usage message) of Some n \<Rightarrow> n | None \<Rightarrow> 0),
       co_output_tokens := (case au_output_tokens (ams_usage message) of Some n \<Rightarrow> n | None \<Rightarrow> 0)\<rparr>"
| "collect_event (ContentBlockStart _ block) k = k\<lparr>co_current_block := Some (block_of_start block)\<rparr>"
| "collect_event (ContentBlockDelta _ delta) k =
     k\<lparr>co_current_block := map_option (\<lambda>b. add_delta b delta) (co_current_block k)\<rparr>"
| "collect_event (ContentBlockStop _) k =
     (case co_current_block k of
        Some block \<Rightarrow> k\<lparr>co_blocks := co_blocks k @ [block], co_current_block := None\<rparr>
      | None \<Rightarrow> k)"
| "collect_event (MessageDelta delta usage) k =
     k\<lparr>co_stop_reason := or_keep (amd_stop_reason delta) (co_stop_reason k),
       co_stop_sequence := or_keep (amd_stop_sequence delta) (co_stop_sequence k),
       co_output_tokens := (case au_output_tokens usage of
          Some n \<Rightarrow> n | None \<Rightarrow> co_output_tokens k),
       co_output_tokens_details :=
         or_keep (au_output_tokens_details usage) (co_output_tokens_details k)\<rparr>"
| "collect_event (ErrorEvent error) k = k\<lparr>co_error := Some error\<rparr>"
| "collect_event _ k = k"

definition seed_usage :: "json \<Rightarrow> collector \<Rightarrow> collector" where
  "seed_usage data k =
     (case response_usage_of data of
        Some usage \<Rightarrow> k\<lparr>co_input_tokens := amu_input_tokens usage,
          co_output_tokens := amu_output_tokens usage,
          co_output_tokens_details := amu_output_tokens_details usage\<rparr>
      | None \<Rightarrow> k)"

definition process :: "json_codec \<Rightarrow> (string \<Rightarrow> string) \<Rightarrow> sse_event \<Rightarrow> collector \<Rightarrow> collector" where
  "process J sha ev k =
     (let k1 = seed_usage (se_data ev) k;
          (inner, es) = convert J sha ev (co_inner k1)
      in fold collect_event es (k1\<lparr>co_inner := inner\<rparr>))"

definition parsed_input :: "json_codec \<Rightarrow> string \<Rightarrow> json" where
  "parsed_input J input = (case from_json_str J input of Inr v \<Rightarrow> v | Inl _ \<Rightarrow> JObj [])"

fun response_block :: "json_codec \<Rightarrow> accumulated_block \<Rightarrow> anthropic_response_content_block" where
  "response_block J (AccText t) = RbText t"
| "response_block J (AccThinking t s) = RbThinking t s"
| "response_block J (AccToolUse i name input) = RbToolUse i name (parsed_input J input)"
| "response_block J (AccServerToolUse i name input) = RbServerToolUse i name (parsed_input J input)"
| "response_block J (AccWebSearchToolResult i content) = RbWebSearchToolResult i content"

definition into_response ::
  "json_codec \<Rightarrow> string \<Rightarrow> collector \<Rightarrow> anthropic_error_body + anthropic_message_response" where
  "into_response J uuid k =
     (case co_error k of
        Some error \<Rightarrow> Inl error
      | None \<Rightarrow> Inr \<lparr>
          amr_id = (case co_message_id k of Some i \<Rightarrow> i | None \<Rightarrow> ''msg_'' @ uuid),
          amr_kind = ''message'', amr_role = ''assistant'',
          amr_content = map (response_block J) (co_blocks k),
          amr_model = or_default (co_model k),
          amr_stop_reason = (case co_stop_reason k of Some r \<Rightarrow> r | None \<Rightarrow> ''end_turn''),
          amr_stop_sequence = co_stop_sequence k,
          amr_usage = \<lparr>amu_input_tokens = co_input_tokens k, amu_output_tokens = co_output_tokens k,
            amu_output_tokens_details = co_output_tokens_details k\<rparr>\<rparr>)"

subsection \<open>Collecting is folding the stream\<close>

lemma seed_usage_keeps [simp]:
  "co_inner (seed_usage data k) = co_inner k" "co_blocks (seed_usage data k) = co_blocks k"
  "co_current_block (seed_usage data k) = co_current_block k"
  "co_error (seed_usage data k) = co_error k"
  by (simp_all add: seed_usage_def split: option.split)

lemma collect_event_inner [simp]: "co_inner (collect_event e k) = co_inner k"
  by (cases e) (simp_all split: option.split)

lemma fold_collect_inner [simp]: "co_inner (fold collect_event es k) = co_inner k"
  by (induction es arbitrary: k) simp_all

text \<open>The parts of a collector that do not depend on usage.\<close>

definition same_blocks :: "collector \<Rightarrow> collector \<Rightarrow> bool" where
  "same_blocks k l \<longleftrightarrow> co_blocks k = co_blocks l \<and> co_current_block k = co_current_block l
     \<and> co_error k = co_error l"

lemma same_blocks_event: "same_blocks k l \<Longrightarrow> same_blocks (collect_event e k) (collect_event e l)"
  by (cases e) (auto simp: same_blocks_def split: option.split)

lemma same_blocks_fold: "same_blocks k l \<Longrightarrow> same_blocks (fold collect_event es k) (fold collect_event es l)"
  by (induction es arbitrary: k l) (simp_all add: same_blocks_event)

lemma collected_is_folded:
  "same_blocks (fold (process J sha) evs k)
     (fold collect_event (snd (emit_all (convert J sha) evs (co_inner k))) k)
   \<and> co_inner (fold (process J sha) evs k) = fst (emit_all (convert J sha) evs (co_inner k))"
proof (induction evs arbitrary: k)
  case Nil
  then show ?case by (simp add: same_blocks_def no_step_def)
next
  case (Cons ev evs)
  obtain inner es where c: "convert J sha ev (co_inner k) = (inner, es)" by (metis prod.collapse)
  define k1 where "k1 = process J sha ev k"
  have k1: "co_inner k1 = inner" "same_blocks k1 (fold collect_event es k)"
    by (simp_all add: k1_def process_def Let_def c same_blocks_fold)
      (rule same_blocks_fold, simp add: same_blocks_def)
  from Cons.IH [of k1] have
    "same_blocks (fold (process J sha) evs k1)
       (fold collect_event (snd (emit_all (convert J sha) evs inner)) k1)"
    "co_inner (fold (process J sha) evs k1) = fst (emit_all (convert J sha) evs inner)"
    by (simp_all add: k1(1))
  moreover have "same_blocks (fold collect_event (snd (emit_all (convert J sha) evs inner)) k1)
      (fold collect_event (snd (emit_all (convert J sha) evs inner)) (fold collect_event es k))"
    by (rule same_blocks_fold [OF k1(2)])
  ultimately show ?case
    by (simp add: k1_def [symmetric] c fst_then_emit snd_then_emit same_blocks_def)
qed

subsection \<open>Completion\<close>

lemma completed_close [simp]: "ac_completed (fst (close_open_block c)) = ac_completed c"
  by (simp add: close_open_block_def split: option.split content_block_state.split)

lemma completed_kept [simp]:
  "ac_completed (fst (flush_reasoning_terminal sha clean c)) = ac_completed c"
  "ac_completed (fst (emit_terminal data c)) = ac_completed c"
  by (simp_all add: flush_reasoning_terminal_def flush_reasoning_as_thinking_def
      emit_thinking_block_def emit_promoted_block_def emit_terminal_def Let_def fst_then_emit upd_def
      upd_reasoning_def split: prod.split option.split)

subsection \<open>Text of the stream and of the response\<close>

fun streamed_text :: "anthropic_stream_event \<Rightarrow> string" where
  "streamed_text (ContentBlockDelta _ (TextDelta t)) = t"
| "streamed_text _ = []"

fun acc_text :: "accumulated_block \<Rightarrow> string" where
  "acc_text (AccText t) = t"
| "acc_text _ = []"

fun response_text :: "anthropic_response_content_block \<Rightarrow> string" where
  "response_text (RbText t) = t"
| "response_text _ = []"

lemma response_text_block: "response_text (response_block J b) = acc_text b"
  by (cases b) simp_all

definition collected_text :: "collector \<Rightarrow> string" where
  "collected_text k = concat (map acc_text (co_blocks k)) @
     (case co_current_block k of None \<Rightarrow> [] | Some b \<Rightarrow> acc_text b)"

text \<open>The open block of the acceptor is the current block of the collector.\<close>

fun kind_matches :: "block_kind \<Rightarrow> accumulated_block \<Rightarrow> bool" where
  "kind_matches KText (AccText _) = True"
| "kind_matches KTool (AccToolUse _ _ _) = True"
| "kind_matches KTool (AccServerToolUse _ _ _) = True"
| "kind_matches (KThinking _) (AccThinking _ _) = True"
| "kind_matches KResult (AccWebSearchToolResult _ _) = True"
| "kind_matches _ _ = False"

definition in_step :: "stream_shape \<Rightarrow> collector \<Rightarrow> bool" where
  "in_step s k \<longleftrightarrow> (case sh_open s of None \<Rightarrow> co_current_block k = None
     | Some (_, kind) \<Rightarrow> (\<exists>b. co_current_block k = Some b \<and> kind_matches kind b))"

lemma kind_of_start_matches: "kind_matches (kind_of_start b) (block_of_start b)"
  by (cases b) simp_all

lemma delta_matches:
  "after_delta kind d = Some kind' \<Longrightarrow> kind_matches kind b \<Longrightarrow>
     kind_matches kind' (add_delta b d)
     \<and> acc_text (add_delta b d) = acc_text b @ streamed_text (ContentBlockDelta i d)"
  by (cases kind; cases d; cases b) (auto split: if_splits)

lemma acc_text_start [simp]: "acc_text (block_of_start b) = []"
  by (cases b) simp_all

lemma collect_in_step:
  assumes "advance s e = Some s'" and "in_step s k"
  shows "in_step s' (collect_event e k)
    \<and> collected_text (collect_event e k) = collected_text k @ streamed_text e"
proof (cases e)
  case (ContentBlockDelta i d)
  with assms obtain kind kind' b where "sh_open s = Some (i, kind)" "after_delta kind d = Some kind'"
    "s' = s\<lparr>sh_open := Some (i, kind')\<rparr>" "co_current_block k = Some b" "kind_matches kind b"
    by (auto simp: in_step_def split: option.splits if_splits prod.splits)
  with delta_matches [of kind d kind' b i] ContentBlockDelta show ?thesis
    by (simp add: in_step_def collected_text_def)
next
  case (ContentBlockStop i)
  with assms show ?thesis
    by (auto simp: in_step_def collected_text_def split: option.splits if_splits prod.splits)
qed (use assms kind_of_start_matches in
  \<open>auto simp: in_step_def collected_text_def split: if_splits option.splits prod.splits\<close>)

lemma collect_all_in_step:
  "advance_all (Some s) es = Some t \<Longrightarrow> in_step s k \<Longrightarrow>
     in_step t (fold collect_event es k)
     \<and> collected_text (fold collect_event es k) = collected_text k @ concat (map streamed_text es)"
proof (induction es arbitrary: s k)
  case (Cons e es)
  from Cons.prems(1) obtain s1 where s1: "advance s e = Some s1" "advance_all (Some s1) es = Some t"
    by (rule advance_all_Cons)
  from collect_in_step [OF s1(1) Cons.prems(2)] Cons.IH [OF s1(2)] show ?case by simp
qed simp

lemma collect_error:
  "co_error (fold collect_event es k) \<noteq> None \<longleftrightarrow>
     co_error k \<noteq> None \<or> (\<exists>b. ErrorEvent b \<in> set es)"
proof (induction es arbitrary: k)
  case (Cons e es)
  have "co_error (collect_event e k) \<noteq> None \<longleftrightarrow> co_error k \<noteq> None \<or> (\<exists>b. e = ErrorEvent b)"
    by (cases e) (auto split: option.split)
  with Cons.IH [of "collect_event e k"] show ?case by auto
qed simp

text \<open>A turn the engine ended with a terminal event: the stream is complete before finalizing.\<close>

lemma completed_by_terminal:
  assumes "is_terminal_event (last evs)" and "evs \<noteq> []"
  shows "ac_completed (fst (emit_all (convert J sha) evs c))"
proof -
  have evs: "evs = butlast evs @ [last evs]" using assms(2) by simp
  have fin: "ac_completed (fst (convert J sha ev c))" if "is_terminal_event ev" for ev c
    using that
    by (auto simp: is_terminal_event_def convert_def Let_def handle_failed_def handle_completed_def
        fst_then_emit upd_def completed_kept)
  show ?thesis
    by (subst evs) (simp add: emit_all_append fst_then_emit no_step_def fin [OF assms(1)])
qed

lemma terminal_completes:
  assumes "engine_turn evs" and "is_terminal_event (last evs)"
  shows "snd (convert_stream J sha evs c) = snd (emit_all (convert J sha) evs c)"
proof -
  have "evs \<noteq> []" using assms(1) by (auto simp: engine_turn_def)
  from completed_by_terminal [OF assms(2) this] show ?thesis
    by (simp add: convert_stream_def snd_then_emit finalize_completed)
qed

text \<open>A failure that follows the terminal event of a turn is one error event more.\<close>

lemma failed_late:
  assumes "is_terminal_event (last evs)" and "evs \<noteq> []" and f: "se_event ev = ''response.failed''"
  shows "snd (convert_stream J sha (evs @ [ev]) c) = snd (convert_stream J sha evs c) @ [error_event (se_data ev)]"
  by (simp add: convert_stream_def emit_all_append snd_then_emit fst_then_emit no_step_def convert_def f
      handle_failed_def error_event_def finalize_completed completed_by_terminal [OF assms(1,2)] Let_def)

lemma closed_at_end:
  "advance_all (Some s) es = Some t \<Longrightarrow> \<not> (\<exists>b. ErrorEvent b \<in> set es) \<Longrightarrow>
     (sh_stage s \<in> {Closing, Finished} \<longrightarrow> sh_open s = None) \<Longrightarrow>
     sh_stage t \<in> {Closing, Finished} \<longrightarrow> sh_open t = None"
proof (induction es arbitrary: s)
  case (Cons e es)
  from Cons.prems(1) obtain s1 where s1: "advance s e = Some s1" "advance_all (Some s1) es = Some t"
    by (rule advance_all_Cons)
  from s1(1) Cons.prems(2, 3) have "sh_stage s1 \<in> {Closing, Finished} \<longrightarrow> sh_open s1 = None"
    by (cases e) (auto split: if_splits option.splits)
  with Cons.IH [OF s1(2)] Cons.prems(2) show ?case by simp
qed simp

text \<open>
  The streaming and the non-streaming surface agree: for every completed turn, the text of the
  collected response is the text of the stream, and the collector reports an error exactly when
  the stream ends with one.
\<close>

theorem collected_text_is_streamed_text:
  assumes "engine_turn evs" and "is_terminal_event (last evs)"
    and "es = snd (convert_stream J sha evs (with_reasoning_suppression uuid model suppress))"
  shows "case into_response J other_uuid (fold (process J sha) evs (collector_new uuid model suppress)) of
     Inl _ \<Rightarrow> \<exists>b. ErrorEvent b \<in> set es
   | Inr response \<Rightarrow> \<not> (\<exists>b. ErrorEvent b \<in> set es)
       \<and> concat (map response_text (amr_content response)) = concat (map streamed_text es)"
proof -
  let ?k = "collector_new uuid model suppress"
  let ?r = "fold (process J sha) evs ?k"
  have k: "co_inner ?k = with_reasoning_suppression uuid model suppress" "co_error ?k = None"
    "co_blocks ?k = []" "co_current_block ?k = None" by (simp_all add: collector_new_def)
  have es: "es = snd (emit_all (convert J sha) evs (co_inner ?k))"
    by (simp add: assms(3) terminal_completes [OF assms(1, 2)] k)
  from collected_is_folded [of J sha evs ?k, folded es]
  have same: "same_blocks ?r (fold collect_event es ?k)" ..
  obtain t where t: "advance_all (Some idle_shape) es = Some t" "sh_stage t = Finished"
    using converter_stream_ok [OF assms(1), of J sha uuid model suppress]
    by (auto simp: assms(3) stream_ok_def split: option.splits)
  have "in_step idle_shape ?k" by (simp add: in_step_def idle_shape_def k)
  from collect_all_in_step [OF t(1) this]
  have end_step: "in_step t (fold collect_event es ?k)"
    "collected_text (fold collect_event es ?k) = concat (map streamed_text es)"
    by (simp_all add: collected_text_def k)
  have err: "co_error ?r \<noteq> None \<longleftrightarrow> (\<exists>b. ErrorEvent b \<in> set es)"
    using same collect_error [of es ?k] by (simp add: same_blocks_def k)
  show ?thesis
  proof (cases "co_error ?r")
    case (Some e)
    with err show ?thesis by (simp add: into_response_def)
  next
    case None
    with err have ok: "\<not> (\<exists>b. ErrorEvent b \<in> set es)" by simp
    from closed_at_end [OF t(1) ok] t(2) have "sh_open t = None" by (simp add: idle_shape_def)
    with end_step same have "concat (map acc_text (co_blocks ?r)) = concat (map streamed_text es)"
      by (simp add: in_step_def collected_text_def same_blocks_def)
    with None ok show ?thesis by (simp add: into_response_def comp_def response_text_block)
  qed
qed

theorem collected_text_is_streamed_text_witness:
  "let J = \<lparr>to_json_string = (\<lambda>_. ''{}''), from_json_str = (\<lambda>_. Inl [])\<rparr>;
       es = snd (convert_stream J (\<lambda>_. ''00'') sample_turn_events
              (with_reasoning_suppression ''u'' ''m'' False)) in
   case into_response J ''v'' (fold (process J (\<lambda>_. ''00'')) sample_turn_events
          (collector_new ''u'' ''m'' False)) of
     Inl _ \<Rightarrow> \<exists>b. ErrorEvent b \<in> set es
   | Inr response \<Rightarrow> \<not> (\<exists>b. ErrorEvent b \<in> set es)
       \<and> concat (map response_text (amr_content response)) = concat (map streamed_text es)"
  unfolding Let_def
  by (rule collected_text_is_streamed_text [OF _ _ refl])
    (simp_all add: engine_turn_def sample_turn_events_def sample_event_def is_terminal_event_def)

subsection \<open>Text of the turn and of the stream\<close>

definition incoming_text :: "sse_event \<Rightarrow> string" where
  "incoming_text ev = (if se_event ev = ''response.output_text.delta''
     then (case json_get_str (se_data ev) ''delta'' of Some d \<Rightarrow> d | None \<Rightarrow> []) else [])"

text \<open>The late-reasoning gate is closed whenever a text block is open.\<close>

definition text_open :: "converter \<Rightarrow> bool" where
  "text_open c \<longleftrightarrow> (case ac_open_block c of Some (BText _) \<Rightarrow> rg_content_started (ac_reasoning c)
     | _ \<Rightarrow> True)"

text \<open>
  A step that streams the text \<open>t\<close>, and never forgets that content has started.
\<close>

definition streams :: "string \<Rightarrow> cstep \<Rightarrow> bool" where
  "streams t f \<longleftrightarrow> (\<forall>c. concat (map streamed_text (snd (f c))) = t
     \<and> (rg_content_started (ac_reasoning c) \<longrightarrow> rg_content_started (ac_reasoning (fst (f c))))
     \<and> (text_open c \<longrightarrow> text_open (fst (f c))))"

named_theorems silent \<open>steps that stream no text\<close>

lemma streams_then: "streams t f \<Longrightarrow> streams u g \<Longrightarrow> streams (t @ u) (then_emit f g)"
  by (simp add: streams_def fst_then_emit snd_then_emit)

lemma silent_then [silent]: "streams [] f \<Longrightarrow> streams [] g \<Longrightarrow> streams [] (then_emit f g)"
  using streams_then by fastforce

lemma silent_no_step [silent]: "streams [] no_step" "streams [] (\<lambda>c. (c, []))"
  by (simp_all add: streams_def no_step_def)

lemma silent_choice [silent]:
  "streams t f \<Longrightarrow> streams t g \<Longrightarrow> streams t (\<lambda>c. if b c then f c else g c)"
  "(b' \<Longrightarrow> streams t f) \<Longrightarrow> (\<not> b' \<Longrightarrow> streams t g) \<Longrightarrow> streams t (if b' then f else g)"
  by (simp_all add: streams_def)

lemma silent_option [silent]:
  "streams t g \<Longrightarrow> (\<And>x. streams t (h x)) \<Longrightarrow> streams t (case opt of None \<Rightarrow> g | Some x \<Rightarrow> h x)"
  "streams t g \<Longrightarrow> (\<And>x. streams t (h x)) \<Longrightarrow>
     streams t (\<lambda>c. case opt of None \<Rightarrow> g c | Some x \<Rightarrow> h x c)"
  by (cases opt; simp)+

lemma silent_upd:
  "(\<And>c. (rg_content_started (ac_reasoning c) \<longrightarrow> rg_content_started (ac_reasoning (f c)))
     \<and> ac_open_block (f c) = ac_open_block c) \<Longrightarrow> streams [] (upd f)"
  by (simp add: streams_def upd_def text_open_def split: option.split content_block_state.split)

lemma silent_basic [silent]:
  "streams [] ensure_started" "streams [] close_open_block"
  "streams [] (open_tool_block call_id name)"
  "streams [] (emit_search_blocks J data)" "streams [] (emit_thinking_block sha)"
  "streams [] (upd (mark_emitted call_id))" "streams [] (\<lambda>c. (mark_emitted call_id c, []))"
  "streams [] (upd (upd_reasoning note_content_started))" "streams [] (upd (upd_reasoning note_tool_calls))"
  by (simp_all add: streams_def ensure_started_def close_open_block_def
      open_tool_block_def emit_search_blocks_def emit_thinking_block_def Let_def
      upd_def mark_emitted_def upd_reasoning_def note_content_started_def note_tool_calls_def
      take_signature_def comp_def text_open_def
      split: option.split content_block_state.split)

lemma record_output_keeps [simp]:
  "ac_open_block (record_output_delta d c) = ac_open_block c"
  "text_open (record_output_delta d c) = text_open c"
proof -
  show "ac_open_block (record_output_delta d c) = ac_open_block c"
    by (simp add: record_output_delta_def Let_def)
  then show "text_open (record_output_delta d c) = text_open c"
    by (simp add: text_open_def split: option.split content_block_state.split)
qed

lemma silent_in_tool [silent]: "streams [] (emit_in_tool delta)"
  by (simp add: streams_def emit_in_tool_def split: option.split content_block_state.split)

lemma silent_flush [silent]: "streams [] (flush_reasoning_as_thinking sha)"
  unfolding flush_reasoning_as_thinking_def by (intro silent)

lemma begin_text_opens:
  "rg_content_started (ac_reasoning (fst (begin_text sha c)))"
  "\<exists>i. ac_open_block (fst (begin_text sha c)) = Some (BText i)"
  by (simp_all add: begin_text_def fst_then_emit start_text_block_def upd_def upd_reasoning_def
      note_content_started_def)

lemma silent_begin [silent]: "streams [] (begin_text sha)"
  using silent_flush [of sha] silent_basic(2) begin_text_opens [of sha]
  by (simp add: streams_def text_open_def begin_text_def snd_then_emit upd_def start_text_block_def
      split: option.split content_block_state.split)

lemma silent_ensure_tool [silent]: "streams [] (ensure_tool_block sha call_id name)"
  unfolding ensure_tool_block_def by (intro silent)

lemma silent_finish_tool [silent]: "streams [] (finish_tool_call sha call_id name arguments b)"
  unfolding finish_tool_call_def by (intro silent)

lemma streams_text_delta:
  "streams (case json_get_str data ''delta'' of Some d \<Rightarrow> d | None \<Rightarrow> []) (handle_text_delta sha data)"
proof (cases "json_get_str data ''delta''")
  case None
  then show ?thesis by (simp add: handle_text_delta_def) (intro silent)
next
  case (Some d)
  have "streams d (\<lambda>c. case ac_open_block c of Some (BText _) \<Rightarrow> emit_in_text d c
      | _ \<Rightarrow> then_emit (begin_text sha) (emit_in_text d) c)"
    unfolding streams_def
  proof (intro allI)
    fix c
    obtain i where i: "ac_open_block (fst (begin_text sha c)) = Some (BText i)"
      using begin_text_opens(2) by blast
    have "concat (map streamed_text (snd (begin_text sha c))) = []"
      using silent_begin [of sha] by (simp add: streams_def)
    with i begin_text_opens(1) [of sha c]
    show "concat (map streamed_text (snd (case ac_open_block c of Some (BText _) \<Rightarrow> emit_in_text d c
        | _ \<Rightarrow> then_emit (begin_text sha) (emit_in_text d) c))) = d
      \<and> (rg_content_started (ac_reasoning c) \<longrightarrow> rg_content_started (ac_reasoning (fst
        (case ac_open_block c of Some (BText _) \<Rightarrow> emit_in_text d c
        | _ \<Rightarrow> then_emit (begin_text sha) (emit_in_text d) c))))
      \<and> (text_open c \<longrightarrow> text_open (fst (case ac_open_block c of Some (BText _) \<Rightarrow> emit_in_text d c
        | _ \<Rightarrow> then_emit (begin_text sha) (emit_in_text d) c)))"
      by (cases "ac_open_block c"; cases "the (ac_open_block c)")
        (simp_all add: emit_in_text_def fst_then_emit snd_then_emit text_open_def)
  qed
  then have "streams ([] @ d) (handle_text_delta sha data)"
    unfolding handle_text_delta_def Some option.case
    by (intro streams_then silent_basic)
  then show ?thesis by (simp add: Some)
qed

lemma silent_handlers [silent]:
  "streams [] (handle_created data)" "streams [] (handle_item_added sha data)"
  "streams [] (handle_reasoning_delta data)" "streams [] (handle_reasoning_signature_delta data)"
  "streams [] (handle_function_call_arguments_delta sha data)"
  "streams [] (handle_function_call_arguments_done sha data)" "streams [] (suppressed_reasoning data)"
  "streams [] (handle_web_search_results J sha data)"
  unfolding handle_created_def handle_item_added_def handle_reasoning_delta_def
    handle_reasoning_signature_delta_def handle_function_call_arguments_delta_def
    handle_function_call_arguments_done_def suppressed_reasoning_def handle_web_search_results_def
    stream_tool_delta_def
  by (intro silent silent_upd;
      simp add: upd_reasoning_def push_reasoning_def push_signature_def record_output_delta_def Let_def)+

lemma silent_item_done [silent]: "streams [] (handle_item_done sha data)"
proof -
  have "streams [] (\<lambda>c. case ac_open_block c of Some (BText _) \<Rightarrow> close_open_block c | _ \<Rightarrow> (c, []))"
    unfolding streams_def
    by (simp add: close_open_block_def text_open_def split: option.split content_block_state.split)
  then show ?thesis
    unfolding handle_item_done_def emit_tool_use_block_def Let_def by (intro silent)
qed

lemma convert_streams: "\<not> is_terminal_event ev \<Longrightarrow> streams (incoming_text ev) (convert J sha ev)"
proof (cases "se_event ev = ''response.output_text.delta''")
  case True
  with streams_text_delta [of "se_data ev" sha] show ?thesis
    by (simp add: convert_def Let_def incoming_text_def)
next
  case False
  assume "\<not> is_terminal_event ev"
  with False show ?thesis
    unfolding convert_def Let_def is_terminal_event_def incoming_text_def
    by (simp only: if_False) (intro silent; simp)
qed

definition carries_text :: "sse_event \<Rightarrow> bool" where
  "carries_text ev \<longleftrightarrow> se_event ev = ''response.output_text.delta''
     \<and> json_get_str (se_data ev) ''delta'' \<noteq> None"

lemma streams_all:
  "list_all (\<lambda>ev. \<not> is_terminal_event ev) evs \<Longrightarrow>
     streams (concat (map incoming_text evs)) (emit_all (convert J sha) evs)"
  by (induction evs) (simp_all add: silent_no_step convert_streams streams_then)

lemma text_closes_gate:
  assumes "carries_text ev" and "text_open c"
  shows "rg_content_started (ac_reasoning (fst (convert J sha ev c)))"
proof -
  obtain d where d: "json_get_str (se_data ev) ''delta'' = Some d"
    using assms(1) by (auto simp: carries_text_def)
  have c1: "text_open (fst (ensure_started c))"
    using silent_basic(1) assms(2) by (simp add: streams_def)
  show ?thesis
    using assms(1) c1 begin_text_opens [of sha "fst (ensure_started c)"]
    by (cases "ac_open_block (fst (ensure_started c))"; cases "the (ac_open_block (fst (ensure_started c)))")
      (auto simp: carries_text_def convert_def handle_text_delta_def d fst_then_emit emit_in_text_def
        text_open_def)
qed

lemma gate_after:
  assumes "list_all (\<lambda>ev. \<not> is_terminal_event ev) evs" and "list_ex carries_text evs" and "text_open c"
  shows "rg_content_started (ac_reasoning (fst (emit_all (convert J sha) evs c)))"
  using assms
proof (induction evs arbitrary: c)
  case (Cons ev evs)
  let ?c = "fst (convert J sha ev c)"
  from Cons.prems have s: "streams (incoming_text ev) (convert J sha ev)"
    "streams (concat (map incoming_text evs)) (emit_all (convert J sha) evs)"
    by (simp_all add: convert_streams streams_all)
  show ?case
  proof (cases "carries_text ev")
    case True
    from text_closes_gate [OF this Cons.prems(3)] s(2) show ?thesis
      by (simp add: streams_def fst_then_emit)
  next
    case False
    have "text_open ?c" using s(1) Cons.prems(3) by (simp add: streams_def)
    with Cons False show ?thesis by (simp add: fst_then_emit)
  qed
qed simp

lemma terminal_streams_nothing:
  assumes "is_terminal_event ev" and "rg_content_started (ac_reasoning c)"
  shows "concat (map streamed_text (snd (convert J sha ev c))) = []"
proof -
  have quiet: "concat (map streamed_text (snd (flush_reasoning_as_thinking sha c))) = []"
    "concat (map streamed_text (snd (close_open_block c))) = []"
    "concat (map streamed_text (snd (emit_terminal data c))) = []" for c data
    using silent_flush [of sha] silent_basic(2)
    by (simp_all add: streams_def emit_terminal_def Let_def split: prod.split)
  have "concat (map streamed_text (snd (flush_reasoning_terminal sha b d))) = []"
    if "rg_content_started (ac_reasoning d)" for b d
    using that quiet(1) by (simp add: flush_reasoning_terminal_def should_promote_def)
  from this [of "c\<lparr>ac_completed := True\<rparr>"] assms quiet show ?thesis
    by (auto simp: is_terminal_event_def convert_def Let_def handle_failed_def handle_completed_def
        snd_then_emit upd_def)
qed

text \<open>
  When the turn carries answer text, the text of the Anthropic stream is exactly the
  concatenation of the text deltas of the turn: nothing is lost, repeated or reordered, and no
  reasoning is promoted into it.
\<close>

theorem stream_text_is_turn_text:
  assumes "engine_turn evs" and "list_ex carries_text evs"
  shows "concat (map streamed_text
      (snd (convert_stream J sha evs (with_reasoning_suppression uuid model suppress))))
    = concat (map incoming_text evs)"
proof -
  let ?c = "with_reasoning_suppression uuid model suppress"
  have "text_open ?c" by (simp add: text_open_def with_reasoning_suppression_def)
  have fin: "concat (map streamed_text (snd (finalize_stream sha c))) = []" for c
  proof -
    have "streams [] (then_emit ensure_started (then_emit (flush_reasoning_as_thinking sha) close_open_block))"
      by (intro silent)
    then show ?thesis
      by (auto simp: finalize_stream_def snd_then_emit streams_def)
  qed
  have "concat (map streamed_text (snd (emit_all (convert J sha) evs ?c))) = concat (map incoming_text evs)"
  proof (cases "list_all (\<lambda>e. \<not> is_terminal_event e) evs")
    case True
    from streams_all [OF this] show ?thesis by (simp add: streams_def)
  next
    case False
    from assms(1) have ne: "evs \<noteq> []" by (auto simp: engine_turn_def)
    define xs x where "xs = butlast evs" and "x = last evs"
    have evs: "evs = xs @ [x]" using ne by (simp add: xs_def x_def)
    from assms(1) False have pre: "list_all (\<lambda>e. \<not> is_terminal_event e) xs"
      and t: "is_terminal_event x"
      by (auto simp: engine_turn_def is_terminal_event_def xs_def x_def split: list.splits)
    have inc: "incoming_text x = []" "\<not> carries_text x"
      using t by (auto simp: incoming_text_def carries_text_def is_terminal_event_def)
    with assms(2) have "list_ex carries_text xs" by (simp add: evs)
    from gate_after [OF pre this \<open>text_open ?c\<close>]
    have gate: "rg_content_started (ac_reasoning (fst (emit_all (convert J sha) xs ?c)))" .
    show ?thesis
      using streams_all [OF pre, of J sha] terminal_streams_nothing [OF t gate, of J sha] inc
      unfolding evs by (simp add: emit_all_append snd_then_emit no_step_def streams_def)
  qed
  then show ?thesis by (simp add: convert_stream_def snd_then_emit fin)
qed

theorem stream_text_is_turn_text_witness:
  "concat (map streamed_text (snd (convert_stream
      \<lparr>to_json_string = (\<lambda>_. ''{}''), from_json_str = (\<lambda>_. Inl [])\<rparr> (\<lambda>_. ''00'')
      sample_turn_events (with_reasoning_suppression ''u'' ''m'' False))))
    = concat (map incoming_text sample_turn_events)"
  by (rule stream_text_is_turn_text)
    (simp_all add: engine_turn_def sample_turn_events_def sample_event_def is_terminal_event_def
      carries_text_def json_get_str_def)

end
