(* ===== verification/Assoc_List.thy ===== *)
theory Assoc_List
  imports Main "HOL-Library.AList"
begin

text \<open>
  Hash maps as association lists with distinct keys: the automation the stores share, and a
  counter map.
\<close>

lemmas alist_simps [simp] = AList.update_conv' AList.delete_conv' AList.distinct_update
  AList.distinct_delete

lemma map_of_filter_values:
  "distinct (map fst m) \<Longrightarrow> map_of (filter (\<lambda>(k, v). P v) m) k
     = (case map_of m k of Some v \<Rightarrow> if P v then Some v else None | None \<Rightarrow> None)"
proof (induction m)
  case (Cons kv m)
  obtain k' v' where kv: "kv = (k', v')" by fastforce
  show ?case
  proof (cases "k = k'")
    case True
    with Cons.prems kv have "map_of m k = None" by (simp add: map_of_eq_None_iff)
    with Cons kv True show ?thesis by simp
  next
    case False
    with Cons kv show ?thesis by simp
  qed
qed simp

lemma distinct_keys_filter: "distinct (map fst m) \<Longrightarrow> distinct (map fst (filter P m))"
  by (induction m) auto

lemma length_alist_update: "length (AList.update k v m) = (if k \<in> fst ` set m then length m else Suc (length m))"
  by (induction m) auto

text \<open>The total weight of the values of a map.\<close>

definition weight :: "('v \<Rightarrow> nat) \<Rightarrow> ('k \<times> 'v) list \<Rightarrow> nat" where
  "weight f m = sum_list (map (\<lambda>(_, v). f v) m)"

definition weight_of :: "('v \<Rightarrow> nat) \<Rightarrow> 'v option \<Rightarrow> nat" where
  "weight_of f opt = (case opt of Some v \<Rightarrow> f v | None \<Rightarrow> 0)"

lemma weight_simps [simp]: "weight f [] = 0" "weight f ((k, v) # m) = f v + weight f m"
  by (simp_all add: weight_def)

lemma weight_update:
  "weight f (AList.update k v m) + weight_of f (map_of m k) = weight f m + f v"
  by (induction m) (auto simp: weight_of_def)

lemma weight_delete:
  "distinct (map fst m) \<Longrightarrow> weight f (AList.delete k m) + weight_of f (map_of m k) = weight f m"
proof (induction m)
  case (Cons kv m)
  obtain k' v' where kv: "kv = (k', v')" by fastforce
  show ?case
  proof (cases "k = k'")
    case True
    with Cons.prems kv have "AList.delete k m = m" by (simp add: delete_id)
    with kv True show ?thesis by (simp add: weight_of_def)
  next
    case False
    with Cons kv show ?thesis by simp
  qed
qed (simp add: weight_of_def)

lemma weight_mem: "map_of m k = Some v \<Longrightarrow> f v \<le> weight f m"
  by (induction m) (auto split: if_splits)

end
