(* ===== verification/Replay.thy ===== *)
theory Replay
  imports Models_Responses Assoc_List
begin

text \<open>
  The replay store (\<^verbatim>\<open>src/src/replay.rs\<close>): a bounded map from the hash of a visible history to
  the record of the turn that produced it, evicting the oldest key, and the lookup of the longest
  stored prefix of an input.  Every operation holds the store's lock for its whole body, so a
  concurrent execution is a sequence of operations.  The program keys a history by
  \<open>hash_visible_history\<close>; the operations take the key function as the argument \<open>key\<close>, so what is
  proved holds for every digest.
\<close>

subsection \<open>State and operations\<close>

record replay_record =
  rp_model :: string
  rp_instructions :: string
  rp_visible_history :: "response_item list"
  rp_internal_messages :: "chat_message list"

record replay_inner =
  ri_map :: "(string \<times> replay_record) list"
  ri_order :: "string list"
  ri_max_entries :: nat

type_synonym history_key = "string \<Rightarrow> string \<Rightarrow> response_item list \<Rightarrow> string"

text \<open>
  The digest of a history: \<open>sha\<close> is the hex SHA-256 of a byte string, \<open>to_vec\<close> prints a JSON value
  (\<open>None\<close> an error, for which the empty string is hashed) and \<open>item_value\<close> is the derived
  serialization of an item.
\<close>

definition hash_visible_history ::
  "(string \<Rightarrow> string) \<Rightarrow> (json \<Rightarrow> string option) \<Rightarrow> (response_item \<Rightarrow> json) \<Rightarrow> history_key" where
  "hash_visible_history sha to_vec item_value model instructions items =
     sha (case to_vec (jobj [(''model'', JStr model), (''instructions'', JStr instructions),
            (''items'', JArr (map item_value items))]) of
            Some bytes \<Rightarrow> bytes | None \<Rightarrow> [])"

definition replay_new :: "nat \<Rightarrow> replay_inner" where
  "replay_new max_entries = \<lparr>ri_map = [], ri_order = [], ri_max_entries = max_entries\<rparr>"

definition replay_len :: "replay_inner \<Rightarrow> nat" where
  "replay_len s = length (ri_map s)"

definition replay_is_empty :: "replay_inner \<Rightarrow> bool" where
  "replay_is_empty s = (replay_len s = 0)"

definition record_key :: "history_key \<Rightarrow> replay_record \<Rightarrow> string" where
  "record_key key r = key (rp_model r) (rp_instructions r) (rp_visible_history r)"

text \<open>Making room: when the store is full, the oldest key goes.\<close>

definition evict_oldest :: "replay_inner \<Rightarrow> replay_inner" where
  "evict_oldest s =
     (if 0 < ri_max_entries s \<and> ri_max_entries s \<le> replay_len s
      then (case ri_order s of
              oldest # rest \<Rightarrow> s\<lparr>ri_order := rest, ri_map := AList.delete oldest (ri_map s)\<rparr>
            | [] \<Rightarrow> s)
      else s)"

definition replay_insert :: "history_key \<Rightarrow> replay_record \<Rightarrow> replay_inner \<Rightarrow> replay_inner" where
  "replay_insert key r s =
     (let k = record_key key r in
      if map_of (ri_map s) k \<noteq> None then s\<lparr>ri_map := AList.update k r (ri_map s)\<rparr>
      else (let s = evict_oldest s
            in s\<lparr>ri_order := ri_order s @ [k], ri_map := AList.update k r (ri_map s)\<rparr>))"

text \<open>The loop over prefix lengths, from the longest down to the empty one.\<close>

fun match_from ::
  "history_key \<Rightarrow> replay_inner \<Rightarrow> string \<Rightarrow> string \<Rightarrow> response_item list \<Rightarrow> nat
     \<Rightarrow> replay_record option" where
  "match_from key s model instructions input len =
     (case map_of (ri_map s) (key model instructions (take len input)) of
        Some r \<Rightarrow> Some r
      | None \<Rightarrow> (case len of 0 \<Rightarrow> None
                 | Suc n \<Rightarrow> match_from key s model instructions input n))"

declare match_from.simps [simp del]

definition longest_prefix_match ::
  "history_key \<Rightarrow> replay_inner \<Rightarrow> string \<Rightarrow> string \<Rightarrow> response_item list \<Rightarrow> replay_record option"
where
  "longest_prefix_match key s model instructions input =
     match_from key s model instructions input (length input)"

subsection \<open>Invariant\<close>

definition replay_inv :: "replay_inner \<Rightarrow> bool" where
  "replay_inv s \<longleftrightarrow> distinct (map fst (ri_map s)) \<and> distinct (ri_order s)
     \<and> set (ri_order s) = dom (map_of (ri_map s))
     \<and> (0 < ri_max_entries s \<longrightarrow> length (ri_order s) \<le> ri_max_entries s)"

lemma replay_len_order: "replay_inv s \<Longrightarrow> replay_len s = length (ri_order s)"
  by (metis distinct_card dom_map_of_conv_image_fst image_set length_map replay_inv_def replay_len_def)

lemma replay_inv_new: "replay_inv (replay_new n)"
  by (simp add: replay_inv_def replay_new_def)

lemma replay_max [simp]: "ri_max_entries (evict_oldest s) = ri_max_entries s"
  "ri_max_entries (replay_insert key r s) = ri_max_entries s"
  by (simp_all add: evict_oldest_def replay_insert_def Let_def split: list.split)

lemma evict_inv:
  assumes "replay_inv s"
  shows "replay_inv (evict_oldest s) \<and> (0 < ri_max_entries s \<longrightarrow>
    length (ri_order (evict_oldest s)) < ri_max_entries s)
    \<and> dom (map_of (ri_map (evict_oldest s))) \<subseteq> dom (map_of (ri_map s))"
proof (cases "0 < ri_max_entries s \<and> ri_max_entries s \<le> replay_len s")
  case True
  then obtain oldest rest where o: "ri_order s = oldest # rest"
    using replay_len_order [OF assms] by (cases "ri_order s") auto
  with True assms show ?thesis by (auto simp: evict_oldest_def replay_inv_def)
next
  case False
  then show ?thesis
    using assms replay_len_order [OF assms] by (auto simp: evict_oldest_def)
qed

lemma insert_inv:
  assumes "replay_inv s"
  shows "replay_inv (replay_insert key r s)"
proof (cases "map_of (ri_map s) (record_key key r)")
  case (Some x)
  with assms show ?thesis by (auto simp: replay_insert_def Let_def replay_inv_def)
next
  case None
  with evict_inv [OF assms] show ?thesis
    by (auto simp: replay_insert_def Let_def replay_inv_def)
qed

lemma inserts_inv: "replay_inv s \<Longrightarrow> replay_inv (fold (replay_insert key) rs s)"
  by (induction rs arbitrary: s) (simp_all add: insert_inv)

lemma inserts_max: "ri_max_entries (fold (replay_insert key) rs s) = ri_max_entries s"
  by (induction rs arbitrary: s) simp_all

text \<open>
  In every reachable state the replay store tracks each stored key exactly once in insertion
  order and, when a bound is configured, never holds more entries than it.
\<close>

theorem replay_store_bounded:
  "replay_inv (fold (replay_insert key) rs (replay_new n))
   \<and> (if 0 < n then replay_len (fold (replay_insert key) rs (replay_new n)) \<le> n else True)"
proof -
  let ?s = "fold (replay_insert key) rs (replay_new n)"
  have "replay_inv ?s" by (rule inserts_inv [OF replay_inv_new])
  moreover have "ri_max_entries ?s = n" by (simp add: inserts_max) (simp add: replay_new_def)
  ultimately show ?thesis using replay_len_order [of ?s] by (simp add: replay_inv_def)
qed

subsection \<open>Lookup\<close>

lemma match_from_spec:
  "case match_from key s model instructions input len of
     None \<Rightarrow> (\<forall>n \<le> len. map_of (ri_map s) (key model instructions (take n input)) = None)
   | Some r \<Rightarrow> (\<exists>n \<le> len. map_of (ri_map s) (key model instructions (take n input)) = Some r
       \<and> (\<forall>m. n < m \<and> m \<le> len \<longrightarrow> map_of (ri_map s) (key model instructions (take m input)) = None))"
proof (induction len)
  case 0
  then show ?case
    by (subst match_from.simps) (auto split: option.split)
next
  case (Suc len)
  show ?case
  proof (cases "map_of (ri_map s) (key model instructions (take (Suc len) input))")
    case None
    then have "match_from key s model instructions input (Suc len)
        = match_from key s model instructions input len" by (subst match_from.simps) simp
    with Suc None show ?thesis
      by (auto simp: le_Suc_eq split: option.splits)
  next
    case (Some r)
    then have "match_from key s model instructions input (Suc len) = Some r"
      by (subst match_from.simps) simp
    with Some show ?thesis by auto
  qed
qed

text \<open>A record is stored under its own key.\<close>

definition keyed :: "history_key \<Rightarrow> replay_inner \<Rightarrow> bool" where
  "keyed key s \<longleftrightarrow> (\<forall>k r. map_of (ri_map s) k = Some r \<longrightarrow> record_key key r = k)"

lemma evict_map: "map_of (ri_map (evict_oldest s)) k = Some r \<Longrightarrow> map_of (ri_map s) k = Some r"
  by (auto simp: evict_oldest_def split: if_splits list.splits)

lemma insert_keyed: "keyed key s \<Longrightarrow> keyed key (replay_insert key r s)"
  by (auto simp: keyed_def replay_insert_def Let_def dest: evict_map)

lemma inserts_keyed: "keyed key s \<Longrightarrow> keyed key (fold (replay_insert key) rs s)"
  by (induction rs arbitrary: s) (simp_all add: insert_keyed)

lemma keyed_new: "keyed key (replay_new n)"
  by (simp add: keyed_def replay_new_def)

text \<open>
  In every reachable store the lookup finds the longest recorded prefix of the input: it returns
  nothing only when no prefix of the input is stored under the model and instructions, and otherwise
  it returns a record whose own key is that of a prefix, while no longer prefix is stored.
\<close>

theorem longest_prefix_is_longest:
  "let s = fold (replay_insert key) rs (replay_new n) in
   case longest_prefix_match key s model instructions input of
     None \<Rightarrow> list_all (\<lambda>i. map_of (ri_map s) (key model instructions (take i input)) = None)
       [0 ..< Suc (length input)]
   | Some r \<Rightarrow> (\<exists>i. i \<le> length input \<and> record_key key r = key model instructions (take i input)
       \<and> map_of (ri_map s) (record_key key r) = Some r
       \<and> list_all (\<lambda>m. map_of (ri_map s) (key model instructions (take m input)) = None)
           [Suc i ..< Suc (length input)])"
proof -
  define s where "s = fold (replay_insert key) rs (replay_new n)"
  have k: "map_of (ri_map s) k = Some r \<Longrightarrow> record_key key r = k" for k r
    using inserts_keyed [OF keyed_new, of key rs n] unfolding s_def [symmetric] keyed_def by blast
  note spec = match_from_spec [where key = key and s = s and model = model
      and instructions = instructions and input = input and len = "length input"]
  show ?thesis
  proof (cases "match_from key s model instructions input (length input)")
    case None
    with spec show ?thesis
      unfolding s_def [symmetric] Let_def
      by (simp add: longest_prefix_match_def list_all_iff less_Suc_eq_le del: upt_Suc)
  next
    case (Some r)
    with spec obtain i where i: "i \<le> length input"
      "map_of (ri_map s) (key model instructions (take i input)) = Some r"
      "\<And>m. i < m \<Longrightarrow> m \<le> length input \<Longrightarrow> map_of (ri_map s) (key model instructions (take m input)) = None"
      by auto
    with Some k [OF i(2)] show ?thesis
      unfolding s_def [symmetric] Let_def
      by (auto simp: longest_prefix_match_def list_all_iff simp del: upt_Suc intro!: exI [of _ i])
  qed
qed

subsection \<open>Retention\<close>

text \<open>The position of a stored key in the eviction order is how many fresh keys it survives.\<close>

lemma insert_keeps_key:
  assumes "replay_inv s" and "ri_order s = xs @ k # ys" and "length ys + 1 < ri_max_entries s"
  shows "\<exists>xs' ys'. ri_order (replay_insert key r s) = xs' @ k # ys' \<and> length ys' \<le> length ys + 1"
proof (cases "map_of (ri_map s) (record_key key r)")
  case (Some x)
  with assms(2) show ?thesis
    by (intro exI [of _ xs] exI [of _ ys]) (simp add: replay_insert_def Let_def)
next
  case None
  show ?thesis
  proof (cases "0 < ri_max_entries s \<and> ri_max_entries s \<le> replay_len s")
    case full: True
    with assms replay_len_order [OF assms(1)] have "xs \<noteq> []" by auto
    then obtain x xs' where "xs = x # xs'" by (cases xs) auto
    with assms(2) None full show ?thesis
      by (intro exI [of _ xs'] exI [of _ "ys @ [record_key key r]"])
        (simp add: replay_insert_def Let_def evict_oldest_def)
  next
    case False
    then have "evict_oldest s = s" by (auto simp: evict_oldest_def)
    with assms(2) None show ?thesis
      by (simp add: replay_insert_def Let_def)
        (rule exI [of _ xs], rule exI [of _ "ys @ [record_key key r]"], simp)
  qed
qed

lemma inserts_keep_key:
  assumes "replay_inv s" and "ri_order s = xs @ k # ys"
    and "length ys + length rs < ri_max_entries s"
  shows "k \<in> dom (map_of (ri_map (fold (replay_insert key) rs s)))"
  using assms
proof (induction rs arbitrary: s xs ys)
  case Nil
  then show ?case by (auto simp: replay_inv_def)
next
  case (Cons r rs)
  then have "length ys + 1 < ri_max_entries s" by simp
  from insert_keeps_key [OF Cons.prems(1, 2) this, of key r] obtain xs' ys' where
    o: "ri_order (replay_insert key r s) = xs' @ k # ys'" "length ys' \<le> length ys + 1" by blast
  with Cons.prems Cons.IH [OF insert_inv [OF Cons.prems(1)] o(1)] show ?case by simp
qed

text \<open>
  A freshly recorded turn stays available while fewer other turns are recorded than the store
  has room for: after inserting a record into any reachable store and then fewer further records
  than the bound, its key is still stored.
\<close>

theorem recent_record_retained:
  assumes "map_of (ri_map (fold (replay_insert key) earlier (replay_new n))) (record_key key r) = None"
    and "length later < n"
  shows "map_of (ri_map (fold (replay_insert key) later
      (replay_insert key r (fold (replay_insert key) earlier (replay_new n))))) (record_key key r) \<noteq> None"
proof -
  define s where "s = fold (replay_insert key) earlier (replay_new n)"
  have inv: "replay_inv s" unfolding s_def by (rule inserts_inv [OF replay_inv_new])
  have "ri_max_entries s = n" by (simp add: s_def inserts_max) (simp add: replay_new_def)
  then have m: "ri_max_entries (replay_insert key r s) = n" by simp
  have "map_of (ri_map s) (record_key key r) = None" using assms(1) by (simp add: s_def)
  then have "ri_order (replay_insert key r s) = ri_order (evict_oldest s) @ record_key key r # []"
    by (simp add: replay_insert_def Let_def)
  from inserts_keep_key [OF insert_inv [OF inv] this] assms(2) m
  show ?thesis by (simp add: s_def domIff)
qed

definition sample_record :: "string \<Rightarrow> replay_record" where
  "sample_record m = \<lparr>rp_model = m, rp_instructions = [], rp_visible_history = [],
     rp_internal_messages = []\<rparr>"

theorem recent_record_retained_witness:
  "map_of (ri_map (fold (replay_insert (\<lambda>m i h. m)) [sample_record ''c'']
      (replay_insert (\<lambda>m i h. m) (sample_record ''b'')
        (fold (replay_insert (\<lambda>m i h. m)) [sample_record ''a''] (replay_new 2)))))
     (record_key (\<lambda>m i h. m) (sample_record ''b'')) \<noteq> None"
  by (rule recent_record_retained)
    (simp_all add: replay_insert_def evict_oldest_def replay_new_def record_key_def sample_record_def
      replay_len_def Let_def)

end
