(* ===== verification/Chat_Request.thy ===== *)
theory Chat_Request
  imports Lowering
begin

text \<open>
  Inbound Chat Completions requests as Responses requests (the request half of
  \<^verbatim>\<open>src/src/adapters/chat_completions.rs\<close>).  Fresh UUIDs come from the supply \<open>U\<close>, whose position
  is threaded; items are pushed to an output vector, so a conversion returns what it pushed.
  JSON printing is the parameter \<open>J\<close>; printing a \<^verbatim>\<open>Value\<close> cannot fail, so the error branch of
  \<^verbatim>\<open>arguments_to_string\<close> is not reachable.
\<close>

subsection \<open>Content\<close>

definition text_content_item :: "string \<Rightarrow> string \<Rightarrow> content_item" where
  "text_content_item role txt = (if role = ''assistant'' then OutputText txt else InputText txt)"

definition chat_optional_string :: "json_map \<Rightarrow> string \<Rightarrow> string option" where
  "chat_optional_string object key = Option.bind (obj_get object key) as_str"

definition extract_image_url :: "json_map \<Rightarrow> string option" where
  "extract_image_url object =
     (case Option.bind (obj_get object ''image_url'') (\<lambda>value. case value of
             JStr url \<Rightarrow> Some url
           | JObj m \<Rightarrow> Option.bind (obj_get m ''url'') as_str
           | _ \<Rightarrow> None) of
        Some url \<Rightarrow> Some url
      | None \<Rightarrow> Option.bind (obj_get object ''url'') as_str)"

definition extract_image_detail :: "json_map \<Rightarrow> string option" where
  "extract_image_detail object =
     (case chat_optional_string object ''detail'' of
        Some d \<Rightarrow> Some d
      | None \<Rightarrow> Option.bind (Option.bind (obj_get object ''image_url'') as_object)
                  (\<lambda>m. chat_optional_string m ''detail''))"

definition chat_content_part_text :: "json_codec \<Rightarrow> json \<Rightarrow> string option" where
  "chat_content_part_text J part =
     (case json_get_str part ''text'' of
        Some txt \<Rightarrow> Some txt
      | None \<Rightarrow> if is_null part then None else Some (to_json_string J part))"

definition chat_content_part_to_response_content ::
  "json_codec \<Rightarrow> string \<Rightarrow> json \<Rightarrow> content_item option" where
  "chat_content_part_to_response_content J role part =
     (case as_object part of
        None \<Rightarrow> None
      | Some object \<Rightarrow>
          (let kind = (case Option.bind (obj_get object ''type'') as_str of
                         Some k \<Rightarrow> k | None \<Rightarrow> []) in
           if kind = ''image_url'' then
             map_option (\<lambda>image_url.
               if role = ''assistant'' then text_content_item role (to_json_string J part)
               else InputImage (Some image_url) None (extract_image_detail object))
               (extract_image_url object)
           else if kind = ''input_image'' then
             (if role = ''assistant'' then Some (text_content_item role (to_json_string J part))
              else Some (InputImage (extract_image_url object)
                     (chat_optional_string object ''file_id'') (extract_image_detail object)))
           else if kind = ''input_file'' then
             (if role = ''assistant'' then Some (text_content_item role (to_json_string J part))
              else Some (InputFile (chat_optional_string object ''file_id'')
                     (chat_optional_string object ''file_url'')
                     (chat_optional_string object ''filename'')
                     (chat_optional_string object ''file_data'')))
           else if kind = ''text'' \<or> kind = ''input_text'' \<or> kind = ''output_text'' then
             map_option (text_content_item role) (Option.bind (obj_get object ''text'') as_str)
           else if role = ''assistant'' then Some (text_content_item role (to_json_string J part))
           else Some (OtherContent part)))"

definition chat_content_to_response_content ::
  "json_codec \<Rightarrow> string \<Rightarrow> json option \<Rightarrow> content_item list" where
  "chat_content_to_response_content J role content =
     (case content of
        None \<Rightarrow> []
      | Some JNull \<Rightarrow> []
      | Some (JStr txt) \<Rightarrow> [text_content_item role txt]
      | Some (JArr parts) \<Rightarrow> List.map_filter (chat_content_part_to_response_content J role) parts
      | Some other \<Rightarrow> [text_content_item role (to_json_string J other)])"

definition tool_output_value :: "json_codec \<Rightarrow> json option \<Rightarrow> json" where
  "tool_output_value J content =
     (case content of
        Some (JStr txt) \<Rightarrow> JStr txt
      | Some (JArr parts) \<Rightarrow>
          (let txt = join [CHR 0x0A] (List.map_filter (chat_content_part_text J) parts)
           in if txt = [] then JArr parts else JStr txt)
      | Some value \<Rightarrow> value
      | None \<Rightarrow> JNull)"

subsection \<open>Tool calls\<close>

definition arguments_to_string :: "json_codec \<Rightarrow> json option \<Rightarrow> string" where
  "arguments_to_string J arguments =
     (case arguments of
        Some (JStr txt) \<Rightarrow> if trim txt = [] then ''{}'' else txt
      | Some value \<Rightarrow> to_json_string J value
      | None \<Rightarrow> ''{}'')"

definition chat_tool_call_to_response_item ::
  "json_codec \<Rightarrow> uuid_supply \<Rightarrow> nat \<Rightarrow> chat_tool_call \<Rightarrow> app_error + nat \<times> response_item" where
  "chat_tool_call_to_response_item J U n tool_call =
     (case fc_name (tc_function tool_call) of
        None \<Rightarrow> Inl (bad_request ''Chat assistant tool_call is missing function name'')
      | Some name \<Rightarrow>
          (let arguments = arguments_to_string J (fc_arguments (tc_function tool_call));
               (call_id, n') = (case tc_id tool_call of
                  Some i \<Rightarrow> (i, n) | None \<Rightarrow> (''call_'' @ U n, Suc n))
           in Inr (n', FunctionCall None name None arguments call_id)))"

fun convert_tool_calls ::
  "json_codec \<Rightarrow> uuid_supply \<Rightarrow> nat \<Rightarrow> chat_tool_call list \<Rightarrow> app_error + nat \<times> response_item list"
where
  "convert_tool_calls J U n [] = Inr (n, [])"
| "convert_tool_calls J U n (c # cs) =
     bind_res (chat_tool_call_to_response_item J U n c) (\<lambda>(n1, item).
     bind_res (convert_tool_calls J U n1 cs) (\<lambda>(n2, items). Inr (n2, item # items)))"

subsection \<open>Messages\<close>

text \<open>The reasoning item an assistant message with non-empty reasoning starts with.\<close>

definition assistant_reasoning ::
  "uuid_supply \<Rightarrow> nat \<Rightarrow> chat_message \<Rightarrow> nat \<times> response_item list" where
  "assistant_reasoning U n message =
     (case nonempty_str (cm_reasoning_content message) of
        Some reasoning \<Rightarrow>
          (Suc n, [Reasoning (''rsn_'' @ U n) [] (Some [ReasoningText reasoning]) None])
      | None \<Rightarrow> (n, []))"

definition convert_message ::
  "json_codec \<Rightarrow> uuid_supply \<Rightarrow> nat \<Rightarrow> chat_message \<Rightarrow> app_error + nat \<times> response_item list" where
  "convert_message J U n message =
     (if cm_role message = ''tool'' \<or> cm_role message = ''function'' then
        (case (case cm_tool_call_id message of Some i \<Rightarrow> Some i | None \<Rightarrow> cm_name message) of
           None \<Rightarrow> Inl (bad_request ''Chat tool message is missing tool_call_id'')
         | Some call_id \<Rightarrow>
             Inr (n, [FunctionCallOutput call_id (tool_output_value J (cm_content message))]))
      else if cm_role message = ''assistant'' then
        (let (n1, reasoning) = assistant_reasoning U n message;
             content = chat_content_to_response_content J (cm_role message) (cm_content message);
             items = reasoning @ [Message None (cm_role message) content None]
         in (case cm_tool_calls message of
               None \<Rightarrow> Inr (n1, items)
             | Some tool_calls \<Rightarrow>
                 bind_res (convert_tool_calls J U n1 tool_calls)
                   (\<lambda>(n2, calls). Inr (n2, items @ calls))))
      else Inr (n, [Message None (cm_role message)
             (chat_content_to_response_content J (cm_role message) (cm_content message)) None]))"

fun convert_messages ::
  "json_codec \<Rightarrow> uuid_supply \<Rightarrow> nat \<Rightarrow> chat_message list \<Rightarrow> app_error + nat \<times> response_item list"
where
  "convert_messages J U n [] = Inr (n, [])"
| "convert_messages J U n (m # ms) =
     bind_res (convert_message J U n m) (\<lambda>(n1, items).
     bind_res (convert_messages J U n1 ms) (\<lambda>(n2, rest). Inr (n2, items @ rest)))"

subsection \<open>Tools and response format\<close>

definition convert_tool :: "chat_tool \<Rightarrow> tool_spec" where
  "convert_tool t =
     TsFunction (td_name (ctool_function t)) (td_description (ctool_function t))
       (td_strict (ctool_function t))
       (case td_parameters (ctool_function t) of
          Some p \<Rightarrow> p
        | None \<Rightarrow> jobj [(''type'', JStr ''object''), (''properties'', JObj [])])"

fun tool_sort_key :: "tool_spec \<Rightarrow> string" where
  "tool_sort_key (TsFunction name _ _ _) = name"
| "tool_sort_key (TsWebSearch _ _ _ _ _) = ''web_search''"
| "tool_sort_key (TsNamespace name _ _) = name"
| "tool_sort_key (TsToolSearch _ _ _) = ''tool_search''"
| "tool_sort_key TsLocalShell = ''local_shell''"
| "tool_sort_key (TsCustom name _ _) = name"
| "tool_sort_key (TsImageGeneration _) = ''image_generation''"

text \<open>\<^verbatim>\<open>sort_by\<close> is stable, as \<open>sort_key\<close> is.\<close>

definition convert_tools :: "chat_tool list option \<Rightarrow> tool_spec list" where
  "convert_tools tools =
     sort_key tool_sort_key (case tools of Some ts \<Rightarrow> map convert_tool ts | None \<Rightarrow> [])"

definition convert_response_format :: "json option \<Rightarrow> text_controls option" where
  "convert_response_format format =
     Option.bind (Option.bind format as_object) (\<lambda>m.
       if Option.bind (obj_get m ''type'') as_str \<noteq> Some ''json_schema'' then None
       else Option.bind (Option.bind (obj_get m ''json_schema'') as_object) (\<lambda>schema.
         Some \<lparr>txt_verbosity = None, txt_format = Some
           \<lparr>tf_kind = ''json_schema'',
            tf_strict = (case Option.bind (obj_get schema ''strict'') as_bool of
                           Some b \<Rightarrow> b | None \<Rightarrow> False),
            tf_schema = (case obj_get schema ''schema'' of Some s \<Rightarrow> s | None \<Rightarrow> JObj []),
            tf_name = (case Option.bind (obj_get schema ''name'') as_str of
                         Some nm \<Rightarrow> nm | None \<Rightarrow> ''response'')\<rparr>\<rparr>))"

subsection \<open>Requests\<close>

definition convert_request ::
  "json_codec \<Rightarrow> uuid_supply \<Rightarrow> chat_completion_request \<Rightarrow> app_error + responses_request" where
  "convert_request J U request =
     bind_res (convert_messages J U 0 (ccr_messages request)) (\<lambda>(_, input).
     Inr \<lparr>req_model = ccr_model request,
          req_instructions = [],
          req_input = input,
          req_tools = convert_tools (ccr_tools request),
          req_tool_choice = (case ccr_tool_choice request of
            Some c \<Rightarrow> c | None \<Rightarrow> JStr ''auto''),
          req_parallel_tool_calls = ccr_parallel_tool_calls request,
          req_reasoning = map_option (\<lambda>effort. \<lparr>rr_effort = Some effort, rr_summary = None\<rparr>)
            (ccr_reasoning_effort request),
          req_thinking = None, req_store = False, req_stream = True, req_include = [],
          req_service_tier = None, req_prompt_cache_key = None,
          req_text = convert_response_format (ccr_response_format request),
          req_client_metadata = None, req_previous_response_id = None,
          req_temperature = ccr_temperature request, req_top_p = ccr_top_p request,
          req_max_output_tokens = ccr_max_output_tokens request,
          req_frequency_penalty = ccr_frequency_penalty request,
          req_presence_penalty = ccr_presence_penalty request,
          req_truncation = None, req_metadata = None, req_stop = ccr_stop request,
          req_extra_body = ccr_extra_body request\<rparr>)"

end
