(* ===== verification/Chat_Request_Correct.thy ===== *)
theory Chat_Request_Correct
  imports Chat_Request Lowering_Correct
begin

text \<open>
  Correctness of the inbound Chat conversion: which requests it rejects, and that a Chat request
  converted to Responses items and lowered again reaches the upstream message by message.
\<close>

subsection \<open>Errors\<close>

definition missing_tool_id :: "chat_message \<Rightarrow> bool" where
  "missing_tool_id m \<longleftrightarrow> (cm_role m = ''tool'' \<or> cm_role m = ''function'')
     \<and> cm_tool_call_id m = None \<and> cm_name m = None"

definition nameless_call :: "chat_message \<Rightarrow> bool" where
  "nameless_call m \<longleftrightarrow> cm_role m = ''assistant''
     \<and> list_ex (\<lambda>c. fc_name (tc_function c) = None) (calls_of m)"

lemma is_ok_bind: "is_ok (bind_res r f) \<longleftrightarrow> (\<exists>x. r = Inr x \<and> is_ok (f x))"
  by (cases r) auto

text \<open>When the continuation's success does not depend on the value, both parts must succeed.\<close>

lemma is_ok_bind_indep: "(\<And>x. is_ok (f x) = P) \<Longrightarrow> is_ok (bind_res r f) \<longleftrightarrow> is_ok r \<and> P"
  by (cases r) auto

lemma convert_call_ok:
  "is_ok (chat_tool_call_to_response_item J U n c) \<longleftrightarrow> fc_name (tc_function c) \<noteq> None"
  by (simp add: chat_tool_call_to_response_item_def Let_def case_prod_beta split: option.split)

lemma convert_tool_calls_ok:
  "is_ok (convert_tool_calls J U n cs) \<longleftrightarrow> list_all (\<lambda>c. fc_name (tc_function c) \<noteq> None) cs"
proof (induction cs arbitrary: n)
  case (Cons c cs)
  show ?case
    unfolding convert_tool_calls.simps
    by (subst is_ok_bind_indep [where P = "list_all (\<lambda>c. fc_name (tc_function c) \<noteq> None) cs"])
      (simp_all add: case_prod_beta convert_call_ok Cons.IH
        is_ok_bind_indep [where P = True])
qed simp

lemma convert_message_ok:
  "is_ok (convert_message J U n m) \<longleftrightarrow> \<not> missing_tool_id m \<and> \<not> nameless_call m"
proof (cases "cm_role m = ''assistant''")
  case True
  obtain n1 r where r: "assistant_reasoning U n m = (n1, r)" by fastforce
  show ?thesis
  proof (cases "cm_tool_calls m")
    case None
    with True r show ?thesis
      by (simp add: convert_message_def missing_tool_id_def nameless_call_def calls_of_def)
  next
    case (Some cs)
    have "is_ok (convert_message J U n m) \<longleftrightarrow> is_ok (convert_tool_calls J U n1 cs)"
      using True r Some
      by (cases "convert_tool_calls J U n1 cs") (auto simp: convert_message_def)
    with True Some show ?thesis
      by (auto simp: convert_tool_calls_ok missing_tool_id_def nameless_call_def calls_of_def
          list_all_iff list_ex_iff)
  qed
next
  case False
  then show ?thesis
    by (auto simp: convert_message_def missing_tool_id_def nameless_call_def split: option.splits)
qed

lemma convert_messages_ok:
  "is_ok (convert_messages J U n ms) \<longleftrightarrow>
     list_all (\<lambda>m. \<not> missing_tool_id m \<and> \<not> nameless_call m) ms"
proof (induction ms arbitrary: n)
  case (Cons m ms)
  show ?case
    unfolding convert_messages.simps
    by (subst is_ok_bind_indep
        [where P = "list_all (\<lambda>m. \<not> missing_tool_id m \<and> \<not> nameless_call m) ms"])
      (simp_all add: case_prod_beta convert_message_ok Cons.IH is_ok_bind_indep [where P = True])
qed simp

text \<open>
  The conversion of a Chat request fails exactly when some tool message has neither a
  \<^verbatim>\<open>tool_call_id\<close> nor a name, or some tool call of an assistant message has no function name.
\<close>

theorem chat_conversion_errors_exactly:
  "is_ok (convert_request J U request) \<longleftrightarrow>
     list_all (\<lambda>m. \<not> missing_tool_id m \<and> \<not> nameless_call m) (ccr_messages request)"
proof -
  have "is_ok (convert_request J U request) \<longleftrightarrow> is_ok (convert_messages J U 0 (ccr_messages request))"
    by (cases "convert_messages J U 0 (ccr_messages request)") (auto simp: convert_request_def)
  then show ?thesis by (simp add: convert_messages_ok)
qed

subsection \<open>Content that is relayed as it is\<close>

definition text_part :: "string \<Rightarrow> json" where
  "text_part t = jobj [(''type'', JStr ''text''), (''text'', JStr t)]"

definition image_part :: "string \<Rightarrow> json" where
  "image_part u = jobj [(''type'', JStr ''image_url''), (''image_url'', jobj [(''url'', JStr u)])]"

text \<open>
  A content part in the form Chat clients send it: a text part, or, outside assistant messages, an
  image given by its URL.
\<close>

definition canonical_part :: "string \<Rightarrow> json \<Rightarrow> bool" where
  "canonical_part role p =
     (case json_get_str p ''text'' of
        Some t \<Rightarrow> p = text_part t
      | None \<Rightarrow> (case Option.bind (json_get p ''image_url'') (\<lambda>v. json_get_str v ''url'') of
                  Some u \<Rightarrow> role \<noteq> ''assistant'' \<and> p = image_part u
                | None \<Rightarrow> False))"

fun plain_content :: "string \<Rightarrow> json \<Rightarrow> bool" where
  "plain_content role (JStr _) = True"
| "plain_content role (JArr ps) = (2 \<le> length ps \<and> list_all (canonical_part role) ps)"
| "plain_content role _ = False"

lemma canonical_part_cases:
  assumes "canonical_part role p"
  obtains t where "p = text_part t" | u where "p = image_part u" "role \<noteq> ''assistant''"
  using assms by (auto simp: canonical_part_def split: option.splits)

lemma canonical_part_roundtrip:
  assumes "canonical_part role p"
  shows "\<exists>c. chat_content_part_to_response_content J role p = Some c
    \<and> content_item_to_chat_part c = p"
  using assms
proof (cases rule: canonical_part_cases)
  case (1 t)
  then show ?thesis
    by (simp add: chat_content_part_to_response_content_def text_part_def as_object_jobj obj_get_of
        text_content_item_def Let_def)
next
  case (2 u)
  then show ?thesis
    by (simp add: chat_content_part_to_response_content_def image_part_def as_object_jobj obj_get_of
        extract_image_url_def extract_image_detail_def chat_optional_string_def Let_def jobj_def)
qed

lemma canonical_parts_roundtrip:
  "list_all (canonical_part role) ps \<Longrightarrow>
     map content_item_to_chat_part
       (List.map_filter (chat_content_part_to_response_content J role) ps) = ps"
proof (induction ps)
  case (Cons p ps)
  then have "canonical_part role p" by simp
  from canonical_part_roundtrip [OF this, of J] Cons show ?case
    by (auto simp: List.map_filter_simps)
qed (simp add: List.map_filter_simps)

subsection \<open>From the client's messages to the upstream's\<close>

text \<open>What the upstream call must carry of the client's: its name, its id when it has one, and the
  value its arguments parse to.\<close>

definition call_relayed :: "json_codec \<Rightarrow> chat_tool_call \<Rightarrow> chat_tool_call \<Rightarrow> bool" where
  "call_relayed J c c' \<longleftrightarrow>
     fc_name (tc_function c') = fc_name (tc_function c) \<and> fc_name (tc_function c') \<noteq> None
     \<and> tc_id c' \<noteq> None \<and> (tc_id c \<noteq> None \<longrightarrow> tc_id c' = tc_id c) \<and> tc_kind c' = ''function''
     \<and> map_option Inr (fc_arguments (tc_function c'))
         = Some (from_json_str J (arguments_to_string J (fc_arguments (tc_function c))))"

definition is_tool_role :: "string \<Rightarrow> bool" where
  "is_tool_role role \<longleftrightarrow> role = ''tool'' \<or> role = ''function''"

text \<open>
  The upstream message of a client message: the role with \<^verbatim>\<open>developer\<close> read as \<^verbatim>\<open>system\<close> and
  \<^verbatim>\<open>function\<close> as \<^verbatim>\<open>tool\<close>; text and plain part lists unchanged; non-empty reasoning, the calls and
  the id of the answered call kept.
\<close>

definition message_relayed :: "json_codec \<Rightarrow> chat_message \<Rightarrow> chat_message \<Rightarrow> bool" where
  "message_relayed J m m' \<longleftrightarrow>
     cm_role m' = (if is_tool_role (cm_role m) then ''tool'' else normalize_chat_role (cm_role m))
     \<and> (\<forall>t. cm_content m = Some (JStr t) \<longrightarrow> cm_content m' = Some (JStr t))
     \<and> (\<forall>v. \<not> is_tool_role (cm_role m) \<and> cm_content m = Some v \<and> plain_content (cm_role m) v
          \<longrightarrow> cm_content m' = Some v)
     \<and> (is_tool_role (cm_role m) \<longrightarrow> cm_tool_call_id m' =
          (if cm_tool_call_id m = None then cm_name m else cm_tool_call_id m))
     \<and> (cm_role m = ''assistant'' \<longrightarrow>
          cm_reasoning_content m' = nonempty_str (cm_reasoning_content m)
          \<and> list_all2 (call_relayed J) (calls_of m) (calls_of m'))
     \<and> (cm_role m \<noteq> ''assistant'' \<longrightarrow> cm_reasoning_content m' = None \<and> calls_of m' = [])"

lemma relay_call:
  assumes "chat_tool_call_to_response_item J U n c = Inr (n', item)"
    and "cm_role a = ''assistant''"
    and "lower_item J False item (ms @ [a], None) = Inr st"
  shows "\<exists>c'. st = (ms @ [a\<lparr>cm_tool_calls := Some (calls_of a @ [c'])\<rparr>], None) \<and> call_relayed J c c'"
proof -
  obtain name where name: "fc_name (tc_function c) = Some name"
    using assms(1) by (auto simp: chat_tool_call_to_response_item_def split: option.splits)
  define args where "args = arguments_to_string J (fc_arguments (tc_function c))"
  obtain cid where item: "item = FunctionCall None name None args cid"
    and cid: "tc_id c \<noteq> None \<longrightarrow> tc_id c = Some cid"
    using assms(1) name
    by (auto simp: chat_tool_call_to_response_item_def Let_def args_def split: option.splits)
  from assms(3) obtain v where v: "from_json_str J args = Inr v"
    and st: "st = (append_tool_call (ms @ [a]) cid name v None, None)"
    by (auto simp: item lower_item_def parse_json_string_def bind_res_Inr split: sum.splits)
  define c' where "c' = chat_call cid (length (calls_of a)) name v"
  have "st = (ms @ [a\<lparr>cm_tool_calls := Some (calls_of a @ [c'])\<rparr>], None)"
    using assms(2) by (simp add: st append_tool_call_def Let_def calls_of_def c'_def)
  moreover have "call_relayed J c c'"
    using name v cid by (auto simp: call_relayed_def c'_def chat_call_def args_def)
  ultimately show ?thesis by blast
qed

lemma relay_calls:
  assumes "convert_tool_calls J U n cs = Inr (n', items)" and "cm_role a = ''assistant''"
    and "lower_items J False items (ms @ [a], None) = Inr st"
  shows "\<exists>cs' a'. st = (ms @ [a'], None) \<and> a' = a\<lparr>cm_tool_calls := cm_tool_calls a'\<rparr>
    \<and> calls_of a' = calls_of a @ cs' \<and> list_all2 (call_relayed J) cs cs'"
  using assms
proof (induction cs arbitrary: n n' items a)
  case Nil
  then show ?case by (intro exI [of _ "[]"] exI [of _ a]) simp
next
  case (Cons c cs)
  from Cons.prems(1) obtain n1 item rest where
    it: "chat_tool_call_to_response_item J U n c = Inr (n1, item)"
    "convert_tool_calls J U n1 cs = Inr (n', rest)" "items = item # rest"
    by (auto simp: bind_res_Inr)
  from Cons.prems(3) it(3) obtain s1 where s1: "lower_item J False item (ms @ [a], None) = Inr s1"
    "lower_items J False rest s1 = Inr st" by (auto simp: bind_res_Inr)
  from relay_call [OF it(1) Cons.prems(2) s1(1)] obtain c' where
    c': "s1 = (ms @ [a\<lparr>cm_tool_calls := Some (calls_of a @ [c'])\<rparr>], None)" "call_relayed J c c'"
    by blast
  define b where "b = a\<lparr>cm_tool_calls := Some (calls_of a @ [c'])\<rparr>"
  have "cm_role b = ''assistant''" using Cons.prems(2) by (simp add: b_def)
  from Cons.IH [OF it(2) this] s1(2) c'(1) obtain cs' a' where
    r: "st = (ms @ [a'], None)" "a' = b\<lparr>cm_tool_calls := cm_tool_calls a'\<rparr>"
    "calls_of a' = calls_of b @ cs'" "list_all2 (call_relayed J) cs cs'"
    by (auto simp: b_def)
  have "calls_of b = calls_of a @ [c']" by (simp add: b_def calls_of_def)
  moreover have "b\<lparr>cm_tool_calls := cm_tool_calls a'\<rparr> = a\<lparr>cm_tool_calls := cm_tool_calls a'\<rparr>"
    by (simp add: b_def)
  ultimately show ?case
    using r c'(2) by (intro exI [of _ "c' # cs'"] exI [of _ a']) simp
qed

lemma plain_content_relayed:
  assumes "plain_content role v"
  shows "message_content_to_chat_value (chat_content_to_response_content J role (Some v)) = Inr v
    \<and> chat_content_to_response_content J role (Some v) \<noteq> []"
proof (cases v)
  case (JStr t)
  then show ?thesis
    by (simp add: chat_content_to_response_content_def message_content_to_chat_value_def
        text_content_item_def)
next
  case (JArr ps)
  define cs where "cs = List.map_filter (chat_content_part_to_response_content J role) ps"
  have ps: "map content_item_to_chat_part cs = ps"
    using assms by (simp add: JArr cs_def canonical_parts_roundtrip)
  then have "length cs = length ps" by (metis length_map)
  with assms obtain c c' cs' where "cs = c # c' # cs'"
    by (cases cs; cases "tl cs") (auto simp: JArr)
  with ps show ?thesis
    by (simp add: JArr chat_content_to_response_content_def cs_def [symmetric]
        message_content_to_chat_value_def)
qed (use assms in simp_all)

text \<open>A message item lowered when no assistant reasoning is pending, and the assistant's.\<close>

lemma lower_plain_message:
  assumes "role \<noteq> ''assistant''"
    and "lower_item J False (Message None role content None) (ms, None) = Inr st"
  shows "\<exists>v. message_content_to_chat_value content = Inr v \<and> st = (ms @ [\<lparr>cm_role =
    normalize_chat_role role, cm_content = Some v, cm_tool_call_id = None, cm_name = None,
    cm_reasoning_content = None, cm_thinking = None, cm_tool_calls = None\<rparr>], None)"
  using assms
  by (auto simp: lower_item_def flush_pending_reasoning_def lower_message_def bind_res_Inr Let_def
      normalize_chat_role_def split: if_splits)

lemma lower_assistant_message:
  assumes "lower_item J False (Message None ''assistant'' content None) (ms, p) = Inr st"
  shows "\<exists>v. (content \<noteq> [] \<longrightarrow> map_option Inr v = Some (message_content_to_chat_value content))
    \<and> st = (ms @ [\<lparr>cm_role = ''assistant'', cm_content = v, cm_tool_call_id = None, cm_name = None,
       cm_reasoning_content = map_option pr_text p, cm_thinking = (case p of None \<Rightarrow> None
         | Some q \<Rightarrow> snd (into_chat_parts q)), cm_tool_calls = None\<rparr>], None)"
  using assms
  by (auto simp: lower_item_def lower_message_def bind_res_Inr Let_def into_chat_parts_def
      normalize_chat_role_def split: if_splits option.splits)

lemma relay_reasoning:
  assumes "assistant_reasoning U n m = (n1, r)" and "lower_items J False r (ms, None) = Inr s"
  shows "\<exists>p. s = (ms, p) \<and> map_option pr_text p = nonempty_str (cm_reasoning_content m)"
  using assms
  by (auto simp: assistant_reasoning_def lower_item_def reasoning_item_text_def nonempty_str_def
      Let_def split: option.splits if_splits)

lemma lower_items_append:
  "lower_items J r (xs @ ys) st = bind_res (lower_items J r xs st) (lower_items J r ys)"
  by (induction xs arbitrary: st) (auto simp: bind_res_def split: sum.splits)

lemma relay_assistant:
  assumes role: "cm_role m = ''assistant''"
    and conv: "convert_message J U n m = Inr (n', items)"
    and low: "lower_items J False items (ms, None) = Inr st"
  shows "\<exists>m'. st = (ms @ [m'], None) \<and> message_relayed J m m'"
proof -
  define content where "content = chat_content_to_response_content J ''assistant'' (cm_content m)"
  obtain n1 r where r: "assistant_reasoning U n m = (n1, r)" by fastforce
  obtain calls where items: "items = r @ Message None ''assistant'' content None # calls"
    and calls: "convert_tool_calls J U n1 (calls_of m) = Inr (n', calls)"
    using conv role r
    by (auto simp: convert_message_def calls_of_def content_def bind_res_Inr Let_def
        split: option.splits)
  from low obtain s1 s2 where s: "lower_items J False r (ms, None) = Inr s1"
    "lower_item J False (Message None ''assistant'' content None) s1 = Inr s2"
    "lower_items J False calls s2 = Inr st"
    by (auto simp: items lower_items_append bind_res_Inr)
  from relay_reasoning [OF r s(1)] obtain p where p: "s1 = (ms, p)"
    "map_option pr_text p = nonempty_str (cm_reasoning_content m)" by blast
  from lower_assistant_message [OF s(2) [unfolded p(1)]] obtain v a where
    v: "content \<noteq> [] \<longrightarrow> map_option Inr v = Some (message_content_to_chat_value content)"
    and a: "s2 = (ms @ [a], None)" "cm_role a = ''assistant''" "cm_content a = v"
      "cm_reasoning_content a = nonempty_str (cm_reasoning_content m)" "calls_of a = []"
    using p(2) by (fastforce simp: calls_of_def)
  from relay_calls [OF calls a(2) s(3) [unfolded a(1)]] obtain cs' a' where
    a': "st = (ms @ [a'], None)" "a' = a\<lparr>cm_tool_calls := cm_tool_calls a'\<rparr>"
    "calls_of a' = cs'" "list_all2 (call_relayed J) (calls_of m) cs'"
    by (auto simp: a(5))
  from a'(2) have f: "cm_role a' = cm_role a" "cm_content a' = cm_content a"
    "cm_reasoning_content a' = cm_reasoning_content a"
    by (metis chat_message.select_convs chat_message.simps(8) chat_message.surjective
        chat_message.update_convs(7))+
  have plain: "cm_content m = Some u \<Longrightarrow> plain_content ''assistant'' u \<Longrightarrow> v = Some u" for u
    using plain_content_relayed [of "''assistant''" u J] v by (auto simp: content_def)
  show ?thesis
    using a' a role f plain
    by (intro exI [of _ a'])
      (auto simp: message_relayed_def is_tool_role_def normalize_chat_role_def)
qed

lemma relay_tool_message:
  assumes "is_tool_role (cm_role m)" and "convert_message J U n m = Inr (n', items)"
    and "lower_items J False items (ms, None) = Inr st"
  shows "\<exists>m'. st = (ms @ [m'], None) \<and> message_relayed J m m'"
proof -
  from assms(1) have "cm_role m = ''tool'' \<or> cm_role m = ''function''" by (simp add: is_tool_role_def)
  with assms(2) obtain i where
    i: "(case cm_tool_call_id m of Some i \<Rightarrow> Some i | None \<Rightarrow> cm_name m) = Some i"
    and items: "items = [FunctionCallOutput i (tool_output_value J (cm_content m))]"
    by (auto simp: convert_message_def split: option.splits)
  from assms(3) have st: "st = (ms @ [tool_message (stringify_tool_output J
      (tool_output_value J (cm_content m))) (Some i)], None)"
    by (simp add: items lower_item_def flush_pending_reasoning_def)
  have "message_relayed J m (tool_message (stringify_tool_output J
      (tool_output_value J (cm_content m))) (Some i))"
    using assms(1) i
    by (auto simp: message_relayed_def tool_message_def calls_of_def is_tool_role_def
        tool_output_value_def stringify_tool_output_def split: option.splits)
  with st show ?thesis by blast
qed

lemma relay_message:
  assumes conv: "convert_message J U n m = Inr (n', items)"
    and low: "lower_items J False items (ms, None) = Inr st"
  shows "\<exists>m'. st = (ms @ [m'], None) \<and> message_relayed J m m'"
proof (cases "is_tool_role (cm_role m) \<or> cm_role m = ''assistant''")
  case True
  then show ?thesis using relay_tool_message [OF _ assms] relay_assistant [OF _ assms] by blast
next
  case False
  define content where "content = chat_content_to_response_content J (cm_role m) (cm_content m)"
  from False conv have items: "items = [Message None (cm_role m) content None]"
    by (auto simp: convert_message_def is_tool_role_def content_def)
  from False have "cm_role m \<noteq> ''assistant''" by simp
  from lower_plain_message [OF this, of J content ms st] low obtain v where
    v: "message_content_to_chat_value content = Inr v"
    "st = (ms @ [\<lparr>cm_role = normalize_chat_role (cm_role m), cm_content = Some v,
      cm_tool_call_id = None, cm_name = None, cm_reasoning_content = None, cm_thinking = None,
      cm_tool_calls = None\<rparr>], None)"
    by (auto simp: items bind_res_Inr)
  have plain: "cm_content m = Some u \<Longrightarrow> plain_content (cm_role m) u \<Longrightarrow> v = u" for u
    using plain_content_relayed [of "cm_role m" u J] v(1) by (simp add: content_def)
  show ?thesis
    using False plain by (simp add: v(2) message_relayed_def calls_of_def)
qed

lemma relay_messages:
  assumes "convert_messages J U n ms = Inr (n', items)"
    and "lower_items J False items (base, None) = Inr st"
  shows "\<exists>ms'. st = (base @ ms', None) \<and> list_all2 (message_relayed J) ms ms'"
  using assms
proof (induction ms arbitrary: n items base)
  case (Cons m ms)
  from Cons.prems(1) obtain n1 xs rest where it: "convert_message J U n m = Inr (n1, xs)"
    "convert_messages J U n1 ms = Inr (n', rest)" "items = xs @ rest"
    by (auto simp: bind_res_Inr)
  from Cons.prems(2) it(3) obtain s1 where s1: "lower_items J False xs (base, None) = Inr s1"
    "lower_items J False rest s1 = Inr st" by (auto simp: lower_items_append bind_res_Inr)
  from relay_message [OF it(1) s1(1)] obtain m' where
    m': "s1 = (base @ [m'], None)" "message_relayed J m m'" by blast
  from Cons.IH [OF it(2) s1(2) [unfolded m'(1)]] obtain ms' where
    "st = ((base @ [m']) @ ms', None)" "list_all2 (message_relayed J) ms ms'" by blast
  with m'(2) show ?case by (intro exI [of _ "m' # ms'"]) simp
qed simp

text \<open>
  C28: a Chat request that the gateway converts to Responses items and lowers to an upstream Chat
  request, without a role policy and without a replayed baseline, arrives message by message: before
  the leading system messages are joined into one, the upstream messages correspond one to one, in
  order, to the client's, each with its role, except that \<^verbatim>\<open>developer\<close> becomes \<^verbatim>\<open>system\<close> and
  \<^verbatim>\<open>function\<close> becomes \<^verbatim>\<open>tool\<close>, its text, its plain content parts, the reasoning and the tool calls
  (id, name and arguments) of an assistant's message, and the id a tool message answers.
\<close>

theorem chat_request_relayed:
  assumes "convert_request J U request = Inr converted"
    and "lower_request_with_image_agent_and_roles J converted [] active None = Inr t"
  shows "\<exists>ms'. lt_messages t = hoist_system_messages J ms'
    \<and> list_all2 (message_relayed J) (ccr_messages request) ms'"
proof -
  from assms(1) obtain n where n: "convert_messages J U 0 (ccr_messages request)
      = Inr (n, req_input converted)" and i: "req_instructions converted = []"
    by (auto simp: convert_request_def bind_res_Inr)
  from assms(2) have "lower_request_with_image_agent J converted [] active = Inr t"
    by (simp add: lower_request_with_image_agent_def)
  then obtain st where st: "lower_items J False (req_input converted)
      (seed_messages converted [], None) = Inr st"
    "lt_messages t = hoist_system_messages J (fst (flush_pending_reasoning (fst st) (snd st)))"
    by (rule lower_request_messages)
  from st(1) i have "lower_items J False (req_input converted) ([], None) = Inr st"
    by (simp add: seed_messages_def)
  from relay_messages [OF n this] st(2) show ?thesis
    by (auto simp: flush_pending_reasoning_def)
qed

subsection \<open>A sample conversation\<close>

definition sample_chat_message :: "string \<Rightarrow> string \<Rightarrow> chat_message" where
  "sample_chat_message role txt = \<lparr>cm_role = role, cm_content = Some (JStr txt),
     cm_tool_call_id = None, cm_name = None, cm_reasoning_content = None, cm_thinking = None,
     cm_tool_calls = None\<rparr>"

definition sample_chat_request :: chat_completion_request where
  "sample_chat_request = \<lparr>ccr_model = ''m'', ccr_messages =
     [sample_chat_message ''user'' ''hi'',
      (sample_chat_message ''assistant'' ''ok'')\<lparr>cm_reasoning_content := Some ''hm'',
        cm_tool_calls := Some [\<lparr>tc_id = Some ''c1'', tc_index = None, tc_kind = ''function'',
          tc_function = \<lparr>fc_name = Some ''lookup'', fc_arguments = None\<rparr>\<rparr>]\<rparr>,
      (sample_chat_message ''tool'' ''42'')\<lparr>cm_tool_call_id := Some ''c1''\<rparr>],
     ccr_stream = True, ccr_tools = None, ccr_tool_choice = None, ccr_parallel_tool_calls = None,
     ccr_reasoning_effort = None, ccr_response_format = None, ccr_stream_options = None,
     ccr_temperature = None, ccr_top_p = None, ccr_max_output_tokens = None,
     ccr_frequency_penalty = None, ccr_presence_penalty = None, ccr_stop = None,
     ccr_extra_body = []\<rparr>"

definition sample_converted :: responses_request where
  "sample_converted = (case convert_request sample_codec (\<lambda>n. show_nat n) sample_chat_request of
     Inr r \<Rightarrow> r | Inl _ \<Rightarrow> undefined)"

definition sample_relayed :: lowered_turn where
  "sample_relayed = (case lower_request_with_image_agent_and_roles sample_codec sample_converted [] False None of
     Inr t \<Rightarrow> t | Inl _ \<Rightarrow> undefined)"

lemma ok_result: "is_ok r \<Longrightarrow> r = Inr (case r of Inr x \<Rightarrow> x | Inl _ \<Rightarrow> undefined)"
  by (cases r) auto

lemma sample_converted: "convert_request sample_codec (\<lambda>n. show_nat n) sample_chat_request
    = Inr sample_converted"
  unfolding sample_converted_def by (rule ok_result) code_simp

lemma sample_relayed:
  "lower_request_with_image_agent_and_roles sample_codec sample_converted [] False None = Inr sample_relayed"
  unfolding sample_relayed_def
proof (rule ok_result)
  have "is_ok (bind_res (convert_request sample_codec (\<lambda>n. show_nat n) sample_chat_request)
      (\<lambda>c. lower_request_with_image_agent_and_roles sample_codec c [] False None))" by code_simp
  then show "is_ok (lower_request_with_image_agent_and_roles sample_codec sample_converted [] False None)"
    by (simp add: sample_converted)
qed

theorem chat_request_relayed_witness:
  "\<exists>ms'. lt_messages sample_relayed = hoist_system_messages sample_codec ms'
    \<and> list_all2 (message_relayed sample_codec) (ccr_messages sample_chat_request) ms'"
  by (rule chat_request_relayed [OF sample_converted sample_relayed])

end
