(* ===== verification/Chat_Stream.thy ===== *)
theory Chat_Stream
  imports Models_Responses
begin

text \<open>
  The outbound half of \<^verbatim>\<open>src/src/adapters/chat_completions.rs\<close>: the converter from canonical
  Responses events to Chat Completions chunks and the collector of the non-streamed response.
  A chunk is the JSON value the derived serializers build.  Methods that push to the output vector
  are steps that return what they pushed; a chunk of a stream whose id is not known yet draws a
  fresh UUID from the supply \<open>U\<close>, whose position is part of the stepped state.  The clock reading
  and JSON printing are arguments.
\<close>

subsection \<open>Signed numbers\<close>

text \<open>\<^verbatim>\<open>Value::as_i64\<close>, the JSON number of an \<^verbatim>\<open>i64\<close>, and \<^verbatim>\<open>i64\<close> addition, which wraps.\<close>

fun as_i64 :: "json \<Rightarrow> int option" where
  "as_i64 (JNum (PosInt n)) = (if n < 2 ^ 63 then Some (int n) else None)"
| "as_i64 (JNum (NegInt i)) = Some i"
| "as_i64 _ = None"

definition json_i64 :: "int \<Rightarrow> json" where
  "json_i64 i = JNum (if 0 \<le> i then PosInt (nat i) else NegInt i)"

definition i64_add :: "int \<Rightarrow> int \<Rightarrow> int" where
  "i64_add a b = sint (word_of_int (a + b) :: 64 word)"

subsection \<open>Chunks\<close>

record chat_stream_delta =
  csd_role :: "string option"
  csd_content :: "string option"
  csd_reasoning_content :: "string option"
  csd_tool_calls :: "chat_tool_call list option"

definition delta_default :: chat_stream_delta where
  "delta_default = \<lparr>csd_role = None, csd_content = None, csd_reasoning_content = None,
     csd_tool_calls = None\<rparr>"

record chat_stream_choice =
  csc_index :: nat
  csc_delta :: chat_stream_delta
  csc_finish_reason :: "string option"

record chat_usage =
  chu_prompt_tokens :: int
  chu_completion_tokens :: int
  chu_total_tokens :: int
  chu_cached_tokens :: "int option"
  chu_reasoning_tokens :: "int option"

record chat_stream_chunk =
  csk_id :: string
  csk_object :: string
  csk_created :: int
  csk_model :: string
  csk_choices :: "chat_stream_choice list"
  csk_usage :: "chat_usage option"

text \<open>The values the derived serializers build; absent optional fields are skipped.\<close>

definition opt_value :: "string \<Rightarrow> json option \<Rightarrow> (string \<times> json) list" where
  "opt_value k opt = (case opt of None \<Rightarrow> [] | Some v \<Rightarrow> [(k, v)])"

definition function_call_value :: "chat_function_call \<Rightarrow> json" where
  "function_call_value f =
     jobj (opt_entry ''name'' (fc_name f) @ opt_value ''arguments'' (fc_arguments f))"

definition tool_call_value :: "chat_tool_call \<Rightarrow> json" where
  "tool_call_value c =
     jobj (opt_entry ''id'' (tc_id c)
       @ opt_value ''index'' (map_option (\<lambda>i. JNum (PosInt i)) (tc_index c))
       @ [(''type'', JStr (tc_kind c)), (''function'', function_call_value (tc_function c))])"

definition delta_value :: "chat_stream_delta \<Rightarrow> json" where
  "delta_value d =
     jobj (opt_entry ''role'' (csd_role d) @ opt_entry ''content'' (csd_content d)
       @ opt_entry ''reasoning_content'' (csd_reasoning_content d)
       @ opt_value ''tool_calls'' (map_option (\<lambda>cs. JArr (map tool_call_value cs)) (csd_tool_calls d)))"

definition choice_value :: "chat_stream_choice \<Rightarrow> json" where
  "choice_value c =
     jobj ([(''index'', JNum (PosInt (csc_index c))), (''delta'', delta_value (csc_delta c))]
       @ opt_entry ''finish_reason'' (csc_finish_reason c))"

definition usage_value :: "chat_usage \<Rightarrow> json" where
  "usage_value u =
     jobj ([(''prompt_tokens'', json_i64 (chu_prompt_tokens u)),
            (''completion_tokens'', json_i64 (chu_completion_tokens u)),
            (''total_tokens'', json_i64 (chu_total_tokens u))]
       @ opt_value ''prompt_tokens_details''
           (map_option (\<lambda>n. jobj [(''cached_tokens'', json_i64 n)]) (chu_cached_tokens u))
       @ opt_value ''completion_tokens_details''
           (map_option (\<lambda>n. jobj [(''reasoning_tokens'', json_i64 n)]) (chu_reasoning_tokens u)))"

definition chunk_value :: "chat_stream_chunk \<Rightarrow> json" where
  "chunk_value k =
     jobj ([(''id'', JStr (csk_id k)), (''object'', JStr (csk_object k)),
            (''created'', json_i64 (csk_created k)), (''model'', JStr (csk_model k)),
            (''choices'', JArr (map choice_value (csk_choices k)))]
       @ opt_value ''usage'' (map_option usage_value (csk_usage k)))"

datatype chat_sse_event = ChatData json | ChatDone

definition to_sse_data :: "json_codec \<Rightarrow> chat_sse_event \<Rightarrow> string" where
  "to_sse_data J e = (case e of ChatData value \<Rightarrow> to_json_string J value | ChatDone \<Rightarrow> ''[DONE]'')"

subsection \<open>State\<close>

record chat_tool_stream_state =
  cts_index :: nat
  cts_name_emitted :: bool

record chat_converter =
  sc_id :: "string option"
  sc_model :: string
  sc_created :: int
  sc_include_usage :: bool
  sc_role_sent :: bool
  sc_emitted_tool_calls :: "(string \<times> chat_tool_stream_state) list"

definition chat_converter_new :: "int \<Rightarrow> string \<Rightarrow> bool \<Rightarrow> chat_converter" where
  "chat_converter_new now model include_usage =
     \<lparr>sc_id = None, sc_model = model, sc_created = now, sc_include_usage = include_usage,
      sc_role_sent = False, sc_emitted_tool_calls = []\<rparr>"

type_synonym chat_state = "nat \<times> chat_converter"
type_synonym chat_step = "chat_state \<Rightarrow> chat_state \<times> chat_sse_event list"

definition chat_id :: "uuid_supply \<Rightarrow> chat_state \<Rightarrow> string \<times> chat_state" where
  "chat_id U s =
     (case sc_id (snd s) of
        Some i \<Rightarrow> (i, s)
      | None \<Rightarrow> (''chatcmpl_'' @ U (fst s), (Suc (fst s), snd s)))"

text \<open>\<^verbatim>\<open>output.push(ChatSseEvent::Data(self.chunk(choices)))\<close> and the usage chunk.\<close>

definition push_chunk :: "uuid_supply \<Rightarrow> chat_stream_choice list \<Rightarrow> chat_step" where
  "push_chunk U choices s =
     (let (i, s') = chat_id U s in
      (s', [ChatData (chunk_value \<lparr>csk_id = i, csk_object = ''chat.completion.chunk'',
              csk_created = sc_created (snd s), csk_model = sc_model (snd s),
              csk_choices = choices, csk_usage = None\<rparr>)]))"

definition push_usage_chunk :: "uuid_supply \<Rightarrow> chat_usage \<Rightarrow> chat_step" where
  "push_usage_chunk U usage s =
     (let (i, s') = chat_id U s in
      (s', [ChatData (chunk_value \<lparr>csk_id = i, csk_object = ''chat.completion.chunk'',
              csk_created = sc_created (snd s), csk_model = sc_model (snd s),
              csk_choices = [], csk_usage = Some usage\<rparr>)]))"

definition delta_choice :: "chat_stream_delta \<Rightarrow> chat_stream_choice" where
  "delta_choice d = \<lparr>csc_index = 0, csc_delta = d, csc_finish_reason = None\<rparr>"

definition ensure_role_chunk :: "uuid_supply \<Rightarrow> chat_step" where
  "ensure_role_chunk U s =
     (if sc_role_sent (snd s) then (s, [])
      else push_chunk U [delta_choice (delta_default\<lparr>csd_role := Some ''assistant''\<rparr>)]
             (fst s, (snd s)\<lparr>sc_role_sent := True\<rparr>))"

subsection \<open>Tool calls\<close>

definition register_tool_call :: "string \<Rightarrow> chat_converter \<Rightarrow> (nat \<times> bool) \<times> chat_converter" where
  "register_tool_call call_id c =
     (case obj_get (sc_emitted_tool_calls c) call_id of
        Some st \<Rightarrow> ((cts_index st, False), c)
      | None \<Rightarrow>
          (let index = length (sc_emitted_tool_calls c) in
           ((index, True), c\<lparr>sc_emitted_tool_calls := obj_insert call_id
              \<lparr>cts_index = index, cts_name_emitted = False\<rparr> (sc_emitted_tool_calls c)\<rparr>)))"

definition take_unemitted_tool_name ::
  "string \<Rightarrow> string option \<Rightarrow> chat_converter \<Rightarrow> string option \<times> chat_converter" where
  "take_unemitted_tool_name call_id name c =
     (case name of
        None \<Rightarrow> (None, c)
      | Some n \<Rightarrow>
          (case obj_get (sc_emitted_tool_calls c) call_id of
             None \<Rightarrow> (None, c)
           | Some st \<Rightarrow>
               if cts_name_emitted st then (None, c)
               else (Some n, c\<lparr>sc_emitted_tool_calls := obj_insert call_id
                      (st\<lparr>cts_name_emitted := True\<rparr>) (sc_emitted_tool_calls c)\<rparr>)))"

definition push_tool_call :: "uuid_supply \<Rightarrow> chat_tool_call \<Rightarrow> chat_step" where
  "push_tool_call U tool_call =
     then_emit (ensure_role_chunk U)
       (push_chunk U [delta_choice (delta_default\<lparr>csd_tool_calls := Some [tool_call]\<rparr>)])"

definition emit_tool_argument_delta ::
  "uuid_supply \<Rightarrow> string \<Rightarrow> string option \<Rightarrow> string \<Rightarrow> chat_step" where
  "emit_tool_argument_delta U call_id name delta s =
     (let ((index, first_delta), c1) = register_tool_call call_id (snd s);
          (name, c2) = take_unemitted_tool_name call_id name c1
      in push_tool_call U
           \<lparr>tc_id = (if first_delta then Some call_id else None), tc_index = Some index,
            tc_kind = ''function'',
            tc_function = \<lparr>fc_name = name, fc_arguments = Some (JStr delta)\<rparr>\<rparr> (fst s, c2))"

definition emit_tool_call :: "uuid_supply \<Rightarrow> chat_tool_call \<Rightarrow> chat_step" where
  "emit_tool_call U tool_call s =
     (case tc_id tool_call of
        None \<Rightarrow> (s, [])
      | Some call_id \<Rightarrow>
          (case obj_get (sc_emitted_tool_calls (snd s)) call_id of
             Some st \<Rightarrow>
               (case fc_name (tc_function tool_call) of
                  None \<Rightarrow> (s, [])
                | Some name \<Rightarrow>
                    if cts_name_emitted st then (s, [])
                    else push_tool_call U
                      (tool_call\<lparr>tc_id := None, tc_index := Some (cts_index st),
                         tc_function := \<lparr>fc_name = Some name, fc_arguments = None\<rparr>\<rparr>)
                      (fst s, (snd s)\<lparr>sc_emitted_tool_calls := obj_insert call_id
                         (st\<lparr>cts_name_emitted := True\<rparr>) (sc_emitted_tool_calls (snd s))\<rparr>))
           | None \<Rightarrow>
               (let next_index = length (sc_emitted_tool_calls (snd s)) in
                push_tool_call U (tool_call\<lparr>tc_index := Some next_index\<rparr>)
                  (fst s, (snd s)\<lparr>sc_emitted_tool_calls := obj_insert call_id
                     \<lparr>cts_index = next_index,
                      cts_name_emitted = (fc_name (tc_function tool_call) \<noteq> None)\<rparr>
                     (sc_emitted_tool_calls (snd s))\<rparr>))))"

definition has_tool_calls :: "chat_converter \<Rightarrow> bool" where
  "has_tool_calls c = (sc_emitted_tool_calls c \<noteq> [])"

subsection \<open>Reading event payloads\<close>

definition chat_tool_call_of :: "string \<Rightarrow> string \<Rightarrow> string \<Rightarrow> chat_tool_call" where
  "chat_tool_call_of call_id name arguments =
     \<lparr>tc_id = Some call_id, tc_index = None, tc_kind = ''function'',
      tc_function = \<lparr>fc_name = Some name, fc_arguments = Some (JStr arguments)\<rparr>\<rparr>"

definition tool_call_from_function_args_done :: "json \<Rightarrow> chat_tool_call option" where
  "tool_call_from_function_args_done data =
     Option.bind (json_get_str data ''call_id'') (\<lambda>call_id.
     Option.bind (json_get_str data ''name'') (\<lambda>name.
     Some (chat_tool_call_of call_id name
       (case json_get_str data ''arguments'' of Some a \<Rightarrow> a | None \<Rightarrow> ''{}''))))"

definition tool_call_from_item :: "json_codec \<Rightarrow> json \<Rightarrow> chat_tool_call option" where
  "tool_call_from_item J item =
     Option.bind (json_get_str item ''type'') (\<lambda>kind.
       if kind = ''function_call'' then
         Option.bind (json_get_str item ''call_id'') (\<lambda>call_id.
         Option.bind (json_get_str item ''name'') (\<lambda>name.
         Some (chat_tool_call_of call_id name
           (case json_get_str item ''arguments'' of Some a \<Rightarrow> a | None \<Rightarrow> ''{}''))))
       else if kind = ''custom_tool_call'' then
         Option.bind (json_get_str item ''call_id'') (\<lambda>call_id.
         Option.bind (json_get_str item ''name'') (\<lambda>name.
         let input = (case json_get_str item ''input'' of Some i \<Rightarrow> i | None \<Rightarrow> []) in
         Some (chat_tool_call_of call_id name
           (to_json_string J (jobj [(''input'', JStr input)])))))
       else if kind = ''tool_search_call'' then
         (let call_id = (case json_get_str item ''call_id'' of
                           Some c \<Rightarrow> c | None \<Rightarrow> ''tool_search'');
              arguments = (case json_get item ''arguments'' of Some a \<Rightarrow> a | None \<Rightarrow> JObj [])
          in Some (chat_tool_call_of call_id ''tool_search'' (to_json_string J arguments)))
       else if kind = ''local_shell_call'' then
         Option.bind (Option.bind
           (case json_get item ''call_id'' of Some c \<Rightarrow> Some c | None \<Rightarrow> json_get item ''id'') as_str)
         (\<lambda>call_id.
          let arguments = (case json_get item ''action'' of Some a \<Rightarrow> a | None \<Rightarrow> JObj []) in
          Some (chat_tool_call_of call_id ''local_shell'' (to_json_string J arguments)))
       else None)"

definition is_tool_item_type :: "string option \<Rightarrow> bool" where
  "is_tool_item_type t = (t = Some ''function_call'' \<or> t = Some ''custom_tool_call''
     \<or> t = Some ''tool_search_call'' \<or> t = Some ''local_shell_call'')"

definition tool_call_from_output_item_done :: "json_codec \<Rightarrow> json \<Rightarrow> chat_tool_call option" where
  "tool_call_from_output_item_done J data =
     Option.bind (json_get data ''item'') (\<lambda>item.
       if json_get_str item ''type'' = Some ''web_search_call'' then None
       else if is_tool_item_type (json_get_str item ''type'') then tool_call_from_item J item
       else None)"

definition finish_reason_from_response_value :: "json \<Rightarrow> bool \<Rightarrow> string" where
  "finish_reason_from_response_value response has_calls =
     (if json_get_str response ''status'' = Some ''incomplete'' then ''length''
      else if Option.bind (json_get response ''incomplete_details'')
                (\<lambda>details. json_get details ''reason'') \<noteq> None then ''length''
      else if has_calls then ''tool_calls'' else ''stop'')"

definition finish_reason_from_response :: "json \<Rightarrow> bool \<Rightarrow> string" where
  "finish_reason_from_response data has_calls =
     (case json_get data ''response'' of
        Some response \<Rightarrow> finish_reason_from_response_value response has_calls
      | None \<Rightarrow> if has_calls then ''tool_calls'' else ''stop'')"

definition response_value_usage :: "json \<Rightarrow> chat_usage option" where
  "response_value_usage response =
     Option.bind (json_get response ''usage'') (\<lambda>usage.
     Option.bind (Option.bind (json_get usage ''input_tokens'') as_i64) (\<lambda>prompt_tokens.
     Option.bind (Option.bind (json_get usage ''output_tokens'') as_i64) (\<lambda>completion_tokens.
     Some \<lparr>chu_prompt_tokens = prompt_tokens, chu_completion_tokens = completion_tokens,
       chu_total_tokens = (case Option.bind (json_get usage ''total_tokens'') as_i64 of
         Some n \<Rightarrow> n | None \<Rightarrow> i64_add prompt_tokens completion_tokens),
       chu_cached_tokens = Option.bind (Option.bind (json_get usage ''input_tokens_details'')
         (\<lambda>details. json_get details ''cached_tokens'')) as_i64,
       chu_reasoning_tokens = Option.bind (Option.bind (json_get usage ''output_tokens_details'')
         (\<lambda>details. json_get details ''reasoning_tokens'')) as_i64\<rparr>)))"

definition usage_from_response :: "json \<Rightarrow> chat_usage option" where
  "usage_from_response data = Option.bind (json_get data ''response'') response_value_usage"

definition response_error_field :: "json \<Rightarrow> string \<Rightarrow> string option" where
  "response_error_field data field =
     Option.bind (Option.bind (json_get data ''response'') (\<lambda>response. json_get response ''error''))
       (\<lambda>error. json_get_str error field)"

definition response_error_message :: "json \<Rightarrow> string" where
  "response_error_message data =
     (case response_error_field data ''message'' of
        Some m \<Rightarrow> m | None \<Rightarrow> ''upstream request failed'')"

definition response_error_code :: "json \<Rightarrow> string" where
  "response_error_code data =
     (case response_error_field data ''code'' of Some c \<Rightarrow> c | None \<Rightarrow> ''gateway_error'')"

subsection \<open>Conversion\<close>

definition emit_content_delta :: "uuid_supply \<Rightarrow> json \<Rightarrow> chat_step" where
  "emit_content_delta U data =
     (case json_get_str data ''delta'' of
        Some delta \<Rightarrow> then_emit (ensure_role_chunk U)
          (push_chunk U [delta_choice (delta_default\<lparr>csd_content := Some delta\<rparr>)])
      | None \<Rightarrow> no_step)"

definition emit_reasoning_delta :: "uuid_supply \<Rightarrow> json \<Rightarrow> chat_step" where
  "emit_reasoning_delta U data =
     (case json_get_str data ''delta'' of
        Some delta \<Rightarrow> then_emit (ensure_role_chunk U)
          (push_chunk U [delta_choice (delta_default\<lparr>csd_reasoning_content := Some delta\<rparr>)])
      | None \<Rightarrow> no_step)"

definition emit_completed :: "uuid_supply \<Rightarrow> json \<Rightarrow> chat_step" where
  "emit_completed U data =
     then_emit (ensure_role_chunk U)
    (then_emit (\<lambda>s. push_chunk U [\<lparr>csc_index = 0, csc_delta = delta_default,
         csc_finish_reason = Some (finish_reason_from_response data (has_tool_calls (snd s)))\<rparr>] s)
    (then_emit (\<lambda>s. if sc_include_usage (snd s)
         then (case usage_from_response data of
                 Some usage \<Rightarrow> push_usage_chunk U usage s | None \<Rightarrow> (s, []))
         else (s, []))
       (\<lambda>s. (s, [ChatDone]))))"

definition emit_failed :: "json \<Rightarrow> chat_step" where
  "emit_failed data s =
     (s, [ChatData (jobj [(''error'', jobj [(''message'', JStr (response_error_message data)),
            (''code'', JStr (response_error_code data))])]), ChatDone])"

definition set_response_id :: "json \<Rightarrow> chat_step" where
  "set_response_id data s =
     ((fst s, (snd s)\<lparr>sc_id := Option.bind (json_get data ''response'')
        (\<lambda>response. json_get_str response ''id'')\<rparr>), [])"

definition chat_convert :: "json_codec \<Rightarrow> uuid_supply \<Rightarrow> sse_event \<Rightarrow> chat_step" where
  "chat_convert J U event =
     (let e = se_event event; data = se_data event in
      if e = ''response.created'' then then_emit (set_response_id data) (ensure_role_chunk U)
      else if e = ''response.output_text.delta'' then emit_content_delta U data
      else if e = ''response.reasoning_text.delta'' \<or> e = ''response.reasoning_summary_text.delta''
      then emit_reasoning_delta U data
      else if e = ''response.function_call_arguments.delta'' then
        (case (json_get_str data ''call_id'', json_get_str data ''delta'') of
           (Some call_id, Some delta) \<Rightarrow>
             emit_tool_argument_delta U call_id (json_get_str data ''name'') delta
         | _ \<Rightarrow> no_step)
      else if e = ''response.function_call_arguments.done'' then
        (case tool_call_from_function_args_done data of
           Some tool_call \<Rightarrow> emit_tool_call U tool_call | None \<Rightarrow> no_step)
      else if e = ''response.output_item.done'' then
        (case tool_call_from_output_item_done J data of
           Some tool_call \<Rightarrow> emit_tool_call U tool_call | None \<Rightarrow> no_step)
      else if e = ''response.completed'' \<or> e = ''response.incomplete'' then emit_completed U data
      else if e = ''response.failed'' then emit_failed data
      else no_step)"

text \<open>
  The streamed response of a turn (\<^verbatim>\<open>stream_chat_completions_response\<close> of \<^verbatim>\<open>src/src/http.rs\<close>): every
  event converted in order by one converter; what it sends is the concatenation.
\<close>

definition chat_stream ::
  "json_codec \<Rightarrow> uuid_supply \<Rightarrow> int \<Rightarrow> string \<Rightarrow> bool \<Rightarrow> sse_event list \<Rightarrow> chat_sse_event list" where
  "chat_stream J U now model include_usage evs =
     snd (emit_all (chat_convert J U) evs (0, chat_converter_new now model include_usage))"

subsection \<open>The collector\<close>

record chat_collector =
  ccl_model :: string
  ccl_final_response :: "json option"
  ccl_error :: "string option"

definition chat_collector_new :: "string \<Rightarrow> chat_collector" where
  "chat_collector_new model = \<lparr>ccl_model = model, ccl_final_response = None, ccl_error = None\<rparr>"

definition chat_process :: "sse_event \<Rightarrow> chat_collector \<Rightarrow> chat_collector" where
  "chat_process event c =
     (let e = se_event event in
      if e = ''response.completed'' \<or> e = ''response.incomplete''
      then c\<lparr>ccl_final_response := json_get (se_data event) ''response''\<rparr>
      else if e = ''response.failed''
      then c\<lparr>ccl_error := Some (response_error_message (se_data event))\<rparr>
      else c)"

definition part_texts :: "json \<Rightarrow> string \<Rightarrow> string list" where
  "part_texts item field =
     (case Option.bind (json_get item field) as_array of
        None \<Rightarrow> []
      | Some parts \<Rightarrow> List.map_filter (\<lambda>part. json_get_str part ''text'') parts)"

definition message_item_text :: "json \<Rightarrow> string" where
  "message_item_text item = concat (part_texts item ''content'')"

definition chat_reasoning_item_text :: "json \<Rightarrow> string" where
  "chat_reasoning_item_text item =
     join [CHR 0x0A] (part_texts item ''summary'' @ part_texts item ''content'')"

type_synonym collected_message = "string \<times> string \<times> chat_tool_call list"

definition collect_item :: "json_codec \<Rightarrow> json \<Rightarrow> collected_message \<Rightarrow> collected_message" where
  "collect_item J item acc =
     (let (content, reasoning, tool_calls) = acc; t = json_get_str item ''type'' in
      if t = Some ''message'' then (content @ message_item_text item, reasoning, tool_calls)
      else if t = Some ''reasoning''
      then (content, reasoning @ chat_reasoning_item_text item, tool_calls)
      else if is_tool_item_type t then
        (case tool_call_from_item J item of
           Some tool_call \<Rightarrow> (content, reasoning, tool_calls @ [tool_call])
         | None \<Rightarrow> acc)
      else acc)"

definition message_from_response_output :: "json_codec \<Rightarrow> json \<Rightarrow> collected_message" where
  "message_from_response_output J response =
     (case Option.bind (json_get response ''output'') as_array of
        None \<Rightarrow> ([], [], [])
      | Some output \<Rightarrow>
          (let (content, reasoning, tool_calls) = fold (collect_item J) output ([], [], []) in
           (content, reasoning, map (\<lambda>(index, tool_call). tool_call\<lparr>tc_index := Some index\<rparr>)
              (enumerate 0 tool_calls))))"

text \<open>The message, choice and response the derived serializers write.\<close>

record chat_completion_message =
  ccm_role :: string
  ccm_content :: "string option"
  ccm_reasoning_content :: "string option"
  ccm_tool_calls :: "chat_tool_call list option"

record chat_completion_choice =
  cch_index :: nat
  cch_message :: chat_completion_message
  cch_finish_reason :: string

record chat_completion_resource =
  ccs_id :: string
  ccs_object :: string
  ccs_created :: int
  ccs_model :: string
  ccs_choices :: "chat_completion_choice list"
  ccs_usage :: "chat_usage option"

definition completion_message_value :: "chat_completion_message \<Rightarrow> json" where
  "completion_message_value m =
     jobj ([(''role'', JStr (ccm_role m))] @ opt_entry ''content'' (ccm_content m)
       @ opt_entry ''reasoning_content'' (ccm_reasoning_content m)
       @ opt_value ''tool_calls'' (map_option (\<lambda>cs. JArr (map tool_call_value cs)) (ccm_tool_calls m)))"

definition completion_choice_value :: "chat_completion_choice \<Rightarrow> json" where
  "completion_choice_value c =
     jobj [(''index'', JNum (PosInt (cch_index c))),
           (''message'', completion_message_value (cch_message c)),
           (''finish_reason'', JStr (cch_finish_reason c))]"

definition completion_value :: "chat_completion_resource \<Rightarrow> json" where
  "completion_value r =
     jobj ([(''id'', JStr (ccs_id r)), (''object'', JStr (ccs_object r)),
            (''created'', json_i64 (ccs_created r)), (''model'', JStr (ccs_model r)),
            (''choices'', JArr (map completion_choice_value (ccs_choices r)))]
       @ opt_value ''usage'' (map_option usage_value (ccs_usage r)))"

definition chat_completion_response_from_response ::
  "json_codec \<Rightarrow> string \<Rightarrow> int \<Rightarrow> string \<Rightarrow> json \<Rightarrow> json" where
  "chat_completion_response_from_response J uuid now model_hint response =
     (let (content, reasoning_content, tool_calls) = message_from_response_output J response;
          has_calls = (tool_calls \<noteq> []);
          message = \<lparr>ccm_role = ''assistant'',
            ccm_content = (if content = [] \<and> has_calls then None else Some content),
            ccm_reasoning_content = (if reasoning_content \<noteq> [] then Some reasoning_content else None),
            ccm_tool_calls = (if has_calls then Some tool_calls else None)\<rparr>
      in completion_value
           \<lparr>ccs_id = (case json_get_str response ''id'' of
              Some i \<Rightarrow> i | None \<Rightarrow> ''chatcmpl_'' @ uuid),
            ccs_object = ''chat.completion'',
            ccs_created = (case Option.bind (json_get response ''created_at'') as_i64 of
              Some t \<Rightarrow> t | None \<Rightarrow> now),
            ccs_model = (case json_get_str response ''model'' of Some m \<Rightarrow> m | None \<Rightarrow> model_hint),
            ccs_choices = [\<lparr>cch_index = 0, cch_message = message,
              cch_finish_reason = finish_reason_from_response_value response has_calls\<rparr>],
            ccs_usage = response_value_usage response\<rparr>)"

definition chat_into_response ::
  "json_codec \<Rightarrow> string \<Rightarrow> int \<Rightarrow> chat_collector \<Rightarrow> app_error + json" where
  "chat_into_response J uuid now c =
     (case ccl_error c of
        Some error \<Rightarrow> Inl (upstream_error error)
      | None \<Rightarrow>
          (case ccl_final_response c of
             None \<Rightarrow> Inl (upstream_error
               ''stream ended before a final response resource was emitted'')
           | Some response \<Rightarrow>
               Inr (chat_completion_response_from_response J uuid now (ccl_model c) response)))"

definition collect_chat ::
  "json_codec \<Rightarrow> string \<Rightarrow> int \<Rightarrow> string \<Rightarrow> sse_event list \<Rightarrow> app_error + json" where
  "collect_chat J uuid now model evs =
     chat_into_response J uuid now (fold chat_process evs (chat_collector_new model))"

end
