(* ===== verification/Chat_Stream_Correct.thy ===== *)
theory Chat_Stream_Correct
  imports Chat_Stream
begin

text \<open>
  Correctness of the Chat Completions stream.  The contract is the client's: a client that follows
  the protocol (one role chunk first; contents appended; a tool-call delta with an id opens the next
  index, one without continues an open index; a name at most once per call) accepts every stream
  and reconstructs the turn: its text, its reasoning, its calls with their full arguments and its
  finish reason.
\<close>

subsection \<open>Reading chunks\<close>

definition choices_of :: "chat_sse_event \<Rightarrow> json list" where
  "choices_of e = (case e of
     ChatDone \<Rightarrow> []
   | ChatData v \<Rightarrow> (case Option.bind (json_get v ''choices'') as_array of
       Some cs \<Rightarrow> cs | None \<Rightarrow> []))"

definition delta_of :: "json \<Rightarrow> json" where
  "delta_of choice = (case json_get choice ''delta'' of Some d \<Rightarrow> d | None \<Rightarrow> JNull)"

definition tools_of :: "json \<Rightarrow> json list" where
  "tools_of d = (case Option.bind (json_get d ''tool_calls'') as_array of Some ts \<Rightarrow> ts | None \<Rightarrow> [])"

subsection \<open>The client\<close>

type_synonym client_call = "string \<times> string option \<times> string"

record chat_turn =
  tu_content :: string
  tu_reasoning :: string
  tu_calls :: "client_call list"
  tu_finish :: "string option"

definition empty_turn :: chat_turn where
  "empty_turn = \<lparr>tu_content = [], tu_reasoning = [], tu_calls = [], tu_finish = None\<rparr>"

definition client_tool :: "json \<Rightarrow> client_call list \<Rightarrow> client_call list option" where
  "client_tool t calls =
     (let f = (case json_get t ''function'' of Some f \<Rightarrow> f | None \<Rightarrow> JNull);
          name = json_get_str f ''name'';
          arguments = or_default (json_get_str f ''arguments'')
      in case Option.bind (json_get t ''index'') as_u64 of
           None \<Rightarrow> None
         | Some i \<Rightarrow>
             (case json_get_str t ''id'' of
                Some c \<Rightarrow>
                  if i = length calls \<and> c \<notin> fst ` set calls
                  then Some (calls @ [(c, name, arguments)]) else None
              | None \<Rightarrow>
                  if i < length calls \<and> (name = None \<or> fst (snd (calls ! i)) = None)
                  then Some (calls[i := (fst (calls ! i),
                         (if name = None then fst (snd (calls ! i)) else name),
                         snd (snd (calls ! i)) @ arguments)]) else None))"

fun client_tools :: "json list \<Rightarrow> client_call list \<Rightarrow> client_call list option" where
  "client_tools [] calls = Some calls"
| "client_tools (t # ts) calls = Option.bind (client_tool t calls) (client_tools ts)"

definition client_delta :: "json \<Rightarrow> chat_turn \<Rightarrow> chat_turn option" where
  "client_delta choice t =
     (let d = delta_of choice in
      Option.bind (client_tools (tools_of d) (tu_calls t)) (\<lambda>calls.
      Some \<lparr>tu_content = tu_content t @ or_default (json_get_str d ''content''),
        tu_reasoning = tu_reasoning t @ or_default (json_get_str d ''reasoning_content''),
        tu_calls = calls,
        tu_finish = (case json_get_str choice ''finish_reason'' of
           Some f \<Rightarrow> Some f | None \<Rightarrow> tu_finish t)\<rparr>))"

text \<open>The client's state: whether the role chunk came, and the turn so far.\<close>

fun client_chunk :: "json list \<Rightarrow> bool \<times> chat_turn \<Rightarrow> (bool \<times> chat_turn) option" where
  "client_chunk [] c = Some c"
| "client_chunk [choice] (started, t) =
     (if json_get_str (delta_of choice) ''role'' \<noteq> None
      then (if started then None else Some (True, t))
      else if started then map_option (Pair True) (client_delta choice t) else None)"
| "client_chunk _ c = None"

fun client_run :: "bool \<times> chat_turn \<Rightarrow> json list list \<Rightarrow> (bool \<times> chat_turn) option" where
  "client_run c [] = Some c"
| "client_run c (v # vs) = Option.bind (client_chunk v c) (\<lambda>c. client_run c vs)"

lemma client_run_append:
  "client_run c (xs @ ys) = Option.bind (client_run c xs) (\<lambda>c. client_run c ys)"
  by (induction c xs rule: client_run.induct) (auto split: bind_split)

subsection \<open>The turn the events describe\<close>

definition has_call :: "string \<Rightarrow> client_call list \<Rightarrow> bool" where
  "has_call c calls \<longleftrightarrow> c \<in> fst ` set calls"

definition update_call ::
  "string \<Rightarrow> (string option \<times> string \<Rightarrow> string option \<times> string) \<Rightarrow> client_call list
     \<Rightarrow> client_call list" where
  "update_call c f calls = map (\<lambda>(k, v). if k = c then (k, f v) else (k, v)) calls"

text \<open>A fragment extends its call or opens it; a whole call opens it or only names it.\<close>

definition add_fragment ::
  "string \<Rightarrow> string option \<Rightarrow> string \<Rightarrow> client_call list \<Rightarrow> client_call list" where
  "add_fragment c name delta calls =
     (if has_call c calls
      then update_call c (\<lambda>(n, a). (if n = None then name else n, a @ delta)) calls
      else calls @ [(c, name, delta)])"

definition add_whole :: "chat_tool_call option \<Rightarrow> client_call list \<Rightarrow> client_call list" where
  "add_whole tool_call calls =
     (case tool_call of
        None \<Rightarrow> calls
      | Some t \<Rightarrow>
          (let c = or_default (tc_id t); name = fc_name (tc_function t) in
           if has_call c calls
           then update_call c (\<lambda>(n, a). (if n = None then name else n, a)) calls
           else calls @ [(c, name, or_default
             (Option.bind (fc_arguments (tc_function t)) as_str))]))"

definition turn_event :: "json_codec \<Rightarrow> sse_event \<Rightarrow> chat_turn \<Rightarrow> chat_turn" where
  "turn_event J event t =
     (let e = se_event event; data = se_data event; delta = json_get_str data ''delta'' in
      if e = ''response.output_text.delta'' then t\<lparr>tu_content := tu_content t @ or_default delta\<rparr>
      else if e = ''response.reasoning_text.delta'' \<or> e = ''response.reasoning_summary_text.delta''
      then t\<lparr>tu_reasoning := tu_reasoning t @ or_default delta\<rparr>
      else if e = ''response.function_call_arguments.delta'' then
        (case (json_get_str data ''call_id'', delta) of
           (Some c, Some d) \<Rightarrow>
             t\<lparr>tu_calls := add_fragment c (json_get_str data ''name'') d (tu_calls t)\<rparr>
         | _ \<Rightarrow> t)
      else if e = ''response.function_call_arguments.done'' then
        t\<lparr>tu_calls := add_whole (tool_call_from_function_args_done data) (tu_calls t)\<rparr>
      else if e = ''response.output_item.done'' then
        t\<lparr>tu_calls := add_whole (tool_call_from_output_item_done J data) (tu_calls t)\<rparr>
      else if e = ''response.completed'' \<or> e = ''response.incomplete'' then
        t\<lparr>tu_finish := Some (finish_reason_from_response data (tu_calls t \<noteq> []))\<rparr>
      else t)"

subsection \<open>What each chunk shows\<close>

definition views :: "chat_sse_event list \<Rightarrow> json list list" where
  "views out = map choices_of out"

lemma views_simps [simp]:
  "views [] = []" "views (xs @ ys) = views xs @ views ys" "views (ChatDone # es) = [] # views es"
  by (simp_all add: views_def choices_of_def)

lemma obj_lookup:
  "distinct (map fst kvs) \<Longrightarrow> json_get (jobj kvs) k = map_of kvs k"
  by (rule obj_get_jobj)

lemma choices_chunk: "choices_of (ChatData (chunk_value k)) = map choice_value (csk_choices k)"
  by (cases "csk_usage k")
    (simp_all add: choices_of_def chunk_value_def obj_lookup opt_value_def)

lemma views_push_chunk: "views (snd (push_chunk U cs s)) = [map choice_value cs]"
  by (simp add: push_chunk_def views_def choices_chunk case_prod_beta Let_def)

lemma views_push_usage: "views (snd (push_usage_chunk U usage s)) = [[]]"
  by (simp add: push_usage_chunk_def views_def choices_chunk case_prod_beta Let_def)

lemma views_failed: "views (snd (emit_failed data s)) = [[], []]"
  by (simp add: emit_failed_def views_def choices_of_def obj_lookup)

lemma state_push: "snd (fst (push_chunk U cs s)) = snd s" "snd (fst (push_usage_chunk U u s)) = snd s"
  by (simp_all add: push_chunk_def push_usage_chunk_def chat_id_def case_prod_beta Let_def
      split: option.split)

lemma delta_of_choice: "delta_of (choice_value c) = delta_value (csc_delta c)"
  by (cases "csc_finish_reason c") (simp_all add: delta_of_def choice_value_def obj_lookup)

lemma finish_of_choice: "json_get_str (choice_value c) ''finish_reason'' = csc_finish_reason c"
  by (cases "csc_finish_reason c")
    (simp_all add: json_get_str_def choice_value_def obj_lookup)

lemma delta_fields:
  "json_get_str (delta_value d) ''role'' = csd_role d"
  "json_get_str (delta_value d) ''content'' = csd_content d"
  "json_get_str (delta_value d) ''reasoning_content'' = csd_reasoning_content d"
  "tools_of (delta_value d) = (case csd_tool_calls d of None \<Rightarrow> [] | Some cs \<Rightarrow> map tool_call_value cs)"
  by (cases "csd_role d"; cases "csd_content d"; cases "csd_reasoning_content d";
      cases "csd_tool_calls d";
      simp add: json_get_str_def tools_of_def delta_value_def obj_lookup opt_value_def)+

lemma tool_fields:
  "json_get_str (tool_call_value c) ''id'' = tc_id c"
  "Option.bind (json_get (tool_call_value c) ''index'') as_u64 = tc_index c"
  "json_get (tool_call_value c) ''function'' = Some (function_call_value (tc_function c))"
  by (cases "tc_id c"; cases "tc_index c";
      simp add: json_get_str_def tool_call_value_def obj_lookup opt_value_def)+

lemma function_fields:
  "json_get_str (function_call_value f) ''name'' = fc_name f"
  "json_get_str (function_call_value f) ''arguments'' = Option.bind (fc_arguments f) as_str"
  by (cases "fc_name f"; cases "fc_arguments f";
      simp add: json_get_str_def function_call_value_def obj_lookup opt_value_def)+

lemmas chunk_fields = delta_of_choice finish_of_choice delta_fields tool_fields function_fields

subsection \<open>The table of emitted calls\<close>

lemma length_obj_insert:
  "obj_sorted m \<Longrightarrow> length (obj_insert k v m) = (if obj_get m k = None then Suc (length m) else length m)"
proof (induction k v m rule: obj_insert.induct)
  case (2 k v k' v' m)
  show ?case
  proof (cases "k < k'")
    case True
    with "2.prems" have "k \<notin> fst ` set m" by (auto simp: obj_sorted_Cons)
    then have "obj_get m k = None" by (induction m) auto
    with True show ?thesis by auto
  qed (use 2 in \<open>auto simp: obj_sorted_Cons\<close>)
qed simp

text \<open>The table holds, for every call opened so far, its index and whether it has been named.\<close>

definition tracked :: "(string \<times> chat_tool_stream_state) list \<Rightarrow> client_call list \<Rightarrow> bool" where
  "tracked E calls \<longleftrightarrow> obj_sorted E \<and> length E = length calls \<and> distinct (map fst calls)
     \<and> (\<forall>k st. obj_get E k = Some st \<longleftrightarrow> cts_index st < length calls
          \<and> fst (calls ! cts_index st) = k
          \<and> cts_name_emitted st = (fst (snd (calls ! cts_index st)) \<noteq> None))"

lemma tracked_empty: "tracked [] []"
  by (simp add: tracked_def obj_sorted_def)

lemma tracked_has_call:
  assumes "tracked E calls"
  shows "has_call k calls \<longleftrightarrow> obj_get E k \<noteq> None"
proof
  assume "has_call k calls"
  then obtain i where "i < length calls" "fst (calls ! i) = k"
    by (auto simp: has_call_def in_set_conv_nth)
  with assms have "obj_get E k = Some \<lparr>cts_index = i,
      cts_name_emitted = (fst (snd (calls ! i)) \<noteq> None)\<rparr>" by (simp add: tracked_def)
  then show "obj_get E k \<noteq> None" by simp
next
  assume "obj_get E k \<noteq> None"
  then obtain st where "obj_get E k = Some st" by blast
  with assms have "cts_index st < length calls" "fst (calls ! cts_index st) = k"
    by (auto simp: tracked_def)
  then show "has_call k calls" unfolding has_call_def by (metis imageI nth_mem)
qed

lemma tracked_entry:
  assumes "tracked E calls" and "obj_get E k = Some st"
  shows "cts_index st < length calls" "fst (calls ! cts_index st) = k"
    "cts_name_emitted st = (fst (snd (calls ! cts_index st)) \<noteq> None)"
  using assms by (auto simp: tracked_def)

lemma tracked_open:
  assumes "tracked E calls" and "obj_get E k = None"
  shows "tracked (obj_insert k \<lparr>cts_index = length E, cts_name_emitted = (n \<noteq> None)\<rparr> E)
    (calls @ [(k, n, a)])"
proof -
  have "\<not> has_call k calls" using assms tracked_has_call by blast
  then have k: "k \<notin> fst ` set calls" by (simp add: has_call_def)
  then have nk: "i < length calls \<Longrightarrow> fst (calls ! i) \<noteq> k" for i by (metis imageI nth_mem)
  from k assms show ?thesis
    by (auto simp: tracked_def length_obj_insert obj_sorted_insert obj_get_insert nth_append
        less_Suc_eq dest: nk)
qed

lemma tracked_update:
  assumes t: "tracked E calls" and k: "obj_get E k = Some st"
  shows "tracked (obj_insert k (st\<lparr>cts_name_emitted := (n \<noteq> None)\<rparr>) E)
    (calls[cts_index st := (k, n, a)])"
proof -
  note e = tracked_entry [OF t k]
  from t have base: "obj_sorted E" "length E = length calls" "distinct (map fst calls)"
    by (simp_all add: tracked_def)
  have keys: "map fst (calls[cts_index st := (k, n, a)]) = map fst calls"
    using e(1,2) by (simp add: map_update list_update_same_conv)
  have uniq: "i < length calls \<Longrightarrow> fst (calls ! i) = k \<Longrightarrow> i = cts_index st" for i
    using t e by (auto simp: tracked_def distinct_conv_nth)
  have entries: "obj_get (obj_insert k (st\<lparr>cts_name_emitted := (n \<noteq> None)\<rparr>) E) k' = Some st' \<longleftrightarrow>
      cts_index st' < length calls
      \<and> fst (calls[cts_index st := (k, n, a)] ! cts_index st') = k'
      \<and> cts_name_emitted st' = (fst (snd (calls[cts_index st := (k, n, a)] ! cts_index st')) \<noteq> None)"
    for k' st'
  proof (cases "k' = k")
    case True
    have "st\<lparr>cts_name_emitted := (n \<noteq> None)\<rparr> = st' \<longleftrightarrow>
        cts_index st' = cts_index st \<and> cts_name_emitted st' = (n \<noteq> None)"
      by (cases st; cases st') auto
    then have get: "obj_get (obj_insert k (st\<lparr>cts_name_emitted := (n \<noteq> None)\<rparr>) E) k' = Some st'
        \<longleftrightarrow> cts_index st' = cts_index st \<and> cts_name_emitted st' = (n \<noteq> None)"
      using True by (simp add: obj_get_insert)
    show ?thesis
    proof (cases "cts_index st' = cts_index st")
      case same: True
      show ?thesis unfolding get using True same e(1) by simp
    next
      case other: False
      with uniq [of "cts_index st'"] True show ?thesis unfolding get by auto
    qed
  next
    case False
    with t e show ?thesis
      by (auto simp: obj_get_insert nth_list_update tracked_def)
  qed
  have "length (obj_insert k (st\<lparr>cts_name_emitted := (n \<noteq> None)\<rparr>) E) = length calls"
    using length_obj_insert [OF base(1)] k base(2) by simp
  with base keys entries show ?thesis
    by (simp add: tracked_def obj_sorted_insert)
qed

lemma tracked_extend:
  assumes t: "tracked E calls" and k: "obj_get E k = Some st"
    and "cts_name_emitted st = (n \<noteq> None)"
  shows "tracked E (calls[cts_index st := (k, n, a)])"
proof -
  have "st\<lparr>cts_name_emitted := (n \<noteq> None)\<rparr> = st" using assms(3) by (cases st) simp
  with k have g: "obj_get (obj_insert k (st\<lparr>cts_name_emitted := (n \<noteq> None)\<rparr>) E) = obj_get E"
    by (simp add: obj_get_insert fun_upd_idem)
  from t have "obj_sorted E" "length E = length calls" by (simp_all add: tracked_def)
  with tracked_update [OF t k, of n a] show ?thesis
    unfolding tracked_def g by simp
qed

lemma update_call_nth:
  assumes "distinct (map fst calls)" and "i < length calls"
  shows "update_call (fst (calls ! i)) f calls = calls[i := (fst (calls ! i), f (snd (calls ! i)))]"
proof (rule nth_equalityI)
  fix j assume "j < length (update_call (fst (calls ! i)) f calls)"
  then have j: "j < length calls" by (simp add: update_call_def)
  from assms j have "fst (calls ! j) = fst (calls ! i) \<longleftrightarrow> j = i"
    by (auto simp: distinct_conv_nth)
  with j assms(2) show "update_call (fst (calls ! i)) f calls ! j
      = calls[i := (fst (calls ! i), f (snd (calls ! i)))] ! j"
    by (auto simp: update_call_def case_prod_beta nth_list_update)
qed (simp add: update_call_def)

subsection \<open>The simulation\<close>

definition chat_rel :: "chat_state \<Rightarrow> chat_turn \<Rightarrow> bool \<times> chat_turn \<Rightarrow> bool" where
  "chat_rel s a c \<longleftrightarrow> c = (sc_role_sent (snd s), a) \<and> tracked (sc_emitted_tool_calls (snd s)) (tu_calls a)"

lemma role_sim:
  "client_run (sc_role_sent (snd s), t) (views (snd (ensure_role_chunk U s))) = Some (True, t)"
  "snd (fst (ensure_role_chunk U s)) = (snd s)\<lparr>sc_role_sent := True\<rparr>"
  by (cases "sc_role_sent (snd s)";
      simp add: ensure_role_chunk_def views_push_chunk state_push chunk_fields delta_choice_def
        delta_default_def)+

lemma client_delta_value:
  "client_delta (choice_value c) t =
     map_option (\<lambda>calls. \<lparr>tu_content = tu_content t @ or_default (csd_content (csc_delta c)),
        tu_reasoning = tu_reasoning t @ or_default (csd_reasoning_content (csc_delta c)),
        tu_calls = calls,
        tu_finish = (case csc_finish_reason c of Some f \<Rightarrow> Some f | None \<Rightarrow> tu_finish t)\<rparr>)
       (client_tools (case csd_tool_calls (csc_delta c) of None \<Rightarrow> []
          | Some cs \<Rightarrow> map tool_call_value cs) (tu_calls t))"
  by (simp add: client_delta_def chunk_fields map_option_case bind_split split: option.split)

lemma chunk_sim:
  assumes "csd_role (csc_delta c) = None"
  shows "client_run (True, t) (views (snd (push_chunk U [c] s)))
    = map_option (Pair True) (client_delta (choice_value c) t)"
  using assms
  by (cases "client_delta (choice_value c) t") (simp_all add: views_push_chunk chunk_fields)

text \<open>The role chunk when needed, then a chunk without a role.\<close>

lemma role_then_chunk_sim:
  assumes "csd_role (csc_delta c) = None"
  shows "client_run (sc_role_sent (snd s), t)
      (views (snd (then_emit (ensure_role_chunk U) (push_chunk U [c]) s)))
    = map_option (Pair True) (client_delta (choice_value c) t)"
    and "snd (fst (then_emit (ensure_role_chunk U) (push_chunk U [c]) s))
      = (snd s)\<lparr>sc_role_sent := True\<rparr>"
  using chunk_sim [OF assms]
  by (simp_all add: snd_then_emit fst_then_emit client_run_append role_sim state_push)

lemma client_tool_value:
  assumes "tc_index c = Some i"
  shows "client_tool (tool_call_value c) calls =
    (let name = fc_name (tc_function c);
         arguments = or_default (Option.bind (fc_arguments (tc_function c)) as_str) in
     case tc_id c of
       Some k \<Rightarrow> if i = length calls \<and> \<not> has_call k calls
         then Some (calls @ [(k, name, arguments)]) else None
     | None \<Rightarrow> if i < length calls \<and> (name = None \<or> fst (snd (calls ! i)) = None)
         then Some (calls[i := (fst (calls ! i),
                (if name = None then fst (snd (calls ! i)) else name),
                snd (snd (calls ! i)) @ arguments)]) else None)"
  using assms by (cases "tc_id c") (simp_all add: client_tool_def chunk_fields has_call_def Let_def)

lemma push_tool_call_sim:
  "client_run (sc_role_sent (snd s), t) (views (snd (push_tool_call U c s)))
     = map_option (\<lambda>calls. (True, t\<lparr>tu_calls := calls\<rparr>))
         (client_tool (tool_call_value c) (tu_calls t))"
  "snd (fst (push_tool_call U c s)) = (snd s)\<lparr>sc_role_sent := True\<rparr>"
  unfolding push_tool_call_def
  by (cases "client_tool (tool_call_value c) (tu_calls t)",
      simp_all add: role_then_chunk_sim client_delta_value delta_choice_def delta_default_def
        or_default_def)

lemma text_delta_sim:
  assumes "chat_rel s a c"
  shows "\<exists>c'. client_run c (views (snd (emit_content_delta U data s))) = Some c'
      \<and> chat_rel (fst (emit_content_delta U data s))
          (a\<lparr>tu_content := tu_content a @ or_default (json_get_str data ''delta'')\<rparr>) c'"
    and "\<exists>c'. client_run c (views (snd (emit_reasoning_delta U data s))) = Some c'
      \<and> chat_rel (fst (emit_reasoning_delta U data s))
          (a\<lparr>tu_reasoning := tu_reasoning a @ or_default (json_get_str data ''delta'')\<rparr>) c'"
  using assms
  by (cases "json_get_str data ''delta''";
      simp add: chat_rel_def emit_content_delta_def emit_reasoning_delta_def no_step_def
        role_then_chunk_sim client_delta_value delta_choice_def delta_default_def or_default_def)+

lemma completed_sim:
  assumes "chat_rel s a c"
  shows "\<exists>c'. client_run c (views (snd (emit_completed U data s))) = Some c'
      \<and> chat_rel (fst (emit_completed U data s))
          (a\<lparr>tu_finish := Some (finish_reason_from_response data (tu_calls a \<noteq> []))\<rparr>) c'"
proof -
  have "has_tool_calls (snd s) = (tu_calls a \<noteq> [])"
    using assms by (auto simp: chat_rel_def has_tool_calls_def tracked_def)
  with assms show ?thesis
    by (cases "usage_from_response data"; cases "sc_include_usage (snd s)")
      (simp_all add: emit_completed_def chat_rel_def snd_then_emit fst_then_emit client_run_append
        role_sim chunk_sim state_push views_push_usage client_delta_value delta_default_def
        or_default_def has_tool_calls_def)
qed

text \<open>A pushed call the client accepts moves its calls, and the table must follow.\<close>

lemma push_call_rel:
  assumes "client_tool (tool_call_value c) (tu_calls a) = Some calls"
    and "tracked (sc_emitted_tool_calls (snd s')) calls"
    and "sc_role_sent (snd s') = started"
  shows "\<exists>c'. client_run (started, a) (views (snd (push_tool_call U c s'))) = Some c'
    \<and> chat_rel (fst (push_tool_call U c s')) (a\<lparr>tu_calls := calls\<rparr>) c'"
  using assms push_tool_call_sim(1) [of s' a U c] push_tool_call_sim(2) [of U c s'] by (simp add: chat_rel_def)

text \<open>The fragment as a pushed call, and what it makes of the table.\<close>

definition fragment_call :: "string option \<Rightarrow> nat \<Rightarrow> string option \<Rightarrow> string \<Rightarrow> chat_tool_call" where
  "fragment_call cid index name delta = \<lparr>tc_id = cid, tc_index = Some index, tc_kind = ''function'',
     tc_function = \<lparr>fc_name = name, fc_arguments = Some (JStr delta)\<rparr>\<rparr>"

lemma obj_insert_twice [simp]: "obj_insert k v (obj_insert k u m) = obj_insert k v m"
  by (induction k v m rule: obj_insert.induct) auto

lemma emit_fragment_new:
  assumes "obj_get (sc_emitted_tool_calls (snd s)) cid = None"
  shows "emit_tool_argument_delta U cid name delta s = push_tool_call U
    (fragment_call (Some cid) (length (sc_emitted_tool_calls (snd s))) name delta)
    (fst s, (snd s)\<lparr>sc_emitted_tool_calls := obj_insert cid
       \<lparr>cts_index = length (sc_emitted_tool_calls (snd s)), cts_name_emitted = (name \<noteq> None)\<rparr>
       (sc_emitted_tool_calls (snd s))\<rparr>)"
  using assms
  by (cases name) (simp_all add: emit_tool_argument_delta_def register_tool_call_def
      take_unemitted_tool_name_def fragment_call_def Let_def obj_get_insert)

lemma emit_fragment_named:
  assumes "obj_get (sc_emitted_tool_calls (snd s)) cid = Some st"
    and "name = None \<or> cts_name_emitted st"
  shows "emit_tool_argument_delta U cid name delta s
    = push_tool_call U (fragment_call None (cts_index st) None delta) s"
  using assms
  by (cases name) (auto simp: emit_tool_argument_delta_def register_tool_call_def
      take_unemitted_tool_name_def fragment_call_def Let_def)

lemma emit_fragment_naming:
  assumes "obj_get (sc_emitted_tool_calls (snd s)) cid = Some st" and "\<not> cts_name_emitted st"
  shows "emit_tool_argument_delta U cid (Some m) delta s
    = push_tool_call U (fragment_call None (cts_index st) (Some m) delta)
        (fst s, (snd s)\<lparr>sc_emitted_tool_calls := obj_insert cid (st\<lparr>cts_name_emitted := True\<rparr>)
           (sc_emitted_tool_calls (snd s))\<rparr>)"
  using assms
  by (simp add: emit_tool_argument_delta_def register_tool_call_def take_unemitted_tool_name_def
      fragment_call_def Let_def)

lemma client_fragment:
  "client_tool (tool_call_value (fragment_call cid i name delta)) calls =
     (case cid of
       Some k \<Rightarrow> if i = length calls \<and> \<not> has_call k calls
         then Some (calls @ [(k, name, delta)]) else None
     | None \<Rightarrow> if i < length calls \<and> (name = None \<or> fst (snd (calls ! i)) = None)
         then Some (calls[i := (fst (calls ! i),
                (if name = None then fst (snd (calls ! i)) else name),
                snd (snd (calls ! i)) @ delta)]) else None)"
  by (subst client_tool_value [where i = i])
    (cases cid; simp add: fragment_call_def or_default_def)+

lemma add_fragment_at:
  assumes "tracked E calls" and "obj_get E cid = Some st"
  shows "add_fragment cid name delta calls = calls[cts_index st :=
    (cid, (if fst (snd (calls ! cts_index st)) = None then name else fst (snd (calls ! cts_index st))),
     snd (snd (calls ! cts_index st)) @ delta)]"
proof -
  note e = tracked_entry [OF assms]
  have "distinct (map fst calls)" using assms by (simp add: tracked_def)
  from update_call_nth [OF this e(1)] e(2) tracked_has_call [OF assms(1)] assms(2)
  show ?thesis by (simp add: add_fragment_def case_prod_beta)
qed

lemma fragment_sim:
  assumes "chat_rel s a c"
  shows "\<exists>c'. client_run c (views (snd (emit_tool_argument_delta U cid name delta s))) = Some c'
    \<and> chat_rel (fst (emit_tool_argument_delta U cid name delta s))
        (a\<lparr>tu_calls := add_fragment cid name delta (tu_calls a)\<rparr>) c'"
proof -
  let ?E = "sc_emitted_tool_calls (snd s)"
  from assms have c: "c = (sc_role_sent (snd s), a)" and t: "tracked ?E (tu_calls a)"
    by (simp_all add: chat_rel_def)
  have len: "length ?E = length (tu_calls a)" using t by (simp add: tracked_def)
  note has = tracked_has_call [OF t, of cid]
  show ?thesis
  proof (cases "obj_get ?E cid")
    case None
    from has None have new: "add_fragment cid name delta (tu_calls a)
        = tu_calls a @ [(cid, name, delta)]" by (simp add: add_fragment_def)
    show ?thesis
      unfolding c new emit_fragment_new [OF None]
      by (rule push_call_rel)
        (use has None len tracked_open [OF t None] in \<open>simp_all add: client_fragment\<close>)
  next
    case (Some st)
    note e = tracked_entry [OF t Some]
    note upd = add_fragment_at [OF t Some, of name delta]
    show ?thesis
    proof (cases "name = None \<or> cts_name_emitted st")
      case True
      show ?thesis
        unfolding c upd emit_fragment_named [OF Some True]
        by (rule push_call_rel)
          (use True e tracked_extend [OF t Some] in \<open>auto simp: client_fragment\<close>)
    next
      case False
      then obtain m where m: "name = Some m" "\<not> cts_name_emitted st" by auto
      show ?thesis
        unfolding c upd unfolding m(1) emit_fragment_naming [OF Some m(2)]
        by (rule push_call_rel)
          (use m e tracked_update [OF t Some, of "Some m"] in \<open>simp_all add: client_fragment\<close>)
    qed
  qed
qed

text \<open>Whole calls: a call seen before only gets its name when it had none.\<close>

lemma tool_call_of_parts:
  "tool_call_from_function_args_done data = Some c \<Longrightarrow>
     \<exists>k nm args. c = chat_tool_call_of k nm args"
  "tool_call_from_item J item = Some c \<Longrightarrow> \<exists>k nm args. c = chat_tool_call_of k nm args"
  by (auto simp: tool_call_from_function_args_done_def tool_call_from_item_def bind_eq_Some_conv
      Let_def split: if_splits)

lemma tool_call_of_output_item:
  "tool_call_from_output_item_done J data = Some c \<Longrightarrow> \<exists>k nm args. c = chat_tool_call_of k nm args"
  by (auto simp: tool_call_from_output_item_done_def bind_eq_Some_conv dest: tool_call_of_parts
      split: if_splits)

lemma whole_sim:
  assumes "chat_rel s a c" and t_def: "t = chat_tool_call_of k nm args"
  shows "\<exists>c'. client_run c (views (snd (emit_tool_call U t s))) = Some c'
    \<and> chat_rel (fst (emit_tool_call U t s)) (a\<lparr>tu_calls := add_whole (Some t) (tu_calls a)\<rparr>) c'"
proof -
  let ?E = "sc_emitted_tool_calls (snd s)"
  from assms(1) have c: "c = (sc_role_sent (snd s), a)" and tr: "tracked ?E (tu_calls a)"
    by (simp_all add: chat_rel_def)
  have len: "length ?E = length (tu_calls a)" using tr by (simp add: tracked_def)
  note has = tracked_has_call [OF tr, of k]
  have t: "tc_id t = Some k" "fc_name (tc_function t) = Some nm"
    "fc_arguments (tc_function t) = Some (JStr args)"
    by (simp_all add: t_def chat_tool_call_of_def)
  show ?thesis
  proof (cases "obj_get ?E k")
    case None
    from has None have new: "add_whole (Some t) (tu_calls a) = tu_calls a @ [(k, Some nm, args)]"
      by (simp add: add_whole_def t or_default_def Let_def)
    have emit: "emit_tool_call U t s = push_tool_call U (t\<lparr>tc_index := Some (length ?E)\<rparr>)
        (fst s, (snd s)\<lparr>sc_emitted_tool_calls := obj_insert k \<lparr>cts_index = length ?E,
           cts_name_emitted = True\<rparr> ?E\<rparr>)"
      by (simp add: emit_tool_call_def t None Let_def)
    show ?thesis
      unfolding c new emit
      by (rule push_call_rel)
        (use has None len t tracked_open [OF tr None, of "Some nm"] in
          \<open>simp_all add: client_tool_value [where i = "length ?E"] or_default_def\<close>)
  next
    case (Some st)
    note e = tracked_entry [OF tr Some]
    define v where "v = snd (tu_calls a ! cts_index st)"
    have "distinct (map fst (tu_calls a))" using tr by (simp add: tracked_def)
    from update_call_nth [OF this e(1)] e(2) has Some have upd: "add_whole (Some t) (tu_calls a)
        = (tu_calls a)[cts_index st := (k, (if fst v = None then Some nm else fst v), snd v)]"
      by (simp add: add_whole_def t or_default_def Let_def case_prod_beta v_def)
    show ?thesis
    proof (cases "cts_name_emitted st")
      case True
      with e have "add_whole (Some t) (tu_calls a) = tu_calls a"
        unfolding upd v_def by (simp add: list_update_same_conv prod_eq_iff)
      moreover have "emit_tool_call U t s = (s, [])"
        by (simp add: emit_tool_call_def t Some True)
      ultimately show ?thesis using assms(1) by (simp add: c)
    next
      case False
      then have fv: "fst v = None" using e(3) by (simp add: v_def)
      have emit: "emit_tool_call U t s = push_tool_call U (t\<lparr>tc_id := None,
          tc_index := Some (cts_index st), tc_function := \<lparr>fc_name = Some nm, fc_arguments = None\<rparr>\<rparr>)
          (fst s, (snd s)\<lparr>sc_emitted_tool_calls := obj_insert k (st\<lparr>cts_name_emitted := True\<rparr>) ?E\<rparr>)"
        by (simp add: emit_tool_call_def t Some False)
      show ?thesis
        unfolding c upd emit
        by (rule push_call_rel)
          (use e fv tracked_update [OF tr Some, of "Some nm" "snd v"] in
            \<open>simp_all add: client_tool_value [where i = "cts_index st"] or_default_def v_def [symmetric]\<close>)
    qed
  qed
qed

definition sim :: "chat_step \<Rightarrow> (chat_turn \<Rightarrow> chat_turn) \<Rightarrow> bool" where
  "sim f g \<longleftrightarrow> (\<forall>s a c. chat_rel s a c \<longrightarrow>
     (\<exists>c'. client_run c (views (snd (f s))) = Some c' \<and> chat_rel (fst (f s)) (g a) c'))"

lemma sim_if: "(P \<Longrightarrow> sim f g) \<Longrightarrow> (\<not> P \<Longrightarrow> sim f' g') \<Longrightarrow> sim (if P then f else f') (if P then g else g')"
  by simp

lemma sim_skip: "sim no_step (\<lambda>a. a)"
  by (simp add: sim_def no_step_def)

lemma sim_created: "sim (then_emit (set_response_id data) (ensure_role_chunk U)) (\<lambda>a. a)"
  by (auto simp: sim_def chat_rel_def set_response_id_def snd_then_emit fst_then_emit role_sim
      role_sim(1) [of "(_, (_)\<lparr>sc_id := _\<rparr>)", simplified])

lemma sim_content:
  "sim (emit_content_delta U data)
     (\<lambda>a. a\<lparr>tu_content := tu_content a @ or_default (json_get_str data ''delta'')\<rparr>)"
  unfolding sim_def using text_delta_sim(1) by blast

lemma sim_reasoning:
  "sim (emit_reasoning_delta U data)
     (\<lambda>a. a\<lparr>tu_reasoning := tu_reasoning a @ or_default (json_get_str data ''delta'')\<rparr>)"
  unfolding sim_def using text_delta_sim(2) by blast

lemma sim_fragment:
  "sim (case (json_get_str data ''call_id'', json_get_str data ''delta'') of
       (Some cid, Some delta) \<Rightarrow> emit_tool_argument_delta U cid (json_get_str data ''name'') delta
     | _ \<Rightarrow> no_step)
    (\<lambda>a. case (json_get_str data ''call_id'', json_get_str data ''delta'') of
       (Some c, Some d) \<Rightarrow> a\<lparr>tu_calls := add_fragment c (json_get_str data ''name'') d (tu_calls a)\<rparr>
     | _ \<Rightarrow> a)"
proof -
  have "sim (emit_tool_argument_delta U c (json_get_str data ''name'') d)
      (\<lambda>a. a\<lparr>tu_calls := add_fragment c (json_get_str data ''name'') d (tu_calls a)\<rparr>)" for c d
    unfolding sim_def using fragment_sim by blast
  then show ?thesis
    using sim_skip by (cases "json_get_str data ''call_id''"; cases "json_get_str data ''delta''") simp_all
qed

lemma sim_whole:
  assumes "\<And>t. opt = Some t \<Longrightarrow> \<exists>k nm args. t = chat_tool_call_of k nm args"
  shows "sim (case opt of Some t \<Rightarrow> emit_tool_call U t | None \<Rightarrow> no_step)
    (\<lambda>a. a\<lparr>tu_calls := add_whole opt (tu_calls a)\<rparr>)"
proof (cases opt)
  case None
  then show ?thesis by (simp add: sim_def no_step_def add_whole_def)
next
  case (Some t)
  with assms obtain k nm args where "t = chat_tool_call_of k nm args" by blast
  from whole_sim [OF _ this] have "sim (emit_tool_call U t)
      (\<lambda>a. a\<lparr>tu_calls := add_whole (Some t) (tu_calls a)\<rparr>)" unfolding sim_def by blast
  with Some show ?thesis by simp
qed

lemma sim_completed:
  "sim (emit_completed U data)
     (\<lambda>a. a\<lparr>tu_finish := Some (finish_reason_from_response data (tu_calls a \<noteq> []))\<rparr>)"
  unfolding sim_def using completed_sim by blast

lemma sim_failed: "sim (emit_failed data) (\<lambda>a. a)"
proof -
  have "fst (emit_failed data s) = s" for s by (simp add: emit_failed_def)
  then show ?thesis by (simp add: sim_def views_failed)
qed

lemmas sims = sim_skip sim_created sim_content sim_reasoning sim_fragment sim_completed sim_failed
  sim_whole [OF tool_call_of_parts(1)] sim_whole [OF tool_call_of_output_item]

lemma convert_sim: "sim (chat_convert J U e) (turn_event J e)"
proof (cases "se_event e = ''response.created''")
  case True
  then have "turn_event J e = (\<lambda>a. a)"
    by (simp add: turn_event_def Let_def fun_eq_iff)
  with True sim_created show ?thesis by (simp add: chat_convert_def Let_def)
next
  case False
  have "turn_event J e = (
      let ev = se_event e; data = se_data e in
      if ev = ''response.output_text.delta'' then
        (\<lambda>a. a\<lparr>tu_content := tu_content a @ or_default (json_get_str data ''delta'')\<rparr>)
      else if ev = ''response.reasoning_text.delta'' \<or> ev = ''response.reasoning_summary_text.delta''
      then (\<lambda>a. a\<lparr>tu_reasoning := tu_reasoning a @ or_default (json_get_str data ''delta'')\<rparr>)
      else if ev = ''response.function_call_arguments.delta'' then
        (\<lambda>a. case (json_get_str data ''call_id'', json_get_str data ''delta'') of
           (Some c, Some d) \<Rightarrow> a\<lparr>tu_calls := add_fragment c (json_get_str data ''name'') d (tu_calls a)\<rparr>
         | _ \<Rightarrow> a)
      else if ev = ''response.function_call_arguments.done'' then
        (\<lambda>a. a\<lparr>tu_calls := add_whole (tool_call_from_function_args_done data) (tu_calls a)\<rparr>)
      else if ev = ''response.output_item.done'' then
        (\<lambda>a. a\<lparr>tu_calls := add_whole (tool_call_from_output_item_done J data) (tu_calls a)\<rparr>)
      else if ev = ''response.completed'' \<or> ev = ''response.incomplete'' then
        (\<lambda>a. a\<lparr>tu_finish := Some (finish_reason_from_response data (tu_calls a \<noteq> []))\<rparr>)
      else if ev = ''response.failed'' then (\<lambda>a. a) else (\<lambda>a. a))"
    by (intro ext) (simp only: turn_event_def Let_def if_distrib [of "\<lambda>f. f _"] if_cancel)
  then show ?thesis
    using False unfolding chat_convert_def Let_def
    by (simp only: if_False) (intro sim_if sims)
qed

interpretation chat_client: stream_refinement "chat_convert J U" "turn_event J"
  "\<lambda>c out. client_run c (views out)" chat_rel for J U
proof unfold_locales
  fix s a c e
  show "chat_rel s a c \<Longrightarrow> \<exists>c'. client_run c (views (snd (chat_convert J U e s))) = Some c'
      \<and> chat_rel (fst (chat_convert J U e s)) (turn_event J e a) c'"
    using convert_sim unfolding sim_def by blast
qed (simp_all add: client_run_append)

text \<open>
  C11: a client that follows the Chat streaming protocol accepts every chunk of every turn and
  reconstructs it: the text, the reasoning and the finish reason, and every tool call under its own
  index with its id, the first name given for it and its argument fragments concatenated in order,
  however the fragments of parallel calls interleave.
\<close>

theorem chat_client_reconstructs_turn:
  "\<exists>started. client_run (False, empty_turn) (views (chat_stream J U now model include_usage evs))
     = Some (started, fold (turn_event J) evs empty_turn)"
proof -
  have "chat_rel (0, chat_converter_new now model include_usage) empty_turn (False, empty_turn)"
    by (simp add: chat_rel_def chat_converter_new_def empty_turn_def tracked_empty)
  from chat_client.run_sim [OF this, of J U evs] show ?thesis
    unfolding chat_stream_def by (auto simp: chat_rel_def)
qed

subsection \<open>The end of the stream\<close>

definition is_terminal :: "sse_event \<Rightarrow> bool" where
  "is_terminal e \<longleftrightarrow> se_event e \<in> {''response.completed'', ''response.incomplete'', ''response.failed''}"

definition undone :: "chat_step \<Rightarrow> bool" where
  "undone f \<longleftrightarrow> (\<forall>s. ChatDone \<notin> set (snd (f s)))"

lemma undone_steps:
  "undone no_step" "undone (push_chunk U cs)" "undone (set_response_id data)"
  "undone (ensure_role_chunk U)"
  by (auto simp: undone_def no_step_def push_chunk_def set_response_id_def ensure_role_chunk_def
      case_prod_beta Let_def)

lemma undoneD: "undone f \<Longrightarrow> ChatDone \<notin> set (snd (f s))"
  unfolding undone_def by blast

lemma undone_then: "undone f \<Longrightarrow> undone g \<Longrightarrow> undone (then_emit f g)"
  by (simp add: undone_def snd_then_emit del: split_paired_All)

lemma undone_all: "(\<And>x. x \<in> set xs \<Longrightarrow> undone (f x)) \<Longrightarrow> undone (emit_all f xs)"
  by (induction xs) (simp_all add: undone_steps undone_then)

lemma undone_push_tool_call: "undone (push_tool_call U t)"
  unfolding push_tool_call_def by (intro undone_then undone_steps)

lemma undone_calls: "undone (emit_tool_argument_delta U c name delta)" "undone (emit_tool_call U t)"
  using undone_push_tool_call
  by (auto simp: undone_def emit_tool_argument_delta_def emit_tool_call_def Let_def
      split: option.split prod.split)

lemma undone_convert: "\<not> is_terminal e \<Longrightarrow> undone (chat_convert J U e)"
  unfolding chat_convert_def Let_def emit_content_delta_def emit_reasoning_delta_def
  by (auto simp: is_terminal_def intro!: undone_then undone_steps undone_calls split: option.split)

lemma terminal_convert:
  assumes "is_terminal e"
  shows "\<exists>xs. snd (chat_convert J U e s) = xs @ [ChatDone] \<and> ChatDone \<notin> set xs"
proof (cases "se_event e = ''response.failed''")
  case True
  then show ?thesis by (simp add: chat_convert_def emit_failed_def Let_def)
next
  case False
  with assms have e: "chat_convert J U e = emit_completed U (se_data e)"
    by (auto simp: is_terminal_def chat_convert_def Let_def)
  have "ChatDone \<notin> set (snd (ensure_role_chunk U s))" for s
    by (rule undoneD [OF undone_steps(4)])
  moreover have "ChatDone \<notin> set (snd (push_chunk U cs s))" for cs s
    by (rule undoneD [OF undone_steps(2)])
  moreover have "ChatDone \<notin> set (snd (push_usage_chunk U u s))" for u s
    by (simp add: push_usage_chunk_def case_prod_beta Let_def)
  ultimately show ?thesis
    by (simp add: e emit_completed_def snd_then_emit split: option.split)
qed

text \<open>
  A turn that ends with its terminal event ends the Chat stream with \<^verbatim>\<open>[DONE]\<close>, which is sent
  exactly once, as the last event.
\<close>

theorem chat_stream_done_once:
  assumes "list_all (\<lambda>e. \<not> is_terminal e) body" and "is_terminal e"
  shows "\<exists>xs. chat_stream J U now model include_usage (body @ [e]) = xs @ [ChatDone]
    \<and> ChatDone \<notin> set xs"
proof -
  let ?s = "(0, chat_converter_new now model include_usage)"
  have "undone (emit_all (chat_convert J U) body)"
    using assms(1) by (intro undone_all undone_convert) (simp add: list_all_iff)
  moreover obtain xs where "snd (chat_convert J U e (fst (emit_all (chat_convert J U) body ?s)))
      = xs @ [ChatDone]" "ChatDone \<notin> set xs" using terminal_convert [OF assms(2)] by blast
  ultimately show ?thesis
    using undoneD [of "emit_all (chat_convert J U) body" ?s]
    by (simp add: chat_stream_def emit_all_append snd_then_emit fst_then_emit no_step_def)
qed

theorem chat_stream_done_once_witness:
  "\<exists>xs. chat_stream \<lparr>to_json_string = (\<lambda>_. []), from_json_str = Inl\<rparr> show_nat 0 ''m'' True
      ([\<lparr>se_event = ''response.output_text.delta'', se_data = jobj [(''delta'', JStr ''hi'')]\<rparr>]
        @ [\<lparr>se_event = ''response.completed'', se_data = JNull\<rparr>]) = xs @ [ChatDone]
    \<and> ChatDone \<notin> set xs"
  by (rule chat_stream_done_once) (simp_all add: is_terminal_def)

end
