(* ===== verification/Json_Merge.thy ===== *)
theory Json_Merge
  imports Json
begin

text \<open>
  Deep merges of JSON objects: \<^verbatim>\<open>merge_json_value_prefer_source\<close> and
  \<^verbatim>\<open>merge_json_value_preserve_destination\<close> of \<^verbatim>\<open>src/src/upstream.rs\<close> (the first also stands in
  \<^verbatim>\<open>src/src/engine.rs\<close>) and \<^verbatim>\<open>merge_json_maps\<close> of \<^verbatim>\<open>src/src/config.rs\<close>.  A mutable reference is
  the value before and after.
\<close>

subsection \<open>Merging\<close>

fun merge_json_value_prefer_source :: "json \<Rightarrow> json \<Rightarrow> json"
  and merge_fields_prefer :: "json_map \<Rightarrow> json_map \<Rightarrow> json_map" where
  "merge_json_value_prefer_source (JObj d) (JObj s) = JObj (merge_fields_prefer d s)"
| "merge_json_value_prefer_source d s = s"
| "merge_fields_prefer d [] = d"
| "merge_fields_prefer d ((k, v) # s) =
     merge_fields_prefer
       (case obj_get d k of
          Some dv \<Rightarrow> obj_insert k (merge_json_value_prefer_source dv v) d
        | None \<Rightarrow> obj_insert k v d) s"

fun merge_json_value_preserve_destination :: "json \<Rightarrow> json \<Rightarrow> json"
  and merge_fields_preserve :: "json_map \<Rightarrow> json_map \<Rightarrow> json_map" where
  "merge_json_value_preserve_destination (JObj d) (JObj s) = JObj (merge_fields_preserve d s)"
| "merge_json_value_preserve_destination d s = d"
| "merge_fields_preserve d [] = d"
| "merge_fields_preserve d ((k, v) # s) =
     merge_fields_preserve
       (case obj_get d k of
          Some dv \<Rightarrow> obj_insert k (merge_json_value_preserve_destination dv v) d
        | None \<Rightarrow> obj_insert k v d) s"

fun merge_json_maps :: "json_map \<Rightarrow> json_map \<Rightarrow> json_map" where
  "merge_json_maps d [] = d"
| "merge_json_maps d ((k, v) # s) =
     merge_json_maps
       (case (obj_get d k, v) of
          (Some (JObj dm), JObj sm) \<Rightarrow> obj_insert k (JObj (merge_json_maps dm sm)) d
        | _ \<Rightarrow> obj_insert k v d) s"

subsection \<open>Paths\<close>

fun json_at :: "json \<Rightarrow> string list \<Rightarrow> json option" where
  "json_at v [] = Some v"
| "json_at (JObj m) (k # p) = (case obj_get m k of None \<Rightarrow> None | Some v \<Rightarrow> json_at v p)"
| "json_at v (k # p) = None"

fun is_object :: "json \<Rightarrow> bool" where
  "is_object (JObj _) = True"
| "is_object _ = False"

text \<open>The value a path ends at when it is not an object.\<close>

definition leaf_at :: "json \<Rightarrow> string list \<Rightarrow> json option" where
  "leaf_at v p = (case json_at v p of Some x \<Rightarrow> if is_object x then None else Some x | None \<Rightarrow> None)"

text \<open>A value decides a path when the path ends in it, or runs into one of its leaves.\<close>

fun decides :: "json \<Rightarrow> string list \<Rightarrow> bool" where
  "decides v [] = True"
| "decides (JObj m) (k # p) = (case obj_get m k of None \<Rightarrow> False | Some v \<Rightarrow> decides v p)"
| "decides v (k # p) = True"

text \<open>The invariant of \<^verbatim>\<open>serde_json::Map\<close> at every level.\<close>

fun json_wf :: "json \<Rightarrow> bool" where
  "json_wf (JObj m) = (obj_sorted m \<and> list_all json_wf (map snd m))"
| "json_wf (JArr vs) = list_all json_wf vs"
| "json_wf _ = True"

definition json_map_wf :: "json_map \<Rightarrow> bool" where
  "json_map_wf m = json_wf (JObj m)"

lemma json_map_wf_Nil [simp]: "json_map_wf []"
  by (simp add: json_map_wf_def obj_sorted_def)

lemma json_map_wf_Cons:
  "json_map_wf ((k, v) # m) \<longleftrightarrow> json_wf v \<and> json_map_wf m \<and> (\<forall>x \<in> fst ` set m. k < x)"
  by (auto simp: json_map_wf_def obj_sorted_Cons)

lemma obj_get_None_iff: "obj_get m k = None \<longleftrightarrow> k \<notin> fst ` set m"
  by (induction m k rule: obj_get.induct) auto

lemma json_map_wf_head: "json_map_wf ((k, v) # m) \<Longrightarrow> obj_get m k = None"
  by (auto simp: json_map_wf_Cons obj_get_None_iff)

lemma obj_get_wf: "json_map_wf m \<Longrightarrow> obj_get m k = Some v \<Longrightarrow> json_wf v"
  by (induction m) (auto simp: json_map_wf_Cons split: if_splits)

lemma json_map_wf_insert:
  assumes "json_map_wf m" and "json_wf v"
  shows "json_map_wf (obj_insert k v m)"
proof -
  have "set (map snd (obj_insert k v m)) \<subseteq> insert v (set (map snd m))"
    by (induction k v m rule: obj_insert.induct) auto
  moreover have "x \<in> insert v (set (map snd m)) \<Longrightarrow> json_wf x" for x
    using assms unfolding json_map_wf_def json_wf.simps list_all_iff by blast
  ultimately have "\<forall>x \<in> set (map snd (obj_insert k v m)). json_wf x" by blast
  moreover have "obj_sorted (obj_insert k v m)"
    using assms(1) by (simp add: json_map_wf_def obj_sorted_insert)
  ultimately show ?thesis unfolding json_map_wf_def json_wf.simps list_all_iff by blast
qed

lemma leaf_at_simps [simp]:
  "leaf_at (JObj m) [] = None"
  "leaf_at (JObj m) (k # p) = (case obj_get m k of None \<Rightarrow> None | Some v \<Rightarrow> leaf_at v p)"
  "\<not> is_object v \<Longrightarrow> leaf_at v [] = Some v"
  "\<not> is_object v \<Longrightarrow> leaf_at v (k # p) = None"
  by (auto simp: leaf_at_def split: option.split) (cases v; simp)

lemma decides_leaf [simp]: "\<not> is_object v \<Longrightarrow> decides v p"
  by (cases v; cases p) auto

lemma leaf_decided: "leaf_at v p \<noteq> None \<Longrightarrow> decides v p"
proof (induction v p rule: decides.induct)
  case (2 m k p)
  then show ?case by (simp split: option.splits)
qed auto

lemma leaf_undecided: "\<not> decides v p \<Longrightarrow> leaf_at v p = None"
  using leaf_decided by blast

subsection \<open>What a merge holds\<close>

lemma merge_prefer_leaf: "\<not> is_object d \<or> \<not> is_object s \<Longrightarrow> merge_json_value_prefer_source d s = s"
  by (cases d; cases s) auto

lemma merge_preserve_leaf:
  "\<not> is_object d \<or> \<not> is_object s \<Longrightarrow> merge_json_value_preserve_destination d s = d"
  by (cases d; cases s) auto

lemma get_merge_prefer:
  "json_map_wf s \<Longrightarrow> obj_get (merge_fields_prefer d s) k =
     (case obj_get s k of
        None \<Rightarrow> obj_get d k
      | Some v \<Rightarrow> (case obj_get d k of
          None \<Rightarrow> Some v | Some dv \<Rightarrow> Some (merge_json_value_prefer_source dv v)))"
proof (induction s arbitrary: d)
  case (Cons kv s)
  obtain k' v where kv: "kv = (k', v)" by (cases kv)
  with Cons have "json_map_wf s" "obj_get s k' = None"
    using json_map_wf_head by (auto simp: json_map_wf_Cons)
  with Cons.IH show ?case
    by (auto simp: kv obj_get_insert split: option.split)
qed simp

lemma get_merge_preserve:
  "json_map_wf s \<Longrightarrow> obj_get (merge_fields_preserve d s) k =
     (case obj_get s k of
        None \<Rightarrow> obj_get d k
      | Some v \<Rightarrow> (case obj_get d k of
          None \<Rightarrow> Some v | Some dv \<Rightarrow> Some (merge_json_value_preserve_destination dv v)))"
proof (induction s arbitrary: d)
  case (Cons kv s)
  obtain k' v where kv: "kv = (k', v)" by (cases kv)
  with Cons have "json_map_wf s" "obj_get s k' = None"
    using json_map_wf_head by (auto simp: json_map_wf_Cons)
  with Cons.IH show ?case
    by (auto simp: kv obj_get_insert split: option.split)
qed simp

lemma merge_prefer_leaves:
  assumes "json_wf s"
  shows "leaf_at (merge_json_value_prefer_source d s) p
    = (if decides s p then leaf_at s p else leaf_at d p)"
  using assms
proof (induction p arbitrary: d s)
  case Nil
  show ?case by (cases d; cases s) auto
next
  case (Cons k p)
  show ?case
  proof (cases "is_object d \<and> is_object s")
    case False
    then show ?thesis
      using leaf_undecided [of s "k # p"]
      by (cases "is_object s"; cases "is_object d")
        (simp_all add: merge_prefer_leaf del: leaf_at_simps(2))
  next
    case True
    then obtain dm sm where o: "d = JObj dm" "s = JObj sm" by (cases d; cases s) auto
    with Cons.prems have wf: "json_map_wf sm" by (simp add: json_map_wf_def)
    have "obj_get sm k = Some v \<Longrightarrow> json_wf v" for v using obj_get_wf [OF wf] .
    with Cons.IH leaf_undecided show ?thesis
      by (fastforce simp: o get_merge_prefer [OF wf] split: option.split)
  qed
qed

lemma merge_preserve_leaves:
  assumes "json_wf s"
  shows "leaf_at (merge_json_value_preserve_destination d s) p
    = (if decides d p then leaf_at d p else leaf_at s p)"
  using assms
proof (induction p arbitrary: d s)
  case Nil
  show ?case by (cases d; cases s) auto
next
  case (Cons k p)
  show ?case
  proof (cases "is_object d \<and> is_object s")
    case False
    then show ?thesis
      using leaf_undecided [of d "k # p"]
      by (cases "is_object s"; cases "is_object d")
        (simp_all add: merge_preserve_leaf del: leaf_at_simps(2))
  next
    case True
    then obtain dm sm where o: "d = JObj dm" "s = JObj sm" by (cases d; cases s) auto
    with Cons.prems have wf: "json_map_wf sm" by (simp add: json_map_wf_def)
    have "obj_get sm k = Some v \<Longrightarrow> json_wf v" for v using obj_get_wf [OF wf] .
    with Cons.IH leaf_undecided show ?thesis
      by (fastforce simp: o get_merge_preserve [OF wf] split: option.split)
  qed
qed

lemma merge_maps_prefer: "merge_json_maps d s = merge_fields_prefer d s"
proof (induction d s rule: merge_json_maps.induct)
  case (2 d k v s)
  show ?case
  proof (cases "\<exists>dm. obj_get d k = Some (JObj dm) \<and> is_object v")
    case True
    then obtain dm sm where "obj_get d k = Some (JObj dm)" "v = JObj sm" by (cases v) auto
    with 2 show ?thesis by simp
  next
    case False
    then have "(case obj_get d k of Some dv \<Rightarrow> obj_insert k (merge_json_value_prefer_source dv v) d
        | None \<Rightarrow> obj_insert k v d) = obj_insert k v d"
      by (auto simp: merge_prefer_leaf split: option.split) (metis is_object.elims(2) merge_prefer_leaf)
    moreover from False have "(case (obj_get d k, v) of
          (Some (JObj dm), JObj sm) \<Rightarrow> obj_insert k (JObj (merge_json_maps dm sm)) d
        | _ \<Rightarrow> obj_insert k v d) = obj_insert k v d"
      by (auto split: option.split json.split)
    ultimately show ?thesis using 2(2) by simp
  qed
qed simp

lemma merge_prefer_wf:
  "json_wf d \<Longrightarrow> json_wf s \<Longrightarrow> json_wf (merge_json_value_prefer_source d s)"
  "json_map_wf d' \<Longrightarrow> json_map_wf s' \<Longrightarrow> json_map_wf (merge_fields_prefer d' s')"
proof (induction d s and d' s' rule: merge_json_value_prefer_source_merge_fields_prefer.induct)
  case (1 d s)
  then show ?case by (simp add: json_map_wf_def [symmetric] del: json_wf.simps)
next
  case (4 d k v s)
  from "4.prems" have wf: "json_map_wf d" "json_wf v" "json_map_wf s"
    by (simp_all add: json_map_wf_Cons)
  show ?case
  proof (cases "obj_get d k")
    case None
    with "4.IH" wf show ?thesis by (simp add: json_map_wf_insert)
  next
    case (Some dv)
    with "4.IH" wf obj_get_wf [OF wf(1) Some] show ?thesis by (simp add: json_map_wf_insert)
  qed
qed simp_all

lemma merge_preserve_wf:
  "json_wf d \<Longrightarrow> json_wf s \<Longrightarrow> json_wf (merge_json_value_preserve_destination d s)"
  "json_map_wf d' \<Longrightarrow> json_map_wf s' \<Longrightarrow> json_map_wf (merge_fields_preserve d' s')"
proof (induction d s and d' s'
    rule: merge_json_value_preserve_destination_merge_fields_preserve.induct)
  case (1 d s)
  then show ?case by (simp add: json_map_wf_def [symmetric] del: json_wf.simps)
next
  case (4 d k v s)
  from "4.prems" have wf: "json_map_wf d" "json_wf v" "json_map_wf s"
    by (simp_all add: json_map_wf_Cons)
  show ?case
  proof (cases "obj_get d k")
    case None
    with "4.IH" wf show ?thesis by (simp add: json_map_wf_insert)
  next
    case (Some dv)
    with "4.IH" wf obj_get_wf [OF wf(1) Some] show ?thesis by (simp add: json_map_wf_insert)
  qed
qed simp_all

end
