(* ===== verification/Backend_Request.thy ===== *)
theory Backend_Request
  imports Json_Merge Models_Chat "HOL-Library.Sublist"
begin

text \<open>
  Finalizing a request for the backend that will receive it (\<^verbatim>\<open>src/src/upstream.rs\<close>): per-model
  policies, configured \<^verbatim>\<open>upstream_chat_kwargs\<close>, the reasoning-effort mapping, the model-family
  template arguments and the thinking switch, and the sanitizing of the wire request.  A
  \<^verbatim>\<open>BTreeMap\<close> is a key-sorted association list.  The dashboard identity a request carries (its
  response id, serving token and capture handle) does not influence the request and is left out.
\<close>

subsection \<open>Policies\<close>

definition canonical_model_key :: "string \<Rightarrow> string" where
  "canonical_model_key model = map byte_lower (filter is_ascii_alphanumeric (trim model))"

record reasoning_config =
  rc_default :: "string option"
  rc_map :: "(string \<times> string) list"
  rc_thinking_param_name :: string
  rc_thinking_param_value_on :: json
  rc_thinking_param_value_off :: json

definition thinking_param_value :: "reasoning_config \<Rightarrow> bool \<Rightarrow> json" where
  "thinking_param_value c enabled =
     (if enabled then rc_thinking_param_value_on c else rc_thinking_param_value_off c)"

record reasoning_effort_policy =
  rep_map :: "(string \<times> json) list"
  rep_default :: "string option"
  rep_upstream_reasoning :: "reasoning_config option"

record finalization_policies =
  fp_effort :: "(string \<times> reasoning_effort_policy) list"
  fp_template_family :: "(string \<times> string) list"
  fp_global_template_family :: "string option"
  fp_upstream_chat_kwargs :: "(string \<times> json_map) list"
  fp_global_upstream_chat_kwargs :: json_map

definition policy_for_model :: "(string \<times> 'v) list \<Rightarrow> string \<Rightarrow> 'v option" where
  "policy_for_model m model =
     (case obj_get m model of
        Some policy \<Rightarrow> Some policy
      | None \<Rightarrow>
          (let key = canonical_model_key model in
           case filter (\<lambda>(name, _). canonical_model_key name = key) m of
             [(_, policy)] \<Rightarrow> Some policy
           | _ \<Rightarrow> obj_get m ''*''))"

definition resolve_family_override :: "finalization_policies \<Rightarrow> string \<Rightarrow> string option" where
  "resolve_family_override p model =
     (case policy_for_model (fp_template_family p) model of
        Some f \<Rightarrow> Some f | None \<Rightarrow> fp_global_template_family p)"

definition resolve_chat_kwargs :: "finalization_policies \<Rightarrow> string \<Rightarrow> json_map" where
  "resolve_chat_kwargs p model =
     (case policy_for_model (fp_upstream_chat_kwargs p) model of
        Some per_model \<Rightarrow> merge_json_maps (fp_global_upstream_chat_kwargs p) per_model
      | None \<Rightarrow> fp_global_upstream_chat_kwargs p)"

subsection \<open>The request at the leaf\<close>

record backend_request =
  bk_request :: chat_completion_request
  bk_client_chat_template_kwargs :: "json_map option"
  bk_thinking_override :: "bool option"

definition backend_request_new ::
  "chat_completion_request \<Rightarrow> json_map option \<Rightarrow> backend_request" where
  "backend_request_new request client_kwargs = \<lparr>bk_request = request,
     bk_client_chat_template_kwargs = client_kwargs, bk_thinking_override = None\<rparr>"

definition with_thinking_override :: "bool option \<Rightarrow> backend_request \<Rightarrow> backend_request" where
  "with_thinking_override thinking b = b\<lparr>bk_thinking_override := thinking\<rparr>"

definition set_extra :: "json_map \<Rightarrow> chat_completion_request \<Rightarrow> chat_completion_request" where
  "set_extra m r = r\<lparr>ccr_extra_body := m\<rparr>"

datatype model_family = Kimi | DeepSeek

definition detect_model_family :: "string \<Rightarrow> string option \<Rightarrow> model_family option" where
  "detect_model_family resolved_model family_override =
     (if family_override = Some ''kimi'' then Some Kimi
      else if family_override = Some ''deepseek'' then Some DeepSeek
      else (let name = ascii_lower resolved_model in
            if sublist ''kimi'' name then Some Kimi
            else if sublist ''deepseek'' name then Some DeepSeek else None))"

subsection \<open>Configured defaults\<close>

definition max_token_alias_keys :: "string list" where
  "max_token_alias_keys = [''max_tokens'', ''max_output_tokens'', ''max_completion_tokens'']"

definition remove_max_token_aliases :: "json_map \<Rightarrow> json_map" where
  "remove_max_token_aliases m = fold obj_remove max_token_alias_keys m"

definition chat_request_field_is_set :: "chat_completion_request \<Rightarrow> string \<Rightarrow> bool" where
  "chat_request_field_is_set r key =
     (if key = ''model'' \<or> key = ''messages'' \<or> key = ''stream'' then True
      else if key = ''parallel_tool_calls'' then ccr_parallel_tool_calls r \<noteq> None
      else if key = ''tools'' then ccr_tools r \<noteq> None
      else if key = ''tool_choice'' then ccr_tool_choice r \<noteq> None
      else if key = ''reasoning_effort'' then ccr_reasoning_effort r \<noteq> None
      else if key = ''response_format'' then ccr_response_format r \<noteq> None
      else if key = ''stream_options'' then ccr_stream_options r \<noteq> None
      else if key = ''temperature'' then ccr_temperature r \<noteq> None
      else if key = ''top_p'' then ccr_top_p r \<noteq> None
      else if key = ''max_tokens'' \<or> key = ''max_output_tokens'' \<or> key = ''max_completion_tokens''
      then ccr_max_output_tokens r \<noteq> None
      else if key = ''frequency_penalty'' then ccr_frequency_penalty r \<noteq> None
      else if key = ''presence_penalty'' then ccr_presence_penalty r \<noteq> None
      else if key = ''stop'' then ccr_stop r \<noteq> None
      else False)"

definition max_token_requested :: "chat_completion_request \<Rightarrow> bool" where
  "max_token_requested r =
     (ccr_max_output_tokens r \<noteq> None
      \<or> list_ex (\<lambda>alias. obj_get (ccr_extra_body r) alias \<noteq> None) max_token_alias_keys)"

text \<open>One configured default against the request; the loop applies them in key order.\<close>

definition gap_fill_entry ::
  "bool \<Rightarrow> string \<times> json \<Rightarrow> chat_completion_request \<Rightarrow> chat_completion_request" where
  "gap_fill_entry requested kv r =
     (let (key, value) = kv in
      if requested \<and> key \<in> set max_token_alias_keys then r
      else if key = ''parallel_tool_calls'' then
        (if ccr_parallel_tool_calls r = None
         then r\<lparr>ccr_parallel_tool_calls := as_bool value\<rparr> else r)
      else if chat_request_field_is_set r key then r
      else (case obj_get (ccr_extra_body r) key of
              Some existing \<Rightarrow> set_extra (obj_insert key
                (merge_json_value_preserve_destination existing value) (ccr_extra_body r)) r
            | None \<Rightarrow> set_extra (obj_insert key value (ccr_extra_body r)) r))"

definition merge_chat_kwargs_gap_fill ::
  "json_map \<Rightarrow> chat_completion_request \<Rightarrow> chat_completion_request" where
  "merge_chat_kwargs_gap_fill defaults r = fold (gap_fill_entry (max_token_requested r)) defaults r"

subsection \<open>Reasoning effort\<close>

definition clamp_reasoning_effort :: "string option \<Rightarrow> string option" where
  "clamp_reasoning_effort effort =
     (case nonempty_str (map_option trim effort) of
        None \<Rightarrow> None
      | Some level \<Rightarrow>
          Some (if ascii_lower level = ''none'' then ''none''
                else if ascii_lower level = ''low'' then ''low'' else ''high''))"

definition reasoning_effort_fragment ::
  "(string \<times> reasoning_effort_policy) list \<Rightarrow> string \<Rightarrow> string option \<Rightarrow> json option" where
  "reasoning_effort_fragment policies model raw_effort =
     Option.bind (policy_for_model policies model) (\<lambda>policy.
     Option.bind (case map_option ascii_lower (nonempty_str (map_option trim raw_effort)) of
                    Some level \<Rightarrow> Some level | None \<Rightarrow> rep_default policy) (\<lambda>level.
     case obj_get (rep_map policy) level of
       Some f \<Rightarrow> Some f | None \<Rightarrow> obj_get (rep_map policy) ''*''))"

text \<open>Overlaying the entries of one object on another, leaf by leaf.\<close>

definition overlay_fields :: "json_map \<Rightarrow> json_map \<Rightarrow> json_map" where
  "overlay_fields d s = merge_fields_prefer d s"

definition apply_reasoning_effort_fragment :: "json \<Rightarrow> backend_request \<Rightarrow> backend_request" where
  "apply_reasoning_effort_fragment fragment b =
     (case fragment of
        JObj f \<Rightarrow>
          (let extra = overlay_fields (ccr_extra_body (bk_request b)) f;
               extra' =
                 (case (bk_client_chat_template_kwargs b, obj_get extra ''chat_template_kwargs'') of
                    (Some client_kwargs, Some (JObj kwargs)) \<Rightarrow>
                      obj_insert ''chat_template_kwargs''
                        (JObj (overlay_fields kwargs client_kwargs)) extra
                  | _ \<Rightarrow> extra)
           in b\<lparr>bk_request := set_extra extra' (bk_request b)\<rparr>)
      | _ \<Rightarrow> b)"

definition fragment_disables_thinking :: "json \<Rightarrow> bool" where
  "fragment_disables_thinking fragment =
     ((case json_get_str fragment ''reasoning_effort'' of
         Some effort \<Rightarrow> eq_ignore_ascii_case effort ''none'' | None \<Rightarrow> False)
      \<or> (case Option.bind (json_get fragment ''chat_template_kwargs'') as_object of
           Some kwargs \<Rightarrow> obj_get kwargs ''enable_thinking'' = Some (JBool False)
             \<or> obj_get kwargs ''thinking'' = Some (JBool False)
         | None \<Rightarrow> False))"

subsection \<open>Family template arguments\<close>

definition write_family_kwargs ::
  "model_family \<Rightarrow> string option \<Rightarrow> bool option \<Rightarrow> json_map \<Rightarrow> json_map" where
  "write_family_kwargs family reasoning_effort thinking_override kwargs =
     (case family of
        Kimi \<Rightarrow>
          obj_insert ''preserve_thinking'' (JBool True)
            (obj_insert ''thinking'' (JBool True)
              (fold obj_remove [''enable_thinking'', ''clear_thinking'', ''reasoning_effort''] kwargs))
      | DeepSeek \<Rightarrow>
          (let kwargs1 = (case thinking_override of
                 Some thinking \<Rightarrow> obj_insert ''enable_thinking'' (JBool thinking) kwargs
               | None \<Rightarrow> (case obj_get kwargs ''enable_thinking'' of
                   Some _ \<Rightarrow> kwargs | None \<Rightarrow> obj_insert ''enable_thinking'' (JBool True) kwargs))
           in case nonempty_str (map_option trim reasoning_effort) of
                None \<Rightarrow> kwargs1
              | Some effort \<Rightarrow> (case obj_get kwargs1 ''reasoning_effort'' of
                  Some _ \<Rightarrow> kwargs1
                | None \<Rightarrow> obj_insert ''reasoning_effort'' (JStr effort) kwargs1)))"

text \<open>
  \<^verbatim>\<open>extra_body.entry("chat_template_kwargs")\<close> as an object: a missing or malformed entry is an
  empty object.
\<close>

definition template_kwargs :: "json_map \<Rightarrow> json_map" where
  "template_kwargs extra =
     (case obj_get extra ''chat_template_kwargs'' of Some (JObj kwargs) \<Rightarrow> kwargs | _ \<Rightarrow> [])"

definition set_template_kwargs :: "json_map \<Rightarrow> backend_request \<Rightarrow> backend_request" where
  "set_template_kwargs kwargs b = b\<lparr>bk_request := set_extra
     (obj_insert ''chat_template_kwargs'' (JObj kwargs) (ccr_extra_body (bk_request b)))
     (bk_request b)\<rparr>"

definition request_family :: "finalization_policies \<Rightarrow> backend_request \<Rightarrow> model_family option" where
  "request_family p b = detect_model_family (ccr_model (bk_request b))
     (resolve_family_override p (ccr_model (bk_request b)))"

definition apply_family_chat_template_kwargs ::
  "finalization_policies \<Rightarrow> backend_request \<Rightarrow> backend_request" where
  "apply_family_chat_template_kwargs p b =
     (case request_family p b of
        None \<Rightarrow> b
      | Some family \<Rightarrow>
          (let kwargs = write_family_kwargs family (ccr_reasoning_effort (bk_request b))
                 (bk_thinking_override b) (template_kwargs (ccr_extra_body (bk_request b)))
           in set_template_kwargs
                (case bk_client_chat_template_kwargs b of
                   Some client_kwargs \<Rightarrow> overlay_fields kwargs client_kwargs | None \<Rightarrow> kwargs) b))"

definition apply_profile_thinking_kwarg ::
  "finalization_policies \<Rightarrow> backend_request \<Rightarrow> backend_request" where
  "apply_profile_thinking_kwarg p b =
     (case bk_thinking_override b of
        None \<Rightarrow> b
      | Some enabled \<Rightarrow>
          (let kwargs = template_kwargs (ccr_extra_body (bk_request b)) in
           case Option.bind (policy_for_model (fp_effort p) (ccr_model (bk_request b)))
                  rep_upstream_reasoning of
             Some config \<Rightarrow> set_template_kwargs (obj_insert (rc_thinking_param_name config)
               (thinking_param_value config enabled) kwargs) b
           | None \<Rightarrow>
               if request_family p b = Some Kimi then b
               else set_template_kwargs (obj_insert ''enable_thinking'' (JBool enabled) kwargs) b))"

subsection \<open>Finalization\<close>

definition effective_thinking :: "json option \<Rightarrow> string option \<Rightarrow> bool option \<Rightarrow> bool option" where
  "effective_thinking fragment effort thinking_override = map_option (\<lambda>enabled.
     enabled
     \<and> \<not> (case effort of Some e \<Rightarrow> eq_ignore_ascii_case (trim e) ''none'' | None \<Rightarrow> False)
     \<and> \<not> (case fragment of Some f \<Rightarrow> fragment_disables_thinking f | None \<Rightarrow> False))
     thinking_override"

definition finalize_request_for_backend ::
  "finalization_policies \<Rightarrow> backend_request \<Rightarrow> backend_request" where
  "finalize_request_for_backend p b =
     (let model = ccr_model (bk_request b);
          request = merge_chat_kwargs_gap_fill (resolve_chat_kwargs p model) (bk_request b);
          effort = ccr_reasoning_effort request;
          effort_policy = policy_for_model (fp_effort p) model;
          fragment = reasoning_effort_fragment (fp_effort p) model effort;
          thinking = effective_thinking fragment effort (bk_thinking_override b);
          request = request\<lparr>ccr_reasoning_effort :=
            (if fragment \<noteq> None then None
             else if Option.bind effort_policy rep_upstream_reasoning \<noteq> None
             then nonempty_str (map_option trim effort)
             else clamp_reasoning_effort effort)\<rparr>;
          b1 = apply_family_chat_template_kwargs p
                 (b\<lparr>bk_request := request, bk_thinking_override := thinking\<rparr>);
          b2 = (case fragment of Some f \<Rightarrow> apply_reasoning_effort_fragment f b1 | None \<Rightarrow> b1)
      in apply_profile_thinking_kwarg p b2)"

subsection \<open>The wire request\<close>

definition stringify_json_value :: "json_codec \<Rightarrow> json \<Rightarrow> json" where
  "stringify_json_value J value = JStr (to_json_string J value)"

definition content_parts_are_text_only :: "json list \<Rightarrow> bool" where
  "content_parts_are_text_only parts = list_all (\<lambda>part.
     json_get_str part ''text'' \<noteq> None
     \<and> json_get_str part ''type''
         \<in> {None, Some ''text'', Some ''input_text'', Some ''output_text''}) parts"

definition flatten_content_parts :: "json_codec \<Rightarrow> json list \<Rightarrow> string" where
  "flatten_content_parts J parts = join [CHR 0x0A] (map (\<lambda>part.
     case json_get_str part ''text'' of Some t \<Rightarrow> t | None \<Rightarrow> to_json_string J part) parts)"

definition sanitize_message_content :: "json_codec \<Rightarrow> bool \<Rightarrow> json \<Rightarrow> json option" where
  "sanitize_message_content J flatten_content content =
     (case content of
        JNull \<Rightarrow> None
      | JStr t \<Rightarrow> Some (JStr t)
      | JArr parts \<Rightarrow>
          Some (if flatten_content \<and> content_parts_are_text_only parts
                then JStr (flatten_content_parts J parts) else JArr parts)
      | other \<Rightarrow> Some (stringify_json_value J other))"

definition sanitize_tool_call :: "json_codec \<Rightarrow> chat_tool_call \<Rightarrow> chat_tool_call" where
  "sanitize_tool_call J c = c\<lparr>tc_function := (tc_function c)\<lparr>fc_arguments :=
     map_option (stringify_json_value J) (fc_arguments (tc_function c))\<rparr>\<rparr>"

definition sanitize_message :: "json_codec \<Rightarrow> bool \<Rightarrow> chat_message \<Rightarrow> chat_message" where
  "sanitize_message J flatten_content m =
     m\<lparr>cm_content := Option.bind (cm_content m) (sanitize_message_content J flatten_content),
       cm_tool_calls := map_option (map (sanitize_tool_call J)) (cm_tool_calls m)\<rparr>"

definition sanitize_chat_request ::
  "json_codec \<Rightarrow> bool \<Rightarrow> chat_completion_request \<Rightarrow> chat_completion_request" where
  "sanitize_chat_request J flatten_content r =
     r\<lparr>ccr_tool_choice :=
         (if (case ccr_tools r of None \<Rightarrow> True | Some ts \<Rightarrow> ts = [])
             \<and> (case ccr_tool_choice r of None \<Rightarrow> True | Some v \<Rightarrow> v = JStr ''auto'')
          then None else ccr_tool_choice r),
       ccr_messages := map (sanitize_message J flatten_content) (ccr_messages r)\<rparr>"

end
