(* ===== verification/Backend_Request_Correct.thy ===== *)
theory Backend_Request_Correct
  imports Backend_Request
begin

text \<open>
  Correctness of request finalization: what a client sets explicitly is never lost to a configured
  default, the precedence of the template arguments (configuration, family, effort mapping, client),
  the forced thinking of the Kimi family, the effort vocabulary, and the shape of the wire request.
\<close>

subsection \<open>Configured defaults only fill gaps\<close>

lemma gap_fill_entry_leaf:
  assumes "json_wf v" and "leaf_at (JObj (ccr_extra_body r)) path = Some x"
  shows "leaf_at (JObj (ccr_extra_body (gap_fill_entry requested (key, v) r))) path = Some x"
proof (cases path)
  case Nil
  with assms show ?thesis by simp
next
  case (Cons k p)
  have "leaf_at (merge_json_value_preserve_destination d v) p = Some x" if "leaf_at d p = Some x" for d
    using that merge_preserve_leaves [OF assms(1), of d p] leaf_decided [of d p] by simp
  with assms(2) show ?thesis
    by (auto simp: Cons gap_fill_entry_def set_extra_def obj_get_insert Let_def split: option.splits)
qed

lemma gap_fill_leaves:
  assumes "json_map_wf defaults" and "leaf_at (JObj (ccr_extra_body r)) path = Some x"
  shows "leaf_at (JObj (ccr_extra_body (fold (gap_fill_entry q) defaults r))) path = Some x"
  using assms
proof (induction defaults arbitrary: r)
  case (Cons kv defaults)
  obtain k v where kv: "kv = (k, v)" by (cases kv)
  with Cons.prems have "json_wf v" "json_map_wf defaults" by (simp_all add: json_map_wf_Cons)
  with Cons.IH gap_fill_entry_leaf Cons.prems(2) show ?case by (simp add: kv)
qed simp

lemma gap_fill_aliases:
  "alias \<in> set max_token_alias_keys \<Longrightarrow>
     obj_get (ccr_extra_body (fold (gap_fill_entry True) defaults r)) alias
       = obj_get (ccr_extra_body r) alias"
proof (induction defaults arbitrary: r)
  case (Cons kv defaults)
  have "obj_get (ccr_extra_body (gap_fill_entry True kv r)) alias = obj_get (ccr_extra_body r) alias"
    using Cons.prems
    by (cases kv) (auto simp: gap_fill_entry_def set_extra_def obj_get_insert split: option.split)
  with Cons show ?case by simp
qed simp

lemma gap_fill_entry_fields:
  "\<exists>ptc m. gap_fill_entry q kv r = r\<lparr>ccr_parallel_tool_calls := ptc, ccr_extra_body := m\<rparr>
     \<and> (ccr_parallel_tool_calls r \<noteq> None \<longrightarrow> ptc = ccr_parallel_tool_calls r)"
  by (rule exI [of _ "ccr_parallel_tool_calls (gap_fill_entry q kv r)"],
      rule exI [of _ "ccr_extra_body (gap_fill_entry q kv r)"])
    (auto simp: gap_fill_entry_def set_extra_def case_prod_beta split: option.split)

lemma gap_fill_fields:
  "\<exists>ptc m. fold (gap_fill_entry q) defaults r
       = r\<lparr>ccr_parallel_tool_calls := ptc, ccr_extra_body := m\<rparr>
     \<and> (ccr_parallel_tool_calls r \<noteq> None \<longrightarrow> ptc = ccr_parallel_tool_calls r)"
proof (induction defaults arbitrary: r)
  case Nil
  show ?case by (rule exI [of _ "ccr_parallel_tool_calls r"], rule exI [of _ "ccr_extra_body r"]) simp
next
  case (Cons kv defaults)
  obtain ptc m where "gap_fill_entry q kv r = r\<lparr>ccr_parallel_tool_calls := ptc, ccr_extra_body := m\<rparr>"
    "ccr_parallel_tool_calls r \<noteq> None \<longrightarrow> ptc = ccr_parallel_tool_calls r"
    using gap_fill_entry_fields by blast
  moreover obtain ptc' m' where "fold (gap_fill_entry q) defaults (gap_fill_entry q kv r)
      = (gap_fill_entry q kv r)\<lparr>ccr_parallel_tool_calls := ptc', ccr_extra_body := m'\<rparr>"
    "ccr_parallel_tool_calls (gap_fill_entry q kv r) \<noteq> None \<longrightarrow>
      ptc' = ccr_parallel_tool_calls (gap_fill_entry q kv r)"
    using Cons by blast
  ultimately show ?case by (intro exI [of _ ptc'] exI [of _ m']) auto
qed

text \<open>
  Configured \<^verbatim>\<open>upstream_chat_kwargs\<close> only fill gaps: every leaf of the request's
  \<^verbatim>\<open>extra_body\<close>, at any depth, keeps its value; no typed field changes except an absent
  \<^verbatim>\<open>parallel_tool_calls\<close>; and when the request expresses any max-token alias, none of the three
  aliases is taken from the configuration.
\<close>

theorem request_wins_over_defaults:
  assumes "json_map_wf defaults" and "leaf_at (JObj (ccr_extra_body r)) path = Some x"
    and "alias \<in> set max_token_alias_keys"
  shows "let r' = merge_chat_kwargs_gap_fill defaults r in
    leaf_at (JObj (ccr_extra_body r')) path = Some x
    \<and> r'\<lparr>ccr_parallel_tool_calls := None, ccr_extra_body := []\<rparr>
        = r\<lparr>ccr_parallel_tool_calls := None, ccr_extra_body := []\<rparr>
    \<and> (if max_token_requested r
       then obj_get (ccr_extra_body r') alias = obj_get (ccr_extra_body r) alias else True)"
proof -
  define r' where "r' = merge_chat_kwargs_gap_fill defaults r"
  obtain ptc m where "r' = r\<lparr>ccr_parallel_tool_calls := ptc, ccr_extra_body := m\<rparr>"
    unfolding r'_def merge_chat_kwargs_gap_fill_def using gap_fill_fields by blast
  then have "r'\<lparr>ccr_parallel_tool_calls := None, ccr_extra_body := []\<rparr>
      = r\<lparr>ccr_parallel_tool_calls := None, ccr_extra_body := []\<rparr>" by simp
  with gap_fill_leaves [OF assms(1,2)] gap_fill_aliases [OF assms(3)] show ?thesis
    by (simp add: r'_def [symmetric] Let_def) (simp add: r'_def merge_chat_kwargs_gap_fill_def)
qed

text \<open>A request with nothing but a model and the default flags.\<close>

definition empty_request :: chat_completion_request where
  "empty_request = \<lparr>ccr_model = ''kimi-k2'', ccr_messages = [], ccr_stream = True, ccr_tools = None,
     ccr_tool_choice = None, ccr_parallel_tool_calls = None, ccr_reasoning_effort = None,
     ccr_response_format = None, ccr_stream_options = None, ccr_temperature = None,
     ccr_top_p = None, ccr_max_output_tokens = None, ccr_frequency_penalty = None,
     ccr_presence_penalty = None, ccr_stop = None, ccr_extra_body = []\<rparr>"

definition no_policies :: finalization_policies where
  "no_policies = \<lparr>fp_effort = [], fp_template_family = [], fp_global_template_family = None,
     fp_upstream_chat_kwargs = [], fp_global_upstream_chat_kwargs = []\<rparr>"

theorem request_wins_over_defaults_witness:
  "let r = empty_request\<lparr>ccr_extra_body := [(''max_tokens'', JNum (PosInt 10)), (''seed'', JObj [(''a'', JNum (PosInt 1))])]\<rparr>;
       r' = merge_chat_kwargs_gap_fill [(''max_completion_tokens'', JNum (PosInt 99)),
         (''seed'', JObj [(''a'', JNum (PosInt 2)), (''b'', JNum (PosInt 3))])] r
   in leaf_at (JObj (ccr_extra_body r')) [''seed'', ''a''] = Some (JNum (PosInt 1))
     \<and> obj_get (ccr_extra_body r') ''max_completion_tokens'' = None"
proof -
  let ?r = "empty_request\<lparr>ccr_extra_body := [(''max_tokens'', JNum (PosInt 10)), (''seed'', JObj [(''a'', JNum (PosInt 1))])]\<rparr>"
  let ?d = "[(''max_completion_tokens'', JNum (PosInt 99)), (''seed'', JObj [(''a'', JNum (PosInt 2)), (''b'', JNum (PosInt 3))])]"
  have "json_map_wf ?d"
    and "leaf_at (JObj (ccr_extra_body ?r)) [''seed'', ''a''] = Some (JNum (PosInt 1))"
    and "''max_completion_tokens'' \<in> set max_token_alias_keys" and req: "max_token_requested ?r"
    by code_simp+
  from request_wins_over_defaults [OF this(1,2,3)] req show ?thesis
    by (simp add: Let_def empty_request_def)
qed

subsection \<open>Template arguments\<close>

lemma overlay_get:
  "json_map_wf s \<Longrightarrow> obj_get (overlay_fields d s) k =
     (case obj_get s k of
        None \<Rightarrow> obj_get d k
      | Some v \<Rightarrow> (case obj_get d k of
          None \<Rightarrow> Some v | Some dv \<Rightarrow> Some (merge_json_value_prefer_source dv v)))"
  unfolding overlay_fields_def by (rule get_merge_prefer)

lemma overlay_leaf:
  "json_map_wf s \<Longrightarrow> obj_get s k = Some v \<Longrightarrow> \<not> is_object v \<Longrightarrow> obj_get (overlay_fields d s) k = Some v"
  by (simp add: overlay_get merge_prefer_leaf split: option.split)

lemma overlay_other: "json_map_wf s \<Longrightarrow> obj_get s k = None \<Longrightarrow> obj_get (overlay_fields d s) k = obj_get d k"
  by (simp add: overlay_get)

definition kwargs_of :: "backend_request \<Rightarrow> json_map" where
  "kwargs_of b = template_kwargs (ccr_extra_body (bk_request b))"

lemma kwargs_set [simp]: "kwargs_of (set_template_kwargs kwargs b) = kwargs"
  by (simp add: kwargs_of_def set_template_kwargs_def set_extra_def template_kwargs_def obj_get_insert)

lemma set_template_kwargs_other [simp]:
  "bk_client_chat_template_kwargs (set_template_kwargs kwargs b) = bk_client_chat_template_kwargs b"
  "bk_thinking_override (set_template_kwargs kwargs b) = bk_thinking_override b"
  "ccr_model (bk_request (set_template_kwargs kwargs b)) = ccr_model (bk_request b)"
  "ccr_reasoning_effort (bk_request (set_template_kwargs kwargs b)) = ccr_reasoning_effort (bk_request b)"
  by (simp_all add: set_template_kwargs_def set_extra_def)

text \<open>The fragment is usable when its template arguments, if any, are an object.\<close>

definition fragment_ok :: "json option \<Rightarrow> bool" where
  "fragment_ok fragment = (case fragment of
     Some (JObj f) \<Rightarrow> json_map_wf f
       \<and> (case obj_get f ''chat_template_kwargs'' of None \<Rightarrow> True | Some v \<Rightarrow> is_object v)
   | _ \<Rightarrow> True)"

definition fragment_kwargs :: "json option \<Rightarrow> json_map" where
  "fragment_kwargs fragment = (case fragment of Some (JObj f) \<Rightarrow> template_kwargs f | _ \<Rightarrow> [])"

lemma template_kwargs_wf: "json_map_wf m \<Longrightarrow> json_map_wf (template_kwargs m)"
  by (auto simp: template_kwargs_def json_map_wf_def [symmetric] split: option.split json.split
      dest!: obj_get_wf simp del: json_wf.simps)

lemma fragment_overlay_kwargs:
  assumes "fragment_ok (Some (JObj f))"
  shows "obj_get (template_kwargs (overlay_fields extra f)) k
    = obj_get (overlay_fields (template_kwargs extra) (template_kwargs f)) k"
proof -
  from assms have wf: "json_map_wf f" by (simp add: fragment_ok_def)
  note wf' = template_kwargs_wf [OF wf]
  show ?thesis
  proof (cases "obj_get f ''chat_template_kwargs''")
    case None
    then show ?thesis
      by (simp add: template_kwargs_def overlay_get [OF wf]) (simp add: overlay_fields_def)
  next
    case (Some v)
    with assms obtain m where v: "v = JObj m" by (cases v) (auto simp: fragment_ok_def)
    with Some wf' have m: "template_kwargs f = m" "json_map_wf m"
      by (simp_all add: template_kwargs_def)
    show ?thesis
    proof (cases "obj_get extra ''chat_template_kwargs''")
      case N: None
      with Some v m show ?thesis
        by (simp add: template_kwargs_def overlay_get [OF wf] overlay_get [OF m(2)] split: option.split)
    next
      case S: (Some d)
      show ?thesis
      proof (cases d)
        case (JObj dm)
        with S Some v m show ?thesis
          by (simp add: template_kwargs_def overlay_get [OF wf]) (simp add: overlay_fields_def)
      qed (use S Some v m in \<open>simp_all add: template_kwargs_def overlay_get [OF wf]
          overlay_get [OF m(2)] split: option.split\<close>)
    qed
  qed
qed

text \<open>The client's arguments are the last word over the fragment's.\<close>

lemma kwargs_fragment:
  assumes "fragment_ok (Some (JObj f))"
    and "obj_get (kwargs_of b) k = Some v \<or> obj_get (template_kwargs f) k = Some v"
    and "case bk_client_chat_template_kwargs b of None \<Rightarrow> True | Some ck \<Rightarrow> json_map_wf ck"
  shows "obj_get (kwargs_of (apply_reasoning_effort_fragment (JObj f) b)) k =
    (let kw = overlay_fields (kwargs_of b) (template_kwargs f) in
     case bk_client_chat_template_kwargs b of
       None \<Rightarrow> obj_get kw k | Some ck \<Rightarrow> obj_get (overlay_fields kw ck) k)"
proof -
  let ?extra = "overlay_fields (ccr_extra_body (bk_request b)) f"
  note get = fragment_overlay_kwargs [OF assms(1), of "ccr_extra_body (bk_request b)"]
  have wf: "json_map_wf (template_kwargs f)"
    using assms(1) by (simp add: fragment_ok_def template_kwargs_wf)
  from assms(2) have "obj_get (template_kwargs ?extra) k \<noteq> None"
    unfolding get overlay_get [OF wf] by (auto simp: kwargs_of_def split: option.split)
  then obtain kwargs where kw: "obj_get ?extra ''chat_template_kwargs'' = Some (JObj kwargs)"
    by (auto simp: template_kwargs_def split: option.splits json.splits)
  then have t: "template_kwargs ?extra = kwargs" by (simp add: template_kwargs_def)
  show ?thesis
  proof (cases "bk_client_chat_template_kwargs b")
    case None
    with kw show ?thesis
      by (simp add: apply_reasoning_effort_fragment_def kwargs_of_def set_extra_def Let_def t get
          [unfolded t] kwargs_of_def)
  next
    case (Some ck)
    with assms(3) have "json_map_wf ck" by simp
    with Some kw show ?thesis
      by (simp add: apply_reasoning_effort_fragment_def kwargs_of_def set_extra_def Let_def
          template_kwargs_def [of "obj_insert _ _ _"] obj_get_insert overlay_get get [unfolded t]
          split: option.split)
  qed
qed

subsection \<open>The whole finalization\<close>

definition mapped_fragment :: "finalization_policies \<Rightarrow> backend_request \<Rightarrow> json option" where
  "mapped_fragment p b = reasoning_effort_fragment (fp_effort p) (ccr_model (bk_request b))
     (ccr_reasoning_effort (bk_request b))"

definition typed_reasoning :: "finalization_policies \<Rightarrow> backend_request \<Rightarrow> reasoning_config option" where
  "typed_reasoning p b = Option.bind (policy_for_model (fp_effort p) (ccr_model (bk_request b)))
     rep_upstream_reasoning"

text \<open>The request as it enters the family step.\<close>

definition prepared :: "finalization_policies \<Rightarrow> backend_request \<Rightarrow> backend_request" where
  "prepared p b = (let r = bk_request b; fragment = mapped_fragment p b in
     b\<lparr>bk_request := (merge_chat_kwargs_gap_fill (resolve_chat_kwargs p (ccr_model r)) r)
          \<lparr>ccr_reasoning_effort :=
            (if fragment \<noteq> None then None
             else if typed_reasoning p b \<noteq> None
             then nonempty_str (map_option trim (ccr_reasoning_effort r))
             else clamp_reasoning_effort (ccr_reasoning_effort r))\<rparr>,
        bk_thinking_override := effective_thinking fragment (ccr_reasoning_effort r)
          (bk_thinking_override b)\<rparr>)"

lemma gap_fill_typed_fields:
  "ccr_model (merge_chat_kwargs_gap_fill d r) = ccr_model r"
  "ccr_reasoning_effort (merge_chat_kwargs_gap_fill d r) = ccr_reasoning_effort r"
proof -
  obtain ptc m where "merge_chat_kwargs_gap_fill d r
      = r\<lparr>ccr_parallel_tool_calls := ptc, ccr_extra_body := m\<rparr>"
    unfolding merge_chat_kwargs_gap_fill_def using gap_fill_fields by blast
  then show "ccr_model (merge_chat_kwargs_gap_fill d r) = ccr_model r"
    "ccr_reasoning_effort (merge_chat_kwargs_gap_fill d r) = ccr_reasoning_effort r" by simp_all
qed

lemma finalize_steps:
  "finalize_request_for_backend p b = apply_profile_thinking_kwarg p
     (case mapped_fragment p b of
        Some f \<Rightarrow> apply_reasoning_effort_fragment f (apply_family_chat_template_kwargs p (prepared p b))
      | None \<Rightarrow> apply_family_chat_template_kwargs p (prepared p b))"
proof (cases "mapped_fragment p b")
  case None
  then have "reasoning_effort_fragment (fp_effort p) (ccr_model (bk_request b))
      (ccr_reasoning_effort (bk_request b)) = None" by (simp add: mapped_fragment_def)
  with None show ?thesis
    by (simp add: finalize_request_for_backend_def prepared_def typed_reasoning_def
        gap_fill_typed_fields Let_def)
next
  case (Some f)
  then have "reasoning_effort_fragment (fp_effort p) (ccr_model (bk_request b))
      (ccr_reasoning_effort (bk_request b)) = Some f" by (simp add: mapped_fragment_def)
  with Some show ?thesis
    by (simp add: finalize_request_for_backend_def prepared_def gap_fill_typed_fields Let_def)
qed

lemma prepared_parts [simp]:
  "bk_client_chat_template_kwargs (prepared p b) = bk_client_chat_template_kwargs b"
  "ccr_model (bk_request (prepared p b)) = ccr_model (bk_request b)"
  "bk_thinking_override (prepared p b) = effective_thinking (mapped_fragment p b)
     (ccr_reasoning_effort (bk_request b)) (bk_thinking_override b)"
  by (simp_all add: prepared_def Let_def gap_fill_typed_fields)

lemma prepared_kwargs:
  assumes "json_map_wf (resolve_chat_kwargs p (ccr_model (bk_request b)))"
    and "obj_get (kwargs_of b) k = Some v" and "\<not> is_object v"
  shows "obj_get (kwargs_of (prepared p b)) k = Some v"
proof -
  have leaf: "leaf_at (JObj e) [''chat_template_kwargs'', k] = Some v
      \<longleftrightarrow> obj_get (template_kwargs e) k = Some v" for e
  proof (cases "obj_get e ''chat_template_kwargs''")
    case None
    then show ?thesis by (simp add: template_kwargs_def)
  next
    case (Some w)
    then show ?thesis
      using assms(3) by (cases w) (auto simp: template_kwargs_def leaf_at_def split: option.splits)
  qed
  have "leaf_at (JObj (ccr_extra_body (bk_request b))) [''chat_template_kwargs'', k] = Some v"
    unfolding leaf using assms(2) by (simp add: kwargs_of_def)
  from gap_fill_leaves [OF assms(1) this] show ?thesis
    unfolding leaf by (simp add: prepared_def Let_def kwargs_of_def merge_chat_kwargs_gap_fill_def)
qed

lemma family_parts [simp]:
  "bk_client_chat_template_kwargs (apply_family_chat_template_kwargs p b) = bk_client_chat_template_kwargs b"
  "bk_thinking_override (apply_family_chat_template_kwargs p b) = bk_thinking_override b"
  "ccr_model (bk_request (apply_family_chat_template_kwargs p b)) = ccr_model (bk_request b)"
  by (simp_all add: apply_family_chat_template_kwargs_def Let_def split: option.split)

lemma fragment_parts [simp]:
  "bk_client_chat_template_kwargs (apply_reasoning_effort_fragment f b) = bk_client_chat_template_kwargs b"
  "bk_thinking_override (apply_reasoning_effort_fragment f b) = bk_thinking_override b"
  "ccr_model (bk_request (apply_reasoning_effort_fragment f b)) = ccr_model (bk_request b)"
  by (simp_all add: apply_reasoning_effort_fragment_def set_extra_def Let_def split: json.split)

lemma request_family_model:
  "ccr_model (bk_request b) = ccr_model (bk_request b') \<Longrightarrow> request_family p b = request_family p b'"
  by (simp add: request_family_def)

text \<open>
  C23: an explicit \<^verbatim>\<open>chat_template_kwargs\<close> value of the client, already merged into its
  \<^verbatim>\<open>extra_body\<close>, reaches the backend unchanged when it is a scalar or an array: neither a configured
  default, nor the family's forced arguments, nor the effort mapping overrides it. (A value that is an
  object is merged with theirs field by field instead.) The effort fragment must give its own
  \<^verbatim>\<open>chat_template_kwargs\<close>, if any, as an object: one that is not erases the client's, as the next
  lemma shows. And the request must not carry the Anthropic thinking switch, which may override the
  argument. The client's and the configured maps are sorted maps without duplicates, as the parsed
  ones are.
\<close>

theorem client_template_kwargs_win:
  assumes "bk_client_chat_template_kwargs b = Some ck" and "json_map_wf ck"
    and "obj_get ck k = Some v" and "\<not> is_object v"
    and "obj_get (kwargs_of b) k = Some v"
    and "json_map_wf (resolve_chat_kwargs p (ccr_model (bk_request b)))"
    and "fragment_ok (mapped_fragment p b)" and "bk_thinking_override b = None"
  shows "obj_get (kwargs_of (finalize_request_for_backend p b)) k = Some v"
proof -
  let ?b1 = "apply_family_chat_template_kwargs p (prepared p b)"
  note start = prepared_kwargs [OF assms(6,5,4)]
  have b1: "obj_get (kwargs_of ?b1) k = Some v"
    using start assms(1) overlay_leaf [OF assms(2,3,4)]
    by (simp add: apply_family_chat_template_kwargs_def Let_def split: option.split)
  have b2: "obj_get (kwargs_of (apply_reasoning_effort_fragment f ?b1)) k = Some v"
    if "mapped_fragment p b = Some f" for f
  proof (cases f)
    case (JObj m)
    with that assms(7) have "fragment_ok (Some (JObj m))" by simp
    from kwargs_fragment [OF this disjI1 [OF b1]] assms(1,2) show ?thesis
      by (simp add: JObj Let_def overlay_leaf [OF assms(2,3,4)])
  qed (use b1 in \<open>simp_all add: apply_reasoning_effort_fragment_def\<close>)
  show ?thesis
    unfolding finalize_steps
    using b1 b2 assms(8)
    by (auto simp: apply_profile_thinking_kwarg_def effective_thinking_def split: option.split)
qed

text \<open>An effort fragment whose template arguments are no object replaces those of the client.\<close>

theorem scalar_fragment_erases_client_kwargs:
  "let ck = [(''thinking'', JBool False)];
       b = backend_request_new
         (empty_request\<lparr>ccr_extra_body := [(''chat_template_kwargs'', JObj ck)]\<rparr>) (Some ck);
       fragment = JObj [(''chat_template_kwargs'', JBool True)]
   in obj_get (kwargs_of b) ''thinking'' = Some (JBool False)
      \<and> obj_get (kwargs_of (apply_reasoning_effort_fragment fragment b)) ''thinking'' = None"
  by code_simp

text \<open>
  A Kimi backend always receives \<^verbatim>\<open>thinking = true\<close>, whatever the configured defaults say and
  even when the client turned thinking off by the Anthropic switch, unless the client's own template
  arguments, the effort mapping or a typed reasoning profile set the argument.
\<close>

theorem kimi_thinking_forced:
  assumes "request_family p b = Some Kimi" and "typed_reasoning p b = None"
    and "fragment_ok (mapped_fragment p b)"
    and "obj_get (fragment_kwargs (mapped_fragment p b)) ''thinking'' = None"
    and "case bk_client_chat_template_kwargs b of None \<Rightarrow> True
         | Some ck \<Rightarrow> json_map_wf ck \<and> obj_get ck ''thinking'' = None"
  shows "obj_get (kwargs_of (finalize_request_for_backend p b)) ''thinking'' = Some (JBool True)"
proof -
  let ?b1 = "apply_family_chat_template_kwargs p (prepared p b)"
  have fam: "request_family p (prepared p b) = Some Kimi"
    using assms(1) by (simp add: request_family_def)
  have b1: "obj_get (kwargs_of ?b1) ''thinking'' = Some (JBool True)"
    using fam assms(5)
    by (auto simp: apply_family_chat_template_kwargs_def write_family_kwargs_def Let_def
        obj_get_insert overlay_other split: option.split)
  have b2: "obj_get (kwargs_of (apply_reasoning_effort_fragment f ?b1)) ''thinking'' = Some (JBool True)"
    if "mapped_fragment p b = Some f" for f
  proof (cases f)
    case (JObj m)
    with that assms(3,4) have ok: "fragment_ok (Some (JObj m))"
      and no: "obj_get (template_kwargs m) ''thinking'' = None"
      by (simp_all add: fragment_kwargs_def)
    have wf: "json_map_wf (template_kwargs m)" using ok by (simp add: fragment_ok_def template_kwargs_wf)
    have "case bk_client_chat_template_kwargs ?b1 of None \<Rightarrow> True | Some ck \<Rightarrow> json_map_wf ck"
      using assms(5) by (simp split: option.splits)
    from kwargs_fragment [OF ok disjI1 [OF b1] this] assms(5) show ?thesis
      by (auto simp: JObj Let_def overlay_other [OF wf no] overlay_other b1 split: option.splits)
  qed (use b1 in \<open>simp_all add: apply_reasoning_effort_fragment_def\<close>)
  have last: "kwargs_of (apply_profile_thinking_kwarg p b') = kwargs_of b'"
    if "ccr_model (bk_request b') = ccr_model (bk_request b)" for b'
    using that assms(1,2)
    by (auto simp: apply_profile_thinking_kwarg_def typed_reasoning_def request_family_def Let_def
        split: option.split)
  show ?thesis
    unfolding finalize_steps
    using b1 b2 last by (cases "mapped_fragment p b") simp_all
qed

theorem client_template_kwargs_win_witness:
  "let ck = [(''thinking'', JBool False)];
       b = backend_request_new
         (empty_request\<lparr>ccr_extra_body := [(''chat_template_kwargs'', JObj ck)]\<rparr>) (Some ck)
   in obj_get (kwargs_of (finalize_request_for_backend no_policies b)) ''thinking''
        = Some (JBool False)"
proof -
  let ?ck = "[(''thinking'', JBool False)]"
  let ?b = "backend_request_new
    (empty_request\<lparr>ccr_extra_body := [(''chat_template_kwargs'', JObj ?ck)]\<rparr>) (Some ?ck)"
  have "bk_client_chat_template_kwargs ?b = Some ?ck" "json_map_wf ?ck"
    "obj_get ?ck ''thinking'' = Some (JBool False)" "\<not> is_object (JBool False)"
    "obj_get (kwargs_of ?b) ''thinking'' = Some (JBool False)"
    "json_map_wf (resolve_chat_kwargs no_policies (ccr_model (bk_request ?b)))"
    "fragment_ok (mapped_fragment no_policies ?b)" "bk_thinking_override ?b = None"
    by code_simp+
  from client_template_kwargs_win [OF this] show ?thesis by (simp add: Let_def)
qed

theorem kimi_thinking_forced_witness:
  "let b = with_thinking_override (Some False) (backend_request_new
       (empty_request\<lparr>ccr_extra_body :=
          [(''chat_template_kwargs'', JObj [(''thinking'', JBool False)])]\<rparr>) None)
   in obj_get (kwargs_of (finalize_request_for_backend no_policies b)) ''thinking''
        = Some (JBool True)"
proof -
  let ?b = "with_thinking_override (Some False) (backend_request_new
       (empty_request\<lparr>ccr_extra_body :=
          [(''chat_template_kwargs'', JObj [(''thinking'', JBool False)])]\<rparr>) None)"
  have "request_family no_policies ?b = Some Kimi" "typed_reasoning no_policies ?b = None"
    "fragment_ok (mapped_fragment no_policies ?b)"
    "obj_get (fragment_kwargs (mapped_fragment no_policies ?b)) ''thinking'' = None"
    "case bk_client_chat_template_kwargs ?b of None \<Rightarrow> True
     | Some ck \<Rightarrow> json_map_wf ck \<and> obj_get ck ''thinking'' = None"
    by code_simp+
  from kimi_thinking_forced [OF this] show ?thesis by (simp add: Let_def)
qed

subsection \<open>The shape of the wire request\<close>

text \<open>
  What a Chat Completions backend accepts: content is absent, a string or an array of parts, and
  the arguments of a tool call are a string.
\<close>

definition wire_call :: "chat_tool_call \<Rightarrow> bool" where
  "wire_call c = (case fc_arguments (tc_function c) of None \<Rightarrow> True | Some v \<Rightarrow> as_str v \<noteq> None)"

definition wire_content :: "bool \<Rightarrow> json option \<Rightarrow> bool" where
  "wire_content flatten_content content =
     (case content of
        None \<Rightarrow> True
      | Some (JStr _) \<Rightarrow> True
      | Some (JArr parts) \<Rightarrow> \<not> (flatten_content \<and> content_parts_are_text_only parts)
      | _ \<Rightarrow> False)"

definition wire_message :: "bool \<Rightarrow> chat_message \<Rightarrow> bool" where
  "wire_message flatten_content m = (wire_content flatten_content (cm_content m)
     \<and> (case cm_tool_calls m of None \<Rightarrow> True | Some cs \<Rightarrow> list_all wire_call cs))"

lemma wire_sanitized_content: "wire_content fl (sanitize_message_content J fl v)"
  by (cases v) (simp_all add: wire_content_def sanitize_message_content_def stringify_json_value_def)

lemma wire_sanitized_message: "wire_message fl (sanitize_message J fl m)"
proof -
  have "wire_content fl (Option.bind (cm_content m) (sanitize_message_content J fl))"
    using wire_sanitized_content by (cases "cm_content m") (simp_all add: wire_content_def [of _ None])
  then show ?thesis
    by (auto simp: wire_message_def sanitize_message_def wire_call_def sanitize_tool_call_def
        stringify_json_value_def list_all_iff split: option.split)
qed

text \<open>
  Every sanitized request is typed for the wire: in each message the content is absent, a string
  or an array (not a text-only one when flattening is on), every tool-call argument is a string,
  the messages keep their number, roles and call ids, and a bare \<^verbatim>\<open>tool_choice: auto\<close> never
  travels without tools.
\<close>

theorem sanitized_request_typed:
  "let r' = sanitize_chat_request J fl r in
   list_all (wire_message fl) (ccr_messages r')
   \<and> map (\<lambda>m. (cm_role m, cm_tool_call_id m, map_option (map tc_id) (cm_tool_calls m))) (ccr_messages r')
     = map (\<lambda>m. (cm_role m, cm_tool_call_id m, map_option (map tc_id) (cm_tool_calls m))) (ccr_messages r)
   \<and> \<not> ((ccr_tools r' = None \<or> ccr_tools r' = Some []) \<and> ccr_tool_choice r' = Some (JStr ''auto''))"
proof -
  have "map_option (map tc_id) (cm_tool_calls (sanitize_message J fl m))
      = map_option (map tc_id) (cm_tool_calls m)" for m
    by (cases "cm_tool_calls m") (simp_all add: sanitize_message_def sanitize_tool_call_def)
  moreover have "cm_role (sanitize_message J fl m) = cm_role m"
    "cm_tool_call_id (sanitize_message J fl m) = cm_tool_call_id m" for m
    by (simp_all add: sanitize_message_def)
  ultimately show ?thesis
    by (simp add: Let_def sanitize_chat_request_def wire_sanitized_message list_all_iff
        split: option.split)
qed

end
