(* ===== verification/Redaction.thy ===== *)
theory Redaction
  imports Text Json "HOL-Library.Sublist"
begin

text \<open>
  The image-URI and secret redaction of \<^verbatim>\<open>src/src/redaction.rs\<close> and the truncation of echoed error
  bodies (\<^verbatim>\<open>src/src/upstream.rs\<close>).  Texts are UTF-8 byte strings; a position between two
  characters is a byte offset that does not point at a continuation byte.
\<close>

subsection \<open>Characters of a byte string\<close>

definition is_continuation :: "char \<Rightarrow> bool" where
  "is_continuation c = (let n = of_char c :: nat in 128 \<le> n \<and> n < 192)"

text \<open>\<^verbatim>\<open>char_indices\<close>: the offsets at which a character starts.\<close>

definition char_offsets :: "string \<Rightarrow> nat list" where
  "char_offsets s = filter (\<lambda>i. \<not> is_continuation (s ! i)) [0..<length s]"

text \<open>\<^verbatim>\<open>str::find\<close> of a pattern: the offset of its first occurrence.\<close>

fun find_sub :: "string \<Rightarrow> string \<Rightarrow> nat option" where
  "find_sub p [] = (if p = [] then Some 0 else None)"
| "find_sub p (c # cs) = (if prefix p (c # cs) then Some 0 else map_option Suc (find_sub p cs))"

lemma find_sub_None: "find_sub p s = None \<longleftrightarrow> \<not> sublist p s"
  by (induction s) (auto simp: sublist_Cons_right)

lemma find_sub_Some:
  "find_sub p s = Some i \<Longrightarrow> prefix p (drop i s) \<and> i + length p \<le> length s
     \<and> (\<forall>j < i. \<not> prefix p (drop j s))"
proof (induction s arbitrary: i)
  case (Cons c cs)
  show ?case
  proof (cases "prefix p (c # cs)")
    case True
    with Cons.prems show ?thesis by (auto dest: prefix_length_le)
  next
    case False
    with Cons.prems obtain k where i: "i = Suc k" and k: "find_sub p cs = Some k" by auto
    from Cons.IH [OF k] False show ?thesis
      by (auto simp: i less_Suc_eq_0_disj)
  qed
qed (simp split: if_splits)

subsection \<open>URI runs\<close>

definition sensitive_uri_prefixes :: "string list" where
  "sensitive_uri_prefixes = [''data:'', ''https://'', ''http://'',
     ''https:'' @ [CHR 0x5C, CHR ''/'', CHR 0x5C, CHR ''/''],
     ''http:'' @ [CHR 0x5C, CHR ''/'', CHR 0x5C, CHR ''/'']]"

definition is_uri_run_delimiter :: "string \<Rightarrow> bool \<Rightarrow> bool" where
  "is_uri_run_delimiter s is_data =
     (case s of
        [] \<Rightarrow> False
      | c # _ \<Rightarrow> 0 < ws_len (map of_char (take 3 s))
          \<or> c \<in> {CHR 0x22, CHR 0x27, CHR '']'', CHR ''}'', CHR ''<'', CHR ''>''}
          \<or> (\<not> is_data \<and> c \<in> {CHR '')'', CHR '',''}))"

fun uri_run_len :: "bool \<Rightarrow> string \<Rightarrow> nat" where
  "uri_run_len is_data [] = 0"
| "uri_run_len is_data (c # cs) =
     (if is_uri_run_delimiter (c # cs) is_data then 0 else Suc (uri_run_len is_data cs))"

text \<open>\<^verbatim>\<open>min_by_key\<close> over the prefixes that occur: the first of the earliest.\<close>

fun earliest :: "(nat \<times> string) option \<Rightarrow> (nat \<times> string) list \<Rightarrow> (nat \<times> string) option" where
  "earliest best [] = best"
| "earliest best ((pos, p) # rest) = earliest
     (case best of
        None \<Rightarrow> Some (pos, p)
      | Some (bpos, bp) \<Rightarrow> if pos < bpos then Some (pos, p) else Some (bpos, bp)) rest"

definition next_uri :: "string \<Rightarrow> (nat \<times> string) option" where
  "next_uri lower = earliest None
     (List.map_filter (\<lambda>p. map_option (\<lambda>pos. (pos, p)) (find_sub p lower)) sensitive_uri_prefixes)"

definition redacted_uri :: string where
  "redacted_uri = ''<redacted uri>''"

lemma earliest_mem:
  "earliest best xs = Some x \<Longrightarrow> best = Some x \<or> x \<in> set xs"
  by (induction best xs rule: earliest.induct) (auto split: option.splits if_splits)

lemma earliest_None: "earliest best xs = None \<longleftrightarrow> best = None \<and> xs = []"
  by (induction best xs rule: earliest.induct) (auto split: option.splits if_splits)

lemma earliest_least:
  "earliest best xs = Some (i, q) \<Longrightarrow>
     (\<forall>(j, p) \<in> set xs. i \<le> j) \<and> (case best of None \<Rightarrow> True | Some (j, p) \<Rightarrow> i \<le> j)"
proof (induction best xs rule: earliest.induct)
  case (2 best pos p rest)
  then show ?case by (fastforce split: option.splits if_splits)
qed (auto split: option.split)

lemma next_uri_Some:
  assumes "next_uri s = Some (i, p)"
  shows "p \<in> set sensitive_uri_prefixes" "find_sub p s = Some i"
    "\<And>q j. q \<in> set sensitive_uri_prefixes \<Longrightarrow> find_sub q s = Some j \<Longrightarrow> i \<le> j"
proof -
  let ?xs = "List.map_filter (\<lambda>p. map_option (\<lambda>pos. (pos, p)) (find_sub p s)) sensitive_uri_prefixes"
  have e: "earliest None ?xs = Some (i, p)" using assms by (simp add: next_uri_def)
  from earliest_mem [OF e] show "p \<in> set sensitive_uri_prefixes" "find_sub p s = Some i"
    by (auto simp: List.map_filter_def)
  fix q j assume "q \<in> set sensitive_uri_prefixes" "find_sub q s = Some j"
  then have "(j, q) \<in> set ?xs" by (force simp: List.map_filter_def)
  with earliest_least [OF e] show "i \<le> j" by auto
qed

lemma next_uri_None:
  "next_uri s = None \<longleftrightarrow> (\<forall>p \<in> set sensitive_uri_prefixes. \<not> sublist p s)"
proof -
  have "List.map_filter (\<lambda>p. map_option (\<lambda>pos. (pos, p)) (find_sub p s)) ps = []
      \<longleftrightarrow> (\<forall>p \<in> set ps. \<not> sublist p s)" for ps
    by (induction ps) (auto simp: map_filter_simps simp flip: find_sub_None split: option.split)
  then show ?thesis by (simp add: next_uri_def earliest_None)
qed

lemma sensitive_prefix_facts:
  "p \<in> set sensitive_uri_prefixes \<Longrightarrow> p \<noteq> [] \<and> CHR ''<'' \<notin> set p \<and> CHR ''>'' \<notin> set p"
  by (auto simp: sensitive_uri_prefixes_def)

subsection \<open>Redacting a text\<close>

function redact_image_uris :: "string \<Rightarrow> string" where
  "redact_image_uris text =
     (case next_uri (ascii_lower text) of
        None \<Rightarrow> text
      | Some (start, p) \<Rightarrow>
          (let after = drop (start + length p) text
           in take start text @ redacted_uri @
                redact_image_uris (drop (uri_run_len (prefix ''data:'' p) after) after)))"
  by pat_completeness auto
termination
proof (relation "measure length", goal_cases)
  case (2 s x start p after)
  then have next_uri: "next_uri (ascii_lower s) = Some (start, p)" by simp
  note found = find_sub_Some [OF next_uri_Some(2) [OF next_uri]]
  from found sensitive_prefix_facts [OF next_uri_Some(1) [OF next_uri]] 2 show ?case
    by (cases p) auto
qed simp

declare redact_image_uris.simps [simp del]

text \<open>No sensitive URI prefix occurs, in any letter case.\<close>

definition uri_free :: "string \<Rightarrow> bool" where
  "uri_free s = (\<forall>p \<in> set sensitive_uri_prefixes. \<not> sublist p (ascii_lower s))"

lemma redact_uri_free: "uri_free s \<Longrightarrow> redact_image_uris s = s"
  using next_uri_None [of "ascii_lower s"] by (simp add: redact_image_uris.simps [of s] uri_free_def)

lemma sublist_split_char:
  "c \<notin> set p \<Longrightarrow> sublist p (a @ c # b) \<longleftrightarrow> sublist p a \<or> sublist p b"
proof
  assume c: "c \<notin> set p" and "sublist p (a @ c # b)"
  then obtain u v where uv: "a @ c # b = u @ p @ v" by (auto simp: sublist_def)
  show "sublist p a \<or> sublist p b"
  proof (cases "length (u @ p) \<le> length a")
    case True
    then have "take (length (u @ p)) a = take (length (u @ p)) (a @ c # b)" by simp
    also have "\<dots> = u @ p" unfolding uv by simp
    finally have "a = u @ p @ drop (length (u @ p)) a" by (metis append_assoc append_take_drop_id)
    then show ?thesis by (auto simp: sublist_def)
  next
    case False
    have "length a < length u"
    proof (rule ccontr)
      assume *: "\<not> length a < length u"
      have "(a @ c # b) ! length a = c" by simp
      moreover have lt: "length a - length u < length p" using * False by simp
      moreover have "(u @ p @ v) ! length a = p ! (length a - length u)"
        using * lt by (simp add: nth_append)
      ultimately show False using c uv by (metis nth_mem)
    qed
    then have "drop (Suc (length a)) (a @ c # b) = drop (Suc (length a)) u @ p @ v"
      unfolding uv by simp
    then have "b = drop (Suc (length a)) u @ p @ v" by simp
    then show ?thesis by (auto simp: sublist_def)
  qed
next
  assume "sublist p a \<or> sublist p b"
  then show "sublist p (a @ c # b)"
    by (auto simp: sublist_def) (metis append_Cons append_assoc)+
qed

lemma ascii_lower_append [simp]: "ascii_lower (a @ b) = ascii_lower a @ ascii_lower b"
  by (simp add: ascii_lower_def)

lemma uri_free_marker: "uri_free (a @ redacted_uri @ b) \<longleftrightarrow> uri_free a \<and> uri_free b"
proof -
  let ?mid = "''redacted uri''"
  have m: "ascii_lower redacted_uri = CHR ''<'' # ?mid @ [CHR ''>'']"
    by code_simp
  have mid: "\<not> sublist p ?mid" if "p \<in> set sensitive_uri_prefixes" for p
    using that unfolding sensitive_uri_prefixes_def find_sub_None [symmetric]
    by (auto simp: find_sub.simps)
  have "sublist p (ascii_lower (a @ redacted_uri @ b))
      \<longleftrightarrow> sublist p (ascii_lower a) \<or> sublist p (ascii_lower b)"
    if p: "p \<in> set sensitive_uri_prefixes" for p
  proof -
    have "ascii_lower (a @ redacted_uri @ b)
        = ascii_lower a @ CHR ''<'' # ?mid @ CHR ''>'' # ascii_lower b"
      by (simp only: ascii_lower_append m append_Cons append_assoc append_Nil)
    note eq = this
    have lt: "CHR ''<'' \<notin> set p" and gt: "CHR ''>'' \<notin> set p"
      using sensitive_prefix_facts [OF p] by simp_all
    show ?thesis
      unfolding eq sublist_split_char [OF lt] sublist_split_char [OF gt] using mid [OF p] by blast
  qed
  then show ?thesis by (auto simp: uri_free_def)
qed

lemma uri_free_before:
  assumes "next_uri (ascii_lower s) = Some (i, p)"
  shows "uri_free (take i s)"
proof (rule ccontr)
  assume "\<not> uri_free (take i s)"
  then obtain q where q: "q \<in> set sensitive_uri_prefixes" and sub: "sublist q (ascii_lower (take i s))"
    by (auto simp: uri_free_def)
  from sub have "find_sub q (ascii_lower (take i s)) \<noteq> None" by (simp add: find_sub_None)
  then obtain j where j: "find_sub q (ascii_lower (take i s)) = Some j" by blast
  from find_sub_Some [OF j] have jl: "prefix q (drop j (ascii_lower (take i s)))"
    "j + length q \<le> length (take i s)" by auto
  have "ascii_lower (take i s) = take i (ascii_lower s)" by (simp add: ascii_lower_def take_map)
  with jl(1) have at: "prefix q (drop j (ascii_lower s))"
    by (metis drop_take prefix_order.trans take_is_prefix)
  obtain k where k: "find_sub q (ascii_lower s) = Some k"
    using at sublist_drop [of j "ascii_lower s"] find_sub_None [of q "ascii_lower s"]
    by (metis not_None_eq prefix_imp_sublist sublist_order.order.trans)
  from find_sub_Some [OF k] at have "k \<le> j" by (metis not_le)
  moreover have "i \<le> k" by (rule next_uri_Some(3) [OF assms q k])
  moreover have "q \<noteq> []" using sensitive_prefix_facts [OF q] by simp
  ultimately show False using jl(2) by (cases q) auto
qed

lemma redact_image_uris_free: "uri_free (redact_image_uris s)"
proof (induction s rule: redact_image_uris.induct)
  case (1 s)
  show ?case
  proof (cases "next_uri (ascii_lower s)")
    case None
    then show ?thesis
      using next_uri_None [of "ascii_lower s"] by (simp add: redact_image_uris.simps [of s] uri_free_def)
  next
    case (Some x)
    obtain i p where x: "x = (i, p)" by (cases x)
    let ?after = "drop (i + length p) s"
    have "uri_free (redact_image_uris (drop (uri_run_len (prefix ''data:'' p) ?after) ?after))"
      by (rule 1 [OF Some x [symmetric] refl])
    with uri_free_before [OF Some [unfolded x]] show ?thesis
      by (simp add: redact_image_uris.simps [of s] Some x Let_def uri_free_marker)
  qed
qed

text \<open>
  The redacted text never contains the start of an image or web URI, raw or JSON-escaped, in any
  letter case; a text without one is unchanged, so redaction is idempotent.
\<close>

theorem redaction_removes_uris:
  "list_all (\<lambda>p. \<not> sublist p (ascii_lower (redact_image_uris s))) sensitive_uri_prefixes
   \<and> redact_image_uris (redact_image_uris s) = redact_image_uris s
   \<and> (redact_image_uris s = s \<longleftrightarrow> uri_free s)"
proof -
  note free = redact_image_uris_free [of s]
  have "redact_image_uris s = s \<longleftrightarrow> uri_free s"
    using free redact_uri_free [of s] by auto
  with free redact_uri_free [OF free] show ?thesis by (simp add: uri_free_def list_all_iff)
qed

subsection \<open>Redacting a JSON value\<close>

fun redact_image_uris_in_value :: "json \<Rightarrow> json" where
  "redact_image_uris_in_value (JStr t) = JStr (redact_image_uris t)"
| "redact_image_uris_in_value (JArr items) = JArr (map redact_image_uris_in_value items)"
| "redact_image_uris_in_value (JObj m) = JObj (map (\<lambda>(k, v). (k, redact_image_uris_in_value v)) m)"
| "redact_image_uris_in_value v = v"

definition sensitive_payload_keys :: "string list" where
  "sensitive_payload_keys = [''apikey'', ''xapikey'', ''authorization'', ''password'', ''passwd'',
     ''secret'', ''clientsecret'', ''accesstoken'', ''refreshtoken'', ''authtoken'',
     ''bearertoken'', ''openaibeta'']"

definition is_sensitive_payload_key :: "string \<Rightarrow> bool" where
  "is_sensitive_payload_key key =
     (filter (\<lambda>c. c \<noteq> CHR ''-'' \<and> c \<noteq> CHR ''_'') (ascii_lower key) \<in> set sensitive_payload_keys)"

fun redact_payload_secrets_in_value :: "json \<Rightarrow> json" where
  "redact_payload_secrets_in_value (JObj m) = JObj (map (\<lambda>(k, v).
     (k, if is_sensitive_payload_key k then JStr ''[redacted]''
         else redact_payload_secrets_in_value v)) m)"
| "redact_payload_secrets_in_value (JArr items) = JArr (map redact_payload_secrets_in_value items)"
| "redact_payload_secrets_in_value v = v"

text \<open>Every string and every value under a sensitive key, at any depth.\<close>

fun json_strings :: "json \<Rightarrow> string set" where
  "json_strings (JStr t) = {t}"
| "json_strings (JArr items) = (\<Union>v \<in> set items. json_strings v)"
| "json_strings (JObj m) = (\<Union>(k, v) \<in> set m. json_strings v)"
| "json_strings _ = {}"

fun secret_values :: "json \<Rightarrow> json set" where
  "secret_values (JObj m) = (\<Union>(k, v) \<in> set m.
     if is_sensitive_payload_key k then {v} else secret_values v)"
| "secret_values (JArr items) = (\<Union>v \<in> set items. secret_values v)"
| "secret_values _ = {}"

text \<open>The values with everything under a sensitive key blanked out.\<close>

fun public_part :: "json \<Rightarrow> json" where
  "public_part (JObj m) = JObj (map (\<lambda>(k, v).
     (k, if is_sensitive_payload_key k then JNull else public_part v)) m)"
| "public_part (JArr items) = JArr (map public_part items)"
| "public_part v = v"

lemma redacted_strings: "t \<in> json_strings (redact_image_uris_in_value v) \<Longrightarrow> uri_free t"
  by (induction v rule: redact_image_uris_in_value.induct) (auto simp: redact_image_uris_free)

lemma redacted_secrets:
  "w \<in> secret_values (redact_payload_secrets_in_value v) \<Longrightarrow> w = JStr ''[redacted]''"
  by (induction v rule: redact_payload_secrets_in_value.induct) (auto split: if_splits)

lemma redact_public_part:
  "redact_payload_secrets_in_value (public_part v) = redact_payload_secrets_in_value v"
  by (induction v rule: redact_payload_secrets_in_value.induct) (auto simp: case_prod_beta)

text \<open>
  C15: non-interference of the secret redaction: the redacted value depends on the public part of
  the value only, so nothing under a sensitive key, at any depth, influences it; the values under
  sensitive keys all become the fixed marker.
\<close>

theorem secrets_do_not_interfere:
  assumes "public_part v = public_part w"
  shows "redact_payload_secrets_in_value v = redact_payload_secrets_in_value w
    \<and> secret_values (redact_payload_secrets_in_value v) \<subseteq> {JStr ''[redacted]''}"
  using redact_public_part [of v] redact_public_part [of w] redacted_secrets assms by auto

theorem secrets_do_not_interfere_witness:
  "redact_payload_secrets_in_value (JArr [JObj [(''Api-Key'', JStr ''s3cr3t''), (''a'', JBool True)]])
   = redact_payload_secrets_in_value (JArr [JObj [(''Api-Key'', JArr []), (''a'', JBool True)]])"
proof -
  have "public_part (JArr [JObj [(''Api-Key'', JStr ''s3cr3t''), (''a'', JBool True)]])
      = public_part (JArr [JObj [(''Api-Key'', JArr []), (''a'', JBool True)]])"
    by code_simp
  from secrets_do_not_interfere [OF this] show ?thesis by simp
qed

subsection \<open>Capping a text\<close>

fun back_to_boundary :: "string \<Rightarrow> nat \<Rightarrow> nat" where
  "back_to_boundary s 0 = 0"
| "back_to_boundary s (Suc e) =
     (if is_continuation (s ! Suc e) then back_to_boundary s e else Suc e)"

definition cap_str_on_char_boundary :: "string \<Rightarrow> nat \<Rightarrow> string" where
  "cap_str_on_char_boundary s cap =
     (if length s \<le> cap then s else take (back_to_boundary s cap) s)"

lemma back_to_boundary_le: "back_to_boundary s e \<le> e"
  by (induction e) auto

lemma cap_str_length: "length (cap_str_on_char_boundary s cap) \<le> cap"
  using back_to_boundary_le [of s cap] by (auto simp: cap_str_on_char_boundary_def)

lemma cap_str_prefix: "prefix (cap_str_on_char_boundary s cap) s"
  by (simp add: cap_str_on_char_boundary_def take_is_prefix)

text \<open>A text cut before its n-th character, as \<^verbatim>\<open>char_indices().nth(n)\<close> finds it.\<close>

definition truncate_for_error :: "string \<Rightarrow> nat \<Rightarrow> string" where
  "truncate_for_error s limit =
     (if length s \<le> limit then s
      else if limit < length (char_offsets s)
      then take (char_offsets s ! limit) s @ ''...[truncated]'' else s)"

definition redact_and_truncate_error_body :: "string \<Rightarrow> nat \<Rightarrow> string" where
  "redact_and_truncate_error_body body limit = truncate_for_error (redact_image_uris body) limit"

definition vision_text_redact_limit :: nat where
  "vision_text_redact_limit = 4096"

definition redact_vision_text :: "string \<Rightarrow> string" where
  "redact_vision_text s =
     (let trimmed = trim (redact_image_uris s) in
      if vision_text_redact_limit < length (char_offsets trimmed)
      then take (char_offsets trimmed ! vision_text_redact_limit) trimmed
             @ [CHR 0xE2, CHR 0x80, CHR 0xA6] @ ''[truncated]''
      else trimmed)"

text \<open>
  A header value that is not visible ASCII text is the fixed marker; here \<^verbatim>\<open>None\<close> stands for it.
\<close>

definition redact_headers_capped :: "(string \<times> string option) list \<Rightarrow> nat \<Rightarrow> (string \<times> string) list" where
  "redact_headers_capped headers scalar_cap = map (\<lambda>(name, value).
     (let name = cap_str_on_char_boundary name scalar_cap in
      if is_sensitive_payload_key name then (name, ''[redacted]'')
      else (name, cap_str_on_char_boundary (redact_image_uris
              (case value of Some v \<Rightarrow> v | None \<Rightarrow> ''<non-utf8>'')) scalar_cap))) headers"

lemma uri_free_prefix: "uri_free s \<Longrightarrow> prefix t s \<Longrightarrow> uri_free t"
  by (auto simp: uri_free_def prefix_def sublist_appendI)
    (metis append.right_neutral ascii_lower_append prefix_def prefix_imp_sublist sublist_order.order.trans)

text \<open>
  No captured header leaks a web or image URI, or anything of the value of a sensitive header,
  and every retained name and value is within the cap.
\<close>

theorem captured_headers_clean:
  assumes "(name, value) \<in> set (redact_headers_capped headers cap)" and "10 \<le> cap"
  shows "length name \<le> cap \<and> length value \<le> cap \<and> uri_free value
    \<and> (if is_sensitive_payload_key name then value = ''[redacted]'' else True)"
proof -
  have red: "uri_free ''[redacted]''"
    unfolding uri_free_def sensitive_uri_prefixes_def find_sub_None [symmetric]
    by (simp add: ascii_lower_def byte_lower_def Let_def)
  from assms(1) obtain n v where nv: "(n, v) \<in> set headers"
    and name: "name = cap_str_on_char_boundary n cap"
    and val: "value = (if is_sensitive_payload_key name then ''[redacted]''
      else cap_str_on_char_boundary (redact_image_uris
        (case v of Some v \<Rightarrow> v | None \<Rightarrow> ''<non-utf8>'')) cap)"
    by (auto simp: redact_headers_capped_def Let_def split: if_splits)
  show ?thesis
  proof (cases "is_sensitive_payload_key name")
    case True
    with assms(2) red cap_str_length [of n cap] show ?thesis by (simp add: val name)
  next
    case False
    with cap_str_length [of n cap] show ?thesis
      using cap_str_length uri_free_prefix [OF redact_image_uris_free cap_str_prefix]
      by (simp add: val name)
  qed
qed

theorem captured_headers_clean_witness:
  "uri_free (snd (redact_headers_capped [(''Referer'', Some ''see https://a/b?sig=1'')] 64 ! 0))"
proof -
  let ?h = "redact_headers_capped [(''Referer'', Some ''see https://a/b?sig=1'')] 64"
  have h: "?h = [(''Referer'', ''see <redacted uri>'')]"
    by code_simp
  then have "(''Referer'', ''see <redacted uri>'') \<in> set ?h" by simp
  from captured_headers_clean [OF this] h show ?thesis by simp
qed

end
