(* ===== verification/Capture.thy ===== *)
theory Capture
  imports Redaction
begin

text \<open>
  The capped, redacting capture of request and response bodies (\<^verbatim>\<open>src/src/redaction.rs\<close>,
  \<^verbatim>\<open>src/src/dashboard_flow.rs\<close>): one streaming pass over the JSON text that never builds a value.
  The cursor of the parser is the text that remains; what is written to the capped writer is the
  list of writes, in order.  \<open>OutOfFuel\<close> is only there to define the recursion: the fuel the
  entry point passes is enough for every text.
\<close>

subsection \<open>The capped writers\<close>

record capped_writer =
  cw_buf :: string
  cw_cap :: nat
  cw_full :: bool

definition writer_new :: "nat \<Rightarrow> capped_writer" where
  "writer_new cap = \<lparr>cw_buf = [], cw_cap = cap, cw_full = False\<rparr>"

definition writer_write :: "string \<Rightarrow> capped_writer \<Rightarrow> capped_writer" where
  "writer_write bytes w =
     (if cw_full w then w
      else (let remaining = cw_cap w - length (cw_buf w) in
            if length bytes \<le> remaining
            then (let buf = cw_buf w @ bytes
                  in w\<lparr>cw_buf := buf, cw_full := (length buf = cw_cap w)\<rparr>)
            else w\<lparr>cw_buf := cw_buf w @ take remaining bytes, cw_full := True\<rparr>))"

text \<open>The serializer's sink: \<^verbatim>\<open>None\<close> is the write error that stops it.\<close>

definition bounded_write :: "string \<Rightarrow> capped_writer \<Rightarrow> nat option \<times> capped_writer" where
  "bounded_write bytes w =
     (if cw_full w then (None, w)
      else (let remaining = cw_cap w - length (cw_buf w) in
            if length bytes \<le> remaining
            then (let buf = cw_buf w @ bytes
                  in (Some (length bytes), w\<lparr>cw_buf := buf, cw_full := (length buf = cw_cap w)\<rparr>))
            else (None, w\<lparr>cw_buf := cw_buf w @ take remaining bytes, cw_full := True\<rparr>)))"

text \<open>A serialization as the writes it makes; it stops at the first error.\<close>

fun serialize_writes :: "string list \<Rightarrow> capped_writer \<Rightarrow> capped_writer" where
  "serialize_writes [] w = w"
| "serialize_writes (b # bs) w =
     (case bounded_write b w of (Some _, w') \<Rightarrow> serialize_writes bs w' | (None, w') \<Rightarrow> w')"

subsection \<open>Tokens\<close>

definition is_json_ws :: "char \<Rightarrow> bool" where
  "is_json_ws c = (c \<in> {CHR 0x20, CHR 0x09, CHR 0x0A, CHR 0x0D})"

definition skip_ws :: "string \<Rightarrow> string" where
  "skip_ws s = dropWhile is_json_ws s"

definition ends_value :: "string \<Rightarrow> bool" where
  "ends_value s = (case s of [] \<Rightarrow> True
     | c # _ \<Rightarrow> c \<in> {CHR '','', CHR ''}'', CHR '']''} \<or> is_json_ws c)"

definition is_digit :: "char \<Rightarrow> bool" where
  "is_digit c = (let n = of_char c :: nat in 48 \<le> n \<and> n \<le> 57)"

definition is_hex :: "char \<Rightarrow> bool" where
  "is_hex c = (let n = of_char c :: nat in
     (48 \<le> n \<and> n \<le> 57) \<or> (65 \<le> n \<and> n \<le> 70) \<or> (97 \<le> n \<and> n \<le> 102))"

definition hex_digit :: "char \<Rightarrow> nat option" where
  "hex_digit c = (let n = of_char c :: nat in
     if 48 \<le> n \<and> n \<le> 57 then Some (n - 48)
     else if 65 \<le> n \<and> n \<le> 70 then Some (n - 55)
     else if 97 \<le> n \<and> n \<le> 102 then Some (n - 87) else None)"

text \<open>After the opening quote: the text up to the closing quote, and what follows it.\<close>

fun scan_string_body :: "string \<Rightarrow> (string \<times> string) option" where
  "scan_string_body [] = None"
| "scan_string_body (c # cs) =
     (if c = CHR 0x5C then
        (case cs of
           [] \<Rightarrow> None
         | e # es \<Rightarrow>
             if e \<in> {CHR 0x22, CHR 0x5C, CHR ''/'', CHR ''b'', CHR ''f'', CHR ''n'', CHR ''r'', CHR ''t''}
             then map_option (\<lambda>(t, r). (c # e # t, r)) (scan_string_body es)
             else if e = CHR ''u'' then
               (case es of
                  h1 # h2 # h3 # h4 # rest \<Rightarrow>
                    if is_hex h1 \<and> is_hex h2 \<and> is_hex h3 \<and> is_hex h4
                    then map_option (\<lambda>(t, r). (c # e # h1 # h2 # h3 # h4 # t, r)) (scan_string_body rest)
                    else None
                | _ \<Rightarrow> None)
             else None)
      else if c = CHR 0x22 then Some ([], cs)
      else if (of_char c :: nat) < 32 then None
      else map_option (\<lambda>(t, r). (c # t, r)) (scan_string_body cs))"

text \<open>\<^verbatim>\<open>scan_string_raw\<close>, whose token is the inner text between the quotes.\<close>

definition scan_string_raw :: "string \<Rightarrow> (string \<times> string) option" where
  "scan_string_raw s =
     (case s of c # cs \<Rightarrow> if c = CHR 0x22 then scan_string_body cs else None | [] \<Rightarrow> None)"

definition match_literal :: "string \<Rightarrow> string \<Rightarrow> string option" where
  "match_literal literal s =
     (case strip_prefix literal s of
        Some rest \<Rightarrow> if ends_value rest then Some rest else None | None \<Rightarrow> None)"

definition skip_digits1 :: "string \<Rightarrow> string option" where
  "skip_digits1 s =
     (case s of c # cs \<Rightarrow> if is_digit c then Some (dropWhile is_digit cs) else None | [] \<Rightarrow> None)"

definition match_number :: "string \<Rightarrow> string option" where
  "match_number s =
     (let s1 = (case s of c # cs \<Rightarrow> if c = CHR ''-'' then cs else s | [] \<Rightarrow> s);
          integer = (case s1 of c # cs \<Rightarrow> if c = CHR ''0'' then Some cs else skip_digits1 s1
                     | [] \<Rightarrow> None);
          fraction = (\<lambda>s2. case s2 of c # cs \<Rightarrow> if c = CHR ''.'' then skip_digits1 cs else Some s2
                     | [] \<Rightarrow> Some s2);
          exponent = (\<lambda>s3. case s3 of
                       c # cs \<Rightarrow>
                         if c = CHR ''e'' \<or> c = CHR ''E''
                         then skip_digits1 (case cs of
                                d # ds \<Rightarrow> if d = CHR ''+'' \<or> d = CHR ''-'' then ds else cs | [] \<Rightarrow> cs)
                         else Some s3
                     | [] \<Rightarrow> Some s3)
      in Option.bind (Option.bind (Option.bind integer fraction) exponent)
           (\<lambda>rest. if ends_value rest then Some rest else None))"

text \<open>A scalar copied through: the token and what follows it.\<close>

definition copy_scalar :: "string \<Rightarrow> (string \<times> string) option" where
  "copy_scalar s =
     (let rest = (case s of
            [] \<Rightarrow> None
          | c # _ \<Rightarrow>
              if c = CHR ''t'' then match_literal ''true'' s
              else if c = CHR ''f'' then match_literal ''false'' s
              else if c = CHR ''n'' then match_literal ''null'' s
              else if c = CHR ''-'' \<or> is_digit c then match_number s
              else None)
      in map_option (\<lambda>r. (take (length s - length r) s, r)) rest)"

subsection \<open>String contents\<close>

definition trailing_backslashes :: "string \<Rightarrow> nat" where
  "trailing_backslashes s = length (takeWhile (\<lambda>c. c = CHR 0x5C) (rev s))"

definition cap_json_string_inner :: "string \<Rightarrow> nat \<Rightarrow> string" where
  "cap_json_string_inner inner cap =
     (if length inner \<le> cap then inner
      else (let end = back_to_boundary inner cap in
            take (if odd (trailing_backslashes (take end inner)) then end - 1 else end) inner))"

text \<open>The UTF-8 encoding of a code point (\<^verbatim>\<open>String::push\<close>) and \<^verbatim>\<open>char::from_u32\<close>.\<close>

definition utf8_encode :: "nat \<Rightarrow> string" where
  "utf8_encode n = map char_of
     (if n < 0x80 then [n]
      else if n < 0x800 then [0xC0 + n div 64, 0x80 + n mod 64]
      else if n < 0x10000 then [0xE0 + n div 4096, 0x80 + n div 64 mod 64, 0x80 + n mod 64]
      else [0xF0 + n div 262144, 0x80 + n div 4096 mod 64, 0x80 + n div 64 mod 64, 0x80 + n mod 64])"

definition push_code_point :: "nat \<Rightarrow> string" where
  "push_code_point n =
     (if (0xD800 \<le> n \<and> n \<le> 0xDFFF) \<or> 0x10FFFF < n then [] else utf8_encode n)"

definition drop_char :: "string \<Rightarrow> string" where
  "drop_char s = dropWhile is_continuation (tl s)"

text \<open>\<^verbatim>\<open>take_hex4\<close>: at most \<open>n\<close> further digits; a character that is not one is consumed.\<close>

fun take_hex :: "nat \<Rightarrow> nat \<Rightarrow> string \<Rightarrow> nat option \<times> string" where
  "take_hex 0 v s = (Some v, s)"
| "take_hex (Suc n) v [] = (None, [])"
| "take_hex (Suc n) v (c # cs) =
     (case hex_digit c of
        Some d \<Rightarrow> take_hex n (v * 16 + d) cs
      | None \<Rightarrow> (None, drop_char (c # cs)))"

definition take_hex4 :: "string \<Rightarrow> nat option \<times> string" where
  "take_hex4 s = take_hex 4 0 s"

text \<open>The low half of a surrogate pair, when it follows.\<close>

definition low_surrogate :: "string \<Rightarrow> (nat \<times> string) option" where
  "low_surrogate s =
     (case s of
        b # u # rest \<Rightarrow>
          if b = CHR 0x5C \<and> u = CHR ''u'' then
            (case take_hex4 rest of
               (Some lo, rest') \<Rightarrow> if 0xDC00 \<le> lo \<and> lo \<le> 0xDFFF then Some (lo, rest') else None
             | _ \<Rightarrow> None)
          else None
      | _ \<Rightarrow> None)"

lemma take_hex_length: "length (snd (take_hex n v s)) \<le> length s"
proof (induction n v s rule: take_hex.induct)
  case (3 n v c cs)
  have "length (dropWhile is_continuation cs) \<le> length cs" by (rule length_dropWhile_le)
  with 3 show ?case by (auto simp: drop_char_def split: option.split)
qed auto

lemma take_hex4_length: "take_hex4 s = (x, r) \<Longrightarrow> length r \<le> length s"
  using take_hex_length [of 4 0 s] by (simp add: take_hex4_def)

lemma low_surrogate_length: "low_surrogate s = Some (lo, r) \<Longrightarrow> length r < length s"
  by (auto simp: low_surrogate_def split: list.splits prod.splits option.splits if_splits
      dest!: take_hex4_length)

function decode_json_string_inner :: "string \<Rightarrow> string" where
  "decode_json_string_inner [] = []"
| "decode_json_string_inner (c # cs) =
     (if c \<noteq> CHR 0x5C then c # decode_json_string_inner cs
      else (case cs of
        [] \<Rightarrow> []
      | e # es \<Rightarrow>
          if e = CHR ''n'' then CHR 0x0A # decode_json_string_inner es
          else if e = CHR ''t'' then CHR 0x09 # decode_json_string_inner es
          else if e = CHR ''r'' then CHR 0x0D # decode_json_string_inner es
          else if e = CHR ''b'' then CHR 0x08 # decode_json_string_inner es
          else if e = CHR ''f'' then CHR 0x0C # decode_json_string_inner es
          else if e \<noteq> CHR ''u'' then e # decode_json_string_inner es
          else (let (hi_opt, rest) = take_hex4 es in
            case hi_opt of
              None \<Rightarrow> decode_json_string_inner rest
            | Some hi \<Rightarrow>
                if 0xD800 \<le> hi \<and> hi \<le> 0xDBFF then
                  (case low_surrogate rest of
                     Some (lo, rest') \<Rightarrow>
                       push_code_point (0x10000 + (hi - 0xD800) * 1024 + (lo - 0xDC00))
                         @ decode_json_string_inner rest'
                   | None \<Rightarrow> utf8_encode 0xFFFD @ decode_json_string_inner rest)
                else push_code_point hi @ decode_json_string_inner rest)))"
  by pat_completeness auto
termination
  by (relation "measure length")
    (auto dest!: take_hex4_length [OF sym] low_surrogate_length)

declare decode_json_string_inner.simps [simp del]

subsection \<open>The redacting pass\<close>

definition max_json_depth :: nat where
  "max_json_depth = 64"

definition encode_json_string :: "json_codec \<Rightarrow> string \<Rightarrow> string" where
  "encode_json_string J t = to_json_string J (JStr t)"

text \<open>A container that is skipped: brackets are counted, strings are opaque.\<close>

lemma scan_string_body_length: "scan_string_body s = Some (t, r) \<Longrightarrow> length r < length s"
proof (induction s arbitrary: t rule: scan_string_body.induct)
  case (2 c cs)
  then show ?case
    by (fastforce split: if_splits list.splits option.splits)
qed simp

function skip_container :: "nat \<Rightarrow> string \<Rightarrow> string option" where
  "skip_container depth [] = None"
| "skip_container depth (c # cs) =
     (if c = CHR 0x22 then
        (case scan_string_body cs of None \<Rightarrow> None | Some (t, r) \<Rightarrow> skip_container depth r)
      else if c = CHR ''{'' \<or> c = CHR ''['' then skip_container (Suc depth) cs
      else if c = CHR ''}'' \<or> c = CHR '']'' then
        (if depth - 1 = 0 then Some cs else skip_container (depth - 1) cs)
      else skip_container depth cs)"
  by pat_completeness auto
termination
  by (relation "measure (\<lambda>(depth, s). length s)") (auto dest: scan_string_body_length)

declare skip_container.simps [simp del]

definition ends_scalar :: "char \<Rightarrow> bool" where
  "ends_scalar c = (c \<in> {CHR '','', CHR ''}'', CHR '']''} \<or> is_json_ws c)"

definition skip_value :: "string \<Rightarrow> string option" where
  "skip_value s0 =
     (let s = skip_ws s0 in
      case s of
        [] \<Rightarrow> None
      | c # cs \<Rightarrow>
          if c = CHR 0x22 then map_option snd (scan_string_raw s)
          else if c = CHR ''{'' \<or> c = CHR ''['' then skip_container 0 s
          else (let r = dropWhile (\<lambda>c. \<not> ends_scalar c) s in if r = s then None else Some r))"

datatype parse = OutOfFuel | Malformed | Parsed string "string list"

definition emit_then :: "string list \<Rightarrow> parse \<Rightarrow> parse" where
  "emit_then ws p = (case p of Parsed r es \<Rightarrow> Parsed r (ws @ es) | other \<Rightarrow> other)"

definition parsed_opt :: "(string \<times> string list) option \<Rightarrow> parse" where
  "parsed_opt x = (case x of Some (r, es) \<Rightarrow> Parsed r es | None \<Rightarrow> Malformed)"

text \<open>The key as it is tested and as it is written, and what follows it.\<close>

definition read_key_string :: "json_codec \<Rightarrow> nat \<Rightarrow> string \<Rightarrow> (string \<times> string \<times> string) option" where
  "read_key_string J cap s =
     (case scan_string_raw s of
        None \<Rightarrow> None
      | Some (inner, rest) \<Rightarrow>
          (let decoded = decode_json_string_inner (cap_json_string_inner inner cap)
           in Some (decoded, encode_json_string J decoded, rest)))"

definition redact_string :: "json_codec \<Rightarrow> nat \<Rightarrow> string \<Rightarrow> (string \<times> string list) option" where
  "redact_string J cap s = map_option (\<lambda>(inner, rest).
     (rest, [encode_json_string J
        (redact_image_uris (decode_json_string_inner (cap_json_string_inner inner cap)))]))
     (scan_string_raw s)"

text \<open>
  The mutually recursive methods, each over the recursive calls it makes; \<open>redact\<close> ties them.
\<close>

datatype redact_method = RValue bool | RObject | RMembers | RArray | RElements

definition redact_value ::
  "(redact_method \<Rightarrow> nat \<Rightarrow> string \<Rightarrow> parse) \<Rightarrow> json_codec \<Rightarrow> nat \<Rightarrow> bool \<Rightarrow> nat \<Rightarrow> string \<Rightarrow> parse" where
  "redact_value call J cap sensitive depth s0 =
     (case skip_ws s0 of
        [] \<Rightarrow> Malformed
      | c # cs \<Rightarrow>
          if sensitive then parsed_opt (map_option
            (\<lambda>r. (r, [[CHR 0x22] @ ''[redacted]'' @ [CHR 0x22]])) (skip_value (c # cs)))
          else if max_json_depth < depth then parsed_opt (map_option
            (\<lambda>r. (r, [[CHR 0x22] @ ''[truncated: too deep]'' @ [CHR 0x22]])) (skip_value (c # cs)))
          else if c = CHR ''{'' then call RObject depth cs
          else if c = CHR ''['' then call RArray depth cs
          else if c = CHR 0x22 then parsed_opt (redact_string J cap (c # cs))
          else parsed_opt (map_option (\<lambda>(token, r). (r, [token])) (copy_scalar (c # cs))))"

definition redact_object ::
  "(redact_method \<Rightarrow> nat \<Rightarrow> string \<Rightarrow> parse) \<Rightarrow> nat \<Rightarrow> string \<Rightarrow> parse" where
  "redact_object call depth s0 =
     (let s = skip_ws s0 in
      if take 1 s = ''}'' then Parsed (tl s) [''{'', ''}'']
      else emit_then [''{''] (call RMembers depth s))"

text \<open>One round of the loop over the members.\<close>

definition redact_members ::
  "(redact_method \<Rightarrow> nat \<Rightarrow> string \<Rightarrow> parse) \<Rightarrow> json_codec \<Rightarrow> nat \<Rightarrow> nat \<Rightarrow> string \<Rightarrow> parse" where
  "redact_members call J cap depth s0 =
     (case read_key_string J cap (skip_ws s0) of
        None \<Rightarrow> Malformed
      | Some (key, written, r) \<Rightarrow>
          (let s1 = skip_ws r in
           if take 1 s1 \<noteq> '':'' then Malformed
           else (case call (RValue (is_sensitive_payload_key key)) (Suc depth) (tl s1) of
                   Parsed r2 es \<Rightarrow>
                     (let s2 = skip_ws r2 in
                      if take 1 s2 = '','' then
                        emit_then (written # '':'' # es @ ['','']) (call RMembers depth (tl s2))
                      else if take 1 s2 = ''}'' then Parsed (tl s2) (written # '':'' # es @ [''}''])
                      else Malformed)
                 | other \<Rightarrow> other)))"

definition redact_array ::
  "(redact_method \<Rightarrow> nat \<Rightarrow> string \<Rightarrow> parse) \<Rightarrow> nat \<Rightarrow> string \<Rightarrow> parse" where
  "redact_array call depth s0 =
     (let s = skip_ws s0 in
      if take 1 s = '']'' then Parsed (tl s) [''['', '']'']
      else emit_then [''[''] (call RElements depth s))"

definition redact_elements ::
  "(redact_method \<Rightarrow> nat \<Rightarrow> string \<Rightarrow> parse) \<Rightarrow> nat \<Rightarrow> string \<Rightarrow> parse" where
  "redact_elements call depth s0 =
     (case call (RValue False) (Suc depth) s0 of
        Parsed r es \<Rightarrow>
          (let s = skip_ws r in
           if take 1 s = '','' then emit_then (es @ ['','']) (call RElements depth (tl s))
           else if take 1 s = '']'' then Parsed (tl s) (es @ ['']''])
           else Malformed)
      | other \<Rightarrow> other)"

primrec redact :: "nat \<Rightarrow> json_codec \<Rightarrow> nat \<Rightarrow> redact_method \<Rightarrow> nat \<Rightarrow> string \<Rightarrow> parse" where
  "redact 0 J cap method depth s = OutOfFuel"
| "redact (Suc n) J cap method depth s =
     (case method of
        RValue sensitive \<Rightarrow> redact_value (redact n J cap) J cap sensitive depth s
      | RObject \<Rightarrow> redact_object (redact n J cap) depth s
      | RMembers \<Rightarrow> redact_members (redact n J cap) J cap depth s
      | RArray \<Rightarrow> redact_array (redact n J cap) depth s
      | RElements \<Rightarrow> redact_elements (redact n J cap) depth s)"

subsection \<open>Capture\<close>

text \<open>\<^verbatim>\<open>std::str::from_utf8\<close> accepts exactly well-formed UTF-8.\<close>

fun utf8_valid :: "nat list \<Rightarrow> bool" where
  "utf8_valid [] = True"
| "utf8_valid (a # bs) =
     (let cont = (\<lambda>b. 0x80 \<le> b \<and> b < 0xC0) in
      if a < 0x80 then utf8_valid bs
      else if 0xC2 \<le> a \<and> a < 0xE0 then
        (case bs of b # r \<Rightarrow> cont b \<and> utf8_valid r | _ \<Rightarrow> False)
      else if 0xE0 \<le> a \<and> a < 0xF0 then
        (case bs of
           b # c # r \<Rightarrow> cont b \<and> cont c \<and> (a = 0xE0 \<longrightarrow> 0xA0 \<le> b) \<and> (a = 0xED \<longrightarrow> b < 0xA0)
             \<and> utf8_valid r
         | _ \<Rightarrow> False)
      else if 0xF0 \<le> a \<and> a < 0xF5 then
        (case bs of
           b # c # d # r \<Rightarrow> cont b \<and> cont c \<and> cont d \<and> (a = 0xF0 \<longrightarrow> 0x90 \<le> b)
             \<and> (a = 0xF4 \<longrightarrow> b < 0x90) \<and> utf8_valid r
         | _ \<Rightarrow> False)
      else False)"

definition unparseable_marker :: "nat \<Rightarrow> string" where
  "unparseable_marker n = ''[redacted: unparseable body '' @ show_nat n @ '' bytes]''"

definition redact_fuel :: "string \<Rightarrow> nat" where
  "redact_fuel s = 3 * length s + 1"

definition capture_capped_redacted :: "json_codec \<Rightarrow> string \<Rightarrow> nat \<Rightarrow> nat \<Rightarrow> string" where
  "capture_capped_redacted J raw body_cap cap =
     (if utf8_valid (map of_char raw) then
        (let s = skip_ws raw in
         case redact (redact_fuel s) J cap (RValue False) 0 s of
           Parsed r writes \<Rightarrow>
             if skip_ws r = [] then cw_buf (fold writer_write writes (writer_new body_cap))
             else unparseable_marker (length raw)
         | _ \<Rightarrow> unparseable_marker (length raw))
      else unparseable_marker (length raw))"

definition capture_capped_redacted_value ::
  "json_codec \<Rightarrow> string list \<Rightarrow> nat \<Rightarrow> nat \<Rightarrow> string" where
  "capture_capped_redacted_value J writes body_cap cap =
     capture_capped_redacted J (cw_buf (serialize_writes writes (writer_new (min usize_max (body_cap * 2)))))
       body_cap cap"

end
