(* ===== verification/Capture_Correct.thy ===== *)
theory Capture_Correct
  imports Capture
begin

text \<open>
  Correctness of the capture: the fuel is enough for every text, what is kept is within the cap,
  and the streaming pass over a JSON text agrees with the recursive redaction of its value.
\<close>

subsection \<open>The writers\<close>

lemma writer_run:
  assumes "length (cw_buf w) \<le> cw_cap w" "cw_full w \<longleftrightarrow> length (cw_buf w) = cw_cap w"
  shows "cw_buf (fold writer_write ws w) = take (cw_cap w) (cw_buf w @ concat ws)"
  using assms
proof (induction ws arbitrary: w)
  case (Cons b ws)
  let ?w = "writer_write b w"
  have buf: "cw_buf ?w = take (cw_cap w) (cw_buf w @ b)" and cap: "cw_cap ?w = cw_cap w"
    and full: "cw_full ?w \<longleftrightarrow> length (cw_buf ?w) = cw_cap w"
    using Cons.prems by (auto simp: writer_write_def Let_def)
  have "cw_buf (fold writer_write ws ?w) = take (cw_cap w) (cw_buf ?w @ concat ws)"
    using Cons.IH [of ?w] buf cap full by simp
  also have "\<dots> = take (cw_cap w) (cw_buf w @ concat (b # ws))"
    unfolding buf by (simp add: min_def)
  finally show ?case by simp
qed simp

text \<open>An empty buffer with cap 0 is not marked full; the first write finds no room.\<close>

lemma writer_result: "cw_buf (fold writer_write ws (writer_new cap)) = take cap (concat ws)"
proof (cases "cap = 0")
  case True
  have "cw_buf (fold writer_write ws w) = []" if "cw_buf w = []" "cw_cap w = 0" for w
    using that by (induction ws arbitrary: w) (auto simp: writer_write_def Let_def)
  with True show ?thesis by (simp add: writer_new_def)
next
  case False
  then show ?thesis using writer_run [of "writer_new cap" ws] by (simp add: writer_new_def)
qed

lemma serialize_result:
  assumes "length (cw_buf w) \<le> cw_cap w" "cw_full w \<Longrightarrow> length (cw_buf w) = cw_cap w"
  shows "cw_buf (serialize_writes ws w) = take (cw_cap w) (cw_buf w @ concat ws)"
  using assms
proof (induction ws arbitrary: w)
  case (Cons b ws)
  show ?case
  proof (cases "\<not> cw_full w \<and> length b \<le> cw_cap w - length (cw_buf w)")
    case True
    then have w: "bounded_write b w
        = (Some (length b), w\<lparr>cw_buf := cw_buf w @ b, cw_full := (length (cw_buf w @ b) = cw_cap w)\<rparr>)"
      by (simp add: bounded_write_def Let_def)
    let ?w = "w\<lparr>cw_buf := cw_buf w @ b, cw_full := (length (cw_buf w @ b) = cw_cap w)\<rparr>"
    have "length (cw_buf w) + length b \<le> cw_cap w" using True Cons.prems(1) by auto
    then have "cw_buf (serialize_writes ws ?w) = take (cw_cap w) (cw_buf ?w @ concat ws)"
      using Cons.IH [of ?w] by simp
    then show ?thesis by (simp add: w)
  next
    case False
    with Cons.prems show ?thesis by (auto simp: bounded_write_def Let_def)
  qed
qed simp

subsection \<open>The fuel is enough\<close>

lemma skip_ws_length: "length (skip_ws s) \<le> length s"
  by (simp add: skip_ws_def length_dropWhile_le)

lemma scan_string_raw_length: "scan_string_raw s = Some (t, r) \<Longrightarrow> length r < length s"
  by (auto simp: scan_string_raw_def split: list.splits if_splits dest: scan_string_body_length)

lemma skip_container_length: "skip_container d s = Some r \<Longrightarrow> length r \<le> length s"
proof (induction d s rule: skip_container.induct)
  case (2 d c cs)
  note ih = 2
  note step = ih(5) [unfolded skip_container.simps(2) [of d c cs]]
  consider "c = CHR 0x22" | "c \<noteq> CHR 0x22" "c = CHR ''{'' \<or> c = CHR ''[''"
    | "c \<noteq> CHR 0x22" "\<not> (c = CHR ''{'' \<or> c = CHR ''['')" "c = CHR ''}'' \<or> c = CHR '']''"
    | "c \<noteq> CHR 0x22" "\<not> (c = CHR ''{'' \<or> c = CHR ''['')" "\<not> (c = CHR ''}'' \<or> c = CHR '']'')"
    by blast
  then show ?case
  proof cases
    case 1
    with step obtain t r' where t: "scan_string_body cs = Some (t, r')"
      and r': "skip_container d r' = Some r" by (auto split: option.splits)
    from ih(1) [OF 1 t refl r'] scan_string_body_length [OF t] show ?thesis by simp
  next
    case 2
    with step have "skip_container (Suc d) cs = Some r" by simp
    from ih(2) [OF 2 this] show ?thesis by simp
  next
    case 3
    show ?thesis
    proof (cases "d - 1 = 0")
      case False
      with step 3 have "skip_container (d - 1) cs = Some r" by auto
      from ih(3) [OF 3 False this] show ?thesis by simp
    qed (use step 3 in auto)
  next
    case 4
    with step have "skip_container d cs = Some r" by simp
    from ih(4) [OF 4 this] show ?thesis by simp
  qed
qed (simp add: skip_container.simps)

lemma skip_value_length: "skip_value s = Some r \<Longrightarrow> length r \<le> length s"
  using skip_ws_length [of s] length_dropWhile_le [of "\<lambda>c. \<not> ends_scalar c" "skip_ws s"]
  by (auto simp: skip_value_def Let_def split: list.splits if_splits
      dest!: scan_string_raw_length skip_container_length)

lemma skip_digits1_length: "skip_digits1 s = Some r \<Longrightarrow> length r \<le> length s"
  by (auto simp: skip_digits1_def le_SucI length_dropWhile_le split: list.splits if_splits)

lemma match_number_length: "match_number s = Some r \<Longrightarrow> length r \<le> length s"
  by (auto simp: match_number_def Let_def bind_eq_Some_conv split: list.splits if_splits
      dest!: skip_digits1_length)

lemma match_literal_length: "match_literal l s = Some r \<Longrightarrow> length r \<le> length s"
  by (auto simp: match_literal_def strip_prefix_Some split: option.splits if_splits)

lemma copy_scalar_length: "copy_scalar s = Some (t, r) \<Longrightarrow> length r \<le> length s"
  by (auto simp: copy_scalar_def Let_def split: list.splits if_splits
      dest: match_number_length match_literal_length)

lemmas token_lengths = skip_value_length copy_scalar_length scan_string_raw_length

definition fuel_for :: "redact_method \<Rightarrow> nat \<Rightarrow> nat" where
  "fuel_for mth n = 3 * n + (case mth of RValue _ \<Rightarrow> 1 | RMembers \<Rightarrow> 2 | RElements \<Rightarrow> 2 | _ \<Rightarrow> 3)"

definition fits :: "parse \<Rightarrow> nat \<Rightarrow> bool" where
  "fits p n = (case p of OutOfFuel \<Rightarrow> False | Malformed \<Rightarrow> True | Parsed r _ \<Rightarrow> length r \<le> n)"

lemma fits_simps [simp]:
  "fits Malformed n" "\<not> fits OutOfFuel n" "fits (Parsed r es) n \<longleftrightarrow> length r \<le> n"
  "fits (emit_then ws p) n \<longleftrightarrow> fits p n"
  by (auto simp: fits_def emit_then_def split: parse.split)

lemma fits_mono: "fits p m \<Longrightarrow> m \<le> n \<Longrightarrow> fits p n"
  by (auto simp: fits_def split: parse.splits)

lemma fits_parsed_opt: "(\<And>r es. x = Some (r, es) \<Longrightarrow> length r \<le> n) \<Longrightarrow> fits (parsed_opt x) n"
  by (auto simp: parsed_opt_def split: option.split)

lemma take1_length: "take 1 s = [c] \<Longrightarrow> length s = Suc (length (tl s))"
  by (cases s) auto

lemma redact_fuel_enough: "fuel_for mth (length s) \<le> n \<Longrightarrow> fits (redact n J cap mth depth s) (length s)"
proof (induction n arbitrary: mth depth s)
  case 0
  then show ?case by (simp add: fuel_for_def split: redact_method.splits)
next
  case (Suc n)
  have call: "fits (redact n J cap m d s') k" if "fuel_for m (length s') \<le> n" "length s' \<le> k" for m d s' k
    using Suc.IH [OF that(1)] fits_mono that(2) by blast
  note ws = skip_ws_length [of s]
  show ?case
  proof (cases mth)
    case (RValue sensitive)
    show ?thesis
    proof (cases "skip_ws s")
      case Nil
      then show ?thesis by (simp add: RValue redact_value_def)
    next
      case (Cons c cs)
      have len: "Suc (length cs) \<le> length s" using ws Cons by simp
      have sub: "fits (redact n J cap m depth cs) (length s)" if "m = RObject \<or> m = RArray" for m
        using that Suc.prems len by (intro call) (auto simp: RValue fuel_for_def)
      have "length r \<le> length s" if "length r \<le> length (c # cs)" for r :: string
        using that len by simp
      with sub show ?thesis
        by (auto simp: RValue redact_value_def Cons redact_string_def intro!: fits_parsed_opt
            dest!: token_lengths) 
    qed
  next
    case RObject
    have "fits (redact n J cap RMembers depth (skip_ws s)) (length s)"
      using Suc.prems ws by (intro call) (auto simp: RObject fuel_for_def)
    then show ?thesis
      using ws by (auto simp: RObject redact_object_def Let_def)
  next
    case RArray
    have "fits (redact n J cap RElements depth (skip_ws s)) (length s)"
      using Suc.prems ws by (intro call) (auto simp: RArray fuel_for_def)
    then show ?thesis
      using ws by (auto simp: RArray redact_array_def Let_def)
  next
    case RMembers
    show ?thesis
    proof (cases "read_key_string J cap (skip_ws s)")
      case None
      then show ?thesis by (simp add: RMembers redact_members_def)
    next
      case (Some x)
      obtain key w r where x: "x = (key, w, r)" by (cases x) auto
      have r: "length r < length s"
        using Some ws x by (auto simp: read_key_string_def Let_def split: option.splits
            dest!: scan_string_raw_length)
      let ?s1 = "skip_ws r"
      show ?thesis
      proof (cases "take 1 ?s1 = '':''")
        case False
        then show ?thesis by (simp add: RMembers redact_members_def Some x Let_def)
      next
        case True
        have s1: "length (tl ?s1) + 2 \<le> length s"
          using take1_length [OF True] skip_ws_length [of r] r by simp
        have v: "fits (redact n J cap (RValue (is_sensitive_payload_key key)) (Suc depth) (tl ?s1))
            (length (tl ?s1))"
          using Suc.prems s1 by (intro call) (auto simp: RMembers fuel_for_def)
        show ?thesis
        proof (cases "redact n J cap (RValue (is_sensitive_payload_key key)) (Suc depth) (tl ?s1)")
          case (Parsed r2 es)
          have r2: "length (skip_ws r2) + 2 \<le> length s"
            using v Parsed s1 skip_ws_length [of r2] by simp
          have "fits (redact n J cap RMembers depth (tl (skip_ws r2))) (length s)"
            using Suc.prems r2 by (intro call) (auto simp: RMembers fuel_for_def)
          with True r2 show ?thesis
            by (auto simp: RMembers redact_members_def Some x Let_def Parsed)
        qed (use v True in \<open>simp_all add: RMembers redact_members_def Some x Let_def\<close>)
      qed
    qed
  next
    case RElements
    have v: "fits (redact n J cap (RValue False) (Suc depth) s) (length s)"
      using Suc.prems by (intro call) (auto simp: RElements fuel_for_def)
    show ?thesis
    proof (cases "redact n J cap (RValue False) (Suc depth) s")
      case (Parsed r es)
      have r: "length (skip_ws r) \<le> length s"
        using v Parsed skip_ws_length [of r] by simp
      have "fits (redact n J cap RElements depth (tl (skip_ws r))) (length s)"
        if "take 1 (skip_ws r) = '',''"
      proof (rule call)
        have "length (tl (skip_ws r)) < length s" using take1_length [OF that] r by linarith
        with Suc.prems show "fuel_for RElements (length (tl (skip_ws r))) \<le> n"
          "length (tl (skip_ws r)) \<le> length s" unfolding fuel_for_def RElements by simp_all
      qed
      note more = this
      have step: "redact (Suc n) J cap mth depth s =
          (let s = skip_ws r in
           if take 1 s = '','' then emit_then (es @ ['','']) (redact n J cap RElements depth (tl s))
           else if take 1 s = '']'' then Parsed (tl s) (es @ ['']''])
           else Malformed)"
        by (simp only: redact.simps RElements redact_method.case redact_elements_def Parsed parse.case)
      consider "take 1 (skip_ws r) = '',''" | "take 1 (skip_ws r) \<noteq> '',''" "take 1 (skip_ws r) = '']''"
        | "take 1 (skip_ws r) \<noteq> '',''" "take 1 (skip_ws r) \<noteq> '']''" by blast
      then show ?thesis
      proof cases
        case 1
        from more [OF 1] show ?thesis by (simp only: step Let_def 1 simp_thms if_True fits_simps)
      next
        case 2
        with r show ?thesis by (simp only: step Let_def if_False if_True fits_simps) simp
      next
        case 3
        then show ?thesis by (simp only: step Let_def if_False fits_simps)
      qed
    qed (use v in \<open>simp_all add: RElements redact_elements_def\<close>)
  qed
qed

text \<open>
  C29: capturing a body always ends with a result (the fuel of the model is enough), and what is kept
  is within the cap or is the fixed marker that contains nothing of the body.
\<close>

theorem capture_total_and_bounded:
  "redact (redact_fuel s) J cap (RValue False) 0 s \<noteq> OutOfFuel
   \<and> (length (capture_capped_redacted J raw body_cap cap) \<le> body_cap
      \<or> capture_capped_redacted J raw body_cap cap = unparseable_marker (length raw))"
proof -
  have "fits (redact (redact_fuel s) J cap (RValue False) 0 s) (length s)"
    by (rule redact_fuel_enough) (simp add: fuel_for_def redact_fuel_def)
  moreover have "length (capture_capped_redacted J raw body_cap cap) \<le> body_cap
      \<or> capture_capped_redacted J raw body_cap cap = unparseable_marker (length raw)"
    by (cases "redact (redact_fuel (skip_ws raw)) J cap (RValue False) 0 (skip_ws raw)")
      (simp_all add: capture_capped_redacted_def Let_def writer_result)
  ultimately show ?thesis by auto
qed

subsection \<open>The streaming pass agrees with the recursive redaction\<close>

text \<open>
  The compact text of a value, over the strings and numbers as the codec prints them.  What the
  pass relies on: the printed strings and numbers are tokens it can read back, no string is
  longer than the scalar cap, and nothing outside a sensitive value is nested too deeply.
\<close>

fun commas :: "string list \<Rightarrow> string" where
  "commas [] = []"
| "commas (x # xs) = x @ concat (map ((#) CHR '','') xs)"

lemma commas_Cons: "xs \<noteq> [] \<Longrightarrow> commas (x # xs) = x @ CHR '','' # commas xs"
  by (cases xs) auto

fun compact :: "json_codec \<Rightarrow> json \<Rightarrow> string" where
  "compact J JNull = ''null''"
| "compact J (JBool b) = (if b then ''true'' else ''false'')"
| "compact J (JNum n) = to_json_string J (JNum n)"
| "compact J (JStr t) = encode_json_string J t"
| "compact J (JArr vs) = CHR ''['' # commas (map (compact J) vs) @ '']''"
| "compact J (JObj m) =
     CHR ''{'' # commas (map (\<lambda>(k, v). encode_json_string J k @ CHR '':'' # compact J v) m) @ ''}''"

definition string_token :: "json_codec \<Rightarrow> nat \<Rightarrow> string \<Rightarrow> bool" where
  "string_token J cap t = (\<exists>inner. encode_json_string J t = CHR 0x22 # inner @ [CHR 0x22]
     \<and> length inner \<le> cap \<and> (\<forall>r. scan_string_body (inner @ CHR 0x22 # r) = Some (inner, r))
     \<and> decode_json_string_inner inner = t)"

definition is_number_char :: "char \<Rightarrow> bool" where
  "is_number_char c = (is_digit c \<or> c \<in> {CHR ''+'', CHR ''-'', CHR ''.'', CHR ''e'', CHR ''E''})"

definition number_token :: "json_codec \<Rightarrow> json_number \<Rightarrow> bool" where
  "number_token J n = (let t = to_json_string J (JNum n) in
     t \<noteq> [] \<and> (hd t = CHR ''-'' \<or> is_digit (hd t))
     \<and> list_all is_number_char t
     \<and> (\<forall>r. ends_value r \<longrightarrow> match_number (t @ r) = Some r))"

fun readable :: "json_codec \<Rightarrow> nat \<Rightarrow> json \<Rightarrow> bool" where
  "readable J cap (JStr t) = string_token J cap t"
| "readable J cap (JNum n) = number_token J n"
| "readable J cap (JArr vs) = list_all (readable J cap) vs"
| "readable J cap (JObj m) = list_all (\<lambda>(k, v). string_token J cap k \<and> readable J cap v) m"
| "readable J cap _ = True"

fun shallow :: "nat \<Rightarrow> json \<Rightarrow> bool" where
  "shallow d (JArr vs) = (d \<le> max_json_depth \<and> list_all (shallow (Suc d)) vs)"
| "shallow d (JObj m) = (d \<le> max_json_depth
     \<and> list_all (\<lambda>(k, v). if is_sensitive_payload_key k then True else shallow (Suc d) v) m)"
| "shallow d _ = (d \<le> max_json_depth)"

text \<open>The two recursive passes of the request logger.\<close>

definition redact_tree :: "json \<Rightarrow> json" where
  "redact_tree v = redact_image_uris_in_value (redact_payload_secrets_in_value v)"

definition marks_redacted :: "json_codec \<Rightarrow> bool" where
  "marks_redacted J = (encode_json_string J ''[redacted]'' = [CHR 0x22] @ ''[redacted]'' @ [CHR 0x22])"

lemma json_chars [simp]:
  "is_json_ws CHR ''['' = False" "is_json_ws CHR ''{'' = False" "is_json_ws CHR '']'' = False"
  "is_json_ws CHR ''}'' = False" "is_json_ws CHR '','' = False" "is_json_ws CHR '':'' = False"
  "is_json_ws CHR 0x22 = False" "is_json_ws CHR ''n'' = False" "is_json_ws CHR ''t'' = False"
  "is_json_ws CHR ''f'' = False" "is_json_ws CHR ''-'' = False"
  by (simp_all add: is_json_ws_def)

lemma skip_ws_Cons [simp]: "\<not> is_json_ws c \<Longrightarrow> skip_ws (c # s) = c # s"
  by (simp add: skip_ws_def)

lemma ends_value_simps [simp]:
  "ends_value []" "ends_value (CHR '','' # s)" "ends_value (CHR '']'' # s)" "ends_value (CHR ''}'' # s)"
  by (simp_all add: ends_value_def)

lemma number_char:
  assumes "is_number_char c"
  shows "\<not> ends_scalar c" "\<not> is_json_ws c" "c \<noteq> CHR 0x22" "c \<noteq> CHR ''{''" "c \<noteq> CHR ''[''"
    "c \<noteq> CHR ''}''" "c \<noteq> CHR '']''"
  using assms by (auto simp: is_number_char_def ends_scalar_def is_json_ws_def is_digit_def Let_def)

lemma string_tokenE:
  assumes "string_token J cap t"
  obtains inner where "encode_json_string J t = CHR 0x22 # inner @ [CHR 0x22]" "length inner \<le> cap"
    "\<And>r. scan_string_body (inner @ CHR 0x22 # r) = Some (inner, r)"
    "decode_json_string_inner inner = t"
  using assms unfolding string_token_def by blast

lemma compact_hd:
  assumes "readable J cap v"
  obtains c cs where "compact J v = c # cs" "\<not> is_json_ws c" "c \<noteq> CHR '']''"
proof (cases v)
  case (JNum n)
  with assms have "to_json_string J (JNum n) \<noteq> []"
    "list_all is_number_char (to_json_string J (JNum n))"
    by (simp_all add: number_token_def Let_def)
  with that JNum show ?thesis
    by (cases "to_json_string J (JNum n)") (auto dest: number_char(2,7))
next
  case (JStr t)
  with assms have "string_token J cap t" by simp
  then show ?thesis by (rule string_tokenE) (use that JStr in auto)
next
  case (JBool b)
  with that show ?thesis by (cases b) auto
qed (use that in auto)

subsubsection \<open>Skipping\<close>

lemma skip_container_string:
  "string_token J cap t \<Longrightarrow> skip_container d (encode_json_string J t @ r) = skip_container d r"
  by (erule string_tokenE) (simp add: skip_container.simps)

lemma skip_container_plain:
  "list_all (\<lambda>c. c \<noteq> CHR 0x22 \<and> c \<noteq> CHR ''{'' \<and> c \<noteq> CHR ''['' \<and> c \<noteq> CHR ''}'' \<and> c \<noteq> CHR '']'') s
     \<Longrightarrow> skip_container d (s @ r) = skip_container d r"
  by (induction s) (auto simp: skip_container.simps(2))

lemma skip_container_number:
  "number_token J n \<Longrightarrow> skip_container d (to_json_string J (JNum n) @ r) = skip_container d r"
  by (rule skip_container_plain)
    (auto simp: number_token_def Let_def list_all_iff dest: number_char(3-7))

lemma skip_container_commas:
  assumes "\<And>x r. x \<in> set xs \<Longrightarrow> skip_container d (f x @ r) = skip_container d r"
  shows "skip_container d (commas (map f xs) @ r) = skip_container d r"
  using assms
proof (induction xs)
  case (Cons x xs)
  show ?case
  proof (cases "xs = []")
    case False
    with Cons show ?thesis by (simp add: commas_Cons skip_container.simps(2) del: commas.simps)
  qed (use Cons.prems in simp)
qed (simp add: skip_container.simps)

lemma skip_container_value:
  "readable J cap v \<Longrightarrow> 0 < d \<Longrightarrow> skip_container d (compact J v @ r) = skip_container d r"
proof (induction J v arbitrary: d r rule: compact.induct)
  case (5 J vs)
  have "skip_container (Suc d) (commas (map (compact J) vs) @ CHR '']'' # r)
      = skip_container (Suc d) (CHR '']'' # r)"
    by (rule skip_container_commas) (use 5 in \<open>auto simp: list_all_iff\<close>)
  with 5 show ?case by (simp add: skip_container.simps(2))
next
  case (6 J m)
  have "skip_container (Suc d) ((case kv of (k, v) \<Rightarrow> encode_json_string J k @ CHR '':'' # compact J v) @ r)
      = skip_container (Suc d) r" if "kv \<in> set m" for kv r
  proof -
    obtain k v where kv: "kv = (k, v)" by (cases kv)
    with that 6(2) have rd: "string_token J cap k" "readable J cap v" by (auto simp: list_all_iff)
    have "skip_container (Suc d) (compact J v @ r) = skip_container (Suc d) r"
      using 6(1) [OF that kv [symmetric] rd(2)] by simp
    then show ?thesis by (simp add: kv skip_container_string [OF rd(1)] skip_container.simps(2))
  qed
  then have "skip_container (Suc d)
        (commas (map (\<lambda>(k, v). encode_json_string J k @ CHR '':'' # compact J v) m) @ CHR ''}'' # r)
      = skip_container (Suc d) (CHR ''}'' # r)"
    by (rule skip_container_commas)
  with 6 show ?case by (simp add: skip_container.simps(2))
qed (auto simp: skip_container.simps(2) skip_container_string skip_container_number)

lemma skip_scalar:
  assumes "list_all (\<lambda>c. \<not> ends_scalar c) t" "t \<noteq> []" "ends_value r"
  shows "dropWhile (\<lambda>c. \<not> ends_scalar c) (t @ r) = r" "t @ r \<noteq> r"
proof -
  have "dropWhile (\<lambda>c. \<not> ends_scalar c) r = r"
    using assms(3) by (cases r) (auto simp: ends_value_def ends_scalar_def)
  with assms show "dropWhile (\<lambda>c. \<not> ends_scalar c) (t @ r) = r"
    by (simp add: dropWhile_append2 list_all_iff)
qed (use assms in simp)

lemma skip_value_scalar:
  assumes "list_all (\<lambda>c. \<not> ends_scalar c) t" "t = c # cs" "\<not> is_json_ws c"
    "c \<noteq> CHR 0x22" "c \<noteq> CHR ''{''" "c \<noteq> CHR ''[''" "ends_value r"
  shows "skip_value (t @ r) = Some r"
  using skip_scalar [of t r] assms by (simp add: skip_value_def)

lemma skip_value_compact:
  assumes "readable J cap v" "ends_value r"
  shows "skip_value (compact J v @ r) = Some r"
proof (cases v)
  case JNull
  from skip_value_scalar [of "''null''" "CHR ''n''" "''ull''" r] assms JNull show ?thesis
    by (simp add: ends_scalar_def is_json_ws_def)
next
  case (JBool b)
  from skip_value_scalar [of "''true''" "CHR ''t''" "''rue''" r]
    skip_value_scalar [of "''false''" "CHR ''f''" "''alse''" r] assms JBool show ?thesis
    by (simp add: ends_scalar_def is_json_ws_def)
next
  case (JNum n)
  with assms have t: "list_all is_number_char (to_json_string J (JNum n))"
    "to_json_string J (JNum n) \<noteq> []" by (simp_all add: number_token_def Let_def)
  then obtain c cs where c: "to_json_string J (JNum n) = c # cs" "is_number_char c"
    by (cases "to_json_string J (JNum n)") auto
  have "list_all (\<lambda>c. \<not> ends_scalar c) (to_json_string J (JNum n))"
    using t(1) number_char(1) by (auto simp: list_all_iff)
  from skip_value_scalar [OF this c(1) number_char(2-5) [OF c(2)] assms(2)] JNum show ?thesis by simp
next
  case (JStr t)
  with assms have "string_token J cap t" by simp
  then show ?thesis
    by (rule string_tokenE) (simp add: JStr skip_value_def scan_string_raw_def)
next
  case (JArr vs)
  have "skip_container 1 (commas (map (compact J) vs) @ CHR '']'' # r) = skip_container 1 (CHR '']'' # r)"
    by (rule skip_container_commas)
      (use assms JArr skip_container_value in \<open>auto simp: list_all_iff\<close>)
  then show ?thesis by (simp add: JArr skip_value_def skip_container.simps(2))
next
  case (JObj m)
  have "skip_container 1 ((case kv of (k, v) \<Rightarrow> encode_json_string J k @ CHR '':'' # compact J v) @ r)
      = skip_container 1 r" if "kv \<in> set m" for kv r
  proof -
    obtain k v where kv: "kv = (k, v)" by (cases kv)
    with that assms(1) JObj have "string_token J cap k" "readable J cap v" by (auto simp: list_all_iff)
    then show ?thesis
      by (simp add: kv skip_container_string skip_container.simps(2) skip_container_value)
  qed
  then have "skip_container 1 (commas (map (\<lambda>(k, v). encode_json_string J k @ CHR '':'' # compact J v) m)
      @ CHR ''}'' # r) = skip_container 1 (CHR ''}'' # r)"
    by (rule skip_container_commas)
  then show ?thesis by (simp add: JObj skip_value_def skip_container.simps(2))
qed

subsubsection \<open>Redacting\<close>

lemma take1_Cons [simp]: "take (Suc 0) (c # s) = [c]"
  by simp

definition redacts_to :: "parse \<Rightarrow> string \<Rightarrow> string \<Rightarrow> bool" where
  "redacts_to p r text = (\<exists>es. p = Parsed r es \<and> concat es = text)"

lemma redacts_to_emit: "redacts_to p r t \<Longrightarrow> redacts_to (emit_then ws p) r (concat ws @ t)"
  by (auto simp: redacts_to_def emit_then_def)

lemma redact_sensitive:
  assumes "readable J cap v" "ends_value r" "0 < n" "marks_redacted J"
  shows "redacts_to (redact n J cap (RValue True) d (compact J v @ r)) r (encode_json_string J ''[redacted]'')"
proof -
  obtain n' where n: "n = Suc n'" using assms(3) by (cases n) auto
  obtain c cs where c: "compact J v = c # cs" "\<not> is_json_ws c" using compact_hd [OF assms(1)] .
  have "skip_value (c # cs @ r) = Some r" using skip_value_compact [OF assms(1,2)] c by simp
  with c show ?thesis using assms(4)
    by (simp add: n redact_value_def parsed_opt_def redacts_to_def marks_redacted_def)
qed

lemma redact_string_token:
  assumes "string_token J cap t"
  shows "redact_string J cap (encode_json_string J t @ r) = Some (r, [encode_json_string J (redact_image_uris t)])"
    and "read_key_string J cap (skip_ws (encode_json_string J t @ r)) = Some (t, encode_json_string J t, r)"
  using assms by (auto elim!: string_tokenE
      simp: redact_string_def read_key_string_def scan_string_raw_def cap_json_string_inner_def)

lemma redact_elements_commas:
  assumes "vs \<noteq> []" and "3 * length (commas (map (compact J) vs)) + 2 \<le> n"
    and "\<And>v n r. v \<in> set vs \<Longrightarrow> ends_value r \<Longrightarrow> 3 * length (compact J v) + 1 \<le> n \<Longrightarrow>
      redacts_to (redact n J cap (RValue False) (Suc d) (compact J v @ r)) r (compact J (redact_tree v))"
  shows "redacts_to (redact n J cap RElements d (commas (map (compact J) vs) @ CHR '']'' # r)) r
    (commas (map (\<lambda>v. compact J (redact_tree v)) vs) @ '']'')"
  using assms
proof (induction vs arbitrary: n)
  case (Cons v vs)
  then obtain n' where n: "n = Suc n'" by (cases n) auto
  show ?case
  proof (cases "vs = []")
    case True
    have "redacts_to (redact n' J cap (RValue False) (Suc d) (compact J v @ CHR '']'' # r)) (CHR '']'' # r)
        (compact J (redact_tree v))"
      by (rule Cons.prems(3)) (use Cons.prems(2) True n in auto)
    then show ?thesis
      by (auto simp: True n redact_elements_def redacts_to_def Let_def)
  next
    case False
    let ?tail = "commas (map (compact J) vs) @ CHR '']'' # r"
    have len: "3 * length (compact J v) + 3 * length (commas (map (compact J) vs)) + 5 \<le> n"
      using Cons.prems(2) False by (simp add: commas_Cons del: commas.simps)
    have "redacts_to (redact n' J cap (RValue False) (Suc d) (compact J v @ CHR '','' # ?tail))
        (CHR '','' # ?tail) (compact J (redact_tree v))"
      by (rule Cons.prems(3)) (use len n in auto)
    then obtain es where es: "redact n' J cap (RValue False) (Suc d) (compact J v @ CHR '','' # ?tail)
        = Parsed (CHR '','' # ?tail) es" "concat es = compact J (redact_tree v)"
      by (auto simp: redacts_to_def)
    have "redacts_to (redact n' J cap RElements d ?tail) r
        (commas (map (\<lambda>v. compact J (redact_tree v)) vs) @ '']'')"
      using len n by (intro Cons.IH False Cons.prems(3)) auto
    from redacts_to_emit [OF this, of "es @ ['','']"] show ?thesis
      using False by (simp add: n redact_elements_def es commas_Cons Let_def del: commas.simps)
  qed
qed simp

definition member_text :: "json_codec \<Rightarrow> (json \<Rightarrow> string) \<Rightarrow> string \<times> json \<Rightarrow> string" where
  "member_text J f kv = (case kv of (k, v) \<Rightarrow> encode_json_string J k @ CHR '':'' # f v)"

definition redacted_member :: "json_codec \<Rightarrow> string \<times> json \<Rightarrow> string" where
  "redacted_member J kv = (case kv of (k, v) \<Rightarrow> encode_json_string J k @ CHR '':'' #
     (if is_sensitive_payload_key k then encode_json_string J ''[redacted]''
      else compact J (redact_tree v)))"

lemma redact_member_value:
  assumes "\<not> is_sensitive_payload_key k \<Longrightarrow>
      redacts_to (redact n J cap (RValue False) d (compact J v @ r)) r (compact J (redact_tree v))"
    and "readable J cap v" "ends_value r" "0 < n" "marks_redacted J"
  shows "redacts_to (redact n J cap (RValue (is_sensitive_payload_key k)) d (compact J v @ r)) r
    (if is_sensitive_payload_key k then encode_json_string J ''[redacted]'' else compact J (redact_tree v))"
  using assms redact_sensitive [OF assms(2-5)] by (cases "is_sensitive_payload_key k") simp_all

lemma redact_members_commas:
  assumes "m \<noteq> []" and "3 * length (commas (map (member_text J (compact J)) m)) + 2 \<le> n"
    and "\<And>k v. (k, v) \<in> set m \<Longrightarrow> string_token J cap k \<and> readable J cap v"
    and "marks_redacted J"
    and "\<And>k v n r. (k, v) \<in> set m \<Longrightarrow> \<not> is_sensitive_payload_key k \<Longrightarrow> ends_value r \<Longrightarrow>
      3 * length (compact J v) + 1 \<le> n \<Longrightarrow>
      redacts_to (redact n J cap (RValue False) (Suc d) (compact J v @ r)) r (compact J (redact_tree v))"
  shows "redacts_to (redact n J cap RMembers d (commas (map (member_text J (compact J)) m) @ CHR ''}'' # r)) r
    (commas (map (redacted_member J) m) @ ''}'')"
  using assms
proof (induction m arbitrary: n)
  case (Cons kv m)
  obtain k v where kv: "kv = (k, v)" by (cases kv)
  obtain n' where n: "n = Suc n'" using Cons.prems(2) by (cases n) auto
  have tok: "string_token J cap k" "readable J cap v" using Cons.prems(3) [of k v] by (auto simp: kv)
  obtain c cs where c: "compact J v = c # cs" "\<not> is_json_ws c" using compact_hd [OF tok(2)] .
  note key = redact_string_token(2) [OF tok(1)]
  let ?red = "if is_sensitive_payload_key k then encode_json_string J ''[redacted]'' else compact J (redact_tree v)"
  have val: "redacts_to (redact n' J cap (RValue (is_sensitive_payload_key k)) (Suc d) (compact J v @ r')) r' ?red"
    if "ends_value r'" "3 * length (compact J v) + 1 \<le> n'" for r'
    using that by (intro redact_member_value Cons.prems(4) tok(2) Cons.prems(5)) (auto simp: kv)
  show ?case
  proof (cases "m = []")
    case True
    have "redacts_to (redact n' J cap (RValue (is_sensitive_payload_key k)) (Suc d)
        (compact J v @ CHR ''}'' # r)) (CHR ''}'' # r) ?red"
      by (rule val) (use Cons.prems(2) True n kv in \<open>auto simp: member_text_def\<close>)
    then show ?thesis
      by (auto simp: True n kv redact_members_def member_text_def redacted_member_def key redacts_to_def Let_def)
  next
    case False
    let ?tail = "commas (map (member_text J (compact J)) m) @ CHR ''}'' # r"
    have len: "3 * length (compact J v) + 3 * length (commas (map (member_text J (compact J)) m)) + 5 \<le> n"
      using Cons.prems(2) False by (simp add: commas_Cons kv member_text_def [of _ _ "(k, v)"] del: commas.simps)
    have "redacts_to (redact n' J cap (RValue (is_sensitive_payload_key k)) (Suc d)
        (compact J v @ CHR '','' # ?tail)) (CHR '','' # ?tail) ?red"
      by (rule val) (use len n in auto)
    then obtain es where es: "redact n' J cap (RValue (is_sensitive_payload_key k)) (Suc d)
        (compact J v @ CHR '','' # ?tail) = Parsed (CHR '','' # ?tail) es" "concat es = ?red"
      by (auto simp: redacts_to_def)
    have "redacts_to (redact n' J cap RMembers d ?tail) r (commas (map (redacted_member J) m) @ ''}'')"
    proof (rule Cons.IH [OF False])
      show "3 * length (commas (map (member_text J (compact J)) m)) + 2 \<le> n'" using len n by simp
      show "string_token J cap k' \<and> readable J cap v'" if "(k', v') \<in> set m" for k' v'
        using Cons.prems(3) [of k' v'] that by simp
      show "redacts_to (redact n'' J cap (RValue False) (Suc d) (compact J v' @ r')) r' (compact J (redact_tree v'))"
        if "(k', v') \<in> set m" "\<not> is_sensitive_payload_key k'" "ends_value r'"
          "3 * length (compact J v') + 1 \<le> n''" for k' v' n'' r'
        using Cons.prems(5) [of k' v' r' n''] that by simp
    qed (rule Cons.prems(4))
    from redacts_to_emit [OF this, of "encode_json_string J k # '':'' # es @ ['','']"] show ?thesis
      using False
      by (simp add: n kv redact_members_def key member_text_def [of _ _ "(k, v)"]
          redacted_member_def [of _ "(k, v)"] es commas_Cons Let_def del: commas.simps)
  qed
qed simp

lemma redacted_marker_tree: "redact_image_uris_in_value (JStr ''[redacted]'') = JStr ''[redacted]''"
proof -
  have "uri_free ''[redacted]''"
    unfolding uri_free_def sensitive_uri_prefixes_def find_sub_None [symmetric]
    by (simp add: ascii_lower_def byte_lower_def Let_def)
  then show ?thesis by (simp add: redact_uri_free)
qed

lemma compact_redact_tree [simp]:
  "compact J (redact_tree (JArr vs)) = CHR ''['' # commas (map (\<lambda>v. compact J (redact_tree v)) vs) @ '']''"
  "compact J (redact_tree (JObj m)) = CHR ''{'' # commas (map (redacted_member J) m) @ ''}''"
proof -
  show "compact J (redact_tree (JArr vs)) = CHR ''['' # commas (map (\<lambda>v. compact J (redact_tree v)) vs) @ '']''"
    by (simp add: redact_tree_def comp_def)
  have "map (\<lambda>(k, v). encode_json_string J k @ CHR '':'' # compact J v) (map (\<lambda>(k, v). (k, redact_image_uris_in_value v))
      (map (\<lambda>(k, v). (k, if is_sensitive_payload_key k then JStr ''[redacted]''
        else redact_payload_secrets_in_value v)) m)) = map (redacted_member J) m"
    using redacted_marker_tree by (auto simp: redacted_member_def redact_tree_def)
  then show "compact J (redact_tree (JObj m)) = CHR ''{'' # commas (map (redacted_member J) m) @ ''}''"
    by (simp only: redact_tree_def redact_payload_secrets_in_value.simps
        redact_image_uris_in_value.simps compact.simps)
qed

lemma scalar_tokens:
  assumes "ends_value r"
  shows "copy_scalar (CHR ''n'' # CHR ''u'' # CHR ''l'' # CHR ''l'' # r) = Some (''null'', r)"
    "copy_scalar (CHR ''t'' # CHR ''r'' # CHR ''u'' # CHR ''e'' # r) = Some (''true'', r)"
    "copy_scalar (CHR ''f'' # CHR ''a'' # CHR ''l'' # CHR ''s'' # CHR ''e'' # r) = Some (''false'', r)"
  using assms by (simp_all add: copy_scalar_def match_literal_def)

lemma copy_number:
  assumes "number_token J n" "ends_value r"
  shows "copy_scalar (to_json_string J (JNum n) @ r) = Some (to_json_string J (JNum n), r)"
proof -
  from assms obtain c cs where t: "to_json_string J (JNum n) = c # cs" "c = CHR ''-'' \<or> is_digit c"
    and m: "match_number (c # cs @ r) = Some r"
    by (cases "to_json_string J (JNum n)") (auto simp: number_token_def Let_def)
  have "c \<noteq> CHR ''t''" "c \<noteq> CHR ''f''" "c \<noteq> CHR ''n''"
    using t(2) by (auto simp: is_digit_def Let_def)
  with t m show ?thesis by (simp add: copy_scalar_def Let_def)
qed

lemma redact_compact:
  assumes "readable J cap v" "shallow d v" "marks_redacted J" "ends_value r" "3 * length (compact J v) + 1 \<le> n"
  shows "redacts_to (redact n J cap (RValue False) d (compact J v @ r)) r (compact J (redact_tree v))"
  using assms
proof (induction J v arbitrary: d r n rule: compact.induct)
  case (1 J)
  then show ?case
    by (cases n) (simp_all add: redact_value_def scalar_tokens parsed_opt_def redacts_to_def redact_tree_def)
next
  case (2 J b)
  then show ?case
    by (cases n; cases b)
      (simp_all add: redact_value_def scalar_tokens parsed_opt_def redacts_to_def redact_tree_def)
next
  case (3 J k)
  then obtain c cs where c: "to_json_string J (JNum k) = c # cs" "is_number_char c"
    by (cases "to_json_string J (JNum k)") (auto simp: number_token_def Let_def)
  with 3 copy_number [of J k r] show ?case
    by (cases n) (simp_all add: redact_value_def parsed_opt_def redacts_to_def redact_tree_def
        number_char(2-5))
next
  case (4 J t)
  then have t: "string_token J cap t" by simp
  then obtain inner where i: "encode_json_string J t = CHR 0x22 # inner @ [CHR 0x22]"
    by (rule string_tokenE)
  from 4 redact_string_token(1) [OF t, of r] show ?case
    by (cases n) (simp_all add: redact_value_def parsed_opt_def redacts_to_def redact_tree_def i)
next
  case (5 J vs)
  obtain n2 where n: "n = Suc (Suc n2)" using 5(6) by (cases n; cases "n - 1") auto
  show ?case
  proof (cases "vs = []")
    case True
    with 5 show ?thesis
      by (simp add: n redact_value_def redact_array_def redacts_to_def Let_def)
  next
    case False
    have hd: "\<exists>c cs. commas (map (compact J) vs) @ CHR '']'' # r = c # cs \<and> \<not> is_json_ws c \<and> c \<noteq> CHR '']''"
    proof -
      obtain v vs' where v: "vs = v # vs'" using False by (cases vs) auto
      with 5 have "readable J cap v" by simp
      then show ?thesis by (rule compact_hd) (auto simp: v)
    qed
    have "redacts_to (redact n2 J cap RElements d (commas (map (compact J) vs) @ CHR '']'' # r)) r
        (commas (map (\<lambda>v. compact J (redact_tree v)) vs) @ '']'')"
      by (rule redact_elements_commas) (use False 5 n in \<open>auto simp: list_all_iff\<close>)
    from redacts_to_emit [OF this, of "[''['']"] hd 5(3) show ?thesis
      by (auto simp: n redact_value_def redact_array_def Let_def)
  qed
next
  case (6 J m)
  obtain n2 where n: "n = Suc (Suc n2)" using 6(6) by (cases n; cases "n - 1") auto
  have mt: "(\<lambda>(k, v). encode_json_string J k @ CHR '':'' # compact J v) = member_text J (compact J)"
    by (simp add: member_text_def fun_eq_iff)
  show ?case
  proof (cases "m = []")
    case True
    with 6 show ?thesis
      by (simp add: n redact_value_def redact_object_def redacts_to_def Let_def)
  next
    case False
    have hd: "\<exists>cs. commas (map (member_text J (compact J)) m) @ CHR ''}'' # r = CHR 0x22 # cs"
    proof -
      obtain k v m' where m: "m = (k, v) # m'" using False by (cases m) auto
      with 6 have "string_token J cap k" by simp
      then show ?thesis by (rule string_tokenE) (auto simp: m member_text_def)
    qed
    have "redacts_to (redact n2 J cap RMembers d (commas (map (member_text J (compact J)) m) @ CHR ''}'' # r)) r
        (commas (map (redacted_member J) m) @ ''}'')"
    proof (rule redact_members_commas [OF False])
      show "3 * length (commas (map (member_text J (compact J)) m)) + 2 \<le> n2"
        using 6(6) by (simp add: n mt)
      show "string_token J cap k \<and> readable J cap v" if "(k, v) \<in> set m" for k v
        using that 6(2) by (auto simp: list_all_iff)
      show "marks_redacted J" by (rule 6(4))
      show "redacts_to (redact n' J cap (RValue False) (Suc d) (compact J v @ r')) r' (compact J (redact_tree v))"
        if "(k, v) \<in> set m" "\<not> is_sensitive_payload_key k" "ends_value r'" "3 * length (compact J v) + 1 \<le> n'"
        for k v n' r'
      proof -
        have "readable J cap v" "shallow (Suc d) v"
          using that(1,2) 6(2,3) by (auto simp: list_all_iff dest!: bspec)
        from 6(1) [OF that(1) refl this 6(4) that(3,4)] show ?thesis .
      qed
    qed
    from redacts_to_emit [OF this, of "[''{'']"] hd 6(3) show ?thesis
      by (auto simp: n redact_value_def redact_object_def Let_def mt)
  qed
qed

text \<open>
  C14: on the compact JSON text of a value, the streaming capture writes exactly the text of what the
  two recursive passes of the request logger make of the value (secrets replaced, then URIs), cut at
  the cap. The value must nest at most 64 levels deep outside its secrets, and its strings, keys
  included, must fit the scalar cap as they are written, since the capture puts a marker for what is
  deeper and cuts what is longer; the text must be valid UTF-8, and the JSON codec must write numbers and strings
  in a form the scanner reads back and the marker of a secret plainly quoted.
\<close>

theorem capture_equals_tree_redaction:
  assumes "readable J cap v" "shallow 0 v" "marks_redacted J"
    and "utf8_valid (map of_char (compact J v))"
  shows "capture_capped_redacted J (compact J v) body_cap cap = take body_cap (compact J (redact_tree v))"
proof -
  obtain c cs where c: "compact J v = c # cs" "\<not> is_json_ws c" using compact_hd [OF assms(1)] .
  then have ws: "skip_ws (compact J v) = compact J v" by simp
  have "redacts_to (redact (redact_fuel (compact J v)) J cap (RValue False) 0 (compact J v @ [])) []
      (compact J (redact_tree v))"
    by (rule redact_compact [OF assms(1-3)]) (simp_all add: redact_fuel_def)
  then obtain es where "redact (redact_fuel (compact J v)) J cap (RValue False) 0 (compact J v) = Parsed [] es"
    "concat es = compact J (redact_tree v)"
    by (auto simp: redacts_to_def)
  with assms(4) show ?thesis
    by (simp add: capture_capped_redacted_def ws writer_result Let_def) (simp add: skip_ws_def)
qed

text \<open>A codec that only quotes, enough for plain strings.\<close>

definition quoting_codec :: json_codec where
  "quoting_codec = \<lparr>to_json_string = (\<lambda>v. case v of JStr t \<Rightarrow> CHR 0x22 # t @ [CHR 0x22] | _ \<Rightarrow> ''0''),
     from_json_str = (\<lambda>s. Inl [])\<rparr>"

lemma quoting_token:
  assumes "\<And>r. scan_string_body (t @ CHR 0x22 # r) = Some (t, r)" "decode_json_string_inner t = t"
    "length t \<le> cap"
  shows "string_token quoting_codec cap t"
  using assms by (auto simp: string_token_def quoting_codec_def encode_json_string_def)

definition sample_body :: json where
  "sample_body = JObj [(''api_key'', JArr [JStr ''sk'']), (''u'', JStr ''https://a/b?sig=1'')]"

lemma sample_readable: "readable quoting_codec 64 sample_body"
  by (auto simp: sample_body_def intro!: quoting_token)
    (simp_all add: decode_json_string_inner.simps)

theorem capture_equals_tree_redaction_witness:
  "capture_capped_redacted quoting_codec (compact quoting_codec sample_body) 1000 64
   = compact quoting_codec (JObj [(''api_key'', JStr ''[redacted]''), (''u'', JStr ''<redacted uri>'')])"
proof -
  have "shallow 0 sample_body" "marks_redacted quoting_codec"
    "utf8_valid (map of_char (compact quoting_codec sample_body))"
    by code_simp+
  note eq = capture_equals_tree_redaction [OF sample_readable this, of 1000]
  have "take 1000 (compact quoting_codec (redact_tree sample_body))
      = compact quoting_codec (JObj [(''api_key'', JStr ''[redacted]''), (''u'', JStr ''<redacted uri>'')])"
    by code_simp
  with eq show ?thesis by simp
qed

text \<open>
  An object key is written as it is: a URI in a key survives the capture, unlike one in a value.
\<close>

theorem uri_in_key_survives:
  "capture_capped_redacted quoting_codec (compact quoting_codec (JObj [(''https://a?sig=1'', JNull)])) 1000 64
   = CHR ''{'' # CHR 0x22 # ''https://a?sig=1'' @ CHR 0x22 # '':null}''"
  by code_simp

end
