(* ===== verification/Serving.thy ===== *)
theory Serving
  imports App_Error Capture
begin

text \<open>
  What a flow records about the upstream attempts it made: the attempt types of
  \<^verbatim>\<open>src/src/dashboard_flow.rs\<close>, the serving token of \<^verbatim>\<open>src/src/upstream.rs\<close> the layers below the engine
  share, and the bounded classification of an attempt's error.  The token's lock makes every
  operation one step.  Millisecond timestamps are natural numbers.
\<close>

subsection \<open>Attempts\<close>

datatype flow_status = FlowOpen | FlowCompleted | FlowFailed | FlowCancelled

datatype attempt_status = Served | AttemptFailed

datatype attempt_error_class = ClsConnect | ClsHttpStatus | ClsTimeout | ClsStream | ClsTerminal | ClsOther

datatype attempt_failover_reason = ProviderFailed | RequestRejected | TerminalNoFailover

record attempt =
  at_provider :: "string option"
  at_model :: "string option"
  at_start_ms :: nat
  at_end_ms :: nat
  at_first_upstream_byte_ms :: "nat option"
  at_status :: attempt_status
  at_error_class :: "attempt_error_class option"
  at_failover_reason :: "attempt_failover_reason option"

definition scalar_cap :: nat where
  "scalar_cap = 4 * 1024"

definition cap_scalar :: "string \<Rightarrow> string" where
  "cap_scalar s = cap_str_on_char_boundary s scalar_cap"

definition attempt_capped :: "attempt \<Rightarrow> attempt" where
  "attempt_capped a = a\<lparr>at_provider := map_option cap_scalar (at_provider a),
     at_model := map_option cap_scalar (at_model a)\<rparr>"

definition attempt_summary_bytes :: "attempt \<Rightarrow> nat" where
  "attempt_summary_bytes a =
     (case at_provider a of Some s \<Rightarrow> length s | None \<Rightarrow> 0)
     + (case at_model a of Some s \<Rightarrow> length s | None \<Rightarrow> 0)"

text \<open>Token usage, with the classes the upstream may leave out.\<close>

record flow_usage =
  fu_prompt :: int
  fu_completion :: int
  fu_total :: int
  fu_cached :: "int option"
  fu_reasoning :: "int option"

record captured_response_body =
  crb_body :: string
  crb_truncated :: bool

definition body_cap :: nat where
  "body_cap = 128 * 1024"

definition capture_response_body :: "json_codec \<Rightarrow> string \<Rightarrow> captured_response_body" where
  "capture_response_body J raw =
     \<lparr>crb_body = capture_capped_redacted J raw body_cap scalar_cap, crb_truncated = body_cap < length raw\<rparr>"

subsection \<open>The class of an error\<close>

text \<open>The fixed messages and prefixes the gateway's own errors start with.\<close>

definition connect_prefixes :: "string list" where
  "connect_prefixes = [''upstream chat request failed:'', ''upstream models request failed:'',
     ''upstream completions request failed:'']"

definition stream_prefixes :: "string list" where
  "stream_prefixes = [''failed to parse upstream chat chunk:'', ''failed to read upstream SSE:'',
     ''upstream chat stream error:'']"

definition classify_attempt_error :: "app_error \<Rightarrow> attempt_error_class" where
  "classify_attempt_error e =
     (let message = err_message e in
      if list_ex (\<lambda>p. prefix p message) connect_prefixes then ClsConnect
      else if message = ''upstream stream timed out'' then ClsTimeout
      else if message = ''upstream stream ended before the first chunk'' then ClsStream
      else if prefix ''upstream chat failed with '' message then ClsHttpStatus
      else if list_ex (\<lambda>p. prefix p message) stream_prefixes then ClsStream
      else if err_failover e = Terminal then ClsTerminal
      else ClsOther)"

definition failover_reason_of :: "app_error \<Rightarrow> attempt_failover_reason" where
  "failover_reason_of e =
     (case err_failover e of
        Terminal \<Rightarrow> TerminalNoFailover
      | FailoverNoCooldown \<Rightarrow> RequestRejected
      | Failover \<Rightarrow> ProviderFailed)"

subsection \<open>The serving token\<close>

record serving_info =
  sv_route :: "string option"
  sv_provider :: "string option"
  sv_model_served :: "string option"
  sv_model_finalized :: bool
  sv_usage :: "flow_usage option"
  sv_attempts :: "attempt list"
  sv_first_upstream_byte_ms :: "nat option"
  sv_attempt_header_byte_ms :: "nat option"
  sv_pending_response_body :: "captured_response_body option"

definition serving_default :: serving_info where
  "serving_default = \<lparr>sv_route = None, sv_provider = None, sv_model_served = None,
     sv_model_finalized = False, sv_usage = None, sv_attempts = [],
     sv_first_upstream_byte_ms = None, sv_attempt_header_byte_ms = None,
     sv_pending_response_body = None\<rparr>"

definition set_route :: "string \<Rightarrow> serving_info \<Rightarrow> serving_info" where
  "set_route route t = (if sv_route t = None then t\<lparr>sv_route := Some route\<rparr> else t)"

definition set_provider :: "string \<Rightarrow> serving_info \<Rightarrow> serving_info" where
  "set_provider p t = (if sv_provider t = None then t\<lparr>sv_provider := Some p\<rparr> else t)"

definition set_model_served :: "string \<Rightarrow> serving_info \<Rightarrow> serving_info" where
  "set_model_served model t =
     (if \<not> sv_model_finalized t \<and> sv_model_served t = None
      then t\<lparr>sv_model_served := Some model\<rparr> else t)"

definition set_model_served_final :: "string \<Rightarrow> serving_info \<Rightarrow> serving_info" where
  "set_model_served_final model t = t\<lparr>sv_model_served := Some model, sv_model_finalized := True\<rparr>"

definition set_usage :: "flow_usage \<Rightarrow> serving_info \<Rightarrow> serving_info" where
  "set_usage u t = t\<lparr>sv_usage := Some u\<rparr>"

definition record_attempt :: "attempt \<Rightarrow> serving_info \<Rightarrow> serving_info" where
  "record_attempt attempt t =
     (let a = attempt_capped attempt;
          t1 = (if at_status a = Served \<and> sv_first_upstream_byte_ms t = None
                then (case at_first_upstream_byte_ms a of
                        Some ms \<Rightarrow> t\<lparr>sv_first_upstream_byte_ms := Some ms\<rparr> | None \<Rightarrow> t)
                else t)
      in t1\<lparr>sv_attempts := sv_attempts t1 @ [a]\<rparr>)"

definition attempts_snapshot :: "serving_info \<Rightarrow> attempt list \<times> nat option" where
  "attempts_snapshot t = (sv_attempts t, sv_first_upstream_byte_ms t)"

definition arm_attempt_header_byte :: "serving_info \<Rightarrow> serving_info" where
  "arm_attempt_header_byte t = t\<lparr>sv_attempt_header_byte_ms := None\<rparr>"

definition stamp_attempt_header_byte :: "nat \<Rightarrow> serving_info \<Rightarrow> serving_info" where
  "stamp_attempt_header_byte ms t =
     (if sv_attempt_header_byte_ms t = None then t\<lparr>sv_attempt_header_byte_ms := Some ms\<rparr> else t)"

definition take_attempt_header_byte :: "serving_info \<Rightarrow> nat option" where
  "take_attempt_header_byte t = sv_attempt_header_byte_ms t"

definition set_pending_response_body :: "captured_response_body \<Rightarrow> serving_info \<Rightarrow> serving_info" where
  "set_pending_response_body body t = t\<lparr>sv_pending_response_body := Some body\<rparr>"

definition clear_pending_response_body :: "serving_info \<Rightarrow> serving_info" where
  "clear_pending_response_body t = t\<lparr>sv_pending_response_body := None\<rparr>"

definition take_pending_response_body ::
  "serving_info \<Rightarrow> captured_response_body option \<times> serving_info" where
  "take_pending_response_body t =
     (sv_pending_response_body t, t\<lparr>sv_pending_response_body := None\<rparr>)"

definition serving_snapshot :: "serving_info \<Rightarrow> string option \<times> string option" where
  "serving_snapshot t = (sv_route t, sv_provider t)"

definition metrics_snapshot :: "serving_info \<Rightarrow> string option \<times> flow_usage option" where
  "metrics_snapshot t = (sv_model_served t, sv_usage t)"

lemmas serving_defs = set_route_def set_provider_def set_model_served_def
  set_model_served_final_def set_usage_def record_attempt_def arm_attempt_header_byte_def
  stamp_attempt_header_byte_def take_attempt_header_byte_def set_pending_response_body_def
  clear_pending_response_body_def

lemma record_attempt_fields [simp]:
  "sv_attempts (record_attempt a t) = sv_attempts t @ [attempt_capped a]"
  "sv_pending_response_body (record_attempt a t) = sv_pending_response_body t"
  "sv_provider (record_attempt a t) = sv_provider t"
  "sv_route (record_attempt a t) = sv_route t"
  "sv_attempt_header_byte_ms (record_attempt a t) = sv_attempt_header_byte_ms t"
  by (simp_all add: record_attempt_def Let_def split: option.split)

lemma attempt_capped_fields [simp]:
  "at_status (attempt_capped a) = at_status a"
  "at_error_class (attempt_capped a) = at_error_class a"
  "at_failover_reason (attempt_capped a) = at_failover_reason a"
  "at_first_upstream_byte_ms (attempt_capped a) = at_first_upstream_byte_ms a"
  by (simp_all add: attempt_capped_def)

lemma attempt_capped_bytes: "attempt_summary_bytes (attempt_capped a) \<le> 2 * scalar_cap"
proof -
  have "(case map_option cap_scalar x of Some s \<Rightarrow> length s | None \<Rightarrow> 0) \<le> scalar_cap" for x
    using cap_str_length [of _ scalar_cap] by (auto simp: cap_scalar_def split: option.split)
  from add_mono [OF this [of "at_provider a"] this [of "at_model a"]] show ?thesis
    by (simp add: attempt_summary_bytes_def attempt_capped_def)
qed

subsection \<open>The text of a response never changes the class\<close>

text \<open>
  The errors a chat attempt can end with: a transport failure, a rejected status with the response
  body, a stream item, and the timeout and end markers.
\<close>

definition http_status_error :: "string \<Rightarrow> string \<Rightarrow> failover_disposition \<Rightarrow> app_error" where
  "http_status_error status body d = upstream_with_disposition
     (''upstream chat failed with '' @ status @ '': '' @ redact_and_truncate_error_body body 500) d"

text \<open>
  The class of an HTTP failure is \<^verbatim>\<open>HttpStatus\<close> whatever the status line, the response body and
  the disposition are: no text of the upstream can make it look like a connection failure, a
  timeout or a stream failure; and a transport error is always \<^verbatim>\<open>Connect\<close>.
\<close>

theorem error_class_ignores_body:
  "classify_attempt_error (http_status_error status body d) = ClsHttpStatus
   \<and> classify_attempt_error (upstream_error (''upstream chat request failed: '' @ reason)) = ClsConnect"
  by (simp add: classify_attempt_error_def http_status_error_def app_error_defs
      connect_prefixes_def stream_prefixes_def Let_def)

end
