(* ===== verification/Upstream_Leaf.thy ===== *)
theory Upstream_Leaf
  imports Serving Backend_Request Sse_Guard
begin

text \<open>
  The leaf that talks to one upstream (\<^verbatim>\<open>ReqwestUpstreamClient\<close> of \<^verbatim>\<open>src/src/upstream.rs\<close>): the
  classification of a context-window overflow, the one shrink-and-retry, the dispatch of a chat
  request and what it records, the parsing of a streamed chunk, and token counting.  The network is
  a parameter: what each POST of a dispatch is answered, and the clock when headers arrive.  The
  regular expressions, the event-stream parser and the derived serde code are parameters too.
  Request logging and the durable turn capture are left out.
\<close>

subsection \<open>Context overflow\<close>

definition i64_max :: int where
  "i64_max = 2 ^ 63 - 1"

definition context_retry_margin :: int where
  "context_retry_margin = 100"

definition context_lower_bound_retry_margin :: int where
  "context_lower_bound_retry_margin = 1024"

record context_overflow_retry =
  cor_max_completion_tokens :: int
  cor_ctx_limit :: int
  cor_input_tokens :: "int option"
  cor_reason :: string
  cor_input_tokens_is_lower_bound :: bool

definition context_retry_completion_budget :: "int \<Rightarrow> int option \<Rightarrow> int \<Rightarrow> bool \<Rightarrow> int" where
  "context_retry_completion_budget ctx_limit input_tokens min_completion_tokens is_lower_bound =
     (let margin = (if is_lower_bound then context_lower_bound_retry_margin else context_retry_margin);
          available = wrap_i64 (wrap_i64 (ctx_limit - margin)
            - (case input_tokens of Some n \<Rightarrow> n | None \<Rightarrow> 0))
      in max available min_completion_tokens)"

text \<open>The capture groups of the four overflow patterns the code reads.\<close>

record overflow_patterns =
  op_completion_limit :: "string \<Rightarrow> string option"
  op_vllm_combined :: "string \<Rightarrow> (string \<times> bool \<times> string) option"
  op_openai_compatible :: "string \<Rightarrow> (string \<times> string) option"
  op_requested_total :: "string \<Rightarrow> (string \<times> string) option"

text \<open>Digits only; a number that does not fit is zero.\<close>

definition digits_value :: "string \<Rightarrow> nat" where
  "digits_value s = foldl (\<lambda>v c. v * 10 + (of_char c - 48)) 0 s"

definition parse_token_count :: "string \<Rightarrow> int" where
  "parse_token_count grp =
     (let digits = filter is_digit grp in
      if digits = [] \<or> i64_max < int (digits_value digits) then 0 else int (digits_value digits))"

definition classify_context_overflow ::
  "overflow_patterns \<Rightarrow> string \<Rightarrow> int \<Rightarrow> int option \<Rightarrow> context_overflow_retry option" where
  "classify_context_overflow P body min_completion_tokens estimated =
     (case op_completion_limit P body of
        Some limit \<Rightarrow>
          (let ctx_limit = parse_token_count limit in
           Some \<lparr>cor_max_completion_tokens =
                   context_retry_completion_budget ctx_limit estimated min_completion_tokens False,
                 cor_ctx_limit = ctx_limit, cor_input_tokens = estimated,
                 cor_reason = ''completion_limit'', cor_input_tokens_is_lower_bound = False\<rparr>)
      | None \<Rightarrow>
     (case op_vllm_combined P body of
        Some (limit, lower_bound, input) \<Rightarrow>
          (let ctx_limit = parse_token_count limit; input_tokens = parse_token_count input in
           Some \<lparr>cor_max_completion_tokens =
                   context_retry_completion_budget ctx_limit (Some input_tokens)
                     min_completion_tokens lower_bound,
                 cor_ctx_limit = ctx_limit, cor_input_tokens = Some input_tokens,
                 cor_reason = ''context_limit'', cor_input_tokens_is_lower_bound = lower_bound\<rparr>)
      | None \<Rightarrow>
     (case (case op_openai_compatible P body of
              Some groups \<Rightarrow> Some groups | None \<Rightarrow> op_requested_total P body) of
        Some (limit, input) \<Rightarrow>
          (let ctx_limit = parse_token_count limit; input_tokens = parse_token_count input in
           Some \<lparr>cor_max_completion_tokens =
                   context_retry_completion_budget ctx_limit (Some input_tokens)
                     min_completion_tokens False,
                 cor_ctx_limit = ctx_limit, cor_input_tokens = Some input_tokens,
                 cor_reason = ''context_limit'', cor_input_tokens_is_lower_bound = False\<rparr>)
      | None \<Rightarrow> None)))"

subsection \<open>Statuses\<close>

definition status_is_success :: "nat \<Rightarrow> bool" where
  "status_is_success status = (200 \<le> status \<and> status < 300)"

definition status_is_failover_eligible :: "nat \<Rightarrow> bool" where
  "status_is_failover_eligible status =
     ((500 \<le> status \<and> status < 600) \<or> status = 408 \<or> status = 429)"

definition status_is_request_intrinsic_4xx :: "nat \<Rightarrow> bool" where
  "status_is_request_intrinsic_4xx status = (status \<in> {400, 413, 415, 422})"

subsection \<open>Streamed chunks\<close>

text \<open>
  The derived serde code: a chunk read from a text or from a value, the length of the serialized
  request, and the values of its messages and tools.
\<close>

record chat_serde =
  cs_chunk_from_str :: "string \<Rightarrow> string + chat_completion_chunk"
  cs_chunk_from_value :: "json \<Rightarrow> string + chat_completion_chunk"
  cs_request_len :: "chat_completion_request \<Rightarrow> nat"
  cs_messages :: "chat_message list \<Rightarrow> json"
  cs_tools :: "chat_tool list \<Rightarrow> json"

definition normalize_tool_call :: "json \<Rightarrow> json \<times> bool" where
  "normalize_tool_call v =
     (case v of
        JObj m \<Rightarrow> if obj_get m ''type'' = None
          then (JObj (obj_insert ''type'' (JStr ''function'') m), True) else (v, False)
      | _ \<Rightarrow> (v, False))"

text \<open>\<^verbatim>\<open>get_mut\<close> of an object entry, rewritten in place.\<close>

definition update_key :: "string \<Rightarrow> (json \<Rightarrow> json \<times> bool) \<Rightarrow> json \<Rightarrow> json \<times> bool" where
  "update_key k f v =
     (case v of
        JObj m \<Rightarrow> (case obj_get m k of
            Some x \<Rightarrow> (let (x', changed) = f x in (JObj (obj_insert k x' m), changed))
          | None \<Rightarrow> (v, False))
      | _ \<Rightarrow> (v, False))"

definition update_items :: "(json \<Rightarrow> json \<times> bool) \<Rightarrow> json \<Rightarrow> json \<times> bool" where
  "update_items f v =
     (case v of
        JArr xs \<Rightarrow> (JArr (map (fst \<circ> f) xs), list_ex (snd \<circ> f) xs)
      | _ \<Rightarrow> (v, False))"

definition normalize_choice :: "json \<Rightarrow> json \<times> bool" where
  "normalize_choice = update_key ''delta'' (update_key ''tool_calls'' (update_items normalize_tool_call))"

definition normalize_sparse_tool_call_types :: "json \<Rightarrow> json \<times> bool" where
  "normalize_sparse_tool_call_types = update_key ''choices'' (update_items normalize_choice)"

definition parse_chat_completion_chunk ::
  "json_codec \<Rightarrow> chat_serde \<Rightarrow> string \<Rightarrow> string + chat_completion_chunk" where
  "parse_chat_completion_chunk J S data =
     (case cs_chunk_from_str S data of
        Inr chunk \<Rightarrow> Inr chunk
      | Inl first_error \<Rightarrow>
          (case from_json_str J data of
             Inl _ \<Rightarrow> Inl first_error
           | Inr v \<Rightarrow>
               (let (v', changed) = normalize_sparse_tool_call_types v in
                if \<not> changed then Inl first_error else cs_chunk_from_value S v')))"

definition parse_chat_sse_data ::
  "json_codec \<Rightarrow> chat_serde \<Rightarrow> string \<Rightarrow> app_error + chat_completion_chunk" where
  "parse_chat_sse_data J S data =
     (case parse_chat_completion_chunk J S data of
        Inr chunk \<Rightarrow> Inr chunk
      | Inl err \<Rightarrow>
          (let parse_failure = upstream_error (''failed to parse upstream chat chunk: '' @ err @
                 ''; payload='' @ redact_and_truncate_error_body data 500)
           in case from_json_str J data of
             Inl _ \<Rightarrow> Inl parse_failure
           | Inr v \<Rightarrow>
               (case json_get v ''error'' of
                  None \<Rightarrow> Inl parse_failure
                | Some error \<Rightarrow>
                    if is_null error then Inl parse_failure
                    else Inl (upstream_with_disposition
                      (''upstream chat stream error: '' @ redact_and_truncate_error_body
                         (to_json_string J (redact_payload_secrets_in_value v)) 500)
                      (if json_get_str error ''type'' = Some ''invalid_request_error''
                       then FailoverNoCooldown else Failover)))))"

text \<open>
  The event-stream parser turns the bounded bytes into the data of events and read errors.  The
  adapter never panics (\<open>None\<close>), as the guard's theory proves.
\<close>

type_synonym event_parser = "(string + u8 list) list \<Rightarrow> (string + string) list"
type_synonym chunk_item = "app_error + chat_completion_chunk"

definition chunk_of_event ::
  "json_codec \<Rightarrow> chat_serde \<Rightarrow> string + string \<Rightarrow> chunk_item option" where
  "chunk_of_event J S result =
     (case result of
        Inr data \<Rightarrow> if data = ''[DONE]'' then None else Some (parse_chat_sse_data J S data)
      | Inl err \<Rightarrow> Some (Inl (upstream_error (''failed to read upstream SSE: '' @ err))))"

definition stream_success_response ::
  "json_codec \<Rightarrow> chat_serde \<Rightarrow> event_parser \<Rightarrow> nat \<Rightarrow> (string + u8 list) list \<Rightarrow> chunk_item list" where
  "stream_success_response J S eventsource max_sse_frame_bytes byte_stream =
     (case bounded_sse_byte_stream max_sse_frame_bytes byte_stream of
        None \<Rightarrow> []
      | Some bounded \<Rightarrow> List.map_filter (chunk_of_event J S) (eventsource bounded))"

subsection \<open>Dispatch\<close>

record http_reply =
  hr_status :: nat
  hr_status_line :: string
  hr_body :: string
  hr_bytes :: "(string + u8 list) list"

text \<open>The n-th POST of a dispatch, and the clock when its headers arrive.\<close>

record wire =
  w_post :: "nat \<Rightarrow> chat_completion_request \<Rightarrow> string + http_reply"
  w_header_ms :: nat

record leaf_env =
  le_codec :: json_codec
  le_serde :: chat_serde
  le_eventsource :: event_parser
  le_patterns :: overflow_patterns

record leaf_client =
  lc_flatten_content :: bool
  lc_min_completion_tokens :: int
  lc_max_sse_frame_bytes :: nat
  lc_policies :: finalization_policies
  lc_capture_responses :: bool
  lc_tag_primary_provider :: bool

definition send_chat_request ::
  "wire \<Rightarrow> nat \<Rightarrow> chat_completion_request \<Rightarrow> app_error + http_reply" where
  "send_chat_request W n r =
     (case w_post W n r of
        Inl err \<Rightarrow> Inl (upstream_error (''upstream chat request failed: '' @ err))
      | Inr reply \<Rightarrow> Inr reply)"

definition estimate_leaf_input_tokens :: "chat_serde \<Rightarrow> chat_completion_request \<Rightarrow> int" where
  "estimate_leaf_input_tokens S r = wrap_i64 (int ((cs_request_len S r + 3) div 4))"

definition capture_upstream_response_body ::
  "leaf_env \<Rightarrow> leaf_client \<Rightarrow> string \<Rightarrow> serving_info option \<Rightarrow> serving_info option" where
  "capture_upstream_response_body E C body serving =
     (if lc_capture_responses C
      then map_option (set_pending_response_body (capture_response_body (le_codec E) body)) serving
      else serving)"

definition retried_request :: "context_overflow_retry \<Rightarrow> chat_completion_request \<Rightarrow> chat_completion_request" where
  "retried_request retry r = r\<lparr>ccr_max_output_tokens := Some (cor_max_completion_tokens retry),
     ccr_extra_body := remove_max_token_aliases (ccr_extra_body r)\<rparr>"

definition overflow_of ::
  "leaf_env \<Rightarrow> leaf_client \<Rightarrow> string \<Rightarrow> chat_completion_request \<Rightarrow> context_overflow_retry option" where
  "overflow_of E C body r = classify_context_overflow (le_patterns E) body
     (lc_min_completion_tokens C) (Some (estimate_leaf_input_tokens (le_serde E) r))"

definition chat_status_error :: "http_reply \<Rightarrow> app_error" where
  "chat_status_error reply = upstream_with_disposition
     (''upstream chat failed with '' @ hr_status_line reply @ '': '' @
        redact_and_truncate_error_body (hr_body reply) 500)
     (if status_is_request_intrinsic_4xx (hr_status reply) then FailoverNoCooldown else Failover)"

definition overflow_persisted_error :: "http_reply \<Rightarrow> app_error" where
  "overflow_persisted_error reply = upstream_with_disposition
     (''upstream context-window overflow persisted after shrink-and-retry; failed with '' @
        hr_status_line reply @ '': '' @ redact_and_truncate_error_body (hr_body reply) 500)
     Terminal"

definition reply_stream :: "leaf_env \<Rightarrow> leaf_client \<Rightarrow> http_reply \<Rightarrow> chunk_item list" where
  "reply_stream E C reply = stream_success_response (le_codec E) (le_serde E) (le_eventsource E)
     (lc_max_sse_frame_bytes C) (hr_bytes reply)"

text \<open>The result, the token afterwards, and the requests that were posted.\<close>

type_synonym dispatch_result =
  "(app_error + chunk_item list) \<times> serving_info option \<times> chat_completion_request list"

definition dispatch_retry ::
  "leaf_env \<Rightarrow> leaf_client \<Rightarrow> wire \<Rightarrow> chat_completion_request \<Rightarrow> serving_info option
     \<Rightarrow> (app_error + chunk_item list) \<times> serving_info option" where
  "dispatch_retry E C W retried serving =
     (case send_chat_request W 1 retried of
        Inl err \<Rightarrow> (Inl err, serving)
      | Inr reply \<Rightarrow>
          if status_is_success (hr_status reply) then (Inr (reply_stream E C reply), serving)
          else (let serving' = capture_upstream_response_body E C (hr_body reply) serving in
            if overflow_of E C (hr_body reply) retried \<noteq> None
            then (Inl (overflow_persisted_error reply), serving')
            else (Inl (chat_status_error reply), serving')))"

definition dispatch_chat_stream ::
  "leaf_env \<Rightarrow> leaf_client \<Rightarrow> wire \<Rightarrow> chat_completion_request \<Rightarrow> serving_info option \<Rightarrow> dispatch_result" where
  "dispatch_chat_stream E C W r serving =
     (case send_chat_request W 0 r of
        Inl err \<Rightarrow> (Inl err, serving, [r])
      | Inr reply \<Rightarrow>
          (let serving1 = map_option (stamp_attempt_header_byte (w_header_ms W)) serving in
           if status_is_success (hr_status reply) then (Inr (reply_stream E C reply), serving1, [r])
           else (case overflow_of E C (hr_body reply) r of
             Some retry \<Rightarrow>
               (let retried = retried_request retry r;
                    (result, serving2) = dispatch_retry E C W retried serving1
                in (result, serving2, [r, retried]))
           | None \<Rightarrow> (Inl (chat_status_error reply),
                      capture_upstream_response_body E C (hr_body reply) serving1, [r]))))"

subsection \<open>The bare leaf\<close>

definition failed_bare_attempt :: "nat \<Rightarrow> nat \<Rightarrow> string \<Rightarrow> nat option \<Rightarrow> app_error \<Rightarrow> attempt" where
  "failed_bare_attempt start_ms end_ms model header_byte_ms err =
     \<lparr>at_provider = Some ''primary'', at_model = Some model, at_start_ms = start_ms, at_end_ms = end_ms,
      at_first_upstream_byte_ms = header_byte_ms, at_status = AttemptFailed,
      at_error_class = Some (classify_attempt_error err),
      at_failover_reason = Some (failover_reason_of err)\<rparr>"

text \<open>What is recorded once the stream has been read up to its first item, or its end.\<close>

definition first_byte_attempt :: "nat \<Rightarrow> nat \<Rightarrow> string \<Rightarrow> nat option \<Rightarrow> chunk_item list \<Rightarrow> attempt" where
  "first_byte_attempt start_ms end_ms model header_byte_ms stream =
     (case stream of
        Inr _ # _ \<Rightarrow>
          \<lparr>at_provider = Some ''primary'', at_model = Some model, at_start_ms = start_ms,
           at_end_ms = end_ms, at_first_upstream_byte_ms = header_byte_ms, at_status = Served,
           at_error_class = None, at_failover_reason = None\<rparr>
      | Inl err # _ \<Rightarrow> failed_bare_attempt start_ms end_ms model header_byte_ms err
      | [] \<Rightarrow>
          \<lparr>at_provider = Some ''primary'', at_model = Some model, at_start_ms = start_ms,
           at_end_ms = end_ms, at_first_upstream_byte_ms = header_byte_ms, at_status = AttemptFailed,
           at_error_class = Some ClsStream, at_failover_reason = None\<rparr>)"

definition record_served_attempt_on_first_byte ::
  "serving_info option \<Rightarrow> chunk_item list \<Rightarrow> nat \<Rightarrow> nat \<Rightarrow> string \<Rightarrow> nat option \<Rightarrow> serving_info option" where
  "record_served_attempt_on_first_byte serving stream start_ms end_ms model header_byte_ms =
     map_option (record_attempt (first_byte_attempt start_ms end_ms model header_byte_ms stream)) serving"

text \<open>
  \<^verbatim>\<open>stream_chat_completion\<close> of the leaf: finalize, sanitize, tag, dispatch.  On the bare path the
  attempt is recorded by the stream it returns; \<open>start_ms\<close> and \<open>end_ms\<close> are the clock readings.
\<close>

definition leaf_request :: "leaf_env \<Rightarrow> leaf_client \<Rightarrow> backend_request \<Rightarrow> chat_completion_request" where
  "leaf_request E C b = sanitize_chat_request (le_codec E) (lc_flatten_content C)
     (bk_request (finalize_request_for_backend (lc_policies C) b))"

definition leaf_stream_chat_completion ::
  "leaf_env \<Rightarrow> leaf_client \<Rightarrow> wire \<Rightarrow> nat \<Rightarrow> nat \<Rightarrow> backend_request \<Rightarrow> serving_info option \<Rightarrow> dispatch_result" where
  "leaf_stream_chat_completion E C W start_ms end_ms b serving =
     (let request = leaf_request E C b;
          model = ccr_model request;
          serving1 = (if lc_tag_primary_provider C then map_option (set_provider ''primary'') serving
                      else serving);
          serving2 = map_option (set_model_served_final model) serving1
      in if lc_tag_primary_provider C then
           (let serving3 = map_option (clear_pending_response_body \<circ> arm_attempt_header_byte) serving2;
                (result, serving4, sent) = dispatch_chat_stream E C W request serving3;
                header_byte_ms = Option.bind serving4 take_attempt_header_byte
            in case result of
                 Inr stream \<Rightarrow> (Inr stream,
                   record_served_attempt_on_first_byte serving4 stream start_ms end_ms model header_byte_ms, sent)
               | Inl err \<Rightarrow> (Inl err,
                   map_option (record_attempt (failed_bare_attempt start_ms end_ms model header_byte_ms err)) serving4,
                   sent))
         else dispatch_chat_stream E C W request serving2)"

subsection \<open>Token counting\<close>

definition tokenize_body :: "leaf_env \<Rightarrow> leaf_client \<Rightarrow> backend_request \<Rightarrow> json_map" where
  "tokenize_body E C b =
     (let r = leaf_request E C b;
          body = obj_insert ''messages'' (cs_messages (le_serde E) (ccr_messages r))
                   (obj_insert ''model'' (JStr (ccr_model r)) []);
          body1 = (case ccr_tools r of
                     Some tools \<Rightarrow> obj_insert ''tools'' (cs_tools (le_serde E) tools) body
                   | None \<Rightarrow> body)
      in case obj_get (ccr_extra_body r) ''chat_template_kwargs'' of
           Some kwargs \<Rightarrow> obj_insert ''chat_template_kwargs'' kwargs body1
         | None \<Rightarrow> body1)"

text \<open>The answer of \<^verbatim>\<open>/tokenize\<close>: nothing on a transport error, else a status and, if it parses, a value.\<close>

definition count_tokens_from_reply :: "(nat \<times> json option) option \<Rightarrow> nat option" where
  "count_tokens_from_reply reply =
     (case reply of
        Some (status, Some v) \<Rightarrow>
          if status_is_success status then Option.bind (json_get v ''count'') as_u64 else None
      | _ \<Rightarrow> None)"

definition leaf_count_tokens ::
  "leaf_env \<Rightarrow> leaf_client \<Rightarrow> (json \<Rightarrow> (nat \<times> json option) option) \<Rightarrow> backend_request \<Rightarrow> nat option" where
  "leaf_count_tokens E C tokenize b = count_tokens_from_reply (tokenize (JObj (tokenize_body E C b)))"

text \<open>\<^verbatim>\<open>/tokenize\<close> lives at the server root: the path segments of the base URL without a last \<^verbatim>\<open>v1\<close>.\<close>

definition tokenize_path :: "string list \<Rightarrow> string" where
  "tokenize_path base_segments =
     (let segments = filter (\<lambda>s. s \<noteq> []) base_segments;
          root = (if segments \<noteq> [] \<and> last segments = ''v1'' then butlast segments else segments)
      in ''/'' @ join ''/'' (root @ [''tokenize'']))"

end
