(* ===== verification/Failover.thy ===== *)
theory Failover
  imports Upstream_Leaf
begin

text \<open>
  The failover client of \<^verbatim>\<open>src/src/upstream.rs\<close>: the cooldown state and the counters of each
  provider, the health snapshot, and the loop that tries the available providers in order.
  Instants of the monotonic clock are nanoseconds; the clock readings and the network of an attempt
  are parameters.  Every state change happens under one lock and is one step, so that flows
  interleave between steps.
\<close>

subsection \<open>State\<close>

record provider_cooldown_state =
  pc_cooling_until :: "nat option"
  pc_last_error :: "string option"

record provider_metrics =
  pm_served_count :: "64 word"
  pm_failover_count :: "64 word"
  pm_consecutive_failures :: "32 word"

record failover_provider =
  pr_name :: string
  pr_base_url :: string
  pr_client :: leaf_client
  pr_upstream_model :: "string option"
  pr_exposed_model :: "string option"
  pr_upstream_chat_kwargs :: json_map

text \<open>The counters of the i-th provider are the i-th element of \<open>fo_metrics\<close>.\<close>

record failover_client =
  fo_providers :: "failover_provider list"
  fo_cooldown :: nat
  fo_states :: "provider_cooldown_state list"
  fo_metrics :: "provider_metrics list"

definition cooldown_default :: provider_cooldown_state where
  "cooldown_default = \<lparr>pc_cooling_until = None, pc_last_error = None\<rparr>"

definition provider_metrics_new :: provider_metrics where
  "provider_metrics_new =
     \<lparr>pm_served_count = 0, pm_failover_count = 0, pm_consecutive_failures = 0\<rparr>"

definition record_success :: "provider_metrics \<Rightarrow> provider_metrics" where
  "record_success m = m\<lparr>pm_served_count := pm_served_count m + 1, pm_consecutive_failures := 0\<rparr>"

definition record_failure :: "provider_metrics \<Rightarrow> provider_metrics" where
  "record_failure m = m\<lparr>pm_failover_count := pm_failover_count m + 1,
     pm_consecutive_failures := pm_consecutive_failures m + 1\<rparr>"

definition failover_new :: "failover_provider list \<Rightarrow> nat \<Rightarrow> failover_client" where
  "failover_new providers cooldown =
     \<lparr>fo_providers = providers, fo_cooldown = cooldown,
      fo_states = replicate (length providers) cooldown_default,
      fo_metrics = replicate (length providers) provider_metrics_new\<rparr>"

definition update_at :: "nat \<Rightarrow> ('a \<Rightarrow> 'a) \<Rightarrow> 'a list \<Rightarrow> 'a list" where
  "update_at i f xs = (case slice_get xs i of Some x \<Rightarrow> xs[i := f x] | None \<Rightarrow> xs)"

definition provider_upstream_model :: "nat \<Rightarrow> failover_client \<Rightarrow> string option" where
  "provider_upstream_model i c =
     Option.bind (slice_get (fo_providers c) i) pr_upstream_model"

subsection \<open>Availability\<close>

definition cooling_until :: "nat \<Rightarrow> failover_client \<Rightarrow> nat option" where
  "cooling_until i c = Option.bind (slice_get (fo_states c) i) pc_cooling_until"

definition available_provider_indices :: "nat \<Rightarrow> failover_client \<Rightarrow> nat list" where
  "available_provider_indices now c = filter
     (\<lambda>i. \<not> (case cooling_until i c of Some until \<Rightarrow> now < until | None \<Rightarrow> False))
     [0..<length (fo_providers c)]"

definition provider_is_available :: "nat \<Rightarrow> nat \<Rightarrow> failover_client \<Rightarrow> bool" where
  "provider_is_available now i c =
     (case cooling_until i c of Some until \<Rightarrow> until \<le> now | None \<Rightarrow> True)"

definition as_secs :: "nat \<Rightarrow> nat" where
  "as_secs ns = ns div 1000000000"

definition least_or_0 :: "nat list \<Rightarrow> nat" where
  "least_or_0 xs = (case xs of [] \<Rightarrow> 0 | x # ys \<Rightarrow> foldl min x ys)"

definition cooldown_error :: "nat \<Rightarrow> failover_client \<Rightarrow> app_error" where
  "cooldown_error now c =
     (let next_retry_secs = least_or_0 (map (\<lambda>until. max 1 (as_secs (until - now)))
            (filter (\<lambda>until. now < until) (List.map_filter pc_cooling_until (fo_states c))));
          last_error = (case List.map_filter pc_last_error (rev (fo_states c)) of
            e # _ \<Rightarrow> e | [] \<Rightarrow> ''no provider is currently available'')
      in upstream_error (''all upstream providers are in cooldown; next retry in '' @
           show_nat next_retry_secs @ ''s; last error: '' @ last_error))"

subsection \<open>Marking\<close>

definition mark_provider_success :: "nat \<Rightarrow> failover_client \<Rightarrow> failover_client" where
  "mark_provider_success i c =
     c\<lparr>fo_states := update_at i (\<lambda>s. s\<lparr>pc_cooling_until := None, pc_last_error := None\<rparr>) (fo_states c),
       fo_metrics := update_at i record_success (fo_metrics c)\<rparr>"

definition mark_provider_failure :: "nat \<Rightarrow> nat \<Rightarrow> string \<Rightarrow> failover_client \<Rightarrow> failover_client" where
  "mark_provider_failure now i error c =
     (let until = (if 0 < fo_cooldown c then Some (now + fo_cooldown c) else None) in
      c\<lparr>fo_states := update_at i (\<lambda>s. s\<lparr>pc_cooling_until := until, pc_last_error := Some error\<rparr>) (fo_states c),
        fo_metrics := update_at i record_failure (fo_metrics c)\<rparr>)"

definition mark_failure :: "nat \<Rightarrow> nat \<Rightarrow> app_error \<Rightarrow> failover_client \<Rightarrow> failover_client" where
  "mark_failure now i e c = mark_provider_failure now i (err_message e) c"

subsection \<open>Health\<close>

definition down_threshold :: "32 word" where
  "down_threshold = 3"

datatype provider_status = Healthy | Cooling | Down

record provider_health =
  ph_id :: string
  ph_name :: string
  ph_route :: "string option"
  ph_base_url :: string
  ph_status :: provider_status
  ph_cooling_until_ms :: "nat option"
  ph_last_error :: "string option"
  ph_served_count :: "64 word"
  ph_failover_count :: "64 word"
  ph_consecutive_failures :: "32 word"
  ph_catalog_fetched_ms :: "nat option"
  ph_catalog_size :: "nat option"

record catalog_meta =
  cm_fetched_ms :: "nat option"
  cm_size :: "nat option"

definition catalog_meta_default :: catalog_meta where
  "catalog_meta_default = \<lparr>cm_fetched_ms = None, cm_size = None\<rparr>"

definition instant_deadline_to_epoch_ms :: "nat \<Rightarrow> nat \<Rightarrow> nat option \<Rightarrow> nat option" where
  "instant_deadline_to_epoch_ms now epoch_ms deadline =
     map_option (\<lambda>d. sat_add epoch_ms ((d - now) div 1000000)) deadline"

text \<open>
  The snapshot reads the cooldown states under the lock, releases it, and reads the counters
  afterwards: \<open>c\<close> is the client at the first read, \<open>c'\<close> at the second.
\<close>

definition provider_health_entry ::
  "nat \<Rightarrow> nat \<Rightarrow> string option \<Rightarrow> catalog_meta \<Rightarrow> failover_provider
     \<Rightarrow> nat option \<times> string option \<Rightarrow> provider_metrics \<Rightarrow> provider_health" where
  "provider_health_entry now epoch_ms route meta provider state m =
     (let (until, last_error) = state;
          cooling = (case until of Some u \<Rightarrow> now < u | None \<Rightarrow> False)
      in \<lparr>ph_id = pr_name provider, ph_name = pr_name provider, ph_route = route,
          ph_base_url = pr_base_url provider,
          ph_status = (if cooling then
              (if down_threshold \<le> pm_consecutive_failures m then Down else Cooling) else Healthy),
          ph_cooling_until_ms =
            (if cooling then instant_deadline_to_epoch_ms now epoch_ms until else None),
          ph_last_error = last_error,
          ph_served_count = pm_served_count m, ph_failover_count = pm_failover_count m,
          ph_consecutive_failures = pm_consecutive_failures m,
          ph_catalog_fetched_ms = cm_fetched_ms meta, ph_catalog_size = cm_size meta\<rparr>)"

definition provider_health_with_route ::
  "nat \<Rightarrow> nat \<Rightarrow> string option \<Rightarrow> catalog_meta \<Rightarrow> failover_client \<Rightarrow> failover_client
     \<Rightarrow> provider_health list" where
  "provider_health_with_route now epoch_ms route meta c c' =
     (let states = map (\<lambda>i. case slice_get (fo_states c) i of
            Some s \<Rightarrow> (pc_cooling_until s, pc_last_error s) | None \<Rightarrow> (None, None))
            [0..<length (fo_providers c)]
      in map (\<lambda>(p, s, m). provider_health_entry now epoch_ms route meta p s m)
           (zip (fo_providers c) (zip states (fo_metrics c'))))"

text \<open>The published snapshots are numbered.\<close>

record health_publisher =
  hp_version :: "64 word"
  hp_latest :: "64 word \<times> provider_health list"

definition publisher_default :: health_publisher where
  "publisher_default = \<lparr>hp_version = 0, hp_latest = (0, [])\<rparr>"

definition publish :: "provider_health list \<Rightarrow> health_publisher \<Rightarrow> health_publisher" where
  "publish providers p = (let version = hp_version p + 1 in
     p\<lparr>hp_version := version, hp_latest := (version, providers)\<rparr>)"

definition latest :: "health_publisher \<Rightarrow> 64 word \<times> provider_health list" where
  "latest p = hp_latest p"

subsection \<open>One provider\<close>

definition request_for_provider :: "failover_provider \<Rightarrow> backend_request \<Rightarrow> backend_request" where
  "request_for_provider p b =
     (let r = (case pr_upstream_model p of
                 Some model \<Rightarrow> (bk_request b)\<lparr>ccr_model := model\<rparr> | None \<Rightarrow> bk_request b)
      in b\<lparr>bk_request := merge_chat_kwargs_gap_fill (pr_upstream_chat_kwargs p) r\<rparr>)"

text \<open>
  What happens around an attempt: the network, the wall clock when it starts and when it is
  recorded, the monotonic clock when it is marked, and whether the wait for its first chunk
  times out.
\<close>

record attempt_env =
  ae_wire :: wire
  ae_start_ms :: nat
  ae_end_ms :: nat
  ae_now :: nat
  ae_first_chunk_elapsed :: bool

definition stream_timeout_error :: app_error where
  "stream_timeout_error = upstream_error ''upstream stream timed out''"

definition prefetch_first_chunk ::
  "bool \<Rightarrow> chunk_item list \<Rightarrow> app_error + (chat_completion_chunk \<times> chunk_item list)" where
  "prefetch_first_chunk elapsed stream =
     (if elapsed then Inl stream_timeout_error
      else (case stream of
              Inr chunk # rest \<Rightarrow> Inr (chunk, rest)
            | Inl err # _ \<Rightarrow> Inl err
            | [] \<Rightarrow> Inl (upstream_error ''upstream stream ended before the first chunk'')))"

definition failover_attempt ::
  "failover_provider \<Rightarrow> nat \<Rightarrow> nat \<Rightarrow> string \<Rightarrow> nat option \<Rightarrow> app_error option \<Rightarrow> attempt" where
  "failover_attempt p start_ms end_ms model header_byte_ms err =
     \<lparr>at_provider = Some (pr_name p), at_model = Some model, at_start_ms = start_ms,
      at_end_ms = end_ms, at_first_upstream_byte_ms = header_byte_ms,
      at_status = (case err of None \<Rightarrow> Served | Some _ \<Rightarrow> AttemptFailed),
      at_error_class = map_option classify_attempt_error err,
      at_failover_reason = map_option failover_reason_of err\<rparr>"

subsection \<open>The loop\<close>

type_synonym served_stream = "nat \<times> chat_completion_chunk \<times> chunk_item list"

datatype attempt_outcome =
    AttemptServed chat_completion_chunk "chunk_item list"
  | AttemptStop app_error
  | AttemptNext app_error

text \<open>One iteration, with the client and the token it leaves.\<close>

definition try_provider ::
  "leaf_env \<Rightarrow> attempt_env \<Rightarrow> backend_request \<Rightarrow> nat \<Rightarrow> failover_provider
     \<Rightarrow> failover_client \<Rightarrow> serving_info option
     \<Rightarrow> attempt_outcome \<times> failover_client \<times> serving_info option" where
  "try_provider E A b i p c serving =
     (let provider_request = request_for_provider p b;
          model = ccr_model (bk_request provider_request);
          record = (\<lambda>header err. map_option (record_attempt
            (failover_attempt p (ae_start_ms A) (ae_end_ms A) model header err)));
          serving1 = map_option (clear_pending_response_body \<circ> arm_attempt_header_byte) serving;
          (result, serving2, _) = leaf_stream_chat_completion E (pr_client p) (ae_wire A)
            (ae_start_ms A) (ae_end_ms A) provider_request serving1;
          header = Option.bind serving2 take_attempt_header_byte
      in case result of
           Inl err \<Rightarrow>
             (case err_failover err of
                Terminal \<Rightarrow> (AttemptStop err, c, record header (Some err) serving2)
              | FailoverNoCooldown \<Rightarrow> (AttemptNext err, c, record header (Some err) serving2)
              | Failover \<Rightarrow>
                  (AttemptNext err, mark_failure (ae_now A) i err c, record header (Some err) serving2))
         | Inr stream \<Rightarrow>
             (case prefetch_first_chunk (ae_first_chunk_elapsed A) stream of
                Inr (chunk, rest) \<Rightarrow>
                  (AttemptServed chunk rest, mark_provider_success i c,
                   record header None (map_option
                     (clear_pending_response_body \<circ> set_provider (pr_name p)) serving2))
              | Inl err \<Rightarrow>
                  (AttemptNext err, mark_failure (ae_now A) i err c, record header (Some err) serving2)))"

text \<open>Indices come from the provider list; the code indexes it and would panic outside.\<close>

fun stream_with_provider_indices ::
  "leaf_env \<Rightarrow> (nat \<Rightarrow> attempt_env) \<Rightarrow> backend_request \<Rightarrow> nat list \<Rightarrow> app_error option
     \<Rightarrow> failover_client \<Rightarrow> serving_info option
     \<Rightarrow> ((app_error + served_stream) \<times> failover_client \<times> serving_info option) option" where
  "stream_with_provider_indices E A b [] last_error c serving = Some
     (Inl (case last_error of Some e \<Rightarrow> e
           | None \<Rightarrow> upstream_error ''all upstream providers failed before producing a response''),
      c, serving)"
| "stream_with_provider_indices E A b (i # is) last_error c serving =
     (case slice_get (fo_providers c) i of
        None \<Rightarrow> None
      | Some p \<Rightarrow>
          (case try_provider E (A i) b i p c serving of
             (AttemptServed chunk rest, c', serving') \<Rightarrow> Some (Inr (i, chunk, rest), c', serving')
           | (AttemptStop err, c', serving') \<Rightarrow> Some (Inl err, c', serving')
           | (AttemptNext err, c', serving') \<Rightarrow>
               stream_with_provider_indices E A b is (Some err) c' serving'))"

definition stream_chat_completion_with_timeout ::
  "leaf_env \<Rightarrow> nat \<Rightarrow> (nat \<Rightarrow> attempt_env) \<Rightarrow> backend_request \<Rightarrow> failover_client \<Rightarrow> serving_info option
     \<Rightarrow> ((app_error + served_stream) \<times> failover_client \<times> serving_info option) option" where
  "stream_chat_completion_with_timeout E now A b c serving =
     (let indices = available_provider_indices now c in
      if indices = [] then Some (Inl (cooldown_error now c), c, serving)
      else stream_with_provider_indices E A b indices None c serving)"

definition stream_from_provider ::
  "leaf_env \<Rightarrow> nat \<Rightarrow> (nat \<Rightarrow> attempt_env) \<Rightarrow> nat \<Rightarrow> backend_request \<Rightarrow> failover_client \<Rightarrow> serving_info option
     \<Rightarrow> ((app_error + served_stream) \<times> failover_client \<times> serving_info option) option" where
  "stream_from_provider E now A i b c serving =
     (if length (fo_providers c) \<le> i
      then Some (Inl (internal_error ''resolved fallback provider index was out of range''), c, serving)
      else if \<not> provider_is_available now i c then Some (Inl (cooldown_error now c), c, serving)
      else stream_with_provider_indices E A b [i] None c serving)"

subsection \<open>The served stream\<close>

text \<open>What each further wait of the served stream gives: an item, or nothing within the timeout.\<close>

datatype 'a poll = Item 'a | Elapsed

fun polls :: "'a list \<Rightarrow> nat option \<Rightarrow> 'a poll list" where
  "polls xs None = map Item xs"
| "polls xs (Some 0) = [Elapsed]"
| "polls [] (Some (Suc n)) = []"
| "polls (x # xs) (Some (Suc n)) = Item x # polls xs (Some n)"

fun stream_after_prefetch ::
  "nat \<Rightarrow> nat \<Rightarrow> chunk_item poll list \<Rightarrow> failover_client \<Rightarrow> chunk_item list \<times> failover_client" where
  "stream_after_prefetch i now [] c = ([], c)"
| "stream_after_prefetch i now (Item (Inr chunk) # ps) c =
     (let (items, c') = stream_after_prefetch i now ps c in (Inr chunk # items, c'))"
| "stream_after_prefetch i now (Item (Inl err) # ps) c = ([Inl err], mark_failure now i err c)"
| "stream_after_prefetch i now (Elapsed # ps) c =
     ([Inl stream_timeout_error], mark_failure now i stream_timeout_error c)"

fun timeout_upstream_stream :: "chunk_item poll list \<Rightarrow> chunk_item list" where
  "timeout_upstream_stream [] = []"
| "timeout_upstream_stream (Item x # ps) = x # timeout_upstream_stream ps"
| "timeout_upstream_stream (Elapsed # ps) = [Inl stream_timeout_error]"

subsection \<open>Token counting\<close>

text \<open>The \<^verbatim>\<open>/tokenize\<close> endpoint of each provider; its errors only move on to the next one.\<close>

fun count_tokens_with_provider_indices ::
  "leaf_env \<Rightarrow> (nat \<Rightarrow> json \<Rightarrow> (nat \<times> json option) option) \<Rightarrow> backend_request \<Rightarrow> nat list
     \<Rightarrow> failover_client \<Rightarrow> nat option" where
  "count_tokens_with_provider_indices E tokenize b [] c = None"
| "count_tokens_with_provider_indices E tokenize b (i # is) c =
     (case Option.bind (slice_get (fo_providers c) i) (\<lambda>p.
             leaf_count_tokens E (pr_client p) (tokenize i) (request_for_provider p b)) of
        Some count \<Rightarrow> Some count
      | None \<Rightarrow> count_tokens_with_provider_indices E tokenize b is c)"

definition failover_count_tokens ::
  "leaf_env \<Rightarrow> nat \<Rightarrow> (nat \<Rightarrow> json \<Rightarrow> (nat \<times> json option) option) \<Rightarrow> backend_request
     \<Rightarrow> failover_client \<Rightarrow> nat option" where
  "failover_count_tokens E now tokenize b c =
     count_tokens_with_provider_indices E tokenize b (available_provider_indices now c) c"

subsection \<open>Raw completions\<close>

definition proxy_body_with_model :: "json_codec \<Rightarrow> string \<Rightarrow> string \<Rightarrow> string" where
  "proxy_body_with_model J body model =
     (case from_json_str J body of
        Inr (JObj m) \<Rightarrow> to_json_string J (JObj (obj_insert ''model'' (JStr model) m))
      | _ \<Rightarrow> body)"

definition proxy_body_for_provider :: "json_codec \<Rightarrow> failover_provider \<Rightarrow> string \<Rightarrow> string" where
  "proxy_body_for_provider J p body =
     (case pr_upstream_model p of Some model \<Rightarrow> proxy_body_with_model J body model | None \<Rightarrow> body)"

definition proxy_body_model :: "json_codec \<Rightarrow> string \<Rightarrow> string option" where
  "proxy_body_model J body =
     (case from_json_str J body of
        Inl _ \<Rightarrow> None
      | Inr v \<Rightarrow> nonempty_str (map_option trim (json_get_str v ''model'')))"

text \<open>The leaf's \<^verbatim>\<open>proxy_completions\<close>: only a transport failure is an error.\<close>

definition leaf_proxy_completions :: "(string \<Rightarrow> string + http_reply) \<Rightarrow> string \<Rightarrow> app_error + http_reply" where
  "leaf_proxy_completions post body =
     (case post body of
        Inl err \<Rightarrow> Inl (upstream_error (''upstream completions request failed: '' @ err))
      | Inr reply \<Rightarrow> Inr reply)"

definition proxy_status_error :: "http_reply \<Rightarrow> app_error" where
  "proxy_status_error reply = upstream_error (''upstream completions failed with '' @
     hr_status_line reply @ '': '' @ redact_and_truncate_error_body (hr_body reply) 500)"

fun proxy_with_provider_indices ::
  "json_codec \<Rightarrow> (nat \<Rightarrow> string \<Rightarrow> string + http_reply) \<Rightarrow> (nat \<Rightarrow> nat) \<Rightarrow> string \<Rightarrow> nat list
     \<Rightarrow> app_error option \<Rightarrow> failover_client \<Rightarrow> ((app_error + http_reply) \<times> failover_client) option" where
  "proxy_with_provider_indices J post now body [] last_error c = Some
     (Inl (case last_error of Some e \<Rightarrow> e
           | None \<Rightarrow> upstream_error ''all upstream providers failed to proxy completions''), c)"
| "proxy_with_provider_indices J post now body (i # is) last_error c =
     (case slice_get (fo_providers c) i of
        None \<Rightarrow> None
      | Some p \<Rightarrow>
          (case leaf_proxy_completions (post i) (proxy_body_for_provider J p body) of
             Inr reply \<Rightarrow>
               if \<not> status_is_failover_eligible (hr_status reply) then Some (Inr reply, c)
               else (let err = proxy_status_error reply in
                 proxy_with_provider_indices J post now body is (Some err) (mark_failure (now i) i err c))
           | Inl err \<Rightarrow>
               proxy_with_provider_indices J post now body is (Some err) (mark_failure (now i) i err c)))"

definition failover_proxy_completions ::
  "json_codec \<Rightarrow> nat \<Rightarrow> (nat \<Rightarrow> string \<Rightarrow> string + http_reply) \<Rightarrow> (nat \<Rightarrow> nat) \<Rightarrow> string
     \<Rightarrow> failover_client \<Rightarrow> ((app_error + http_reply) \<times> failover_client) option" where
  "failover_proxy_completions J now0 post now body c =
     (let indices = available_provider_indices now0 c in
      if indices = [] then Some (Inl (cooldown_error now0 c), c)
      else proxy_with_provider_indices J post now body indices None c)"

definition proxy_from_provider ::
  "json_codec \<Rightarrow> nat \<Rightarrow> (nat \<Rightarrow> string \<Rightarrow> string + http_reply) \<Rightarrow> (nat \<Rightarrow> nat) \<Rightarrow> nat \<Rightarrow> string
     \<Rightarrow> failover_client \<Rightarrow> ((app_error + http_reply) \<times> failover_client) option" where
  "proxy_from_provider J now0 post now i body c =
     (if length (fo_providers c) \<le> i
      then Some (Inl (internal_error ''resolved fallback provider index was out of range''), c)
      else if \<not> provider_is_available now0 i c then Some (Inl (cooldown_error now0 c), c)
      else proxy_with_provider_indices J post now body [i] None c)"

subsection \<open>Candidate models\<close>

record backend_candidate =
  bc_model :: string
  bc_context_limit :: "int option"

definition failover_candidate_plan :: "string \<Rightarrow> failover_client \<Rightarrow> backend_candidate list" where
  "failover_candidate_plan requested_model c = map (\<lambda>p.
     \<lparr>bc_model = (case pr_upstream_model p of Some m \<Rightarrow> m | None \<Rightarrow> requested_model),
      bc_context_limit = None\<rparr>) (fo_providers c)"

end
