(* ===== verification/Model_Catalog.thy ===== *)
theory Model_Catalog
  imports Failover
begin

text \<open>
  Model listings and the routing catalog of \<^verbatim>\<open>src/src/upstream.rs\<close>: what is read off a
  \<^verbatim>\<open>/v1/models\<close> body, the union catalog a refresh builds from the listings of all routing
  providers, and the resolution of a request model to a provider or an ad-hoc route.
\<close>

subsection \<open>Listings\<close>

fun as_i64 :: "json \<Rightarrow> int option" where
  "as_i64 (JNum (PosInt n)) = (if int n \<le> i64_max then Some (int n) else None)"
| "as_i64 (JNum (NegInt i)) = Some i"
| "as_i64 _ = None"

record upstream_model_entry =
  ume_id :: string
  ume_context_limit :: "int option"

definition context_limit_keys :: "string list" where
  "context_limit_keys = [''max_input_tokens'', ''context_length'', ''context_window'',
     ''max_context_length'', ''max_model_len'']"

fun first_limit :: "json_map \<Rightarrow> string list \<Rightarrow> int option" where
  "first_limit m [] = None"
| "first_limit m (k # ks) =
     (case Option.bind (obj_get m k) as_i64 of
        Some n \<Rightarrow> if 0 < n then Some n else first_limit m ks
      | None \<Rightarrow> first_limit m ks)"

definition entry_context_limit :: "json_map \<Rightarrow> int option" where
  "entry_context_limit m = first_limit m context_limit_keys"

definition model_entries_from_body :: "json \<Rightarrow> json list" where
  "model_entries_from_body body =
     (case body of
        JArr entries \<Rightarrow> entries
      | JObj m \<Rightarrow>
          (case (case obj_get m ''data'' of Some v \<Rightarrow> Some v | None \<Rightarrow> obj_get m ''models'') of
             Some (JArr entries) \<Rightarrow> entries | _ \<Rightarrow> [])
      | _ \<Rightarrow> [])"

definition catalog_entry :: "json \<Rightarrow> upstream_model_entry option" where
  "catalog_entry entry =
     (case entry of
        JStr i \<Rightarrow> Some \<lparr>ume_id = i, ume_context_limit = None\<rparr>
      | JObj m \<Rightarrow> map_option (\<lambda>i. \<lparr>ume_id = i, ume_context_limit = entry_context_limit m\<rparr>)
          (map_get_str m ''id'')
      | _ \<Rightarrow> None)"

definition extract_supported_model_catalog :: "json \<Rightarrow> upstream_model_entry list" where
  "extract_supported_model_catalog body = List.map_filter catalog_entry (model_entries_from_body body)"

definition model_entry_id :: "json \<Rightarrow> string option" where
  "model_entry_id entry =
     (case entry of JStr i \<Rightarrow> Some i | JObj m \<Rightarrow> map_get_str m ''id'' | _ \<Rightarrow> None)"

definition single_model_entry :: "string \<Rightarrow> json" where
  "single_model_entry model = jobj [(''id'', JStr model), (''object'', JStr ''model'')]"

definition single_model_list_body :: "string \<Rightarrow> json" where
  "single_model_list_body model =
     jobj [(''object'', JStr ''list''), (''data'', JArr [single_model_entry model])]"

definition filter_model_entries :: "json list \<Rightarrow> string \<Rightarrow> json list" where
  "filter_model_entries entries model =
     (case filter (\<lambda>e. model_entry_id e = Some model) entries of
        e # _ \<Rightarrow> [e] | [] \<Rightarrow> [single_model_entry model])"

definition filter_models_body :: "json \<Rightarrow> string \<Rightarrow> json" where
  "filter_models_body body model =
     (case body of
        JObj m \<Rightarrow>
          (case Option.bind (obj_get m ''data'') as_array of
             Some entries \<Rightarrow> JObj (obj_insert ''data'' (JArr (filter_model_entries entries model)) m)
           | None \<Rightarrow>
               (case Option.bind (obj_get m ''models'') as_array of
                  Some entries \<Rightarrow> JObj (obj_insert ''models'' (JArr (filter_model_entries entries model)) m)
                | None \<Rightarrow> single_model_list_body model))
      | JArr entries \<Rightarrow> JArr (filter_model_entries entries model)
      | _ \<Rightarrow> single_model_list_body model)"

text \<open>The leaf's \<^verbatim>\<open>list_models\<close>, and the JSON of an accepted response.\<close>

definition leaf_list_models :: "string + http_reply \<Rightarrow> app_error + http_reply" where
  "leaf_list_models get =
     (case get of
        Inl err \<Rightarrow> Inl (upstream_error (''upstream models request failed: '' @ err))
      | Inr reply \<Rightarrow>
          if status_is_success (hr_status reply) then Inr reply
          else Inl (upstream_error (''upstream /models failed with '' @ hr_status_line reply @ '': '' @
            redact_and_truncate_error_body (hr_body reply) 500)))"

definition collect_models_response :: "json_codec \<Rightarrow> http_reply \<Rightarrow> app_error + json" where
  "collect_models_response J reply =
     (case from_json_str J (hr_body reply) of
        Inl err \<Rightarrow> Inl (upstream_error (''invalid upstream /models JSON: '' @ err))
      | Inr v \<Rightarrow> Inr v)"

definition filter_models_response :: "json_codec \<Rightarrow> http_reply \<Rightarrow> string \<Rightarrow> app_error + http_reply" where
  "filter_models_response J reply model =
     bind_res (collect_models_response J reply) (\<lambda>body.
       Inr (reply\<lparr>hr_body := to_json_string J (filter_models_body body model)\<rparr>))"

text \<open>The listing of a failover chain: the first provider that answers.\<close>

fun failover_list_from ::
  "json_codec \<Rightarrow> (nat \<Rightarrow> string + http_reply) \<Rightarrow> nat list \<Rightarrow> app_error option \<Rightarrow> failover_client
     \<Rightarrow> app_error + http_reply" where
  "failover_list_from J get [] last_error c = Inl (case last_error of Some e \<Rightarrow> e
     | None \<Rightarrow> upstream_error ''all upstream providers failed to list models'')"
| "failover_list_from J get (i # is) last_error c =
     (case leaf_list_models (get i) of
        Inr reply \<Rightarrow> (case provider_upstream_model i c of
            Some model \<Rightarrow> filter_models_response J reply model | None \<Rightarrow> Inr reply)
      | Inl err \<Rightarrow> failover_list_from J get is (Some err) c)"

definition failover_list_models ::
  "json_codec \<Rightarrow> nat \<Rightarrow> (nat \<Rightarrow> string + http_reply) \<Rightarrow> failover_client \<Rightarrow> app_error + http_reply" where
  "failover_list_models J now get c =
     (let indices = available_provider_indices now c in
      if indices = [] then Inl (cooldown_error now c) else failover_list_from J get indices None c)"

subsection \<open>The routing catalog\<close>

datatype routing_model_target = Primary | Fallback nat

record routing_model_candidate =
  rmc_provider_index :: nat
  rmc_model_id :: string
  rmc_target :: routing_model_target

record model_route_spec =
  mrs_name :: string
  mrs_glob :: "(string \<Rightarrow> bool) option"
  mrs_route_provider_index :: nat
  mrs_upstream_model :: "string option"

record provider_model_catalog =
  pmc_candidates :: "routing_model_candidate list"
  pmc_context_limit_by_id :: "string \<rightharpoonup> int"

record routing_model_catalog =
  cat_provider_catalogs :: "provider_model_catalog list"
  cat_union_entries :: "json list"
  cat_union_ids :: "string list"
  cat_union_context_limit_by_id :: "string \<rightharpoonup> int"
  cat_ids_by_key :: "string \<Rightarrow> routing_model_candidate list"
  cat_routes :: "model_route_spec list"

definition catalog_default :: routing_model_catalog where
  "catalog_default = \<lparr>cat_provider_catalogs = [], cat_union_entries = [], cat_union_ids = [],
     cat_union_context_limit_by_id = Map.empty, cat_ids_by_key = (\<lambda>k. []), cat_routes = []\<rparr>"

definition normalized_model_entry :: "json \<Rightarrow> (string \<times> json) option" where
  "normalized_model_entry entry =
     (case entry of
        JStr i \<Rightarrow> Some (i, single_model_entry i)
      | JObj m \<Rightarrow> map_option (\<lambda>i. (i, JObj m)) (map_get_str m ''id'')
      | _ \<Rightarrow> None)"

definition limit_of_entry :: "json \<Rightarrow> int option" where
  "limit_of_entry entry = (case entry of JObj m \<Rightarrow> entry_context_limit m | _ \<Rightarrow> None)"

text \<open>
  Registering one model of a provider, in the provider's own catalog and in the union; the set of
  union ids already seen is the set of \<open>cat_union_ids\<close>.
\<close>

definition register_routing_model ::
  "nat \<Rightarrow> string \<times> json \<times> routing_model_target \<Rightarrow> provider_model_catalog \<times> routing_model_catalog
     \<Rightarrow> provider_model_catalog \<times> routing_model_catalog" where
  "register_routing_model provider_index model s =
     (let (model_id, entry, target) = model; (pc, cat) = s; key = canonical_model_key model_id in
      if key = [] then (pc, cat)
      else
        (let candidate = \<lparr>rmc_provider_index = provider_index, rmc_model_id = model_id, rmc_target = target\<rparr>;
             pc1 = (if list_ex (\<lambda>c. rmc_model_id c = model_id) (pmc_candidates pc) then pc
                    else pc\<lparr>pmc_candidates := pmc_candidates pc @ [candidate]\<rparr>);
             pc2 = (case limit_of_entry entry of
                      Some limit \<Rightarrow> pc1\<lparr>pmc_context_limit_by_id := (pmc_context_limit_by_id pc1)(model_id \<mapsto> limit)\<rparr>
                    | None \<Rightarrow> pc1);
             cat1 = cat\<lparr>cat_ids_by_key :=
               (cat_ids_by_key cat)(key := cat_ids_by_key cat key @ [candidate])\<rparr>;
             cat2 = (if model_id \<in> set (cat_union_ids cat1) then cat1
                     else cat1\<lparr>cat_union_context_limit_by_id :=
                            (case limit_of_entry entry of
                               Some limit \<Rightarrow> (cat_union_context_limit_by_id cat1)(model_id \<mapsto> limit)
                             | None \<Rightarrow> cat_union_context_limit_by_id cat1),
                          cat_union_ids := cat_union_ids cat1 @ [model_id],
                          cat_union_entries := cat_union_entries cat1 @ [entry]\<rparr>)
         in (pc2, cat2)))"

record routing_provider =
  rp_name :: string
  rp_primary_upstream_model :: "string option"
  rp_fallback_exposed_models :: "(string \<times> nat) list"
  rp_client :: failover_client

definition routing_provider_new ::
  "string \<Rightarrow> string \<Rightarrow> leaf_client \<Rightarrow> string option \<Rightarrow> json_map \<Rightarrow> failover_provider list \<Rightarrow> nat
     \<Rightarrow> routing_provider" where
  "routing_provider_new name base_url primary_client primary_upstream_model kwargs fallbacks cooldown =
     \<lparr>rp_name = name, rp_primary_upstream_model = primary_upstream_model,
      rp_fallback_exposed_models = List.map_filter (\<lambda>(i, p).
        map_option (\<lambda>model_id. (model_id, i + 1)) (pr_exposed_model p)) (enumerate 0 fallbacks),
      rp_client = failover_new
        (\<lparr>pr_name = name, pr_base_url = base_url, pr_client = primary_client,
          pr_upstream_model = primary_upstream_model, pr_exposed_model = None,
          pr_upstream_chat_kwargs = kwargs\<rparr> # fallbacks) cooldown\<rparr>"

definition failover_provider_model :: "nat \<Rightarrow> routing_provider \<Rightarrow> string option" where
  "failover_provider_model i p = provider_upstream_model i (rp_client p)"

text \<open>The primary listing of a provider, as entries.\<close>

definition primary_provider_model_entries ::
  "json_codec \<Rightarrow> string + http_reply \<Rightarrow> routing_provider \<Rightarrow> app_error + json list" where
  "primary_provider_model_entries J get p =
     (case rp_primary_upstream_model p of
        None \<Rightarrow> bind_res (leaf_list_models get) (\<lambda>reply.
          bind_res (collect_models_response J reply) (\<lambda>body. Inr (model_entries_from_body body)))
      | Some model \<Rightarrow>
          (case leaf_list_models get of
             Inr reply \<Rightarrow> bind_res (collect_models_response J reply) (\<lambda>body.
               Inr (filter_model_entries (model_entries_from_body body) model))
           | Inl err \<Rightarrow> Inr [single_model_entry model]))"

definition provider_models ::
  "json list \<Rightarrow> routing_provider \<Rightarrow> (string \<times> json \<times> routing_model_target) list" where
  "provider_models entries p =
     map (\<lambda>(i, e). (i, e, Primary)) (List.map_filter normalized_model_entry entries)
     @ map (\<lambda>(i, failover_provider_index). (i, single_model_entry i, Fallback failover_provider_index))
         (rp_fallback_exposed_models p)"

definition provider_catalog_default :: provider_model_catalog where
  "provider_catalog_default = \<lparr>pmc_candidates = [], pmc_context_limit_by_id = Map.empty\<rparr>"

definition register_provider ::
  "nat \<Rightarrow> json list \<Rightarrow> routing_provider \<Rightarrow> routing_model_catalog \<Rightarrow> routing_model_catalog" where
  "register_provider i entries p cat =
     (let (pc, cat') = fold (register_routing_model i) (provider_models entries p)
            (provider_catalog_default, cat)
      in cat'\<lparr>cat_provider_catalogs := cat_provider_catalogs cat' @ [pc]\<rparr>)"

text \<open>The loop over the providers: the catalog so far and the last error.\<close>

fun refresh_from ::
  "json_codec \<Rightarrow> (nat \<Rightarrow> string + http_reply) \<Rightarrow> nat \<Rightarrow> routing_provider list
     \<Rightarrow> routing_model_catalog \<times> app_error option \<Rightarrow> routing_model_catalog \<times> app_error option" where
  "refresh_from J get i [] s = s"
| "refresh_from J get i (p # ps) (cat, last_error) =
     (case primary_provider_model_entries J (get i) p of
        Inr entries \<Rightarrow> refresh_from J get (Suc i) ps (register_provider i entries p cat, last_error)
      | Inl err \<Rightarrow> refresh_from J get (Suc i) ps (register_provider i [] p cat, Some err))"

definition no_models_error :: app_error where
  "no_models_error = upstream_error ''no models are currently available from configured upstreams''"

definition refresh_catalog ::
  "json_codec \<Rightarrow> (nat \<Rightarrow> string + http_reply) \<Rightarrow> routing_provider list \<Rightarrow> model_route_spec list
     \<Rightarrow> app_error + routing_model_catalog" where
  "refresh_catalog J get ps routes =
     (let (cat, last_error) = refresh_from J get 0 ps (catalog_default, None) in
      if cat_union_ids cat = [] \<and> routes = []
      then Inl (case last_error of Some e \<Rightarrow> e | None \<Rightarrow> no_models_error)
      else Inr (cat\<lparr>cat_routes := routes\<rparr>))"

subsection \<open>Resolution\<close>

datatype routing_resolution = RCatalog routing_model_candidate | RRoute nat string

datatype match_kind = ExactId | MatchRoute | CanonicalKey | MatchDefault

definition match_route :: "string \<Rightarrow> routing_model_catalog \<Rightarrow> model_route_spec option" where
  "match_route requested cat =
     (case find (\<lambda>r. mrs_glob r = None \<and> eq_ignore_ascii_case (mrs_name r) requested) (cat_routes cat) of
        Some r \<Rightarrow> Some r
      | None \<Rightarrow> find (\<lambda>r. case mrs_glob r of Some is_match \<Rightarrow> is_match requested | None \<Rightarrow> False)
          (cat_routes cat))"

definition unique_candidate_model_id :: "routing_model_candidate list \<Rightarrow> string option" where
  "unique_candidate_model_id cs =
     (case remdups (map rmc_model_id cs) of [model_id] \<Rightarrow> Some model_id | _ \<Rightarrow> None)"

fun first_exact :: "string \<Rightarrow> provider_model_catalog list \<Rightarrow> routing_model_candidate option" where
  "first_exact name [] = None"
| "first_exact name (pc # pcs) =
     (case find (\<lambda>c. rmc_model_id c = name) (pmc_candidates pc) of
        Some c \<Rightarrow> Some c | None \<Rightarrow> first_exact name pcs)"

definition default_candidate :: "routing_model_catalog \<Rightarrow> routing_model_candidate option" where
  "default_candidate cat =
     (case filter (\<lambda>cs. cs \<noteq> []) (map pmc_candidates (cat_provider_catalogs cat)) of
        cs # _ \<Rightarrow> Some (hd cs) | [] \<Rightarrow> None)"

definition resolve :: "string \<Rightarrow> routing_model_catalog \<Rightarrow> (routing_resolution \<times> match_kind) option" where
  "resolve requested cat =
     (let trimmed = trim requested;
          default = map_option (\<lambda>c. (RCatalog c, MatchDefault)) (default_candidate cat)
      in if trimmed = [] then default
         else (case first_exact trimmed (cat_provider_catalogs cat) of
             Some c \<Rightarrow> Some (RCatalog c, ExactId)
           | None \<Rightarrow>
         (case match_route trimmed cat of
             Some route \<Rightarrow> Some (RRoute (mrs_route_provider_index route)
               (case mrs_upstream_model route of Some m \<Rightarrow> m | None \<Rightarrow> trimmed), MatchRoute)
           | None \<Rightarrow>
         (let candidates = cat_ids_by_key cat (canonical_model_key trimmed) in
          case unique_candidate_model_id candidates of
             Some model_id \<Rightarrow> map_option (\<lambda>c. (RCatalog c, CanonicalKey))
               (find (\<lambda>c. rmc_model_id c = model_id) candidates)
           | None \<Rightarrow> default))))"

definition union_body :: "routing_model_catalog \<Rightarrow> json" where
  "union_body cat = jobj [(''object'', JStr ''list''), (''data'', JArr (cat_union_entries cat))]"

definition union_catalog :: "routing_model_catalog \<Rightarrow> upstream_model_entry list" where
  "union_catalog cat = map (\<lambda>i. \<lparr>ume_id = i, ume_context_limit = cat_union_context_limit_by_id cat i\<rparr>)
     (cat_union_ids cat)"

end
