(* ===== verification/Routing.thy ===== *)
theory Routing
  imports Model_Catalog
begin

text \<open>
  The routing client of \<^verbatim>\<open>src/src/upstream.rs\<close>: the cached catalog, the dispatch of a chat request,
  of a token count and of a raw completion to the provider or ad-hoc route its model resolves to,
  the candidate plan the engine asks for, and the aggregated health.
\<close>

subsection \<open>State\<close>

record route_provider =
  rtp_name :: string
  rtp_client :: failover_client

definition route_provider_new :: "string \<Rightarrow> string \<Rightarrow> leaf_client \<Rightarrow> nat \<Rightarrow> route_provider" where
  "route_provider_new name base_url leaf cooldown =
     \<lparr>rtp_name = name, rtp_client = failover_new
        [\<lparr>pr_name = name, pr_base_url = base_url, pr_client = leaf, pr_upstream_model = None,
          pr_exposed_model = None, pr_upstream_chat_kwargs = []\<rparr>] cooldown\<rparr>"

record routing_client =
  rc_providers :: "routing_provider list"
  rc_route_providers :: "route_provider list"
  rc_routes :: "model_route_spec list"
  rc_catalog :: "(nat \<times> routing_model_catalog) option"
  rc_catalog_meta :: catalog_meta

definition routing_with_routes ::
  "routing_provider list \<Rightarrow> route_provider list \<Rightarrow> model_route_spec list \<Rightarrow> routing_client" where
  "routing_with_routes ps rps routes = \<lparr>rc_providers = ps, rc_route_providers = rps, rc_routes = routes,
     rc_catalog = None, rc_catalog_meta = catalog_meta_default\<rparr>"

definition routing_new :: "routing_provider list \<Rightarrow> routing_client" where
  "routing_new ps = routing_with_routes ps [] []"

definition routing_model_catalog_ttl_secs :: nat where
  "routing_model_catalog_ttl_secs = 300"

text \<open>
  The clock when the catalog is asked for, the wall clock and the clock after a refresh, and the
  answers of the providers' listings.
\<close>

record routing_env =
  re_now :: nat
  re_epoch_ms :: nat
  re_fetched_at :: nat
  re_get :: "nat \<Rightarrow> string + http_reply"

definition load_catalog ::
  "json_codec \<Rightarrow> routing_env \<Rightarrow> routing_client \<Rightarrow> (app_error + routing_model_catalog) \<times> routing_client" where
  "load_catalog J R c =
     (let refresh = (case refresh_catalog J (re_get R) (rc_providers c) (rc_routes c) of
            Inl err \<Rightarrow> (Inl err, c)
          | Inr cat \<Rightarrow> (Inr cat, c\<lparr>rc_catalog := Some (re_fetched_at R, cat),
              rc_catalog_meta := \<lparr>cm_fetched_ms = Some (re_epoch_ms R),
                cm_size = Some (length (cat_union_ids cat))\<rparr>\<rparr>))
      in case rc_catalog c of
           Some (fetched_at, cat) \<Rightarrow>
             if as_secs (re_now R - fetched_at) < routing_model_catalog_ttl_secs then (Inr cat, c) else refresh
         | None \<Rightarrow> refresh)"

definition route_provider_at :: "nat \<Rightarrow> routing_client \<Rightarrow> app_error + route_provider" where
  "route_provider_at i c =
     (case slice_get (rc_route_providers c) i of
        Some p \<Rightarrow> Inr p | None \<Rightarrow> Inl (internal_error ''resolved route provider index was out of range''))"

definition routing_provider_at :: "nat \<Rightarrow> routing_client \<Rightarrow> app_error + routing_provider" where
  "routing_provider_at i c =
     (case slice_get (rc_providers c) i of
        Some p \<Rightarrow> Inr p
      | None \<Rightarrow> Inl (internal_error ''resolved upstream provider index was out of range''))"

definition routed_request :: "string \<Rightarrow> backend_request \<Rightarrow> backend_request" where
  "routed_request model_id b = b\<lparr>bk_request := (bk_request b)\<lparr>ccr_model := model_id\<rparr>\<rparr>"

definition set_provider_client :: "nat \<Rightarrow> failover_client \<Rightarrow> routing_client \<Rightarrow> routing_client" where
  "set_provider_client i fc c =
     c\<lparr>rc_providers := update_at i (\<lambda>p. p\<lparr>rp_client := fc\<rparr>) (rc_providers c)\<rparr>"

definition set_route_client :: "nat \<Rightarrow> failover_client \<Rightarrow> routing_client \<Rightarrow> routing_client" where
  "set_route_client i fc c =
     c\<lparr>rc_route_providers := update_at i (\<lambda>p. p\<lparr>rtp_client := fc\<rparr>) (rc_route_providers c)\<rparr>"

subsection \<open>Chat requests\<close>

type_synonym routed_result =
  "((app_error + served_stream) \<times> routing_client \<times> serving_info option) option"

definition routing_stream_with_timeout ::
  "leaf_env \<Rightarrow> routing_env \<Rightarrow> nat \<Rightarrow> (nat \<Rightarrow> attempt_env) \<Rightarrow> backend_request \<Rightarrow> routing_client
     \<Rightarrow> serving_info option \<Rightarrow> routed_result" where
  "routing_stream_with_timeout E R now A b c0 serving =
     (case load_catalog (le_codec E) R c0 of
        (Inl err, c) \<Rightarrow> Some (Inl err, c, serving)
      | (Inr cat, c) \<Rightarrow>
     (case resolve (ccr_model (bk_request b)) cat of
        None \<Rightarrow> Some (Inl no_models_error, c, serving)
      | Some (RRoute i model_id, _) \<Rightarrow>
          (case route_provider_at i c of
             Inl err \<Rightarrow> Some (Inl err, c, serving)
           | Inr p \<Rightarrow> map_option (\<lambda>(r, fc, t). (r, set_route_client i fc c, t))
               (stream_chat_completion_with_timeout E now A (routed_request model_id b) (rtp_client p)
                 (map_option (set_route (rtp_name p)) serving)))
      | Some (RCatalog candidate, _) \<Rightarrow>
          (let i = rmc_provider_index candidate in
           case routing_provider_at i c of
             Inl err \<Rightarrow> Some (Inl err, c, serving)
           | Inr p \<Rightarrow>
               (let routed = routed_request (rmc_model_id candidate) b;
                    serving' = map_option (set_route (rp_name p)) serving
                in map_option (\<lambda>(r, fc, t). (r, set_provider_client i fc c, t))
                     (case rmc_target candidate of
                        Primary \<Rightarrow> stream_chat_completion_with_timeout E now A routed (rp_client p) serving'
                      | Fallback j \<Rightarrow> stream_from_provider E now A j routed (rp_client p) serving')))))"

subsection \<open>The candidate plan\<close>

definition catalog_candidate_plan ::
  "routing_model_catalog \<Rightarrow> routing_model_candidate \<Rightarrow> routing_provider \<Rightarrow> backend_candidate list" where
  "catalog_candidate_plan cat candidate p =
     (case rmc_target candidate of
        Primary \<Rightarrow>
          (let primary_limit = pmc_context_limit_by_id
                 (cat_provider_catalogs cat ! rmc_provider_index candidate) (rmc_model_id candidate)
           in map (\<lambda>(index, bc). \<lparr>bc_model = bc_model bc,
                  bc_context_limit = (if index = 0 then primary_limit else None)\<rparr>)
                (enumerate 0 (failover_candidate_plan (rmc_model_id candidate) (rp_client p))))
      | Fallback j \<Rightarrow>
          [\<lparr>bc_model = (case failover_provider_model j p of
              Some m \<Rightarrow> m | None \<Rightarrow> rmc_model_id candidate), bc_context_limit = None\<rparr>])"

definition backend_candidate_plan ::
  "json_codec \<Rightarrow> routing_env \<Rightarrow> string \<Rightarrow> routing_client \<Rightarrow> backend_candidate list \<times> routing_client" where
  "backend_candidate_plan J R requested_model c0 =
     (case load_catalog J R c0 of
        (Inl _, c) \<Rightarrow> ([], c)
      | (Inr cat, c) \<Rightarrow>
          (case resolve requested_model cat of
             None \<Rightarrow> ([], c)
           | Some (RRoute _ model_id, _) \<Rightarrow> ([\<lparr>bc_model = model_id, bc_context_limit = None\<rparr>], c)
           | Some (RCatalog candidate, _) \<Rightarrow>
               (case slice_get (rc_providers c) (rmc_provider_index candidate) of
                  None \<Rightarrow> ([], c)
                | Some p \<Rightarrow> (catalog_candidate_plan cat candidate p, c))))"

text \<open>The default plan of a single upstream.\<close>

definition bare_candidate_plan :: "string \<Rightarrow> backend_candidate list" where
  "bare_candidate_plan requested_model = [\<lparr>bc_model = requested_model, bc_context_limit = None\<rparr>]"

subsection \<open>Token counts, listings, raw completions\<close>

definition count_tokens_from_provider ::
  "leaf_env \<Rightarrow> (nat \<Rightarrow> json \<Rightarrow> (nat \<times> json option) option) \<Rightarrow> nat \<Rightarrow> backend_request
     \<Rightarrow> failover_client \<Rightarrow> app_error + nat option" where
  "count_tokens_from_provider E tokenize i b c =
     (if length (fo_providers c) \<le> i
      then Inl (internal_error ''resolved fallback provider index was out of range'')
      else Inr (count_tokens_with_provider_indices E tokenize b [i] c))"

definition routing_count_tokens ::
  "leaf_env \<Rightarrow> routing_env \<Rightarrow> nat \<Rightarrow> (nat \<Rightarrow> json \<Rightarrow> (nat \<times> json option) option) \<Rightarrow> backend_request
     \<Rightarrow> routing_client \<Rightarrow> (app_error + nat option) \<times> routing_client" where
  "routing_count_tokens E R now tokenize b c0 =
     (case load_catalog (le_codec E) R c0 of
        (Inl _, c) \<Rightarrow> (Inr None, c)
      | (Inr cat, c) \<Rightarrow>
          (case resolve (ccr_model (bk_request b)) cat of
             None \<Rightarrow> (Inr None, c)
           | Some (RRoute i model_id, _) \<Rightarrow>
               (bind_res (route_provider_at i c) (\<lambda>p.
                  Inr (failover_count_tokens E now tokenize (routed_request model_id b) (rtp_client p))), c)
           | Some (RCatalog candidate, _) \<Rightarrow>
               (bind_res (routing_provider_at (rmc_provider_index candidate) c) (\<lambda>p.
                  let routed = routed_request (rmc_model_id candidate) b in
                  case rmc_target candidate of
                    Primary \<Rightarrow> Inr (failover_count_tokens E now tokenize routed (rp_client p))
                  | Fallback j \<Rightarrow> count_tokens_from_provider E tokenize j routed (rp_client p)), c)))"

definition routing_list_models ::
  "json_codec \<Rightarrow> routing_env \<Rightarrow> routing_client \<Rightarrow> (app_error + json) \<times> routing_client" where
  "routing_list_models J R c0 =
     (case load_catalog J R c0 of
        (Inl err, c) \<Rightarrow> (Inl err, c) | (Inr cat, c) \<Rightarrow> (Inr (union_body cat), c))"

definition routing_supported_model_catalog ::
  "json_codec \<Rightarrow> routing_env \<Rightarrow> routing_client
     \<Rightarrow> (app_error + upstream_model_entry list) \<times> routing_client" where
  "routing_supported_model_catalog J R c0 =
     (case load_catalog J R c0 of
        (Inl err, c) \<Rightarrow> (Inl err, c) | (Inr cat, c) \<Rightarrow> (Inr (union_catalog cat), c))"

definition routing_proxy_completions ::
  "json_codec \<Rightarrow> routing_env \<Rightarrow> nat \<Rightarrow> (nat \<Rightarrow> string \<Rightarrow> string + http_reply) \<Rightarrow> (nat \<Rightarrow> nat) \<Rightarrow> string
     \<Rightarrow> routing_client \<Rightarrow> ((app_error + http_reply) \<times> routing_client) option" where
  "routing_proxy_completions J R now0 post now body c0 =
     (case load_catalog J R c0 of
        (Inl err, c) \<Rightarrow> Some (Inl err, c)
      | (Inr cat, c) \<Rightarrow>
          (case resolve (case proxy_body_model J body of Some m \<Rightarrow> m | None \<Rightarrow> []) cat of
             None \<Rightarrow> Some (Inl no_models_error, c)
           | Some (RRoute i model_id, _) \<Rightarrow>
               (case route_provider_at i c of
                  Inl err \<Rightarrow> Some (Inl err, c)
                | Inr p \<Rightarrow> map_option (\<lambda>(r, fc). (r, set_route_client i fc c))
                    (failover_proxy_completions J now0 post now
                      (proxy_body_with_model J body model_id) (rtp_client p)))
           | Some (RCatalog candidate, _) \<Rightarrow>
               (let i = rmc_provider_index candidate;
                    body' = proxy_body_with_model J body (rmc_model_id candidate)
                in case routing_provider_at i c of
                  Inl err \<Rightarrow> Some (Inl err, c)
                | Inr p \<Rightarrow> map_option (\<lambda>(r, fc). (r, set_provider_client i fc c))
                    (case rmc_target candidate of
                       Primary \<Rightarrow> failover_proxy_completions J now0 post now body' (rp_client p)
                     | Fallback j \<Rightarrow> proxy_from_provider J now0 post now j body' (rp_client p)))))"

subsection \<open>Health\<close>

text \<open>\<open>c'\<close> is the client at the later reads of the counters, as in the failover client.\<close>

definition routing_provider_health ::
  "nat \<Rightarrow> nat \<Rightarrow> routing_client \<Rightarrow> routing_client \<Rightarrow> provider_health list" where
  "routing_provider_health now epoch_ms c c' =
     concat (map (\<lambda>(p, p'). provider_health_with_route now epoch_ms (Some (rp_name p))
         (rc_catalog_meta c) (rp_client p) (rp_client p')) (zip (rc_providers c) (rc_providers c')))
     @ concat (map (\<lambda>(p, p'). provider_health_with_route now epoch_ms (Some (rtp_name p))
         catalog_meta_default (rtp_client p) (rtp_client p'))
         (zip (rc_route_providers c) (rc_route_providers c')))"

end
