(* ===== verification/Upstream_Leaf_Correct.thy ===== *)
theory Upstream_Leaf_Correct
  imports Upstream_Leaf
begin

text \<open>
  Correctness of the leaf: the shrink-and-retry posts at most twice and fits the window, the
  disposition and the staged body of every outcome, and what it records on the serving token.
\<close>

subsection \<open>What a dispatch does to the token\<close>

text \<open>The body staged at the end, and whether headers arrived.\<close>

definition staged_body ::
  "leaf_env \<Rightarrow> leaf_client \<Rightarrow> wire \<Rightarrow> chat_completion_request \<Rightarrow> captured_response_body option" where
  "staged_body E C W r =
     (let stage = (\<lambda>reply. if lc_capture_responses C
            then Some (capture_response_body (le_codec E) (hr_body reply)) else None)
      in case w_post W 0 r of
           Inl _ \<Rightarrow> None
         | Inr reply \<Rightarrow>
             if status_is_success (hr_status reply) then None
             else (case overflow_of E C (hr_body reply) r of
               None \<Rightarrow> stage reply
             | Some retry \<Rightarrow>
                 (case w_post W 1 (retried_request retry r) of
                    Inl _ \<Rightarrow> None
                  | Inr reply' \<Rightarrow> if status_is_success (hr_status reply') then None else stage reply')))"

definition header_ms_of :: "wire \<Rightarrow> chat_completion_request \<Rightarrow> nat option" where
  "header_ms_of W r = (case w_post W 0 r of Inl _ \<Rightarrow> None | Inr _ \<Rightarrow> Some (w_header_ms W))"

text \<open>What a dispatch leaves in an armed token.\<close>

definition dispatched_token ::
  "leaf_env \<Rightarrow> leaf_client \<Rightarrow> wire \<Rightarrow> chat_completion_request \<Rightarrow> serving_info \<Rightarrow> serving_info" where
  "dispatched_token E C W r t = t\<lparr>sv_attempt_header_byte_ms := header_ms_of W r,
     sv_pending_response_body := staged_body E C W r\<rparr>"

lemma dispatch_token:
  assumes "sv_attempt_header_byte_ms t = None" "sv_pending_response_body t = None"
  shows "fst (snd (dispatch_chat_stream E C W r (Some t))) = Some (dispatched_token E C W r t)"
  using assms
  by (auto simp: dispatch_chat_stream_def dispatch_retry_def send_chat_request_def Let_def
      dispatched_token_def header_ms_of_def staged_body_def capture_upstream_response_body_def
      stamp_attempt_header_byte_def set_pending_response_body_def case_prod_beta
      split: sum.split option.split)

lemma dispatch_token_None: "fst (snd (dispatch_chat_stream E C W r None)) = None"
  by (auto simp: dispatch_chat_stream_def dispatch_retry_def Let_def case_prod_beta
      capture_upstream_response_body_def split: sum.split option.split)

lemma dispatch_result_token:
  "fst (dispatch_chat_stream E C W r s) = fst (dispatch_chat_stream E C W r s')"
  by (auto simp: dispatch_chat_stream_def dispatch_retry_def Let_def case_prod_beta
      split: sum.split option.split)

subsection \<open>The retry\<close>

lemma remove_aliases: "alias \<in> set max_token_alias_keys \<Longrightarrow> obj_get (remove_max_token_aliases m) alias = None"
  by (auto simp: remove_max_token_aliases_def max_token_alias_keys_def obj_get_remove)

lemma overflow_budget: "overflow_of E C body r = Some retry \<Longrightarrow>
    lc_min_completion_tokens C \<le> cor_max_completion_tokens retry"
  by (auto simp: overflow_of_def classify_context_overflow_def context_retry_completion_budget_def
      Let_def split: option.splits prod.splits)

text \<open>
  A dispatch posts the request once; it posts a second time exactly when the first reply is a
  rejection that reports a context overflow, and then the same request but for its completion
  budget: the typed field is the recomputed budget, at least the configured floor, and no
  max-token alias is left beside it.
\<close>

theorem shrink_and_retry_once:
  "case w_post W 0 r of
     Inl _ \<Rightarrow> snd (snd (dispatch_chat_stream E C W r serving)) = [r]
   | Inr reply \<Rightarrow>
       (case (if status_is_success (hr_status reply) then None else overflow_of E C (hr_body reply) r) of
          None \<Rightarrow> snd (snd (dispatch_chat_stream E C W r serving)) = [r]
        | Some retry \<Rightarrow> \<exists>r'. snd (snd (dispatch_chat_stream E C W r serving)) = [r, r']
            \<and> r'\<lparr>ccr_max_output_tokens := None, ccr_extra_body := []\<rparr>
                = r\<lparr>ccr_max_output_tokens := None, ccr_extra_body := []\<rparr>
            \<and> ccr_max_output_tokens r' = Some (cor_max_completion_tokens retry)
            \<and> lc_min_completion_tokens C \<le> cor_max_completion_tokens retry
            \<and> list_all (\<lambda>alias. obj_get (ccr_extra_body r') alias = None) max_token_alias_keys)"
proof (cases "w_post W 0 r")
  case (Inl err)
  then show ?thesis by (simp add: dispatch_chat_stream_def send_chat_request_def)
next
  case (Inr reply)
  show ?thesis
  proof (cases "status_is_success (hr_status reply)")
    case True
    with Inr show ?thesis by (simp add: dispatch_chat_stream_def send_chat_request_def Let_def)
  next
    case False
    show ?thesis
    proof (cases "overflow_of E C (hr_body reply) r")
      case None
      with Inr False show ?thesis by (simp add: dispatch_chat_stream_def send_chat_request_def Let_def)
    next
      case (Some retry)
      have "snd (snd (dispatch_chat_stream E C W r serving)) = [r, retried_request retry r]"
        using Inr False Some
        by (simp add: dispatch_chat_stream_def send_chat_request_def Let_def case_prod_beta)
      with Inr False Some overflow_budget [OF Some] show ?thesis
        by (simp add: retried_request_def list_all_iff remove_aliases)
    qed
  qed
qed

text \<open>
  A recomputed budget fits the window the upstream reported: unless the floor applies, input,
  budget and the reserved margin add up to the window, for all counts the parser accepts whose
  difference does not leave the 64-bit range.
\<close>

theorem retry_budget_fits:
  assumes "0 \<le> ctx" "ctx \<le> i64_max" "0 \<le> inp" "inp \<le> i64_max - 1024"
    and "budget = context_retry_completion_budget ctx (Some inp) floor lower_bound"
  shows "(if budget = floor then floor \<le> budget
      else inp + budget + (if lower_bound then 1024 else 100) = ctx) \<and> floor \<le> budget"
proof -
  let ?m = "if lower_bound then 1024 else 100 :: int"
  have a: "wrap_i64 (ctx - ?m) = ctx - ?m"
    by (rule wrap_i64_small) (use assms in \<open>auto simp: i64_max_def\<close>)
  have b: "wrap_i64 (ctx - ?m - inp) = ctx - ?m - inp"
    by (rule wrap_i64_small) (use assms in \<open>auto simp: i64_max_def\<close>)
  have "budget = max (ctx - ?m - inp) floor"
    unfolding assms(5) context_retry_completion_budget_def Let_def
      context_retry_margin_def context_lower_bound_retry_margin_def option.case a b ..
  then show ?thesis by (simp split: if_splits)
qed

theorem retry_budget_fits_witness:
  "8000 + context_retry_completion_budget 8192 (Some 8000) 16 False + 100 = 8192"
  using retry_budget_fits [of 8192 8000 _ 16 False]
  by (simp add: i64_max_def context_retry_completion_budget_def context_retry_margin_def wrap_i64_def)

text \<open>Counts near the end of the range wrap: the budget becomes enormous instead of the floor.\<close>

theorem retry_budget_wraps:
  "context_retry_completion_budget 0 (Some i64_max) 1 False = 2 ^ 63 - 99"
  by (simp add: context_retry_completion_budget_def context_retry_margin_def i64_max_def wrap_i64_def)

subsection \<open>Dispositions\<close>

text \<open>The reply that ended a failed dispatch, and whether it was the retry's.\<close>

definition final_reply :: "leaf_env \<Rightarrow> leaf_client \<Rightarrow> wire \<Rightarrow> chat_completion_request \<Rightarrow> (bool \<times> http_reply) option" where
  "final_reply E C W r =
     (case w_post W 0 r of
        Inl _ \<Rightarrow> None
      | Inr reply \<Rightarrow>
          (case (if status_is_success (hr_status reply) then None else overflow_of E C (hr_body reply) r) of
             None \<Rightarrow> Some (False, reply)
           | Some retry \<Rightarrow>
               (case w_post W 1 (retried_request retry r) of
                  Inl _ \<Rightarrow> None | Inr reply' \<Rightarrow> Some (True, reply'))))"

text \<open>
  The disposition of a failed dispatch. Without a final reply it is a transport error that
  fails over; otherwise the final status is not a success, the error is terminal exactly when the
  retry overflowed again, moves on without a cooldown exactly when the status is one of the
  request-intrinsic ones, and is never terminal for such a status on the first attempt.
\<close>

theorem dispatch_error_disposition:
  assumes "fst (dispatch_chat_stream E C W r serving) = Inl err"
  shows "case final_reply E C W r of
      None \<Rightarrow> err_failover err = Failover \<and> classify_attempt_error err = ClsConnect
    | Some (retried, reply) \<Rightarrow> \<not> status_is_success (hr_status reply)
        \<and> (if retried \<and> err_failover err = Terminal then classify_attempt_error err = ClsTerminal
           else classify_attempt_error err = ClsHttpStatus
             \<and> err_failover err = (if status_is_request_intrinsic_4xx (hr_status reply)
                 then FailoverNoCooldown else Failover))"
proof -
  have connect: "err_failover (upstream_error (''upstream chat request failed: '' @ x)) = Failover
      \<and> classify_attempt_error (upstream_error (''upstream chat request failed: '' @ x)) = ClsConnect" for x
    by (simp add: classify_attempt_error_def connect_prefixes_def app_error_defs)
  have http: "classify_attempt_error (chat_status_error reply) = ClsHttpStatus
      \<and> err_failover (chat_status_error reply)
        = (if status_is_request_intrinsic_4xx (hr_status reply) then FailoverNoCooldown else Failover)" for reply
    by (simp add: classify_attempt_error_def connect_prefixes_def chat_status_error_def app_error_defs)
  have terminal: "classify_attempt_error (overflow_persisted_error reply) = ClsTerminal
      \<and> err_failover (overflow_persisted_error reply) = Terminal" for reply
    by (simp add: classify_attempt_error_def connect_prefixes_def stream_prefixes_def
        overflow_persisted_error_def app_error_defs)
  show ?thesis
  proof (cases "w_post W 0 r")
    case (Inl x)
    with assms connect [of x] show ?thesis
      by (auto simp: dispatch_chat_stream_def send_chat_request_def final_reply_def)
  next
    case (Inr reply)
    show ?thesis
    proof (cases "if status_is_success (hr_status reply) then None else overflow_of E C (hr_body reply) r")
      case None
      with Inr assms http [of reply] show ?thesis
        by (auto simp: dispatch_chat_stream_def send_chat_request_def final_reply_def Let_def split: if_splits)
    next
      case (Some retry)
      then have s: "\<not> status_is_success (hr_status reply)" "overflow_of E C (hr_body reply) r = Some retry"
        by (auto split: if_splits)
      show ?thesis
      proof (cases "w_post W 1 (retried_request retry r)")
        case I: (Inl x)
        with Inr s assms connect [of x] show ?thesis
          by (auto simp: dispatch_chat_stream_def dispatch_retry_def send_chat_request_def
              final_reply_def Let_def)
      next
        case R: (Inr reply')
        have ret: "fst (dispatch_retry E C W (retried_request retry r) t) = Inl err" for t
          using assms Inr s R
          by (auto simp: dispatch_chat_stream_def dispatch_retry_def send_chat_request_def Let_def)
        have "\<not> status_is_success (hr_status reply')"
          using ret [of None] R by (auto simp: dispatch_retry_def send_chat_request_def)
        moreover from this have "if overflow_of E C (hr_body reply') (retried_request retry r) \<noteq> None
            then err = overflow_persisted_error reply' else err = chat_status_error reply'"
          using ret [of None] R by (auto simp: dispatch_retry_def send_chat_request_def Let_def)
        ultimately show ?thesis
          using Inr s R http [of reply'] terminal [of reply']
          by (auto simp: final_reply_def split: if_splits)
      qed
    qed
  qed
qed

text \<open>A concrete environment: nothing overflows, nothing parses, no policy applies.\<close>

definition sample_leaf_env :: leaf_env where
  "sample_leaf_env = \<lparr>
     le_codec = \<lparr>to_json_string = (\<lambda>v. ''null''), from_json_str = (\<lambda>s. Inl ''eof'')\<rparr>,
     le_serde = \<lparr>cs_chunk_from_str = (\<lambda>s. Inl ''eof''), cs_chunk_from_value = (\<lambda>v. Inl ''eof''),
       cs_request_len = (\<lambda>r. 400), cs_messages = (\<lambda>ms. JArr []), cs_tools = (\<lambda>ts. JArr [])\<rparr>,
     le_eventsource = (\<lambda>items. []),
     le_patterns = \<lparr>op_completion_limit = (\<lambda>s. None), op_vllm_combined = (\<lambda>s. None),
       op_openai_compatible = (\<lambda>s. if s = ''overflow'' then Some (''8,192'', ''8000'') else None),
       op_requested_total = (\<lambda>s. None)\<rparr>\<rparr>"

definition sample_leaf :: leaf_client where
  "sample_leaf = \<lparr>lc_flatten_content = False, lc_min_completion_tokens = 16,
     lc_max_sse_frame_bytes = 1024,
     lc_policies = \<lparr>fp_effort = [], fp_template_family = [], fp_global_template_family = None,
       fp_upstream_chat_kwargs = [], fp_global_upstream_chat_kwargs = []\<rparr>,
     lc_capture_responses = False, lc_tag_primary_provider = False\<rparr>"

definition replying_wire :: "nat \<Rightarrow> string \<Rightarrow> wire" where
  "replying_wire status body = \<lparr>w_post = (\<lambda>n r. Inr \<lparr>hr_status = status, hr_status_line = ''rejected'',
     hr_body = body, hr_bytes = []\<rparr>), w_header_ms = 7\<rparr>"

definition sample_request :: chat_completion_request where
  "sample_request = \<lparr>ccr_model = ''m'', ccr_messages = [], ccr_stream = True, ccr_tools = None,
     ccr_tool_choice = None, ccr_parallel_tool_calls = None, ccr_reasoning_effort = None,
     ccr_response_format = None, ccr_stream_options = None, ccr_temperature = None,
     ccr_top_p = None, ccr_max_output_tokens = None, ccr_frequency_penalty = None,
     ccr_presence_penalty = None, ccr_stop = None, ccr_extra_body = []\<rparr>"

theorem dispatch_error_disposition_witness:
  "\<exists>err. fst (dispatch_chat_stream sample_leaf_env sample_leaf (replying_wire 400 ''overflow'')
      sample_request None) = Inl err \<and> classify_attempt_error err = ClsTerminal"
proof -
  let ?d = "dispatch_chat_stream sample_leaf_env sample_leaf (replying_wire 400 ''overflow'') sample_request None"
  let ?reply = "\<lparr>hr_status = 400, hr_status_line = ''rejected'', hr_body = ''overflow'', hr_bytes = []\<rparr>"
  have o: "overflow_of sample_leaf_env sample_leaf ''overflow'' r \<noteq> None" for r
    by (simp add: overflow_of_def sample_leaf_env_def classify_context_overflow_def Let_def)
  then obtain r1 where o1: "overflow_of sample_leaf_env sample_leaf ''overflow'' sample_request = Some r1"
    by blast
  have final: "final_reply sample_leaf_env sample_leaf (replying_wire 400 ''overflow'') sample_request
      = Some (True, ?reply)"
    using o1 by (simp add: final_reply_def replying_wire_def status_is_success_def)
  have d: "fst ?d = Inl (overflow_persisted_error ?reply)"
    using o [of "retried_request r1 sample_request"] o1
    by (simp add: dispatch_chat_stream_def dispatch_retry_def send_chat_request_def
        replying_wire_def status_is_success_def Let_def case_prod_beta)
  have "err_failover (overflow_persisted_error ?reply) = Terminal"
    by (simp add: overflow_persisted_error_def upstream_with_disposition_def)
  with dispatch_error_disposition [OF d] final d show ?thesis by auto
qed

end
