(* ===== verification/Failover_Correct.thy ===== *)
theory Failover_Correct
  imports Failover Upstream_Leaf_Correct
begin

text \<open>
  Correctness of failover.  The health of every provider is a function of the log of its served
  and failed attempts, in whatever order the flows interleave; the loop over the providers is
  characterised without its recursion: who is tried, what is returned, what is recorded, and which
  health events happen.
\<close>

subsection \<open>Health is a function of the event log\<close>

datatype health_event = HSuccess nat | HFailure nat nat string

text \<open>One atomic step on the shared state; a failure carries the clock and the message.\<close>

fun apply_event :: "health_event \<Rightarrow> failover_client \<Rightarrow> failover_client" where
  "apply_event (HSuccess i) c = mark_provider_success i c"
| "apply_event (HFailure i now msg) c = mark_provider_failure now i msg c"

fun event_provider :: "health_event \<Rightarrow> nat" where
  "event_provider (HSuccess i) = i"
| "event_provider (HFailure i _ _) = i"

definition is_failure :: "health_event \<Rightarrow> bool" where
  "is_failure e = (case e of HFailure _ _ _ \<Rightarrow> True | _ \<Rightarrow> False)"

text \<open>The specification, over the log of one provider.\<close>

definition spec_cooldown :: "nat \<Rightarrow> health_event list \<Rightarrow> provider_cooldown_state" where
  "spec_cooldown cooldown log =
     (case rev log of
        HFailure _ now msg # _ \<Rightarrow>
          \<lparr>pc_cooling_until = (if 0 < cooldown then Some (now + cooldown) else None),
           pc_last_error = Some msg\<rparr>
      | _ \<Rightarrow> cooldown_default)"

definition spec_metrics :: "health_event list \<Rightarrow> provider_metrics" where
  "spec_metrics log =
     \<lparr>pm_served_count = of_nat (length (filter (\<lambda>e. \<not> is_failure e) log)),
      pm_failover_count = of_nat (length (filter is_failure log)),
      pm_consecutive_failures = of_nat (length (takeWhile is_failure (rev log)))\<rparr>"

definition log_of :: "nat \<Rightarrow> health_event list \<Rightarrow> health_event list" where
  "log_of i log = filter (\<lambda>e. event_provider e = i) log"

definition health_refines :: "failover_provider list \<Rightarrow> nat \<Rightarrow> health_event list \<Rightarrow> failover_client \<Rightarrow> bool" where
  "health_refines ps cooldown log c =
     (fo_providers c = ps \<and> fo_cooldown c = cooldown
      \<and> fo_states c = map (\<lambda>i. spec_cooldown cooldown (log_of i log)) [0..<length ps]
      \<and> fo_metrics c = map (\<lambda>i. spec_metrics (log_of i log)) [0..<length ps])"

lemma update_at_map:
  "update_at j f (map g [0..<n]) = map (\<lambda>i. if i = j then f (g i) else g i) [0..<n]"
  by (auto simp: update_at_def slice_get_def list_eq_iff_nth_eq nth_list_update)

lemma log_of_snoc: "log_of i (log @ [e]) = log_of i log @ (if event_provider e = i then [e] else [])"
  by (simp add: log_of_def)

lemma spec_metrics_snoc:
  "spec_metrics (log @ [HSuccess j]) = record_success (spec_metrics log)"
  "spec_metrics (log @ [HFailure j now msg]) = record_failure (spec_metrics log)"
  by (simp_all add: spec_metrics_def record_success_def record_failure_def is_failure_def)

lemma spec_cooldown_snoc:
  "spec_cooldown cooldown (log @ [HSuccess j]) = \<lparr>pc_cooling_until = None, pc_last_error = None\<rparr>"
  "spec_cooldown cooldown (log @ [HFailure j now msg]) =
     \<lparr>pc_cooling_until = (if 0 < cooldown then Some (now + cooldown) else None), pc_last_error = Some msg\<rparr>"
  by (simp_all add: spec_cooldown_def cooldown_default_def)

lemma cooldown_update:
  "(s :: provider_cooldown_state)\<lparr>pc_cooling_until := a, pc_last_error := b\<rparr>
     = \<lparr>pc_cooling_until = a, pc_last_error = b\<rparr>"
  by (cases s) simp

lemma health_step:
  assumes "health_refines ps cooldown log c"
  shows "health_refines ps cooldown (log @ [e]) (apply_event e c)"
proof -
  have st: "fo_states c = map (\<lambda>i. spec_cooldown cooldown (log_of i log)) [0..<length ps]"
    and me: "fo_metrics c = map (\<lambda>i. spec_metrics (log_of i log)) [0..<length ps]"
    and c: "fo_providers c = ps" "fo_cooldown c = cooldown"
    using assms by (simp_all add: health_refines_def)
  show ?thesis
  proof (cases e)
    case (HSuccess j)
    show ?thesis
      unfolding health_refines_def HSuccess apply_event.simps mark_provider_success_def
      by (simp add: st me c update_at_map log_of_snoc spec_metrics_snoc spec_cooldown_snoc cooldown_update)
  next
    case (HFailure j now msg)
    show ?thesis
      unfolding health_refines_def HFailure apply_event.simps mark_provider_failure_def Let_def
      by (simp add: st me c update_at_map log_of_snoc spec_metrics_snoc spec_cooldown_snoc cooldown_update)
  qed
qed

lemma health_fresh: "health_refines ps cooldown [] (failover_new ps cooldown)"
  by (simp add: health_refines_def failover_new_def log_of_def spec_cooldown_def spec_metrics_def
      cooldown_default_def provider_metrics_new_def map_replicate_const)

lemma health_log: "health_refines ps cooldown log (fold apply_event log (failover_new ps cooldown))"
proof (induction log rule: rev_induct)
  case (snoc e log)
  from health_step [OF snoc.IH] show ?case by simp
qed (simp add: health_fresh)

text \<open>
  C25: whatever flows ran and however they interleaved, the cooldown, the last error and the
  counters of every provider are those its own log of served and failed attempts determines: it
  cools exactly when its last event is a failure, until that failure's deadline, and the streak
  counts the failures since its last success (counters wrap at their width).
\<close>

theorem health_is_log:
  "let c = fold apply_event log (failover_new ps cooldown) in
   fo_providers c = ps
   \<and> fo_states c = map (\<lambda>i. spec_cooldown cooldown (log_of i log)) [0..<length ps]
   \<and> fo_metrics c = map (\<lambda>i. spec_metrics (log_of i log)) [0..<length ps]"
  using health_log [of ps cooldown log] by (simp add: health_refines_def Let_def)

text \<open>
  A provider is offered to a flow at a given time exactly when it never failed, served last, or its
  last failure is at least the cooldown ago; the offered providers are in configured order, each
  once.
\<close>

theorem offered_iff_not_cooling:
  "let c = fold apply_event log (failover_new ps cooldown);
       offered = available_provider_indices now c
   in sorted offered \<and> distinct offered
      \<and> (i \<in> set offered \<longleftrightarrow> i < length ps \<and>
          (case rev (log_of i log) of
             HFailure _ failed_at _ # _ \<Rightarrow> cooldown = 0 \<or> failed_at + cooldown \<le> now
           | _ \<Rightarrow> True))"
proof -
  let ?c = "fold apply_event log (failover_new ps cooldown)"
  have r: "health_refines ps cooldown log ?c" by (rule health_log)
  have "cooling_until i ?c = pc_cooling_until (spec_cooldown cooldown (log_of i log))" if "i < length ps"
    using r that by (simp add: cooling_until_def health_refines_def slice_get_def)
  then show ?thesis
    using r by (auto simp: available_provider_indices_def health_refines_def spec_cooldown_def
        cooldown_default_def Let_def sorted_wrt_filter split: list.splits health_event.splits if_splits)
qed

subsection \<open>One attempt, without the shared state\<close>

text \<open>The request a provider's leaf posts, and what its dispatch gives.\<close>

definition posted :: "leaf_env \<Rightarrow> backend_request \<Rightarrow> failover_provider \<Rightarrow> chat_completion_request" where
  "posted E b p = leaf_request E (pr_client p) (request_for_provider p b)"

definition leaf_answer ::
  "leaf_env \<Rightarrow> attempt_env \<Rightarrow> backend_request \<Rightarrow> failover_provider \<Rightarrow> app_error + chunk_item list" where
  "leaf_answer E A b p = fst (dispatch_chat_stream E (pr_client p) (ae_wire A) (posted E b p) None)"

definition outcome :: "leaf_env \<Rightarrow> attempt_env \<Rightarrow> backend_request \<Rightarrow> failover_provider \<Rightarrow> attempt_outcome" where
  "outcome E A b p =
     (case leaf_answer E A b p of
        Inl err \<Rightarrow> if err_failover err = Terminal then AttemptStop err else AttemptNext err
      | Inr stream \<Rightarrow>
          (case prefetch_first_chunk (ae_first_chunk_elapsed A) stream of
             Inr (chunk, rest) \<Rightarrow> AttemptServed chunk rest | Inl err \<Rightarrow> AttemptNext err))"

text \<open>
  A served provider succeeds; a provider fails, and cools, on an error that fails over and on every
  error after the headers of an accepted response; a rejected request leaves no trace.
\<close>

definition events_of :: "leaf_env \<Rightarrow> attempt_env \<Rightarrow> backend_request \<Rightarrow> nat \<Rightarrow> failover_provider \<Rightarrow> health_event list" where
  "events_of E A b i p =
     (case (leaf_answer E A b p, outcome E A b p) of
        (_, AttemptServed _ _) \<Rightarrow> [HSuccess i]
      | (Inl err, _) \<Rightarrow> if err_failover err = Failover then [HFailure i (ae_now A) (err_message err)] else []
      | (Inr _, AttemptNext err) \<Rightarrow> [HFailure i (ae_now A) (err_message err)]
      | (Inr _, AttemptStop err) \<Rightarrow> [])"

definition attempt_of :: "leaf_env \<Rightarrow> attempt_env \<Rightarrow> backend_request \<Rightarrow> failover_provider \<Rightarrow> attempt" where
  "attempt_of E A b p = attempt_capped (failover_attempt p (ae_start_ms A) (ae_end_ms A)
     (ccr_model (bk_request (request_for_provider p b)))
     (header_ms_of (ae_wire A) (posted E b p))
     (case outcome E A b p of AttemptServed _ _ \<Rightarrow> None | AttemptStop e \<Rightarrow> Some e | AttemptNext e \<Rightarrow> Some e))"

definition staged_after :: "leaf_env \<Rightarrow> attempt_env \<Rightarrow> backend_request \<Rightarrow> failover_provider \<Rightarrow> captured_response_body option" where
  "staged_after E A b p =
     (case outcome E A b p of
        AttemptServed _ _ \<Rightarrow> None
      | _ \<Rightarrow> staged_body E (pr_client p) (ae_wire A) (posted E b p))"

lemma nested_leaf:
  assumes "\<not> lc_tag_primary_provider C"
  shows "leaf_stream_chat_completion E C W s e b t =
    dispatch_chat_stream E C W (leaf_request E C b)
      (map_option (set_model_served_final (ccr_model (leaf_request E C b))) t)"
  using assms by (simp add: leaf_stream_chat_completion_def Let_def)

text \<open>The parts of the token a traced flow keeps.\<close>

definition trace_of :: "serving_info option \<Rightarrow> attempt list" where
  "trace_of t = (case t of Some s \<Rightarrow> sv_attempts s | None \<Rightarrow> [])"

definition pending_of :: "serving_info option \<Rightarrow> captured_response_body option" where
  "pending_of t = Option.bind t sv_pending_response_body"

lemma armed_token:
  "sv_attempt_header_byte_ms (set_model_served_final m ((clear_pending_response_body \<circ> arm_attempt_header_byte) s)) = None"
  "sv_pending_response_body (set_model_served_final m ((clear_pending_response_body \<circ> arm_attempt_header_byte) s)) = None"
  "sv_attempts (set_model_served_final m ((clear_pending_response_body \<circ> arm_attempt_header_byte) s)) = sv_attempts s"
  "sv_provider (set_model_served_final m ((clear_pending_response_body \<circ> arm_attempt_header_byte) s)) = sv_provider s"
  by (simp_all add: set_model_served_final_def clear_pending_response_body_def arm_attempt_header_byte_def)

lemma try_provider_outcome:
  assumes "\<not> lc_tag_primary_provider (pr_client p)"
    and "try_provider E A b i p c (Some s) = (r, c', t')"
  shows "r = outcome E A b p" "c' = fold apply_event (events_of E A b i p) c"
    "trace_of t' = sv_attempts s @ [attempt_of E A b p]" "pending_of t' = staged_after E A b p"
    "t' \<noteq> None"
    "map_option sv_provider t' = Some (case outcome E A b p of
        AttemptServed _ _ \<Rightarrow> (case sv_provider s of None \<Rightarrow> Some (pr_name p) | x \<Rightarrow> x)
      | _ \<Rightarrow> sv_provider s)"
proof -
  let ?C = "pr_client p" and ?W = "ae_wire A" and ?r = "posted E b p"
  let ?s = "set_model_served_final (ccr_model ?r) ((clear_pending_response_body \<circ> arm_attempt_header_byte) s)"
  let ?t = "dispatched_token E ?C ?W ?r ?s"
  have arm: "sv_attempt_header_byte_ms ?s = None" "sv_pending_response_body ?s = None"
    "sv_attempts ?s = sv_attempts s" "sv_provider ?s = sv_provider s"
    by (rule armed_token)+
  have t: "sv_attempts ?t = sv_attempts s" "sv_provider ?t = sv_provider s"
    "sv_attempt_header_byte_ms ?t = header_ms_of ?W ?r"
    "sv_pending_response_body ?t = staged_body E ?C ?W ?r"
    by (simp_all add: dispatched_token_def arm [simplified])
  obtain t1 sent where leaf: "leaf_stream_chat_completion E ?C ?W (ae_start_ms A) (ae_end_ms A)
      (request_for_provider p b) (Some ((clear_pending_response_body \<circ> arm_attempt_header_byte) s))
      = (leaf_answer E A b p, Some t1, sent)"
    and t1: "sv_attempts t1 = sv_attempts s" "sv_provider t1 = sv_provider s"
      "take_attempt_header_byte t1 = header_ms_of ?W ?r"
      "sv_pending_response_body t1 = staged_body E ?C ?W ?r"
  proof -
    obtain sent where "leaf_stream_chat_completion E ?C ?W (ae_start_ms A) (ae_end_ms A)
        (request_for_provider p b) (Some ((clear_pending_response_body \<circ> arm_attempt_header_byte) s))
      = (leaf_answer E A b p, Some ?t, sent)"
      using dispatch_token [OF arm(1,2), of E ?C ?W ?r]
        dispatch_result_token [of E ?C ?W ?r "Some ?s" None]
      by (cases "dispatch_chat_stream E ?C ?W ?r (Some ?s)")
        (auto simp: nested_leaf [OF assms(1)] leaf_answer_def posted_def)
    with that t show ?thesis unfolding take_attempt_header_byte_def by blast
  qed
  have stp: "try_provider E A b i p c (Some s) =
    (let record = (\<lambda>err. map_option (record_attempt (failover_attempt p (ae_start_ms A) (ae_end_ms A)
           (ccr_model (bk_request (request_for_provider p b))) (header_ms_of ?W ?r) err)))
     in case leaf_answer E A b p of
          Inl err \<Rightarrow>
            (case err_failover err of
               Terminal \<Rightarrow> (AttemptStop err, c, record (Some err) (Some t1))
             | FailoverNoCooldown \<Rightarrow> (AttemptNext err, c, record (Some err) (Some t1))
             | Failover \<Rightarrow> (AttemptNext err, mark_failure (ae_now A) i err c, record (Some err) (Some t1)))
        | Inr stream \<Rightarrow>
            (case prefetch_first_chunk (ae_first_chunk_elapsed A) stream of
               Inr (chunk, rest) \<Rightarrow> (AttemptServed chunk rest, mark_provider_success i c,
                  record None (Some ((clear_pending_response_body \<circ> set_provider (pr_name p)) t1)))
             | Inl err \<Rightarrow> (AttemptNext err, mark_failure (ae_now A) i err c, record (Some err) (Some t1))))"
    by (simp only: try_provider_def Let_def option.map(2) leaf prod.case
        bind.simps(2) t1(3))
  note facts = outcome_def events_of_def attempt_of_def staged_after_def trace_of_def pending_of_def
    mark_failure_def
  have all: "r = outcome E A b p \<and> c' = fold apply_event (events_of E A b i p) c
    \<and> trace_of t' = sv_attempts s @ [attempt_of E A b p] \<and> pending_of t' = staged_after E A b p
    \<and> t' \<noteq> None \<and> map_option sv_provider t' = Some (case outcome E A b p of
        AttemptServed _ _ \<Rightarrow> (case sv_provider s of None \<Rightarrow> Some (pr_name p) | x \<Rightarrow> x)
      | _ \<Rightarrow> sv_provider s)"
  proof (cases "leaf_answer E A b p")
    case (Inl err)
    with assms(2) show ?thesis
      unfolding stp Let_def by (cases "err_failover err") (auto simp: facts Inl t1)
  next
    case (Inr stream)
    show ?thesis
    proof (cases "prefetch_first_chunk (ae_first_chunk_elapsed A) stream")
      case I: (Inl err)
      with Inr assms(2) show ?thesis unfolding stp Let_def by (auto simp: facts t1)
    next
      case R: (Inr x)
      with Inr assms(2) show ?thesis unfolding stp Let_def
        by (cases x) (auto simp: facts t1 set_provider_def clear_pending_response_body_def split: option.split)
    qed
  qed
  then show "r = outcome E A b p" "c' = fold apply_event (events_of E A b i p) c"
    "trace_of t' = sv_attempts s @ [attempt_of E A b p]" "pending_of t' = staged_after E A b p"
    "t' \<noteq> None"
    "map_option sv_provider t' = Some (case outcome E A b p of
        AttemptServed _ _ \<Rightarrow> (case sv_provider s of None \<Rightarrow> Some (pr_name p) | x \<Rightarrow> x)
      | _ \<Rightarrow> sv_provider s)"
    by blast+
qed

subsection \<open>The loop without its recursion\<close>

definition moves_on :: "attempt_outcome \<Rightarrow> bool" where
  "moves_on o' = (case o' of AttemptNext _ \<Rightarrow> True | _ \<Rightarrow> False)"

definition next_error :: "attempt_outcome \<Rightarrow> app_error" where
  "next_error o' = (case o' of AttemptNext e \<Rightarrow> e
     | _ \<Rightarrow> upstream_error ''all upstream providers failed before producing a response'')"

text \<open>The providers that are tried: up to and with the first that serves or stops.\<close>

definition tried :: "(nat \<Rightarrow> attempt_outcome) \<Rightarrow> nat list \<Rightarrow> nat list" where
  "tried oc is = takeWhile (\<lambda>i. moves_on (oc i)) is @ take 1 (dropWhile (\<lambda>i. moves_on (oc i)) is)"

definition final_result :: "(nat \<Rightarrow> attempt_outcome) \<Rightarrow> app_error \<Rightarrow> nat list \<Rightarrow> app_error + served_stream" where
  "final_result oc err is =
     (case dropWhile (\<lambda>i. moves_on (oc i)) is of
        [] \<Rightarrow> Inl (case rev is of i # _ \<Rightarrow> next_error (oc i) | [] \<Rightarrow> err)
      | i # _ \<Rightarrow> (case oc i of AttemptServed chunk rest \<Rightarrow> Inr (i, chunk, rest)
                 | AttemptStop e \<Rightarrow> Inl e | AttemptNext e \<Rightarrow> Inl e))"

lemma apply_event_static [simp]: "fo_providers (apply_event e c) = fo_providers c"
  by (cases e) (simp_all add: mark_provider_success_def mark_provider_failure_def Let_def)

lemma fold_event_static [simp]: "fo_providers (fold apply_event es c) = fo_providers c"
  by (induction es arbitrary: c) simp_all

lemma final_result_Cons:
  "moves_on (oc i) \<Longrightarrow> final_result oc err (i # is) = final_result oc (next_error (oc i)) is"
  by (cases "dropWhile (\<lambda>i. moves_on (oc i)) is"; cases "is" rule: rev_cases)
    (simp_all add: final_result_def)

lemma final_result_error:
  "is \<noteq> [] \<Longrightarrow> final_result oc e is = final_result oc e' is"
  by (cases "dropWhile (\<lambda>i. moves_on (oc i)) is"; cases "is" rule: rev_cases)
    (simp_all add: final_result_def)

lemma failover_loop:
  assumes "list_all (\<lambda>i. i < length ps \<and> \<not> lc_tag_primary_provider (pr_client (ps ! i))) is"
    and "fo_providers c = ps" and "oc = (\<lambda>i. outcome E (A i) b (ps ! i))"
    and "err = (case last_error of Some e \<Rightarrow> e
      | None \<Rightarrow> upstream_error ''all upstream providers failed before producing a response'')"
  shows "\<exists>c' t'. stream_with_provider_indices E A b is last_error c (Some s) = Some (final_result oc err is, c', t')
    \<and> c' = fold apply_event (concat (map (\<lambda>i. events_of E (A i) b i (ps ! i)) (tried oc is))) c
    \<and> trace_of t' = sv_attempts s @ map (\<lambda>i. attempt_of E (A i) b (ps ! i)) (tried oc is)
    \<and> (case rev (tried oc is) of [] \<Rightarrow> True
        | i # _ \<Rightarrow> pending_of t' = staged_after E (A i) b (ps ! i))"
  using assms
proof (induction "is" arbitrary: last_error err c s)
  case Nil
  then show ?case by (auto simp: final_result_def tried_def trace_of_def)
next
  case (Cons i "is")
  have i: "slice_get (fo_providers c) i = Some (ps ! i)" "\<not> lc_tag_primary_provider (pr_client (ps ! i))"
    using Cons.prems(1,2) by (auto simp: slice_get_def)
  obtain r c1 t1 where stp: "try_provider E (A i) b i (ps ! i) c (Some s) = (r, c1, t1)"
    by (cases "try_provider E (A i) b i (ps ! i) c (Some s)")
  note out = try_provider_outcome [OF i(2) stp]
  have r: "r = oc i" using out(1) Cons.prems(3) by simp
  show ?case
  proof (cases "oc i")
    case (AttemptNext e)
    obtain s1 where s1: "t1 = Some s1" using out(5) by blast
    have mo: "moves_on (oc i)" and ne: "next_error (oc i) = e"
      by (simp_all add: AttemptNext moves_on_def next_error_def)
    have tr: "tried oc (i # is) = i # tried oc is" using mo by (simp add: tried_def)
    have "\<exists>c' t'. stream_with_provider_indices E A b is (Some e) c1 (Some s1) = Some (final_result oc e is, c', t')
      \<and> c' = fold apply_event (concat (map (\<lambda>i. events_of E (A i) b i (ps ! i)) (tried oc is))) c1
      \<and> trace_of t' = sv_attempts s1 @ map (\<lambda>i. attempt_of E (A i) b (ps ! i)) (tried oc is)
      \<and> (case rev (tried oc is) of [] \<Rightarrow> True
          | i # _ \<Rightarrow> pending_of t' = staged_after E (A i) b (ps ! i))"
      using Cons.prems out(2) by (intro Cons.IH) simp_all
    then obtain c' t' where rest:
      "stream_with_provider_indices E A b is (Some e) c1 (Some s1) = Some (final_result oc e is, c', t')"
      "c' = fold apply_event (concat (map (\<lambda>i. events_of E (A i) b i (ps ! i)) (tried oc is))) c1"
      "trace_of t' = sv_attempts s1 @ map (\<lambda>i. attempt_of E (A i) b (ps ! i)) (tried oc is)"
      "case rev (tried oc is) of [] \<Rightarrow> True | i # _ \<Rightarrow> pending_of t' = staged_after E (A i) b (ps ! i)"
      by blast
    have "stream_with_provider_indices E A b (i # is) last_error c (Some s)
        = Some (final_result oc err (i # is), c', t')"
    proof -
      have "final_result oc err (i # is) = final_result oc e is"
        by (simp only: final_result_Cons [of oc i, OF mo] ne)
      with rest(1) show ?thesis by (simp add: i(1) stp r AttemptNext s1)
    qed
    moreover have "trace_of t' = sv_attempts s @ map (\<lambda>i. attempt_of E (A i) b (ps ! i)) (tried oc (i # is))"
      using rest(3) out(3) by (simp add: tr s1 trace_of_def)
    moreover have "case rev (tried oc (i # is)) of [] \<Rightarrow> True
        | i # _ \<Rightarrow> pending_of t' = staged_after E (A i) b (ps ! i)"
    proof (cases "is")
      case Nil
      with rest(1) out(4) show ?thesis by (simp add: tried_def mo s1)
    next
      case (Cons j js)
      then have "tried oc is \<noteq> []" by (simp add: tried_def)
      with rest(4) show ?thesis by (cases "rev (tried oc is)") (simp_all add: tr)
    qed
    ultimately show ?thesis
      using rest(2) out(2) by (simp add: tr)
  qed (use i(1) stp r out in \<open>auto simp: final_result_def tried_def moves_on_def\<close>)
qed

text \<open>
  C10: a chat flow over a failover chain tries the offered providers in order, each at most once, up
  to the first that serves or ends terminally; its result is that provider's, else the last error.
  The trace records exactly the tried providers in order, and the shared health changes by exactly
  their events: success for the serving one, failure for one that failed over, nothing for a
  rejected request or a terminal end.  The staged error body is that of the last attempt.
\<close>

theorem failover_flow_characterised:
  assumes "offered = available_provider_indices now c" and "offered \<noteq> []"
    and "list_all (\<lambda>p. \<not> lc_tag_primary_provider (pr_client p)) (fo_providers c)"
    and "oc = (\<lambda>i. outcome E (A i) b (fo_providers c ! i))"
  shows "\<exists>c' t'. stream_chat_completion_with_timeout E now A b c (Some s)
      = Some (final_result oc (next_error (oc 0)) offered, c', t')
    \<and> distinct (tried oc offered) \<and> prefix (tried oc offered) offered
    \<and> trace_of t' = sv_attempts s @ map (\<lambda>i. attempt_of E (A i) b (fo_providers c ! i)) (tried oc offered)
    \<and> c' = fold apply_event
        (concat (map (\<lambda>i. events_of E (A i) b i (fo_providers c ! i)) (tried oc offered))) c
    \<and> pending_of t' = staged_after E (A (last (tried oc offered))) b (fo_providers c ! last (tried oc offered))"
proof -
  let ?ps = "fo_providers c"
  have idx: "list_all (\<lambda>i. i < length ?ps \<and> \<not> lc_tag_primary_provider (pr_client (?ps ! i))) offered"
    using assms(1,3) by (auto simp: available_provider_indices_def list_all_iff)
  obtain c' t' where res:
    "stream_with_provider_indices E A b offered None c (Some s) = Some (final_result oc
       (upstream_error ''all upstream providers failed before producing a response'') offered, c', t')"
    "c' = fold apply_event (concat (map (\<lambda>i. events_of E (A i) b i (?ps ! i)) (tried oc offered))) c"
    "trace_of t' = sv_attempts s @ map (\<lambda>i. attempt_of E (A i) b (?ps ! i)) (tried oc offered)"
    "case rev (tried oc offered) of [] \<Rightarrow> True | i # _ \<Rightarrow> pending_of t' = staged_after E (A i) b (?ps ! i)"
    using failover_loop [OF idx refl assms(4) refl, of None s] by auto
  note err = final_result_error [OF assms(2), of oc]
  have pre: "prefix (tried oc offered) offered"
    unfolding tried_def using take_is_prefix [of 1 "dropWhile (\<lambda>i. moves_on (oc i)) offered"]
    by (metis same_prefix_prefix takeWhile_dropWhile_id)
  have "distinct offered" by (simp add: assms(1) available_provider_indices_def)
  with pre have dist: "distinct (tried oc offered)" by (metis distinct_append prefix_def)
  have "tried oc offered \<noteq> []" using assms(2) by (cases offered) (auto simp: tried_def)
  with res(4) have "pending_of t' = staged_after E (A (last (tried oc offered))) b (?ps ! last (tried oc offered))"
    by (cases "tried oc offered" rule: rev_cases) simp_all
  with res(1-3) pre dist err [of _ "next_error (oc 0)"] assms(1,2) show ?thesis
    by (auto simp: stream_chat_completion_with_timeout_def Let_def)
qed

definition refusing_env :: attempt_env where
  "refusing_env = \<lparr>ae_wire = \<lparr>w_post = (\<lambda>n r. Inl ''refused''), w_header_ms = 0\<rparr>, ae_start_ms = 1,
     ae_end_ms = 2, ae_now = 5, ae_first_chunk_elapsed = False\<rparr>"

definition sample_provider :: failover_provider where
  "sample_provider = \<lparr>pr_name = ''a'', pr_base_url = ''http://a'', pr_client = sample_leaf,
     pr_upstream_model = None, pr_exposed_model = None, pr_upstream_chat_kwargs = []\<rparr>"

theorem failover_flow_characterised_witness:
  "\<exists>c' t'. stream_chat_completion_with_timeout sample_leaf_env 0 (\<lambda>i. refusing_env)
      (backend_request_new sample_request None) (failover_new [sample_provider] 1000) (Some serving_default)
    = Some (Inl (upstream_error ''upstream chat request failed: refused''), c', t')
    \<and> length (trace_of t') = 1 \<and> cooling_until 0 c' = Some 1005"
proof -
  let ?c = "failover_new [sample_provider] 1000" and ?b = "backend_request_new sample_request None"
  let ?oc = "\<lambda>i. outcome sample_leaf_env refusing_env ?b (fo_providers ?c ! i)"
  let ?e = "upstream_error ''upstream chat request failed: refused''"
  have avail: "[0] = available_provider_indices 0 ?c"
    by (simp add: available_provider_indices_def failover_new_def cooling_until_def slice_get_def
        cooldown_default_def)
  have untagged: "list_all (\<lambda>p. \<not> lc_tag_primary_provider (pr_client p)) (fo_providers ?c)"
    by (simp add: failover_new_def sample_provider_def sample_leaf_def)
  have ans: "leaf_answer sample_leaf_env refusing_env ?b p = Inl ?e" for p
    by (simp add: leaf_answer_def dispatch_chat_stream_def send_chat_request_def refusing_env_def)
  have fo: "err_failover ?e = Failover" by (simp add: app_error_defs)
  have oc: "?oc i = AttemptNext ?e" for i
    by (simp add: outcome_def ans fo)
  have tr: "tried ?oc [0] = [0]" by (simp add: tried_def oc moves_on_def)
  have ev: "events_of sample_leaf_env refusing_env ?b 0 p = [HFailure 0 5 (err_message ?e)]" for p
    by (simp add: events_of_def ans fo outcome_def) (simp add: refusing_env_def)
  have res: "final_result ?oc (next_error (?oc 0)) [0] = Inl ?e"
    by (simp add: final_result_def oc moves_on_def next_error_def)
  have cool: "cooling_until 0 (apply_event (HFailure 0 5 (err_message ?e)) ?c) = Some 1005"
    by (simp add: mark_provider_failure_def failover_new_def update_at_def slice_get_def cooling_until_def
        cooldown_default_def Let_def)
  from failover_flow_characterised [OF avail _ untagged refl, of sample_leaf_env "\<lambda>i. refusing_env" ?b serving_default]
  obtain c' t' where "stream_chat_completion_with_timeout sample_leaf_env 0 (\<lambda>i. refusing_env) ?b ?c (Some serving_default)
      = Some (final_result ?oc (next_error (?oc 0)) [0], c', t')"
    "trace_of t' = sv_attempts serving_default
       @ map (\<lambda>i. attempt_of sample_leaf_env refusing_env ?b (fo_providers ?c ! i)) (tried ?oc [0])"
    "c' = fold apply_event (concat (map (\<lambda>i. events_of sample_leaf_env refusing_env ?b i (fo_providers ?c ! i))
        (tried ?oc [0]))) ?c"
    by auto
  then show ?thesis
    unfolding res tr using cool by (simp add: ev serving_default_def)
qed

subsection \<open>The reported status\<close>

lemma of_nat_word32: "n < 2 ^ 32 \<Longrightarrow> (3 :: 32 word) \<le> of_nat n \<longleftrightarrow> 3 \<le> n"
  by (simp add: word_le_nat_alt unat_of_nat take_bit_nat_eq_self)

definition failure_streak :: "nat \<Rightarrow> health_event list \<Rightarrow> nat" where
  "failure_streak i log = length (takeWhile is_failure (rev (log_of i log)))"

definition cools_at :: "nat \<Rightarrow> nat \<Rightarrow> nat \<Rightarrow> health_event list \<Rightarrow> bool" where
  "cools_at now cooldown i log = (case rev (log_of i log) of
     HFailure _ t _ # _ \<Rightarrow> 0 < cooldown \<and> now < t + cooldown | _ \<Rightarrow> False)"

lemma failure_streak_le: "failure_streak i log \<le> length log"
  unfolding failure_streak_def log_of_def
  by (rule le_trans [OF length_takeWhile_le]) simp

text \<open>
  The reported status of a provider, when no event falls between the two reads of the snapshot:
  healthy unless its last event is a failure within the cooldown; then down from the third failure
  in a row on, else cooling, and a cooling provider reports at least one failure.
\<close>

theorem health_status_by_log:
  assumes "c = fold apply_event log (failover_new ps cooldown)" and "i < length ps" and "length log < 2 ^ 32"
  shows "let h = provider_health_with_route now epoch_ms route meta c c ! i in
    ph_id h = pr_name (ps ! i)
    \<and> ph_status h = (if cools_at now cooldown i log
        then (if 3 \<le> failure_streak i log then Down else Cooling) else Healthy)
    \<and> (if ph_status h = Healthy then ph_cooling_until_ms h = None
       else ph_cooling_until_ms h \<noteq> None \<and> ph_consecutive_failures h \<noteq> 0)"
proof -
  have r: "health_refines ps cooldown log c" unfolding assms(1) by (rule health_log)
  let ?s = "spec_cooldown cooldown (log_of i log)" and ?m = "spec_metrics (log_of i log)"
  have h: "provider_health_with_route now epoch_ms route meta c c ! i
      = provider_health_entry now epoch_ms route meta (ps ! i) (pc_cooling_until ?s, pc_last_error ?s) ?m"
    using r assms(2) by (simp add: provider_health_with_route_def health_refines_def Let_def slice_get_def)
  have streak: "failure_streak i log < 2 ^ 32" using failure_streak_le [of i log] assms(3) by simp
  have m: "pm_consecutive_failures ?m = of_nat (failure_streak i log)"
    by (simp add: spec_metrics_def failure_streak_def)
  have cool: "(case pc_cooling_until ?s of Some u \<Rightarrow> now < u | None \<Rightarrow> False) = cools_at now cooldown i log"
    by (auto simp: spec_cooldown_def cooldown_default_def cools_at_def split: list.split health_event.split)
  have pos: "0 < failure_streak i log" if "cools_at now cooldown i log"
    using that by (auto simp: cools_at_def failure_streak_def is_failure_def split: list.splits health_event.splits)
  then have nz: "(of_nat (failure_streak i log) :: 32 word) \<noteq> 0" if "cools_at now cooldown i log"
    using that streak by (simp add: word_unat_eq_iff unat_of_nat take_bit_nat_eq_self)
  have ci: "pc_cooling_until ?s \<noteq> None" if "cools_at now cooldown i log"
    using that cool by (auto split: option.splits)
  show ?thesis
    unfolding h Let_def provider_health_entry_def prod.case cool m
    using nz ci of_nat_word32 [OF streak]
    by (auto simp: down_threshold_def instant_deadline_to_epoch_ms_def)
qed

theorem health_status_by_log_witness:
  "ph_status (provider_health_with_route 8 0 None catalog_meta_default
      (fold apply_event [HFailure 0 1 ''x'', HFailure 0 2 ''x'', HFailure 0 3 ''x''] (failover_new [sample_provider] 10))
      (fold apply_event [HFailure 0 1 ''x'', HFailure 0 2 ''x'', HFailure 0 3 ''x''] (failover_new [sample_provider] 10)) ! 0)
   = Down"
proof -
  let ?log = "[HFailure 0 1 ''x'', HFailure 0 2 ''x'', HFailure 0 3 ''x'']"
  have "cools_at 8 10 0 ?log" "3 \<le> failure_streak 0 ?log"
    by (simp_all add: cools_at_def failure_streak_def log_of_def is_failure_def)
  then show ?thesis
    using health_status_by_log [of _ ?log "[sample_provider]" 10 0 8 0 None catalog_meta_default, OF refl]
    by (simp add: Let_def)
qed

text \<open>
  A success between the two reads: the snapshot pairs the old deadline with the new streak, a
  provider that cools after no failure.
\<close>

theorem torn_health_read:
  "let c = mark_provider_failure 1 0 ''x'' (failover_new [sample_provider] 10);
       h = provider_health_with_route 2 0 None catalog_meta_default c (mark_provider_success 0 c) ! 0
   in ph_status h = Cooling \<and> ph_consecutive_failures h = 0"
  by (simp add: mark_provider_failure_def mark_provider_success_def failover_new_def update_at_def
      slice_get_def cooldown_default_def provider_health_with_route_def provider_health_entry_def
      record_failure_def record_success_def provider_metrics_new_def down_threshold_def Let_def)

end
