(* ===== verification/Routing_Correct.thy ===== *)
theory Routing_Correct
  imports Routing Failover_Correct Backend_Request_Correct
begin

text \<open>
  What the routing client guarantees: the catalog a refresh builds is well formed, every advertised
  model resolves to itself, a resolution never leaves the configured providers and routes, and a
  dispatched request only ever reaches a provider under a model of its candidate plan.
\<close>

subsection \<open>The catalog a refresh builds\<close>

definition provider_ok :: "routing_provider \<Rightarrow> bool" where
  "provider_ok p = list_all (\<lambda>(m, j). j < length (fo_providers (rp_client p))) (rp_fallback_exposed_models p)"

definition target_ok :: "routing_provider list \<Rightarrow> routing_model_candidate \<Rightarrow> bool" where
  "target_ok ps c = (rmc_provider_index c < length ps \<and> (case rmc_target c of
     Primary \<Rightarrow> True
   | Fallback j \<Rightarrow> j < length (fo_providers (rp_client (ps ! rmc_provider_index c)))))"

lemma routing_provider_new_ok:
  "provider_ok (routing_provider_new name url client model kwargs fallbacks cooldown)"
  by (auto simp: provider_ok_def routing_provider_new_def failover_new_def list_all_iff
      map_filter_def in_set_enumerate_eq)

text \<open>A candidate as it is listed: its own id in the union, its key not blank, its target in range.\<close>

definition listed :: "routing_provider list \<Rightarrow> string set \<Rightarrow> routing_model_candidate \<Rightarrow> bool" where
  "listed ps ids c = (target_ok ps c \<and> rmc_model_id c \<in> ids \<and> canonical_model_key (rmc_model_id c) \<noteq> [])"

definition all_candidates :: "provider_model_catalog \<Rightarrow> routing_model_catalog \<Rightarrow> routing_model_candidate list" where
  "all_candidates pc cat = concat (map pmc_candidates (cat_provider_catalogs cat)) @ pmc_candidates pc"

text \<open>The invariant of the refresh, with the catalog of the provider being read.\<close>

definition catalog_inv :: "routing_provider list \<Rightarrow> provider_model_catalog \<Rightarrow> routing_model_catalog \<Rightarrow> bool" where
  "catalog_inv ps pc cat =
     (distinct (cat_union_ids cat) \<and> length (cat_union_entries cat) = length (cat_union_ids cat)
      \<and> set (cat_union_ids cat) = rmc_model_id ` set (all_candidates pc cat)
      \<and> take 1 (cat_union_ids cat) = take 1 (map rmc_model_id (all_candidates pc cat))
      \<and> (\<forall>c \<in> set (all_candidates pc cat). listed ps (set (cat_union_ids cat)) c)
      \<and> (\<forall>k c. c \<in> set (cat_ids_by_key cat k) \<longrightarrow>
           listed ps (set (cat_union_ids cat)) c \<and> canonical_model_key (rmc_model_id c) = k)
      \<and> (\<forall>m \<in> set (cat_union_ids cat). m \<in> rmc_model_id ` set (cat_ids_by_key cat (canonical_model_key m))))"

lemma listed_mono: "listed ps ids c \<Longrightarrow> ids \<subseteq> ids' \<Longrightarrow> listed ps ids' c"
  by (auto simp: listed_def)

lemma register_effect:
  assumes "register_routing_model i (m, e, t) (pc, cat) = (pc', cat')"
    and "c = \<lparr>rmc_provider_index = i, rmc_model_id = m, rmc_target = t\<rparr>"
    and "canonical_model_key m \<noteq> []"
  shows "pmc_candidates pc' = (if m \<in> rmc_model_id ` set (pmc_candidates pc) then pmc_candidates pc
      else pmc_candidates pc @ [c])"
    "cat_provider_catalogs cat' = cat_provider_catalogs cat"
    "cat_ids_by_key cat' = (cat_ids_by_key cat)(canonical_model_key m :=
       cat_ids_by_key cat (canonical_model_key m) @ [c])"
    "cat_union_ids cat' = (if m \<in> set (cat_union_ids cat) then cat_union_ids cat else cat_union_ids cat @ [m])"
    "length (cat_union_entries cat') = length (cat_union_entries cat)
       + (if m \<in> set (cat_union_ids cat) then 0 else 1)"
  using assms
  by (auto simp: register_routing_model_def Let_def list_ex_iff image_iff split: if_splits option.splits)

lemma register_blank:
  "canonical_model_key m = [] \<Longrightarrow> register_routing_model i (m, e, t) s = s"
  by (cases s) (simp add: register_routing_model_def Let_def)

lemma register_inv:
  assumes "catalog_inv ps pc cat" and "target_ok ps \<lparr>rmc_provider_index = i, rmc_model_id = m, rmc_target = t\<rparr>"
    and "register_routing_model i (m, e, t) (pc, cat) = (pc', cat')"
  shows "catalog_inv ps pc' cat'"
proof (cases "canonical_model_key m = []")
  case True
  with assms show ?thesis by (simp add: register_blank)
next
  case False
  let ?c = "\<lparr>rmc_provider_index = i, rmc_model_id = m, rmc_target = t\<rparr>"
  let ?U = "set (cat_union_ids cat)" and ?A = "set (all_candidates pc cat)"
  note eff = register_effect [OF assms(3) refl False]
  have U: "set (cat_union_ids cat') = insert m ?U" by (auto simp: eff(4))
  have A: "set (all_candidates pc' cat') \<subseteq> insert ?c ?A" "?A \<subseteq> set (all_candidates pc' cat')"
    by (auto simp: all_candidates_def eff(1,2))
  have ids: "rmc_model_id ` set (all_candidates pc' cat') = insert m (rmc_model_id ` ?A)"
    by (auto simp: all_candidates_def eff(1,2))
  have new: "listed ps (insert m ?U) ?c" using False assms(2) by (simp add: listed_def)
  have old: "listed ps (insert m ?U) x" if "listed ps ?U x" for x
    using that by (rule listed_mono) blast
  note inv = assms(1) [unfolded catalog_inv_def]
  have 1: "distinct (cat_union_ids cat')" "length (cat_union_entries cat') = length (cat_union_ids cat')"
    using inv by (auto simp: eff(4,5))
  have 2: "\<forall>x \<in> set (all_candidates pc' cat'). listed ps (set (cat_union_ids cat')) x"
    using inv A(1) new old unfolding U by blast
  have 3: "\<forall>k x. x \<in> set (cat_ids_by_key cat' k) \<longrightarrow>
      listed ps (set (cat_union_ids cat')) x \<and> canonical_model_key (rmc_model_id x) = k"
    using inv new old unfolding U by (auto simp: eff(3))
  have keyed: "\<forall>x \<in> ?U. x \<in> rmc_model_id ` set (cat_ids_by_key cat (canonical_model_key x))"
    using inv by blast
  have grows: "set (cat_ids_by_key cat k) \<subseteq> set (cat_ids_by_key cat' k)" for k
    by (auto simp: eff(3))
  have "?c \<in> set (cat_ids_by_key cat' (canonical_model_key m))" by (simp add: eff(3))
  then have "m \<in> rmc_model_id ` set (cat_ids_by_key cat' (canonical_model_key m))" by force
  then have 4: "\<forall>x \<in> set (cat_union_ids cat'). x \<in> rmc_model_id ` set (cat_ids_by_key cat' (canonical_model_key x))"
    unfolding U using keyed image_mono [OF grows, of rmc_model_id] by blast
  have 5: "take 1 (cat_union_ids cat') = take 1 (map rmc_model_id (all_candidates pc' cat'))"
  proof (cases "all_candidates pc cat")
    case Nil
    then have "cat_union_ids cat = []" using inv by simp
    moreover have "concat (map pmc_candidates (cat_provider_catalogs cat)) = []" "pmc_candidates pc = []"
      using Nil by (simp_all only: all_candidates_def append_is_Nil_conv)
    ultimately show ?thesis by (simp add: all_candidates_def eff(1,2,4) del: concat_eq_Nil_conv)
  next
    case (Cons a as)
    then have "take 1 (cat_union_ids cat') = take 1 (cat_union_ids cat)"
      using inv by (cases "cat_union_ids cat") (auto simp: eff(4))
    moreover obtain zs where "all_candidates pc' cat' = all_candidates pc cat @ zs"
      by (cases "m \<in> rmc_model_id ` set (pmc_candidates pc)") (auto simp: all_candidates_def eff(1,2))
    then have "take 1 (all_candidates pc' cat') = take 1 (all_candidates pc cat)" using Cons by simp
    ultimately show ?thesis using inv by (simp add: take_map)
  qed
  show ?thesis
    unfolding catalog_inv_def using 1 2 3 4 5 inv by (simp add: U ids)
qed

lemma fold_register_inv:
  assumes "catalog_inv ps pc cat"
    and "list_all (\<lambda>(m, e, t). target_ok ps \<lparr>rmc_provider_index = i, rmc_model_id = m, rmc_target = t\<rparr>) ms"
    and "fold (register_routing_model i) ms (pc, cat) = (pc', cat')"
  shows "catalog_inv ps pc' cat'"
  using assms
proof (induction ms arbitrary: pc cat)
  case (Cons x ms)
  obtain m e t where x: "x = (m, e, t)" by (cases x)
  obtain pc1 cat1 where r: "register_routing_model i (m, e, t) (pc, cat) = (pc1, cat1)" by fastforce
  have "catalog_inv ps pc1 cat1" using Cons.prems(1,2) r by (auto simp: x intro: register_inv)
  with Cons show ?case by (simp add: x r)
qed simp

lemma catalog_inv_default: "catalog_inv ps provider_catalog_default catalog_default"
  by (simp add: catalog_inv_def catalog_default_def provider_catalog_default_def all_candidates_def)

lemma catalog_inv_cong:
  assumes "all_candidates pc cat = all_candidates pc' cat'" "cat_union_ids cat = cat_union_ids cat'"
    and "cat_union_entries cat = cat_union_entries cat'" "cat_ids_by_key cat = cat_ids_by_key cat'"
  shows "catalog_inv ps pc cat = catalog_inv ps pc' cat'"
  by (simp only: catalog_inv_def assms)

lemma catalog_inv_push:
  "catalog_inv ps provider_catalog_default (cat\<lparr>cat_provider_catalogs := cat_provider_catalogs cat @ [pc]\<rparr>)
     = catalog_inv ps pc cat"
  by (rule catalog_inv_cong) (simp_all add: all_candidates_def provider_catalog_default_def)

lemma catalog_inv_routes:
  "catalog_inv ps pc (cat\<lparr>cat_routes := rs\<rparr>) = catalog_inv ps pc cat"
  by (rule catalog_inv_cong) (simp_all add: all_candidates_def)

lemma register_provider_inv:
  assumes "catalog_inv ps provider_catalog_default cat" "i < length ps" "provider_ok (ps ! i)"
  shows "catalog_inv ps provider_catalog_default (register_provider i entries (ps ! i) cat)"
proof -
  obtain pc cat' where f: "fold (register_routing_model i) (provider_models entries (ps ! i))
      (provider_catalog_default, cat) = (pc, cat')" by fastforce
  have "catalog_inv ps pc cat'"
    using assms by (intro fold_register_inv [OF assms(1) _ f])
      (auto simp: provider_models_def list_all_iff target_ok_def provider_ok_def)
  then show ?thesis by (simp add: register_provider_def f catalog_inv_push)
qed

lemma refresh_from_inv:
  assumes "catalog_inv ps provider_catalog_default cat" "drop i ps = qs" "list_all provider_ok ps"
    and "i \<le> length ps"
  shows "catalog_inv ps provider_catalog_default (fst (refresh_from J get i qs (cat, e)))"
  using assms
proof (induction qs arbitrary: i cat e)
  case (Cons p qs)
  from Cons.prems(2) have i: "i < length ps" by (metis drop_all list.distinct(1) not_le)
  with Cons.prems(2) have p: "ps ! i = p" and qs: "drop (Suc i) ps = qs"
    by (metis Cons_nth_drop_Suc list.inject)+
  have ok: "provider_ok (ps ! i)" using i Cons.prems(3) by (simp add: list_all_length)
  note reg = register_provider_inv [OF Cons.prems(1) i ok, unfolded p]
  show ?case
    using Cons.IH [OF reg qs Cons.prems(3)] i
    by (simp split: sum.split)
qed simp

lemma refresh_catalog_inv:
  assumes "refresh_catalog J get ps routes = Inr cat" "list_all provider_ok ps"
  shows "catalog_inv ps provider_catalog_default cat" "cat_routes cat = routes"
    "cat_union_ids cat = [] \<Longrightarrow> routes \<noteq> []"
proof -
  obtain cat0 e where r: "refresh_from J get 0 ps (catalog_default, None) = (cat0, e)" by fastforce
  have "catalog_inv ps provider_catalog_default cat0"
    using refresh_from_inv [OF catalog_inv_default _ assms(2), of 0 ps J get None] r by simp
  with assms(1) r show "catalog_inv ps provider_catalog_default cat" "cat_routes cat = routes"
    "cat_union_ids cat = [] \<Longrightarrow> routes \<noteq> []"
    by (auto simp: refresh_catalog_def catalog_inv_routes split: if_splits)
qed

subsection \<open>Resolution\<close>

abbreviation candidates_of :: "routing_model_catalog \<Rightarrow> routing_model_candidate list" where
  "candidates_of cat \<equiv> all_candidates provider_catalog_default cat"

lemma first_exact_find:
  "first_exact name pcs = find (\<lambda>c. rmc_model_id c = name) (concat (map pmc_candidates pcs))"
proof (induction pcs)
  case (Cons pc pcs)
  have "find P (xs @ ys) = (case find P xs of None \<Rightarrow> find P ys | x \<Rightarrow> x)"
    for P and xs ys :: "routing_model_candidate list"
    by (induction xs) auto
  with Cons show ?case by (simp split: option.split)
qed simp

lemma candidates_concat: "candidates_of cat = concat (map pmc_candidates (cat_provider_catalogs cat))"
  by (simp add: all_candidates_def provider_catalog_default_def)

lemma default_candidate_hd:
  "default_candidate cat = (case candidates_of cat of [] \<Rightarrow> None | c # _ \<Rightarrow> Some c)"
proof -
  have "(case filter (\<lambda>cs. cs \<noteq> []) css of cs # _ \<Rightarrow> Some (hd cs) | [] \<Rightarrow> None)
      = (case concat css of [] \<Rightarrow> None | c # _ \<Rightarrow> Some c)" for css :: "'a list list"
  proof (induction css)
    case (Cons cs css)
    then show ?case by (cases cs) simp_all
  qed simp
  then show ?thesis by (simp add: default_candidate_def candidates_concat)
qed

lemma unique_candidate_iff:
  "unique_candidate_model_id cs = Some m \<longleftrightarrow> rmc_model_id ` set cs = {m}"
proof -
  have "remdups xs = [m] \<longleftrightarrow> set xs = {m}" for xs :: "string list"
  proof
    assume "set xs = {m}"
    then have "set (remdups xs) = {m}" "length (remdups xs) = 1"
      by (simp_all add: length_remdups_card_conv)
    then show "remdups xs = [m]" by (cases "remdups xs") simp_all
  next
    assume "remdups xs = [m]"
    then have "set (remdups xs) = {m}" by simp
    then show "set xs = {m}" by (simp only: set_remdups)
  qed
  from this [of "map rmc_model_id cs"]
  have "remdups (map rmc_model_id cs) = [m] \<longleftrightarrow> rmc_model_id ` set cs = {m}" by simp
  moreover have "unique_candidate_model_id cs = Some m \<longleftrightarrow> remdups (map rmc_model_id cs) = [m]"
    unfolding unique_candidate_model_id_def by (simp split: list.split)
  ultimately show ?thesis by simp
qed

definition keyed_ids :: "routing_model_catalog \<Rightarrow> string \<Rightarrow> string set" where
  "keyed_ids cat m = {i \<in> set (cat_union_ids cat). canonical_model_key i = canonical_model_key (trim m)}"

lemma blank_key: "canonical_model_key [] = []"
  by (simp add: canonical_model_key_def)

lemma ids_with_key:
  assumes "catalog_inv ps provider_catalog_default cat"
  shows "rmc_model_id ` set (cat_ids_by_key cat (canonical_model_key (trim m))) = keyed_ids cat m"
  using assms by (auto simp: catalog_inv_def keyed_ids_def listed_def image_iff) (metis (no_types))

lemma match_routes_set: "match_route m cat = Some r \<Longrightarrow> r \<in> set (cat_routes cat)"
  by (auto simp: match_route_def find_Some_iff split: option.splits)

lemma find_candidate:
  assumes "find P cs = Some c" shows "P c" "c \<in> set cs"
  using assms by (auto simp: find_Some_iff)

text \<open>What a resolution promises, by the kind of the match.\<close>

definition resolution_ok :: "routing_provider list \<Rightarrow> nat \<Rightarrow> routing_model_catalog \<Rightarrow> string
    \<Rightarrow> routing_resolution \<Rightarrow> match_kind \<Rightarrow> bool" where
  "resolution_ok ps n cat m r k =
     (case r of
        RRoute i _ \<Rightarrow> k = MatchRoute \<and> i < n \<and> trim m \<notin> set (cat_union_ids cat)
      | RCatalog c \<Rightarrow> target_ok ps c \<and> rmc_model_id c \<in> set (cat_union_ids cat) \<and>
          (case k of
             ExactId \<Rightarrow> rmc_model_id c = trim m
           | MatchRoute \<Rightarrow> False
           | CanonicalKey \<Rightarrow> trim m \<notin> set (cat_union_ids cat) \<and> match_route (trim m) cat = None
               \<and> keyed_ids cat m = {rmc_model_id c}
           | MatchDefault \<Rightarrow> rmc_model_id c = hd (cat_union_ids cat) \<and> trim m \<notin> set (cat_union_ids cat)
               \<and> (trim m = [] \<or> match_route (trim m) cat = None \<and> card (keyed_ids cat m) \<noteq> 1)))"

lemma default_resolution:
  assumes "catalog_inv ps provider_catalog_default cat"
  shows "case default_candidate cat of
      None \<Rightarrow> cat_union_ids cat = []
    | Some c \<Rightarrow> listed ps (set (cat_union_ids cat)) c \<and> rmc_model_id c = hd (cat_union_ids cat)"
proof (cases "candidates_of cat")
  case Nil
  with assms show ?thesis by (simp add: default_candidate_hd catalog_inv_def)
next
  case (Cons c cs)
  with assms show ?thesis
    by (cases "cat_union_ids cat") (auto simp: default_candidate_hd catalog_inv_def)
qed

lemma resolve_ok:
  assumes inv: "catalog_inv ps provider_catalog_default cat"
    and routes: "list_all (\<lambda>r. mrs_route_provider_index r < n) (cat_routes cat)"
  shows "case resolve m cat of
      None \<Rightarrow> cat_union_ids cat = [] \<and> (trim m = [] \<or> match_route (trim m) cat = None)
    | Some (r, k) \<Rightarrow> resolution_ok ps n cat m r k"
proof -
  let ?t = "trim m" and ?U = "set (cat_union_ids cat)"
  have nonblank: "[] \<notin> ?U"
    using inv by (auto simp: catalog_inv_def listed_def blank_key)
  have listed: "listed ps ?U c" if "c \<in> set (candidates_of cat)" for c
    using inv that by (auto simp: catalog_inv_def)
  have "set (cat_union_ids cat) = rmc_model_id ` set (candidates_of cat)"
    using inv by (simp only: catalog_inv_def)
  moreover have "first_exact ?t (cat_provider_catalogs cat) = None
      \<longleftrightarrow> (\<forall>c \<in> set (candidates_of cat). rmc_model_id c \<noteq> ?t)"
    unfolding first_exact_find candidates_concat find_None_iff by blast
  ultimately have exact: "first_exact ?t (cat_provider_catalogs cat) = None \<longleftrightarrow> ?t \<notin> ?U"
    by (metis image_iff)
  note default = default_resolution [OF inv]
  show ?thesis
  proof (cases "?t = [] \<or> first_exact ?t (cat_provider_catalogs cat) = None")
    case False
    then obtain c where c: "first_exact ?t (cat_provider_catalogs cat) = Some c" and t: "?t \<noteq> []" by blast
    then have "rmc_model_id c = ?t" "listed ps ?U c"
      using find_candidate [of _ "candidates_of cat" c] listed
      by (auto simp: first_exact_find candidates_concat)
    with c t show ?thesis by (simp add: resolve_def Let_def resolution_ok_def listed_def)
  next
    case True
    then have out: "?t \<notin> ?U" using exact nonblank by auto
    show ?thesis
    proof (cases "?t = []")
      case True
      with default out show ?thesis
        by (auto simp: resolve_def Let_def resolution_ok_def listed_def split: option.splits)
    next
      case nonempty: False
      with \<open>?t = [] \<or> _\<close> have none: "first_exact ?t (cat_provider_catalogs cat) = None" by blast
      show ?thesis
      proof (cases "match_route ?t cat")
        case (Some r)
        with routes have "mrs_route_provider_index r < n"
          using match_routes_set [OF Some] by (auto simp: list_all_iff)
        with Some nonempty none out show ?thesis by (simp add: resolve_def resolution_ok_def)
      next
        case None
        let ?cs = "cat_ids_by_key cat (canonical_model_key ?t)"
        note keyed = ids_with_key [OF inv, of m]
        show ?thesis
        proof (cases "unique_candidate_model_id ?cs")
          case (Some u)
          then have u: "keyed_ids cat m = {u}" by (simp add: unique_candidate_iff keyed)
          then have "u \<in> rmc_model_id ` set ?cs" by (simp add: keyed)
          then obtain c where c: "find (\<lambda>c. rmc_model_id c = u) ?cs = Some c"
            by (cases "find (\<lambda>c. rmc_model_id c = u) ?cs") (auto simp: find_None_iff)
          then have "rmc_model_id c = u" "listed ps ?U c"
            using find_candidate [OF c] inv by (auto simp: catalog_inv_def)
          with c Some None nonempty none out u show ?thesis
            by (simp add: resolve_def resolution_ok_def listed_def)
        next
          case nonunique: None
          then have "card (keyed_ids cat m) \<noteq> 1"
            using unique_candidate_iff [of ?cs] by (auto simp: keyed card_1_singleton_iff)
          with nonunique None nonempty none out default show ?thesis
            by (auto simp: resolve_def resolution_ok_def listed_def split: option.splits)
        qed
      qed
    qed
  qed
qed

text \<open>
  C27: the routing of a request model, in a catalog read from any listings. What is looked up is the
  model without the blanks at its ends: an advertised id equal to it always resolves to itself, before
  any ad-hoc route; a route that matches it goes before a canonical match, which needs a single
  advertised id with that key; the default is the first advertised model, and only an empty catalog
  without a matching route resolves to nothing. (An id advertised with blanks at its ends can
  therefore lose to a route, as the next theorem shows.) Every target lies in the configured
  providers, their chains and the route providers, so no dispatch of it meets an out-of-range error,
  when the providers are as their constructor builds them and the routes point into the route
  providers.
\<close>

theorem catalog_resolution_sound:
  assumes "refresh_catalog J get ps routes = Inr cat" and "list_all provider_ok ps"
    and "list_all (\<lambda>r. mrs_route_provider_index r < n) routes"
  shows "distinct (cat_union_ids cat) \<and> (case resolve m cat of
      None \<Rightarrow> cat_union_ids cat = [] \<and> (trim m = [] \<or> match_route (trim m) cat = None)
    | Some (r, k) \<Rightarrow> resolution_ok ps n cat m r k)"
proof -
  note inv = refresh_catalog_inv [OF assms(1,2)]
  have "distinct (cat_union_ids cat)" using inv(1) by (simp add: catalog_inv_def)
  moreover have "list_all (\<lambda>r. mrs_route_provider_index r < n) (cat_routes cat)"
    using assms(3) inv(2) by simp
  ultimately show ?thesis using resolve_ok [OF inv(1)] by blast
qed

text \<open>
  The ids of a listing are not trimmed, the model of a request is: an id with blanks at its ends is
  advertised, but a request for it goes to the route of the trimmed name.
\<close>

definition blank_listing :: json_codec where
  "blank_listing = \<lparr>to_json_string = (\<lambda>_. []), from_json_str = (\<lambda>_. Inr (jobj [(''data'', JArr [JStr '' m ''])]))\<rparr>"

definition blank_catalog :: "app_error + routing_model_catalog" where
  "blank_catalog = refresh_catalog blank_listing (\<lambda>_. Inr \<lparr>hr_status = 200, hr_status_line = ''200 OK'', hr_body = [],
       hr_bytes = []\<rparr>)
     [routing_provider_new ''main'' ''http://a'' sample_leaf None [] [] 1000]
     [\<lparr>mrs_name = ''m'', mrs_glob = None, mrs_route_provider_index = 0, mrs_upstream_model = None\<rparr>]"

theorem untrimmed_id_loses_to_route:
  "(case blank_catalog of Inl _ \<Rightarrow> False
    | Inr cat \<Rightarrow> cat_union_ids cat = ['' m ''] \<and> resolve '' m '' cat = Some (RRoute 0 ''m'', MatchRoute))"
  by code_simp

definition sample_routing_provider :: routing_provider where
  "sample_routing_provider = routing_provider_new ''main'' ''http://a'' sample_leaf (Some ''kimi-k2'') []
     [sample_provider\<lparr>pr_exposed_model := Some ''qwen''\<rparr>] 1000"

lemma sample_entries:
  "normalized_model_entry (single_model_entry ''kimi-k2'') = Some (''kimi-k2'', single_model_entry ''kimi-k2'')"
  "limit_of_entry (single_model_entry ''kimi-k2'') = None" "limit_of_entry (single_model_entry ''qwen'') = None"
  "canonical_model_key ''kimi-k2'' \<noteq> []" "canonical_model_key ''qwen'' \<noteq> []"
  by code_simp+

lemma sample_refresh:
  "\<exists>cat. refresh_catalog J (\<lambda>i. Inl ''refused'') [sample_routing_provider] [] = Inr cat
     \<and> cat_union_ids cat = [''kimi-k2'', ''qwen'']"
  by (simp add: refresh_catalog_def sample_routing_provider_def routing_provider_new_def
      primary_provider_model_entries_def leaf_list_models_def register_provider_def provider_models_def
      sample_entries register_routing_model_def Let_def catalog_default_def
      provider_catalog_default_def map_filter_def sample_provider_def)

theorem catalog_resolution_sound_witness:
  "\<exists>cat r k. resolve ''qwen'' cat = Some (r, k) \<and> resolution_ok [sample_routing_provider] 0 cat ''qwen'' r k
     \<and> cat_union_ids cat = [''kimi-k2'', ''qwen'']"
proof -
  obtain cat where cat: "refresh_catalog undefined (\<lambda>i. Inl ''refused'') [sample_routing_provider] [] = Inr cat"
    and ids: "cat_union_ids cat = [''kimi-k2'', ''qwen'']" using sample_refresh by blast
  have "list_all provider_ok [sample_routing_provider]"
    by (simp add: sample_routing_provider_def routing_provider_new_ok)
  from catalog_resolution_sound [OF cat this, of 0 "''qwen''"] ids show ?thesis
    by (auto split: option.splits)
qed

subsection \<open>Only planned models reach the network\<close>

lemma finalize_model [simp]:
  "ccr_model (bk_request (finalize_request_for_backend p b)) = ccr_model (bk_request b)"
proof -
  have "ccr_model (bk_request (apply_profile_thinking_kwarg p b')) = ccr_model (bk_request b')" for b'
    by (simp add: apply_profile_thinking_kwarg_def Let_def set_template_kwargs_other split: option.split)
  then show ?thesis by (simp add: finalize_steps prepared_parts family_parts fragment_parts split: option.split)
qed

lemma leaf_request_model: "ccr_model (leaf_request E C b) = ccr_model (bk_request b)"
  by (simp add: leaf_request_def sanitize_chat_request_def)

lemma dispatch_wire_cong:
  assumes "\<And>n r'. ccr_model r' = ccr_model r \<Longrightarrow> w_post W n r' = w_post W' n r'"
    and "w_header_ms W = w_header_ms W'"
  shows "dispatch_chat_stream E C W r serving = dispatch_chat_stream E C W' r serving"
proof -
  have sent: "send_chat_request W n r' = send_chat_request W' n r'" if "ccr_model r' = ccr_model r" for n r'
    using assms(1) [OF that] by (simp add: send_chat_request_def)
  have "ccr_model (retried_request retry r) = ccr_model r" for retry
    by (simp add: retried_request_def)
  from sent [OF this] have again: "dispatch_retry E C W (retried_request retry r) s
      = dispatch_retry E C W' (retried_request retry r) s" for retry s
    by (simp add: dispatch_retry_def)
  show ?thesis
    by (simp only: dispatch_chat_stream_def sent [OF refl] assms(2) Let_def again)
qed

definition rewire :: "(nat \<Rightarrow> chat_completion_request \<Rightarrow> string + http_reply) \<Rightarrow> attempt_env \<Rightarrow> attempt_env" where
  "rewire post A = A\<lparr>ae_wire := (ae_wire A)\<lparr>w_post := post\<rparr>\<rparr>"

definition agree_on :: "string set \<Rightarrow> (nat \<Rightarrow> chat_completion_request \<Rightarrow> 'a)
    \<Rightarrow> (nat \<Rightarrow> chat_completion_request \<Rightarrow> 'a) \<Rightarrow> bool" where
  "agree_on models f g = (\<forall>n r. ccr_model r \<in> models \<longrightarrow> f n r = g n r)"

definition provider_model_for :: "string \<Rightarrow> failover_provider \<Rightarrow> string" where
  "provider_model_for m p = (case pr_upstream_model p of Some m' \<Rightarrow> m' | None \<Rightarrow> m)"

lemma provider_request_model:
  "ccr_model (bk_request (request_for_provider p b)) = provider_model_for (ccr_model (bk_request b)) p"
  by (simp add: request_for_provider_def gap_fill_typed_fields provider_model_for_def Let_def split: option.split)

lemma try_provider_rewire:
  assumes "agree_on M post (w_post (ae_wire A))" "provider_model_for (ccr_model (bk_request b)) p \<in> M"
  shows "try_provider E (rewire post A) b i p c t = try_provider E A b i p c t"
proof -
  let ?b = "request_for_provider p b"
  have "dispatch_chat_stream E C ((ae_wire A)\<lparr>w_post := post\<rparr>) (leaf_request E C ?b) s
      = dispatch_chat_stream E C (ae_wire A) (leaf_request E C ?b) s" for C s
    using assms by (intro dispatch_wire_cong) (simp_all add: leaf_request_model provider_request_model agree_on_def)
  then have leaf: "leaf_stream_chat_completion E C (ae_wire (rewire post A)) x y ?b s
      = leaf_stream_chat_completion E C (ae_wire A) x y ?b s" for C x y s
    by (simp add: leaf_stream_chat_completion_def rewire_def Let_def)
  have rest: "ae_start_ms (rewire post A) = ae_start_ms A" "ae_end_ms (rewire post A) = ae_end_ms A"
    "ae_now (rewire post A) = ae_now A" "ae_first_chunk_elapsed (rewire post A) = ae_first_chunk_elapsed A"
    by (simp_all add: rewire_def)
  show ?thesis unfolding try_provider_def Let_def rest leaf ..
qed

lemma try_provider_providers:
  "fo_providers (fst (snd (try_provider E A b i p c t))) = fo_providers c"
  by (simp add: try_provider_def Let_def mark_failure_def mark_provider_failure_def
      mark_provider_success_def case_prod_beta split: sum.split failover_disposition.split)

lemma loop_rewire:
  assumes "\<And>i. agree_on M (post i) (w_post (ae_wire (A i)))"
    and "provider_model_for (ccr_model (bk_request b)) ` set (fo_providers c) \<subseteq> M"
  shows "stream_with_provider_indices E (\<lambda>i. rewire (post i) (A i)) b is e c t
    = stream_with_provider_indices E A b is e c t"
  using assms(2)
proof (induction "is" arbitrary: e c t)
  case (Cons i "is")
  show ?case
  proof (cases "slice_get (fo_providers c) i")
    case (Some p)
    then have "p \<in> set (fo_providers c)" by (auto simp: slice_get_def split: if_splits)
    with Cons.prems have "provider_model_for (ccr_model (bk_request b)) p \<in> M" by blast
    note stp = try_provider_rewire [OF assms(1) this]
    obtain r c' t' where r: "try_provider E (A i) b i p c t = (r, c', t')"
      by (cases "try_provider E (A i) b i p c t")
    have "fo_providers c' = fo_providers c"
      using try_provider_providers [of E "A i" b i p c t] by (simp add: r)
    with Cons.IH [of c'] Cons.prems show ?thesis
      by (simp add: Some stp r split: attempt_outcome.split)
  qed simp
qed simp

lemma loop_rewire_one:
  assumes "agree_on M (post i) (w_post (ae_wire (A i)))" "slice_get (fo_providers c) i = Some p"
    and "provider_model_for (ccr_model (bk_request b)) p \<in> M"
  shows "stream_with_provider_indices E (\<lambda>i. rewire (post i) (A i)) b [i] e c t
    = stream_with_provider_indices E A b [i] e c t"
  using try_provider_rewire [OF assms(1,3)] assms(2)
  by (simp split: attempt_outcome.split prod.split)

lemma chain_rewire:
  assumes "\<And>i. agree_on M (post i) (w_post (ae_wire (A i)))"
    and "provider_model_for (ccr_model (bk_request b)) ` set (fo_providers c) \<subseteq> M"
  shows "stream_chat_completion_with_timeout E now (\<lambda>i. rewire (post i) (A i)) b c t
    = stream_chat_completion_with_timeout E now A b c t"
  by (simp add: stream_chat_completion_with_timeout_def loop_rewire [OF assms] Let_def)

lemma one_rewire:
  assumes "\<And>i. agree_on M (post i) (w_post (ae_wire (A i)))"
    and "i < length (fo_providers c) \<Longrightarrow> provider_model_for (ccr_model (bk_request b)) (fo_providers c ! i) \<in> M"
  shows "stream_from_provider E now (\<lambda>i. rewire (post i) (A i)) i b c t = stream_from_provider E now A i b c t"
  using loop_rewire_one [where M = M and post = post and i = i and A = A and c = c and b = b, OF assms(1) _ assms(2)]
  by (auto simp: stream_from_provider_def slice_get_def)

definition catalog_fresh :: "routing_env \<Rightarrow> routing_client \<Rightarrow> bool" where
  "catalog_fresh R c = (case rc_catalog c of
     Some (fetched_at, _) \<Rightarrow> as_secs (re_now R - fetched_at) < routing_model_catalog_ttl_secs
   | None \<Rightarrow> False)"

lemma load_fresh: "catalog_fresh R c \<Longrightarrow> \<exists>f cat. rc_catalog c = Some (f, cat) \<and> load_catalog J R c = (Inr cat, c)"
  by (auto simp: catalog_fresh_def load_catalog_def Let_def split: option.splits)

lemma loaded_cached:
  "load_catalog J R c = (Inr cat, c1) \<Longrightarrow> \<exists>f. rc_catalog c1 = Some (f, cat)"
  by (auto simp: load_catalog_def Let_def split: option.splits sum.splits if_splits)

lemma load_failed_stale:
  "load_catalog J R c = (Inl e, c1) \<Longrightarrow> re_now R \<le> re_now R' \<Longrightarrow> \<not> catalog_fresh R' c1"
  by (auto simp: load_catalog_def catalog_fresh_def Let_def as_secs_def split: option.splits sum.splits if_splits)

lemma plan_models:
  "bc_model ` set (failover_candidate_plan m c) = provider_model_for m ` set (fo_providers c)"
  by (force simp: failover_candidate_plan_def provider_model_for_def)

lemma primary_plan_models:
  assumes "rmc_target candidate = Primary"
  shows "bc_model ` set (catalog_candidate_plan cat candidate p)
    = provider_model_for (rmc_model_id candidate) ` set (fo_providers (rp_client p))"
proof -
  let ?chain = "failover_candidate_plan (rmc_model_id candidate) (rp_client p)"
  have "map bc_model (catalog_candidate_plan cat candidate p) = map (bc_model \<circ> snd) (enumerate 0 ?chain)"
    by (simp add: catalog_candidate_plan_def assms Let_def comp_def case_prod_beta)
  also have "\<dots> = map bc_model ?chain" by (metis map_map map_snd_enumerate)
  finally show ?thesis by (metis list.set_map plan_models)
qed

lemma fallback_plan_models:
  assumes "rmc_target candidate = Fallback j" "j < length (fo_providers (rp_client p))"
  shows "bc_model ` set (catalog_candidate_plan cat candidate p)
    = {provider_model_for (rmc_model_id candidate) (fo_providers (rp_client p) ! j)}"
  using assms(2) by (simp add: catalog_candidate_plan_def assms(1) failover_provider_model_def
      provider_upstream_model_def slice_get_def provider_model_for_def)

text \<open>A route provider is a single upstream that keeps the model it is asked for.\<close>

definition route_ok :: "route_provider \<Rightarrow> bool" where
  "route_ok p = list_all (\<lambda>q. pr_upstream_model q = None) (fo_providers (rtp_client p))"

lemma route_provider_new_ok: "route_ok (route_provider_new name url client cooldown)"
  by (simp add: route_ok_def route_provider_new_def failover_new_def)

text \<open>
  C26: the candidate plan the engine decides on covers what is sent: while the catalog it was computed
  from is still fresh, only requests for a model of the plan ever reach a provider. Whatever the
  providers would answer to a request for any other model, the result of the dispatch, the
  health it leaves and the recorded trace are the same.
\<close>

theorem only_planned_models_dispatched:
  assumes "backend_candidate_plan (le_codec E) R (ccr_model (bk_request b)) c0 = (plan, c)"
    and "re_now R \<le> re_now R'" and "catalog_fresh R' c"
    and "list_all route_ok (rc_route_providers c)"
    and "\<And>i. agree_on (bc_model ` set plan) (post i) (w_post (ae_wire (A i)))"
  shows "routing_stream_with_timeout E R' now (\<lambda>i. rewire (post i) (A i)) b c serving
    = routing_stream_with_timeout E R' now A b c serving"
proof -
  let ?m = "ccr_model (bk_request b)"
  obtain f cat where cached: "rc_catalog c = Some (f, cat)" and load: "load_catalog (le_codec E) R' c = (Inr cat, c)"
    using load_fresh [OF assms(3)] by blast
  obtain r c1 where l: "load_catalog (le_codec E) R c0 = (r, c1)" by fastforce
  with assms(1-3) have "c1 = c" and r: "r = Inr cat"
  proof -
    show "c1 = c" using assms(1) by (auto simp: backend_candidate_plan_def l split: sum.splits option.splits
      routing_resolution.splits)
    then show "r = Inr cat"
      using l load_failed_stale [of _ R c0 _ c R'] loaded_cached [of "le_codec E" R c0 _ c] assms(2,3) cached
      by (cases r) auto
  qed
  have routed: "ccr_model (bk_request (routed_request m' b)) = m'" for m' by (simp add: routed_request_def)
  show ?thesis
  proof (cases "resolve ?m cat")
    case None
    then show ?thesis by (simp add: routing_stream_with_timeout_def load)
  next
    case (Some rk)
    then obtain res k where rk: "resolve ?m cat = Some (res, k)" by (cases rk) simp
    show ?thesis
    proof (cases res)
      case (RRoute j m')
      have plan: "bc_model ` set plan = {m'}"
        using assms(1) by (auto simp: backend_candidate_plan_def l r rk RRoute)
      show ?thesis
      proof (cases "route_provider_at j c")
        case (Inr p)
        then have "p \<in> set (rc_route_providers c)"
          by (auto simp: route_provider_at_def slice_get_def split: if_splits)
        with assms(4) have "provider_model_for m' ` set (fo_providers (rtp_client p)) \<subseteq> bc_model ` set plan"
          unfolding plan by (auto simp: route_ok_def list_all_iff provider_model_for_def)
        from chain_rewire [of "bc_model ` set plan" post A "routed_request m' b" "rtp_client p", unfolded routed, OF assms(5) this]
        show ?thesis by (simp add: routing_stream_with_timeout_def load rk RRoute Inr)
      qed (simp add: routing_stream_with_timeout_def load rk RRoute)
    next
      case (RCatalog cand)
      let ?b = "routed_request (rmc_model_id cand) b"
      show ?thesis
      proof (cases "slice_get (rc_providers c) (rmc_provider_index cand)")
        case None
        then show ?thesis by (simp add: routing_stream_with_timeout_def load rk RCatalog routing_provider_at_def Let_def)
      next
        case (Some p)
        then have plan: "plan = catalog_candidate_plan cat cand p"
          using assms(1) \<open>c1 = c\<close> by (simp add: backend_candidate_plan_def l r rk RCatalog)
        show ?thesis
        proof (cases "rmc_target cand")
          case Primary
          then have "provider_model_for (rmc_model_id cand) ` set (fo_providers (rp_client p)) \<subseteq> bc_model ` set plan"
            by (simp add: plan primary_plan_models)
          from chain_rewire [of "bc_model ` set plan" post A ?b "rp_client p", unfolded routed, OF assms(5) this]
          show ?thesis
            by (simp add: routing_stream_with_timeout_def load rk RCatalog routing_provider_at_def Some Primary Let_def)
        next
          case (Fallback j)
          then have "provider_model_for (rmc_model_id cand) (fo_providers (rp_client p) ! j) \<in> bc_model ` set plan"
            if "j < length (fo_providers (rp_client p))"
            using that by (simp add: plan fallback_plan_models)
          from one_rewire [of "bc_model ` set plan" post A j "rp_client p" ?b, unfolded routed, OF assms(5) this]
          show ?thesis
            by (simp add: routing_stream_with_timeout_def load rk RCatalog routing_provider_at_def Some Fallback Let_def)
        qed
      qed
    qed
  qed
qed

definition sample_client :: routing_client where
  "sample_client = (routing_new [routing_provider_new ''main'' ''http://a'' sample_leaf None [] [] 1000])
     \<lparr>rc_catalog := Some (0, catalog_default\<lparr>cat_provider_catalogs :=
        [\<lparr>pmc_candidates = [\<lparr>rmc_provider_index = 0, rmc_model_id = ''m'', rmc_target = Primary\<rparr>],
          pmc_context_limit_by_id = Map.empty\<rparr>]\<rparr>)\<rparr>"

definition sample_routing_env :: routing_env where
  "sample_routing_env = \<lparr>re_now = 1, re_epoch_ms = 1, re_fetched_at = 1, re_get = (\<lambda>i. Inl ''down'')\<rparr>"

definition strange_post :: "nat \<Rightarrow> chat_completion_request \<Rightarrow> string + http_reply" where
  "strange_post n r = Inl (if ccr_model r = ''m'' then ''refused'' else ''never asked'')"

theorem only_planned_models_dispatched_witness:
  "routing_stream_with_timeout sample_leaf_env sample_routing_env 0 (\<lambda>i. rewire strange_post refusing_env)
     (backend_request_new sample_request None) sample_client None
   = routing_stream_with_timeout sample_leaf_env sample_routing_env 0 (\<lambda>i. refusing_env)
     (backend_request_new sample_request None) sample_client None"
proof -
  have t: "trim ''m'' = ''m''" by code_simp
  have fresh: "catalog_fresh sample_routing_env sample_client"
    by (simp add: catalog_fresh_def sample_client_def sample_routing_env_def as_secs_def
        routing_model_catalog_ttl_secs_def)
  have m: "ccr_model (bk_request (backend_request_new sample_request None)) = ''m''"
    by (simp add: backend_request_new_def sample_request_def)
  have plan: "backend_candidate_plan (le_codec sample_leaf_env) sample_routing_env
      (ccr_model (bk_request (backend_request_new sample_request None))) sample_client
      = ([\<lparr>bc_model = ''m'', bc_context_limit = None\<rparr>], sample_client)"
    unfolding m
    by (simp add: backend_candidate_plan_def load_catalog_def sample_client_def sample_routing_env_def
        as_secs_def routing_model_catalog_ttl_secs_def resolve_def t catalog_candidate_plan_def
        routing_new_def routing_with_routes_def slice_get_def routing_provider_new_def
        failover_candidate_plan_def failover_new_def Let_def)
  show ?thesis
    by (rule only_planned_models_dispatched [OF plan order.refl fresh])
      (simp_all add: sample_client_def routing_new_def routing_with_routes_def agree_on_def
        strange_post_def refusing_env_def)
qed

end
