(* ===== verification/Profiles.thy ===== *)
theory Profiles
  imports Backend_Request Roles Chat_Stream
begin

text \<open>
  Model profiles (\<^verbatim>\<open>src/src/config.rs\<close>): the advertised capabilities, the typed reasoning
  configuration, the resolution of a profile through the templates it extends, and the lookups the
  gateway makes per request model.  Decoding of the configuration file belongs to \<^verbatim>\<open>serde\<close>; a
  \<^verbatim>\<open>BTreeMap\<close> is a key-sorted list.
\<close>

subsection \<open>Optional texts\<close>

definition trim_nonempty :: "string option \<Rightarrow> string option" where
  "trim_nonempty v = (case map_option trim v of
     Some s \<Rightarrow> if s = [] then None else Some s | None \<Rightarrow> None)"

definition normalize_template_family :: "string option \<Rightarrow> string option" where
  "normalize_template_family v =
     (case map_option ascii_lower (trim_nonempty v) of
        None \<Rightarrow> None
      | Some f \<Rightarrow> if f = ''kimi'' then Some ''kimi''
                  else if f = ''deepseek'' then Some ''deepseek'' else None)"

definition join_prompt_prefixes :: "string list \<Rightarrow> string option" where
  "join_prompt_prefixes parts =
     (let ps = filter (\<lambda>p. p \<noteq> []) (map trim parts)
      in if ps = [] then None else Some (join blank_line ps))"

subsection \<open>Reasoning configuration\<close>

definition default_thinking_param_name :: string where
  "default_thinking_param_name = ''enable_thinking''"

definition reasoning_config_default :: reasoning_config where
  "reasoning_config_default = \<lparr>rc_default = None, rc_map = [],
     rc_thinking_param_name = default_thinking_param_name,
     rc_thinking_param_value_on = JBool True, rc_thinking_param_value_off = JBool False\<rparr>"

text \<open>The normalisation the deserializer applies to the raw fields.\<close>

definition normalize_reasoning_config :: "reasoning_config \<Rightarrow> reasoning_config" where
  "normalize_reasoning_config raw = raw
     \<lparr>rc_map := obj_of (List.map_filter (\<lambda>(k, v).
        let key = ascii_lower (trim k); mapped = trim v
        in if key \<noteq> [] \<and> mapped \<noteq> [] then Some (key, mapped) else None) (rc_map raw)),
      rc_default := trim_nonempty (rc_default raw),
      rc_thinking_param_name := (if trim (rc_thinking_param_name raw) = []
        then default_thinking_param_name else trim (rc_thinking_param_name raw))\<rparr>"

subsection \<open>Capabilities\<close>

datatype thinking_type = Adaptive | Enabled

fun thinking_type_str :: "thinking_type \<Rightarrow> string" where
  "thinking_type_str Adaptive = ''adaptive''"
| "thinking_type_str Enabled = ''enabled''"

datatype effort_level =
  EffMax | EffXhigh | EffHigh | EffMedium | EffLow | EffMinimal | EffDisabled

fun effort_level_str :: "effort_level \<Rightarrow> string" where
  "effort_level_str EffMax = ''max''"
| "effort_level_str EffXhigh = ''xhigh''"
| "effort_level_str EffHigh = ''high''"
| "effort_level_str EffMedium = ''medium''"
| "effort_level_str EffLow = ''low''"
| "effort_level_str EffMinimal = ''minimal''"
| "effort_level_str EffDisabled = ''none''"

datatype context_feature = ClearThinking20251015 | ClearToolUses20250919 | Compact20260112

fun context_feature_str :: "context_feature \<Rightarrow> string" where
  "context_feature_str ClearThinking20251015 = ''clear_thinking_20251015''"
| "context_feature_str ClearToolUses20250919 = ''clear_tool_uses_20250919''"
| "context_feature_str Compact20260112 = ''compact_20260112''"

definition supported_obj :: "bool \<Rightarrow> json" where
  "supported_obj supported = jobj [(''supported'', JBool supported)]"

record thinking_cap =
  tcap_supported :: bool
  tcap_types :: "thinking_type list"

definition thinking_cap_wire :: "thinking_cap \<Rightarrow> json" where
  "thinking_cap_wire c = jobj
     [(''supported'', JBool (tcap_supported c)),
      (''types'', jobj (map (\<lambda>t. (thinking_type_str t, supported_obj (tcap_supported c)))
         (tcap_types c)))]"

record effort_cap =
  ecap_supported :: bool
  ecap_levels :: "effort_level list"

definition effort_cap_wire :: "effort_cap \<Rightarrow> json" where
  "effort_cap_wire c = jobj ((''supported'', JBool (ecap_supported c)) #
     map (\<lambda>l. (effort_level_str l, supported_obj (ecap_supported c))) (ecap_levels c))"

record context_management_cap =
  ccap_supported :: bool
  ccap_features :: "context_feature list"

definition context_management_cap_wire :: "context_management_cap \<Rightarrow> json" where
  "context_management_cap_wire c = jobj ((''supported'', JBool (ccap_supported c)) #
     map (\<lambda>f. (context_feature_str f, supported_obj (ccap_supported c))) (ccap_features c))"

text \<open>A capability with a single flag is the flag.\<close>

record capabilities_config =
  cap_batch :: "bool option"
  cap_citations :: "bool option"
  cap_code_execution :: "bool option"
  cap_image_input :: "bool option"
  cap_pdf_input :: "bool option"
  cap_structured_outputs :: "bool option"
  cap_thinking :: "thinking_cap option"
  cap_effort :: "effort_cap option"
  cap_context_management :: "context_management_cap option"

definition replaced_capabilities :: "capabilities_config \<Rightarrow> (string \<times> json option) list" where
  "replaced_capabilities c =
     [(''batch'', map_option supported_obj (cap_batch c)),
      (''citations'', map_option supported_obj (cap_citations c)),
      (''code_execution'', map_option supported_obj (cap_code_execution c)),
      (''image_input'', map_option supported_obj (cap_image_input c)),
      (''pdf_input'', map_option supported_obj (cap_pdf_input c)),
      (''structured_outputs'', map_option supported_obj (cap_structured_outputs c)),
      (''thinking'', map_option thinking_cap_wire (cap_thinking c)),
      (''effort'', map_option effort_cap_wire (cap_effort c)),
      (''context_management'', map_option context_management_cap_wire (cap_context_management c))]"

definition merge_into :: "capabilities_config \<Rightarrow> json \<Rightarrow> json" where
  "merge_into c base =
     (case base of
        JObj m \<Rightarrow> JObj (fold (\<lambda>(k, wire) m. case wire of
            Some v \<Rightarrow> obj_insert k v m | None \<Rightarrow> m) (replaced_capabilities c) m)
      | _ \<Rightarrow> base)"

subsection \<open>Profiles\<close>

record persisted_model_profile =
  pp_extends :: "string list"
  pp_upstream_model :: "string option"
  pp_system_prompt_prefix :: "string option"
  pp_roles :: "roles_config option"
  pp_template_family :: "string option"
  pp_native_vision :: "bool option"
  pp_upstream_chat_kwargs :: json_map
  pp_reasoning_effort_map :: "(string \<times> json) list"
  pp_reasoning_effort_default :: "string option"
  pp_capabilities :: "capabilities_config option"
  pp_reasoning_effort :: "reasoning_config option"

record model_profile =
  mp_upstream_model :: "string option"
  mp_system_prompt_prefix :: "string option"
  mp_roles :: "roles_config option"
  mp_template_family :: "string option"
  mp_native_vision :: "bool option"
  mp_upstream_chat_kwargs :: json_map
  mp_reasoning_effort_map :: "(string \<times> json) list"
  mp_reasoning_effort_default :: "string option"
  mp_capabilities :: "capabilities_config option"
  mp_reasoning_effort :: "reasoning_config option"

record resolved_model_profile =
  rmp_upstream_model :: "string option"
  rmp_system_prompt_prefixes :: "string list"
  rmp_roles :: "roles_config option"
  rmp_template_family :: "string option"
  rmp_native_vision :: "bool option"
  rmp_upstream_chat_kwargs :: json_map
  rmp_reasoning_effort_map :: "(string \<times> json) list"
  rmp_reasoning_effort_default :: "string option"
  rmp_capabilities :: "capabilities_config option"
  rmp_reasoning_effort :: "reasoning_config option"

definition resolved_profile_default :: resolved_model_profile where
  "resolved_profile_default = \<lparr>rmp_upstream_model = None, rmp_system_prompt_prefixes = [],
     rmp_roles = None, rmp_template_family = None, rmp_native_vision = None,
     rmp_upstream_chat_kwargs = [], rmp_reasoning_effort_map = [],
     rmp_reasoning_effort_default = None, rmp_capabilities = None, rmp_reasoning_effort = None\<rparr>"

definition into_model_profile :: "resolved_model_profile \<Rightarrow> model_profile" where
  "into_model_profile r = \<lparr>mp_upstream_model = rmp_upstream_model r,
     mp_system_prompt_prefix = join_prompt_prefixes (rmp_system_prompt_prefixes r),
     mp_roles = rmp_roles r,
     mp_template_family = normalize_template_family (rmp_template_family r),
     mp_native_vision = rmp_native_vision r,
     mp_upstream_chat_kwargs = rmp_upstream_chat_kwargs r,
     mp_reasoning_effort_map = rmp_reasoning_effort_map r,
     mp_reasoning_effort_default = rmp_reasoning_effort_default r,
     mp_capabilities = rmp_capabilities r, mp_reasoning_effort = rmp_reasoning_effort r\<rparr>"

text \<open>\<^verbatim>\<open>if source.is_some() { destination = source }\<close>.\<close>

definition or_keep :: "'a option \<Rightarrow> 'a option \<Rightarrow> 'a option" where
  "or_keep src dst = (case src of Some x \<Rightarrow> Some x | None \<Rightarrow> dst)"

text \<open>Inserting every entry of a map, later keys over earlier ones.\<close>

definition insert_levels :: "(string \<times> json) list \<Rightarrow> (string \<times> json) list \<Rightarrow> (string \<times> json) list" where
  "insert_levels src dst = fold (\<lambda>(level, fragment). obj_insert level fragment) src dst"

text \<open>
  The typed reasoning configuration displaces the fragment-based one, and the other way round.
\<close>

definition merge_effort ::
  "reasoning_config option \<Rightarrow> (string \<times> json) list \<Rightarrow> string option
     \<Rightarrow> resolved_model_profile \<Rightarrow> resolved_model_profile" where
  "merge_effort typed levels dflt d =
     (if typed \<noteq> None
      then d\<lparr>rmp_reasoning_effort := typed, rmp_reasoning_effort_map := [],
             rmp_reasoning_effort_default := None\<rparr>
      else if levels \<noteq> [] \<or> dflt \<noteq> None then d\<lparr>rmp_reasoning_effort := None\<rparr>
      else d)"

definition merge_resolved_model_profile ::
  "resolved_model_profile \<Rightarrow> resolved_model_profile \<Rightarrow> resolved_model_profile" where
  "merge_resolved_model_profile d src =
     (let d1 = merge_effort (rmp_reasoning_effort src) (rmp_reasoning_effort_map src)
                 (rmp_reasoning_effort_default src)
            (d\<lparr>rmp_upstream_model := or_keep (rmp_upstream_model src) (rmp_upstream_model d),
               rmp_template_family := or_keep (rmp_template_family src) (rmp_template_family d),
               rmp_native_vision := or_keep (rmp_native_vision src) (rmp_native_vision d),
               rmp_roles := or_keep (rmp_roles src) (rmp_roles d),
               rmp_capabilities := or_keep (rmp_capabilities src) (rmp_capabilities d)\<rparr>)
      in d1\<lparr>rmp_system_prompt_prefixes :=
              rmp_system_prompt_prefixes d1 @ rmp_system_prompt_prefixes src,
            rmp_upstream_chat_kwargs :=
              merge_json_maps (rmp_upstream_chat_kwargs d1) (rmp_upstream_chat_kwargs src),
            rmp_reasoning_effort_map :=
              insert_levels (rmp_reasoning_effort_map src) (rmp_reasoning_effort_map d1),
            rmp_reasoning_effort_default :=
              or_keep (rmp_reasoning_effort_default src) (rmp_reasoning_effort_default d1)\<rparr>)"

definition merge_persisted_model_profile ::
  "resolved_model_profile \<Rightarrow> persisted_model_profile \<Rightarrow> resolved_model_profile" where
  "merge_persisted_model_profile d src =
     (let d1 = merge_effort (pp_reasoning_effort src) (pp_reasoning_effort_map src)
                 (pp_reasoning_effort_default src)
            (d\<lparr>rmp_upstream_model :=
                 or_keep (trim_nonempty (pp_upstream_model src)) (rmp_upstream_model d),
               rmp_template_family :=
                 or_keep (trim_nonempty (pp_template_family src)) (rmp_template_family d),
               rmp_native_vision := or_keep (pp_native_vision src) (rmp_native_vision d),
               rmp_roles := or_keep (pp_roles src) (rmp_roles d),
               rmp_capabilities := or_keep (pp_capabilities src) (rmp_capabilities d)\<rparr>)
      in d1\<lparr>rmp_system_prompt_prefixes := rmp_system_prompt_prefixes d1 @
              (case trim_nonempty (pp_system_prompt_prefix src) of Some p \<Rightarrow> [p] | None \<Rightarrow> []),
            rmp_upstream_chat_kwargs :=
              merge_json_maps (rmp_upstream_chat_kwargs d1) (pp_upstream_chat_kwargs src),
            rmp_reasoning_effort_map :=
              insert_levels (pp_reasoning_effort_map src) (rmp_reasoning_effort_map d1),
            rmp_reasoning_effort_default :=
              or_keep (pp_reasoning_effort_default src) (rmp_reasoning_effort_default d1)\<rparr>)"

text \<open>A lookup by exact name, then by the first name that is equal but for ASCII case.\<close>

definition lookup_named :: "(string \<times> 'a) list \<Rightarrow> string \<Rightarrow> (string \<times> 'a) option" where
  "lookup_named m name =
     (case obj_get m name of
        Some x \<Rightarrow> Some (name, x)
      | None \<Rightarrow> find (\<lambda>(k, _). eq_ignore_ascii_case k name) m)"

subsection \<open>Templates\<close>

lemma same_length_of_lower: "ascii_lower k = ascii_lower n \<Longrightarrow> length n = length k"
  by (metis length_ascii_lower)

lemma finite_case_variants: "finite {n :: string. ascii_lower k = ascii_lower n}"
proof (rule finite_subset)
  show "{n. ascii_lower k = ascii_lower n} \<subseteq> {n. set n \<subseteq> UNIV \<and> length n = length k}"
    by (intro subsetI CollectI conjI subset_UNIV same_length_of_lower) simp
  show "finite {n :: string. set n \<subseteq> UNIV \<and> length n = length k}"
    by (rule finite_lists_length_eq) simp
qed

lemma obj_get_key: "obj_get m k = Some v \<Longrightarrow> k \<in> set (map fst m)"
  by (induction m k rule: obj_get.induct) (auto split: if_splits)

lemma lookup_named_key:
  assumes "lookup_named m n = Some kv"
  shows "\<exists>k \<in> set (map fst m). ascii_lower k = ascii_lower n"
proof (cases "obj_get m n")
  case None
  with assms obtain k v where "(k, v) \<in> set m" "ascii_lower k = ascii_lower n"
    by (auto simp: lookup_named_def eq_ignore_ascii_case_def find_Some_iff in_set_conv_nth)
  then show ?thesis by (intro bexI [where x = k]) (simp_all add: rev_image_eqI)
next
  case (Some v)
  then have "n \<in> set (map fst m)" by (rule obj_get_key)
  then show ?thesis by blast
qed

lemma finite_lookup_named: "finite {n. lookup_named m n \<noteq> None}"
proof (rule finite_subset)
  show "{n. lookup_named m n \<noteq> None} \<subseteq> (\<Union>k \<in> set (map fst m). {n. ascii_lower k = ascii_lower n})"
  proof
    fix n assume "n \<in> {n. lookup_named m n \<noteq> None}"
    then obtain kv where "lookup_named m n = Some kv" by blast
    from lookup_named_key [OF this]
    show "n \<in> (\<Union>k \<in> set (map fst m). {n. ascii_lower k = ascii_lower n})" by blast
  qed
  show "finite (\<Union>k \<in> set (map fst m). {n. ascii_lower k = ascii_lower n})"
    by (intro finite_UN_I finite_set finite_case_variants)
qed

type_synonym templates = "(string \<times> persisted_model_profile) list"

definition open_templates :: "templates \<Rightarrow> string list \<Rightarrow> nat" where
  "open_templates T stack = card ({n. lookup_named T n \<noteq> None} - set stack)"

lemma open_templates_decrease:
  assumes "lookup_named T n \<noteq> None" and "n \<notin> set stack"
  shows "open_templates T (stack @ [n]) < open_templates T stack"
  unfolding open_templates_def
proof (rule psubset_card_mono)
  show "finite ({n. lookup_named T n \<noteq> None} - set stack)" 
    by (rule finite_Diff [OF finite_lookup_named])
  show "{n. lookup_named T n \<noteq> None} - set (stack @ [n]) \<subset> {n. lookup_named T n \<noteq> None} - set stack"
    using assms by auto
qed

text \<open>
  The loop over the names a profile extends, with the stack of the templates being resolved; a
  template is resolved by the same loop over its own list.
\<close>

function resolve_extends ::
  "templates \<Rightarrow> string list \<Rightarrow> string list \<Rightarrow> resolved_model_profile
     \<Rightarrow> string + resolved_model_profile" where
  "resolve_extends T stack [] resolved = Inr resolved"
| "resolve_extends T stack (raw # rest) resolved =
     (let name = trim raw in
      if name = [] then resolve_extends T stack rest resolved
      else if name \<in> set stack
      then Inl (''template cycle: '' @ join '' -> '' (stack @ [name]))
      else case lookup_named T name of
        None \<Rightarrow> Inl (''unknown template '' @ quoted name)
      | Some (_, template) \<Rightarrow>
          (case resolve_extends T (stack @ [name]) (pp_extends template) resolved_profile_default of
             Inl e \<Rightarrow> Inl e
           | Inr inherited \<Rightarrow>
               resolve_extends T stack rest (merge_resolved_model_profile resolved
                 (merge_persisted_model_profile inherited template))))"
  by pat_completeness auto
termination
  by (relation "measures [\<lambda>(T, stack, ext, _). open_templates T stack,
        \<lambda>(T, stack, ext, _). length ext]")
    (auto intro!: open_templates_decrease)

definition resolve_persisted_model_profile ::
  "persisted_model_profile \<Rightarrow> templates \<Rightarrow> string + resolved_model_profile" where
  "resolve_persisted_model_profile profile T =
     bind_res (resolve_extends T [] (pp_extends profile) resolved_profile_default)
       (\<lambda>inherited. Inr (merge_persisted_model_profile inherited profile))"

definition in_profile :: "string \<Rightarrow> string + 'a \<Rightarrow> string + 'a" where
  "in_profile name r = (case r of
     Inl err \<Rightarrow> Inl (''model_profiles['' @ name @ '']: '' @ err) | Inr x \<Rightarrow> Inr x)"

definition resolve_profile :: "templates \<Rightarrow> string \<Rightarrow> persisted_model_profile \<Rightarrow> string + model_profile" where
  "resolve_profile T name profile = in_profile name
     (bind_res (resolve_persisted_model_profile profile T) (\<lambda>r.
        let p = into_model_profile r in
        bind_res (case mp_roles p of Some roles \<Rightarrow> validate_roles roles | None \<Rightarrow> Inr ()) (\<lambda>_.
        if mp_reasoning_effort p \<noteq> None
           \<and> (mp_reasoning_effort_map p \<noteq> [] \<or> mp_reasoning_effort_default p \<noteq> None)
        then Inl (''`reasoning_effort` cannot be combined with `reasoning_effort_map` or '' @
               ''`reasoning_effort_default`'')
        else Inr p)))"

fun resolve_model_profiles_from ::
  "templates \<Rightarrow> (string \<times> persisted_model_profile) list \<Rightarrow> (string \<times> model_profile) list
     \<Rightarrow> string + (string \<times> model_profile) list" where
  "resolve_model_profiles_from T [] resolved = Inr resolved"
| "resolve_model_profiles_from T ((raw, profile) # rest) resolved =
     (let name = trim raw in
      if name = [] then resolve_model_profiles_from T rest resolved
      else bind_res (resolve_profile T name profile)
        (\<lambda>p. resolve_model_profiles_from T rest (obj_insert name p resolved)))"

definition resolve_model_profiles ::
  "(string \<times> persisted_model_profile) list \<Rightarrow> templates \<Rightarrow> string + (string \<times> model_profile) list" where
  "resolve_model_profiles profiles T = resolve_model_profiles_from T profiles []"

subsection \<open>The request-time configuration\<close>

text \<open>The fields of \<^verbatim>\<open>Config\<close> the request path reads; a route is its name and compiled glob.\<close>

datatype unsupported_image_policy = Placeholder | RejectImages

record model_route =
  mr_name :: string
  mr_glob :: "(string \<Rightarrow> bool) option"

record gateway_config =
  cfg_model_profiles :: "(string \<times> model_profile) list"
  cfg_model_routes :: "model_route list"
  cfg_upstream_model :: "string option"
  cfg_system_prompt_prefix :: "string option"
  cfg_has_upstreams :: bool
  cfg_has_fallback_upstreams :: bool
  cfg_image_agent_enabled :: bool
  cfg_has_vision_url :: bool
  cfg_unsupported_image_policy :: unsupported_image_policy
  cfg_has_brave_api_key :: bool
  cfg_max_web_search_rounds :: nat
  cfg_flatten_content :: bool
  cfg_template_family :: "string option"
  cfg_upstream_chat_kwargs :: json_map

definition route_matches :: "model_route list \<Rightarrow> string \<Rightarrow> bool" where
  "route_matches routes model =
     (let trimmed = trim model in
      if trimmed = [] then False
      else list_ex (\<lambda>route. case mr_glob route of
             Some is_match \<Rightarrow> is_match trimmed
           | None \<Rightarrow> eq_ignore_ascii_case (mr_name route) trimmed) routes)"

definition model_profile_of :: "gateway_config \<Rightarrow> string \<Rightarrow> (string \<times> model_profile) option" where
  "model_profile_of cfg request_model = lookup_named (cfg_model_profiles cfg) request_model"

definition resolve_upstream_model :: "gateway_config \<Rightarrow> string \<Rightarrow> string" where
  "resolve_upstream_model cfg request_model =
     (case Option.bind (model_profile_of cfg request_model) (\<lambda>(_, p). mp_upstream_model p) of
        Some m \<Rightarrow> m
      | None \<Rightarrow> (case cfg_upstream_model cfg of Some m \<Rightarrow> m | None \<Rightarrow> request_model))"

definition matches_model_route :: "gateway_config \<Rightarrow> string \<Rightarrow> bool" where
  "matches_model_route cfg model = route_matches (cfg_model_routes cfg) model"

definition is_plain_single_provider :: "gateway_config \<Rightarrow> bool" where
  "is_plain_single_provider cfg =
     (\<not> cfg_has_upstreams cfg \<and> cfg_model_routes cfg = [] \<and> \<not> cfg_has_fallback_upstreams cfg)"

text \<open>Profiles are the same when they are the same entry, that is when their names are equal.\<close>

definition add_profile ::
  "gateway_config \<Rightarrow> string \<Rightarrow> (string \<times> model_profile) list \<Rightarrow> (string \<times> model_profile) list" where
  "add_profile cfg model profiles =
     (case model_profile_of cfg model of
        Some (name, p) \<Rightarrow> if name \<in> fst ` set profiles then profiles else profiles @ [(name, p)]
      | None \<Rightarrow> profiles)"

definition model_profiles_for_resolved_model ::
  "gateway_config \<Rightarrow> string \<Rightarrow> string \<Rightarrow> model_profile list" where
  "model_profiles_for_resolved_model cfg request_model resolved_model =
     (let profiles = fold (add_profile cfg)
            [resolved_model, resolve_upstream_model cfg request_model, request_model] []
      in map snd (if profiles = [] then add_profile cfg ''*'' [] else profiles))"

definition profile_native_vision :: "gateway_config \<Rightarrow> string \<Rightarrow> bool option" where
  "profile_native_vision cfg model =
     Option.bind (model_profile_of cfg model) (\<lambda>(_, p). mp_native_vision p)"

definition resolve_system_prompt_prefix_for_resolved_model ::
  "gateway_config \<Rightarrow> string \<Rightarrow> string \<Rightarrow> string option" where
  "resolve_system_prompt_prefix_for_resolved_model cfg request_model resolved_model =
     (let profile_prefix = first_some mp_system_prompt_prefix
            (rev (model_profiles_for_resolved_model cfg request_model resolved_model))
      in join_prompt_prefixes
           ((case cfg_system_prompt_prefix cfg of Some p \<Rightarrow> [p] | None \<Rightarrow> []) @
            (case profile_prefix of Some p \<Rightarrow> [p] | None \<Rightarrow> [])))"

definition resolve_system_prompt_prefix :: "gateway_config \<Rightarrow> string \<Rightarrow> string option" where
  "resolve_system_prompt_prefix cfg request_model =
     resolve_system_prompt_prefix_for_resolved_model cfg request_model
       (resolve_upstream_model cfg request_model)"

definition resolve_roles_config_for_resolved_model ::
  "gateway_config \<Rightarrow> string \<Rightarrow> string \<Rightarrow> roles_config option" where
  "resolve_roles_config_for_resolved_model cfg request_model resolved_model =
     first_some mp_roles (rev (model_profiles_for_resolved_model cfg request_model resolved_model))"

definition resolve_capabilities_for_upstream ::
  "gateway_config \<Rightarrow> string \<Rightarrow> capabilities_config option" where
  "resolve_capabilities_for_upstream cfg i =
     (case model_profile_of cfg i of
        Some (_, p) \<Rightarrow> mp_capabilities p
      | None \<Rightarrow>
          (case find (\<lambda>(_, p). case mp_upstream_model p of
                  Some m \<Rightarrow> eq_ignore_ascii_case m i | None \<Rightarrow> False) (cfg_model_profiles cfg) of
             Some (_, p) \<Rightarrow> mp_capabilities p
           | None \<Rightarrow> Option.bind (model_profile_of cfg ''*'') (\<lambda>(_, p). mp_capabilities p)))"

subsection \<open>The policies of the upstream leaf\<close>

definition effort_policy :: "model_profile \<Rightarrow> reasoning_effort_policy" where
  "effort_policy p =
     (case mp_reasoning_effort p of
        Some reasoning \<Rightarrow>
          (let levels = obj_of (map (\<lambda>(level, mapped).
                 (ascii_lower (trim level), jobj [(''reasoning_effort'', JStr mapped)]))
                 (rc_map reasoning));
               dflt = map_option ascii_lower (trim_nonempty (rc_default reasoning))
           in \<lparr>rep_map = (case dflt of
                 Some level \<Rightarrow> obj_insert level (jobj [(''reasoning_effort'', JStr level)]) levels
               | None \<Rightarrow> levels),
               rep_default = dflt, rep_upstream_reasoning = Some reasoning\<rparr>)
      | None \<Rightarrow>
          \<lparr>rep_map = obj_of (map (\<lambda>(level, fragment). (ascii_lower (trim level), fragment))
              (mp_reasoning_effort_map p)),
           rep_default = map_option ascii_lower (trim_nonempty (mp_reasoning_effort_default p)),
           rep_upstream_reasoning = None\<rparr>)"

definition reasoning_effort_policies :: "gateway_config \<Rightarrow> (string \<times> reasoning_effort_policy) list" where
  "reasoning_effort_policies cfg = map (\<lambda>(name, p). (name, effort_policy p))
     (filter (\<lambda>(_, p). mp_reasoning_effort_map p \<noteq> [] \<or> mp_reasoning_effort p \<noteq> None)
        (cfg_model_profiles cfg))"

definition template_family_policies :: "gateway_config \<Rightarrow> (string \<times> string) list" where
  "template_family_policies cfg = List.map_filter
     (\<lambda>(name, p). map_option (\<lambda>f. (name, f)) (mp_template_family p)) (cfg_model_profiles cfg)"

definition upstream_chat_kwargs_policies :: "gateway_config \<Rightarrow> (string \<times> json_map) list" where
  "upstream_chat_kwargs_policies cfg = map (\<lambda>(name, p). (name, mp_upstream_chat_kwargs p))
     (filter (\<lambda>(_, p). mp_upstream_chat_kwargs p \<noteq> []) (cfg_model_profiles cfg))"

end
