(* ===== verification/Vision.thy ===== *)
theory Vision
  imports Lowering Upstream_Leaf Assoc_List
begin

text \<open>
  The image agent (\<^verbatim>\<open>src/src/vision\<close>): the per-session LRU cache with a time to live, the pass that
  replaces the images of user messages by numbered placeholders and installs the
  \<^verbatim>\<open>analyzeImage\<close> tool, the residual-image pass, and the request to the vision backend.  An
  operation of the cache holds its lock for its whole body and reads the clock once (\<open>now\<close>, in
  milliseconds).
\<close>

subsection \<open>The cache\<close>

record cached_image =
  ci_image_url :: string
  ci_detail :: "string option"

record cache_entry =
  ce_image :: cached_image
  ce_stored_at :: nat

record session_cache =
  sc_order :: "string list"
  sc_entries :: "(string \<times> cache_entry) list"

record image_cache =
  ic_max_size :: nat
  ic_ttl :: nat
  ic_sessions :: "(string \<times> session_cache) list"

definition session_default :: session_cache where
  "session_default = \<lparr>sc_order = [], sc_entries = []\<rparr>"

definition image_cache_new :: "nat \<Rightarrow> nat \<Rightarrow> image_cache" where
  "image_cache_new max_size ttl =
     \<lparr>ic_max_size = max max_size 1, ic_ttl = ttl, ic_sessions = []\<rparr>"

definition image_key :: "string \<Rightarrow> string \<Rightarrow> string" where
  "image_key session_id image_id = session_id @ ''_Image#'' @ image_id"

definition is_expired :: "nat \<Rightarrow> image_cache \<Rightarrow> cache_entry \<Rightarrow> bool" where
  "is_expired now c e = (ic_ttl c < now - ce_stored_at e)"

text \<open>Every session loses its expired entries, and a session left empty goes.\<close>

definition live_session :: "nat \<Rightarrow> image_cache \<Rightarrow> session_cache \<Rightarrow> session_cache" where
  "live_session now c s =
     \<lparr>sc_order = filter (\<lambda>k. case map_of (sc_entries s) k of
         Some e \<Rightarrow> \<not> is_expired now c e | None \<Rightarrow> True) (sc_order s),
      sc_entries = filter (\<lambda>(k, e). \<not> is_expired now c e) (sc_entries s)\<rparr>"

definition cleanup_expired :: "nat \<Rightarrow> image_cache \<Rightarrow> image_cache" where
  "cleanup_expired now c = c\<lparr>ic_sessions := filter (\<lambda>(i, s). sc_entries s \<noteq> [])
     (map (\<lambda>(i, s). (i, live_session now c s)) (ic_sessions c))\<rparr>"

text \<open>The eviction loop: while the order is too long its front goes, with the entry.\<close>

fun pop_oldest ::
  "nat \<Rightarrow> string list \<Rightarrow> (string \<times> cache_entry) list \<Rightarrow> string list \<times> (string \<times> cache_entry) list"
where
  "pop_oldest cap [] entries = ([], entries)"
| "pop_oldest cap (oldest # rest) entries =
     (if cap < length (oldest # rest) then pop_oldest cap rest (AList.delete oldest entries)
      else (oldest # rest, entries))"

definition cache_store :: "nat \<Rightarrow> string \<Rightarrow> string \<Rightarrow> cached_image \<Rightarrow> image_cache \<Rightarrow> image_cache" where
  "cache_store now session_id key img c0 =
     (let c = cleanup_expired now c0;
          s = (case map_of (ic_sessions c) session_id of Some s \<Rightarrow> s | None \<Rightarrow> session_default);
          order = (if map_of (sc_entries s) key \<noteq> None then filter (\<lambda>k. k \<noteq> key) (sc_order s)
                   else sc_order s);
          (order', entries') = pop_oldest (ic_max_size c) (order @ [key])
             (AList.update key \<lparr>ce_image = img, ce_stored_at = now\<rparr> (sc_entries s))
      in c\<lparr>ic_sessions := AList.update session_id
             \<lparr>sc_order = order', sc_entries = entries'\<rparr> (ic_sessions c)\<rparr>)"

definition cache_get ::
  "nat \<Rightarrow> string \<Rightarrow> string \<Rightarrow> image_cache \<Rightarrow> cached_image option \<times> image_cache" where
  "cache_get now session_id key c0 =
     (let c = cleanup_expired now c0 in
      case map_of (ic_sessions c) session_id of
        None \<Rightarrow> (None, c)
      | Some s \<Rightarrow>
          (case map_of (sc_entries s) key of
             None \<Rightarrow> (None, c)
           | Some e \<Rightarrow>
               if is_expired now c e
               then (None, c\<lparr>ic_sessions := AList.update session_id
                       \<lparr>sc_order = filter (\<lambda>k. k \<noteq> key) (sc_order s),
                        sc_entries = AList.delete key (sc_entries s)\<rparr> (ic_sessions c)\<rparr>)
               else (Some (ce_image e), c\<lparr>ic_sessions := AList.update session_id
                       (s\<lparr>sc_order := filter (\<lambda>k. k \<noteq> key) (sc_order s) @ [key]\<rparr>)
                       (ic_sessions c)\<rparr>)))"

definition clear_session :: "string \<Rightarrow> image_cache \<Rightarrow> image_cache" where
  "clear_session session_id c = c\<lparr>ic_sessions := AList.delete session_id (ic_sessions c)\<rparr>"

subsection \<open>Texts\<close>

definition em_dash :: string where
  "em_dash = [CHR 0xE2, CHR 0x80, CHR 0x94]"

definition arrow_char :: string where
  "arrow_char = [CHR 0xE2, CHR 0x86, CHR 0x92]"

definition image_agent_system_prompt :: string where
  "image_agent_system_prompt = join [CHR 0x0A]
     [''CRITICAL INSTRUCTION '' @ em_dash @ '' IMAGE HANDLING:'',
      ''You CANNOT see images. All images are replaced with [Image #N] placeholders which are OPAQUE to you.'',
      ''When the latest user message contains [Image #N], you MUST call the `analyzeImage` tool as your FIRST action BEFORE generating any text response.'',
      ''- You have NO ability to see, interpret, or guess what is in an image without calling analyzeImage.'',
      ''- If you respond about an image without calling analyzeImage first, your response WILL be wrong.'',
      ''- Call analyzeImage with ALL image IDs from the latest message.'',
      ''This is non-negotiable. ALWAYS call analyzeImage when [Image #N] is present.'']"

definition analyze_image_tool_description :: string where
  "analyze_image_tool_description =
     ''MANDATORY tool for viewing images. You CANNOT see images directly '' @ em_dash @
     '' [Image #N] placeholders are opaque to you. The ONLY way to see image content '' @
     ''is by calling this tool. You MUST call analyzeImage BEFORE writing ANY response when the latest '' @
     ''user message contains [Image #N]. NEVER describe, guess, or comment on image content without '' @
     ''calling this tool first.''"

definition described :: "string \<Rightarrow> string \<Rightarrow> (string \<times> json) list" where
  "described kind description =
     [(''type'', JStr kind), (''description'', JStr description)]"

definition analyze_image_tool_parameters :: json where
  "analyze_image_tool_parameters = jobj
     [(''type'', JStr ''object''),
      (''properties'', jobj
         [(''imageId'', jobj (described ''array''
             (''Image IDs to analyze '' @ em_dash @ '' extract from [Image #N] placeholders (e.g. [Image #1] '' @
              arrow_char @ '' \"1\")'') @ [(''items'', jobj [(''type'', JStr ''string'')])])),
          (''task'', jobj (described ''string''
             ''What to look for in the image, based on conversation context'')),
          (''context'', jobj (described ''string''
             ''Brief conversation context so the vision model knows what to focus on''))]),
      (''required'', JArr [JStr ''imageId'', JStr ''task''])]"

definition analyze_image_tool_spec :: tool_spec where
  "analyze_image_tool_spec = TsFunction analyze_image_tool_name analyze_image_tool_description
     False analyze_image_tool_parameters"

definition image_placeholder_text :: "nat \<Rightarrow> string" where
  "image_placeholder_text number =
     ''[Image #'' @ show_nat number @ ''] '' @ em_dash @
     '' YOU CANNOT SEE THIS IMAGE. Call analyzeImage(imageId=[\"'' @ show_nat number @
     ''\"]) to view it.''"

subsection \<open>Stripping\<close>

text \<open>
  The walk over the parts of a user message: the counter and the cache are threaded, and an image
  with a URL is stored and replaced.
\<close>

type_synonym strip_state = "nat \<times> image_cache"

fun strip_parts ::
  "nat \<Rightarrow> string \<Rightarrow> content_item list \<Rightarrow> strip_state \<Rightarrow> content_item list \<times> strip_state" where
  "strip_parts now session_id [] st = ([], st)"
| "strip_parts now session_id (part # parts) (counter, cache) =
     (case part of
        InputImage (Some image_url) file_id detail \<Rightarrow>
          (let cache' = cache_store now session_id (image_key session_id (show_nat counter))
                 \<lparr>ci_image_url = image_url, ci_detail = detail\<rparr> cache;
               (parts', st') = strip_parts now session_id parts (Suc counter, cache')
           in (InputText (image_placeholder_text counter) # parts', st'))
      | _ \<Rightarrow> (let (parts', st') = strip_parts now session_id parts (counter, cache)
              in (part # parts', st')))"

fun strip_items ::
  "nat \<Rightarrow> string \<Rightarrow> response_item list \<Rightarrow> strip_state \<Rightarrow> response_item list \<times> strip_state" where
  "strip_items now session_id [] st = ([], st)"
| "strip_items now session_id (item # items) st =
     (case item of
        Message i role content phase \<Rightarrow>
          if role = ''user''
          then (let (content', st1) = strip_parts now session_id content st;
                    (items', st2) = strip_items now session_id items st1
                in (Message i role content' phase # items', st2))
          else (let (items', st2) = strip_items now session_id items st in (item # items', st2))
      | _ \<Rightarrow> (let (items', st2) = strip_items now session_id items st in (item # items', st2)))"

definition namespace_tool_is_analyze_image :: "namespace_tool_spec \<Rightarrow> bool" where
  "namespace_tool_is_analyze_image t = eq_ignore_ascii_case (ns_name t) analyze_image_tool_name"

fun tool_is_analyze_image :: "tool_spec \<Rightarrow> bool" where
  "tool_is_analyze_image (TsFunction name _ _ _) = eq_ignore_ascii_case name analyze_image_tool_name"
| "tool_is_analyze_image (TsCustom name _ _) = eq_ignore_ascii_case name analyze_image_tool_name"
| "tool_is_analyze_image _ = False"

text \<open>\<^verbatim>\<open>retain_mut\<close>: the tool that stays, with the namespace filtered, or nothing.\<close>

fun retain_tool :: "tool_spec \<Rightarrow> tool_spec option" where
  "retain_tool (TsNamespace name description tools) =
     (let tools' = filter (\<lambda>t. \<not> namespace_tool_is_analyze_image t) tools in
      if tools' = [] then None else Some (TsNamespace name description tools'))"
| "retain_tool spec = (if tool_is_analyze_image spec then None else Some spec)"

definition inject_analyze_image_tool :: "tool_spec list \<Rightarrow> tool_spec list" where
  "inject_analyze_image_tool tools =
     List.map_filter retain_tool tools @ [analyze_image_tool_spec]"

definition prepend_image_agent_system_prompt :: "responses_request \<Rightarrow> responses_request" where
  "prepend_image_agent_system_prompt r = r\<lparr>req_instructions :=
     (if req_instructions r = [] then image_agent_system_prompt
      else image_agent_system_prompt @ blank_line @ req_instructions r)\<rparr>"

definition strip_and_cache_images ::
  "nat \<Rightarrow> responses_request \<Rightarrow> string \<Rightarrow> image_cache \<Rightarrow> responses_request \<times> image_cache" where
  "strip_and_cache_images now r session_id cache =
     (let (input', (_, cache')) =
            strip_items now session_id (req_input r) (1, clear_session session_id cache)
      in (prepend_image_agent_system_prompt
            (r\<lparr>req_input := input', req_tools := inject_analyze_image_tool (req_tools r)\<rparr>), cache'))"

fun user_content :: "response_item \<Rightarrow> content_item list option" where
  "user_content (Message i role content phase) = (if role = ''user'' then Some content else None)"
| "user_content _ = None"

definition latest_user_message_content :: "response_item list \<Rightarrow> content_item list option" where
  "latest_user_message_content input = first_some user_content (rev input)"

fun usable_image :: "content_item \<Rightarrow> bool" where
  "usable_image (InputImage (Some url) _ _) = (url \<noteq> [])"
| "usable_image _ = False"

definition latest_user_message_has_images :: "response_item list \<Rightarrow> bool" where
  "latest_user_message_has_images input =
     (case latest_user_message_content input of
        None \<Rightarrow> False | Some content \<Rightarrow> list_ex usable_image content)"

subsection \<open>Residual images\<close>

fun is_residual_input_image :: "content_item \<Rightarrow> bool" where
  "is_residual_input_image (InputImage _ _ _) = True"
| "is_residual_input_image _ = False"

definition residual_tool_image_placeholder :: string where
  "residual_tool_image_placeholder = ''[the tool returned an image, which this text-only model cannot view. Do NOT call the same tool again for image-only output; request text output or ask the user what it shows. Do NOT fabricate its contents.]''"

definition residual_user_image_placeholder_text :: "nat \<Rightarrow> string" where
  "residual_user_image_placeholder_text count =
     ''[image omitted '' @ em_dash @ '' this model is text-only and cannot view images. '' @
     show_nat count @ '' image(s) were attached here. Do NOT guess their contents; ask the user to describe them or provide text.]''"

fun is_tool_output :: "response_item \<Rightarrow> bool" where
  "is_tool_output (FunctionCallOutput _ _) = True"
| "is_tool_output _ = False"

definition message_follows_tool_output :: "response_item list \<Rightarrow> nat \<Rightarrow> bool" where
  "message_follows_tool_output input index = (0 < index \<and> is_tool_output (input ! (index - 1)))"

fun item_has_residual_image :: "response_item \<Rightarrow> bool" where
  "item_has_residual_image (Message _ _ content _) = list_ex is_residual_input_image content"
| "item_has_residual_image _ = False"

definition has_residual_images :: "response_item list \<Rightarrow> bool" where
  "has_residual_images input = list_ex item_has_residual_image input"

definition count_residual :: "content_item list \<Rightarrow> nat" where
  "count_residual content = length (filter is_residual_input_image content)"

text \<open>One item of the sweep, with whether it follows a tool output.\<close>

fun degrade_item :: "bool \<Rightarrow> response_item \<Rightarrow> response_item \<times> nat" where
  "degrade_item follows (Message i role content phase) =
     (let count = count_residual content;
          placeholder = (if follows then residual_tool_image_placeholder
                         else residual_user_image_placeholder_text count)
      in if count = 0 then (Message i role content phase, 0)
         else (Message i role (map (\<lambda>part. if is_residual_input_image part
                 then InputText placeholder else part) content) phase, count))"
| "degrade_item follows item = (item, 0)"

definition degrade_residual_images :: "response_item list \<Rightarrow> response_item list \<times> nat" where
  "degrade_residual_images input =
     (let swept = map (\<lambda>(follows, item). degrade_item follows item)
            (zip (map (message_follows_tool_output input) [0..<length input]) input)
      in (map fst swept, sum_list (map snd swept)))"

subsection \<open>The vision backend\<close>

record vision_request =
  vr_image_ids :: "string list"
  vr_task :: string
  vr_context :: "string option"
  vr_images :: "cached_image list"

text \<open>Numeric ids are printed by \<^verbatim>\<open>serde_json\<close>.\<close>

fun value_to_image_id :: "json_codec \<Rightarrow> json \<Rightarrow> string option" where
  "value_to_image_id J (JStr i) = (if trim i \<noteq> [] then Some (trim i) else None)"
| "value_to_image_id J (JNum n) = Some (to_json_string J (JNum n))"
| "value_to_image_id J _ = None"

fun resolve_images ::
  "nat \<Rightarrow> string \<Rightarrow> string list \<Rightarrow> image_cache \<Rightarrow> cached_image list \<times> image_cache" where
  "resolve_images now session_id [] c = ([], c)"
| "resolve_images now session_id (i # is) c =
     (let (found, c1) = cache_get now session_id (image_key session_id i) c;
          (images, c2) = resolve_images now session_id is c1
      in (case found of Some img \<Rightarrow> img # images | None \<Rightarrow> images, c2))"

definition nonblank :: "string option \<Rightarrow> string option" where
  "nonblank opt = (case opt of Some s \<Rightarrow> if trim s \<noteq> [] then Some s else None | None \<Rightarrow> None)"

definition vision_from_arguments ::
  "json_codec \<Rightarrow> nat \<Rightarrow> json \<Rightarrow> string \<Rightarrow> image_cache \<Rightarrow> vision_request \<times> image_cache" where
  "vision_from_arguments J now arguments session_id cache =
     (let image_ids = (case Option.bind (json_get arguments ''imageId'') as_array of
             Some ids \<Rightarrow> List.map_filter (value_to_image_id J) ids | None \<Rightarrow> []);
          task = (case nonblank (json_get_str arguments ''task'') of
             Some t \<Rightarrow> t | None \<Rightarrow> ''Describe this image in detail'');
          context = nonblank (json_get_str arguments ''context'');
          (images, cache') = resolve_images now session_id image_ids cache
      in (\<lparr>vr_image_ids = image_ids, vr_task = task, vr_context = context, vr_images = images\<rparr>,
          cache'))"

definition vision_system_prompt :: string where
  "vision_system_prompt =
     ''Analyze the provided image(s) according to the task description below. '' @
     ''Be thorough, specific, and accurate in your analysis. If conversation context is provided, '' @
     ''use it to focus your analysis on the most relevant aspects of the image. '' @
     ''Describe exactly what you observe.''"

definition image_part :: "cached_image \<Rightarrow> json" where
  "image_part img = jobj [(''type'', JStr ''image_url''),
     (''image_url'', jobj ([(''url'', JStr (ci_image_url img))] @
        opt_entry ''detail'' (ci_detail img)))]"

definition vision_body :: "string option \<Rightarrow> vision_request \<Rightarrow> json" where
  "vision_body model r = jobj
     [(''model'', JStr (or_default model)),
      (''messages'', JArr
         [jobj [(''role'', JStr ''system''), (''content'', JStr vision_system_prompt)],
          jobj [(''role'', JStr ''user''),
            (''content'', JArr (map image_part (vr_images r) @
               [jobj [(''type'', JStr ''text''), (''text'', JStr (''Task: '' @ vr_task r @
                  (case vr_context r of
                     Some context \<Rightarrow> [CHR 0x0A] @ ''Context: '' @ context | None \<Rightarrow> [])))]]))]]),
      (''max_tokens'', JNum (PosInt 4096)), (''stream'', JBool False)]"

definition first_choice_content :: "json \<Rightarrow> string option" where
  "first_choice_content payload =
     Option.bind (Option.bind (json_get payload ''choices'') as_array) (\<lambda>choices.
       case choices of
         [] \<Rightarrow> None
       | choice # _ \<Rightarrow> Option.bind (json_get choice ''message'') (\<lambda>m. json_get_str m ''content''))"

definition vision_error_message :: "json_codec \<Rightarrow> json \<Rightarrow> string" where
  "vision_error_message J err =
     (case json_get_str err ''message'' of Some m \<Rightarrow> m | None \<Rightarrow> to_json_string J err)"

text \<open>The POST to the backend is the argument \<open>post\<close>, whose left results are transport errors.\<close>

definition vision_analyze ::
  "json_codec \<Rightarrow> (json \<Rightarrow> string + http_reply) \<Rightarrow> bool \<Rightarrow> string option \<Rightarrow> vision_request
     \<Rightarrow> app_error + string" where
  "vision_analyze J post has_url model r =
     (if \<not> has_url then Inl (internal_error ''image agent is active but vision_url is missing'')
      else case post (vision_body model r) of
        Inl err \<Rightarrow> Inl (upstream_error (''vision request failed: '' @ err))
      | Inr reply \<Rightarrow>
          if \<not> (200 \<le> hr_status reply \<and> hr_status reply < 300)
          then Inl (upstream_error (''vision backend failed with '' @ hr_status_line reply @ '': '' @
                 redact_vision_text (hr_body reply)))
          else case from_json_str J (hr_body reply) of
            Inl err \<Rightarrow> Inl (upstream_error (''invalid vision JSON: '' @ err))
          | Inr payload \<Rightarrow>
              (case json_get payload ''error'' of
                 Some err \<Rightarrow> Inl (upstream_error (''vision backend error: '' @
                   redact_vision_text (vision_error_message J err)))
               | None \<Rightarrow>
                   (case first_choice_content payload of
                      Some txt \<Rightarrow> Inr (redact_vision_text txt)
                    | None \<Rightarrow> Inl (upstream_error ''vision response missing message content''))))"

end
