(* ===== verification/Engine_Plan.thy ===== *)
theory Engine_Plan
  imports Profiles Vision Replay Model_Catalog
begin

text \<open>
  What the engine settles before a turn runs (\<^verbatim>\<open>src/src/engine.rs\<close>): the model the request resolves
  to on its own catalog of the upstream, the native-vision gate and the image agent, the replay
  baseline, the removal of the web search tool, the estimate of the prompt and the cap on the
  output tokens.  Clock readings, in seconds or milliseconds, are arguments.
\<close>

subsection \<open>The engine's catalog\<close>

record upstream_model_catalog =
  umc_ids :: "string list"
  umc_ids_by_key :: "string \<Rightarrow> string list"
  umc_context_limit_by_id :: "string \<rightharpoonup> int"

definition engine_catalog_default :: upstream_model_catalog where
  "engine_catalog_default =
     \<lparr>umc_ids = [], umc_ids_by_key = (\<lambda>k. []), umc_context_limit_by_id = Map.empty\<rparr>"

definition add_entry :: "upstream_model_entry \<Rightarrow> upstream_model_catalog \<Rightarrow> upstream_model_catalog" where
  "add_entry e c =
     (let key = canonical_model_key (ume_id e) in
      \<lparr>umc_ids = umc_ids c @ [ume_id e],
       umc_ids_by_key = (if key = [] then umc_ids_by_key c
          else (umc_ids_by_key c)(key := umc_ids_by_key c key @ [ume_id e])),
       umc_context_limit_by_id = (case ume_context_limit e of
          Some limit \<Rightarrow> (umc_context_limit_by_id c)(ume_id e \<mapsto> limit)
        | None \<Rightarrow> umc_context_limit_by_id c)\<rparr>)"

definition from_entries :: "upstream_model_entry list \<Rightarrow> upstream_model_catalog" where
  "from_entries entries = fold add_entry entries engine_catalog_default"

definition exact_id :: "upstream_model_catalog \<Rightarrow> string \<Rightarrow> string option" where
  "exact_id c model =
     (let trimmed = trim model in
      if trimmed = [] then None else find (\<lambda>i. i = trimmed) (umc_ids c))"

definition canonical_unique :: "upstream_model_catalog \<Rightarrow> string \<Rightarrow> string option" where
  "canonical_unique c model =
     (let trimmed = trim model in
      if trimmed = [] then None
      else (let matches = umc_ids_by_key c (canonical_model_key trimmed) in
            if length (remdups matches) = 1
            then (case matches of m # _ \<Rightarrow> Some m | [] \<Rightarrow> None) else None))"

definition default_id :: "upstream_model_catalog \<Rightarrow> string option" where
  "default_id c = (case umc_ids c of i # _ \<Rightarrow> Some i | [] \<Rightarrow> None)"

text \<open>The cached catalog: when it was fetched, and the catalog.\<close>

definition upstream_model_catalog_ttl_secs :: nat where
  "upstream_model_catalog_ttl_secs = 300"

type_synonym catalog_cache = "(nat \<times> upstream_model_catalog) option"

definition load_upstream_model_catalog ::
  "nat \<Rightarrow> app_error + upstream_model_entry list \<Rightarrow> catalog_cache
     \<Rightarrow> (app_error + upstream_model_catalog) \<times> catalog_cache" where
  "load_upstream_model_catalog now fetched cache =
     (case cache of
        Some (fetched_at, c) \<Rightarrow>
          if now - fetched_at < upstream_model_catalog_ttl_secs then (Inr c, cache)
          else (case fetched of Inl e \<Rightarrow> (Inl e, cache)
                | Inr entries \<Rightarrow> (Inr (from_entries entries), Some (now, from_entries entries)))
      | None \<Rightarrow>
          (case fetched of Inl e \<Rightarrow> (Inl e, cache)
           | Inr entries \<Rightarrow> (Inr (from_entries entries), Some (now, from_entries entries))))"

definition upstream_model_context_limit ::
  "app_error + upstream_model_catalog \<Rightarrow> string \<Rightarrow> int option" where
  "upstream_model_context_limit loaded resolved_model =
     (case loaded of Inr c \<Rightarrow> umc_context_limit_by_id c resolved_model | Inl _ \<Rightarrow> None)"

text \<open>The throttle of the fallback warning: the models warned about, with the time.\<close>

definition should_warn_model_fallback ::
  "nat \<Rightarrow> string \<Rightarrow> (string \<rightharpoonup> nat) \<Rightarrow> bool \<times> (string \<rightharpoonup> nat)" where
  "should_warn_model_fallback now requested warned0 =
     (let warned = (\<lambda>m. case warned0 m of
            Some at \<Rightarrow> if now - at < upstream_model_catalog_ttl_secs then Some at else None
          | None \<Rightarrow> None)
      in if warned requested \<noteq> None then (False, warned)
         else (True, warned(requested \<mapsto> now)))"

text \<open>
  The served model and whether the request genuinely maps to it.
\<close>

definition normalize_upstream_model ::
  "gateway_config \<Rightarrow> app_error + upstream_model_catalog \<Rightarrow> string \<Rightarrow> string \<times> bool" where
  "normalize_upstream_model cfg loaded model =
     (case loaded of
        Inl _ \<Rightarrow> (model, True)
      | Inr c \<Rightarrow>
          (case exact_id c model of
             Some exact \<Rightarrow> (exact, True)
           | None \<Rightarrow>
               if matches_model_route cfg model then (model, True)
               else (case canonical_unique c model of
                       Some canonical \<Rightarrow> (canonical, True)
                     | None \<Rightarrow> (case default_id c of
                           Some d \<Rightarrow> (d, False) | None \<Rightarrow> (model, True)))))"

definition resolve_request_model ::
  "gateway_config \<Rightarrow> app_error + upstream_model_catalog \<Rightarrow> string \<Rightarrow> string \<times> bool" where
  "resolve_request_model cfg loaded request_model =
     normalize_upstream_model cfg loaded (resolve_upstream_model cfg request_model)"

subsection \<open>Images\<close>

definition candidate_is_native_vision :: "gateway_config \<Rightarrow> string \<Rightarrow> bool" where
  "candidate_is_native_vision cfg candidate_model =
     (case profile_native_vision cfg candidate_model of
        Some native \<Rightarrow> native
      | None \<Rightarrow> sublist ''kimi'' (ascii_lower candidate_model))"

definition backend_is_native_vision ::
  "gateway_config \<Rightarrow> backend_candidate list \<Rightarrow> string \<Rightarrow> bool \<Rightarrow> bool" where
  "backend_is_native_vision cfg candidates request_model request_genuine =
     (if candidates = [] then False
      else (let request_override =
                  (if request_genuine then profile_native_vision cfg request_model else None)
            in list_all (\<lambda>(index, candidate).
                 case (if index = 0 then request_override else None) of
                   Some native \<Rightarrow> native
                 | None \<Rightarrow> candidate_is_native_vision cfg (bc_model candidate))
                 (enumerate (0 :: nat) candidates)))"

definition apply_system_prompt_prefix ::
  "gateway_config \<Rightarrow> responses_request \<Rightarrow> string \<Rightarrow> responses_request" where
  "apply_system_prompt_prefix cfg request resolved_model =
     (case resolve_system_prompt_prefix_for_resolved_model cfg (req_model request) resolved_model of
        None \<Rightarrow> request
      | Some pre \<Rightarrow> request\<lparr>req_instructions :=
          (if req_instructions request = [] then pre
           else pre @ blank_line @ req_instructions request)\<rparr>)"

text \<open>The agent's session id is the next UUID of the supply.\<close>

definition activate_image_agent ::
  "gateway_config \<Rightarrow> nat \<Rightarrow> string \<Rightarrow> bool \<Rightarrow> responses_request \<Rightarrow> image_cache
     \<Rightarrow> string option \<times> responses_request \<times> image_cache" where
  "activate_image_agent cfg now uuid native_vision request cache =
     (if \<not> cfg_image_agent_enabled cfg \<or> \<not> cfg_has_vision_url cfg then (None, request, cache)
      else if req_tool_choice request = JStr ''none'' then (None, request, cache)
      else if \<not> latest_user_message_has_images (req_input request) then (None, request, cache)
      else if native_vision then (None, request, cache)
      else (let session_id = ''vis_'' @ uuid;
                (request', cache') = strip_and_cache_images now request session_id cache
            in (Some session_id, request', cache')))"

text \<open>The residual-image pass, run unless the backend sees images.\<close>

definition residual_image_pass ::
  "gateway_config \<Rightarrow> bool \<Rightarrow> responses_request \<Rightarrow> app_error + responses_request" where
  "residual_image_pass cfg native_vision request =
     (if native_vision then Inr request
      else if cfg_unsupported_image_policy cfg = RejectImages \<and> has_residual_images (req_input request)
      then Inl (bad_request ''upstream model is text-only; images are not supported'')
      else (let (input', degraded) = degrade_residual_images (req_input request);
                request' = request\<lparr>req_input := input'\<rparr>
            in Inr (if 0 < degraded then request'\<lparr>req_store := False\<rparr> else request')))"

subsection \<open>Replay and tools\<close>

definition find_replay_baseline ::
  "history_key \<Rightarrow> replay_inner \<Rightarrow> responses_request \<Rightarrow> replay_record option \<times> nat" where
  "find_replay_baseline key store request =
     (if \<not> req_store request then (None, 0)
      else case longest_prefix_match key store (req_model request) (req_instructions request)
                  (req_input request) of
        Some r \<Rightarrow> (Some r, length (rp_visible_history r))
      | None \<Rightarrow> (None, 0))"

definition relax_tool_choice_after_stripping_tool :: "string \<Rightarrow> bool \<Rightarrow> json \<Rightarrow> json" where
  "relax_tool_choice_after_stripping_tool stripped_name no_tools_remaining tool_choice =
     (case tool_choice of
        JStr choice \<Rightarrow>
          if choice = ''required'' \<and> no_tools_remaining then JStr ''auto'' else tool_choice
      | JObj m \<Rightarrow>
          if map_get_str m ''type'' = Some ''function''
             \<and> Option.bind (Option.bind (obj_get m ''function'') as_object)
                 (\<lambda>f. map_get_str f ''name'') = Some stripped_name
          then JStr ''auto'' else tool_choice
      | _ \<Rightarrow> tool_choice)"

fun is_web_search_spec :: "tool_spec \<Rightarrow> bool" where
  "is_web_search_spec (TsWebSearch _ _ _ _ _) = True"
| "is_web_search_spec _ = False"

text \<open>The request whose tail is lowered, and the request of the turn.\<close>

definition strip_web_search ::
  "gateway_config \<Rightarrow> responses_request \<Rightarrow> responses_request \<Rightarrow> responses_request \<times> responses_request"
where
  "strip_web_search cfg tail request =
     (if cfg_has_brave_api_key cfg then (tail, request)
      else (let tools' = filter (\<lambda>t. \<not> is_web_search_spec t) (req_tools tail);
                relax = relax_tool_choice_after_stripping_tool ''web_search'' (tools' = [])
            in if length tools' \<noteq> length (req_tools tail)
               then (tail\<lparr>req_tools := tools', req_tool_choice := relax (req_tool_choice tail)\<rparr>,
                     request\<lparr>req_tool_choice := relax (req_tool_choice request)\<rparr>)
               else (tail\<lparr>req_tools := tools'\<rparr>, request)))"

subsection \<open>The upstream request\<close>

record upstream_request_additives =
  ura_model :: string
  ura_parallel_tool_calls :: "bool option"
  ura_reasoning_effort :: "string option"
  ura_max_output_tokens :: "int option"
  ura_temperature :: "f64 option"
  ura_top_p :: "f64 option"
  ura_frequency_penalty :: "f64 option"
  ura_presence_penalty :: "f64 option"
  ura_stop :: "string list option"
  ura_extra_body :: json_map

definition for_estimate :: "string \<Rightarrow> upstream_request_additives" where
  "for_estimate model = \<lparr>ura_model = model, ura_parallel_tool_calls = None,
     ura_reasoning_effort = None, ura_max_output_tokens = None, ura_temperature = None,
     ura_top_p = None, ura_frequency_penalty = None, ura_presence_penalty = None,
     ura_stop = None, ura_extra_body = []\<rparr>"

definition build_upstream_chat_request ::
  "chat_message list \<Rightarrow> chat_tool list option \<Rightarrow> json option \<Rightarrow> json \<Rightarrow> upstream_request_additives
     \<Rightarrow> chat_completion_request" where
  "build_upstream_chat_request messages tools response_format tool_choice additives =
     \<lparr>ccr_model = ura_model additives, ccr_messages = messages, ccr_stream = True,
      ccr_tools = tools, ccr_tool_choice = Some tool_choice,
      ccr_parallel_tool_calls = ura_parallel_tool_calls additives,
      ccr_reasoning_effort = ura_reasoning_effort additives,
      ccr_response_format = response_format,
      ccr_stream_options = Some \<lparr>so_include_usage = True\<rparr>,
      ccr_temperature = ura_temperature additives, ccr_top_p = ura_top_p additives,
      ccr_max_output_tokens = ura_max_output_tokens additives,
      ccr_frequency_penalty = ura_frequency_penalty additives,
      ccr_presence_penalty = ura_presence_penalty additives,
      ccr_stop = ura_stop additives, ccr_extra_body = ura_extra_body additives\<rparr>"

definition some_tools :: "chat_tool list \<Rightarrow> chat_tool list option" where
  "some_tools tools = (if tools = [] then None else Some tools)"

definition estimate_request_from_lowered ::
  "json_codec \<Rightarrow> lowered_turn \<Rightarrow> bool \<Rightarrow> string \<Rightarrow> chat_completion_request" where
  "estimate_request_from_lowered J lowered flatten_content resolved_model =
     sanitize_chat_request J flatten_content
       (build_upstream_chat_request (lt_messages lowered) (some_tools (lt_tools lowered))
          (lt_response_format lowered) (JStr ''auto'') (for_estimate resolved_model))"

text \<open>The number of bytes the request serializes to is the argument \<open>request_len\<close>.\<close>

definition estimate_input_tokens ::
  "json_codec \<Rightarrow> (chat_completion_request \<Rightarrow> nat) \<Rightarrow> lowered_turn \<Rightarrow> bool \<Rightarrow> string \<Rightarrow> int" where
  "estimate_input_tokens J request_len lowered flatten_content resolved_model =
     int ((request_len (estimate_request_from_lowered J lowered flatten_content resolved_model) + 3)
            div 4)"

definition context_budget_margin_tokens :: int where
  "context_budget_margin_tokens = 128"

text \<open>\<open>None\<close> stands for \<^verbatim>\<open>Err(ContextBudgetError)\<close>.\<close>

definition budget_explicit_max_output_tokens ::
  "int option \<Rightarrow> int \<Rightarrow> int \<Rightarrow> int option option" where
  "budget_explicit_max_output_tokens requested context_limit estimated =
     (let available = context_limit - estimated - context_budget_margin_tokens in
      if available \<le> 0 then None
      else Some (case requested of
             Some n \<Rightarrow> if 0 < n then Some (min n available) else requested
           | None \<Rightarrow> requested))"

definition candidate_context_floor :: "backend_candidate list \<Rightarrow> int option" where
  "candidate_context_floor candidates =
     (let limits = List.map_filter bc_context_limit candidates in
      if limits = [] then None else Some (Min (set limits)))"

definition budget_request ::
  "int option \<Rightarrow> int \<Rightarrow> responses_request \<Rightarrow> responses_request" where
  "budget_request limit estimated request =
     (case limit of
        None \<Rightarrow> request
      | Some l \<Rightarrow>
          (case budget_explicit_max_output_tokens (req_max_output_tokens request) l estimated of
             Some capped \<Rightarrow> request\<lparr>req_max_output_tokens := capped\<rparr>
           | None \<Rightarrow> request))"

subsection \<open>The extra body\<close>

definition remove_keys :: "string list \<Rightarrow> json_map \<Rightarrow> json_map" where
  "remove_keys keys body = fold obj_remove keys body"

definition max_token_aliases :: "string list" where
  "max_token_aliases = [''max_tokens'', ''max_output_tokens'', ''max_completion_tokens'']"

definition remove_defaults_for_explicit_request_fields ::
  "responses_request \<Rightarrow> json option \<Rightarrow> string option \<Rightarrow> json_map \<Rightarrow> json_map" where
  "remove_defaults_for_explicit_request_fields request response_format reasoning_effort body =
     fold (\<lambda>(explicit, keys) body. if explicit then remove_keys keys body else body)
       [(req_temperature request \<noteq> None, [''temperature'']),
        (req_top_p request \<noteq> None, [''top_p'']),
        (req_max_output_tokens request \<noteq> None, max_token_aliases),
        (req_frequency_penalty request \<noteq> None, [''frequency_penalty'']),
        (req_presence_penalty request \<noteq> None, [''presence_penalty'']),
        (response_format \<noteq> None, [''response_format'']),
        (reasoning_effort \<noteq> None, [''reasoning_effort''])] body"

definition remove_defaults_shadowed_by_request_extra :: "json_map \<Rightarrow> json_map \<Rightarrow> json_map" where
  "remove_defaults_shadowed_by_request_extra request_extra body =
     (if list_ex (\<lambda>k. obj_get request_extra k \<noteq> None) max_token_aliases
      then remove_keys max_token_aliases body else body)"

definition merge_request_extra_value :: "string \<times> json \<Rightarrow> json_map \<Rightarrow> json_map" where
  "merge_request_extra_value = (\<lambda>(key, v) body.
     case (if key = ''chat_template_kwargs'' then obj_get body key else None) of
       Some existing \<Rightarrow> obj_insert key (merge_json_value_prefer_source existing v) body
     | None \<Rightarrow> obj_insert key v body)"

definition build_upstream_extra_body ::
  "json_map \<Rightarrow> responses_request \<Rightarrow> json option \<Rightarrow> string option \<Rightarrow> json_map" where
  "build_upstream_extra_body defaults request response_format reasoning_effort =
     fold merge_request_extra_value (req_extra_body request)
       (remove_defaults_shadowed_by_request_extra (req_extra_body request)
         (remove_defaults_for_explicit_request_fields request response_format reasoning_effort
            defaults))"

subsection \<open>Unknown tools\<close>

datatype unknown_tool_outcome = Repaired | Exhausted

fun outcome_str :: "unknown_tool_outcome \<Rightarrow> string" where
  "outcome_str Repaired = ''repaired''"
| "outcome_str Exhausted = ''exhausted''"

definition max_unknown_tool_counter_keys :: nat where
  "max_unknown_tool_counter_keys = 256"

definition unknown_tool_counter_overflow_key :: string where
  "unknown_tool_counter_overflow_key = ''__other__''"

type_synonym counter_key = "string \<times> string \<times> unknown_tool_outcome"

type_synonym tool_counters = "(counter_key \<times> nat) list"

definition increment :: "'k \<Rightarrow> ('k \<times> nat) list \<Rightarrow> ('k \<times> nat) list" where
  "increment k counts =
     AList.update k (Suc (case map_of counts k of Some n \<Rightarrow> n | None \<Rightarrow> 0)) counts"

definition record_unknown_tool_outcome ::
  "string \<Rightarrow> string \<Rightarrow> unknown_tool_outcome \<Rightarrow> tool_counters \<Rightarrow> tool_counters" where
  "record_unknown_tool_outcome provider served_model outcome counts =
     (let key = (provider, served_model, outcome) in
      if map_of counts key = None \<and> max_unknown_tool_counter_keys \<le> length counts
      then increment (unknown_tool_counter_overflow_key, unknown_tool_counter_overflow_key, outcome)
             counts
      else increment key counts)"

subsection \<open>The publication task\<close>

text \<open>The nearest deadline of a cooling provider, as a duration from now.\<close>

definition next_cooldown_wake :: "nat \<Rightarrow> nat option list \<Rightarrow> nat option" where
  "next_cooldown_wake now_ms cooling =
     (let waits = map (\<lambda>until. sat_sub until now_ms) (List.map_filter id cooling) in
      if waits = [] then None else Some (Min (set waits)))"

end
