(* ===== verification/Engine_Events.thy ===== *)
theory Engine_Events
  imports Stream_State Chat_Stream Serving
begin

text \<open>
  The canonical stream events the engine sends (the builders at the end of
  \<^verbatim>\<open>src/src/engine.rs\<close> and the serialized payloads of \<^verbatim>\<open>src/src/models/responses.rs\<close>),
  the allocation of output indices to items, and the usage a turn accumulates.  A payload is the
  JSON value its derived serializer builds.
\<close>

subsection \<open>Serialized items\<close>

definition json_nat :: "nat \<Rightarrow> json" where
  "json_nat n = JNum (PosInt n)"

fun serialize_summary_item :: "reasoning_summary_item \<Rightarrow> json" where
  "serialize_summary_item (SummaryText t) =
     jobj [(''type'', JStr ''summary_text''), (''text'', JStr t)]"

fun serialize_reasoning_content :: "reasoning_content_item \<Rightarrow> json" where
  "serialize_reasoning_content (ReasoningText t) =
     jobj [(''type'', JStr ''reasoning_text''), (''text'', JStr t)]"
| "serialize_reasoning_content (PlainText t) =
     jobj [(''type'', JStr ''text''), (''text'', JStr t)]"

text \<open>The newtype variant of an internally tagged enum: the fields of the action with the tag.\<close>

fun serialize_local_shell_action :: "local_shell_action \<Rightarrow> json" where
  "serialize_local_shell_action (Exec a) =
     (case exec_to_value a of
        JObj m \<Rightarrow> JObj (obj_insert ''type'' (JStr ''exec'') m) | v \<Rightarrow> v)"

fun serialize_web_search_action :: "web_search_action \<Rightarrow> json" where
  "serialize_web_search_action (WsSearch query queries) =
     jobj ([(''type'', JStr ''search'')] @ opt_entry ''query'' query @
           opt_value ''queries'' (map_option (\<lambda>qs. JArr (map JStr qs)) queries))"
| "serialize_web_search_action (WsOpenPage url) =
     jobj ([(''type'', JStr ''open_page'')] @ opt_entry ''url'' url)"
| "serialize_web_search_action (WsFindInPage url pattern) =
     jobj ([(''type'', JStr ''find_in_page'')] @ opt_entry ''url'' url @
           opt_entry ''pattern'' pattern)"
| "serialize_web_search_action WsOther = jobj [(''type'', JStr ''other'')]"

fun serialize_response_item :: "response_item \<Rightarrow> json" where
  "serialize_response_item (Message i role content phase) =
     jobj ([(''type'', JStr ''message'')] @ opt_entry ''id'' i @
           [(''role'', JStr role), (''content'', JArr (map serialize_content_item content))] @
           opt_entry ''phase'' phase)"
| "serialize_response_item (Reasoning i summary content encrypted) =
     jobj ([(''type'', JStr ''reasoning''), (''id'', JStr i),
            (''summary'', JArr (map serialize_summary_item summary))] @
           opt_value ''content''
             (map_option (\<lambda>c. JArr (map serialize_reasoning_content c)) content) @
           opt_entry ''encrypted_content'' encrypted)"
| "serialize_response_item (FunctionCall i name namespace arguments call_id) =
     jobj ([(''type'', JStr ''function_call'')] @ opt_entry ''id'' i @ [(''name'', JStr name)] @
           opt_entry ''namespace'' namespace @
           [(''arguments'', JStr arguments), (''call_id'', JStr call_id)])"
| "serialize_response_item (FunctionCallOutput call_id output) =
     jobj [(''type'', JStr ''function_call_output''), (''call_id'', JStr call_id),
           (''output'', output)]"
| "serialize_response_item (CustomToolCall status call_id name input) =
     jobj ([(''type'', JStr ''custom_tool_call'')] @ opt_entry ''status'' status @
           [(''call_id'', JStr call_id), (''name'', JStr name), (''input'', JStr input)])"
| "serialize_response_item (CustomToolCallOutput call_id name output) =
     jobj ([(''type'', JStr ''custom_tool_call_output''), (''call_id'', JStr call_id)] @
           opt_entry ''name'' name @ [(''output'', output)])"
| "serialize_response_item (ToolSearchCall call_id status execution arguments) =
     jobj ([(''type'', JStr ''tool_search_call'')] @ opt_entry ''call_id'' call_id @
           opt_entry ''status'' status @
           [(''execution'', JStr execution), (''arguments'', arguments)])"
| "serialize_response_item (ToolSearchOutput call_id status execution tools) =
     jobj ([(''type'', JStr ''tool_search_output'')] @ opt_entry ''call_id'' call_id @
           [(''status'', JStr status), (''execution'', JStr execution), (''tools'', JArr tools)])"
| "serialize_response_item (LocalShellCall i call_id status action) =
     jobj ([(''type'', JStr ''local_shell_call'')] @ opt_entry ''id'' i @
           opt_entry ''call_id'' call_id @
           [(''status'', JStr status), (''action'', serialize_local_shell_action action)])"
| "serialize_response_item (WebSearchCall i status action) =
     jobj ([(''type'', JStr ''web_search_call'')] @ opt_entry ''id'' i @
           opt_entry ''status'' status @
           opt_value ''action'' (map_option serialize_web_search_action action))"
| "serialize_response_item (ImageGenerationCall i status revised_prompt result) =
     jobj ([(''type'', JStr ''image_generation_call''), (''id'', JStr i),
            (''status'', JStr status)] @ opt_entry ''revised_prompt'' revised_prompt @
           [(''result'', JStr result)])"

subsection \<open>Serialized responses\<close>

text \<open>The wire names of the terminal reasons.\<close>

fun terminal_reason_str :: "terminal_reason \<Rightarrow> string" where
  "terminal_reason_str StopReason = ''stop''"
| "terminal_reason_str LengthReason = ''length''"
| "terminal_reason_str ToolCallReason = ''tool_calls''"
| "terminal_reason_str ContentFilterReason = ''content_filter''"
| "terminal_reason_str OtherReason = ''other''"

definition serialize_response_usage :: "response_usage \<Rightarrow> json" where
  "serialize_response_usage u = jobj (
     [(''input_tokens'', json_i64 (ru_input_tokens u)),
      (''output_tokens'', json_i64 (ru_output_tokens u)),
      (''total_tokens'', json_i64 (ru_total_tokens u))] @
     opt_value ''input_tokens_details''
       (map_option (\<lambda>n. jobj [(''cached_tokens'', json_i64 n)]) (ru_cached_tokens u)) @
     opt_value ''output_tokens_details''
       (map_option (\<lambda>n. jobj [(''reasoning_tokens'', json_i64 n)]) (ru_reasoning_tokens u)))"

definition serialize_response_resource :: "response_resource \<Rightarrow> json" where
  "serialize_response_resource r = jobj (
     [(''id'', JStr (rs_id r)), (''object'', JStr (rs_object r)),
      (''created_at'', json_i64 (rs_created_at r)), (''status'', JStr (rs_status r)),
      (''output'', JArr (map serialize_response_item (rs_output r))),
      (''model'', JStr (rs_model r))] @
     opt_value ''usage'' (map_option serialize_response_usage (rs_usage r)) @
     opt_value ''metadata'' (map_option JObj (rs_metadata r)) @
     opt_value ''incomplete_details''
       (map_option (\<lambda>reason. jobj [(''reason'', JStr reason)]) (rs_incomplete_reason r)) @
     opt_entry ''stop_sequence'' (rs_stop_sequence r) @
     opt_value ''terminal_reason''
       (map_option (\<lambda>t. JStr (terminal_reason_str t)) (rs_terminal_reason r)))"

subsection \<open>Event builders\<close>

text \<open>An event: its name, and the payload fields flattened beside \<^verbatim>\<open>type\<close>.\<close>

definition json_event :: "string \<Rightarrow> (string \<times> json) list \<Rightarrow> sse_event" where
  "json_event name payload = \<lparr>se_event = name, se_data = jobj ((''type'', JStr name) # payload)\<rparr>"

definition created_event :: "string \<Rightarrow> int \<Rightarrow> sse_event" where
  "created_event response_id estimated_input_tokens =
     json_event ''response.created''
       [(''response'', jobj ([(''id'', JStr response_id)] @
          opt_value ''estimated_input_tokens''
            (if 0 \<le> estimated_input_tokens
             then Some (json_nat (nat estimated_input_tokens)) else None)))]"

definition in_progress_event :: "string \<Rightarrow> sse_event" where
  "in_progress_event response_id =
     json_event ''response.in_progress'' [(''response'', jobj [(''id'', JStr response_id)])]"

definition completed_event :: "response_resource \<Rightarrow> sse_event" where
  "completed_event response =
     json_event ''response.completed'' [(''response'', serialize_response_resource response)]"

definition incomplete_event :: "response_resource \<Rightarrow> sse_event" where
  "incomplete_event response =
     json_event ''response.incomplete'' [(''response'', serialize_response_resource response)]"

definition content_part_event :: "string \<Rightarrow> string \<Rightarrow> nat \<Rightarrow> string \<Rightarrow> sse_event" where
  "content_part_event name item_id output_index txt = json_event name
     [(''item_id'', JStr item_id), (''output_index'', json_nat output_index),
      (''content_index'', json_nat 0),
      (''part'', jobj [(''type'', JStr ''output_text''), (''text'', JStr txt),
         (''annotations'', JArr [])])]"

definition content_part_added_event :: "string \<Rightarrow> nat \<Rightarrow> sse_event" where
  "content_part_added_event item_id output_index =
     content_part_event ''response.content_part.added'' item_id output_index []"

definition content_part_done_event :: "string \<Rightarrow> nat \<Rightarrow> string \<Rightarrow> sse_event" where
  "content_part_done_event item_id output_index txt =
     content_part_event ''response.content_part.done'' item_id output_index txt"

definition summary_part_event :: "string \<Rightarrow> string \<Rightarrow> nat \<Rightarrow> string \<Rightarrow> sse_event" where
  "summary_part_event name item_id output_index txt = json_event name
     [(''item_id'', JStr item_id), (''output_index'', json_nat output_index),
      (''summary_index'', json_nat 0),
      (''part'', jobj [(''type'', JStr ''summary_text''), (''text'', JStr txt)])]"

definition reasoning_summary_part_added_event :: "string \<Rightarrow> nat \<Rightarrow> sse_event" where
  "reasoning_summary_part_added_event item_id output_index =
     summary_part_event ''response.reasoning_summary_part.added'' item_id output_index []"

definition reasoning_summary_part_done_event :: "string \<Rightarrow> nat \<Rightarrow> string \<Rightarrow> sse_event" where
  "reasoning_summary_part_done_event item_id output_index txt =
     summary_part_event ''response.reasoning_summary_part.done'' item_id output_index txt"

definition refusal_delta_event :: "string \<Rightarrow> sse_event" where
  "refusal_delta_event delta = json_event ''response.refusal.delta'' [(''delta'', JStr delta)]"

definition refusal_done_event :: "string \<Rightarrow> sse_event" where
  "refusal_done_event refusal = json_event ''response.refusal.done'' [(''refusal'', JStr refusal)]"

definition output_item_added_event :: "response_item \<Rightarrow> nat \<Rightarrow> sse_event" where
  "output_item_added_event item output_index = json_event ''response.output_item.added''
     [(''output_index'', json_nat output_index), (''item'', serialize_response_item item)]"

definition output_item_done_event :: "response_item \<Rightarrow> nat \<Rightarrow> sse_event" where
  "output_item_done_event item output_index = json_event ''response.output_item.done''
     [(''output_index'', json_nat output_index), (''item'', serialize_response_item item)]"

definition output_text_delta_event :: "string \<Rightarrow> nat \<Rightarrow> string \<Rightarrow> sse_event" where
  "output_text_delta_event item_id output_index delta = json_event ''response.output_text.delta''
     [(''item_id'', JStr item_id), (''output_index'', json_nat output_index),
      (''content_index'', json_nat 0), (''delta'', JStr delta)]"

definition reasoning_text_delta_event :: "string \<Rightarrow> nat \<Rightarrow> string \<Rightarrow> sse_event" where
  "reasoning_text_delta_event item_id output_index delta =
     json_event ''response.reasoning_summary_text.delta''
     [(''item_id'', JStr item_id), (''output_index'', json_nat output_index),
      (''summary_index'', json_nat 0), (''delta'', JStr delta)]"

definition reasoning_signature_delta_event :: "string \<Rightarrow> nat \<Rightarrow> string \<Rightarrow> sse_event" where
  "reasoning_signature_delta_event item_id output_index signature =
     json_event ''response.reasoning_summary_text.signature_delta''
     [(''item_id'', JStr item_id), (''output_index'', json_nat output_index),
      (''summary_index'', json_nat 0), (''signature'', JStr signature)]"

definition failure_event :: "app_error \<Rightarrow> sse_event" where
  "failure_event e = json_event ''response.failed''
     [(''response'', jobj [(''error'', jobj
        [(''code'', JStr (case err_code e of Some c \<Rightarrow> c | None \<Rightarrow> ''gateway_error'')),
         (''message'', JStr (err_client_message e))])])]"

definition output_text_done_event :: "string \<Rightarrow> nat \<Rightarrow> string \<Rightarrow> sse_event" where
  "output_text_done_event item_id output_index txt = json_event ''response.output_text.done''
     [(''item_id'', JStr item_id), (''output_index'', json_nat output_index),
      (''content_index'', json_nat 0), (''text'', JStr txt)]"

definition function_call_args_delta_event :: "string \<Rightarrow> string option \<Rightarrow> string \<Rightarrow> sse_event" where
  "function_call_args_delta_event call_id name delta =
     json_event ''response.function_call_arguments.delta''
     ([(''call_id'', JStr call_id)] @ opt_entry ''name'' name @ [(''delta'', JStr delta)])"

definition function_call_args_done_event :: "string \<Rightarrow> string \<Rightarrow> string \<Rightarrow> sse_event" where
  "function_call_args_done_event call_id name arguments =
     json_event ''response.function_call_arguments.done''
     [(''call_id'', JStr call_id), (''name'', JStr name), (''arguments'', JStr arguments)]"

text \<open>A source of a search: its URL and its title.\<close>

definition web_search_results_event ::
  "string \<Rightarrow> string \<Rightarrow> (string \<times> string) list \<Rightarrow> sse_event" where
  "web_search_results_event tool_use_id query sources =
     json_event ''response.web_search_results''
     [(''tool_use_id'', JStr tool_use_id), (''query'', JStr query),
      (''results'', JArr (map (\<lambda>(url, title). jobj [(''type'', JStr ''web_search_result''),
         (''url'', JStr url), (''title'', JStr title)]) sources))]"

subsection \<open>Output indices\<close>

fun response_item_event_id :: "response_item \<Rightarrow> string option" where
  "response_item_event_id (Message i _ _ _) = i"
| "response_item_event_id (Reasoning i _ _ _) = Some i"
| "response_item_event_id (FunctionCall i _ _ _ call_id) =
     (case i of Some x \<Rightarrow> Some x | None \<Rightarrow> Some call_id)"
| "response_item_event_id (FunctionCallOutput call_id _) = Some call_id"
| "response_item_event_id (CustomToolCall _ call_id _ _) = Some call_id"
| "response_item_event_id (CustomToolCallOutput call_id _ _) = Some call_id"
| "response_item_event_id (ToolSearchCall call_id _ _ _) = call_id"
| "response_item_event_id (ToolSearchOutput call_id _ _ _) = call_id"
| "response_item_event_id (LocalShellCall i call_id _ _) =
     (case i of Some x \<Rightarrow> Some x | None \<Rightarrow> call_id)"
| "response_item_event_id (WebSearchCall i _ _) = i"
| "response_item_event_id (ImageGenerationCall i _ _ _) = Some i"

record output_target =
  ot_item_id :: string
  ot_output_index :: nat

record response_event_state =
  re_next_output_index :: nat
  re_output_indices :: "string \<rightharpoonup> nat"
  re_active_message :: "output_target option"
  re_active_reasoning :: "output_target option"

definition event_state_default :: response_event_state where
  "event_state_default = \<lparr>re_next_output_index = 0, re_output_indices = Map.empty,
     re_active_message = None, re_active_reasoning = None\<rparr>"

definition register_item ::
  "response_item \<Rightarrow> response_event_state \<Rightarrow> output_target \<times> response_event_state" where
  "register_item item es =
     (let item_id = (case response_item_event_id item of
                       Some i \<Rightarrow> i | None \<Rightarrow> ''item_'' @ show_nat (re_next_output_index es));
          (output_index, es1) = (case re_output_indices es item_id of
             Some index \<Rightarrow> (index, es)
           | None \<Rightarrow> (re_next_output_index es,
               es\<lparr>re_next_output_index := Suc (re_next_output_index es),
                  re_output_indices :=
                    (re_output_indices es)(item_id \<mapsto> re_next_output_index es)\<rparr>));
          target = \<lparr>ot_item_id = item_id, ot_output_index = output_index\<rparr>
      in (target, case item of
            Message _ _ _ _ \<Rightarrow> es1\<lparr>re_active_message := Some target\<rparr>
          | Reasoning _ _ _ _ \<Rightarrow> es1\<lparr>re_active_reasoning := Some target\<rparr>
          | _ \<Rightarrow> es1))"

definition target_for_item ::
  "response_item \<Rightarrow> response_event_state \<Rightarrow> output_target \<times> response_event_state" where
  "target_for_item = register_item"

definition active_message_target :: "response_event_state \<Rightarrow> app_error + output_target" where
  "active_message_target es = (case re_active_message es of
     Some t \<Rightarrow> Inr t | None \<Rightarrow> Inl (internal_error ''missing active message output item''))"

definition active_reasoning_target :: "response_event_state \<Rightarrow> app_error + output_target" where
  "active_reasoning_target es = (case re_active_reasoning es of
     Some t \<Rightarrow> Inr t | None \<Rightarrow> Inl (internal_error ''missing active reasoning output item''))"

subsection \<open>Usage\<close>

text \<open>The sums are unchecked \<^verbatim>\<open>i64\<close> additions, which wrap in a release build.\<close>

record accumulated_usage =
  au_input_tokens :: int
  au_output_tokens :: int
  au_total_tokens :: int
  au_cached_input_tokens :: "int option"
  au_reasoning_output_tokens :: "int option"

definition usage_default :: accumulated_usage where
  "usage_default = \<lparr>au_input_tokens = 0, au_output_tokens = 0, au_total_tokens = 0,
     au_cached_input_tokens = None, au_reasoning_output_tokens = None\<rparr>"

definition accumulate_optional :: "int option \<Rightarrow> int option \<Rightarrow> int option" where
  "accumulate_optional slot reported =
     (case reported of
        Some v \<Rightarrow> Some (wrap_i64 ((case slot of Some n \<Rightarrow> n | None \<Rightarrow> 0) + v))
      | None \<Rightarrow> slot)"

definition chunk_cached :: "chunk_usage \<Rightarrow> int option" where
  "chunk_cached u = map_option ptd_cached_tokens (cu_prompt_tokens_details u)"

definition chunk_reasoning :: "chunk_usage \<Rightarrow> int option" where
  "chunk_reasoning u =
     (case cu_completion_tokens_details u of
        Some d \<Rightarrow> Some (ctd_reasoning_tokens d) | None \<Rightarrow> cu_reasoning_tokens u)"

definition usage_add :: "chunk_usage \<Rightarrow> accumulated_usage \<Rightarrow> accumulated_usage" where
  "usage_add u a =
     \<lparr>au_input_tokens = wrap_i64 (au_input_tokens a + cu_prompt_tokens u),
      au_output_tokens = wrap_i64 (au_output_tokens a + cu_completion_tokens u),
      au_total_tokens = wrap_i64 (au_total_tokens a + cu_total_tokens u),
      au_cached_input_tokens = accumulate_optional (au_cached_input_tokens a) (chunk_cached u),
      au_reasoning_output_tokens =
        accumulate_optional (au_reasoning_output_tokens a) (chunk_reasoning u)\<rparr>"

definition usage_snapshot :: "accumulated_usage \<Rightarrow> flow_usage" where
  "usage_snapshot a =
     \<lparr>fu_prompt = au_input_tokens a, fu_completion = au_output_tokens a,
      fu_total = au_total_tokens a, fu_cached = au_cached_input_tokens a,
      fu_reasoning = au_reasoning_output_tokens a\<rparr>"

definition into_response_usage :: "accumulated_usage \<Rightarrow> response_usage option" where
  "into_response_usage a =
     (if au_total_tokens a = 0 then None
      else Some \<lparr>ru_input_tokens = au_input_tokens a, ru_output_tokens = au_output_tokens a,
             ru_total_tokens = au_total_tokens a,
             ru_cached_tokens = Some (case au_cached_input_tokens a of Some n \<Rightarrow> n | None \<Rightarrow> 0),
             ru_reasoning_tokens =
               Some (case au_reasoning_output_tokens a of Some n \<Rightarrow> n | None \<Rightarrow> 0)\<rparr>)"

definition flow_usage_from_base_and_chunk :: "flow_usage \<Rightarrow> chunk_usage \<Rightarrow> flow_usage" where
  "flow_usage_from_base_and_chunk base chunk =
     \<lparr>fu_prompt = wrap_i64 (fu_prompt base + cu_prompt_tokens chunk),
      fu_completion = wrap_i64 (fu_completion base + cu_completion_tokens chunk),
      fu_total = wrap_i64 (fu_total base + cu_total_tokens chunk),
      fu_cached = accumulate_optional (fu_cached base) (chunk_cached chunk),
      fu_reasoning = accumulate_optional (fu_reasoning base) (chunk_reasoning chunk)\<rparr>"

subsection \<open>The query of a search\<close>

definition search_argument :: "json \<Rightarrow> app_error + string" where
  "search_argument arguments =
     (case json_get_str arguments ''query'' of
        Some q \<Rightarrow> Inr q | None \<Rightarrow> Inl (upstream_error ''web_search call missing query''))"

definition extract_web_search_query ::
  "web_search_action option \<Rightarrow> json \<Rightarrow> app_error + string" where
  "extract_web_search_query action arguments =
     (case action of
        Some (WsSearch (Some q) _) \<Rightarrow> Inr q
      | Some (WsSearch None _) \<Rightarrow> search_argument arguments
      | Some _ \<Rightarrow> Inl (upstream_error ''unsupported web_search action'')
      | None \<Rightarrow> search_argument arguments)"

end
