(* ===== verification/Search.thy ===== *)
theory Search
  imports Upstream_Leaf
begin

text \<open>
  The web search client (\<^verbatim>\<open>src/src/search.rs\<close>): the sources and the text the gateway makes of a
  Brave reply, and the outcome of a search.  The URL of the endpoint is the \<^verbatim>\<open>url\<close> crate's and the
  decoding of the reply is the derived one; both are arguments.
\<close>

record search_source =
  so_title :: string
  so_url :: string

record search_outcome =
  sr_formatted :: string
  sr_sources :: "search_source list"

record brave_web_result =
  bw_title :: string
  bw_url :: string
  bw_description :: string

record brave_search_response =
  bs_web :: "brave_web_result list option"

definition brave_results :: "brave_search_response \<Rightarrow> brave_web_result list" where
  "brave_results payload = (case bs_web payload of Some results \<Rightarrow> results | None \<Rightarrow> [])"

definition collect_sources :: "brave_search_response \<Rightarrow> search_source list" where
  "collect_sources payload =
     map (\<lambda>r. \<lparr>so_title = bw_title r, so_url = bw_url r\<rparr>)
       (filter (\<lambda>r. bw_url r \<noteq> []) (brave_results payload))"

definition result_lines :: "nat \<Rightarrow> brave_web_result \<Rightarrow> string list" where
  "result_lines index r =
     [show_nat (index + 1) @ ''. '' @ bw_title r] @
     (if bw_url r \<noteq> [] then [''URL: '' @ bw_url r] else []) @
     (if bw_description r \<noteq> [] then [''Snippet: '' @ bw_description r] else []) @ [[]]"

definition format_search_results :: "brave_search_response \<Rightarrow> string" where
  "format_search_results payload =
     (let results = brave_results payload;
          lines = concat (map (\<lambda>(index, r). result_lines index r)
            (zip [0..<length results] results))
      in if lines = [] then ''No Brave search results found.''
         else trim (join [CHR 0x0A] lines))"

definition brave_query :: "nat \<Rightarrow> string \<Rightarrow> (string \<times> string) list" where
  "brave_query max_results query =
     [(''q'', query), (''count'', show_nat max_results), (''text_decorations'', ''false''),
      (''spellcheck'', ''false'')]"

text \<open>The GET is given the API key and the query parameters.\<close>

definition brave_search ::
  "(string \<Rightarrow> string + brave_search_response) \<Rightarrow> (string \<Rightarrow> (string \<times> string) list \<Rightarrow> string + http_reply)
     \<Rightarrow> app_error + unit \<Rightarrow> string option \<Rightarrow> nat \<Rightarrow> string \<Rightarrow> app_error + search_outcome" where
  "brave_search decode get endpoint api_key max_results query =
     (case api_key of
        None \<Rightarrow> Inl (internal_error
          ''web_search is configured but BRAVE_SEARCH_API_KEY is missing'')
      | Some k \<Rightarrow> bind_res endpoint (\<lambda>_.
          case get k (brave_query max_results query) of
            Inl err \<Rightarrow> Inl (upstream_error (''Brave search request failed: '' @ err))
          | Inr reply \<Rightarrow>
              if \<not> (200 \<le> hr_status reply \<and> hr_status reply < 300)
              then Inl (upstream_error (''Brave search failed with '' @ hr_status_line reply @ '': '' @
                     hr_body reply))
              else case decode (hr_body reply) of
                Inl err \<Rightarrow> Inl (upstream_error (''invalid Brave search JSON: '' @ err))
              | Inr payload \<Rightarrow> Inr \<lparr>sr_formatted = format_search_results payload,
                                  sr_sources = collect_sources payload\<rparr>))"

end
