(* ===== verification/Engine_Turn.thy ===== *)
theory Engine_Turn
  imports Engine_Plan Engine_Events Search Tool_Delta_Gate
begin

text \<open>
  The turn of the engine (\<^verbatim>\<open>run_turn\<close> and the functions it calls in
  \<^verbatim>\<open>src/src/engine.rs\<close>): one upstream request per round, the events its stream is turned
  into, the completion of the round's items, the bounded repair of unknown tool calls, the tools
  the gateway runs itself, and the terminal event.

  A turn is a state that steps transform; a step ends with an error or without one.  The world is
  the argument \<open>engine\<close>: every place where the source polls the channel or the kill token, or
  waits on them, is a check, and \<open>eg_gone\<close> says for the n-th check whether the client has hung up
  or the flow has been killed by then; \<open>eg_raw\<close> is the error of the raw mirror after the n-th
  check, if any; the upstream answers the n-th request with an error or with the items of a
  finite stream; \<open>eg_debug_str\<close> is the \<^verbatim>\<open>{:?}\<close> rendering of a string, whose escapes follow the
  Unicode tables of the standard library.  Monitor and log output is not modelled.
\<close>

subsection \<open>The world and the turn\<close>

text \<open>A call bounded by the request timeout: its result, or no answer in time.\<close>

datatype 'a timed = Replied "app_error + 'a" | TimedOut

record engine =
  eg_codec :: json_codec
  eg_exec :: exec_decoder
  eg_debug_str :: "string \<Rightarrow> string"
  eg_uuid :: uuid_supply
  eg_key :: history_key
  eg_cfg :: gateway_config
  eg_gone :: "nat \<Rightarrow> bool"
  eg_raw :: "nat \<Rightarrow> string option"
  eg_upstream :: "nat \<Rightarrow> backend_request \<Rightarrow> app_error + (app_error + chat_completion_chunk) list"
  eg_search :: "nat \<Rightarrow> string \<Rightarrow> search_outcome timed"
  eg_vision :: "nat \<Rightarrow> vision_request \<Rightarrow> string timed"
  eg_provider :: "nat \<Rightarrow> string option"
  eg_clock_ms :: "nat \<Rightarrow> nat"
  eg_created_at :: int

record turn_args =
  ta_response_id :: string
  ta_request :: responses_request
  ta_replay_prefix_len :: nat
  ta_tools :: "chat_tool list"
  ta_registry :: tool_registry
  ta_response_format :: "json option"
  ta_reasoning_effort :: "string option"
  ta_estimated_input_tokens :: int
  ta_upstream_model :: string
  ta_vision_session :: "string option"
  ta_observed :: bool

text \<open>
  \<open>tn_clock\<close> counts the checks, \<open>tn_sent\<close> is what the client was sent, \<open>tn_requests\<close>,
  \<open>tn_searches\<close> and \<open>tn_analyses\<close> are what was asked of the upstream, the search and the vision
  backend; \<open>tn_flow_usage\<close> is the usage last reported for the flow.
\<close>

record turn =
  tn_clock :: nat
  tn_uuid :: nat
  tn_sent :: "sse_event list"
  tn_requests :: "backend_request list"
  tn_searches :: "string list"
  tn_analyses :: "vision_request list"
  tn_messages :: "chat_message list"
  tn_public_history :: "response_item list"
  tn_output :: "response_item list"
  tn_events :: response_event_state
  tn_usage :: accumulated_usage
  tn_stream :: stream_state
  tn_chunk_usage :: "chunk_usage option"
  tn_gate :: tool_delta_gate
  tn_tool_choice :: json
  tn_finish_reason :: "string option"
  tn_stop_sequence :: "string option"
  tn_web_rounds :: nat
  tn_image_rounds :: nat
  tn_repair_rounds :: nat
  tn_pending_repair :: bool
  tn_unknown_tools :: tool_counters
  tn_flow_usage :: "flow_usage option"
  tn_images :: image_cache
  tn_replay :: replay_inner

definition unknown_tool_repair_ceiling :: nat where
  "unknown_tool_repair_ceiling = 1"

definition web_search_rounds_hard_ceiling :: nat where
  "web_search_rounds_hard_ceiling = 25"

definition image_analysis_rounds_hard_ceiling :: nat where
  "image_analysis_rounds_hard_ceiling = 8"

definition tainted_tool_result :: string where
  "tainted_tool_result =
     ''not_executed: another tool call in this turn referenced a tool that is not available, '' @
     ''so no tool in this batch was executed. Re-issue only valid tool calls.''"

definition closed_tool_set_note_text :: string where
  "closed_tool_set_note_text =
     ''You may only call tools that are explicitly provided in this request. Do not invent or '' @
     ''guess tool names. If a `ToolSearch` tool is provided, call it to request any additional '' @
     ''tools you need before using them.''"

subsection \<open>Steps\<close>

type_synonym step = "turn \<Rightarrow> app_error option \<times> turn"

definition then_step :: "step \<Rightarrow> step \<Rightarrow> step" where
  "then_step f g s = (case f s of (Some e, s') \<Rightarrow> (Some e, s') | (None, s') \<Rightarrow> g s')"

fun steps :: "step list \<Rightarrow> step" where
  "steps [] s = (None, s)"
| "steps (f # fs) s = then_step f (steps fs) s"

definition modify :: "(turn \<Rightarrow> turn) \<Rightarrow> step" where
  "modify f s = (None, f s)"

definition fail :: "app_error \<Rightarrow> step" where
  "fail e s = (Some e, s)"

definition when_step :: "bool \<Rightarrow> step \<Rightarrow> step" where
  "when_step b f s = (if b then f s else (None, s))"

text \<open>A step that continues with the value of a fallible computation.\<close>

definition with_value :: "(turn \<Rightarrow> app_error + 'a) \<Rightarrow> ('a \<Rightarrow> step) \<Rightarrow> step" where
  "with_value f g s = (case f s of Inl e \<Rightarrow> (Some e, s) | Inr x \<Rightarrow> g x s)"

text \<open>\<^verbatim>\<open>if tx.is_closed() || abort_token.is_cancelled() { return Err(cancelled) }\<close>.\<close>

definition poll :: "engine \<Rightarrow> step" where
  "poll E s =
     (let s' = s\<lparr>tn_clock := Suc (tn_clock s)\<rparr> in
      if eg_gone E (tn_clock s) then (Some cancelled, s') else (None, s'))"

definition send_event :: "engine \<Rightarrow> sse_event \<Rightarrow> step" where
  "send_event E ev s =
     (let n = tn_clock s; s' = s\<lparr>tn_clock := Suc n\<rparr> in
      if eg_gone E n then (Some cancelled, s')
      else (let sent = s'\<lparr>tn_sent := tn_sent s' @ [ev]\<rparr> in
            case eg_raw E n of
              Some err \<Rightarrow> (Some (internal_error (''failed to write raw output: '' @ err)), sent)
            | None \<Rightarrow> (None, sent)))"

text \<open>Registering an item and sending an event about it.\<close>

definition send_registered ::
  "engine \<Rightarrow> response_item \<Rightarrow> (output_target \<Rightarrow> sse_event) \<Rightarrow> step" where
  "send_registered E item ev s =
     (let (target, es) = register_item item (tn_events s)
      in send_event E (ev target) (s\<lparr>tn_events := es\<rparr>))"

definition drive_decision :: "engine \<Rightarrow> delta_decision \<Rightarrow> step" where
  "drive_decision E d = steps (map (\<lambda>e. send_event E
     (function_call_args_delta_event (de_call_id e) (de_name e) (de_delta e)))
     (drive_delta_decision d))"

definition push_shaped ::
  "json_codec \<Rightarrow> roles_config option \<Rightarrow> chat_message \<Rightarrow> step" where
  "push_shaped J roles message = with_value (\<lambda>s. shape_tail_message J message roles)
     (\<lambda>shaped. case shaped of
        Some m \<Rightarrow> modify (\<lambda>s. s\<lparr>tn_messages := tn_messages s @ [m]\<rparr>)
      | None \<Rightarrow> modify (\<lambda>s. s))"

definition turn_roles :: "engine \<Rightarrow> turn_args \<Rightarrow> roles_config option" where
  "turn_roles E A = resolve_roles_config_for_resolved_model (eg_cfg E)
     (req_model (ta_request A)) (ta_upstream_model A)"

definition push :: "engine \<Rightarrow> turn_args \<Rightarrow> chat_message \<Rightarrow> step" where
  "push E A = push_shaped (eg_codec E) (turn_roles E A)"

subsection \<open>The upstream request of a round\<close>

definition client_chat_template_kwargs :: "turn_args \<Rightarrow> json_map option" where
  "client_chat_template_kwargs A =
     Option.bind (obj_get (req_extra_body (ta_request A)) ''chat_template_kwargs'') as_object"

definition turn_additives :: "turn_args \<Rightarrow> string list option \<Rightarrow> upstream_request_additives" where
  "turn_additives A stop = (let r = ta_request A in
     \<lparr>ura_model = ta_upstream_model A, ura_parallel_tool_calls = req_parallel_tool_calls r,
      ura_reasoning_effort = ta_reasoning_effort A,
      ura_max_output_tokens = req_max_output_tokens r, ura_temperature = req_temperature r,
      ura_top_p = req_top_p r, ura_frequency_penalty = req_frequency_penalty r,
      ura_presence_penalty = req_presence_penalty r, ura_stop = stop,
      ura_extra_body = build_upstream_extra_body [] r (ta_response_format A)
        (ta_reasoning_effort A)\<rparr>)"

definition round_request :: "turn_args \<Rightarrow> string list option \<Rightarrow> turn \<Rightarrow> backend_request" where
  "round_request A stop s = with_thinking_override (req_thinking (ta_request A))
     (backend_request_new
        (build_upstream_chat_request (tn_messages s) (some_tools (ta_tools A))
           (ta_response_format A) (tn_tool_choice s) (turn_additives A stop))
        (client_chat_template_kwargs A))"

text \<open>Adjacent messages of the tail are merged before every request, never the replayed prefix.\<close>

definition merge_tail :: "engine \<Rightarrow> turn_args \<Rightarrow> turn \<Rightarrow> turn" where
  "merge_tail E A s =
     (let roles = turn_roles E A; p = ta_replay_prefix_len A in
      if roles \<noteq> None \<and> p < length (tn_messages s)
      then s\<lparr>tn_messages := take p (tn_messages s) @
               merge_adjacent_if_configured (eg_codec E) (drop p (tn_messages s)) roles\<rparr>
      else s)"

definition log_request :: "turn_args \<Rightarrow> string list option \<Rightarrow> turn \<Rightarrow> turn" where
  "log_request A stop s = s\<lparr>tn_requests := tn_requests s @ [round_request A stop s]\<rparr>"

definition upstream_reply ::
  "engine \<Rightarrow> turn \<Rightarrow> app_error + (app_error + chat_completion_chunk) list" where
  "upstream_reply E s = eg_upstream E (length (tn_requests s) - 1) (last (tn_requests s))"

definition fresh_round :: "turn \<Rightarrow> turn" where
  "fresh_round s =
     s\<lparr>tn_stream := stream_state_default, tn_chunk_usage := None, tn_gate := gate_new\<rparr>"

subsection \<open>The events of a stream\<close>

definition on_message :: "engine \<Rightarrow> (output_target \<Rightarrow> sse_event) \<Rightarrow> step" where
  "on_message E ev =
     with_value (\<lambda>s. active_message_target (tn_events s)) (\<lambda>t. send_event E (ev t))"

definition on_reasoning :: "engine \<Rightarrow> (output_target \<Rightarrow> sse_event) \<Rightarrow> step" where
  "on_reasoning E ev =
     with_value (\<lambda>s. active_reasoning_target (tn_events s)) (\<lambda>t. send_event E (ev t))"

definition gate_delta ::
  "engine \<Rightarrow> turn_args \<Rightarrow> string \<Rightarrow> string option \<Rightarrow> string \<Rightarrow> step" where
  "gate_delta E A call_id name delta s =
     (case on_delta (tn_gate s) call_id name delta
             (map_option (\<lambda>n. is_hidden_tool_name n (ta_registry A)) name) of
        (Inl _, _) \<Rightarrow> (Some (upstream_error
          ''upstream streamed too many tool-call argument bytes before a tool name''), s)
      | (Inr decision, gate) \<Rightarrow> drive_decision E decision (s\<lparr>tn_gate := gate\<rparr>))"

fun send_emission :: "engine \<Rightarrow> turn_args \<Rightarrow> stream_emission \<Rightarrow> step" where
  "send_emission E A (OutputItemAdded item) =
     send_registered E item (\<lambda>t. output_item_added_event item (ot_output_index t))"
| "send_emission E A (OutputTextDelta delta) =
     on_message E (\<lambda>t. output_text_delta_event (ot_item_id t) (ot_output_index t) delta)"
| "send_emission E A (ReasoningItemAdded item) =
     send_registered E item (\<lambda>t. output_item_added_event item (ot_output_index t))"
| "send_emission E A (ReasoningTextDelta delta) =
     on_reasoning E (\<lambda>t. reasoning_text_delta_event (ot_item_id t) (ot_output_index t) delta)"
| "send_emission E A (ReasoningSignatureDelta signature) =
     on_reasoning E
       (\<lambda>t. reasoning_signature_delta_event (ot_item_id t) (ot_output_index t) signature)"
| "send_emission E A (FunctionCallArgumentsDelta call_id name delta) =
     gate_delta E A call_id name delta"
| "send_emission E A ContentPartAdded =
     on_message E (\<lambda>t. content_part_added_event (ot_item_id t) (ot_output_index t))"
| "send_emission E A (ContentPartDone txt) =
     on_message E (\<lambda>t. content_part_done_event (ot_item_id t) (ot_output_index t) txt)"
| "send_emission E A ReasoningSummaryPartAdded =
     on_reasoning E (\<lambda>t. reasoning_summary_part_added_event (ot_item_id t) (ot_output_index t))"
| "send_emission E A (ReasoningSummaryPartDone txt) =
     on_reasoning E
       (\<lambda>t. reasoning_summary_part_done_event (ot_item_id t) (ot_output_index t) txt)"
| "send_emission E A (RefusalDelta delta) = send_event E (refusal_delta_event delta)"

text \<open>
  A usage chunk is cumulative within its round: the flow's total is the usage of the rounds before
  this one with the chunk added.
\<close>

definition note_usage :: "turn_args \<Rightarrow> chat_completion_chunk \<Rightarrow> turn \<Rightarrow> turn" where
  "note_usage A chunk s =
     (case chunk_usage_of chunk of
        None \<Rightarrow> s
      | Some u \<Rightarrow> s\<lparr>tn_chunk_usage := Some u,
          tn_flow_usage := (if ta_observed A
            then Some (flow_usage_from_base_and_chunk (usage_snapshot (tn_usage s)) u)
            else tn_flow_usage s)\<rparr>)"

definition receive_chunk :: "engine \<Rightarrow> turn_args \<Rightarrow> chat_completion_chunk \<Rightarrow> step" where
  "receive_chunk E A chunk s0 =
     (let s = note_usage A chunk s0;
          ((n, st), emissions) = apply_chunk (eg_codec E) (eg_uuid E) chunk (tn_uuid s, tn_stream s)
      in steps (map (send_emission E A) emissions) (s\<lparr>tn_uuid := n, tn_stream := st\<rparr>))"

text \<open>Each read of the stream races the hang-up and the kill.\<close>

fun receive :: "engine \<Rightarrow> turn_args \<Rightarrow> (app_error + chat_completion_chunk) list \<Rightarrow> step" where
  "receive E A [] = poll E"
| "receive E A (Inl e # _) = then_step (poll E) (fail e)"
| "receive E A (Inr chunk # rest) =
     then_step (poll E) (then_step (receive_chunk E A chunk) (receive E A rest))"

definition add_round_usage :: "turn \<Rightarrow> turn" where
  "add_round_usage s =
     (case tn_chunk_usage s of Some u \<Rightarrow> s\<lparr>tn_usage := usage_add u (tn_usage s)\<rparr> | None \<Rightarrow> s)"

text \<open>The first half of a round: the request and its stream.\<close>

definition open_round :: "engine \<Rightarrow> turn_args \<Rightarrow> string list option \<Rightarrow> step" where
  "open_round E A stop = steps
     [poll E, modify (merge_tail E A), poll E, modify (log_request A stop), poll E,
      with_value (upstream_reply E) (\<lambda>items.
        steps [modify fresh_round, receive E A items, modify add_round_usage])]"

subsection \<open>The items of a round\<close>

text \<open>
  The UUIDs the finalization may have drawn, one for each call without an id, are skipped.
\<close>

definition note_finalized :: "finalized_assistant_turn \<Rightarrow> turn \<Rightarrow> turn" where
  "note_finalized fin s = s\<lparr>tn_uuid := tn_uuid s + length (ss_tool_calls (tn_stream s)),
     tn_finish_reason := fin_finish_reason fin, tn_stop_sequence := fin_stop_sequence fin\<rparr>"

definition flush_call :: "engine \<Rightarrow> resolved_tool_call \<Rightarrow> step" where
  "flush_call E call s =
     (if rtc_kind call = KImageAnalysis then (None, s)
      else case tc_id (rtc_internal_call call) of
        None \<Rightarrow> (None, s)
      | Some call_id \<Rightarrow>
          (let (decision, gate) = flush_pending_client_tool (tn_gate s) call_id
           in drive_decision E decision (s\<lparr>tn_gate := gate\<rparr>)))"

definition record_output :: "response_item \<Rightarrow> turn \<Rightarrow> turn" where
  "record_output item s = s\<lparr>tn_public_history := tn_public_history s @ [item],
     tn_output := tn_output s @ [item]\<rparr>"

definition set_events :: "response_event_state \<Rightarrow> turn \<Rightarrow> turn" where
  "set_events es s = s\<lparr>tn_events := es\<rparr>"

definition complete_reasoning :: "engine \<Rightarrow> finalized_assistant_turn \<Rightarrow> response_item \<Rightarrow> step" where
  "complete_reasoning E fin item s =
     (let (target, es) = target_for_item item (tn_events s) in
      steps [modify (set_events es), modify (record_output item),
        (case item of
           Reasoning _ _ content _ \<Rightarrow> when_step (fin_reasoning_part_emitted fin)
             (send_event E (reasoning_summary_part_done_event (ot_item_id target)
                (ot_output_index target) (first_reasoning_text content)))
         | _ \<Rightarrow> modify (\<lambda>s. s)),
        send_event E (output_item_done_event item (ot_output_index target))] s)"

text \<open>The text of a message: its output parts only.\<close>

definition full_output_text :: "content_item list \<Rightarrow> string" where
  "full_output_text content = concat (List.map_filter
     (\<lambda>c. case c of OutputText t \<Rightarrow> Some t | _ \<Rightarrow> None) content)"

definition complete_message :: "engine \<Rightarrow> finalized_assistant_turn \<Rightarrow> response_item \<Rightarrow> step" where
  "complete_message E fin item s =
     (let (target, es) = target_for_item item (tn_events s);
          i = ot_item_id target; index = ot_output_index target
      in steps [modify (set_events es),
        (case item of
           Message _ _ content _ \<Rightarrow>
             (let txt = full_output_text content in
              when_step (txt \<noteq> []) (steps
                [send_event E (output_text_done_event i index txt),
                 when_step (fin_content_part_emitted fin)
                   (send_event E (content_part_done_event i index txt))]))
         | _ \<Rightarrow> modify (\<lambda>s. s)),
        modify (record_output item),
        send_event E (output_item_done_event item index)] s)"

definition emit_completed_public_items :: "engine \<Rightarrow> finalized_assistant_turn \<Rightarrow> step" where
  "emit_completed_public_items E fin = steps
     [(case fin_reasoning_item fin of Some item \<Rightarrow> complete_reasoning E fin item
       | None \<Rightarrow> modify (\<lambda>s. s)),
      (case fin_message_item fin of Some item \<Rightarrow> complete_message E fin item
       | None \<Rightarrow> modify (\<lambda>s. s)),
      when_step (fin_refusal_text fin \<noteq> [])
        (send_event E (refusal_done_event (fin_refusal_text fin)))]"

definition close_round :: "engine \<Rightarrow> turn_args \<Rightarrow> finalized_assistant_turn \<Rightarrow> step" where
  "close_round E A fin = steps
     [modify (note_finalized fin),
      when_step (fin_rejected_tool_calls fin = []) (steps (map (flush_call E) (fin_tool_calls fin))),
      emit_completed_public_items E fin,
      poll E,
      (case fin_internal_assistant_message fin of Some m \<Rightarrow> push E A m
       | None \<Rightarrow> modify (\<lambda>s. s))]"

subsection \<open>Unknown tools\<close>

definition synthetic_tool_result :: "string \<Rightarrow> string \<Rightarrow> chat_message" where
  "synthetic_tool_result call_id content =
     \<lparr>cm_role = ''tool'', cm_content = Some (JStr content), cm_tool_call_id = Some call_id,
      cm_name = None, cm_reasoning_content = None, cm_thinking = None, cm_tool_calls = None\<rparr>"

definition closed_tool_set_note :: chat_message where
  "closed_tool_set_note = content_only_message ''system'' closed_tool_set_note_text"

definition unavailable_text :: "string \<Rightarrow> string" where
  "unavailable_text name = ''tool_unavailable: the tool '' @ [CHR 0x22] @ name @ [CHR 0x22] @
     '' is not one of the tools provided in this request.''"

definition count_outcome :: "engine \<Rightarrow> turn_args \<Rightarrow> unknown_tool_outcome \<Rightarrow> turn \<Rightarrow> turn" where
  "count_outcome E A outcome s = s\<lparr>tn_unknown_tools := record_unknown_tool_outcome
     (case eg_provider E (length (tn_requests s)) of Some p \<Rightarrow> p | None \<Rightarrow> ''unknown'')
     (ta_upstream_model A) outcome (tn_unknown_tools s)\<rparr>"

text \<open>A tainted batch runs nothing: every call is answered, and the note follows.\<close>

definition answer_tainted :: "engine \<Rightarrow> turn_args \<Rightarrow> finalized_assistant_turn \<Rightarrow> step" where
  "answer_tainted E A fin = steps
     [steps (map (\<lambda>call. case tc_id (rtc_internal_call call) of
         Some call_id \<Rightarrow> push E A (synthetic_tool_result call_id tainted_tool_result)
       | None \<Rightarrow> modify (\<lambda>s. s)) (fin_tool_calls fin)),
      steps (map (\<lambda>r. push E A (synthetic_tool_result (rj_call_id r) (unavailable_text (rj_name r))))
        (fin_rejected_tool_calls fin)),
      push E A closed_tool_set_note,
      modify (\<lambda>s. s\<lparr>tn_tool_choice := JStr ''auto''\<rparr>)]"

definition begin_repair :: "turn \<Rightarrow> turn" where
  "begin_repair s = s\<lparr>tn_repair_rounds := Suc (tn_repair_rounds s), tn_pending_repair := True\<rparr>"

definition end_repair :: "engine \<Rightarrow> turn_args \<Rightarrow> turn \<Rightarrow> turn" where
  "end_repair E A s =
     (if tn_pending_repair s then count_outcome E A Repaired (s\<lparr>tn_pending_repair := False\<rparr>) else s)"

subsection \<open>Server tools\<close>

definition is_server_tool :: "engine \<Rightarrow> turn_args \<Rightarrow> resolved_tool_call \<Rightarrow> bool" where
  "is_server_tool E A call =
     (case rtc_kind call of
        KWebSearch \<Rightarrow> cfg_has_brave_api_key (eg_cfg E)
      | KImageAnalysis \<Rightarrow> ta_vision_session A \<noteq> None
      | _ \<Rightarrow> False)"

definition tool_result :: "string option \<Rightarrow> string \<Rightarrow> chat_message" where
  "tool_result call_id content =
     \<lparr>cm_role = ''tool'', cm_content = Some (JStr content), cm_tool_call_id = call_id,
      cm_name = None, cm_reasoning_content = None, cm_thinking = None, cm_tool_calls = None\<rparr>"

definition search_reply :: "search_outcome timed \<Rightarrow> search_outcome" where
  "search_reply r =
     (case r of
        Replied (Inr outcome) \<Rightarrow> outcome
      | Replied (Inl err) \<Rightarrow>
          \<lparr>sr_formatted = ''web_search failed: '' @ err_message err, sr_sources = []\<rparr>
      | TimedOut \<Rightarrow> \<lparr>sr_formatted = ''web_search timed out before returning results.'',
                      sr_sources = []\<rparr>)"

definition sources_pairs :: "search_outcome \<Rightarrow> (string \<times> string) list" where
  "sources_pairs o1 = map (\<lambda>src. (so_url src, so_title src)) (sr_sources o1)"

text \<open>The id of the results event is the item's, or a fresh one when that is absent or empty.\<close>

definition send_results :: "engine \<Rightarrow> string option \<Rightarrow> string \<Rightarrow> search_outcome \<Rightarrow> step" where
  "send_results E i query outcome s =
     (case nonempty_str i of
        Some tool_use_id \<Rightarrow>
          send_event E (web_search_results_event tool_use_id query (sources_pairs outcome)) s
      | None \<Rightarrow>
          send_event E (web_search_results_event (''srvtoolu_'' @ eg_uuid E (tn_uuid s)) query
            (sources_pairs outcome)) (s\<lparr>tn_uuid := Suc (tn_uuid s)\<rparr>))"

text \<open>What follows the search: the completed item, the results and the tool result.\<close>

definition complete_search ::
  "engine \<Rightarrow> turn_args \<Rightarrow> resolved_tool_call \<Rightarrow> string option \<Rightarrow> web_search_action option
     \<Rightarrow> string \<Rightarrow> search_outcome \<Rightarrow> step" where
  "complete_search E A call i action query outcome =
     (let completed = WebSearchCall i (Some ''completed'') action in steps
        [modify (\<lambda>s. s\<lparr>tn_searches := tn_searches s @ [query]\<rparr>),
         modify (record_output completed),
         send_registered E completed (\<lambda>t. output_item_done_event completed (ot_output_index t)),
         send_results E i query outcome,
         push E A (tool_result (tc_id (rtc_internal_call call)) (sr_formatted outcome))])"

definition perform_search ::
  "engine \<Rightarrow> turn_args \<Rightarrow> resolved_tool_call \<Rightarrow> string option \<Rightarrow> web_search_action option
     \<Rightarrow> string \<Rightarrow> step" where
  "perform_search E A call i action query s = complete_search E A call i action query
     (search_reply (eg_search E (length (tn_searches s)) query)) s"

definition run_web_search :: "engine \<Rightarrow> turn_args \<Rightarrow> resolved_tool_call \<Rightarrow> step" where
  "run_web_search E A call =
     (case rtc_public_item call of
        WebSearchCall i _ action \<Rightarrow>
          (let partial = WebSearchCall i (Some ''in_progress'') None in steps
            [send_registered E partial (\<lambda>t. output_item_added_event partial (ot_output_index t)),
             with_value (\<lambda>s. extract_web_search_query action (rtc_arguments call)) (\<lambda>query.
               steps [poll E, poll E, perform_search E A call i action query])])
      | _ \<Rightarrow> fail (internal_error ''expected web_search_call item''))"

definition debug_strings :: "engine \<Rightarrow> string list \<Rightarrow> string" where
  "debug_strings E ss = ''['' @ join '', '' (map (eg_debug_str E) ss) @ '']''"

definition vision_result :: "string timed \<Rightarrow> string" where
  "vision_result r =
     (case r of
        Replied (Inr txt) \<Rightarrow> redact_vision_text txt
      | Replied (Inl err) \<Rightarrow> ''[Vision analysis failed: '' @ err_message err @ '']''
      | TimedOut \<Rightarrow> ''[Vision analysis timed out before returning a result.]'')"

definition no_images_text :: "engine \<Rightarrow> vision_request \<Rightarrow> string" where
  "no_images_text E r = ''[Vision analysis unavailable: no cached image found for ids '' @
     debug_strings E (vr_image_ids r) @ ''. The image may have expired or the id is wrong.]''"

text \<open>Only a request that resolved an image is put to the backend, and only there is a wait.\<close>

definition analyze_images :: "engine \<Rightarrow> turn_args \<Rightarrow> string option \<Rightarrow> vision_request \<Rightarrow> step" where
  "analyze_images E A call_id r =
     (if vr_images r = [] then push E A (tool_result call_id (no_images_text E r))
      else steps [poll E,
        (\<lambda>s. push E A (tool_result call_id
               (vision_result (eg_vision E (length (tn_analyses s)) r)))
             (s\<lparr>tn_analyses := tn_analyses s @ [r]\<rparr>))])"

definition run_image_analysis :: "engine \<Rightarrow> turn_args \<Rightarrow> resolved_tool_call \<Rightarrow> step" where
  "run_image_analysis E A call =
     (case rtc_public_item call of
        FunctionCall _ _ _ _ _ \<Rightarrow>
          (case ta_vision_session A of
             None \<Rightarrow> fail (internal_error ''analyzeImage dispatched without a vision session'')
           | Some session_id \<Rightarrow> then_step (poll E)
               (\<lambda>s. let (r, cache) = vision_from_arguments (eg_codec E) (eg_clock_ms E (tn_clock s))
                          (rtc_arguments call) session_id (tn_images s)
                    in analyze_images E A (tc_id (rtc_internal_call call)) r
                         (s\<lparr>tn_images := cache\<rparr>)))
      | _ \<Rightarrow> fail (internal_error ''expected analyzeImage function call item''))"

definition hand_off :: "engine \<Rightarrow> resolved_tool_call \<Rightarrow> step" where
  "hand_off E call =
     (let item = rtc_public_item call in
      steps [(case item of
          FunctionCall _ name _ arguments call_id \<Rightarrow>
            send_event E (function_call_args_done_event call_id name arguments)
        | _ \<Rightarrow> modify (\<lambda>s. s)),
        modify (record_output item),
        send_registered E item (\<lambda>t. output_item_done_event item (ot_output_index t))])"

definition run_server_tool :: "engine \<Rightarrow> turn_args \<Rightarrow> resolved_tool_call \<Rightarrow> step" where
  "run_server_tool E A call =
     (if rtc_kind call = KImageAnalysis then run_image_analysis E A call
      else run_web_search E A call)"

definition handle_tool_calls :: "engine \<Rightarrow> turn_args \<Rightarrow> resolved_tool_call list \<Rightarrow> step" where
  "handle_tool_calls E A calls = then_step (poll E)
     (if list_ex (is_server_tool E A) calls \<and> list_ex (\<lambda>c. \<not> is_server_tool E A c) calls
      then fail (upstream_error
        ''mixed provider-side and client-side tool calls are not supported in v1'')
      else if list_ex (\<lambda>c. \<not> is_server_tool E A c) calls
      then steps (map (hand_off E) calls)
      else steps (map (run_server_tool E A) calls))"

subsection \<open>Rounds\<close>

datatype round_outcome = Again | Finished

definition web_search_limit :: "gateway_config \<Rightarrow> nat" where
  "web_search_limit cfg =
     min (if 0 < cfg_max_web_search_rounds cfg then cfg_max_web_search_rounds cfg
          else web_search_rounds_hard_ceiling) web_search_rounds_hard_ceiling"

definition count_web_round :: "engine \<Rightarrow> step" where
  "count_web_round E s =
     (let s' = s\<lparr>tn_web_rounds := Suc (tn_web_rounds s)\<rparr> in
      if web_search_limit (eg_cfg E) \<le> tn_web_rounds s'
      then (Some (upstream_error ''web search round limit exceeded''), s') else (None, s'))"

definition count_image_round :: step where
  "count_image_round s =
     (let s' = s\<lparr>tn_image_rounds := Suc (tn_image_rounds s)\<rparr> in
      if image_analysis_rounds_hard_ceiling \<le> tn_image_rounds s'
      then (Some (upstream_error ''image analysis round limit exceeded''), s') else (None, s'))"

definition had_kind :: "(resolved_tool_call \<Rightarrow> bool) \<Rightarrow> tool_kind \<Rightarrow> resolved_tool_call list \<Rightarrow> bool" where
  "had_kind allowed kind calls = list_ex (\<lambda>c. rtc_kind c = kind \<and> allowed c) calls"

definition continue_loop :: "engine \<Rightarrow> turn_args \<Rightarrow> resolved_tool_call list \<Rightarrow> step" where
  "continue_loop E A calls = steps
     [when_step (had_kind (is_server_tool E A) KWebSearch calls) (count_web_round E),
      when_step (had_kind (is_server_tool E A) KImageAnalysis calls) count_image_round,
      modify (\<lambda>s. s\<lparr>tn_tool_choice := JStr ''auto''\<rparr>)]"

text \<open>A step followed by an outcome of the round.\<close>

definition concluding :: "step \<Rightarrow> round_outcome \<Rightarrow> turn \<Rightarrow> (app_error + round_outcome) \<times> turn" where
  "concluding f r s = (case f s of (Some e, s') \<Rightarrow> (Inl e, s') | (None, s') \<Rightarrow> (Inr r, s'))"

definition decide ::
  "engine \<Rightarrow> turn_args \<Rightarrow> finalized_assistant_turn \<Rightarrow> turn \<Rightarrow> (app_error + round_outcome) \<times> turn" where
  "decide E A fin s =
     (let calls = fin_tool_calls fin in
      if fin_rejected_tool_calls fin \<noteq> []
      then (if unknown_tool_repair_ceiling \<le> tn_repair_rounds s
            then (Inl unknown_tool_repair_exhausted, count_outcome E A Exhausted s)
            else concluding (steps [modify begin_repair, answer_tainted E A fin]) Again s)
      else if calls = [] then (Inr Finished, end_repair E A s)
      else if list_ex (\<lambda>c. \<not> is_server_tool E A c) calls
      then concluding (steps [modify (end_repair E A), handle_tool_calls E A calls]) Finished s
      else concluding (steps [modify (end_repair E A), handle_tool_calls E A calls,
             continue_loop E A calls]) Again s)"

definition run_round ::
  "engine \<Rightarrow> turn_args \<Rightarrow> string list option \<Rightarrow> turn \<Rightarrow> (app_error + round_outcome) \<times> turn" where
  "run_round E A stop s =
     (case open_round E A stop s of
        (Some e, s1) \<Rightarrow> (Inl e, s1)
      | (None, s1) \<Rightarrow>
          (case finalize (eg_codec E) (eg_exec E) (eg_uuid E) (tn_uuid s1, tn_stream s1)
                  (ta_registry A) of
             Inl e \<Rightarrow> (Inl e, s1)
           | Inr fin \<Rightarrow>
               (case close_round E A fin s1 of
                  (Some e, s2) \<Rightarrow> (Inl e, s2)
                | (None, s2) \<Rightarrow> decide E A fin s2)))"

end
