(* ===== verification/Engine_Steps.thy ===== *)
theory Engine_Steps
  imports Engine_Turn
begin

text \<open>
  The calculus of the engine's steps: what the combinators keep, the walk over the parts of a round
  as a locale over what its leaves keep, and the frame of a round, which gives the walk for every
  predicate closed under the updates the leaves make.
\<close>

subsection \<open>What steps keep\<close>

text \<open>
  A step keeps a predicate \<open>P\<close>, with \<open>Q\<close> on errors, when from a state with \<open>P\<close> it ends in
  a state with \<open>P\<close>, or with an error in a state with \<open>Q\<close>.
\<close>

definition ends :: "(turn \<Rightarrow> bool) \<Rightarrow> (turn \<Rightarrow> bool) \<Rightarrow> app_error option \<times> turn \<Rightarrow> bool" where
  "ends P Q r = (case fst r of None \<Rightarrow> P (snd r) | Some _ \<Rightarrow> Q (snd r))"

definition keeps :: "(turn \<Rightarrow> bool) \<Rightarrow> (turn \<Rightarrow> bool) \<Rightarrow> step \<Rightarrow> bool" where
  "keeps P Q f \<longleftrightarrow> (\<forall>s. P s \<longrightarrow> ends P Q (f s))"

named_theorems keeps_intros \<open>what the combinators and the primitive steps keep\<close>

lemma ends_simps [simp]: "ends P Q (None, s) = P s" "ends P Q (Some e, s) = Q s"
  by (simp_all add: ends_def)

lemma ends_same: "ends P P r = P (snd r)"
  by (simp add: ends_def split: option.split)

lemma keepsI: "(\<And>s. P s \<Longrightarrow> ends P Q (f s)) \<Longrightarrow> keeps P Q f"
  by (simp add: keeps_def)

lemma keepsD: "keeps P Q f \<Longrightarrow> P s \<Longrightarrow> ends P Q (f s)"
  by (simp add: keeps_def)

lemma keeps_snd: "keeps P P f \<Longrightarrow> P s \<Longrightarrow> P (snd (f s))"
  by (simp add: keeps_def ends_same)

lemma keeps_ok: "keeps P Q f \<Longrightarrow> P s \<Longrightarrow> f s = (None, s') \<Longrightarrow> P s'"
  using keepsD by fastforce

lemma keeps_err: "keeps P Q f \<Longrightarrow> P s \<Longrightarrow> f s = (Some e, s') \<Longrightarrow> Q s'"
  using keepsD by fastforce

lemma keeps_on_success: "(\<And>s s'. P s \<Longrightarrow> f s = (None, s') \<Longrightarrow> P s') \<Longrightarrow> keeps P (\<lambda>_. True) f"
  by (auto simp: keeps_def ends_def split: option.split) (metis prod.collapse)

lemma keeps_weaken: "keeps P P f \<Longrightarrow> (\<And>s. P s \<Longrightarrow> Q s) \<Longrightarrow> keeps P Q f"
  by (auto simp: keeps_def ends_def split: option.splits)

lemma keeps_then_step [keeps_intros]: "keeps P Q f \<Longrightarrow> keeps P Q g \<Longrightarrow> keeps P Q (then_step f g)"
  by (fastforce simp: keeps_def then_step_def split: prod.split option.split)

lemma keeps_steps_Nil [keeps_intros]: "keeps P Q (steps [])"
  by (simp add: keeps_def)

lemma keeps_steps_Cons [keeps_intros]:
  assumes "keeps P Q f" and "keeps P Q (steps fs)"
  shows "keeps P Q (steps (f # fs))"
proof -
  have "steps (f # fs) = then_step f (steps fs)" by (rule ext) simp
  with keeps_then_step [OF assms] show ?thesis by simp
qed

lemma keeps_steps_map [keeps_intros]:
  "(\<And>x. x \<in> set xs \<Longrightarrow> keeps P Q (f x)) \<Longrightarrow> keeps P Q (steps (map f xs))"
  by (induction xs) (simp_all add: keeps_steps_Nil keeps_steps_Cons)

lemma keeps_modify [keeps_intros]: "(\<And>s. P s \<Longrightarrow> P (f s)) \<Longrightarrow> keeps P Q (modify f)"
  by (simp add: keeps_def modify_def)

lemma keeps_when_step [keeps_intros]: "keeps P Q f \<Longrightarrow> keeps P Q (when_step b f)"
  by (simp add: keeps_def when_step_def)

text \<open>A step that ended without an error, in its parts.\<close>

lemma steps_Cons_None: "steps (f # fs) s = (None, s') \<longleftrightarrow>
    (\<exists>s1. f s = (None, s1) \<and> steps fs s1 = (None, s'))"
  by (auto simp: then_step_def split: prod.splits option.splits)

lemma then_step_None: "then_step f g s = (None, s') \<longleftrightarrow>
    (\<exists>s1. f s = (None, s1) \<and> g s1 = (None, s'))"
  by (auto simp: then_step_def split: prod.splits option.splits)

lemma steps_Nil_None: "steps [] s = (None, s') \<longleftrightarrow> s' = s"
  by auto

lemma modify_None: "modify f s = (None, s') \<longleftrightarrow> s' = f s"
  by (auto simp: modify_def)

lemma with_value_None: "with_value f g s = (None, s') \<longleftrightarrow> (\<exists>x. f s = Inr x \<and> g x s = (None, s'))"
  by (auto simp: with_value_def split: sum.splits)

lemma when_step_None: "when_step b f s = (None, s') \<longleftrightarrow> (if b then f s = (None, s') else s' = s)"
  by (auto simp: when_step_def)

lemmas step_None = steps_Cons_None then_step_None steps_Nil_None modify_None with_value_None
  when_step_None

text \<open>The names of the events a round sends.\<close>

definition round_event_names :: "string list" where
  "round_event_names =
     [''response.output_item.added'', ''response.output_item.done'',
      ''response.output_text.delta'', ''response.output_text.done'',
      ''response.content_part.added'', ''response.content_part.done'',
      ''response.reasoning_summary_text.delta'', ''response.reasoning_summary_text.signature_delta'',
      ''response.reasoning_summary_part.added'', ''response.reasoning_summary_part.done'',
      ''response.refusal.delta'', ''response.refusal.done'',
      ''response.function_call_arguments.delta'', ''response.function_call_arguments.done'',
      ''response.web_search_results'']"

definition is_round_event :: "sse_event \<Rightarrow> bool" where
  "is_round_event ev \<longleftrightarrow> se_event ev \<in> set round_event_names"

text \<open>The events that the stream of a round gives rise to.\<close>

definition emission_event_names :: "string list" where
  "emission_event_names =
     [''response.output_item.added'', ''response.output_text.delta'',
      ''response.content_part.added'', ''response.content_part.done'',
      ''response.reasoning_summary_text.delta'', ''response.reasoning_summary_text.signature_delta'',
      ''response.reasoning_summary_part.added'', ''response.reasoning_summary_part.done'',
      ''response.refusal.delta'', ''response.function_call_arguments.delta'']"

definition is_emission_event :: "sse_event \<Rightarrow> bool" where
  "is_emission_event ev \<longleftrightarrow> se_event ev \<in> set emission_event_names"

lemma emission_is_round_event: "is_emission_event ev \<Longrightarrow> is_round_event ev"
  by (auto simp: is_emission_event_def is_round_event_def emission_event_names_def
      round_event_names_def)

lemmas event_defs = json_event_def created_event_def in_progress_event_def completed_event_def
  incomplete_event_def content_part_event_def content_part_added_event_def
  content_part_done_event_def summary_part_event_def reasoning_summary_part_added_event_def
  reasoning_summary_part_done_event_def refusal_delta_event_def refusal_done_event_def
  output_item_added_event_def output_item_done_event_def output_text_delta_event_def
  reasoning_text_delta_event_def reasoning_signature_delta_event_def failure_event_def
  output_text_done_event_def function_call_args_delta_event_def
  function_call_args_done_event_def web_search_results_event_def

lemma event_names [simp]:
  "se_event (output_item_added_event item i) = ''response.output_item.added''"
  "se_event (output_item_done_event item i) = ''response.output_item.done''"
  "se_event (output_text_delta_event x i d) = ''response.output_text.delta''"
  "se_event (output_text_done_event x i d) = ''response.output_text.done''"
  "se_event (content_part_added_event x i) = ''response.content_part.added''"
  "se_event (content_part_done_event x i d) = ''response.content_part.done''"
  "se_event (reasoning_text_delta_event x i d) = ''response.reasoning_summary_text.delta''"
  "se_event (reasoning_signature_delta_event x i d)
     = ''response.reasoning_summary_text.signature_delta''"
  "se_event (reasoning_summary_part_added_event x i) = ''response.reasoning_summary_part.added''"
  "se_event (reasoning_summary_part_done_event x i d) = ''response.reasoning_summary_part.done''"
  "se_event (refusal_delta_event d) = ''response.refusal.delta''"
  "se_event (refusal_done_event d) = ''response.refusal.done''"
  "se_event (function_call_args_delta_event c nm d) = ''response.function_call_arguments.delta''"
  "se_event (function_call_args_done_event c n d) = ''response.function_call_arguments.done''"
  "se_event (web_search_results_event u q r) = ''response.web_search_results''"
  "se_event (created_event rid est) = ''response.created''"
  "se_event (in_progress_event rid) = ''response.in_progress''"
  "se_event (completed_event res) = ''response.completed''"
  "se_event (incomplete_event res) = ''response.incomplete''"
  "se_event (failure_event e) = ''response.failed''"
  by (simp_all add: event_defs)

lemma round_events [simp]:
  "is_round_event (output_item_added_event item i)" "is_round_event (output_item_done_event item i)"
  "is_round_event (output_text_delta_event x i d)" "is_round_event (output_text_done_event x i d)"
  "is_round_event (content_part_added_event x i)" "is_round_event (content_part_done_event x i d)"
  "is_round_event (reasoning_text_delta_event x i d)"
  "is_round_event (reasoning_signature_delta_event x i d)"
  "is_round_event (reasoning_summary_part_added_event x i)"
  "is_round_event (reasoning_summary_part_done_event x i d)"
  "is_round_event (refusal_delta_event d)" "is_round_event (refusal_done_event d)"
  "is_round_event (function_call_args_delta_event c nm d)"
  "is_round_event (function_call_args_done_event c n d)"
  "is_round_event (web_search_results_event u q r)"
  by (simp_all add: is_round_event_def round_event_names_def)

lemma emission_events [simp]:
  "is_emission_event (output_item_added_event item i)"
  "is_emission_event (output_text_delta_event x i d)"
  "is_emission_event (content_part_added_event x i)"
  "is_emission_event (content_part_done_event x i d)"
  "is_emission_event (reasoning_text_delta_event x i d)"
  "is_emission_event (reasoning_signature_delta_event x i d)"
  "is_emission_event (reasoning_summary_part_added_event x i)"
  "is_emission_event (reasoning_summary_part_done_event x i d)"
  "is_emission_event (refusal_delta_event d)"
  "is_emission_event (function_call_args_delta_event c nm d)"
  by (simp_all add: is_emission_event_def emission_event_names_def)

subsection \<open>The walk\<close>

text \<open>
  The parts of a round keep what all their leaves keep; what holds on an error is the weaker
  \<open>Q\<close>.  The closing of a round and its tool calls come first, then the request and its stream.
\<close>

locale closing_walk =
  fixes E :: engine and A :: turn_args and P Q :: "turn \<Rightarrow> bool"
  assumes weaker: "P s \<Longrightarrow> Q s"
    and poll [keeps_intros]: "keeps P Q (poll E)"
    and finalized [keeps_intros]: "keeps P Q (modify (note_finalized fin))"
    and flush [keeps_intros]: "keeps P Q (flush_call E call)"
    and reasoning [keeps_intros]: "keeps P Q (complete_reasoning E fin item)"
    and message [keeps_intros]: "keeps P Q (complete_message E fin item)"
    and refusal [keeps_intros]: "keeps P Q (send_event E (refusal_done_event txt))"
    and push [keeps_intros]: "keeps P Q (push E A m)"
    and repaired [keeps_intros]: "keeps P Q (modify (end_repair E A))"
    and hand_off [keeps_intros]: "keeps P Q (hand_off E call)"
    and web_search [keeps_intros]: "keeps P Q (run_web_search E A call)"
    and image_analysis [keeps_intros]: "keeps P Q (run_image_analysis E A call)"
begin

lemma keeps_fail [keeps_intros]: "keeps P Q (fail e)"
  by (simp add: keeps_def fail_def weaker)

lemma keeps_with_value [keeps_intros]: "(\<And>x. keeps P Q (g x)) \<Longrightarrow> keeps P Q (with_value f g)"
  by (auto simp: keeps_def with_value_def weaker split: sum.split)

lemma keeps_same [keeps_intros]: "keeps P Q (modify (\<lambda>s. s))"
  by (rule keeps_modify)

lemma keeps_emit_completed [keeps_intros]: "keeps P Q (emit_completed_public_items E fin)"
  unfolding emit_completed_public_items_def
  by (intro keeps_intros) (auto intro!: keeps_intros split: option.split)

lemma keeps_close_round: "keeps P Q (close_round E A fin)"
  unfolding close_round_def
  by (intro keeps_intros) (auto intro!: keeps_intros split: option.split)

lemma keeps_answer_tainted:
  assumes "keeps P Q (modify (\<lambda>s. s\<lparr>tn_tool_choice := JStr ''auto''\<rparr>))"
  shows "keeps P Q (answer_tainted E A fin)"
  unfolding answer_tainted_def
  by (intro keeps_intros assms) (auto intro!: keeps_intros split: option.split)

lemma keeps_handle: "keeps P Q (handle_tool_calls E A calls)"
  unfolding handle_tool_calls_def run_server_tool_def
  by (auto intro!: keeps_intros)

end

locale turn_walk = closing_walk +
  assumes emission [keeps_intros]: "keeps P Q (send_emission E A e)"
    and chunk: "P s \<Longrightarrow> P (note_usage A c s\<lparr>tn_uuid := n, tn_stream := st\<rparr>)"
    and fresh [keeps_intros]: "keeps P Q (modify fresh_round)"
    and round_usage [keeps_intros]: "keeps P Q (modify add_round_usage)"
begin

lemma keeps_receive_chunk [keeps_intros]: "keeps P Q (receive_chunk E A c)"
proof (rule keepsI)
  fix s assume "P s"
  then have "P (note_usage A c s\<lparr>tn_uuid := n, tn_stream := st\<rparr>)" for n st by (rule chunk)
  moreover obtain n st ems where "apply_chunk (eg_codec E) (eg_uuid E) c
      (tn_uuid (note_usage A c s), tn_stream (note_usage A c s)) = ((n, st), ems)"
    by (metis surj_pair)
  moreover have "keeps P Q (steps (map (send_emission E A) ems))"
    by (rule keeps_steps_map) (rule emission)
  ultimately show "ends P Q (receive_chunk E A c s)"
    by (simp add: receive_chunk_def Let_def keepsD)
qed

lemma keeps_receive [keeps_intros]: "keeps P Q (receive E A items)"
proof (induction items)
  case (Cons x xs)
  then show ?case by (cases x) (simp_all add: keeps_intros)
qed (simp add: keeps_intros)

lemma keeps_open_round:
  assumes "keeps P Q (modify (merge_tail E A))" and "keeps P Q (modify (log_request A st))"
  shows "keeps P Q (open_round E A st)"
  unfolding open_round_def by (intro keeps_intros assms)

end

subsection \<open>The frame\<close>

text \<open>
  A predicate closed under the clock, the events of a round, the allocation of indices and the
  gate is kept by the sends of a round; the frame adds the rest of what a round's steps touch: the
  internal state of the stream, and the items and messages a round records.  The request log, the
  counters and the tool choice are left to the lemmas that need them.
\<close>

locale emission_frame =
  fixes P :: "turn \<Rightarrow> bool"
  assumes tick: "P s \<Longrightarrow> P (s\<lparr>tn_clock := n\<rparr>)"
    and emitted: "is_emission_event ev \<Longrightarrow> P s \<Longrightarrow> P (s\<lparr>tn_sent := tn_sent s @ [ev]\<rparr>)"
    and events: "P s \<Longrightarrow> P (s\<lparr>tn_events := es\<rparr>)"
    and gate: "P s \<Longrightarrow> P (s\<lparr>tn_gate := g\<rparr>)"
begin

lemma frame_poll [keeps_intros]: "keeps P P (poll E)"
  by (simp add: keeps_def poll_def Let_def tick)

lemma frame_emit [keeps_intros]: "is_emission_event ev \<Longrightarrow> keeps P P (send_event E ev)"
proof (rule keepsI)
  fix s assume "P s" and ev: "is_emission_event ev"
  then have t: "P (s\<lparr>tn_clock := Suc (tn_clock s)\<rparr>)" (is "P ?t") by (intro tick)
  from emitted [OF ev t] t show "ends P P (send_event E ev s)"
    by (simp add: send_event_def Let_def split: option.split)
qed

lemma frame_fail [keeps_intros]: "keeps P P (fail e)"
  by (simp add: keeps_def fail_def)

lemma frame_with_value [keeps_intros]: "(\<And>x. keeps P P (g x)) \<Longrightarrow> keeps P P (with_value f g)"
  by (auto simp: keeps_def with_value_def split: sum.split)

lemma frame_emit_at: "is_emission_event ev \<Longrightarrow> P s \<Longrightarrow> ends P P (send_event E ev s)"
  by (rule keepsD [OF frame_emit])

lemma frame_emit_registered [keeps_intros]:
  "(\<And>t. is_emission_event (ev t)) \<Longrightarrow> keeps P P (send_registered E item ev)"
  by (auto intro!: keepsI frame_emit_at events simp: send_registered_def split: prod.split)

lemma frame_drive [keeps_intros]: "keeps P P (drive_decision E d)"
  unfolding drive_decision_def by (intro keeps_intros emission_events)

lemma frame_gate_delta [keeps_intros]: "keeps P P (gate_delta E A c n d)"
  by (auto intro!: keepsI keepsD [OF frame_drive] gate simp: gate_delta_def
      split: prod.split sum.split)

lemma frame_on_message [keeps_intros]:
  "(\<And>t. is_emission_event (ev t)) \<Longrightarrow> keeps P P (on_message E ev)"
  unfolding on_message_def by (intro keeps_intros)

lemma frame_on_reasoning [keeps_intros]:
  "(\<And>t. is_emission_event (ev t)) \<Longrightarrow> keeps P P (on_reasoning E ev)"
  unfolding on_reasoning_def by (intro keeps_intros)

lemma frame_emission: "keeps P P (send_emission E A e)"
  by (cases e) (auto intro!: keeps_intros)

lemma frame_flush_call: "keeps P P (flush_call E call)"
proof (rule keepsI)
  fix s assume "P s"
  then have "P (s\<lparr>tn_gate := g\<rparr>)" for g by (rule gate)
  then show "ends P P (flush_call E call s)"
    using \<open>P s\<close> by (simp add: flush_call_def keepsD [OF frame_drive] split: option.split prod.split)
qed

end

locale item_frame = emission_frame +
  assumes sent: "is_round_event ev \<Longrightarrow> P s \<Longrightarrow> P (s\<lparr>tn_sent := tn_sent s @ [ev]\<rparr>)"
    and record_item: "P s \<Longrightarrow> P (record_output item s)"
begin

lemma frame_send_event [keeps_intros]: "is_round_event ev \<Longrightarrow> keeps P P (send_event E ev)"
proof (rule keepsI)
  fix s assume "P s" and ev: "is_round_event ev"
  then have t: "P (s\<lparr>tn_clock := Suc (tn_clock s)\<rparr>)" (is "P ?t") by (intro tick)
  from sent [OF ev t] t show "ends P P (send_event E ev s)"
    by (simp add: send_event_def Let_def split: option.split)
qed

lemma frame_send_at: "is_round_event ev \<Longrightarrow> P s \<Longrightarrow> ends P P (send_event E ev s)"
  by (rule keepsD [OF frame_send_event])

lemma frame_send_registered [keeps_intros]:
  "(\<And>t. is_round_event (ev t)) \<Longrightarrow> keeps P P (send_registered E item ev)"
  by (auto intro!: keepsI frame_send_at events simp: send_registered_def split: prod.split)

lemma frame_record [keeps_intros]: "keeps P P (modify (record_output item))"
  by (rule keeps_modify) (rule record_item)

lemma frame_set_events [keeps_intros]: "keeps P P (modify (set_events es))"
  unfolding set_events_def by (rule keeps_modify) (rule events)

lemma frame_same [keeps_intros]: "keeps P P (modify (\<lambda>s. s))"
  by (rule keeps_modify)

lemma frame_completed: "(\<And>t es. keeps P P (g t es)) \<Longrightarrow>
  keeps P P (\<lambda>s. let (target, es) = target_for_item item (tn_events s) in g target es s)"
  by (auto simp: keeps_def split: prod.split)

lemma frame_complete_reasoning: "keeps P P (complete_reasoning E fin item)"
  unfolding complete_reasoning_def
  by (intro frame_completed keeps_intros round_events; cases item)
    (auto intro!: keeps_intros)

lemma frame_complete_message: "keeps P P (complete_message E fin item)"
  unfolding complete_message_def Let_def
  by (intro frame_completed [unfolded Let_def] keeps_intros round_events; cases item)
    (auto intro!: keeps_intros)

lemma frame_hand_off: "keeps P P (hand_off E call)"
  unfolding hand_off_def Let_def
  by (intro keeps_intros round_events; cases "rtc_public_item call") (auto intro!: keeps_intros)

lemma frame_emit_completed: "keeps P P (emit_completed_public_items E fin)"
  unfolding emit_completed_public_items_def
  by (intro keeps_intros round_events)
    (auto intro!: frame_complete_reasoning frame_complete_message frame_same split: option.split)

end

locale closing_frame = item_frame +
  assumes uuid: "P s \<Longrightarrow> P (s\<lparr>tn_uuid := n\<rparr>)"
    and finish: "P s \<Longrightarrow> P (s\<lparr>tn_finish_reason := fr\<rparr>)"
    and stop: "P s \<Longrightarrow> P (s\<lparr>tn_stop_sequence := ss\<rparr>)"
    and pending: "P s \<Longrightarrow> P (s\<lparr>tn_pending_repair := b\<rparr>)"
    and unknown_tools: "P s \<Longrightarrow> P (s\<lparr>tn_unknown_tools := ut\<rparr>)"
    and searches: "P s \<Longrightarrow> P (s\<lparr>tn_searches := qs\<rparr>)"
    and analyses: "P s \<Longrightarrow> P (s\<lparr>tn_analyses := rs\<rparr>)"
    and images: "P s \<Longrightarrow> P (s\<lparr>tn_images := ic\<rparr>)"
    and message: "P s \<Longrightarrow> P (s\<lparr>tn_messages := tn_messages s @ [m]\<rparr>)"
begin

lemma frame_push [keeps_intros]: "keeps P P (push E A m)"
  unfolding push_def push_shaped_def
  by (intro keeps_intros) (auto intro!: keeps_modify message split: option.split)

lemma frame_note_finalized: "keeps P P (modify (note_finalized fin))"
proof (rule keeps_modify)
  fix s assume "P s"
  from stop [OF finish [OF uuid [OF this]]] show "P (note_finalized fin s)"
    by (simp add: note_finalized_def)
qed

lemma frame_end_repair: "keeps P P (modify (end_repair E A))"
proof (rule keeps_modify)
  fix s assume "P s"
  from unknown_tools [OF pending [OF this]] \<open>P s\<close> show "P (end_repair E A s)"
    by (simp add: end_repair_def count_outcome_def)
qed

lemma frame_send_results [keeps_intros]: "keeps P P (send_results E i q out)"
  by (auto intro!: keepsI frame_send_at uuid simp: send_results_def split: option.split)

lemma frame_perform_search [keeps_intros]: "keeps P P (perform_search E A call i action query)"
proof -
  have "keeps P P (complete_search E A call i action query out)" for out
    unfolding complete_search_def Let_def by (intro keeps_intros round_events searches)
  then show ?thesis by (simp add: keeps_def perform_search_def)
qed

lemma frame_web_search: "keeps P P (run_web_search E A call)"
  unfolding run_web_search_def Let_def
  by (cases "rtc_public_item call") (auto intro!: keeps_intros)

lemma frame_analyze [keeps_intros]: "keeps P P (analyze_images E A cid r)"
proof -
  have "P s \<Longrightarrow> ends P P (push E A m (s\<lparr>tn_analyses := rs\<rparr>))" for m s rs
    by (rule keepsD [OF frame_push analyses])
  then have "keeps P P (\<lambda>s. push E A (m s) (s\<lparr>tn_analyses := rs s\<rparr>))" for m rs
    by (simp add: keeps_def)
  then show ?thesis unfolding analyze_images_def by (auto intro!: keeps_intros)
qed

lemma frame_image_analysis: "keeps P P (run_image_analysis E A call)"
proof -
  have "P s \<Longrightarrow> ends P P (analyze_images E A cid r (s\<lparr>tn_images := ic\<rparr>))" for cid r s ic
    by (rule keepsD [OF frame_analyze images])
  then have "keeps P P (\<lambda>s. let (r, cache) = f s in analyze_images E A cid r (s\<lparr>tn_images := cache\<rparr>))"
    for f cid by (simp add: keeps_def split: prod.split)
  then show ?thesis
    unfolding run_image_analysis_def
    by (cases "rtc_public_item call") (auto intro!: keeps_intros split: option.split)
qed

end

sublocale closing_frame \<subseteq> closing: closing_walk E A P P for E A
  by unfold_locales
    (blast intro: frame_poll frame_note_finalized frame_flush_call frame_complete_reasoning
      frame_complete_message frame_send_event round_events frame_push frame_end_repair frame_hand_off
      frame_web_search frame_image_analysis)+

locale turn_frame = closing_frame +
  assumes stream: "P s \<Longrightarrow> P (s\<lparr>tn_stream := st\<rparr>)"
    and chunk_usage: "P s \<Longrightarrow> P (s\<lparr>tn_chunk_usage := cu\<rparr>)"
    and flow_usage: "P s \<Longrightarrow> P (s\<lparr>tn_flow_usage := fu\<rparr>)"
    and usage: "P s \<Longrightarrow> P (s\<lparr>tn_usage := au\<rparr>)"
begin

lemma frame_chunk:
  assumes "P s" shows "P (note_usage A c s\<lparr>tn_uuid := n, tn_stream := st\<rparr>)"
proof -
  from assms have "P (note_usage A c s)"
    by (auto simp: note_usage_def intro!: flow_usage [of "s\<lparr>tn_chunk_usage := _\<rparr>", simplified]
        chunk_usage split: option.split)
  then show ?thesis using stream [OF uuid] by simp
qed

lemma frame_add_usage: "keeps P P (modify add_round_usage)"
  by (auto intro!: keeps_modify usage simp: add_round_usage_def split: option.split)

lemma frame_fresh_round: "keeps P P (modify fresh_round)"
proof (rule keeps_modify)
  fix s assume "P s"
  from gate [OF chunk_usage [OF stream [OF this]]] show "P (fresh_round s)"
    by (simp add: fresh_round_def)
qed

end

sublocale turn_frame \<subseteq> walk: turn_walk E A P P for E A
  by unfold_locales (blast intro: frame_emission frame_chunk frame_fresh_round frame_add_usage)+

end
