(* ===== verification/Engine_Run.thy ===== *)
theory Engine_Run
  imports Engine_Steps
begin

text \<open>
  The whole turn of the engine: the loop over rounds with its termination, the terminal event and
  the replay record, and the entry point \<^verbatim>\<open>stream_responses_with_api_call_id\<close>, which settles the
  request and classifies how the turn ended (\<^verbatim>\<open>src/src/engine.rs\<close>).
\<close>

subsection \<open>The counters and the end of the loop\<close>

definition counters :: "turn \<Rightarrow> nat \<times> nat \<times> nat" where
  "counters s = (tn_repair_rounds s, tn_web_rounds s, tn_image_rounds s)"

interpretation counted: turn_frame "\<lambda>s. counters s = c" for c
  by unfold_locales (auto simp: counters_def record_output_def)

text \<open>
  What is left of the ceilings: the round that reaches the ceiling of a server tool ends the turn,
  so one round fewer can go on.
\<close>

definition round_budget :: "turn \<Rightarrow> nat" where
  "round_budget s = (unknown_tool_repair_ceiling - tn_repair_rounds s)
     + (web_search_rounds_hard_ceiling - 1 - tn_web_rounds s)
     + (image_analysis_rounds_hard_ceiling - 1 - tn_image_rounds s)"

lemma round_budget_counters: "counters s' = counters s \<Longrightarrow> round_budget s' = round_budget s"
  by (simp add: counters_def round_budget_def)

lemma counters_tool_choice: "keeps (\<lambda>s. counters s = c) (\<lambda>s. counters s = c) (modify (\<lambda>s. s\<lparr>tn_tool_choice := v\<rparr>))"
  by (rule keeps_modify) (simp add: counters_def)

lemma counters_open: "counters (snd (open_round E A st s)) = counters s"
  by (rule keeps_snd [OF counted.walk.keeps_open_round])
    (auto intro!: keeps_modify simp: counters_def merge_tail_def log_request_def Let_def)

lemma counters_close: "counters (snd (close_round E A fin s)) = counters s"
  by (rule keeps_snd [OF counted.closing.keeps_close_round]) simp

lemma counters_handle: "counters (snd (handle_tool_calls E A calls s)) = counters s"
  by (rule keeps_snd [OF counted.closing.keeps_handle]) simp

lemma counters_tainted: "counters (snd (answer_tainted E A fin s)) = counters s"
  by (rule keeps_snd [OF counted.closing.keeps_answer_tainted [OF counters_tool_choice]]) simp

lemma counters_end_repair: "counters (end_repair E A s) = counters s"
  by (simp add: counters_def end_repair_def count_outcome_def)

lemma concluding_Inr: "concluding f r s = (Inr q, s') \<longleftrightarrow> f s = (None, s') \<and> q = r"
  by (auto simp: concluding_def split: prod.splits option.splits)

lemma web_search_limit_le: "web_search_limit cfg \<le> web_search_rounds_hard_ceiling"
  by (simp add: web_search_limit_def)

lemma count_web_round_None: "count_web_round E s = (None, s') \<Longrightarrow>
    s' = s\<lparr>tn_web_rounds := Suc (tn_web_rounds s)\<rparr>
    \<and> Suc (tn_web_rounds s) < web_search_rounds_hard_ceiling"
  using web_search_limit_le [of "eg_cfg E"] by (auto simp: count_web_round_def Let_def split: if_splits)

lemma count_image_round_None: "count_image_round s = (None, s') \<Longrightarrow>
    s' = s\<lparr>tn_image_rounds := Suc (tn_image_rounds s)\<rparr>
    \<and> Suc (tn_image_rounds s) < image_analysis_rounds_hard_ceiling"
  by (auto simp: count_image_round_def Let_def split: if_splits)

text \<open>A batch the gateway runs itself uses up a search or an analysis round.\<close>

lemma server_batch_kind:
  assumes "calls \<noteq> []" and "\<not> list_ex (\<lambda>c. \<not> is_server_tool E A c) calls"
  shows "had_kind (is_server_tool E A) KWebSearch calls
    \<or> had_kind (is_server_tool E A) KImageAnalysis calls"
proof -
  obtain c where c: "c \<in> set calls" using assms(1) by (meson list.set_sel(1))
  with assms(2) have "is_server_tool E A c" by (simp add: list_ex_iff)
  moreover from this have "rtc_kind c = KWebSearch \<or> rtc_kind c = KImageAnalysis"
    by (cases "rtc_kind c") (simp_all add: is_server_tool_def)
  ultimately show ?thesis using c by (auto simp: had_kind_def list_ex_iff)
qed

lemma continue_loop_budget:
  assumes "calls \<noteq> []" and "\<not> list_ex (\<lambda>c. \<not> is_server_tool E A c) calls"
    and "continue_loop E A calls s = (None, s')"
  shows "round_budget s' < round_budget s"
proof -
  let ?w = "had_kind (is_server_tool E A) KWebSearch calls"
  let ?i = "had_kind (is_server_tool E A) KImageAnalysis calls"
  from assms(3) obtain s1 s2 where
    w: "if ?w then count_web_round E s = (None, s1) else s1 = s" and
    i: "if ?i then count_image_round s1 = (None, s2) else s2 = s1" and
    s': "s' = s2\<lparr>tn_tool_choice := JStr ''auto''\<rparr>"
    unfolding continue_loop_def step_None by blast
  from w have 1: "round_budget s1 \<le> round_budget s" "?w \<Longrightarrow> round_budget s1 < round_budget s"
    by (cases ?w; force simp: round_budget_def dest!: count_web_round_None)+
  from i have 2: "round_budget s2 \<le> round_budget s1" "?i \<Longrightarrow> round_budget s2 < round_budget s1"
    by (cases ?i; force simp: round_budget_def dest!: count_image_round_None)+
  from s' have "round_budget s' = round_budget s2" by (simp add: round_budget_def)
  with 1 2 server_batch_kind [OF assms(1,2)] show ?thesis by fastforce
qed

lemma decide_budget:
  assumes "decide E A fin s = (Inr Again, s')"
  shows "round_budget s' < round_budget s"
proof (cases "fin_rejected_tool_calls fin = []")
  case False
  with assms obtain s1 where r: "tn_repair_rounds s < unknown_tool_repair_ceiling"
    "answer_tainted E A fin (begin_repair s) = (None, s1)" "s' = s1"
    by (auto simp: decide_def Let_def concluding_Inr step_None split: if_splits)
  then have "counters s' = counters (begin_repair s)"
    using counters_tainted [of E A fin "begin_repair s"] by simp
  with r(1) show ?thesis by (simp add: counters_def begin_repair_def round_budget_def)
next
  case True
  with assms obtain s1 where c: "fin_tool_calls fin \<noteq> []"
      "\<not> list_ex (\<lambda>c. \<not> is_server_tool E A c) (fin_tool_calls fin)"
    and h: "handle_tool_calls E A (fin_tool_calls fin) (end_repair E A s) = (None, s1)"
    and l: "continue_loop E A (fin_tool_calls fin) s1 = (None, s')"
    by (auto simp: decide_def Let_def concluding_Inr step_None split: if_splits)
  from h have "round_budget s1 = round_budget s"
    using counters_handle [of E A "fin_tool_calls fin" "end_repair E A s"]
    by (intro round_budget_counters) (simp add: counters_end_repair)
  with continue_loop_budget [OF c l] show ?thesis by simp
qed

text \<open>A round that ends without an error, in its parts.\<close>

lemma run_round_Inr:
  assumes "run_round E A st s = (Inr r, s')"
  obtains s1 fin s2 where "open_round E A st s = (None, s1)"
    "finalize (eg_codec E) (eg_exec E) (eg_uuid E) (tn_uuid s1, tn_stream s1) (ta_registry A) = Inr fin"
    "close_round E A fin s1 = (None, s2)" "decide E A fin s2 = (Inr r, s')"
  using assms by (auto simp: run_round_def split: prod.splits option.splits sum.splits)

lemma run_round_budget:
  assumes "run_round E A st s = (Inr Again, s')"
  shows "round_budget s' < round_budget s"
proof -
  from assms obtain s1 fin s2 where "open_round E A st s = (None, s1)"
    "close_round E A fin s1 = (None, s2)" and d: "decide E A fin s2 = (Inr Again, s')"
    by (rule run_round_Inr)
  then have "counters s2 = counters s"
    using counters_open [of E A st s] counters_close [of E A fin s1] by simp
  then have "round_budget s2 = round_budget s" by (rule round_budget_counters)
  with decide_budget [OF d] show ?thesis by simp
qed

function run_rounds ::
  "engine \<Rightarrow> turn_args \<Rightarrow> string list option \<Rightarrow> turn \<Rightarrow> app_error option \<times> turn" where
  "run_rounds E A st s =
     (case run_round E A st s of
        (Inl e, s') \<Rightarrow> (Some e, s')
      | (Inr Finished, s') \<Rightarrow> (None, s')
      | (Inr Again, s') \<Rightarrow> run_rounds E A st s')"
  by pat_completeness auto
termination
  by (relation "measure (\<lambda>(E, A, st, s). round_budget s)") (auto intro: run_round_budget)

declare run_rounds.simps [simp del]

text \<open>What the walk and the steps between rounds keep, a whole run of rounds keeps.\<close>

definition ends_round ::
  "(turn \<Rightarrow> bool) \<Rightarrow> (turn \<Rightarrow> bool) \<Rightarrow> (app_error + 'a) \<times> turn \<Rightarrow> bool" where
  "ends_round P Q r = (case fst r of Inl _ \<Rightarrow> Q (snd r) | Inr _ \<Rightarrow> P (snd r))"

lemma ends_round_same: "ends_round P P r = P (snd r)"
  by (simp add: ends_round_def split: sum.split)

locale decide_walk = closing_walk +
  assumes choice: "keeps P Q (modify (\<lambda>s. s\<lparr>tn_tool_choice := JStr ''auto''\<rparr>))"
    and repairing: "keeps P Q (modify begin_repair)"
    and web_round: "keeps P Q (count_web_round E)"
    and image_round: "keeps P Q (count_image_round)"
    and exhausted: "P s \<Longrightarrow> Q (count_outcome E A Exhausted s)"
begin

lemma ends_concluding: "keeps P Q f \<Longrightarrow> P s \<Longrightarrow> ends_round P Q (concluding f r s)"
  using keepsD [of P Q f s]
  by (auto simp: ends_round_def concluding_def ends_def split: prod.splits option.splits)

lemma keeps_continue: "keeps P Q (continue_loop E A calls)"
  unfolding continue_loop_def by (intro keeps_intros web_round image_round choice)

lemma ends_decide: "P s \<Longrightarrow> ends_round P Q (decide E A fin s)"
proof -
  assume "P s"
  moreover have "keeps P Q (steps [modify begin_repair, answer_tainted E A fin])"
    by (intro keeps_intros repairing keeps_answer_tainted choice)
  moreover have "keeps P Q (steps [modify (end_repair E A), handle_tool_calls E A calls])" for calls
    by (intro keeps_intros keeps_handle)
  moreover have "keeps P Q (steps [modify (end_repair E A), handle_tool_calls E A calls,
      continue_loop E A calls])" for calls
    by (intro keeps_intros keeps_handle keeps_continue)
  moreover have "P (end_repair E A s)"
    using keepsD [OF repaired \<open>P s\<close>] by (simp add: modify_def)
  ultimately show ?thesis
    by (auto simp: decide_def Let_def ends_concluding exhausted ends_round_def [of P Q "(_, _)"])
qed

end

locale turn_run = decide_walk + turn_walk +
  assumes merged: "keeps P Q (modify (merge_tail E A))"
    and logged: "keeps P Q (modify (log_request A st))"
begin

lemma ends_run_round: "P s \<Longrightarrow> ends_round P Q (run_round E A st s)"
proof -
  assume P: "P s"
  note o = keepsD [OF keeps_open_round [OF merged logged] P, of st]
  obtain r1 s1 where s1: "open_round E A st s = (r1, s1)" by fastforce
  show ?thesis
  proof (cases r1)
    case None
    with o s1 have P1: "P s1" by simp
    show ?thesis
    proof (cases "finalize (eg_codec E) (eg_exec E) (eg_uuid E) (tn_uuid s1, tn_stream s1) (ta_registry A)")
      case (Inl e)
      with s1 None weaker [OF P1] show ?thesis by (simp add: run_round_def ends_round_def)
    next
      case (Inr fin)
      obtain r2 s2 where s2: "close_round E A fin s1 = (r2, s2)" by fastforce
      have c: "ends P Q (r2, s2)" using keepsD [OF keeps_close_round P1, of fin] s2 by simp
      with s1 None Inr s2 show ?thesis
        by (cases r2) (simp_all add: run_round_def ends_decide, simp add: ends_round_def)
    qed
  qed (use o s1 in \<open>simp add: run_round_def ends_round_def\<close>)
qed

lemma keeps_run_rounds: "keeps P Q (run_rounds E A st)"
proof (rule keepsI)
  fix s assume "P s"
  then show "ends P Q (run_rounds E A st s)"
  proof (induction s rule: measure_induct_rule [where f = round_budget])
    case (less s)
    obtain r s' where r: "run_round E A st s = (r, s')" by fastforce
    from ends_run_round [OF less.prems, of st] r
    have "(case r of Inl _ \<Rightarrow> Q s' | Inr _ \<Rightarrow> P s')"
      by (cases r) (simp_all add: ends_round_def)
    with r less.IH [OF run_round_budget] show ?case
      by (subst run_rounds.simps) (auto split: sum.splits round_outcome.splits)
  qed
qed

end

text \<open>A frame that the steps between rounds respect as well.\<close>

locale decide_frame = closing_frame +
  assumes tool_choice: "P s \<Longrightarrow> P (s\<lparr>tn_tool_choice := c\<rparr>)"
    and repair_rounds: "P s \<Longrightarrow> P (s\<lparr>tn_repair_rounds := k\<rparr>)"
    and web_rounds: "P s \<Longrightarrow> P (s\<lparr>tn_web_rounds := k\<rparr>)"
    and image_rounds: "P s \<Longrightarrow> P (s\<lparr>tn_image_rounds := k\<rparr>)"
begin

lemma frame_choice: "keeps P P (modify (\<lambda>s. s\<lparr>tn_tool_choice := c\<rparr>))"
  by (rule keeps_modify) (rule tool_choice)

lemma frame_begin_repair: "keeps P P (modify begin_repair)"
  using pending [OF repair_rounds] by (simp add: keeps_modify begin_repair_def)

lemma frame_count_web_round: "keeps P P (count_web_round E)"
  by (rule keepsI) (simp add: count_web_round_def Let_def web_rounds)

lemma frame_count_image_round: "keeps P P count_image_round"
  by (rule keepsI) (simp add: count_image_round_def Let_def image_rounds)

lemma frame_exhausted: "P s \<Longrightarrow> P (count_outcome E A Exhausted s)"
  by (simp add: count_outcome_def unknown_tools)

end

sublocale decide_frame \<subseteq> deciding: decide_walk E A P P for E A
  by unfold_locales
    (rule frame_choice frame_begin_repair frame_count_web_round frame_count_image_round
      frame_exhausted; assumption?)+

locale run_frame = decide_frame P + turn_frame P for P +
  fixes E :: engine and A :: turn_args
  assumes merging: "P s \<Longrightarrow> P (merge_tail E A s)"
    and logging: "P s \<Longrightarrow> P (log_request A st s)"

sublocale run_frame \<subseteq> run: turn_run E A P P
  by unfold_locales (rule keeps_modify merging logging; assumption?)+

subsection \<open>The turn\<close>

datatype turn_completion = TurnCompleted | TurnIncomplete

definition turn_resource :: "engine \<Rightarrow> turn_args \<Rightarrow> turn \<Rightarrow> response_resource" where
  "turn_resource E A s =
     (let reason = from_finish_reason (tn_finish_reason s);
          incomplete = (reason = LengthReason)
      in \<lparr>rs_id = ta_response_id A, rs_object = ''response'', rs_created_at = eg_created_at E,
          rs_status = (if incomplete then ''incomplete'' else ''completed''),
          rs_output = tn_output s, rs_model = ta_upstream_model A,
          rs_usage = into_response_usage (tn_usage s),
          rs_metadata = req_metadata (ta_request A),
          rs_incomplete_reason = (if incomplete then Some ''max_output_tokens'' else None),
          rs_stop_sequence = tn_stop_sequence s, rs_terminal_reason = Some reason\<rparr>)"

definition turn_record :: "turn_args \<Rightarrow> turn \<Rightarrow> replay_record" where
  "turn_record A s = \<lparr>rp_model = ta_upstream_model A,
     rp_instructions = req_instructions (ta_request A),
     rp_visible_history = tn_public_history s, rp_internal_messages = tn_messages s\<rparr>"

definition store_record :: "engine \<Rightarrow> turn_args \<Rightarrow> turn \<Rightarrow> turn" where
  "store_record E A s =
     (if req_store (ta_request A)
      then s\<lparr>tn_replay := replay_insert (eg_key E) (turn_record A s) (tn_replay s)\<rparr> else s)"

definition terminal_event :: "response_resource \<Rightarrow> sse_event" where
  "terminal_event r =
     (if rs_status r = ''incomplete'' then incomplete_event r else completed_event r)"

definition completion_of :: "turn \<Rightarrow> turn_completion" where
  "completion_of s = (if from_finish_reason (tn_finish_reason s) = LengthReason
     then TurnIncomplete else TurnCompleted)"

definition finish_turn :: "engine \<Rightarrow> turn_args \<Rightarrow> step" where
  "finish_turn E A = then_step (modify (store_record E A))
     (\<lambda>s. send_event E (terminal_event (turn_resource E A s)) s)"

text \<open>The state a turn starts in.\<close>

definition start_turn ::
  "nat \<Rightarrow> image_cache \<Rightarrow> replay_inner \<Rightarrow> tool_counters \<Rightarrow> turn_args \<Rightarrow> chat_message list \<Rightarrow> turn"
where
  "start_turn n images store counts A messages =
     \<lparr>tn_clock = 0, tn_uuid = n, tn_sent = [], tn_requests = [], tn_searches = [], tn_analyses = [],
      tn_messages = messages, tn_public_history = req_input (ta_request A), tn_output = [],
      tn_events = event_state_default, tn_usage = usage_default, tn_stream = stream_state_default,
      tn_chunk_usage = None, tn_gate = gate_new, tn_tool_choice = req_tool_choice (ta_request A),
      tn_finish_reason = None, tn_stop_sequence = None, tn_web_rounds = 0, tn_image_rounds = 0,
      tn_repair_rounds = 0, tn_pending_repair = False, tn_unknown_tools = counts,
      tn_flow_usage = None, tn_images = images, tn_replay = store\<rparr>"

definition begin_turn :: "engine \<Rightarrow> turn_args \<Rightarrow> step" where
  "begin_turn E A = steps
     [send_event E (created_event (ta_response_id A) (ta_estimated_input_tokens A)),
      send_event E (in_progress_event (ta_response_id A))]"

definition run_turn :: "engine \<Rightarrow> turn_args \<Rightarrow> turn \<Rightarrow> (app_error + turn_completion) \<times> turn" where
  "run_turn E A s0 =
     (case steps [begin_turn E A,
              with_value (\<lambda>s. normalize_stop (req_stop (ta_request A))) (\<lambda>st. run_rounds E A st),
              finish_turn E A] s0 of
        (Some e, s) \<Rightarrow> (Inl e, s)
      | (None, s) \<Rightarrow> (Inr (completion_of s), s))"

text \<open>The five ways a turn ends.\<close>

lemma run_turn_cases:
  assumes "run_turn E A s0 = (r, s)"
  obtains (opening_fails) e where "begin_turn E A s0 = (Some e, s)" "r = Inl e"
  | (stop_rejected) e where "begin_turn E A s0 = (None, s)" "normalize_stop (req_stop (ta_request A)) = Inl e"
      "r = Inl e"
  | (rounds_fail) st e s1 where "begin_turn E A s0 = (None, s1)"
      "normalize_stop (req_stop (ta_request A)) = Inr st" "run_rounds E A st s1 = (Some e, s)"
      "r = Inl e"
  | (closing_fails) st e s1 s2 where "begin_turn E A s0 = (None, s1)"
      "normalize_stop (req_stop (ta_request A)) = Inr st" "run_rounds E A st s1 = (None, s2)"
      "finish_turn E A s2 = (Some e, s)" "r = Inl e"
  | (completes) st s1 s2 where "begin_turn E A s0 = (None, s1)"
      "normalize_stop (req_stop (ta_request A)) = Inr st" "run_rounds E A st s1 = (None, s2)"
      "finish_turn E A s2 = (None, s)" "r = Inr (completion_of s)"
  using assms
  by (auto simp: run_turn_def then_step_def with_value_def
      split: prod.splits option.splits sum.splits)

text \<open>What the opening, the rounds and the closing keep, a turn keeps.\<close>

lemma run_turn_keeps:
  assumes "keeps P P (begin_turn E A)" and "\<And>st. keeps P P (run_rounds E A st)"
    and "keeps P P (finish_turn E A)" and "P s0"
  shows "P (snd (run_turn E A s0))"
proof -
  obtain r s where t: "run_turn E A s0 = (r, s)" by fastforce
  then have "P s"
  proof (cases rule: run_turn_cases)
    case opening_fails
    then show ?thesis using keeps_err [OF assms(1,4)] by blast
  next
    case stop_rejected
    then show ?thesis using keeps_ok [OF assms(1,4)] by blast
  next
    case rounds_fail
    then show ?thesis using keeps_err [OF assms(2)] keeps_ok [OF assms(1,4)] by blast
  next
    case closing_fails
    then show ?thesis
      using keeps_err [OF assms(3)] keeps_ok [OF assms(2)] keeps_ok [OF assms(1,4)] by blast
  next
    case completes
    then show ?thesis
      using keeps_ok [OF assms(3)] keeps_ok [OF assms(2)] keeps_ok [OF assms(1,4)] by blast
  qed
  with t show ?thesis by simp
qed

subsection \<open>The spawned body\<close>

fun flow_status_artifact_str :: "flow_status \<Rightarrow> string" where
  "flow_status_artifact_str FlowCompleted = ''completed''"
| "flow_status_artifact_str FlowCancelled = ''cancelled''"
| "flow_status_artifact_str FlowFailed = ''failed''"
| "flow_status_artifact_str FlowOpen = ''failed''"

definition terminal_status_of :: "app_error + turn_completion \<Rightarrow> flow_status \<times> string" where
  "terminal_status_of result =
     (case result of
        Inr _ \<Rightarrow> (FlowCompleted, ''response.completed'')
      | Inl err \<Rightarrow> if is_cancelled err then (FlowCancelled, ''client_disconnected'')
                   else (FlowFailed, err_message err))"

definition capture_status_of :: "app_error + turn_completion \<Rightarrow> string \<times> string" where
  "capture_status_of result =
     (if result = Inr TurnIncomplete then (''incomplete'', ''response.incomplete'')
      else (let (status, reason) = terminal_status_of result
            in (flow_status_artifact_str status, reason)))"

text \<open>
  The failure event is sent with a token that is never cancelled, so at its two checks \<open>eg_gone\<close>
  says whether the client has hung up; what becomes of the send is ignored.
\<close>

definition spawn_turn ::
  "engine \<Rightarrow> turn_args \<Rightarrow> turn \<Rightarrow> (app_error + turn_completion) \<times> turn" where
  "spawn_turn E A s0 =
     (let (result, s) = run_turn E A s0
      in (result, case result of
            Inr _ \<Rightarrow> s
          | Inl err \<Rightarrow> snd (steps [poll E, send_event E (failure_event err)] s)))"

lemma spawn_turn_keeps:
  assumes "P (snd (run_turn E A s0))"
    and "\<And>e. keeps P P (steps [poll E, send_event E (failure_event e)])"
  shows "P (snd (spawn_turn E A s0))"
  using assms(1) keeps_snd [OF assms(2)]
  by (auto simp: spawn_turn_def split: prod.split sum.split simp del: steps.simps)

text \<open>A frame that every event and the replay store leave alone, for the whole turn.\<close>

locale whole_turn_frame = run_frame +
  assumes any_sent: "P s \<Longrightarrow> P (s\<lparr>tn_sent := tn_sent s @ [ev]\<rparr>)"
    and replay: "P s \<Longrightarrow> P (s\<lparr>tn_replay := r\<rparr>)"
begin

lemma frame_send_any [keeps_intros]: "keeps P P (send_event E ev)"
proof (rule keepsI)
  fix s assume "P s"
  then have t: "P (s\<lparr>tn_clock := Suc (tn_clock s)\<rparr>)" by (rule tick)
  from any_sent [OF t] t show "ends P P (send_event E ev s)"
    by (simp add: send_event_def Let_def split: option.split)
qed

lemma frame_finish_turn: "keeps P P (finish_turn E A)"
proof (rule keepsI)
  fix s assume "P s"
  then have "P (store_record E A s)" by (simp add: store_record_def replay)
  then show "ends P P (finish_turn E A s)"
    by (simp add: finish_turn_def then_step_def modify_def keepsD [OF frame_send_any])
qed

lemma frame_begin_turn: "keeps P P (begin_turn E A)"
  unfolding begin_turn_def by (intro keeps_intros)

lemma frame_spawn_turn: "P s \<Longrightarrow> P (snd (spawn_turn E A s))"
proof (rule spawn_turn_keeps [where P = P])
  show "P s \<Longrightarrow> P (snd (run_turn E A s))"
    by (rule run_turn_keeps [where P = P, OF frame_begin_turn run.keeps_run_rounds frame_finish_turn])
  show "keeps P P (steps [poll E, send_event E (failure_event e)])" for e
    by (intro keeps_intros)
qed

end

subsection \<open>The entry point\<close>

text \<open>The state of the gateway a turn starts from.\<close>

record gateway =
  gw_uuid :: nat
  gw_images :: image_cache
  gw_replay :: replay_inner
  gw_unknown_tools :: tool_counters

text \<open>
  What is settled before the turn is spawned: the arguments of the turn and its messages, or the
  error the handler returns.  \<open>loaded\<close> is the engine's catalog, \<open>vision_plan\<close> and \<open>plan\<close> are the
  routing layer's candidates at the two places that ask for them.
\<close>

definition prepare_turn ::
  "engine \<Rightarrow> (chat_completion_request \<Rightarrow> nat) \<Rightarrow> app_error + upstream_model_catalog
     \<Rightarrow> backend_candidate list \<Rightarrow> backend_candidate list \<Rightarrow> bool \<Rightarrow> responses_request \<Rightarrow> gateway
     \<Rightarrow> (app_error + turn_args \<times> chat_message list) \<times> gateway" where
  "prepare_turn E request_len loaded vision_plan plan observed request0 g0 =
     (let cfg = eg_cfg E;
          (resolved_model, genuine) = resolve_request_model cfg loaded (req_model request0);
          request1 = apply_system_prompt_prefix cfg request0 resolved_model;
          response_id = ''resp_'' @ eg_uuid E (gw_uuid g0);
          native_vision = backend_is_native_vision cfg vision_plan (req_model request1) genuine;
          (session, request2, images) = activate_image_agent cfg (eg_clock_ms E 0)
             (eg_uuid E (Suc (gw_uuid g0))) native_vision request1 (gw_images g0);
          g = g0\<lparr>gw_uuid := gw_uuid g0 + 2, gw_images := images\<rparr>
      in (bind_res (residual_image_pass cfg native_vision request2) (\<lambda>request3.
            let (baseline, prefix_len) = find_replay_baseline (eg_key E) (gw_replay g) request3;
                (tail_request, request4) = strip_web_search cfg
                   (request3\<lparr>req_input := drop prefix_len (req_input request3)\<rparr>) request3;
                baseline_messages = (case baseline of
                   Some r \<Rightarrow> rp_internal_messages r | None \<Rightarrow> []);
                roles = resolve_roles_config_for_resolved_model cfg (req_model request4) resolved_model
            in bind_res (lower_request_with_image_agent_and_roles (eg_codec E) tail_request
                  baseline_messages (session \<noteq> None) roles) (\<lambda>lowered.
               let limit = (case candidate_context_floor plan of
                     Some l \<Rightarrow> Some l
                   | None \<Rightarrow> if is_plain_single_provider cfg
                             then upstream_model_context_limit loaded resolved_model else None);
                   estimated = estimate_input_tokens (eg_codec E) request_len lowered
                     (cfg_flatten_content cfg) resolved_model;
                   request5 = budget_request limit estimated request4
               in Inr (\<lparr>ta_response_id = response_id, ta_request = request5,
                        ta_replay_prefix_len = length baseline_messages,
                        ta_tools = lt_tools lowered, ta_registry = lt_tool_registry lowered,
                        ta_response_format = lt_response_format lowered,
                        ta_reasoning_effort = lt_reasoning_effort lowered,
                        ta_estimated_input_tokens = estimated,
                        ta_upstream_model = resolved_model, ta_vision_session = session,
                        ta_observed = observed\<rparr>, lt_messages lowered))), g))"

definition stream_responses ::
  "engine \<Rightarrow> (chat_completion_request \<Rightarrow> nat) \<Rightarrow> app_error + upstream_model_catalog
     \<Rightarrow> backend_candidate list \<Rightarrow> backend_candidate list \<Rightarrow> bool \<Rightarrow> responses_request \<Rightarrow> gateway
     \<Rightarrow> app_error + ((app_error + turn_completion) \<times> turn)" where
  "stream_responses E request_len loaded vision_plan plan observed request g0 =
     (let (prepared, g) = prepare_turn E request_len loaded vision_plan plan observed request g0
      in bind_res prepared (\<lambda>(A, messages). Inr (spawn_turn E A
           (start_turn (gw_uuid g) (gw_images g) (gw_replay g) (gw_unknown_tools g) A messages))))"

end
