(* ===== verification/Engine_Sample.thy ===== *)
theory Engine_Sample
  imports Engine_Run Stream_Calls_Correct
begin

text \<open>
  A concrete engine and a concrete turn, at which the properties of turns are applied: the upstream
  answers with a text and its usage.
\<close>

definition sample_config :: gateway_config where
  "sample_config = \<lparr>cfg_model_profiles = [], cfg_model_routes = [], cfg_upstream_model = None,
     cfg_system_prompt_prefix = None, cfg_has_upstreams = False, cfg_has_fallback_upstreams = False,
     cfg_image_agent_enabled = False, cfg_has_vision_url = False,
     cfg_unsupported_image_policy = Placeholder, cfg_has_brave_api_key = False,
     cfg_max_web_search_rounds = 5, cfg_flatten_content = True, cfg_template_family = None,
     cfg_upstream_chat_kwargs = []\<rparr>"

definition sample_usage :: chunk_usage where
  "sample_usage = \<lparr>cu_prompt_tokens = 7, cu_completion_tokens = 2, cu_total_tokens = 9,
     cu_reasoning_tokens = None, cu_prompt_tokens_details = None,
     cu_completion_tokens_details = None\<rparr>"

definition sample_reply :: chat_completion_chunk where
  "sample_reply = sample_chunk (Some ''hi'') None\<lparr>chunk_usage_of := Some sample_usage\<rparr>"

definition sample_key :: history_key where
  "sample_key model instructions items = model @ show_nat (length items)"

definition sample_engine :: engine where
  "sample_engine = \<lparr>eg_codec = sample_codec, eg_exec = sample_exec, eg_debug_str = quoted, eg_uuid = sample_uuids,
     eg_key = sample_key, eg_cfg = sample_config, eg_gone = (\<lambda>_. False), eg_raw = (\<lambda>_. None),
     eg_upstream = (\<lambda>_ _. Inr [Inr sample_reply]), eg_search = (\<lambda>_ _. TimedOut),
     eg_vision = (\<lambda>_ _. TimedOut), eg_provider = (\<lambda>_. None), eg_clock_ms = (\<lambda>_. 0),
     eg_created_at = 0\<rparr>"

definition sample_user_item :: response_item where
  "sample_user_item = Message None ''user'' [InputText ''hello''] None"

definition sample_turn_request :: responses_request where
  "sample_turn_request = \<lparr>req_model = ''m'', req_instructions = [], req_input = [sample_user_item],
     req_tools = [], req_tool_choice = JStr ''required'', req_parallel_tool_calls = None,
     req_reasoning = None, req_thinking = None, req_store = True, req_stream = True,
     req_include = [], req_service_tier = None, req_prompt_cache_key = None, req_text = None,
     req_client_metadata = None, req_previous_response_id = None, req_temperature = None,
     req_top_p = None, req_max_output_tokens = None, req_frequency_penalty = None,
     req_presence_penalty = None, req_truncation = None, req_metadata = None, req_stop = None,
     req_extra_body = []\<rparr>"

definition sample_args :: turn_args where
  "sample_args = \<lparr>ta_response_id = ''r'', ta_request = sample_turn_request,
     ta_replay_prefix_len = 0, ta_tools = [], ta_registry = Map.empty, ta_response_format = None,
     ta_reasoning_effort = None, ta_estimated_input_tokens = 3, ta_upstream_model = ''m'',
     ta_vision_session = None, ta_observed = True\<rparr>"

definition sample_start :: turn where
  "sample_start = start_turn 0 (image_cache_new 4 1000) (replay_new 8) [] sample_args
     [content_only_message ''user'' ''hello'']"

subsection \<open>The run\<close>

definition sample_stream :: stream_state where
  "sample_stream = stream_state_default\<lparr>ss_message_id := Some ''msg_0'', ss_output_text := ''hi'',
     ss_content_part_emitted := True\<rparr>"

definition sample_item :: "string \<Rightarrow> response_item" where
  "sample_item t = Message (Some ''msg_0'') ''assistant'' [OutputText t] None"

lemma sample_applied: "apply_chunk sample_codec sample_uuids sample_reply (0, stream_state_default)
    = ((1, sample_stream), [OutputItemAdded (sample_item []), ContentPartAdded, OutputTextDelta ''hi''])"
  by code_simp

definition sample_assistant :: chat_message where
  "sample_assistant = \<lparr>cm_role = ''assistant'', cm_content = Some (JStr ''hi''), cm_tool_call_id = None,
     cm_name = None, cm_reasoning_content = None, cm_thinking = None, cm_tool_calls = None\<rparr>"

definition sample_finalized :: finalized_assistant_turn where
  "sample_finalized = \<lparr>fin_message_item = Some (sample_item ''hi''), fin_reasoning_item = None,
     fin_tool_calls = [], fin_rejected_tool_calls = [],
     fin_internal_assistant_message = Some sample_assistant, fin_content_part_emitted = True,
     fin_reasoning_part_emitted = False, fin_refusal_text = [], fin_finish_reason = None,
     fin_stop_sequence = None\<rparr>"

lemma sample_turn_finalized:
  "finalize sample_codec sample_exec sample_uuids (1, sample_stream) Map.empty = Inr sample_finalized"
  by code_simp

lemma sample_send: "send_event sample_engine ev s
    = (None, s\<lparr>tn_clock := Suc (tn_clock s), tn_sent := tn_sent s @ [ev]\<rparr>)"
  by (simp add: send_event_def sample_engine_def Let_def)

lemma sample_poll: "poll sample_engine s = (None, s\<lparr>tn_clock := Suc (tn_clock s)\<rparr>)"
  by (simp add: poll_def sample_engine_def Let_def)

lemma sample_roles: "turn_roles sample_engine sample_args = None"
  by (simp add: turn_roles_def sample_engine_def sample_args_def sample_turn_request_def sample_config_def
    resolve_roles_config_for_resolved_model_def model_profiles_for_resolved_model_def
    add_profile_def model_profile_of_def lookup_named_def Let_def)

lemma sample_push: "push sample_engine sample_args m s = (None, s\<lparr>tn_messages := tn_messages s @ [m]\<rparr>)"
  by (simp add: push_def push_shaped_def sample_roles shape_tail_message_def with_value_def modify_def)

lemma sample_engine_fields:
  "eg_codec sample_engine = sample_codec" "eg_exec sample_engine = sample_exec"
  "eg_uuid sample_engine = sample_uuids" "eg_upstream sample_engine = (\<lambda>_ _. Inr [Inr sample_reply])"
  by (simp_all add: sample_engine_def)

lemma sample_merge: "merge_tail sample_engine sample_args s = s"
  by (simp add: merge_tail_def sample_roles)

lemma sample_usage_of: "chunk_usage_of sample_reply = Some sample_usage"
  by (simp add: sample_reply_def)

lemma sample_open:
  assumes "tn_uuid s = 0" and "tn_events s = event_state_default"
  shows "\<exists>s'. open_round sample_engine sample_args st s = (None, s') \<and> tn_uuid s' = 1
    \<and> tn_stream s' = sample_stream \<and> tn_repair_rounds s' = tn_repair_rounds s
    \<and> tn_pending_repair s' = tn_pending_repair s"
  using assms
  by (simp add: open_round_def then_step_def modify_def sample_poll sample_merge with_value_def
      upstream_reply_def log_request_def sample_engine_fields fresh_round_def receive_chunk_def
      note_usage_def sample_usage_of sample_applied Let_def send_registered_def register_item_def
      sample_send on_message_def active_message_target_def event_state_default_def sample_item_def
      add_round_usage_def split: prod.split option.split)

lemma sample_close: "\<exists>s'. close_round sample_engine sample_args sample_finalized s = (None, s')
    \<and> tn_pending_repair s' = tn_pending_repair s \<and> tn_finish_reason s' = None"
proof -
  obtain t es where t: "target_for_item (sample_item ''hi'')
      (tn_events (note_finalized sample_finalized s)) = (t, es)" by fastforce
  then show ?thesis
    by (simp add: close_round_def then_step_def modify_def sample_poll sample_send sample_push
        emit_completed_public_items_def complete_message_def sample_finalized_def Let_def
        when_step_def sample_item_def full_output_text_def set_events_def record_output_def
        note_finalized_def)
qed

lemma sample_rounds:
  assumes "tn_uuid s = 0" and "tn_events s = event_state_default" and "\<not> tn_pending_repair s"
  shows "\<exists>s'. run_rounds sample_engine sample_args st s = (None, s') \<and> tn_finish_reason s' = None"
proof -
  from sample_open [OF assms(1,2)] obtain s1 where
    o: "open_round sample_engine sample_args st s = (None, s1)" "tn_uuid s1 = 1"
      "tn_stream s1 = sample_stream" "\<not> tn_pending_repair s1"
    using assms(3) by metis
  from sample_close obtain s2 where
    c: "close_round sample_engine sample_args sample_finalized s1 = (None, s2)"
      "\<not> tn_pending_repair s2" "tn_finish_reason s2 = None"
    using o(4) by metis
  have f: "finalize sample_codec sample_exec sample_uuids (1, sample_stream) (ta_registry sample_args)
      = Inr sample_finalized" using sample_turn_finalized by (simp add: sample_args_def)
  have "decide sample_engine sample_args sample_finalized s2 = (Inr Finished, s2)"
    using c(2) by (simp add: decide_def sample_finalized_def end_repair_def)
  with o c f have "run_round sample_engine sample_args st s = (Inr Finished, s2)"
    by (simp add: run_round_def sample_engine_fields)
  with c(3) show ?thesis by (subst run_rounds.simps) simp
qed

text \<open>The turn ends well.\<close>

definition sample_end :: turn where
  "sample_end = snd (spawn_turn sample_engine sample_args sample_start)"

theorem sample_turn_runs: "spawn_turn sample_engine sample_args sample_start = (Inr TurnCompleted, sample_end)"
proof -
  obtain s1 where b: "begin_turn sample_engine sample_args sample_start = (None, s1)"
    "tn_uuid s1 = 0" "tn_events s1 = event_state_default" "\<not> tn_pending_repair s1"
    by (simp add: begin_turn_def then_step_def sample_send sample_start_def start_turn_def)
  from sample_rounds [OF b(2-4)] obtain s2 where
    "run_rounds sample_engine sample_args None s1 = (None, s2)" "tn_finish_reason s2 = None" by blast
  moreover have "finish_turn sample_engine sample_args s2 = (None, s3)
      \<Longrightarrow> tn_finish_reason s3 = tn_finish_reason s2" for s3
    by (auto simp: finish_turn_def then_step_def modify_def sample_send store_record_def)
  moreover obtain s3 where "finish_turn sample_engine sample_args s2 = (None, s3)"
    by (simp add: finish_turn_def then_step_def modify_def sample_send)
  moreover have "normalize_stop (req_stop (ta_request sample_args)) = Inr None"
    by (simp add: sample_args_def sample_turn_request_def normalize_stop_def)
  ultimately have "run_turn sample_engine sample_args sample_start = (Inr TurnCompleted, s3)"
    using b(1) by (simp add: run_turn_def then_step_def with_value_def completion_of_def
        from_finish_reason_def)
  then show ?thesis by (simp add: sample_end_def spawn_turn_def)
qed

end
