(* ===== verification/Engine_Correct.thy ===== *)
theory Engine_Correct
  imports Engine_Sample
begin

text \<open>
  What a turn of the engine guarantees: how many upstream requests it makes and what they hold,
  the protocol of its events, the items of its response, and the history it leaves.
\<close>

subsection \<open>The requests of a turn\<close>

interpretation requested: decide_frame "\<lambda>s. tn_requests s = c" for c
  by unfold_locales (auto simp: record_output_def)

interpretation requesting: turn_frame "\<lambda>s. tn_requests s = c" for c
  by unfold_locales auto

interpretation chosen: turn_frame "\<lambda>s. tn_tool_choice s = c" for c
  by unfold_locales (auto simp: record_output_def)

text \<open>A round hands at most one request to the upstream, built from the merged tail.\<close>

lemma round_request_cong:
  "tn_messages s = tn_messages t \<Longrightarrow> tn_tool_choice s = tn_tool_choice t
    \<Longrightarrow> round_request A st s = round_request A st t"
  by (simp add: round_request_def)

definition ask_upstream :: "engine \<Rightarrow> turn_args \<Rightarrow> step" where
  "ask_upstream E A = steps [poll E, modify (merge_tail E A), poll E]"

definition hear_upstream :: "engine \<Rightarrow> turn_args \<Rightarrow> step" where
  "hear_upstream E A = steps [poll E, with_value (upstream_reply E) (\<lambda>items.
     steps [modify fresh_round, receive E A items, modify add_round_usage])]"

lemma open_round_parts:
  "open_round E A st = then_step (ask_upstream E A) (then_step (modify (log_request A st)) (hear_upstream E A))"
  unfolding open_round_def ask_upstream_def hear_upstream_def
  by (rule ext) (simp add: then_step_def modify_def split: prod.split option.split)

lemma ask_requests: "tn_requests (snd (ask_upstream E A s)) = tn_requests s"
  by (simp add: ask_upstream_def poll_def modify_def then_step_def merge_tail_def Let_def)

lemma ask_None: "ask_upstream E A s = (None, s') \<Longrightarrow>
    tn_messages s' = tn_messages (merge_tail E A s) \<and> tn_tool_choice s' = tn_tool_choice s
    \<and> tn_requests s' = tn_requests s"
  by (auto simp: ask_upstream_def poll_def modify_def then_step_def merge_tail_def Let_def
      split: if_splits)

lemma hear_requests: "tn_requests (snd (hear_upstream E A s)) = tn_requests s"
proof -
  have "keeps (\<lambda>t. tn_requests t = tn_requests s) (\<lambda>t. tn_requests t = tn_requests s) (hear_upstream E A)"
    unfolding hear_upstream_def by (intro keeps_intros)
  from keeps_snd [OF this] show ?thesis by simp
qed

lemma open_round_requests:
  "tn_requests (snd (open_round E A st s)) = tn_requests s
   \<or> tn_requests (snd (open_round E A st s)) = tn_requests s @ [round_request A st (merge_tail E A s)]"
proof -
  obtain r s1 where o: "ask_upstream E A s = (r, s1)" by fastforce
  show ?thesis
  proof (cases r)
    case (Some e)
    with o ask_requests [of E A s] show ?thesis by (simp add: open_round_parts then_step_def)
  next
    case None
    with o have s1: "ask_upstream E A s = (None, s1)" by simp
    note m = ask_None [OF s1]
    then have "round_request A st s1 = round_request A st (merge_tail E A s)"
      by (intro round_request_cong) (simp_all add: merge_tail_def Let_def)
    with m show ?thesis
      using hear_requests [of E A "log_request A st s1"]
      by (simp add: open_round_parts then_step_def s1 modify_def log_request_def)
  qed
qed

lemma open_round_choice: "tn_tool_choice (snd (open_round E A st s)) = tn_tool_choice s"
  by (rule keeps_snd [OF chosen.walk.keeps_open_round])
    (auto intro!: keeps_modify simp: merge_tail_def log_request_def Let_def)

lemma decide_requests: "tn_requests (snd (decide E A fin s)) = tn_requests s"
  using requested.deciding.ends_decide [OF refl] by (simp add: ends_round_same)

lemma close_requests: "tn_requests (snd (close_round E A fin s)) = tn_requests s"
  by (rule keeps_snd [OF requested.closing.keeps_close_round]) simp

lemma run_round_requests_open:
  "tn_requests (snd (run_round E A st s)) = tn_requests (snd (open_round E A st s))"
proof -
  obtain r1 s1 where o: "open_round E A st s = (r1, s1)" by fastforce
  have "tn_requests (snd (case close_round E A fin s1 of (Some e, s2) \<Rightarrow> (Inl e, s2)
      | (None, s2) \<Rightarrow> decide E A fin s2)) = tn_requests s1" for fin
    using close_requests [of E A fin s1]
    by (cases "close_round E A fin s1") (simp add: decide_requests split: option.split)
  with o show ?thesis by (simp add: run_round_def split: option.split sum.split)
qed

lemma run_round_requests:
  "tn_requests (snd (run_round E A st s)) = tn_requests s
   \<or> tn_requests (snd (run_round E A st s)) = tn_requests s @ [round_request A st (merge_tail E A s)]"
  unfolding run_round_requests_open by (rule open_round_requests)

lemma run_round_Again_requests:
  assumes "run_round E A st s = (Inr Again, s')"
  shows "tn_requests s' = tn_requests s @ [round_request A st (merge_tail E A s)]"
proof -
  from assms obtain s1 where o: "open_round E A st s = (None, s1)" by (rule run_round_Inr)
  then obtain s2 where s2: "ask_upstream E A s = (None, s2)"
    and s1: "hear_upstream E A (log_request A st s2) = (None, s1)"
    unfolding open_round_parts by (auto simp: step_None)
  note m = ask_None [OF s2]
  then have "round_request A st s2 = round_request A st (merge_tail E A s)"
    by (intro round_request_cong) (simp_all add: merge_tail_def Let_def)
  with m s1 have "tn_requests s1 = tn_requests s @ [round_request A st (merge_tail E A s)]"
    using hear_requests [of E A "log_request A st s2"] by (simp add: log_request_def)
  with o assms show ?thesis using run_round_requests_open [of E A st s] by simp
qed

lemma answer_tainted_choice:
  "answer_tainted E A fin s = (None, s') \<Longrightarrow> tn_tool_choice s' = JStr ''auto''"
  unfolding answer_tainted_def step_None by auto

lemma continue_choice:
  "continue_loop E A calls s = (None, s') \<Longrightarrow> tn_tool_choice s' = JStr ''auto''"
  unfolding continue_loop_def step_None by auto

lemma run_round_choice:
  assumes "run_round E A st s = (Inr Again, s')"
  shows "tn_tool_choice s' = JStr ''auto''"
proof -
  from assms obtain fin s2 where d: "decide E A fin s2 = (Inr Again, s')" by (rule run_round_Inr)
  show ?thesis
  proof (cases "fin_rejected_tool_calls fin = []")
    case False
    with d have "answer_tainted E A fin (begin_repair s2) = (None, s')"
      by (simp add: decide_def Let_def concluding_Inr step_None del: steps.simps split: if_splits)
    then show ?thesis by (rule answer_tainted_choice)
  next
    case True
    with d obtain s3 where "continue_loop E A (fin_tool_calls fin) s3 = (None, s')"
      by (auto simp add: decide_def Let_def concluding_Inr step_None simp del: steps.simps split: if_splits)
    then show ?thesis by (rule continue_choice)
  qed
qed

text \<open>The requests of a run of rounds.\<close>

definition requests_ok :: "nat \<Rightarrow> json \<Rightarrow> backend_request list \<Rightarrow> bool" where
  "requests_ok budget choice rs \<longleftrightarrow> length rs \<le> Suc budget
     \<and> (case rs of [] \<Rightarrow> True | r # rest \<Rightarrow> ccr_tool_choice (bk_request r) = Some choice
          \<and> list_all (\<lambda>r. ccr_tool_choice (bk_request r) = Some (JStr ''auto'')) rest)"

lemma round_request_choice: "ccr_tool_choice (bk_request (round_request A st s)) = Some (tn_tool_choice s)"
  by (simp add: round_request_def with_thinking_override_def backend_request_new_def
      build_upstream_chat_request_def)

lemma run_rounds_requests:
  "\<exists>rs. tn_requests (snd (run_rounds E A st s)) = tn_requests s @ rs
     \<and> requests_ok (round_budget s) (tn_tool_choice s) rs"
proof (induction s rule: measure_induct_rule [where f = round_budget])
  case (less s)
  let ?r = "round_request A st (merge_tail E A s)"
  have choice: "ccr_tool_choice (bk_request ?r) = Some (tn_tool_choice s)"
    by (simp add: round_request_choice merge_tail_def Let_def)
  obtain r s' where r: "run_round E A st s = (r, s')" by fastforce
  have one: "tn_requests s' = tn_requests s \<or> tn_requests s' = tn_requests s @ [?r]"
    using run_round_requests [of E A st s] r by simp
  have single: "requests_ok b (tn_tool_choice s) []" "requests_ok b (tn_tool_choice s) [?r]" for b
    using choice by (simp_all add: requests_ok_def)
  show ?case
  proof (cases "r = Inr Again")
    case False
    then have "tn_requests (snd (run_rounds E A st s)) = tn_requests s'"
      using r by (subst run_rounds.simps) (auto split: sum.split round_outcome.split)
    with one single show ?thesis by (metis append_Nil2)
  next
    case True
    with r have a: "run_round E A st s = (Inr Again, s')" by simp
    from less.IH [OF run_round_budget [OF a]] obtain rs where
      rs: "tn_requests (snd (run_rounds E A st s')) = tn_requests s' @ rs"
        "requests_ok (round_budget s') (JStr ''auto'') rs"
      unfolding run_round_choice [OF a] by blast
    have eq: "run_rounds E A st s = run_rounds E A st s'"
      using a by (subst run_rounds.simps) simp
    have "requests_ok (round_budget s) (tn_tool_choice s) (?r # rs)"
      using rs(2) choice run_round_budget [OF a] by (auto simp: requests_ok_def split: list.splits)
    with rs(1) eq show ?thesis by (auto simp: run_round_Again_requests [OF a])
  qed
qed

text \<open>The requests of a turn.\<close>

lemma keeps_send_requests: "keeps (\<lambda>s. tn_requests s = rs) (\<lambda>s. tn_requests s = rs) (send_event E ev)"
  by (rule keepsI) (simp add: send_event_def Let_def split: option.split)

lemma keeps_poll_requests: "keeps (\<lambda>s. tn_requests s = rs) (\<lambda>s. tn_requests s = rs) (poll E)"
  by (rule keepsI) (simp add: poll_def Let_def)

definition fresh_turn :: "json \<Rightarrow> turn \<Rightarrow> bool" where
  "fresh_turn choice s \<longleftrightarrow> tn_requests s = [] \<and> tn_tool_choice s = choice \<and> counters s = (0, 0, 0)"

lemma begin_turn_fresh: "keeps (fresh_turn choice) (fresh_turn choice) (begin_turn E A)"
proof -
  have "keeps (fresh_turn choice) (fresh_turn choice) (send_event E ev)" for ev
    by (rule keepsI) (simp add: send_event_def Let_def fresh_turn_def counters_def split: option.split)
  then show ?thesis unfolding begin_turn_def by (intro keeps_intros)
qed

lemma fresh_turn_budget: "fresh_turn choice s \<Longrightarrow> round_budget s = 32"
  by (simp add: fresh_turn_def counters_def round_budget_def unknown_tool_repair_ceiling_def
      web_search_rounds_hard_ceiling_def image_analysis_rounds_hard_ceiling_def)

lemma finish_turn_requests: "keeps (\<lambda>s. tn_requests s = rs) (\<lambda>s. tn_requests s = rs) (finish_turn E A)"
  unfolding finish_turn_def
  by (intro keeps_then_step keeps_modify keepsI keepsD [OF keeps_send_requests])
    (simp_all add: store_record_def)

lemma run_rounds_fresh:
  assumes "fresh_turn choice s"
  shows "requests_ok 32 choice (tn_requests (snd (run_rounds E A st s)))"
proof -
  obtain rs where "tn_requests (snd (run_rounds E A st s)) = tn_requests s @ rs"
    "requests_ok (round_budget s) (tn_tool_choice s) rs"
    using run_rounds_requests by blast
  moreover from assms have "round_budget s = 32" "tn_requests s = []" "tn_tool_choice s = choice"
    by (simp_all add: fresh_turn_budget) (simp_all add: fresh_turn_def)
  ultimately show ?thesis by simp
qed

lemma run_turn_requests:
  assumes f: "fresh_turn choice s0"
  shows "requests_ok 32 choice (tn_requests (snd (run_turn E A s0)))"
proof -
  have none: "fresh_turn choice s \<Longrightarrow> requests_ok 32 choice (tn_requests s)" for s
    by (simp add: fresh_turn_def requests_ok_def)
  note opened = keeps_ok [OF begin_turn_fresh f] keeps_err [OF begin_turn_fresh f]
  obtain r s where t: "run_turn E A s0 = (r, s)" by fastforce
  then have "requests_ok 32 choice (tn_requests s)"
  proof (cases rule: run_turn_cases)
    case opening_fails
    then show ?thesis using opened(2) none by blast
  next
    case stop_rejected
    then show ?thesis using opened(1) none by blast
  next
    case (rounds_fail st e s1)
    then show ?thesis using run_rounds_fresh [OF opened(1), of E A s1 E A st] by simp
  next
    case (closing_fails st e s1 s2)
    then show ?thesis
      using run_rounds_fresh [OF opened(1), of E A s1 E A st]
        keeps_err [OF finish_turn_requests refl closing_fails(4)] by simp
  next
    case (completes st s1 s2)
    then show ?thesis
      using run_rounds_fresh [OF opened(1), of E A s1 E A st]
        keeps_ok [OF finish_turn_requests refl completes(4)] by simp
  qed
  with t show ?thesis by simp
qed

lemma spawn_turn_requests:
  "tn_requests (snd (spawn_turn E A s)) = tn_requests (snd (run_turn E A s))"
  by (rule spawn_turn_keeps [where P = "\<lambda>s'. tn_requests s' = tn_requests (snd (run_turn E A s))"])
    (rule refl, intro keeps_intros keeps_poll_requests keeps_send_requests)

lemma start_turn_fresh:
  "fresh_turn (req_tool_choice (ta_request A)) (start_turn n images store counts A messages)"
  by (simp add: fresh_turn_def start_turn_def counters_def)

text \<open>
  C7: a turn makes at most 33 upstream requests, whatever the upstream, the search and the vision
  backends answer; the first one carries the tool choice of the client and every later one asks for
  \<^verbatim>\<open>auto\<close>, so that a forced tool cannot be forced again after its result.
\<close>

theorem turn_requests_bounded:
  "let rs = tn_requests (snd (spawn_turn E A (start_turn n images store counts A messages)))
   in length rs \<le> 33
      \<and> list_all (\<lambda>r. ccr_tool_choice (bk_request r) = Some (req_tool_choice (ta_request A))) (take 1 rs)
      \<and> list_all (\<lambda>r. ccr_tool_choice (bk_request r) = Some (JStr ''auto'')) (drop 1 rs)"
proof -
  let ?rs = "tn_requests (snd (run_turn E A (start_turn n images store counts A messages)))"
  have "requests_ok 32 (req_tool_choice (ta_request A)) ?rs"
    by (rule run_turn_requests [OF start_turn_fresh])
  then show ?thesis
    unfolding spawn_turn_requests by (cases ?rs) (simp_all add: requests_ok_def Let_def)
qed

subsection \<open>The replayed prefix\<close>

text \<open>
  Every request starts with the messages of the replayed prefix, unchanged: the merge of adjacent
  messages and the role rules touch the tail only.
\<close>

definition prefix_kept :: "nat \<Rightarrow> chat_message list \<Rightarrow> turn \<Rightarrow> bool" where
  "prefix_kept p pre s \<longleftrightarrow> p \<le> length (tn_messages s) \<and> take p (tn_messages s) = pre
     \<and> list_all (\<lambda>r. take p (ccr_messages (bk_request r)) = pre) (tn_requests s)"

lemma round_request_messages: "ccr_messages (bk_request (round_request A st s)) = tn_messages s"
  by (simp add: round_request_def with_thinking_override_def backend_request_new_def
      build_upstream_chat_request_def)

lemma merge_tail_prefix:
  "prefix_kept (ta_replay_prefix_len A) pre s \<Longrightarrow> prefix_kept (ta_replay_prefix_len A) pre (merge_tail E A s)"
  by (auto simp: merge_tail_def prefix_kept_def Let_def min_def)

interpretation prefixed: whole_turn_frame "prefix_kept (ta_replay_prefix_len A) pre" E A for E A pre
  by unfold_locales
    (rule merge_tail_prefix, assumption |
      force simp: prefix_kept_def record_output_def log_request_def round_request_messages)+

lemma spawn_turn_prefix:
  assumes "ta_replay_prefix_len A \<le> length messages"
  shows "list_all (\<lambda>r. take (ta_replay_prefix_len A) (ccr_messages (bk_request r))
           = take (ta_replay_prefix_len A) messages)
       (tn_requests (snd (spawn_turn E A (start_turn n images store counts A messages))))"
proof -
  have "prefix_kept (ta_replay_prefix_len A) (take (ta_replay_prefix_len A) messages)
      (start_turn n images store counts A messages)"
    using assms by (simp add: prefix_kept_def start_turn_def)
  from prefixed.frame_spawn_turn [OF this] show ?thesis by (simp add: prefix_kept_def)
qed

end
