(* ===== verification/Engine_Protocol.thy ===== *)
theory Engine_Protocol
  imports Engine_Correct
begin

text \<open>
  The protocol of the events a turn sends: the opening pair, the events of the rounds, and one
  terminal event that tells how the turn ended.
\<close>

subsection \<open>Sends\<close>

lemma send_event_None: "send_event E ev s = (None, s') \<longleftrightarrow>
    \<not> eg_gone E (tn_clock s) \<and> eg_raw E (tn_clock s) = None
    \<and> s' = s\<lparr>tn_clock := Suc (tn_clock s), tn_sent := tn_sent s @ [ev]\<rparr>"
  by (auto simp: send_event_def Let_def split: option.splits)

lemma send_event_sent:
  "tn_sent (snd (send_event E ev s)) = tn_sent s \<or> tn_sent (snd (send_event E ev s)) = tn_sent s @ [ev]"
  by (simp add: send_event_def Let_def split: option.split)

text \<open>An error the raw mirror of the turn can raise.\<close>

definition raw_error :: "engine \<Rightarrow> app_error \<Rightarrow> bool" where
  "raw_error E e \<longleftrightarrow> (\<exists>n err. eg_raw E n = Some err
     \<and> e = internal_error (''failed to write raw output: '' @ err))"

lemma send_event_Some:
  assumes "send_event E ev s = (Some e, s')"
  shows "\<exists>n. s' = s\<lparr>tn_clock := n\<rparr> \<or> s' = s\<lparr>tn_clock := n, tn_sent := tn_sent s @ [ev]\<rparr> \<and> raw_error E e"
  using assms by (auto simp: send_event_def Let_def raw_error_def split: if_splits option.splits)

text \<open>The events of the rounds follow what was sent before.\<close>

definition rounds_after :: "sse_event list \<Rightarrow> turn \<Rightarrow> bool" where
  "rounds_after before s \<longleftrightarrow> (\<exists>mid. tn_sent s = before @ mid \<and> list_all is_round_event mid)"

lemma rounds_after_sent:
  assumes "is_round_event ev" and "rounds_after before s"
  shows "rounds_after before (s\<lparr>tn_sent := tn_sent s @ [ev]\<rparr>)"
proof -
  from assms obtain mid where "tn_sent s = before @ mid" "list_all is_round_event mid"
    by (auto simp: rounds_after_def)
  with assms(1) show ?thesis unfolding rounds_after_def by (intro exI [of _ "mid @ [ev]"]) simp
qed

interpretation sending: run_frame "rounds_after before" E A for before E A
  by unfold_locales
    (simp_all add: rounds_after_sent emission_is_round_event,
      simp_all add: rounds_after_def record_output_def merge_tail_def log_request_def Let_def)

lemma run_rounds_sent:
  "\<exists>mid. tn_sent (snd (run_rounds E A st s)) = tn_sent s @ mid \<and> list_all is_round_event mid"
  using keeps_snd [OF sending.run.keeps_run_rounds [of "tn_sent s" E A st], of s]
  by (auto simp: rounds_after_def)

subsection \<open>The opening and the closing\<close>

definition opening_events :: "turn_args \<Rightarrow> sse_event list" where
  "opening_events A = [created_event (ta_response_id A) (ta_estimated_input_tokens A),
     in_progress_event (ta_response_id A)]"

lemma begin_turn_None:
  "begin_turn E A s = (None, s') \<Longrightarrow> tn_sent s' = tn_sent s @ opening_events A"
  unfolding begin_turn_def step_None send_event_None by (auto simp: opening_events_def)

lemma begin_turn_Some:
  assumes "begin_turn E A s = (Some e, s')"
  shows "\<exists>opened. tn_sent s' = tn_sent s @ opened \<and> prefix opened (opening_events A)"
proof -
  let ?c = "created_event (ta_response_id A) (ta_estimated_input_tokens A)"
    and ?p = "in_progress_event (ta_response_id A)"
  obtain r s1 where c: "send_event E ?c s = (r, s1)" by fastforce
  show ?thesis
  proof (cases r)
    case None
    with assms c have "send_event E ?p s1 = (Some e, s')"
      by (auto simp: begin_turn_def then_step_def split: prod.splits option.splits)
    with send_event_sent [of E ?p s1] c None
    have "tn_sent s' = tn_sent s @ [?c] \<or> tn_sent s' = tn_sent s @ [?c, ?p]"
      by (auto simp: send_event_None)
    then show ?thesis by (auto simp: opening_events_def)
  next
    case (Some e')
    with assms c have "s' = s1" by (simp add: begin_turn_def then_step_def)
    with send_event_sent [of E ?c s] c
    have "tn_sent s' = tn_sent s @ [] \<or> tn_sent s' = tn_sent s @ [?c]" by auto
    then show ?thesis unfolding opening_events_def by (metis Nil_prefix Cons_prefix_Cons)
  qed
qed

lemma turn_resource_store [simp]: "turn_resource E A (store_record E A s) = turn_resource E A s"
  by (simp add: turn_resource_def store_record_def Let_def)

lemma turn_resource_send [simp]:
  "turn_resource E A (s\<lparr>tn_clock := n, tn_sent := evs\<rparr>) = turn_resource E A s"
  by (simp add: turn_resource_def Let_def)

lemma store_record_sent [simp]: "tn_sent (store_record E A s) = tn_sent s"
  by (simp add: store_record_def)

lemma store_record_clock [simp]: "tn_clock (store_record E A s) = tn_clock s"
  by (simp add: store_record_def)

lemma finish_turn_None:
  assumes "finish_turn E A s = (None, s')"
  shows "tn_sent s' = tn_sent s @ [terminal_event (turn_resource E A s')]"
  using assms unfolding finish_turn_def step_None send_event_None by auto

lemma finish_turn_Some:
  assumes "finish_turn E A s = (Some e, s')"
  shows "tn_sent s' = tn_sent s
    \<or> tn_sent s' = tn_sent s @ [terminal_event (turn_resource E A s')] \<and> raw_error E e"
proof -
  from assms have "send_event E (terminal_event (turn_resource E A s)) (store_record E A s) = (Some e, s')"
    by (simp add: finish_turn_def then_step_def modify_def)
  from send_event_Some [OF this] show ?thesis by auto
qed

lemma closing_sent:
  "tn_sent (snd (steps [poll E, send_event E ev] s)) = tn_sent s
   \<or> tn_sent (snd (steps [poll E, send_event E ev] s)) = tn_sent s @ [ev]"
  using send_event_sent [of E ev "s\<lparr>tn_clock := Suc (tn_clock s)\<rparr>"]
  by (auto simp: poll_def then_step_def Let_def split: prod.splits option.splits)

lemma turn_resource_closing:
  "turn_resource E A (snd (steps [poll E, send_event E ev] s)) = turn_resource E A s"
  by (simp add: poll_def send_event_def then_step_def Let_def turn_resource_def split: option.split)

text \<open>A turn before the failure event.\<close>

lemma run_turn_sent:
  assumes s0: "tn_sent s0 = []" and t: "run_turn E A s0 = (r, s)"
  shows "\<exists>opened mid closing. tn_sent s = opened @ mid @ closing
    \<and> list_all is_round_event mid \<and> prefix opened (opening_events A)
    \<and> (mid = [] \<or> opened = opening_events A)
    \<and> (case r of
        Inr c \<Rightarrow> c = completion_of s \<and> opened = opening_events A
          \<and> closing = [terminal_event (turn_resource E A s)]
      | Inl e \<Rightarrow> closing = [] \<or> opened = opening_events A \<and> raw_error E e
          \<and> closing = [terminal_event (turn_resource E A s)])"
  using t
proof (cases rule: run_turn_cases)
  case (opening_fails e)
  from begin_turn_Some [OF this(1)] obtain opened
    where "tn_sent s = tn_sent s0 @ opened" "prefix opened (opening_events A)" by blast
  with s0 opening_fails(2) show ?thesis
    by (intro exI [of _ opened] exI [of _ "[]"]) simp
next
  case (stop_rejected e)
  from begin_turn_None [OF this(1)] s0 stop_rejected(3) show ?thesis
    by (intro exI [of _ "opening_events A"] exI [of _ "[]"]) simp
next
  case (rounds_fail st e s1)
  then obtain mid where "tn_sent s = opening_events A @ mid" "list_all is_round_event mid"
    using begin_turn_None [of E A s0 s1] s0 run_rounds_sent [of E A st s1] by force
  with rounds_fail show ?thesis
    by (intro exI [of _ "opening_events A"] exI [of _ mid] exI [of _ "[]"]) simp
next
  case (closing_fails st e s1 s2)
  then obtain mid where "tn_sent s2 = opening_events A @ mid" "list_all is_round_event mid"
    using begin_turn_None [of E A s0 s1] s0 run_rounds_sent [of E A st s1] by force
  moreover obtain closing where "tn_sent s = tn_sent s2 @ closing"
    "closing = [] \<or> raw_error E e \<and> closing = [terminal_event (turn_resource E A s)]"
    using finish_turn_Some [OF closing_fails(4)] by (metis append_Nil2)
  ultimately show ?thesis using closing_fails
    by (intro exI [of _ "opening_events A", OF exI [of _ mid, OF exI [of _ closing]]]) simp
next
  case (completes st s1 s2)
  then obtain mid where "tn_sent s2 = opening_events A @ mid" "list_all is_round_event mid"
    using begin_turn_None [of E A s0 s1] s0 run_rounds_sent [of E A st s1] by force
  with finish_turn_None [OF completes(4)] completes show ?thesis
    by (intro exI [of _ "opening_events A"] exI [of _ mid] exI
        [of _ "[terminal_event (turn_resource E A s)]"]) simp
qed

lemma turn_event_shape:
  assumes t: "spawn_turn E A (start_turn n images store counts A messages) = (result, s)"
  shows "\<exists>opened mid closing. tn_sent s = opened @ mid @ closing
    \<and> prefix opened [created_event (ta_response_id A) (ta_estimated_input_tokens A),
        in_progress_event (ta_response_id A)]
    \<and> list_all is_round_event mid \<and> (mid = [] \<or> length opened = 2)
    \<and> (case result of
        Inr c \<Rightarrow> length opened = 2 \<and> c = completion_of s
          \<and> closing = [terminal_event (turn_resource E A s)]
      | Inl e \<Rightarrow> closing = [] \<or> closing = [failure_event e]
          \<or> length opened = 2 \<and> raw_error E e
            \<and> (closing = [terminal_event (turn_resource E A s)]
               \<or> closing = [terminal_event (turn_resource E A s), failure_event e]))"
proof -
  let ?s0 = "start_turn n images store counts A messages"
  obtain s1 where r: "run_turn E A ?s0 = (result, s1)"
    and s: "s = (case result of Inr _ \<Rightarrow> s1
      | Inl e \<Rightarrow> snd (steps [poll E, send_event E (failure_event e)] s1))"
    using t by (auto simp: spawn_turn_def split: prod.splits)
  have "tn_sent ?s0 = []" by (simp add: start_turn_def)
  from run_turn_sent [OF this r] obtain opened mid closing where
    p: "tn_sent s1 = opened @ mid @ closing" "list_all is_round_event mid"
      "prefix opened (opening_events A)" "mid = [] \<or> opened = opening_events A"
    and c: "case result of
        Inr c \<Rightarrow> c = completion_of s1 \<and> opened = opening_events A
          \<and> closing = [terminal_event (turn_resource E A s1)]
      | Inl e \<Rightarrow> closing = [] \<or> opened = opening_events A \<and> raw_error E e
          \<and> closing = [terminal_event (turn_resource E A s1)]" by blast
  have two: "length opened = 2" if "opened = opening_events A" using that by (simp add: opening_events_def)
  show ?thesis
  proof (cases result)
    case (Inl e)
    then have resource: "turn_resource E A s = turn_resource E A s1"
      by (simp add: s turn_resource_closing del: steps.simps)
    let ?T = "terminal_event (turn_resource E A s)"
    obtain rest where rest: "rest = [] \<or> rest = [failure_event e]" and sent: "tn_sent s = tn_sent s1 @ rest"
      using closing_sent [of E "failure_event e" s1] Inl s by (metis append_Nil2 sum.case(1))
    have "closing = [] \<or> opened = opening_events A \<and> raw_error E e \<and> closing = [?T]"
      using c Inl resource by simp
    with rest two have "closing @ rest = [] \<or> closing @ rest = [failure_event e]
        \<or> length opened = 2 \<and> raw_error E e \<and> (closing @ rest = [?T] \<or> closing @ rest = [?T, failure_event e])"
      by (elim disjE) simp_all
    moreover have "mid = [] \<or> length opened = 2" using p(4) two by blast
    ultimately show ?thesis
      using sent p(1-3) Inl unfolding opening_events_def
      by (intro exI [of _ opened] exI [of _ mid] exI [of _ "closing @ rest"]) simp
  next
    case (Inr q)
    with c s p two show ?thesis unfolding opening_events_def
      by (intro exI [of _ opened] exI [of _ mid] exI [of _ closing]) simp
  qed
qed

text \<open>
  C2: the events of a turn, whatever the upstream answers, whenever the client hangs up or the turn is
  killed, and whether or not the raw mirror works, are a prefix of the opening pair, then, only when
  the pair is complete, events of the rounds, then the closing. When the turn succeeds the closing is
  exactly the \<^verbatim>\<open>completed\<close> or \<^verbatim>\<open>incomplete\<close> event of the final resource; when it fails it is nothing
  or the failure event of its error, with one exception: a raw mirror that fails on the terminal event
  itself makes the turn fail with the mirror's error after the client has seen the terminal event, and
  the failure event may follow it.
\<close>

theorem turn_event_protocol:
  assumes t: "spawn_turn E A (start_turn n images store counts A messages) = (result, s)"
  shows "\<exists>opened mid closing. tn_sent s = opened @ mid @ closing
    \<and> prefix opened [created_event (ta_response_id A) (ta_estimated_input_tokens A),
        in_progress_event (ta_response_id A)]
    \<and> list_all is_round_event mid \<and> (mid = [] \<or> length opened = 2)
    \<and> (case result of
        Inr c \<Rightarrow> length opened = 2 \<and> c = completion_of s
          \<and> closing = [terminal_event (turn_resource E A s)]
      | Inl e \<Rightarrow> closing = [] \<or> closing = [failure_event e]
          \<or> length opened = 2 \<and> raw_error E e
            \<and> (closing = [terminal_event (turn_resource E A s)]
               \<or> closing = [terminal_event (turn_resource E A s), failure_event e]))"
  by (rule turn_event_shape [OF t])

theorem turn_event_protocol_witness:
  "\<exists>opened mid closing. tn_sent sample_end = opened @ mid @ closing
    \<and> prefix opened [created_event (ta_response_id sample_args) (ta_estimated_input_tokens sample_args),
        in_progress_event (ta_response_id sample_args)]
    \<and> list_all is_round_event mid \<and> (mid = [] \<or> length opened = 2)
    \<and> (case Inr TurnCompleted :: app_error + turn_completion of
        Inr c \<Rightarrow> length opened = 2 \<and> c = completion_of sample_end
          \<and> closing = [terminal_event (turn_resource sample_engine sample_args sample_end)]
      | Inl e \<Rightarrow> closing = [] \<or> closing = [failure_event e]
          \<or> length opened = 2 \<and> raw_error sample_engine e
            \<and> (closing = [terminal_event (turn_resource sample_engine sample_args sample_end)]
               \<or> closing = [terminal_event (turn_resource sample_engine sample_args sample_end), failure_event e]))"
  by (rule turn_event_protocol [OF sample_turn_runs [unfolded sample_start_def]])

subsection \<open>Undisturbed turns\<close>

definition undisturbed :: "engine \<Rightarrow> bool" where
  "undisturbed E \<longleftrightarrow> eg_gone E = (\<lambda>_. False) \<and> eg_raw E = (\<lambda>_. None)"

lemma undisturbed_send: "undisturbed E \<Longrightarrow>
    send_event E ev s = (None, s\<lparr>tn_clock := Suc (tn_clock s), tn_sent := tn_sent s @ [ev]\<rparr>)"
  by (simp add: undisturbed_def send_event_def Let_def)

lemma undisturbed_poll: "undisturbed E \<Longrightarrow> poll E s = (None, s\<lparr>tn_clock := Suc (tn_clock s)\<rparr>)"
  by (simp add: undisturbed_def poll_def Let_def)

text \<open>
  C6: when the client stays and the raw mirror works, every turn ends with its terminal event,
  exactly one and the last: both opening events are sent, then events of the rounds, then the
  resource when the turn succeeds and the failure event of its error when it fails.
\<close>

theorem undisturbed_turn_terminates:
  assumes u: "undisturbed E"
    and t: "spawn_turn E A (start_turn n images store counts A messages) = (result, s)"
  shows "\<exists>mid. list_all is_round_event mid
    \<and> tn_sent s = [created_event (ta_response_id A) (ta_estimated_input_tokens A),
        in_progress_event (ta_response_id A)] @ mid
        @ [case result of Inr _ \<Rightarrow> terminal_event (turn_resource E A s) | Inl e \<Rightarrow> failure_event e]"
proof -
  let ?s0 = "start_turn n images store counts A messages"
  obtain s1 where r: "run_turn E A ?s0 = (result, s1)"
    and s: "s = (case result of Inr _ \<Rightarrow> s1
      | Inl e \<Rightarrow> snd (steps [poll E, send_event E (failure_event e)] s1))"
    using t by (auto simp: spawn_turn_def split: prod.splits)
  have s0: "tn_sent ?s0 = []" by (simp add: start_turn_def)
  have "fst (begin_turn E A ?s0) = None"
    by (simp add: begin_turn_def then_step_def undisturbed_send [OF u])
  then have first: "begin_turn E A ?s0 \<noteq> (Some e, s')" for e s' by auto
  have opened: "\<exists>mid. list_all is_round_event mid \<and> (case result of
        Inl _ \<Rightarrow> tn_sent s1 = opening_events A @ mid
      | Inr c \<Rightarrow> tn_sent s1 = opening_events A @ mid @ [terminal_event (turn_resource E A s1)])"
    using r
  proof (cases rule: run_turn_cases)
    case (opening_fails e)
    with first show ?thesis by blast
  next
    case (stop_rejected e)
    then show ?thesis using begin_turn_None [of E A ?s0 s1] s0 by auto
  next
    case (rounds_fail st e s2)
    then show ?thesis
      using begin_turn_None [of E A ?s0 s2] s0 run_rounds_sent [of E A st s2] by force
  next
    case (closing_fails st e s2 s3)
    then show ?thesis by (simp add: finish_turn_def then_step_def modify_def undisturbed_send [OF u])
  next
    case (completes st s2 s3)
    then show ?thesis
      using begin_turn_None [of E A ?s0 s2] s0 run_rounds_sent [of E A st s2]
        finish_turn_None [OF completes(4)] by force
  qed
  then show ?thesis using s
    by (cases result) (auto simp: opening_events_def then_step_def undisturbed_poll [OF u]
        undisturbed_send [OF u])
qed

theorem undisturbed_turn_terminates_witness:
  "\<exists>mid. list_all is_round_event mid
    \<and> tn_sent sample_end
      = [created_event (ta_response_id sample_args) (ta_estimated_input_tokens sample_args),
        in_progress_event (ta_response_id sample_args)] @ mid
        @ [case Inr TurnCompleted :: app_error + turn_completion of
             Inr _ \<Rightarrow> terminal_event (turn_resource sample_engine sample_args sample_end)
           | Inl e \<Rightarrow> failure_event e]"
  by (rule undisturbed_turn_terminates [OF _ sample_turn_runs [unfolded sample_start_def]])
    (simp add: sample_engine_def undisturbed_def)

text \<open>
  A raw mirror that fails on the terminal event makes the client see two terminal events: the
  completed response and the failure.
\<close>

lemma raw_failure_after_terminal:
  assumes "run_turn E A s0 = (Inl e, s)" and "begin_turn E A s0 = (None, s1)"
    and "normalize_stop (req_stop (ta_request A)) = Inr st" and "run_rounds E A st s1 = (None, s2)"
    and gone: "eg_gone E = (\<lambda>_. False)" and raw: "eg_raw E (tn_clock s2) = Some err"
  shows "tn_sent (snd (spawn_turn E A s0))
    = tn_sent s2 @ [terminal_event (turn_resource E A s2), failure_event e]"
proof -
  have f: "finish_turn E A s2 = (Some (internal_error (''failed to write raw output: '' @ err)),
      (store_record E A s2)\<lparr>tn_clock := Suc (tn_clock s2),
        tn_sent := tn_sent s2 @ [terminal_event (turn_resource E A s2)]\<rparr>)"
    using gone raw by (simp add: finish_turn_def then_step_def modify_def send_event_def Let_def)
  from assms(1-4) f have "tn_sent s = tn_sent s2 @ [terminal_event (turn_resource E A s2)]"
    by (auto simp: run_turn_def then_step_def with_value_def)
  with assms(1) gone show ?thesis
    by (simp add: spawn_turn_def then_step_def poll_def send_event_def Let_def split: option.split)
qed

end
