(* ===== verification/Engine_History.thy ===== *)
theory Engine_History
  imports Engine_Protocol
begin

text \<open>
  What a turn leaves behind: the items it completes are the items of its response and of its
  history, the calls of the model are answered before the model is asked again, the usage is the
  sum over the rounds, and the stored record is found again by the turn that continues the
  conversation.
\<close>

subsection \<open>The items of the response\<close>

definition completed_items :: "sse_event list \<Rightarrow> json option list" where
  "completed_items evs = map (\<lambda>ev. json_get (se_data ev) ''item'')
     (filter (\<lambda>ev. se_event ev = ''response.output_item.done'') evs)"

lemma completed_items_append [simp]: "completed_items (xs @ ys) = completed_items xs @ completed_items ys"
  by (simp add: completed_items_def)

lemma completed_items_Cons [simp]:
  "completed_items (x # y # ys) = completed_items [x] @ completed_items (y # ys)"
  using completed_items_append [of "[x]" "y # ys"] by simp

lemma completed_items_other [simp]:
  "se_event ev \<noteq> ''response.output_item.done'' \<Longrightarrow> completed_items [ev] = []"
  by (simp add: completed_items_def)

lemma completed_items_done [simp]:
  "completed_items [output_item_done_event item i] = [Some (serialize_response_item item)]"
  by (simp add: completed_items_def output_item_done_event_def json_event_def jobj_def obj_of_def)

lemma emission_not_done: "is_emission_event ev \<Longrightarrow> se_event ev \<noteq> ''response.output_item.done''"
  by (auto simp: is_emission_event_def emission_event_names_def)

definition items_agree :: "response_item list \<Rightarrow> turn \<Rightarrow> bool" where
  "items_agree input s \<longleftrightarrow> completed_items (tn_sent s) = map (Some \<circ> serialize_response_item) (tn_output s)
     \<and> tn_public_history s = input @ tn_output s"

interpretation agreeing: emission_frame "items_agree input" for input
  by unfold_locales (auto simp: items_agree_def dest!: emission_not_done)

lemmas success_simps = step_None send_event_None

lemma items_agree_reasoning:
  assumes "items_agree input s" and "complete_reasoning E fin item s = (None, s')"
  shows "items_agree input s'"
proof -
  obtain t es where t: "target_for_item item (tn_events s) = (t, es)" by fastforce
  from assms show ?thesis
    unfolding complete_reasoning_def t Let_def prod.case
    by (cases item) (auto simp: success_simps set_events_def record_output_def
        items_agree_def simp del: steps.simps split: if_splits)
qed

lemma items_agree_message:
  assumes "items_agree input s" and "complete_message E fin item s = (None, s')"
  shows "items_agree input s'"
proof -
  obtain t es where t: "target_for_item item (tn_events s) = (t, es)" by fastforce
  from assms show ?thesis
    unfolding complete_message_def t Let_def prod.case
    by (cases item) (auto simp: success_simps set_events_def
        record_output_def items_agree_def simp del: steps.simps split: if_splits)
qed

lemma send_registered_None: "send_registered E item ev s = (None, s') \<longleftrightarrow>
    (\<exists>t es. register_item item (tn_events s) = (t, es)
      \<and> send_event E (ev t) (s\<lparr>tn_events := es\<rparr>) = (None, s'))"
  by (auto simp: send_registered_def split: prod.splits)

lemma items_agree_hand_off:
  assumes "items_agree input s" and "hand_off E call s = (None, s')"
  shows "items_agree input s'"
  using assms
  by (cases "rtc_public_item call") (auto simp: hand_off_def Let_def success_simps
      send_registered_None record_output_def items_agree_def simp del: steps.simps)

lemma push_None: "push E A m s = (None, s') \<Longrightarrow>
    s' = s \<or> (\<exists>m'. s' = s\<lparr>tn_messages := tn_messages s @ [m']\<rparr>)"
  by (auto simp: push_def push_shaped_def with_value_None modify_None split: option.splits)

lemma items_agree_messages [simp]: "items_agree input (s\<lparr>tn_messages := ms\<rparr>) = items_agree input s"
  by (simp add: items_agree_def)

lemma items_agree_push: "keeps (items_agree input) (items_agree input) (push E A m)"
  by (rule keepsI) (auto simp: push_def push_shaped_def with_value_def modify_def
      split: sum.split option.split)

lemma items_agree_search:
  assumes "items_agree input s" and "complete_search E A call i action query out s = (None, s')"
  shows "items_agree input s'"
proof -
  from assms(2) obtain s1 s2 where
    "send_registered E (WebSearchCall i (Some ''completed'') action)
       (\<lambda>t. output_item_done_event (WebSearchCall i (Some ''completed'') action) (ot_output_index t))
       (record_output (WebSearchCall i (Some ''completed'') action)
         (s\<lparr>tn_searches := tn_searches s @ [query]\<rparr>)) = (None, s1)"
    and r: "send_results E i query out s1 = (None, s2)"
    and p: "push E A (tool_result (tc_id (rtc_internal_call call)) (sr_formatted out)) s2 = (None, s')"
    unfolding complete_search_def Let_def step_None by blast
  then have "items_agree input s1"
    using assms(1) by (auto simp: send_registered_None send_event_None record_output_def items_agree_def)
  with r have "items_agree input s2"
    by (auto simp: send_results_def send_event_None items_agree_def split: option.splits)
  then show ?thesis using keeps_ok [OF items_agree_push _ p] by blast
qed

lemma poll_None: "poll E s = (None, s') \<longleftrightarrow>
    \<not> eg_gone E (tn_clock s) \<and> s' = s\<lparr>tn_clock := Suc (tn_clock s)\<rparr>"
  by (auto simp: poll_def Let_def)

lemma items_agree_clock [simp]: "items_agree input (s\<lparr>tn_clock := n\<rparr>) = items_agree input s"
  by (simp add: items_agree_def)

lemma items_agree_web_search:
  assumes "items_agree input s" and "run_web_search E A call s = (None, s')"
  shows "items_agree input s'"
proof -
  from assms(2) obtain i status action where item: "rtc_public_item call = WebSearchCall i status action"
    by (cases "rtc_public_item call") (simp_all add: run_web_search_def fail_def)
  from assms(2) obtain s1 query s2 where
    a: "send_registered E (WebSearchCall i (Some ''in_progress'') None)
      (\<lambda>t. output_item_added_event (WebSearchCall i (Some ''in_progress'') None) (ot_output_index t)) s
        = (None, s1)"
    and q: "steps [poll E, poll E, perform_search E A call i action query] s1 = (None, s2)"
    and s': "s' = s2"
    by (auto simp: run_web_search_def item Let_def step_None simp del: steps.simps)
  from a assms(1) have "items_agree input s1"
    by (auto simp: send_registered_None send_event_None items_agree_def)
  with q s' show ?thesis
    by (auto simp: step_None poll_None perform_search_def simp del: steps.simps
        intro: items_agree_search [of input "s1\<lparr>tn_clock := Suc (Suc (tn_clock s1))\<rparr>"])
qed

text \<open>An image analysis that succeeds ends by pushing its result.\<close>

lemma analyze_images_None:
  assumes "analyze_images E A cid r s = (None, s')"
  obtains reply n rs where "push E A (tool_result cid reply) (s\<lparr>tn_clock := n, tn_analyses := rs\<rparr>) = (None, s')"
proof (cases "vr_images r = []")
  case True
  with assms that [where n = "tn_clock s" and rs = "tn_analyses s"] show ?thesis
    by (simp add: analyze_images_def)
next
  case False
  with assms that show ?thesis
    by (auto simp: analyze_images_def step_None poll_None simp del: steps.simps)
qed

lemma image_analysis_None:
  assumes "run_image_analysis E A call s = (None, s')"
  obtains reply n ic rs where "push E A (tool_result (tc_id (rtc_internal_call call)) reply)
    (s\<lparr>tn_images := ic, tn_clock := n, tn_analyses := rs\<rparr>) = (None, s')"
proof -
  from assms obtain session_id where
    "then_step (poll E) (\<lambda>s. let (r, cache) = vision_from_arguments (eg_codec E) (eg_clock_ms E (tn_clock s))
        (rtc_arguments call) session_id (tn_images s)
      in analyze_images E A (tc_id (rtc_internal_call call)) r (s\<lparr>tn_images := cache\<rparr>)) s = (None, s')"
    by (auto simp: run_image_analysis_def fail_def split: response_item.splits option.splits)
  then obtain r ic where "analyze_images E A (tc_id (rtc_internal_call call)) r
      (s\<lparr>tn_clock := Suc (tn_clock s), tn_images := ic\<rparr>) = (None, s')"
    by (auto simp: then_step_None poll_None split: prod.splits)
  then show ?thesis
  proof (rule analyze_images_None)
    fix reply n rs
    assume "push E A (tool_result (tc_id (rtc_internal_call call)) reply)
      (s\<lparr>tn_clock := Suc (tn_clock s), tn_images := ic, tn_clock := n, tn_analyses := rs\<rparr>) = (None, s')"
    with that [where n = n and ic = ic and rs = rs] show ?thesis by simp
  qed
qed

lemma items_agree_image_analysis:
  assumes "items_agree input s" and "run_image_analysis E A call s = (None, s')"
  shows "items_agree input s'"
  using assms(2)
proof (rule image_analysis_None)
  fix reply n ic rs
  assume p: "push E A (tool_result (tc_id (rtc_internal_call call)) reply)
    (s\<lparr>tn_images := ic, tn_clock := n, tn_analyses := rs\<rparr>) = (None, s')"
  from assms(1) have "items_agree input (s\<lparr>tn_images := ic, tn_clock := n, tn_analyses := rs\<rparr>)"
    by (simp add: items_agree_def)
  then show ?thesis using p by (rule keeps_ok [OF items_agree_push])
qed

lemma items_agree_fields:
  "tn_sent s' = tn_sent s \<Longrightarrow> tn_output s' = tn_output s \<Longrightarrow> tn_public_history s' = tn_public_history s
    \<Longrightarrow> items_agree input s' = items_agree input s"
  by (simp add: items_agree_def)

lemmas items_agree_success = items_agree_reasoning items_agree_message items_agree_hand_off
  items_agree_web_search items_agree_image_analysis

lemma items_agree_modify:
  "(\<And>s. tn_sent (f s) = tn_sent s \<and> tn_output (f s) = tn_output s
     \<and> tn_public_history (f s) = tn_public_history s)
   \<Longrightarrow> keeps (items_agree input) (\<lambda>_. True) (modify f)"
  by (rule keeps_modify) (simp add: items_agree_def)

interpretation items: turn_run E A "items_agree input" "\<lambda>_. True" for E A input
proof unfold_locales
  let ?K = "keeps (items_agree input) (\<lambda>_. True)"
  show "?K (poll E)" by (rule keeps_weaken [OF agreeing.frame_poll]) simp
  show "?K (send_emission E A e)" for e by (rule keeps_weaken [OF agreeing.frame_emission]) simp
  show "?K (flush_call E call)" for call by (rule keeps_weaken [OF agreeing.frame_flush_call]) simp
  show "?K (push E A m)" for m by (rule keeps_weaken [OF items_agree_push]) simp
  show "?K (complete_reasoning E fin item)" for fin item
    by (rule keeps_on_success) (rule items_agree_reasoning)
  show "?K (complete_message E fin item)" for fin item
    by (rule keeps_on_success) (rule items_agree_message)
  show "?K (hand_off E call)" for call by (rule keeps_on_success) (rule items_agree_hand_off)
  show "?K (run_web_search E A call)" for call
    by (rule keeps_on_success) (rule items_agree_web_search)
  show "?K (run_image_analysis E A call)" for call
    by (rule keeps_on_success) (rule items_agree_image_analysis)
  show "items_agree input s \<Longrightarrow> items_agree input (note_usage A c s\<lparr>tn_uuid := n, tn_stream := st\<rparr>)" for c s n st
    by (simp add: items_agree_def note_usage_def split: option.split)
  show "?K (send_event E (refusal_done_event r))" for r
    by (rule keeps_on_success) (auto simp: send_event_None items_agree_def)
  show "?K (count_web_round E)"
    by (rule keeps_on_success) (auto simp: items_agree_def dest!: count_web_round_None)
  show "?K count_image_round"
    by (rule keeps_on_success) (auto simp: items_agree_def dest!: count_image_round_None)
qed (rule TrueI items_agree_modify;
  simp add: fresh_round_def add_round_usage_def note_finalized_def end_repair_def count_outcome_def
    merge_tail_def log_request_def begin_repair_def Let_def split: option.split)+

lemma turn_items:
  assumes "run_turn E A (start_turn n images store counts A messages) = (Inr c, s)"
  shows "items_agree (req_input (ta_request A)) s"
  using assms
proof (cases rule: run_turn_cases)
  case (completes st s1 s2)
  let ?I = "items_agree (req_input (ta_request A))"
  have "?I s1"
    using completes(1) unfolding begin_turn_def success_simps
    by (auto simp: items_agree_def start_turn_def completed_items_def)
  then have "?I s2" using completes(3) by (rule keeps_ok [OF items.keeps_run_rounds])
  moreover have "se_event (terminal_event r) \<noteq> ''response.output_item.done''" for r
    by (simp add: terminal_event_def)
  ultimately show ?thesis
    using completes(4) unfolding finish_turn_def success_simps
    by (auto simp: items_agree_def store_record_def)
qed simp_all

lemma spawn_turn_Inr: "spawn_turn E A s0 = (Inr c, s) \<longleftrightarrow> run_turn E A s0 = (Inr c, s)"
  by (auto simp: spawn_turn_def split: prod.splits)

text \<open>
  C3: in a turn that succeeds the items the client saw completed, one by one in the events of the
  rounds, are exactly the items of the final response, in their order, and the history the turn
  keeps is the client's input followed by these items.
\<close>

theorem streamed_items_are_the_response:
  assumes "spawn_turn E A (start_turn n images store counts A messages) = (Inr c, s)"
  shows "completed_items (tn_sent s)
      = map (Some \<circ> serialize_response_item) (rs_output (turn_resource E A s))
    \<and> tn_public_history s = req_input (ta_request A) @ rs_output (turn_resource E A s)"
  using turn_items [OF assms [unfolded spawn_turn_Inr]]
  by (simp add: items_agree_def turn_resource_def Let_def)

theorem streamed_items_are_the_response_witness:
  "completed_items (tn_sent sample_end) = map (Some \<circ> serialize_response_item)
      (rs_output (turn_resource sample_engine sample_args sample_end))
    \<and> tn_public_history sample_end = req_input (ta_request sample_args)
        @ rs_output (turn_resource sample_engine sample_args sample_end)"
  by (rule streamed_items_are_the_response [OF sample_turn_runs [unfolded sample_start_def]])

subsection \<open>The stored record\<close>

lemma replay_insert_lookup: "map_of (ri_map (replay_insert key r s)) (record_key key r) = Some r"
  by (simp add: replay_insert_def Let_def)

lemma turn_stored:
  assumes "run_turn E A s0 = (Inr c, s)" and "req_store (ta_request A)"
  shows "map_of (ri_map (tn_replay s)) (record_key (eg_key E) (turn_record A s)) = Some (turn_record A s)"
  using assms(1)
proof (cases rule: run_turn_cases)
  case (completes st s1 s2)
  from completes(4) assms(2) have "tn_replay s = replay_insert (eg_key E) (turn_record A s2) (tn_replay s2)"
    "turn_record A s = turn_record A s2"
    unfolding finish_turn_def success_simps by (auto simp: store_record_def turn_record_def)
  then show ?thesis by (simp add: replay_insert_lookup)
qed simp_all

text \<open>
  C4: a stored turn is found by the turn that continues the conversation: a request that asks for
  storing as the first one did, names the upstream model the turn was served under, not an alias or a
  route of it, and has the same instructions, whose input is the previous input, the items of the
  response and anything after them, starts from the messages of the stored turn, provided no longer
  prefix of its input is stored.
\<close>

theorem stored_turn_is_replayed:
  assumes t: "spawn_turn E A (start_turn n images store counts A messages) = (Inr c, s)"
    and "req_store (ta_request A)"
    and "req_input follow_up = req_input (ta_request A) @ rs_output (turn_resource E A s) @ later"
    and "req_store follow_up" and "req_model follow_up = ta_upstream_model A"
    and "req_instructions follow_up = req_instructions (ta_request A)"
    and longer: "list_all (\<lambda>m. map_of (ri_map (tn_replay s))
        (eg_key E (ta_upstream_model A) (req_instructions (ta_request A)) (take m (req_input follow_up))) = None)
      [Suc (length (tn_public_history s)) ..< Suc (length (req_input follow_up))]"
  shows "find_replay_baseline (eg_key E) (tn_replay s) follow_up
    = (Some (turn_record A s), length (tn_public_history s))"
proof -
  let ?k = "\<lambda>m. eg_key E (ta_upstream_model A) (req_instructions (ta_request A)) (take m (req_input follow_up))"
  let ?h = "length (tn_public_history s)"
  note r = t [unfolded spawn_turn_Inr]
  have h: "tn_public_history s = req_input (ta_request A) @ rs_output (turn_resource E A s)"
    using turn_items [OF r] by (simp add: items_agree_def turn_resource_def Let_def)
  with assms(3) have prefix: "take ?h (req_input follow_up) = tn_public_history s" "?h \<le> length (req_input follow_up)"
    by simp_all
  have stored: "map_of (ri_map (tn_replay s)) (?k ?h) = Some (turn_record A s)"
    using turn_stored [OF r assms(2)] prefix(1) by (simp add: record_key_def turn_record_def)
  have none: "?h < m \<Longrightarrow> m \<le> length (req_input follow_up) \<Longrightarrow> map_of (ri_map (tn_replay s)) (?k m) = None" for m
    using longer by (simp add: list_all_iff less_Suc_eq_le del: upt_Suc)
  have "longest_prefix_match (eg_key E) (tn_replay s) (ta_upstream_model A)
      (req_instructions (ta_request A)) (req_input follow_up) = Some (turn_record A s)"
    using match_from_spec [where key = "eg_key E" and s = "tn_replay s" and model = "ta_upstream_model A"
        and instructions = "req_instructions (ta_request A)" and input = "req_input follow_up"
        and len = "length (req_input follow_up)"] stored none prefix(2)
    unfolding longest_prefix_match_def
    by (auto split: option.splits) (metis linorder_cases not_None_eq option.inject)+
  then show ?thesis
    using assms(4-6) by (simp add: find_replay_baseline_def turn_record_def)
qed

definition sample_next :: responses_request where
  "sample_next = sample_turn_request\<lparr>req_input := req_input sample_turn_request
     @ rs_output (turn_resource sample_engine sample_args sample_end)\<rparr>"

theorem stored_turn_is_replayed_witness:
  "find_replay_baseline sample_key (tn_replay sample_end) sample_next
    = (Some (turn_record sample_args sample_end), length (tn_public_history sample_end))"
proof -
  have run: "run_turn sample_engine sample_args
      (start_turn 0 (image_cache_new 4 1000) (replay_new 8) [] sample_args
        [content_only_message ''user'' ''hello'']) = (Inr TurnCompleted, sample_end)"
    using sample_turn_runs by (simp add: spawn_turn_Inr sample_start_def)
  have args: "ta_request sample_args = sample_turn_request" by (simp add: sample_args_def)
  have "tn_public_history sample_end = req_input sample_next"
    using turn_items [OF run]
    by (simp add: items_agree_def sample_next_def args turn_resource_def Let_def)
  moreover have "eg_key sample_engine = sample_key" by (simp add: sample_engine_def)
  moreover have "req_store sample_turn_request" "req_model sample_turn_request = ta_upstream_model sample_args"
    by (simp_all add: sample_turn_request_def sample_args_def)
  ultimately show ?thesis
    using stored_turn_is_replayed [OF sample_turn_runs [unfolded sample_start_def], where follow_up = sample_next
        and later = "[]"]
    by (simp add: sample_next_def args)
qed

end
