(* ===== verification/Engine_Rounds.thy ===== *)
theory Engine_Rounds
  imports Engine_History
begin

text \<open>
  What the rounds of a turn add up to: the usage of the response, and the calls of the model, each
  of which has its answer before the model is asked again.
\<close>

subsection \<open>Usage\<close>

text \<open>The usage of a round is the last one its stream reports.\<close>

definition round_usage :: "(app_error + chat_completion_chunk) list \<Rightarrow> chunk_usage option \<Rightarrow> chunk_usage option" where
  "round_usage items u = fold (\<lambda>item u. case item of
     Inr c \<Rightarrow> (case chunk_usage_of c of Some v \<Rightarrow> Some v | None \<Rightarrow> u) | Inl _ \<Rightarrow> u) items u"

definition add_reported :: "chunk_usage option \<Rightarrow> accumulated_usage \<Rightarrow> accumulated_usage" where
  "add_reported u a = (case u of Some v \<Rightarrow> usage_add v a | None \<Rightarrow> a)"

definition add_reply :: "engine \<Rightarrow> nat \<times> backend_request \<Rightarrow> accumulated_usage \<Rightarrow> accumulated_usage" where
  "add_reply E = (\<lambda>(k, r) a. case eg_upstream E k r of
     Inr items \<Rightarrow> add_reported (round_usage items None) a | Inl _ \<Rightarrow> a)"

interpretation metered: decide_frame "\<lambda>s. tn_usage s = u \<and> tn_requests s = rs" for u rs
  by unfold_locales (auto simp: record_output_def)

interpretation streaming: emission_frame
    "\<lambda>s. tn_chunk_usage s = c \<and> tn_usage s = u \<and> tn_requests s = rs" for c u rs
  by unfold_locales auto

definition same_meter :: "turn \<Rightarrow> turn \<Rightarrow> bool" where
  "same_meter s s' \<longleftrightarrow> tn_usage s' = tn_usage s \<and> tn_requests s' = tn_requests s"

lemma receive_chunk_usage:
  assumes "receive_chunk E A c s = (None, s')"
  shows "tn_chunk_usage s' = round_usage [Inr c] (tn_chunk_usage s) \<and> same_meter s s'"
proof -
  obtain n st ems where a: "apply_chunk (eg_codec E) (eg_uuid E) c
      (tn_uuid (note_usage A c s), tn_stream (note_usage A c s)) = ((n, st), ems)"
    by (metis surj_pair)
  let ?t = "note_usage A c s\<lparr>tn_uuid := n, tn_stream := st\<rparr>"
  let ?P = "\<lambda>s'. tn_chunk_usage s' = tn_chunk_usage ?t \<and> tn_usage s' = tn_usage ?t \<and> tn_requests s' = tn_requests ?t"
  from assms a have "steps (map (send_emission E A) ems) ?t = (None, s')"
    by (simp add: receive_chunk_def Let_def)
  moreover have "keeps ?P ?P (steps (map (send_emission E A) ems))"
    by (rule keeps_steps_map) (rule streaming.frame_emission)
  ultimately have "?P s'" using keeps_ok by blast
  then show ?thesis
    by (auto simp: note_usage_def round_usage_def same_meter_def split: option.split)
qed

lemma receive_usage:
  "receive E A items s = (None, s') \<Longrightarrow>
     tn_chunk_usage s' = round_usage items (tn_chunk_usage s) \<and> same_meter s s'"
proof (induction items arbitrary: s)
  case Nil
  then show ?case by (auto simp: poll_None round_usage_def same_meter_def)
next
  case (Cons item items)
  show ?case
  proof (cases item)
    case (Inl e)
    with Cons.prems show ?thesis by (simp add: then_step_None fail_def)
  next
    case (Inr c)
    with Cons.prems obtain s1 where
      r: "receive_chunk E A c (s\<lparr>tn_clock := Suc (tn_clock s)\<rparr>) = (None, s1)"
        "receive E A items s1 = (None, s')"
      by (auto simp: then_step_None poll_None)
    from Cons.IH [OF r(2)] receive_chunk_usage [OF r(1)] Inr show ?thesis
      by (simp add: round_usage_def same_meter_def)
  qed
qed

lemma open_round_usage:
  assumes "open_round E A st s = (None, s')"
  shows "\<exists>r items. eg_upstream E (length (tn_requests s)) r = Inr items
    \<and> tn_requests s' = tn_requests s @ [r]
    \<and> tn_usage s' = add_reported (round_usage items None) (tn_usage s)"
proof -
  from assms obtain s1 where a: "ask_upstream E A s = (None, s1)"
    and h: "hear_upstream E A (log_request A st s1) = (None, s')"
    unfolding open_round_parts by (auto simp: step_None)
  have k: "tn_requests s1 = tn_requests s" "tn_usage s1 = tn_usage s"
    using a by (auto simp: ask_upstream_def step_None poll_None merge_tail_def Let_def)
  from h obtain items s2 where
    u: "upstream_reply E (log_request A st s1\<lparr>tn_clock := Suc (tn_clock s1)\<rparr>) = Inr items"
    and r: "receive E A items (fresh_round (log_request A st s1\<lparr>tn_clock := Suc (tn_clock s1)\<rparr>)) = (None, s2)"
    and s': "s' = add_round_usage s2"
    unfolding hear_upstream_def step_None poll_None by (auto simp: log_request_def)
  from u k have "eg_upstream E (length (tn_requests s)) (round_request A st s1) = Inr items"
    by (simp add: upstream_reply_def log_request_def)
  moreover from receive_usage [OF r] s' k
  have "tn_requests s' = tn_requests s @ [round_request A st s1]"
    and "tn_usage s' = add_reported (round_usage items None) (tn_usage s)"
    by (auto simp: same_meter_def fresh_round_def log_request_def add_round_usage_def
        add_reported_def split: option.split)
  ultimately show ?thesis by blast
qed

lemma run_round_usage:
  assumes "run_round E A st s = (Inr q, s')"
  shows "\<exists>r. tn_requests s' = tn_requests s @ [r]
    \<and> tn_usage s' = add_reply E (length (tn_requests s), r) (tn_usage s)"
proof -
  from assms obtain s1 fin s2 where o: "open_round E A st s = (None, s1)"
    and c: "close_round E A fin s1 = (None, s2)" and d: "decide E A fin s2 = (Inr q, s')"
    by (rule run_round_Inr)
  have "tn_usage s2 = tn_usage s1 \<and> tn_requests s2 = tn_requests s1"
    using keeps_ok [OF metered.closing.keeps_close_round _ c] by blast
  moreover have "tn_usage s' = tn_usage s2 \<and> tn_requests s' = tn_requests s2"
    using metered.deciding.ends_decide [of s2 "tn_usage s2" "tn_requests s2" E A fin] d
    by (simp add: ends_round_same)
  ultimately show ?thesis using open_round_usage [OF o] by (auto simp: add_reply_def)
qed

lemma run_rounds_usage:
  "run_rounds E A st s = (None, s') \<Longrightarrow> \<exists>rs. tn_requests s' = tn_requests s @ rs
     \<and> tn_usage s' = fold (add_reply E) (enumerate (length (tn_requests s)) rs) (tn_usage s)"
proof (induction s rule: measure_induct_rule [where f = round_budget])
  case (less s)
  obtain r s1 where r: "run_round E A st s = (r, s1)" by fastforce
  then obtain q where q: "r = Inr q"
    using less.prems by (cases r) (simp_all add: run_rounds.simps)
  obtain req where one: "tn_requests s1 = tn_requests s @ [req]"
    "tn_usage s1 = add_reply E (length (tn_requests s), req) (tn_usage s)"
    using run_round_usage r q by blast
  show ?case
  proof (cases q)
    case Finished
    with less.prems r q one show ?thesis
      by (intro exI [of _ "[req]"]) (simp add: run_rounds.simps)
  next
    case Again
    with r q have a: "run_round E A st s = (Inr Again, s1)" by simp
    with less.prems have "run_rounds E A st s1 = (None, s')" by (simp add: run_rounds.simps [of E A st s])
    from less.IH [OF run_round_budget [OF a] this] obtain rs where
      "tn_requests s' = tn_requests s1 @ rs"
      "tn_usage s' = fold (add_reply E) (enumerate (length (tn_requests s1)) rs) (tn_usage s1)" by blast
    with one show ?thesis by (intro exI [of _ "req # rs"]) simp
  qed
qed

subsubsection \<open>The reference\<close>

text \<open>What the streams of a turn report: of each stream the last usage, if it has one.\<close>

definition reports :: "(app_error + chat_completion_chunk) list \<Rightarrow> chunk_usage list" where
  "reports items = List.map_filter (\<lambda>item. case item of Inr c \<Rightarrow> chunk_usage_of c | Inl _ \<Rightarrow> None) items"

definition last_report :: "engine \<Rightarrow> nat \<times> backend_request \<Rightarrow> chunk_usage option" where
  "last_report E = (\<lambda>(k, r). case eg_upstream E k r of
     Inr items \<Rightarrow> if reports items = [] then None else Some (last (reports items)) | Inl _ \<Rightarrow> None)"

definition turn_reports :: "engine \<Rightarrow> backend_request list \<Rightarrow> chunk_usage list" where
  "turn_reports E rs = List.map_filter (last_report E) (enumerate 0 rs)"

text \<open>The cached and the reasoning tokens of a report, none counting as 0.\<close>

definition cached_tokens :: "chunk_usage \<Rightarrow> int" where
  "cached_tokens u = (case cu_prompt_tokens_details u of Some d \<Rightarrow> ptd_cached_tokens d | None \<Rightarrow> 0)"

definition reasoning_tokens :: "chunk_usage \<Rightarrow> int" where
  "reasoning_tokens u = (case cu_completion_tokens_details u of
     Some d \<Rightarrow> ctd_reasoning_tokens d
   | None \<Rightarrow> (case cu_reasoning_tokens u of Some n \<Rightarrow> n | None \<Rightarrow> 0))"

definition total_of :: "(chunk_usage \<Rightarrow> int) \<Rightarrow> chunk_usage list \<Rightarrow> int" where
  "total_of f us = wrap_i64 (\<Sum>u \<leftarrow> us. f u)"

lemma total_of_simps [simp]: "total_of f [] = 0" "wrap_i64 (total_of f us + f u) = total_of f (us @ [u])"
  by (simp_all add: total_of_def)

lemma reports_simps [simp]:
  "reports [] = []"
  "reports (Inl e # items) = reports items"
  "reports (Inr c # items) = (case chunk_usage_of c of Some u \<Rightarrow> u # reports items | None \<Rightarrow> reports items)"
  by (simp_all add: reports_def map_filter_simps split: option.split)

lemma round_usage_reports:
  "round_usage items u = (if reports items = [] then u else Some (last (reports items)))"
proof (induction items arbitrary: u)
  case (Cons item items)
  then show ?case by (cases item) (auto simp: round_usage_def split: option.split)
qed (simp add: round_usage_def)

lemma add_reply_report: "add_reply E kr a = add_reported (last_report E kr) a"
  by (simp add: add_reply_def last_report_def add_reported_def round_usage_reports
      split: prod.split sum.split)

lemma fold_add_reply:
  "fold (add_reply E) krs a = fold usage_add (List.map_filter (last_report E) krs) a"
  by (induction krs arbitrary: a)
    (simp_all add: add_reply_report add_reported_def map_filter_simps split: option.split)

definition or_zero :: "int option \<Rightarrow> int" where
  "or_zero slot = (case slot of Some n \<Rightarrow> n | None \<Rightarrow> 0)"

lemma or_zero_accumulated:
  assumes "or_zero slot = total_of f us" and "or_zero reported = f u"
  shows "or_zero (accumulate_optional slot reported) = total_of f (us @ [u])"
proof (cases reported)
  case None
  with assms show ?thesis by (simp add: or_zero_def accumulate_optional_def total_of_def)
next
  case (Some n)
  with assms have "or_zero (accumulate_optional slot reported) = wrap_i64 (total_of f us + f u)"
    by (simp add: or_zero_def accumulate_optional_def)
  then show ?thesis by simp
qed

lemma or_zero_reported:
  "or_zero (chunk_cached u) = cached_tokens u" "or_zero (chunk_reasoning u) = reasoning_tokens u"
  by (simp_all add: or_zero_def chunk_cached_def chunk_reasoning_def cached_tokens_def
      reasoning_tokens_def split: option.split)

text \<open>Every field of the accumulated usage is the wrapped sum of what the reports say of it.\<close>

lemma fold_usage_add:
  "au_input_tokens (fold usage_add us usage_default) = total_of cu_prompt_tokens us
   \<and> au_output_tokens (fold usage_add us usage_default) = total_of cu_completion_tokens us
   \<and> au_total_tokens (fold usage_add us usage_default) = total_of cu_total_tokens us
   \<and> or_zero (au_cached_input_tokens (fold usage_add us usage_default)) = total_of cached_tokens us
   \<and> or_zero (au_reasoning_output_tokens (fold usage_add us usage_default)) = total_of reasoning_tokens us"
proof (induction us rule: rev_induct)
  case Nil
  then show ?case by (simp add: usage_default_def or_zero_def)
next
  case (snoc u us)
  then show ?case by (simp add: usage_add_def or_zero_accumulated or_zero_reported)
qed

lemma turn_usage:
  assumes "spawn_turn E A (start_turn n images store counts A messages) = (Inr c, s)"
  shows "tn_usage s = fold usage_add (turn_reports E (tn_requests s)) usage_default"
  using assms [unfolded spawn_turn_Inr]
proof (cases rule: run_turn_cases)
  case (completes st s1 s2)
  from completes(1) have "tn_requests s1 = []" "tn_usage s1 = usage_default"
    unfolding begin_turn_def success_simps by (auto simp: start_turn_def)
  with run_rounds_usage [OF completes(3)]
  have "tn_usage s2 = fold usage_add (turn_reports E (tn_requests s2)) usage_default"
    by (auto simp: turn_reports_def fold_add_reply)
  moreover from completes(4) have "tn_requests s = tn_requests s2" "tn_usage s = tn_usage s2"
    unfolding finish_turn_def success_simps by (auto simp: store_record_def)
  ultimately show ?thesis by simp
qed simp_all

text \<open>
  C8: every field of the usage of a response, that is the prompt, completion, total, cached and
  reasoning tokens, is the sum over the upstream requests of the turn, in 64-bit arithmetic that
  wraps, of what the last usage of each of their streams reports for it, however many rounds the turn
  took; a stream without usage, like a report without a breakdown, adds nothing, the reasoning tokens
  of the breakdown go before the top-level ones, and the response has no usage exactly when the total
  is 0.
\<close>

theorem response_usage_is_sum_of_rounds:
  assumes "spawn_turn E A (start_turn n images store counts A messages) = (Inr c, s)"
  shows "rs_usage (turn_resource E A s) = (let us = turn_reports E (tn_requests s) in
    if wrap_i64 (\<Sum>u \<leftarrow> us. cu_total_tokens u) = 0 then None
    else Some \<lparr>ru_input_tokens = wrap_i64 (\<Sum>u \<leftarrow> us. cu_prompt_tokens u),
      ru_output_tokens = wrap_i64 (\<Sum>u \<leftarrow> us. cu_completion_tokens u),
      ru_total_tokens = wrap_i64 (\<Sum>u \<leftarrow> us. cu_total_tokens u),
      ru_cached_tokens = Some (wrap_i64 (\<Sum>u \<leftarrow> us. cached_tokens u)),
      ru_reasoning_tokens = Some (wrap_i64 (\<Sum>u \<leftarrow> us. reasoning_tokens u))\<rparr>)"
  using fold_usage_add [of "turn_reports E (tn_requests s)"]
  by (simp add: turn_resource_def Let_def turn_usage [OF assms] into_response_usage_def or_zero_def total_of_def)

theorem response_usage_is_sum_of_rounds_witness:
  "rs_usage (turn_resource sample_engine sample_args sample_end)
    = (let us = turn_reports sample_engine (tn_requests sample_end) in
    if wrap_i64 (\<Sum>u \<leftarrow> us. cu_total_tokens u) = 0 then None
    else Some \<lparr>ru_input_tokens = wrap_i64 (\<Sum>u \<leftarrow> us. cu_prompt_tokens u),
      ru_output_tokens = wrap_i64 (\<Sum>u \<leftarrow> us. cu_completion_tokens u),
      ru_total_tokens = wrap_i64 (\<Sum>u \<leftarrow> us. cu_total_tokens u),
      ru_cached_tokens = Some (wrap_i64 (\<Sum>u \<leftarrow> us. cached_tokens u)),
      ru_reasoning_tokens = Some (wrap_i64 (\<Sum>u \<leftarrow> us. reasoning_tokens u))\<rparr>)"
  by (rule response_usage_is_sum_of_rounds [OF sample_turn_runs [unfolded sample_start_def]])

subsection \<open>Answered calls\<close>

text \<open>The ids of the calls of a message, and the call it answers.\<close>

definition call_ids :: "chat_message \<Rightarrow> string set" where
  "call_ids m = (case cm_tool_calls m of
     Some calls \<Rightarrow> set (List.map_filter tc_id calls) | None \<Rightarrow> {})"

definition answered_ids :: "chat_message \<Rightarrow> string set" where
  "answered_ids m = (if cm_role m = ''tool''
     then (case cm_tool_call_id m of Some i \<Rightarrow> {i} | None \<Rightarrow> {}) else {})"

definition open_calls :: "string set \<Rightarrow> chat_message list \<Rightarrow> string set" where
  "open_calls ids messages = fold (\<lambda>m ids. (ids \<union> call_ids m) - answered_ids m) messages ids"

text \<open>The calls of a conversation that no later tool message answers.\<close>

definition unanswered :: "chat_message list \<Rightarrow> string set" where
  "unanswered messages = open_calls {} messages"

lemma open_calls_append: "open_calls ids (xs @ ys) = open_calls (open_calls ids xs) ys"
  by (simp add: open_calls_def)

lemma unanswered_append: "unanswered (xs @ ys) = open_calls (unanswered xs) ys"
  by (simp add: unanswered_def open_calls_append)

lemma open_calls_answers:
  "list_all (\<lambda>m. call_ids m = {}) ms \<Longrightarrow> open_calls ids ms = ids - (\<Union>m \<in> set ms. answered_ids m)"
  by (induction ms arbitrary: ids) (auto simp: open_calls_def)

lemma open_calls_Cons: "open_calls ids (m # ms) = open_calls ((ids \<union> call_ids m) - answered_ids m) ms"
  by (simp add: open_calls_def)

lemma open_calls_mono: "ids \<subseteq> ids' \<Longrightarrow> open_calls ids ms \<subseteq> open_calls ids' ms"
proof (induction ms arbitrary: ids ids')
  case (Cons m ms)
  from Cons.prems have "(ids \<union> call_ids m) - answered_ids m \<subseteq> (ids' \<union> call_ids m) - answered_ids m" by blast
  from Cons.IH [OF this] show ?case by (simp add: open_calls_Cons)
qed (simp add: open_calls_def)

subsubsection \<open>Role policies\<close>

text \<open>
  A role policy that leaves tool messages where they are: the rule for a \<^verbatim>\<open>tool\<close> message that is
  not the first of the conversation accepts or rejects it, and tool messages are not merged (which
  the validation of a profile forbids).
\<close>

definition tools_kept :: "roles_config option \<Rightarrow> bool" where
  "tools_kept roles = (case roles of None \<Rightarrow> True | Some rc \<Rightarrow>
     ''tool'' \<notin> set (rc_merge_adjacent rc)
     \<and> (case Option.bind (rules_for rc ''tool'') (find (rule_applies 1)) of
          None \<Rightarrow> True | Some rule \<Rightarrow> rl_action rule = ActAccept \<or> rl_action rule = ActReject))"

lemma wrap_role_tag_ids [simp]:
  "answered_ids (wrap_role_tag J m t a) = answered_ids m" "call_ids (wrap_role_tag J m t a) = call_ids m"
  by (simp_all add: wrap_role_tag_def answered_ids_def call_ids_def split: option.split)

lemma apply_role_action_calls:
  "apply_role_action J rule m = Inr (Some m') \<Longrightarrow> call_ids m' = call_ids m"
  by (auto simp: apply_role_action_def Let_def call_ids_def split: role_action.splits option.splits)

lemma shaped_calls: "shape_tail_message J m roles = Inr (Some m') \<Longrightarrow> call_ids m' = call_ids m"
  by (auto simp: shape_tail_message_def split: option.splits dest: apply_role_action_calls)

lemma shaped_tool:
  assumes "tools_kept roles" and "cm_role m = ''tool''" and "shape_tail_message J m roles = Inr r"
  shows "\<exists>m'. r = Some m' \<and> answered_ids m' = answered_ids m"
proof (cases roles)
  case None
  with assms(3) show ?thesis by (auto simp: shape_tail_message_def)
next
  case (Some rc)
  with assms(2,3) obtain rules rule where "rules_for rc ''tool'' = Some rules"
    "find (rule_applies 1) rules = Some rule" "apply_role_action J rule m = Inr r"
    by (auto simp: shape_tail_message_def rule_applies_inline split: option.splits)
  with assms(1) Some show ?thesis
    by (auto simp: tools_kept_def apply_role_action_def split: role_action.splits)
qed

text \<open>Merging drops calls at most: what it merges answers nothing.\<close>

lemma open_calls_plain: "list_all (\<lambda>m. answered_ids m = {}) ms \<Longrightarrow> ids \<subseteq> open_calls ids ms"
  by (induction ms arbitrary: ids) (auto simp: open_calls_def [of _ "[]"] open_calls_Cons, blast)

lemma content_only_ids [simp]:
  "answered_ids (content_only_message r t) = {}" "call_ids (content_only_message r t) = {}"
  by (simp_all add: answered_ids_def call_ids_def content_only_message_def)

lemma merged_open_calls:
  assumes "''tool'' \<notin> set roles"
  shows "open_calls ids (merge_adjacent_role_runs J ms roles) \<subseteq> open_calls ids ms"
proof (induction "length ms" arbitrary: ms ids rule: less_induct)
  case less
  show ?case
  proof (cases ms)
    case (Cons m ms')
    show ?thesis
    proof (cases "cm_role m \<in> set roles")
      case False
      with less Cons show ?thesis by (simp add: merge_keep open_calls_Cons)
    next
      case True
      let ?run = "m # takeWhile (\<lambda>x. cm_role x = cm_role m) ms'"
        and ?rest = "dropWhile (\<lambda>x. cm_role x = cm_role m) ms'"
      have "cm_role x \<noteq> ''tool''" if "x \<in> set ?run" for x
        using that True assms by (auto dest: set_takeWhileD)
      then have "list_all (\<lambda>x. answered_ids x = {}) ?run" by (auto simp: list_all_iff answered_ids_def)
      then have "ids \<subseteq> open_calls ids ?run" by (rule open_calls_plain)
      then have "open_calls ids ?rest \<subseteq> open_calls (open_calls ids ?run) ?rest" by (rule open_calls_mono)
      also have "\<dots> = open_calls ids ms" by (simp add: Cons flip: open_calls_append)
      finally have "open_calls ids ?rest \<subseteq> open_calls ids ms" .
      moreover have "length ?rest < length ms" using Cons by (simp add: length_dropWhile_le le_imp_less_Suc)
      ultimately have "open_calls ids (merge_adjacent_role_runs J ?rest roles) \<subseteq> open_calls ids ms"
        using less [of ?rest ids] by blast
      with Cons True show ?thesis by (simp add: merge_run Let_def open_calls_Cons)
    qed
  qed simp
qed

lemma merge_tail_open:
  assumes "tools_kept (turn_roles E A)"
  shows "unanswered (tn_messages (merge_tail E A s)) \<subseteq> unanswered (tn_messages s)"
proof -
  let ?p = "ta_replay_prefix_len A"
  have m: "open_calls ids (merge_adjacent_if_configured J ms (turn_roles E A)) \<subseteq> open_calls ids ms" for ids J ms
    using assms merged_open_calls
    by (auto simp: tools_kept_def merge_adjacent_if_configured_def split: option.splits)
  have "unanswered (take ?p (tn_messages s) @ drop ?p (tn_messages s)) = unanswered (tn_messages s)" by simp
  with m [of "unanswered (take ?p (tn_messages s))" "eg_codec E" "drop ?p (tn_messages s)"] show ?thesis
    unfolding unanswered_append by (simp add: merge_tail_def Let_def unanswered_append)
qed

subsubsection \<open>Answers of a round\<close>

text \<open>A step that appends messages without calls, which answer at least the given ids.\<close>

definition answers_to :: "string set \<Rightarrow> turn \<Rightarrow> turn \<Rightarrow> bool" where
  "answers_to ids s s' \<longleftrightarrow> (\<exists>ms. tn_messages s' = tn_messages s @ ms
     \<and> list_all (\<lambda>m. call_ids m = {}) ms \<and> ids \<subseteq> (\<Union>m \<in> set ms. answered_ids m))"

lemma answers_to_none: "tn_messages s' = tn_messages s \<Longrightarrow> answers_to {} s s'"
  by (simp add: answers_to_def)

lemma answers_to_trans:
  assumes "answers_to a s s1" and "answers_to b s1 s2"
  shows "answers_to (a \<union> b) s s2"
proof -
  from assms obtain xs ys where "tn_messages s1 = tn_messages s @ xs" "list_all (\<lambda>m. call_ids m = {}) xs"
    "a \<subseteq> (\<Union>m \<in> set xs. answered_ids m)" "tn_messages s2 = tn_messages s1 @ ys"
    "list_all (\<lambda>m. call_ids m = {}) ys" "b \<subseteq> (\<Union>m \<in> set ys. answered_ids m)"
    by (auto simp: answers_to_def)
  then show ?thesis unfolding answers_to_def by (intro exI [of _ "xs @ ys"]) auto
qed

lemma answers_to_same:
  "tn_messages s = tn_messages t \<Longrightarrow> tn_messages s' = tn_messages t' \<Longrightarrow> answers_to a s s' = answers_to a t t'"
  by (simp add: answers_to_def)

lemma pushed_message:
  assumes "push E A m s = (None, s')"
  shows "\<exists>r. shape_tail_message (eg_codec E) m (turn_roles E A) = Inr r
    \<and> tn_messages s' = tn_messages s @ (case r of Some m' \<Rightarrow> [m'] | None \<Rightarrow> [])"
  using assms
  by (auto simp: push_def push_shaped_def with_value_def modify_def split: sum.splits option.splits)

lemma pushed_calls:
  assumes "push E A m s = (None, s')"
  shows "\<exists>ms. tn_messages s' = tn_messages s @ ms \<and> (ms = [] \<or> (\<exists>m'. ms = [m'] \<and> call_ids m' = call_ids m))"
  using pushed_message [OF assms] by (auto dest!: shaped_calls split: option.splits)

lemma pushed_answer:
  assumes "tools_kept (turn_roles E A)" and "cm_role m = ''tool''" and "call_ids m = {}"
    and p: "push E A m s = (None, s')"
  shows "answers_to (answered_ids m) s s'"
proof -
  from pushed_message [OF p] shaped_tool [OF assms(1,2)] obtain m' where
    "shape_tail_message (eg_codec E) m (turn_roles E A) = Inr (Some m')" "answered_ids m' = answered_ids m"
    "tn_messages s' = tn_messages s @ [m']" by force
  with shaped_calls assms(3) show ?thesis by (auto simp: answers_to_def)
qed

lemma pushed_note:
  assumes "call_ids m = {}" and "push E A m s = (None, s')"
  shows "answers_to {} s s'"
  using pushed_calls [OF assms(2)] assms(1) by (auto simp: answers_to_def)

lemma tool_reply_ids [simp]:
  "answered_ids (tool_result i r) = set_option i" "call_ids (tool_result i r) = {}"
  "answered_ids (synthetic_tool_result x r) = {x}" "call_ids (synthetic_tool_result x r) = {}"
  "cm_role (tool_result i r) = ''tool''" "cm_role (synthetic_tool_result x r) = ''tool''"
  "call_ids closed_tool_set_note = {}"
  by (simp_all add: answered_ids_def call_ids_def tool_result_def synthetic_tool_result_def
      closed_tool_set_note_def content_only_message_def split: option.split)

text \<open>A list of steps, each of which answers one call.\<close>

lemma steps_answer:
  assumes "\<And>x s s'. f x s = (None, s') \<Longrightarrow> answers_to (ids x) s s'"
  shows "steps (map f xs) s = (None, s') \<Longrightarrow> answers_to (\<Union>x \<in> set xs. ids x) s s'"
proof (induction xs arbitrary: s)
  case (Cons x xs)
  then obtain s1 where "f x s = (None, s1)" "steps (map f xs) s1 = (None, s')" by (auto simp: then_step_None)
  with answers_to_trans [OF assms Cons.IH] show ?case by simp
qed (simp add: answers_to_none)

interpretation messaged: item_frame "\<lambda>s. tn_messages s = ms" for ms
  by unfold_locales (auto simp: record_output_def)

lemma open_round_messages:
  assumes "open_round E A st s = (None, s')"
  shows "tn_messages s' = tn_messages (merge_tail E A s)"
proof -
  let ?P = "\<lambda>t :: turn. tn_messages t = tn_messages (merge_tail E A s)"
  from assms obtain s1 where a: "ask_upstream E A s = (None, s1)"
    and h: "hear_upstream E A (log_request A st s1) = (None, s')"
    unfolding open_round_parts by (auto simp: step_None)
  have chunk: "keeps ?P ?P (receive_chunk E A c)" for c
  proof (rule keepsI)
    fix t :: turn assume "?P t"
    then have n: "?P (note_usage A c t\<lparr>tn_uuid := n, tn_stream := st\<rparr>)" for n st
      by (simp add: note_usage_def split: option.split)
    have "keeps ?P ?P (steps (map (send_emission E A) ems))" for ems
      by (rule keeps_steps_map) (rule messaged.frame_emission)
    from keepsD [OF this n] show "ends ?P ?P (receive_chunk E A c t)"
      by (simp add: receive_chunk_def Let_def split: prod.split)
  qed
  have "keeps ?P ?P (receive E A items)" for items
  proof (induction items)
    case (Cons x xs)
    then show ?case
      by (cases x) (simp_all add: keeps_then_step messaged.frame_poll messaged.frame_fail chunk)
  qed (simp add: messaged.frame_poll)
  then have "keeps ?P ?P (hear_upstream E A)"
    unfolding hear_upstream_def
    by (intro keeps_steps_Cons keeps_steps_Nil messaged.frame_poll messaged.frame_with_value keeps_modify)
      (simp_all add: fresh_round_def add_round_usage_def split: option.split)
  from keeps_ok [OF this _ h] ask_None [OF a] show ?thesis by (simp add: log_request_def)
qed

lemma close_round_messages:
  assumes "close_round E A fin s = (None, s')"
  shows "\<exists>ms. tn_messages s' = tn_messages s @ ms \<and> (ms = []
    \<or> (\<exists>m m'. fin_internal_assistant_message fin = Some m \<and> ms = [m'] \<and> call_ids m' = call_ids m))"
proof -
  from assms obtain s1 s2 where
    f: "when_step (fin_rejected_tool_calls fin = []) (steps (map (flush_call E) (fin_tool_calls fin)))
      (note_finalized fin s) = (None, s1)"
    and e: "emit_completed_public_items E fin s1 = (None, s2)"
    and p: "(case fin_internal_assistant_message fin of Some m \<Rightarrow> push E A m
      | None \<Rightarrow> modify (\<lambda>s. s)) (s2\<lparr>tn_clock := Suc (tn_clock s2)\<rparr>) = (None, s')"
    unfolding close_round_def by (auto simp: steps_Cons_None modify_None poll_None simp del: steps.simps(2))
  have "keeps (\<lambda>t. tn_messages t = tn_messages s) (\<lambda>t. tn_messages t = tn_messages s)
      (when_step b (steps (map (flush_call E) calls)))" for b calls
    by (rule keeps_when_step, rule keeps_steps_map) (rule messaged.frame_flush_call)
  from keeps_ok [OF this _ f] have "tn_messages s1 = tn_messages s" by (simp add: note_finalized_def)
  moreover have "tn_messages s2 = tn_messages s1"
    using keeps_ok [OF messaged.frame_emit_completed _ e] by simp
  ultimately show ?thesis
    using p by (auto simp: modify_def dest!: pushed_calls split: option.splits)
qed

text \<open>The calls of the model's message are the resolved and the rejected ones.\<close>

definition resolved_ids :: "finalized_assistant_turn \<Rightarrow> string set" where
  "resolved_ids fin = set (List.map_filter (\<lambda>c. tc_id (rtc_internal_call c)) (fin_tool_calls fin))"

definition rejected_ids :: "finalized_assistant_turn \<Rightarrow> string set" where
  "rejected_ids fin = set (map rj_call_id (fin_rejected_tool_calls fin))"

lemma mem_map_filter: "i \<in> set (List.map_filter f xs) \<longleftrightarrow> (\<exists>x \<in> set xs. f x = Some i)"
  by (auto simp: map_filter_def image_iff)

lemma internal_calls_covered:
  assumes "finalize J X U s registry = Inr fin" and "fin_internal_assistant_message fin = Some m"
  shows "cm_role m = ''assistant'' \<and> call_ids m \<subseteq> resolved_ids fin \<union> rejected_ids fin"
proof -
  obtain n st where s: "s = (n, st)" by fastforce
  obtain internals where
    f: "finalize_calls J X U registry n (map snd (ss_tool_calls st))
      = Inr (fin_tool_calls fin, fin_rejected_tool_calls fin, internals)"
    and m: "fin_internal_assistant_message fin
      = internal_message_of (final_message_item st) (final_reasoning_item st) internals"
    using assms(1) by (auto simp: s finalize_def Let_def bind_res_Inr)
  note p = finalize_calls_partition [OF f]
  have "tc_id c = Some i \<Longrightarrow> c \<in> set internals \<Longrightarrow> i \<in> resolved_ids fin \<union> rejected_ids fin" for c i
  proof (cases "known_call registry c")
    case True
    assume c: "tc_id c = Some i" "c \<in> set internals"
    with True have "c \<in> set (map rtc_internal_call (fin_tool_calls fin))" using p by simp
    with c(1) show ?thesis by (auto simp: resolved_ids_def mem_map_filter)
  next
    case False
    assume c: "tc_id c = Some i" "c \<in> set internals"
    with False have "(Some i, fc_name (tc_function c)) \<in> set (map (\<lambda>r. (Some (rj_call_id r), Some (rj_name r)))
        (fin_rejected_tool_calls fin))" using p by (auto simp: image_iff)
    then show ?thesis by (auto simp: rejected_ids_def)
  qed
  moreover from assms(2) m have "cm_role m = ''assistant''" "call_ids m = set (List.map_filter tc_id internals)"
    by (auto simp: internal_message_of_def call_ids_def map_filter_simps split: if_splits)
  ultimately show ?thesis by (fastforce simp: mem_map_filter)
qed

lemma answer_tainted_answers:
  assumes roles: "tools_kept (turn_roles E A)" and t: "answer_tainted E A fin s = (None, s')"
  shows "answers_to (resolved_ids fin \<union> rejected_ids fin) s s'"
proof -
  let ?known = "\<lambda>call. case tc_id (rtc_internal_call call) of
      Some call_id \<Rightarrow> push E A (synthetic_tool_result call_id tainted_tool_result) | None \<Rightarrow> modify (\<lambda>s. s)"
    and ?unknown = "\<lambda>r. push E A (synthetic_tool_result (rj_call_id r) (unavailable_text (rj_name r)))"
  from t obtain s1 s2 s3 where p: "steps (map ?known (fin_tool_calls fin)) s = (None, s1)"
    "steps (map ?unknown (fin_rejected_tool_calls fin)) s1 = (None, s2)"
    "push E A closed_tool_set_note s2 = (None, s3)" and s': "tn_messages s' = tn_messages s3"
    by (auto simp: answer_tainted_def then_step_None modify_def)
  have "answers_to (set_option (tc_id (rtc_internal_call c))) s s'"
    if "?known c s = (None, s')" for c s s'
    using that pushed_answer [OF roles, of "synthetic_tool_result (the (tc_id (rtc_internal_call c))) tainted_tool_result"]
    by (auto simp: modify_def answers_to_none split: option.splits)
  from steps_answer [OF this p(1)]
  have "answers_to (\<Union>c \<in> set (fin_tool_calls fin). set_option (tc_id (rtc_internal_call c))) s s1" .
  moreover have "(\<Union>c \<in> set (fin_tool_calls fin). set_option (tc_id (rtc_internal_call c)))
      = resolved_ids fin"
    by (auto simp: resolved_ids_def mem_map_filter)
  moreover have "answers_to {rj_call_id r} s s'" if "?unknown r s = (None, s')" for r s s'
    using pushed_answer [OF roles _ _ that] by simp
  from steps_answer [OF this p(2)] have "answers_to (rejected_ids fin) s1 s2"
    by (simp add: rejected_ids_def UNION_singleton_eq_range)
  moreover have "answers_to {} s2 s'" using pushed_note [OF _ p(3)] by (simp add: answers_to_def s')
  ultimately show ?thesis using answers_to_trans by (metis sup_bot.right_neutral)
qed

lemma server_tool_answers:
  assumes roles: "tools_kept (turn_roles E A)" and "run_server_tool E A call s = (None, s')"
  shows "answers_to (set_option (tc_id (rtc_internal_call call))) s s'"
proof -
  have pushed: "answers_to (set_option (tc_id (rtc_internal_call call))) s t'"
    if "push E A (tool_result (tc_id (rtc_internal_call call)) reply) t = (None, t')"
      "tn_messages t = tn_messages s" for reply t t'
    using pushed_answer [OF roles _ _ that(1)] that(2) by (simp add: answers_to_def)
  show ?thesis
  proof (cases "rtc_kind call = KImageAnalysis")
    case True
    with assms(2) have "run_image_analysis E A call s = (None, s')" by (simp add: run_server_tool_def)
    then show ?thesis by (rule image_analysis_None) (erule pushed, simp)
  next
    case False
    with assms(2) have w: "run_web_search E A call s = (None, s')" by (simp add: run_server_tool_def)
    then obtain i status action where item: "rtc_public_item call = WebSearchCall i status action"
      by (cases "rtc_public_item call") (simp_all add: run_web_search_def fail_def)
    from w obtain s1 query out s2 where
      a: "send_registered E (WebSearchCall i (Some ''in_progress'') None)
        (\<lambda>t. output_item_added_event (WebSearchCall i (Some ''in_progress'') None) (ot_output_index t)) s
          = (None, s1)"
      and q: "complete_search E A call i action query out s2 = (None, s')"
      and s2: "tn_messages s2 = tn_messages s1"
      by (auto simp: run_web_search_def item Let_def step_None poll_None perform_search_def
          simp del: steps.simps)
    from a have "tn_messages s1 = tn_messages s" by (auto simp: send_registered_None send_event_None)
    with s2 have m: "tn_messages s2 = tn_messages s" by simp
    from q obtain reply t where t: "push E A (tool_result (tc_id (rtc_internal_call call)) reply) t = (None, s')"
      "tn_messages t = tn_messages s2"
      unfolding complete_search_def Let_def success_simps
      by (auto simp: send_registered_None send_event_None send_results_def record_output_def
          split: option.splits)
    show ?thesis by (rule pushed [OF t(1)]) (simp add: t(2) m)
  qed
qed

lemma end_repair_messages [simp]: "tn_messages (end_repair E A s) = tn_messages s"
  by (simp add: end_repair_def count_outcome_def)

lemma continue_loop_messages:
  "continue_loop E A calls s = (None, s') \<Longrightarrow> tn_messages s' = tn_messages s"
proof -
  assume "continue_loop E A calls s = (None, s')"
  then obtain s1 s2 where
    w: "if had_kind (is_server_tool E A) KWebSearch calls then count_web_round E s = (None, s1) else s1 = s"
    and i: "if had_kind (is_server_tool E A) KImageAnalysis calls then count_image_round s1 = (None, s2)
      else s2 = s1"
    and s': "s' = s2\<lparr>tn_tool_choice := JStr ''auto''\<rparr>"
    unfolding continue_loop_def step_None by blast
  from w have "tn_messages s1 = tn_messages s" by (auto dest: count_web_round_None split: if_splits)
  moreover from i have "tn_messages s2 = tn_messages s1"
    by (auto dest: count_image_round_None split: if_splits)
  ultimately show ?thesis using s' by simp
qed

text \<open>The answers a round that goes on gives to the calls of its message.\<close>

lemma decide_answers:
  assumes roles: "tools_kept (turn_roles E A)" and "decide E A fin s = (Inr Again, s')"
  shows "answers_to (resolved_ids fin \<union> rejected_ids fin) s s'"
proof (cases "fin_rejected_tool_calls fin = []")
  case False
  with assms(2) have "answer_tainted E A fin (begin_repair s) = (None, s')"
    by (simp add: decide_def Let_def concluding_Inr step_None del: steps.simps split: if_splits)
  from answer_tainted_answers [OF roles this] show ?thesis by (simp add: answers_to_def begin_repair_def)
next
  case True
  let ?calls = "fin_tool_calls fin"
  from True assms(2) obtain s1 where
    h: "handle_tool_calls E A ?calls (end_repair E A s) = (None, s1)"
    and l: "continue_loop E A ?calls s1 = (None, s')"
    and server: "\<not> list_ex (\<lambda>c. \<not> is_server_tool E A c) ?calls"
    by (auto simp: decide_def Let_def concluding_Inr step_None simp del: steps.simps split: if_splits)
  from h server have "steps (map (run_server_tool E A) ?calls)
      ((end_repair E A s)\<lparr>tn_clock := Suc (tn_clock (end_repair E A s))\<rparr>) = (None, s1)"
    by (auto simp: handle_tool_calls_def then_step_None poll_None)
  from steps_answer [OF server_tool_answers [OF roles] this]
  have "answers_to (\<Union>c \<in> set ?calls. set_option (tc_id (rtc_internal_call c))) s s'"
    using continue_loop_messages [OF l] by (simp add: answers_to_def)
  moreover have "(\<Union>c \<in> set ?calls. set_option (tc_id (rtc_internal_call c)))
      = resolved_ids fin \<union> rejected_ids fin"
    using True by (auto simp: resolved_ids_def rejected_ids_def mem_map_filter)
  ultimately show ?thesis by simp
qed

lemma run_round_answers:
  assumes roles: "tools_kept (turn_roles E A)" and "run_round E A st s = (Inr Again, s')"
  shows "unanswered (tn_messages s') \<subseteq> unanswered (tn_messages s)"
proof -
  from assms(2) obtain s1 fin s2 where o: "open_round E A st s = (None, s1)"
    and f: "finalize (eg_codec E) (eg_exec E) (eg_uuid E) (tn_uuid s1, tn_stream s1) (ta_registry A) = Inr fin"
    and c: "close_round E A fin s1 = (None, s2)" and d: "decide E A fin s2 = (Inr Again, s')"
    by (rule run_round_Inr)
  obtain answers where a: "tn_messages s' = tn_messages s2 @ answers"
    "list_all (\<lambda>m. call_ids m = {}) answers"
    "resolved_ids fin \<union> rejected_ids fin \<subseteq> (\<Union>a \<in> set answers. answered_ids a)"
    using decide_answers [OF roles d] by (auto simp: answers_to_def)
  obtain ms where m: "tn_messages s2 = tn_messages s1 @ ms"
    "ms = [] \<or> (\<exists>m m'. fin_internal_assistant_message fin = Some m \<and> ms = [m'] \<and> call_ids m' = call_ids m)"
    using close_round_messages [OF c] by blast
  have "open_calls ids ms - (\<Union>a \<in> set answers. answered_ids a) \<subseteq> ids" for ids
  proof (cases "ms = []")
    case False
    with m(2) obtain msg m' where "fin_internal_assistant_message fin = Some msg" "ms = [m']"
      "call_ids m' = call_ids msg" by blast
    with internal_calls_covered [OF f] a(3) show ?thesis by (auto simp: open_calls_def)
  qed (auto simp: open_calls_def)
  then have "unanswered (tn_messages s') \<subseteq> unanswered (tn_messages s1)"
    by (simp add: a(1) m(1) unanswered_append open_calls_append open_calls_answers [OF a(2)])
  with merge_tail_open [OF roles, of s] open_round_messages [OF o] show ?thesis by simp
qed

text \<open>The whole turn: what is sent is the conversation as it stands at the start of a round.\<close>

definition answered_within :: "string set \<Rightarrow> backend_request list \<Rightarrow> bool" where
  "answered_within U rs \<longleftrightarrow> list_all (\<lambda>r. unanswered (ccr_messages (bk_request r)) \<subseteq> U) rs"

lemma run_rounds_answers:
  assumes roles: "tools_kept (turn_roles E A)"
  shows "unanswered (tn_messages s) \<subseteq> U \<Longrightarrow> answered_within U (tn_requests s)
    \<Longrightarrow> answered_within U (tn_requests (snd (run_rounds E A st s)))"
proof (induction s rule: measure_induct_rule [where f = round_budget])
  case (less s)
  obtain r s' where r: "run_round E A st s = (r, s')" by fastforce
  have "unanswered (ccr_messages (bk_request (round_request A st (merge_tail E A s)))) \<subseteq> unanswered (tn_messages s)"
    using merge_tail_open [OF roles] by (simp add: round_request_messages)
  with less.prems have requests: "answered_within U (tn_requests s')"
    using run_round_requests [of E A st s] r by (auto simp: answered_within_def)
  show ?case
  proof (cases "r = Inr Again")
    case False
    then have "tn_requests (snd (run_rounds E A st s)) = tn_requests s'"
      using r by (subst run_rounds.simps) (auto split: sum.split round_outcome.split)
    with requests show ?thesis by simp
  next
    case True
    with r have a: "run_round E A st s = (Inr Again, s')" by simp
    from run_round_answers [OF roles a] less.prems(1) have "unanswered (tn_messages s') \<subseteq> U" by blast
    from less.IH [OF run_round_budget [OF a] this requests] a show ?thesis
      by (subst run_rounds.simps) simp
  qed
qed

definition silent_start :: "chat_message list \<Rightarrow> turn \<Rightarrow> bool" where
  "silent_start messages s \<longleftrightarrow> tn_requests s = [] \<and> tn_messages s = messages"

lemma begin_turn_silent: "keeps (silent_start ms) (silent_start ms) (begin_turn E A)"
proof -
  have "keeps (silent_start ms) (silent_start ms) (send_event E ev)" for ev
    by (rule keepsI) (simp add: send_event_def Let_def silent_start_def split: option.split)
  then show ?thesis unfolding begin_turn_def by (intro keeps_intros)
qed

lemma run_turn_answers:
  assumes roles: "tools_kept (turn_roles E A)" and f: "silent_start ms s0"
  shows "answered_within (unanswered ms) (tn_requests (snd (run_turn E A s0)))"
proof -
  note opened = keeps_ok [OF begin_turn_silent f] keeps_err [OF begin_turn_silent f]
  have none: "silent_start ms s \<Longrightarrow> answered_within (unanswered ms) (tn_requests s)" for s
    by (simp add: silent_start_def answered_within_def)
  have rounds: "silent_start ms s
      \<Longrightarrow> answered_within (unanswered ms) (tn_requests (snd (run_rounds E A st s)))" for st s
    by (rule run_rounds_answers [OF roles]) (simp_all add: silent_start_def answered_within_def)
  obtain r s where t: "run_turn E A s0 = (r, s)" by fastforce
  then have "answered_within (unanswered ms) (tn_requests s)"
  proof (cases rule: run_turn_cases)
    case opening_fails
    then show ?thesis using opened(2) none by blast
  next
    case stop_rejected
    then show ?thesis using opened(1) none by blast
  next
    case (rounds_fail st e s1)
    then show ?thesis using rounds [OF opened(1), of E A s1 st] by simp
  next
    case (closing_fails st e s1 s2)
    then show ?thesis
      using rounds [OF opened(1), of E A s1 st] keeps_err [OF finish_turn_requests refl closing_fails(4)] by simp
  next
    case (completes st s1 s2)
    then show ?thesis
      using rounds [OF opened(1), of E A s1 st] keeps_ok [OF finish_turn_requests refl completes(4)] by simp
  qed
  with t show ?thesis by simp
qed

text \<open>
  C1: a turn never shows the upstream a call without its answer. Whatever the model calls, known
  tools, tools it invented or a mixture, every later request of the turn answers each of those calls
  with a tool message after it, so that the only calls a request can leave open are those the
  conversation left open before the turn. This holds without a role policy and under every policy
  whose rule for an appended tool message accepts or rejects it and that does not merge tool messages
  (no valid profile does); it does not hold under a policy that drops tool messages or rewrites them
  to another role.
\<close>

theorem every_call_is_answered:
  assumes "tools_kept (turn_roles E A)"
  shows "list_all (\<lambda>r. unanswered (ccr_messages (bk_request r)) \<subseteq> unanswered messages)
    (tn_requests (snd (spawn_turn E A (start_turn n images store counts A messages))))"
proof -
  have "silent_start messages (start_turn n images store counts A messages)"
    by (simp add: silent_start_def start_turn_def)
  from run_turn_answers [OF assms this] show ?thesis
    by (simp add: spawn_turn_requests answered_within_def)
qed

theorem every_call_is_answered_witness:
  "list_all (\<lambda>r. unanswered (ccr_messages (bk_request r))
      \<subseteq> unanswered [content_only_message ''user'' ''hello''])
    (tn_requests (snd (spawn_turn sample_engine sample_args
      (start_turn 0 (image_cache_new 4 1000) (replay_new 8) [] sample_args
        [content_only_message ''user'' ''hello'']))))"
  by (rule every_call_is_answered) (simp add: sample_roles tools_kept_def)

end
