(* ===== verification/Engine_Anthropic.thy ===== *)
theory Engine_Anthropic
  imports Engine_Protocol Anthropic_Collector
begin

text \<open>
  What a Messages client of a turn sees: the events a turn of the engine sends, through the Anthropic
  stream converter.
\<close>

subsection \<open>The events of a turn, to the converter\<close>

lemma round_event_not_terminal: "is_round_event ev \<Longrightarrow> \<not> is_terminal_event ev"
  by (auto simp: is_round_event_def round_event_names_def is_terminal_event_def)

lemma opening_event_names:
  "se_event (created_event r n) = ''response.created''"
  "\<not> is_terminal_event (in_progress_event r)"
  by (simp_all add: created_event_def in_progress_event_def json_event_def is_terminal_event_def)

lemma closing_event_names:
  "is_terminal_event (terminal_event r)" "is_terminal_event (failure_event e)"
  "se_event (failure_event e) = ''response.failed''"
  by (simp_all add: terminal_event_def completed_event_def incomplete_event_def failure_event_def
      json_event_def is_terminal_event_def)

lemma failure_error_event: "error_event (se_data (failure_event e))
    = ErrorEvent \<lparr>aeb_kind = ''api_error'', aeb_message = err_client_message e\<rparr>"
  by (simp add: error_event_def failure_event_def json_event_def response_field_def obj_get_jobj json_get_str_def)

text \<open>An opening that began, events of rounds, and at most one terminal event.\<close>

lemma engine_turn_events:
  assumes "prefix opened (opening_events A)" and "opened \<noteq> []" and "list_all is_round_event mid"
    and "closing = [] \<or> (\<exists>ev. closing = [ev] \<and> is_terminal_event ev)"
  shows "engine_turn (opened @ mid @ closing)"
proof -
  obtain more where o: "opened = created_event (ta_response_id A) (ta_estimated_input_tokens A) # more"
    and m: "prefix more [in_progress_event (ta_response_id A)]"
    using assms(1,2) by (cases opened) (auto simp: opening_events_def)
  have "list_all (\<lambda>e. \<not> is_terminal_event e) more"
    using m opening_event_names(2) by (auto simp: prefix_Cons)
  moreover have "list_all (\<lambda>e. \<not> is_terminal_event e) mid"
    using assms(3) round_event_not_terminal by (auto simp: list_all_iff)
  ultimately show ?thesis
    using assms(4) by (auto simp: engine_turn_def o opening_event_names(1) butlast_append)
qed

text \<open>
  C13: the Anthropic stream of a turn is well-formed, whatever the upstream answers, whenever the
  client hangs up, and whether or not the raw mirror works: exactly one message start, blocks numbered
  consecutively, opened and closed one at a time with deltas of their own kind, every thinking block
  signed, and exactly one terminal at the end, also when the turn ended without any terminal event.
  There are two exceptions, both of turns that fail: a turn stopped before its first event gives the
  error event alone, without a message start, and a raw mirror that fails on the terminal event can
  put one error event after an otherwise well-formed stream.
\<close>

theorem anthropic_stream_wellformed:
  assumes t: "spawn_turn E A (start_turn n images store counts A messages) = (result, s)"
  shows "let out = snd (convert_stream J sha (tn_sent s) (with_reasoning_suppression uuid model suppress));
      failed = (\<lambda>e. ErrorEvent \<lparr>aeb_kind = ''api_error'', aeb_message = err_client_message e\<rparr>)
    in stream_ok out
      \<or> (\<exists>e. result = Inl e \<and> tn_sent s = [failure_event e] \<and> out = [failed e])
      \<or> (\<exists>e ok. result = Inl e \<and> raw_error E e \<and> stream_ok ok \<and> out = ok @ [failed e])"
proof -
  let ?c = "with_reasoning_suppression uuid model suppress"
  let ?out = "\<lambda>evs. snd (convert_stream J sha evs ?c)"
  from turn_event_shape [OF t] obtain opened mid closing where
    sent: "tn_sent s = opened @ mid @ closing" and p: "prefix opened (opening_events A)"
      "list_all is_round_event mid" "mid = [] \<or> length opened = 2"
    and c: "case result of
        Inr c \<Rightarrow> length opened = 2 \<and> c = completion_of s \<and> closing = [terminal_event (turn_resource E A s)]
      | Inl e \<Rightarrow> closing = [] \<or> closing = [failure_event e] \<or> length opened = 2 \<and> raw_error E e
          \<and> (closing = [terminal_event (turn_resource E A s)]
             \<or> closing = [terminal_event (turn_resource E A s), failure_event e])"
    unfolding opening_events_def [symmetric] by blast
  let ?T = "terminal_event (turn_resource E A s)"
  consider (empty) "opened = []" | (single) "opened \<noteq> []" "closing = [] \<or> (\<exists>ev. closing = [ev] \<and> is_terminal_event ev)"
    | (late) e where "opened \<noteq> []" "result = Inl e" "raw_error E e" "closing = [?T, failure_event e]"
    using c closing_event_names by (cases result) auto
  then show ?thesis
  proof cases
    case empty
    with p(3) c have "tn_sent s = [] \<or> (\<exists>e. result = Inl e \<and> tn_sent s = [failure_event e])"
      by (auto simp: sent split: sum.splits)
    then show ?thesis
      using empty_stream_ok [of J sha uuid model suppress] failed_alone [OF closing_event_names(3)]
      by (auto simp: Let_def failure_error_event)
  next
    case single
    from engine_turn_events [OF p(1) single(1) p(2) single(2)] show ?thesis
      by (simp add: sent Let_def converter_stream_ok)
  next
    case late
    let ?before = "opened @ mid @ [?T]"
    have "engine_turn ?before"
      using engine_turn_events [OF p(1) late(1) p(2)] closing_event_names(1) by blast
    then have "stream_ok (?out ?before)" by (rule converter_stream_ok)
    moreover have "?out (tn_sent s) = ?out ?before @ [error_event (se_data (failure_event e))]"
      using failed_late [of ?before "failure_event e" J sha ?c] closing_event_names
      by (simp add: sent late(4))
    ultimately show ?thesis
      using late(2,3) by (auto simp: Let_def failure_error_event)
  qed
qed

theorem anthropic_stream_wellformed_witness:
  "let out = snd (convert_stream sample_codec (\<lambda>_. ''00'') (tn_sent sample_end)
        (with_reasoning_suppression ''u'' ''m'' False));
      failed = (\<lambda>e. ErrorEvent \<lparr>aeb_kind = ''api_error'', aeb_message = err_client_message e\<rparr>)
    in stream_ok out
      \<or> (\<exists>e. (Inr TurnCompleted :: app_error + turn_completion) = Inl e
          \<and> tn_sent sample_end = [failure_event e] \<and> out = [failed e])
      \<or> (\<exists>e ok. (Inr TurnCompleted :: app_error + turn_completion) = Inl e
          \<and> raw_error sample_engine e \<and> stream_ok ok \<and> out = ok @ [failed e])"
  by (rule anthropic_stream_wellformed [OF sample_turn_runs [unfolded sample_start_def]])

end
