(* ===== verification/Engine_Replay.thy ===== *)
theory Engine_Replay
  imports Engine_Correct Lowering_Correct
begin

text \<open>
  What becomes of the messages of a replayed turn: from the record the replay store returns, through
  the lowering of the items after it, to every upstream request of the new turn.
\<close>

subsection \<open>Lowering after a baseline\<close>

text \<open>
  The items after the replayed history open no call: the first of them that lowers to anything is not
  a call, which would be added to the last replayed message when that is an assistant's.
\<close>

fun opens_no_call :: "response_item list \<Rightarrow> bool" where
  "opens_no_call [] = True"
| "opens_no_call (ImageGenerationCall _ _ _ _ # items) = opens_no_call items"
| "opens_no_call (item # _) = (\<not> is_call item)"

text \<open>The baseline is still a prefix, and what follows can no longer change it.\<close>

definition past :: "chat_message list \<Rightarrow> lower_state \<Rightarrow> bool" where
  "past base st \<longleftrightarrow> prefix base (fst st) \<and> (length base < length (fst st) \<or> snd st \<noteq> None)"

lemma prefix_butlast: "prefix base ms \<Longrightarrow> length base < length ms \<Longrightarrow> prefix base (butlast ms)"
  by (auto simp: prefix_def butlast_append)

lemma append_tool_call_past:
  assumes "past base (ms, p)"
  shows "past base (append_tool_call ms call_id name arguments p, None)"
proof (cases "ms \<noteq> [] \<and> cm_role (last ms) = ''assistant'' \<and> p = None")
  case True
  with assms have b: "prefix base (butlast ms)" "length base < length ms"
    using prefix_butlast by (auto simp: past_def)
  with True show ?thesis
    by (auto simp: past_def append_tool_call_def Let_def intro: prefix_prefix)
next
  case False
  then have "append_tool_call ms call_id name arguments p = ms @ [last (append_tool_call ms call_id name arguments p)]"
    unfolding append_tool_call_def by (simp only: if_False last_snoc)
  moreover have "prefix base ms" "length base \<le> length ms"
    using assms prefix_length_le by (auto simp: past_def)
  ultimately show ?thesis
    by (metis fst_conv le_imp_less_Suc length_append_singleton past_def prefix_prefix)
qed

lemma snoc_past: "prefix base ms \<Longrightarrow> past base (ms @ [m], p)"
  using prefix_length_le [of base ms] by (auto simp: past_def intro: prefix_prefix)

lemma append_tool_call_snoc_past:
  "past base (ms, p) \<Longrightarrow> past base (append_tool_call ms call_id name arguments p @ [m], q)"
  using append_tool_call_past [of base ms p call_id name arguments] by (intro snoc_past) (simp add: past_def)

lemma flush_past:
  "prefix base (fst st) \<Longrightarrow> prefix base (fst (flush_pending_reasoning (fst st) (snd st)))"
  "past base st \<Longrightarrow> past base (flush_pending_reasoning (fst st) (snd st))"
  using prefix_length_le [of base "fst st"]
  by (auto simp: flush_pending_reasoning_def past_def intro: prefix_prefix split: option.split prod.split)

text \<open>What one item does to a state that still ends with the baseline, or is past it.\<close>

fun is_image_generation :: "response_item \<Rightarrow> bool" where
  "is_image_generation (ImageGenerationCall _ _ _ _) = True"
| "is_image_generation _ = False"

lemma lower_item_body_past:
  assumes "lower_item_body J r item st = Inr st'" and "prefix base (fst st)"
    and "past base st \<or> \<not> is_call item"
  shows "if is_image_generation item then st' = st else past base st'"
proof -
  obtain ms p where st: "st = (ms, p)" by (cases st)
  show ?thesis
  proof (cases item)
    case (Message i role content ph)
    with assms(1) obtain m p' where "st' = (ms @ [m], p')"
      using lower_message_appends [of r role content ms p st'] by (auto simp: st)
    with snoc_past assms(2) show ?thesis by (simp add: Message st)
  qed (use assms in \<open>auto simp: st Let_def bind_res_Inr append_tool_call_past append_tool_call_snoc_past snoc_past past_def [of base "(_, Some _)"]
      split: if_splits option.splits\<close>)
qed

lemma lower_items_past:
  "lower_items J r items st = Inr st' \<Longrightarrow> prefix base (fst st) \<Longrightarrow> past base st \<or> opens_no_call items
    \<Longrightarrow> prefix base (fst st')"
proof (induction items arbitrary: st)
  case (Cons item items)
  define s where "s = (if ends_assistant_turn item then flush_pending_reasoning (fst st) (snd st) else st)"
  from Cons.prems(1) obtain s1 where l: "lower_item_body J r item s = Inr s1"
    and rest: "lower_items J r items s1 = Inr st'"
    by (auto simp: lower_item_def s_def bind_res_Inr)
  have s: "prefix base (fst s)" "past base st \<Longrightarrow> past base s"
    using flush_past Cons.prems(2) by (simp_all add: s_def)
  show ?case
  proof (cases "is_image_generation item")
    case True
    then have "s = st" "opens_no_call (item # items) = opens_no_call items" "\<not> is_call item"
      by (cases item; simp add: s_def)+
    with lower_item_body_past [OF l s(1)] True Cons.prems(3) have "s1 = st" "past base st \<or> opens_no_call items"
      by auto
    with Cons.IH [OF rest] Cons.prems(2) show ?thesis by simp
  next
    case False
    have "opens_no_call (item # items) \<Longrightarrow> \<not> is_call item" using False by (cases item) simp_all
    with Cons.prems(3) s(2) have "past base s \<or> \<not> is_call item" by blast
    with lower_item_body_past [OF l s(1)] False have "past base s1" by simp
    then show ?thesis using Cons.IH [OF rest] by (simp add: past_def)
  qed
qed simp

text \<open>A baseline that hoisting the system messages leaves alone, whatever follows it.\<close>

definition settled :: "json_codec \<Rightarrow> chat_message list \<Rightarrow> bool" where
  "settled J ms \<longleftrightarrow> hoist_system_messages J ms = ms \<and> list_ex (\<lambda>m. cm_role m \<noteq> ''system'') ms"

lemma settled_hoist: "settled J base \<Longrightarrow> hoist_system_messages J (base @ ms) = base @ ms"
proof -
  assume base: "settled J base"
  then obtain m where "m \<in> set base" "cm_role m \<noteq> ''system''" by (auto simp: settled_def list_ex_iff)
  then have "takeWhile (\<lambda>m. cm_role m = ''system'') (base @ ms) = takeWhile (\<lambda>m. cm_role m = ''system'') base"
    "dropWhile (\<lambda>m. cm_role m = ''system'') (base @ ms) = dropWhile (\<lambda>m. cm_role m = ''system'') base @ ms"
    by (auto intro: takeWhile_append1 dropWhile_append1)
  then have "hoist_system_messages J (base @ ms) = hoist_system_messages J base @ ms"
    by (simp add: hoist_system_messages_def Let_def)
  with base show ?thesis by (simp add: settled_def)
qed

lemma lowering_keeps_baseline:
  assumes "lower_request_with_image_agent_and_roles J request base active roles = Inr lowered"
    and "opens_no_call (req_input request)" and "roles \<noteq> None \<or> settled J base" and "base \<noteq> []"
  shows "prefix base (lt_messages lowered)"
proof -
  from assms(1,4) obtain ms p where l: "lower_items J (roles \<noteq> None) (req_input request) (base, None) = Inr (ms, p)"
    and f: "finish_messages J roles (length base) (fst (flush_pending_reasoning ms p)) = Inr (lt_messages lowered)"
    by (auto simp: lower_request_with_image_agent_and_roles_def bind_res_Inr seed_messages_def)
  from lower_items_past [OF l, of base] assms(2) have "prefix base ms" by simp
  from flush_past(1) [of base "(ms, p)"] this obtain zs
    where z: "fst (flush_pending_reasoning ms p) = base @ zs" by (auto simp: prefix_def)
  show ?thesis
  proof (cases roles)
    case None
    with f assms(3) z settled_hoist [of J base zs] show ?thesis by (auto simp: finish_messages_def)
  next
    case (Some rc)
    with f z obtain new where "base @ new = lt_messages lowered"
      by (auto simp: finish_messages_def bind_res_Inr)
    then show ?thesis by (rule prefixI [OF sym])
  qed
qed

subsection \<open>The whole turn\<close>

text \<open>The request as the replay store is asked for it: after the prompt prefix and the image passes.\<close>

definition admitted_request :: "engine \<Rightarrow> app_error + upstream_model_catalog \<Rightarrow> backend_candidate list
    \<Rightarrow> responses_request \<Rightarrow> gateway \<Rightarrow> app_error + responses_request" where
  "admitted_request E loaded vision_plan request g =
     (let (resolved, genuine) = resolve_request_model (eg_cfg E) loaded (req_model request);
          request1 = apply_system_prompt_prefix (eg_cfg E) request resolved;
          native = backend_is_native_vision (eg_cfg E) vision_plan (req_model request1) genuine;
          (session, request2, images) = activate_image_agent (eg_cfg E) (eg_clock_ms E 0)
             (eg_uuid E (Suc (gw_uuid g))) native request1 (gw_images g)
      in residual_image_pass (eg_cfg E) native request2)"

definition turn_policy :: "engine \<Rightarrow> app_error + upstream_model_catalog \<Rightarrow> responses_request
    \<Rightarrow> responses_request \<Rightarrow> roles_config option" where
  "turn_policy E loaded request seen = resolve_roles_config_for_resolved_model (eg_cfg E) (req_model seen)
     (fst (resolve_request_model (eg_cfg E) loaded (req_model request)))"

lemma strip_web_search_same:
  "req_input (fst (strip_web_search cfg tail request)) = req_input tail"
  "req_model (snd (strip_web_search cfg tail request)) = req_model request"
  by (simp_all add: strip_web_search_def Let_def)

lemma prepare_turn_replay:
  assumes "prepare_turn E request_len loaded vision_plan plan observed request g = (Inr (A, messages), g')"
    and "admitted_request E loaded vision_plan request g = Inr seen"
    and "find_replay_baseline (eg_key E) (gw_replay g) seen = (Some record, k)"
  shows "\<exists>tail active lowered. req_input tail = drop k (req_input seen)
    \<and> lower_request_with_image_agent_and_roles (eg_codec E) tail (rp_internal_messages record) active
        (turn_policy E loaded request seen) = Inr lowered
    \<and> messages = lt_messages lowered \<and> ta_replay_prefix_len A = length (rp_internal_messages record)"
proof -
  let ?s = "strip_web_search (eg_cfg E) (seen\<lparr>req_input := drop k (req_input seen)\<rparr>) seen"
  obtain tail seen' where st: "?s = (tail, seen')" by fastforce
  then have tail: "req_input tail = drop k (req_input seen)" and model: "req_model seen' = req_model seen"
    using strip_web_search_same [of "eg_cfg E" "seen\<lparr>req_input := drop k (req_input seen)\<rparr>" seen] by simp_all
  obtain active lowered where "lower_request_with_image_agent_and_roles (eg_codec E) tail (rp_internal_messages record) active
      (turn_policy E loaded request seen) = Inr lowered"
    "messages = lt_messages lowered" "ta_replay_prefix_len A = length (rp_internal_messages record)"
    using assms
    by (force simp: prepare_turn_def admitted_request_def turn_policy_def Let_def bind_res_Inr st model
        split: prod.splits)
  with tail show ?thesis by blast
qed

text \<open>
  C5: when a request continues a stored turn, the messages of that turn are the first messages of
  every upstream request of the new one, unchanged and in their order, so the prefix cache of the
  backend stays valid: neither the lowering of the items after the replayed history, nor the role
  rules, nor any merge of adjacent messages touches them. The new items must not open with a call
  (one that does is added to the last stored message when that is an assistant's), and without a role
  policy the stored messages must hold at most one leading system message, as hoisting left them, and
  some other message.
\<close>

theorem replayed_prefix_unchanged:
  assumes t: "stream_responses E request_len loaded vision_plan plan observed request g = Inr (result, s)"
    and seen: "admitted_request E loaded vision_plan request g = Inr seen"
    and found: "find_replay_baseline (eg_key E) (gw_replay g) seen = (Some record, k)"
    and "opens_no_call (drop k (req_input seen))"
    and "turn_policy E loaded request seen \<noteq> None \<or> settled (eg_codec E) (rp_internal_messages record)"
  shows "list_all (\<lambda>r. prefix (rp_internal_messages record) (ccr_messages (bk_request r))) (tn_requests s)"
proof (cases "rp_internal_messages record = []")
  case False
  let ?base = "rp_internal_messages record"
  from t obtain A messages g' where
    p: "prepare_turn E request_len loaded vision_plan plan observed request g = (Inr (A, messages), g')"
    and s: "s = snd (spawn_turn E A (start_turn (gw_uuid g') (gw_images g') (gw_replay g') (gw_unknown_tools g') A messages))"
    by (auto simp: stream_responses_def bind_res_Inr split: prod.splits)
  from prepare_turn_replay [OF p seen found] obtain tail active lowered where
    tail: "req_input tail = drop k (req_input seen)"
    and l: "lower_request_with_image_agent_and_roles (eg_codec E) tail ?base active
      (turn_policy E loaded request seen) = Inr lowered"
    and m: "messages = lt_messages lowered" "ta_replay_prefix_len A = length ?base" by blast
  from lowering_keeps_baseline [OF l] assms(4,5) tail False have "prefix ?base messages" by (simp add: m(1))
  then have "length ?base \<le> length messages" "take (length ?base) messages = ?base"
    by (auto simp: prefix_def)
  with spawn_turn_prefix [of A messages] m(2) show ?thesis
    unfolding s by (simp add: list_all_iff) (metis take_is_prefix)
qed (simp add: list_all_iff)

subsection \<open>A continued conversation\<close>

definition sample_answer_item :: response_item where
  "sample_answer_item = Message (Some ''msg_0'') ''assistant'' [OutputText ''hi''] None"

definition sample_record :: replay_record where
  "sample_record = \<lparr>rp_model = ''m'', rp_instructions = [],
     rp_visible_history = [sample_user_item, sample_answer_item],
     rp_internal_messages = [content_only_message ''user'' ''hello'', sample_assistant]\<rparr>"

definition sample_gateway :: gateway where
  "sample_gateway = \<lparr>gw_uuid = 0, gw_images = image_cache_new 4 1000,
     gw_replay = replay_insert sample_key sample_record (replay_new 8), gw_unknown_tools = []\<rparr>"

definition sample_continuation :: responses_request where
  "sample_continuation = sample_turn_request\<lparr>req_tool_choice := JStr ''auto'', req_input :=
     [sample_user_item, sample_answer_item, Message None ''user'' [InputText ''more''] None]\<rparr>"

lemma sample_found: "find_replay_baseline sample_key (gw_replay sample_gateway) sample_continuation
    = (Some sample_record, 2)"
  by code_simp

lemma sample_admitted:
  "admitted_request sample_engine (Inl (internal_error ''down'')) [] sample_continuation sample_gateway
    = Inr sample_continuation"
  by code_simp

lemma sample_prepared:
  "is_ok (fst (prepare_turn sample_engine (\<lambda>_. 40) (Inl (internal_error ''down'')) [] [] True
     sample_continuation sample_gateway))"
  by code_simp

theorem replayed_prefix_unchanged_witness:
  "\<exists>result s. stream_responses sample_engine (\<lambda>_. 40) (Inl (internal_error ''down'')) [] [] True
       sample_continuation sample_gateway = Inr (result, s)
     \<and> list_all (\<lambda>r. prefix (rp_internal_messages sample_record) (ccr_messages (bk_request r))) (tn_requests s)"
proof -
  have E: "eg_key sample_engine = sample_key" "eg_codec sample_engine = sample_codec"
    by (simp_all add: sample_engine_def)
  obtain result s where t: "stream_responses sample_engine (\<lambda>_. 40) (Inl (internal_error ''down'')) [] [] True
      sample_continuation sample_gateway = Inr (result, s)"
    using sample_prepared
    by (cases "prepare_turn sample_engine (\<lambda>_. 40) (Inl (internal_error ''down'')) [] [] True
        sample_continuation sample_gateway")
      (force simp: stream_responses_def is_ok_def split: sum.splits)
  have "opens_no_call (drop 2 (req_input sample_continuation))" by (simp add: sample_continuation_def)
  moreover have "settled sample_codec (rp_internal_messages sample_record)" by code_simp
  ultimately show ?thesis
    using replayed_prefix_unchanged [OF t sample_admitted sample_found [folded E(1)]] t by (auto simp: E)
qed

end
