(* ===== verification/Anthropic_Request.thy ===== *)
theory Anthropic_Request
  imports Models_Anthropic
begin

text \<open>
  Inbound Anthropic Messages requests as Responses requests
  (\<^verbatim>\<open>src/src/adapters/anthropic_to_responses.rs\<close>), and the hand-written deserializers of their
  contents (\<^verbatim>\<open>src/src/models/anthropic.rs\<close>). Fresh UUIDs come from the supply \<open>U\<close>, whose position is
  threaded. JSON printing is the parameter \<open>J\<close>; printing a \<^verbatim>\<open>Value\<close> cannot fail, so the error branch
  of \<^verbatim>\<open>push_function_call\<close> is not reachable.
\<close>

subsection \<open>Deserializers\<close>

text \<open>The derived decoders the hand-written ones call.\<close>

record anthropic_decoders =
  de_image_source :: "json \<Rightarrow> anthropic_image_source option"
  de_text_block :: "json \<Rightarrow> anthropic_text_block option"

text \<open>A required string, a required value and an optional field of a derived block struct.\<close>

definition string_field :: "json \<Rightarrow> string \<Rightarrow> string option" where
  "string_field v k = json_get_str v k"

definition opt_string_field :: "json \<Rightarrow> string \<Rightarrow> string option option" where
  "opt_string_field v k = (case json_get v k of None \<Rightarrow> Some None | Some f \<Rightarrow> de_opt_string f)"

definition opt_bool_field :: "json \<Rightarrow> string \<Rightarrow> bool option option" where
  "opt_bool_field v k = (case json_get v k of
     None \<Rightarrow> Some None | Some JNull \<Rightarrow> Some None | Some (JBool b) \<Rightarrow> Some (Some b) | _ \<Rightarrow> None)"

definition or_value :: "json \<Rightarrow> json option \<Rightarrow> json" where
  "or_value d opt = (case opt of Some v \<Rightarrow> v | None \<Rightarrow> d)"

fun de_all :: "('a \<Rightarrow> 'b option) \<Rightarrow> 'a list \<Rightarrow> 'b list option" where
  "de_all f [] = Some []"
| "de_all f (x # xs) = Option.bind (f x) (\<lambda>y. map_option ((#) y) (de_all f xs))"

definition de_system_content :: "anthropic_decoders \<Rightarrow> json \<Rightarrow> anthropic_system_content option" where
  "de_system_content D value =
     (case value of
        JStr txt \<Rightarrow> Some (AsText txt)
      | JArr vs \<Rightarrow> map_option AsBlocks (de_all (de_text_block D) vs)
      | JNull \<Rightarrow> Some (AsText [])
      | _ \<Rightarrow> None)"

lemma size_obj_get [termination_simp]:
  "obj_get m k = Some v \<Longrightarrow> size v < Suc (size_list (size_prod (\<lambda>_. 0) size) m)"
  by (induction m) (auto split: if_splits)

lemma size_json_get: "json_get v k = Some f \<Longrightarrow> size f < size v"
  by (cases v) (auto dest: size_obj_get)

text \<open>
  The two mutually recursive deserializers of contents and blocks. The optional \<^verbatim>\<open>content\<close> of a tool
  result reads \<^verbatim>\<open>null\<close> as absent.
\<close>

function de_anthropic_content :: "anthropic_decoders \<Rightarrow> json \<Rightarrow> anthropic_content option"
  and de_anthropic_block ::
    "anthropic_decoders \<Rightarrow> json \<Rightarrow> anthropic_content anthropic_content_block option"
  and de_anthropic_blocks ::
    "anthropic_decoders \<Rightarrow> json list \<Rightarrow> anthropic_content anthropic_content_block list option"
where
  "de_anthropic_content D value =
     (case value of
        JStr txt \<Rightarrow> Some (AcText txt)
      | JArr vs \<Rightarrow> map_option AcBlocks (de_anthropic_blocks D vs)
      | JNull \<Rightarrow> Some (AcText [])
      | _ \<Rightarrow> None)"
| "de_anthropic_block D value =
     (case json_get_str value ''type'' of
        None \<Rightarrow> Some (AbOther value)
      | Some kind \<Rightarrow>
          if kind = ''text'' then map_option AbText (string_field value ''text'')
          else if kind = ''image''
          then map_option AbImage (Option.bind (json_get value ''source'') (de_image_source D))
          else if kind = ''tool_use''
          then Option.bind (string_field value ''id'') (\<lambda>i.
               Option.bind (string_field value ''name'') (\<lambda>name.
               map_option (AbToolUse i name) (json_get value ''input'')))
          else if kind = ''thinking''
          then Option.bind (string_field value ''thinking'') (\<lambda>thinking.
               map_option (AbThinking thinking) (opt_string_field value ''signature''))
          else if kind = ''redacted_thinking''
          then map_option AbRedactedThinking (string_field value ''data'')
          else if kind = ''tool_result''
          then Option.bind (string_field value ''tool_use_id'') (\<lambda>i.
               Option.bind (case json_get value ''content'' of
                   None \<Rightarrow> Some None
                 | Some c \<Rightarrow> if c = JNull then Some None
                     else map_option Some (de_anthropic_content D c)) (\<lambda>content.
               map_option (AbToolResult i content) (opt_bool_field value ''is_error'')))
          else if kind = ''server_tool_use''
          then Option.bind (string_field value ''id'') (\<lambda>i.
               map_option (\<lambda>name. AbServerToolUse i name
                   (or_value default_object (json_get value ''input'')))
                 (string_field value ''name''))
          else if kind = ''web_search_tool_result''
          then map_option (\<lambda>i. AbWebSearchToolResult i (or_value JNull (json_get value ''content'')))
                 (string_field value ''tool_use_id'')
          else Some (AbOther value))"
| "de_anthropic_blocks D [] = Some []"
| "de_anthropic_blocks D (v # vs) =
     Option.bind (de_anthropic_block D v) (\<lambda>b. map_option ((#) b) (de_anthropic_blocks D vs))"
  by pat_completeness auto
termination
  by (relation "measure (\<lambda>x. case x of Inl (D, v) \<Rightarrow> 2 * size v
      | Inr (Inl (D, v)) \<Rightarrow> 2 * size v + 1 | Inr (Inr (D, vs)) \<Rightarrow> 2 * size_list size vs)")
    (auto dest: size_json_get)

subsection \<open>Injected lines\<close>

text \<open>
  \<^verbatim>\<open>str::lines\<close>: a line ends at a line feed, which is dropped with a carriage return before it; text
  after the last line feed is a line when it is not empty. The first argument is the current line,
  reversed.
\<close>

fun lines_from :: "string \<Rightarrow> string \<Rightarrow> string list" where
  "lines_from acc [] = (if acc = [] then [] else [rev acc])"
| "lines_from acc (c # cs) =
     (if c = CHR 0x0A
      then rev (case acc of a # rest \<Rightarrow> if a = CHR 0x0D then rest else acc | [] \<Rightarrow> []) # lines_from [] cs
      else lines_from (c # acc) cs)"

definition str_lines :: "string \<Rightarrow> string list" where
  "str_lines s = lines_from [] s"

definition join_filtered_lines :: "string \<Rightarrow> (string \<Rightarrow> bool) \<Rightarrow> string" where
  "join_filtered_lines txt keep =
     (let trailing_newline = (txt \<noteq> [] \<and> last txt = CHR 0x0A);
          lines = filter keep (str_lines txt)
      in if lines = [] then []
         else join [CHR 0x0A] lines @ (if trailing_newline then [CHR 0x0A] else []))"

definition strip_suffix :: "string \<Rightarrow> string \<Rightarrow> string option" where
  "strip_suffix p s = map_option rev (strip_prefix (rev p) (rev s))"

definition is_ascii_digit :: "char \<Rightarrow> bool" where
  "is_ascii_digit c = (let n = of_char c :: nat in 48 \<le> n \<and> n \<le> 57)"

definition is_date_injection_line :: "string \<Rightarrow> bool" where
  "is_date_injection_line line =
     (case strip_prefix ''Today's date is '' line of
        None \<Rightarrow> False
      | Some rest \<Rightarrow>
          (case strip_suffix ''.'' rest of
             None \<Rightarrow> False
           | Some date \<Rightarrow> length date = 10 \<and> date ! 4 = CHR ''-'' \<and> date ! 7 = CHR ''-''
               \<and> list_all (\<lambda>i. i = 4 \<or> i = 7 \<or> is_ascii_digit (date ! i)) [0..<10]))"

definition strip_billing_nonce :: "string \<Rightarrow> string" where
  "strip_billing_nonce txt =
     join_filtered_lines txt (\<lambda>line. strip_prefix ''x-anthropic-billing-header:'' line = None)"

definition strip_date_injection :: "string \<Rightarrow> string" where
  "strip_date_injection txt = join_filtered_lines txt (\<lambda>line. \<not> is_date_injection_line line)"

definition normalize_message_text :: "string \<Rightarrow> string \<Rightarrow> string" where
  "normalize_message_text role txt = (if role = ''user'' then strip_date_injection txt else txt)"

subsection \<open>Images and tool results\<close>

definition image_item :: "string option \<Rightarrow> string option \<Rightarrow> content_item" where
  "image_item image_url file_id = InputImage image_url file_id None"

definition image_source_to_content_item :: "anthropic_image_source \<Rightarrow> app_error + content_item" where
  "image_source_to_content_item source =
     (if ais_kind source = ''base64'' then
        (let media_type = (case ais_media_type source of Some t \<Rightarrow> t | None \<Rightarrow> ''image/png'')
         in case nonempty_str (ais_data source) of
              None \<Rightarrow> Inl (bad_request ''Anthropic base64 image source is missing data'')
            | Some data \<Rightarrow> Inr (image_item (Some (''data:'' @ media_type @ '';base64,'' @ data)) None))
      else if ais_kind source = ''url'' then
        (case nonempty_str (ais_url source) of
           None \<Rightarrow> Inl (bad_request ''Anthropic image source is missing url'')
         | Some url \<Rightarrow> Inr (image_item (Some url) None))
      else if ais_kind source = ''file'' then
        (case nonempty_str (ais_file_id source) of
           None \<Rightarrow> Inl (bad_request ''Anthropic file image source is missing file_id'')
         | Some file_id \<Rightarrow> Inr (image_item None (Some file_id)))
      else Inl (bad_request (''unsupported Anthropic image source type \"'' @ ais_kind source @ ''\"'')))"

text \<open>The texts and the images of a tool result; blocks of other kinds are dropped.\<close>

fun tool_result_parts ::
  "anthropic_content anthropic_content_block list \<Rightarrow> app_error + string list \<times> content_item list" where
  "tool_result_parts [] = Inr ([], [])"
| "tool_result_parts (AbText txt # bs) =
     bind_res (tool_result_parts bs) (\<lambda>(texts, images). Inr (txt # texts, images))"
| "tool_result_parts (AbImage source # bs) =
     bind_res (image_source_to_content_item source) (\<lambda>image.
     bind_res (tool_result_parts bs) (\<lambda>(texts, images). Inr (texts, image # images)))"
| "tool_result_parts (_ # bs) = tool_result_parts bs"

definition extract_tool_result_parts ::
  "anthropic_content option \<Rightarrow> app_error + json \<times> content_item list" where
  "extract_tool_result_parts content =
     (case content of
        None \<Rightarrow> Inr (JNull, [])
      | Some (AcText txt) \<Rightarrow> Inr (JStr txt, [])
      | Some (AcBlocks blocks) \<Rightarrow>
          bind_res (tool_result_parts blocks) (\<lambda>(texts, images).
            Inr (case texts of
                   [txt] \<Rightarrow> JStr txt
                 | [] \<Rightarrow> if images = [] then JNull else JStr ''[image returned]''
                 | _ \<Rightarrow> JStr (join [CHR 0x0A] texts), images)))"

subsection \<open>Messages\<close>

definition text_message_item :: "string \<Rightarrow> string \<Rightarrow> response_item" where
  "text_message_item role txt =
     Message None role (if role = ''user'' then [InputText txt] else [OutputText txt]) None"

text \<open>The position in the UUID supply, the items pushed and the parts not flushed yet.\<close>

type_synonym convert_state = "nat \<times> response_item list \<times> content_item list"

definition flush_message :: "string \<Rightarrow> convert_state \<Rightarrow> convert_state" where
  "flush_message role s =
     (let (n, items, content) = s
      in if content = [] then s else (n, items @ [Message None role content None], []))"

definition push_items :: "response_item list \<Rightarrow> convert_state \<Rightarrow> convert_state" where
  "push_items new s = (let (n, items, content) = s in (n, items @ new, content))"

definition push_part :: "content_item \<Rightarrow> convert_state \<Rightarrow> convert_state" where
  "push_part part s = (let (n, items, content) = s in (n, items, content @ [part]))"

definition push_function_call ::
  "json_codec \<Rightarrow> string \<Rightarrow> string \<Rightarrow> json \<Rightarrow> convert_state \<Rightarrow> convert_state" where
  "push_function_call J call_id name input =
     push_items [FunctionCall None name None (to_json_string J input) call_id]"

definition forwarded_signature :: "string option \<Rightarrow> string option" where
  "forwarded_signature signature =
     (case signature of
        None \<Rightarrow> None
      | Some sg \<Rightarrow> if sg \<noteq> [] \<and> strip_prefix synthetic_signature_prefix sg = None
          then Some sg else None)"

definition push_thinking ::
  "uuid_supply \<Rightarrow> string \<Rightarrow> string option \<Rightarrow> convert_state \<Rightarrow> convert_state" where
  "push_thinking U thinking signature s =
     (let (n, items, content) = s
      in (Suc n, items @ [Reasoning (''rsn_'' @ U n) [] (Some [ReasoningText thinking])
            (forwarded_signature signature)], content))"

fun convert_block ::
  "json_codec \<Rightarrow> uuid_supply \<Rightarrow> string \<Rightarrow> anthropic_content anthropic_content_block \<Rightarrow> convert_state
     \<Rightarrow> app_error + convert_state" where
  "convert_block J U role (AbText txt) s =
     (if role = ''user'' then
        (let txt' = strip_date_injection txt
         in Inr (if txt' = [] then s else push_part (InputText txt') s))
      else Inr (push_part (OutputText (normalize_message_text role txt)) s))"
| "convert_block J U role (AbImage source) s =
     bind_res (image_source_to_content_item source) (\<lambda>image. Inr (push_part image s))"
| "convert_block J U role (AbToolUse call_id name input) s =
     Inr (push_function_call J call_id name input (flush_message role s))"
| "convert_block J U role (AbToolResult tool_use_id content is_error) s =
     bind_res (extract_tool_result_parts content) (\<lambda>(output, images).
       Inr (push_items (FunctionCallOutput tool_use_id output
              # (if images = [] then [] else [Message None ''user'' images None]))
            (flush_message role s)))"
| "convert_block J U role (AbServerToolUse call_id name input) s =
     Inr (push_function_call J call_id name input (flush_message role s))"
| "convert_block J U role (AbWebSearchToolResult tool_use_id content) s =
     Inr (push_items [FunctionCallOutput tool_use_id content] (flush_message role s))"
| "convert_block J U role (AbThinking thinking signature) s =
     Inr (push_thinking U thinking signature (flush_message role s))"
| "convert_block J U role (AbRedactedThinking data) s = Inr s"
| "convert_block J U role (AbOther value) s = Inr (push_part (OtherContent value) s)"

fun convert_blocks ::
  "json_codec \<Rightarrow> uuid_supply \<Rightarrow> string \<Rightarrow> anthropic_content anthropic_content_block list
     \<Rightarrow> convert_state \<Rightarrow> app_error + convert_state" where
  "convert_blocks J U role [] s = Inr s"
| "convert_blocks J U role (b # bs) s =
     bind_res (convert_block J U role b s) (convert_blocks J U role bs)"

definition convert_anthropic_message ::
  "json_codec \<Rightarrow> uuid_supply \<Rightarrow> anthropic_message \<Rightarrow> nat \<times> response_item list
     \<Rightarrow> app_error + nat \<times> response_item list" where
  "convert_anthropic_message J U message s =
     (let role = am_role message; (n, items) = s
      in case am_content message of
           AcText txt \<Rightarrow>
             (let txt' = (if role = ''user'' then strip_date_injection txt
                          else normalize_message_text role txt)
              in Inr (n, if txt' = [] then items else items @ [text_message_item role txt']))
         | AcBlocks blocks \<Rightarrow>
             bind_res (convert_blocks J U role blocks (n, items, [])) (\<lambda>s.
               let (n, items, content) = flush_message role s in Inr (n, items)))"

fun convert_anthropic_messages ::
  "json_codec \<Rightarrow> uuid_supply \<Rightarrow> anthropic_message list \<Rightarrow> nat \<times> response_item list
     \<Rightarrow> app_error + nat \<times> response_item list" where
  "convert_anthropic_messages J U [] s = Inr s"
| "convert_anthropic_messages J U (m # ms) s =
     bind_res (convert_anthropic_message J U m s) (convert_anthropic_messages J U ms)"

subsection \<open>The other fields\<close>

definition text_of_block :: "anthropic_text_block \<Rightarrow> string" where
  "text_of_block b = (case b of AtbText txt \<Rightarrow> strip_billing_nonce txt)"

definition extract_system_text :: "anthropic_system_content option \<Rightarrow> string" where
  "extract_system_text system =
     (case system of
        Some (AsText txt) \<Rightarrow> strip_billing_nonce txt
      | Some (AsBlocks blocks) \<Rightarrow> join [CHR 0x0A] (map text_of_block blocks)
      | None \<Rightarrow> [])"

definition thinking_effort_for_budget :: "nat \<Rightarrow> string" where
  "thinking_effort_for_budget budget =
     (if budget \<le> 5000 then ''low'' else if budget \<le> 20000 then ''medium'' else ''high'')"

definition budget_reasoning :: "nat option \<Rightarrow> reasoning_request" where
  "budget_reasoning budget_tokens =
     \<lparr>rr_effort = Some (thinking_effort_for_budget
        (case budget_tokens of Some b \<Rightarrow> b | None \<Rightarrow> 10000)), rr_summary = None\<rparr>"

definition convert_thinking ::
  "anthropic_thinking option \<Rightarrow> reasoning_request option \<times> json_map" where
  "convert_thinking thinking =
     (case thinking of
        None \<Rightarrow> (None, [])
      | Some AthDisabled \<Rightarrow> (None, [])
      | Some (AthEnabled budget) \<Rightarrow> (Some (budget_reasoning budget), [])
      | Some (AthAdaptive budget) \<Rightarrow> (Some (budget_reasoning budget), []))"

definition output_config_effort :: "json option \<Rightarrow> string option" where
  "output_config_effort output_config =
     Option.bind (Option.bind (Option.bind output_config as_object) (\<lambda>m. map_get_str m ''effort''))
       (\<lambda>effort. if trim effort = [] then None else Some (trim effort))"

definition apply_output_config_effort ::
  "reasoning_request option \<Rightarrow> anthropic_thinking option \<Rightarrow> json option \<Rightarrow> reasoning_request option"
where
  "apply_output_config_effort reasoning thinking output_config =
     (case thinking of
        Some (AthAdaptive _) \<Rightarrow>
          (case output_config_effort output_config of
             None \<Rightarrow> reasoning
           | Some effort \<Rightarrow> Some \<lparr>rr_effort = Some effort,
               rr_summary = Option.bind reasoning rr_summary\<rparr>)
      | _ \<Rightarrow> reasoning)"

definition json_schema_format :: "json_map \<Rightarrow> json \<Rightarrow> text_controls" where
  "json_schema_format format schema =
     \<lparr>txt_verbosity = None, txt_format = Some
        \<lparr>tf_kind = ''json_schema'',
         tf_strict = (case Option.bind (obj_get format ''strict'') as_bool of
                        Some b \<Rightarrow> b | None \<Rightarrow> True),
         tf_schema = schema,
         tf_name = (case map_get_str format ''name'' of
                      Some name \<Rightarrow> if trim name = [] then ''response'' else name
                    | None \<Rightarrow> ''response'')\<rparr>\<rparr>"

definition convert_output_format :: "json_map \<Rightarrow> app_error + text_controls option" where
  "convert_output_format format =
     (case map_get_str format ''type'' of
        None \<Rightarrow> Inl (bad_request ''Anthropic output_config.format is missing type'')
      | Some kind \<Rightarrow>
          if kind \<noteq> ''json_schema''
          then Inl (bad_request (''Anthropic output_config.format type \"'' @ kind @
                  ''\" is not supported by this gateway''))
          else (case obj_get format ''schema'' of
              None \<Rightarrow> Inl (bad_request
                ''Anthropic output_config.format json_schema is missing schema'')
            | Some schema \<Rightarrow> Inr (Some (json_schema_format format schema))))"

definition convert_output_config :: "json option \<Rightarrow> app_error + text_controls option" where
  "convert_output_config output_config =
     (case output_config of
        None \<Rightarrow> Inr None
      | Some v \<Rightarrow>
          (case as_object v of
             None \<Rightarrow> Inl (bad_request ''Anthropic output_config must be a JSON object'')
           | Some config \<Rightarrow>
               (case obj_get config ''format'' of
                  None \<Rightarrow> Inr None
                | Some format \<Rightarrow>
                    if is_null format then Inr None
                    else (case as_object format of
                        None \<Rightarrow> Inl (bad_request
                          ''Anthropic output_config.format must be a JSON object'')
                      | Some m \<Rightarrow> convert_output_format m))))"

fun convert_tool_choice :: "anthropic_tool_choice option \<Rightarrow> json" where
  "convert_tool_choice None = JStr ''auto''"
| "convert_tool_choice (Some AtcAuto) = JStr ''auto''"
| "convert_tool_choice (Some AtcAny) = JStr ''required''"
| "convert_tool_choice (Some AtcNone) = JStr ''none''"
| "convert_tool_choice (Some (AtcTool name)) =
     jobj [(''type'', JStr ''function''), (''function'', jobj [(''name'', JStr name)])]"

definition convert_metadata :: "json option \<Rightarrow> app_error + json_map option" where
  "convert_metadata metadata =
     (case metadata of
        None \<Rightarrow> Inr None
      | Some (JObj m) \<Rightarrow> Inr (Some m)
      | Some _ \<Rightarrow> Inl (bad_request ''Anthropic metadata must be a JSON object''))"

definition convert_anthropic_tool :: "anthropic_tool \<Rightarrow> tool_spec" where
  "convert_anthropic_tool tool =
     (if at_name tool = ''web_search'' then TsWebSearch None None None None None
      else TsFunction (at_name tool)
        (case at_description tool of Some d \<Rightarrow> d | None \<Rightarrow> []) False (at_input_schema tool))"

definition convert_anthropic_tools :: "anthropic_tool list option \<Rightarrow> tool_spec list" where
  "convert_anthropic_tools tools =
     (case tools of Some ts \<Rightarrow> map convert_anthropic_tool (sort_key at_name ts) | None \<Rightarrow> [])"

definition convert_max_tokens :: "nat option \<Rightarrow> app_error + int option" where
  "convert_max_tokens max_tokens =
     (case max_tokens of
        None \<Rightarrow> Inr None
      | Some v \<Rightarrow> if v < 2 ^ 63 then Inr (Some (int v))
          else Inl (bad_request ''Anthropic max_tokens exceeds supported range''))"

subsection \<open>Requests\<close>

definition thinking_on :: "anthropic_thinking option \<Rightarrow> bool" where
  "thinking_on thinking = (case thinking of
     Some (AthEnabled _) \<Rightarrow> True | Some (AthAdaptive _) \<Rightarrow> True | _ \<Rightarrow> False)"

definition convert_anthropic_request ::
  "json_codec \<Rightarrow> uuid_supply \<Rightarrow> anthropic_request \<Rightarrow> app_error + responses_request" where
  "convert_anthropic_request J U request =
     (if ar_top_k request \<noteq> None
      then Inl (bad_request ''Anthropic top_k is not supported by this gateway'')
      else
        bind_res (convert_anthropic_messages J U (ar_messages request) (0, [])) (\<lambda>(_, input).
        let (reasoning, extra_body) = convert_thinking (ar_thinking request) in
        bind_res (normalize_stop (ar_stop_sequences request)) (\<lambda>stop.
        bind_res (convert_metadata (ar_metadata request)) (\<lambda>metadata.
        bind_res (convert_output_config (ar_output_config request)) (\<lambda>text_controls.
        bind_res (convert_max_tokens (ar_max_tokens request)) (\<lambda>max_output_tokens.
        Inr \<lparr>req_model = ar_model request,
             req_instructions = extract_system_text (ar_system request),
             req_input = input,
             req_tools = convert_anthropic_tools (ar_tools request),
             req_tool_choice = convert_tool_choice (ar_tool_choice request),
             req_parallel_tool_calls = None,
             req_reasoning = apply_output_config_effort reasoning (ar_thinking request)
               (ar_output_config request),
             req_thinking = Some (thinking_on (ar_thinking request)),
             req_store = False, req_stream = True, req_include = [],
             req_service_tier = None, req_prompt_cache_key = None,
             req_text = text_controls,
             req_client_metadata = None, req_previous_response_id = None,
             req_temperature = ar_temperature request, req_top_p = ar_top_p request,
             req_max_output_tokens = max_output_tokens,
             req_frequency_penalty = None, req_presence_penalty = None,
             req_truncation = None, req_metadata = metadata, req_stop = stop,
             req_extra_body = extra_body\<rparr>))))))"

end
