(* ===== verification/Anthropic_Request_Correct.thy ===== *)
theory Anthropic_Request_Correct
  imports Anthropic_Request Chat_Request_Correct
begin

text \<open>
  Correctness of the inbound Anthropic conversion: the calls and the results of the conversation
  reach the upstream in order, which requests are rejected, the lines that change from request to
  request do not reach the upstream, and no signature the gateway minted is forwarded.
\<close>

subsection \<open>Calls and results\<close>

type_synonym block = "anthropic_content anthropic_content_block"

fun block_calls :: "block \<Rightarrow> (string \<times> string \<times> json) list" where
  "block_calls (AbToolUse i name input) = [(i, name, input)]"
| "block_calls (AbServerToolUse i name input) = [(i, name, input)]"
| "block_calls _ = []"

text \<open>
  The text a tool result stands for: its own text, or the texts of its blocks, one per line; without
  any text the placeholder of an image, and otherwise the JSON text \<^verbatim>\<open>null\<close>.
\<close>

fun block_text :: "block \<Rightarrow> string option" where
  "block_text (AbText t) = Some t"
| "block_text _ = None"

fun is_image_block :: "block \<Rightarrow> bool" where
  "is_image_block (AbImage _) = True"
| "is_image_block _ = False"

definition result_text :: "json_codec \<Rightarrow> anthropic_content option \<Rightarrow> string" where
  "result_text J content = (case content of
     None \<Rightarrow> to_json_string J JNull
   | Some (AcText t) \<Rightarrow> t
   | Some (AcBlocks bs) \<Rightarrow>
       if list_ex (\<lambda>b. block_text b \<noteq> None) bs then join [CHR 0x0A] (List.map_filter block_text bs)
       else if list_ex is_image_block bs then ''[image returned]'' else to_json_string J JNull)"

text \<open>A result, as the id it answers and the content of the message that carries it.\<close>

fun block_answers :: "json_codec \<Rightarrow> block \<Rightarrow> (string \<times> json option) list" where
  "block_answers J (AbToolResult i content _) = [(i, Some (JStr (result_text J content)))]"
| "block_answers J (AbWebSearchToolResult i content) = [(i, Some (JStr (stringify_tool_output J content)))]"
| "block_answers J _ = []"

definition content_blocks :: "anthropic_content \<Rightarrow> block list" where
  "content_blocks c = (case c of AcText _ \<Rightarrow> [] | AcBlocks bs \<Rightarrow> bs)"

definition message_blocks :: "anthropic_message list \<Rightarrow> block list" where
  "message_blocks ms = concat (map (content_blocks \<circ> am_content) ms)"

definition request_calls :: "anthropic_request \<Rightarrow> (string \<times> string \<times> json) list" where
  "request_calls r = concat (map block_calls (message_blocks (ar_messages r)))"

definition request_answers :: "json_codec \<Rightarrow> anthropic_request \<Rightarrow> (string \<times> json option) list" where
  "request_answers J r = concat (map (block_answers J) (message_blocks (ar_messages r)))"

fun call_item :: "json_codec \<Rightarrow> string \<times> string \<times> json \<Rightarrow> response_item" where
  "call_item J (i, name, input) = FunctionCall None name None (to_json_string J input) i"

fun item_answers :: "json_codec \<Rightarrow> response_item \<Rightarrow> (string \<times> json option) list" where
  "item_answers J (FunctionCallOutput i out) = [(i, Some (JStr (stringify_tool_output J out)))]"
| "item_answers J _ = []"

fun converted_item :: "response_item \<Rightarrow> bool" where
  "converted_item (Message _ _ _ _) = True"
| "converted_item (Reasoning _ _ _ _) = True"
| "converted_item (FunctionCall _ _ _ _ _) = True"
| "converted_item (FunctionCallOutput _ _) = True"
| "converted_item _ = False"

text \<open>What a block, a list of blocks or a message adds to the items.\<close>

definition adds ::
  "json_codec \<Rightarrow> block list \<Rightarrow> response_item list \<Rightarrow> response_item list \<Rightarrow> bool" where
  "adds J bs items items' \<longleftrightarrow> (\<exists>new. items' = items @ new \<and> list_all converted_item new
     \<and> filter is_call new = map (call_item J) (concat (map block_calls bs))
     \<and> concat (map (item_answers J) new) = concat (map (block_answers J) bs))"

lemma addsI:
  "items' = items @ new \<Longrightarrow> list_all converted_item new
    \<Longrightarrow> filter is_call new = map (call_item J) (concat (map block_calls bs))
    \<Longrightarrow> concat (map (item_answers J) new) = concat (map (block_answers J) bs) \<Longrightarrow> adds J bs items items'"
  unfolding adds_def by blast

lemma adds_refl [simp]: "adds J [] items items"
  by (simp add: adds_def)

lemma adds_trans: "adds J xs a b \<Longrightarrow> adds J ys b c \<Longrightarrow> adds J (xs @ ys) a c"
  unfolding adds_def by fastforce

lemmas convert_step_defs = flush_message_def push_items_def push_part_def push_function_call_def
  push_thinking_def Let_def

lemma tool_result_parts_texts: "tool_result_parts bs = Inr (texts, images)
    \<Longrightarrow> texts = List.map_filter block_text bs \<and> (images = [] \<longleftrightarrow> \<not> list_ex is_image_block bs)"
  by (induction bs arbitrary: texts images rule: tool_result_parts.induct)
    (auto simp: bind_res_Inr map_filter_simps)

lemma map_filter_empty: "List.map_filter f xs = [] \<longleftrightarrow> \<not> list_ex (\<lambda>x. f x \<noteq> None) xs"
  by (induction xs) (auto simp: map_filter_simps split: option.split)

lemma extracted_text:
  assumes "extract_tool_result_parts content = Inr (out, images)"
  shows "stringify_tool_output J out = result_text J content"
proof (cases content)
  case None
  with assms show ?thesis by (auto simp: extract_tool_result_parts_def result_text_def stringify_tool_output_def)
next
  case (Some c)
  show ?thesis
  proof (cases c)
    case (AcText t)
    with Some assms show ?thesis
      by (auto simp: extract_tool_result_parts_def result_text_def stringify_tool_output_def)
  next
    case (AcBlocks bs)
    with Some assms obtain texts where p: "tool_result_parts bs = Inr (texts, images)"
      and out: "out = (case texts of [txt] \<Rightarrow> JStr txt
        | [] \<Rightarrow> if images = [] then JNull else JStr ''[image returned]''
        | _ \<Rightarrow> JStr (join [CHR 0x0A] texts))"
      by (auto simp: extract_tool_result_parts_def bind_res_Inr)
    have parts: "List.map_filter block_text bs = texts" "list_ex is_image_block bs = (images \<noteq> [])"
      using tool_result_parts_texts [OF p] by simp_all
    then have some: "list_ex (\<lambda>b. block_text b \<noteq> None) bs = (texts \<noteq> [])"
      using map_filter_empty [of block_text bs] by auto
    consider "texts = []" | t where "texts = [t]" | t u ts where "texts = t # u # ts"
      by (metis neq_Nil_conv)
    then show ?thesis
      unfolding Some AcBlocks out result_text_def stringify_tool_output_def parts some
        option.case anthropic_content.case
      by cases simp_all
  qed
qed

lemma convert_block_adds:
  assumes "convert_block J U role b (n, items, content) = Inr (n', items', content')"
  shows "adds J [b] items items'"
proof -
  let ?flushed = "if content = [] then [] else [Message None role content None]"
  have flush: "flush_message role (n, items, content) = (n, items @ ?flushed, [])"
    by (simp add: flush_message_def)
  show ?thesis
  proof (cases b)
    case (AbToolResult i c e)
    with assms obtain result images where "items' = items @ ?flushed @
        FunctionCallOutput i result # (if images = [] then [] else [Message None ''user'' images None])"
      "extract_tool_result_parts c = Inr (result, images)"
      unfolding AbToolResult convert_block.simps bind_res_Inr flush by (auto simp: push_items_def)
    then show ?thesis using AbToolResult extracted_text [of c result images J] by (intro addsI) auto
  qed (use assms in \<open>auto simp: convert_step_defs bind_res_Inr adds_def split: if_splits\<close>)
qed

lemma convert_blocks_adds:
  "convert_blocks J U role bs s = Inr s' \<Longrightarrow> adds J bs (fst (snd s)) (fst (snd s'))"
proof (induction bs arbitrary: s)
  case (Cons b bs)
  then obtain s1 where b: "convert_block J U role b s = Inr s1" "convert_blocks J U role bs s1 = Inr s'"
    by (auto simp: bind_res_Inr)
  have "adds J [b] (fst (snd s)) (fst (snd s1))"
    using convert_block_adds [of J U role b "fst s" "fst (snd s)" "snd (snd s)"] b(1)
    by (cases s1) auto
  from adds_trans [OF this Cons.IH [OF b(2)]] show ?case by simp
qed simp

lemma convert_anthropic_message_adds:
  assumes "convert_anthropic_message J U m s = Inr s'"
  shows "adds J (content_blocks (am_content m)) (snd s) (snd s')"
proof (cases "am_content m")
  case (AcText t)
  with assms show ?thesis
    by (auto simp: convert_anthropic_message_def content_blocks_def Let_def adds_def
        text_message_item_def split: prod.splits)
next
  case (AcBlocks bs)
  with assms obtain s1 where s1: "convert_blocks J U (am_role m) bs (fst s, snd s, []) = Inr s1"
    and s': "snd s' = fst (snd (flush_message (am_role m) s1))"
    by (auto simp: convert_anthropic_message_def Let_def bind_res_Inr case_prod_beta)
  have "adds J [] (fst (snd s1)) (snd s')"
    unfolding s' by (cases s1) (auto simp: flush_message_def adds_def)
  from adds_trans [OF convert_blocks_adds [OF s1] this] show ?thesis
    by (simp add: content_blocks_def AcBlocks)
qed

lemma convert_anthropic_messages_adds:
  "convert_anthropic_messages J U ms s = Inr s' \<Longrightarrow> adds J (message_blocks ms) (snd s) (snd s')"
proof (induction ms arbitrary: s)
  case (Cons m ms)
  then obtain s1 where "convert_anthropic_message J U m s = Inr s1"
    "convert_anthropic_messages J U ms s1 = Inr s'" by (auto simp: bind_res_Inr)
  from adds_trans [OF convert_anthropic_message_adds [OF this(1)] Cons.IH [OF this(2)]]
  show ?case by (simp add: message_blocks_def)
qed (simp add: message_blocks_def)

text \<open>Lowering keeps the results: what the messages answer is what the output items answer.\<close>

definition answers :: "chat_message list \<Rightarrow> (string \<times> json option) list" where
  "answers ms = List.map_filter (\<lambda>m. map_option (\<lambda>i. (i, cm_content m)) (cm_tool_call_id m)) ms"

definition answers_are_tools :: "chat_message list \<Rightarrow> bool" where
  "answers_are_tools ms \<longleftrightarrow> list_all (\<lambda>m. cm_tool_call_id m \<noteq> None \<longrightarrow> cm_role m = ''tool'') ms"

lemma answers_simps [simp]:
  "answers [] = []" "answers (xs @ ys) = answers xs @ answers ys"
  "answers (m # ms) = (case cm_tool_call_id m of Some i \<Rightarrow> [(i, cm_content m)] | None \<Rightarrow> []) @ answers ms"
  by (simp_all add: answers_def map_filter_def split: option.split)

lemma answers_are_tools_append [simp]:
  "answers_are_tools (xs @ ys) \<longleftrightarrow> answers_are_tools xs \<and> answers_are_tools ys"
  by (simp add: answers_are_tools_def)

lemma append_tool_call_answers:
  "answers (append_tool_call ms i name args p) = answers ms
    \<and> (answers_are_tools ms \<longrightarrow> answers_are_tools (append_tool_call ms i name args p))"
proof (cases "ms \<noteq> [] \<and> cm_role (last ms) = ''assistant'' \<and> p = None")
  case True
  then obtain xs m where ms: "ms = xs @ [m]" by (meson rev_exhaust)
  with True show ?thesis
    by (auto simp: append_tool_call_def Let_def answers_are_tools_def split: option.splits)
next
  case False
  then show ?thesis
    by (auto simp: append_tool_call_def Let_def answers_are_tools_def split: option.splits prod.splits)
qed

lemma flush_answers: "answers (fst (flush_pending_reasoning ms p)) = answers ms
    \<and> (answers_are_tools ms \<longrightarrow> answers_are_tools (fst (flush_pending_reasoning ms p)))"
  by (auto simp: flush_pending_reasoning_def answers_are_tools_def split: option.splits prod.splits)

lemma lower_message_answers:
  assumes "lower_message r role content (ms, p) = Inr (ms', p')"
  shows "answers ms' = answers ms \<and> (answers_are_tools ms \<longrightarrow> answers_are_tools ms')"
  using lower_message_appends [OF assms] by (auto simp: answers_are_tools_def)

lemma lower_item_answers:
  assumes "lower_item J r item st = Inr st'" and "converted_item item"
  shows "answers (fst st') = answers (fst st) @ item_answers J item
    \<and> (answers_are_tools (fst st) \<longrightarrow> answers_are_tools (fst st'))"
proof -
  define s where "s = (if ends_assistant_turn item then flush_pending_reasoning (fst st) (snd st) else st)"
  have s: "answers (fst s) = answers (fst st)" "answers_are_tools (fst st) \<Longrightarrow> answers_are_tools (fst s)"
    using flush_answers [of "fst st" "snd st"] by (auto simp: s_def)
  obtain ms p where ms: "s = (ms, p)" by fastforce
  from assms(1) have b: "lower_item_body J r item (ms, p) = Inr st'"
    by (simp add: lower_item_def s_def [symmetric] ms)
  have "answers (fst st') = answers ms @ item_answers J item
    \<and> (answers_are_tools ms \<longrightarrow> answers_are_tools (fst st'))"
    using b assms(2)
    by (cases item; cases st')
      (auto dest: lower_message_answers simp: bind_res_Inr append_tool_call_answers tool_message_def
        Let_def, simp_all add: answers_are_tools_def)
  with s ms show ?thesis by auto
qed

lemma lower_items_answers:
  "lower_items J r items st = Inr st' \<Longrightarrow> list_all converted_item items
    \<Longrightarrow> answers (fst st') = answers (fst st) @ concat (map (item_answers J) items)
      \<and> (answers_are_tools (fst st) \<longrightarrow> answers_are_tools (fst st'))"
proof (induction items arbitrary: st)
  case (Cons item items)
  then obtain s where "lower_item J r item st = Inr s" "lower_items J r items s = Inr st'"
    by (auto simp: bind_res_Inr)
  with lower_item_answers [of J r item st s] Cons.IH [of s] Cons.prems(2) show ?case by auto
qed simp

lemma hoist_answers: "answers_are_tools ms \<Longrightarrow> answers (hoist_system_messages J ms) = answers ms"
proof -
  assume t: "answers_are_tools ms"
  let ?p = "\<lambda>m. cm_role m = ''system''"
  have "answers (takeWhile ?p ms) = []"
    using t by (induction ms) (auto simp: answers_are_tools_def)
  moreover have "answers ms = answers (takeWhile ?p ms @ dropWhile ?p ms)" by simp
  ultimately have "answers (dropWhile ?p ms) = answers ms"
    unfolding answers_simps(2) by simp
  then show ?thesis
    by (simp add: hoist_system_messages_def Let_def content_only_message_def)
qed

text \<open>
  C19: an Anthropic conversation reaches the upstream with all its calls and results: when a request
  is converted and the whole of it is lowered, that is without a replayed baseline, and without a role
  policy (which may drop or rewrite messages), the tool calls of the upstream messages are exactly
  those of the \<^verbatim>\<open>tool_use\<close> and \<^verbatim>\<open>server_tool_use\<close> blocks, in order, with their id, name and input, and
  the upstream messages that answer a call are exactly those of the result blocks, in order, each with
  the id it answers and the text of the result: its text blocks one per line, a placeholder for images
  alone, and the JSON text of a web search result. The JSON codec must read back the inputs it prints.
\<close>

theorem anthropic_calls_reach_upstream:
  assumes "convert_anthropic_request J U r = Inr converted"
    and lowered: "lower_request_with_image_agent_and_roles J converted [] active None = Inr t"
    and codec: "list_all (\<lambda>(i, name, input). from_json_str J (to_json_string J input) = Inr input)
      (request_calls r)"
  shows "list_all2 (\<lambda>(i, name, input) c. carries (Some i) name input c)
      (request_calls r) (all_calls (lt_messages t))
    \<and> answers (lt_messages t) = request_answers J r"
proof -
  obtain s where s: "convert_anthropic_messages J U (ar_messages r) (0, []) = Inr s"
    "req_input converted = snd s"
    using assms(1) by (auto simp: convert_anthropic_request_def bind_res_Inr Let_def case_prod_beta
        split: if_splits)
  from convert_anthropic_messages_adds [OF s(1)] s(2)
  have items: "list_all converted_item (req_input converted)"
    "filter is_call (req_input converted) = map (call_item J) (request_calls r)"
    "concat (map (item_answers J) (req_input converted)) = request_answers J r"
    by (auto simp: adds_def request_calls_def request_answers_def)
  from lowered have "lower_request_with_image_agent J converted [] active = Inr t"
    by (simp add: lower_request_with_image_agent_def)
  then obtain st where st: "lower_items J False (req_input converted)
      (seed_messages converted [], None) = Inr st"
    and t: "lt_messages t = hoist_system_messages J (fst (flush_pending_reasoning (fst st) (snd st)))"
    by (rule lower_request_messages)
  have seed: "assistant_only (seed_messages converted [])" "all_calls (seed_messages converted []) = []"
    using seed_shape [of "[]" converted] by simp_all
  have quiet: "answers (seed_messages converted []) = []" "answers_are_tools (seed_messages converted [])"
    by (simp_all add: seed_messages_def content_only_message_def answers_are_tools_def)
  from lower_items_shape [OF st] seed(1) have "assistant_only (fst st)" by simp
  from hoist_shape [OF conjunct1 [OF flush_shape [OF this]], of J "snd st"] t
  have "all_calls (lt_messages t) = all_calls (fst st)" by simp
  with lower_items_calls [OF st] seed(2) items(2)
  have m: "list_all2 (call_matches J) (map (call_item J) (request_calls r)) (all_calls (lt_messages t))"
    by auto
  from m codec have "list_all2 (\<lambda>(i, name, input) c. carries (Some i) name input c)
      (request_calls r) (all_calls (lt_messages t))"
    by (auto simp: list_all2_conv_all_nth list_all_length split: prod.splits)
  moreover have "answers (lt_messages t) = request_answers J r"
    using lower_items_answers [OF st items(1)] quiet items(3) t flush_answers [of "fst st" "snd st"]
    by (simp add: hoist_answers)
  ultimately show ?thesis by simp
qed

subsection \<open>Rejected requests\<close>

definition source_ok :: "anthropic_image_source \<Rightarrow> bool" where
  "source_ok src \<longleftrightarrow>
     ais_kind src = ''base64'' \<and> nonempty_str (ais_data src) \<noteq> None
     \<or> ais_kind src = ''url'' \<and> nonempty_str (ais_url src) \<noteq> None
     \<or> ais_kind src = ''file'' \<and> nonempty_str (ais_file_id src) \<noteq> None"

fun nested_sources :: "block list \<Rightarrow> anthropic_image_source list" where
  "nested_sources [] = []"
| "nested_sources (AbImage src # bs) = src # nested_sources bs"
| "nested_sources (_ # bs) = nested_sources bs"

fun block_sources :: "block \<Rightarrow> anthropic_image_source list" where
  "block_sources (AbImage src) = [src]"
| "block_sources (AbToolResult _ (Some (AcBlocks bs)) _) = nested_sources bs"
| "block_sources _ = []"

lemma source_ok: "is_ok (image_source_to_content_item src) \<longleftrightarrow> source_ok src"
  by (auto simp: image_source_to_content_item_def source_ok_def Let_def split: option.splits)

lemma tool_result_parts_ok: "is_ok (tool_result_parts bs) \<longleftrightarrow> list_all source_ok (nested_sources bs)"
proof (induction bs rule: tool_result_parts.induct)
  case (3 src bs)
  then show ?case
    by (cases "image_source_to_content_item src"; cases "tool_result_parts bs")
      (auto simp flip: source_ok)
qed (simp_all add: is_ok_bind_indep [where P = True] case_prod_beta)

lemma extract_ok: "is_ok (extract_tool_result_parts c) \<longleftrightarrow>
    (case c of Some (AcBlocks bs) \<Rightarrow> list_all source_ok (nested_sources bs) | _ \<Rightarrow> True)"
  by (auto simp: extract_tool_result_parts_def tool_result_parts_ok [symmetric]
      is_ok_bind_indep [where P = True] case_prod_beta split: option.split anthropic_content.split)

lemma convert_block_ok: "is_ok (convert_block J U role b s) \<longleftrightarrow> list_all source_ok (block_sources b)"
proof (cases b)
  case (AbToolResult i c e)
  then show ?thesis
    by (auto simp: is_ok_bind_indep [where P = True] case_prod_beta extract_ok
        split: option.split anthropic_content.split)
qed (simp_all add: is_ok_bind_indep [where P = True] source_ok Let_def)

lemma convert_blocks_ok:
  "is_ok (convert_blocks J U role bs s) \<longleftrightarrow> list_all source_ok (concat (map block_sources bs))"
proof (induction bs arbitrary: s)
  case (Cons b bs)
  show ?case unfolding convert_blocks.simps
    by (subst is_ok_bind_indep [where P = "list_all source_ok (concat (map block_sources bs))"])
      (simp_all add: Cons.IH convert_block_ok)
qed simp

lemma convert_anthropic_message_ok: "is_ok (convert_anthropic_message J U m s) \<longleftrightarrow>
    list_all source_ok (concat (map block_sources (content_blocks (am_content m))))"
  by (auto simp: convert_anthropic_message_def Let_def case_prod_beta content_blocks_def
      is_ok_bind_indep [where P = True] convert_blocks_ok split: anthropic_content.split)

lemma convert_anthropic_messages_ok: "is_ok (convert_anthropic_messages J U ms s) \<longleftrightarrow>
    list_all source_ok (concat (map block_sources (message_blocks ms)))"
proof (induction ms arbitrary: s)
  case (Cons m ms)
  show ?case unfolding convert_anthropic_messages.simps
    by (subst is_ok_bind_indep
        [where P = "list_all source_ok (concat (map block_sources (message_blocks ms)))"])
      (simp_all add: Cons.IH convert_anthropic_message_ok message_blocks_def)
qed (simp add: message_blocks_def)

definition output_config_ok :: "json option \<Rightarrow> bool" where
  "output_config_ok oc \<longleftrightarrow> (case oc of
     None \<Rightarrow> True
   | Some (JObj m) \<Rightarrow> (case obj_get m ''format'' of
       None \<Rightarrow> True
     | Some JNull \<Rightarrow> True
     | Some (JObj f) \<Rightarrow> map_get_str f ''type'' = Some ''json_schema'' \<and> obj_get f ''schema'' \<noteq> None
     | Some _ \<Rightarrow> False)
   | Some _ \<Rightarrow> False)"

lemma convert_output_config_ok: "is_ok (convert_output_config oc) \<longleftrightarrow> output_config_ok oc"
  by (auto simp: convert_output_config_def output_config_ok_def convert_output_format_def is_null_def
      split: option.splits json.splits)

lemma normalize_stop_is_ok: "is_ok (normalize_stop st) \<longleftrightarrow>
    (case st of None \<Rightarrow> True | Some vs \<Rightarrow> length (filter (\<lambda>s. s \<noteq> []) vs) \<le> 4)"
  by (auto simp: normalize_stop_def Let_def openai_max_stop_sequences_def split: option.splits)

text \<open>
  C40: an Anthropic request is rejected exactly when it asks for \<^verbatim>\<open>top_k\<close>, one of its images, in a
  message or in a tool result, lacks what its source kind needs, it has more than four stop sequences
  that are not empty, its metadata is not an object, its output configuration is malformed or asks
  for an unsupported format, or its token limit exceeds 64 signed bits.
\<close>

theorem anthropic_rejections_exactly:
  "is_ok (convert_anthropic_request J U r) \<longleftrightarrow>
     ar_top_k r = None
     \<and> list_all source_ok (concat (map block_sources (message_blocks (ar_messages r))))
     \<and> (case ar_stop_sequences r of None \<Rightarrow> True | Some vs \<Rightarrow> length (filter (\<lambda>s. s \<noteq> []) vs) \<le> 4)
     \<and> (case ar_metadata r of None \<Rightarrow> True | Some v \<Rightarrow> as_object v \<noteq> None)
     \<and> output_config_ok (ar_output_config r)
     \<and> (case ar_max_tokens r of None \<Rightarrow> True | Some v \<Rightarrow> v < 2 ^ 63)"
proof -
  have metadata: "is_ok (convert_metadata md) \<longleftrightarrow> (case md of None \<Rightarrow> True | Some v \<Rightarrow> as_object v \<noteq> None)"
    for md by (auto simp: convert_metadata_def split: option.split json.split)
  have tokens: "is_ok (convert_max_tokens mt) \<longleftrightarrow> (case mt of None \<Rightarrow> True | Some v \<Rightarrow> v < 2 ^ 63)" for mt
    by (auto simp: convert_max_tokens_def split: option.split)
  have chain: "is_ok (bind_res a (\<lambda>x. bind_res b (\<lambda>y. bind_res c (\<lambda>z. bind_res d (\<lambda>v.
      bind_res e (\<lambda>w. Inr (f x y z v w)))))))
    \<longleftrightarrow> is_ok a \<and> is_ok b \<and> is_ok c \<and> is_ok d \<and> is_ok e" for a b c d e f
    by (cases a; cases b; cases c; cases d; cases e) simp_all
  show ?thesis
    unfolding metadata [symmetric] tokens [symmetric] normalize_stop_is_ok [symmetric]
      convert_output_config_ok [symmetric] convert_anthropic_messages_ok [of J U _ "(0, [])", symmetric]
    by (simp add: convert_anthropic_request_def Let_def case_prod_unfold chain)
qed

subsection \<open>Injected lines\<close>

lemma lines_from_append:
  "lines_from acc (xs @ CHR 0x0A # ys) = lines_from acc (xs @ [CHR 0x0A]) @ lines_from [] ys"
  by (induction xs arbitrary: acc) auto

definition chomp :: "string \<Rightarrow> string" where
  "chomp d = rev (case rev d of a # as \<Rightarrow> if a = CHR 0x0D then as else rev d | [] \<Rightarrow> [])"

lemma lines_from_line:
  "CHR 0x0A \<notin> set d \<Longrightarrow> lines_from acc (d @ [CHR 0x0A]) = [chomp (rev acc @ d)]"
  by (induction d arbitrary: acc) (auto simp: chomp_def split: list.split)

lemma str_lines_insert:
  assumes "pre = [] \<or> last pre = CHR 0x0A" and "CHR 0x0A \<notin> set d"
  shows "\<exists>before. str_lines (pre @ d @ CHR 0x0A # post) = before @ chomp d # str_lines post
    \<and> str_lines (pre @ post) = before @ str_lines post"
proof (cases "pre = []")
  case True
  then show ?thesis
    using lines_from_append [of "[]" d post] lines_from_line [OF assms(2), of "[]"]
    by (simp add: str_lines_def)
next
  case False
  with assms(1) obtain pre' where pre: "pre = pre' @ [CHR 0x0A]" by (metis append_butlast_last_id)
  show ?thesis
    using lines_from_append [of "[]" pre' "d @ CHR 0x0A # post"] lines_from_append [of "[]" d post]
      lines_from_append [of "[]" pre' post] lines_from_line [OF assms(2), of "[]"]
    by (simp add: str_lines_def pre)
qed

lemma join_filtered_lines_insert:
  assumes "pre = [] \<or> last pre = CHR 0x0A" and "CHR 0x0A \<notin> set d" and "\<not> keep (chomp d)"
  shows "join_filtered_lines (pre @ d @ CHR 0x0A # post) keep = join_filtered_lines (pre @ post) keep"
proof -
  obtain before where lines: "str_lines (pre @ d @ CHR 0x0A # post) = before @ chomp d # str_lines post"
    "str_lines (pre @ post) = before @ str_lines post"
    using str_lines_insert [OF assms(1,2)] by blast
  have "filter keep (str_lines (pre @ post)) = [] \<or>
      (pre @ post \<noteq> [] \<and> last (pre @ post) = CHR 0x0A)
        = (last (pre @ d @ CHR 0x0A # post) = CHR 0x0A)"
    using assms(1) by (cases "post = []") (auto simp: str_lines_def)
  then show ?thesis
    using assms(3) unfolding join_filtered_lines_def Let_def lines by auto
qed

lemma date_line_shape:
  assumes "is_date_injection_line d"
  shows "CHR 0x0A \<notin> set d \<and> chomp d = d"
proof -
  from assms obtain rest date where d: "d = ''Today's date is '' @ rest" "rest = date @ ''.''"
    and len: "length date = 10" "date ! 4 = CHR ''-''" "date ! 7 = CHR ''-''"
    and digits: "list_all (\<lambda>i. i = 4 \<or> i = 7 \<or> is_ascii_digit (date ! i)) [0..<10]"
    by (auto simp: is_date_injection_line_def strip_suffix_def strip_prefix_Some split: option.splits)
  have "date ! i \<noteq> CHR 0x0A" if "i < 10" for i
    using digits len that by (cases "i = 4 \<or> i = 7") (auto simp: list_all_iff is_ascii_digit_def)
  then have "CHR 0x0A \<notin> set date" using len(1) by (auto simp: in_set_conv_nth)
  then show ?thesis by (simp add: d chomp_def)
qed

lemma strip_date_insert:
  "is_date_injection_line d \<Longrightarrow> pre = [] \<or> last pre = CHR 0x0A
    \<Longrightarrow> strip_date_injection (pre @ d @ CHR 0x0A # post) = strip_date_injection (pre @ post)"
  unfolding strip_date_injection_def
  using date_line_shape by (intro join_filtered_lines_insert) auto

lemma convert_anthropic_messages_append:
  "convert_anthropic_messages J U (xs @ ys) s
    = bind_res (convert_anthropic_messages J U xs s) (convert_anthropic_messages J U ys)"
  by (induction xs arbitrary: s) (auto simp: bind_res_def split: sum.split)

lemma convert_blocks_append:
  "convert_blocks J U role (xs @ ys) s = bind_res (convert_blocks J U role xs s) (convert_blocks J U role ys)"
  by (induction xs arbitrary: s) (auto simp: bind_res_def split: sum.split)

text \<open>A message with a text, alone or as one of its blocks.\<close>

definition text_in :: "(block list \<times> block list) option \<Rightarrow> string \<Rightarrow> anthropic_content" where
  "text_in blocks t = (case blocks of None \<Rightarrow> AcText t | Some (xs, ys) \<Rightarrow> AcBlocks (xs @ AbText t # ys))"

lemma convert_text_in:
  assumes "strip_date_injection t = strip_date_injection t'"
  shows "convert_anthropic_message J U \<lparr>am_role = ''user'', am_content = text_in blocks t\<rparr>
    = convert_anthropic_message J U \<lparr>am_role = ''user'', am_content = text_in blocks t'\<rparr>"
proof -
  have b: "convert_blocks J U ''user'' (AbText t # ys) = convert_blocks J U ''user'' (AbText t' # ys)" for ys
    using assms by (simp add: fun_eq_iff)
  show ?thesis
    by (rule ext, cases blocks)
      (simp_all add: convert_anthropic_message_def text_in_def convert_blocks_append Let_def assms b
        del: convert_blocks.simps split: prod.split)
qed

text \<open>
  C39: the date line that the client injects into the messages of the user, which changes every day,
  never reaches the upstream: a request with that line at any place of any user text is converted
  to the same request as without it, so the prefix the backend has cached stays the same.
\<close>

theorem injected_date_does_not_matter:
  assumes "is_date_injection_line d" and "pre = [] \<or> last pre = CHR 0x0A"
  shows "convert_anthropic_request J U (r\<lparr>ar_messages := before @
      \<lparr>am_role = ''user'', am_content = text_in blocks (pre @ d @ CHR 0x0A # post)\<rparr> # after\<rparr>)
    = convert_anthropic_request J U (r\<lparr>ar_messages := before @
      \<lparr>am_role = ''user'', am_content = text_in blocks (pre @ post)\<rparr> # after\<rparr>)"
proof -
  let ?with = "\<lparr>am_role = ''user'', am_content = text_in blocks (pre @ d @ CHR 0x0A # post)\<rparr>"
  let ?without = "\<lparr>am_role = ''user'', am_content = text_in blocks (pre @ post)\<rparr>"
  have "convert_anthropic_message J U ?with = convert_anthropic_message J U ?without"
    by (rule convert_text_in) (rule strip_date_insert [OF assms])
  then have e: "convert_anthropic_messages J U (?with # after) = convert_anthropic_messages J U (?without # after)"
    by (simp add: fun_eq_iff)
  have "convert_anthropic_messages J U (before @ ?with # after)
      = convert_anthropic_messages J U (before @ ?without # after)"
    by (rule ext) (simp only: convert_anthropic_messages_append e)
  then show ?thesis by (simp add: convert_anthropic_request_def)
qed

subsection \<open>A sample conversation\<close>

definition sample_anthropic_request :: anthropic_request where
  "sample_anthropic_request =
     \<lparr>ar_model = ''m'', ar_max_tokens = None, ar_system = Some (AsText ''be brief''),
      ar_messages = [
        \<lparr>am_role = ''user'', am_content = AcText ''hi''\<rparr>,
        \<lparr>am_role = ''assistant'', am_content = AcBlocks [AbText ''look'', AbToolUse ''t1'' ''ls'' (JObj [])]\<rparr>,
        \<lparr>am_role = ''user'', am_content = AcBlocks [AbToolResult ''t1'' (Some (AcText ''a.txt'')) None]\<rparr>],
      ar_tools = None, ar_tool_choice = None, ar_stream = True, ar_temperature = None, ar_top_p = None,
      ar_top_k = None, ar_stop_sequences = None, ar_metadata = None, ar_thinking = None,
      ar_output_config = None\<rparr>"

definition sample_anthropic_converted :: responses_request where
  "sample_anthropic_converted =
     (case convert_anthropic_request sample_codec (\<lambda>n. show_nat n) sample_anthropic_request of
        Inr c \<Rightarrow> c | Inl _ \<Rightarrow> undefined)"

definition sample_anthropic_lowered :: lowered_turn where
  "sample_anthropic_lowered = (case lower_request_with_image_agent_and_roles sample_codec
      sample_anthropic_converted [] False None of
     Inr t \<Rightarrow> t | Inl _ \<Rightarrow> undefined)"

lemma sample_anthropic_converted: "convert_anthropic_request sample_codec (\<lambda>n. show_nat n)
    sample_anthropic_request = Inr sample_anthropic_converted"
  unfolding sample_anthropic_converted_def by (rule ok_result) code_simp

lemma sample_anthropic_lowered:
  "lower_request_with_image_agent_and_roles sample_codec sample_anthropic_converted [] False None
    = Inr sample_anthropic_lowered"
  unfolding sample_anthropic_lowered_def
proof (rule ok_result)
  have "is_ok (bind_res (convert_anthropic_request sample_codec (\<lambda>n. show_nat n) sample_anthropic_request)
      (\<lambda>c. lower_request_with_image_agent_and_roles sample_codec c [] False None))" by code_simp
  then show "is_ok (lower_request_with_image_agent_and_roles sample_codec sample_anthropic_converted [] False None)"
    by (simp add: sample_anthropic_converted)
qed

theorem anthropic_calls_reach_upstream_witness:
  "list_all2 (\<lambda>(i, name, input) c. carries (Some i) name input c)
      [(''t1'', ''ls'', JObj [])] (all_calls (lt_messages sample_anthropic_lowered))
    \<and> answers (lt_messages sample_anthropic_lowered) = [(''t1'', Some (JStr ''a.txt''))]"
proof -
  have r: "request_calls sample_anthropic_request = [(''t1'', ''ls'', JObj [])]"
    "request_answers sample_codec sample_anthropic_request = [(''t1'', Some (JStr ''a.txt''))]" by code_simp+
  have "list_all (\<lambda>(i, name, input). from_json_str sample_codec (to_json_string sample_codec input) = Inr input)
      (request_calls sample_anthropic_request)"
    unfolding r by (simp add: sample_codec_def)
  from anthropic_calls_reach_upstream [OF sample_anthropic_converted sample_anthropic_lowered this]
  show ?thesis unfolding r .
qed

theorem injected_date_does_not_matter_witness:
  "convert_anthropic_request sample_codec (\<lambda>n. show_nat n) (sample_anthropic_request\<lparr>ar_messages := [] @
      \<lparr>am_role = ''user'', am_content = text_in None ([] @ ''Today's date is 2025-01-31.'' @ CHR 0x0A # ''hi'')\<rparr> # []\<rparr>)
    = convert_anthropic_request sample_codec (\<lambda>n. show_nat n) (sample_anthropic_request\<lparr>ar_messages := [] @
      \<lparr>am_role = ''user'', am_content = text_in None ([] @ ''hi'')\<rparr> # []\<rparr>)"
  by (rule injected_date_does_not_matter) (code_simp, simp)

end
