(* ===== verification/Flow_Store.thy ===== *)
theory Flow_Store
  imports Serving Models_Chat Assoc_List
begin

text \<open>
  The dashboard's store of flows (\<^verbatim>\<open>src/src/dashboard_flow.rs\<close>): the phase timings, the record of a
  flow, the attribution of a client, and the store with its time to live, its cap on records and its
  quota of bytes. The store's lock makes every operation one step; the wall clock \<open>now\<close> and the
  monotonic clock are arguments. A record's claim cell is shared between the copies of the record, so
  a record holds its address. Bodies and headers come in redacted and capped
  (\<open>Redaction\<close>, \<open>Capture\<close>).
\<close>

subsection \<open>Phase timings\<close>

record phase_timings =
  ph_ingress_ms :: "nat option"
  ph_normalization_done_ms :: "nat option"
  ph_routing_decision_ms :: "nat option"
  ph_first_content_delta_ms :: "nat option"
  ph_stream_end_ms :: "nat option"
  ph_finalize_ms :: "nat option"

definition phase_default :: phase_timings where
  "phase_default = \<lparr>ph_ingress_ms = None, ph_normalization_done_ms = None,
     ph_routing_decision_ms = None, ph_first_content_delta_ms = None, ph_stream_end_ms = None,
     ph_finalize_ms = None\<rparr>"

definition stamp :: "nat option \<Rightarrow> nat option \<Rightarrow> nat \<Rightarrow> nat option" where
  "stamp field latest_prior now =
     (case field of
        Some t \<Rightarrow> Some t
      | None \<Rightarrow> Some (case latest_prior of Some floor \<Rightarrow> max now floor | None \<Rightarrow> now))"

definition phase_list :: "phase_timings \<Rightarrow> nat list" where
  "phase_list p = List.map_filter (\<lambda>t. t)
     [ph_ingress_ms p, ph_normalization_done_ms p, ph_routing_decision_ms p,
      ph_first_content_delta_ms p, ph_stream_end_ms p, ph_finalize_ms p]"

definition phase_latest :: "phase_timings \<Rightarrow> nat option" where
  "phase_latest p = (case phase_list p of [] \<Rightarrow> None | t # ts \<Rightarrow> Some (fold max ts t))"

definition stamp_ingress :: "nat \<Rightarrow> phase_timings \<Rightarrow> phase_timings" where
  "stamp_ingress now p = p\<lparr>ph_ingress_ms := stamp (ph_ingress_ms p) (phase_latest p) now\<rparr>"

definition stamp_normalization :: "nat \<Rightarrow> phase_timings \<Rightarrow> phase_timings" where
  "stamp_normalization now p =
     p\<lparr>ph_normalization_done_ms := stamp (ph_normalization_done_ms p) (phase_latest p) now\<rparr>"

definition stamp_routing :: "nat \<Rightarrow> phase_timings \<Rightarrow> phase_timings" where
  "stamp_routing now p =
     p\<lparr>ph_routing_decision_ms := stamp (ph_routing_decision_ms p) (phase_latest p) now\<rparr>"

definition stamp_first_content_delta :: "nat \<Rightarrow> phase_timings \<Rightarrow> phase_timings" where
  "stamp_first_content_delta now p =
     p\<lparr>ph_first_content_delta_ms := stamp (ph_first_content_delta_ms p) (phase_latest p) now\<rparr>"

definition stamp_stream_end :: "nat \<Rightarrow> phase_timings \<Rightarrow> phase_timings" where
  "stamp_stream_end now p =
     p\<lparr>ph_stream_end_ms := stamp (ph_stream_end_ms p) (phase_latest p) now\<rparr>"

definition stamp_finalize :: "nat \<Rightarrow> phase_timings \<Rightarrow> phase_timings" where
  "stamp_finalize now p =
     p\<lparr>ph_finalize_ms := stamp (ph_finalize_ms p) (phase_latest p) now\<rparr>"

subsection \<open>Client attribution\<close>

datatype client_source = KeyHash | ConfiguredHeader | UserAgent

record client_attribution =
  ca_label :: "string option"
  ca_source :: "client_source option"

definition client_none :: client_attribution where
  "client_none = \<lparr>ca_label = None, ca_source = None\<rparr>"

definition key_hash_display_hex_len :: nat where
  "key_hash_display_hex_len = 12"

text \<open>The hex SHA-256 digest is the parameter \<open>sha\<close>.\<close>

definition key_hash_label :: "(string \<Rightarrow> string) \<Rightarrow> string \<Rightarrow> string" where
  "key_hash_label sha raw_key = ''key-'' @ take key_hash_display_hex_len (sha raw_key)"

text \<open>
  The headers of a request as \<^verbatim>\<open>header_value\<close> reads them: the value of a name, whatever its case, when
  it is readable text.
\<close>

type_synonym header_values = "string \<Rightarrow> string option"

definition header_value :: "header_values \<Rightarrow> string \<Rightarrow> string option" where
  "header_value headers name = headers (ascii_lower name)"

definition trim_start :: "string \<Rightarrow> string" where
  "trim_start s = map char_of (strip_ws ws_len (map of_char s))"

definition bearer_token :: "header_values \<Rightarrow> string option" where
  "bearer_token headers =
     (case header_value headers ''authorization'' of
        None \<Rightarrow> None
      | Some value \<Rightarrow>
          (let trimmed = trim_start value; after = drop 6 trimmed
           in if 6 \<le> length trimmed \<and> eq_ignore_ascii_case (take 6 trimmed) ''Bearer''
                \<and> (after = [] \<or> 0 < ws_len (map of_char after))
              then Some (trim_start after) else Some value))"

definition api_key_header :: "header_values \<Rightarrow> string option" where
  "api_key_header headers = header_value headers ''x-api-key''"

definition configured_name :: "string option \<Rightarrow> string option" where
  "configured_name configured_header = nonempty_str (map_option trim configured_header)"

definition configured_key :: "header_values \<Rightarrow> string option \<Rightarrow> string option" where
  "configured_key headers configured =
     (case configured of
        None \<Rightarrow> None
      | Some name \<Rightarrow>
          if \<not> is_sensitive_payload_key name then None
          else if eq_ignore_ascii_case name ''authorization'' then bearer_token headers
          else header_value headers name)"

text \<open>A candidate that is not blank, trimmed.\<close>

definition usable_key :: "string option \<Rightarrow> string option" where
  "usable_key candidate = nonempty_str (map_option trim candidate)"

definition derive_client ::
  "(string \<Rightarrow> string) \<Rightarrow> header_values \<Rightarrow> string option \<Rightarrow> client_attribution" where
  "derive_client sha headers configured_header =
     (let configured = configured_name configured_header in
      case first_some usable_key
          [bearer_token headers, api_key_header headers, configured_key headers configured] of
        Some token \<Rightarrow> \<lparr>ca_label = Some (key_hash_label sha token), ca_source = Some KeyHash\<rparr>
      | None \<Rightarrow>
          (case Option.bind configured (\<lambda>name. if is_sensitive_payload_key name then None
                  else usable_key (header_value headers name)) of
             Some label \<Rightarrow> \<lparr>ca_label = Some label, ca_source = Some ConfiguredHeader\<rparr>
           | None \<Rightarrow>
               (case usable_key (header_value headers ''user-agent'') of
                  Some ua \<Rightarrow> \<lparr>ca_label = Some ua, ca_source = Some UserAgent\<rparr>
                | None \<Rightarrow> client_none)))"

subsection \<open>Records\<close>

record upstream_response_body =
  urb_bytes :: string
  urb_truncated :: bool

definition response_into_record :: "captured_response_body \<Rightarrow> upstream_response_body" where
  "response_into_record b = \<lparr>urb_bytes = crb_body b, urb_truncated = crb_truncated b\<rparr>"

record flow_record =
  fl_claim :: nat
  fl_record_seq :: nat
  fl_api_call_id :: string
  fl_response_id :: "string option"
  fl_method :: string
  fl_uri :: string
  fl_headers :: "(string \<times> string) list"
  fl_inbound_body :: "string option"
  fl_normalized :: "string option"
  fl_upstream_body :: "string option"
  fl_upstream_response :: "upstream_response_body option"
  fl_model_requested :: "string option"
  fl_model_served :: "string option"
  fl_upstream_target :: "string option"
  fl_usage :: "flow_usage option"
  fl_status :: flow_status
  fl_started_at :: nat
  fl_started_ms :: nat
  fl_finished_ms :: "nat option"
  fl_elapsed_ms :: "nat option"
  fl_terminal_reason :: "string option"
  fl_phases :: phase_timings
  fl_attempts :: "attempt list"
  fl_first_upstream_byte_ms :: "nat option"
  fl_client_label :: "string option"
  fl_client_source :: "client_source option"

definition opt_len :: "string option \<Rightarrow> nat" where
  "opt_len s = (case s of Some t \<Rightarrow> length t | None \<Rightarrow> 0)"

definition response_len :: "upstream_response_body option \<Rightarrow> nat" where
  "response_len b = (case b of Some r \<Rightarrow> length (urb_bytes r) | None \<Rightarrow> 0)"

definition headers_len :: "(string \<times> string) list \<Rightarrow> nat" where
  "headers_len hs = sum_list (map (\<lambda>(name, value). length name + length value) hs)"

definition body_bytes :: "flow_record \<Rightarrow> nat" where
  "body_bytes r = opt_len (fl_inbound_body r) + opt_len (fl_normalized r)
     + opt_len (fl_upstream_body r) + response_len (fl_upstream_response r)"

definition summary_bytes :: "flow_record \<Rightarrow> nat" where
  "summary_bytes r = opt_len (fl_inbound_body r) + opt_len (fl_normalized r)
     + opt_len (fl_upstream_body r) + response_len (fl_upstream_response r)
     + headers_len (fl_headers r) + length (fl_api_call_id r) + opt_len (fl_response_id r)
     + length (fl_method r) + length (fl_uri r) + opt_len (fl_model_requested r)
     + opt_len (fl_model_served r) + opt_len (fl_upstream_target r)
     + opt_len (fl_terminal_reason r) + opt_len (fl_client_label r)
     + sum_list (map attempt_summary_bytes (fl_attempts r))"

definition has_body :: "flow_record \<Rightarrow> bool" where
  "has_body r \<longleftrightarrow> fl_inbound_body r \<noteq> None \<or> fl_normalized r \<noteq> None
     \<or> fl_upstream_body r \<noteq> None \<or> fl_upstream_response r \<noteq> None"

definition shed_body :: "flow_record \<Rightarrow> flow_record" where
  "shed_body r = r\<lparr>fl_inbound_body := None, fl_normalized := None, fl_upstream_body := None,
     fl_upstream_response := None\<rparr>"

text \<open>The projection of a record that leaves the process: no body, no claim, no instant.\<close>

record snapshot_flow_summary =
  sf_api_call_id :: string
  sf_response_id :: "string option"
  sf_method :: string
  sf_uri :: string
  sf_model_requested :: "string option"
  sf_model_served :: "string option"
  sf_upstream_target :: "string option"
  sf_usage :: "flow_usage option"
  sf_status :: flow_status
  sf_started_ms :: nat
  sf_finished_ms :: "nat option"
  sf_elapsed_ms :: "nat option"
  sf_terminal_reason :: "string option"
  sf_phases :: phase_timings
  sf_attempts :: "attempt list"
  sf_first_upstream_byte_ms :: "nat option"
  sf_client_label :: "string option"
  sf_client_source :: "client_source option"

definition summary_of_record :: "flow_record \<Rightarrow> snapshot_flow_summary" where
  "summary_of_record r = \<lparr>sf_api_call_id = fl_api_call_id r, sf_response_id = fl_response_id r,
     sf_method = fl_method r, sf_uri = fl_uri r, sf_model_requested = fl_model_requested r,
     sf_model_served = fl_model_served r, sf_upstream_target = fl_upstream_target r,
     sf_usage = fl_usage r, sf_status = fl_status r, sf_started_ms = fl_started_ms r,
     sf_finished_ms = fl_finished_ms r, sf_elapsed_ms = fl_elapsed_ms r,
     sf_terminal_reason = fl_terminal_reason r, sf_phases = fl_phases r,
     sf_attempts = fl_attempts r, sf_first_upstream_byte_ms = fl_first_upstream_byte_ms r,
     sf_client_label = fl_client_label r, sf_client_source = fl_client_source r\<rparr>"

subsection \<open>The interior state\<close>

definition flow_cap :: nat where
  "flow_cap = 512"

definition flow_ttl_ms :: nat where
  "flow_ttl_ms = 30 * 60 * 1000"

definition default_summary_quota_bytes :: nat where
  "default_summary_quota_bytes = 64 * 1024 * 1024"

record flow_state =
  fs_by_id :: "(string \<times> flow_record) list"
  fs_order :: "string list"
  fs_link_index :: "(string \<times> string) list"
  fs_live_summary_bytes :: nat
  fs_seq :: nat

definition flow_state_default :: flow_state where
  "flow_state_default = \<lparr>fs_by_id = [], fs_order = [], fs_link_index = [],
     fs_live_summary_bytes = 0, fs_seq = 0\<rparr>"

definition flow_lookup :: "flow_state \<Rightarrow> string \<Rightarrow> flow_record option" where
  "flow_lookup s fid = map_of (fs_by_id s) fid"

definition flow_insert :: "string \<Rightarrow> flow_record \<Rightarrow> flow_state \<Rightarrow> flow_state" where
  "flow_insert api_call_id r s =
     (let s1 = (case flow_lookup s api_call_id of
            None \<Rightarrow> s
          | Some previous \<Rightarrow> s\<lparr>fs_by_id := AList.delete api_call_id (fs_by_id s),
              fs_live_summary_bytes := sat_sub (fs_live_summary_bytes s) (summary_bytes previous),
              fs_order := filter (\<lambda>fid. fid \<noteq> api_call_id) (fs_order s)\<rparr>);
          seq = sat_add (fs_seq s1) 1;
          r' = r\<lparr>fl_record_seq := seq\<rparr>
      in s1\<lparr>fs_seq := seq,
           fs_live_summary_bytes := sat_add (fs_live_summary_bytes s1) (summary_bytes r'),
           fs_order := fs_order s1 @ [api_call_id],
           fs_by_id := AList.update api_call_id r' (fs_by_id s1)\<rparr>)"

definition resolve_id :: "flow_state \<Rightarrow> string \<Rightarrow> string option" where
  "resolve_id s fid = (if flow_lookup s fid \<noteq> None then Some fid else map_of (fs_link_index s) fid)"

definition flow_update :: "string \<Rightarrow> (flow_record \<Rightarrow> flow_record) \<Rightarrow> flow_state \<Rightarrow> flow_state" where
  "flow_update fid edit s =
     (case resolve_id s fid of
        None \<Rightarrow> s
      | Some api_call_id \<Rightarrow>
          (case flow_lookup s api_call_id of
             None \<Rightarrow> s
           | Some existing \<Rightarrow>
               (let updated = edit existing; seq = sat_add (fs_seq s) 1
                in s\<lparr>fs_live_summary_bytes := sat_add
                       (sat_sub (fs_live_summary_bytes s) (summary_bytes existing))
                       (summary_bytes updated),
                     fs_seq := seq,
                     fs_by_id := AList.update api_call_id (updated\<lparr>fl_record_seq := seq\<rparr>)
                       (fs_by_id s)\<rparr>)))"

definition flow_remove :: "string \<Rightarrow> flow_state \<Rightarrow> flow_state" where
  "flow_remove api_call_id s =
     (let s1 = (case flow_lookup s api_call_id of
            None \<Rightarrow> s
          | Some r \<Rightarrow> s\<lparr>fs_by_id := AList.delete api_call_id (fs_by_id s),
              fs_live_summary_bytes := sat_sub (fs_live_summary_bytes s) (summary_bytes r),
              fs_link_index := (case fl_response_id r of
                  None \<Rightarrow> fs_link_index s
                | Some response_id \<Rightarrow> AList.delete response_id (fs_link_index s))\<rparr>)
      in s1\<lparr>fs_order := filter (\<lambda>fid. fid \<noteq> api_call_id) (fs_order s1),
           fs_link_index := filter (\<lambda>(_, owner). owner \<noteq> api_call_id) (fs_link_index s1),
           fs_seq := sat_add (fs_seq s1) 1\<rparr>)"

definition expired_ids :: "nat \<Rightarrow> flow_state \<Rightarrow> string list" where
  "expired_ids now s =
     filter (\<lambda>fid. case flow_lookup s fid of
         Some r \<Rightarrow> fl_started_ms r < sat_sub now flow_ttl_ms | None \<Rightarrow> False) (fs_order s)"

definition prune_expired :: "nat \<Rightarrow> flow_state \<Rightarrow> flow_state" where
  "prune_expired now s = fold flow_remove (expired_ids now s) s"

lemma order_flow_remove [simp]:
  "fs_order (flow_remove fid s) = filter (\<lambda>x. x \<noteq> fid) (fs_order s)"
  by (simp add: flow_remove_def Let_def split: option.split)

text \<open>Evicting the oldest records while a condition on the state holds.\<close>

function evict_while :: "(flow_state \<Rightarrow> bool) \<Rightarrow> flow_state \<Rightarrow> flow_state" where
  "evict_while over s =
     (if over s then
        (case fs_order s of [] \<Rightarrow> s | oldest # _ \<Rightarrow> evict_while over (flow_remove oldest s))
      else s)"
  by pat_completeness auto
termination
  by (relation "measure (\<lambda>(over, s). length (fs_order s))") (auto intro: le_imp_less_Suc)

declare evict_while.simps [simp del]

text \<open>The first phase of the quota: bodies go, oldest first, until the total fits.\<close>

fun shed_bodies :: "nat \<Rightarrow> string list \<Rightarrow> flow_state \<Rightarrow> flow_state" where
  "shed_bodies quota_bytes [] s = s"
| "shed_bodies quota_bytes (fid # fids) s =
     (if fs_live_summary_bytes s \<le> quota_bytes then s
      else shed_bodies quota_bytes fids
        (case flow_lookup s fid of
           None \<Rightarrow> s
         | Some existing \<Rightarrow>
             if \<not> has_body existing then s
             else s\<lparr>fs_by_id := AList.update fid (shed_body existing) (fs_by_id s),
                    fs_live_summary_bytes :=
                      sat_sub (fs_live_summary_bytes s) (body_bytes existing)\<rparr>))"

definition enforce_summary_quota :: "nat \<Rightarrow> flow_state \<Rightarrow> flow_state" where
  "enforce_summary_quota quota_bytes s =
     (if fs_live_summary_bytes s \<le> quota_bytes then s
      else evict_while (\<lambda>s. quota_bytes < fs_live_summary_bytes s)
        (shed_bodies quota_bytes (fs_order s) s))"

definition enforce_caps :: "nat \<Rightarrow> flow_state \<Rightarrow> flow_state" where
  "enforce_caps quota_bytes s =
     enforce_summary_quota quota_bytes (evict_while (\<lambda>s. flow_cap < length (fs_order s)) s)"

subsection \<open>Operations of the store\<close>

record flow_store =
  st_enabled :: bool
  st_response_capture_enabled :: bool
  st_summary_quota_bytes :: nat

text \<open>\<^verbatim>\<open>capture_response_env_flag\<close> on the value of the environment variable.\<close>

definition capture_response_env_flag :: "string option \<Rightarrow> bool" where
  "capture_response_env_flag value =
     (case map_option (\<lambda>v. ascii_lower (trim v)) value of
        Some v \<Rightarrow> v = ''1'' \<or> v = ''true'' \<or> v = ''yes'' | None \<Rightarrow> False)"

definition flow_store_new :: "string option \<Rightarrow> flow_store" where
  "flow_store_new env = \<lparr>st_enabled = True,
     st_response_capture_enabled = capture_response_env_flag env,
     st_summary_quota_bytes = default_summary_quota_bytes\<rparr>"

definition flow_store_disabled :: flow_store where
  "flow_store_disabled = \<lparr>st_enabled = False, st_response_capture_enabled = False,
     st_summary_quota_bytes = default_summary_quota_bytes\<rparr>"

definition is_response_capture_enabled :: "flow_store \<Rightarrow> bool" where
  "is_response_capture_enabled C \<longleftrightarrow> st_enabled C \<and> st_response_capture_enabled C"

definition flow_seq :: "flow_store \<Rightarrow> flow_state \<Rightarrow> nat" where
  "flow_seq C s = (if st_enabled C then fs_seq s else 0)"

text \<open>The record a flow is opened with; \<open>claim\<close> is the address of its fresh claim cell.\<close>

definition opened_record ::
  "nat \<Rightarrow> nat \<Rightarrow> nat \<Rightarrow> string \<Rightarrow> string \<Rightarrow> string \<Rightarrow> (string \<times> string) list \<Rightarrow> string option
     \<Rightarrow> client_attribution \<Rightarrow> flow_record" where
  "opened_record claim now instant api_call_id meth uri headers inbound_body client =
     \<lparr>fl_claim = claim, fl_record_seq = 0, fl_api_call_id = cap_scalar api_call_id,
      fl_response_id = None, fl_method = cap_scalar meth, fl_uri = cap_scalar uri,
      fl_headers = headers, fl_inbound_body = inbound_body, fl_normalized = None,
      fl_upstream_body = None, fl_upstream_response = None, fl_model_requested = None,
      fl_model_served = None, fl_upstream_target = None, fl_usage = None, fl_status = FlowOpen,
      fl_started_at = instant, fl_started_ms = now, fl_finished_ms = None, fl_elapsed_ms = None,
      fl_terminal_reason = None, fl_phases = stamp_ingress now phase_default, fl_attempts = [],
      fl_first_upstream_byte_ms = None,
      fl_client_label = map_option cap_scalar (ca_label client), fl_client_source = ca_source client\<rparr>"

definition flow_open ::
  "flow_store \<Rightarrow> nat \<Rightarrow> nat \<Rightarrow> nat \<Rightarrow> string \<Rightarrow> string \<Rightarrow> string \<Rightarrow> (string \<times> string) list
     \<Rightarrow> string option \<Rightarrow> client_attribution \<Rightarrow> flow_state \<Rightarrow> flow_state" where
  "flow_open C claim now instant api_call_id meth uri headers inbound_body client s =
     (if \<not> st_enabled C then s
      else enforce_caps (st_summary_quota_bytes C)
        (flow_insert (cap_scalar api_call_id)
          (opened_record claim now instant api_call_id meth uri headers inbound_body client)
          (prune_expired now s)))"

definition flow_link :: "flow_store \<Rightarrow> nat \<Rightarrow> string \<Rightarrow> string \<Rightarrow> flow_state \<Rightarrow> flow_state" where
  "flow_link C now response_id api_call_id s =
     (if \<not> st_enabled C then s
      else let response_id = cap_scalar response_id; s1 = prune_expired now s in
        (case flow_lookup s1 api_call_id of
           None \<Rightarrow> s1
         | Some existing \<Rightarrow>
             if fl_response_id existing \<noteq> None then s1
             else enforce_caps (st_summary_quota_bytes C)
               (flow_update api_call_id (\<lambda>r. r\<lparr>fl_response_id := Some response_id\<rparr>)
                 (s1\<lparr>fs_link_index := AList.update response_id api_call_id (fs_link_index s1)\<rparr>))))"

definition or_keep_opt :: "'a option \<Rightarrow> 'a option \<Rightarrow> 'a option" where
  "or_keep_opt new old = (case new of Some v \<Rightarrow> Some v | None \<Rightarrow> old)"

definition edit_upstream ::
  "string option \<Rightarrow> string option \<Rightarrow> string option \<Rightarrow> flow_record \<Rightarrow> flow_record" where
  "edit_upstream target model_served body r = r\<lparr>
     fl_upstream_target := or_keep_opt target (fl_upstream_target r),
     fl_model_served := or_keep_opt model_served (fl_model_served r),
     fl_upstream_body := or_keep_opt body (fl_upstream_body r)\<rparr>"

text \<open>Most operations prune, edit one record and enforce the caps.\<close>

definition edit_flow ::
  "flow_store \<Rightarrow> nat \<Rightarrow> string \<Rightarrow> (flow_record \<Rightarrow> flow_record) \<Rightarrow> flow_state \<Rightarrow> flow_state" where
  "edit_flow C now fid edit s =
     enforce_caps (st_summary_quota_bytes C) (flow_update fid edit (prune_expired now s))"

definition set_upstream ::
  "flow_store \<Rightarrow> nat \<Rightarrow> string \<Rightarrow> string option \<Rightarrow> string option \<Rightarrow> string option \<Rightarrow> flow_state
     \<Rightarrow> flow_state" where
  "set_upstream C now fid target model_served body s =
     (if \<not> st_enabled C then s
      else edit_flow C now fid
        (edit_upstream (map_option cap_scalar target) (map_option cap_scalar model_served) body) s)"

definition set_upstream_response ::
  "flow_store \<Rightarrow> nat \<Rightarrow> string \<Rightarrow> captured_response_body option \<Rightarrow> flow_state \<Rightarrow> flow_state" where
  "set_upstream_response C now fid body s =
     (if \<not> is_response_capture_enabled C then s
      else case body of
        None \<Rightarrow> s
      | Some b \<Rightarrow> edit_flow C now fid
          (\<lambda>r. r\<lparr>fl_upstream_response := Some (response_into_record b)\<rparr>) s)"

definition edit_normalized ::
  "nat \<Rightarrow> string option \<Rightarrow> string option \<Rightarrow> flow_record \<Rightarrow> flow_record" where
  "edit_normalized now model_requested normalized r = r\<lparr>
     fl_phases := stamp_normalization now (fl_phases r),
     fl_model_requested := or_keep_opt model_requested (fl_model_requested r),
     fl_normalized := or_keep_opt normalized (fl_normalized r)\<rparr>"

definition set_normalized ::
  "flow_store \<Rightarrow> nat \<Rightarrow> string \<Rightarrow> string option \<Rightarrow> string option \<Rightarrow> flow_state \<Rightarrow> flow_state" where
  "set_normalized C now api_call_id model_requested normalized s =
     (if \<not> st_enabled C then s
      else edit_flow C now api_call_id
        (edit_normalized now (map_option cap_scalar model_requested) normalized) s)"

definition edit_final ::
  "nat \<Rightarrow> nat \<Rightarrow> flow_status \<Rightarrow> string option \<Rightarrow> string option \<Rightarrow> flow_record \<Rightarrow> flow_record" where
  "edit_final now instant status terminal_reason serving_provider r = r\<lparr>
     fl_status := status, fl_finished_ms := Some now,
     fl_elapsed_ms := Some (sat_sub instant (fl_started_at r)),
     fl_phases := stamp_finalize now (fl_phases r),
     fl_terminal_reason := or_keep_opt terminal_reason (fl_terminal_reason r),
     fl_upstream_target := (if fl_upstream_target r = None then serving_provider
       else fl_upstream_target r)\<rparr>"

definition store_finalize ::
  "flow_store \<Rightarrow> nat \<Rightarrow> nat \<Rightarrow> string \<Rightarrow> flow_status \<Rightarrow> string option \<Rightarrow> string option \<Rightarrow> flow_state
     \<Rightarrow> flow_state" where
  "store_finalize C now instant api_call_id status terminal_reason serving_provider s =
     (if \<not> st_enabled C then s
      else edit_flow C now api_call_id
        (edit_final now instant status (map_option cap_scalar terminal_reason)
          (map_option cap_scalar serving_provider)) s)"

definition store_record_usage ::
  "flow_store \<Rightarrow> nat \<Rightarrow> string \<Rightarrow> flow_usage \<Rightarrow> flow_state \<Rightarrow> flow_state" where
  "store_record_usage C now api_call_id usage s =
     (if \<not> st_enabled C then s
      else flow_update api_call_id (\<lambda>r. r\<lparr>fl_usage := Some usage\<rparr>) (prune_expired now s))"

definition edit_attempts :: "attempt list \<Rightarrow> nat option \<Rightarrow> flow_record \<Rightarrow> flow_record" where
  "edit_attempts attempts first_upstream_byte_ms r = r\<lparr>
     fl_attempts := (if attempts \<noteq> [] then attempts else fl_attempts r),
     fl_first_upstream_byte_ms := or_keep_opt (fl_first_upstream_byte_ms r) first_upstream_byte_ms\<rparr>"

definition store_record_attempts ::
  "flow_store \<Rightarrow> nat \<Rightarrow> string \<Rightarrow> attempt list \<Rightarrow> nat option \<Rightarrow> flow_state \<Rightarrow> flow_state" where
  "store_record_attempts C now api_call_id attempts first_upstream_byte_ms s =
     (if \<not> st_enabled C \<or> attempts = [] \<and> first_upstream_byte_ms = None then s
      else edit_flow C now api_call_id (edit_attempts attempts first_upstream_byte_ms) s)"

definition stamp_phase ::
  "flow_store \<Rightarrow> nat \<Rightarrow> (nat \<Rightarrow> phase_timings \<Rightarrow> phase_timings) \<Rightarrow> string \<Rightarrow> flow_state \<Rightarrow> flow_state"
where
  "stamp_phase C now f fid s =
     (if \<not> st_enabled C then s
      else flow_update fid (\<lambda>r. r\<lparr>fl_phases := f now (fl_phases r)\<rparr>) (prune_expired now s))"

definition store_stamp_routing_decision :: "flow_store \<Rightarrow> nat \<Rightarrow> string \<Rightarrow> flow_state \<Rightarrow> flow_state" where
  "store_stamp_routing_decision C now = stamp_phase C now stamp_routing"

definition store_stamp_first_content_delta :: "flow_store \<Rightarrow> nat \<Rightarrow> string \<Rightarrow> flow_state \<Rightarrow> flow_state" where
  "store_stamp_first_content_delta C now = stamp_phase C now stamp_first_content_delta"

definition store_stamp_stream_end :: "flow_store \<Rightarrow> nat \<Rightarrow> string \<Rightarrow> flow_state \<Rightarrow> flow_state" where
  "store_stamp_stream_end C now = stamp_phase C now stamp_stream_end"

text \<open>The reads prune first; they return the state they leave.\<close>

definition flow_list :: "flow_store \<Rightarrow> nat \<Rightarrow> flow_state \<Rightarrow> flow_record list \<times> flow_state" where
  "flow_list C now s =
     (if \<not> st_enabled C then ([], s)
      else let s1 = prune_expired now s
           in (List.map_filter (flow_lookup s1) (rev (fs_order s1)), s1))"

definition flow_detail :: "flow_store \<Rightarrow> nat \<Rightarrow> string \<Rightarrow> flow_state \<Rightarrow> flow_record option \<times> flow_state" where
  "flow_detail C now fid s =
     (if \<not> st_enabled C then (None, s)
      else let s1 = prune_expired now s
           in (case flow_lookup s1 fid of
                 Some r \<Rightarrow> (Some r, s1)
               | None \<Rightarrow> (Option.bind (map_of (fs_link_index s1) fid) (flow_lookup s1), s1)))"

definition flow_detail_with_seq ::
  "flow_store \<Rightarrow> nat \<Rightarrow> string \<Rightarrow> flow_state \<Rightarrow> (flow_record \<times> nat) option \<times> flow_state" where
  "flow_detail_with_seq C now fid s =
     (let (r, s1) = flow_detail C now fid s in (map_option (\<lambda>r. (r, fl_record_seq r)) r, s1))"

definition snapshot_summaries_with_seq ::
  "flow_store \<Rightarrow> nat \<Rightarrow> flow_state \<Rightarrow> (snapshot_flow_summary list \<times> nat) \<times> flow_state" where
  "snapshot_summaries_with_seq C now s =
     (if \<not> st_enabled C then (([], 0), s)
      else let (records, s1) = flow_list C now s
           in ((map summary_of_record records, fs_seq s1), s1))"

definition snapshot_summaries ::
  "flow_store \<Rightarrow> nat \<Rightarrow> flow_state \<Rightarrow> snapshot_flow_summary list \<times> flow_state" where
  "snapshot_summaries C now s =
     (let ((summaries, _), s1) = snapshot_summaries_with_seq C now s in (summaries, s1))"

end
