(* ===== verification/Flow_Store_Correct.thy ===== *)
theory Flow_Store_Correct
  imports Flow_Store
begin

text \<open>
  Correctness of the store of flows: its maps and its running total stay consistent, the number of
  records and the bytes they hold stay bounded whatever is recorded, and the cursor of a record is
  newer than every cursor read before its last visible change.
\<close>

subsection \<open>Consistency\<close>

text \<open>
  The sizes that add up to the bytes of a record, and a bound on each. The bodies, the headers and the
  attempts come in capped; the bound leaves room for any of them and keeps the sums far from 64 bits.
\<close>

definition record_parts :: "flow_record \<Rightarrow> nat list" where
  "record_parts r = [opt_len (fl_inbound_body r), opt_len (fl_normalized r),
     opt_len (fl_upstream_body r), response_len (fl_upstream_response r), headers_len (fl_headers r),
     length (fl_api_call_id r), opt_len (fl_response_id r), length (fl_method r), length (fl_uri r),
     opt_len (fl_model_requested r), opt_len (fl_model_served r), opt_len (fl_upstream_target r),
     opt_len (fl_terminal_reason r), opt_len (fl_client_label r),
     sum_list (map attempt_summary_bytes (fl_attempts r))]"

definition part_cap :: nat where
  "part_cap = 2 ^ 40"

definition light :: "flow_record \<Rightarrow> bool" where
  "light r \<longleftrightarrow> list_all (\<lambda>n. n \<le> part_cap) (record_parts r)"

lemma summary_bytes_parts: "summary_bytes r = sum_list (record_parts r)"
  by (simp add: summary_bytes_def record_parts_def)

lemma light_bytes: "light r \<Longrightarrow> summary_bytes r \<le> 15 * part_cap"
  unfolding summary_bytes_parts light_def record_parts_def by simp

lemma summary_bytes_seq [simp]: "summary_bytes (r\<lparr>fl_record_seq := n\<rparr>) = summary_bytes r"
  by (simp add: summary_bytes_def)

lemma light_seq [simp]: "light (r\<lparr>fl_record_seq := n\<rparr>) = light r"
  by (simp add: light_def record_parts_def)

abbreviation total :: "flow_state \<Rightarrow> nat" where
  "total s \<equiv> weight summary_bytes (fs_by_id s)"

definition flow_inv :: "flow_state \<Rightarrow> bool" where
  "flow_inv s \<longleftrightarrow> distinct (map fst (fs_by_id s)) \<and> distinct (fs_order s)
     \<and> set (fs_order s) = dom (flow_lookup s)
     \<and> fs_live_summary_bytes s = total s
     \<and> snd ` set (fs_link_index s) \<subseteq> set (fs_order s) \<and> distinct (map fst (fs_link_index s))
     \<and> (\<forall>fid r. flow_lookup s fid = Some r \<longrightarrow> light r \<and> fl_record_seq r \<le> fs_seq s)"

lemma flow_invD:
  assumes "flow_inv s"
  shows "distinct (map fst (fs_by_id s))" "distinct (fs_order s)"
    "set (fs_order s) = dom (flow_lookup s)" "fs_live_summary_bytes s = total s"
    "snd ` set (fs_link_index s) \<subseteq> set (fs_order s)" "distinct (map fst (fs_link_index s))"
    "flow_lookup s fid = Some r \<Longrightarrow> light r" "flow_lookup s fid = Some r \<Longrightarrow> fl_record_seq r \<le> fs_seq s"
  using assms by (auto simp: flow_inv_def)

lemma sat_add_seq: "n \<le> sat_add n 1 \<or> usize_max < n"
  by (auto simp: sat_add_def)

lemma flow_lookup_fun: "flow_lookup s = map_of (fs_by_id s)"
  by (simp add: fun_eq_iff flow_lookup_def)

lemma dom_flow_lookup: "dom (flow_lookup s) = fst ` set (fs_by_id s)"
  by (simp add: flow_lookup_fun dom_map_of_conv_image_fst)

definition bounded_seq :: "flow_state \<Rightarrow> bool" where
  "bounded_seq s \<longleftrightarrow> fs_seq s \<le> usize_max"

lemma flow_inv_default: "flow_inv flow_state_default"
  by (simp add: flow_inv_def flow_state_default_def flow_lookup_def dom_def)

lemma delete_subset: "set (AList.delete k m) \<subseteq> set m"
  by (auto simp: AList.delete_eq)

lemma flow_lookup_remove: "distinct (map fst (fs_by_id s))
    \<Longrightarrow> flow_lookup (flow_remove fid s) = (flow_lookup s)(fid := None)"
  by (auto simp: flow_remove_def flow_lookup_def Let_def fun_eq_iff split: option.split)

lemma flow_seq_remove: "fs_seq (flow_remove fid s) = sat_add (fs_seq s) 1"
  by (simp add: flow_remove_def Let_def split: option.split)

lemma flow_remove_inv:
  assumes "flow_inv s" and "bounded_seq s"
  shows "flow_inv (flow_remove fid s) \<and> total (flow_remove fid s) \<le> total s \<and> bounded_seq (flow_remove fid s)"
proof -
  note i = flow_invD [OF assms(1)]
  have w: "weight summary_bytes (AList.delete fid (fs_by_id s)) + weight_of summary_bytes (flow_lookup s fid)
      = total s"
    unfolding flow_lookup_def by (rule weight_delete) (rule i(1))
  have live: "fs_live_summary_bytes (flow_remove fid s) = total (flow_remove fid s)"
    and le: "total (flow_remove fid s) \<le> total s"
    using w i(4) by (auto simp: flow_remove_def Let_def sat_sub_def weight_of_def split: option.split)
  have links: "snd ` set (fs_link_index (flow_remove fid s)) \<subseteq> set (fs_order s) - {fid}"
    using i(5) delete_subset by (fastforce simp: flow_remove_def Let_def split: option.splits)
  have d: "distinct (map fst (fs_link_index (flow_remove fid s)))"
    using i(6) by (auto simp: flow_remove_def Let_def distinct_keys_filter split: option.splits)
  have keys: "distinct (map fst (fs_by_id (flow_remove fid s)))"
    using i(1) by (auto simp: flow_remove_def Let_def split: option.splits)
  have seq: "fs_seq s \<le> sat_add (fs_seq s) 1" "sat_add (fs_seq s) 1 \<le> usize_max"
    using assms(2) by (auto simp: sat_add_def bounded_seq_def)
  have lk: "fl_record_seq r \<le> sat_add (fs_seq s) 1 \<and> light r" if "flow_lookup s f = Some r" for f r
    using i(7,8) [OF that] seq(1) by simp
  show ?thesis
    unfolding flow_inv_def flow_lookup_remove [OF i(1)] order_flow_remove flow_seq_remove bounded_seq_def
    using i(2,3) keys d live links le seq(2) lk by auto
qed

lemma prune_expired_inv:
  assumes "flow_inv s" and "bounded_seq s"
  shows "flow_inv (prune_expired now s) \<and> total (prune_expired now s) \<le> total s
    \<and> bounded_seq (prune_expired now s) \<and> length (fs_order (prune_expired now s)) \<le> length (fs_order s)"
proof -
  have "flow_inv (fold flow_remove xs s) \<and> total (fold flow_remove xs s) \<le> total s
      \<and> bounded_seq (fold flow_remove xs s) \<and> length (fs_order (fold flow_remove xs s)) \<le> length (fs_order s)"
    for xs using assms
  proof (induction xs arbitrary: s)
    case (Cons x xs)
    from flow_remove_inv [OF Cons.prems, of x] have r: "flow_inv (flow_remove x s)"
      "bounded_seq (flow_remove x s)" "total (flow_remove x s) \<le> total s" by simp_all
    from Cons.IH [OF r(1,2)] r(3) show ?case
      using length_filter_le [of "\<lambda>y. y \<noteq> x" "fs_order s"] by (auto intro: order_trans)
  qed simp
  then show ?thesis by (simp add: prune_expired_def)
qed

text \<open>Replacing the record of a flow, or inserting one, when the total fits 64 bits.\<close>

lemma flow_lookup_update_alist:
  "flow_lookup (s\<lparr>fs_by_id := AList.update k v (fs_by_id s')\<rparr>) = (flow_lookup s')(k \<mapsto> v)"
  by (simp add: flow_lookup_def fun_eq_iff)

lemma flow_update_inv:
  assumes "flow_inv s" and "bounded_seq s" and "total s + 15 * part_cap \<le> usize_max"
    and edit: "\<And>r. light r \<Longrightarrow> light (edit r)"
  shows "flow_inv (flow_update fid edit s) \<and> bounded_seq (flow_update fid edit s)
    \<and> fs_order (flow_update fid edit s) = fs_order s
    \<and> ((\<forall>r. summary_bytes (edit r) = summary_bytes r) \<longrightarrow> total (flow_update fid edit s) = total s)"
proof (cases "Option.bind (resolve_id s fid) (flow_lookup s)")
  case None
  then have "flow_update fid edit s = s"
    by (auto simp: flow_update_def split: option.split)
  with assms show ?thesis by simp
next
  case (Some r)
  then obtain k where k: "resolve_id s fid = Some k" "flow_lookup s k = Some r"
    by (auto simp: bind_eq_Some_conv)
  note i = flow_invD [OF assms(1)]
  let ?seq = "sat_add (fs_seq s) 1"
  let ?r = "(edit r)\<lparr>fl_record_seq := ?seq\<rparr>"
  let ?t = "flow_update fid edit s"
  have t: "?t = s\<lparr>fs_live_summary_bytes := sat_add (sat_sub (fs_live_summary_bytes s) (summary_bytes r))
        (summary_bytes (edit r)), fs_seq := ?seq, fs_by_id := AList.update k ?r (fs_by_id s)\<rparr>"
    by (simp add: flow_update_def k Let_def)
  have w: "total ?t + summary_bytes r = total s + summary_bytes (edit r)"
    using weight_update [of summary_bytes k ?r "fs_by_id s"] k(2)
    by (simp add: t flow_lookup_def weight_of_def)
  have "light (edit r)" using edit i(7) k(2) by blast
  from light_bytes [OF this] assms(3) weight_mem [of "fs_by_id s" k r summary_bytes] k(2) w
  have live: "fs_live_summary_bytes ?t = total ?t"
    by (simp add: t i(4) sat_add_def sat_sub_def flow_lookup_def)
  have look: "flow_lookup ?t = (flow_lookup s)(k \<mapsto> ?r)"
    by (simp add: t flow_lookup_def fun_eq_iff)
  have seq: "fs_seq s \<le> ?seq" "?seq \<le> usize_max"
    using assms(2) by (auto simp: sat_add_def bounded_seq_def)
  have o: "fs_order ?t = fs_order s" "fs_link_index ?t = fs_link_index s" "fs_seq ?t = ?seq"
    "distinct (map fst (fs_by_id ?t))"
    using i(1) by (simp_all add: t)
  have lk: "light x \<and> fl_record_seq x \<le> ?seq" if "flow_lookup ?t f = Some x" for f x
    using that i(7,8) seq(1) \<open>light (edit r)\<close> by (fastforce simp: look split: if_splits)
  have "set (fs_order s) = dom (flow_lookup ?t)" using i(3) k(2) by (auto simp: look)
  then have "flow_inv ?t"
    unfolding flow_inv_def o using i(2,5,6) live o(4) lk by blast
  moreover have "bounded_seq ?t" using seq(2) by (simp add: bounded_seq_def o)
  moreover have "summary_bytes (edit r) = summary_bytes r \<Longrightarrow> total ?t = total s" using w by simp
  ultimately show ?thesis using o by blast
qed

lemma filter_absent: "x \<notin> set xs \<Longrightarrow> filter (\<lambda>y. y \<noteq> x) xs = xs"
  by (induction xs) auto

lemma flow_insert_inv:
  assumes "flow_inv s" and "bounded_seq s" and "total s + 15 * part_cap \<le> usize_max" and "light r"
  shows "flow_inv (flow_insert k r s) \<and> bounded_seq (flow_insert k r s)"
proof -
  note i = flow_invD [OF assms(1)]
  let ?t = "flow_insert k r s" and ?seq = "sat_add (fs_seq s) 1"
  let ?r = "r\<lparr>fl_record_seq := ?seq\<rparr>"
  let ?m = "AList.delete k (fs_by_id s)"
  let ?o = "filter (\<lambda>x. x \<noteq> k) (fs_order s)"
  have w: "weight summary_bytes ?m + weight_of summary_bytes (flow_lookup s k) = total s"
    unfolding flow_lookup_def by (rule weight_delete) (rule i(1))
  have old: "flow_lookup s k = None \<Longrightarrow> ?m = fs_by_id s \<and> ?o = fs_order s"
    using i(3) by (auto simp: dom_flow_lookup filter_absent flow_lookup_def map_of_eq_None_iff intro: delete_id)
  have t: "?t = s\<lparr>fs_seq := ?seq,
      fs_live_summary_bytes := sat_add (weight summary_bytes ?m) (summary_bytes r),
      fs_order := ?o @ [k], fs_by_id := AList.update k ?r ?m\<rparr>"
  proof (cases "flow_lookup s k")
    case None
    with old i(4) show ?thesis by (simp add: flow_insert_def Let_def)
  next
    case (Some r')
    with w have "total s - summary_bytes r' = weight summary_bytes ?m" by (simp add: weight_of_def)
    with Some i(4) show ?thesis by (simp add: flow_insert_def Let_def sat_sub_def)
  qed
  have d: "distinct (map fst ?m)" "map_of ?m k = None" using i(1) by simp_all
  have "total ?t = weight summary_bytes ?m + summary_bytes r"
    using weight_update [of summary_bytes k ?r ?m] d(2) by (simp add: t weight_of_def)
  then have live: "fs_live_summary_bytes ?t = total ?t"
    using light_bytes [OF assms(4)] assms(3) w by (simp add: t sat_add_def)
  have look: "flow_lookup ?t = (flow_lookup s)(k \<mapsto> ?r)"
    by (simp add: t flow_lookup_def fun_eq_iff)
  have seq: "fs_seq s \<le> ?seq" "?seq \<le> usize_max"
    using assms(2) by (auto simp: sat_add_def bounded_seq_def)
  have lk: "light x \<and> fl_record_seq x \<le> ?seq" if "flow_lookup ?t f = Some x" for f x
    using that i(7,8) seq(1) assms(4) by (fastforce simp: look split: if_splits)
  have o: "fs_order ?t = ?o @ [k]" "fs_link_index ?t = fs_link_index s" "fs_seq ?t = ?seq"
    "distinct (map fst (fs_by_id ?t))"
    using d(1) by (simp_all add: t)
  have "distinct (?o @ [k])" using i(2) by simp
  moreover have "set (?o @ [k]) = dom (flow_lookup ?t)" using i(3) by (auto simp: look)
  moreover have "snd ` set (fs_link_index s) \<subseteq> set (?o @ [k])" using i(5) by auto
  ultimately have "flow_inv ?t"
    unfolding flow_inv_def o using live o(4) i(6) lk by blast
  with seq(2) show ?thesis by (simp add: bounded_seq_def o)
qed

lemma flow_link_index_inv:
  assumes "flow_inv s" and "flow_lookup s k \<noteq> None"
  shows "flow_inv (s\<lparr>fs_link_index := AList.update x k (fs_link_index s)\<rparr>)"
proof -
  note i = flow_invD [OF assms(1)]
  have "set (AList.update x k m) \<subseteq> insert (x, k) (set m)" for m :: "(string \<times> string) list"
    by (induction m) auto
  then have "snd ` set (AList.update x k (fs_link_index s)) \<subseteq> insert k (snd ` set (fs_link_index s))"
    by force
  then have "snd ` set (AList.update x k (fs_link_index s)) \<subseteq> set (fs_order s)"
    using i(3,5) assms(2) by blast
  with assms(1) show ?thesis by (simp add: flow_inv_def flow_lookup_fun)
qed

text \<open>Evicting keeps the invariant and ends with the condition false or the store empty.\<close>

lemma evict_while_inv:
  "flow_inv s \<Longrightarrow> bounded_seq s \<Longrightarrow> flow_inv (evict_while over s) \<and> bounded_seq (evict_while over s)
    \<and> total (evict_while over s) \<le> total s \<and> length (fs_order (evict_while over s)) \<le> length (fs_order s)
    \<and> (\<not> over (evict_while over s) \<or> fs_order (evict_while over s) = [])"
proof (induction over s rule: evict_while.induct)
  case (1 over s)
  show ?case
  proof (cases "over s \<and> fs_order s \<noteq> []")
    case False
    then have "evict_while over s = s" by (subst evict_while.simps) (auto split: list.split)
    with False 1 show ?thesis by auto
  next
    case True
    then obtain x xs where x: "fs_order s = x # xs" by (meson neq_Nil_conv)
    have e: "evict_while over s = evict_while over (flow_remove x s)"
      using True x by (subst evict_while.simps) simp
    note r = flow_remove_inv [OF 1(2,3), of x]
    from 1(1) [OF conjunct1 [OF True] x] r show ?thesis
      unfolding e using length_filter_le [of "\<lambda>y. y \<noteq> x" "fs_order s"]
      by (auto intro: order_trans)
  qed
qed

lemma shed_body_bytes: "summary_bytes (shed_body r) + body_bytes r = summary_bytes r"
  by (simp add: summary_bytes_def body_bytes_def shed_body_def opt_len_def response_len_def)

lemma shed_body_seq [simp]: "fl_record_seq (shed_body r) = fl_record_seq r"
  by (simp add: shed_body_def)

lemma light_shed: "light r \<Longrightarrow> light (shed_body r)"
  by (simp add: light_def record_parts_def shed_body_def opt_len_def response_len_def)

lemma shed_bodies_inv:
  "flow_inv s \<Longrightarrow> flow_inv (shed_bodies q fids s) \<and> total (shed_bodies q fids s) \<le> total s
    \<and> fs_seq (shed_bodies q fids s) = fs_seq s \<and> fs_order (shed_bodies q fids s) = fs_order s"
proof (induction fids arbitrary: s)
  case (Cons fid fids)
  define t where "t = (case flow_lookup s fid of None \<Rightarrow> s | Some existing \<Rightarrow>
    if \<not> has_body existing then s
    else s\<lparr>fs_by_id := AList.update fid (shed_body existing) (fs_by_id s),
           fs_live_summary_bytes := sat_sub (fs_live_summary_bytes s) (body_bytes existing)\<rparr>)"
  note i = flow_invD [OF Cons.prems]
  have t: "flow_inv t \<and> total t \<le> total s \<and> fs_seq t = fs_seq s \<and> fs_order t = fs_order s"
  proof (cases "flow_lookup s fid")
    case (Some r)
    show ?thesis
    proof (cases "has_body r")
      case True
      let ?u = "s\<lparr>fs_by_id := AList.update fid (shed_body r) (fs_by_id s),
           fs_live_summary_bytes := sat_sub (fs_live_summary_bytes s) (body_bytes r)\<rparr>"
      have u: "t = ?u" using True Some by (simp add: t_def)
      have w: "total ?u + body_bytes r = total s"
        using weight_update [of summary_bytes fid "shed_body r" "fs_by_id s"] Some shed_body_bytes [of r]
        by (simp add: flow_lookup_def weight_of_def)
      have look: "flow_lookup ?u = (flow_lookup s)(fid \<mapsto> shed_body r)"
        by (simp add: flow_lookup_def fun_eq_iff)
      have "light x \<and> fl_record_seq x \<le> fs_seq s" if "flow_lookup ?u f = Some x" for f x
        using that i(7,8) light_shed [OF i(7) [OF Some]] i(8) [OF Some] by (auto simp: look split: if_splits)
      moreover have "set (fs_order s) = dom (flow_lookup ?u)" using i(3) Some by (auto simp: look)
      ultimately have "flow_inv ?u"
        unfolding flow_inv_def using i(1,2,4,5,6) w by (auto simp: sat_sub_def)
      with w show ?thesis by (simp add: u)
    qed (use Some Cons.prems in \<open>simp add: t_def\<close>)
  qed (use Cons.prems in \<open>simp add: t_def\<close>)
  show ?case
  proof (cases "fs_live_summary_bytes s \<le> q")
    case False
    with Cons.IH [of t] t show ?thesis by (auto simp: t_def [symmetric])
  qed (use Cons.prems in simp)
qed simp

text \<open>What the caps establish.\<close>

definition flow_bounded :: "nat \<Rightarrow> flow_state \<Rightarrow> bool" where
  "flow_bounded q s \<longleftrightarrow> flow_inv s \<and> bounded_seq s \<and> length (fs_order s) \<le> flow_cap \<and> total s \<le> q"

lemma enforce_caps_bounded:
  assumes "flow_inv s" and "bounded_seq s"
  shows "flow_bounded q (enforce_caps q s)"
proof -
  let ?s = "evict_while (\<lambda>s. flow_cap < length (fs_order s)) s"
  from evict_while_inv [OF assms, of "\<lambda>s. flow_cap < length (fs_order s)"]
  have s: "flow_inv ?s" "bounded_seq ?s" "length (fs_order ?s) \<le> flow_cap" by auto
  show ?thesis
  proof (cases "fs_live_summary_bytes ?s \<le> q")
    case True
    with s flow_invD(4) [OF s(1)] show ?thesis
      by (simp add: enforce_caps_def enforce_summary_quota_def flow_bounded_def)
  next
    case False
    let ?t = "shed_bodies q (fs_order ?s) ?s"
    let ?u = "evict_while (\<lambda>s. q < fs_live_summary_bytes s) ?t"
    note t = shed_bodies_inv [OF s(1), of q "fs_order ?s"]
    then have "flow_inv ?t" "bounded_seq ?t" using s(2) by (simp_all add: bounded_seq_def)
    from evict_while_inv [OF this, of "\<lambda>s. q < fs_live_summary_bytes s"]
    have u: "flow_inv ?u" "bounded_seq ?u" "length (fs_order ?u) \<le> length (fs_order ?t)"
      "fs_live_summary_bytes ?u \<le> q \<or> fs_order ?u = []" by auto
    have "fs_order ?u = [] \<Longrightarrow> total ?u = 0"
      using flow_invD(3) [OF u(1)] by (simp add: dom_flow_lookup)
    with u flow_invD(4) [OF u(1)] t s(3) False show ?thesis
      by (auto simp: enforce_caps_def enforce_summary_quota_def flow_bounded_def)
  qed
qed

subsection \<open>Histories of the store\<close>

text \<open>
  One operation on the store, with any arguments of which the captured ones respect the caps of the
  capture (here, only the far larger \<open>part_cap\<close> is needed).
\<close>

inductive flow_step :: "flow_store \<Rightarrow> flow_state \<Rightarrow> flow_state \<Rightarrow> bool" for C s where
  open_step: "headers_len headers \<le> part_cap \<Longrightarrow> opt_len body \<le> part_cap \<Longrightarrow>
    flow_step C s (flow_open C claim now instant api_call_id meth uri headers body client s)"
| link_step: "flow_step C s (flow_link C now response_id api_call_id s)"
| upstream_step: "opt_len body \<le> part_cap \<Longrightarrow>
    flow_step C s (set_upstream C now fid target model body s)"
| response_step: "opt_len (map_option crb_body captured) \<le> part_cap \<Longrightarrow>
    flow_step C s (set_upstream_response C now fid captured s)"
| normalized_step: "opt_len body \<le> part_cap \<Longrightarrow>
    flow_step C s (set_normalized C now fid model body s)"
| finalize_step: "flow_step C s (store_finalize C now instant fid status reason provider s)"
| usage_step: "flow_step C s (store_record_usage C now fid usage s)"
| attempts_step: "sum_list (map attempt_summary_bytes attempts) \<le> part_cap \<Longrightarrow>
    flow_step C s (store_record_attempts C now fid attempts byte_ms s)"
| routing_step: "flow_step C s (store_stamp_routing_decision C now fid s)"
| content_step: "flow_step C s (store_stamp_first_content_delta C now fid s)"
| stream_end_step: "flow_step C s (store_stamp_stream_end C now fid s)"
| list_step: "flow_step C s (snd (flow_list C now s))"
| detail_step: "flow_step C s (snd (flow_detail C now fid s))"
| snapshot_step: "flow_step C s (snd (snapshot_summaries_with_seq C now s))"

text \<open>Every operation is made of prunings, edits of one record, an insertion and the caps.\<close>

locale flow_frame =
  fixes ok :: "flow_state \<Rightarrow> bool" and q :: nat
  assumes pruned: "ok s \<Longrightarrow> ok (prune_expired now s)"
    and inserted: "ok s \<Longrightarrow> light r \<Longrightarrow> ok (enforce_caps q (flow_insert k r s))"
    and edited: "ok s \<Longrightarrow> (\<And>r. light r \<Longrightarrow> light (edit r)) \<Longrightarrow> ok (enforce_caps q (flow_update fid edit s))"
    and linked: "ok s \<Longrightarrow> flow_lookup s k \<noteq> None \<Longrightarrow> ok (s\<lparr>fs_link_index := AList.update x k (fs_link_index s)\<rparr>)"
    and stamped: "ok s \<Longrightarrow> (\<And>r. summary_bytes (edit r) = summary_bytes r)
      \<Longrightarrow> (\<And>r. light r \<Longrightarrow> light (edit r)) \<Longrightarrow> ok (flow_update fid edit s)"

lemma cap_scalar_part: "length (cap_scalar t) \<le> part_cap"
  using cap_str_length [of t scalar_cap] by (simp add: cap_scalar_def scalar_cap_def part_cap_def)

lemma opt_cap_scalar_part: "opt_len (map_option cap_scalar x) \<le> part_cap"
  by (cases x) (simp_all add: opt_len_def cap_scalar_part)

lemmas light_simps = light_def record_parts_def or_keep_opt_def

lemma light_opened: "headers_len headers \<le> part_cap \<Longrightarrow> opt_len body \<le> part_cap
    \<Longrightarrow> light (opened_record claim now instant api_call_id meth uri headers body client)"
  using opt_cap_scalar_part [of "ca_label client"]
  by (simp add: light_simps opened_record_def cap_scalar_part opt_len_def [of None] response_len_def)

lemma opt_len_or_keep: "opt_len (or_keep_opt a b) = (if a = None then opt_len b else opt_len a)"
  by (simp add: or_keep_opt_def split: option.split)

lemma light_edits:
  "opt_len body \<le> part_cap \<Longrightarrow> light r
    \<Longrightarrow> light (edit_upstream (map_option cap_scalar t) (map_option cap_scalar m) body r)"
  "opt_len body \<le> part_cap \<Longrightarrow> light r \<Longrightarrow> light (edit_normalized now (map_option cap_scalar m) body r)"
  "light r \<Longrightarrow> light (edit_final now instant status (map_option cap_scalar t) (map_option cap_scalar p) r)"
  "sum_list (map attempt_summary_bytes attempts) \<le> part_cap \<Longrightarrow> light r \<Longrightarrow> light (edit_attempts attempts b r)"
  "length (crb_body cb) \<le> part_cap \<Longrightarrow> light r
    \<Longrightarrow> light (r\<lparr>fl_upstream_response := Some (response_into_record cb)\<rparr>)"
  "light r \<Longrightarrow> light (r\<lparr>fl_response_id := Some (cap_scalar x)\<rparr>)"
  "light (r\<lparr>fl_usage := u\<rparr>) = light r" "light (r\<lparr>fl_phases := ph\<rparr>) = light r"
  using opt_cap_scalar_part cap_scalar_part
  by (simp_all add: light_def record_parts_def edit_upstream_def edit_normalized_def edit_final_def
      edit_attempts_def opt_len_or_keep response_len_def response_into_record_def opt_len_def [of "Some _"])

lemma bytes_edits [simp]:
  "summary_bytes (r\<lparr>fl_usage := u\<rparr>) = summary_bytes r" "summary_bytes (r\<lparr>fl_phases := ph\<rparr>) = summary_bytes r"
  by (simp_all add: summary_bytes_def)

context flow_frame
begin

lemma frame_edit_flow: "ok s \<Longrightarrow> (\<And>r. light r \<Longrightarrow> light (edit r)) \<Longrightarrow> ok (edit_flow D now fid edit s)"
  if "st_summary_quota_bytes D = q"
  using that by (simp add: edit_flow_def edited pruned)

lemma frame_stamp_phase: "ok s \<Longrightarrow> ok (stamp_phase D now f fid s)"
  by (simp add: stamp_phase_def stamped pruned light_edits)

lemma frame_link:
  assumes "ok s" and quota: "st_summary_quota_bytes D = q"
  shows "ok (flow_link D now response_id k s)"
  unfolding flow_link_def Let_def quota using assms(1)
  by (auto simp: pruned intro!: edited linked light_edits split: option.split)

lemma frame_step: "flow_step D s s' \<Longrightarrow> st_summary_quota_bytes D = q \<Longrightarrow> ok s \<Longrightarrow> ok s'"
proof (induction rule: flow_step.induct)
  case (open_step headers body)
  then show ?case by (simp add: flow_open_def pruned inserted light_opened)
next
  case link_step
  then show ?case by (simp add: frame_link)
next
  case (upstream_step body)
  then show ?case by (simp add: set_upstream_def frame_edit_flow light_edits)
next
  case (response_step captured)
  then show ?case
    by (auto simp: set_upstream_response_def opt_len_def intro!: frame_edit_flow light_edits split: option.split)
next
  case (normalized_step body)
  then show ?case by (simp add: set_normalized_def frame_edit_flow light_edits)
next
  case finalize_step
  then show ?case by (simp add: store_finalize_def frame_edit_flow light_edits)
next
  case usage_step
  then show ?case by (simp add: store_record_usage_def stamped pruned light_edits)
next
  case (attempts_step attempts)
  then show ?case by (simp add: store_record_attempts_def frame_edit_flow light_edits)
qed (simp_all add: store_stamp_routing_decision_def store_stamp_first_content_delta_def
    store_stamp_stream_end_def frame_stamp_phase flow_list_def flow_detail_def
    snapshot_summaries_with_seq_def Let_def pruned split: option.split)

lemma frame_steps: "(flow_step D)\<^sup>*\<^sup>* s s' \<Longrightarrow> st_summary_quota_bytes D = q \<Longrightarrow> ok s \<Longrightarrow> ok s'"
  by (induction rule: rtranclp_induct) (auto intro: frame_step)

end

definition flow_ok :: "nat \<Rightarrow> flow_state \<Rightarrow> bool" where
  "flow_ok q s \<longleftrightarrow> (q \<le> 2 ^ 62 \<longrightarrow> flow_bounded q s)"

lemma quota_fits: "q \<le> 2 ^ 62 \<Longrightarrow> n \<le> q \<Longrightarrow> n + 15 * part_cap \<le> usize_max"
  by (simp add: part_cap_def usize_max_def)

interpretation bounded: flow_frame "flow_ok q" q for q
proof unfold_locales
  fix s now assume "flow_ok q s"
  then show "flow_ok q (prune_expired now s)"
    using prune_expired_inv [of s now] by (fastforce simp: flow_ok_def flow_bounded_def)
next
  fix s k r assume "flow_ok q s" "light r"
  then show "flow_ok q (enforce_caps q (flow_insert k r s))"
    unfolding flow_ok_def flow_bounded_def
    by (intro impI enforce_caps_bounded [unfolded flow_bounded_def])
      (use flow_insert_inv [of s r k] quota_fits in auto)
next
  fix s fid and edit :: "flow_record \<Rightarrow> flow_record"
  assume "flow_ok q s" "\<And>r. light r \<Longrightarrow> light (edit r)"
  then show "flow_ok q (enforce_caps q (flow_update fid edit s))"
    unfolding flow_ok_def flow_bounded_def
    by (intro impI enforce_caps_bounded [unfolded flow_bounded_def])
      (use flow_update_inv [of s edit fid] quota_fits in auto)
next
  fix s k x assume "flow_ok q s" "flow_lookup s k \<noteq> None"
  then show "flow_ok q (s\<lparr>fs_link_index := AList.update x k (fs_link_index s)\<rparr>)"
    using flow_link_index_inv [of s k x] by (auto simp: flow_ok_def flow_bounded_def bounded_seq_def)
next
  fix s fid and edit :: "flow_record \<Rightarrow> flow_record"
  assume "flow_ok q s" "\<And>r. summary_bytes (edit r) = summary_bytes r" "\<And>r. light r \<Longrightarrow> light (edit r)"
  then show "flow_ok q (flow_update fid edit s)"
    using flow_update_inv [of s edit fid] quota_fits [of q "total s"]
    by (auto simp: flow_ok_def flow_bounded_def)
qed

text \<open>
  C18: whatever is recorded, in any order and number of operations, the store holds at most 512
  records, their bytes stay within the quota and equal the running total, the order list names
  exactly the records that are kept, each once, and no response id points at a record that is gone.
\<close>

theorem flow_store_bounded:
  assumes "(flow_step C)\<^sup>*\<^sup>* flow_state_default s" and "st_summary_quota_bytes C \<le> 2 ^ 62"
  shows "length (fs_order s) \<le> flow_cap \<and> distinct (fs_order s)
    \<and> set (fs_order s) = fst ` set (fs_by_id s) \<and> distinct (map fst (fs_by_id s))
    \<and> weight summary_bytes (fs_by_id s) \<le> st_summary_quota_bytes C
    \<and> fs_live_summary_bytes s = weight summary_bytes (fs_by_id s)
    \<and> snd ` set (fs_link_index s) \<subseteq> set (fs_order s)"
proof -
  have "flow_ok (st_summary_quota_bytes C) flow_state_default"
    by (simp add: flow_ok_def flow_bounded_def flow_inv_default bounded_seq_def)
      (simp add: flow_state_default_def)
  from bounded.frame_steps [OF assms(1) refl this] assms(2) show ?thesis
    unfolding flow_ok_def flow_bounded_def flow_inv_def dom_flow_lookup by blast
qed

subsection \<open>Cursors\<close>

text \<open>
  What a client that holds the cursor of \<open>s\<close> may rely on: a flow whose visible part changed since
  carries a newer cursor. The sequence saturates at 64 bits, where nothing is claimed.
\<close>

definition visible :: "flow_state \<Rightarrow> string \<Rightarrow> snapshot_flow_summary option" where
  "visible s fid = map_option summary_of_record (flow_lookup s fid)"

definition fresh :: "flow_state \<Rightarrow> flow_state \<Rightarrow> bool" where
  "fresh s s' \<longleftrightarrow> (bounded_seq s \<longrightarrow> bounded_seq s' \<and> fs_seq s \<le> fs_seq s'
     \<and> (fs_seq s' < usize_max \<longrightarrow> (\<forall>fid r. flow_lookup s' fid = Some r \<longrightarrow>
          fs_seq s < fl_record_seq r
          \<or> (\<exists>r0. flow_lookup s fid = Some r0 \<and> summary_of_record r0 = summary_of_record r
               \<and> fl_record_seq r0 = fl_record_seq r))))"

lemma fresh_refl: "fresh s s"
  by (auto simp: fresh_def)

lemma fresh_trans: "fresh s t \<Longrightarrow> fresh t u \<Longrightarrow> fresh s u"
proof -
  assume a: "fresh s t" "fresh t u"
  show "fresh s u"
    unfolding fresh_def
  proof (intro impI conjI allI)
    assume s: "bounded_seq s"
    with a have t: "bounded_seq t" "fs_seq s \<le> fs_seq t" "bounded_seq u" "fs_seq t \<le> fs_seq u"
      by (auto simp: fresh_def)
    then show "bounded_seq u" "fs_seq s \<le> fs_seq u" by simp_all
    fix fid r assume u: "fs_seq u < usize_max" "flow_lookup u fid = Some r"
    with a(2) t have "fs_seq t < fl_record_seq r \<or> (\<exists>r0. flow_lookup t fid = Some r0
        \<and> summary_of_record r0 = summary_of_record r \<and> fl_record_seq r0 = fl_record_seq r)"
      by (auto simp: fresh_def)
    then show "fs_seq s < fl_record_seq r \<or> (\<exists>r0. flow_lookup s fid = Some r0
        \<and> summary_of_record r0 = summary_of_record r \<and> fl_record_seq r0 = fl_record_seq r)"
    proof
      assume "\<exists>r0. flow_lookup t fid = Some r0 \<and> summary_of_record r0 = summary_of_record r
        \<and> fl_record_seq r0 = fl_record_seq r"
      then obtain r0 where r0: "flow_lookup t fid = Some r0" "summary_of_record r0 = summary_of_record r"
        "fl_record_seq r0 = fl_record_seq r" by blast
      from a(1) s t(4) u(1) r0(1) have "fs_seq s < fl_record_seq r0
        \<or> (\<exists>r1. flow_lookup s fid = Some r1 \<and> summary_of_record r1 = summary_of_record r0
          \<and> fl_record_seq r1 = fl_record_seq r0)" by (auto simp: fresh_def)
      with r0(2,3) show ?thesis by auto
    qed (use t(2) in simp)
  qed
qed

text \<open>A state in which some records are gone and the others look the same.\<close>

lemma fresh_subset:
  assumes "fs_seq s' = fs_seq s \<or> fs_seq s' = sat_add (fs_seq s) 1"
    and "\<And>fid r. flow_lookup s' fid = Some r \<Longrightarrow> \<exists>r0. flow_lookup s fid = Some r0
      \<and> summary_of_record r0 = summary_of_record r \<and> fl_record_seq r0 = fl_record_seq r"
  shows "fresh s s'"
  using assms by (auto simp: fresh_def bounded_seq_def sat_add_def)

text \<open>A state that differs in one record, which carries the next cursor.\<close>

lemma fresh_upd:
  assumes "fs_seq s' = sat_add (fs_seq s) 1" and "fl_record_seq r' = fs_seq s'"
    and "flow_lookup s' = (flow_lookup s)(k \<mapsto> r')"
  shows "fresh s s'"
  using assms by (auto simp: fresh_def bounded_seq_def sat_add_def split: if_splits)

lemma fresh_remove: "fresh s (flow_remove fid s)"
proof (rule fresh_subset)
  show "fs_seq (flow_remove fid s) = fs_seq s \<or> fs_seq (flow_remove fid s) = sat_add (fs_seq s) 1"
    by (simp add: flow_seq_remove)
next
  fix f r assume "flow_lookup (flow_remove fid s) f = Some r"
  then show "\<exists>r0. flow_lookup s f = Some r0 \<and> summary_of_record r0 = summary_of_record r
      \<and> fl_record_seq r0 = fl_record_seq r"
    by (auto simp: flow_remove_def flow_lookup_fun Let_def split: option.splits if_splits)
qed

lemma fresh_prune: "fresh s (prune_expired now s)"
proof -
  have "fresh s (fold flow_remove xs s)" for xs
    by (induction xs arbitrary: s) (auto intro: fresh_refl fresh_trans [OF fresh_remove])
  then show ?thesis by (simp add: prune_expired_def)
qed

lemma fresh_update: "fresh s (flow_update fid edit s)"
proof (cases "Option.bind (resolve_id s fid) (flow_lookup s)")
  case None
  then have "flow_update fid edit s = s" by (auto simp: flow_update_def split: option.split)
  then show ?thesis by (simp add: fresh_refl)
next
  case (Some r)
  then obtain k where k: "resolve_id s fid = Some k" "flow_lookup s k = Some r"
    by (auto simp: bind_eq_Some_conv)
  show ?thesis
    by (rule fresh_upd [of _ _ "(edit r)\<lparr>fl_record_seq := sat_add (fs_seq s) 1\<rparr>" k])
      (simp_all add: flow_update_def k(1) k(2) [unfolded flow_lookup_fun] Let_def flow_lookup_fun fun_eq_iff)
qed

lemma fresh_insert: "fresh s (flow_insert k r s)"
  by (rule fresh_upd [of _ _ "r\<lparr>fl_record_seq := sat_add (fs_seq s) 1\<rparr>" k])
    (auto simp: flow_insert_def Let_def flow_lookup_fun fun_eq_iff split: option.split)

lemma fresh_shed: "fresh s (shed_bodies q fids s)"
proof (induction fids arbitrary: s)
  case (Cons fid fids)
  let ?t = "case flow_lookup s fid of None \<Rightarrow> s | Some existing \<Rightarrow>
    if \<not> has_body existing then s
    else s\<lparr>fs_by_id := AList.update fid (shed_body existing) (fs_by_id s),
           fs_live_summary_bytes := sat_sub (fs_live_summary_bytes s) (body_bytes existing)\<rparr>"
  have "fresh s ?t"
    by (rule fresh_subset)
      (auto simp: flow_lookup_fun shed_body_def summary_of_record_def split: option.splits if_splits)
  from fresh_trans [OF this Cons.IH] show ?case by (simp add: fresh_refl)
qed (simp add: fresh_refl)

lemma fresh_evict: "fresh s (evict_while over s)"
proof (induction over s rule: evict_while.induct)
  case (1 over s)
  show ?case
  proof (cases "over s \<and> fs_order s \<noteq> []")
    case False
    then have "evict_while over s = s" by (subst evict_while.simps) (auto split: list.split)
    then show ?thesis by (simp add: fresh_refl)
  next
    case True
    then obtain x xs where x: "fs_order s = x # xs" by (meson neq_Nil_conv)
    have e: "evict_while over s = evict_while over (flow_remove x s)"
      using True x by (subst evict_while.simps) simp
    from fresh_trans [OF fresh_remove 1 [OF conjunct1 [OF True] x]] show ?thesis unfolding e .
  qed
qed

lemma fresh_enforce: "fresh s (enforce_caps q s)"
proof -
  let ?s = "evict_while (\<lambda>s. flow_cap < length (fs_order s)) s"
  have "fresh ?s (enforce_summary_quota q ?s)"
    using fresh_trans [OF fresh_shed fresh_evict] by (simp add: enforce_summary_quota_def fresh_refl)
  from fresh_trans [OF fresh_evict this] show ?thesis by (simp add: enforce_caps_def)
qed

interpretation cursor: flow_frame "fresh s0" q for s0 q
proof unfold_locales
  fix s k x assume "fresh s0 s"
  then show "fresh s0 (s\<lparr>fs_link_index := AList.update x k (fs_link_index s)\<rparr>)"
    by (simp add: fresh_def bounded_seq_def flow_lookup_fun)
qed (auto intro: fresh_trans [OF _ fresh_prune] fresh_trans [OF _ fresh_update]
    fresh_trans [OF _ fresh_trans [OF fresh_insert fresh_enforce]]
    fresh_trans [OF _ fresh_trans [OF fresh_update fresh_enforce]])

text \<open>
  C32: a client that took a snapshot and drops the frames its cursor covers misses nothing: after any
  further operations, every flow that looks different from the snapshot, or is new, carries a cursor
  of its own that is greater than the snapshot's.
\<close>

theorem cursor_misses_nothing:
  assumes "(flow_step C)\<^sup>*\<^sup>* flow_state_default s" and "(flow_step C)\<^sup>*\<^sup>* s s'"
    and "fs_seq s' < usize_max"
    and "flow_lookup s' fid = Some r" and "Some (summary_of_record r) \<noteq> visible s fid"
  shows "fs_seq s < fl_record_seq r"
proof -
  have "bounded_seq flow_state_default" by (simp add: bounded_seq_def flow_state_default_def)
  moreover have "fresh flow_state_default s"
    by (rule cursor.frame_steps [OF assms(1) refl fresh_refl])
  ultimately have "bounded_seq s" by (simp add: fresh_def)
  moreover have "fresh s s'" by (rule cursor.frame_steps [OF assms(2) refl fresh_refl])
  ultimately show ?thesis using assms(3-5) by (fastforce simp: fresh_def visible_def)
qed

subsection \<open>A sample history\<close>

definition sample_flow_store :: flow_store where
  "sample_flow_store = \<lparr>st_enabled = True, st_response_capture_enabled = False, st_summary_quota_bytes = 4096\<rparr>"

definition sample_opened :: flow_state where
  "sample_opened = flow_open sample_flow_store 0 5 7 ''f'' ''POST'' ''/v1'' [] (Some ''body'') client_none
     flow_state_default"

definition sample_linked :: flow_state where
  "sample_linked = flow_link sample_flow_store 6 ''resp'' ''f'' sample_opened"

lemma sample_history:
  "(flow_step sample_flow_store)\<^sup>*\<^sup>* flow_state_default sample_opened"
  "(flow_step sample_flow_store)\<^sup>*\<^sup>* sample_opened sample_linked"
  unfolding sample_linked_def sample_opened_def
  by (rule r_into_rtranclp,
      rule open_step link_step; simp add: headers_len_def opt_len_def part_cap_def)+

theorem flow_store_bounded_witness:
  "length (fs_order sample_linked) \<le> flow_cap \<and> distinct (fs_order sample_linked)
    \<and> set (fs_order sample_linked) = fst ` set (fs_by_id sample_linked)
    \<and> distinct (map fst (fs_by_id sample_linked))
    \<and> weight summary_bytes (fs_by_id sample_linked) \<le> st_summary_quota_bytes sample_flow_store
    \<and> fs_live_summary_bytes sample_linked = weight summary_bytes (fs_by_id sample_linked)
    \<and> snd ` set (fs_link_index sample_linked) \<subseteq> set (fs_order sample_linked)"
  by (rule flow_store_bounded [OF rtranclp_trans [OF sample_history]])
    (simp add: sample_flow_store_def)

definition sample_flow_record :: flow_record where
  "sample_flow_record = (case flow_lookup sample_linked ''f'' of Some r \<Rightarrow> r | None \<Rightarrow> undefined)"

theorem cursor_misses_nothing_witness:
  "fs_seq sample_opened < fl_record_seq sample_flow_record"
proof (rule cursor_misses_nothing [OF sample_history])
  have sim: "flow_lookup sample_linked ''f'' \<noteq> None
      \<and> (case flow_lookup sample_linked ''f'' of None \<Rightarrow> False
         | Some r \<Rightarrow> sf_response_id (summary_of_record r) = Some ''resp'')
      \<and> (case visible sample_opened ''f'' of None \<Rightarrow> False | Some v \<Rightarrow> sf_response_id v = None)
      \<and> fs_seq sample_linked \<le> 100"
    unfolding visible_def sample_linked_def sample_opened_def
    by (simp add: sample_flow_store_def flow_state_default_def flow_open_def flow_link_def flow_insert_def
        flow_update_def resolve_id_def prune_expired_def expired_ids_def opened_record_def flow_lookup_def
        enforce_caps_def enforce_summary_quota_def evict_while.simps flow_cap_def Let_def sat_add_def
        sat_sub_def usize_max_def summary_bytes_def opt_len_def response_len_def headers_len_def
        cap_scalar_def cap_str_on_char_boundary_def scalar_cap_def client_none_def flow_ttl_ms_def
        summary_of_record_def)
  then show "flow_lookup sample_linked ''f'' = Some sample_flow_record"
    by (auto simp: sample_flow_record_def)
  with sim show "Some (summary_of_record sample_flow_record) \<noteq> visible sample_opened ''f''"
    by (auto split: option.splits)
  from sim show "fs_seq sample_linked < usize_max" by (simp add: usize_max_def)
qed

end
