(* ===== verification/Flow_Guards.thy ===== *)
theory Flow_Guards
  imports Flow_Store_Correct
begin

text \<open>
  Who ends a flow (\<^verbatim>\<open>src/src/dashboard_flow.rs\<close>): the claim cell of a record, the middleware guard that
  ends a flow the engine never claimed, the engine guard that ends a flow on every exit path, and the
  hub of cancellation tokens. The world holds what is shared behind locks and atomics: the store's
  state, the claim cells and the cancellation tokens by address, and the hub. Guards are values that
  tasks hold; dropping one is an operation.
\<close>

datatype claim = ClaimOpenL0 | ClaimClaimedL1 | ClaimFinalized

record flow_world =
  fw_state :: flow_state
  fw_claims :: "claim list"
  fw_tokens :: "bool list"
  fw_hub :: "(string \<times> nat) list"

definition world_new :: flow_world where
  "world_new = \<lparr>fw_state = flow_state_default, fw_claims = [], fw_tokens = [], fw_hub = []\<rparr>"

subsection \<open>The abort hub\<close>

definition hub_register :: "bool \<Rightarrow> string \<Rightarrow> nat \<Rightarrow> flow_world \<Rightarrow> flow_world" where
  "hub_register hub_enabled api_call_id token w =
     (if hub_enabled then w\<lparr>fw_hub := AList.update api_call_id token (fw_hub w)\<rparr> else w)"

definition hub_remove :: "bool \<Rightarrow> string \<Rightarrow> flow_world \<Rightarrow> flow_world" where
  "hub_remove hub_enabled api_call_id w =
     (if hub_enabled then w\<lparr>fw_hub := AList.delete api_call_id (fw_hub w)\<rparr> else w)"

definition hub_abort :: "bool \<Rightarrow> string \<Rightarrow> flow_world \<Rightarrow> bool \<times> flow_world" where
  "hub_abort hub_enabled api_call_id w =
     (if \<not> hub_enabled then (False, w)
      else case map_of (fw_hub w) api_call_id of
        None \<Rightarrow> (False, w)
      | Some token \<Rightarrow> (True, w\<lparr>fw_tokens := (fw_tokens w)[token := True]\<rparr>))"

definition hub_live_len :: "bool \<Rightarrow> flow_world \<Rightarrow> nat" where
  "hub_live_len hub_enabled w = (if hub_enabled then length (fw_hub w) else 0)"

subsection \<open>Guards\<close>

record middleware_guard =
  mg_api_call_id :: string
  mg_claim :: nat

record telemetry_guard =
  tg_api_call_id :: string
  tg_claim :: nat
  tg_started :: nat
  tg_endpoint :: string
  tg_abort_token :: nat

record terminal_metrics_inputs =
  tm_model_served :: "string option"
  tm_endpoint :: string
  tm_upstream :: "string option"
  tm_usage :: "flow_usage option"
  tm_attempts :: "attempt list"

text \<open>\<^verbatim>\<open>compare_exchange\<close> on a claim cell: the world after the exchange when it succeeds.\<close>

definition exchange :: "nat \<Rightarrow> claim \<Rightarrow> claim \<Rightarrow> flow_world \<Rightarrow> flow_world option" where
  "exchange cell expected new w =
     (if fw_claims w ! cell = expected then Some (w\<lparr>fw_claims := (fw_claims w)[cell := new]\<rparr>) else None)"

definition world_open ::
  "flow_store \<Rightarrow> nat \<Rightarrow> nat \<Rightarrow> string \<Rightarrow> string \<Rightarrow> string \<Rightarrow> (string \<times> string) list \<Rightarrow> string option
     \<Rightarrow> client_attribution \<Rightarrow> flow_world \<Rightarrow> flow_world" where
  "world_open C now instant api_call_id meth uri headers body client w =
     (if \<not> st_enabled C then w
      else w\<lparr>fw_claims := fw_claims w @ [ClaimOpenL0],
             fw_state := flow_open C (length (fw_claims w)) now instant api_call_id meth uri headers
               body client (fw_state w)\<rparr>)"

definition middleware_guard_of :: "flow_store \<Rightarrow> string \<Rightarrow> flow_world \<Rightarrow> middleware_guard option" where
  "middleware_guard_of C api_call_id w =
     (if \<not> st_enabled C then None
      else map_option (\<lambda>r. \<lparr>mg_api_call_id = api_call_id, mg_claim = fl_claim r\<rparr>)
        (flow_lookup (fw_state w) api_call_id))"

definition engine_guard ::
  "flow_store \<Rightarrow> bool \<Rightarrow> nat \<Rightarrow> string \<Rightarrow> flow_world \<Rightarrow> telemetry_guard option \<times> flow_world" where
  "engine_guard C hub_enabled instant api_call_id w =
     (if \<not> st_enabled C then (None, w)
      else case flow_lookup (fw_state w) api_call_id of
        None \<Rightarrow> (None, w)
      | Some r \<Rightarrow>
          (case exchange (fl_claim r) ClaimOpenL0 ClaimClaimedL1 w of
             None \<Rightarrow> (None, w)
           | Some w1 \<Rightarrow>
               (let token = length (fw_tokens w1)
                in (Some \<lparr>tg_api_call_id = api_call_id, tg_claim = fl_claim r, tg_started = instant,
                          tg_endpoint = fl_uri r, tg_abort_token = token\<rparr>,
                    hub_register hub_enabled api_call_id token
                      (w1\<lparr>fw_tokens := fw_tokens w1 @ [False]\<rparr>)))))"

definition middleware_drop ::
  "flow_store \<Rightarrow> nat \<Rightarrow> nat \<Rightarrow> middleware_guard \<Rightarrow> flow_world \<Rightarrow> flow_world" where
  "middleware_drop C now instant g w =
     (case exchange (mg_claim g) ClaimOpenL0 ClaimFinalized w of
        None \<Rightarrow> w
      | Some w1 \<Rightarrow> w1\<lparr>fw_state := store_finalize C now instant (mg_api_call_id g) FlowFailed
          (Some ''unhandled'') None (fw_state w1)\<rparr>)"

text \<open>What the winning finalize leaves: the inputs of the metrics, and the serving token read out.\<close>

definition terminal_inputs :: "telemetry_guard \<Rightarrow> serving_info \<Rightarrow> terminal_metrics_inputs" where
  "terminal_inputs g serving =
     \<lparr>tm_model_served = fst (metrics_snapshot serving), tm_endpoint = tg_endpoint g,
      tm_upstream = or_keep_opt (snd (serving_snapshot serving)) (fst (serving_snapshot serving)),
      tm_usage = snd (metrics_snapshot serving), tm_attempts = fst (attempts_snapshot serving)\<rparr>"

definition telemetry_finalize ::
  "flow_store \<Rightarrow> bool \<Rightarrow> nat \<Rightarrow> nat \<Rightarrow> flow_status \<Rightarrow> string option \<Rightarrow> telemetry_guard \<Rightarrow> serving_info
     \<Rightarrow> flow_world \<Rightarrow> (terminal_metrics_inputs option \<times> serving_info) \<times> flow_world" where
  "telemetry_finalize C hub_enabled now instant status reason g serving w =
     (case exchange (tg_claim g) ClaimClaimedL1 ClaimFinalized w of
        None \<Rightarrow> ((None, serving), w)
      | Some w1 \<Rightarrow>
          (let inputs = terminal_inputs g serving;
               (attempts, first_byte) = attempts_snapshot serving;
               (pending, serving') = take_pending_response_body serving;
               fid = tg_api_call_id g;
               s1 = store_finalize C now instant fid status reason (tm_upstream inputs) (fw_state w1);
               s2 = store_record_attempts C now fid attempts first_byte s1;
               s3 = set_upstream_response C now fid pending s2
           in ((Some inputs, serving'), hub_remove hub_enabled fid (w1\<lparr>fw_state := s3\<rparr>))))"

definition telemetry_drop ::
  "flow_store \<Rightarrow> bool \<Rightarrow> nat \<Rightarrow> nat \<Rightarrow> telemetry_guard \<Rightarrow> serving_info \<Rightarrow> flow_world \<Rightarrow> flow_world" where
  "telemetry_drop C hub_enabled now instant g serving w =
     snd (telemetry_finalize C hub_enabled now instant FlowCancelled (Some ''dropped'') g serving w)"

subsection \<open>What operations do to the outcome of a flow\<close>

text \<open>The outcome of a flow: its claim cell, its status and its reason.\<close>

definition outcome :: "flow_record \<Rightarrow> nat \<times> flow_status \<times> string option" where
  "outcome r = (fl_claim r, fl_status r, fl_terminal_reason r)"

definition flow_outcome :: "flow_state \<Rightarrow> string \<Rightarrow> (nat \<times> flow_status \<times> string option) option" where
  "flow_outcome s fid = map_option outcome (flow_lookup s fid)"

text \<open>
  Records may go, but what is kept has the outcome it had, and the response ids that come in are no
  ids of flows: \<open>P\<close> holds of the ids the middleware mints and of no response id.
\<close>

definition outcomes_kept :: "(string \<Rightarrow> bool) \<Rightarrow> flow_state \<Rightarrow> flow_state \<Rightarrow> bool" where
  "outcomes_kept P s s' \<longleftrightarrow> flow_outcome s' \<subseteq>\<^sub>m flow_outcome s
     \<and> (\<forall>x \<in> set (fs_link_index s'). x \<in> set (fs_link_index s) \<or> \<not> P (fst x))"

lemma outcomes_kept_refl: "outcomes_kept P s s"
  by (simp add: outcomes_kept_def)

lemma outcomes_kept_trans:
  assumes "outcomes_kept P s t" and "outcomes_kept P t u"
  shows "outcomes_kept P s u"
  unfolding outcomes_kept_def
proof
  have "flow_outcome u \<subseteq>\<^sub>m flow_outcome t" "flow_outcome t \<subseteq>\<^sub>m flow_outcome s"
    using assms by (simp_all add: outcomes_kept_def)
  then show "flow_outcome u \<subseteq>\<^sub>m flow_outcome s" by (rule map_le_trans)
  show "\<forall>x \<in> set (fs_link_index u). x \<in> set (fs_link_index s) \<or> \<not> P (fst x)"
  proof
    fix x assume "x \<in> set (fs_link_index u)"
    then have "x \<in> set (fs_link_index t) \<or> \<not> P (fst x)" using assms(2) by (simp add: outcomes_kept_def)
    then show "x \<in> set (fs_link_index s) \<or> \<not> P (fst x)" using assms(1) by (auto simp: outcomes_kept_def)
  qed
qed

lemma flow_outcome_fun: "flow_outcome s = (\<lambda>fid. map_option outcome (map_of (fs_by_id s) fid))"
  by (simp add: fun_eq_iff flow_outcome_def flow_lookup_fun)

lemma flow_lookup_removed: "flow_lookup (flow_remove fid s) = (flow_lookup s)(fid := None)"
  by (rule ext) (simp add: flow_remove_def flow_lookup_fun Let_def delete_conv' split: option.split)

lemma links_removed: "set (fs_link_index (flow_remove fid s)) \<subseteq> set (fs_link_index s)"
  by (auto simp: flow_remove_def Let_def AList.delete_eq split: option.splits)

lemma kept_remove: "outcomes_kept P s (flow_remove fid s)"
  unfolding outcomes_kept_def using links_removed [of fid s]
  by (auto simp: map_le_def flow_outcome_def flow_lookup_removed split: if_splits)

lemma kept_prune: "outcomes_kept P s (prune_expired now s)"
proof -
  have "outcomes_kept P s (fold flow_remove xs s)" for xs
  proof (induction xs arbitrary: s)
    case (Cons x xs)
    from outcomes_kept_trans [OF kept_remove Cons.IH] show ?case by simp
  qed (simp add: outcomes_kept_refl)
  then show ?thesis by (simp add: prune_expired_def)
qed

lemma kept_evict: "outcomes_kept P s (evict_while over s)"
proof (induction over s rule: evict_while.induct)
  case (1 over s)
  show ?case
  proof (cases "over s \<and> fs_order s \<noteq> []")
    case False
    then have "evict_while over s = s" by (subst evict_while.simps) (auto split: list.split)
    then show ?thesis by (simp add: outcomes_kept_refl)
  next
    case True
    then obtain x xs where x: "fs_order s = x # xs" by (meson neq_Nil_conv)
    have e: "evict_while over s = evict_while over (flow_remove x s)"
      using True x by (subst evict_while.simps) simp
    from outcomes_kept_trans [OF kept_remove 1 [OF conjunct1 [OF True] x]] show ?thesis unfolding e .
  qed
qed

text \<open>Replacing a record by one with its outcome.\<close>

lemma kept_replace:
  assumes "flow_lookup s k = Some r" and "outcome r' = outcome r"
    and "fs_by_id s' = AList.update k r' (fs_by_id s)" and "fs_link_index s' = fs_link_index s"
  shows "outcomes_kept P s s'"
proof -
  have "flow_outcome s' = flow_outcome s"
    using assms(1,2) by (auto simp: flow_outcome_fun assms(3) flow_lookup_fun)
  then show ?thesis by (simp add: outcomes_kept_def assms(4))
qed

lemma outcome_shed: "outcome (shed_body r) = outcome r"
  by (simp add: outcome_def shed_body_def)

lemma outcome_seq [simp]: "outcome (r\<lparr>fl_record_seq := n\<rparr>) = outcome r"
  by (simp add: outcome_def)

lemma kept_shed: "outcomes_kept P s (shed_bodies q fids s)"
proof (induction fids arbitrary: s)
  case (Cons fid fids)
  define t where "t = (case flow_lookup s fid of None \<Rightarrow> s | Some existing \<Rightarrow>
    if \<not> has_body existing then s
    else s\<lparr>fs_by_id := AList.update fid (shed_body existing) (fs_by_id s),
           fs_live_summary_bytes := sat_sub (fs_live_summary_bytes s) (body_bytes existing)\<rparr>)"
  have "outcomes_kept P s t"
  proof (cases "flow_lookup s fid")
    case (Some r)
    show ?thesis
      using kept_replace [OF Some outcome_shed] outcomes_kept_refl by (simp add: t_def Some)
  qed (simp add: t_def outcomes_kept_refl)
  from outcomes_kept_trans [OF this Cons.IH] show ?case
    by (simp add: t_def [symmetric] outcomes_kept_refl)
qed (simp add: outcomes_kept_refl)

lemma kept_enforce: "outcomes_kept P s (enforce_caps q s)"
proof -
  let ?s = "evict_while (\<lambda>s. flow_cap < length (fs_order s)) s"
  have "outcomes_kept P ?s (enforce_summary_quota q ?s)"
    using outcomes_kept_trans [OF kept_shed kept_evict]
    by (simp add: enforce_summary_quota_def outcomes_kept_refl)
  from outcomes_kept_trans [OF kept_evict this] show ?thesis by (simp add: enforce_caps_def)
qed

lemma flow_update_cases:
  obtains "flow_update fid edit s = s" "flow_lookup s fid = None"
  | k r where "resolve_id s fid = Some k" "flow_lookup s k = Some r"
    "fs_by_id (flow_update fid edit s) = AList.update k ((edit r)\<lparr>fl_record_seq := sat_add (fs_seq s) 1\<rparr>) (fs_by_id s)"
    "fs_link_index (flow_update fid edit s) = fs_link_index s"
proof (cases "Option.bind (resolve_id s fid) (flow_lookup s)")
  case None
  then have "flow_update fid edit s = s" "flow_lookup s fid = None"
    by (auto simp: flow_update_def resolve_id_def split: option.splits if_splits)
  then show ?thesis by (rule that(1))
next
  case (Some r)
  then obtain k where "resolve_id s fid = Some k" "flow_lookup s k = Some r"
    by (auto simp: bind_eq_Some_conv)
  then show ?thesis by (intro that(2) [of k r]) (simp_all add: flow_update_def Let_def)
qed

lemma kept_update:
  assumes "\<And>r. outcome (edit r) = outcome r"
  shows "outcomes_kept P s (flow_update fid edit s)"
proof (cases rule: flow_update_cases [of fid edit s])
  case 1
  then show ?thesis by (simp add: outcomes_kept_refl)
next
  case (2 k r)
  then show ?thesis by (intro kept_replace [OF 2(2) _ 2(3,4)]) (simp add: assms)
qed

lemma kept_edit_flow:
  "(\<And>r. outcome (edit r) = outcome r) \<Longrightarrow> outcomes_kept P s (edit_flow C now fid edit s)"
  unfolding edit_flow_def
  by (rule outcomes_kept_trans [OF kept_prune outcomes_kept_trans [OF kept_update kept_enforce]])

end
