(* ===== verification/Flow_Guards_Correct.thy ===== *)
theory Flow_Guards_Correct
  imports Flow_Guards
begin

text \<open>
  Correctness of the guards of a flow: a system of requests, engines, observers and operators that act
  on the shared world in any order, its invariant, and what follows from it. An outcome that has been
  recorded stays; a flow whose guards are gone has ended and its cancellation token is out of the hub.
\<close>

subsection \<open>The operations that only observe\<close>

text \<open>The ids the middleware mints; the engine mints response ids that start with \<open>resp_\<close>.\<close>

definition is_flow_id :: "string \<Rightarrow> bool" where
  "is_flow_id fid \<longleftrightarrow> take 4 fid = ''api_''"

inductive observe_step :: "flow_store \<Rightarrow> flow_state \<Rightarrow> flow_state \<Rightarrow> bool" for C s where
  link_obs: "\<not> is_flow_id (cap_scalar response_id) \<Longrightarrow>
    observe_step C s (flow_link C now response_id api_call_id s)"
| upstream_obs: "observe_step C s (set_upstream C now fid target model body s)"
| response_obs: "observe_step C s (set_upstream_response C now fid captured s)"
| normalized_obs: "observe_step C s (set_normalized C now fid model body s)"
| usage_obs: "observe_step C s (store_record_usage C now fid usage s)"
| attempts_obs: "observe_step C s (store_record_attempts C now fid attempts byte_ms s)"
| routing_obs: "observe_step C s (store_stamp_routing_decision C now fid s)"
| content_obs: "observe_step C s (store_stamp_first_content_delta C now fid s)"
| stream_end_obs: "observe_step C s (store_stamp_stream_end C now fid s)"
| list_obs: "observe_step C s (snd (flow_list C now s))"
| detail_obs: "observe_step C s (snd (flow_detail C now fid s))"
| snapshot_obs: "observe_step C s (snd (snapshot_summaries_with_seq C now s))"

lemma outcome_edits:
  "outcome (edit_upstream t m b r) = outcome r" "outcome (edit_normalized now m b r) = outcome r"
  "outcome (edit_attempts a f r) = outcome r" "outcome (r\<lparr>fl_upstream_response := u\<rparr>) = outcome r"
  "outcome (r\<lparr>fl_response_id := i\<rparr>) = outcome r" "outcome (r\<lparr>fl_usage := v\<rparr>) = outcome r"
  "outcome (r\<lparr>fl_phases := ph\<rparr>) = outcome r"
  by (simp_all add: outcome_def edit_upstream_def edit_normalized_def edit_attempts_def)

lemma kept_link_index:
  assumes "\<not> P x"
  shows "outcomes_kept P s (s\<lparr>fs_link_index := AList.update x k (fs_link_index s)\<rparr>)"
proof -
  have "set (AList.update x k m) \<subseteq> insert (x, k) (set m)" for m :: "(string \<times> string) list"
    by (induction m) auto
  with assms show ?thesis by (fastforce simp: outcomes_kept_def flow_outcome_fun)
qed

lemma kept_link: "\<not> P (cap_scalar response_id) \<Longrightarrow> outcomes_kept P s (flow_link C now response_id k s)"
  unfolding flow_link_def Let_def
  using outcomes_kept_trans [OF kept_prune outcomes_kept_trans [OF kept_link_index
      outcomes_kept_trans [OF kept_update [OF outcome_edits(5)] kept_enforce]]]
  by (simp add: outcomes_kept_refl kept_prune split: option.split)

lemma kept_response: "outcomes_kept P s (set_upstream_response C now fid body s)"
  unfolding set_upstream_response_def
  by (simp add: outcomes_kept_refl kept_edit_flow outcome_edits split: option.split)

lemma kept_attempts: "outcomes_kept P s (store_record_attempts C now fid a f s)"
  by (simp add: store_record_attempts_def outcomes_kept_refl kept_edit_flow outcome_edits)

lemma kept_stamp: "outcomes_kept P s (stamp_phase C now f fid s)"
  unfolding stamp_phase_def
  using outcomes_kept_trans [OF kept_prune kept_update [OF outcome_edits(7)]]
  by (simp add: outcomes_kept_refl)

lemma observe_kept: "observe_step C s s' \<Longrightarrow> outcomes_kept is_flow_id s s'"
proof (induction rule: observe_step.induct)
  case link_obs
  then show ?case by (rule kept_link)
next
  case usage_obs
  show ?case
    unfolding store_record_usage_def
    using outcomes_kept_trans [OF kept_prune kept_update [OF outcome_edits(6)]]
    by (simp add: outcomes_kept_refl)
qed (simp_all add: set_upstream_def set_normalized_def kept_response kept_attempts kept_stamp
    store_stamp_routing_decision_def store_stamp_first_content_delta_def store_stamp_stream_end_def
    outcomes_kept_refl kept_edit_flow outcome_edits kept_prune flow_list_def flow_detail_def
    snapshot_summaries_with_seq_def Let_def split: option.split)

subsection \<open>The operations that end a flow\<close>

text \<open>The response ids on record are no ids of flows, so an id of a flow names its own record.\<close>

definition links_apart :: "flow_state \<Rightarrow> bool" where
  "links_apart s \<longleftrightarrow> (\<forall>x \<in> set (fs_link_index s). \<not> is_flow_id (fst x))"

lemma kept_links_apart: "outcomes_kept is_flow_id s s' \<Longrightarrow> links_apart s \<Longrightarrow> links_apart s'"
  by (auto simp: outcomes_kept_def links_apart_def)

lemma resolve_flow_id: "links_apart s \<Longrightarrow> is_flow_id k \<Longrightarrow> resolve_id s k = Some k' \<Longrightarrow> k' = k"
  by (auto simp: resolve_id_def links_apart_def split: if_splits dest!: map_of_SomeD)

text \<open>The flow \<open>k\<close> ended with a status, the others are kept.\<close>

definition ended :: "string \<Rightarrow> flow_status \<Rightarrow> flow_state \<Rightarrow> flow_state \<Rightarrow> bool" where
  "ended k status s s' \<longleftrightarrow> (\<forall>f v. flow_outcome s' f = Some v \<longrightarrow>
     (if f = k then \<exists>c st r r'. flow_outcome s k = Some (c, st, r) \<and> v = (c, status, r')
      else flow_outcome s f = Some v))
     \<and> (links_apart s \<longrightarrow> links_apart s')"

lemma endedD:
  assumes "ended k status s s'" and "flow_outcome s' f = Some v"
  shows "f \<noteq> k \<Longrightarrow> flow_outcome s f = Some v"
    "f = k \<Longrightarrow> \<exists>c st r r'. flow_outcome s k = Some (c, st, r) \<and> v = (c, status, r')"
  using assms unfolding ended_def by (metis (full_types))+

lemma kept_ended: "outcomes_kept is_flow_id s t \<Longrightarrow> ended k status t u \<Longrightarrow> ended k status s u"
  unfolding ended_def using kept_links_apart [of s t]
  by (fastforce simp: outcomes_kept_def map_le_def dom_def)

lemma ended_kept: "ended k status s t \<Longrightarrow> outcomes_kept is_flow_id t u \<Longrightarrow> ended k status s u"
  unfolding ended_def using kept_links_apart [of t u]
  by (fastforce simp: outcomes_kept_def map_le_def dom_def)

lemma ended_update:
  assumes "links_apart s" and "is_flow_id k"
  shows "ended k status s (flow_update k (edit_final now instant status reason provider) s)"
proof (cases rule: flow_update_cases [of k "edit_final now instant status reason provider" s])
  case 1
  then have "flow_outcome s k = None" by (simp add: flow_outcome_def)
  with 1 show ?thesis by (auto simp: ended_def)
next
  case (2 k' r)
  from resolve_flow_id [OF assms 2(1)] have "k' = k" .
  with 2 show ?thesis
    by (auto simp: ended_def flow_outcome_fun flow_lookup_fun outcome_def edit_final_def links_apart_def)
qed

lemma ended_finalize:
  assumes "links_apart s" and "is_flow_id k" and "st_enabled C"
  shows "ended k status s (store_finalize C now instant k status reason provider s)"
proof -
  have "links_apart (prune_expired now s)" using kept_links_apart [OF kept_prune assms(1)] .
  note kept_ended [OF kept_prune ended_kept [OF ended_update [OF this assms(2)] kept_enforce]]
  then show ?thesis by (simp add: store_finalize_def edit_flow_def assms(3))
qed

subsection \<open>The system\<close>

text \<open>
  The shared world, the flows that were opened (the id and the address of the claim cell), and the
  guards that are alive.
\<close>

record flow_system =
  sy_world :: flow_world
  sy_opened :: "(string \<times> nat) list"
  sy_middleware :: "middleware_guard list"
  sy_engine :: "telemetry_guard list"

definition system_new :: flow_system where
  "system_new = \<lparr>sy_world = world_new, sy_opened = [], sy_middleware = [], sy_engine = []\<rparr>"

text \<open>
  A request opens a flow under a fresh id and takes the middleware guard. The engine may claim it. A
  live engine guard may end it, more than once. Guards are dropped. Anything else may touch the store
  in between, and an operator may abort any id at any time.
\<close>

inductive system_step :: "flow_store \<Rightarrow> bool \<Rightarrow> flow_system \<Rightarrow> flow_system \<Rightarrow> bool" for C hub y where
  open_sys: "is_flow_id k \<Longrightarrow> cap_scalar k = k \<Longrightarrow> k \<notin> fst ` set (sy_opened y) \<Longrightarrow>
    w = world_open C now instant k meth uri headers body client (sy_world y) \<Longrightarrow>
    system_step C hub y (y\<lparr>sy_world := w, sy_opened := (k, length (fw_claims (sy_world y))) # sy_opened y,
      sy_middleware := (case middleware_guard_of C k w of None \<Rightarrow> sy_middleware y | Some g \<Rightarrow> g # sy_middleware y)\<rparr>)"
| claim_sys: "engine_guard C hub instant k (sy_world y) = (Some g, w) \<Longrightarrow>
    system_step C hub y (y\<lparr>sy_world := w, sy_engine := g # sy_engine y\<rparr>)"
| finalize_sys: "g \<in> set (sy_engine y) \<Longrightarrow> status \<noteq> FlowOpen \<Longrightarrow>
    system_step C hub y (y\<lparr>sy_world :=
      snd (telemetry_finalize C hub now instant status reason g serving (sy_world y))\<rparr>)"
| engine_drop_sys: "sy_engine y = gs @ g # gs' \<Longrightarrow>
    system_step C hub y (y\<lparr>sy_world := telemetry_drop C hub now instant g serving (sy_world y),
      sy_engine := gs @ gs'\<rparr>)"
| middleware_drop_sys: "sy_middleware y = ms @ m # ms' \<Longrightarrow>
    system_step C hub y (y\<lparr>sy_world := middleware_drop C now instant m (sy_world y),
      sy_middleware := ms @ ms'\<rparr>)"
| observe_sys: "observe_step C (fw_state (sy_world y)) s \<Longrightarrow>
    system_step C hub y (y\<lparr>sy_world := (sy_world y)\<lparr>fw_state := s\<rparr>\<rparr>)"
| abort_sys: "system_step C hub y (y\<lparr>sy_world := snd (hub_abort hub k (sy_world y))\<rparr>)"

subsection \<open>The invariant\<close>

definition record_ok :: "flow_system \<Rightarrow> string \<Rightarrow> nat \<times> flow_status \<times> string option \<Rightarrow> bool" where
  "record_ok y k v \<longleftrightarrow> (case v of (c, st, _) \<Rightarrow>
     (k, c) \<in> set (sy_opened y) \<and> (st = FlowOpen \<longleftrightarrow> fw_claims (sy_world y) ! c \<noteq> ClaimFinalized)
     \<and> (fw_claims (sy_world y) ! c = ClaimOpenL0 \<longrightarrow>
          \<lparr>mg_api_call_id = k, mg_claim = c\<rparr> \<in> set (sy_middleware y)))"

definition recorded_ok :: "flow_system \<Rightarrow> bool" where
  "recorded_ok y \<longleftrightarrow> (\<forall>k v. flow_outcome (fw_state (sy_world y)) k = Some v \<longrightarrow> record_ok y k v)"

definition opened_ok :: "flow_system \<Rightarrow> bool" where
  "opened_ok y \<longleftrightarrow> distinct (map fst (sy_opened y)) \<and> distinct (map snd (sy_opened y))
     \<and> (\<forall>(k, c) \<in> set (sy_opened y). is_flow_id k \<and> c < length (fw_claims (sy_world y))
          \<and> (fw_claims (sy_world y) ! c = ClaimClaimedL1 \<longrightarrow>
               (\<exists>g \<in> set (sy_engine y). tg_api_call_id g = k \<and> tg_claim g = c)))"

definition guards_ok :: "flow_system \<Rightarrow> bool" where
  "guards_ok y \<longleftrightarrow> (\<forall>m \<in> set (sy_middleware y). (mg_api_call_id m, mg_claim m) \<in> set (sy_opened y))
     \<and> (\<forall>g \<in> set (sy_engine y). (tg_api_call_id g, tg_claim g) \<in> set (sy_opened y)
          \<and> fw_claims (sy_world y) ! tg_claim g \<noteq> ClaimOpenL0)"

definition hub_ok :: "bool \<Rightarrow> flow_system \<Rightarrow> bool" where
  "hub_ok hub y \<longleftrightarrow> (hub \<or> fw_hub (sy_world y) = []) \<and> (\<forall>k \<in> fst ` set (fw_hub (sy_world y)).
     \<exists>g \<in> set (sy_engine y). tg_api_call_id g = k \<and> fw_claims (sy_world y) ! tg_claim g = ClaimClaimedL1)"

definition system_inv :: "bool \<Rightarrow> flow_system \<Rightarrow> bool" where
  "system_inv hub y \<longleftrightarrow> links_apart (fw_state (sy_world y)) \<and> recorded_ok y \<and> opened_ok y \<and> guards_ok y
     \<and> hub_ok hub y"

lemmas system_inv_defs = system_inv_def recorded_ok_def opened_ok_def guards_ok_def hub_ok_def

lemma system_inv_new: "system_inv hub system_new"
  by (simp add: system_inv_defs system_new_def world_new_def flow_state_default_def links_apart_def
      flow_outcome_fun)

lemma opened_unique:
  assumes "opened_ok y" and "(k, c) \<in> set (sy_opened y)"
  shows "(k, c') \<in> set (sy_opened y) \<Longrightarrow> c' = c" "(k', c) \<in> set (sy_opened y) \<Longrightarrow> k' = k"
    "is_flow_id k" "c < length (fw_claims (sy_world y))"
proof -
  note d = assms(1) [unfolded opened_ok_def]
  show "(k, c') \<in> set (sy_opened y) \<Longrightarrow> c' = c"
    using d assms(2) by (metis eq_key_imp_eq_value)
  assume "(k', c) \<in> set (sy_opened y)"
  with assms(2) have "(c, k) \<in> set (map prod.swap (sy_opened y))" "(c, k') \<in> set (map prod.swap (sy_opened y))"
    by force+
  moreover have "distinct (map fst (map prod.swap (sy_opened y)))" using d by (simp add: comp_def)
  ultimately show "k' = k" by (metis eq_key_imp_eq_value)
next
  show "is_flow_id k" "c < length (fw_claims (sy_world y))"
    using assms by (auto simp: opened_ok_def)
qed

lemma recorded_okD: "recorded_ok y \<Longrightarrow> flow_outcome (fw_state (sy_world y)) k = Some v \<Longrightarrow> record_ok y k v"
  unfolding recorded_ok_def by blast

lemma record_ok_world: "fw_claims w = fw_claims (sy_world y) \<Longrightarrow> record_ok (y\<lparr>sy_world := w\<rparr>) = record_ok y"
  by (simp add: fun_eq_iff record_ok_def)

lemma inv_observe:
  assumes "system_inv hub y" and "outcomes_kept is_flow_id (fw_state (sy_world y)) s"
  shows "system_inv hub (y\<lparr>sy_world := (sy_world y)\<lparr>fw_state := s\<rparr>\<rparr>)"
proof -
  have "flow_outcome (fw_state (sy_world y)) k = Some v" if "flow_outcome s k = Some v" for k v
    using assms(2) that by (force simp: outcomes_kept_def map_le_def)
  with assms(1) have "recorded_ok (y\<lparr>sy_world := (sy_world y)\<lparr>fw_state := s\<rparr>\<rparr>)"
    unfolding system_inv_def recorded_ok_def by (auto simp: record_ok_world)
  moreover have "links_apart s" using kept_links_apart [OF assms(2)] assms(1) by (simp add: system_inv_def)
  ultimately show ?thesis using assms(1) by (simp add: system_inv_def opened_ok_def guards_ok_def hub_ok_def)
qed

lemma inv_abort: "system_inv hub y \<Longrightarrow> system_inv hub (y\<lparr>sy_world := snd (hub_abort hub k (sy_world y))\<rparr>)"
  by (auto simp: hub_abort_def system_inv_defs record_ok_world split: option.split)

text \<open>A flow opens.\<close>

lemma outcome_open:
  assumes "flow_outcome (flow_open C c now instant k meth uri headers body client s) f = Some v"
    and "st_enabled C" and "cap_scalar k = k"
  shows "if f = k then v = (c, FlowOpen, None) else flow_outcome s f = Some v"
proof -
  let ?r = "opened_record c now instant k meth uri headers body client"
  let ?s = "prune_expired now s" and ?t = "flow_insert k ?r (prune_expired now s)"
  have "flow_outcome ?t f = Some v"
    using assms kept_enforce [of "\<lambda>_. True" ?t "st_summary_quota_bytes C"]
    by (force simp: flow_open_def outcomes_kept_def map_le_def)
  moreover have "flow_outcome ?t f = (if f = k then Some (outcome ?r) else flow_outcome ?s f)"
    by (simp add: flow_insert_def Let_def flow_outcome_fun update_conv' delete_conv' outcome_def split: option.split)
  moreover have "flow_outcome ?s f = Some v \<Longrightarrow> flow_outcome s f = Some v"
    using kept_prune [of "\<lambda>_. True" s now] by (force simp: outcomes_kept_def map_le_def)
  ultimately show ?thesis by (auto simp: outcome_def opened_record_def split: if_splits)
qed

lemma links_open: "links_apart s \<Longrightarrow> links_apart (flow_open C c now instant k meth uri headers body client s)"
proof (cases "st_enabled C")
  case True
  assume "links_apart s"
  then have "links_apart (flow_insert (cap_scalar k) (opened_record c now instant k meth uri headers body client)
      (prune_expired now s))"
    using kept_links_apart [OF kept_prune] by (simp add: flow_insert_def links_apart_def Let_def split: option.split)
  from kept_links_apart [OF kept_enforce this] show ?thesis using True by (simp add: flow_open_def)
qed (simp add: flow_open_def)

lemma inv_open:
  assumes inv: "system_inv hub y" and C: "st_enabled C" and k: "is_flow_id k" "cap_scalar k = k"
    and fresh: "k \<notin> fst ` set (sy_opened y)"
    and w: "w = world_open C now instant k meth uri headers body client (sy_world y)"
  shows "system_inv hub (y\<lparr>sy_world := w, sy_opened := (k, length (fw_claims (sy_world y))) # sy_opened y,
    sy_middleware := (case middleware_guard_of C k w of None \<Rightarrow> sy_middleware y | Some g \<Rightarrow> g # sy_middleware y)\<rparr>)"
    (is "system_inv hub ?y")
proof -
  let ?c = "length (fw_claims (sy_world y))"
  from inv have i: "links_apart (fw_state (sy_world y))" "recorded_ok y" "opened_ok y" "guards_ok y" "hub_ok hub y"
    by (simp_all add: system_inv_def)
  have claims: "fw_claims w = fw_claims (sy_world y) @ [ClaimOpenL0]" and hub: "fw_hub w = fw_hub (sy_world y)"
    by (simp_all add: w world_open_def C)
  have out: "if f = k then v = (?c, FlowOpen, None) else flow_outcome (fw_state (sy_world y)) f = Some v"
    if "flow_outcome (fw_state w) f = Some v" for f v
    using that by (intro outcome_open [OF _ C k(2)]) (simp add: w world_open_def C)
  have guard: "middleware_guard_of C k w = Some \<lparr>mg_api_call_id = k, mg_claim = ?c\<rparr>"
    if "flow_outcome (fw_state w) k \<noteq> None"
    using that out [of k] by (auto simp: middleware_guard_of_def C flow_outcome_def outcome_def)
  have ms: "set (sy_middleware y) \<subseteq> set (sy_middleware ?y)" by (simp split: option.split) blast
  have old: "c < ?c" if "(f, c) \<in> set (sy_opened y)" for f c
    using opened_unique(4) [OF i(3) that] .
  have "record_ok ?y f v" if v: "flow_outcome (fw_state w) f = Some v" for f v
  proof (cases "f = k")
    case True
    then show ?thesis using out [OF v] guard v by (auto simp: record_ok_def claims)
  next
    case False
    with out [OF v] have "record_ok y f v" by (intro recorded_okD [OF i(2)]) simp
    then show ?thesis using ms old by (auto simp: record_ok_def claims nth_append)
  qed
  then have "recorded_ok ?y" by (simp add: recorded_ok_def)
  moreover have "opened_ok ?y"
    using i(3) fresh k(1) old by (fastforce simp: opened_ok_def claims nth_append)
  moreover have "guards_ok ?y"
  proof -
    have "m = \<lparr>mg_api_call_id = k, mg_claim = ?c\<rparr> \<or> m \<in> set (sy_middleware y)"
      if "m \<in> set (sy_middleware ?y)" for m
    proof (cases "flow_outcome (fw_state w) k")
      case None
      with that show ?thesis by (simp add: middleware_guard_of_def C flow_outcome_def)
    next
      case (Some v)
      with that guard show ?thesis by simp
    qed
    moreover have "(tg_api_call_id g, tg_claim g) \<in> set (sy_opened y) \<and> tg_claim g < ?c
        \<and> fw_claims (sy_world y) ! tg_claim g \<noteq> ClaimOpenL0" if "g \<in> set (sy_engine y)" for g
      using i(4) that by (auto simp: guards_ok_def intro: old)
    ultimately show ?thesis using i(4) by (fastforce simp: guards_ok_def claims nth_append)
  qed
  moreover have "hub_ok hub ?y"
    using i(4,5) old by (fastforce simp: hub_ok_def guards_ok_def hub claims nth_append)
  moreover have "links_apart (fw_state w)"
    using links_open [OF i(1)] by (simp add: w world_open_def C)
  ultimately show ?thesis by (simp add: system_inv_def)
qed

text \<open>The engine claims a flow.\<close>

lemma inv_claim:
  assumes inv: "system_inv hub y" and g: "engine_guard C hub instant k (sy_world y) = (Some g, w)"
  shows "system_inv hub (y\<lparr>sy_world := w, sy_engine := g # sy_engine y\<rparr>)" (is "system_inv hub ?y")
proof -
  from inv have i: "links_apart (fw_state (sy_world y))" "recorded_ok y" "opened_ok y" "guards_ok y" "hub_ok hub y"
    by (simp_all add: system_inv_def)
  from g obtain r where r: "flow_lookup (fw_state (sy_world y)) k = Some r"
    "fw_claims (sy_world y) ! fl_claim r = ClaimOpenL0"
    "tg_api_call_id g = k" "tg_claim g = fl_claim r"
    "fw_claims w = (fw_claims (sy_world y))[fl_claim r := ClaimClaimedL1]"
    "fw_state w = fw_state (sy_world y)"
    "fw_hub w = (if hub then AList.update k (length (fw_tokens (sy_world y))) (fw_hub (sy_world y))
      else fw_hub (sy_world y))"
    by (auto simp: engine_guard_def exchange_def hub_register_def Let_def split: if_splits option.splits)
  have kc: "(k, fl_claim r) \<in> set (sy_opened y)"
    using i(2) r(1) by (auto simp: recorded_ok_def record_ok_def flow_outcome_def outcome_def)
  note u = opened_unique [OF i(3) kc]
  have "record_ok ?y f v" if "flow_outcome (fw_state w) f = Some v" for f v
  proof -
    from that have "record_ok y f v" unfolding r(6) by (rule recorded_okD [OF i(2)])
    then show ?thesis using u(2,4) r(2) by (auto simp: record_ok_def r(5) nth_list_update split: if_splits)
  qed
  then have "recorded_ok ?y" by (simp add: recorded_ok_def)
  moreover have "opened_ok ?y"
    using i(3) u(2,4) r(3,4) by (fastforce simp: opened_ok_def r(5) nth_list_update)
  moreover have "guards_ok ?y"
    using i(4) kc u(4) by (auto simp: guards_ok_def r(3,4,5) nth_list_update)
  moreover have "hub_ok hub ?y"
  proof -
    have "\<exists>g' \<in> set (g # sy_engine y). tg_api_call_id g' = f \<and> fw_claims w ! tg_claim g' = ClaimClaimedL1"
      if "f \<in> fst ` set (fw_hub w)" for f
    proof (cases "f = k")
      case True
      then show ?thesis using r(3,4,5) u(4) by auto
    next
      case False
      with that have "f \<in> fst ` set (fw_hub (sy_world y))" by (auto simp: r(7) dom_update split: if_splits)
      with i(5) obtain g' where "g' \<in> set (sy_engine y)" "tg_api_call_id g' = f"
        "fw_claims (sy_world y) ! tg_claim g' = ClaimClaimedL1" by (auto simp: hub_ok_def)
      then show ?thesis using r(2) u(4) by (intro bexI [of _ g']) (auto simp: r(5) nth_list_update)
    qed
    moreover have "hub \<or> fw_hub w = []" using i(5) by (auto simp: hub_ok_def r(7))
    ultimately show ?thesis by (auto simp: hub_ok_def)
  qed
  ultimately show ?thesis using i(1) r(6) by (simp add: system_inv_def)
qed

text \<open>A flow ends: its claim is finalized, and its id leaves the hub.\<close>

lemma inv_end:
  assumes inv: "system_inv hub y" and kc: "(k, c) \<in> set (sy_opened y)" and status: "status \<noteq> FlowOpen"
    and ended: "ended k status (fw_state (sy_world y)) (fw_state w)"
    and claims: "fw_claims w = (fw_claims (sy_world y))[c := ClaimFinalized]"
    and hub: "fst ` set (fw_hub w) \<subseteq> fst ` set (fw_hub (sy_world y)) - {k}"
  shows "system_inv hub (y\<lparr>sy_world := w\<rparr>)" (is "system_inv hub ?y")
proof -
  from inv have i: "links_apart (fw_state (sy_world y))" "recorded_ok y" "opened_ok y" "guards_ok y" "hub_ok hub y"
    by (simp_all add: system_inv_def)
  note u = opened_unique [OF i(3) kc]
  have "record_ok ?y f v" if v: "flow_outcome (fw_state w) f = Some v" for f v
  proof (cases "f = k")
    case True
    with endedD(2) [OF ended v] obtain c' st r r' where
      "flow_outcome (fw_state (sy_world y)) k = Some (c', st, r)" "v = (c', status, r')" by blast
    with recorded_okD [OF i(2)] u(1) have "v = (c, status, r')" by (auto simp: record_ok_def)
    with True kc status u(4) show ?thesis by (simp add: record_ok_def claims)
  next
    case False
    from endedD(1) [OF ended v this] have "flow_outcome (fw_state (sy_world y)) f = Some v" .
    note r = recorded_okD [OF i(2) this]
    then have "(f, fst v) \<in> set (sy_opened y)" by (auto simp: record_ok_def)
    with u(2) False have "fst v \<noteq> c" by blast
    with r show ?thesis by (auto simp: record_ok_def claims)
  qed
  then have "recorded_ok ?y" by (simp add: recorded_ok_def)
  moreover have "opened_ok ?y"
    using i(3) u(4) by (fastforce simp: opened_ok_def claims nth_list_update split: if_splits)
  moreover have "guards_ok ?y"
    using i(4) u(4) by (auto simp: guards_ok_def claims nth_list_update)
  moreover have "hub_ok hub ?y"
  proof -
    have "\<exists>g \<in> set (sy_engine y). tg_api_call_id g = f \<and> fw_claims w ! tg_claim g = ClaimClaimedL1"
      if "f \<in> fst ` set (fw_hub w)" for f
    proof -
      from that hub have "f \<in> fst ` set (fw_hub (sy_world y))" "f \<noteq> k" by blast+
      with i(5) obtain g where g: "g \<in> set (sy_engine y)" "tg_api_call_id g = f" "f \<noteq> k"
        "fw_claims (sy_world y) ! tg_claim g = ClaimClaimedL1" unfolding hub_ok_def by blast
      then have "(f, tg_claim g) \<in> set (sy_opened y)" using i(4) by (auto simp: guards_ok_def)
      with u(2) g(2,3) have "tg_claim g \<noteq> c" by blast
      with g show ?thesis by (intro bexI [of _ g]) (auto simp: claims)
    qed
    then show ?thesis using i(5) hub by (auto simp: hub_ok_def)
  qed
  moreover have "links_apart (fw_state w)" using ended i(1) by (simp add: ended_def)
  ultimately show ?thesis by (simp add: system_inv_def)
qed

lemma telemetry_finalize_cases:
  assumes "st_enabled C" and "links_apart (fw_state w)" and "is_flow_id (tg_api_call_id g)"
  obtains "fw_claims w ! tg_claim g \<noteq> ClaimClaimedL1"
      "telemetry_finalize C hub now instant status reason g serving w = ((None, serving), w)"
  | v w' where "fw_claims w ! tg_claim g = ClaimClaimedL1"
      "telemetry_finalize C hub now instant status reason g serving w = (v, w')"
      "ended (tg_api_call_id g) status (fw_state w) (fw_state w')"
      "fw_claims w' = (fw_claims w)[tg_claim g := ClaimFinalized]"
      "fw_hub w' = (if hub then AList.delete (tg_api_call_id g) (fw_hub w) else fw_hub w)"
proof (cases "fw_claims w ! tg_claim g = ClaimClaimedL1")
  case False
  then show ?thesis by (intro that(1)) (simp_all add: telemetry_finalize_def exchange_def)
next
  case True
  have e: "ended (tg_api_call_id g) status (fw_state w) (set_upstream_response C now (tg_api_call_id g) p
      (store_record_attempts C now (tg_api_call_id g) a fb
        (store_finalize C now instant (tg_api_call_id g) status reason provider (fw_state w))))" for p a fb provider
    by (rule ended_kept [OF ended_kept [OF ended_finalize [OF assms(2,3,1)] kept_attempts] kept_response])
  show ?thesis
    by (rule that(2) [OF True])
      (auto simp: telemetry_finalize_def exchange_def True Let_def hub_remove_def case_prod_unfold e)
qed

lemma inv_finalize:
  assumes inv: "system_inv hub y" and C: "st_enabled C" and g: "g \<in> set (sy_engine y)" and "status \<noteq> FlowOpen"
    and w: "w = snd (telemetry_finalize C hub now instant status reason g serving (sy_world y))"
  shows "system_inv hub (y\<lparr>sy_world := w\<rparr>) \<and> fw_claims w ! tg_claim g = ClaimFinalized"
proof -
  from inv have i: "links_apart (fw_state (sy_world y))" "opened_ok y" "guards_ok y" "hub_ok hub y"
    by (simp_all add: system_inv_def)
  from g i(3) have kc: "(tg_api_call_id g, tg_claim g) \<in> set (sy_opened y)" by (simp add: guards_ok_def)
  note u = opened_unique [OF i(2) kc]
  show ?thesis
  proof (cases rule: telemetry_finalize_cases [OF C i(1) u(3), of hub now instant status reason serving])
    case 1
    then have "w = sy_world y" by (simp add: w)
    moreover have "fw_claims (sy_world y) ! tg_claim g = ClaimFinalized"
      using 1(1) i(3) g by (cases "fw_claims (sy_world y) ! tg_claim g") (auto simp: guards_ok_def)
    ultimately show ?thesis using inv by simp
  next
    case (2 v w')
    then have w': "w = w'" by (simp add: w)
    have "fst ` set (fw_hub w') \<subseteq> fst ` set (fw_hub (sy_world y)) - {tg_api_call_id g}"
      using i(4) by (auto simp: 2(5) hub_ok_def AList.delete_eq)
    from inv_end [OF inv kc assms(4) 2(3,4) this] show ?thesis using u(4) by (simp add: w' 2(4))
  qed
qed

lemma inv_drop_engine:
  assumes inv: "system_inv hub y" and gs: "sy_engine y = gs @ g # gs'"
    and final: "fw_claims (sy_world y) ! tg_claim g = ClaimFinalized"
  shows "system_inv hub (y\<lparr>sy_engine := gs @ gs'\<rparr>)"
proof -
  have keep: "g' \<in> set (gs @ gs')" if "g' \<in> set (sy_engine y)"
    "fw_claims (sy_world y) ! tg_claim g' = ClaimClaimedL1" for g'
    using that gs final by auto
  have "\<exists>g' \<in> set (gs @ gs'). tg_api_call_id g' = k \<and> tg_claim g' = c"
    if "\<exists>g' \<in> set (sy_engine y). tg_api_call_id g' = k \<and> tg_claim g' = c"
      "fw_claims (sy_world y) ! c = ClaimClaimedL1" for k c
    using that keep by blast
  with inv have "opened_ok (y\<lparr>sy_engine := gs @ gs'\<rparr>)"
    unfolding system_inv_def opened_ok_def by fastforce
  moreover have "hub_ok hub (y\<lparr>sy_engine := gs @ gs'\<rparr>)"
    using inv keep by (fastforce simp: system_inv_def hub_ok_def)
  moreover have "guards_ok (y\<lparr>sy_engine := gs @ gs'\<rparr>)"
    using inv gs by (auto simp: system_inv_def guards_ok_def)
  ultimately show ?thesis using inv by (auto simp: system_inv_def recorded_ok_def record_ok_def)
qed

text \<open>A request leaves: its guard ends the flow when the engine never claimed it.\<close>

lemma inv_middleware:
  assumes inv: "system_inv hub y" and C: "st_enabled C" and m: "m \<in> set (sy_middleware y)"
    and w: "w = middleware_drop C now instant m (sy_world y)"
  shows "system_inv hub (y\<lparr>sy_world := w\<rparr>) \<and> fw_claims w ! mg_claim m \<noteq> ClaimOpenL0"
proof (cases "fw_claims (sy_world y) ! mg_claim m = ClaimOpenL0")
  case True
  from inv have i: "links_apart (fw_state (sy_world y))" "opened_ok y" "guards_ok y" "hub_ok hub y"
    by (simp_all add: system_inv_def)
  from m i(3) have kc: "(mg_api_call_id m, mg_claim m) \<in> set (sy_opened y)" by (simp add: guards_ok_def)
  note u = opened_unique [OF i(2) kc]
  have w': "fw_claims w = (fw_claims (sy_world y))[mg_claim m := ClaimFinalized]"
    "fw_hub w = fw_hub (sy_world y)"
    "ended (mg_api_call_id m) FlowFailed (fw_state (sy_world y)) (fw_state w)"
    by (simp_all add: w middleware_drop_def exchange_def True ended_finalize [OF i(1) u(3) C])
  have "mg_api_call_id m \<notin> fst ` set (fw_hub (sy_world y))"
  proof
    assume "mg_api_call_id m \<in> fst ` set (fw_hub (sy_world y))"
    with i(4) obtain g where g: "g \<in> set (sy_engine y)" "tg_api_call_id g = mg_api_call_id m"
      "fw_claims (sy_world y) ! tg_claim g = ClaimClaimedL1" by (auto simp: hub_ok_def)
    with i(3) have "(mg_api_call_id m, tg_claim g) \<in> set (sy_opened y)" by (auto simp: guards_ok_def)
    with u(1) g(3) True show False by auto
  qed
  then have "fst ` set (fw_hub w) \<subseteq> fst ` set (fw_hub (sy_world y)) - {mg_api_call_id m}"
    by (auto simp: w'(2))
  from inv_end [OF inv kc _ w'(3,1) this] show ?thesis using u(4) by (simp add: w'(1))
next
  case False
  then show ?thesis using inv by (simp add: w middleware_drop_def exchange_def)
qed

lemma inv_drop_middleware:
  assumes "system_inv hub y" and "sy_middleware y = ms @ m # ms'"
    and "fw_claims (sy_world y) ! mg_claim m \<noteq> ClaimOpenL0"
  shows "system_inv hub (y\<lparr>sy_middleware := ms @ ms'\<rparr>)"
proof -
  have "record_ok (y\<lparr>sy_middleware := ms @ ms'\<rparr>) k v" if "record_ok y k v" for k v
    using that assms(2,3) by (auto simp: record_ok_def)
  with assms(1) have "recorded_ok (y\<lparr>sy_middleware := ms @ ms'\<rparr>)"
    by (auto simp: system_inv_def intro: recorded_okD simp: recorded_ok_def)
  then show ?thesis
    using assms(1,2) by (auto simp: system_inv_def opened_ok_def guards_ok_def hub_ok_def)
qed

lemma inv_step: "system_step C hub y y' \<Longrightarrow> st_enabled C \<Longrightarrow> system_inv hub y \<Longrightarrow> system_inv hub y'"
proof (induction rule: system_step.induct)
  case open_sys
  then show ?case by (intro inv_open)
next
  case claim_sys
  then show ?case by (intro inv_claim)
next
  case finalize_sys
  then show ?case using inv_finalize by blast
next
  case (engine_drop_sys gs g gs' now instant serving)
  let ?w = "telemetry_drop C hub now instant g serving (sy_world y)"
  have "system_inv hub (y\<lparr>sy_world := ?w\<rparr>) \<and> fw_claims ?w ! tg_claim g = ClaimFinalized"
    using engine_drop_sys by (intro inv_finalize [where status = FlowCancelled]) (simp_all add: telemetry_drop_def)
  from inv_drop_engine [OF conjunct1 [OF this], of gs g gs'] this engine_drop_sys(1) show ?case by simp
next
  case (middleware_drop_sys ms m ms' now instant)
  let ?w = "middleware_drop C now instant m (sy_world y)"
  have "system_inv hub (y\<lparr>sy_world := ?w\<rparr>) \<and> fw_claims ?w ! mg_claim m \<noteq> ClaimOpenL0"
    using middleware_drop_sys by (intro inv_middleware) simp_all
  from inv_drop_middleware [OF conjunct1 [OF this], of ms m ms'] this middleware_drop_sys(1) show ?case by simp
next
  case observe_sys
  then show ?case by (intro inv_observe observe_kept)
next
  case abort_sys
  then show ?case by (intro inv_abort)
qed

lemma inv_steps: "(system_step C hub)\<^sup>*\<^sup>* y y' \<Longrightarrow> st_enabled C \<Longrightarrow> system_inv hub y \<Longrightarrow> system_inv hub y'"
  by (induction rule: rtranclp_induct) (auto intro: inv_step)

subsection \<open>Outcomes\<close>

text \<open>A flow that has ended with an outcome, and is still kept or is gone.\<close>

definition settled :: "string \<Rightarrow> nat \<times> flow_status \<times> string option \<Rightarrow> flow_system \<Rightarrow> bool" where
  "settled k v y \<longleftrightarrow> (\<exists>c. (k, c) \<in> set (sy_opened y) \<and> fw_claims (sy_world y) ! c = ClaimFinalized)
     \<and> flow_outcome (fw_state (sy_world y)) k \<in> {None, Some v}"

text \<open>It stays settled when its claim stays and no other outcome is recorded.\<close>

lemma settled_keep:
  assumes "settled k v y" and "system_inv hub y" and "set (sy_opened y) \<subseteq> set (sy_opened y')"
    and "\<And>c. c < length (fw_claims (sy_world y)) \<Longrightarrow> fw_claims (sy_world y) ! c = ClaimFinalized
      \<Longrightarrow> fw_claims (sy_world y') ! c = ClaimFinalized"
    and "\<And>u. flow_outcome (fw_state (sy_world y')) k = Some u
      \<Longrightarrow> flow_outcome (fw_state (sy_world y)) k = Some u"
  shows "settled k v y'"
proof -
  from assms(1) obtain c where c: "(k, c) \<in> set (sy_opened y)" "fw_claims (sy_world y) ! c = ClaimFinalized"
    "flow_outcome (fw_state (sy_world y)) k \<in> {None, Some v}" by (auto simp: settled_def)
  with opened_unique(4) assms(2) have "c < length (fw_claims (sy_world y))"
    unfolding system_inv_def by blast
  from assms(4) [OF this c(2)] c(1) assms(3) have
    "(k, c) \<in> set (sy_opened y')" "fw_claims (sy_world y') ! c = ClaimFinalized" by auto
  moreover have "flow_outcome (fw_state (sy_world y')) k \<in> {None, Some v}"
    using assms(5) c(3) by (cases "flow_outcome (fw_state (sy_world y')) k") auto
  ultimately show ?thesis unfolding settled_def by blast
qed

lemma final_stays: "cells ! c = ClaimFinalized \<Longrightarrow> cells[i := ClaimFinalized] ! c = ClaimFinalized"
  by (metis list_update_beyond not_le nth_list_update_eq nth_list_update_neq)

lemma final_apart: "cells ! c = ClaimFinalized \<Longrightarrow> cells ! d = ClaimOpenL0 \<Longrightarrow> cells[d := x] ! c = ClaimFinalized"
  by (cases "c = d") simp_all

lemma settled_other:
  assumes "settled k v y" and "system_inv hub y" and "(k', c') \<in> set (sy_opened y)"
    and "fw_claims (sy_world y) ! c' \<noteq> ClaimFinalized"
  shows "k \<noteq> k'"
  using assms opened_unique(1) unfolding settled_def system_inv_def by blast

lemma settled_finalize:
  assumes s: "settled k v y" and inv: "system_inv hub y" and C: "st_enabled C" and g: "g \<in> set (sy_engine y)"
    and w: "w = snd (telemetry_finalize C hub now instant status reason g serving (sy_world y))"
    and y': "sy_world y' = w" "sy_opened y' = sy_opened y"
  shows "settled k v y'"
proof -
  from inv have i: "links_apart (fw_state (sy_world y))" "opened_ok y" "guards_ok y"
    by (simp_all add: system_inv_def)
  from g i(3) have kc: "(tg_api_call_id g, tg_claim g) \<in> set (sy_opened y)" by (simp add: guards_ok_def)
  show ?thesis
  proof (cases rule: telemetry_finalize_cases
      [OF C i(1) opened_unique(3) [OF i(2) kc], of hub now instant status reason serving])
    case 1
    then have "w = sy_world y" by (simp add: w)
    then show ?thesis by (intro settled_keep [OF s inv]) (simp_all add: y')
  next
    case (2 x w')
    then have w': "w = w'" by (simp add: w)
    from settled_other [OF s inv kc] 2(1) have "k \<noteq> tg_api_call_id g" by simp
    then show ?thesis
      using endedD(1) [OF 2(3)] by (intro settled_keep [OF s inv]) (auto simp: y' w' 2(4) final_stays)
  qed
qed

lemma settled_middleware:
  assumes s: "settled k v y" and inv: "system_inv hub y" and C: "st_enabled C" and m: "m \<in> set (sy_middleware y)"
    and y': "sy_world y' = middleware_drop C now instant m (sy_world y)" "sy_opened y' = sy_opened y"
  shows "settled k v y'"
proof (cases "fw_claims (sy_world y) ! mg_claim m = ClaimOpenL0")
  case True
  from inv have i: "links_apart (fw_state (sy_world y))" "opened_ok y" "guards_ok y"
    by (simp_all add: system_inv_def)
  from m i(3) have kc: "(mg_api_call_id m, mg_claim m) \<in> set (sy_opened y)" by (simp add: guards_ok_def)
  from settled_other [OF s inv kc] True have "k \<noteq> mg_api_call_id m" by simp
  then show ?thesis
    using endedD(1) [OF ended_finalize [OF i(1) opened_unique(3) [OF i(2) kc] C]]
    by (intro settled_keep [OF s inv]) (auto simp: y' middleware_drop_def exchange_def True final_stays)
next
  case False
  then show ?thesis
    by (intro settled_keep [OF s inv]) (simp_all add: y' middleware_drop_def exchange_def)
qed

lemma settled_step:
  "system_step C hub y y' \<Longrightarrow> st_enabled C \<Longrightarrow> system_inv hub y \<Longrightarrow> settled k v y \<Longrightarrow> settled k v y'"
proof (induction rule: system_step.induct)
  case (open_sys k' w now instant meth uri headers body client)
  then have ne: "k \<noteq> k'" by (auto simp: settled_def intro: rev_image_eqI)
  have w: "fw_claims w = fw_claims (sy_world y) @ [ClaimOpenL0]"
    "fw_state w = flow_open C (length (fw_claims (sy_world y))) now instant k' meth uri headers body client
      (fw_state (sy_world y))"
    using open_sys by (simp_all add: world_open_def)
  show ?case
  proof (rule settled_keep [OF open_sys(7,6)], goal_cases)
    case (3 u)
    then have "flow_outcome (flow_open C (length (fw_claims (sy_world y))) now instant k' meth uri headers
      body client (fw_state (sy_world y))) k = Some u" by (simp add: w(2))
    from outcome_open [OF this open_sys(5,2)] ne show ?case by simp
  qed (auto simp: w(1) nth_append)
next
  case (claim_sys instant k' g w)
  then have "fw_state w = fw_state (sy_world y) \<and>
    (\<exists>c. fw_claims (sy_world y) ! c = ClaimOpenL0 \<and> fw_claims w = (fw_claims (sy_world y))[c := ClaimClaimedL1])"
    by (auto simp: engine_guard_def exchange_def hub_register_def Let_def split: if_splits option.splits)
  then show ?case
    by (intro settled_keep [OF claim_sys(4,3)]) (auto simp: final_apart)
next
  case finalize_sys
  then show ?case by (intro settled_finalize [where y' = "y\<lparr>sy_world := _\<rparr>"]) auto
next
  case (engine_drop_sys gs g gs' now instant serving)
  then show ?case
    by (intro settled_finalize [OF engine_drop_sys(4,3,2) _ refl,
          where g = g and status = FlowCancelled and now = now and instant = instant and serving = serving
            and reason = "Some ''dropped''"]) (simp_all add: telemetry_drop_def)
next
  case (middleware_drop_sys ms m ms' now instant)
  then show ?case
    by (intro settled_middleware [OF middleware_drop_sys(4,3,2), of m _ now instant]) simp_all
next
  case (observe_sys s)
  show ?case
    using observe_kept [OF observe_sys(1)]
    by (intro settled_keep [OF observe_sys(4,3)]) (force simp: outcomes_kept_def map_le_def)+
next
  case abort_sys
  then show ?case
    by (intro settled_keep [OF abort_sys(3,2)]) (auto simp: hub_abort_def split: option.splits if_splits)
qed

text \<open>
  C16: once a flow has a terminal outcome, nothing that happens later in the system changes it: not a
  second finalize, not the fallback of a dropped guard, not the middleware, not an operator's abort. The
  record keeps its status and its reason for as long as it is kept, and is never opened again.
\<close>

theorem terminal_outcome_stays:
  assumes "st_enabled C" and "(system_step C hub)\<^sup>*\<^sup>* system_new y" and "(system_step C hub)\<^sup>*\<^sup>* y y'"
    and "flow_outcome (fw_state (sy_world y)) k = Some (c, status, reason)" and "status \<noteq> FlowOpen"
  shows "flow_outcome (fw_state (sy_world y')) k \<in> {None, Some (c, status, reason)}"
proof -
  have inv: "system_inv hub y" by (rule inv_steps [OF assms(2,1) system_inv_new])
  then have "record_ok y k (c, status, reason)"
    using recorded_okD assms(4) by (auto simp: system_inv_def)
  then have "settled k (c, status, reason) y"
    using assms(4,5) by (auto simp: record_ok_def settled_def)
  from assms(3) have "settled k (c, status, reason) y' \<and> system_inv hub y'"
  proof (induction rule: rtranclp_induct)
    case (step z z')
    then show ?case using settled_step [OF step(2) assms(1)] inv_step [OF step(2) assms(1)] by blast
  qed (use inv \<open>settled k (c, status, reason) y\<close> in blast)
  then show ?thesis by (simp add: settled_def)
qed

text \<open>
  C20: no flow is left open without an owner. In every state the system can reach, a record that is
  still open has its middleware guard or an engine guard alive, and every cancellation token in the hub
  belongs to a live engine guard: when the guards of a flow are gone, the flow has ended and its token
  has left the hub, on every path.
\<close>

theorem open_flow_has_owner:
  assumes "st_enabled C" and "(system_step C hub)\<^sup>*\<^sup>* system_new y"
  shows "list_all (\<lambda>k. case flow_outcome (fw_state (sy_world y)) k of
        Some (c, FlowOpen, _) \<Rightarrow>
          \<lparr>mg_api_call_id = k, mg_claim = c\<rparr> \<in> set (sy_middleware y)
            \<or> list_ex (\<lambda>g. tg_api_call_id g = k \<and> tg_claim g = c) (sy_engine y)
      | _ \<Rightarrow> True) ks
    \<and> fst ` set (fw_hub (sy_world y)) \<subseteq> tg_api_call_id ` set (sy_engine y)"
proof
  from inv_steps [OF assms(2,1) system_inv_new]
  have i: "recorded_ok y" "opened_ok y" "hub_ok hub y" by (simp_all add: system_inv_def)
  have "\<lparr>mg_api_call_id = k, mg_claim = c\<rparr> \<in> set (sy_middleware y)
      \<or> list_ex (\<lambda>g. tg_api_call_id g = k \<and> tg_claim g = c) (sy_engine y)"
    if "flow_outcome (fw_state (sy_world y)) k = Some (c, FlowOpen, r)" for k c r
    using recorded_okD [OF i(1) that] i(2)
    by (cases "fw_claims (sy_world y) ! c") (auto simp: record_ok_def opened_ok_def list_ex_iff)
  then show "list_all (\<lambda>k. case flow_outcome (fw_state (sy_world y)) k of
        Some (c, FlowOpen, _) \<Rightarrow>
          \<lparr>mg_api_call_id = k, mg_claim = c\<rparr> \<in> set (sy_middleware y)
            \<or> list_ex (\<lambda>g. tg_api_call_id g = k \<and> tg_claim g = c) (sy_engine y)
      | _ \<Rightarrow> True) ks"
    by (auto simp: list_all_iff split: option.split prod.split flow_status.split)
  show "fst ` set (fw_hub (sy_world y)) \<subseteq> tg_api_call_id ` set (sy_engine y)"
    using i(3) by (force simp: hub_ok_def)
qed

text \<open>A flow that is opened, claimed and ended by the engine, whose guard is then dropped.\<close>

definition sample_request :: flow_world where
  "sample_request = world_open sample_flow_store 5 5 ''api_1'' ''POST'' ''/v1'' [] None client_none world_new"

definition sample_telemetry :: telemetry_guard where
  "sample_telemetry = \<lparr>tg_api_call_id = ''api_1'', tg_claim = 0, tg_started = 6, tg_endpoint = ''/v1'', tg_abort_token = 0\<rparr>"

definition sample_claimed :: flow_system where
  "sample_claimed = \<lparr>sy_world = snd (engine_guard sample_flow_store True 6 ''api_1'' sample_request),
     sy_opened = [(''api_1'', 0)], sy_middleware = [\<lparr>mg_api_call_id = ''api_1'', mg_claim = 0\<rparr>],
     sy_engine = [sample_telemetry]\<rparr>"

definition sample_served :: flow_system where
  "sample_served = sample_claimed\<lparr>sy_world := snd (telemetry_finalize sample_flow_store True 9 9
     FlowCompleted None sample_telemetry serving_default (sy_world sample_claimed))\<rparr>"

definition sample_left :: flow_system where
  "sample_left = sample_served\<lparr>sy_world := telemetry_drop sample_flow_store True 10 10
     sample_telemetry serving_default (sy_world sample_served), sy_engine := []\<rparr>"

lemmas sample_simps = sample_flow_store_def flow_state_default_def flow_open_def flow_insert_def
  flow_update_def resolve_id_def prune_expired_def expired_ids_def opened_record_def flow_lookup_def
  enforce_caps_def enforce_summary_quota_def evict_while.simps flow_cap_def Let_def sat_add_def
  sat_sub_def usize_max_def summary_bytes_def opt_len_def response_len_def headers_len_def
  cap_scalar_def cap_str_on_char_boundary_def scalar_cap_def client_none_def flow_ttl_ms_def

lemma sample_request_guards:
  "middleware_guard_of sample_flow_store ''api_1'' sample_request = Some \<lparr>mg_api_call_id = ''api_1'', mg_claim = 0\<rparr>"
  "engine_guard sample_flow_store True 6 ''api_1'' sample_request
     = (Some sample_telemetry, sy_world sample_claimed)"
  by (simp_all add: sample_request_def sample_telemetry_def sample_claimed_def world_open_def world_new_def
      middleware_guard_of_def engine_guard_def exchange_def hub_register_def sample_simps)

lemma sample_served_outcome:
  "flow_outcome (fw_state (sy_world sample_served)) ''api_1'' = Some (0, FlowCompleted, None)"
  by (simp add: sample_served_def sample_claimed_def sample_request_def world_open_def world_new_def
      engine_guard_def exchange_def hub_register_def telemetry_finalize_def sample_telemetry_def
      attempts_snapshot_def serving_default_def take_pending_response_body_def hub_remove_def
      store_finalize_def edit_flow_def edit_final_def store_record_attempts_def set_upstream_response_def
      is_response_capture_enabled_def terminal_inputs_def serving_snapshot_def or_keep_opt_def
      flow_outcome_def outcome_def sample_simps)

lemma served_sample_run:
  "(system_step sample_flow_store True)\<^sup>*\<^sup>* system_new sample_served"
  "(system_step sample_flow_store True)\<^sup>*\<^sup>* sample_served sample_left"
proof -
  let ?step = "system_step sample_flow_store True"
  let ?opened = "\<lparr>sy_world = sample_request, sy_opened = [(''api_1'', 0)],
    sy_middleware = [\<lparr>mg_api_call_id = ''api_1'', mg_claim = 0\<rparr>], sy_engine = []\<rparr>"
  have "sample_request = world_open sample_flow_store 5 5 ''api_1'' ''POST'' ''/v1'' [] None client_none
      (sy_world system_new)"
    by (simp add: sample_request_def system_new_def)
  from open_sys [OF _ _ _ this, of True] have "?step system_new ?opened"
    by (simp add: sample_request_guards(1) is_flow_id_def cap_scalar_def cap_str_on_char_boundary_def
        scalar_cap_def) (simp add: system_new_def world_new_def)
  moreover have "?step ?opened sample_claimed"
    using claim_sys [of sample_flow_store True 6 "''api_1''" ?opened sample_telemetry "sy_world sample_claimed"]
    by (simp add: sample_request_guards(2)) (simp add: sample_claimed_def)
  moreover have "?step sample_claimed sample_served"
    unfolding sample_served_def by (rule finalize_sys) (simp_all add: sample_claimed_def)
  ultimately show "?step\<^sup>*\<^sup>* system_new sample_served"
    by (meson converse_rtranclp_into_rtranclp r_into_rtranclp)
  have "?step sample_served (sample_served\<lparr>sy_world := telemetry_drop sample_flow_store True 10 10
     sample_telemetry serving_default (sy_world sample_served), sy_engine := [] @ []\<rparr>)"
    by (rule engine_drop_sys) (simp add: sample_served_def sample_claimed_def)
  then show "?step\<^sup>*\<^sup>* sample_served sample_left" by (simp add: sample_left_def r_into_rtranclp)
qed

theorem terminal_outcome_stays_witness:
  "flow_outcome (fw_state (sy_world sample_left)) ''api_1'' \<in> {None, Some (0, FlowCompleted, None)}"
  by (rule terminal_outcome_stays [OF _ served_sample_run sample_served_outcome]) (simp_all add: sample_flow_store_def)

theorem open_flow_has_owner_witness:
  "list_all (\<lambda>k. case flow_outcome (fw_state (sy_world sample_left)) k of
        Some (c, FlowOpen, _) \<Rightarrow>
          \<lparr>mg_api_call_id = k, mg_claim = c\<rparr> \<in> set (sy_middleware sample_left)
            \<or> list_ex (\<lambda>g. tg_api_call_id g = k \<and> tg_claim g = c) (sy_engine sample_left)
      | _ \<Rightarrow> True) [''api_1'']
    \<and> fst ` set (fw_hub (sy_world sample_left)) \<subseteq> tg_api_call_id ` set (sy_engine sample_left)"
  by (rule open_flow_has_owner [OF _ rtranclp_trans [OF served_sample_run]]) (simp add: sample_flow_store_def)

end
