(* ===== verification/Std_Text.thy ===== *)
theory Std_Text
  imports Text
begin

text \<open>
  What the standard library does with text: cutting a string at a character and reading a number or a
  truth value from it.
\<close>

text \<open>\<^verbatim>\<open>str::split_once\<close> and \<^verbatim>\<open>str::rsplit_once\<close> on one character.\<close>

definition split_once :: "char \<Rightarrow> string \<Rightarrow> (string \<times> string) option" where
  "split_once c s = (if c \<in> set s then Some (takeWhile (\<lambda>x. x \<noteq> c) s, tl (dropWhile (\<lambda>x. x \<noteq> c) s)) else None)"

definition rsplit_once :: "char \<Rightarrow> string \<Rightarrow> (string \<times> string) option" where
  "rsplit_once c s = map_option (\<lambda>(a, b). (rev b, rev a)) (split_once c (rev s))"

text \<open>\<^verbatim>\<open>str::split\<close> on one character: one part more than there are separators.\<close>

fun split_on :: "char \<Rightarrow> string \<Rightarrow> string list" where
  "split_on c [] = [[]]"
| "split_on c (x # xs) =
     (case split_on c xs of part # parts \<Rightarrow> if x = c then [] # part # parts else (x # part) # parts
      | [] \<Rightarrow> [])"

text \<open>\<^verbatim>\<open>str::parse::<u64>\<close>: an optional plus sign, digits, and the value within 64 bits.\<close>

definition is_decimal_digit :: "char \<Rightarrow> bool" where
  "is_decimal_digit c = (let n = of_char c :: nat in 48 \<le> n \<and> n \<le> 57)"

definition parse_u64 :: "string \<Rightarrow> nat option" where
  "parse_u64 s =
     (let digits = (case s of c # rest \<Rightarrow> if c = CHR ''+'' then rest else s | [] \<Rightarrow> s);
          n = foldl (\<lambda>v c. 10 * v + (of_char c - 48)) 0 digits
      in if digits \<noteq> [] \<and> list_all is_decimal_digit digits \<and> n \<le> usize_max then Some n else None)"

text \<open>\<^verbatim>\<open>str::parse::<i64>\<close> and \<^verbatim>\<open>str::parse::<bool>\<close>.\<close>

definition parse_i64 :: "string \<Rightarrow> int option" where
  "parse_i64 s =
     (case s of
        CHR ''-'' # digits \<Rightarrow>
          (let n = foldl (\<lambda>v c. 10 * v + (of_char c - 48)) (0 :: nat) digits
           in if digits \<noteq> [] \<and> list_all is_decimal_digit digits \<and> n \<le> 2 ^ 63 then Some (- int n) else None)
      | _ \<Rightarrow> (case parse_u64 s of Some n \<Rightarrow> if n < 2 ^ 63 then Some (int n) else None | None \<Rightarrow> None))"

definition parse_bool :: "string \<Rightarrow> bool option" where
  "parse_bool s = (if s = ''true'' then Some True else if s = ''false'' then Some False else None)"

end
