(* ===== verification/Dashboard_Auth.thy ===== *)
theory Dashboard_Auth
  imports Flow_Guards Std_Text
begin

text \<open>
  Access control of the dashboard and the debug pages (\<^verbatim>\<open>src/src/dashboard_auth.rs\<close>, the startup decision
  of \<^verbatim>\<open>src/src/lib.rs\<close> and the kill route of \<^verbatim>\<open>src/src/http.rs\<close>): the environment, the decision whether the
  protected routes register, the signed session cookie, the authentication of requests and of socket
  upgrades, the double-submit token of mutations, and the login and logout responses. SHA-256, HMAC,
  base64, the URL parser, the check of header values and random bytes are parameters; a comparison in
  constant time is a comparison of digests, as in the code.
\<close>

subsection \<open>The environment\<close>

definition session_ttl_secs :: nat where "session_ttl_secs = 86400"
definition session_cookie_name :: string where "session_cookie_name = ''llmconduit_session''"
definition csrf_cookie_name :: string where "csrf_cookie_name = ''llmconduit_csrf''"
definition csrf_header :: string where "csrf_header = ''x-csrf-token''"
definition min_session_key_bytes :: nat where "min_session_key_bytes = 32"

definition env_token :: string where "env_token = ''LLMCONDUIT_DASHBOARD_TOKEN''"
definition env_session_key :: string where "env_session_key = ''LLMCONDUIT_DASHBOARD_SESSION_KEY''"
definition env_public_origin :: string where "env_public_origin = ''LLMCONDUIT_DASHBOARD_PUBLIC_ORIGIN''"
definition env_allow_insecure :: string where "env_allow_insecure = ''LLMCONDUIT_ALLOW_INSECURE_DASHBOARD''"
definition env_allow_mutations :: string where "env_allow_mutations = ''LLMCONDUIT_DASHBOARD_ALLOW_MUTATIONS''"

record dashboard_env =
  de_token :: "string option"
  de_session_key_b64 :: "string option"
  de_public_origin :: "string option"
  de_allow_insecure :: bool
  de_allow_mutations :: bool

text \<open>The process environment as a function from names to values.\<close>

definition env_flag :: "(string \<Rightarrow> string option) \<Rightarrow> string \<Rightarrow> bool" where
  "env_flag getenv name =
     (map_option (\<lambda>v. ascii_lower (trim v)) (getenv name) \<in> {Some ''1'', Some ''true'', Some ''yes''})"

definition read_env :: "(string \<Rightarrow> string option) \<Rightarrow> string \<Rightarrow> string option" where
  "read_env getenv name =
     (case map_option trim (getenv name) of Some v \<Rightarrow> if v = [] then None else Some v | None \<Rightarrow> None)"

definition from_process_env :: "(string \<Rightarrow> string option) \<Rightarrow> dashboard_env" where
  "from_process_env getenv = \<lparr>de_token = read_env getenv env_token,
     de_session_key_b64 = read_env getenv env_session_key,
     de_public_origin = read_env getenv env_public_origin,
     de_allow_insecure = env_flag getenv env_allow_insecure,
     de_allow_mutations = env_flag getenv env_allow_mutations\<rparr>"

subsection \<open>Origins\<close>

record url_parts =
  up_scheme :: string
  up_host :: "string option"
  up_port :: "nat option"
  up_path :: string
  up_query :: "string option"
  up_fragment :: "string option"
  up_username :: string
  up_password :: "string option"

text \<open>What the libraries compute.\<close>

record auth_crypto =
  xc_sha256 :: "string \<Rightarrow> string"
  xc_hmac :: "string \<Rightarrow> string \<Rightarrow> string"
  xc_b64_url :: "string \<Rightarrow> string"
  xc_b64_url_decode :: "string \<Rightarrow> string option"
  xc_b64_std_decode :: "string \<Rightarrow> string option"
  xc_b64_std_nopad_decode :: "string \<Rightarrow> string option"
  xc_b64_error :: "string \<Rightarrow> string"
  xc_parse_url :: "string \<Rightarrow> url_parts option"
  xc_header_ok :: "string \<Rightarrow> bool"

definition parse_origin :: "auth_crypto \<Rightarrow> string \<Rightarrow> bool \<Rightarrow> string + string" where
  "parse_origin X raw allow_insecure =
     (case xc_parse_url X (trim raw) of
        None \<Rightarrow> Inl (env_public_origin @ '' is not a valid origin URL'')
      | Some url \<Rightarrow>
          (let scheme = up_scheme url in
           if \<not> (scheme = ''https'' \<or> allow_insecure \<and> scheme = ''http'') then
             Inl (if allow_insecure then env_public_origin @ '' must use http:// or https://''
                  else env_public_origin @ '' must use https://'')
           else case up_host url of
             None \<Rightarrow> Inl (env_public_origin @ '' has no host'')
           | Some host \<Rightarrow>
               if up_path url \<noteq> ''/'' \<and> up_path url \<noteq> [] then
                 Inl (env_public_origin @ '' must be an origin only (no path)'')
               else if up_query url \<noteq> None then
                 Inl (env_public_origin @ '' must be an origin only (no query)'')
               else if up_fragment url \<noteq> None then
                 Inl (env_public_origin @ '' must be an origin only (no fragment)'')
               else if up_username url \<noteq> [] \<or> up_password url \<noteq> None then
                 Inl (env_public_origin @ '' must be an origin only (no userinfo/credentials)'')
               else Inr (scheme @ ''://'' @ host @
                 (case up_port url of Some port \<Rightarrow> CHR '':'' # show_nat port | None \<Rightarrow> []))))"

definition is_https :: "string \<Rightarrow> bool" where
  "is_https origin \<longleftrightarrow> strip_prefix ''https://'' origin \<noteq> None"

subsection \<open>The context\<close>

record dashboard_auth =
  da_has_token :: bool
  da_token_digest :: "string option"
  da_session_key :: string
  da_public_origin :: "string option"
  da_loopback :: bool
  da_allow_insecure :: bool
  da_allow_mutations :: bool

datatype ip_addr = IpV4 "8 word" "8 word" "8 word" "8 word" | IpV6 "16 word list"

definition is_loopback :: "ip_addr \<Rightarrow> bool" where
  "is_loopback ip = (case ip of IpV4 a _ _ _ \<Rightarrow> a = 127 | IpV6 segs \<Rightarrow> segs = [0, 0, 0, 0, 0, 0, 0, 1])"

definition decode_session_key :: "auth_crypto \<Rightarrow> string \<Rightarrow> string + string" where
  "decode_session_key X encoded =
     (case or_keep_opt (xc_b64_std_decode X encoded)
        (or_keep_opt (xc_b64_std_nopad_decode X encoded) (xc_b64_url_decode X encoded)) of
        None \<Rightarrow> Inl (env_session_key @ '' is not valid base64: '' @ xc_b64_error X encoded)
      | Some decoded \<Rightarrow>
          if length decoded < min_session_key_bytes then
            Inl (env_session_key @ '' must decode to at least '' @ show_nat min_session_key_bytes @
                 '' bytes (got '' @ show_nat (length decoded) @ '')'')
          else Inr decoded)"

definition generate_session_key :: "string \<Rightarrow> string \<Rightarrow> string" where
  "generate_session_key uuid1 uuid2 = uuid1 @ uuid2"

definition nonblank_token :: "string option \<Rightarrow> string option" where
  "nonblank_token token =
     (case map_option trim token of Some v \<Rightarrow> if v = [] then None else Some v | None \<Rightarrow> None)"

text \<open>The key with the warnings about it; a fresh key is drawn only when needed.\<close>

definition choose_session_key ::
  "auth_crypto \<Rightarrow> bool \<Rightarrow> string option \<Rightarrow> string \<Rightarrow> dashboard_env \<Rightarrow> string + string \<times> string list" where
  "choose_session_key X loopback token fresh_key env =
     (case de_session_key_b64 env of
        Some encoded \<Rightarrow> bind_res (decode_session_key X encoded) (\<lambda>key. Inr (key, []))
      | None \<Rightarrow>
          if loopback \<or> de_allow_insecure env \<and> token = None then
            Inr (fresh_key, [env_session_key @ '' not set; generated a temporary dev-open signing key ''
              @ ''(sessions reset on restart; the key is never logged)''])
          else Inl (env_session_key @ '' is required on a non-loopback bind (>= ''
              @ show_nat min_session_key_bytes
              @ '' decoded bytes of base64); authenticated deployments need a stable key''))"

definition choose_origin :: "auth_crypto \<Rightarrow> dashboard_env \<Rightarrow> string + string option" where
  "choose_origin X env =
     (case de_public_origin env of
        Some raw \<Rightarrow> bind_res (parse_origin X raw (de_allow_insecure env)) (\<lambda>origin. Inr (Some origin))
      | None \<Rightarrow> Inr None)"

definition auth_from_env ::
  "auth_crypto \<Rightarrow> ip_addr \<Rightarrow> string \<Rightarrow> dashboard_env \<Rightarrow> string + dashboard_auth \<times> string list" where
  "auth_from_env X ip fresh_key env =
     (let loopback = is_loopback ip; token = nonblank_token (de_token env) in
      if \<not> loopback \<and> token = None \<and> \<not> de_allow_insecure env then
        Inl (env_token @ '' is required on a non-loopback bind; a tokenless dashboard is fully unauthenticated (set ''
             @ env_allow_insecure @ ''=1 to opt in explicitly)'')
      else bind_res (choose_session_key X loopback token fresh_key env) (\<lambda>(session_key, warnings).
      bind_res (choose_origin X env) (\<lambda>public_origin.
      if \<not> loopback \<and> de_allow_insecure env \<and> token \<noteq> None \<and> public_origin = None then
        Inl (env_allow_insecure @ ''=1 on a non-loopback bind requires an explicit '' @ env_public_origin
             @ '' (http:// is allowed under this override): the Host header is attacker-controllable off ''
             @ ''loopback, so without an exact origin the dashboard WebSocket cannot validate cross-site ''
             @ ''upgrades and the exact-origin requirement cannot be met'')
      else Inr (\<lparr>da_has_token = (token \<noteq> None), da_token_digest = map_option (xc_sha256 X) token,
                 da_session_key = session_key, da_public_origin = public_origin, da_loopback = loopback,
                 da_allow_insecure = de_allow_insecure env,
                 da_allow_mutations = de_allow_mutations env\<rparr>, warnings))))"

definition secure_cookies :: "dashboard_auth \<Rightarrow> bool" where
  "secure_cookies A = (case da_public_origin A of Some origin \<Rightarrow> is_https origin | None \<Rightarrow> False)"

definition verify_token :: "auth_crypto \<Rightarrow> dashboard_auth \<Rightarrow> string \<Rightarrow> bool" where
  "verify_token X A presented =
     (case da_token_digest A of None \<Rightarrow> True | Some expected \<Rightarrow> xc_sha256 X presented = expected)"

text \<open>\<^verbatim>\<open>ct_eq_padded\<close>: equal digests and equal lengths.\<close>

definition ct_eq_padded :: "auth_crypto \<Rightarrow> string \<Rightarrow> string \<Rightarrow> bool" where
  "ct_eq_padded X a b \<longleftrightarrow> xc_sha256 X a = xc_sha256 X b \<and> length a = length b"


subsection \<open>Sessions\<close>

definition auth_mac :: "auth_crypto \<Rightarrow> dashboard_auth \<Rightarrow> string \<Rightarrow> string" where
  "auth_mac X A message = xc_hmac X (da_session_key A) message"

definition sign_session :: "auth_crypto \<Rightarrow> dashboard_auth \<Rightarrow> string \<Rightarrow> nat \<Rightarrow> string" where
  "sign_session X A nonce exp =
     (let payload = show_nat exp @ CHR '':'' # nonce
      in xc_b64_url X (auth_mac X A payload) @ CHR ''.'' # payload)"

definition issue_session :: "auth_crypto \<Rightarrow> dashboard_auth \<Rightarrow> string \<Rightarrow> nat \<Rightarrow> string \<times> nat" where
  "issue_session X A nonce now =
     (let exp = sat_add now session_ttl_secs in (sign_session X A nonce exp, exp))"

definition verify_session :: "auth_crypto \<Rightarrow> dashboard_auth \<Rightarrow> nat \<Rightarrow> string \<Rightarrow> nat option" where
  "verify_session X A now cookie_value =
     Option.bind (split_once CHR ''.'' cookie_value) (\<lambda>(mac_b64, payload).
     Option.bind (xc_b64_url_decode X mac_b64) (\<lambda>presented_mac.
       if \<not> ct_eq_padded X presented_mac (auth_mac X A payload) then None
       else Option.bind (parse_u64 (hd (split_on CHR '':'' payload))) (\<lambda>exp.
         if exp \<le> now then None else Some exp)))"

subsection \<open>Requests\<close>

text \<open>Headers are a function from lower-case names to values that are readable text.\<close>

fun find_cookie :: "string \<Rightarrow> string list \<Rightarrow> string option" where
  "find_cookie name [] = None"
| "find_cookie name (part # parts) =
     (case Option.bind (strip_prefix name (trim part)) (strip_prefix ''='') of
        Some v \<Rightarrow> Some v
      | None \<Rightarrow> find_cookie name parts)"

definition cookie_value :: "header_values \<Rightarrow> string \<Rightarrow> string option" where
  "cookie_value headers name =
     Option.bind (headers ''cookie'') (\<lambda>h. find_cookie name (split_on CHR '';'' h))"

definition auth_bearer_token :: "header_values \<Rightarrow> string option" where
  "auth_bearer_token headers =
     Option.bind (headers ''authorization'') (\<lambda>h.
     Option.bind (case strip_prefix ''Bearer '' h of
         Some rest \<Rightarrow> Some rest
       | None \<Rightarrow> if 7 \<le> length h \<and> eq_ignore_ascii_case (take 7 h) ''bearer '' then Some (drop 7 h) else None)
     (\<lambda>rest. let token = trim rest in if token = [] then None else Some token))"

definition dev_open :: "dashboard_auth \<Rightarrow> bool" where
  "dev_open A \<longleftrightarrow> \<not> da_has_token A"

definition u64_max :: nat where
  "u64_max = usize_max"

definition session_of :: "auth_crypto \<Rightarrow> dashboard_auth \<Rightarrow> nat \<Rightarrow> header_values \<Rightarrow> nat option" where
  "session_of X A now headers =
     Option.bind (cookie_value headers session_cookie_name) (verify_session X A now)"

definition authenticate :: "auth_crypto \<Rightarrow> dashboard_auth \<Rightarrow> nat \<Rightarrow> header_values \<Rightarrow> nat option" where
  "authenticate X A now headers =
     (if dev_open A then Some u64_max
      else case session_of X A now headers of
        Some exp \<Rightarrow> Some exp
      | None \<Rightarrow>
          (case auth_bearer_token headers of
             Some token \<Rightarrow> if verify_token X A token then Some u64_max else None
           | None \<Rightarrow> None))"

definition is_loopback_host :: "string \<Rightarrow> bool" where
  "is_loopback_host host =
     (if host = ''::1'' then True
      else case (case strip_prefix ''['' host of
           Some rest \<Rightarrow>
             (case split_once CHR '']'' rest of
                Some (addr, rest') \<Rightarrow>
                  if rest' = [] \<or> hd rest' = CHR '':'' then Some addr else None
              | None \<Rightarrow> None)
         | None \<Rightarrow>
             Some (case rsplit_once CHR '':'' host of
                None \<Rightarrow> host
              | Some (name, port) \<Rightarrow> if port = [] then host else name)) of
        None \<Rightarrow> False
      | Some bare \<Rightarrow> bare \<in> {''localhost'', ''127.0.0.1'', ''::1''})"

definition same_origin_as_host :: "header_values \<Rightarrow> string \<Rightarrow> bool \<Rightarrow> bool" where
  "same_origin_as_host headers origin allow_nonloop_host =
     (case headers ''host'' of
        None \<Rightarrow> False
      | Some host \<Rightarrow>
          if \<not> allow_nonloop_host \<and> \<not> is_loopback_host host then False
          else origin = ''http://'' @ host \<or> origin = ''https://'' @ host)"

definition origin_allowed :: "dashboard_auth \<Rightarrow> header_values \<Rightarrow> bool" where
  "origin_allowed A headers =
     (case headers ''origin'' of
        None \<Rightarrow> True
      | Some origin \<Rightarrow>
          (case da_public_origin A of
             Some public \<Rightarrow> origin = public
           | None \<Rightarrow> (da_loopback A \<or> da_allow_insecure A \<and> dev_open A)
               \<and> same_origin_as_host headers origin
                   (\<not> da_loopback A \<and> da_allow_insecure A \<and> dev_open A)))"

definition authenticate_ws :: "auth_crypto \<Rightarrow> dashboard_auth \<Rightarrow> nat \<Rightarrow> header_values \<Rightarrow> nat option" where
  "authenticate_ws X A now headers =
     (if \<not> origin_allowed A headers then None
      else if dev_open A then Some u64_max
      else session_of X A now headers)"

text \<open>\<^verbatim>\<open>require_session\<close>: the extension with the context, when the route carries one.\<close>

definition require_session ::
  "auth_crypto \<Rightarrow> dashboard_auth option \<Rightarrow> nat \<Rightarrow> header_values \<Rightarrow> nat option" where
  "require_session X extension now headers =
     (case extension of None \<Rightarrow> None | Some A \<Rightarrow> authenticate X A now headers)"

text \<open>The extractors: a session that the middleware left, else the same check; \<open>None\<close> rejects.\<close>

definition auth_session_from_parts ::
  "auth_crypto \<Rightarrow> nat option \<Rightarrow> dashboard_auth option \<Rightarrow> nat \<Rightarrow> header_values \<Rightarrow> nat option" where
  "auth_session_from_parts X session extension now headers =
     (case session of Some exp \<Rightarrow> Some exp | None \<Rightarrow> require_session X extension now headers)"

subsection \<open>Mutations\<close>

definition verify_csrf :: "auth_crypto \<Rightarrow> header_values \<Rightarrow> bool" where
  "verify_csrf X headers =
     (let header_token = (case headers csrf_header of Some v \<Rightarrow> v | None \<Rightarrow> []);
          cookie_token = (case cookie_value headers csrf_cookie_name of Some v \<Rightarrow> v | None \<Rightarrow> [])
      in if header_token = [] \<or> cookie_token = [] then False
         else ct_eq_padded X header_token cookie_token)"

datatype mutation_denied = MutationsDisabled | CsrfInvalid

definition denied_status :: "mutation_denied \<Rightarrow> nat" where
  "denied_status d = 403"

definition denied_message :: "mutation_denied \<Rightarrow> string" where
  "denied_message d = (case d of
     MutationsDisabled \<Rightarrow> ''dashboard mutations are disabled''
   | CsrfInvalid \<Rightarrow> ''missing or invalid CSRF token'')"

definition authorize_mutation ::
  "auth_crypto \<Rightarrow> dashboard_auth \<Rightarrow> header_values \<Rightarrow> mutation_denied + unit" where
  "authorize_mutation X A headers =
     (if \<not> da_allow_mutations A then Inl MutationsDisabled
      else if \<not> verify_csrf X headers then Inl CsrfInvalid
      else Inr ())"

datatype flow_kill_result = Killed | NotFound | Denied mutation_denied

definition flow_kill_outcome ::
  "auth_crypto \<Rightarrow> dashboard_auth \<Rightarrow> header_values \<Rightarrow> bool \<Rightarrow> string \<Rightarrow> flow_world
     \<Rightarrow> flow_kill_result \<times> flow_world" where
  "flow_kill_outcome X A headers hub_enabled api_call_id w =
     (case authorize_mutation X A headers of
        Inl denied \<Rightarrow> (Denied denied, w)
      | Inr _ \<Rightarrow> (let (found, w') = hub_abort hub_enabled api_call_id w
                in (if found then Killed else NotFound, w')))"

subsection \<open>Responses\<close>

record auth_response =
  rs_status :: nat
  rs_body :: json
  rs_headers :: "(string \<times> string) list"

text \<open>\<^verbatim>\<open>HeaderMap::insert\<close> replaces, \<^verbatim>\<open>append\<close> adds.\<close>

definition header_insert :: "string \<Rightarrow> string \<Rightarrow> (string \<times> string) list \<Rightarrow> (string \<times> string) list" where
  "header_insert name v headers = filter (\<lambda>(n, _). n \<noteq> name) headers @ [(name, v)]"

definition csp_none :: string where
  "csp_none = CHR 0x27 # ''none'' @ [CHR 0x27]"

definition no_store :: "auth_response \<Rightarrow> auth_response" where
  "no_store r = r\<lparr>rs_headers :=
     header_insert ''x-frame-options'' ''DENY''
       (header_insert ''referrer-policy'' ''no-referrer''
         (header_insert ''x-content-type-options'' ''nosniff''
           (header_insert ''content-security-policy''
               (''default-src '' @ csp_none @ ''; frame-ancestors '' @ csp_none)
             (header_insert ''cache-control'' ''no-store'' (rs_headers r)))))\<rparr>"

definition unauthorized :: auth_response where
  "unauthorized = no_store \<lparr>rs_status = 401, rs_body = JStr ''unauthorized'', rs_headers = []\<rparr>"

definition session_cookie :: "string \<Rightarrow> bool \<Rightarrow> string" where
  "session_cookie v secure = session_cookie_name @ ''='' @ v @ ''; HttpOnly; SameSite=Strict; Path=/; Max-Age=''
     @ show_nat session_ttl_secs @ (if secure then ''; Secure'' else [])"

definition csrf_cookie :: "string \<Rightarrow> bool \<Rightarrow> string" where
  "csrf_cookie v secure = csrf_cookie_name @ ''='' @ v @ ''; SameSite=Strict; Path=/; Max-Age=''
     @ show_nat session_ttl_secs @ (if secure then ''; Secure'' else [])"

definition expire_cookie :: "string \<Rightarrow> bool \<Rightarrow> bool \<Rightarrow> string" where
  "expire_cookie name secure http_only = name @ ''=; SameSite=Strict; Path=/; Max-Age=0''
     @ (if http_only then ''; HttpOnly'' else []) @ (if secure then ''; Secure'' else [])"

definition append_set_cookie :: "auth_crypto \<Rightarrow> string \<Rightarrow> auth_response \<Rightarrow> auth_response" where
  "append_set_cookie X cookie r =
     (if xc_header_ok X cookie then r\<lparr>rs_headers := rs_headers r @ [(''set-cookie'', cookie)]\<rparr> else r)"

text \<open>The body of a login is the token it carries, or nothing when it is not the expected JSON.\<close>

definition dashboard_login ::
  "auth_crypto \<Rightarrow> dashboard_auth \<Rightarrow> string \<Rightarrow> string \<Rightarrow> nat \<Rightarrow> string option \<Rightarrow> auth_response" where
  "dashboard_login X A nonce csrf now payload =
     (let token = (case payload of Some t \<Rightarrow> t | None \<Rightarrow> []) in
      if \<not> verify_token X A token then
        no_store \<lparr>rs_status = 401, rs_body = jobj [(''error'', JStr ''invalid token'')], rs_headers = []\<rparr>
      else
        (let (session_value, exp) = issue_session X A nonce now; secure = secure_cookies A;
             r = no_store \<lparr>rs_status = 200, rs_body = jobj [(''authenticated'', JBool True)], rs_headers = []\<rparr>
         in append_set_cookie X (csrf_cookie csrf secure)
              (append_set_cookie X (session_cookie session_value secure) r)))"

definition dashboard_logout :: "auth_crypto \<Rightarrow> dashboard_auth \<Rightarrow> auth_response" where
  "dashboard_logout X A =
     (let secure = secure_cookies A
      in append_set_cookie X (expire_cookie csrf_cookie_name secure False)
           (append_set_cookie X (expire_cookie session_cookie_name secure True)
             (no_store \<lparr>rs_status = 204, rs_body = JNull, rs_headers = []\<rparr>)))"

definition dashboard_flow_kill ::
  "auth_crypto \<Rightarrow> dashboard_auth \<Rightarrow> header_values \<Rightarrow> bool \<Rightarrow> string \<Rightarrow> flow_world
     \<Rightarrow> auth_response \<times> flow_world" where
  "dashboard_flow_kill X A headers hub_enabled api_call_id w =
     (let (outcome, w') = flow_kill_outcome X A headers hub_enabled api_call_id w
      in (no_store (case outcome of
            Killed \<Rightarrow> \<lparr>rs_status = 200,
              rs_body = jobj [(''api_call_id'', JStr api_call_id), (''killed'', JBool True)], rs_headers = []\<rparr>
          | NotFound \<Rightarrow> \<lparr>rs_status = 404,
              rs_body = jobj [(''error'', JStr ''no live flow for that id'')], rs_headers = []\<rparr>
          | Denied d \<Rightarrow> \<lparr>rs_status = denied_status d,
              rs_body = jobj [(''error'', JStr (denied_message d))], rs_headers = []\<rparr>), w'))"

subsection \<open>Startup\<close>

datatype route_refusal = MissingToken | MissingSessionKey | MissingHttpsOrigin

datatype route_decision = RegisterRoutes "string list" | RefuseRoutes route_refusal

definition should_register :: "route_decision \<Rightarrow> bool" where
  "should_register d = (case d of RegisterRoutes _ \<Rightarrow> True | RefuseRoutes _ \<Rightarrow> False)"

definition has_valid_session_key :: "auth_crypto \<Rightarrow> dashboard_env \<Rightarrow> bool" where
  "has_valid_session_key X env =
     (case de_session_key_b64 env of Some encoded \<Rightarrow> is_ok (decode_session_key X encoded) | None \<Rightarrow> False)"

definition has_origin :: "auth_crypto \<Rightarrow> dashboard_env \<Rightarrow> bool \<Rightarrow> bool" where
  "has_origin X env allow_insecure =
     (case de_public_origin env of Some raw \<Rightarrow> is_ok (parse_origin X raw allow_insecure) | None \<Rightarrow> False)"

definition dash_char :: string where
  "dash_char = [CHR 0xE2, CHR 0x80, CHR 0x94]"

definition startup_route_decision :: "auth_crypto \<Rightarrow> ip_addr \<Rightarrow> dashboard_env \<Rightarrow> route_decision" where
  "startup_route_decision X ip env =
     (if is_loopback ip then
        RegisterRoutes (if de_token env = None then
          [env_token @ '' not set on a loopback dev bind; /dashboard and /debug are served ''
           @ ''WITHOUT a login token (localhost only)''] else [])
      else if de_token env = None then
        (if de_allow_insecure env then
           RegisterRoutes [env_allow_insecure @ ''=1 with no '' @ env_token @ '' on a non-loopback bind: ''
             @ ''/dashboard and /debug are FULLY UNAUTHENTICATED on every listening ''
             @ ''interface; use only behind a trusted network or access proxy'']
         else RefuseRoutes MissingToken)
      else if \<not> has_valid_session_key X env then RefuseRoutes MissingSessionKey
      else if has_origin X env False then RegisterRoutes []
      else if de_allow_insecure env then
        (if has_origin X env True then
           RegisterRoutes [env_allow_insecure @ ''=1 on a non-loopback bind: serving /dashboard and ''
             @ ''/debug over plaintext with an explicit '' @ env_public_origin @ '' but WITHOUT ''
             @ ''https '' @ dash_char @ '' credentials and transcripts may be exposed in transit (token + ''
             @ ''session auth and the exact-origin check are STILL enforced)'']
         else RefuseRoutes MissingHttpsOrigin)
      else RefuseRoutes MissingHttpsOrigin)"

text \<open>The context the protected routes are registered with, when they are.\<close>

definition build_dashboard_auth ::
  "auth_crypto \<Rightarrow> ip_addr \<Rightarrow> string \<Rightarrow> dashboard_env \<Rightarrow> dashboard_auth option" where
  "build_dashboard_auth X ip fresh_key env =
     (case startup_route_decision X ip env of
        RefuseRoutes _ \<Rightarrow> None
      | RegisterRoutes _ \<Rightarrow>
          (case auth_from_env X ip fresh_key env of Inr (A, _) \<Rightarrow> Some A | Inl _ \<Rightarrow> None))"

end
