(* ===== verification/Dashboard_Auth_Correct.thy ===== *)
theory Dashboard_Auth_Correct
  imports Dashboard_Auth
begin

text \<open>
  Correctness of the access control: off loopback, and without the explicit insecure override, the
  protected routes exist only with a token, a long key and an https origin, and then only a signed
  unexpired session or the token gets through; a login authenticates for exactly a day; a socket is
  never opened for a foreign origin; a refused mutation reveals and changes nothing.
\<close>

subsection \<open>Splitting and numbers\<close>

lemma split_once_append: "c \<notin> set a \<Longrightarrow> split_once c (a @ c # b) = Some (a, b)"
  by (induction a) (auto simp: split_once_def)

lemma split_once_Some: "split_once c s = Some (a, b) \<Longrightarrow> s = a @ c # b \<and> c \<notin> set a"
proof -
  assume a: "split_once c s = Some (a, b)"
  then have i: "c \<in> set s" "a = takeWhile (\<lambda>x. x \<noteq> c) s" "b = tl (dropWhile (\<lambda>x. x \<noteq> c) s)"
    by (auto simp: split_once_def split: if_splits)
  from i(1) have ne: "dropWhile (\<lambda>x. x \<noteq> c) s \<noteq> []" by (simp add: dropWhile_eq_Nil_conv)
  then have "dropWhile (\<lambda>x. x \<noteq> c) s = c # b" using i(3) hd_dropWhile [OF ne]
    by (cases "dropWhile (\<lambda>x. x \<noteq> c) s") auto
  then have "s = a @ c # b" using i(2) by (metis takeWhile_dropWhile_id)
  moreover have "c \<notin> set a" using i(2) by (auto dest: set_takeWhileD)
  ultimately show ?thesis by simp
qed

lemma split_on_none: "c \<notin> set a \<Longrightarrow> split_on c a = [a]"
  by (induction a) auto

lemma split_on_append: "c \<notin> set a \<Longrightarrow> split_on c (a @ c # b) = a # split_on c b"
proof (induction a)
  case Nil
  have "split_on c b \<noteq> []" by (induction b) (auto split: list.split)
  then show ?case by (cases "split_on c b") simp_all
qed (auto split: list.split)

lemma digit_char: "d < 10 \<Longrightarrow> (of_char (char_of (48 + d) :: char) :: nat) = 48 + d"
  by (simp add: of_char_of)

lemma show_nat_digits: "list_all is_decimal_digit (show_nat n)"
proof (induction n rule: show_nat.induct)
  case (1 n)
  then show ?case
    by (subst show_nat.simps) (auto simp: is_decimal_digit_def [of "char_of _"] Let_def of_char_of)
qed

lemma show_nat_value: "foldl (\<lambda>v c. 10 * v + (of_char c - 48)) 0 (show_nat n) = n"
proof (induction n rule: show_nat.induct)
  case (1 n)
  then show ?case by (subst show_nat.simps) (auto simp: of_char_of)
qed

lemma parse_show_nat:
  assumes "n \<le> usize_max"
  shows "parse_u64 (show_nat n) = Some n"
proof -
  obtain c s where s: "show_nat n = c # s" using show_nat_nonempty by (cases "show_nat n") auto
  with show_nat_digits [of n] have "c \<noteq> CHR ''+''" by (auto simp: is_decimal_digit_def)
  with s show_nat_digits [of n] show_nat_value [of n] assms show ?thesis
    by (simp add: parse_u64_def Let_def del: foldl_Cons)
qed

lemma show_nat_no: "\<not> is_decimal_digit c \<Longrightarrow> c \<notin> set (show_nat n)"
  using show_nat_digits [of n] by (auto simp: list_all_iff)

subsection \<open>What the startup establishes\<close>

lemma parse_origin_https: "parse_origin X raw False = Inr origin \<Longrightarrow> is_https origin"
  by (auto simp: parse_origin_def is_https_def Let_def strip_prefix_Some split: option.splits if_splits)

lemma decode_session_key_length: "decode_session_key X e = Inr key \<Longrightarrow> min_session_key_bytes \<le> length key"
  by (auto simp: decode_session_key_def split: option.splits if_splits)

lemma auth_from_env_Inr:
  assumes "auth_from_env X ip fresh_key env = Inr (A, ws)"
  obtains key origin where
    "choose_session_key X (is_loopback ip) (nonblank_token (de_token env)) fresh_key env = Inr (key, ws)"
    "choose_origin X env = Inr origin"
    "A = \<lparr>da_has_token = (nonblank_token (de_token env) \<noteq> None),
          da_token_digest = map_option (xc_sha256 X) (nonblank_token (de_token env)),
          da_session_key = key, da_public_origin = origin, da_loopback = is_loopback ip,
          da_allow_insecure = de_allow_insecure env, da_allow_mutations = de_allow_mutations env\<rparr>"
proof (cases "choose_session_key X (is_loopback ip) (nonblank_token (de_token env)) fresh_key env")
  case (Inr kw)
  then show ?thesis
    using assms that
    by (cases "choose_origin X env"; cases kw) (auto simp: auth_from_env_def Let_def split: if_splits)
qed (use assms in \<open>auto simp: auth_from_env_def Let_def split: if_splits\<close>)

lemma choose_origin_https:
  "choose_origin X env = Inr (Some origin) \<Longrightarrow> \<not> de_allow_insecure env \<Longrightarrow> is_https origin"
  by (auto simp: choose_origin_def bind_res_Inr dest: parse_origin_https split: option.splits)

lemma has_origin_chosen:
  assumes "has_origin X env False" and "choose_origin X env = Inr origin"
  shows "origin \<noteq> None"
  using assms by (auto simp: has_origin_def choose_origin_def bind_res_Inr split: option.splits)

lemma chosen_key_length:
  assumes "choose_session_key X False token fresh_key env = Inr (key, ws)" and "token \<noteq> None"
  shows "min_session_key_bytes \<le> length key"
  using assms decode_session_key_length
  by (auto simp: choose_session_key_def bind_res_Inr split: option.splits if_splits)

text \<open>Trimming twice is trimming once.\<close>

lemma ws_len_prefix: "ws_len (xs @ ys) = 0 \<Longrightarrow> ws_len xs = 0"
proof (cases xs rule: ws_len.cases)
  case (2 a b)
  then show "ws_len (xs @ ys) = 0 \<Longrightarrow> ws_len xs = 0" by (cases ys) (auto split: if_splits)
next
  case (3 a)
  then show "ws_len (xs @ ys) = 0 \<Longrightarrow> ws_len xs = 0"
    by (cases ys rule: ws_len.cases) (auto split: if_splits)
qed simp_all

lemma ws_len_Nil: "ws_len [] = 0" "ws_len_rev [] = 0"
  by simp_all

lemma trim_trim: "trim (trim s) = trim s"
proof -
  let ?m = "map of_char s :: nat list"
  define u where "u = strip_ws ws_len ?m"
  define v where "v = strip_ws ws_len_rev (rev u)"
  obtain ys where ys: "?m = ys @ u" using strip_ws_suffix [of ?m ws_len] by (auto simp: u_def)
  obtain zs where "rev u = zs @ v" using strip_ws_suffix [of "rev u" ws_len_rev] by (auto simp: v_def)
  then have u: "u = rev v @ rev zs" by (metis rev_append rev_rev_ident)
  have "ws_len u = 0" using strip_ws_fix [of ws_len ?m] by (auto simp: u_def)
  then have front: "ws_len (rev v) = 0" unfolding u by (rule ws_len_prefix)
  have rear: "ws_len_rev v = 0" using strip_ws_fix [of ws_len_rev "rev u"] by (auto simp: v_def)
  have "set (rev v) \<subseteq> set ?m" by (auto simp: ys u)
  then have "\<forall>n \<in> set (rev v). n < 256" by auto
  then have id: "map (of_char \<circ> (char_of :: nat \<Rightarrow> char)) (rev v) = rev v"
    by (intro map_idI) (simp add: of_char_of)
  have t: "trim s = map char_of (rev v)" by (simp add: trim_def u_def v_def)
  have c: "map of_char (trim s) = rev v" using id by (simp only: t map_map)
  show ?thesis by (rule trim_no_ws) (use front rear in \<open>simp_all only: c rev_rev_ident\<close>)
qed

lemma nonblank_read_env: "nonblank_token (read_env getenv name) = read_env getenv name"
  by (auto simp: nonblank_token_def read_env_def trim_trim split: option.split)

subsection \<open>Off loopback\<close>

text \<open>A signed, unexpired session cookie.\<close>

definition signed_session :: "auth_crypto \<Rightarrow> dashboard_auth \<Rightarrow> nat \<Rightarrow> header_values \<Rightarrow> nat \<Rightarrow> bool" where
  "signed_session X A now headers exp \<longleftrightarrow> now < exp \<and>
     (case cookie_value headers session_cookie_name of None \<Rightarrow> False | Some cookie \<Rightarrow>
       (case split_once CHR ''.'' cookie of None \<Rightarrow> False | Some (mac_b64, payload) \<Rightarrow>
          parse_u64 (hd (split_on CHR '':'' payload)) = Some exp \<and>
          (case xc_b64_url_decode X mac_b64 of None \<Rightarrow> False | Some presented \<Rightarrow>
            xc_sha256 X presented = xc_sha256 X (xc_hmac X (da_session_key A) payload))))"

lemma session_of_signed: "session_of X A now headers = Some exp \<Longrightarrow> signed_session X A now headers exp"
  by (auto simp: session_of_def signed_session_def verify_session_def ct_eq_padded_def auth_mac_def
      bind_eq_Some_conv split: if_splits)

text \<open>
  C17: on a public address, without the explicit insecure override, the dashboard and debug routes
  exist only when the operator configured a token, a signing key of at least 32 bytes and an
  https origin, so its cookies are Secure; and then a request gets through only with a session signed
  under that key that has not expired, or with the token itself, and a socket only with such a session
  and an \<^verbatim>\<open>Origin\<close> header that names that origin or is absent: a request without one, which no
  browser sends, is accepted.
\<close>

theorem protected_routes_need_credentials:
  assumes "build_dashboard_auth X ip fresh_key (from_process_env getenv) = Some A"
    and "\<not> is_loopback ip" and "\<not> env_flag getenv env_allow_insecure"
  shows "\<exists>token origin. read_env getenv env_token = Some token \<and> da_public_origin A = Some origin
    \<and> is_https origin \<and> secure_cookies A \<and> min_session_key_bytes \<le> length (da_session_key A)
    \<and> authenticate X A now headers \<in> insert None (Some ` {exp. signed_session X A now headers exp
        \<or> exp = u64_max \<and> map_option (xc_sha256 X) (auth_bearer_token headers) = Some (xc_sha256 X token)})
    \<and> authenticate_ws X A now headers \<in> insert None (Some ` {exp. signed_session X A now headers exp
        \<and> headers ''origin'' \<in> {None, Some origin}})"
proof -
  let ?env = "from_process_env getenv"
  note env = from_process_env_def [of getenv]
  from assms(1) obtain ws where build: "auth_from_env X ip fresh_key ?env = Inr (A, ws)"
    and dec: "should_register (startup_route_decision X ip ?env)"
    by (auto simp: build_dashboard_auth_def should_register_def split: route_decision.splits sum.splits)
  from dec assms(2,3) obtain token where token: "read_env getenv env_token = Some token"
    and o: "has_origin X ?env False"
    by (auto simp: startup_route_decision_def should_register_def env split: if_splits)
  have tk: "nonblank_token (de_token ?env) = Some token" using token nonblank_read_env [of getenv env_token] by (simp add: env)
  from build obtain key origin where
    key: "choose_session_key X False (Some token) fresh_key ?env = Inr (key, ws)"
    and origin: "choose_origin X ?env = Inr origin"
    and A: "A = \<lparr>da_has_token = True, da_token_digest = Some (xc_sha256 X token), da_session_key = key,
       da_public_origin = origin, da_loopback = False, da_allow_insecure = False,
       da_allow_mutations = de_allow_mutations ?env\<rparr>"
    using assms(2,3) tk by (elim auth_from_env_Inr) (simp add: env)
  from has_origin_chosen [OF o origin] obtain orig where orig: "origin = Some orig" by auto
  have https: "is_https orig"
    using choose_origin_https [of X ?env orig] origin assms(3) by (simp add: orig env)
  have "authenticate X A now headers \<in> insert None (Some ` {exp. signed_session X A now headers exp
        \<or> exp = u64_max \<and> map_option (xc_sha256 X) (auth_bearer_token headers) = Some (xc_sha256 X token)})"
    by (auto simp: authenticate_def dev_open_def A verify_token_def session_of_signed
        intro!: image_eqI split: option.split if_splits)
  moreover have "authenticate_ws X A now headers \<in> insert None (Some ` {exp. signed_session X A now headers exp
        \<and> headers ''origin'' \<in> {None, Some orig}})"
  proof (cases "authenticate_ws X A now headers")
    case (Some exp)
    then have "origin_allowed A headers" "session_of X A now headers = Some exp"
      by (auto simp: authenticate_ws_def dev_open_def A split: if_splits)
    then show ?thesis
      using Some session_of_signed by (auto simp: origin_allowed_def A orig split: option.splits)
  qed simp
  moreover have "min_session_key_bytes \<le> length (da_session_key A)"
    using chosen_key_length [OF key] by (simp add: A)
  moreover have "da_public_origin A = Some orig" "secure_cookies A"
    using https by (simp_all add: A orig secure_cookies_def)
  ultimately show ?thesis using token https by blast
qed

subsection \<open>A login\<close>

text \<open>Text of visible characters without blanks.\<close>

definition graphic :: "string \<Rightarrow> bool" where
  "graphic s \<longleftrightarrow> list_all (\<lambda>c. 33 \<le> (of_char c :: nat) \<and> (of_char c :: nat) < 127) s"

lemma graphic_append [simp]: "graphic (a @ b) \<longleftrightarrow> graphic a \<and> graphic b"
  by (simp add: graphic_def)

lemma graphic_Cons [simp]: "graphic (c # s) \<longleftrightarrow> 33 \<le> (of_char c :: nat) \<and> (of_char c :: nat) < 127 \<and> graphic s"
  by (simp add: graphic_def)

lemma graphic_Nil [simp]: "graphic []"
  by (simp add: graphic_def)

lemma visible_no_ws: "\<forall>n \<in> set ns. 33 \<le> n \<and> n < 127 \<Longrightarrow> ws_len ns = 0 \<and> ws_len_rev ns = 0"
  by (cases ns rule: ws_len.cases; cases ns rule: ws_len_rev.cases) auto

lemma trim_graphic: "graphic s \<Longrightarrow> trim s = s"
  using visible_no_ws [of "map of_char s"] visible_no_ws [of "rev (map of_char s)"]
  by (intro trim_no_ws) (auto simp: graphic_def list_all_iff)

lemma trim_blank_graphic:
  assumes "graphic s" and "s \<noteq> []"
  shows "trim (CHR '' '' # s) = s"
proof -
  let ?m = "map of_char s :: nat list"
  have "ws_len (32 # ?m) = 1" by (cases ?m rule: ws_len.cases) auto
  then have "strip_ws ws_len (32 # ?m) = strip_ws ws_len ?m" by (subst strip_ws.simps) simp
  then have "trim (CHR '' '' # s) = trim s" by (simp add: trim_def)
  then show ?thesis using trim_graphic [OF assms(1)] by simp
qed

lemma graphic_alnum: "list_all is_ascii_alphanumeric s \<Longrightarrow> graphic s"
  by (induction s) (auto simp: is_ascii_alphanumeric_def Let_def)

lemma graphic_digits: "list_all is_decimal_digit s \<Longrightarrow> graphic s"
  by (induction s) (auto simp: is_decimal_digit_def Let_def)

text \<open>What the login relies on of base64url and of header values.\<close>

definition url_alphabet :: "char \<Rightarrow> bool" where
  "url_alphabet c \<longleftrightarrow> is_ascii_alphanumeric c \<or> c = CHR ''-'' \<or> c = CHR ''_''"

definition codec_ok :: "auth_crypto \<Rightarrow> bool" where
  "codec_ok X \<longleftrightarrow>
     (\<forall>x. xc_b64_url_decode X (xc_b64_url X x) = Some x \<and> list_all url_alphabet (xc_b64_url X x))
     \<and> (\<forall>s. list_all (\<lambda>c. 32 \<le> (of_char c :: nat) \<and> (of_char c :: nat) < 127) s \<longrightarrow> xc_header_ok X s)"

lemma graphic_url: "list_all url_alphabet s \<Longrightarrow> graphic s"
  by (induction s) (auto simp: url_alphabet_def is_ascii_alphanumeric_def Let_def)

lemma graphic_no_blank: "graphic s \<Longrightarrow> list_all (\<lambda>c. 32 \<le> (of_char c :: nat) \<and> (of_char c :: nat) < 127) s"
  by (induction s) auto

text \<open>What a browser sends back: the pairs of the cookies it was given, without their attributes.\<close>

definition browser_cookies :: "auth_response \<Rightarrow> string" where
  "browser_cookies r = join ''; '' (map (\<lambda>(_, v). takeWhile (\<lambda>c. c \<noteq> CHR '';'') v)
     (filter (\<lambda>(n, _). n = ''set-cookie'') (rs_headers r)))"

lemma takeWhile_attributes: "CHR '';'' \<notin> set a \<Longrightarrow> takeWhile (\<lambda>c. c \<noteq> CHR '';'') (a @ CHR '';'' # b) = a"
  by (induction a) auto

lemma alnum_no: "list_all is_ascii_alphanumeric s \<Longrightarrow> \<not> is_ascii_alphanumeric c \<Longrightarrow> c \<notin> set s"
  by (auto simp: list_all_iff)

lemma url_no: "list_all url_alphabet s \<Longrightarrow> \<not> url_alphabet c \<Longrightarrow> c \<notin> set s"
  by (auto simp: list_all_iff)

text \<open>A session cookie that was signed verifies until it expires.\<close>

lemma verify_sign_session:
  assumes "codec_ok X" and "list_all is_ascii_alphanumeric nonce" and "exp \<le> usize_max"
  shows "verify_session X A now (sign_session X A nonce exp) = (if now < exp then Some exp else None)"
proof -
  let ?payload = "show_nat exp @ CHR '':'' # nonce"
  let ?m = "auth_mac X A ?payload"
  have m: "xc_b64_url_decode X (xc_b64_url X ?m) = Some ?m" "list_all url_alphabet (xc_b64_url X ?m)"
    using assms(1) by (auto simp: codec_ok_def)
  have "CHR ''.'' \<notin> set (xc_b64_url X ?m)"
    by (rule url_no [OF m(2)]) (simp add: url_alphabet_def is_ascii_alphanumeric_def)
  then have "split_once CHR ''.'' (sign_session X A nonce exp) = Some (xc_b64_url X ?m, ?payload)"
    by (simp add: sign_session_def Let_def split_once_append)
  moreover have "split_on CHR '':'' ?payload = show_nat exp # split_on CHR '':'' nonce"
    by (rule split_on_append) (simp add: show_nat_no is_decimal_digit_def)
  ultimately show ?thesis
    by (simp add: verify_session_def m(1) ct_eq_padded_def parse_show_nat [OF assms(3)])
qed

lemma sign_session_text:
  assumes "codec_ok X" and "list_all is_ascii_alphanumeric nonce"
  shows "graphic (sign_session X A nonce exp)" "CHR '';'' \<notin> set (sign_session X A nonce exp)"
proof -
  let ?m = "xc_b64_url X (auth_mac X A (show_nat exp @ CHR '':'' # nonce))"
  have m: "list_all url_alphabet ?m" using assms(1) by (auto simp: codec_ok_def)
  show "graphic (sign_session X A nonce exp)"
    using graphic_url [OF m] graphic_digits [OF show_nat_digits, of exp] graphic_alnum [OF assms(2)]
    by (simp add: sign_session_def Let_def)
  show "CHR '';'' \<notin> set (sign_session X A nonce exp)"
    using url_no [OF m, of "CHR '';''"] alnum_no [OF assms(2), of "CHR '';''"]
      show_nat_no [of "CHR '';''" exp]
    by (simp add: sign_session_def Let_def url_alphabet_def is_ascii_alphanumeric_def is_decimal_digit_def)
qed

text \<open>The two pairs of a login, found again in the header the browser sends.\<close>

lemma cookies_found:
  assumes "graphic v" "CHR '';'' \<notin> set v" "graphic c" "CHR '';'' \<notin> set c"
    and "headers ''cookie'' = Some (session_cookie_name @ ''='' @ v @ ''; '' @ csrf_cookie_name @ ''='' @ c)"
  shows "cookie_value headers session_cookie_name = Some v" "cookie_value headers csrf_cookie_name = Some c"
proof -
  let ?p = "session_cookie_name @ ''='' @ v" and ?q = "csrf_cookie_name @ ''='' @ c"
  have no: "CHR '';'' \<notin> set ?p" "CHR '';'' \<notin> set (CHR '' '' # ?q)"
    using assms(2,4) by (simp_all add: session_cookie_name_def csrf_cookie_name_def)
  have "session_cookie_name @ ''='' @ v @ ''; '' @ csrf_cookie_name @ ''='' @ c
      = ?p @ CHR '';'' # (CHR '' '' # ?q)" by simp
  then have parts: "split_on CHR '';'' (session_cookie_name @ ''='' @ v @ ''; '' @ csrf_cookie_name @ ''='' @ c)
      = [?p, CHR '' '' # ?q]"
    by (simp only: split_on_append [OF no(1)] split_on_none [OF no(2)])
  have t: "trim ?p = ?p" "trim (CHR '' '' # ?q) = ?q"
    using assms(1,3) by (auto simp: session_cookie_name_def csrf_cookie_name_def
        intro!: trim_graphic trim_blank_graphic)
  have find: "cookie_value headers n = find_cookie n [?p, CHR '' '' # ?q]" for n
    by (simp only: cookie_value_def assms(5) bind.bind_lunit parts)
  have pre: "strip_prefix session_cookie_name ?p = Some (''='' @ v)" "strip_prefix csrf_cookie_name ?q = Some (''='' @ c)"
    by (simp_all only: strip_prefix_Some)
  have other: "strip_prefix csrf_cookie_name ?p = None"
    by (simp add: session_cookie_name_def csrf_cookie_name_def)
  show "cookie_value headers session_cookie_name = Some v"
    by (simp only: find find_cookie.simps t pre bind.bind_lunit) simp
  show "cookie_value headers csrf_cookie_name = Some c"
    by (simp only: find find_cookie.simps t pre other bind.bind_lunit) simp
qed

text \<open>What a login with the right token answers.\<close>

lemma login_cookies:
  assumes "codec_ok X" and "list_all is_ascii_alphanumeric nonce" "list_all is_ascii_alphanumeric csrf"
    and "verify_token X A token"
  shows "browser_cookies (dashboard_login X A nonce csrf now (Some token)) = session_cookie_name @ ''='' @
    sign_session X A nonce (sat_add now session_ttl_secs) @ ''; '' @ csrf_cookie_name @ ''='' @ csrf"
proof -
  let ?v = "sign_session X A nonce (sat_add now session_ttl_secs)"
  note v = sign_session_text [OF assms(1,2)]
  have dg: "graphic (show_nat session_ttl_secs)" by (rule graphic_digits [OF show_nat_digits])
  have "list_all (\<lambda>c. 32 \<le> (of_char c :: nat) \<and> (of_char c :: nat) < 127) (session_cookie ?v sec)"
    "list_all (\<lambda>c. 32 \<le> (of_char c :: nat) \<and> (of_char c :: nat) < 127) (csrf_cookie csrf sec)" for sec
    using graphic_no_blank [OF v(1)] graphic_no_blank [OF dg] graphic_no_blank [OF graphic_alnum [OF assms(3)]]
    by (simp_all add: session_cookie_def csrf_cookie_def session_cookie_name_def csrf_cookie_name_def)
  then have ok: "xc_header_ok X (session_cookie ?v sec)" "xc_header_ok X (csrf_cookie csrf sec)" for sec
    using assms(1) by (simp_all add: codec_ok_def)
  have no: "CHR '';'' \<notin> set csrf"
    by (rule alnum_no [OF assms(3)]) (simp add: is_ascii_alphanumeric_def)
  have tw: "takeWhile (\<lambda>c. c \<noteq> CHR '';'') (session_cookie ?v sec) = session_cookie_name @ ''='' @ ?v"
    "takeWhile (\<lambda>c. c \<noteq> CHR '';'') (csrf_cookie csrf sec) = csrf_cookie_name @ ''='' @ csrf" for sec
    using takeWhile_attributes [of "session_cookie_name @ ''='' @ ?v"]
      takeWhile_attributes [of "csrf_cookie_name @ ''='' @ csrf"] v(2) no
    by (simp_all add: session_cookie_def csrf_cookie_def session_cookie_name_def csrf_cookie_name_def)
  show ?thesis
    by (simp add: dashboard_login_def assms(4) issue_session_def Let_def append_set_cookie_def ok
        no_store_def header_insert_def browser_cookies_def tw)
qed

text \<open>
  C30: a login with the right token lasts for exactly a day. The cookies of its response, sent back
  the way a browser does, authenticate every request made before the day is over and none after it;
  and with the CSRF cookie repeated in its header they authorize a mutation exactly when the operator
  allows mutations.
\<close>

theorem login_lasts_one_day:
  assumes "codec_ok X" and "list_all is_ascii_alphanumeric nonce" and "list_all is_ascii_alphanumeric csrf"
    and "csrf \<noteq> []" and "verify_token X A token" and "\<not> dev_open A" and "t + session_ttl_secs \<le> usize_max"
    and "headers ''authorization'' = None" and "headers csrf_header = Some csrf"
    and "headers ''cookie'' = Some (browser_cookies (dashboard_login X A nonce csrf t (Some token)))"
  shows "authenticate X A now headers
      = (if now < t + session_ttl_secs then Some (t + session_ttl_secs) else None)
    \<and> is_ok (authorize_mutation X A headers) = da_allow_mutations A"
proof -
  let ?v = "sign_session X A nonce (sat_add t session_ttl_secs)"
  have no: "CHR '';'' \<notin> set csrf" by (rule alnum_no [OF assms(3)]) (simp add: is_ascii_alphanumeric_def)
  note c = cookies_found [where headers = headers and v = ?v and c = csrf, OF sign_session_text [OF assms(1,2)] graphic_alnum [OF assms(3)] no
      assms(10) [unfolded login_cookies [OF assms(1,2,3,5)]]]
  have exp: "sat_add t session_ttl_secs = t + session_ttl_secs" using assms(7) by (simp add: sat_add_def)
  have v: "verify_session X A now ?v = (if now < t + session_ttl_secs then Some (t + session_ttl_secs) else None)"
    unfolding exp by (rule verify_sign_session [OF assms(1,2,7)])
  then have "authenticate X A now headers
      = (if now < t + session_ttl_secs then Some (t + session_ttl_secs) else None)"
    using assms(6) by (simp add: authenticate_def session_of_def c(1) auth_bearer_token_def assms(8))
  moreover have "is_ok (authorize_mutation X A headers) = da_allow_mutations A"
    by (simp add: authorize_mutation_def verify_csrf_def assms(9) c(2) assms(4) ct_eq_padded_def)
  ultimately show ?thesis ..
qed

subsection \<open>Origins of sockets\<close>

lemma is_loopback_host_literal:
  assumes "is_loopback_host host"
  shows "\<exists>name port. host = name @ port \<and> (port = [] \<or> hd port = CHR '':'')
    \<and> name \<in> {''localhost'', ''127.0.0.1'', ''::1'', ''[localhost]'', ''[127.0.0.1]'', ''[::1]''}"
proof (cases "strip_prefix ''['' host")
  case None
  show ?thesis
  proof (cases "rsplit_once CHR '':'' host")
    case None
    with \<open>strip_prefix ''['' host = None\<close> assms
    have "host \<in> {''localhost'', ''127.0.0.1'', ''::1''}" by (auto simp: is_loopback_host_def split: if_splits)
    then show ?thesis by (intro exI [of _ host] exI [of _ "[]"]) auto
  next
    case (Some np)
    obtain name port where np: "np = (name, port)" by (cases np)
    with Some obtain a b where "split_once CHR '':'' (rev host) = Some (a, b)" "name = rev b" "port = rev a"
      by (auto simp: rsplit_once_def)
    then have h: "host = name @ CHR '':'' # port"
      using split_once_Some [of "CHR '':''" "rev host" a b]
      by (metis append.assoc append_Cons append_Nil rev.simps(2) rev_append rev_rev_ident)
    show ?thesis
    proof (cases "host = ''::1'' \<or> port = []")
      case True
      with Some np \<open>strip_prefix ''['' host = None\<close> assms
      have "host \<in> {''localhost'', ''127.0.0.1'', ''::1''}" by (auto simp: is_loopback_host_def split: if_splits)
      then show ?thesis by (intro exI [of _ host] exI [of _ "[]"]) auto
    next
      case False
      with Some np \<open>strip_prefix ''['' host = None\<close> assms
      have "name \<in> {''localhost'', ''127.0.0.1'', ''::1''}" by (auto simp: is_loopback_host_def split: if_splits)
      then show ?thesis using h by (intro exI [of _ name] exI [of _ "CHR '':'' # port"]) auto
    qed
  qed
next
  case (Some rest)
  then have h: "host = CHR ''['' # rest" by (simp add: strip_prefix_Some)
  show ?thesis
  proof (cases "split_once CHR '']'' rest")
    case None
    with Some assms show ?thesis by (auto simp: is_loopback_host_def h split: if_splits)
  next
    case (Some as)
    obtain addr port where as: "as = (addr, port)" by (cases as)
    then have r: "rest = addr @ CHR '']'' # port" using split_once_Some Some by simp
    have "addr \<in> {''localhost'', ''127.0.0.1'', ''::1''}" "port = [] \<or> hd port = CHR '':''"
      using Some as assms by (auto simp: is_loopback_host_def h split: if_splits)
    then show ?thesis
      by (intro exI [of _ "CHR ''['' # addr @ [CHR '']'']"] exI [of _ port]) (auto simp: h r)
  qed
qed

text \<open>
  C31: no page of a foreign site opens a dashboard socket. A socket request with an origin is accepted
  only when that origin is the configured one; or, when none is configured, when it is the host of the
  request itself, and then that host is a literal loopback name (so a rebound DNS name is refused)
  unless the operator opted into the unauthenticated dashboard on a public address.
\<close>

theorem foreign_origin_rejected:
  assumes "auth_from_env X ip fresh_key env = Inr (A, warnings)"
    and "authenticate_ws X A now headers = Some exp" and "headers ''origin'' = Some origin"
  shows "case da_public_origin A of
      Some public \<Rightarrow> origin = public
    | None \<Rightarrow> \<exists>scheme host. scheme \<in> {''http://'', ''https://''} \<and> headers ''host'' = Some host
        \<and> origin = scheme @ host
        \<and> (\<not> is_loopback ip \<and> de_allow_insecure env \<and> nonblank_token (de_token env) = None
           \<or> (\<exists>name port. host = name @ port \<and> (port = [] \<or> hd port = CHR '':'')
               \<and> name \<in> {''localhost'', ''127.0.0.1'', ''::1'', ''[localhost]'', ''[127.0.0.1]'', ''[::1]''}))"
proof (cases "da_public_origin A")
  case None
  from assms(1) have A: "da_loopback A = is_loopback ip" "da_allow_insecure A = de_allow_insecure env"
    "dev_open A \<longleftrightarrow> nonblank_token (de_token env) = None"
    by (auto elim!: auth_from_env_Inr simp: dev_open_def)
  let ?public = "\<not> is_loopback ip \<and> de_allow_insecure env \<and> nonblank_token (de_token env) = None"
  from assms(2,3) None have "same_origin_as_host headers origin ?public"
    by (auto simp: authenticate_ws_def origin_allowed_def A split: if_splits)
  then obtain host where host: "headers ''host'' = Some host" "?public \<or> is_loopback_host host"
    "origin = ''http://'' @ host \<or> origin = ''https://'' @ host"
    by (auto simp: same_origin_as_host_def split: option.splits if_splits)
  then have "?public \<or> (\<exists>name port. host = name @ port \<and> (port = [] \<or> hd port = CHR '':'')
      \<and> name \<in> {''localhost'', ''127.0.0.1'', ''::1'', ''[localhost]'', ''[127.0.0.1]'', ''[::1]''})"
    using is_loopback_host_literal by blast
  moreover have "\<exists>scheme. scheme \<in> {''http://'', ''https://''} \<and> origin = scheme @ host" using host(3) by blast
  ultimately show ?thesis using None host(1) by auto
next
  case (Some public)
  with assms(2,3) show ?thesis by (auto simp: authenticate_ws_def origin_allowed_def split: if_splits)
qed

subsection \<open>Mutations\<close>

text \<open>
  A kill request goes through only when mutations are allowed and the request repeats its CSRF
  cookie; a refused one changes nothing and is answered alike whatever flows exist, so it is no oracle
  for the ids of live flows; and one that goes through cancels exactly the token of that id.
\<close>

theorem kill_is_authorized:
  "flow_kill_outcome X A headers hub k w =
     (case authorize_mutation X A headers of
        Inl d \<Rightarrow> (Denied d, w)
      | Inr _ \<Rightarrow>
          (case (if hub then map_of (fw_hub w) k else None) of
             None \<Rightarrow> (NotFound, w)
           | Some token \<Rightarrow> (Killed, w\<lparr>fw_tokens := (fw_tokens w)[token := True]\<rparr>)))
   \<and> is_ok (authorize_mutation X A headers) = (da_allow_mutations A \<and>
        (case (headers csrf_header, cookie_value headers csrf_cookie_name) of
           (Some h, Some c) \<Rightarrow> h \<noteq> [] \<and> length h = length c \<and> xc_sha256 X h = xc_sha256 X c
         | _ \<Rightarrow> False))"
  by (auto simp: flow_kill_outcome_def hub_abort_def authorize_mutation_def verify_csrf_def ct_eq_padded_def Let_def
      split: option.split sum.split)

subsection \<open>A sample dashboard\<close>

fun sample_b64 :: "string \<Rightarrow> string" where
  "sample_b64 [] = []"
| "sample_b64 (c # s) = char_of (65 + of_char c div 16 :: nat) # char_of (65 + of_char c mod 16 :: nat) # sample_b64 s"

fun sample_b64_decode :: "string \<Rightarrow> string option" where
  "sample_b64_decode [] = Some []"
| "sample_b64_decode [c] = None"
| "sample_b64_decode (a # b # s) =
     map_option ((#) (char_of (16 * (of_char a - 65) + (of_char b - 65) :: nat))) (sample_b64_decode s)"

lemma sample_b64_inverse: "sample_b64_decode (sample_b64 s) = Some s"
proof (induction s)
  case (Cons c s)
  have "(of_char c :: nat) div 16 < 16" by (rule less_mult_imp_div_less) simp
  with Cons show ?case by (simp add: of_char_of)
qed simp

lemma sample_b64_alphabet: "list_all url_alphabet (sample_b64 s)"
proof (induction s)
  case (Cons c s)
  have "(of_char c :: nat) div 16 < 16" by (rule less_mult_imp_div_less) simp
  then have "url_alphabet (char_of (65 + of_char c div 16 :: nat))" "url_alphabet (char_of (65 + of_char c mod 16 :: nat))"
    by (auto simp: url_alphabet_def is_ascii_alphanumeric_def Let_def of_char_of)
  with Cons show ?case by simp
qed simp

definition sample_crypto :: auth_crypto where
  "sample_crypto = \<lparr>xc_sha256 = rev, xc_hmac = (\<lambda>key message. key @ message), xc_b64_url = sample_b64,
     xc_b64_url_decode = sample_b64_decode, xc_b64_std_decode = (\<lambda>s. Some s),
     xc_b64_std_nopad_decode = (\<lambda>s. Some s), xc_b64_error = (\<lambda>_. []),
     xc_parse_url = (\<lambda>s. Some \<lparr>up_scheme = ''https'', up_host = Some s, up_port = None, up_path = ''/'',
       up_query = None, up_fragment = None, up_username = [], up_password = None\<rparr>),
     xc_header_ok = (\<lambda>s. list_all (\<lambda>c. 32 \<le> (of_char c :: nat) \<and> (of_char c :: nat) < 127) s)\<rparr>"

lemma sample_crypto_ok: "codec_ok sample_crypto"
  by (simp add: codec_ok_def sample_crypto_def sample_b64_inverse sample_b64_alphabet)

definition sample_getenv :: "string \<Rightarrow> string option" where
  "sample_getenv name = (if name = env_token then Some ''secret''
     else if name = env_session_key then Some ''0123456789abcdef0123456789abcdef''
     else if name = env_public_origin then Some ''gw.example''
     else if name = env_allow_mutations then Some ''1'' else None)"

definition sample_dashboard :: dashboard_auth where
  "sample_dashboard = \<lparr>da_has_token = True, da_token_digest = Some (rev ''secret''),
     da_session_key = ''0123456789abcdef0123456789abcdef'', da_public_origin = Some ''https://gw.example'',
     da_loopback = False, da_allow_insecure = False, da_allow_mutations = True\<rparr>"

lemma sample_trims: "trim ''secret'' = ''secret''" "trim ''0123456789abcdef0123456789abcdef'' = ''0123456789abcdef0123456789abcdef''"
  "trim ''gw.example'' = ''gw.example''" "trim ''1'' = ''1''"
  by (simp_all add: trim_graphic)

lemma sample_env: "from_process_env sample_getenv = \<lparr>de_token = Some ''secret'',
    de_session_key_b64 = Some ''0123456789abcdef0123456789abcdef'', de_public_origin = Some ''gw.example'',
    de_allow_insecure = False, de_allow_mutations = True\<rparr>"
  by (simp add: from_process_env_def read_env_def env_flag_def sample_getenv_def sample_trims env_token_def
      env_session_key_def env_public_origin_def env_allow_mutations_def env_allow_insecure_def ascii_lower_def
      byte_lower_def)

lemma sample_dashboard:
  "build_dashboard_auth sample_crypto (IpV4 0 0 0 0) [] (from_process_env sample_getenv) = Some sample_dashboard"
  "\<not> dev_open sample_dashboard" "verify_token sample_crypto sample_dashboard ''secret''"
  by (simp_all add: sample_env build_dashboard_auth_def startup_route_decision_def is_loopback_def
      has_valid_session_key_def decode_session_key_def or_keep_opt_def sample_crypto_def min_session_key_bytes_def
      has_origin_def parse_origin_def sample_trims auth_from_env_def nonblank_token_def choose_session_key_def
      choose_origin_def sample_dashboard_def dev_open_def verify_token_def Let_def)

definition sample_login_headers :: header_values where
  "sample_login_headers = (\<lambda>_. None)(''cookie'' \<mapsto> browser_cookies (dashboard_login sample_crypto sample_dashboard
      ''n0'' ''c0'' 1000 (Some ''secret'')), csrf_header \<mapsto> ''c0'')"

theorem login_lasts_one_day_witness:
  "authenticate sample_crypto sample_dashboard 5000 sample_login_headers = Some 87400
    \<and> is_ok (authorize_mutation sample_crypto sample_dashboard sample_login_headers)"
proof -
  have h: "sample_login_headers ''authorization'' = None" "sample_login_headers csrf_header = Some ''c0''"
    "sample_login_headers ''cookie'' = Some (browser_cookies (dashboard_login sample_crypto sample_dashboard
      ''n0'' ''c0'' 1000 (Some ''secret'')))"
    by (simp_all add: sample_login_headers_def csrf_header_def)
  have ids: "list_all is_ascii_alphanumeric ''n0''" "list_all is_ascii_alphanumeric ''c0''"
    by (simp_all add: is_ascii_alphanumeric_def)
  have t: "(1000::nat) + session_ttl_secs \<le> usize_max" by (simp add: session_ttl_secs_def usize_max_def)
  show ?thesis
    using login_lasts_one_day [OF sample_crypto_ok ids _ sample_dashboard(3,2) t h, of 5000]
    by (simp add: session_ttl_secs_def sample_dashboard_def)
qed

theorem protected_routes_need_credentials_witness:
  "\<exists>token origin. read_env sample_getenv env_token = Some token \<and> da_public_origin sample_dashboard = Some origin
    \<and> is_https origin \<and> secure_cookies sample_dashboard
    \<and> min_session_key_bytes \<le> length (da_session_key sample_dashboard)
    \<and> authenticate sample_crypto sample_dashboard 5000 sample_login_headers
      \<in> insert None (Some ` {exp. signed_session sample_crypto sample_dashboard 5000 sample_login_headers exp
        \<or> exp = u64_max \<and> map_option (xc_sha256 sample_crypto) (auth_bearer_token sample_login_headers)
            = Some (xc_sha256 sample_crypto token)})
    \<and> authenticate_ws sample_crypto sample_dashboard 5000 sample_login_headers
      \<in> insert None (Some ` {exp. signed_session sample_crypto sample_dashboard 5000 sample_login_headers exp
        \<and> sample_login_headers ''origin'' \<in> {None, Some origin}})"
  by (rule protected_routes_need_credentials [OF sample_dashboard(1)])
    (simp_all add: is_loopback_def env_flag_def sample_getenv_def env_token_def env_session_key_def
      env_public_origin_def env_allow_mutations_def env_allow_insecure_def)

definition sample_local :: dashboard_auth where
  "sample_local = \<lparr>da_has_token = False, da_token_digest = None, da_session_key = [], da_public_origin = None,
     da_loopback = True, da_allow_insecure = False, da_allow_mutations = False\<rparr>"

definition sample_local_headers :: header_values where
  "sample_local_headers = (\<lambda>_. None)(''host'' \<mapsto> ''localhost:4000'', ''origin'' \<mapsto> ''http://localhost:4000'')"

theorem foreign_origin_rejected_witness:
  "\<exists>scheme host. scheme \<in> {''http://'', ''https://''} \<and> sample_local_headers ''host'' = Some host
     \<and> ''http://localhost:4000'' = scheme @ host
     \<and> (\<exists>name port. host = name @ port \<and> (port = [] \<or> hd port = CHR '':'')
         \<and> name \<in> {''localhost'', ''127.0.0.1'', ''::1'', ''[localhost]'', ''[127.0.0.1]'', ''[::1]''})"
proof -
  let ?env = "\<lparr>de_token = None, de_session_key_b64 = None, de_public_origin = None,
    de_allow_insecure = False, de_allow_mutations = False\<rparr>"
  have "auth_from_env sample_crypto (IpV4 127 0 0 1) [] ?env = Inr (sample_local, [env_session_key @
      '' not set; generated a temporary dev-open signing key '' @
      ''(sessions reset on restart; the key is never logged)''])"
    by (simp add: auth_from_env_def is_loopback_def nonblank_token_def choose_session_key_def choose_origin_def
        sample_local_def)
  moreover have "authenticate_ws sample_crypto sample_local 0 sample_local_headers = Some u64_max"
    by (simp add: authenticate_ws_def origin_allowed_def sample_local_def sample_local_headers_def
        same_origin_as_host_def is_loopback_host_def rsplit_once_def split_once_def dev_open_def)
  moreover have "sample_local_headers ''origin'' = Some ''http://localhost:4000''"
    by (simp add: sample_local_headers_def)
  ultimately show ?thesis
    using foreign_origin_rejected [of sample_crypto "IpV4 127 0 0 1" "[]" ?env sample_local] by (simp add: sample_local_def)
qed

end
