(* ===== verification/Metrics.thy ===== *)
theory Metrics
  imports Flow_Store Complex_Main "HOL-Library.Product_Lexorder"
begin

text \<open>
  The metrics of the dashboard (\<^verbatim>\<open>src/src/metrics.rs\<close>): latency histograms, per-provider tallies, the
  rings of one-second slots behind the windows of a minute, five minutes and an hour, the reports
  aggregated from them, and the ring of snapshots that time travel reads. Real numbers stand for 64-bit
  floats, so rounding is not modelled, and an infinite edge is \<open>None\<close>. The clocks and the sizes of the
  structures in memory are arguments. \<^verbatim>\<open>BTreeMap\<close>s are key-sorted lists.
\<close>

subsection \<open>Keys and counts\<close>

definition window_1m_slots :: nat where "window_1m_slots = 60"
definition window_5m_slots :: nat where "window_5m_slots = 300"
definition window_1h_slots :: nat where "window_1h_slots = 3600"
definition histogram_buckets :: nat where "histogram_buckets = 30"
definition histogram_min_ms :: real where "histogram_min_ms = 1"
definition histogram_max_ms :: real where "histogram_max_ms = 120000"
definition snapshot_ring_slots :: nat where "snapshot_ring_slots = 720"
definition max_tracked_providers :: nat where "max_tracked_providers = 64"
definition overflow_provider :: string where "overflow_provider = ''__other__''"
definition default_snapshot_quota_bytes :: nat where "default_snapshot_quota_bytes = 400 * 1024 * 1024"

datatype status_class = ClassSuccess | ClassError | ClassCancelled

definition status_class_of :: "flow_status \<Rightarrow> status_class" where
  "status_class_of status = (case status of FlowCompleted \<Rightarrow> ClassSuccess | FlowCancelled \<Rightarrow> ClassCancelled
     | FlowFailed \<Rightarrow> ClassError | FlowOpen \<Rightarrow> ClassError)"

datatype bucket_key =
  BucketKey (bk_status: status_class) (bk_model: string) (bk_endpoint: string) (bk_upstream: string)

text \<open>The derived order of the key: field by field, the classes in the order of their variants.\<close>

definition class_rank :: "status_class \<Rightarrow> nat" where
  "class_rank c = (case c of ClassSuccess \<Rightarrow> 0 | ClassError \<Rightarrow> 1 | ClassCancelled \<Rightarrow> 2)"

definition bucket_rank :: "bucket_key \<Rightarrow> nat \<times> string \<times> string \<times> string" where
  "bucket_rank k = (class_rank (bk_status k), bk_model k, bk_endpoint k, bk_upstream k)"

lemma class_rank_inj: "class_rank c = class_rank d \<Longrightarrow> c = d"
  by (cases c; cases d) (simp_all add: class_rank_def)

lemma bucket_rank_inj: "bucket_rank a = bucket_rank b \<Longrightarrow> a = b"
  by (cases a; cases b) (auto simp: bucket_rank_def dest: class_rank_inj)

instantiation bucket_key :: linorder
begin

definition less_eq_bucket_key :: "bucket_key \<Rightarrow> bucket_key \<Rightarrow> bool" where
  "less_eq_bucket_key a b \<longleftrightarrow> bucket_rank a \<le> bucket_rank b"

definition less_bucket_key :: "bucket_key \<Rightarrow> bucket_key \<Rightarrow> bool" where
  "less_bucket_key a b \<longleftrightarrow> bucket_rank a < bucket_rank b"

instance
  by standard (auto simp: less_eq_bucket_key_def less_bucket_key_def intro: bucket_rank_inj)

end

definition i64_sat_add :: "int \<Rightarrow> int \<Rightarrow> int" where
  "i64_sat_add a b = max (- (2 ^ 63)) (min (2 ^ 63 - 1) (a + b))"

record bucket_counts =
  bc_count :: nat
  bc_prompt_tokens :: int
  bc_completion_tokens :: int
  bc_cached_tokens :: int
  bc_reasoning_tokens :: int
  bc_usage_samples :: nat
  bc_unreported_cached_samples :: nat

definition counts_default :: bucket_counts where
  "counts_default = \<lparr>bc_count = 0, bc_prompt_tokens = 0, bc_completion_tokens = 0, bc_cached_tokens = 0,
     bc_reasoning_tokens = 0, bc_usage_samples = 0, bc_unreported_cached_samples = 0\<rparr>"

text \<open>\<^verbatim>\<open>map.entry(k).or_default()\<close> followed by an update in place.\<close>

definition entry_update :: "'k::linorder \<Rightarrow> 'v \<Rightarrow> ('v \<Rightarrow> 'v) \<Rightarrow> ('k \<times> 'v) list \<Rightarrow> ('k \<times> 'v) list" where
  "entry_update k dflt f m = obj_insert k (f (case obj_get m k of Some v \<Rightarrow> v | None \<Rightarrow> dflt)) m"

subsection \<open>Histograms\<close>

record histogram =
  hg_buckets :: "nat list"
  hg_total :: nat

definition histogram_default :: histogram where
  "histogram_default = \<lparr>hg_buckets = replicate histogram_buckets 0, hg_total = 0\<rparr>"

definition bucket_edge :: "nat \<Rightarrow> real" where
  "bucket_edge i = histogram_min_ms
     * exp (ln (histogram_max_ms / histogram_min_ms) * (real i / real (histogram_buckets - 2)))"

definition bucket_upper_ms :: "nat \<Rightarrow> real option" where
  "bucket_upper_ms i = (if histogram_buckets - 1 \<le> i then None else Some (bucket_edge i))"

definition bucket_lower_ms :: "nat \<Rightarrow> real option" where
  "bucket_lower_ms i = (if i = 0 then Some 0 else bucket_upper_ms (i - 1))"

text \<open>The first bucket whose upper edge is not below the value, from an index on.\<close>

function bucket_index_from :: "real \<Rightarrow> nat \<Rightarrow> nat" where
  "bucket_index_from v i =
     (if histogram_buckets - 1 \<le> i then histogram_buckets - 1
      else if v \<le> bucket_edge i then i
      else bucket_index_from v (Suc i))"
  by pat_completeness auto
termination
  by (relation "measure (\<lambda>(v, i). histogram_buckets - i)") auto

declare bucket_index_from.simps [simp del]

definition bucket_index :: "real \<Rightarrow> nat" where
  "bucket_index elapsed_ms = bucket_index_from (max elapsed_ms 0) 0"

definition histogram_record :: "real \<Rightarrow> histogram \<Rightarrow> histogram" where
  "histogram_record elapsed_ms h = (let i = bucket_index elapsed_ms
     in \<lparr>hg_buckets = (hg_buckets h)[i := sat_add (hg_buckets h ! i) 1], hg_total = sat_add (hg_total h) 1\<rparr>)"

definition histogram_merge :: "histogram \<Rightarrow> histogram \<Rightarrow> histogram" where
  "histogram_merge h other =
     \<lparr>hg_buckets = map (\<lambda>i. sat_add (hg_buckets h ! i) (hg_buckets other ! i)) [0..<histogram_buckets],
      hg_total = sat_add (hg_total h) (hg_total other)\<rparr>"

definition clamp01 :: "real \<Rightarrow> real" where
  "clamp01 x = min 1 (max 0 x)"

text \<open>The walk over the buckets: the index, what was counted before it, and the counts from it on.\<close>

fun quantile_from :: "real \<Rightarrow> nat \<Rightarrow> nat \<Rightarrow> nat list \<Rightarrow> real" where
  "quantile_from target i before [] =
     (case bucket_upper_ms (histogram_buckets - 2) of Some v \<Rightarrow> v | None \<Rightarrow> 0)"
| "quantile_from target i before (count # counts) =
     (if count = 0 then quantile_from target (Suc i) before counts
      else if target \<le> real (before + count) then
        (let lower = (case bucket_lower_ms i of Some v \<Rightarrow> v | None \<Rightarrow> 0) in
         case bucket_upper_ms i of
           None \<Rightarrow> lower
         | Some upper \<Rightarrow>
             (let into_bucket = max (target - real before) 0;
                  fraction = clamp01 (into_bucket / real count)
              in lower + (upper - lower) * fraction))
      else quantile_from target (Suc i) (before + count) counts)"

definition quantile :: "histogram \<Rightarrow> real \<Rightarrow> real" where
  "quantile h q =
     (if hg_total h = 0 then 0 else quantile_from (clamp01 q * real (hg_total h)) 0 0 (hg_buckets h))"

subsection \<open>Providers\<close>

record provider_errors =
  pe_connect :: nat
  pe_http_status :: nat
  pe_timeout :: nat
  pe_stream :: nat
  pe_terminal :: nat
  pe_other :: nat

definition errors_default :: provider_errors where
  "errors_default = \<lparr>pe_connect = 0, pe_http_status = 0, pe_timeout = 0, pe_stream = 0, pe_terminal = 0,
     pe_other = 0\<rparr>"

definition errors_record :: "attempt_error_class option \<Rightarrow> provider_errors \<Rightarrow> provider_errors" where
  "errors_record class e =
     (case class of
        Some ClsConnect \<Rightarrow> e\<lparr>pe_connect := sat_add (pe_connect e) 1\<rparr>
      | Some ClsHttpStatus \<Rightarrow> e\<lparr>pe_http_status := sat_add (pe_http_status e) 1\<rparr>
      | Some ClsTimeout \<Rightarrow> e\<lparr>pe_timeout := sat_add (pe_timeout e) 1\<rparr>
      | Some ClsStream \<Rightarrow> e\<lparr>pe_stream := sat_add (pe_stream e) 1\<rparr>
      | Some ClsTerminal \<Rightarrow> e\<lparr>pe_terminal := sat_add (pe_terminal e) 1\<rparr>
      | Some ClsOther \<Rightarrow> e\<lparr>pe_other := sat_add (pe_other e) 1\<rparr>
      | None \<Rightarrow> e\<lparr>pe_other := sat_add (pe_other e) 1\<rparr>)"

definition errors_merge :: "provider_errors \<Rightarrow> provider_errors \<Rightarrow> provider_errors" where
  "errors_merge a b = \<lparr>pe_connect = sat_add (pe_connect a) (pe_connect b),
     pe_http_status = sat_add (pe_http_status a) (pe_http_status b),
     pe_timeout = sat_add (pe_timeout a) (pe_timeout b), pe_stream = sat_add (pe_stream a) (pe_stream b),
     pe_terminal = sat_add (pe_terminal a) (pe_terminal b), pe_other = sat_add (pe_other a) (pe_other b)\<rparr>"

record provider_sample =
  ps_histogram :: histogram
  ps_served :: nat
  ps_failed :: nat
  ps_errors :: provider_errors

definition sample_default :: provider_sample where
  "sample_default = \<lparr>ps_histogram = histogram_default, ps_served = 0, ps_failed = 0, ps_errors = errors_default\<rparr>"

definition sample_record :: "real \<Rightarrow> attempt \<Rightarrow> provider_sample \<Rightarrow> provider_sample" where
  "sample_record latency_ms a p =
     (let p1 = p\<lparr>ps_histogram := histogram_record latency_ms (ps_histogram p)\<rparr>
      in case at_status a of
           Served \<Rightarrow> p1\<lparr>ps_served := sat_add (ps_served p) 1\<rparr>
         | AttemptFailed \<Rightarrow> p1\<lparr>ps_failed := sat_add (ps_failed p) 1,
             ps_errors := errors_record (at_error_class a) (ps_errors p)\<rparr>)"

definition sample_merge :: "provider_sample \<Rightarrow> provider_sample \<Rightarrow> provider_sample" where
  "sample_merge p other =
     \<lparr>ps_histogram = histogram_merge (ps_histogram p) (ps_histogram other),
      ps_served = sat_add (ps_served p) (ps_served other), ps_failed = sat_add (ps_failed p) (ps_failed other),
      ps_errors = errors_merge (ps_errors p) (ps_errors other)\<rparr>"

text \<open>A provider that is tracked, or fits, keeps its name; another one is folded into the overflow.\<close>

definition provider_slot :: "string \<Rightarrow> (string \<times> 'v) list \<Rightarrow> string" where
  "provider_slot provider m =
     (if obj_get m provider \<noteq> None \<or> length m < max_tracked_providers then provider else overflow_provider)"

definition provider_update ::
  "string \<Rightarrow> (provider_sample \<Rightarrow> provider_sample) \<Rightarrow> (string \<times> provider_sample) list
     \<Rightarrow> (string \<times> provider_sample) list" where
  "provider_update provider f m = entry_update (provider_slot provider m) sample_default f m"

subsection \<open>Slots and rings\<close>

record slot =
  sl_epoch_s :: nat
  sl_buckets :: "(bucket_key \<times> bucket_counts) list"
  sl_histogram :: histogram
  sl_providers :: "(string \<times> provider_sample) list"

definition slot_default :: slot where
  "slot_default = \<lparr>sl_epoch_s = 0, sl_buckets = [], sl_histogram = histogram_default, sl_providers = []\<rparr>"

definition slot_reset :: "nat \<Rightarrow> slot \<Rightarrow> slot" where
  "slot_reset epoch_s s = \<lparr>sl_epoch_s = epoch_s, sl_buckets = [], sl_histogram = histogram_default,
     sl_providers = []\<rparr>"

definition attempt_latency_ms :: "attempt \<Rightarrow> real" where
  "attempt_latency_ms a = real (sat_sub (at_end_ms a) (at_start_ms a))"

definition label_or_unknown :: "string option \<Rightarrow> string" where
  "label_or_unknown v = (case v of Some s \<Rightarrow> s | None \<Rightarrow> ''unknown'')"

definition record_attempts_into_slot :: "attempt list \<Rightarrow> slot \<Rightarrow> slot" where
  "record_attempts_into_slot attempts s = s\<lparr>sl_providers :=
     fold (\<lambda>a. provider_update (label_or_unknown (at_provider a)) (sample_record (attempt_latency_ms a) a))
       attempts (sl_providers s)\<rparr>"

type_synonym window_ring = "slot list"

definition ring_new :: "nat \<Rightarrow> window_ring" where
  "ring_new len = replicate len slot_default"

text \<open>\<^verbatim>\<open>slot_mut\<close>: the slot of a second, reset when it belonged to an earlier one, updated in place.\<close>

definition slot_mut :: "nat \<Rightarrow> (slot \<Rightarrow> slot) \<Rightarrow> window_ring \<Rightarrow> window_ring" where
  "slot_mut epoch_s f ring =
     (let i = epoch_s mod length ring; s = ring ! i
      in ring[i := f (if sl_epoch_s s \<noteq> epoch_s then slot_reset epoch_s s else s)])"

record window_report =
  wr_buckets :: "(bucket_key \<times> bucket_counts) list"
  wr_histogram :: histogram
  wr_providers :: "(string \<times> provider_sample) list"

definition report_default :: window_report where
  "report_default = \<lparr>wr_buckets = [], wr_histogram = histogram_default, wr_providers = []\<rparr>"

definition counts_merge :: "bucket_counts \<Rightarrow> bucket_counts \<Rightarrow> bucket_counts" where
  "counts_merge counts entry =
     \<lparr>bc_count = sat_add (bc_count entry) (bc_count counts),
      bc_prompt_tokens = i64_sat_add (bc_prompt_tokens entry) (bc_prompt_tokens counts),
      bc_completion_tokens = i64_sat_add (bc_completion_tokens entry) (bc_completion_tokens counts),
      bc_cached_tokens = i64_sat_add (bc_cached_tokens entry) (bc_cached_tokens counts),
      bc_reasoning_tokens = i64_sat_add (bc_reasoning_tokens entry) (bc_reasoning_tokens counts),
      bc_usage_samples = sat_add (bc_usage_samples entry) (bc_usage_samples counts),
      bc_unreported_cached_samples =
        sat_add (bc_unreported_cached_samples entry) (bc_unreported_cached_samples counts)\<rparr>"

definition merge_slot :: "slot \<Rightarrow> window_report \<Rightarrow> window_report" where
  "merge_slot s r =
     \<lparr>wr_buckets = fold (\<lambda>(key, counts). entry_update key counts_default (counts_merge counts))
        (sl_buckets s) (wr_buckets r),
      wr_histogram = histogram_merge (wr_histogram r) (sl_histogram s),
      wr_providers = fold (\<lambda>(provider, sample). provider_update provider (\<lambda>p. sample_merge p sample))
        (sl_providers s) (wr_providers r)\<rparr>"

definition ring_aggregate :: "nat \<Rightarrow> window_ring \<Rightarrow> window_report" where
  "ring_aggregate now_epoch_s ring =
     (let floor = sat_sub now_epoch_s (length ring - 1)
      in fold merge_slot (filter (\<lambda>s. floor \<le> sl_epoch_s s \<and> sl_epoch_s s \<le> now_epoch_s) ring) report_default)"

subsection \<open>Reports\<close>

record percentiles =
  pc_p50 :: real
  pc_p95 :: real
  pc_p99 :: real

definition percentiles_default :: percentiles where
  "percentiles_default = \<lparr>pc_p50 = 0, pc_p95 = 0, pc_p99 = 0\<rparr>"

definition percentiles_of :: "histogram \<Rightarrow> percentiles" where
  "percentiles_of h = \<lparr>pc_p50 = quantile h (50 / 100), pc_p95 = quantile h (95 / 100), pc_p99 = quantile h (99 / 100)\<rparr>"

definition report_percentiles :: "window_report \<Rightarrow> percentiles" where
  "report_percentiles r = percentiles_of (wr_histogram r)"

definition fold_counts :: "(bucket_counts \<Rightarrow> nat) \<Rightarrow> (bucket_key \<times> bucket_counts) list \<Rightarrow> nat" where
  "fold_counts f m = fold (\<lambda>(_, counts) acc. sat_add acc (f counts)) m 0"

definition total_count :: "window_report \<Rightarrow> nat" where
  "total_count r = fold_counts bc_count (wr_buckets r)"

definition usage_sample_count :: "window_report \<Rightarrow> nat" where
  "usage_sample_count r = fold_counts bc_usage_samples (wr_buckets r)"

definition priced_sample_count :: "(string \<Rightarrow> bool) \<Rightarrow> window_report \<Rightarrow> nat" where
  "priced_sample_count has_price r =
     fold_counts bc_usage_samples (filter (\<lambda>(key, _). has_price (bk_model key)) (wr_buckets r))"

record provider_latency =
  pl_provider :: string
  pl_samples :: nat
  pl_served :: nat
  pl_failed :: nat
  pl_percentiles :: percentiles
  pl_error_rate :: real
  pl_errors :: provider_errors

definition provider_latency_from_sample :: "string \<Rightarrow> provider_sample \<Rightarrow> provider_latency" where
  "provider_latency_from_sample provider sample =
     (let samples = sat_add (ps_served sample) (ps_failed sample)
      in \<lparr>pl_provider = provider, pl_samples = samples, pl_served = ps_served sample,
          pl_failed = ps_failed sample, pl_percentiles = percentiles_of (ps_histogram sample),
          pl_error_rate = (if 0 < samples then real (ps_failed sample) / real samples * 100 else 0),
          pl_errors = ps_errors sample\<rparr>)"

definition provider_latency_of :: "window_report \<Rightarrow> string \<Rightarrow> provider_latency option" where
  "provider_latency_of r provider =
     map_option (provider_latency_from_sample provider) (obj_get (wr_providers r) provider)"

definition per_provider :: "window_report \<Rightarrow> (string \<times> provider_latency) list" where
  "per_provider r = map (\<lambda>(p, sample). (p, provider_latency_from_sample p sample)) (wr_providers r)"

record metrics_view =
  mv_1m :: window_report
  mv_5m :: window_report
  mv_1h :: window_report
  mv_percentiles_1m :: percentiles
  mv_percentiles_5m :: percentiles
  mv_percentiles_1h :: percentiles

definition view_default :: metrics_view where
  "view_default = \<lparr>mv_1m = report_default, mv_5m = report_default, mv_1h = report_default,
     mv_percentiles_1m = percentiles_default, mv_percentiles_5m = percentiles_default,
     mv_percentiles_1h = percentiles_default\<rparr>"

text \<open>\<^verbatim>\<open>std::mem::size_of\<close> of the structures.\<close>

record mem_sizes =
  ms_histogram :: nat
  ms_bucket_key :: nat
  ms_bucket_counts :: nat
  ms_string :: nat
  ms_provider_sample :: nat
  ms_summary :: nat
  ms_topology :: nat

definition window_bytes :: "mem_sizes \<Rightarrow> window_report \<Rightarrow> nat" where
  "window_bytes M r = ms_histogram M
     + sum_list (map (\<lambda>(key, _). length (bk_model key) + length (bk_endpoint key) + length (bk_upstream key)
         + ms_bucket_key M + ms_bucket_counts M) (wr_buckets r))
     + sum_list (map (\<lambda>(provider, _). length provider + ms_string M + ms_provider_sample M) (wr_providers r))"

definition view_bytes :: "mem_sizes \<Rightarrow> metrics_view \<Rightarrow> nat" where
  "view_bytes M v = window_bytes M (mv_1m v) + window_bytes M (mv_5m v) + window_bytes M (mv_1h v)"

subsection \<open>Snapshots\<close>

record domain_cursors =
  dc_flow_seq :: nat
  dc_metrics_seq :: nat
  dc_topology_seq :: nat
  dc_monitor_seq :: nat

text \<open>The topology is shared and opaque here.\<close>

record 'tp dashboard_snapshot =
  ds_taken_at_ms :: nat
  ds_cursors :: domain_cursors
  ds_summaries :: "snapshot_flow_summary list"
  ds_metrics :: metrics_view
  ds_topology :: 'tp

definition summary_approx_bytes :: "mem_sizes \<Rightarrow> snapshot_flow_summary \<Rightarrow> nat" where
  "summary_approx_bytes M s = ms_summary M + length (sf_api_call_id s) + opt_len (sf_response_id s)
     + length (sf_method s) + length (sf_uri s) + opt_len (sf_model_requested s) + opt_len (sf_model_served s)
     + opt_len (sf_upstream_target s) + opt_len (sf_terminal_reason s)"

definition snapshot_bytes :: "mem_sizes \<Rightarrow> 'tp dashboard_snapshot \<Rightarrow> nat" where
  "snapshot_bytes M d = sat_add (sat_add
     (fold (\<lambda>s acc. sat_add acc (summary_approx_bytes M s)) (ds_summaries d) 0) (view_bytes M (ds_metrics d)))
     (ms_topology M)"

record 'tp snapshot_ring =
  sg_cuts :: "'tp dashboard_snapshot list"
  sg_retained_bytes :: nat
  sg_quota_bytes :: nat

definition snapshot_ring_new :: "nat \<Rightarrow> 'tp snapshot_ring" where
  "snapshot_ring_new quota_bytes = \<lparr>sg_cuts = [], sg_retained_bytes = 0, sg_quota_bytes = quota_bytes\<rparr>"

definition pop_oldest_cut :: "mem_sizes \<Rightarrow> 'tp snapshot_ring \<Rightarrow> 'tp snapshot_ring" where
  "pop_oldest_cut M g =
     (case sg_cuts g of
        [] \<Rightarrow> g
      | old # cuts \<Rightarrow> g\<lparr>sg_cuts := cuts,
          sg_retained_bytes := sat_sub (sg_retained_bytes g) (snapshot_bytes M old)\<rparr>)"

text \<open>The two loops pop while a condition holds; each pop shortens the ring.\<close>

function pop_while :: "mem_sizes \<Rightarrow> ('tp snapshot_ring \<Rightarrow> bool) \<Rightarrow> 'tp snapshot_ring \<Rightarrow> 'tp snapshot_ring" where
  "pop_while M over g =
     (if over g \<and> sg_cuts g \<noteq> [] then pop_while M over (pop_oldest_cut M g) else g)"
  by pat_completeness auto
termination
  by (relation "measure (\<lambda>(M, over, g). length (sg_cuts g))")
    (auto simp: pop_oldest_cut_def neq_Nil_conv)

declare pop_while.simps [simp del]

definition snapshot_push :: "mem_sizes \<Rightarrow> 'tp dashboard_snapshot \<Rightarrow> 'tp snapshot_ring \<Rightarrow> 'tp snapshot_ring" where
  "snapshot_push M snap g =
     (let g1 = g\<lparr>sg_retained_bytes := sat_add (sg_retained_bytes g) (snapshot_bytes M snap),
                 sg_cuts := sg_cuts g @ [snap]\<rparr>;
          g2 = pop_while M (\<lambda>g. snapshot_ring_slots < length (sg_cuts g)) g1
      in pop_while M (\<lambda>g. sg_quota_bytes g < sg_retained_bytes g \<and> 1 < length (sg_cuts g)) g2)"

text \<open>The binary search of \<^verbatim>\<open>snapshot_at\<close>: the range still open, and the best index so far.\<close>

function search_cut :: "'tp dashboard_snapshot list \<Rightarrow> nat \<Rightarrow> nat \<Rightarrow> nat \<Rightarrow> nat option \<Rightarrow> nat option" where
  "search_cut cuts ts lo hi best =
     (if lo < hi then
        (let mid = lo + (hi - lo) div 2 in
         if ds_taken_at_ms (cuts ! mid) \<le> ts then search_cut cuts ts (mid + 1) hi (Some mid)
         else search_cut cuts ts lo mid best)
      else best)"
  by pat_completeness auto
termination
  by (relation "measure (\<lambda>(cuts, ts, lo, hi, best). hi - lo)") auto

declare search_cut.simps [simp del]

definition ring_snapshot_at :: "nat \<Rightarrow> 'tp snapshot_ring \<Rightarrow> 'tp dashboard_snapshot option" where
  "ring_snapshot_at ts g =
     (if sg_cuts g = [] then None
      else map_option (\<lambda>i. sg_cuts g ! i) (search_cut (sg_cuts g) ts 0 (length (sg_cuts g)) None))"

definition ring_latest :: "'tp snapshot_ring \<Rightarrow> 'tp dashboard_snapshot option" where
  "ring_latest g = (if sg_cuts g = [] then None else Some (last (sg_cuts g)))"

subsection \<open>The layer\<close>

record 'tp metrics_state =
  mt_ring_1m :: window_ring
  mt_ring_5m :: window_ring
  mt_ring_1h :: window_ring
  mt_seq :: nat
  mt_snapshots :: "'tp snapshot_ring"

definition metrics_state_new :: "nat \<Rightarrow> 'tp metrics_state" where
  "metrics_state_new quota = \<lparr>mt_ring_1m = ring_new window_1m_slots, mt_ring_5m = ring_new window_5m_slots,
     mt_ring_1h = ring_new window_1h_slots, mt_seq = 0, mt_snapshots = snapshot_ring_new quota\<rparr>"

text \<open>One update of the slot of a second in all three rings, and the cursor moves.\<close>

definition in_rings :: "nat \<Rightarrow> (slot \<Rightarrow> slot) \<Rightarrow> 'tp metrics_state \<Rightarrow> 'tp metrics_state" where
  "in_rings epoch_s f s = s\<lparr>mt_ring_1m := slot_mut epoch_s f (mt_ring_1m s),
     mt_ring_5m := slot_mut epoch_s f (mt_ring_5m s), mt_ring_1h := slot_mut epoch_s f (mt_ring_1h s),
     mt_seq := sat_add (mt_seq s) 1\<rparr>"

definition count_one :: "bucket_counts \<Rightarrow> bucket_counts" where
  "count_one entry = entry\<lparr>bc_count := sat_add (bc_count entry) 1\<rparr>"

definition or_zero :: "int option \<Rightarrow> int" where
  "or_zero v = (case v of Some n \<Rightarrow> n | None \<Rightarrow> 0)"

definition add_usage :: "flow_usage \<Rightarrow> bucket_counts \<Rightarrow> bucket_counts" where
  "add_usage usage entry = entry\<lparr>
     bc_prompt_tokens := i64_sat_add (bc_prompt_tokens entry) (fu_prompt usage),
     bc_completion_tokens := i64_sat_add (bc_completion_tokens entry) (fu_completion usage),
     bc_cached_tokens := i64_sat_add (bc_cached_tokens entry) (or_zero (fu_cached usage)),
     bc_reasoning_tokens := i64_sat_add (bc_reasoning_tokens entry) (or_zero (fu_reasoning usage)),
     bc_usage_samples := sat_add (bc_usage_samples entry) 1,
     bc_unreported_cached_samples := (if fu_cached usage = None
       then sat_add (bc_unreported_cached_samples entry) 1 else bc_unreported_cached_samples entry)\<rparr>"

definition slot_record_response :: "bucket_key \<Rightarrow> real \<Rightarrow> slot \<Rightarrow> slot" where
  "slot_record_response key elapsed_ms s = s\<lparr>
     sl_buckets := entry_update key counts_default count_one (sl_buckets s),
     sl_histogram := histogram_record elapsed_ms (sl_histogram s)\<rparr>"

definition slot_record_terminal ::
  "bucket_key \<Rightarrow> real \<Rightarrow> flow_usage option \<Rightarrow> attempt list \<Rightarrow> slot \<Rightarrow> slot" where
  "slot_record_terminal key elapsed_ms usage attempts s =
     (let s1 = record_attempts_into_slot attempts s
      in s1\<lparr>sl_buckets := entry_update key counts_default
            (\<lambda>entry. case usage of Some u \<Rightarrow> add_usage u (count_one entry) | None \<Rightarrow> count_one entry)
            (sl_buckets s1),
          sl_histogram := histogram_record elapsed_ms (sl_histogram s1)\<rparr>)"

definition slot_add_tokens :: "bucket_key \<Rightarrow> flow_usage \<Rightarrow> slot \<Rightarrow> slot" where
  "slot_add_tokens key usage s =
     s\<lparr>sl_buckets := entry_update key counts_default (add_usage usage) (sl_buckets s)\<rparr>"

definition metrics_view_at :: "nat \<Rightarrow> 'tp metrics_state \<Rightarrow> metrics_view" where
  "metrics_view_at now_epoch_s s =
     (let w1 = ring_aggregate now_epoch_s (mt_ring_1m s); w5 = ring_aggregate now_epoch_s (mt_ring_5m s);
          wh = ring_aggregate now_epoch_s (mt_ring_1h s)
      in \<lparr>mv_1m = w1, mv_5m = w5, mv_1h = wh, mv_percentiles_1m = report_percentiles w1,
          mv_percentiles_5m = report_percentiles w5, mv_percentiles_1h = report_percentiles wh\<rparr>)"

definition bucket_key_of :: "flow_status \<Rightarrow> string option \<Rightarrow> string \<Rightarrow> string option \<Rightarrow> bucket_key" where
  "bucket_key_of status served_model endpoint upstream =
     BucketKey (status_class_of status) (label_or_unknown served_model) endpoint (label_or_unknown upstream)"

definition record_response ::
  "bool \<Rightarrow> nat \<Rightarrow> flow_status \<Rightarrow> string option \<Rightarrow> string \<Rightarrow> string option \<Rightarrow> nat
     \<Rightarrow> 'tp metrics_state \<Rightarrow> 'tp metrics_state" where
  "record_response enabled epoch_s status served_model endpoint upstream elapsed_ms s =
     (if \<not> enabled then s
      else in_rings epoch_s (slot_record_response (bucket_key_of status served_model endpoint upstream)
        (real elapsed_ms)) s)"

definition metrics_record_usage ::
  "bool \<Rightarrow> nat \<Rightarrow> flow_status \<Rightarrow> string option \<Rightarrow> string \<Rightarrow> string option \<Rightarrow> flow_usage
     \<Rightarrow> 'tp metrics_state \<Rightarrow> 'tp metrics_state" where
  "metrics_record_usage enabled epoch_s status served_model endpoint upstream usage s =
     (if \<not> enabled then s
      else in_rings epoch_s (slot_add_tokens (bucket_key_of status served_model endpoint upstream) usage) s)"

definition record_terminal ::
  "bool \<Rightarrow> nat \<Rightarrow> flow_status \<Rightarrow> string option \<Rightarrow> string \<Rightarrow> string option \<Rightarrow> nat \<Rightarrow> flow_usage option
     \<Rightarrow> attempt list \<Rightarrow> 'tp metrics_state \<Rightarrow> 'tp metrics_state" where
  "record_terminal enabled epoch_s status served_model endpoint upstream elapsed_ms usage attempts s =
     (if \<not> enabled then s
      else in_rings epoch_s (slot_record_terminal (bucket_key_of status served_model endpoint upstream)
        (real elapsed_ms) usage attempts) s)"

definition metrics_seq :: "bool \<Rightarrow> 'tp metrics_state \<Rightarrow> nat" where
  "metrics_seq enabled s = (if enabled then mt_seq s else 0)"

definition metrics_layer_view :: "bool \<Rightarrow> nat \<Rightarrow> 'tp metrics_state \<Rightarrow> metrics_view" where
  "metrics_layer_view enabled now_epoch_s s = (if enabled then metrics_view_at now_epoch_s s else view_default)"

definition view_with_seq :: "bool \<Rightarrow> nat \<Rightarrow> 'tp metrics_state \<Rightarrow> metrics_view \<times> nat" where
  "view_with_seq enabled now_epoch_s s =
     (if enabled then (metrics_view_at now_epoch_s s, mt_seq s) else (view_default, 0))"

text \<open>
  \<^verbatim>\<open>snapshot_with\<close>: the flow store is read first, then, under both locks, the topology with its version
  and the cursors of the metrics and the monitor; the wall clock \<open>taken_at_ms\<close> is read last.
\<close>

definition snapshot_with ::
  "mem_sizes \<Rightarrow> bool \<Rightarrow> flow_store \<Rightarrow> nat \<Rightarrow> 'tp \<times> nat \<Rightarrow> nat \<Rightarrow> nat \<Rightarrow> flow_state \<times> 'tp metrics_state
     \<Rightarrow> 'tp dashboard_snapshot option \<times> flow_state \<times> 'tp metrics_state" where
  "snapshot_with M enabled C now topology monitor_seq taken_at_ms w =
     (let (fs, ms) = w in
      if \<not> enabled then (None, w)
      else
        (let ((summaries, flow_sq), fs') = snapshot_summaries_with_seq C now fs;
             metrics = metrics_view_at (taken_at_ms div 1000) ms;
             snap = \<lparr>ds_taken_at_ms = taken_at_ms,
                    ds_cursors = \<lparr>dc_flow_seq = flow_sq, dc_metrics_seq = mt_seq ms, dc_topology_seq = snd topology,
                                  dc_monitor_seq = monitor_seq\<rparr>,
                    ds_summaries = summaries, ds_metrics = metrics, ds_topology = fst topology\<rparr>
         in (Some snap, fs', ms\<lparr>mt_snapshots := snapshot_push M snap (mt_snapshots ms)\<rparr>)))"

definition metrics_snapshot_at :: "bool \<Rightarrow> nat \<Rightarrow> 'tp metrics_state \<Rightarrow> 'tp dashboard_snapshot option" where
  "metrics_snapshot_at enabled ts s = (if enabled then ring_snapshot_at ts (mt_snapshots s) else None)"

definition latest_snapshot :: "bool \<Rightarrow> 'tp metrics_state \<Rightarrow> 'tp dashboard_snapshot option" where
  "latest_snapshot enabled s = (if enabled then ring_latest (mt_snapshots s) else None)"

end
