(* ===== verification/Metrics_Correct.thy ===== *)
theory Metrics_Correct
  imports Metrics "HOL-Library.Sublist"
begin

text \<open>
  Correctness of the metrics: a window reports exactly the flows that ended within it, whatever the
  rings have been through; the percentiles are ordered, bounded and fall in the bucket that holds the
  true value; and time travel returns the newest snapshot not after the asked instant from a bounded ring.
\<close>

subsection \<open>Rings of slots\<close>

text \<open>
  A tally of a slot: it starts at zero with the slot's second, and landing one flow in a well-formed
  slot adds its weight, as long as the sum fits 64 bits, and keeps the slot well-formed.
\<close>

locale slot_tally =
  fixes land :: "'x \<Rightarrow> slot \<Rightarrow> slot" and tally :: "slot \<Rightarrow> nat" and w :: "'x \<Rightarrow> nat"
    and ok :: "slot \<Rightarrow> bool"
  assumes ok_fresh: "ok slot_default" "ok (slot_reset e s)"
    and ok_land: "ok s \<Longrightarrow> ok (land x s)"
    and tally_fresh: "tally slot_default = 0" "tally (slot_reset e s) = 0"
    and tally_land: "ok s \<Longrightarrow> tally s + w x \<le> usize_max \<Longrightarrow> tally (land x s) = tally s + w x"
    and epoch_land: "sl_epoch_s (land x s) = sl_epoch_s s"
begin

definition run :: "(nat \<times> 'x) list \<Rightarrow> window_ring \<Rightarrow> window_ring" where
  "run hist ring = fold (\<lambda>(e, x). slot_mut e (land x)) hist ring"

definition total_of :: "(nat \<times> 'x) list \<Rightarrow> nat" where
  "total_of hist = sum_list (map (\<lambda>(_, x). w x) hist)"

text \<open>What slot \<open>i\<close> holds: the flows of its second, which is the last one recorded with that index.\<close>

definition slot_holds :: "nat \<Rightarrow> (nat \<times> 'x) list \<Rightarrow> nat \<Rightarrow> slot \<Rightarrow> bool" where
  "slot_holds len hist i s \<longleftrightarrow>
     ok s \<and> tally s = total_of (filter (\<lambda>(e, _). e = sl_epoch_s s \<and> e mod len = i) hist)
     \<and> (\<forall>(e, x) \<in> set hist. e mod len = i \<longrightarrow> e \<le> sl_epoch_s s)
     \<and> (sl_epoch_s s = 0 \<or> sl_epoch_s s \<in> fst ` set hist \<and> sl_epoch_s s mod len = i)"

definition ring_holds :: "(nat \<times> 'x) list \<Rightarrow> window_ring \<Rightarrow> bool" where
  "ring_holds hist ring \<longleftrightarrow> (\<forall>i < length ring. slot_holds (length ring) hist i (ring ! i))"

lemma total_of_append: "total_of (a @ b) = total_of a + total_of b"
  by (simp add: total_of_def)

lemma total_of_filter: "total_of (filter P hist) \<le> total_of hist"
  by (induction hist) (auto simp: total_of_def)

lemma ring_holds_new: "0 < len \<Longrightarrow> ring_holds [] (ring_new len)"
  by (simp add: ring_holds_def slot_holds_def ring_new_def total_of_def tally_fresh ok_fresh) (simp add: slot_default_def)

lemma slot_holds_other:
  assumes "slot_holds len hist i s" and "e mod len \<noteq> i"
  shows "slot_holds len (hist @ [(e, x)]) i s"
  using assms by (auto simp: slot_holds_def total_of_def)

lemma slot_holds_land:
  assumes h: "slot_holds len hist i s" and i: "e mod len = i" and late: "\<forall>(e', _) \<in> set hist. e' \<le> e"
    and fits: "total_of (hist @ [(e, x)]) \<le> usize_max"
  shows "slot_holds len (hist @ [(e, x)]) i (land x (if sl_epoch_s s \<noteq> e then slot_reset e s else s))"
proof -
  let ?s = "if sl_epoch_s s \<noteq> e then slot_reset e s else s"
  have "tally ?s = total_of (filter (\<lambda>(e', _). e' = e \<and> e' mod len = i) hist)"
  proof (cases "sl_epoch_s s = e")
    case True
    with h show ?thesis by (simp add: slot_holds_def)
  next
    case False
    have "sl_epoch_s s \<le> e"
      using h late by (auto simp: slot_holds_def)
    with False have "filter (\<lambda>(e', _). e' = e \<and> e' mod len = i) hist = []"
      using h i by (fastforce simp: slot_holds_def filter_empty_conv)
    with False show ?thesis by (simp add: tally_fresh total_of_def)
  qed
  moreover have e: "sl_epoch_s ?s = e" by (simp add: slot_reset_def)
  moreover have "ok ?s" using h by (simp add: slot_holds_def ok_fresh)
  moreover have "tally ?s + w x \<le> usize_max"
    using calculation(1) fits total_of_filter [of "\<lambda>(e', _). e' = e \<and> e' mod len = i" hist]
    by (simp add: total_of_append) (simp add: total_of_def)
  ultimately show ?thesis
    using i late by (auto simp: slot_holds_def epoch_land tally_land ok_land total_of_append) (auto simp: total_of_def)
qed

lemma ring_holds_run:
  "sorted (map fst hist) \<Longrightarrow> total_of hist \<le> usize_max \<Longrightarrow> 0 < len
    \<Longrightarrow> ring_holds hist (run hist (ring_new len)) \<and> length (run hist (ring_new len)) = len"
proof (induction hist rule: rev_induct)
  case Nil
  then show ?case by (simp add: run_def ring_holds_new) (simp add: ring_new_def)
next
  case (snoc ex hist)
  obtain e x where ex: "ex = (e, x)" by fastforce
  let ?ring = "run hist (ring_new len)"
  from snoc have "sorted (map fst hist)" "total_of hist \<le> usize_max"
    by (auto simp: sorted_append total_of_append)
  with snoc have h: "ring_holds hist ?ring" "length ?ring = len" by auto
  have late: "\<forall>(e', _) \<in> set hist. e' \<le> e" using snoc.prems(1) by (auto simp: ex sorted_append)
  have i: "e mod len < len" using snoc.prems(3) by simp
  have r: "run (hist @ [(e, x)]) (ring_new len) = ?ring[e mod len := land x
      (if sl_epoch_s (?ring ! (e mod len)) \<noteq> e then slot_reset e (?ring ! (e mod len)) else ?ring ! (e mod len))]"
    by (simp add: run_def slot_mut_def Let_def h(2) [unfolded run_def])
  have "slot_holds len (hist @ [ex]) j (run (hist @ [ex]) (ring_new len) ! j)" if j: "j < len" for j
  proof (cases "j = e mod len")
    case True
    have "slot_holds len hist j (?ring ! j)" using h j by (simp add: ring_holds_def)
    from slot_holds_land [OF this [unfolded True] refl late, of x] snoc.prems(2) show ?thesis
      using i by (simp add: r ex True h(2))
  next
    case False
    have "slot_holds len hist j (?ring ! j)" using h j by (simp add: ring_holds_def)
    from slot_holds_other [OF this False [symmetric], of x] False show ?thesis by (simp add: ex r)
  qed
  moreover have "length (run (hist @ [ex]) (ring_new len)) = len" by (simp add: ex r h(2))
  ultimately show ?case by (simp add: ring_holds_def)
qed

text \<open>The slots of a window together hold exactly the flows of its seconds.\<close>

lemma sum_slots:
  assumes "0 < len"
  shows "(\<Sum>i < len. if P i then total_of (filter (\<lambda>(e, _). e = ep i \<and> e mod len = i) hist) else 0)
    = total_of (filter (\<lambda>(e, _). P (e mod len) \<and> e = ep (e mod len)) hist)"
proof (induction hist)
  case (Cons ex hist)
  obtain e x where ex: "ex = (e, x)" by fastforce
  have "(\<Sum>i < len. if P i then total_of (filter (\<lambda>(e, _). e = ep i \<and> e mod len = i) (ex # hist)) else 0)
      = (\<Sum>i < len. (if P i then total_of (filter (\<lambda>(e, _). e = ep i \<and> e mod len = i) hist) else 0)
          + (if i = e mod len then if P i \<and> e = ep i then w x else 0 else 0))"
    by (rule sum.cong) (auto simp: ex total_of_def)
  also have "\<dots> = (\<Sum>i < len. if P i then total_of (filter (\<lambda>(e, _). e = ep i \<and> e mod len = i) hist) else 0)
      + (if P (e mod len) \<and> e = ep (e mod len) then w x else 0)"
    using assms by (simp add: sum.distrib)
  finally show ?case using Cons.IH by (simp add: ex) (simp add: total_of_def)
qed (simp add: total_of_def)

lemma sum_list_filter_slots:
  "sum_list (map f (filter P xs)) = (\<Sum>i < length xs. if P (xs ! i) then f (xs ! i) else 0)"
proof (induction xs rule: rev_induct)
  case (snoc x xs)
  have "(\<Sum>i < length xs. if P ((xs @ [x]) ! i) then f ((xs @ [x]) ! i) else 0)
      = (\<Sum>i < length xs. if P (xs ! i) then f (xs ! i) else 0)"
    by (rule sum.cong) (auto simp: nth_append)
  with snoc show ?case by simp
qed simp

lemma window_total:
  assumes "sorted (map fst hist)" and "total_of hist \<le> usize_max" and "0 < len"
    and "\<forall>(e, _) \<in> set hist. e \<le> now"
  shows "sum_list (map tally (filter (\<lambda>s. sat_sub now (len - 1) \<le> sl_epoch_s s \<and> sl_epoch_s s \<le> now)
      (run hist (ring_new len)))) = total_of (filter (\<lambda>(e, _). now < e + len) hist)"
proof -
  let ?ring = "run hist (ring_new len)"
  let ?ep = "\<lambda>i. sl_epoch_s (?ring ! i)"
  let ?P = "\<lambda>s. sat_sub now (len - 1) \<le> sl_epoch_s s \<and> sl_epoch_s s \<le> now"
  from ring_holds_run [OF assms(1-3)] have h: "ring_holds hist ?ring" "length ?ring = len" by simp_all
  have hold: "slot_holds len hist i (?ring ! i)" if "i < len" for i using h that by (simp add: ring_holds_def)
  have "sum_list (map tally (filter ?P ?ring)) = (\<Sum>i < len. if ?P (?ring ! i) then tally (?ring ! i) else 0)"
    by (simp only: sum_list_filter_slots h(2))
  also have "\<dots> = (\<Sum>i < len. if ?P (?ring ! i)
      then total_of (filter (\<lambda>(e, _). e = ?ep i \<and> e mod len = i) hist) else 0)"
    by (rule sum.cong) (use hold in \<open>auto simp: slot_holds_def\<close>)
  also have "\<dots> = total_of (filter (\<lambda>(e, _). ?P (?ring ! (e mod len)) \<and> e = ?ep (e mod len)) hist)"
    by (rule sum_slots [OF assms(3)])
  also have "filter (\<lambda>(e, _). ?P (?ring ! (e mod len)) \<and> e = ?ep (e mod len)) hist
      = filter (\<lambda>(e, _). now < e + len) hist"
  proof (rule filter_cong [OF refl])
    fix ex assume ex: "ex \<in> set hist"
    obtain e x where e: "ex = (e, x)" by fastforce
    have le: "e \<le> now" using assms(4) ex e by auto
    have s: "slot_holds len hist (e mod len) (?ring ! (e mod len))" using hold assms(3) by simp
    then have ge: "e \<le> ?ep (e mod len)" using ex e by (auto simp: slot_holds_def)
    have "e = ?ep (e mod len)" if "now < e + len"
    proof (cases "?ep (e mod len) = 0")
      case True
      with ge show ?thesis by simp
    next
      case False
      with s have m: "?ep (e mod len) mod len = e mod len" "?ep (e mod len) \<in> fst ` set hist"
        by (auto simp: slot_holds_def)
      then have "?ep (e mod len) \<le> now" using assms(4) by auto
      then have lt: "?ep (e mod len) - e < len" using that ge less_diff_conv2 [OF ge, of len] by (simp add: add.commute)
      have "(?ep (e mod len) - e) mod len = 0" using m(1) ge by (simp add: mod_eq_dvd_iff_nat)
      then show ?thesis using lt ge by simp
    qed
    then show "(case ex of (e, _) \<Rightarrow> ?P (?ring ! (e mod len)) \<and> e = ?ep (e mod len))
        = (case ex of (e, _) \<Rightarrow> now < e + len)"
      using le assms(3) by (auto simp: e sat_sub_def)
  qed
  finally show ?thesis .
qed

end

text \<open>
  A tally that the aggregation carries over: the report starts at zero, and merging a well-formed slot
  adds the slot's tally as long as the sum fits.
\<close>

locale window_tally = slot_tally land tally w ok
  for land :: "'x \<Rightarrow> slot \<Rightarrow> slot" and tally :: "slot \<Rightarrow> nat" and w :: "'x \<Rightarrow> nat"
    and ok :: "slot \<Rightarrow> bool" +
  fixes rtally :: "window_report \<Rightarrow> nat"
  assumes rtally_default: "rtally report_default = 0"
    and rtally_merge: "ok s \<Longrightarrow> rtally r + tally s \<le> usize_max \<Longrightarrow> rtally (merge_slot s r) = rtally r + tally s"
begin

lemma rtally_fold:
  "\<forall>s \<in> set slots. ok s \<Longrightarrow> rtally r + sum_list (map tally slots) \<le> usize_max
    \<Longrightarrow> rtally (fold merge_slot slots r) = rtally r + sum_list (map tally slots)"
proof (induction slots arbitrary: r)
  case (Cons s slots)
  have "rtally (merge_slot s r) = rtally r + tally s" using Cons.prems by (intro rtally_merge) auto
  with Cons show ?case by simp
qed simp

lemma aggregate_total:
  assumes "sorted (map fst hist)" and "total_of hist \<le> usize_max" and "0 < len"
    and "\<forall>(e, _) \<in> set hist. e \<le> now"
  shows "rtally (ring_aggregate now (run hist (ring_new len))) = total_of (filter (\<lambda>(e, _). now < e + len) hist)"
proof -
  let ?slots = "filter (\<lambda>s. sat_sub now (len - 1) \<le> sl_epoch_s s \<and> sl_epoch_s s \<le> now) (run hist (ring_new len))"
  have t: "sum_list (map tally ?slots) = total_of (filter (\<lambda>(e, _). now < e + len) hist)"
    by (rule window_total [OF assms])
  have fits: "rtally report_default + sum_list (map tally ?slots) \<le> usize_max"
    unfolding t rtally_default using total_of_filter [of "\<lambda>(e, _). now < e + len" hist] assms(2) by simp
  have "\<forall>s \<in> set ?slots. ok s"
    using ring_holds_run [OF assms(1-3)] by (auto simp: ring_holds_def slot_holds_def in_set_conv_nth)
  from rtally_fold [OF this fits]
  have "rtally (fold merge_slot ?slots report_default) = sum_list (map tally ?slots)"
    by (simp only: rtally_default add_0)
  moreover have "length (run hist (ring_new len)) = len" using ring_holds_run [OF assms(1-3)] by simp
  ultimately show ?thesis by (simp only: ring_aggregate_def Let_def t)
qed

end

subsection \<open>What a finished flow adds\<close>

text \<open>A finished flow, as the flow store reports it, and its landing in a slot.\<close>

record terminal =
  tm_status :: flow_status
  tm_model :: "string option"
  tm_endpoint :: string
  tm_upstream :: "string option"
  tm_elapsed_ms :: nat
  tm_usage :: "flow_usage option"
  tm_attempts :: "attempt list"

definition tm_key :: "terminal \<Rightarrow> bucket_key" where
  "tm_key t = bucket_key_of (tm_status t) (tm_model t) (tm_endpoint t) (tm_upstream t)"

definition land_terminal :: "terminal \<Rightarrow> slot \<Rightarrow> slot" where
  "land_terminal t = slot_record_terminal (tm_key t) (real (tm_elapsed_ms t)) (tm_usage t) (tm_attempts t)"

definition replay_terminals :: "(nat \<times> terminal) list \<Rightarrow> 'tp metrics_state \<Rightarrow> 'tp metrics_state" where
  "replay_terminals hist s = fold (\<lambda>(e, t). record_terminal True e (tm_status t) (tm_model t) (tm_endpoint t)
     (tm_upstream t) (tm_elapsed_ms t) (tm_usage t) (tm_attempts t)) hist s"

definition counts_at :: "(bucket_key \<times> bucket_counts) list \<Rightarrow> bucket_key \<Rightarrow> bucket_counts" where
  "counts_at m k = (case obj_get m k of Some c \<Rightarrow> c | None \<Rightarrow> counts_default)"

lemma counts_at_update: "counts_at (entry_update k counts_default f m) k' =
    (if k' = k then f (counts_at m k) else counts_at m k')"
  by (simp add: counts_at_def entry_update_def obj_get_insert)

lemma counts_at_Nil [simp]: "counts_at [] k = counts_default"
  by (simp add: counts_at_def)

lemma counts_at_Cons: "counts_at ((k, c) # m) k' = (if k = k' then c else counts_at m k')"
  by (simp add: counts_at_def)

text \<open>Merging a list of counts with distinct keys merges, key by key, its counts.\<close>

lemma counts_at_fresh: "k \<notin> fst ` set m \<Longrightarrow> counts_at m k = counts_default"
  by (induction m) (auto simp: counts_at_Cons)

lemma counts_at_merge:
  assumes "distinct (map fst entries)"
  shows "counts_at (fold (\<lambda>(key, counts). entry_update key counts_default (counts_merge counts)) entries m) k
    = (if k \<in> fst ` set entries then counts_merge (counts_at entries k) (counts_at m k) else counts_at m k)"
  using assms
proof (induction entries arbitrary: m)
  case (Cons kc entries)
  obtain k' c where kc: "kc = (k', c)" by fastforce
  from Cons show ?case by (auto simp: kc counts_at_update counts_at_Cons)
qed simp

text \<open>A slot the layer writes: its keys are sorted and its histogram has its thirty buckets.\<close>

definition slot_ok :: "slot \<Rightarrow> bool" where
  "slot_ok s \<longleftrightarrow> obj_sorted (sl_buckets s) \<and> length (hg_buckets (sl_histogram s)) = histogram_buckets"

lemma slot_ok_fresh: "slot_ok slot_default" "slot_ok (slot_reset e s)"
  by (simp_all add: slot_ok_def slot_default_def slot_reset_def histogram_default_def obj_sorted_Nil)

lemma slot_ok_land: "slot_ok s \<Longrightarrow> slot_ok (land_terminal t s)"
  by (simp add: slot_ok_def land_terminal_def slot_record_terminal_def record_attempts_into_slot_def Let_def
      entry_update_def obj_sorted_insert histogram_record_def)

lemma epoch_land_terminal: "sl_epoch_s (land_terminal t s) = sl_epoch_s s"
  by (simp add: land_terminal_def slot_record_terminal_def record_attempts_into_slot_def Let_def)

lemma sat_add_fits: "a + b \<le> usize_max \<Longrightarrow> sat_add a b = a + b"
  by (simp add: sat_add_def)

lemma counts_merge_slot:
  assumes "slot_ok s"
  shows "counts_at (wr_buckets (merge_slot s r)) k = (if k \<in> fst ` set (sl_buckets s)
    then counts_merge (counts_at (sl_buckets s) k) (counts_at (wr_buckets r) k) else counts_at (wr_buckets r) k)"
  using assms
  by (simp add: merge_slot_def slot_ok_def obj_sorted_def strict_sorted_iff counts_at_merge)

lemma counts_land: "counts_at (sl_buckets (land_terminal t s)) k = (let c = counts_at (sl_buckets s) k in
    if tm_key t = k then (case tm_usage t of Some u \<Rightarrow> add_usage u (count_one c) | None \<Rightarrow> count_one c) else c)"
  by (simp add: land_terminal_def slot_record_terminal_def record_attempts_into_slot_def Let_def counts_at_update
      split: option.split)

lemma bucket_index_from_bound: "bucket_index_from v i < histogram_buckets"
  by (induction v i rule: bucket_index_from.induct)
    (subst bucket_index_from.simps, auto simp: histogram_buckets_def)

lemma bucket_index_bound: "bucket_index v < histogram_buckets"
  by (simp add: bucket_index_def bucket_index_from_bound)

subsection \<open>Every tally of a window\<close>

lemma fresh_fields: "sl_buckets slot_default = []" "sl_histogram slot_default = histogram_default"
  "sl_buckets (slot_reset e s) = []" "sl_histogram (slot_reset e s) = histogram_default"
  "wr_buckets report_default = []" "wr_histogram report_default = histogram_default"
  "bc_count counts_default = 0" "bc_usage_samples counts_default = 0"
  "hg_total histogram_default = 0" "hg_buckets histogram_default = replicate histogram_buckets 0"
  by (simp_all add: slot_default_def slot_reset_def report_default_def counts_default_def histogram_default_def)

lemma histogram_land: "sl_histogram (land_terminal t s) = histogram_record (real (tm_elapsed_ms t)) (sl_histogram s)"
  by (simp add: land_terminal_def slot_record_terminal_def record_attempts_into_slot_def Let_def)

lemma histogram_merge_slot: "wr_histogram (merge_slot s r) = histogram_merge (wr_histogram r) (sl_histogram s)"
  by (simp add: merge_slot_def)

lemmas tally_simps = slot_ok_fresh slot_ok_land epoch_land_terminal fresh_fields counts_land histogram_land
  histogram_merge_slot count_one_def add_usage_def sat_add_fits Let_def

interpretation flow_tally: window_tally land_terminal
  "\<lambda>s. bc_count (counts_at (sl_buckets s) k)" "\<lambda>t. if tm_key t = k then 1 else 0" slot_ok
  "\<lambda>r. bc_count (counts_at (wr_buckets r) k)" for k
proof
  fix s :: slot and r :: window_report assume "slot_ok s" and fits: "bc_count (counts_at (wr_buckets r) k) + bc_count (counts_at (sl_buckets s) k) \<le> usize_max"
  then show "bc_count (counts_at (wr_buckets (merge_slot s r)) k)
      = bc_count (counts_at (wr_buckets r) k) + bc_count (counts_at (sl_buckets s) k)"
    by (auto simp: counts_merge_slot counts_merge_def sat_add_fits counts_at_fresh fresh_fields)
qed (auto simp: tally_simps split: option.splits)

interpretation usage_tally: window_tally land_terminal
  "\<lambda>s. bc_usage_samples (counts_at (sl_buckets s) k)"
  "\<lambda>t. if tm_key t = k \<and> tm_usage t \<noteq> None then 1 else 0" slot_ok
  "\<lambda>r. bc_usage_samples (counts_at (wr_buckets r) k)" for k
proof
  fix s :: slot and r :: window_report assume "slot_ok s"
    and fits: "bc_usage_samples (counts_at (wr_buckets r) k) + bc_usage_samples (counts_at (sl_buckets s) k) \<le> usize_max"
  then show "bc_usage_samples (counts_at (wr_buckets (merge_slot s r)) k)
      = bc_usage_samples (counts_at (wr_buckets r) k) + bc_usage_samples (counts_at (sl_buckets s) k)"
    by (auto simp: counts_merge_slot counts_merge_def sat_add_fits counts_at_fresh fresh_fields)
qed (auto simp: tally_simps split: option.splits)

definition bucket_of :: "histogram \<Rightarrow> nat \<Rightarrow> nat" where
  "bucket_of h b = (if b < histogram_buckets then hg_buckets h ! b else 0)"

interpretation latency_tally: window_tally land_terminal
  "\<lambda>s. bucket_of (sl_histogram s) b"
  "\<lambda>t. if bucket_index (real (tm_elapsed_ms t)) = b then 1 else 0" slot_ok
  "\<lambda>r. bucket_of (wr_histogram r) b" for b
proof
  fix s :: slot and r :: window_report assume "slot_ok s" and "bucket_of (wr_histogram r) b + bucket_of (sl_histogram s) b \<le> usize_max"
  then show "bucket_of (wr_histogram (merge_slot s r)) b = bucket_of (wr_histogram r) b + bucket_of (sl_histogram s) b"
    by (auto simp: bucket_of_def tally_simps histogram_merge_def split: if_splits)
next
  fix s :: slot and t :: terminal assume "slot_ok s"
    and "bucket_of (sl_histogram s) b + (if bucket_index (real (tm_elapsed_ms t)) = b then 1 else 0) \<le> usize_max"
  then show "bucket_of (sl_histogram (land_terminal t s)) b
      = bucket_of (sl_histogram s) b + (if bucket_index (real (tm_elapsed_ms t)) = b then 1 else 0)"
    using bucket_index_bound [of "real (tm_elapsed_ms t)"]
    by (auto simp: bucket_of_def tally_simps histogram_record_def slot_ok_def nth_list_update)
qed (auto simp: tally_simps bucket_of_def)

interpretation total_tally: window_tally land_terminal "\<lambda>s. hg_total (sl_histogram s)" "\<lambda>t. 1" slot_ok
  "\<lambda>r. hg_total (wr_histogram r)"
  by unfold_locales (auto simp: tally_simps histogram_merge_def histogram_record_def)

subsection \<open>A window reports its flows\<close>

text \<open>What a window of \<open>len\<close> seconds has to report at second \<open>now\<close>, from the history of finished flows.\<close>

definition window_reports :: "nat \<Rightarrow> nat \<Rightarrow> (nat \<times> terminal) list \<Rightarrow> window_report \<Rightarrow> bool" where
  "window_reports len now hist r \<longleftrightarrow>
     (let recent = filter (\<lambda>(e, _). now < e + len) hist; flows = map snd recent in
      (\<forall>k. bc_count (counts_at (wr_buckets r) k) = length (filter (\<lambda>t. tm_key t = k) flows)
         \<and> bc_usage_samples (counts_at (wr_buckets r) k)
             = length (filter (\<lambda>t. tm_key t = k \<and> tm_usage t \<noteq> None) flows))
      \<and> (\<forall>b < histogram_buckets. hg_buckets (wr_histogram r) ! b
           = length (filter (\<lambda>t. bucket_index (real (tm_elapsed_ms t)) = b) flows))
      \<and> hg_total (wr_histogram r) = length flows)"

lemma total_indicator: "sum_list (map (\<lambda>(_, t). if P t then 1 else 0) xs) = length (filter P (map snd xs))"
  by (induction xs) auto

lemma total_length: "sum_list (map (\<lambda>(_, t). 1) xs) = length xs"
  by (induction xs) auto

lemma rings_of_replay:
  "mt_ring_1m (replay_terminals hist s) = flow_tally.run hist (mt_ring_1m s)"
  "mt_ring_5m (replay_terminals hist s) = flow_tally.run hist (mt_ring_5m s)"
  "mt_ring_1h (replay_terminals hist s) = flow_tally.run hist (mt_ring_1h s)"
  by (induction hist arbitrary: s)
    (auto simp: replay_terminals_def flow_tally.run_def record_terminal_def in_rings_def land_terminal_def
      tm_key_def)

lemma window_aggregates:
  assumes "sorted (map fst hist)" and "length hist \<le> usize_max" and "0 < len"
    and "\<forall>(e, _) \<in> set hist. e \<le> now"
  shows "window_reports len now hist (ring_aggregate now (flow_tally.run hist (ring_new len)))"
proof -
  have small: "length (filter P (map snd hist)) \<le> usize_max" for P :: "terminal \<Rightarrow> bool"
    by (simp add: filter_map le_trans [OF length_filter_le assms(2)])
  note F = flow_tally.aggregate_total [OF assms(1) _ assms(3,4), unfolded flow_tally.total_of_def total_indicator, OF small]
    and U = usage_tally.aggregate_total [OF assms(1) _ assms(3,4), unfolded usage_tally.total_of_def total_indicator, OF small]
    and L = latency_tally.aggregate_total [OF assms(1) _ assms(3,4), unfolded latency_tally.total_of_def total_indicator, OF small]
    and T = total_tally.aggregate_total [OF assms(1) _ assms(3,4), unfolded total_tally.total_of_def total_length, OF assms(2)]
  have "hg_buckets (wr_histogram (ring_aggregate now (latency_tally.run hist (ring_new len)))) ! b
      = length (filter (\<lambda>t. bucket_index (real (tm_elapsed_ms t)) = b)
          (map snd (filter (\<lambda>(e, _). now < e + len) hist)))" if "b < histogram_buckets" for b
    using L [of b] that by (simp only: bucket_of_def if_True)
  then show ?thesis by (simp add: window_reports_def Let_def F U T del: filter_filter)
qed

subsection \<open>Percentiles\<close>

text \<open>The edges of the buckets.\<close>

lemma edges_scale: "0 < ln (histogram_max_ms / histogram_min_ms)"
  by (simp add: histogram_max_ms_def histogram_min_ms_def)

lemma bucket_edge_mono: "i \<le> j \<Longrightarrow> bucket_edge i \<le> bucket_edge j"
  using edges_scale
  by (auto simp: bucket_edge_def histogram_buckets_def histogram_min_ms_def intro!: divide_right_mono)

lemma bucket_edge_pos: "0 < bucket_edge i"
  by (simp add: bucket_edge_def histogram_min_ms_def)

lemma bucket_edge_top: "bucket_edge (histogram_buckets - 2) = histogram_max_ms"
  by (simp add: bucket_edge_def histogram_buckets_def histogram_max_ms_def histogram_min_ms_def)

definition lower_edge :: "nat \<Rightarrow> real" where
  "lower_edge i = (if i = 0 then 0 else bucket_edge (i - 1))"

lemma bucket_lower_edge: "i < histogram_buckets \<Longrightarrow> bucket_lower_ms i = Some (lower_edge i)"
  by (auto simp: bucket_lower_ms_def bucket_upper_ms_def lower_edge_def)

lemma bucket_index_from_unfold:
  "histogram_buckets - 1 \<le> i \<Longrightarrow> bucket_index_from v i = histogram_buckets - 1"
  "i < histogram_buckets - 1 \<Longrightarrow> v \<le> bucket_edge i \<Longrightarrow> bucket_index_from v i = i"
  "i < histogram_buckets - 1 \<Longrightarrow> \<not> v \<le> bucket_edge i \<Longrightarrow> bucket_index_from v i = bucket_index_from v (Suc i)"
  by (simp_all add: bucket_index_from.simps [of v i])

text \<open>A value is in the bucket that the scan finds for it.\<close>

definition in_bucket :: "real \<Rightarrow> nat \<Rightarrow> bool" where
  "in_bucket v i \<longleftrightarrow> lower_edge i \<le> v \<and> (i < histogram_buckets - 1 \<longrightarrow> v \<le> bucket_edge i)"

lemma bucket_index_from_correct:
  "i \<le> histogram_buckets - 1 \<Longrightarrow> lower_edge i \<le> v \<Longrightarrow> in_bucket v (bucket_index_from v i)"
proof (induction v i rule: bucket_index_from.induct)
  case (1 v i)
  consider "i = histogram_buckets - 1" | "i < histogram_buckets - 1" "v \<le> bucket_edge i"
    | "i < histogram_buckets - 1" "\<not> v \<le> bucket_edge i"
    using 1 by linarith
  then show ?case
  proof cases
    case 3
    then have "in_bucket v (bucket_index_from v (Suc i))"
      by (intro "1.IH") (auto simp: lower_edge_def)
    with 3 show ?thesis by (simp add: bucket_index_from_unfold)
  qed (use 1 in \<open>simp_all add: bucket_index_from_unfold in_bucket_def\<close>)
qed

lemma bucket_index_correct: "in_bucket (max v 0) (bucket_index v)"
  by (simp add: bucket_index_def bucket_index_from_correct lower_edge_def)

text \<open>
  Where the walk of the quantile stops: at the first bucket that the target rank reaches, with a value
  between the edges of that bucket; the open bucket is read as its lower edge.
\<close>

definition value_in :: "real \<Rightarrow> nat \<Rightarrow> bool" where
  "value_in v i \<longleftrightarrow> lower_edge i \<le> v \<and> v \<le> (if i < histogram_buckets - 1 then bucket_edge i else lower_edge i)"

lemma interpolate:
  fixes lo hi f :: real
  assumes "lo \<le> hi"
  shows "lo \<le> lo + (hi - lo) * clamp01 f" and "lo + (hi - lo) * clamp01 f \<le> hi"
proof -
  have f: "0 \<le> clamp01 f" "clamp01 f \<le> 1" by (auto simp: clamp01_def)
  show "lo \<le> lo + (hi - lo) * clamp01 f" using assms f by simp
  show "lo + (hi - lo) * clamp01 f \<le> hi"
    using assms f mult_left_le [of "clamp01 f" "hi - lo"] by simp
qed

lemma lower_le_edge: "lower_edge i \<le> bucket_edge i"
  by (auto simp: lower_edge_def bucket_edge_mono less_imp_le [OF bucket_edge_pos])

lemma quantile_from_stops:
  assumes "target \<le> real (before + sum_list counts)" and "real before < target \<or> 0 < sum_list counts"
    and "i + length counts = histogram_buckets"
  shows "\<exists>j < length counts. 0 < counts ! j \<and> (real before < target \<longrightarrow> real (before + sum_list (take j counts)) < target)
    \<and> target \<le> real (before + sum_list (take (Suc j) counts))
    \<and> value_in (quantile_from target i before counts) (i + j)"
  using assms
proof (induction counts arbitrary: i before)
  case (Cons c counts)
  consider "c = 0" | "c \<noteq> 0" "target \<le> real (before + c)" | "c \<noteq> 0" "real (before + c) < target" by linarith
  then show ?case
  proof cases
    case 1
    with Cons.prems Cons.IH [of before "Suc i"] obtain j where "j < length counts" "0 < counts ! j"
      "real before < target \<longrightarrow> real (before + sum_list (take j counts)) < target"
      "target \<le> real (before + sum_list (take (Suc j) counts))"
      "value_in (quantile_from target (Suc i) before counts) (Suc i + j)" by auto
    with 1 show ?thesis by (intro exI [of _ "Suc j"]) auto
  next
    case 2
    have "i < histogram_buckets" using Cons.prems by simp
    with 2 have "value_in (quantile_from target i before (c # counts)) i"
      using interpolate [OF lower_le_edge]
      by (auto simp: value_in_def bucket_lower_edge bucket_upper_ms_def Let_def)
    with 2 show ?thesis by (intro exI [of _ 0]) auto
  next
    case 3
    with Cons.prems Cons.IH [of "before + c" "Suc i"] obtain j where "j < length counts" "0 < counts ! j"
      "real (before + c + sum_list (take j counts)) < target"
      "target \<le> real (before + c + sum_list (take (Suc j) counts))"
      "value_in (quantile_from target (Suc i) (before + c) counts) (Suc i + j)" by (auto simp: add.assoc)
    with 3 show ?thesis by (intro exI [of _ "Suc j"]) (auto simp: add.assoc)
  qed
qed simp

lemma lower_edge_mono: "i < j \<Longrightarrow> bucket_edge i \<le> lower_edge j"
  by (auto simp: lower_edge_def bucket_edge_mono)

lemma quantile_from_mono:
  assumes "target \<le> target'" and "target' \<le> real (before + sum_list counts)"
    and "i + length counts = histogram_buckets"
  shows "quantile_from target i before counts \<le> quantile_from target' i before counts"
  using assms(2,3)
proof (induction counts arbitrary: i before)
  case (Cons c counts)
  consider "c = 0" | "c \<noteq> 0" "target' \<le> real (before + c)" | "c \<noteq> 0" "target \<le> real (before + c)" "real (before + c) < target'"
    | "c \<noteq> 0" "real (before + c) < target" by linarith
  then show ?case
  proof cases
    case 2
    have "i < histogram_buckets" using Cons.prems by simp
    moreover have "max (target - real before) 0 / real c \<le> max (target' - real before) 0 / real c"
      using assms(1) 2 by (intro divide_right_mono) auto
    then have "clamp01 (max (target - real before) 0 / real c) \<le> clamp01 (max (target' - real before) 0 / real c)"
      by (auto simp: clamp01_def)
    ultimately show ?thesis
      using 2 assms(1) lower_le_edge [of i]
      by (auto simp: bucket_lower_edge bucket_upper_ms_def Let_def intro!: mult_left_mono)
  next
    case 3
    have "i < histogram_buckets - 1" using Cons.prems 3 by (cases counts) auto
    moreover from this have "quantile_from target i before (c # counts) \<le> bucket_edge i"
      using 3 interpolate(2) [OF lower_le_edge] by (auto simp: bucket_lower_edge bucket_upper_ms_def Let_def)
    moreover obtain j where "value_in (quantile_from target' (Suc i) (before + c) counts) (Suc i + j)"
      using quantile_from_stops [of target' "before + c" counts "Suc i"] Cons.prems 3 by (auto simp: add.assoc)
    ultimately show ?thesis
      using 3 lower_edge_mono [of i "Suc i + j"] by (auto simp: value_in_def)
  next
    case 4
    with assms(1) Cons show ?thesis by (auto simp: add.assoc)
  qed (use Cons in auto)
qed simp

text \<open>Finding the bucket is monotone, so ranks and buckets agree.\<close>

lemma bucket_index_from_ge: "i \<le> histogram_buckets - 1 \<Longrightarrow> i \<le> bucket_index_from v i"
proof (induction v i rule: bucket_index_from.induct)
  case (1 v i)
  consider "i = histogram_buckets - 1" | "i < histogram_buckets - 1" "v \<le> bucket_edge i"
    | "i < histogram_buckets - 1" "\<not> v \<le> bucket_edge i"
    using 1 by linarith
  then show ?case
    by cases (use 1 in \<open>auto simp: bucket_index_from_unfold\<close>)
qed

lemma bucket_index_from_mono: "u \<le> v \<Longrightarrow> bucket_index_from u i \<le> bucket_index_from v i"
proof (induction v i rule: bucket_index_from.induct)
  case (1 v i)
  consider "histogram_buckets - 1 \<le> i" | "i < histogram_buckets - 1" "u \<le> bucket_edge i"
    | "i < histogram_buckets - 1" "\<not> u \<le> bucket_edge i"
    by linarith
  then show ?case
  proof cases
    case 2
    then show ?thesis using bucket_index_from_ge [of i v] by (simp add: bucket_index_from_unfold)
  next
    case 3
    then show ?thesis using 1 by (simp add: bucket_index_from_unfold)
  qed (simp add: bucket_index_from_unfold)
qed

lemma bucket_index_mono: "u \<le> v \<Longrightarrow> bucket_index u \<le> bucket_index v"
  by (simp add: bucket_index_def bucket_index_from_mono max.coboundedI1)

lemma sorted_rank:
  "sorted xs \<Longrightarrow> mono f \<Longrightarrow> k < length xs
    \<Longrightarrow> f (xs ! k) < j \<longleftrightarrow> k < length (filter (\<lambda>x. f x < j) xs)" for f :: "nat \<Rightarrow> nat"
proof (induction xs arbitrary: k)
  case (Cons x xs)
  show ?case
  proof (cases "f x < j")
    case True
    with Cons show ?thesis by (cases k) auto
  next
    case False
    have "f x \<le> f y" if "y \<in> set (x # xs)" for y
      using Cons.prems that by (auto dest: monoD)
    with False have "\<forall>y \<in> set (x # xs). \<not> f y < j" by force
    moreover from this Cons.prems(3) have "\<not> f ((x # xs) ! k) < j" using nth_mem by blast
    ultimately show ?thesis by (simp add: filter_empty_conv)
  qed
qed simp

text \<open>The counts of the first buckets together count the values below a bucket.\<close>

lemma sum_first_buckets:
  "sum_list (take j (map (\<lambda>b. length (filter (\<lambda>x. f x = b) xs)) [0..<n])) = length (filter (\<lambda>x. f x < j) xs)"
  if "j \<le> n"
  using that
proof (induction j)
  case (Suc j)
  have "length (filter (\<lambda>x. f x < Suc j) xs) = length (filter (\<lambda>x. f x < j) xs) + length (filter (\<lambda>x. f x = j) xs)"
    by (induction xs) auto
  with Suc show ?case by (simp add: take_Suc_conv_app_nth)
qed simp

text \<open>The histogram of a list of latencies, and the latency of a rank in it.\<close>

definition histogram_of :: "nat list \<Rightarrow> histogram" where
  "histogram_of xs = \<lparr>hg_buckets = map (\<lambda>b. length (filter (\<lambda>x. bucket_index (real x) = b) xs)) [0..<histogram_buckets],
     hg_total = length xs\<rparr>"

definition ranked :: "real \<Rightarrow> nat list \<Rightarrow> nat" where
  "ranked q xs = sort xs ! (nat \<lceil>q * real (length xs)\<rceil> - 1)"

lemma histogram_of_total: "sum_list (hg_buckets (histogram_of xs)) = length xs"
  using sum_first_buckets [of histogram_buckets histogram_buckets "\<lambda>x. bucket_index (real x)" xs]
  by (simp add: histogram_of_def bucket_index_bound)

lemma length_filter_sort: "length (filter P (sort xs)) = length (filter P xs)"
  by (metis filter_sort length_sort)

lemma quantile_in_ranked_bucket:
  assumes q: "0 < q" "q \<le> 1" and ne: "xs \<noteq> []"
  shows "value_in (quantile (histogram_of xs) q) (bucket_index (real (ranked q xs)))"
proof -
  let ?h = "histogram_of xs" and ?t = "q * real (length xs)" and ?f = "\<lambda>x. bucket_index (real x)"
  have n: "0 < length xs" using ne by simp
  have t: "0 < ?t" "?t \<le> real (length xs)" using q n by (simp_all add: mult_left_le_one_le)
  have Q: "quantile ?h q = quantile_from ?t 0 0 (hg_buckets ?h)"
    using q n by (simp add: quantile_def histogram_of_def clamp01_def)
  have len: "length (hg_buckets ?h) = histogram_buckets" by (simp add: histogram_of_def)
  obtain j where j: "j < histogram_buckets" "real (sum_list (take j (hg_buckets ?h))) < ?t"
    "?t \<le> real (sum_list (take (Suc j) (hg_buckets ?h)))" "value_in (quantile ?h q) j"
    using quantile_from_stops [of ?t 0 "hg_buckets ?h" 0] t by (auto simp: histogram_of_total len Q)
  let ?c = "\<lambda>j. length (filter (\<lambda>x. ?f x < j) (sort xs))"
  have "sum_list (take i (hg_buckets ?h)) = ?c i" if "i \<le> histogram_buckets" for i
    using sum_first_buckets [OF that, of ?f xs] by (simp add: histogram_of_def length_filter_sort)
  then have c: "real (?c j) < ?t" "?t \<le> real (?c (Suc j))" using j by simp_all
  let ?k = "nat \<lceil>?t\<rceil> - 1"
  have k: "?c j \<le> ?k" "?k < ?c (Suc j)" "?k < length (sort xs)" using c t by simp_all linarith+
  have m: "mono ?f" by (rule monoI) (simp add: bucket_index_mono)
  have "?f (sort xs ! ?k) < i \<longleftrightarrow> ?k < ?c i" for i
    by (rule sorted_rank [OF sorted_sort m k(3)])
  from this [of j] this [of "Suc j"] k have "?f (sort xs ! ?k) = j" by simp
  with j(4) show ?thesis by (simp add: ranked_def)
qed

lemma quantile_mono:
  assumes "q \<le> q'"
  shows "quantile (histogram_of xs) q \<le> quantile (histogram_of xs) q'"
proof (cases "xs = []")
  case False
  have "clamp01 q * real (length xs) \<le> clamp01 q' * real (length xs)"
    using assms by (auto simp: clamp01_def intro!: mult_right_mono)
  moreover have "clamp01 q' * real (length xs) \<le> real (length xs)"
    by (auto simp: clamp01_def mult_left_le_one_le)
  ultimately have "quantile_from (clamp01 q * real (length xs)) 0 0 (hg_buckets (histogram_of xs))
      \<le> quantile_from (clamp01 q' * real (length xs)) 0 0 (hg_buckets (histogram_of xs))"
    by (intro quantile_from_mono) (simp_all only: histogram_of_total add_0, simp_all add: histogram_of_def)
  with False show ?thesis by (simp add: quantile_def) (simp add: histogram_of_def)
qed (simp add: quantile_def histogram_of_def)

lemma value_in_bounds: "value_in v i \<Longrightarrow> i < histogram_buckets \<Longrightarrow> 0 \<le> v \<and> v \<le> histogram_max_ms"
proof -
  assume v: "value_in v i" and i: "i < histogram_buckets"
  have "v \<le> bucket_edge (min i (histogram_buckets - 2))"
  proof (cases "i < histogram_buckets - 1")
    case False
    with i have "i = histogram_buckets - 1" by simp
    with v show ?thesis by (simp add: value_in_def lower_edge_def histogram_buckets_def)
  next
    case True
    then have "i \<le> histogram_buckets - 2" by linarith
    with v True show ?thesis by (simp add: value_in_def)
  qed
  also have "\<dots> \<le> histogram_max_ms"
    using bucket_edge_mono [of "min i (histogram_buckets - 2)" "histogram_buckets - 2"] bucket_edge_top by simp
  finally have "v \<le> histogram_max_ms" .
  moreover have "0 \<le> lower_edge i" by (auto simp: lower_edge_def less_imp_le [OF bucket_edge_pos])
  ultimately show ?thesis using v by (auto simp: value_in_def)
qed

text \<open>What a percentile report promises about the latencies it summarises.\<close>

definition percentiles_report :: "nat list \<Rightarrow> percentiles \<Rightarrow> bool" where
  "percentiles_report xs p \<longleftrightarrow>
     0 \<le> pc_p50 p \<and> pc_p50 p \<le> pc_p95 p \<and> pc_p95 p \<le> pc_p99 p \<and> pc_p99 p \<le> histogram_max_ms
     \<and> (xs = [] \<longrightarrow> p = percentiles_default)
     \<and> (xs \<noteq> [] \<longrightarrow> value_in (pc_p50 p) (bucket_index (real (ranked (50 / 100) xs)))
         \<and> value_in (pc_p95 p) (bucket_index (real (ranked (95 / 100) xs)))
         \<and> value_in (pc_p99 p) (bucket_index (real (ranked (99 / 100) xs))))"

lemma percentiles_of_report: "percentiles_report xs (percentiles_of (histogram_of xs))"
proof (cases "xs = []")
  case True
  then show ?thesis
    by (simp add: percentiles_report_def percentiles_of_def quantile_def histogram_of_def percentiles_default_def
        histogram_max_ms_def)
next
  case False
  then have v: "value_in (quantile (histogram_of xs) q) (bucket_index (real (ranked q xs)))" if "0 < q" "q \<le> 1" for q
    using that by (intro quantile_in_ranked_bucket)
  from False v [of "50 / 100"] v [of "95 / 100"] v [of "99 / 100"] show ?thesis
    using value_in_bounds [OF v [of "50 / 100"] bucket_index_bound] value_in_bounds [OF v [of "99 / 100"] bucket_index_bound]
      quantile_mono [of "50 / 100" "95 / 100" xs] quantile_mono [of "95 / 100" "99 / 100" xs]
    by (simp add: percentiles_report_def percentiles_of_def)
qed

lemma length_merged: "length (hg_buckets (wr_histogram r)) = histogram_buckets
    \<Longrightarrow> length (hg_buckets (wr_histogram (fold merge_slot slots r))) = histogram_buckets"
  by (induction slots arbitrary: r) (simp_all add: histogram_merge_slot histogram_merge_def)

text \<open>The latencies of the flows of a window.\<close>

definition flows_of :: "nat \<Rightarrow> nat \<Rightarrow> (nat \<times> terminal) list \<Rightarrow> nat list" where
  "flows_of len now hist = map (\<lambda>(_, t). tm_elapsed_ms t) (filter (\<lambda>(e, _). now < e + len) hist)"

lemma aggregate_histogram:
  assumes "window_reports len now hist (ring_aggregate now ring)"
  shows "wr_histogram (ring_aggregate now ring) = histogram_of (flows_of len now hist)"
proof -
  have "length (hg_buckets (wr_histogram (ring_aggregate now ring))) = histogram_buckets"
    by (simp add: ring_aggregate_def Let_def length_merged fresh_fields)
  then have "hg_buckets (wr_histogram (ring_aggregate now ring)) = hg_buckets (histogram_of (flows_of len now hist))"
    using assms by (intro nth_equalityI)
      (simp_all add: flows_of_def histogram_of_def window_reports_def Let_def filter_map o_def case_prod_unfold)
  then show ?thesis using assms
    by (intro histogram.equality) (simp_all add: flows_of_def histogram_of_def window_reports_def Let_def)
qed

lemma aggregate_percentiles:
  "window_reports len now hist (ring_aggregate now ring)
    \<Longrightarrow> percentiles_report (flows_of len now hist) (report_percentiles (ring_aggregate now ring))"
  by (simp add: report_percentiles_def aggregate_histogram percentiles_of_report)

subsection \<open>The windows of the layer\<close>

lemma windows_of_view:
  assumes "sorted (map fst hist)" and "length hist \<le> usize_max" and "list_all (\<lambda>(e, _). e \<le> now) hist"
    and v: "v = metrics_view_at now (replay_terminals hist (metrics_state_new quota))"
  shows "window_reports window_1m_slots now hist (mv_1m v)"
    and "window_reports window_5m_slots now hist (mv_5m v)"
    and "window_reports window_1h_slots now hist (mv_1h v)"
proof -
  have le: "\<forall>(e, _) \<in> set hist. e \<le> now" using assms(3) by (auto simp: list_all_iff)
  note W = window_aggregates [OF assms(1,2) _ le]
  show "window_reports window_1m_slots now hist (mv_1m v)" "window_reports window_5m_slots now hist (mv_5m v)"
    "window_reports window_1h_slots now hist (mv_1h v)"
    using W [of window_1m_slots] W [of window_5m_slots] W [of window_1h_slots]
    by (simp_all add: v metrics_view_at_def Let_def rings_of_replay metrics_state_new_def
        window_1m_slots_def window_5m_slots_def window_1h_slots_def)
qed

lemma seq_of_replay: "length hist \<le> usize_max
    \<Longrightarrow> mt_seq (replay_terminals hist (metrics_state_new quota)) = length hist"
proof (induction hist rule: rev_induct)
  case (snoc ex hist)
  then show ?case
    by (cases ex) (simp add: replay_terminals_def record_terminal_def in_rings_def sat_add_fits)
qed (simp add: replay_terminals_def metrics_state_new_def)

text \<open>
  C33: Windows. When finished flows were recorded with clocks that never ran backwards, the view at a
  second reports for the last minute, five minutes and hour exactly the flows that ended within 60, 300
  and 3600 seconds: how many per status, model, endpoint and upstream, how many of those with usage, how
  many in each latency bucket, and how many altogether, whatever else the rings held before; and the
  cursor counts every flow recorded.
\<close>

theorem windows_report_their_flows:
  assumes "sorted (map fst hist)" and "length hist \<le> usize_max" and "list_all (\<lambda>(e, _). e \<le> now) hist"
  shows "(let s = replay_terminals hist (metrics_state_new quota); v = metrics_view_at now s in
      window_reports window_1m_slots now hist (mv_1m v) \<and> window_reports window_5m_slots now hist (mv_5m v)
      \<and> window_reports window_1h_slots now hist (mv_1h v) \<and> metrics_seq True s = length hist)"
  using windows_of_view [OF assms refl, of quota] seq_of_replay [OF assms(2), of quota]
  by (simp add: Let_def metrics_seq_def)

definition sample_terminal :: "flow_status \<Rightarrow> nat \<Rightarrow> terminal" where
  "sample_terminal status ms = \<lparr>tm_status = status, tm_model = Some ''m'', tm_endpoint = ''/v1'', tm_upstream = None,
     tm_elapsed_ms = ms, tm_usage = None, tm_attempts = []\<rparr>"

definition sample_history :: "(nat \<times> terminal) list" where
  "sample_history = [(10, sample_terminal FlowCompleted 5), (65, sample_terminal FlowFailed 9),
     (70, sample_terminal FlowCompleted 7)]"

lemma sample_history_fits: "sorted (map fst sample_history)" "length sample_history \<le> usize_max"
  "list_all (\<lambda>(e, _). e \<le> 75) sample_history"
  by (simp_all add: sample_history_def usize_max_def)

lemma windows_report_their_flows_witness:
  "hg_total (wr_histogram (mv_1m (metrics_view_at 75
      (replay_terminals sample_history (metrics_state_new 1000 :: nat metrics_state))))) = 2
   \<and> metrics_seq True (replay_terminals sample_history (metrics_state_new 1000 :: nat metrics_state)) = 3"
  using windows_report_their_flows [OF sample_history_fits, where quota = 1000 and 'a = nat]
  by (auto simp: Let_def window_reports_def sample_history_def window_1m_slots_def)

text \<open>
  C34: Percentiles. For the same histories, the percentiles of each window are ordered, lie between zero
  and two minutes, are zero for an empty window, and otherwise each falls in the very bucket that holds the
  exact percentile of the latencies of the flows of that window, a bucket open at the top being read as its
  lower edge.
\<close>

theorem percentiles_accurate:
  assumes "sorted (map fst hist)" and "length hist \<le> usize_max" and "list_all (\<lambda>(e, _). e \<le> now) hist"
  shows "(let v = metrics_view_at now (replay_terminals hist (metrics_state_new quota)) in
      percentiles_report (flows_of window_1m_slots now hist) (mv_percentiles_1m v)
      \<and> percentiles_report (flows_of window_5m_slots now hist) (mv_percentiles_5m v)
      \<and> percentiles_report (flows_of window_1h_slots now hist) (mv_percentiles_1h v))"
  using windows_of_view [OF assms refl, of quota] unfolding Let_def metrics_view_at_def
  by (auto intro: aggregate_percentiles)

lemma percentiles_accurate_witness:
  "percentiles_report [9, 7] (mv_percentiles_1m (metrics_view_at 75
      (replay_terminals sample_history (metrics_state_new 1000 :: nat metrics_state))))"
  using percentiles_accurate [OF sample_history_fits, where quota = 1000 and 'a = nat]
  by (simp add: Let_def flows_of_def sample_history_def sample_terminal_def window_1m_slots_def)

subsection \<open>Time travel\<close>

text \<open>Dropping from the front until a condition holds leaves the longest suffix with it.\<close>

fun drop_until :: "('a list \<Rightarrow> bool) \<Rightarrow> 'a list \<Rightarrow> 'a list" where
  "drop_until P [] = []"
| "drop_until P (x # xs) = (if P (x # xs) then x # xs else drop_until P xs)"

definition longest_suffix :: "('a list \<Rightarrow> bool) \<Rightarrow> 'a list \<Rightarrow> 'a list \<Rightarrow> bool" where
  "longest_suffix P l c \<longleftrightarrow> suffix c l \<and> P c \<and> (\<forall>c'. suffix c' l \<and> P c' \<longrightarrow> length c' \<le> length c)"

lemma drop_until_longest: "P [] \<Longrightarrow> longest_suffix P l (drop_until P l)"
proof (induction l)
  case (Cons x l)
  then show ?case
    by (auto simp: longest_suffix_def suffix_Cons dest: suffix_length_le)
qed (simp add: longest_suffix_def)

lemma drop_until_under: "(\<And>x xs. P (x # xs) \<Longrightarrow> P xs) \<Longrightarrow> P l \<Longrightarrow> drop_until (\<lambda>l. P l \<and> Q l) l = drop_until Q l"
  by (induction l) auto

lemma drop_until_drop_until: "(\<And>x xs. P (x # xs) \<Longrightarrow> P xs) \<Longrightarrow> drop_until Q (drop_until P l) = drop_until (\<lambda>l. P l \<and> Q l) l"
proof (induction l)
  case (Cons x l)
  then show ?case using drop_until_under [of P "x # l" Q] by (cases "P (x # l)") simp_all
qed simp

lemma drop_until_snoc: "(\<And>l. P (l @ [x]) \<Longrightarrow> P l) \<Longrightarrow> drop_until P (drop_until P l @ [x]) = drop_until P (l @ [x])"
  by (induction l) auto

text \<open>The bytes kept are those of the cuts, and the pops drop_until the ring.\<close>

definition bytes_of :: "mem_sizes \<Rightarrow> 'tp dashboard_snapshot list \<Rightarrow> nat" where
  "bytes_of M cuts = sum_list (map (snapshot_bytes M) cuts)"

definition ring_exact :: "mem_sizes \<Rightarrow> 'tp snapshot_ring \<Rightarrow> bool" where
  "ring_exact M g \<longleftrightarrow> sg_retained_bytes g = bytes_of M (sg_cuts g)"

lemma pop_while_drop_until:
  assumes "ring_exact M g"
    and "\<And>g'. ring_exact M g' \<Longrightarrow> sg_quota_bytes g' = sg_quota_bytes g \<Longrightarrow> over g' \<longleftrightarrow> \<not> P (sg_cuts g')"
  shows "ring_exact M (pop_while M over g) \<and> sg_cuts (pop_while M over g) = drop_until P (sg_cuts g)
    \<and> sg_quota_bytes (pop_while M over g) = sg_quota_bytes g"
  using assms
proof (induction M over g rule: pop_while.induct)
  case (1 M over g)
  show ?case
  proof (cases "sg_cuts g")
    case Nil
    with 1 show ?thesis by (simp add: pop_while.simps [of M over g])
  next
    case (Cons old cuts)
    have e: "ring_exact M (pop_oldest_cut M g)" "sg_cuts (pop_oldest_cut M g) = cuts"
      "sg_quota_bytes (pop_oldest_cut M g) = sg_quota_bytes g"
      using 1(2) Cons by (simp_all add: ring_exact_def pop_oldest_cut_def bytes_of_def sat_sub_def)
    have over: "over g \<longleftrightarrow> \<not> P (old # cuts)" using 1(2) 1(3) [of g] Cons by simp
    show ?thesis
    proof (cases "over g")
      case True
      from 1(1) [OF _ e(1)] True Cons 1(3) e over show ?thesis
        by (simp add: pop_while.simps [of M over g])
    next
      case False
      with over Cons 1(2) show ?thesis by (simp add: pop_while.simps [of M over g])
    qed
  qed
qed

text \<open>What a ring may keep: at most 720 cuts, and no more bytes than its quota unless it is one cut.\<close>

definition cuts_fit :: "mem_sizes \<Rightarrow> nat \<Rightarrow> 'tp dashboard_snapshot list \<Rightarrow> bool" where
  "cuts_fit M quota cuts \<longleftrightarrow> length cuts \<le> snapshot_ring_slots
     \<and> (bytes_of M cuts \<le> quota \<or> length cuts \<le> 1)"

lemma snapshot_push_drop_until:
  assumes "ring_exact M g" and "bytes_of M (sg_cuts g @ [d]) \<le> usize_max"
  shows "ring_exact M (snapshot_push M d g) \<and> sg_quota_bytes (snapshot_push M d g) = sg_quota_bytes g
    \<and> sg_cuts (snapshot_push M d g) = drop_until (cuts_fit M (sg_quota_bytes g)) (sg_cuts g @ [d])"
proof -
  let ?g1 = "g\<lparr>sg_retained_bytes := sat_add (sg_retained_bytes g) (snapshot_bytes M d), sg_cuts := sg_cuts g @ [d]\<rparr>"
  let ?P = "\<lambda>cuts. length cuts \<le> snapshot_ring_slots"
  let ?Q = "\<lambda>cuts. bytes_of M cuts \<le> sg_quota_bytes g \<or> length cuts \<le> 1"
  let ?g2 = "pop_while M (\<lambda>g. snapshot_ring_slots < length (sg_cuts g)) ?g1"
  have "ring_exact M ?g1" using assms by (simp add: ring_exact_def bytes_of_def sat_add_fits)
  then have g2: "ring_exact M ?g2 \<and> sg_cuts ?g2 = drop_until ?P (sg_cuts ?g1) \<and> sg_quota_bytes ?g2 = sg_quota_bytes ?g1"
    by (rule pop_while_drop_until) auto
  then have "ring_exact M (pop_while M (\<lambda>g. sg_quota_bytes g < sg_retained_bytes g \<and> 1 < length (sg_cuts g)) ?g2)
      \<and> sg_cuts (pop_while M (\<lambda>g. sg_quota_bytes g < sg_retained_bytes g \<and> 1 < length (sg_cuts g)) ?g2)
        = drop_until ?Q (sg_cuts ?g2)
      \<and> sg_quota_bytes (pop_while M (\<lambda>g. sg_quota_bytes g < sg_retained_bytes g \<and> 1 < length (sg_cuts g)) ?g2)
        = sg_quota_bytes ?g2"
    by (intro pop_while_drop_until) (auto simp: ring_exact_def)
  with g2 show ?thesis
    using drop_until_drop_until [of ?P ?Q "sg_cuts g @ [d]"]
    by (simp add: snapshot_push_def Let_def cuts_fit_def [abs_def])
qed

lemma bytes_of_append: "bytes_of M (a @ b) = bytes_of M a + bytes_of M b"
  by (simp add: bytes_of_def)

lemma bytes_of_suffix: "suffix c l \<Longrightarrow> bytes_of M c \<le> bytes_of M l"
  by (auto simp: suffix_def bytes_of_append)

lemma cuts_fit_Nil: "cuts_fit M quota []"
  by (simp add: cuts_fit_def)

lemma cuts_fit_snoc: "cuts_fit M quota (l @ [d]) \<Longrightarrow> cuts_fit M quota l"
  by (auto simp: cuts_fit_def bytes_of_append)

lemma pushes_drop_until:
  "bytes_of M snaps \<le> usize_max \<Longrightarrow> ring_exact M (fold (snapshot_push M) snaps (snapshot_ring_new quota))
    \<and> sg_quota_bytes (fold (snapshot_push M) snaps (snapshot_ring_new quota)) = quota
    \<and> sg_cuts (fold (snapshot_push M) snaps (snapshot_ring_new quota)) = drop_until (cuts_fit M quota) snaps"
proof (induction snaps rule: rev_induct)
  case (snoc d snaps)
  let ?g = "fold (snapshot_push M) snaps (snapshot_ring_new quota)"
  have g: "ring_exact M ?g" "sg_quota_bytes ?g = quota" "sg_cuts ?g = drop_until (cuts_fit M quota) snaps"
    using snoc by (auto simp: bytes_of_append)
  have "suffix (drop_until (cuts_fit M quota) snaps) snaps"
    using drop_until_longest [of "cuts_fit M quota" snaps] by (simp add: longest_suffix_def cuts_fit_Nil)
  then have "bytes_of M (sg_cuts ?g @ [d]) \<le> usize_max"
    using snoc.prems bytes_of_suffix [of "sg_cuts ?g" snaps M] by (simp add: bytes_of_append g)
  from snapshot_push_drop_until [OF g(1) this] g show ?case
    by (simp add: drop_until_snoc cuts_fit_snoc)
qed (simp add: snapshot_ring_new_def ring_exact_def bytes_of_def)

text \<open>The binary search: everything before the open range is taken, everything after it is later.\<close>

lemma search_cut_correct:
  assumes "lo \<le> hi" and "hi \<le> length cuts"
    and "\<forall>i < lo. ds_taken_at_ms (cuts ! i) \<le> ts" and "\<forall>i. hi \<le> i \<and> i < length cuts \<longrightarrow> ts < ds_taken_at_ms (cuts ! i)"
    and "best = (if lo = 0 then None else Some (lo - 1))"
    and "sorted (map ds_taken_at_ms cuts)"
  shows "\<exists>n \<le> length cuts. search_cut cuts ts lo hi best = (if n = 0 then None else Some (n - 1))
    \<and> (\<forall>i < length cuts. ds_taken_at_ms (cuts ! i) \<le> ts \<longleftrightarrow> i < n)"
  using assms
proof (induction cuts ts lo hi best rule: search_cut.induct)
  case (1 cuts ts lo hi best)
  show ?case
  proof (cases "lo < hi")
    case True
    define mid where "mid = lo + (hi - lo) div 2"
    have mid: "lo \<le> mid" "mid < hi" using True by (auto simp: mid_def)
    have srt: "ds_taken_at_ms (cuts ! i) \<le> ds_taken_at_ms (cuts ! j)" if "i \<le> j" "j < length cuts" for i j
      using sorted_nth_mono [OF "1.prems"(6), of i j] that by simp
    have step: "search_cut cuts ts lo hi best = (if ds_taken_at_ms (cuts ! mid) \<le> ts
        then search_cut cuts ts (mid + 1) hi (Some mid) else search_cut cuts ts lo mid best)"
      using True by (simp add: search_cut.simps [of cuts ts lo hi best] mid_def Let_def)
    show ?thesis
    proof (cases "ds_taken_at_ms (cuts ! mid) \<le> ts")
      case t: True
      have "ds_taken_at_ms (cuts ! i) \<le> ts" if "i < mid + 1" for i
        using srt [of i mid] t mid(2) "1.prems"(2) that by simp
      with "1.IH"(1) [OF True mid_def t] "1.prems"(2,4,6) mid show ?thesis by (simp add: step t)
    next
      case f: False
      have "ts < ds_taken_at_ms (cuts ! i)" if "mid \<le> i \<and> i < length cuts" for i
        using srt [of mid i] f that by simp
      with "1.IH"(2) [OF True mid_def f] "1.prems"(2,3,5,6) mid
      show ?thesis unfolding step if_not_P [OF f] by auto
    qed
  next
    case False
    then have "search_cut cuts ts lo hi best = best" by (simp add: search_cut.simps [of cuts ts lo hi best])
    with False "1.prems" show ?thesis
      by (intro exI [of _ lo]) (auto simp: not_less)
  qed
qed

lemma filter_prefix:
  "n \<le> length xs \<Longrightarrow> (\<And>i. i < length xs \<Longrightarrow> P (xs ! i) \<longleftrightarrow> i < n) \<Longrightarrow> filter P xs = take n xs"
proof -
  assume n: "n \<le> length xs" and P: "\<And>i. i < length xs \<Longrightarrow> P (xs ! i) \<longleftrightarrow> i < n"
  have "P x" if x: "x \<in> set (take n xs)" for x
  proof -
    from x obtain i where "i < n" "x = xs ! i" using n by (auto simp: in_set_conv_nth)
    with P [of i] n show ?thesis by simp
  qed
  moreover have "\<not> P x" if x: "x \<in> set (drop n xs)" for x
  proof -
    from x obtain i where "i < length xs - n" "x = xs ! (n + i)" using n by (auto simp: in_set_conv_nth)
    then have "n + i < length xs" "x = xs ! (n + i)" by simp_all
    with P [of "n + i"] show ?thesis by simp
  qed
  ultimately have "filter P (take n xs @ drop n xs) = take n xs"
    by (simp add: filter_id_conv filter_empty_conv del: append_take_drop_id)
  then show ?thesis by simp
qed

lemma snapshot_at_newest:
  assumes "sorted (map ds_taken_at_ms (sg_cuts g))"
  shows "ring_snapshot_at ts g = (let past = filter (\<lambda>d. ds_taken_at_ms d \<le> ts) (sg_cuts g) in
    if past = [] then None else Some (last past))"
proof -
  let ?cuts = "sg_cuts g"
  obtain n where n: "n \<le> length ?cuts"
    "search_cut ?cuts ts 0 (length ?cuts) None = (if n = 0 then None else Some (n - 1))"
    "\<forall>i < length ?cuts. ds_taken_at_ms (?cuts ! i) \<le> ts \<longleftrightarrow> i < n"
    using search_cut_correct [of 0 "length ?cuts" ?cuts ts None] assms by auto
  then have "filter (\<lambda>d. ds_taken_at_ms d \<le> ts) ?cuts = take n ?cuts" by (intro filter_prefix) auto
  with n show ?thesis
    by (cases "?cuts = []") (auto simp: ring_snapshot_at_def Let_def last_conv_nth)
qed

text \<open>
  C35: Time travel. After any snapshots, taken with a clock that never ran backwards and of sizes that sum
  below 2^64, the ring keeps the longest run of the latest ones that fits, that is at most 720 and within
  the quota unless it is one snapshot; its account of the bytes kept is exact; and asking for an instant
  returns, by binary search, the newest snapshot kept that was not taken after it, or nothing when there
  is none.
\<close>

theorem time_travel:
  assumes "sorted (map ds_taken_at_ms snaps)" and "sum_list (map (snapshot_bytes M) snaps) \<le> usize_max"
  shows "(let g = fold (snapshot_push M) snaps (snapshot_ring_new quota);
         past = filter (\<lambda>d. ds_taken_at_ms d \<le> ts) (sg_cuts g)
      in longest_suffix (cuts_fit M quota) snaps (sg_cuts g)
         \<and> sg_retained_bytes g = sum_list (map (snapshot_bytes M) (sg_cuts g))
         \<and> ring_snapshot_at ts g = (if past = [] then None else Some (last past)))"
proof -
  let ?g = "fold (snapshot_push M) snaps (snapshot_ring_new quota)"
  have g: "ring_exact M ?g" "sg_cuts ?g = drop_until (cuts_fit M quota) snaps"
    using pushes_drop_until [of M snaps quota] assms(2) by (simp_all add: bytes_of_def)
  have l: "longest_suffix (cuts_fit M quota) snaps (sg_cuts ?g)"
    unfolding g(2) by (rule drop_until_longest) (rule cuts_fit_Nil)
  then obtain older where "snaps = older @ sg_cuts ?g" by (auto simp: longest_suffix_def suffix_def)
  then have "sorted (map ds_taken_at_ms (older @ sg_cuts ?g))" using assms(1) by simp
  then have "sorted (map ds_taken_at_ms (sg_cuts ?g))" unfolding map_append sorted_append by blast
  from snapshot_at_newest [OF this] l g(1) show ?thesis
    by (simp add: Let_def ring_exact_def bytes_of_def)
qed

definition sample_sizes :: mem_sizes where
  "sample_sizes = \<lparr>ms_histogram = 0, ms_bucket_key = 0, ms_bucket_counts = 0, ms_string = 0, ms_provider_sample = 0,
     ms_summary = 0, ms_topology = 10\<rparr>"

definition sample_cut :: "nat \<Rightarrow> unit dashboard_snapshot" where
  "sample_cut t = \<lparr>ds_taken_at_ms = t, ds_cursors = \<lparr>dc_flow_seq = 0, dc_metrics_seq = 0, dc_topology_seq = 0,
     dc_monitor_seq = 0\<rparr>, ds_summaries = [], ds_metrics = view_default, ds_topology = ()\<rparr>"

lemma sample_cut_bytes: "snapshot_bytes sample_sizes (sample_cut t) = 10"
  by (simp add: snapshot_bytes_def sample_cut_def view_bytes_def window_bytes_def view_default_def
      report_default_def sample_sizes_def sat_add_def usize_max_def)

lemma time_travel_witness:
  "longest_suffix (cuts_fit sample_sizes 25) [sample_cut 1, sample_cut 4, sample_cut 9]
     (sg_cuts (fold (snapshot_push sample_sizes) [sample_cut 1, sample_cut 4, sample_cut 9] (snapshot_ring_new 25)))"
  using time_travel [of "[sample_cut 1, sample_cut 4, sample_cut 9]" sample_sizes 25 5]
  by (simp add: sample_cut_bytes usize_max_def Let_def) (simp add: sample_cut_def)

end
