(* ===== verification/Config_Load.thy ===== *)
theory Config_Load
  imports Profiles Sse_Guard Dashboard_Auth
begin

text \<open>
  From the configuration file, the environment and the command line to the configuration of the gateway
  (\<^verbatim>\<open>src/src/config.rs\<close>): the persisted form and its defaults, the overrides of the environment, the ad-hoc
  model routes, the prices, and the validation that turns them into \<^verbatim>\<open>Config\<close>. The parsers of YAML, TOML,
  JSON, URLs, socket addresses and regular expressions and the derived decoders are parameters; a URL
  is the text the parser gives it. Durations are in nanoseconds.
\<close>

text \<open>\<^verbatim>\<open>Result::map_err\<close>.\<close>

fun map_err :: "('e \<Rightarrow> 'd) \<Rightarrow> 'e + 'a \<Rightarrow> 'd + 'a" where
  "map_err f (Inl err) = Inl (f err)"
| "map_err f (Inr x) = Inr x"

subsection \<open>Prices\<close>

record model_price =
  pz_input_per_1k :: f64
  pz_output_per_1k :: f64
  pz_cached_per_1k :: f64
  pz_cached_price_configured :: bool

definition price_new :: "f64 \<Rightarrow> f64 \<Rightarrow> f64 \<Rightarrow> model_price" where
  "price_new input outp cached = \<lparr>pz_input_per_1k = input, pz_output_per_1k = outp,
     pz_cached_per_1k = cached, pz_cached_price_configured = True\<rparr>"

definition price_without_cached :: "f64 \<Rightarrow> f64 \<Rightarrow> model_price" where
  "price_without_cached input outp = \<lparr>pz_input_per_1k = input, pz_output_per_1k = outp,
     pz_cached_per_1k = 0, pz_cached_price_configured = False\<rparr>"

text \<open>A float is finite when its eleven exponent bits are not all ones.\<close>

definition f64_is_finite :: "f64 \<Rightarrow> bool" where
  "f64_is_finite x \<longleftrightarrow> unat (drop_bit 52 x) mod 2048 \<noteq> 2047"

definition price_is_finite :: "model_price \<Rightarrow> bool" where
  "price_is_finite p \<longleftrightarrow> f64_is_finite (pz_input_per_1k p) \<and> f64_is_finite (pz_output_per_1k p)
     \<and> f64_is_finite (pz_cached_per_1k p)"

text \<open>The raw fields the derived decoder reads, and the price made of them.\<close>

record raw_price =
  rz_input_per_1k :: f64
  rz_output_per_1k :: f64
  rz_cached_per_1k :: "f64 option"
  rz_cached_price_configured :: "bool option"

definition price_of_raw :: "raw_price \<Rightarrow> model_price" where
  "price_of_raw raw = \<lparr>pz_input_per_1k = rz_input_per_1k raw, pz_output_per_1k = rz_output_per_1k raw,
     pz_cached_per_1k = (case rz_cached_per_1k raw of Some c \<Rightarrow> c | None \<Rightarrow> 0),
     pz_cached_price_configured = (case rz_cached_price_configured raw of
       Some b \<Rightarrow> b | None \<Rightarrow> rz_cached_per_1k raw \<noteq> None)\<rparr>"

text \<open>The table in the order the hash map iterates.\<close>

type_synonym price_table = "(string \<times> model_price) list"

definition retain_finite_prices :: "price_table \<Rightarrow> price_table" where
  "retain_finite_prices table = filter (\<lambda>(_, p). price_is_finite p) table"

definition price_for :: "price_table \<Rightarrow> string \<Rightarrow> model_price option" where
  "price_for table model = map_option snd (lookup_named table model)"

subsection \<open>Model routes\<close>

record persisted_model_route =
  pr_route_base_url :: "string option"
  pr_route_upstream_model :: "string option"

datatype raw_model_route =
    RouteUrl string
  | RouteTable (rt_upstream_base_url: "string option") (rt_url: "string option")
      (rt_upstream_model: "string option") (rt_model: "string option")

definition route_of_raw :: "raw_model_route \<Rightarrow> persisted_model_route" where
  "route_of_raw raw = (case raw of
      RouteUrl url \<Rightarrow> \<lparr>pr_route_base_url = Some url, pr_route_upstream_model = None\<rparr>
    | RouteTable base url upstream model \<Rightarrow>
        \<lparr>pr_route_base_url = or_keep base url, pr_route_upstream_model = or_keep upstream model\<rparr>)"

type_synonym ordered_model_routes = "(string \<times> persisted_model_route) list"

text \<open>\<^verbatim>\<open>upsert\<close>: the first route of the same name, but for blanks and case, is replaced in place.\<close>

definition same_route_name :: "string \<Rightarrow> string \<Rightarrow> bool" where
  "same_route_name a b = eq_ignore_ascii_case (trim a) (trim b)"

fun upsert :: "string \<Rightarrow> persisted_model_route \<Rightarrow> ordered_model_routes \<Rightarrow> ordered_model_routes" where
  "upsert name route [] = [(name, route)]"
| "upsert name route ((n, r) # routes) =
     (if same_route_name n name then (name, route) # routes else (n, r) # upsert name route routes)"

text \<open>A map in the file, entry by entry in document order, and the map written back.\<close>

definition routes_of_entries :: "(string \<times> persisted_model_route) list \<Rightarrow> ordered_model_routes" where
  "routes_of_entries entries = fold (\<lambda>(name, route). upsert name route) entries []"

definition routes_to_entries :: "ordered_model_routes \<Rightarrow> (string \<times> persisted_model_route) list" where
  "routes_to_entries routes = routes"

subsection \<open>Profiles in the file\<close>

text \<open>The derived decoder collects every key it has no field for, and also those with one.\<close>

record raw_model_profile = persisted_model_profile +
  shorthand_upstream_chat_kwargs :: json_map

definition profile_field_names :: "string list" where
  "profile_field_names = [''template_family'', ''native_vision'', ''reasoning_effort_map'',
     ''reasoning_effort_default'', ''reasoning_effort'', ''roles'', ''capabilities'']"

definition profile_of_raw :: "raw_model_profile \<Rightarrow> persisted_model_profile" where
  "profile_of_raw raw = (persisted_model_profile.truncate raw)
     \<lparr>pp_upstream_chat_kwargs := merge_json_maps
        (fold obj_remove profile_field_names (shorthand_upstream_chat_kwargs raw)) (pp_upstream_chat_kwargs raw)\<rparr>"

subsection \<open>The persisted configuration\<close>

record persisted_fallback_upstream =
  pfu_name :: "string option"
  pfu_upstream_base_url :: string
  pfu_upstream_api_key :: "string option"
  pfu_upstream_model :: "string option"
  pfu_exposed_model :: "string option"
  pfu_upstream_chat_kwargs :: json_map
  pfu_upstream_request_log_path :: "string option"

record persisted_upstream =
  pu_name :: "string option"
  pu_upstream_base_url :: string
  pu_upstream_api_key :: "string option"
  pu_upstream_model :: "string option"
  pu_upstream_chat_kwargs :: json_map
  pu_upstream_request_log_path :: "string option"
  pu_fallback_upstreams :: "persisted_fallback_upstream list"

record persisted_config =
  pf_bind_addr :: string
  pf_upstream_base_url :: string
  pf_upstream_api_key :: "string option"
  pf_upstream_model :: "string option"
  pf_system_prompt_prefix :: "string option"
  pf_upstream_request_log_path :: "string option"
  pf_turn_capture_dir :: "string option"
  pf_upstream_chat_kwargs :: json_map
  pf_upstreams :: "persisted_upstream list"
  pf_fallback_upstreams :: "persisted_fallback_upstream list"
  pf_upstream_failure_cooldown_secs :: nat
  pf_model_profile_templates :: templates
  pf_model_profiles :: "(string \<times> persisted_model_profile) list"
  pf_model_routes :: ordered_model_routes
  pf_template_family :: "string option"
  pf_brave_base_url :: string
  pf_brave_api_key :: "string option"
  pf_brave_max_results :: nat
  pf_request_timeout_secs :: nat
  pf_connect_timeout_secs :: nat
  pf_max_web_search_rounds :: nat
  pf_flatten_content :: bool
  pf_max_replay_entries :: nat
  pf_debug_log_max_age_hours :: "nat option"
  pf_min_completion_tokens :: int
  pf_max_sse_frame_bytes :: nat
  pf_max_request_body_bytes :: nat
  pf_image_agent_enabled :: bool
  pf_vision_url :: "string option"
  pf_vision_model :: "string option"
  pf_image_cache_max_size :: nat
  pf_image_cache_ttl_secs :: nat
  pf_unsupported_image_policy :: unsupported_image_policy
  pf_price_table :: price_table

definition default_bind_addr :: string where "default_bind_addr = ''127.0.0.1:4000''"
definition default_upstream_base_url :: string where "default_upstream_base_url = ''http://127.0.0.1:8000/v1''"
definition default_brave_base_url :: string where
  "default_brave_base_url = ''https://api.search.brave.com/res/v1''"
definition default_brave_max_results :: nat where "default_brave_max_results = 5"
definition default_request_timeout_secs :: nat where "default_request_timeout_secs = 60"
definition default_connect_timeout_secs :: nat where "default_connect_timeout_secs = 10"
definition default_max_web_search_rounds :: nat where "default_max_web_search_rounds = 5"
definition default_flatten_content :: bool where "default_flatten_content = True"
definition default_max_replay_entries :: nat where "default_max_replay_entries = 1000"
definition default_upstream_failure_cooldown_secs :: nat where "default_upstream_failure_cooldown_secs = 30"
definition default_min_completion_tokens :: int where "default_min_completion_tokens = 4096"
definition default_max_request_body_bytes :: nat where "default_max_request_body_bytes = 10 * 1024 * 1024"
definition default_image_cache_max_size :: nat where "default_image_cache_max_size = 100"
definition default_image_cache_ttl_secs :: nat where "default_image_cache_ttl_secs = 300"
definition default_unsupported_image_policy :: unsupported_image_policy where
  "default_unsupported_image_policy = Placeholder"

definition persisted_config_default :: persisted_config where
  "persisted_config_default = \<lparr>pf_bind_addr = default_bind_addr,
     pf_upstream_base_url = default_upstream_base_url, pf_upstream_api_key = None, pf_upstream_model = None,
     pf_system_prompt_prefix = None, pf_upstream_request_log_path = None, pf_turn_capture_dir = None,
     pf_upstream_chat_kwargs = [], pf_upstreams = [], pf_fallback_upstreams = [],
     pf_upstream_failure_cooldown_secs = default_upstream_failure_cooldown_secs,
     pf_model_profile_templates = [], pf_model_profiles = [], pf_model_routes = [], pf_template_family = None,
     pf_brave_base_url = default_brave_base_url, pf_brave_api_key = None,
     pf_brave_max_results = default_brave_max_results, pf_request_timeout_secs = default_request_timeout_secs,
     pf_connect_timeout_secs = 10, pf_max_web_search_rounds = 5, pf_flatten_content = True,
     pf_max_replay_entries = 1000, pf_debug_log_max_age_hours = None,
     pf_min_completion_tokens = default_min_completion_tokens,
     pf_max_sse_frame_bytes = default_max_sse_frame_bytes,
     pf_max_request_body_bytes = default_max_request_body_bytes, pf_image_agent_enabled = False,
     pf_vision_url = None, pf_vision_model = None, pf_image_cache_max_size = default_image_cache_max_size,
     pf_image_cache_ttl_secs = default_image_cache_ttl_secs,
     pf_unsupported_image_policy = default_unsupported_image_policy, pf_price_table = []\<rparr>"

subsection \<open>The environment\<close>

text \<open>
  The environment, the decoders of its JSON values, the parsers of the crates, and how a string is
  quoted in a message.
\<close>

record config_env =
  ce_var :: "string \<Rightarrow> string option"
  ce_json_map :: "string \<Rightarrow> json_map option"
  ce_price_table :: "string \<Rightarrow> (string \<times> raw_price) list option"
  ce_parse_addr :: "string \<Rightarrow> string + (ip_addr \<times> nat)"
  ce_parse_url :: "string \<Rightarrow> string + string"
  ce_debug_str :: "string \<Rightarrow> string"
  ce_regex_escape :: "char \<Rightarrow> string"
  ce_regex_new :: "string \<Rightarrow> string + (string \<Rightarrow> bool)"

text \<open>A variable that is set and not blank, and one whose value parses and is allowed.\<close>

definition env_text :: "config_env \<Rightarrow> string \<Rightarrow> (string \<Rightarrow> 'c \<Rightarrow> 'c) \<Rightarrow> 'c \<Rightarrow> 'c" where
  "env_text E name f c =
     (case ce_var E name of Some v \<Rightarrow> if trim v \<noteq> [] then f v c else c | None \<Rightarrow> c)"

definition env_parsed ::
  "config_env \<Rightarrow> string \<Rightarrow> (string \<Rightarrow> 'v option) \<Rightarrow> ('v \<Rightarrow> 'c \<Rightarrow> 'c) \<Rightarrow> 'c \<Rightarrow> 'c" where
  "env_parsed E name parse f c =
     (case Option.bind (ce_var E name) parse of Some v \<Rightarrow> f v c | None \<Rightarrow> c)"

definition parse_positive :: "string \<Rightarrow> nat option" where
  "parse_positive v = (case parse_u64 (trim v) of Some n \<Rightarrow> if 1 \<le> n then Some n else None | None \<Rightarrow> None)"

definition parse_positive_i64 :: "string \<Rightarrow> int option" where
  "parse_positive_i64 v = (case parse_i64 (trim v) of Some n \<Rightarrow> if 1 \<le> n then Some n else None | None \<Rightarrow> None)"

definition parse_image_policy :: "string \<Rightarrow> unsupported_image_policy option" where
  "parse_image_policy v =
     (let s = ascii_lower (trim v)
      in if s = ''placeholder'' then Some Placeholder else if s = ''reject'' then Some RejectImages else None)"

definition set_text :: "string \<Rightarrow> string option" where
  "set_text v = (if trim v \<noteq> [] then Some v else None)"

text \<open>The key of the upstream falls back to the conventional variable when there is none.\<close>

definition env_api_key :: "config_env \<Rightarrow> persisted_config \<Rightarrow> persisted_config" where
  "env_api_key E c =
     (case Option.bind (ce_var E ''LLMCONDUIT_UPSTREAM_API_KEY'') set_text of
        Some v \<Rightarrow> c\<lparr>pf_upstream_api_key := Some v\<rparr>
      | None \<Rightarrow>
          (if pf_upstream_api_key c = None
           then env_text E ''OPENAI_API_KEY'' (\<lambda>v. pf_upstream_api_key_update (\<lambda>_. Some v)) c
           else c))"

definition env_steps :: "config_env \<Rightarrow> (persisted_config \<Rightarrow> persisted_config) list" where
  "env_steps E =
     [env_text E ''LLMCONDUIT_BIND_ADDR'' (\<lambda>v. pf_bind_addr_update (\<lambda>_. v)),
      env_text E ''LLMCONDUIT_UPSTREAM_BASE_URL'' (\<lambda>v. pf_upstream_base_url_update (\<lambda>_. v)),
      env_api_key E,
      env_text E ''LLMCONDUIT_UPSTREAM_MODEL'' (\<lambda>v. pf_upstream_model_update (\<lambda>_. Some v)),
      env_text E ''LLMCONDUIT_TEMPLATE_FAMILY'' (\<lambda>v. pf_template_family_update (\<lambda>_. Some v)),
      env_text E ''LLMCONDUIT_SYSTEM_PROMPT_PREFIX'' (\<lambda>v. pf_system_prompt_prefix_update (\<lambda>_. Some v)),
      env_text E ''LLMCONDUIT_UPSTREAM_REQUEST_LOG_PATH''
        (\<lambda>v. pf_upstream_request_log_path_update (\<lambda>_. Some v)),
      env_text E ''LLMCONDUIT_TURN_CAPTURE_DIR'' (\<lambda>v. pf_turn_capture_dir_update (\<lambda>_. Some v)),
      env_parsed E ''LLMCONDUIT_UPSTREAM_CHAT_KWARGS_JSON'' (\<lambda>v. Option.bind (set_text v) (ce_json_map E))
        (\<lambda>m. pf_upstream_chat_kwargs_update (\<lambda>_. m)),
      env_parsed E ''LLMCONDUIT_UPSTREAM_FAILURE_COOLDOWN_SECS'' parse_u64
        (\<lambda>n. pf_upstream_failure_cooldown_secs_update (\<lambda>_. n)),
      env_text E ''LLMCONDUIT_BRAVE_BASE_URL'' (\<lambda>v. pf_brave_base_url_update (\<lambda>_. v)),
      env_text E ''BRAVE_SEARCH_API_KEY'' (\<lambda>v. pf_brave_api_key_update (\<lambda>_. Some v)),
      env_parsed E ''LLMCONDUIT_BRAVE_MAX_RESULTS'' parse_u64 (\<lambda>n. pf_brave_max_results_update (\<lambda>_. n)),
      env_parsed E ''LLMCONDUIT_REQUEST_TIMEOUT_SECS'' parse_u64 (\<lambda>n. pf_request_timeout_secs_update (\<lambda>_. n)),
      env_parsed E ''LLMCONDUIT_CONNECT_TIMEOUT_SECS'' parse_u64 (\<lambda>n. pf_connect_timeout_secs_update (\<lambda>_. n)),
      env_parsed E ''LLMCONDUIT_MAX_WEB_SEARCH_ROUNDS'' parse_u64
        (\<lambda>n. pf_max_web_search_rounds_update (\<lambda>_. n)),
      env_parsed E ''LLMCONDUIT_FLATTEN_CONTENT'' parse_bool (\<lambda>b. pf_flatten_content_update (\<lambda>_. b)),
      env_parsed E ''LLMCONDUIT_MAX_REPLAY_ENTRIES'' parse_u64 (\<lambda>n. pf_max_replay_entries_update (\<lambda>_. n)),
      env_parsed E ''LLMCONDUIT_DEBUG_LOG_MAX_AGE_HOURS'' (\<lambda>v. parse_u64 (trim v))
        (\<lambda>n. pf_debug_log_max_age_hours_update (\<lambda>_. Some n)),
      env_parsed E ''LLMCONDUIT_MIN_COMPLETION_TOKENS'' parse_positive_i64
        (\<lambda>n. pf_min_completion_tokens_update (\<lambda>_. n)),
      env_parsed E ''LLMCONDUIT_MAX_SSE_FRAME_BYTES'' parse_positive
        (\<lambda>n. pf_max_sse_frame_bytes_update (\<lambda>_. n)),
      env_parsed E ''LLMCONDUIT_MAX_REQUEST_BODY_BYTES'' parse_positive
        (\<lambda>n. pf_max_request_body_bytes_update (\<lambda>_. n)),
      env_parsed E ''LLMCONDUIT_IMAGE_AGENT_ENABLED'' (\<lambda>v. parse_bool (trim v))
        (\<lambda>b. pf_image_agent_enabled_update (\<lambda>_. b)),
      env_text E ''LLMCONDUIT_VISION_URL'' (\<lambda>v. pf_vision_url_update (\<lambda>_. Some v)),
      env_text E ''LLMCONDUIT_VISION_MODEL'' (\<lambda>v. pf_vision_model_update (\<lambda>_. Some v)),
      env_parsed E ''LLMCONDUIT_IMAGE_CACHE_MAX_SIZE'' parse_positive
        (\<lambda>n. pf_image_cache_max_size_update (\<lambda>_. n)),
      env_parsed E ''LLMCONDUIT_IMAGE_CACHE_TTL_SECS'' (\<lambda>v. parse_u64 (trim v))
        (\<lambda>n. pf_image_cache_ttl_secs_update (\<lambda>_. n)),
      env_parsed E ''LLMCONDUIT_UNSUPPORTED_IMAGE_POLICY'' parse_image_policy
        (\<lambda>p. pf_unsupported_image_policy_update (\<lambda>_. p)),
      env_parsed E ''LLMCONDUIT_PRICE_TABLE_JSON'' (\<lambda>v. Option.bind (set_text v) (ce_price_table E))
        (\<lambda>t. pf_price_table_update (\<lambda>_. retain_finite_prices (map (\<lambda>(m, raw). (m, price_of_raw raw)) t)))]"

definition apply_env_overrides :: "config_env \<Rightarrow> persisted_config \<Rightarrow> persisted_config" where
  "apply_env_overrides E c = fold (\<lambda>step. step) (env_steps E) c"

end
