(* ===== verification/Config_Build.thy ===== *)
theory Config_Build
  imports Config_Load Routing Vision Replay Metrics
begin

text \<open>
  The second half of loading (\<^verbatim>\<open>src/src/config.rs\<close>): globs, routes, upstreams and the validated \<^verbatim>\<open>Config\<close>,
  and what \<^verbatim>\<open>src/src/lib.rs\<close> builds from it: the leaf clients and the upstream client of the gateway, be
  it bare, failing over or routing.
\<close>

subsection \<open>Globs\<close>

definition is_glob_pattern :: "string \<Rightarrow> bool" where
  "is_glob_pattern value \<longleftrightarrow> (\<exists>c \<in> set value. c \<in> {CHR ''*'', CHR ''?'', CHR ''[''})"

definition backslash :: char where "backslash = CHR 0x5C"

text \<open>The members of a class up to the closing bracket, and the rest of the pattern.\<close>

fun glob_class_members :: "string \<Rightarrow> (string \<times> string) option" where
  "glob_class_members [] = None"
| "glob_class_members (c # cs) =
     (if c = CHR '']'' then Some ([], cs)
      else map_option (\<lambda>(members, rest).
        ((if c = backslash \<or> c = CHR ''^'' then [backslash, c] else [c]) @ members, rest)) (glob_class_members cs))"

lemma glob_class_members_shorter: "glob_class_members cs = Some (members, rest) \<Longrightarrow> length rest < length cs"
  by (induction cs arbitrary: members rest) (fastforce split: if_splits)+

text \<open>A whole class after its opening bracket.\<close>

definition glob_class :: "string \<Rightarrow> (string \<times> string) option" where
  "glob_class cs =
     (let (negated, cs1) = (case cs of c # r \<Rightarrow> if c = CHR ''!'' then (''^'', r) else ([], cs) | [] \<Rightarrow> ([], cs));
          (literal, cs2) = (case cs1 of c # r \<Rightarrow> if c = CHR '']'' then ([backslash, c], r) else ([], cs1)
             | [] \<Rightarrow> ([], cs1))
      in map_option (\<lambda>(members, rest). (''['' @ negated @ literal @ members @ '']'', rest)) (glob_class_members cs2))"

lemma glob_class_shorter: "glob_class cs = Some (text_of, rest) \<Longrightarrow> length rest < length cs"
  by (auto simp: glob_class_def Let_def split: list.splits if_splits prod.splits
      dest!: glob_class_members_shorter)

function glob_body :: "config_env \<Rightarrow> string \<Rightarrow> string option" where
  "glob_body E [] = Some []"
| "glob_body E (c # cs) =
     (if c = CHR ''*'' then map_option ((@) ''.*'') (glob_body E cs)
      else if c = CHR ''?'' then map_option ((@) ''.'') (glob_body E cs)
      else if c = CHR ''['' then
        (case glob_class cs of
           None \<Rightarrow> None
         | Some (class_text, rest) \<Rightarrow> map_option ((@) class_text) (glob_body E rest))
      else map_option ((@) (ce_regex_escape E c)) (glob_body E cs))"
  by pat_completeness auto
termination
  by (relation "measure (\<lambda>(E, cs). length cs)") (auto dest: glob_class_shorter)

definition glob_to_regex :: "config_env \<Rightarrow> string \<Rightarrow> string + (string \<Rightarrow> bool)" where
  "glob_to_regex E pat =
     (case glob_body E pat of
        None \<Rightarrow> Inl (''unterminated character class in glob '' @ ce_debug_str E pat)
      | Some body \<Rightarrow> map_err (\<lambda>err. ''invalid glob '' @ ce_debug_str E pat @ '': '' @ err)
          (ce_regex_new E (''(?i)^'' @ body @ ''$'')))"

subsection \<open>Routes\<close>

record resolved_route = model_route +
  mr_upstream_base_url :: string
  mr_upstream_model :: "string option"

definition resolve_model_route ::
  "config_env \<Rightarrow> string \<times> persisted_model_route \<Rightarrow> string + resolved_route" where
  "resolve_model_route E entry =
     (let (raw, route) = entry; name = trim raw; here = ''model_routes['' @ name @ '']: ''
      in if name = [] then Inl ''model_routes: route name must not be blank''
         else case trim_nonempty (pr_route_base_url route) of
           None \<Rightarrow> Inl (here @ ''missing upstream_base_url'')
         | Some base_url \<Rightarrow>
             bind_res (map_err (\<lambda>err. here @ ''invalid upstream_base_url: '' @ err) (ce_parse_url E base_url)) (\<lambda>url.
             bind_res (if is_glob_pattern name
                 then map_err (\<lambda>err. here @ err) (bind_res (glob_to_regex E name) (\<lambda>m. Inr (Some m)))
                 else Inr None) (\<lambda>glob.
             Inr \<lparr>mr_name = name, mr_glob = glob, mr_upstream_base_url = url,
                  mr_upstream_model = trim_nonempty (pr_route_upstream_model route)\<rparr>)))"

definition resolve_model_routes ::
  "config_env \<Rightarrow> ordered_model_routes \<Rightarrow> string + resolved_route list" where
  "resolve_model_routes E routes = map_res (resolve_model_route E) routes"

definition parse_model_route_spec ::
  "config_env \<Rightarrow> string \<Rightarrow> string + (string \<times> persisted_model_route)" where
  "parse_model_route_spec E spec =
     (case split_once CHR ''='' spec of
        None \<Rightarrow> Inl (''--model-route '' @ ce_debug_str E spec @ '' must use NAME=URL[,UPSTREAM_MODEL]'')
      | Some (raw, value) \<Rightarrow>
          (let name = trim raw;
               (url, upstream_model) = (case split_once CHR '','' value of
                  Some (u, m) \<Rightarrow> (trim u, trim m) | None \<Rightarrow> (trim value, []))
           in if name = [] then Inl (''--model-route '' @ ce_debug_str E spec @ '' is missing NAME'')
              else if url = [] then Inl (''--model-route '' @ ce_debug_str E spec @ '' is missing URL'')
              else bind_res (map_err (\<lambda>err. ''--model-route '' @ ce_debug_str E spec @ '': invalid URL: '' @ err)
                     (ce_parse_url E url)) (\<lambda>_.
                   Inr (name, \<lparr>pr_route_base_url = Some url,
                     pr_route_upstream_model = (if upstream_model = [] then None else Some upstream_model)\<rparr>))))"

subsection \<open>Upstreams\<close>

record fallback_upstream_config =
  fb_name :: string
  fb_upstream_base_url :: string
  fb_upstream_api_key :: "string option"
  fb_upstream_model :: "string option"
  fb_exposed_model :: "string option"
  fb_upstream_chat_kwargs :: json_map
  fb_upstream_request_log_path :: "string option"

record upstream_config =
  uc_name :: string
  uc_upstream_base_url :: string
  uc_upstream_api_key :: "string option"
  uc_upstream_model :: "string option"
  uc_upstream_chat_kwargs :: json_map
  uc_upstream_request_log_path :: "string option"
  uc_fallback_upstreams :: "fallback_upstream_config list"

definition name_or :: "string option \<Rightarrow> string \<Rightarrow> string" where
  "name_or name dflt = (case trim_nonempty name of Some n \<Rightarrow> n | None \<Rightarrow> dflt)"

definition parse_fallback_upstream ::
  "config_env \<Rightarrow> string \<Rightarrow> nat \<times> persisted_fallback_upstream \<Rightarrow> string + fallback_upstream_config" where
  "parse_fallback_upstream E path entry =
     (let (i, p) = entry in
      bind_res (map_err (\<lambda>err. ''invalid '' @ path @ ''['' @ show_nat i @ ''].upstream_base_url: '' @ err)
        (ce_parse_url E (trim (pfu_upstream_base_url p)))) (\<lambda>url.
      Inr \<lparr>fb_name = name_or (pfu_name p) (''fallback-'' @ show_nat (i + 1)), fb_upstream_base_url = url,
           fb_upstream_api_key = trim_nonempty (pfu_upstream_api_key p),
           fb_upstream_model = trim_nonempty (pfu_upstream_model p),
           fb_exposed_model = trim_nonempty (pfu_exposed_model p),
           fb_upstream_chat_kwargs = pfu_upstream_chat_kwargs p,
           fb_upstream_request_log_path = trim_nonempty (pfu_upstream_request_log_path p)\<rparr>))"

definition parse_upstream :: "config_env \<Rightarrow> nat \<times> persisted_upstream \<Rightarrow> string + upstream_config" where
  "parse_upstream E entry =
     (let (i, p) = entry in
      bind_res (map_err (\<lambda>err. ''invalid upstreams['' @ show_nat i @ ''].upstream_base_url: '' @ err)
        (ce_parse_url E (trim (pu_upstream_base_url p)))) (\<lambda>url.
      bind_res (map_res (parse_fallback_upstream E (''upstreams['' @ show_nat i @ ''].fallback_upstreams''))
        (enumerate 0 (pu_fallback_upstreams p))) (\<lambda>fallbacks.
      Inr \<lparr>uc_name = name_or (pu_name p) (''upstream-'' @ show_nat (i + 1)), uc_upstream_base_url = url,
           uc_upstream_api_key = trim_nonempty (pu_upstream_api_key p),
           uc_upstream_model = trim_nonempty (pu_upstream_model p),
           uc_upstream_chat_kwargs = pu_upstream_chat_kwargs p,
           uc_upstream_request_log_path = trim_nonempty (pu_upstream_request_log_path p),
           uc_fallback_upstreams = fallbacks\<rparr>)))"

subsection \<open>The configuration\<close>

record config =
  cf_bind_addr :: "ip_addr \<times> nat"
  cf_upstream_base_url :: string
  cf_upstream_api_key :: "string option"
  cf_upstream_model :: "string option"
  cf_system_prompt_prefix :: "string option"
  cf_upstream_request_log_path :: "string option"
  cf_turn_capture_dir :: "string option"
  cf_upstream_chat_kwargs :: json_map
  cf_upstreams :: "upstream_config list"
  cf_fallback_upstreams :: "fallback_upstream_config list"
  cf_upstream_failure_cooldown_secs :: nat
  cf_model_profiles :: "(string \<times> model_profile) list"
  cf_model_routes :: "resolved_route list"
  cf_template_family :: "string option"
  cf_brave_base_url :: string
  cf_brave_api_key :: "string option"
  cf_brave_max_results :: nat
  cf_request_timeout :: nat
  cf_connect_timeout_secs :: nat
  cf_max_web_search_rounds :: nat
  cf_flatten_content :: bool
  cf_max_replay_entries :: nat
  cf_debug_log_max_age_hours :: "nat option"
  cf_min_completion_tokens :: int
  cf_max_sse_frame_bytes :: nat
  cf_max_request_body_bytes :: nat
  cf_image_agent_enabled :: bool
  cf_vision_url :: "string option"
  cf_vision_model :: "string option"
  cf_image_cache_max_size :: nat
  cf_image_cache_ttl_secs :: nat
  cf_unsupported_image_policy :: unsupported_image_policy
  cf_price_table :: price_table

definition duration_from_secs :: "nat \<Rightarrow> nat" where
  "duration_from_secs s = s * 10 ^ 9"

text \<open>The prompt prefix is kept as it is unless it is blank.\<close>

definition keep_nonblank :: "string option \<Rightarrow> string option" where
  "keep_nonblank v = Option.bind v set_text"

definition parse_vision_url :: "config_env \<Rightarrow> string option \<Rightarrow> string + string option" where
  "parse_vision_url E v =
     (case trim_nonempty v of
        None \<Rightarrow> Inr None
      | Some url \<Rightarrow> bind_res (map_err (\<lambda>err. ''invalid vision_url: '' @ err) (ce_parse_url E url)) (\<lambda>u. Inr (Some u)))"

definition from_persisted :: "config_env \<Rightarrow> persisted_config \<Rightarrow> string + config" where
  "from_persisted E c =
     bind_res (map_err (\<lambda>err. ''invalid bind_addr: '' @ err) (ce_parse_addr E (pf_bind_addr c))) (\<lambda>bind_addr.
     bind_res (map_err (\<lambda>err. ''invalid upstream_base_url: '' @ err) (ce_parse_url E (pf_upstream_base_url c)))
       (\<lambda>upstream_base_url.
     bind_res (map_err (\<lambda>err. ''invalid brave_base_url: '' @ err) (ce_parse_url E (pf_brave_base_url c)))
       (\<lambda>brave_base_url.
     bind_res (map_res (parse_fallback_upstream E ''fallback_upstreams'') (enumerate 0 (pf_fallback_upstreams c)))
       (\<lambda>fallback_upstreams.
     bind_res (map_res (parse_upstream E) (enumerate 0 (pf_upstreams c))) (\<lambda>upstreams.
     bind_res (resolve_model_profiles (pf_model_profiles c) (pf_model_profile_templates c)) (\<lambda>model_profiles.
     bind_res (resolve_model_routes E (pf_model_routes c)) (\<lambda>model_routes.
     bind_res (parse_vision_url E (pf_vision_url c)) (\<lambda>vision_url.
     Inr \<lparr>cf_bind_addr = bind_addr, cf_upstream_base_url = upstream_base_url,
          cf_upstream_api_key = trim_nonempty (pf_upstream_api_key c),
          cf_upstream_model = trim_nonempty (pf_upstream_model c),
          cf_system_prompt_prefix = keep_nonblank (pf_system_prompt_prefix c),
          cf_upstream_request_log_path = trim_nonempty (pf_upstream_request_log_path c),
          cf_turn_capture_dir = trim_nonempty (pf_turn_capture_dir c),
          cf_upstream_chat_kwargs = pf_upstream_chat_kwargs c, cf_upstreams = upstreams,
          cf_fallback_upstreams = fallback_upstreams,
          cf_upstream_failure_cooldown_secs = pf_upstream_failure_cooldown_secs c,
          cf_model_profiles = model_profiles, cf_model_routes = model_routes,
          cf_template_family = normalize_template_family (pf_template_family c),
          cf_brave_base_url = brave_base_url, cf_brave_api_key = trim_nonempty (pf_brave_api_key c),
          cf_brave_max_results = pf_brave_max_results c,
          cf_request_timeout = duration_from_secs (pf_request_timeout_secs c),
          cf_connect_timeout_secs = pf_connect_timeout_secs c,
          cf_max_web_search_rounds = pf_max_web_search_rounds c, cf_flatten_content = pf_flatten_content c,
          cf_max_replay_entries = pf_max_replay_entries c,
          cf_debug_log_max_age_hours = pf_debug_log_max_age_hours c,
          cf_min_completion_tokens = max (pf_min_completion_tokens c) 1,
          cf_max_sse_frame_bytes = max (pf_max_sse_frame_bytes c) 1024,
          cf_max_request_body_bytes = max (pf_max_request_body_bytes c) 1024,
          cf_image_agent_enabled = pf_image_agent_enabled c, cf_vision_url = vision_url,
          cf_vision_model = trim_nonempty (pf_vision_model c),
          cf_image_cache_max_size = max (pf_image_cache_max_size c) 1,
          cf_image_cache_ttl_secs = pf_image_cache_ttl_secs c,
          cf_unsupported_image_policy = pf_unsupported_image_policy c,
          cf_price_table = retain_finite_prices (pf_price_table c)\<rparr>))))))))"

text \<open>
  Loading: the file (already read and decoded, or its error), then the environment, then the routes of
  the command line, each of which replaces the route of its name.
\<close>

fun merge_route_specs :: "config_env \<Rightarrow> string list \<Rightarrow> persisted_config \<Rightarrow> string + persisted_config" where
  "merge_route_specs E [] c = Inr c"
| "merge_route_specs E (spec # specs) c =
     bind_res (parse_model_route_spec E spec) (\<lambda>(name, route).
       merge_route_specs E specs (c\<lparr>pf_model_routes := upsert name route (pf_model_routes c)\<rparr>))"

definition from_env_file_and_routes ::
  "config_env \<Rightarrow> string + persisted_config \<Rightarrow> string list \<Rightarrow> string + config" where
  "from_env_file_and_routes E loaded route_specs =
     bind_res loaded (\<lambda>persisted.
     bind_res (merge_route_specs E route_specs (apply_env_overrides E persisted)) (from_persisted E))"

definition from_env_and_file :: "config_env \<Rightarrow> string + persisted_config \<Rightarrow> string + config" where
  "from_env_and_file E loaded = from_env_file_and_routes E loaded []"

text \<open>
  The file: its contents when it exists (\<open>None\<close>: it does not), read or the error of reading, and decoded
  according to its extension.
\<close>

record file_access =
  fa_contents :: "string \<Rightarrow> (string + string) option"
  fa_from_toml :: "string \<Rightarrow> string + persisted_config"
  fa_from_yaml :: "string \<Rightarrow> string + persisted_config"

text \<open>\<^verbatim>\<open>Path::extension\<close>: what follows the last dot of the last component, unless that dot begins it.\<close>

fun strip_trailing :: "string \<Rightarrow> string" where
  "strip_trailing rev_path =
     (case rev_path of
        c # rest \<Rightarrow>
          if c = CHR ''/'' then strip_trailing rest
          else if c = CHR ''.'' \<and> rest \<noteq> [] \<and> hd rest = CHR ''/'' then strip_trailing (tl rest)
          else rev_path
      | [] \<Rightarrow> [])"

definition file_name :: "string \<Rightarrow> string option" where
  "file_name path =
     (let name = rev (takeWhile (\<lambda>c. c \<noteq> CHR ''/'') (strip_trailing (rev path)))
      in if name = [] \<or> name = ''..'' \<or> name = ''.'' then None else Some name)"

definition path_extension :: "string \<Rightarrow> string option" where
  "path_extension path =
     Option.bind (file_name path) (\<lambda>name.
       case rsplit_once CHR ''.'' name of
         Some (before, after) \<Rightarrow> if before = [] then None else Some after
       | None \<Rightarrow> None)"

definition path_is_toml :: "string \<Rightarrow> bool" where
  "path_is_toml path = (case path_extension path of Some ext \<Rightarrow> eq_ignore_ascii_case ext ''toml'' | None \<Rightarrow> False)"

definition load_persisted_config :: "file_access \<Rightarrow> string \<Rightarrow> string + persisted_config" where
  "load_persisted_config F path =
     (case fa_contents F path of
        None \<Rightarrow> Inr persisted_config_default
      | Some read \<Rightarrow>
          bind_res (map_err (\<lambda>err. ''failed to read '' @ path @ '': '' @ err) read) (\<lambda>contents.
            map_err (\<lambda>err. ''failed to parse '' @ path @ '': '' @ err)
              (if path_is_toml path then fa_from_toml F contents else fa_from_yaml F contents)))"

subsection \<open>Where logs are written\<close>

text \<open>\<^verbatim>\<open>Path::parent\<close>: the path without its last component; a path that is only the root has none.\<close>

definition path_parent :: "string \<Rightarrow> string option" where
  "path_parent path =
     (let body = strip_trailing (rev path)
      in if body = [] then None
         else let up = dropWhile (\<lambda>c. c \<noteq> CHR ''/'') body; dir = strip_trailing up
              in Some (if dir = [] \<and> up \<noteq> [] then ''/'' else rev dir))"

definition log_dir :: "string option \<Rightarrow> string option" where
  "log_dir path = map_option (\<lambda>dir. if dir = [] then ''.'' else dir) (Option.bind path path_parent)"

text \<open>Paths are compared by their components: \<^verbatim>\<open>PathBuf\<close>'s equality.\<close>

definition path_components :: "string \<Rightarrow> string list" where
  "path_components path =
     (case path of
        c # _ \<Rightarrow> if c = CHR ''/'' then [''/''] else if hd (split_on CHR ''/'' path) = ''.'' then [''.''] else []
      | [] \<Rightarrow> [])
     @ filter (\<lambda>p. p \<noteq> [] \<and> p \<noteq> ''.'') (split_on CHR ''/'' path)"

definition same_path :: "string \<Rightarrow> string \<Rightarrow> bool" where
  "same_path a b \<longleftrightarrow> path_components a = path_components b"

definition push_dir :: "string option \<Rightarrow> string list \<Rightarrow> string list" where
  "push_dir dir dirs = (case dir of Some d \<Rightarrow> if list_ex (same_path d) dirs then dirs else dirs @ [d] | None \<Rightarrow> dirs)"

definition upstream_log_paths :: "upstream_config \<Rightarrow> string option list" where
  "upstream_log_paths u =
     uc_upstream_request_log_path u # map fb_upstream_request_log_path (uc_fallback_upstreams u)"

definition debug_log_paths :: "config \<Rightarrow> string option list" where
  "debug_log_paths cfg =
     (if cf_upstreams cfg = []
      then cf_upstream_request_log_path cfg # map fb_upstream_request_log_path (cf_fallback_upstreams cfg)
      else concat (map upstream_log_paths (cf_upstreams cfg))
        @ (if cf_model_routes cfg \<noteq> [] then [cf_upstream_request_log_path cfg] else []))"

definition debug_log_dirs :: "config \<Rightarrow> string list" where
  "debug_log_dirs cfg = push_dir (cf_turn_capture_dir cfg)
     (fold (\<lambda>path. push_dir (log_dir path)) (debug_log_paths cfg) [])"

subsection \<open>What the configuration builds\<close>

text \<open>The fields the request path reads.\<close>

definition gateway_of :: "config \<Rightarrow> gateway_config" where
  "gateway_of cfg = \<lparr>cfg_model_profiles = cf_model_profiles cfg,
     cfg_model_routes = map model_route.truncate (cf_model_routes cfg), cfg_upstream_model = cf_upstream_model cfg,
     cfg_system_prompt_prefix = cf_system_prompt_prefix cfg, cfg_has_upstreams = (cf_upstreams cfg \<noteq> []),
     cfg_has_fallback_upstreams = (cf_fallback_upstreams cfg \<noteq> []),
     cfg_image_agent_enabled = cf_image_agent_enabled cfg, cfg_has_vision_url = (cf_vision_url cfg \<noteq> None),
     cfg_unsupported_image_policy = cf_unsupported_image_policy cfg,
     cfg_has_brave_api_key = (cf_brave_api_key cfg \<noteq> None),
     cfg_max_web_search_rounds = cf_max_web_search_rounds cfg, cfg_flatten_content = cf_flatten_content cfg,
     cfg_template_family = cf_template_family cfg, cfg_upstream_chat_kwargs = cf_upstream_chat_kwargs cfg\<rparr>"

definition finalization_policies_from_config :: "gateway_config \<Rightarrow> finalization_policies" where
  "finalization_policies_from_config g = \<lparr>fp_effort = reasoning_effort_policies g,
     fp_template_family = template_family_policies g, fp_global_template_family = cfg_template_family g,
     fp_upstream_chat_kwargs = upstream_chat_kwargs_policies g,
     fp_global_upstream_chat_kwargs = cfg_upstream_chat_kwargs g\<rparr>"

text \<open>A leaf client with the address, key and log file it is built with.\<close>

record built_leaf =
  bl_base_url :: string
  bl_api_key :: "string option"
  bl_log_path :: "string option"
  bl_client :: leaf_client

definition make_upstream_client ::
  "bool \<Rightarrow> config \<Rightarrow> string \<Rightarrow> string option \<Rightarrow> string option \<Rightarrow> built_leaf" where
  "make_upstream_client capture cfg base_url api_key log_path =
     \<lparr>bl_base_url = base_url, bl_api_key = api_key, bl_log_path = log_path,
      bl_client = \<lparr>lc_flatten_content = cf_flatten_content cfg,
        lc_min_completion_tokens = cf_min_completion_tokens cfg,
        lc_max_sse_frame_bytes = cf_max_sse_frame_bytes cfg,
        lc_policies = finalization_policies_from_config (gateway_of cfg),
        lc_capture_responses = capture, lc_tag_primary_provider = False\<rparr>\<rparr>"

definition into_bare_primary :: "built_leaf \<Rightarrow> built_leaf" where
  "into_bare_primary leaf = leaf\<lparr>bl_client := (bl_client leaf)\<lparr>lc_tag_primary_provider := True\<rparr>\<rparr>"

definition failover_provider_of ::
  "string \<Rightarrow> built_leaf \<Rightarrow> string option \<Rightarrow> string option \<Rightarrow> json_map \<Rightarrow> failover_provider" where
  "failover_provider_of name leaf upstream_model exposed_model kwargs =
     \<lparr>pr_name = name, pr_base_url = bl_base_url leaf, pr_client = bl_client leaf, pr_upstream_model = upstream_model,
      pr_exposed_model = exposed_model, pr_upstream_chat_kwargs = kwargs\<rparr>"

definition fallback_leaf :: "bool \<Rightarrow> config \<Rightarrow> fallback_upstream_config \<Rightarrow> built_leaf" where
  "fallback_leaf capture cfg f = make_upstream_client capture cfg (fb_upstream_base_url f)
     (fb_upstream_api_key f) (fb_upstream_request_log_path f)"

definition fallback_provider :: "bool \<Rightarrow> config \<Rightarrow> fallback_upstream_config \<Rightarrow> failover_provider" where
  "fallback_provider capture cfg f = failover_provider_of (fb_name f) (fallback_leaf capture cfg f)
     (fb_upstream_model f) (fb_exposed_model f) (fb_upstream_chat_kwargs f)"

definition upstream_leaf :: "bool \<Rightarrow> config \<Rightarrow> upstream_config \<Rightarrow> built_leaf" where
  "upstream_leaf capture cfg u = make_upstream_client capture cfg (uc_upstream_base_url u)
     (uc_upstream_api_key u) (uc_upstream_request_log_path u)"

definition cooldown_of :: "config \<Rightarrow> nat" where
  "cooldown_of cfg = duration_from_secs (cf_upstream_failure_cooldown_secs cfg)"

definition routing_provider_of :: "bool \<Rightarrow> config \<Rightarrow> upstream_config \<Rightarrow> routing_provider" where
  "routing_provider_of capture cfg u = routing_provider_new (uc_name u) (uc_upstream_base_url u)
     (bl_client (upstream_leaf capture cfg u)) (uc_upstream_model u) (uc_upstream_chat_kwargs u)
     (map (fallback_provider capture cfg) (uc_fallback_upstreams u)) (cooldown_of cfg)"

definition route_leaf :: "bool \<Rightarrow> config \<Rightarrow> resolved_route \<Rightarrow> built_leaf" where
  "route_leaf capture cfg route = make_upstream_client capture cfg (mr_upstream_base_url route)
     (cf_upstream_api_key cfg) (cf_upstream_request_log_path cfg)"

definition route_provider_of :: "bool \<Rightarrow> config \<Rightarrow> resolved_route \<Rightarrow> route_provider" where
  "route_provider_of capture cfg route = route_provider_new (''route-'' @ mr_name route)
     (mr_upstream_base_url route) (bl_client (route_leaf capture cfg route)) (cooldown_of cfg)"

definition route_spec_of :: "nat \<times> resolved_route \<Rightarrow> model_route_spec" where
  "route_spec_of entry = (let (i, route) = entry in
     \<lparr>mrs_name = mr_name route, mrs_glob = mr_glob route, mrs_route_provider_index = i,
      mrs_upstream_model = mr_upstream_model route\<rparr>)"

definition primary_leaf :: "bool \<Rightarrow> config \<Rightarrow> built_leaf" where
  "primary_leaf capture cfg = make_upstream_client capture cfg (cf_upstream_base_url cfg)
     (cf_upstream_api_key cfg) (cf_upstream_request_log_path cfg)"

datatype gateway_upstream =
    BareUpstream built_leaf
  | FailoverUpstream failover_client
  | RoutingUpstream routing_client

definition routing_mode :: "config \<Rightarrow> bool" where
  "routing_mode cfg \<longleftrightarrow> cf_upstreams cfg \<noteq> [] \<or> cf_model_routes cfg \<noteq> []"

definition build_upstream :: "bool \<Rightarrow> config \<Rightarrow> gateway_upstream" where
  "build_upstream capture cfg =
     (if routing_mode cfg then
        RoutingUpstream (routing_with_routes (map (routing_provider_of capture cfg) (cf_upstreams cfg))
          (map (route_provider_of capture cfg) (cf_model_routes cfg))
          (map route_spec_of (enumerate 0 (cf_model_routes cfg))))
      else if cf_fallback_upstreams cfg = [] then BareUpstream (into_bare_primary (primary_leaf capture cfg))
      else FailoverUpstream (failover_new
        (failover_provider_of ''primary'' (primary_leaf capture cfg) None None []
          # map (fallback_provider capture cfg) (cf_fallback_upstreams cfg)) (cooldown_of cfg)))"

text \<open>Every leaf that is built, in the order the constructor is called.\<close>

definition built_leaves :: "bool \<Rightarrow> config \<Rightarrow> built_leaf list" where
  "built_leaves capture cfg =
     (if routing_mode cfg then
        concat (map (\<lambda>u. upstream_leaf capture cfg u # map (fallback_leaf capture cfg) (uc_fallback_upstreams u))
          (cf_upstreams cfg))
        @ map (route_leaf capture cfg) (cf_model_routes cfg)
      else primary_leaf capture cfg # map (fallback_leaf capture cfg) (cf_fallback_upstreams cfg))"

text \<open>The parts of the gateway whose construction depends on the configuration and the debug pages.\<close>

record 'tp app_parts =
  ap_replay :: replay_inner
  ap_flow_store :: flow_store
  ap_metrics :: "'tp metrics_state option"
  ap_turn_capture_dir :: "string option"
  ap_upstream :: gateway_upstream
  ap_image_cache :: image_cache
  ap_dashboard_auth :: "dashboard_auth option"
  ap_register_protected_routes :: bool

definition build_app_parts ::
  "auth_crypto \<Rightarrow> string \<Rightarrow> dashboard_env \<Rightarrow> string option \<Rightarrow> bool \<Rightarrow> config \<Rightarrow> 'tp app_parts" where
  "build_app_parts X fresh_key env capture_flag with_debug_ui cfg =
     (let flow_store = (if with_debug_ui then flow_store_new capture_flag else flow_store_disabled);
          auth = (if with_debug_ui then build_dashboard_auth X (fst (cf_bind_addr cfg)) fresh_key env else None)
      in \<lparr>ap_replay = replay_new (cf_max_replay_entries cfg), ap_flow_store = flow_store,
          ap_metrics = (if with_debug_ui then Some (metrics_state_new default_snapshot_quota_bytes) else None),
          ap_turn_capture_dir = cf_turn_capture_dir cfg,
          ap_upstream = build_upstream (is_response_capture_enabled flow_store) cfg,
          ap_image_cache = image_cache_new (cf_image_cache_max_size cfg)
            (duration_from_secs (cf_image_cache_ttl_secs cfg)),
          ap_dashboard_auth = auth, ap_register_protected_routes = (auth \<noteq> None)\<rparr>)"

end
