(* ===== verification/Config_Correct.thy ===== *)
theory Config_Correct
  imports Config_Build
begin

text \<open>
  Correctness of the configuration: what holds of every configuration that loads and of the clients built
  from it, which definition of a route counts, where its requests go, and which directories hold logs.
\<close>

subsection \<open>Trimming\<close>

lemma ws_len_take: "ws_len xs = 0 \<Longrightarrow> ws_len (take n xs) = 0"
  by (cases xs rule: ws_len.cases; cases n; cases "n - 1"; cases "n - 2")
    (auto split: if_splits simp: take_Cons')

lemma strip_ws_rev_take: "\<exists>n. rev (strip_ws f (rev xs)) = take n xs"
proof -
  from strip_ws_suffix obtain ys where ys: "rev xs = ys @ strip_ws f (rev xs)" by blast
  have "rev (rev xs) = rev (ys @ strip_ws f (rev xs))" by (rule arg_cong [OF ys])
  then have "xs = rev (strip_ws f (rev xs)) @ rev ys" by simp
  then have "rev (strip_ws f (rev xs)) = take (length (strip_ws f (rev xs))) xs" by (metis append_eq_conv_conj length_rev)
  then show ?thesis by blast
qed

lemma trim_ends: "ws_len (map of_char (trim s)) = 0" "ws_len_rev (rev (map of_char (trim s))) = 0"
proof -
  let ?front = "strip_ws ws_len (map of_char s :: nat list)"
  let ?both = "rev (strip_ws ws_len_rev (rev ?front))"
  obtain n where n: "?both = take n ?front" using strip_ws_rev_take by blast
  obtain ys where "map of_char s = ys @ ?front" using strip_ws_suffix by blast
  then have front: "?front = drop (length ys) (map of_char s)" by (metis append_eq_conv_conj)
  have both: "?both = map of_char (take n (drop (length ys) s))"
    unfolding n unfolding front by (simp only: take_map drop_map)
  then have "trim s = take n (drop (length ys) s)" by (simp add: trim_def comp_def)
  with both have bytes: "map of_char (trim s) = ?both" by simp
  have f: "ws_len ?front = 0" using strip_ws_fix [of ws_len "map of_char s"] by auto
  from f n show "ws_len (map of_char (trim s)) = 0" by (simp add: bytes ws_len_take)
  show "ws_len_rev (rev (map of_char (trim s))) = 0"
    using strip_ws_fix [of ws_len_rev "rev ?front"] by (auto simp: bytes)
qed

lemma trim_idem [simp]: "trim (trim s) = trim s"
  by (rule trim_no_ws) (rule trim_ends)+

text \<open>A text the configuration holds is trimmed and not empty.\<close>

definition clean :: "string \<Rightarrow> bool" where
  "clean s \<longleftrightarrow> s \<noteq> [] \<and> trim s = s"

definition clean_option :: "string option \<Rightarrow> bool" where
  "clean_option v \<longleftrightarrow> (case v of Some s \<Rightarrow> clean s | None \<Rightarrow> True)"

lemma clean_trim_nonempty [simp]: "clean_option (trim_nonempty v)"
  by (auto simp: clean_option_def trim_nonempty_def clean_def split: option.splits)

subsection \<open>Every configuration that loads\<close>

definition sane_fallback :: "fallback_upstream_config \<Rightarrow> bool" where
  "sane_fallback f \<longleftrightarrow> clean (fb_name f) \<and> clean_option (fb_upstream_api_key f)
     \<and> clean_option (fb_upstream_model f) \<and> clean_option (fb_exposed_model f)
     \<and> clean_option (fb_upstream_request_log_path f)"

definition sane_upstream :: "upstream_config \<Rightarrow> bool" where
  "sane_upstream u \<longleftrightarrow> clean (uc_name u) \<and> clean_option (uc_upstream_api_key u)
     \<and> clean_option (uc_upstream_model u) \<and> clean_option (uc_upstream_request_log_path u)
     \<and> list_all sane_fallback (uc_fallback_upstreams u)"

definition sane_route :: "resolved_route \<Rightarrow> bool" where
  "sane_route r \<longleftrightarrow> clean (mr_name r) \<and> (mr_glob r \<noteq> None \<longleftrightarrow> is_glob_pattern (mr_name r))
     \<and> clean_option (mr_upstream_model r)"

definition sane_config :: "config \<Rightarrow> bool" where
  "sane_config cfg \<longleftrightarrow>
     1 \<le> cf_min_completion_tokens cfg \<and> 1024 \<le> cf_max_sse_frame_bytes cfg \<and> 1024 \<le> cf_max_request_body_bytes cfg
     \<and> 1 \<le> cf_image_cache_max_size cfg
     \<and> list_all clean_option [cf_upstream_api_key cfg, cf_upstream_model cfg, cf_upstream_request_log_path cfg,
         cf_turn_capture_dir cfg, cf_brave_api_key cfg, cf_vision_model cfg]
     \<and> (case cf_system_prompt_prefix cfg of Some pre \<Rightarrow> trim pre \<noteq> [] | None \<Rightarrow> True)
     \<and> cf_template_family cfg \<in> {None, Some ''kimi'', Some ''deepseek''}
     \<and> list_all sane_fallback (cf_fallback_upstreams cfg) \<and> list_all sane_upstream (cf_upstreams cfg)
     \<and> list_all sane_route (cf_model_routes cfg)
     \<and> list_all (\<lambda>(_, p). price_is_finite p) (cf_price_table cfg)"

lemma map_res_all: "map_res f xs = Inr ys \<Longrightarrow> (\<And>x y. f x = Inr y \<Longrightarrow> P y) \<Longrightarrow> list_all P ys"
  by (induction xs arbitrary: ys) (auto simp: bind_res_Inr)

lemma map_err_Inr [simp]: "map_err f r = Inr x \<longleftrightarrow> r = Inr x"
  by (cases r) auto

text \<open>The default names end with a number, so they have no blanks at their ends.\<close>

lemma show_nat_last: "\<exists>xs c. show_nat n = xs @ [c] \<and> 48 \<le> (of_char c :: nat) \<and> of_char c \<le> (57 :: nat)"
proof (induction n rule: show_nat.induct)
  case (1 n)
  show ?case
  proof (cases "n < 10")
    case True
    then show ?thesis by (auto simp: show_nat.simps [of n] intro!: exI [of _ "[]"])
  next
    case False
    then show ?thesis by (auto simp: show_nat.simps [of n])
  qed
qed

lemma ws_len_rev_digit: "48 \<le> c \<Longrightarrow> c \<le> 57 \<Longrightarrow> ws_len_rev (c # cs) = 0"
  by (cases cs; cases "tl cs") auto

lemma clean_numbered:
  assumes "ws_len (map of_char (c # p @ show_nat n)) = 0"
  shows "clean (c # p @ show_nat n)"
proof -
  obtain xs d where d: "show_nat n = xs @ [d]" "48 \<le> (of_char d :: nat)" "of_char d \<le> (57 :: nat)"
    using show_nat_last by blast
  have "trim (c # p @ show_nat n) = c # p @ show_nat n"
    by (rule trim_no_ws [OF assms]) (simp add: d ws_len_rev_digit)
  then show ?thesis by (simp add: clean_def)
qed

lemma ws_len_front: "\<not> (9 \<le> a \<and> a \<le> 13 \<or> a = 32) \<Longrightarrow> a < 194 \<Longrightarrow> ws_len (a # xs) = 0"
  by (cases xs; cases "tl xs") auto

lemma clean_name_or: "clean d \<Longrightarrow> clean (name_or v d)"
  using clean_trim_nonempty [of v] by (auto simp: name_or_def clean_option_def split: option.splits)

lemma clean_default_names: "clean (''fallback-'' @ show_nat n)" "clean (''upstream-'' @ show_nat n)"
  using clean_numbered [of "CHR ''f''" "''allback-''" n] clean_numbered [of "CHR ''u''" "''pstream-''" n]
  by (simp_all add: ws_len_front)

lemma sane_parsed_fallback: "parse_fallback_upstream E path entry = Inr f \<Longrightarrow> sane_fallback f"
  by (cases entry) (auto simp: parse_fallback_upstream_def sane_fallback_def bind_res_Inr
      intro!: clean_name_or clean_default_names [simplified])

lemma sane_parsed_upstream: "parse_upstream E entry = Inr u \<Longrightarrow> sane_upstream u"
  by (cases entry) (auto simp: parse_upstream_def sane_upstream_def bind_res_Inr
      intro!: clean_name_or clean_default_names [simplified] map_res_all [OF _ sane_parsed_fallback])

lemma sane_resolved_route: "resolve_model_route E entry = Inr r \<Longrightarrow> sane_route r"
  by (cases entry) (auto simp: resolve_model_route_def sane_route_def Let_def bind_res_Inr clean_def
      split: if_splits option.splits)

lemma normalized_family: "normalize_template_family v \<in> {None, Some ''kimi'', Some ''deepseek''}"
  by (auto simp: normalize_template_family_def split: option.splits)

lemma finite_retained: "list_all (\<lambda>(_, p). price_is_finite p) (retain_finite_prices t)"
  by (auto simp: retain_finite_prices_def list_all_iff)

lemma kept_nonblank: "case keep_nonblank v of Some pre \<Rightarrow> trim pre \<noteq> [] | None \<Rightarrow> True"
  by (auto simp: keep_nonblank_def set_text_def bind_eq_Some_conv split: option.split if_splits)

lemma sane_from_persisted:
  assumes "from_persisted E c = Inr cfg"
  shows "sane_config cfg"
proof -
  from assms obtain fallbacks upstreams routes where
    parsed: "map_res (parse_fallback_upstream E ''fallback_upstreams'') (enumerate 0 (pf_fallback_upstreams c)) = Inr fallbacks"
      "map_res (parse_upstream E) (enumerate 0 (pf_upstreams c)) = Inr upstreams"
      "resolve_model_routes E (pf_model_routes c) = Inr routes"
    and lists: "cf_fallback_upstreams cfg = fallbacks" "cf_upstreams cfg = upstreams" "cf_model_routes cfg = routes"
    and rest: "cf_min_completion_tokens cfg = max (pf_min_completion_tokens c) 1"
      "cf_max_sse_frame_bytes cfg = max (pf_max_sse_frame_bytes c) 1024"
      "cf_max_request_body_bytes cfg = max (pf_max_request_body_bytes c) 1024"
      "cf_image_cache_max_size cfg = max (pf_image_cache_max_size c) 1"
      "cf_upstream_api_key cfg = trim_nonempty (pf_upstream_api_key c)"
      "cf_upstream_model cfg = trim_nonempty (pf_upstream_model c)"
      "cf_upstream_request_log_path cfg = trim_nonempty (pf_upstream_request_log_path c)"
      "cf_turn_capture_dir cfg = trim_nonempty (pf_turn_capture_dir c)"
      "cf_brave_api_key cfg = trim_nonempty (pf_brave_api_key c)"
      "cf_vision_model cfg = trim_nonempty (pf_vision_model c)"
      "cf_system_prompt_prefix cfg = keep_nonblank (pf_system_prompt_prefix c)"
      "cf_template_family cfg = normalize_template_family (pf_template_family c)"
      "cf_price_table cfg = retain_finite_prices (pf_price_table c)"
    by (auto simp: from_persisted_def bind_res_Inr)
  have "list_all sane_fallback fallbacks" "list_all sane_upstream upstreams" "list_all sane_route routes"
    using map_res_all [OF parsed(1) sane_parsed_fallback] map_res_all [OF parsed(2) sane_parsed_upstream]
      map_res_all [OF parsed(3) [unfolded resolve_model_routes_def] sane_resolved_route] by simp_all
  then show ?thesis
    unfolding sane_config_def lists rest using normalized_family finite_retained kept_nonblank by simp
qed

lemma loaded_from_persisted: "from_env_file_and_routes E loaded specs = Inr cfg
    \<Longrightarrow> \<exists>p c. loaded = Inr p \<and> merge_route_specs E specs (apply_env_overrides E p) = Inr c
      \<and> from_persisted E c = Inr cfg"
  by (auto simp: from_env_file_and_routes_def bind_res_Inr)

subsection \<open>The clients that are built\<close>

fun upstream_clients :: "gateway_upstream \<Rightarrow> leaf_client list" where
  "upstream_clients (BareUpstream leaf) = [bl_client leaf]"
| "upstream_clients (FailoverUpstream c) = map pr_client (fo_providers c)"
| "upstream_clients (RoutingUpstream c) =
     concat (map (\<lambda>p. map pr_client (fo_providers (rp_client p))) (rc_providers c))
     @ concat (map (\<lambda>p. map pr_client (fo_providers (rtp_client p))) (rc_route_providers c))"

definition is_bare :: "config \<Rightarrow> bool" where
  "is_bare cfg \<longleftrightarrow> \<not> routing_mode cfg \<and> cf_fallback_upstreams cfg = []"

lemmas build_simps = failover_new_def routing_with_routes_def routing_provider_of_def routing_provider_new_def
  route_provider_of_def route_provider_new_def failover_provider_of_def fallback_provider_def

lemma clients_of_routing_provider: "map pr_client (fo_providers (rp_client (routing_provider_of capture cfg u)))
    = map bl_client (upstream_leaf capture cfg u # map (fallback_leaf capture cfg) (uc_fallback_upstreams u))"
  by (simp add: build_simps)

lemma clients_of_route_provider: "map pr_client (fo_providers (rtp_client (route_provider_of capture cfg r)))
    = [bl_client (route_leaf capture cfg r)]"
  by (simp add: build_simps)

lemma clients_built: "upstream_clients (build_upstream capture cfg) =
    (if is_bare cfg then [bl_client (into_bare_primary (primary_leaf capture cfg))]
     else map bl_client (built_leaves capture cfg))"
proof (cases "routing_mode cfg")
  case True
  have "map pr_client (fo_providers (rp_client (routing_provider_of capture cfg u)))
      = bl_client (upstream_leaf capture cfg u) # map (bl_client \<circ> fallback_leaf capture cfg) (uc_fallback_upstreams u)" for u
    by (simp add: clients_of_routing_provider)
  then show ?thesis using True
    by (simp add: build_upstream_def is_bare_def built_leaves_def routing_with_routes_def map_concat o_def
        clients_of_route_provider)
next
  case False
  then show ?thesis
    by (auto simp: build_upstream_def is_bare_def built_leaves_def build_simps)
qed

lemma leaf_of_config: "leaf \<in> set (built_leaves capture cfg) \<Longrightarrow>
    \<exists>url key path. leaf = make_upstream_client capture cfg url key path"
  by (auto simp: built_leaves_def upstream_leaf_def fallback_leaf_def route_leaf_def primary_leaf_def split: if_splits)

text \<open>A client of the gateway: its floors, the policies of the configuration, and its serving tag.\<close>

definition sane_client :: "config \<Rightarrow> leaf_client \<Rightarrow> bool" where
  "sane_client cfg C \<longleftrightarrow> 1 \<le> lc_min_completion_tokens C \<and> 1024 \<le> lc_max_sse_frame_bytes C
     \<and> lc_policies C = finalization_policies_from_config (gateway_of cfg)
     \<and> (lc_tag_primary_provider C \<longleftrightarrow> is_bare cfg)"

lemma sane_clients: "sane_config cfg \<Longrightarrow> list_all (sane_client cfg) (upstream_clients (build_upstream capture cfg))"
  by (auto simp: clients_built list_all_iff sane_client_def sane_config_def into_bare_primary_def primary_leaf_def
      make_upstream_client_def dest!: leaf_of_config)

text \<open>
  C36: Loading. Whatever the file, the environment and the command line hold, a configuration that loads
  has usable bounds (at least one completion token, frames and bodies of at least a kilobyte, a cache of at
  least one image); the global, upstream and fallback API keys, models and request log paths, the capture
  directory, the search key, the vision model, the names of upstreams, fallbacks and routes, the exposed
  model of a fallback and the model of a route are trimmed and not empty where they are given at all; the
  system prompt prefix, which is kept as it is written, is not blank (the texts of the model profiles, the
  role tags among them, are not covered); the glob is compiled exactly for the routes whose name is a
  pattern, the template family is a known one or none, and all prices are finite; and every client built
  from the configuration carries the same policies and floors and names itself the primary only when it
  stands alone.
\<close>

theorem loaded_config_is_sane:
  assumes "from_env_file_and_routes E loaded specs = Inr cfg"
  shows "sane_config cfg \<and> list_all (sane_client cfg) (upstream_clients (build_upstream capture cfg))"
proof -
  have "sane_config cfg" using loaded_from_persisted [OF assms] sane_from_persisted by blast
  then show ?thesis by (simp add: sane_clients)
qed

subsection \<open>The table of routes\<close>

definition route_key :: "string \<Rightarrow> string" where
  "route_key name = ascii_lower (trim name)"

lemma same_route_key: "same_route_name a b \<longleftrightarrow> route_key a = route_key b"
  by (simp add: same_route_name_def eq_ignore_ascii_case_def route_key_def)

lemma upsert_keys: "map (route_key \<circ> fst) (upsert name r rs) =
    (let ks = map (route_key \<circ> fst) rs in if route_key name \<in> set ks then ks else ks @ [route_key name])"
  by (induction rs) (fastforce simp: same_route_key Let_def image_iff split: if_splits)+

lemma upsert_set: "distinct (map (route_key \<circ> fst) rs) \<Longrightarrow>
    set (upsert name r rs) = insert (name, r) {(n, r') \<in> set rs. route_key n \<noteq> route_key name}"
proof (induction rs)
  case (Cons nr rs)
  obtain n r' where nr: "nr = (n, r')" by fastforce
  show ?case
  proof (cases "route_key n = route_key name")
    case True
    then have "route_key m \<noteq> route_key name" if "(m, x) \<in> set rs" for m x
      using Cons.prems that by (force simp: nr)
    with True show ?thesis by (auto simp: nr same_route_key)
  qed (use Cons in \<open>auto simp: nr same_route_key\<close>)
qed simp

text \<open>The reference: names in the order of their first definition, each with its last one.\<close>

definition first_occurrences :: "'a list \<Rightarrow> 'a list" where
  "first_occurrences xs = rev (remdups (rev xs))"

definition last_definition :: "string \<Rightarrow> (string \<times> 'r) list \<Rightarrow> string \<times> 'r" where
  "last_definition name defs = last (filter (\<lambda>(n, _). route_key n = route_key name) defs)"

lemma first_occurrences_snoc: "first_occurrences (xs @ [x]) =
    (if x \<in> set xs then first_occurrences xs else first_occurrences xs @ [x])"
  by (simp add: first_occurrences_def)

lemma set_first_occurrences [simp]: "set (first_occurrences xs) = set xs"
  and distinct_first_occurrences [simp]: "distinct (first_occurrences xs)"
  by (simp_all add: first_occurrences_def)

lemma last_definition_snoc: "last_definition m (defs @ [(n, r)]) =
    (if route_key n = route_key m then (n, r) else last_definition m defs)"
  by (simp add: last_definition_def)

lemma routes_of_entries_table:
  "map (route_key \<circ> fst) (routes_of_entries defs) = first_occurrences (map (route_key \<circ> fst) defs)
    \<and> (\<forall>(n, r) \<in> set (routes_of_entries defs). (n, r) = last_definition n defs)"
proof (induction defs rule: rev_induct)
  case (snoc nr defs)
  obtain n r where nr: "nr = (n, r)" by fastforce
  have step: "routes_of_entries (defs @ [nr]) = upsert n r (routes_of_entries defs)"
    by (simp add: routes_of_entries_def nr)
  have IH: "map (route_key \<circ> fst) (routes_of_entries defs) = first_occurrences (map (route_key \<circ> fst) defs)"
    "\<forall>(n, r) \<in> set (routes_of_entries defs). (n, r) = last_definition n defs"
    using snoc by blast+
  have d: "distinct (map (route_key \<circ> fst) (routes_of_entries defs))" unfolding IH(1) by simp
  have keys: "set (map (route_key \<circ> fst) (routes_of_entries defs)) = set (map (route_key \<circ> fst) defs)"
    unfolding IH(1) by simp
  have "map (route_key \<circ> fst) (routes_of_entries (defs @ [nr])) = first_occurrences (map (route_key \<circ> fst) (defs @ [nr]))"
    unfolding step upsert_keys Let_def keys map_append list.map first_occurrences_snoc IH(1) by (simp add: nr)
  moreover have "\<forall>(m, x) \<in> set (routes_of_entries (defs @ [nr])). (m, x) = last_definition m (defs @ [nr])"
    using IH(2) unfolding step upsert_set [OF d] unfolding nr by (fastforce simp: last_definition_snoc)
  ultimately show ?case by blast
qed (simp add: routes_of_entries_def first_occurrences_def)

lemma env_keeps_routes: "pf_model_routes (apply_env_overrides E c) = pf_model_routes c"
proof -
  have steps: "list_all (\<lambda>step. \<forall>c. pf_model_routes (step c) = pf_model_routes c) (env_steps E)"
    by (simp add: env_steps_def env_text_def env_parsed_def env_api_key_def split: option.split)
  have "list_all (\<lambda>step. \<forall>c. pf_model_routes (step c) = pf_model_routes c) fs
      \<Longrightarrow> pf_model_routes (fold (\<lambda>step. step) fs c) = pf_model_routes c" for fs
    by (induction fs arbitrary: c) auto
  with steps show ?thesis by (simp add: apply_env_overrides_def)
qed

lemma merged_specs:
  "merge_route_specs E specs c = Inr c' \<Longrightarrow> \<exists>defs. map_res (parse_model_route_spec E) specs = Inr defs
    \<and> pf_model_routes c' = fold (\<lambda>(name, route). upsert name route) defs (pf_model_routes c)"
proof (induction specs arbitrary: c)
  case (Cons spec specs)
  then obtain name route where spec: "parse_model_route_spec E spec = Inr (name, route)"
    and rest: "merge_route_specs E specs (c\<lparr>pf_model_routes := upsert name route (pf_model_routes c)\<rparr>) = Inr c'"
    by (auto simp: bind_res_Inr)
  from Cons.IH [OF rest] spec show ?case by (auto simp: bind_res_Inr)
qed simp

lemma from_persisted_routes: "from_persisted E c = Inr cfg
    \<Longrightarrow> map_res (resolve_model_route E) (pf_model_routes c) = Inr (cf_model_routes cfg)"
  by (auto simp: from_persisted_def bind_res_Inr resolve_model_routes_def)

lemma from_persisted_fallbacks: "from_persisted E c = Inr cfg
    \<Longrightarrow> map_res (parse_fallback_upstream E ''fallback_upstreams'') (enumerate 0 (pf_fallback_upstreams c))
      = Inr (cf_fallback_upstreams cfg)"
  by (auto simp: from_persisted_def bind_res_Inr)

lemma loaded_routes:
  assumes "from_env_file_and_routes E (Inr p) specs = Inr cfg" and "pf_model_routes p = routes_of_entries entries"
    and "map_res (parse_model_route_spec E) specs = Inr defs"
  shows "map_res (resolve_model_route E) (routes_of_entries (entries @ defs)) = Inr (cf_model_routes cfg)"
proof -
  from loaded_from_persisted [OF assms(1)] obtain c where c: "merge_route_specs E specs (apply_env_overrides E p) = Inr c"
    "from_persisted E c = Inr cfg" by auto
  from merged_specs [OF c(1)] assms have "pf_model_routes c = routes_of_entries (entries @ defs)"
    by (auto simp: env_keeps_routes routes_of_entries_def)
  with from_persisted_routes [OF c(2)] show ?thesis by simp
qed

lemma map_res_list_all2: "map_res f xs = Inr ys \<Longrightarrow> list_all2 (\<lambda>x y. f x = Inr y) xs ys"
  by (induction xs arbitrary: ys) (auto simp: bind_res_Inr)

lemma resolved_name: "resolve_model_route E (n, r) = Inr x \<Longrightarrow> mr_name x = trim n"
  by (auto simp: resolve_model_route_def Let_def bind_res_Inr split: if_splits option.splits)

lemma route_key_trim [simp]: "route_key (trim n) = route_key n"
  by (simp add: route_key_def)

text \<open>
  C37: Routes. The table of routes has each name once, blanks at the ends and case apart, in the order in
  which the names are first defined, the routes of the file before those of the command line; and every
  name stands for its last definition, so the command line wins over the file without moving a pattern
  that is scanned in order.
\<close>

theorem last_route_definition_wins:
  assumes "from_env_file_and_routes E (Inr p) specs = Inr cfg" and "pf_model_routes p = routes_of_entries entries"
    and "map_res (parse_model_route_spec E) specs = Inr defs"
  shows "map (route_key \<circ> mr_name) (cf_model_routes cfg)
      = first_occurrences (map (route_key \<circ> fst) (entries @ defs))
    \<and> list_all (\<lambda>r. resolve_model_route E (last_definition (mr_name r) (entries @ defs)) = Inr r) (cf_model_routes cfg)"
proof -
  let ?table = "routes_of_entries (entries @ defs)"
  have resolved: "list_all2 (\<lambda>e r. resolve_model_route E e = Inr r) ?table (cf_model_routes cfg)"
    by (rule map_res_list_all2 [OF loaded_routes [OF assms]])
  have keys: "map (route_key \<circ> fst) ?table = first_occurrences (map (route_key \<circ> fst) (entries @ defs))"
    and last_defs: "\<forall>(n, r) \<in> set ?table. (n, r) = last_definition n (entries @ defs)"
    using routes_of_entries_table [of "entries @ defs"] by blast+
  have "map (route_key \<circ> mr_name) (cf_model_routes cfg) = map (route_key \<circ> fst) ?table"
    using resolved by (induction rule: list_all2_induct) (auto dest: resolved_name)
  moreover have here: "last_definition (mr_name r) (entries @ defs) = e"
    if "e \<in> set ?table" "resolve_model_route E e = Inr r" for e r
    using that last_defs by (cases e) (auto simp: last_definition_def dest!: resolved_name)
  have "list_all (\<lambda>r. resolve_model_route E (last_definition (mr_name r) (entries @ defs)) = Inr r)
      (cf_model_routes cfg)"
    unfolding list_all_length
  proof (intro allI impI)
    fix i assume "i < length (cf_model_routes cfg)"
    with resolved have i: "?table ! i \<in> set ?table" "resolve_model_route E (?table ! i) = Inr (cf_model_routes cfg ! i)"
      by (simp_all add: list_all2_conv_all_nth)
    with here [OF i] show "resolve_model_route E (last_definition (mr_name (cf_model_routes cfg ! i)) (entries @ defs))
        = Inr (cf_model_routes cfg ! i)" by simp
  qed
  ultimately show ?thesis using keys by simp
qed

subsection \<open>Where a request for a route goes\<close>

lemma upsert_find: "find (\<lambda>(n, r). route_key n = k) (upsert name route rs) =
    (if route_key name = k then Some (name, route) else find (\<lambda>(n, r). route_key n = k) rs)"
  by (induction rs) (auto simp: same_route_key)

lemma find_list_all2:
  "list_all2 R xs ys \<Longrightarrow> (\<And>x y. R x y \<Longrightarrow> P x \<longleftrightarrow> Q y) \<Longrightarrow> find P xs = Some x
    \<Longrightarrow> \<exists>y. R x y \<and> find Q ys = Some y"
proof (induction rule: list_all2_induct)
  case (Cons x' xs y' ys)
  then show ?case by (cases "P x'") auto
qed simp

lemma byte_lower_no_letter:
  assumes "\<not> (65 \<le> (of_char g :: nat) \<and> of_char g \<le> (90 :: nat))" "\<not> (97 \<le> (of_char g :: nat) \<and> of_char g \<le> (122 :: nat))"
  shows "byte_lower c = g \<longleftrightarrow> c = g"
proof (cases "65 \<le> (of_char c :: nat) \<and> of_char c \<le> (90 :: nat)")
  case True
  then have "of_char (byte_lower c) = (of_char c :: nat) + 32" by (simp add: byte_lower_def Let_def of_char_of)
  with True assms show ?thesis by auto
qed (use assms in \<open>auto simp: byte_lower_def Let_def\<close>)

lemma glob_pattern_lower: "is_glob_pattern (ascii_lower s) = is_glob_pattern s"
  by (simp add: is_glob_pattern_def ascii_lower_def byte_lower_no_letter)

lemma parsed_spec:
  assumes "parse_model_route_spec E spec = Inr (name, route)"
  shows "clean name" and "\<exists>base. pr_route_base_url route = Some base \<and> clean base"
    and "clean_option (pr_route_upstream_model route)"
  using assms
  by (auto simp: parse_model_route_spec_def Let_def bind_res_Inr clean_def clean_option_def
      split: option.splits prod.splits if_splits)

lemma trim_nonempty_clean: "clean_option v \<Longrightarrow> trim_nonempty v = v"
  by (cases v) (auto simp: clean_option_def clean_def trim_nonempty_def)

text \<open>
  C38: Dispatch of a route. After the command line ended with a route of a literal name, every request whose
  model is that name, blanks at its ends and case apart, is sent to a provider of the URL of that route, under
  the model of the route when it names one and under the requested model otherwise, as long as the catalog
  with these routes advertises no model of exactly the requested name: a catalog id goes before a route.
\<close>

theorem cli_route_is_dispatched:
  assumes load: "from_env_file_and_routes E loaded (specs @ [spec]) = Inr cfg"
    and spec: "parse_model_route_spec E spec = Inr (name, route)" and literal: "\<not> is_glob_pattern name"
    and cat: "cat_routes cat = map route_spec_of (enumerate 0 (cf_model_routes cfg))"
      "first_exact (trim requested) (cat_provider_catalogs cat) = None"
    and requested: "eq_ignore_ascii_case name (trim requested)"
  shows "\<exists>c i p url. build_upstream capture cfg = RoutingUpstream c \<and> cat_routes cat = rc_routes c
    \<and> resolve requested cat = Some (RRoute i
        (case pr_route_upstream_model route of Some m \<Rightarrow> m | None \<Rightarrow> trim requested), MatchRoute)
    \<and> route_provider_at i c = Inr p \<and> ce_parse_url E (the (pr_route_base_url route)) = Inr url
    \<and> map pr_base_url (fo_providers (rtp_client p)) = [url]"
proof -
  let ?m = "trim requested" and ?k = "route_key name" and ?routes = "cf_model_routes cfg"
  let ?Q = "\<lambda>s. mrs_glob s = None \<and> eq_ignore_ascii_case (mrs_name s) ?m"
  have name: "clean name" using parsed_spec(1) [OF spec] .
  have k: "?k = ascii_lower ?m" using name requested by (simp add: route_key_def clean_def eq_ignore_ascii_case_def)
  obtain p c where p: "merge_route_specs E (specs @ [spec]) (apply_env_overrides E p) = Inr c" "from_persisted E c = Inr cfg"
    using loaded_from_persisted [OF load] by blast
  from merged_specs [OF p(1)] obtain defs rs where "map_res (parse_model_route_spec E) (specs @ [spec]) = Inr defs"
    and defs: "pf_model_routes c = fold (\<lambda>(name, route). upsert name route) defs rs" by blast
  then obtain before where "defs = before @ [(name, route)]"
    using spec map_res_list_all2 [of "parse_model_route_spec E" "specs @ [spec]" defs]
    by (auto simp: list_all2_append1 list_all2_Cons1)
  with defs obtain rs' where "pf_model_routes c = upsert name route rs'" by simp
  then have found: "find (\<lambda>(n, r). route_key n = ?k) (pf_model_routes c) = Some (name, route)" by (simp add: upsert_find)
  define R where "R = (\<lambda>x s. \<exists>i r. s = route_spec_of (i, r) \<and> i < length ?routes \<and> ?routes ! i = r
    \<and> resolve_model_route E x = Inr r)"
  have all2: "list_all2 R (pf_model_routes c) (map route_spec_of (enumerate 0 ?routes))"
    using map_res_list_all2 [OF from_persisted_routes [OF p(2)]]
    by (auto simp: R_def list_all2_conv_all_nth nth_enumerate_eq)
  have same: "(case x of (n, r) \<Rightarrow> route_key n = ?k) \<longleftrightarrow> ?Q s" if "R x s" for x s
  proof -
    obtain n r where x: "x = (n, r)" by fastforce
    from that obtain i y where y: "s = route_spec_of (i, y)" "resolve_model_route E (n, r) = Inr y" by (auto simp: R_def x)
    have nm: "mr_name y = trim n" "mr_glob y \<noteq> None \<longleftrightarrow> is_glob_pattern (trim n)"
      using resolved_name [OF y(2)] sane_resolved_route [OF y(2)] by (simp_all add: sane_route_def)
    have "\<not> is_glob_pattern (trim n)" if "route_key n = ?k"
      using that literal name glob_pattern_lower by (metis clean_def route_key_def)
    then show ?thesis using nm k by (auto simp: x y(1) route_spec_of_def route_key_def eq_ignore_ascii_case_def)
  qed
  have "\<exists>s. R (name, route) s \<and> find ?Q (map route_spec_of (enumerate 0 ?routes)) = Some s"
    by (rule find_list_all2 [OF all2 _ found]) (rule same)
  then obtain i r where i: "i < length ?routes" "?routes ! i = r"
    and r: "resolve_model_route E (name, route) = Inr r"
    and match: "find ?Q (map route_spec_of (enumerate 0 ?routes)) = Some (route_spec_of (i, r))"
    by (auto simp: R_def)
  from parsed_spec(2,3) [OF spec] obtain base url where base: "pr_route_base_url route = Some base" "clean base"
    "clean_option (pr_route_upstream_model route)" by blast
  then have tb: "trim_nonempty (pr_route_base_url route) = Some base"
    using trim_nonempty_clean [of "Some base"] by (simp add: clean_option_def)
  from r tb base obtain url where url: "ce_parse_url E base = Inr url" "mr_upstream_base_url r = url"
    "mr_upstream_model r = pr_route_upstream_model route"
    by (auto simp: resolve_model_route_def Let_def bind_res_Inr trim_nonempty_clean split: if_splits)
  have "?m \<noteq> []" using requested name by (metis ascii_lower_Nil clean_def eq_ignore_ascii_case_def)
  moreover have "routing_mode cfg" using i by (auto simp: routing_mode_def)
  ultimately show ?thesis
    using i url base cat match
    by (auto simp: build_upstream_def routing_with_routes_def resolve_def match_route_def route_spec_of_def
        route_provider_at_def slice_get_def route_provider_of_def route_provider_new_def failover_new_def)
qed

subsection \<open>The directories of logs\<close>

lemma push_dir_components: "path_components ` set (push_dir dir dirs)
    = path_components ` (set_option dir \<union> set dirs)"
  by (auto simp: push_dir_def list_ex_iff same_path_def split: option.splits)

lemma push_dir_distinct: "distinct (map path_components dirs) \<Longrightarrow> distinct (map path_components (push_dir dir dirs))"
  by (auto simp: push_dir_def list_ex_iff same_path_def split: option.splits)

lemma fold_push_dir: "path_components ` set (fold (\<lambda>path. push_dir (log_dir path)) paths dirs)
    = path_components ` (set (List.map_filter log_dir paths) \<union> set dirs)
    \<and> (distinct (map path_components dirs)
       \<longrightarrow> distinct (map path_components (fold (\<lambda>path. push_dir (log_dir path)) paths dirs)))"
proof (induction paths arbitrary: dirs)
  case (Cons path paths)
  then show ?case
    using push_dir_distinct [of dirs "log_dir path"]
    by (cases "log_dir path") (auto simp: push_dir_components image_Un map_filter_simps push_dir_def list_ex_iff same_path_def)
qed (simp add: map_filter_simps)

text \<open>The log files that the built clients write.\<close>

definition written_logs :: "config \<Rightarrow> string option set" where
  "written_logs cfg = bl_log_path ` set (built_leaves False cfg)"

lemma leaf_log_paths: "bl_log_path (upstream_leaf capture cfg u) = uc_upstream_request_log_path u"
  "bl_log_path (fallback_leaf capture cfg f) = fb_upstream_request_log_path f"
  "bl_log_path (route_leaf capture cfg r) = cf_upstream_request_log_path cfg"
  "bl_log_path (primary_leaf capture cfg) = cf_upstream_request_log_path cfg"
  by (simp_all add: upstream_leaf_def fallback_leaf_def route_leaf_def primary_leaf_def make_upstream_client_def)

lemma logs_in_order: "map bl_log_path (built_leaves capture cfg) =
    (if routing_mode cfg then concat (map upstream_log_paths (cf_upstreams cfg))
       @ map (\<lambda>_. cf_upstream_request_log_path cfg) (cf_model_routes cfg)
     else cf_upstream_request_log_path cfg # map fb_upstream_request_log_path (cf_fallback_upstreams cfg))"
  by (simp add: built_leaves_def map_concat o_def leaf_log_paths upstream_log_paths_def [abs_def])

lemma logs_of_leaves: "written_logs cfg =
    (if routing_mode cfg then
       (\<Union>u \<in> set (cf_upstreams cfg). set (upstream_log_paths u))
       \<union> (if cf_model_routes cfg = [] then {} else {cf_upstream_request_log_path cfg})
     else insert (cf_upstream_request_log_path cfg) (fb_upstream_request_log_path ` set (cf_fallback_upstreams cfg)))"
  using arg_cong [OF logs_in_order [of False cfg], of set]
  by (simp add: written_logs_def image_constant_conv)

text \<open>Routes alone, with global fallbacks that routing ignores.\<close>

definition idle_fallbacks :: "config \<Rightarrow> bool" where
  "idle_fallbacks cfg \<longleftrightarrow> cf_upstreams cfg = [] \<and> cf_model_routes cfg \<noteq> [] \<and> cf_fallback_upstreams cfg \<noteq> []"

lemma debug_log_paths_written:
  "written_logs cfg \<subseteq> set (debug_log_paths cfg)" "\<not> idle_fallbacks cfg \<Longrightarrow> set (debug_log_paths cfg) = written_logs cfg"
  by (auto simp: logs_of_leaves debug_log_paths_def routing_mode_def idle_fallbacks_def)

text \<open>
  Log rotation. The directories that log rotation cleans are pairwise different paths, and include the
  directory of every log file that a built client writes and the capture directory; and they are no others,
  unless the configuration has routes and global fallbacks but no upstreams, where the fallbacks are never
  built and their directories are cleaned all the same.
\<close>

theorem log_dirs_are_written_dirs:
  "distinct (map path_components (debug_log_dirs cfg))
   \<and> path_components ` ((\<Union>path \<in> written_logs cfg. set_option (log_dir path)) \<union> set_option (cf_turn_capture_dir cfg))
       \<subseteq> path_components ` set (debug_log_dirs cfg)
   \<and> (\<not> idle_fallbacks cfg \<longrightarrow> path_components ` set (debug_log_dirs cfg)
       = path_components ` ((\<Union>path \<in> written_logs cfg. set_option (log_dir path)) \<union> set_option (cf_turn_capture_dir cfg)))"
proof -
  let ?dirs = "\<lambda>paths. \<Union>path \<in> paths. set_option (log_dir path)"
  have "set (List.map_filter log_dir paths) = ?dirs (set paths)" for paths
    by (induction paths) (auto simp: map_filter_simps split: option.splits)
  then have all: "path_components ` set (debug_log_dirs cfg)
      = path_components ` (?dirs (set (debug_log_paths cfg)) \<union> set_option (cf_turn_capture_dir cfg))"
    using fold_push_dir [of "debug_log_paths cfg" "[]"]
    by (simp add: debug_log_dirs_def push_dir_components image_Un Un_commute)
  moreover have "distinct (map path_components (debug_log_dirs cfg))"
    unfolding debug_log_dirs_def using fold_push_dir [of "debug_log_paths cfg" "[]"]
    by (intro push_dir_distinct) simp
  ultimately show ?thesis
    using debug_log_paths_written [of cfg] by (auto simp: all)
qed

subsection \<open>A configuration\<close>

definition sample_config_env :: config_env where
  "sample_config_env = \<lparr>ce_var = (\<lambda>name. if name = ''LLMCONDUIT_TURN_CAPTURE_DIR'' then Some ''/t/'' else None),
     ce_json_map = (\<lambda>_. None), ce_price_table = (\<lambda>_. None), ce_parse_addr = (\<lambda>_. Inr (IpV4 127 0 0 1, 4000)),
     ce_parse_url = Inr, ce_debug_str = (\<lambda>s. s), ce_regex_escape = (\<lambda>c. [c]), ce_regex_new = (\<lambda>_. Inl [])\<rparr>"

definition sample_entries_in_file :: "(string \<times> persisted_model_route) list" where
  "sample_entries_in_file = [(''m'', \<lparr>pr_route_base_url = Some ''u'', pr_route_upstream_model = None\<rparr>)]"

definition sample_persisted :: persisted_config where
  "sample_persisted = persisted_config_default\<lparr>pf_model_routes := routes_of_entries sample_entries_in_file,
     pf_upstream_request_log_path := Some ''/a/x.log''\<rparr>"

definition sample_loaded :: config where
  "sample_loaded = projr (from_env_file_and_routes sample_config_env (Inr sample_persisted) [''M=v,w''])"

lemma sample_spec: "parse_model_route_spec sample_config_env ''M=v,w''
    = Inr (''M'', \<lparr>pr_route_base_url = Some ''v'', pr_route_upstream_model = Some ''w''\<rparr>)"
  by (simp add: parse_model_route_spec_def split_once_def trim_no_ws sample_config_env_def)

lemma sample_env_applied: "apply_env_overrides sample_config_env c = c\<lparr>pf_turn_capture_dir := Some ''/t/''\<rparr>"
  by (simp add: apply_env_overrides_def env_steps_def env_text_def env_parsed_def env_api_key_def
      sample_config_env_def trim_no_ws)

lemma sample_same_name: "same_route_name ''m'' ''M''"
  by code_simp

lemma sample_table: "merge_route_specs sample_config_env [''M=v,w''] (sample_persisted\<lparr>pf_turn_capture_dir := Some ''/t/''\<rparr>)
    = Inr (sample_persisted\<lparr>pf_turn_capture_dir := Some ''/t/'', pf_model_routes :=
        [(''M'', \<lparr>pr_route_base_url = Some ''v'', pr_route_upstream_model = Some ''w''\<rparr>)]\<rparr>)"
  by (simp add: sample_spec sample_persisted_def routes_of_entries_def sample_entries_in_file_def sample_same_name)

lemma sample_loads:
  "from_env_file_and_routes sample_config_env (Inr sample_persisted) [''M=v,w''] = Inr sample_loaded"
proof -
  have "\<exists>cfg. from_persisted sample_config_env (sample_persisted\<lparr>pf_turn_capture_dir := Some ''/t/'', pf_model_routes :=
        [(''M'', \<lparr>pr_route_base_url = Some ''v'', pr_route_upstream_model = Some ''w''\<rparr>)]\<rparr>) = Inr cfg"
    by (simp add: from_persisted_def sample_persisted_def persisted_config_default_def sample_config_env_def
        resolve_model_profiles_def resolve_model_routes_def resolve_model_route_def trim_nonempty_def trim_no_ws
        is_glob_pattern_def parse_vision_url_def enumerate_eq_zip)
  then show ?thesis
    by (auto simp: sample_loaded_def from_env_file_and_routes_def sample_env_applied sample_table
        simp del: merge_route_specs.simps)
qed

lemma loaded_config_is_sane_witness:
  "sane_config sample_loaded \<and> list_all (sane_client sample_loaded) (upstream_clients (build_upstream True sample_loaded))"
  by (rule loaded_config_is_sane [OF sample_loads])

lemma last_route_definition_wins_witness:
  "map (route_key \<circ> mr_name) (cf_model_routes sample_loaded) = [''m'']"
proof -
  have "map_res (parse_model_route_spec sample_config_env) [''M=v,w'']
      = Inr [(''M'', \<lparr>pr_route_base_url = Some ''v'', pr_route_upstream_model = Some ''w''\<rparr>)]"
    by (simp add: sample_spec)
  from last_route_definition_wins [OF sample_loads _ this, of sample_entries_in_file]
  have "map (route_key \<circ> mr_name) (cf_model_routes sample_loaded) = first_occurrences [route_key ''m'', route_key ''M'']"
    by (simp add: sample_persisted_def) (simp add: sample_entries_in_file_def)
  moreover have "route_key ''m'' = ''m''" "route_key ''M'' = ''m''" by code_simp+
  ultimately show ?thesis by (simp add: first_occurrences_def)
qed

definition sample_catalog :: routing_model_catalog where
  "sample_catalog = catalog_default\<lparr>cat_routes := map route_spec_of (enumerate 0 (cf_model_routes sample_loaded))\<rparr>"

lemma cli_route_is_dispatched_witness: "\<exists>i. resolve '' m '' sample_catalog = Some (RRoute i ''w'', MatchRoute)"
proof -
  have "\<not> is_glob_pattern ''M''" "eq_ignore_ascii_case ''M'' (trim '' m '')" by code_simp+
  moreover have "first_exact (trim '' m '') (cat_provider_catalogs sample_catalog) = None"
    by (simp add: sample_catalog_def catalog_default_def)
  ultimately show ?thesis
    using cli_route_is_dispatched [where specs = "[]" and cat = sample_catalog and requested = "'' m ''" and capture = False,
        unfolded append_Nil, OF sample_loads sample_spec]
    by (auto simp: sample_catalog_def)
qed

lemma log_dirs_are_written_dirs_witness:
  "\<not> idle_fallbacks sample_loaded \<and> path_components ` set (debug_log_dirs sample_loaded)
     = path_components ` ((\<Union>path \<in> written_logs sample_loaded. set_option (log_dir path))
         \<union> set_option (cf_turn_capture_dir sample_loaded))"
proof -
  have "from_persisted sample_config_env (sample_persisted\<lparr>pf_turn_capture_dir := Some ''/t/'', pf_model_routes :=
        [(''M'', \<lparr>pr_route_base_url = Some ''v'', pr_route_upstream_model = Some ''w''\<rparr>)]\<rparr>) = Inr sample_loaded"
    using sample_loads by (simp add: from_env_file_and_routes_def sample_env_applied sample_table
        del: merge_route_specs.simps)
  from from_persisted_fallbacks [OF this] have "\<not> idle_fallbacks sample_loaded"
    by (simp add: idle_fallbacks_def sample_persisted_def persisted_config_default_def enumerate_eq_zip)
  then show ?thesis using log_dirs_are_written_dirs [of sample_loaded] by blast
qed

end
