(* ===== verification/Spec2Isabelle.thy ===== *)
theory Spec2Isabelle
  imports Sse_Guard_Correct Tool_Delta_Gate Lowering_Tools Stream_Calls_Correct Anthropic_Collector Replay
    Chat_Request_Correct Chat_Stream_Correct Backend_Request_Correct Capture_Correct Routing_Correct Engine_Rounds
    Engine_Anthropic Engine_Replay
    Anthropic_Request_Correct Flow_Guards_Correct Dashboard_Auth_Correct Metrics_Correct Config_Correct
begin

text \<open>
  llmconduit is a gateway between LLM clients and OpenAI-compatible inference servers. A client speaks
  the Responses, the Chat Completions or the Anthropic Messages protocol; the gateway turns its
  request into one canonical Responses request, runs a turn of at most a few dozen upstream Chat
  Completions rounds, and turns the canonical events of the turn back into the client's protocol.
  This library models the code of \<^verbatim>\<open>src/src\<close> as definitions that can be evaluated and proves what makes
  each part correct. Each definition is the Rust function or type of the same name (a suffix where the
  name clashes); the map of the development gives the lines.

  Conventions. A Rust \<^verbatim>\<open>String\<close> is a \<open>string\<close> whose characters are the bytes of its UTF-8 encoding, so
  lengths are byte lengths. Structs are records, enums are datatypes, \<^verbatim>\<open>Result<T, AppError>\<close> is
  \<open>app_error + 'a\<close>, \<^verbatim>\<open>BTreeMap\<close>s and JSON objects are key-sorted lists, hash maps are partial
  functions, or association lists with distinct keys where they are counted or walked. \<^verbatim>\<open>&mut self\<close> is
  state passing; what a mutex protects is one atomic operation. Integers are naturals or integers, and
  words or a written-out wrap where the code can leave its width. What a third party computes
  (JSON text, SHA-256, glob and regular expressions, the HTTP exchanges, clocks, UUIDs, derived serde
  code) is a parameter: a function argument, or a field of \<open>engine\<close>, \<open>json_codec\<close> and their like.

  Parts, in the order a request meets them, and their theories.

  \<^item> Errors, text and JSON: \<open>App_Error\<close> (\<^verbatim>\<open>error.rs\<close>), \<open>Text\<close> and \<open>Json\<close> (the string and \<^verbatim>\<open>serde_json::Value\<close>
    operations the sources use), \<open>Prelude\<close> and \<open>Assoc_List\<close> (shared vocabulary and automation).
  \<^item> Data models: \<open>Models_Chat\<close>, \<open>Models_Responses\<close>, \<open>Models_Anthropic\<close> (\<^verbatim>\<open>models/*.rs\<close>).
  \<^item> Inbound adapters: \<open>Chat_Request\<close> (\<^verbatim>\<open>adapters/chat_completions.rs\<close>): \<open>Chat_Request_Correct\<close> shows that
    a Chat request reaches the upstream message by message, and which requests fail. \<open>Anthropic_Request\<close>
    (\<^verbatim>\<open>adapters/anthropic_to_responses.rs\<close>): \<open>Anthropic_Request_Correct\<close> shows that every tool call and
    result of a history reaches the upstream, which requests are rejected, and that the injected
    date line does not matter.
  \<^item> Planning a turn: \<open>Profiles\<close> and \<open>Roles\<close> (model profiles, templates and role rules of \<^verbatim>\<open>config.rs\<close>),
    \<open>Vision\<close> (the image agent of \<^verbatim>\<open>vision/\<close>), \<open>Search\<close> (\<^verbatim>\<open>search.rs\<close>), \<open>Replay\<close> (the history store of
    \<^verbatim>\<open>replay.rs\<close>, with its invariant and its longest-prefix lookup), \<open>Engine_Plan\<close> (what \<^verbatim>\<open>engine.rs\<close>
    settles before it spawns a turn: resolved model, image agent, replay baseline, tools, budget).
  \<^item> Lowering: \<open>Lowering\<close> (\<^verbatim>\<open>adapters/responses_to_chat.rs\<close>); \<open>Lowering_Correct\<close> shows that calls and
    reasoning survive, \<open>Lowering_Tools\<close> that the offered tools, the registry and the classification of
    streamed names agree, and that the message passes are stable.
  \<^item> The turn: \<open>Engine_Events\<close> (the canonical events), \<open>Engine_Turn\<close> and \<open>Engine_Run\<close> (\<^verbatim>\<open>run_turn\<close>: rounds,
    bounded repair of unknown tool calls, search and image analysis, the terminal event, the spawned
    body), with the accumulators \<open>Stream_State\<close> (\<^verbatim>\<open>adapters/chat_to_responses.rs\<close>) and \<open>Tool_Delta_Gate\<close>
    (\<^verbatim>\<open>tool_delta_gate.rs\<close>). \<open>Engine_Steps\<close> is a small calculus of what steps keep, with locales for a walk
    over a round and for the frame of its updates; the properties interpret it: \<open>Engine_Correct\<close>
    (number of requests), \<open>Engine_Protocol\<close> (opening, rounds, one terminal event, and what a failing raw
    mirror does to it), \<open>Engine_Anthropic\<close> (a Messages client sees a well-formed stream of every turn),
    \<open>Engine_Replay\<close> (a replayed conversation stays the prefix of every upstream request),
    \<open>Engine_History\<close> (streamed items, response, history and replay agree), \<open>Engine_Rounds\<close> (usage sums up,
    every call is answered). \<open>Stream_State_Correct\<close> and \<open>Stream_Calls_Correct\<close> show that what is finalized is
    what was streamed, \<open>Engine_Sample\<close> is a concrete turn for the witnesses.
  \<^item> The upstream: \<open>Json_Merge\<close>, \<open>Backend_Request\<close> (defaults, template arguments, sanitizing), \<open>Upstream_Leaf\<close>
    (one server: context overflow, one retry), \<open>Serving\<close> (the per-turn token), \<open>Failover\<close> (cooldowns and
    the chain of providers), \<open>Model_Catalog\<close> and \<open>Routing\<close>, all \<^verbatim>\<open>upstream.rs\<close>; \<open>Sse_Guard\<close> (\<^verbatim>\<open>sse_guard/\<close>).
    Their \<open>_Correct\<close> theories show precedence of the client's values, one retry, failover as a function of
    the log of attempts, that only planned models are dispatched, and that the SSE guard does not depend
    on how the bytes are cut into chunks.
  \<^item> Outbound adapters: \<open>Chat_Stream\<close> (a client reconstructs the turn) and \<open>Anthropic_Stream\<close>,
    \<open>Anthropic_Collector\<close>, \<open>Anthropic_Conformance\<close> (\<^verbatim>\<open>adapters/responses_to_anthropic/\<close>: well-formed streams
    that the shipped checker accepts, and a collected response with the streamed text).
  \<^item> What is kept of a flow: \<open>Redaction\<close> and \<open>Capture\<close> (\<^verbatim>\<open>redaction.rs\<close>).
  \<^item> What the operator sees (\<^verbatim>\<open>dashboard_flow.rs\<close>): \<open>Flow_Store\<close> is the store of flow records under its
    lock, \<open>Flow_Guards\<close> the claim cell, the two guards of a flow and the hub of cancellation tokens.
    \<open>Flow_Store_Correct\<close> bounds the store for every sequence of operations and shows that a client's cursor
    misses no change; \<open>Flow_Guards_Correct\<close> is a system of requests, engines and operators in any
    interleaving: a terminal outcome is never overwritten, and an open flow always has a live owner.
    The final write of telemetry, which takes its locks in turn, is one step there.
    \<open>Dashboard_Auth\<close> (\<^verbatim>\<open>dashboard_auth.rs\<close>, the startup of \<^verbatim>\<open>lib.rs\<close>, the kill route of \<^verbatim>\<open>http.rs\<close>) is the access
    control; \<open>Dashboard_Auth_Correct\<close> shows what a public deployment demands of every request, how long a
    login lasts, and which origins may open a socket.
    \<open>Metrics\<close> (\<^verbatim>\<open>metrics.rs\<close>) holds the rings of one-second slots, the histograms and the ring of snapshots,
    with real numbers for floats (in \<^verbatim>\<open>f64\<close> the top edge of the histogram is one rounding step above two minutes); \<open>Metrics_Correct\<close> proves over a locale of slot tallies that every window reports
    exactly the flows of its seconds, that percentiles fall in the bucket of the exact percentile, and that
    time travel returns the newest snapshot not after the asked instant.
  \<^item> Configuration (\<^verbatim>\<open>config.rs\<close>, \<^verbatim>\<open>lib.rs\<close>): \<open>Config_Load\<close> is the persisted form with its defaults, decoders and the
    overrides of the environment, \<open>Config_Build\<close> the globs, routes and upstreams, the validated \<^verbatim>\<open>Config\<close>, the
    directories of logs, and the clients built from it. \<open>Config_Correct\<close> proves what holds of every
    configuration that loads and of every client built, which definition of a route counts, and that
    a route of the command line is where its requests go.

  Bounds and fuel. \<open>run_rounds\<close> terminates by \<open>round_budget\<close>: 1 repair, at most 24 search and 7 analysis
  rounds can go on, so at most 33 requests are made. The capture's recursion has fuel
  \<open>3 * length + 1\<close>, enough for every text (\<open>Capture_Correct\<close>). The other recursions are structural or have
  a measure; no definition is partial.

  What the theorems do not say. The upstream, the search and the vision backends are arbitrary
  functions of what they are asked, so nothing is claimed of their answers. Tasks are interleaved
  only where the code shares state behind a lock (failover health, replay store, flow store and its
  guards): there the theorems
  range over all orders of the atomic operations.

  Not modelled.
  \<^item> Pure input and output: \<^verbatim>\<open>main.rs\<close>, \<^verbatim>\<open>cli.rs\<close>, the spawned tasks of \<^verbatim>\<open>lib.rs\<close>, the listeners and axum extractors of \<^verbatim>\<open>http.rs\<close>,
    log files (\<^verbatim>\<open>log_rotation.rs\<close>, \<^verbatim>\<open>request_log.rs\<close>, \<^verbatim>\<open>raw.rs\<close>), and the embedded pages of \<^verbatim>\<open>debug_ui.rs\<close> and
    \<^verbatim>\<open>dashboard_ui.rs\<close>.
  \<^item> The operator's dashboard: \<^verbatim>\<open>dashboard_api.rs\<close>,
    \<^verbatim>\<open>dashboard_ws.rs\<close>, \<^verbatim>\<open>monitor.rs\<close> and \<^verbatim>\<open>turn_capture.rs\<close>: they observe
    turns and do not take part in them.
  \<^item> The parsers behind the configuration (YAML, TOML, URLs, addresses, regular expressions), which are
    parameters, and the command that writes the file.
\<close>

end
